(* ===== verification/Prelude.thy ===== *)
theory Prelude
  imports Complex_Main
begin

text \<open>
  Shared vocabulary of the development: Python exceptions as values of a sum type, the
  sequencing operator over them, the lemma collections, and two interfaces that several
  components provide.
  \<^item> \<open>step_invariant\<close>: a state machine given by a step function, an initial state and an
    invariant; its client lemma lifts the one-step law to whole runs.
  \<^item> \<open>ticket_ledger\<close>: a store of per-ticket facts; its client lemmas say that the facts of
    one position are never touched by the operations on another.
\<close>

section \<open>Exceptions as values\<close>

datatype py_error =
    ValueError | TypeError | OverflowError | ZeroDivisionError | KeyError | IndexError

type_synonym 'a res = "py_error + 'a"

definition ret :: "'a \<Rightarrow> 'a res" where
  "ret x = Inr x"

definition raise :: "py_error \<Rightarrow> 'a res" where
  "raise e = Inl e"

fun bindR :: "'a res \<Rightarrow> ('a \<Rightarrow> 'b res) \<Rightarrow> 'b res" where
  "bindR (Inl e) f = Inl e"
| "bindR (Inr x) f = f x"

lemma bindR_eq_Inr: "bindR m f = Inr y \<longleftrightarrow> (\<exists>x. m = Inr x \<and> f x = Inr y)"
  by (cases m) auto

lemma bindR_cong [fundef_cong]:
  "m = n \<Longrightarrow> (\<And>x. n = Inr x \<Longrightarrow> f x = g x) \<Longrightarrow> bindR m f = bindR n g"
  by (cases n) auto

lemma bindR_ret [simp]: "bindR (ret x) f = f x"
  by (simp add: ret_def)

lemma ret_inject [simp]: "ret x = Inr y \<longleftrightarrow> x = y"
  by (simp add: ret_def)

lemma ret_eq_ret [simp]: "ret x = ret y \<longleftrightarrow> x = y"
  by (simp add: ret_def)

lemma raise_not_Inr [simp]: "raise e \<noteq> Inr y" "Inr y \<noteq> raise e"
  by (simp_all add: raise_def)

lemma raise_not_ret [simp]: "raise e \<noteq> ret y" "ret y \<noteq> raise e"
  by (simp_all add: raise_def ret_def)

section \<open>Lemma collections\<close>

named_theorems flt_simps \<open>evaluation rules of binary64 arithmetic\<close>
named_theorems gate_defs \<open>the admission checks of the order path\<close>

section \<open>Runs of a step function\<close>

text \<open>\<^verbatim>\<open>d.get(key, default)\<close> on the optional entry of a dictionary.\<close>

definition getd :: "'a option \<Rightarrow> 'a \<Rightarrow> 'a" where
  "getd x d = (case x of None \<Rightarrow> d | Some v \<Rightarrow> v)"

lemma getd_simps [simp]: "getd None d = d" "getd (Some v) d = v"
  by (simp_all add: getd_def)

text \<open>
  A component that is driven by a sequence of events is a function from a state and an
  event to a state; a run is the left fold of that function.
\<close>

definition run :: "('s \<Rightarrow> 'e \<Rightarrow> 's) \<Rightarrow> 's \<Rightarrow> 'e list \<Rightarrow> 's" where
  "run step s es = foldl step s es"

lemma run_Nil [simp]: "run step s [] = s"
  and run_Cons [simp]: "run step s (e # es) = run step (step s e) es"
  and run_append: "run step s (es @ fs) = run step (run step s es) fs"
  and run_snoc: "run step s (es @ [e]) = step (run step s es) e"
  by (simp_all add: run_def)

locale step_invariant =
  fixes step :: "'s \<Rightarrow> 'e \<Rightarrow> 's"
    and init :: "'s"
    and inv :: "'s \<Rightarrow> bool"
  assumes inv_init: "inv init"
    and inv_step: "inv s \<Longrightarrow> inv (step s e)"
begin

lemma inv_run_from: "inv s \<Longrightarrow> inv (run step s es)"
  by (induction es arbitrary: s) (auto intro: inv_step)

lemma inv_run: "inv (run step init es)"
  by (rule inv_run_from [OF inv_init])

end

text \<open>
  A step that can only move an observation upwards in a preorder: the observation of a
  later state of a run is at least that of an earlier one.
\<close>

locale monotone_step =
  fixes step :: "'s \<Rightarrow> 'e \<Rightarrow> 's"
    and obs :: "'s \<Rightarrow> 'v"
    and below :: "'v \<Rightarrow> 'v \<Rightarrow> bool"
  assumes below_refl: "below v v"
    and below_trans: "below u v \<Longrightarrow> below v w \<Longrightarrow> below u w"
    and step_below: "below (obs s) (obs (step s e))"
begin

lemma run_below: "below (obs s) (obs (run step s es))"
proof (induction es arbitrary: s)
  case Nil
  then show ?case by (simp add: below_refl)
next
  case (Cons e es)
  have "below (obs (step s e)) (obs (run step (step s e) es))"
    by (rule Cons.IH)
  then show ?case
    using below_trans [OF step_below] by simp
qed

lemma run_below_prefix: "below (obs (run step s es)) (obs (run step s (es @ fs)))"
  by (simp add: run_append run_below)

end

section \<open>Ledgers of per-ticket facts\<close>

text \<open>
  The execution layer keeps one dictionary entry (or several) per broker ticket. Such a
  ledger has a view of one ticket, operations that name a ticket, and a release operation.
\<close>

locale ticket_ledger =
  fixes view :: "'s \<Rightarrow> int \<Rightarrow> 'v"
    and absent :: "'v"
    and apply_op :: "int \<Rightarrow> 'op \<Rightarrow> 's \<Rightarrow> 's"
    and drop :: "int \<Rightarrow> 's \<Rightarrow> 's"
  assumes apply_frame: "t \<noteq> t' \<Longrightarrow> view (apply_op t x s) t' = view s t'"
    and drop_view: "view (drop t s) t = absent"
    and drop_frame: "t \<noteq> t' \<Longrightarrow> view (drop t s) t' = view s t'"
begin

definition apply_all :: "(int \<times> 'op) list \<Rightarrow> 's \<Rightarrow> 's" where
  "apply_all xs s = run (\<lambda>s (t, x). apply_op t x s) s xs"

lemma apply_all_frame:
  "t \<notin> fst ` set xs \<Longrightarrow> view (apply_all xs s) t = view s t"
  unfolding apply_all_def
  by (induction xs arbitrary: s) (auto simp: apply_frame split: prod.splits)

lemma dropped_stays_absent:
  "t \<notin> fst ` set xs \<Longrightarrow> view (apply_all xs (drop t s)) t = absent"
  by (simp add: apply_all_frame drop_view)

end

end
