(* ===== verification/PyFloat.thy ===== *)
theory PyFloat
  imports Prelude
begin

text \<open>
  Python's \<^verbatim>\<open>float\<close>: IEEE-754 binary64 with round-to-nearest, ties-to-even. A finite value
  is the rational number it denotes; the arithmetic operations compute the exact rational
  result and round it once, as the standard prescribes, and overflow to an infinity.
  Comparisons are those of IEEE-754, so every comparison with a NaN is false. The sign of
  a zero is not kept: no operation modelled here can tell \<^verbatim>\<open>-0.0\<close> from \<^verbatim>\<open>0.0\<close>
  (Python raises on a division by either).
\<close>

section \<open>Powers of two and binary exponents\<close>

definition pow2 :: "int \<Rightarrow> rat" where
  "pow2 k = 2 powi k"

lemma pow2_pos [simp]: "0 < pow2 k"
  by (simp add: pow2_def)

lemma pow2_nonneg [simp]: "0 \<le> pow2 k" and pow2_neq_0 [simp]: "pow2 k \<noteq> 0"
  using pow2_pos [of k] by (simp_all add: less_imp_le less_imp_neq [symmetric] del: pow2_pos)

lemma pow2_0 [simp]: "pow2 0 = 1"
  by (simp add: pow2_def)

lemma pow2_add: "pow2 (j + k) = pow2 j * pow2 k"
  by (simp add: pow2_def power_int_add)

lemma pow2_1 [simp]: "pow2 1 = 2"
  by (simp add: pow2_def)

lemma pow2_Suc: "pow2 (k + 1) = 2 * pow2 k"
  by (simp add: pow2_def power_int_add)

lemma pow2_mono: "j \<le> k \<Longrightarrow> pow2 j \<le> pow2 k"
  unfolding pow2_def by (rule power_int_increasing) auto

lemma pow2_less: "j < k \<Longrightarrow> pow2 j < pow2 k"
  unfolding pow2_def by (rule power_int_strict_increasing) auto

lemma pow2_less_iff: "pow2 j < pow2 k \<longleftrightarrow> j < k"
  by (meson leD linorder_not_less pow2_less pow2_mono)

lemma pow2_diff: "pow2 (j - k) = pow2 j / pow2 k"
  by (simp add: pow2_def power_int_diff)

lemma pow2_nat: "0 \<le> k \<Longrightarrow> pow2 k = of_int (2 ^ nat k)"
  by (simp add: pow2_def power_int_def)

function ilog :: "int \<Rightarrow> int" where
  "ilog n = (if n \<le> 1 then 0 else 1 + ilog (n div 2))"
  by pat_completeness auto
termination
  by (relation "measure nat") auto

declare ilog.simps [simp del]

lemma ilog_nonneg: "0 \<le> ilog n"
proof (induction n rule: ilog.induct)
  case (1 n)
  then show ?case by (subst ilog.simps) simp
qed

lemma ilog_bounds: "1 \<le> n \<Longrightarrow> pow2 (ilog n) \<le> of_int n \<and> of_int n < pow2 (ilog n + 1)"
proof (induction n rule: ilog.induct)
  case (1 n)
  show ?case
  proof (cases "n \<le> 1")
    case True
    with "1.prems" have "n = 1" by simp
    then show ?thesis by (simp add: ilog.simps pow2_Suc)
  next
    case False
    let ?k = "ilog (n div 2)"
    have IH: "pow2 ?k \<le> of_int (n div 2)" "of_int (n div 2) < pow2 (?k + 1)"
      using 1 False by auto
    have eq: "ilog n = ?k + 1" using False by (subst ilog.simps) simp
    have int: "pow2 (?k + 1) = of_int (2 ^ nat (?k + 1))"
      using ilog_nonneg [of "n div 2"] by (intro pow2_nat) simp
    have "n div 2 < 2 ^ nat (?k + 1)"
      using IH(2) unfolding int of_int_less_iff .
    then have "n < 2 * 2 ^ nat (?k + 1)" by simp
    then have "of_int n < (of_int (2 * 2 ^ nat (?k + 1)) :: rat)"
      by (simp only: of_int_less_iff)
    then have up: "of_int n < pow2 (?k + 1 + 1)"
      using int unfolding pow2_Suc [of "?k + 1"] by simp
    have "2 * (n div 2) \<le> n" by simp
    then have "(of_int (2 * (n div 2)) :: rat) \<le> of_int n" by (simp only: of_int_le_iff)
    then have "pow2 (?k + 1) \<le> of_int n"
      using IH(1) by (simp add: pow2_Suc)
    with up eq show ?thesis by simp
  qed
qed

text \<open>The exponent \<open>e\<close> with \<open>pow2 e \<le> x < pow2 (e + 1)\<close>, for positive \<open>x\<close>.\<close>

definition expo :: "rat \<Rightarrow> int" where
  "expo x = (case quotient_of x of (n, d) \<Rightarrow>
     let k = ilog n - ilog d in if pow2 k \<le> x then k else k - 1)"

lemma expo_bounds:
  assumes "0 < x"
  shows "pow2 (expo x) \<le> x" and "x < pow2 (expo x + 1)"
proof -
  obtain n d where q: "quotient_of x = (n, d)" by (cases "quotient_of x")
  have d: "0 < d" using quotient_of_denom_pos [OF q] .
  have x: "x = of_int n / of_int d" using quotient_of_div [OF q] .
  have n: "0 < n" using assms d unfolding x by (simp add: zero_less_divide_iff)
  have bn: "pow2 (ilog n) \<le> of_int n" "of_int n < pow2 (ilog n + 1)"
    and bd: "pow2 (ilog d) \<le> of_int d" "of_int d < pow2 (ilog d + 1)"
    using ilog_bounds [of n] ilog_bounds [of d] n d by auto
  let ?k = "ilog n - ilog d"
  have dpos: "(0::rat) < of_int d" using d by simp
  have "x * of_int d = of_int n" using d by (simp add: x)
  have "x < pow2 (?k + 1)"
  proof -
    have "of_int n < pow2 (ilog n + 1)" by fact
    also have "\<dots> = pow2 (?k + 1) * pow2 (ilog d)"
      by (simp flip: pow2_add)
    also have "\<dots> \<le> pow2 (?k + 1) * of_int d"
      using bd(1) by (intro mult_left_mono) auto
    finally show ?thesis unfolding x using dpos by (simp add: divide_less_eq)
  qed
  moreover have "pow2 (?k - 1) \<le> x"
  proof -
    have "pow2 (?k - 1) * of_int d \<le> pow2 (?k - 1) * pow2 (ilog d + 1)"
      using bd(2) by (intro mult_left_mono) auto
    also have "\<dots> = pow2 (ilog n)" by (simp flip: pow2_add)
    also have "\<dots> \<le> of_int n" by fact
    finally show ?thesis unfolding x using dpos by (simp add: le_divide_eq)
  qed
  ultimately show "pow2 (expo x) \<le> x" "x < pow2 (expo x + 1)"
    by (auto simp: expo_def q Let_def)
qed

lemma expo_unique:
  assumes "pow2 k \<le> x" and "x < pow2 (k + 1)"
  shows "expo x = k"
proof -
  have "0 < x" using assms(1) pow2_pos [of k] by linarith
  note e = expo_bounds [OF this]
  have "pow2 k < pow2 (expo x + 1)" "pow2 (expo x) < pow2 (k + 1)"
    using assms e by linarith+
  then show ?thesis by (simp add: pow2_less_iff)
qed

lemma expo_mono:
  assumes "0 < x" and "x \<le> y"
  shows "expo x \<le> expo y"
proof -
  have "pow2 (expo x) < pow2 (expo y + 1)"
    using expo_bounds [of x] expo_bounds [of y] assms by linarith
  then show ?thesis by (simp add: pow2_less_iff)
qed

section \<open>Rounding a rational to an integer, ties to even\<close>

definition rhe :: "rat \<Rightarrow> int" where
  "rhe x = (let n = \<lfloor>x\<rfloor>; r = x - of_int n in
     if r < 1 / 2 then n else if 1 / 2 < r then n + 1 else if even n then n else n + 1)"

lemma rhe_error: "\<bar>of_int (rhe x) - x\<bar> \<le> 1 / 2"
proof -
  have "of_int \<lfloor>x\<rfloor> \<le> x" "x < of_int \<lfloor>x\<rfloor> + 1" by linarith+
  then show ?thesis by (auto simp: rhe_def Let_def abs_le_iff)
qed

lemma rhe_of_int [simp]: "rhe (of_int n) = n"
  by (simp add: rhe_def)

lemma rhe_0 [simp]: "rhe 0 = 0"
  using rhe_of_int [of 0] by simp

lemma rhe_cases: "rhe x = \<lfloor>x\<rfloor> \<or> rhe x = \<lfloor>x\<rfloor> + 1"
  by (auto simp: rhe_def Let_def)

lemma rhe_mono:
  assumes "x \<le> y"
  shows "rhe x \<le> rhe y"
proof (cases "\<lfloor>x\<rfloor> = \<lfloor>y\<rfloor>")
  case True
  then show ?thesis using assms by (auto simp: rhe_def Let_def)
next
  case False
  with assms have "\<lfloor>x\<rfloor> + 1 \<le> \<lfloor>y\<rfloor>" using floor_mono [OF assms] by simp
  then show ?thesis using rhe_cases [of x] rhe_cases [of y] by auto
qed

lemma rhe_le: "x \<le> of_int n \<Longrightarrow> rhe x \<le> n"
  using rhe_mono [of x "of_int n"] by simp

lemma rhe_ge: "of_int n \<le> x \<Longrightarrow> n \<le> rhe x"
  using rhe_mono [of "of_int n" x] by simp

lemma rhe_uminus: "rhe (- x) = - rhe x"
proof (cases "x = of_int \<lfloor>x\<rfloor>")
  case True
  then show ?thesis by (metis of_int_minus rhe_of_int)
next
  case False
  have lt: "of_int \<lfloor>x\<rfloor> < x" using False by linarith
  then have "\<lfloor>- x\<rfloor> = - \<lfloor>x\<rfloor> - 1" by linarith
  then show ?thesis by (auto simp: rhe_def Let_def)
qed

section \<open>Rounding a rational to binary64\<close>

datatype f64 = Fin rat | PInf | NInf | NaN

definition ulp_exp :: "rat \<Rightarrow> int" where
  "ulp_exp x = max (expo x - 52) (- 1074)"

definition rnd_pos :: "rat \<Rightarrow> rat" where
  "rnd_pos x = of_int (rhe (x / pow2 (ulp_exp x))) * pow2 (ulp_exp x)"

definition rnd :: "rat \<Rightarrow> rat" where
  "rnd x = (if x = 0 then 0 else if 0 < x then rnd_pos x else - rnd_pos (- x))"

definition fl :: "rat \<Rightarrow> f64" where
  "fl x = (let r = rnd x in
     if pow2 1024 \<le> r then PInf else if r \<le> - pow2 1024 then NInf else Fin r)"


lemma rnd_0 [simp]: "rnd 0 = 0"
  by (simp add: rnd_def)

lemma rnd_uminus: "rnd (- x) = - rnd x"
  by (simp add: rnd_def)

lemma rnd_pos_nonneg:
  assumes "0 < x"
  shows "0 \<le> rnd_pos x"
proof -
  have "0 \<le> rhe (x / pow2 (ulp_exp x))"
    using assms by (intro rhe_ge) simp
  then show ?thesis by (simp add: rnd_pos_def)
qed

lemma pow2_on_grid:
  assumes "q \<le> k"
  obtains n where "pow2 k = of_int n * pow2 q"
proof
  have "pow2 k = pow2 (k - q) * pow2 q" by (simp flip: pow2_add)
  then show "pow2 k = of_int (2 ^ nat (k - q)) * pow2 q"
    using assms by (simp only: pow2_nat diff_ge_0_iff_ge)
qed

text \<open>A value of the grid of \<open>x\<close> that bounds \<open>x\<close> bounds its rounding.\<close>

lemma rnd_pos_le_grid:
  "x \<le> of_int n * pow2 (ulp_exp x) \<Longrightarrow> rnd_pos x \<le> of_int n * pow2 (ulp_exp x)"
proof -
  assume "x \<le> of_int n * pow2 (ulp_exp x)"
  then have "x / pow2 (ulp_exp x) \<le> of_int n"
    by (simp add: pos_divide_le_eq)
  then have "rhe (x / pow2 (ulp_exp x)) \<le> n" by (rule rhe_le)
  then show ?thesis by (simp add: rnd_pos_def)
qed

lemma rnd_pos_ge_grid:
  "of_int n * pow2 (ulp_exp x) \<le> x \<Longrightarrow> of_int n * pow2 (ulp_exp x) \<le> rnd_pos x"
proof -
  assume "of_int n * pow2 (ulp_exp x) \<le> x"
  then have "of_int n \<le> x / pow2 (ulp_exp x)"
    by (simp add: pos_le_divide_eq)
  then have "n \<le> rhe (x / pow2 (ulp_exp x))" by (rule rhe_ge)
  then show ?thesis by (simp add: rnd_pos_def)
qed

lemma rnd_pos_mono:
  assumes "0 < x" and "x \<le> y"
  shows "rnd_pos x \<le> rnd_pos y"
proof (cases "ulp_exp x = ulp_exp y")
  case True
  have "rhe (x / pow2 (ulp_exp x)) \<le> rhe (y / pow2 (ulp_exp x))"
    using assms by (intro rhe_mono divide_right_mono) auto
  then show ?thesis using True by (simp add: rnd_pos_def)
next
  case False
  have ee: "expo x \<le> expo y" using assms by (rule expo_mono)
  with False have lt: "ulp_exp x < ulp_exp y" by (auto simp: ulp_exp_def)
  then have ey: "ulp_exp y = expo y - 52" "expo x < expo y"
    by (auto simp: ulp_exp_def)
  have "x \<le> pow2 (expo y)"
    using expo_bounds(2) [OF assms(1)] pow2_mono [of "expo x + 1" "expo y"] ey(2) by linarith
  moreover obtain n where "pow2 (expo y) = of_int n * pow2 (ulp_exp x)"
    using pow2_on_grid [of "ulp_exp x" "expo y"] lt ey by auto
  ultimately have 1: "rnd_pos x \<le> pow2 (expo y)"
    using rnd_pos_le_grid by metis
  have "pow2 (expo y) \<le> y" using assms by (intro expo_bounds(1)) auto
  moreover obtain m where "pow2 (expo y) = of_int m * pow2 (ulp_exp y)"
    using pow2_on_grid [of "ulp_exp y" "expo y"] ey by auto
  ultimately have 2: "pow2 (expo y) \<le> rnd_pos y"
    using rnd_pos_ge_grid by metis
  from 1 2 show ?thesis by linarith
qed

lemma rnd_nonneg: "0 \<le> x \<Longrightarrow> 0 \<le> rnd x"
  by (cases "x = 0") (auto simp: rnd_def rnd_pos_nonneg)

lemma rnd_nonpos: "x \<le> 0 \<Longrightarrow> rnd x \<le> 0"
  using rnd_nonneg [of "- x"] by (simp add: rnd_uminus)

lemma rnd_mono:
  assumes "x \<le> y"
  shows "rnd x \<le> rnd y"
proof (cases "0 < x")
  case True
  then show ?thesis using assms rnd_pos_mono [of x y] by (simp add: rnd_def)
next
  case False
  show ?thesis
  proof (cases "y < 0")
    case True
    then show ?thesis using assms rnd_pos_mono [of "- y" "- x"] by (simp add: rnd_def)
  next
    case False
    then have "rnd x \<le> 0" "0 \<le> rnd y"
      using \<open>\<not> 0 < x\<close> by (auto intro: rnd_nonpos rnd_nonneg)
    then show ?thesis by linarith
  qed
qed

text \<open>The values of the format: the rationals that rounding keeps.\<close>

definition representable :: "rat \<Rightarrow> bool" where
  "representable x \<longleftrightarrow> rnd x = x"

lemma representable_0 [simp]: "representable 0"
  by (simp add: representable_def)

lemma representable_uminus [simp]: "representable (- x) = representable x"
  by (simp add: representable_def rnd_uminus)

lemma representable_grid:
  assumes "\<bar>n\<bar> \<le> 2 ^ 53" and "- 1074 \<le> q"
  shows "representable (of_int n * pow2 q)"
proof -
  have pos: "representable (of_int n * pow2 q)" if n: "0 < n" "n \<le> 2 ^ 53" for n
  proof -
    let ?x = "of_int n * pow2 q"
    have x: "0 < ?x" using n by simp
    have "ulp_exp ?x \<le> q \<or> n = 2 ^ 53"
    proof (cases "n = 2 ^ 53")
      case False
      have p53: "(of_int (2 ^ 53) :: rat) = pow2 53" by (simp add: pow2_nat)
      have "(of_int n :: rat) < of_int (2 ^ 53)" using n False by (simp only: of_int_less_iff)
      then have "?x < pow2 53 * pow2 q" using p53 by simp
      then have "pow2 (expo ?x) < pow2 (53 + q)"
        using expo_bounds(1) [OF x] unfolding pow2_add by linarith
      then show ?thesis using assms by (simp add: pow2_less_iff ulp_exp_def)
    qed simp
    then obtain m where "?x = of_int m * pow2 (ulp_exp ?x)"
    proof
      assume "ulp_exp ?x \<le> q"
      then obtain k where "pow2 q = of_int k * pow2 (ulp_exp ?x)" by (rule pow2_on_grid)
      then have "?x = of_int (n * k) * pow2 (ulp_exp ?x)" by (simp add: algebra_simps)
      then show thesis by (rule that)
    next
      assume n53: "n = 2 ^ 53"
      then have eq: "?x = pow2 (53 + q)" by (simp add: pow2_add pow2_nat)
      then have "expo ?x = 53 + q" by (intro expo_unique) (auto simp: pow2_less)
      then have "ulp_exp ?x \<le> 53 + q" using assms by (simp add: ulp_exp_def)
      then obtain k where "pow2 (53 + q) = of_int k * pow2 (ulp_exp ?x)" by (rule pow2_on_grid)
      with eq show thesis using that by simp
    qed
    then have "rnd_pos ?x = ?x"
      unfolding rnd_pos_def
      by (metis nonzero_mult_div_cancel_right pow2_neq_0 rhe_of_int)
    with x show ?thesis by (simp add: representable_def rnd_def)
  qed
  show ?thesis
  proof (cases "n = 0")
    case False
    then consider "0 < n" | "0 < - n" by linarith
    then show ?thesis
    proof cases
      case 1
      then show ?thesis using pos assms by auto
    next
      case 2
      have "representable (of_int (- n) * pow2 q)" using 2 pos [of "- n"] assms by auto
      then show ?thesis by simp
    qed
  qed simp
qed

lemma representable_of_int: "\<bar>n\<bar> \<le> 2 ^ 53 \<Longrightarrow> representable (of_int n)"
  using representable_grid [of n 0] by simp

lemma representable_rnd [simp]: "representable (rnd x)"
proof -
  have pos: "representable (rnd_pos y)" if y: "0 < y" for y
  proof -
    have up: "y < pow2 (expo y + 1)" using y by (rule expo_bounds)
    have "pow2 (expo y + 1) \<le> pow2 (53 + ulp_exp y)"
      by (intro pow2_mono) (simp add: ulp_exp_def)
    also have "\<dots> = of_int (2 ^ 53) * pow2 (ulp_exp y)" by (simp add: pow2_add pow2_nat)
    finally have "y / pow2 (ulp_exp y) \<le> of_int (2 ^ 53)"
      using up by (simp add: pos_divide_le_eq)
    then have "rhe (y / pow2 (ulp_exp y)) \<le> 2 ^ 53" by (rule rhe_le)
    moreover have "0 \<le> rhe (y / pow2 (ulp_exp y))" using y by (intro rhe_ge) simp
    ultimately show ?thesis
      unfolding rnd_pos_def by (intro representable_grid) (auto simp: ulp_exp_def)
  qed
  show ?thesis
    using pos [of x] pos [of "- x"] by (auto simp: rnd_def)
qed

lemma rnd_le: "x \<le> y \<Longrightarrow> representable y \<Longrightarrow> rnd x \<le> y"
  by (metis representable_def rnd_mono)

lemma rnd_ge: "y \<le> x \<Longrightarrow> representable y \<Longrightarrow> y \<le> rnd x"
  by (metis representable_def rnd_mono)


text \<open>The rounding error: half a unit in the last place, hence relative error \<open>2 ^ -53\<close>.\<close>

lemma rnd_error: "\<bar>rnd x - x\<bar> \<le> \<bar>x\<bar> * pow2 (- 53) + pow2 (- 1075)"
proof -
  have pos: "\<bar>rnd_pos y - y\<bar> \<le> y * pow2 (- 53) + pow2 (- 1075)" if y: "0 < y" for y
  proof -
    let ?u = "pow2 (ulp_exp y)"
    have "\<bar>of_int (rhe (y / ?u)) - y / ?u\<bar> * ?u \<le> 1 / 2 * ?u"
      by (intro mult_right_mono rhe_error) simp
    also have "\<bar>of_int (rhe (y / ?u)) - y / ?u\<bar> * ?u
        = \<bar>(of_int (rhe (y / ?u)) - y / ?u) * ?u\<bar>" by (simp add: abs_mult)
    also have "(of_int (rhe (y / ?u)) - y / ?u) * ?u = rnd_pos y - y"
      by (simp add: rnd_pos_def left_diff_distrib)
    finally have e: "\<bar>rnd_pos y - y\<bar> \<le> pow2 (ulp_exp y - 1)" by (simp add: pow2_diff)
    show ?thesis
    proof (cases "ulp_exp y = - 1074")
      case True
      have "0 \<le> y * pow2 (- 53)" using y by simp
      with e True show ?thesis by (simp del: pow2_nonneg)
    next
      case False
      then have "pow2 (ulp_exp y - 1) = pow2 (expo y) * pow2 (- 53)"
        by (simp add: ulp_exp_def max_def split: if_splits flip: pow2_add)
      also have "\<dots> \<le> y * pow2 (- 53)"
        using expo_bounds(1) [OF y] by (intro mult_right_mono) auto
      finally show ?thesis using e pow2_nonneg [of "- 1075"] by linarith
    qed
  qed
  show ?thesis
    using pos [of x] pos [of "- x"] by (auto simp: rnd_def abs_minus_commute)
qed

section \<open>Values and arithmetic\<close>

lemma fl_Fin: "\<bar>rnd x\<bar> < pow2 1024 \<Longrightarrow> fl x = Fin (rnd x)"
  by (auto simp: fl_def Let_def abs_if split: if_splits)

lemma fl_cases [case_names Fin PInf NInf]:
  obtains "fl x = Fin (rnd x)" | "fl x = PInf" "0 < x" | "fl x = NInf" "x < 0"
proof -
  consider "pow2 1024 \<le> rnd x" | "rnd x \<le> - pow2 1024" | "\<bar>rnd x\<bar> < pow2 1024"
    by linarith
  then show thesis
  proof cases
    case 1
    then have "0 < rnd x" using pow2_pos [of 1024] by linarith
    then have "0 < x" using rnd_nonpos [of x] by linarith
    with 1 show thesis by (intro that(2)) (simp_all add: fl_def)
  next
    case 2
    then have neg: "rnd x < 0" using pow2_pos [of 1024] by linarith
    then have "x < 0" using rnd_nonneg [of x] by linarith
    moreover have "\<not> pow2 1024 \<le> rnd x" using neg pow2_pos [of 1024] by linarith
    ultimately show thesis using 2 by (intro that(3)) (simp_all add: fl_def)
  next
    case 3
    then show thesis by (intro that(1) fl_Fin)
  qed
qed

lemma fl_not_NaN [simp]: "fl x \<noteq> NaN" "NaN \<noteq> fl x"
  by (cases x rule: fl_cases; simp)+

lemma fl_representable:
  assumes "representable x" "\<bar>x\<bar> < pow2 1024"
  shows "fl x = Fin x"
  using assms fl_Fin [of x] by (simp add: representable_def)

lemma fl_0 [simp, flt_simps]: "fl 0 = Fin 0"
  by (simp add: fl_representable)

lemma fl_of_int: "\<bar>n\<bar> \<le> 2 ^ 53 \<Longrightarrow> fl (of_int n) = Fin (of_int n)"
proof (rule fl_representable)
  assume n: "\<bar>n\<bar> \<le> 2 ^ 53"
  then show "representable (of_int n)" by (rule representable_of_int)
  have "(of_int \<bar>n\<bar> :: rat) \<le> of_int (2 ^ 53)" using n by (simp only: of_int_le_iff)
  also have "of_int (2 ^ 53) = pow2 53" by (simp add: pow2_nat)
  also have "\<dots> < pow2 1024" by (rule pow2_less) simp
  finally show "\<bar>of_int n\<bar> < pow2 1024" by simp
qed

lemma fl_numeral [simp, flt_simps]: "(numeral w :: int) \<le> 2 ^ 53 \<Longrightarrow> fl (numeral w) = Fin (numeral w)"
  using fl_of_int [of "numeral w"] by simp

lemma fl_neg_numeral [simp, flt_simps]:
  "(numeral w :: int) \<le> 2 ^ 53 \<Longrightarrow> fl (- numeral w) = Fin (- numeral w)"
  using fl_of_int [of "- numeral w"] by simp

lemma fl_1 [simp, flt_simps]: "fl 1 = Fin 1"
  using fl_of_int [of 1] by simp

text \<open>The IEEE comparisons: false as soon as a NaN takes part.\<close>

instantiation f64 :: ord
begin

fun less_f64 :: "f64 \<Rightarrow> f64 \<Rightarrow> bool" where
  "(Fin a < Fin b) = (a < b)"
| "(Fin _ < PInf) = True"
| "(NInf < Fin _) = True"
| "(NInf < PInf) = True"
| "((_::f64) < _) = False"

fun less_eq_f64 :: "f64 \<Rightarrow> f64 \<Rightarrow> bool" where
  "(Fin a \<le> Fin b) = (a \<le> b)"
| "(NaN \<le> _) = False"
| "(_ \<le> NaN) = False"
| "(NInf \<le> _) = True"
| "(_ \<le> PInf) = True"
| "((_::f64) \<le> _) = False"

instance ..

end

text \<open>Python's \<^verbatim>\<open>==\<close> on floats.\<close>

definition feq :: "f64 \<Rightarrow> f64 \<Rightarrow> bool" where
  "feq x y \<longleftrightarrow> x = y \<and> x \<noteq> NaN"

definition isnan :: "f64 \<Rightarrow> bool" where
  "isnan x \<longleftrightarrow> x = NaN"

definition isinf64 :: "f64 \<Rightarrow> bool" where
  "isinf64 x \<longleftrightarrow> x = PInf \<or> x = NInf"

definition isfinite :: "f64 \<Rightarrow> bool" where
  "isfinite x \<longleftrightarrow> (case x of Fin _ \<Rightarrow> True | _ \<Rightarrow> False)"

lemma isfinite_Fin [simp]: "isfinite (Fin r)"
  and not_isfinite [simp]: "\<not> isfinite PInf" "\<not> isfinite NInf" "\<not> isfinite NaN"
  by (simp_all add: isfinite_def)

lemma isfiniteE: "isfinite x \<Longrightarrow> (\<And>r. x = Fin r \<Longrightarrow> P) \<Longrightarrow> P"
  by (cases x) auto

lemma f64_le_cases:
  fixes x y :: f64
  shows "x \<le> y \<longleftrightarrow> (x < y \<or> feq x y)"
  by (cases x; cases y) (auto simp: feq_def)

lemma f64_less_irrefl [simp]: "\<not> (x::f64) < x"
  by (cases x) auto

lemma f64_less_trans: "(x::f64) < y \<Longrightarrow> y < z \<Longrightarrow> x < z"
  by (cases x; cases y; cases z) auto

lemma f64_le_trans: "(x::f64) \<le> y \<Longrightarrow> y \<le> z \<Longrightarrow> x \<le> z"
  by (cases x; cases y; cases z) auto

lemma f64_le_less_trans: "(x::f64) \<le> y \<Longrightarrow> y < z \<Longrightarrow> x < z"
  by (cases x; cases y; cases z) auto

lemma f64_less_le_trans: "(x::f64) < y \<Longrightarrow> y \<le> z \<Longrightarrow> x < z"
  by (cases x; cases y; cases z) auto

lemma f64_less_imp_le: "(x::f64) < y \<Longrightarrow> x \<le> y"
  by (cases x; cases y) auto

lemma f64_le_refl: "x \<noteq> NaN \<Longrightarrow> (x::f64) \<le> x"
  by (cases x) auto

lemma f64_not_less: "x \<noteq> NaN \<Longrightarrow> y \<noteq> NaN \<Longrightarrow> (\<not> (x::f64) < y) = (y \<le> x)"
  by (cases x; cases y) auto

lemma f64_not_le: "x \<noteq> NaN \<Longrightarrow> y \<noteq> NaN \<Longrightarrow> (\<not> (x::f64) \<le> y) = (y < x)"
  by (cases x; cases y) auto

lemma f64_less_not_NaN: "(x::f64) < y \<Longrightarrow> x \<noteq> NaN \<and> y \<noteq> NaN"
  by (cases x; cases y) auto

lemma f64_le_not_NaN: "(x::f64) \<le> y \<Longrightarrow> x \<noteq> NaN \<and> y \<noteq> NaN"
  by (cases x; cases y) auto

lemma f64_le_antisym: "(x::f64) \<le> y \<Longrightarrow> y \<le> x \<Longrightarrow> x = y"
  by (cases x; cases y) auto

lemma f64_NaN_cmp [simp]: "\<not> NaN < x" "\<not> x < NaN" "\<not> NaN \<le> x" "\<not> x \<le> NaN"
  by (cases x; simp)+

lemma fl_mono: "a \<le> b \<Longrightarrow> fl a \<le> fl b"
proof -
  assume "a \<le> b"
  then have "rnd a \<le> rnd b" by (rule rnd_mono)
  then show ?thesis by (auto simp: fl_def Let_def)
qed

lemma fl_nonneg: "0 \<le> a \<Longrightarrow> Fin 0 \<le> fl a"
  using fl_mono [of 0 a] by simp

lemma fl_nonpos: "a \<le> 0 \<Longrightarrow> fl a \<le> Fin 0"
  using fl_mono [of a 0] by simp

instantiation f64 :: "{zero, one, plus, minus, uminus, times, inverse}"
begin

definition zero_f64 :: f64 where "zero_f64 = Fin 0"

definition one_f64 :: f64 where "one_f64 = Fin 1"

fun uminus_f64 :: "f64 \<Rightarrow> f64" where
  "- Fin a = Fin (- a)"
| "- PInf = NInf"
| "- NInf = PInf"
| "- NaN = NaN"

fun plus_f64 :: "f64 \<Rightarrow> f64 \<Rightarrow> f64" where
  "Fin a + Fin b = fl (a + b)"
| "NaN + y = NaN"
| "x + NaN = NaN"
| "PInf + NInf = NaN"
| "NInf + PInf = NaN"
| "PInf + y = PInf"
| "x + PInf = PInf"
| "NInf + y = NInf"
| "x + NInf = NInf"

definition minus_f64 :: "f64 \<Rightarrow> f64 \<Rightarrow> f64" where
  "x - y = x + (- y :: f64)"

definition f64_sgn :: "f64 \<Rightarrow> rat" where
  "f64_sgn x = (case x of Fin a \<Rightarrow> sgn a | PInf \<Rightarrow> 1 | NInf \<Rightarrow> - 1 | NaN \<Rightarrow> 0)"

fun times_f64 :: "f64 \<Rightarrow> f64 \<Rightarrow> f64" where
  "Fin a * Fin b = fl (a * b)"
| "NaN * y = NaN"
| "x * NaN = NaN"
| "x * y = (if f64_sgn x * f64_sgn y = 0 then NaN
            else if 0 < f64_sgn x * f64_sgn y then PInf else NInf)"

text \<open>
  True division for a divisor that is not zero; the caller checks the divisor
  (\<open>py_div\<close> below raises as Python does).
\<close>

fun divide_f64 :: "f64 \<Rightarrow> f64 \<Rightarrow> f64" where
  "Fin a div Fin b = fl (a / b)"
| "NaN div y = NaN"
| "x div NaN = NaN"
| "Fin a div y = Fin 0"
| "x div Fin b = (if (b < 0) = (x = NInf) then PInf else NInf)"
| "x div y = (NaN::f64)"

definition inverse_f64 :: "f64 \<Rightarrow> f64" where
  "inverse_f64 x = Fin 1 div x"

instance ..

end

definition py_div :: "f64 \<Rightarrow> f64 \<Rightarrow> f64 res" where
  "py_div x y = (if feq y 0 then raise ZeroDivisionError else ret (x / y))"

fun fabs64 :: "f64 \<Rightarrow> f64" where
  "fabs64 (Fin a) = Fin \<bar>a\<bar>"
| "fabs64 PInf = PInf"
| "fabs64 NInf = PInf"
| "fabs64 NaN = NaN"

text \<open>
  Python's two-argument \<^verbatim>\<open>max\<close> and \<^verbatim>\<open>min\<close> keep the first argument unless the second
  compares greater (less): with a NaN the order of the arguments matters.
\<close>

definition pmax :: "f64 \<Rightarrow> f64 \<Rightarrow> f64" where
  "pmax x y = (if x < y then y else x)"

definition pmin :: "f64 \<Rightarrow> f64 \<Rightarrow> f64" where
  "pmin x y = (if y < x then y else x)"

end
