(* ===== verification/PyNum.thy ===== *)
theory PyNum
  imports PyFloat
begin

text \<open>
  The rest of Python's numeric and string vocabulary the modelled code uses: conversions
  between \<^verbatim>\<open>int\<close> and \<^verbatim>\<open>float\<close>, \<^verbatim>\<open>math.floor\<close>, \<^verbatim>\<open>math.ceil\<close>, \<^verbatim>\<open>round\<close>, the
  fixed-point format \<^verbatim>\<open>f"{x:.2f}"\<close>, decimal integers, and the executable equations that let
  the kernel evaluate binary64 arithmetic.
\<close>

section \<open>Executable equations of the rounding\<close>

function shl :: "int \<Rightarrow> int \<Rightarrow> int" where
  "shl n k = (if k \<le> 0 then n else shl (2 * n) (k - 1))"
  by pat_completeness auto
termination
  by (relation "measure (\<lambda>(n, k). nat k)") auto

declare shl.simps [simp del]

lemma shl_eq: "0 \<le> k \<Longrightarrow> (of_int (shl n k) :: rat) = of_int n * pow2 k"
proof (induction n k rule: shl.induct)
  case (1 n k)
  show ?case
  proof (cases "k \<le> 0")
    case True
    with "1.prems" show ?thesis by (simp add: shl.simps)
  next
    case False
    then have "(of_int (shl n k) :: rat) = of_int (2 * n) * pow2 (k - 1)"
      using 1 by (subst shl.simps) simp
    moreover have "pow2 k = 2 * pow2 (k - 1)" using pow2_Suc [of "k - 1"] by simp
    ultimately show ?thesis by simp
  qed
qed

lemma shl_1_pos: "0 \<le> k \<Longrightarrow> 0 < shl 1 k"
  using shl_eq [of k 1] pow2_pos [of k] by (simp del: pow2_pos)

lemma pow2_code [code]:
  "pow2 k = (if 0 \<le> k then of_int (shl 1 k) else Fract 1 (shl 1 (- k)))"
proof (cases "0 \<le> k")
  case False
  then have "(of_int (shl 1 (- k)) :: rat) = pow2 (- k)" using shl_eq [of "- k" 1] by simp
  moreover have "pow2 k = 1 / pow2 (- k)" by (simp add: pow2_def power_int_minus field_simps)
  ultimately show ?thesis using False by (simp add: Fract_of_int_quotient)
qed (simp add: shl_eq)

text \<open>Rounding a quotient of integers to the nearest integer, ties to even.\<close>

definition rhe_div :: "int \<Rightarrow> int \<Rightarrow> int" where
  "rhe_div n d = (let q = n div d; r = 2 * (n mod d) in
     if r < d then q else if d < r then q + 1 else if even q then q else q + 1)"

lemma rhe_div:
  assumes "0 < d"
  shows "rhe (of_int n / of_int d) = rhe_div n d"
proof -
  have fl: "\<lfloor>(of_int n :: rat) / of_int d\<rfloor> = n div d" by (rule floor_divide_of_int_eq)
  have "(of_int n :: rat) = of_int (n div d) * of_int d + of_int (n mod d)"
    by (simp flip: of_int_mult of_int_add)
  then have "(of_int n / of_int d :: rat) - of_int (n div d) = of_int (n mod d) / of_int d"
    using assms by (simp add: field_simps)
  then have rem: "(of_int n / of_int d :: rat) - of_int \<lfloor>(of_int n :: rat) / of_int d\<rfloor>
      = of_int (n mod d) / of_int d" by (simp add: fl)
  have c: "((of_int (n mod d) / of_int d :: rat) < 1 / 2) = (2 * (n mod d) < d)"
    "(1 / 2 < (of_int (n mod d) / of_int d :: rat)) = (d < 2 * (n mod d))"
    using assms by (simp_all add: field_simps flip: of_int_mult of_int_less_iff)
       (metis mult.commute of_int_less_iff of_int_mult of_int_numeral)+
  show ?thesis
    unfolding rhe_def rhe_div_def Let_def rem c by (simp add: fl)
qed

lemma rhe_code [code]: "rhe x = (case quotient_of x of (n, d) \<Rightarrow> rhe_div n d)"
proof -
  obtain n d where q: "quotient_of x = (n, d)" by (cases "quotient_of x")
  have "rhe x = rhe_div n d"
    using rhe_div [of d n] quotient_of_denom_pos [OF q] quotient_of_div [OF q] by simp
  then show ?thesis by (simp add: q)
qed

lemma rnd_pos_code [code]:
  "rnd_pos x = (case quotient_of x of (n, d) \<Rightarrow>
     let q = ulp_exp x in
     if 0 \<le> q then of_int (shl (rhe_div n (shl d q)) q)
     else Fract (rhe_div (shl n (- q)) d) (shl 1 (- q)))"
proof -
  obtain n d where q: "quotient_of x = (n, d)" by (cases "quotient_of x")
  have d: "0 < d" and x: "x = of_int n / of_int d"
    using quotient_of_denom_pos [OF q] quotient_of_div [OF q] by auto
  let ?q = "ulp_exp x"
  show ?thesis
  proof (cases "0 \<le> ?q")
    case True
    have "(of_int (shl d ?q) :: rat) = of_int d * pow2 ?q" using True by (rule shl_eq)
    then have "x / pow2 ?q = of_int n / of_int (shl d ?q)" by (simp add: x)
    moreover have "0 < shl d ?q"
    proof -
      have "(0 :: rat) < of_int (shl d ?q)" unfolding shl_eq [OF True] using d by simp
      then show ?thesis by simp
    qed
    ultimately have "rhe (x / pow2 ?q) = rhe_div n (shl d ?q)" by (simp only: rhe_div)
    then show ?thesis
      using True by (simp add: rnd_pos_def q shl_eq Let_def)
  next
    case False
    have m: "pow2 ?q = 1 / pow2 (- ?q)" by (simp add: pow2_def power_int_minus field_simps)
    have "(of_int (shl n (- ?q)) :: rat) = of_int n * pow2 (- ?q)" using False by (intro shl_eq) simp
    then have "x / pow2 ?q = of_int (shl n (- ?q)) / of_int d"
      unfolding m by (simp add: x)
    moreover have "(of_int (shl 1 (- ?q)) :: rat) = pow2 (- ?q)" using False by (simp add: shl_eq)
    ultimately show ?thesis
      using False d by (simp add: rnd_pos_def q rhe_div m Fract_of_int_quotient Let_def)
  qed
qed

text \<open>Overflow is decided on the exponent, which is cheaper than comparing with \<open>pow2 1024\<close>.\<close>

lemma pow2_le_expo: "0 < r \<Longrightarrow> pow2 k \<le> r \<longleftrightarrow> k \<le> expo r"
proof
  assume r: "0 < r" and "pow2 k \<le> r"
  then have "pow2 k < pow2 (expo r + 1)" using expo_bounds(2) [of r] by linarith
  then show "k \<le> expo r" by (simp add: pow2_less_iff)
next
  assume r: "0 < r" and "k \<le> expo r"
  then show "pow2 k \<le> r" using pow2_mono [of k "expo r"] expo_bounds(1) [of r] by linarith
qed

lemma fl_code [code]:
  "fl x = (let r = rnd x in
     if r = 0 then Fin 0
     else if 0 < r then (if 1024 \<le> expo r then PInf else Fin r)
     else (if 1024 \<le> expo (- r) then NInf else Fin r))"
proof -
  have neg: "(r \<le> - pow2 1024) = (pow2 1024 \<le> - r)" for r by linarith
  have pos: "0 < r \<Longrightarrow> \<not> pow2 1024 \<le> - r" for r using pow2_pos [of 1024] by linarith
  show ?thesis
    unfolding fl_def Let_def neg
    using pow2_pos [of 1024] pos [of "rnd x"] pos [of "- rnd x"] pow2_le_expo [of "rnd x" 1024]
      pow2_le_expo [of "- rnd x" 1024]
    by (cases "rnd x" "0 :: rat" rule: linorder_cases) (simp_all add: not_le)
qed

section \<open>Integers and rounding\<close>

definition float_of_int :: "int \<Rightarrow> f64" where
  "float_of_int n = fl (of_int n)"

fun floor64 :: "f64 \<Rightarrow> int res" where
  "floor64 (Fin r) = ret \<lfloor>r\<rfloor>"
| "floor64 NaN = raise ValueError"
| "floor64 _ = raise OverflowError"

fun ceil64 :: "f64 \<Rightarrow> int res" where
  "ceil64 (Fin r) = ret \<lceil>r\<rceil>"
| "ceil64 NaN = raise ValueError"
| "ceil64 _ = raise OverflowError"

text \<open>\<^verbatim>\<open>sum(xs)\<close> of floats, added from the left.\<close>

definition fsum :: "f64 list \<Rightarrow> f64" where
  "fsum xs = foldl (\<lambda>acc x. acc + x) 0 xs"

text \<open>\<^verbatim>\<open>round(x)\<close>\<close>

fun round_int :: "f64 \<Rightarrow> int res" where
  "round_int (Fin r) = ret (rhe r)"
| "round_int NaN = raise ValueError"
| "round_int _ = raise OverflowError"

text \<open>\<^verbatim>\<open>round(x, n)\<close> for \<open>n \<ge> 0\<close>: the decimal rounding is exact, then converted back.\<close>

fun round_nd :: "nat \<Rightarrow> f64 \<Rightarrow> f64" where
  "round_nd n (Fin r) = fl (of_int (rhe (r * 10 ^ n)) / 10 ^ n)"
| "round_nd n x = x"

lemma round_nd_finite_or: "round_nd n x = NaN \<longleftrightarrow> x = NaN"
  by (cases x) auto

lemma round_nd_mono: "x \<le> y \<Longrightarrow> round_nd n x \<le> round_nd n y"
proof (cases x; cases y)
  fix a b
  assume "x \<le> y" and "x = Fin a" and "y = Fin b"
  then show ?thesis by (auto intro!: fl_mono divide_right_mono rhe_mono mult_right_mono)
next
  fix a
  assume "x = Fin a" "y = PInf"
  then show ?thesis by (cases "fl (of_int (rhe (a * 10 ^ n)) / 10 ^ n)") auto
next
  fix b
  assume "x = NInf" "y = Fin b"
  then show ?thesis by (cases "fl (of_int (rhe (b * 10 ^ n)) / 10 ^ n)") auto
qed auto

lemma round_nd_nonneg: "Fin 0 \<le> x \<Longrightarrow> Fin 0 \<le> round_nd n x"
  using round_nd_mono [of "Fin 0" x n] by simp

section \<open>Signs and bounds of results\<close>

lemma zero_f64_Fin: "(0::f64) = Fin 0" by (simp add: zero_f64_def)

lemma one_f64_Fin: "(1::f64) = Fin 1" by (simp add: one_f64_def)

lemma fadd_nonneg: "Fin 0 \<le> x \<Longrightarrow> Fin 0 \<le> y \<Longrightarrow> Fin 0 \<le> x + y"
  by (cases x; cases y) (auto intro: fl_nonneg)

lemma fmul_nonneg: "Fin 0 \<le> x \<Longrightarrow> Fin 0 \<le> y \<Longrightarrow> x * y \<noteq> NaN \<Longrightarrow> Fin 0 \<le> x * y"
  by (cases x; cases y) (auto intro: fl_nonneg simp: f64_sgn_def split: if_splits)

lemma fmul_nonneg_fin:
  "isfinite x \<Longrightarrow> isfinite y \<Longrightarrow> Fin 0 \<le> x \<Longrightarrow> Fin 0 \<le> y \<Longrightarrow> Fin 0 \<le> x * y"
  by (cases x; cases y) (auto intro: fl_nonneg)

lemma fdiv_nonneg_fin:
  "isfinite x \<Longrightarrow> isfinite y \<Longrightarrow> Fin 0 \<le> x \<Longrightarrow> Fin 0 < y \<Longrightarrow> Fin 0 \<le> x / y"
  by (cases x; cases y) (auto intro: fl_nonneg)

lemma fabs_nonneg: "x \<noteq> NaN \<Longrightarrow> Fin 0 \<le> fabs64 x"
  by (cases x) auto

lemma f64_extremes: "x \<noteq> NaN \<Longrightarrow> x \<le> PInf" "x \<noteq> NaN \<Longrightarrow> NInf \<le> x"
  by (cases x; simp)+

lemma fadd_mono: "(x::f64) \<le> y \<Longrightarrow> y + z \<noteq> NaN \<Longrightarrow> x + z \<noteq> NaN \<Longrightarrow> x + z \<le> y + z"
  by (cases x; cases y; cases z) (auto intro: fl_mono f64_extremes)

lemma fsub_antimono: "isfinite x \<Longrightarrow> (a::f64) \<le> b \<Longrightarrow> x - b \<le> x - a"
  by (cases x; cases a; cases b) (auto simp: isfinite_def minus_f64_def intro: fl_mono f64_extremes)

lemma py_div_total: "\<not> y \<le> 0 \<Longrightarrow> py_div x y = ret (x / y)"
  by (cases y) (auto simp: py_div_def feq_def zero_f64_Fin)

lemma py_div_pos: "0 < y \<Longrightarrow> py_div x y = ret (x / y)"
  by (rule py_div_total) (cases y; auto simp: zero_f64_Fin)

lemma pmax_ge: "x \<noteq> NaN \<Longrightarrow> x \<le> pmax x y"
  by (cases x; cases y) (auto simp: pmax_def)

lemma pmax_ge2: "x \<noteq> NaN \<Longrightarrow> y \<noteq> NaN \<Longrightarrow> y \<le> pmax x y"
  by (cases x; cases y) (auto simp: pmax_def)

lemma pmin_le: "x \<noteq> NaN \<Longrightarrow> pmin x y \<le> x"
  by (cases x; cases y) (auto simp: pmin_def)

lemma pmin_le2: "x \<noteq> NaN \<Longrightarrow> y \<noteq> NaN \<Longrightarrow> pmin x y \<le> y"
  by (cases x; cases y) (auto simp: pmin_def)

lemma pmax_not_NaN: "x \<noteq> NaN \<Longrightarrow> pmax x y \<noteq> NaN"
  by (cases x; cases y) (auto simp: pmax_def)

lemma pmin_not_NaN: "x \<noteq> NaN \<Longrightarrow> pmin x y \<noteq> NaN"
  by (cases x; cases y) (auto simp: pmin_def)

lemma pmax_cases: "pmax x y = x \<or> pmax x y = y"
  by (auto simp: pmax_def)

lemma pmin_cases: "pmin x y = x \<or> pmin x y = y"
  by (auto simp: pmin_def)

lemma pmax_finite: "isfinite x \<Longrightarrow> isfinite y \<Longrightarrow> isfinite (pmax x y)"
  and pmin_finite: "isfinite x \<Longrightarrow> isfinite y \<Longrightarrow> isfinite (pmin x y)"
  using pmax_cases [of x y] pmin_cases [of x y] by auto

section \<open>Values of the format\<close>

text \<open>
  Every value a program computes or reads is one of the format; the lemmas that need this
  (a subtraction that loses nothing, a bound that rounding keeps) assume it of their inputs.
\<close>

definition dbl :: "f64 \<Rightarrow> bool" where
  "dbl x \<longleftrightarrow> (case x of Fin r \<Rightarrow> fl r = Fin r | _ \<Rightarrow> True)"

lemma dbl_Fin: "dbl (Fin r) \<longleftrightarrow> fl r = Fin r"
  and dbl_special [simp]: "dbl PInf" "dbl NInf" "dbl NaN"
  by (simp_all add: dbl_def)

lemma dbl_Fin_rnd: "dbl (Fin r) \<Longrightarrow> rnd r = r"
  by (cases r rule: fl_cases) (auto simp: dbl_Fin)

lemma dbl_fl [simp]: "dbl (fl r)"
proof (cases r rule: fl_cases)
  case Fin
  have "fl (rnd r) = fl r" using representable_rnd [of r] by (simp add: fl_def representable_def)
  then show ?thesis using Fin by (simp add: dbl_def)
qed auto

lemma dbl_arith [simp]: "dbl (x + y)" "dbl (x * y)" "dbl (x / y)"
  if "dbl x" "dbl y"
proof -
  show "dbl (x + y)" using that by (cases x; cases y) auto
  show "dbl (x * y)" using that by (cases x; cases y) auto
  show "dbl (x / y)" using that by (cases x; cases y) (auto simp: dbl_Fin)
qed

lemma dbl_uminus [simp]: "dbl (- x) = dbl x"
proof -
  have "fl (- r) = Fin (- r)" if "fl r = Fin r" for r
    using that by (auto simp: fl_def Let_def rnd_uminus split: if_splits)
  from this this [of "- r" for r] show ?thesis by (cases x) (auto simp: dbl_Fin)
qed

lemma dbl_minus [simp]: "dbl x \<Longrightarrow> dbl y \<Longrightarrow> dbl (x - y)"
  by (simp add: minus_f64_def)

lemma dbl_fabs [simp]: "dbl x \<Longrightarrow> dbl (fabs64 x)"
  using dbl_uminus [of x] by (cases x) (auto simp: abs_if)

lemma dbl_0 [simp]: "dbl 0" "dbl 1"
  by (simp_all add: zero_f64_Fin one_f64_Fin dbl_Fin)

lemma dbl_pmax [simp]: "dbl x \<Longrightarrow> dbl y \<Longrightarrow> dbl (pmax x y)"
  and dbl_pmin [simp]: "dbl x \<Longrightarrow> dbl y \<Longrightarrow> dbl (pmin x y)"
  by (simp_all add: pmax_def pmin_def)

text \<open>All values are multiples of the smallest one, so a difference never underflows to zero.\<close>

lemma rnd_tiny_grid: "\<exists>n. rnd x = of_int n * pow2 (- 1074)"
proof -
  have pos: "\<exists>n. rnd_pos y = of_int n * pow2 (- 1074)" for y
  proof -
    obtain k where "pow2 (ulp_exp y) = of_int k * pow2 (- 1074)"
      by (rule pow2_on_grid [of "- 1074" "ulp_exp y"]) (simp add: ulp_exp_def)
    then have "rnd_pos y = of_int (rhe (y / pow2 (ulp_exp y)) * k) * pow2 (- 1074)"
      unfolding rnd_pos_def by simp
    then show ?thesis by blast
  qed
  show ?thesis
  proof (cases "0 < x")
    case True
    then show ?thesis using pos [of x] by (simp add: rnd_def)
  next
    case False
    obtain n where "rnd_pos (- x) = of_int n * pow2 (- 1074)" using pos by blast
    then have "- rnd_pos (- x) = of_int (- n) * pow2 (- 1074)" by simp
    then have "\<exists>n. - rnd_pos (- x) = of_int n * pow2 (- 1074)" by blast
    moreover have "\<exists>n. (0::rat) = of_int n * pow2 (- 1074)" by (intro exI [of _ 0]) simp
    ultimately show ?thesis using False by (cases "x = 0") (simp_all add: rnd_def)
  qed
qed

lemma fsub_le_0_iff:
  assumes "dbl (Fin a)" "dbl (Fin b)"
  shows "fl (a - b) \<le> Fin 0 \<longleftrightarrow> a \<le> b"
proof
  show "fl (a - b) \<le> Fin 0" if "a \<le> b" using that by (intro fl_nonpos) simp
next
  assume le: "fl (a - b) \<le> Fin 0"
  show "a \<le> b"
  proof (rule ccontr)
    assume "\<not> a \<le> b"
    obtain m n where m: "a = of_int m * pow2 (- 1074)" and n: "b = of_int n * pow2 (- 1074)"
      using rnd_tiny_grid [of a] rnd_tiny_grid [of b] dbl_Fin_rnd [OF assms(1)] dbl_Fin_rnd [OF assms(2)]
      by auto
    have "0 < a - b" using \<open>\<not> a \<le> b\<close> by simp
    moreover have ab: "a - b = of_int (m - n) * pow2 (- 1074)" unfolding m n by (simp add: algebra_simps)
    ultimately have "(0::rat) < of_int (m - n)"
      using pow2_pos [of "- 1074"] by (metis zero_less_mult_pos2)
    then have "0 < m - n" by (simp only: of_int_0_less_iff)
    then have "of_int 1 * pow2 (- 1074) \<le> a - b"
      unfolding ab by (intro mult_right_mono) auto
    then have "pow2 (- 1074) \<le> rnd (a - b)"
      using representable_grid [of 1 "- 1074"] by (intro rnd_ge) auto
    then have "0 < rnd (a - b)" using pow2_pos [of "- 1074"] by linarith
    then have "\<not> fl (a - b) \<le> Fin 0" by (auto simp: fl_def Let_def)
    then show False using le by simp
  qed
qed

lemma fsub_le: "dbl x \<Longrightarrow> Fin 0 \<le> y \<Longrightarrow> x - y \<noteq> NaN \<Longrightarrow> x - y \<le> x"
proof (cases x; cases y)
  fix a b
  assume "dbl x" "Fin 0 \<le> y" "x = Fin a" "y = Fin b"
  then show "x - y \<le> x" using fl_mono [of "a - b" a] by (simp add: minus_f64_def dbl_Fin)
qed (auto simp: minus_f64_def)

section \<open>Decimal text\<close>

definition digit_char :: "int \<Rightarrow> char" where
  "digit_char d = ''0123456789'' ! nat d"

text \<open>The decimal digits of a natural number.\<close>

function show_dec :: "int \<Rightarrow> string" where
  "show_dec n = (if n < 10 then [digit_char n] else show_dec (n div 10) @ [digit_char (n mod 10)])"
  by pat_completeness auto
termination
  by (relation "measure nat") auto

declare show_dec.simps [simp del]

definition show_int :: "int \<Rightarrow> string" where
  "show_int n = (if n < 0 then CHR ''-'' # show_dec (- n) else show_dec n)"

definition zfill :: "nat \<Rightarrow> string \<Rightarrow> string" where
  "zfill w s = replicate (w - length s) (CHR ''0'') @ s"

text \<open>\<^verbatim>\<open>f"{x:.nf}"\<close>: the exact value rounded to \<open>n\<close> decimals, ties to even.\<close>

fun fmt_fixed :: "nat \<Rightarrow> f64 \<Rightarrow> string" where
  "fmt_fixed n (Fin r) =
     (let m = rhe (\<bar>r\<bar> * 10 ^ n); w = show_dec (m div 10 ^ n);
          f = (if n = 0 then '''' else CHR ''.'' # zfill n (show_dec (m mod 10 ^ n)))
      in (if r < 0 then ''-'' else '''') @ w @ f)"
| "fmt_fixed n PInf = ''inf''"
| "fmt_fixed n NInf = ''-inf''"
| "fmt_fixed n NaN = ''nan''"

definition digit_val :: "char \<Rightarrow> int option" where
  "digit_val c = (let k = (of_char c :: int) in
     if 48 \<le> k \<and> k \<le> 57 then Some (k - 48) else None)"

fun digits_val :: "int \<Rightarrow> string \<Rightarrow> int option" where
  "digits_val acc [] = Some acc"
| "digits_val acc (c # cs) =
     (case digit_val c of None \<Rightarrow> None | Some d \<Rightarrow> digits_val (10 * acc + d) cs)"


lemma digit_val_digit_char [simp]:
  assumes "0 \<le> d" "d < 10"
  shows "digit_val (digit_char d) = Some d"
proof -
  have "d = 0 \<or> d = 1 \<or> d = 2 \<or> d = 3 \<or> d = 4 \<or> d = 5 \<or> d = 6 \<or> d = 7 \<or> d = 8 \<or> d = 9"
    using assms by presburger
  then show ?thesis by (auto simp: digit_char_def digit_val_def Let_def)
qed

lemma digits_val_append:
  "digits_val a (s @ t) = (case digits_val a s of None \<Rightarrow> None | Some b \<Rightarrow> digits_val b t)"
  by (induction a s rule: digits_val.induct) (auto split: option.splits)

lemma digits_val_show_dec: "0 \<le> n \<Longrightarrow> digits_val 0 (show_dec n) = Some n"
proof (induction n rule: show_dec.induct)
  case (1 n)
  show ?case
  proof (cases "n < 10")
    case True
    then show ?thesis using "1.prems" by (subst show_dec.simps) simp
  next
    case False
    then have "digits_val 0 (show_dec (n div 10)) = Some (n div 10)" using 1 by simp
    then show ?thesis using False
      by (subst show_dec.simps) (simp add: digits_val_append)
  qed
qed

lemma digits_val_zeros: "digits_val 0 (replicate k (CHR ''0'') @ s) = digits_val 0 s"
  by (induction k) (simp_all add: digit_val_def Let_def)

lemma digits_val_zfill: "0 \<le> n \<Longrightarrow> digits_val 0 (zfill w (show_dec n)) = Some n"
  by (simp add: zfill_def digits_val_zeros digits_val_show_dec)

lemma show_dec_length:
  "0 \<le> n \<Longrightarrow> n < 10 ^ k \<Longrightarrow> 0 < k \<Longrightarrow> length (show_dec n) \<le> k"
proof (induction n arbitrary: k rule: show_dec.induct)
  case (1 n)
  show ?case
  proof (cases "n < 10")
    case True
    then show ?thesis using "1.prems" by (subst show_dec.simps) simp
  next
    case False
    then obtain j where j: "k = Suc j" "0 < j" using "1.prems"
      by (cases k; cases "k - 1") auto
    then have "length (show_dec (n div 10)) \<le> j" using 1 False by (intro "1.IH") auto
    then show ?thesis using False j by (subst show_dec.simps) simp
  qed
qed

lemma length_zfill: "length s \<le> w \<Longrightarrow> length (zfill w s) = w"
  by (simp add: zfill_def)

text \<open>\<^verbatim>\<open>int(s)\<close> on text: blanks around, an optional sign, digits with single underscores.\<close>

definition is_space :: "char \<Rightarrow> bool" where
  "is_space c \<longleftrightarrow> (of_char c :: int) \<in> {9, 10, 11, 12, 13, 28, 29, 30, 31, 32}"

definition strip :: "string \<Rightarrow> string" where
  "strip s = rev (dropWhile is_space (rev (dropWhile is_space s)))"

fun underscored :: "bool \<Rightarrow> int \<Rightarrow> string \<Rightarrow> int option" where
  "underscored dig acc [] = (if dig then Some acc else None)"
| "underscored dig acc (c # cs) =
     (if c = CHR ''_'' then (if dig then underscored False acc cs else None)
      else case digit_val c of None \<Rightarrow> None | Some d \<Rightarrow> underscored True (10 * acc + d) cs)"

definition py_int :: "string \<Rightarrow> int option" where
  "py_int s = (case strip s of
       [] \<Rightarrow> None
     | c # cs \<Rightarrow> if c = CHR ''-'' then map_option uminus (underscored False 0 cs)
                else if c = CHR ''+'' then underscored False 0 cs
                else underscored False 0 (c # cs))"

lemma digit_char_not_space [simp]:
  assumes "0 \<le> d" "d < 10"
  shows "\<not> is_space (digit_char d)" "digit_char d \<noteq> CHR ''_''" "digit_char d \<noteq> CHR ''-''"
    "digit_char d \<noteq> CHR ''+''"
proof -
  have "d = 0 \<or> d = 1 \<or> d = 2 \<or> d = 3 \<or> d = 4 \<or> d = 5 \<or> d = 6 \<or> d = 7 \<or> d = 8 \<or> d = 9"
    using assms by presburger
  then show "\<not> is_space (digit_char d)" "digit_char d \<noteq> CHR ''_''" "digit_char d \<noteq> CHR ''-''"
    "digit_char d \<noteq> CHR ''+''"
    by (auto simp: digit_char_def is_space_def)
qed

lemma show_dec_digits:
  "0 \<le> n \<Longrightarrow> show_dec n \<noteq> [] \<and> (\<forall>c \<in> set (show_dec n). \<exists>d. 0 \<le> d \<and> d < 10 \<and> c = digit_char d)"
proof (induction n rule: show_dec.induct)
  case (1 n)
  show ?case
  proof (cases "n < 10")
    case True
    then show ?thesis using "1.prems" by (subst (1 2) show_dec.simps) auto
  next
    case False
    then have "\<forall>c \<in> set (show_dec (n div 10)). \<exists>d. 0 \<le> d \<and> d < 10 \<and> c = digit_char d"
      using 1 by simp
    moreover have "\<exists>d\<ge>0. d < 10 \<and> digit_char (n mod 10) = digit_char d"
      by (rule exI [of _ "n mod 10"]) simp
    ultimately show ?thesis using False by (subst (1 2) show_dec.simps) auto
  qed
qed

lemma strip_digits:
  assumes "\<forall>c \<in> set s. \<not> is_space c"
  shows "strip s = s"
proof -
  have "dropWhile is_space t = t" if "\<forall>c \<in> set t. \<not> is_space c" for t
    using that by (cases t) auto
  from this [of s] this [of "rev s"] show ?thesis using assms by (simp add: strip_def)
qed

lemma underscored_digits:
  "\<forall>c \<in> set s. c \<noteq> CHR ''_'' \<Longrightarrow> s \<noteq> [] \<or> dig \<Longrightarrow> underscored dig acc s = digits_val acc s"
  by (induction s arbitrary: acc dig) (auto split: option.splits)

lemma py_int_show_dec: "0 \<le> n \<Longrightarrow> py_int (show_dec n) = Some n"
proof -
  assume n: "0 \<le> n"
  note d = show_dec_digits [OF n]
  then have s: "strip (show_dec n) = show_dec n" by (intro strip_digits) auto
  have nu: "\<forall>c \<in> set (show_dec n). c \<noteq> CHR ''_''"
  proof
    fix c
    assume "c \<in> set (show_dec n)"
    then obtain e where "0 \<le> e" "e < 10" "c = digit_char e" using d by blast
    then show "c \<noteq> CHR ''_''" by simp
  qed
  obtain c cs where c: "show_dec n = c # cs" using d by (cases "show_dec n") auto
  then have "c \<noteq> CHR ''-''" "c \<noteq> CHR ''+''" using d by auto
  moreover have "underscored False 0 (show_dec n) = Some n"
    using d digits_val_show_dec [OF n] nu by (subst underscored_digits) auto
  ultimately show ?thesis
    using s by (simp add: py_int_def c del: underscored.simps)
qed

end
