(* ===== verification/PyTime.thy ===== *)
theory PyTime
  imports PyNum
begin

text \<open>
  Python's \<^verbatim>\<open>datetime\<close> as the modelled code uses it. A \<^verbatim>\<open>datetime\<close> is its wall-clock reading
  in microseconds since 1970-01-01T00:00 and, when it is aware, its offset from UTC; a \<^verbatim>\<open>date\<close>
  is its proleptic Gregorian ordinal (0001-01-01 is 1); a \<^verbatim>\<open>timedelta\<close> is a number of
  microseconds. The library's range check (years 1 to 9999) is not modelled.
\<close>

section \<open>Instants and durations\<close>

record py_datetime =
  dt_wall :: int
  dt_off :: "int option"

definition aware :: "py_datetime \<Rightarrow> bool" where
  "aware d \<longleftrightarrow> dt_off d \<noteq> None"

text \<open>\<^verbatim>\<open>now.replace(tzinfo=UTC)\<close> when \<^verbatim>\<open>now.tzinfo is None\<close>.\<close>

definition assume_utc :: "py_datetime \<Rightarrow> py_datetime" where
  "assume_utc d = (case dt_off d of None \<Rightarrow> d\<lparr>dt_off := Some 0\<rparr> | Some _ \<Rightarrow> d)"

text \<open>The instant of an aware datetime, in microseconds of UTC.\<close>

definition instant :: "py_datetime \<Rightarrow> int" where
  "instant d = dt_wall d - (case dt_off d of None \<Rightarrow> 0 | Some z \<Rightarrow> z)"

definition utc :: "int \<Rightarrow> py_datetime" where
  "utc us = \<lparr>dt_wall = us, dt_off = Some 0\<rparr>"

text \<open>\<^verbatim>\<open>d.astimezone(UTC)\<close> of an aware datetime.\<close>

definition to_utc :: "py_datetime \<Rightarrow> py_datetime" where
  "to_utc d = utc (instant d)"

definition dt_add :: "py_datetime \<Rightarrow> int \<Rightarrow> py_datetime" where
  "dt_add d us = d\<lparr>dt_wall := dt_wall d + us\<rparr>"

lemma instant_utc [simp]: "instant (utc us) = us"
  by (simp add: instant_def utc_def)

lemma instant_to_utc [simp]: "instant (to_utc d) = instant d"
  by (simp add: to_utc_def)

lemma instant_assume_utc [simp]: "instant (assume_utc d) = instant d"
  by (simp add: instant_def assume_utc_def split: option.splits)

lemma assume_utc_utc [simp]: "assume_utc (utc us) = utc us"
  by (simp add: assume_utc_def utc_def)

lemma assume_utc_idem [simp]: "assume_utc (assume_utc d) = assume_utc d"
  by (simp add: assume_utc_def split: option.splits)

lemma instant_dt_add [simp]: "instant (dt_add d us) = instant d + us"
  by (simp add: instant_def dt_add_def)

text \<open>\<^verbatim>\<open>(a - b).total_seconds()\<close>: the exact quotient, rounded once.\<close>

definition total_seconds :: "int \<Rightarrow> f64" where
  "total_seconds us = fl (of_int us / 1000000)"

lemma total_seconds_mono: "a \<le> b \<Longrightarrow> total_seconds a \<le> total_seconds b"
  unfolding total_seconds_def by (intro fl_mono divide_right_mono) simp_all

lemma total_seconds_0 [simp]: "total_seconds 0 = Fin 0"
  by (simp add: total_seconds_def)

lemma total_seconds_not_NaN [simp]: "total_seconds us \<noteq> NaN" "NaN \<noteq> total_seconds us"
  by (simp_all add: total_seconds_def)

text \<open>
  \<^verbatim>\<open>timedelta(seconds=x)\<close> for a float: the whole seconds are kept exactly, the fraction is
  multiplied by one million in binary64 and rounded to a whole microsecond, ties to even.
\<close>

definition truncq :: "rat \<Rightarrow> int" where
  "truncq x = (if 0 \<le> x then \<lfloor>x\<rfloor> else \<lceil>x\<rceil>)"

text \<open>\<^verbatim>\<open>int(x)\<close> of a float.\<close>

definition trunc64 :: "f64 \<Rightarrow> int res" where
  "trunc64 x = (case x of Fin r \<Rightarrow> ret (truncq r) | NaN \<Rightarrow> raise ValueError | _ \<Rightarrow> raise OverflowError)"

fun td_seconds :: "f64 \<Rightarrow> int res" where
  "td_seconds (Fin x) =
     (let w = truncq x in case fl ((x - of_int w) * 1000000) of
        Fin u \<Rightarrow> ret (w * 1000000 + rhe u) | _ \<Rightarrow> raise OverflowError)"
| "td_seconds NaN = raise ValueError"
| "td_seconds _ = raise OverflowError"

section \<open>Dates\<close>

abbreviation us_per_day :: int where "us_per_day \<equiv> 86400000000"

text \<open>The ordinal of 1970-01-01 is 719163.\<close>

definition date_ord :: "py_datetime \<Rightarrow> int" where
  "date_ord d = 719163 + dt_wall d div us_per_day"

lemma date_ord_utc: "date_ord (utc us) = 719163 + us div us_per_day"
  by (simp add: date_ord_def utc_def)

text \<open>Monday is 0.\<close>

definition weekday_ord :: "int \<Rightarrow> int" where
  "weekday_ord n = (n + 6) mod 7"

definition weekday :: "py_datetime \<Rightarrow> int" where
  "weekday d = weekday_ord (date_ord d)"

definition us_of_day :: "py_datetime \<Rightarrow> int" where
  "us_of_day d = dt_wall d mod us_per_day"

definition hour_of :: "py_datetime \<Rightarrow> int" where
  "hour_of d = us_of_day d div 3600000000"

definition minute_of :: "py_datetime \<Rightarrow> int" where
  "minute_of d = (us_of_day d div 60000000) mod 60"

text \<open>\<^verbatim>\<open>d.replace(hour=h, minute=0, second=0, microsecond=0)\<close>\<close>

definition at_hour :: "py_datetime \<Rightarrow> int \<Rightarrow> py_datetime" where
  "at_hour d h = d\<lparr>dt_wall := dt_wall d - us_of_day d + h * 3600000000\<rparr>"

text \<open>\<^verbatim>\<open>d.replace(minute=m, second=0, microsecond=0)\<close>\<close>

definition at_minute :: "py_datetime \<Rightarrow> int \<Rightarrow> py_datetime" where
  "at_minute d m = d\<lparr>dt_wall := dt_wall d - dt_wall d mod 3600000000 + m * 60000000\<rparr>"

lemma weekday_range: "0 \<le> weekday_ord n \<and> weekday_ord n < 7"
  by (simp add: weekday_ord_def)

section \<open>Calendar years and ISO weeks\<close>

definition is_leap :: "int \<Rightarrow> bool" where
  "is_leap y \<longleftrightarrow> y mod 4 = 0 \<and> (y mod 100 \<noteq> 0 \<or> y mod 400 = 0)"

definition days_before_year :: "int \<Rightarrow> int" where
  "days_before_year y = (let k = y - 1 in k * 365 + k div 4 - k div 100 + k div 400)"

text \<open>The year of an ordinal: an estimate from the 400-year cycle, corrected by one.\<close>

definition year_of_ord :: "int \<Rightarrow> int" where
  "year_of_ord n =
     (let y = (400 * (n - 1)) div 146097 + 1
      in if days_before_year (y + 1) < n then y + 1 else y)"

lemma div_incr:
  assumes "0 < (m::int)"
  shows "(k + 1) div m = k div m + (if (k + 1) mod m = 0 then 1 else 0)"
proof (cases "(k + 1) mod m = 0")
  case True
  then obtain q where q: "k + 1 = m * q" by (auto simp: mod_eq_0_iff_dvd)
  then have "k div m = q - 1"
    using assms by (intro int_div_pos_eq [of _ _ _ "m - 1"]) (auto simp: algebra_simps)
  moreover have "(k + 1) div m = q" using q assms by simp
  ultimately show ?thesis using True by simp
next
  case False
  let ?q = "(k + 1) div m" and ?r = "(k + 1) mod m"
  have "0 < ?r" using False assms pos_mod_sign [of m "k + 1"] by linarith
  moreover have "k = m * ?q + (?r - 1)" using mult_div_mod_eq [of m "k + 1"] by linarith
  moreover have "?r \<le> m" using assms pos_mod_bound [of m "k + 1"] by linarith
  ultimately have "k div m = ?q"
    by (intro int_div_pos_eq [of _ _ _ "?r - 1"]) auto
  then show ?thesis using False by simp
qed

lemma days_before_year_step:
  "days_before_year (y + 1) - days_before_year y = (if is_leap y then 366 else 365)"
proof -
  define p q r where pqr: "p \<longleftrightarrow> y mod 4 = 0" "q \<longleftrightarrow> y mod 100 = 0" "r \<longleftrightarrow> y mod 400 = 0"
  have m: "r \<longrightarrow> q" "q \<longrightarrow> p"
    unfolding pqr mod_eq_0_iff_dvd
    by (blast intro: dvd_trans [of 100 400 y, simplified] dvd_trans [of 4 100 y, simplified])+
  define a b c where abc: "a = (y - 1) div 4" "b = (y - 1) div 100" "c = (y - 1) div 400"
  have "y div 4 = a + (if p then 1 else 0)" "y div 100 = b + (if q then 1 else 0)"
    "y div 400 = c + (if r then 1 else 0)"
    unfolding abc pqr
    by (rule div_incr [where k = "y - 1", simplified diff_add_cancel], simp)+
  then have 1: "days_before_year (y + 1) = y * 365 + (a + (if p then 1 else 0))
      - (b + (if q then 1 else 0)) + (c + (if r then 1 else 0))"
    by (simp only: days_before_year_def Let_def add_diff_cancel_right')
  have 2: "days_before_year y = (y - 1) * 365 + a - b + c"
    by (simp only: days_before_year_def Let_def abc)
  have 3: "is_leap y = (p \<and> (\<not> q \<or> r))" by (simp only: is_leap_def pqr not_not)
  show ?thesis
    unfolding 1 2 3 using m by (cases p; cases q; cases r) simp_all
qed

lemma days_before_year_Suc:
  "days_before_year y + 365 \<le> days_before_year (y + 1)"
  "days_before_year (y + 1) \<le> days_before_year y + 366"
  using days_before_year_step [of y] by (auto split: if_splits)

lemma year_of_ord_bounds:
  "days_before_year (year_of_ord n) < n" "n \<le> days_before_year (year_of_ord n + 1)"
proof -
  define k where "k = (400 * (n - 1)) div 146097"
  have k: "146097 * k \<le> 400 * (n - 1)" "400 * (n - 1) < 146097 * k + 146097"
    using mult_div_mod_eq [of 146097 "400 * (n - 1)"] pos_mod_sign [of 146097 "400 * (n - 1)"]
      pos_mod_bound [of 146097 "400 * (n - 1)"] unfolding k_def by linarith+
  obtain a b c where abc: "a = k div 4" "b = k div 100" "c = k div 400" by blast
  have q: "4 * a \<le> k" "k \<le> 4 * a + 3" "100 * b \<le> k"
    "k \<le> 100 * b + 99" "400 * c \<le> k" "k \<le> 400 * c + 399"
    unfolding abc by presburger+
  have eq: "days_before_year (k + 1) = k * 365 + a - b + c"
    by (simp add: days_before_year_def abc)
  have "400 * (k * 365 + a - b + c) < 400 * n"
    using k(1) q(1,4,5) by (simp add: algebra_simps)
  then have lo: "days_before_year (k + 1) < n" unfolding eq by simp
  have "400 * n \<le> 400 * (k * 365 + a - b + c + 700)"
    using k(2) q(2,3,6) by (simp add: algebra_simps)
  then have hi: "n \<le> days_before_year (k + 1) + 700" unfolding eq by simp
  have s: "days_before_year (k + 1) + 365 \<le> days_before_year (k + 2)"
     "days_before_year (k + 2) + 365 \<le> days_before_year (k + 3)"
    using days_before_year_Suc(1) [of "k + 1"] days_before_year_Suc(1) [of "k + 2"]
    by (auto simp: add.assoc)
  show "days_before_year (year_of_ord n) < n" "n \<le> days_before_year (year_of_ord n + 1)"
    using lo hi s unfolding year_of_ord_def Let_def k_def [symmetric]
    by (auto simp: add.assoc)
qed

text \<open>The Monday of ISO week 1: the week that holds the year's first Thursday.\<close>

definition iso_week1_monday :: "int \<Rightarrow> int" where
  "iso_week1_monday y =
     (let first = days_before_year y + 1; wd = weekday_ord first; mon = first - wd
      in if 3 < wd then mon + 7 else mon)"

text \<open>\<^verbatim>\<open>d.isocalendar()[:2]\<close>: the ISO year and week of an ordinal.\<close>

definition iso_calendar :: "int \<Rightarrow> int \<times> int" where
  "iso_calendar n =
     (let y = year_of_ord n; w = (n - iso_week1_monday y) div 7
      in if w < 0 then (y - 1, (n - iso_week1_monday (y - 1)) div 7 + 1)
         else if 52 \<le> w \<and> iso_week1_monday (y + 1) \<le> n then (y + 1, 1)
         else (y, w + 1))"

lemma iso_week1_monday_near:
  "days_before_year y - 2 \<le> iso_week1_monday y" "iso_week1_monday y \<le> days_before_year y + 4"
  using weekday_range [of "days_before_year y + 1"] by (auto simp: iso_week1_monday_def Let_def)

lemma iso_week1_monday_is_monday: "weekday_ord (iso_week1_monday y) = 0"
  unfolding iso_week1_monday_def Let_def weekday_ord_def by presburger

lemma iso_week1_monday_mono: "y < z \<Longrightarrow> iso_week1_monday y < iso_week1_monday z"
proof -
  have step: "iso_week1_monday y < iso_week1_monday (y + 1)" for y
    using iso_week1_monday_near [of y] iso_week1_monday_near [of "y + 1"]
      days_before_year_Suc [of y] by linarith
  have "iso_week1_monday y < iso_week1_monday (y + 1 + int k)" for k
  proof (induction k)
    case (Suc k)
    then show ?case using step [of "y + 1 + int k"] by (simp add: add.assoc)
  qed (use step in simp)
  moreover assume "y < z"
  ultimately show ?thesis using zless_iff_Suc_zadd [of y z] by (metis add.assoc int_ops(4) add.commute)
qed

text \<open>The ISO year's first Monday and the week number locate the day's own week.\<close>

lemma iso_calendar_spec:
  assumes "iso_calendar n = (y, w)"
  shows "iso_week1_monday y \<le> n" and "n < iso_week1_monday (y + 1)"
    and "w = (n - iso_week1_monday y) div 7 + 1"
proof -
  let ?y = "year_of_ord n"
  note y = year_of_ord_bounds [of n]
  have prev: "iso_week1_monday (?y - 1) \<le> n"
    using iso_week1_monday_near [of "?y - 1"] days_before_year_Suc [of "?y - 1"] y by simp
  have next2: "n < iso_week1_monday (?y + 2)"
    using iso_week1_monday_near [of "?y + 2"] days_before_year_Suc [of "?y + 1"] y
    by (simp add: add.assoc)
  define a b where ab: "a = iso_week1_monday ?y" "b = iso_week1_monday (?y + 1)"
  have "(a + 6) mod 7 = 0" "(b + 6) mod 7 = 0"
    using iso_week1_monday_is_monday unfolding ab weekday_ord_def by auto
  then obtain j where j: "b - a = 7 * j" by (metis mod_0_imp_dvd diff_add_cancel dvd_def dvd_diff add_diff_cancel_right)
  have "359 \<le> b - a" "n \<le> b + 2"
    using iso_week1_monday_near [of "?y + 1"] iso_week1_monday_near [of ?y]
      days_before_year_Suc [of ?y] y unfolding ab by linarith+
  moreover from this j have "52 \<le> j" by presburger
  ultimately have bn: "b \<le> n \<Longrightarrow> 7 * 52 \<le> n - a" "b \<le> n \<Longrightarrow> n - b \<le> 2"
    using j by linarith+
  then have "b \<le> n \<Longrightarrow> 52 \<le> (n - a) div 7 \<and> (n - b) div 7 = 0"
    using zdiv_mono1 [of "7 * 52" "n - a" 7] by auto
  then have late: "iso_week1_monday (?y + 1) \<le> n \<Longrightarrow> 52 \<le> (n - iso_week1_monday ?y) div 7
      \<and> (n - iso_week1_monday (?y + 1)) div 7 = 0" unfolding ab .
  show "iso_week1_monday y \<le> n" "n < iso_week1_monday (y + 1)"
    "w = (n - iso_week1_monday y) div 7 + 1"
    using assms prev next2 late unfolding iso_calendar_def Let_def
    by (auto split: if_splits simp: add.assoc not_le [symmetric])
qed

lemma iso_year_unique:
  assumes "iso_week1_monday y \<le> n" "n < iso_week1_monday (y + 1)"
    and "iso_week1_monday z \<le> n" "n < iso_week1_monday (z + 1)"
  shows "y = z"
proof (rule ccontr)
  assume "y \<noteq> z"
  then consider "y + 1 \<le> z" | "z + 1 \<le> y" by linarith
  then show False
  proof cases
    case 1
    then have "iso_week1_monday (y + 1) \<le> iso_week1_monday z"
      using iso_week1_monday_mono [of "y + 1" z] by (cases "y + 1 = z") auto
    with assms show False by linarith
  next
    case 2
    then have "iso_week1_monday (z + 1) \<le> iso_week1_monday y"
      using iso_week1_monday_mono [of "z + 1" y] by (cases "z + 1 = y") auto
    with assms show False by linarith
  qed
qed

text \<open>Two days have the same ISO year and week exactly when they share their Monday.\<close>

lemma iso_calendar_eq_iff:
  "iso_calendar m = iso_calendar n \<longleftrightarrow> m - weekday_ord m = n - weekday_ord n"
proof -
  obtain y w where m: "iso_calendar m = (y, w)" by (cases "iso_calendar m")
  obtain z v where n: "iso_calendar n = (z, v)" by (cases "iso_calendar n")
  note sm = iso_calendar_spec [OF m] and sn = iso_calendar_spec [OF n]
  have mon: "iso_week1_monday y + 7 * ((d - iso_week1_monday y) div 7) = d - weekday_ord d" for y d
    using iso_week1_monday_is_monday [of y] unfolding weekday_ord_def by presburger
  have dm: "m - weekday_ord m = iso_week1_monday y + 7 * (w - 1)"
    and dn: "n - weekday_ord n = iso_week1_monday z + 7 * (v - 1)"
    using mon [of y m] mon [of z n] sm(3) sn(3) by simp_all
  show ?thesis
  proof
    assume "iso_calendar m = iso_calendar n"
    then show "m - weekday_ord m = n - weekday_ord n" using m n dm dn by simp
  next
    assume eq: "m - weekday_ord m = n - weekday_ord n"
    have "iso_week1_monday y \<le> n - weekday_ord n"
      using dm eq sm(1,3) by simp
    moreover have "n - weekday_ord n < iso_week1_monday (y + 1)"
      using eq sm(2) weekday_range [of m] by linarith
    moreover have "iso_week1_monday z \<le> n - weekday_ord n" using dn sn(1,3) by simp
    moreover have "n - weekday_ord n < iso_week1_monday (z + 1)"
      using sn(2) weekday_range [of n] by linarith
    ultimately have "y = z" by (rule iso_year_unique)
    moreover from this have "w = v" using dm dn eq by simp
    ultimately show "iso_calendar m = iso_calendar n" using m n by simp
  qed
qed


section \<open>Dates as text\<close>

definition month_starts :: "int list" where
  "month_starts = [0, 31, 59, 90, 120, 151, 181, 212, 243, 273, 304, 334]"

definition days_before_month :: "int \<Rightarrow> int \<Rightarrow> int" where
  "days_before_month y m = month_starts ! nat (m - 1) + (if 2 < m \<and> is_leap y then 1 else 0)"

definition days_in_month :: "int \<Rightarrow> int \<Rightarrow> int" where
  "days_in_month y m = (if m = 12 then 31 else days_before_month y (m + 1) - days_before_month y m)"

definition month_of :: "int \<Rightarrow> int \<Rightarrow> int" where
  "month_of y k = (let b = days_before_month y in
     if k \<le> b 2 then 1 else if k \<le> b 3 then 2 else if k \<le> b 4 then 3 else if k \<le> b 5 then 4
     else if k \<le> b 6 then 5 else if k \<le> b 7 then 6 else if k \<le> b 8 then 7 else if k \<le> b 9 then 8
     else if k \<le> b 10 then 9 else if k \<le> b 11 then 10 else if k \<le> b 12 then 11 else 12)"

definition ymd_ord :: "int \<Rightarrow> int \<Rightarrow> int \<Rightarrow> int" where
  "ymd_ord y m d = days_before_year y + days_before_month y m + d"

text \<open>\<^verbatim>\<open>date.isoformat()\<close>: \<^verbatim>\<open>YYYY-MM-DD\<close>.\<close>

definition date_isoformat :: "int \<Rightarrow> string" where
  "date_isoformat n =
     (let y = year_of_ord n; k = n - days_before_year y; m = month_of y k
      in zfill 4 (show_dec y) @ ''-'' @ zfill 2 (show_dec m) @ ''-''
         @ zfill 2 (show_dec (k - days_before_month y m)))"

fun take_digits :: "nat \<Rightarrow> string \<Rightarrow> (int \<times> string) option" where
  "take_digits k s = (if length s < k then None
     else case digits_val 0 (take k s) of None \<Rightarrow> None | Some v \<Rightarrow> Some (v, List.drop k s))"

definition valid_ymd :: "int \<Rightarrow> int \<Rightarrow> int \<Rightarrow> bool" where
  "valid_ymd y m d \<longleftrightarrow> 1 \<le> y \<and> y \<le> 9999 \<and> 1 \<le> m \<and> m \<le> 12 \<and> 1 \<le> d \<and> d \<le> days_in_month y m"

text \<open>
  \<^verbatim>\<open>date.fromisoformat(s)\<close> of Python 3.11: the calendar form and the ISO-week form, both
  with or without separators; \<open>None\<close> stands for ValueError.
\<close>

definition skip_dash :: "bool \<Rightarrow> string \<Rightarrow> string option" where
  "skip_dash sep s = (if sep then (case s of c # t \<Rightarrow> if c = CHR ''-'' then Some t else None | [] \<Rightarrow> None)
     else Some s)"

definition fromiso_calendar :: "bool \<Rightarrow> int \<Rightarrow> string \<Rightarrow> int option" where
  "fromiso_calendar sep y s =
     Option.bind (take_digits 2 s) (\<lambda>(m, s).
     Option.bind (skip_dash sep s) (\<lambda>s.
     Option.bind (take_digits 2 s) (\<lambda>(d, s).
       if s = [] \<and> valid_ymd y m d then Some (ymd_ord y m d) else None)))"

definition fromiso_week :: "bool \<Rightarrow> int \<Rightarrow> string \<Rightarrow> int option" where
  "fromiso_week sep y s =
     Option.bind (take_digits 2 s) (\<lambda>(w, s).
     Option.bind (if s = [] then Some (1, []) else
       Option.bind (skip_dash sep s) (take_digits 1)) (\<lambda>(d, s).
       let n = iso_week1_monday y + (w - 1) * 7 + (d - 1)
       in if s = [] \<and> 1 \<le> y \<and> 1 \<le> w \<and> w \<le> 53 \<and> 1 \<le> d \<and> d \<le> 7
            \<and> (w = 53 \<longrightarrow> iso_week1_monday y + 52 * 7 < iso_week1_monday (y + 1))
            \<and> 1 \<le> n \<and> n \<le> 3652059
          then Some n else None))"

definition date_fromisoformat :: "string \<Rightarrow> int option" where
  "date_fromisoformat s =
     (if length s \<in> {7, 8, 10} then
        Option.bind (take_digits 4 s) (\<lambda>(y, s).
          let sep = (s \<noteq> [] \<and> hd s = CHR ''-''); t = (if sep then tl s else s)
          in case t of c # u \<Rightarrow> if c = CHR ''W'' then fromiso_week sep y u
                                else fromiso_calendar sep y t
             | [] \<Rightarrow> None)
      else None)"

lemma month_of_cases:
  assumes "1 \<le> k" "k \<le> 366" "k = 366 \<longrightarrow> is_leap y"
  shows "1 \<le> month_of y k" "month_of y k \<le> 12"
    "1 \<le> k - days_before_month y (month_of y k)"
    "k - days_before_month y (month_of y k) \<le> days_in_month y (month_of y k)"
proof -
  have "1 \<le> month_of y k \<and> month_of y k \<le> 12 \<and>
    1 \<le> k - days_before_month y (month_of y k) \<and>
    k - days_before_month y (month_of y k) \<le> days_in_month y (month_of y k)"
  proof (cases "is_leap y")
    case True
    show ?thesis
      unfolding month_of_def Let_def using assms True
      by (simp add: days_before_month_def days_in_month_def month_starts_def)
  next
    case False
    show ?thesis
      unfolding month_of_def Let_def using assms False
      by (simp add: days_before_month_def days_in_month_def month_starts_def)
  qed
  then show "1 \<le> month_of y k" "month_of y k \<le> 12"
    "1 \<le> k - days_before_month y (month_of y k)"
    "k - days_before_month y (month_of y k) \<le> days_in_month y (month_of y k)" by auto
qed

lemma take_digits_zfill:
  assumes "0 \<le> n" "n < 10 ^ w" "0 < w"
  shows "take_digits w (zfill w (show_dec n) @ s) = Some (n, s)"
proof -
  have "length (zfill w (show_dec n)) = w"
    using assms by (intro length_zfill show_dec_length)
  then show ?thesis using assms by (simp add: digits_val_zfill)
qed

lemma days_in_month_le: "1 \<le> m \<Longrightarrow> m \<le> 12 \<Longrightarrow> days_in_month y m \<le> 31"
proof -
  assume "1 \<le> m" "m \<le> 12"
  then have "m = 1 \<or> m = 2 \<or> m = 3 \<or> m = 4 \<or> m = 5 \<or> m = 6 \<or> m = 7 \<or> m = 8 \<or> m = 9
      \<or> m = 10 \<or> m = 11 \<or> m = 12" by presburger
  then show ?thesis
    by (auto simp: days_in_month_def days_before_month_def month_starts_def)
qed

text \<open>The printed date has ten characters. Printing a date and reading it back gives the date, for the years the library has.\<close>

lemma date_iso_roundtrip:
  assumes "1 \<le> n" "n \<le> 3652059"
  shows "date_fromisoformat (date_isoformat n) = Some n" and "length (date_isoformat n) = 10"
proof -
  let ?y = "year_of_ord n"
  let ?k = "n - days_before_year ?y"
  let ?m = "month_of ?y ?k"
  let ?d = "?k - days_before_month ?y ?m"
  note b = year_of_ord_bounds [of n]
  have mono: "days_before_year u \<le> days_before_year v" if "u \<le> v" for u v
  proof -
    have "days_before_year u \<le> days_before_year (u + int j)" for j
    proof (induction j)
      case (Suc j)
      have e: "u + int (Suc j) = u + int j + 1" by simp
      have "days_before_year (u + int j) \<le> days_before_year (u + int j + 1)"
        using days_before_year_step [of "u + int j"] by (simp split: if_splits)
      then show ?case using Suc unfolding e by (rule order_trans [rotated])
    qed simp
    then show ?thesis using that zle_iff_zadd by metis
  qed
  have y: "1 \<le> ?y" "?y \<le> 9999"
  proof -
    show "1 \<le> ?y"
    proof (rule ccontr)
      assume "\<not> 1 \<le> ?y"
      then have "days_before_year (?y + 1) \<le> days_before_year 1" by (intro mono) simp
      then show False using b assms by (simp add: days_before_year_def)
    qed
    show "?y \<le> 9999"
    proof (rule ccontr)
      assume "\<not> ?y \<le> 9999"
      then have "days_before_year 10000 \<le> days_before_year ?y" by (intro mono) simp
      then show False using b assms by (simp add: days_before_year_def)
    qed
  qed
  have k: "1 \<le> ?k" "?k \<le> 366" "?k = 366 \<longrightarrow> is_leap ?y"
    using b days_before_year_step [of ?y] by (auto split: if_splits)
  note m = month_of_cases [OF k]
  have d: "?d \<le> 31" using m days_in_month_le [of ?m ?y] by simp
  have v: "valid_ymd ?y ?m ?d" using y m by (simp add: valid_ymd_def)
  have len: "length (date_isoformat n) = 10"
    using y m d unfolding date_isoformat_def Let_def
    by (simp add: length_zfill show_dec_length)
  then show "length (date_isoformat n) = 10" .
  have split: "date_isoformat n = zfill 4 (show_dec ?y) @ ''-'' @ zfill 2 (show_dec ?m) @ ''-''
      @ zfill 2 (show_dec ?d) @ []"
    by (simp add: date_isoformat_def Let_def)
  have y4: "take_digits 4 (date_isoformat n) = Some (?y, ''-'' @ zfill 2 (show_dec ?m) @ ''-''
      @ zfill 2 (show_dec ?d) @ [])"
    unfolding split using y by (intro take_digits_zfill) auto
  have m2: "take_digits 2 (zfill 2 (show_dec ?m) @ t) = Some (?m, t)" for t
    using m by (intro take_digits_zfill) auto
  have d2: "take_digits 2 (zfill 2 (show_dec ?d) @ []) = Some (?d, [])"
    using m d by (intro take_digits_zfill) auto
  have W: "zfill 2 (show_dec ?m) @ t = c # u \<Longrightarrow> c \<noteq> CHR ''W''" for t c u
  proof -
    assume eq: "zfill 2 (show_dec ?m) @ t = c # u"
    have "take_digits 2 (c # u) = Some (?m, t)" using m2 [of t] eq by simp
    then show "c \<noteq> CHR ''W''" by (auto simp: digit_val_def Let_def split: if_splits option.splits)
  qed
  obtain c u where cu: "zfill 2 (show_dec ?m) @ ''-'' @ zfill 2 (show_dec ?d) @ [] = c # u"
    using length_zfill [of "show_dec ?m" 2] m show_dec_length [of ?m 2]
    by (cases "zfill 2 (show_dec ?m)") auto
  have ord: "ymd_ord ?y ?m ?d = n" by (simp add: ymd_ord_def)
  have "fromiso_calendar True ?y (c # u) = Some n"
    unfolding fromiso_calendar_def cu [symmetric] m2 using d2 v ord
    by (simp add: skip_dash_def del: take_digits.simps)
  then show "date_fromisoformat (date_isoformat n) = Some n"
    unfolding date_fromisoformat_def y4 using len W [OF cu] cu
    by (simp add: del: take_digits.simps)
qed

end
