(* ===== verification/Domain.thy ===== *)
theory Domain
  imports PyNum PyTime
begin

text \<open>
  The domain entities: the enumerations of \<^verbatim>\<open>domain/enums.py\<close> with their string values, and
  the frozen models of \<^verbatim>\<open>domain/models.py\<close> as records with the validation that their
  constructors run (\<open>mk_\<dots>\<close>), a validation error being \<open>ValueError\<close>.
\<close>

section \<open>Enumerations\<close>

datatype execution_mode = BACKTEST | REPLAY | PAPER | SHADOW | LIVE

datatype action_type =
    WAIT | NO_TRADE | A_BUY | A_SELL | BUY_MARKET | SELL_MARKET | A_BUY_LIMIT | A_SELL_LIMIT
  | A_BUY_STOP | A_SELL_STOP | CLOSE_POSITION | PARTIAL_CLOSE | MODIFY_SL_TP | CANCEL_ORDER

datatype order_type = BUY | SELL | BUY_LIMIT | SELL_LIMIT | BUY_STOP | SELL_STOP

datatype order_status = PENDING | FILLED | REJECTED | CANCELLED | EXPIRED

datatype system_health = HEALTHY | DEGRADED | UNHEALTHY | DISCONNECTED

fun action_value :: "action_type \<Rightarrow> string" where
  "action_value WAIT = ''WAIT''"
| "action_value NO_TRADE = ''NO_TRADE''"
| "action_value A_BUY = ''BUY''"
| "action_value A_SELL = ''SELL''"
| "action_value BUY_MARKET = ''BUY_MARKET''"
| "action_value SELL_MARKET = ''SELL_MARKET''"
| "action_value A_BUY_LIMIT = ''BUY_LIMIT''"
| "action_value A_SELL_LIMIT = ''SELL_LIMIT''"
| "action_value A_BUY_STOP = ''BUY_STOP''"
| "action_value A_SELL_STOP = ''SELL_STOP''"
| "action_value CLOSE_POSITION = ''CLOSE_POSITION''"
| "action_value PARTIAL_CLOSE = ''PARTIAL_CLOSE''"
| "action_value MODIFY_SL_TP = ''MODIFY_SL_TP''"
| "action_value CANCEL_ORDER = ''CANCEL_ORDER''"

fun order_value :: "order_type \<Rightarrow> string" where
  "order_value BUY = ''BUY''"
| "order_value SELL = ''SELL''"
| "order_value BUY_LIMIT = ''BUY_LIMIT''"
| "order_value SELL_LIMIT = ''SELL_LIMIT''"
| "order_value BUY_STOP = ''BUY_STOP''"
| "order_value SELL_STOP = ''SELL_STOP''"

text \<open>Python's \<^verbatim>\<open>s in t\<close> on strings, \<^verbatim>\<open>str.upper\<close> and \<^verbatim>\<open>str.lower\<close> on ASCII text.\<close>

fun prefix_of :: "string \<Rightarrow> string \<Rightarrow> bool" where
  "prefix_of [] t = True"
| "prefix_of (c # s) [] = False"
| "prefix_of (c # s) (d # t) = (c = d \<and> prefix_of s t)"

fun str_in :: "string \<Rightarrow> string \<Rightarrow> bool" where
  "str_in s [] = (s = [])"
| "str_in s (d # t) = (prefix_of s (d # t) \<or> str_in s t)"

definition upper_char :: "char \<Rightarrow> char" where
  "upper_char c = (let k = (of_char c :: int) in if 97 \<le> k \<and> k \<le> 122 then char_of (k - 32) else c)"

definition lower_char :: "char \<Rightarrow> char" where
  "lower_char c = (let k = (of_char c :: int) in if 65 \<le> k \<and> k \<le> 90 then char_of (k + 32) else c)"

definition upper :: "string \<Rightarrow> string" where
  "upper = map upper_char"

definition lower :: "string \<Rightarrow> string" where
  "lower = map lower_char"

section \<open>Market data\<close>

record tick_data =
  t_symbol :: string
  t_timestamp :: py_datetime
  t_bid :: f64
  t_ask :: f64
  t_last :: f64
  t_volume :: f64
  t_flags :: int

definition tick_fields_ok :: "tick_data \<Rightarrow> bool" where
  "tick_fields_ok t \<longleftrightarrow> 0 < t_bid t \<and> isfinite (t_bid t) \<and> 0 < t_ask t \<and> isfinite (t_ask t)
     \<and> 0 \<le> t_last t \<and> isfinite (t_last t) \<and> 0 \<le> t_volume t \<and> isfinite (t_volume t)"

text \<open>The timestamp validator: a naive time is taken as UTC, an aware one converted.\<close>

definition validate_utc_timestamp :: "py_datetime \<Rightarrow> py_datetime" where
  "validate_utc_timestamp v = (case dt_off v of None \<Rightarrow> assume_utc v | Some _ \<Rightarrow> to_utc v)"

definition mk_tick :: "tick_data \<Rightarrow> tick_data res" where
  "mk_tick t =
     (if \<not> tick_fields_ok t then raise ValueError
      else let t = t\<lparr>t_timestamp := validate_utc_timestamp (t_timestamp t)\<rparr>
        in if t_ask t < t_bid t then raise ValueError else ret t)"

definition spread_points :: "tick_data \<Rightarrow> f64" where
  "spread_points t = round_nd 6 (t_ask t - t_bid t)"

record symbol_info =
  si_symbol :: string
  si_digits :: int
  si_point :: f64
  si_tick_size :: f64
  si_tick_value :: f64
  si_volume_min :: f64
  si_volume_max :: f64
  si_volume_step :: f64
  si_stops_level :: int
  si_freeze_level :: int
  si_trade_contract_size :: f64

definition mk_symbol_info :: "symbol_info \<Rightarrow> symbol_info res" where
  "mk_symbol_info s =
     (if 0 \<le> si_digits s \<and> 0 < si_point s \<and> 0 < si_tick_size s \<and> 0 < si_tick_value s \<and> 0 < si_volume_min s
         \<and> 0 < si_volume_max s \<and> 0 < si_volume_step s \<and> 0 \<le> si_stops_level s \<and> 0 \<le> si_freeze_level s
         \<and> 0 < si_trade_contract_size s
      then ret s else raise ValueError)"

record account_info =
  acc_login :: int
  acc_trade_mode :: int
  acc_leverage :: int
  acc_balance :: f64
  acc_equity :: f64
  acc_margin :: f64
  acc_margin_free :: f64
  acc_currency :: string

definition mk_account :: "account_info \<Rightarrow> account_info res" where
  "mk_account a =
     (if 0 < acc_leverage a \<and> 0 \<le> acc_balance a \<and> 0 \<le> acc_equity a \<and> 0 \<le> acc_margin a
      then ret a else raise ValueError)"

definition is_real_account :: "account_info \<Rightarrow> bool" where
  "is_real_account a \<longleftrightarrow> acc_trade_mode a = 2"

section \<open>Decisions and orders\<close>

text \<open>
  The decision intent. The fields that only explain a decision in the audit log (filter
  scores, guardian status, override texts, the free-form \<^verbatim>\<open>risk_checks\<close> dictionary) are not
  read by any modelled operation and are left out.
\<close>

record trade_proposal =
  p_request_id :: string
  p_execution_id :: "string option"
  p_symbol :: string
  p_generated_at :: py_datetime
  p_action :: action_type
  p_confidence :: f64
  p_proposed_entry :: f64
  p_stop_loss :: f64
  p_take_profit :: f64
  p_risk_reward_ratio :: f64
  p_reason_code :: string
  p_ticket :: int
  p_volume :: "f64 option"
  p_decision_stage :: "string option"
  p_blocked_by :: "string option"
  p_reversal_action :: "action_type option"
  p_is_ai_reversal :: bool

definition buy_actions :: "action_type list" where
  "buy_actions = [A_BUY, BUY_MARKET, A_BUY_LIMIT, A_BUY_STOP]"

definition sell_actions :: "action_type list" where
  "sell_actions = [A_SELL, SELL_MARKET, A_SELL_LIMIT, A_SELL_STOP]"

definition validate_action_price_invariants :: "trade_proposal \<Rightarrow> trade_proposal res" where
  "validate_action_price_invariants p =
     (if p_action p \<in> set buy_actions then
        (if p_proposed_entry p \<le> p_stop_loss p then raise ValueError
         else if p_take_profit p \<le> p_proposed_entry p then raise ValueError
         else ret p)
      else if p_action p \<in> set sell_actions then
        (if p_stop_loss p \<le> p_proposed_entry p then raise ValueError
         else if p_proposed_entry p \<le> p_take_profit p then raise ValueError
         else ret p)
      else ret p)"

definition mk_proposal :: "trade_proposal \<Rightarrow> trade_proposal res" where
  "mk_proposal p =
     (if 0 \<le> p_confidence p \<and> p_confidence p \<le> 1 \<and> 0 < p_proposed_entry p \<and> 0 < p_stop_loss p
         \<and> 0 < p_take_profit p \<and> 0 < p_risk_reward_ratio p
      then validate_action_price_invariants p else raise ValueError)"

record trade_order =
  o_id :: string
  o_symbol :: string
  o_type :: order_type
  o_volume :: f64
  o_price :: f64
  o_stop_loss :: f64
  o_take_profit :: f64
  o_magic :: int
  o_comment :: string

definition mk_order :: "trade_order \<Rightarrow> trade_order res" where
  "mk_order ord =
     (if 0 < o_volume ord \<and> 0 < o_price ord \<and> 0 < o_stop_loss ord \<and> 0 < o_take_profit ord
         \<and> length (o_comment ord) \<le> 31
      then ret ord else raise ValueError)"

record position =
  pos_ticket :: int
  pos_symbol :: string
  pos_type :: order_type
  pos_volume :: f64
  pos_price_open :: f64
  pos_sl :: f64
  pos_tp :: f64
  pos_profit :: f64
  pos_magic :: int

definition mk_position :: "position \<Rightarrow> position res" where
  "mk_position p =
     (if 0 < pos_volume p \<and> 0 < pos_price_open p \<and> 0 \<le> pos_sl p \<and> 0 \<le> pos_tp p
      then ret p else raise ValueError)"

section \<open>Lemmas\<close>

lemma mk_order_Inr: "mk_order ord = Inr x \<Longrightarrow> x = ord \<and> 0 < o_volume ord"
  by (auto simp: mk_order_def split: if_splits)

lemma mk_tick_props:
  assumes "mk_tick t = Inr u"
  shows "0 < t_bid u" "isfinite (t_bid u)" "isfinite (t_ask u)" "t_bid u \<le> t_ask u"
    "dt_off (t_timestamp u) = Some 0"
proof -
  have f: "tick_fields_ok t" and u: "u = t\<lparr>t_timestamp := validate_utc_timestamp (t_timestamp t)\<rparr>"
    and s: "\<not> t_ask u < t_bid u"
    using assms by (auto simp: mk_tick_def Let_def split: if_splits)
  show b: "0 < t_bid u" "isfinite (t_bid u)" "isfinite (t_ask u)"
    using f by (auto simp: u tick_fields_ok_def)
  show "t_bid u \<le> t_ask u" using b s by (auto elim!: isfiniteE simp: f64_not_less)
  show "dt_off (t_timestamp u) = Some 0"
    by (auto simp: u validate_utc_timestamp_def assume_utc_def to_utc_def utc_def split: option.splits)
qed

end
