(* ===== verification/Valuation.thy ===== *)
theory Valuation
  imports PyNum
begin

text \<open>
  The broker money arithmetic of \<^verbatim>\<open>domain/valuation.py\<close>: value of a price move, margin
  estimate, tick-value cross-check, volume and price quantisation, stop distance and margin
  level. Every number is a binary64 value; a raised exception is the left summand.
\<close>

definition price_delta_value :: "f64 \<Rightarrow> f64 \<Rightarrow> f64 \<Rightarrow> f64 \<Rightarrow> f64" where
  "price_delta_value volume contract_size price_delta currency_factor =
     (if volume \<le> 0 \<or> contract_size \<le> 0 then 0
      else if feq price_delta 0 \<or> feq currency_factor 0 then 0
      else volume * contract_size * price_delta * currency_factor)"

definition reward_value :: "f64 \<Rightarrow> f64 \<Rightarrow> f64 \<Rightarrow> f64 \<Rightarrow> f64" where
  "reward_value volume contract_size price_distance currency_factor =
     price_delta_value volume contract_size (fabs64 price_distance) currency_factor"

text \<open>\<open>leverage\<close> is an integer or a float in the code; here it is its float value, \<open>None\<close> kept.\<close>

definition required_margin_estimate :: "f64 \<Rightarrow> f64 \<Rightarrow> f64 \<Rightarrow> f64 option \<Rightarrow> f64" where
  "required_margin_estimate volume contract_size price leverage =
     (if volume \<le> 0 \<or> contract_size \<le> 0 \<or> price \<le> 0 then 0
      else case leverage of
        None \<Rightarrow> 0
      | Some l \<Rightarrow> if l \<le> 0 then 0 else (contract_size * price * volume) / l)"

definition tick_value_is_consistent ::
  "f64 option \<Rightarrow> f64 option \<Rightarrow> f64 option \<Rightarrow> f64 \<Rightarrow> bool option" where
  "tick_value_is_consistent tick_value tick_size contract_size relative_tolerance =
     (case (tick_value, tick_size, contract_size) of
        (Some tv, Some ts, Some cs) \<Rightarrow>
          if feq ts 0 \<or> feq cs 0 then None
          else let expected = ts * cs in
            if expected \<le> 0 then None
            else Some (fabs64 (tv - expected) \<le> relative_tolerance * expected)
      | _ \<Rightarrow> None)"

text \<open>The snapping tolerance \<^verbatim>\<open>_EPS\<close>.\<close>

definition EPS :: f64 where
  "EPS = fl (1 / 1000000000)"

definition quantize :: "string \<Rightarrow> f64 \<Rightarrow> f64 \<Rightarrow> f64 res" where
  "quantize operation steps volume_step =
     bindR (if operation = ''ceil'' then ceil64 (round_nd 9 steps)
            else if operation = ''nearest'' then round_int steps
            else floor64 (round_nd 9 steps + EPS))
       (\<lambda>k. ret (round_nd 10 (float_of_int k * volume_step)))"

definition normalize_volume :: "f64 \<Rightarrow> f64 \<Rightarrow> f64 \<Rightarrow> f64 \<Rightarrow> string \<Rightarrow> f64 res" where
  "normalize_volume volume volume_min volume_max volume_step operation =
     (if \<not> (isfinite volume \<and> isfinite volume_min \<and> isfinite volume_max \<and> isfinite volume_step)
      then ret 0
      else if volume \<le> 0 \<or> volume_step \<le> 0 \<or> volume_max \<le> 0 then ret 0
      else let volume_min = (if volume_min \<le> 0 then volume_step else volume_min) in
        bindR (quantize operation (volume / volume_step) volume_step) (\<lambda>quantized.
        bindR (if volume_max < quantized
               then bindR (floor64 (round_nd 9 (volume_max / volume_step)))
                      (\<lambda>k. ret (round_nd 10 (float_of_int k * volume_step)))
               else ret quantized) (\<lambda>quantized.
          ret (if quantized < volume_min then 0 else quantized))))"

definition align_price :: "f64 \<Rightarrow> f64 option \<Rightarrow> int option \<Rightarrow> string \<Rightarrow> f64 res" where
  "align_price price tick_size digits direction =
     (if \<not> isfinite price then ret price
      else bindR
        (case tick_size of
           None \<Rightarrow> ret price
         | Some ts \<Rightarrow>
             if 0 < ts \<and> isfinite ts then
               (let steps = price / ts in
                bindR (if direction = ''down'' then floor64 (round_nd 9 steps + EPS)
                       else if direction = ''up'' then ceil64 (round_nd 9 steps - EPS)
                       else round_int steps)
                  (\<lambda>k. ret (float_of_int k * ts)))
             else ret price)
        (\<lambda>quantized. ret (case digits of
             None \<Rightarrow> quantized
           | Some d \<Rightarrow> if 0 \<le> d then round_nd (nat d) quantized else quantized)))"

definition min_stop_distance_price :: "f64 \<Rightarrow> f64 \<Rightarrow> f64 \<Rightarrow> f64" where
  "min_stop_distance_price stops_level point safety_points =
     (let level = pmax stops_level 0; safety = pmax safety_points 0 in
      if point \<le> 0 \<or> \<not> isfinite point then 0 else pmax level safety * point)"

definition margin_level_percent :: "f64 option \<Rightarrow> f64 option \<Rightarrow> f64 option" where
  "margin_level_percent equity margin =
     (case (margin, equity) of
        (Some m, Some e) \<Rightarrow>
          if \<not> isfinite m \<or> \<not> isfinite e \<or> m \<le> 0 then None else Some (e / m * Fin 100)
      | _ \<Rightarrow> None)"

section \<open>Lemmas\<close>

lemma quantize_grid:
  "quantize op s st = Inr q \<Longrightarrow> \<exists>k. q = round_nd 10 (float_of_int k * st)"
  by (auto simp: quantize_def bindR_eq_Inr)

lemma normalize_volume_eq:
  assumes "normalize_volume v vmin vmax st op = Inr q" "q \<noteq> 0"
  shows "isfinite v" "isfinite st" "0 < v" "0 < st" "0 < vmax"
    and "\<not> q < (if vmin \<le> 0 then st else vmin)"
    and "\<exists>k. q = round_nd 10 (float_of_int k * st)"
    and "vmax < q \<Longrightarrow> \<exists>k. floor64 (round_nd 9 (vmax / st)) = Inr k
             \<and> q = round_nd 10 (float_of_int k * st)"
proof -
  have fin: "isfinite v \<and> isfinite vmin \<and> isfinite vmax \<and> isfinite st"
    and pos: "\<not> (v \<le> 0 \<or> st \<le> 0 \<or> vmax \<le> 0)"
    using assms by (auto simp: normalize_volume_def split: if_splits)
  show "isfinite v" "isfinite st" using fin by auto
  show "0 < v" "0 < st" "0 < vmax"
    using fin pos by (auto simp: zero_f64_Fin elim!: isfiniteE)
  let ?m = "if vmin \<le> 0 then st else vmin"
  obtain r where r: "quantize op (v / st) st = Inr r"
    and q: "bindR (if vmax < r
               then bindR (floor64 (round_nd 9 (vmax / st)))
                      (\<lambda>k. ret (round_nd 10 (float_of_int k * st)))
               else ret r) (\<lambda>q. ret (if q < ?m then 0 else q)) = Inr q"
    using assms(1) fin pos by (auto simp: normalize_volume_def bindR_eq_Inr Let_def)
  show "\<not> q < ?m" using q assms(2) by (auto simp: bindR_eq_Inr split: if_splits)
  show "\<exists>k. q = round_nd 10 (float_of_int k * st)"
    using q assms(2) quantize_grid [OF r] by (auto simp: bindR_eq_Inr split: if_splits)
  show "\<exists>k. floor64 (round_nd 9 (vmax / st)) = Inr k \<and> q = round_nd 10 (float_of_int k * st)"
    if "vmax < q"
    using q assms(2) that by (auto simp: bindR_eq_Inr split: if_splits)
qed

lemma normalize_volume_not_NaN:
  assumes "normalize_volume v vmin vmax st op = Inr q"
  shows "q \<noteq> NaN"
proof (cases "q = 0")
  case True
  then show ?thesis by (simp add: zero_f64_Fin)
next
  case False
  obtain k where q: "q = round_nd 10 (float_of_int k * st)"
    using normalize_volume_eq(7) [OF assms False] by blast
  have "0 < st" "isfinite st" using normalize_volume_eq(2,4) [OF assms False] by auto
  then obtain b where b: "st = Fin b" "0 < b" by (auto elim!: isfiniteE simp: zero_f64_Fin)
  have "float_of_int k * st \<noteq> NaN"
    unfolding float_of_int_def b(1) using b(2)
    by (cases rule: fl_cases [of "of_int k"]) (auto simp: f64_sgn_def)
  then show ?thesis unfolding q by (simp add: round_nd_finite_or)
qed

section \<open>Properties\<close>

text \<open>when \<^verbatim>\<open>normalize_volume\<close> answers with a non-zero volume, its inputs were finite and
  positive, the answer is at least the effective broker minimum (the step when the broker
  reports no minimum), it is a whole number of steps rounded to ten decimals, and it is above
  the broker maximum only when it is the maximum itself snapped to the step grid.\<close>

lemma normalize_volume_legal:
  assumes "normalize_volume v vmin vmax st op = Inr q" and "q \<noteq> 0"
  shows "0 < v \<and> 0 < st \<and> (if vmin \<le> 0 then st else vmin) \<le> q
    \<and> (\<exists>k. q = round_nd 10 (float_of_int k * st))
    \<and> (q \<le> vmax \<or> (\<exists>k. floor64 (round_nd 9 (vmax / st)) = Inr k
                       \<and> q = round_nd 10 (float_of_int k * st)))"
proof -
  note e = normalize_volume_eq [OF assms]
  have q: "q \<noteq> NaN" using assms(1) by (rule normalize_volume_not_NaN)
  have "isfinite vmin" "isfinite vmax"
    using assms by (auto simp: normalize_volume_def split: if_splits)
  then have n: "(if vmin \<le> 0 then st else vmin) \<noteq> NaN" "vmax \<noteq> NaN"
    using e(2) by (auto elim!: isfiniteE)
  have "(if vmin \<le> 0 then st else vmin) \<le> q" using e(6) q n by (simp add: f64_not_less)
  moreover have "q \<le> vmax \<or> vmax < q" using q n by (metis f64_not_less)
  ultimately show ?thesis using e(3,4,7,8) by auto
qed

lemma normalize_volume_legal_witness:
  "normalize_volume (fl (37 / 1000)) (fl (1 / 100)) (Fin 100) (fl (1 / 100)) ''floor''
     = Inr (fl (3 / 100))
   \<and> (if fl (1 / 100) \<le> 0 then fl (1 / 100) else fl (1 / 100)) \<le> fl (3 / 100)"
proof -
  have e: "normalize_volume (fl (37 / 1000)) (fl (1 / 100)) (Fin 100) (fl (1 / 100)) ''floor''
     = Inr (fl (3 / 100))" by code_simp
  moreover have "fl (3 / 100) \<noteq> 0" by code_simp
  ultimately show ?thesis using normalize_volume_legal by blast
qed

text \<open>the cap is not a bound of the answer. With a broker maximum that is not a whole number
  of steps (0.29999999999 for steps of 0.1) the maximum is snapped to the nearest step, and
  \<^verbatim>\<open>normalize_volume\<close> answers 0.3, more than the maximum.\<close>

lemma normalize_volume_may_exceed_max:
  "\<exists>q. normalize_volume 1 (fl (1 / 10)) (fl (29999999999 / 100000000000)) (fl (1 / 10)) ''floor''
      = Inr q \<and> fl (29999999999 / 100000000000) < q"
proof
  show "normalize_volume 1 (fl (1 / 10)) (fl (29999999999 / 100000000000)) (fl (1 / 10)) ''floor''
      = Inr (fl (3 / 10)) \<and> fl (29999999999 / 100000000000) < fl (3 / 10)" by code_simp
qed

end
