(* ===== verification/CircuitBreakers.thy ===== *)
theory CircuitBreakers
  imports Prelude PyNum PyTime
begin

text \<open>
  \<^verbatim>\<open>risk/circuit_breakers.py\<close>: the daily and weekly loss budgets and the consecutive-loss
  cooldown. The state is the engine's eight attributes. ISO strings of timestamps inside a
  snapshot are kept as the timestamps themselves; the evidence dictionary is an association
  list in insertion order.
\<close>

record cb_config =
  daily_loss_budget_pct :: f64
  weekly_loss_budget_pct :: f64
  consecutive_loss_cooldown :: int
  cooldown_duration_sec :: f64
  min_equity :: f64

definition default_cb_config :: cb_config where
  "default_cb_config = \<lparr>daily_loss_budget_pct = Fin 2, weekly_loss_budget_pct = Fin 5,
     consecutive_loss_cooldown = 8, cooldown_duration_sec = Fin 14400, min_equity = Fin 1\<rparr>"

definition valid_cb_config :: "cb_config \<Rightarrow> bool" where
  "valid_cb_config c \<longleftrightarrow>
     0 < daily_loss_budget_pct c \<and> daily_loss_budget_pct c \<le> Fin 100
   \<and> 0 < weekly_loss_budget_pct c \<and> weekly_loss_budget_pct c \<le> Fin 100
   \<and> 2 \<le> consecutive_loss_cooldown c \<and> consecutive_loss_cooldown c \<le> 1000
   \<and> 0 < cooldown_duration_sec c \<and> cooldown_duration_sec c \<le> Fin 604800
   \<and> 0 < min_equity c"

text \<open>\<^verbatim>\<open>timedelta(seconds=cooldown_duration_sec)\<close>; total on validated configurations.\<close>

definition cooldown_delta :: "cb_config \<Rightarrow> int" where
  "cooldown_delta c = (case td_seconds (cooldown_duration_sec c) of Inr u \<Rightarrow> u | Inl _ \<Rightarrow> 0)"

datatype evidence_value = EvFloat "f64 option" | EvTime "py_datetime option"

record breaker_snapshot =
  bs_allowed :: bool
  bs_level :: string
  bs_reason :: string
  bs_until :: "py_datetime option"
  bs_daily_loss_pct :: "f64 option"
  bs_weekly_loss_pct :: "f64 option"
  bs_losses :: int
  bs_evidence :: "(string \<times> evidence_value) list"

record cb_state =
  cb_day :: "int option"
  cb_week :: "(int \<times> int) option"
  day_start_equity :: "f64 option"
  week_start_equity :: "f64 option"
  consecutive_losses :: int
  cooldown_until :: "py_datetime option"
  cooldown_armed_at :: "py_datetime option"
  last_trade_closed_at :: "py_datetime option"

definition cb_init :: cb_state where
  "cb_init = \<lparr>cb_day = None, cb_week = None, day_start_equity = None, week_start_equity = None,
     consecutive_losses = 0, cooldown_until = None, cooldown_armed_at = None,
     last_trade_closed_at = None\<rparr>"

section \<open>Operations\<close>

text \<open>\<^verbatim>\<open>str.find\<close>: the first index at which \<open>p\<close> occurs.\<close>

fun starts :: "string \<Rightarrow> string \<Rightarrow> bool" where
  "starts [] t = True"
| "starts (c # s) [] = False"
| "starts (c # s) (d # t) = (c = d \<and> starts s t)"

fun find_str :: "string \<Rightarrow> string \<Rightarrow> nat option" where
  "find_str p [] = (if p = [] then Some 0 else None)"
| "find_str p (c # cs) = (if starts p (c # cs) then Some 0 else map_option Suc (find_str p cs))"

definition period_identities :: "py_datetime \<Rightarrow> string \<times> string" where
  "period_identities now =
     (let now = assume_utc now; d = date_ord now; (y, w) = iso_calendar d
      in (date_isoformat d, show_int y @ ''-W'' @ show_int w))"

definition week_text_matches :: "string \<Rightarrow> int \<times> int \<Rightarrow> bool" where
  "week_text_matches s week =
     (case find_str ''-W'' s of
        None \<Rightarrow> False
      | Some 0 \<Rightarrow> False
      | Some (Suc h) \<Rightarrow>
          (case (py_int (take (Suc h) s), py_int (drop (Suc h + 2) s)) of
             (Some y, Some w) \<Rightarrow> (y, w) = week
           | _ \<Rightarrow> False))"

definition restore_anchors ::
  "cb_state \<Rightarrow> f64 \<Rightarrow> string \<Rightarrow> f64 \<Rightarrow> string \<Rightarrow> py_datetime \<Rightarrow> bool \<times> cb_state" where
  "restore_anchors s day_anchor day_utc week_anchor week_iso now =
     (let now = assume_utc now; d = date_ord now; week = iso_calendar d in
      if date_fromisoformat (take 10 day_utc) \<noteq> Some d then (False, s)
      else if \<not> week_text_matches week_iso week then (False, s)
      else if \<not> (isfinite day_anchor \<and> 0 < day_anchor) then (False, s)
      else if \<not> (isfinite week_anchor \<and> 0 < week_anchor) then (False, s)
      else (True, s\<lparr>cb_day := Some d, day_start_equity := Some day_anchor,
                    cb_week := Some week, week_start_equity := Some week_anchor\<rparr>))"

definition update_equity :: "cb_state \<Rightarrow> f64 \<Rightarrow> py_datetime \<Rightarrow> cb_state" where
  "update_equity s eq now =
     (let now = assume_utc now in
      if \<not> isfinite eq \<or> eq \<le> 0 then s
      else let d = date_ord now; week = iso_calendar d;
        s = (if cb_day s \<noteq> Some d then s\<lparr>cb_day := Some d, day_start_equity := Some eq\<rparr> else s);
        s = (if cb_week s \<noteq> Some week
             then s\<lparr>cb_week := Some week, week_start_equity := Some eq\<rparr> else s)
      in s)"

definition loss_pct :: "f64 option \<Rightarrow> f64 \<Rightarrow> f64 option" where
  "loss_pct start eq =
     (case start of None \<Rightarrow> None
      | Some st \<Rightarrow> if st \<le> 0 \<or> \<not> isfinite eq then None
                   else Some (pmax 0 ((st - eq) / st * Fin 100)))"

definition record_trade_result :: "cb_config \<Rightarrow> cb_state \<Rightarrow> f64 \<Rightarrow> py_datetime \<Rightarrow> cb_state" where
  "record_trade_result c s pnl closed_at =
     (let closed_at = assume_utc closed_at in
      if \<not> isfinite pnl then s
      else let s = s\<lparr>last_trade_closed_at := Some closed_at\<rparr> in
        if pnl < 0 then
          let s = s\<lparr>consecutive_losses := consecutive_losses s + 1\<rparr>;
              in_cooldown = (case cooldown_until s of None \<Rightarrow> False
                             | Some u \<Rightarrow> instant closed_at < instant u)
          in if consecutive_loss_cooldown c \<le> consecutive_losses s \<and> \<not> in_cooldown
             then s\<lparr>cooldown_until := Some (dt_add closed_at (cooldown_delta c)),
                    cooldown_armed_at := Some closed_at\<rparr>
             else s
        else s\<lparr>consecutive_losses := 0\<rparr>)"

definition cb_evidence :: "cb_config \<Rightarrow> cb_state \<Rightarrow> (string \<times> evidence_value) list" where
  "cb_evidence c s =
     [(''day_start_equity'', EvFloat (day_start_equity s)),
      (''week_start_equity'', EvFloat (week_start_equity s)),
      (''daily_loss_budget_pct'', EvFloat (Some (daily_loss_budget_pct c))),
      (''weekly_loss_budget_pct'', EvFloat (Some (weekly_loss_budget_pct c)))]"

definition budget_verdict ::
  "cb_config \<Rightarrow> cb_state \<Rightarrow> f64 option \<Rightarrow> f64 option \<Rightarrow> (string \<times> evidence_value) list
     \<Rightarrow> breaker_snapshot" where
  "budget_verdict c s daily weekly ev =
     (let snap = \<lambda>al lv rs. \<lparr>bs_allowed = al, bs_level = lv, bs_reason = rs, bs_until = None,
          bs_daily_loss_pct = daily, bs_weekly_loss_pct = weekly,
          bs_losses = consecutive_losses s, bs_evidence = ev\<rparr> in
      case (daily, weekly, day_start_equity s) of
        (Some dl, Some wl, Some _) \<Rightarrow>
          if daily_loss_budget_pct c < dl then
            snap False ''DAILY_HALT'' (''DAILY_LOSS_BUDGET_BREACH ('' @ fmt_fixed 2 dl @ ''% > ''
              @ fmt_fixed 2 (daily_loss_budget_pct c) @ ''%)'')
          else if weekly_loss_budget_pct c < wl then
            snap False ''WEEKLY_HALT'' (''WEEKLY_LOSS_BUDGET_BREACH ('' @ fmt_fixed 2 wl @ ''% > ''
              @ fmt_fixed 2 (weekly_loss_budget_pct c) @ ''%)'')
          else snap True ''NORMAL'' ''''
      | _ \<Rightarrow> snap True ''INSUFFICIENT_DATA'' ''NO_PERIOD_EQUITY_ANCHOR'')"

definition cb_evaluate ::
  "cb_config \<Rightarrow> cb_state \<Rightarrow> f64 \<Rightarrow> py_datetime \<Rightarrow> breaker_snapshot \<times> cb_state" where
  "cb_evaluate c s eq now =
     (let now = assume_utc now; s = update_equity s eq now;
          daily = loss_pct (day_start_equity s) eq;
          weekly = loss_pct (week_start_equity s) eq;
          ev = cb_evidence c s
      in case cooldown_until s of
           None \<Rightarrow> (budget_verdict c s daily weekly ev, s)
         | Some u \<Rightarrow>
             if instant now < instant u then
               (\<lparr>bs_allowed = False, bs_level = ''COOLDOWN'',
                 bs_reason = ''CONSECUTIVE_LOSS_COOLDOWN ('' @ show_int (consecutive_losses s)
                   @ '' adverse outcomes >= '' @ show_int (consecutive_loss_cooldown c) @ '')'',
                 bs_until = Some u, bs_daily_loss_pct = daily, bs_weekly_loss_pct = weekly,
                 bs_losses = consecutive_losses s,
                 bs_evidence = ev @ [(''cooldown_until'', EvTime (Some u)),
                                  (''cooldown_armed_at'', EvTime (cooldown_armed_at s))]\<rparr>, s)
             else
               (let s = s\<lparr>cooldown_until := None\<rparr> in
                (budget_verdict c s daily weekly (ev @ [(''cooldown_expired_at'', EvTime (Some u))]),
                 s)))"

section \<open>Runs\<close>

text \<open>What the engine is driven by: an entry evaluation, or the outcome of a closed trade.\<close>

datatype cb_event = Evaluate f64 py_datetime | Trade f64 py_datetime

fun cb_step :: "cb_config \<Rightarrow> cb_state \<Rightarrow> cb_event \<Rightarrow> cb_state" where
  "cb_step c s (Evaluate eq now) = snd (cb_evaluate c s eq now)"
| "cb_step c s (Trade pnl t) = record_trade_result c s pnl t"

section \<open>Frame lemmas\<close>

lemma update_equity_frame [simp]:
  "consecutive_losses (update_equity s eq now) = consecutive_losses s"
  "cooldown_until (update_equity s eq now) = cooldown_until s"
  "cooldown_armed_at (update_equity s eq now) = cooldown_armed_at s"
  "last_trade_closed_at (update_equity s eq now) = last_trade_closed_at s"
  by (simp_all add: update_equity_def Let_def)

lemma update_equity_assume_utc [simp]:
  "update_equity s eq (assume_utc now) = update_equity s eq now"
  by (simp add: update_equity_def)

lemma record_trade_result_anchors [simp]:
  "cb_day (record_trade_result c s pnl t) = cb_day s"
  "cb_week (record_trade_result c s pnl t) = cb_week s"
  "day_start_equity (record_trade_result c s pnl t) = day_start_equity s"
  "week_start_equity (record_trade_result c s pnl t) = week_start_equity s"
  by (simp_all add: record_trade_result_def Let_def split: option.splits)

definition expire :: "cb_state \<Rightarrow> py_datetime \<Rightarrow> cb_state" where
  "expire s now = (case cooldown_until s of None \<Rightarrow> s
     | Some u \<Rightarrow> if instant now < instant u then s else s\<lparr>cooldown_until := None\<rparr>)"

lemma cb_evaluate_state: "snd (cb_evaluate c s eq now) = expire (update_equity s eq now) now"
  by (simp add: cb_evaluate_def expire_def Let_def split: option.splits)

lemma expire_frame [simp]:
  "cb_day (expire s now) = cb_day s" "cb_week (expire s now) = cb_week s"
  "day_start_equity (expire s now) = day_start_equity s"
  "week_start_equity (expire s now) = week_start_equity s"
  "consecutive_losses (expire s now) = consecutive_losses s"
  by (simp_all add: expire_def split: option.splits)

lemma budget_verdict_simps [simp]:
  "bs_level (budget_verdict c s dl wl ev) \<noteq> ''COOLDOWN''"
  by (auto simp: budget_verdict_def Let_def split: option.splits)

lemma budget_verdict_allowed:
  "bs_allowed (budget_verdict c s dl wl ev) \<longleftrightarrow>
     (\<forall>d w. dl = Some d \<longrightarrow> wl = Some w \<longrightarrow> day_start_equity s \<noteq> None \<longrightarrow>
        \<not> daily_loss_budget_pct c < d \<and> \<not> weekly_loss_budget_pct c < w)"
  by (auto simp: budget_verdict_def Let_def split: option.splits)

section \<open>The streak\<close>

fun trade_outcomes :: "cb_event list \<Rightarrow> f64 list" where
  "trade_outcomes [] = []"
| "trade_outcomes (Trade pnl t # es) = (if isfinite pnl then [pnl] else []) @ trade_outcomes es"
| "trade_outcomes (Evaluate eq now # es) = trade_outcomes es"

lemma trade_outcomes_append: "trade_outcomes (es @ fs) = trade_outcomes es @ trade_outcomes fs"
  by (induction es rule: trade_outcomes.induct) auto

definition trailing_losses :: "f64 list \<Rightarrow> nat" where
  "trailing_losses ps = length (takeWhile (\<lambda>p. p < 0) (rev ps))"

lemma trailing_losses_snoc:
  "trailing_losses (ps @ [p]) = (if p < 0 then Suc (trailing_losses ps) else 0)"
  by (simp add: trailing_losses_def)

lemma record_trade_result_losses:
  "consecutive_losses (record_trade_result c s pnl t) =
     (if \<not> isfinite pnl then consecutive_losses s
      else if pnl < 0 then consecutive_losses s + 1 else 0)"
  by (simp add: record_trade_result_def Let_def)

lemma streak_run:
  "consecutive_losses (run (cb_step c) cb_init es) = int (trailing_losses (trade_outcomes es))"
proof (induction es rule: rev_induct)
  case Nil
  then show ?case by (simp add: cb_init_def trailing_losses_def)
next
  case (snoc e es)
  then show ?case
    by (cases e) (auto simp: run_snoc cb_evaluate_state record_trade_result_losses
        trade_outcomes_append trailing_losses_snoc)
qed

section \<open>The anchors\<close>

fun valid_equities :: "cb_event list \<Rightarrow> (f64 \<times> int) list" where
  "valid_equities [] = []"
| "valid_equities (Evaluate eq now # es) =
     (if isfinite eq \<and> \<not> eq \<le> 0 then [(eq, date_ord (assume_utc now))] else []) @ valid_equities es"
| "valid_equities (Trade pnl t # es) = valid_equities es"

lemma valid_equities_append: "valid_equities (es @ fs) = valid_equities es @ valid_equities fs"
  by (induction es rule: valid_equities.induct) auto

text \<open>The first entry of the last block of entries that share a period.\<close>

definition period_open :: "(int \<Rightarrow> 'p) \<Rightarrow> (f64 \<times> int) list \<Rightarrow> f64" where
  "period_open period vs =
     fst (last (takeWhile (\<lambda>x. period (snd x) = period (snd (last vs))) (rev vs)))"

lemma period_open_snoc:
  "period_open period (vs @ [(e, d)]) =
     (if vs \<noteq> [] \<and> period (snd (last vs)) = period d then period_open period vs else e)"
proof (cases "vs = []")
  case False
  then obtain x xs where v: "rev vs = x # xs" by (cases "rev vs") auto
  then have "last vs = x" using False by (metis last_rev list.sel(1) rev_rev_ident hd_rev)
  then show ?thesis using False v by (auto simp: period_open_def)
qed (simp add: period_open_def)

lemma period_open_single [simp]: "period_open period [(e, d)] = e"
  by (simp add: period_open_def)

lemma update_equity_anchors:
  "cb_day (update_equity s eq now) =
     (if isfinite eq \<and> \<not> eq \<le> 0 then Some (date_ord (assume_utc now)) else cb_day s)"
  "cb_week (update_equity s eq now) =
     (if isfinite eq \<and> \<not> eq \<le> 0 then Some (iso_calendar (date_ord (assume_utc now))) else cb_week s)"
  "day_start_equity (update_equity s eq now) =
     (if isfinite eq \<and> \<not> eq \<le> 0 \<and> cb_day s \<noteq> Some (date_ord (assume_utc now))
      then Some eq else day_start_equity s)"
  "week_start_equity (update_equity s eq now) =
     (if isfinite eq \<and> \<not> eq \<le> 0 \<and> cb_week s \<noteq> Some (iso_calendar (date_ord (assume_utc now)))
      then Some eq else week_start_equity s)"
  by (auto simp: update_equity_def Let_def)

lemma anchors_run:
  fixes es c
  defines "s \<equiv> run (cb_step c) cb_init es" and "vs \<equiv> valid_equities es"
  shows "(vs = [] \<longrightarrow> cb_day s = None \<and> cb_week s = None
            \<and> day_start_equity s = None \<and> week_start_equity s = None)
    \<and> (vs \<noteq> [] \<longrightarrow> cb_day s = Some (snd (last vs))
            \<and> cb_week s = Some (iso_calendar (snd (last vs)))
            \<and> day_start_equity s = Some (period_open id vs)
            \<and> week_start_equity s = Some (period_open iso_calendar vs))"
  unfolding s_def vs_def
proof (induction es rule: rev_induct)
  case Nil
  then show ?case by (simp add: cb_init_def)
next
  case (snoc e es)
  show ?case
  proof (cases e)
    case (Evaluate eq now)
    then show ?thesis using snoc
      by (cases "valid_equities es = []")
         (auto simp: run_snoc cb_evaluate_state valid_equities_append update_equity_anchors
            period_open_snoc)
  next
    case (Trade pnl t)
    then show ?thesis using snoc by (simp add: run_snoc valid_equities_append)
  qed
qed

section \<open>The cooldown\<close>

definition cooling_through :: "int \<Rightarrow> cb_state \<Rightarrow> bool" where
  "cooling_through T s \<longleftrightarrow> (\<exists>u. cooldown_until s = Some u \<and> T \<le> instant u)"

fun before_instant :: "int \<Rightarrow> cb_event \<Rightarrow> bool" where
  "before_instant T (Evaluate eq now) = (instant now < T)"
| "before_instant T (Trade pnl t) = True"

lemma trade_keeps_cooldown:
  assumes "cooling_through T s" "0 \<le> cooldown_delta c"
  shows "cooling_through T (record_trade_result c s pnl t)"
  using assms by (auto simp: cooling_through_def record_trade_result_def Let_def)

lemma cooldown_kept:
  assumes "cooling_through T s" "0 \<le> cooldown_delta c" "\<forall>e \<in> set es. before_instant T e"
  shows "cooling_through T (run (cb_step c) s es)"
  using assms
proof (induction es arbitrary: s)
  case (Cons e es)
  have "cooling_through T (cb_step c s e)"
  proof (cases e)
    case (Evaluate eq now)
    then show ?thesis using Cons.prems
      by (auto simp: cooling_through_def cb_evaluate_state expire_def)
  next
    case (Trade pnl t)
    then show ?thesis using Cons.prems by (simp add: trade_keeps_cooldown)
  qed
  then show ?case using Cons by simp
qed simp

lemma evaluate_cooling:
  assumes "cooling_through T s" "instant now < T"
  shows "\<not> bs_allowed (fst (cb_evaluate c s eq now)) \<and> bs_level (fst (cb_evaluate c s eq now)) = ''COOLDOWN''"
  using assms by (auto simp: cooling_through_def cb_evaluate_def Let_def)

lemma arming:
  assumes "isfinite pnl" "pnl < 0" "consecutive_loss_cooldown c \<le> consecutive_losses s + 1"
    "0 \<le> cooldown_delta c" "cooldown_until s = None \<or> (\<exists>u. cooldown_until s = Some u \<and> instant u \<le> instant t)"
  shows "cooling_through (instant t + cooldown_delta c) (record_trade_result c s pnl t)"
  using assms by (auto simp: cooling_through_def record_trade_result_def Let_def)

lemma td_seconds_bounded:
  assumes "Fin 0 < x" "x \<le> Fin 604800"
  obtains u where "td_seconds x = Inr u" "0 \<le> u"
proof -
  from assms obtain r where r: "x = Fin r" "0 < r" "r \<le> 604800" by (cases x) auto
  let ?w = "\<lfloor>r\<rfloor>"
  have w: "truncq r = ?w" "0 \<le> ?w" using r by (auto simp: truncq_def)
  have f: "0 \<le> (r - of_int ?w) * 1000000" "(r - of_int ?w) * 1000000 \<le> 1000000"
  proof -
    have "0 \<le> r - of_int ?w" "r - of_int ?w \<le> 1" by linarith+
    then show "0 \<le> (r - of_int ?w) * 1000000" "(r - of_int ?w) * 1000000 \<le> 1000000" by simp_all
  qed
  have "fl 0 \<le> fl ((r - of_int ?w) * 1000000)" "fl ((r - of_int ?w) * 1000000) \<le> fl 1000000"
    by (rule fl_mono [OF f(1)]) (rule fl_mono [OF f(2)])
  then obtain v where v: "fl ((r - of_int ?w) * 1000000) = Fin v" "0 \<le> v"
    by (cases "fl ((r - of_int ?w) * 1000000)") auto
  have "0 \<le> rhe v" using v by (intro rhe_ge) simp
  then show thesis using that [of "?w * 1000000 + rhe v"] v w r by (simp add: Let_def ret_def)
qed

lemma cooldown_delta_total:
  assumes "valid_cb_config c"
  shows "td_seconds (cooldown_duration_sec c) = Inr (cooldown_delta c)" "0 \<le> cooldown_delta c"
proof -
  from assms have "Fin 0 < cooldown_duration_sec c" "cooldown_duration_sec c \<le> Fin 604800"
    by (auto simp: valid_cb_config_def zero_f64_Fin)
  then obtain u where "td_seconds (cooldown_duration_sec c) = Inr u" "0 \<le> u"
    by (rule td_seconds_bounded)
  then show "td_seconds (cooldown_duration_sec c) = Inr (cooldown_delta c)" "0 \<le> cooldown_delta c"
    by (simp_all add: cooldown_delta_def)
qed

section \<open>Anchors across a restart\<close>

lemma starts_append: "starts p (p @ s)"
  by (induction p) auto

lemma find_week_mark:
  "\<forall>c \<in> set s. c \<noteq> CHR ''-'' \<Longrightarrow> find_str ''-W'' (s @ ''-W'' @ t) = Some (length s)"
  by (induction s) auto

lemma show_dec_no_dash: "0 \<le> n \<Longrightarrow> c \<in> set (show_dec n) \<Longrightarrow> c \<noteq> CHR ''-''"
proof -
  assume "0 \<le> n" "c \<in> set (show_dec n)"
  then obtain e where "0 \<le> e" "e < 10" "c = digit_char e" using show_dec_digits by blast
  then show "c \<noteq> CHR ''-''" by simp
qed

lemma iso_calendar_pos:
  assumes "1 \<le> n" "iso_calendar n = (y, w)"
  shows "0 \<le> y" "0 \<le> w"
proof -
  note s = iso_calendar_spec [OF assms(2)]
  show "0 \<le> w" using s by (simp add: pos_imp_zdiv_nonneg_iff)
  show "0 \<le> y"
  proof (rule ccontr)
    assume "\<not> 0 \<le> y"
    then have "iso_week1_monday (y + 1) \<le> iso_week1_monday 0"
      using iso_week1_monday_mono [of "y + 1" 0] by (cases "y + 1 = 0") auto
    moreover have "iso_week1_monday 0 < 1" using iso_week1_monday_near(2) [of 0]
      by (simp add: days_before_year_def)
    ultimately show False using s(2) assms(1) by linarith
  qed
qed

lemma week_text_roundtrip:
  assumes "0 \<le> y" "0 \<le> w"
  shows "week_text_matches (show_int y @ ''-W'' @ show_int w) (y, w)"
proof -
  have si: "show_int y = show_dec y" "show_int w = show_dec w" using assms by (simp_all add: show_int_def)
  have f: "find_str ''-W'' (show_dec y @ ''-W'' @ show_dec w) = Some (length (show_dec y))"
    using show_dec_no_dash [OF assms(1)] by (intro find_week_mark) blast
  obtain k where k: "length (show_dec y) = Suc k" using show_dec_digits [OF assms(1)]
    by (cases "show_dec y") auto
  have "take (Suc k) (show_dec y @ ''-W'' @ show_dec w) = show_dec y"
    "drop (Suc k + 2) (show_dec y @ ''-W'' @ show_dec w) = show_dec w"
    by (simp_all flip: k)
  then show ?thesis
    unfolding week_text_matches_def si f k
    by (simp add: py_int_show_dec assms)
qed

interpretation breaker_anchors: step_invariant "cb_step c" cb_init
  "\<lambda>s. 0 \<le> consecutive_losses s
     \<and> (\<forall>e. day_start_equity s = Some e \<longrightarrow> isfinite e \<and> \<not> e \<le> 0)
     \<and> (\<forall>e. week_start_equity s = Some e \<longrightarrow> isfinite e \<and> \<not> e \<le> 0)"
proof
  show "0 \<le> consecutive_losses cb_init
     \<and> (\<forall>e. day_start_equity cb_init = Some e \<longrightarrow> isfinite e \<and> \<not> e \<le> 0)
     \<and> (\<forall>e. week_start_equity cb_init = Some e \<longrightarrow> isfinite e \<and> \<not> e \<le> 0)"
    by (simp add: cb_init_def)
  show "0 \<le> consecutive_losses (cb_step c s e)
     \<and> (\<forall>x. day_start_equity (cb_step c s e) = Some x \<longrightarrow> isfinite x \<and> \<not> x \<le> 0)
     \<and> (\<forall>x. week_start_equity (cb_step c s e) = Some x \<longrightarrow> isfinite x \<and> \<not> x \<le> 0)"
    if "0 \<le> consecutive_losses s
     \<and> (\<forall>e. day_start_equity s = Some e \<longrightarrow> isfinite e \<and> \<not> e \<le> 0)
     \<and> (\<forall>e. week_start_equity s = Some e \<longrightarrow> isfinite e \<and> \<not> e \<le> 0)" for s e
    using that by (cases e) (auto simp: cb_evaluate_state update_equity_anchors
        record_trade_result_losses)
qed

lemma loss_pct_anchored:
  "isfinite eq \<Longrightarrow> \<not> st \<le> 0 \<Longrightarrow> loss_pct (Some st) eq = Some (pmax 0 ((st - eq) / st * Fin 100))"
  by (simp add: loss_pct_def)

section \<open>Properties\<close>

text \<open>the consecutive-loss counter of every run is the number of trailing losses of the
  finite trade outcomes fed to it; evaluations, non-finite outcomes and cooldown expiry do not
  change it.\<close>

lemma breaker_streak_is_trailing_losses:
  "consecutive_losses (run (cb_step c) cb_init es) = int (trailing_losses (trade_outcomes es))"
  by (rule streak_run)

text \<open>in every run with at least one valid equity reading, the daily (weekly) anchor is the
  first valid equity of the current UTC-labelled day (ISO week) block; invalid equities and
  trade outcomes never move an anchor.\<close>

lemma breaker_anchor_is_period_open:
  assumes "valid_equities es \<noteq> []"
  shows "day_start_equity (run (cb_step c) cb_init es) = Some (period_open id (valid_equities es))
    \<and> week_start_equity (run (cb_step c) cb_init es) = Some (period_open iso_calendar (valid_equities es))"
  using assms anchors_run [of es c] by simp

lemma breaker_anchor_is_period_open_witness:
  "day_start_equity (run (cb_step default_cb_config) cb_init
     [Evaluate (Fin 1000) (utc 0), Evaluate (Fin 900) (utc 1), Evaluate NaN (utc 2)])
   = Some (Fin 1000)"
proof -
  let ?es = "[Evaluate (Fin 1000) (utc 0), Evaluate (Fin 900) (utc 1), Evaluate NaN (utc 2)]"
  have "valid_equities ?es \<noteq> []" by (simp add: zero_f64_Fin)
  then have "day_start_equity (run (cb_step default_cb_config) cb_init ?es)
    = Some (period_open id (valid_equities ?es))"
    using breaker_anchor_is_period_open by blast
  also have "period_open id (valid_equities ?es) = Fin 1000"
    by (simp add: zero_f64_Fin period_open_def date_ord_utc)
  finally show ?thesis .
qed

text \<open>an evaluation of a finite equity above zero is allowed exactly when no cooldown is
  running at that time and neither the daily nor the weekly loss, measured from the anchors
  in force, exceeds its budget.\<close>

lemma breaker_allows_iff:
  assumes "isfinite eq" "\<not> eq \<le> 0" "s = run (cb_step c) cb_init es"
    "u = update_equity s eq now" "day_start_equity u = Some d" "week_start_equity u = Some w"
  shows "bs_allowed (fst (cb_evaluate c s eq now)) \<longleftrightarrow>
      (\<forall>t. cooldown_until s = Some t \<longrightarrow> instant t \<le> instant now)
    \<and> \<not> daily_loss_budget_pct c < pmax 0 ((d - eq) / d * Fin 100)
    \<and> \<not> weekly_loss_budget_pct c < pmax 0 ((w - eq) / w * Fin 100)"
proof -
  have "\<not> d \<le> 0" "\<not> w \<le> 0"
    using breaker_anchors.inv_run [of c "es @ [Evaluate eq now]"] assms
    by (auto simp: run_snoc cb_evaluate_state)
  then show ?thesis
    using assms(1,5,6) unfolding assms(4)
    by (auto simp: cb_evaluate_def Let_def loss_pct_anchored budget_verdict_allowed
        not_less split: option.splits)
qed

lemma breaker_allows_iff_witness:
  "\<not> bs_allowed (fst (cb_evaluate default_cb_config
      (run (cb_step default_cb_config) cb_init [Evaluate (Fin 1000) (utc 0)])
      (Fin 970) (utc 5)))"
proof -
  let ?s = "run (cb_step default_cb_config) cb_init [Evaluate (Fin 1000) (utc 0)]"
  let ?u = "update_equity ?s (Fin 970) (utc 5)"
  have fin: "isfinite (Fin 970)" "\<not> Fin 970 \<le> 0" by (simp_all add: zero_f64_Fin)
  have "day_start_equity ?u = Some (Fin 1000)" "week_start_equity ?u = Some (Fin 1000)"
    by (simp_all add: cb_evaluate_state update_equity_anchors cb_init_def zero_f64_Fin
        date_ord_utc)
  note i = breaker_allows_iff [OF fin refl refl this]
  have "daily_loss_budget_pct default_cb_config < pmax 0 ((Fin 1000 - Fin 970) / Fin 1000 * Fin 100)"
    by code_simp
  then show ?thesis using i by blast
qed

text \<open>C3: the loss that completes a streak arms a cooldown that holds: whatever outcomes are
  recorded afterwards, and however often entries are evaluated, every evaluation earlier than
  the armed end is refused with level COOLDOWN.\<close>

lemma breaker_cooldown_blocks:
  assumes "valid_cb_config c" "isfinite pnl" "pnl < 0"
    "consecutive_loss_cooldown c \<le> consecutive_losses s + 1"
    "cooldown_until s = None \<or> (\<exists>u. cooldown_until s = Some u \<and> instant u \<le> instant t)"
    "\<forall>e \<in> set es. before_instant (instant t + cooldown_delta c) e"
    "instant now < instant t + cooldown_delta c"
  shows "\<not> bs_allowed (fst (cb_evaluate c (run (cb_step c) s (Trade pnl t # es)) eq now))
    \<and> bs_level (fst (cb_evaluate c (run (cb_step c) s (Trade pnl t # es)) eq now)) = ''COOLDOWN''"
proof -
  note d = cooldown_delta_total(2) [OF assms(1)]
  have "cooling_through (instant t + cooldown_delta c) (record_trade_result c s pnl t)"
    using assms d by (intro arming)
  then have "cooling_through (instant t + cooldown_delta c) (run (cb_step c) s (Trade pnl t # es))"
    using cooldown_kept d assms(6) by simp
  then show ?thesis using assms(7) by (rule evaluate_cooling)
qed

lemma breaker_cooldown_blocks_witness:
  "bs_level (fst (cb_evaluate default_cb_config
      (run (cb_step default_cb_config) (cb_init\<lparr>consecutive_losses := 7\<rparr>)
        (Trade (- Fin 5) (utc 0) # [Evaluate (Fin 100) (utc 1)])) (Fin 100) (utc 2))) = ''COOLDOWN''"
proof -
  have d: "cooldown_delta default_cb_config = 14400000000" by code_simp
  have "valid_cb_config default_cb_config"
    by (simp add: valid_cb_config_def default_cb_config_def zero_f64_Fin)
  moreover have "isfinite (- Fin 5)" "- Fin 5 < 0" by (simp_all add: zero_f64_Fin)
  moreover have "consecutive_loss_cooldown default_cb_config
      \<le> consecutive_losses (cb_init\<lparr>consecutive_losses := 7\<rparr>) + 1"
    "cooldown_until (cb_init\<lparr>consecutive_losses := 7\<rparr>) = None"
    by (simp_all add: default_cb_config_def cb_init_def)
  moreover have "\<forall>e \<in> set [Evaluate (Fin 100) (utc 1)].
      before_instant (instant (utc 0) + cooldown_delta default_cb_config) e"
    "instant (utc 2) < instant (utc 0) + cooldown_delta default_cb_config"
    by (simp_all add: d)
  ultimately show ?thesis using breaker_cooldown_blocks by blast
qed

text \<open>expiry of a cooldown does not clear the streak. Once the streak has reached the
  threshold, an evaluation after the end of the cooldown drops the cooldown, and one single
  further loss arms the next one: no new streak is needed.\<close>

lemma breaker_rearms_on_one_loss:
  assumes "cooldown_until s = Some u" "instant u \<le> instant now"
    "consecutive_loss_cooldown c \<le> consecutive_losses s" "isfinite pnl" "pnl < 0"
  shows "cooldown_until (snd (cb_evaluate c s eq now)) = None
    \<and> cooldown_until (run (cb_step c) s [Evaluate eq now, Trade pnl t])
        = Some (dt_add (assume_utc t) (cooldown_delta c))"
  using assms
  by (simp add: cb_evaluate_state expire_def record_trade_result_def Let_def)

lemma breaker_rearms_on_one_loss_witness:
  "cooldown_until (run (cb_step default_cb_config)
      (cb_init\<lparr>consecutive_losses := 8, cooldown_until := Some (utc 0)\<rparr>)
      [Evaluate (Fin 100) (utc 1), Trade (- Fin 1) (utc 2)])
   = Some (dt_add (assume_utc (utc 2)) (cooldown_delta default_cb_config))"
  using breaker_rearms_on_one_loss [of "cb_init\<lparr>consecutive_losses := 8, cooldown_until := Some (utc 0)\<rparr>"
      "utc 0" "utc 1" default_cb_config "- Fin 1" "Fin 100" "utc 2"]
  by (simp add: default_cb_config_def zero_f64_Fin)

text \<open>anchors survive a restart. Persisting the two anchors with the identities of the current
  period and restoring them in the same period, into any engine state, adopts exactly those
  anchors.\<close>

lemma breaker_restore_roundtrip:
  assumes "1 \<le> date_ord (assume_utc now)" "date_ord (assume_utc now) \<le> 3652059"
    "isfinite d" "0 < d" "isfinite w" "0 < w"
  shows "restore_anchors s d (fst (period_identities now)) w (snd (period_identities now)) now
    = (True, s\<lparr>cb_day := Some (date_ord (assume_utc now)), day_start_equity := Some d,
        cb_week := Some (iso_calendar (date_ord (assume_utc now))), week_start_equity := Some w\<rparr>)"
proof -
  let ?n = "date_ord (assume_utc now)"
  obtain y k where yk: "iso_calendar ?n = (y, k)" by (cases "iso_calendar ?n")
  note p = iso_calendar_pos [OF assms(1) yk]
  have len: "length (date_isoformat ?n) = 10" using assms(1,2) by (rule date_iso_roundtrip)
  have day: "date_fromisoformat (take 10 (date_isoformat ?n)) = Some ?n"
    using assms(1,2) len by (simp add: date_iso_roundtrip(1))
  have week: "week_text_matches (show_int y @ ''-W'' @ show_int k) (y, k)"
    by (rule week_text_roundtrip [OF p])
  show ?thesis
    using day week assms by (simp add: restore_anchors_def period_identities_def yk Let_def)
qed

lemma breaker_restore_roundtrip_witness:
  "restore_anchors cb_init (Fin 1000) (fst (period_identities (utc 0))) (Fin 1100)
      (snd (period_identities (utc 0))) (utc 0)
    = (True, cb_init\<lparr>cb_day := Some (date_ord (assume_utc (utc 0))), day_start_equity := Some (Fin 1000),
        cb_week := Some (iso_calendar (date_ord (assume_utc (utc 0)))),
        week_start_equity := Some (Fin 1100)\<rparr>)"
  by (rule breaker_restore_roundtrip) (simp_all add: date_ord_utc zero_f64_Fin)

end
