(* ===== verification/SizingPolicies.thy ===== *)
theory SizingPolicies
  imports Prelude PyNum Domain "HOL-Library.Product_Lexorder" "HOL-Library.Multiset"
begin

text \<open>
  The sizing and concurrency policies: \<^verbatim>\<open>risk/concurrency_policy.py\<close>,
  \<^verbatim>\<open>risk/sizing_policy.py\<close> and the runtime side of
  \<^verbatim>\<open>model_lifecycle/confidence_calibration.py\<close>. The exponential of the platform's C library is
  the argument \<open>exp64\<close>; nothing below depends on its values.
\<close>

section \<open>Confidence calibration\<close>

record calibration_provenance =
  cp_model_version :: string
  cp_dataset_id :: string
  cp_artifact_fingerprint :: string
  cp_period_start :: string
  cp_period_end :: string
  cp_validation_dataset_id :: string
  cp_validation_start :: string
  cp_validation_end :: string
  cp_method :: string
  cp_created_at :: string
  cp_feature_schema :: string
  cp_sample_count :: int
  cp_validation_sample_count :: int

definition MIN_CALIBRATION_SAMPLES :: int where
  "MIN_CALIBRATION_SAMPLES = 30"

definition is_complete :: "calibration_provenance \<Rightarrow> bool" where
  "is_complete p \<longleftrightarrow>
     (\<forall>s \<in> set [cp_model_version p, cp_dataset_id p, cp_artifact_fingerprint p, cp_period_start p,
        cp_period_end p, cp_validation_dataset_id p, cp_validation_start p, cp_validation_end p,
        cp_method p, cp_created_at p, cp_feature_schema p]. s \<noteq> [])
   \<and> MIN_CALIBRATION_SAMPLES \<le> cp_sample_count p
   \<and> MIN_CALIBRATION_SAMPLES \<le> cp_validation_sample_count p"

text \<open>The fitted parameters, the provenance block and the validation ECE (1.0 when absent).\<close>

record calibrator =
  cal_params :: "(f64 option \<times> f64 option) option"
  cal_provenance :: "calibration_provenance option"
  cal_ece :: "f64 option"

datatype cal_state = CALIBRATED | CAL_DEGRADED | NOT_CALIBRATED

definition MAX_USABLE_ECE :: f64 where
  "MAX_USABLE_ECE = fl (1 / 5)"

definition calibrator_state :: "calibrator \<Rightarrow> cal_state" where
  "calibrator_state c =
     (case (cal_params c, cal_provenance c) of
        (Some (a, b), Some p) \<Rightarrow>
          if \<not> is_complete p then NOT_CALIBRATED
          else (case (a, b) of
             (Some a, Some b) \<Rightarrow>
               if \<not> (isfinite a \<and> isfinite b) then NOT_CALIBRATED
               else let ece = (case cal_ece c of None \<Rightarrow> 1 | Some e \<Rightarrow> e)
                 in if MAX_USABLE_ECE < ece then CAL_DEGRADED else CALIBRATED
           | _ \<Rightarrow> NOT_CALIBRATED)
      | _ \<Rightarrow> NOT_CALIBRATED)"

definition logistic :: "(f64 \<Rightarrow> f64) \<Rightarrow> f64 \<Rightarrow> f64" where
  "logistic exp64 z =
     (if 0 \<le> z then 1 / (1 + exp64 (- z)) else let e = exp64 z in e / (1 + e))"

definition calibrate :: "(f64 \<Rightarrow> f64) \<Rightarrow> calibrator \<Rightarrow> f64 \<Rightarrow> f64 \<times> cal_state" where
  "calibrate exp64 c conf =
     (let st = calibrator_state c in
      if st = NOT_CALIBRATED then (conf, NOT_CALIBRATED)
      else case cal_params c of
        Some (Some a, Some b) \<Rightarrow>
          if \<not> isfinite conf \<or> conf < 0 \<or> 1 < conf then (0, st)
          else (pmin 1 (pmax 0 (logistic exp64 (a * conf + b))), st)
      | _ \<Rightarrow> (conf, NOT_CALIBRATED))"

definition MIN_CONFIDENCE_RISK_MULTIPLIER :: f64 where
  "MIN_CONFIDENCE_RISK_MULTIPLIER = fl (1 / 4)"

definition MAX_CONFIDENCE_RISK_MULTIPLIER :: f64 where
  "MAX_CONFIDENCE_RISK_MULTIPLIER = 1"

definition confidence_to_risk_multiplier :: "f64 \<Rightarrow> cal_state \<Rightarrow> f64" where
  "confidence_to_risk_multiplier calibrated_confidence st =
     (if st \<noteq> CALIBRATED then 1
      else let c = pmin 1 (pmax 0 calibrated_confidence);
               span = MAX_CONFIDENCE_RISK_MULTIPLIER - MIN_CONFIDENCE_RISK_MULTIPLIER
           in MIN_CONFIDENCE_RISK_MULTIPLIER + span * c)"

section \<open>The canonical sizing policy\<close>

definition confidence_scalar :: "f64 \<Rightarrow> f64" where
  "confidence_scalar conf =
     (if \<not> isfinite conf \<or> conf < 0 then 1
      else let c = pmin 1 conf; span = Fin 1 - fl (1 / 4) in fl (1 / 4) + span * c)"

definition drawdown_penalty :: "f64 \<Rightarrow> f64 \<Rightarrow> f64" where
  "drawdown_penalty eq peak =
     (if \<not> isfinite eq \<or> \<not> isfinite peak \<or> peak \<le> 0 then 1
      else let dd_pct = ((peak - eq) / peak) * Fin 100
        in if dd_pct \<le> 1 then 1 else pmax (fl (1 / 5)) (1 - dd_pct * fl (1 / 5)))"

definition regime_scalar :: "string option \<Rightarrow> f64" where
  "regime_scalar regime =
     (if upper (case regime of None \<Rightarrow> '''' | Some r \<Rightarrow> r) = ''VOLATILITY_EXPANSION''
      then fl (1 / 2) else 1)"

definition effective_risk_pct :: "f64 \<Rightarrow> f64 \<Rightarrow> string option \<Rightarrow> f64 \<Rightarrow> f64 \<Rightarrow> f64 \<times> f64 list" where
  "effective_risk_pct base_risk_pct conf regime eq peak =
     (let f_regime = regime_scalar regime; f_dd = drawdown_penalty eq peak;
          f_conf = confidence_scalar conf;
          pct = base_risk_pct * f_regime * f_dd * f_conf
      in (if \<not> isfinite pct \<or> pct \<le> 0 then 0 else pct, [f_regime, f_dd, f_conf]))"

section \<open>Concurrency limits\<close>

record concurrency_policy =
  position_count_limit :: int
  total_exposure_lots :: f64
  evidence_validated :: bool

definition effective_position_count_limit :: "concurrency_policy \<Rightarrow> int \<Rightarrow> int" where
  "effective_position_count_limit p hard_max_positions =
     min (position_count_limit p) (max 1 hard_max_positions)"

datatype admission =
    ZERO_OR_NEGATIVE_VOLUME | POSITION_COUNT_LIMIT | TOTAL_EXPOSURE_LIMIT | ALLOWED

definition admits_new_position ::
  "concurrency_policy \<Rightarrow> int \<Rightarrow> f64 \<Rightarrow> f64 \<Rightarrow> f64 \<Rightarrow> bool \<times> admission" where
  "admits_new_position p open_position_count gross_open_lots new_position_lots hard_max_lots =
     (if new_position_lots \<le> 0 then (False, ZERO_OR_NEGATIVE_VOLUME)
      else if effective_position_count_limit p 10 \<le> open_position_count
        then (False, POSITION_COUNT_LIMIT)
      else if pmin (total_exposure_lots p) hard_max_lots + fl (1 / 1000000000)
                < gross_open_lots + new_position_lots
        then (False, TOTAL_EXPOSURE_LIMIT)
      else (True, ALLOWED))"

text \<open>The sweep line over recorded (open, close) intervals.\<close>

definition raw_events :: "(int \<times> int) list \<Rightarrow> (int \<times> int) list" where
  "raw_events ivs = concat (map (\<lambda>(s, e). if e \<le> s then [] else [(s, 1), (e, - 1)]) ivs)"

definition sweep_events :: "(int \<times> int) list \<Rightarrow> (int \<times> int) list" where
  "sweep_events ivs = sort (raw_events ivs)"

fun sweep :: "int \<Rightarrow> int \<Rightarrow> int list \<Rightarrow> (int \<times> int) list \<Rightarrow> int \<times> int list" where
  "sweep current max_depth hist [] = (max_depth, hist)"
| "sweep current max_depth hist ((t, delta) # evs) =
     (let current = current + delta in
      sweep current (max max_depth current)
        (if delta = 1 \<and> 0 < current then hist @ [current] else hist) evs)"

definition measure_overlap_depth :: "(int \<times> int) list \<Rightarrow> int \<times> int \<times> (int \<times> int) list" where
  "measure_overlap_depth ivs =
     (if ivs = [] then (0, 0, [])
      else let (max_depth, hist) = sweep 0 0 [] (sweep_events ivs)
        in (int (length (filter (\<lambda>(s, e). s < e) ivs)), max_depth,
            map (\<lambda>k. (k, int (count_list hist k))) (remdups (sort hist))))"

section \<open>Lemmas: multipliers\<close>

lemma calibrate_range:
  assumes "calibrate exp64 c conf = (v, st)" "st \<noteq> NOT_CALIBRATED"
  shows "0 \<le> v \<and> v \<le> 1"
proof -
  have "0 \<le> pmin 1 (pmax 0 x) \<and> pmin 1 (pmax 0 x) \<le> 1" for x
    by (cases x) (auto simp: pmin_def pmax_def zero_f64_Fin one_f64_Fin)
  then show ?thesis
    using assms by (auto simp: calibrate_def Let_def zero_f64_Fin one_f64_Fin split: if_splits option.splits)
qed

lemma quarter [simp]: "fl (1 / 4) = Fin (1 / 4)" "Fin 1 - Fin (1 / 4) = Fin (3 / 4)"
  by code_simp+

lemma multiplier_range:
  assumes "Fin 0 \<le> c" "c \<le> Fin 1"
  shows "Fin (1 / 4) \<le> Fin (1 / 4) + Fin (3 / 4) * c" "Fin (1 / 4) + Fin (3 / 4) * c \<le> Fin 1"
proof -
  from assms obtain r where r: "c = Fin r" "0 \<le> r" "r \<le> 1" by (cases c) auto
  have "fl 0 \<le> fl (3 / 4 * r)" "fl (3 / 4 * r) \<le> fl (3 / 4)"
    by (rule fl_mono; use r in simp)+
  moreover have "fl (3 / 4) = Fin (3 / 4)" by code_simp
  ultimately obtain v where v: "fl (3 / 4 * r) = Fin v" "0 \<le> v" "v \<le> 3 / 4"
    by (cases "fl (3 / 4 * r)") auto
  have "fl (1 / 4) \<le> fl (1 / 4 + v)" "fl (1 / 4 + v) \<le> fl 1"
    by (rule fl_mono; use v in simp)+
  then show "Fin (1 / 4) \<le> Fin (1 / 4) + Fin (3 / 4) * c" "Fin (1 / 4) + Fin (3 / 4) * c \<le> Fin 1"
    using r v by simp_all
qed

lemma clip_unit: "Fin 0 \<le> pmin 1 (pmax 0 x)" "pmin 1 (pmax 0 x) \<le> Fin 1"
  by (cases x; auto simp: pmin_def pmax_def zero_f64_Fin one_f64_Fin)+

lemma confidence_multiplier_range:
  "Fin (1 / 4) \<le> confidence_to_risk_multiplier v st \<and> confidence_to_risk_multiplier v st \<le> 1"
  using multiplier_range [OF clip_unit]
  by (simp add: confidence_to_risk_multiplier_def MIN_CONFIDENCE_RISK_MULTIPLIER_def
      MAX_CONFIDENCE_RISK_MULTIPLIER_def one_f64_Fin Let_def)

text \<open>
  Two divergences from the documented contract: an artifact whose recorded ECE is not a number
  passes as CALIBRATED, and the policy's confidence factor has no calibration state to consult,
  so it scales an uncalibrated confidence below 1.
\<close>

lemma nan_ece_is_calibrated:
  assumes "is_complete prov" "isfinite a" "isfinite b"
  shows "calibrator_state \<lparr>cal_params = Some (Some a, Some b), cal_provenance = Some prov,
    cal_ece = Some NaN\<rparr> = CALIBRATED"
  using assms by (simp add: calibrator_state_def)

lemma policy_scales_uncalibrated: "confidence_scalar (Fin (1 / 2)) < 1"
  by code_simp

section \<open>Lemmas: the sweep line\<close>

definition overlap_at :: "(int \<times> int) list \<Rightarrow> int \<Rightarrow> int" where
  "overlap_at ivs t = int (length (filter (\<lambda>(s, e). s \<le> t \<and> t < e) ivs))"

lemma sweep_ge_max: "mx \<le> fst (sweep cur mx h evs)"
proof (induction cur mx h evs rule: sweep.induct)
  case (2 cur mx h t d evs)
  show ?case using "2.IH" [OF refl] by (simp add: Let_def split: if_splits)
qed simp

lemma sweep_ge_prefix:
  "cur + sum_list (map snd p) \<le> fst (sweep cur mx h (p @ q))" if "p \<noteq> [] \<or> cur \<le> mx"
  using that
proof (induction p arbitrary: cur mx h)
  case Nil
  then show ?case using sweep_ge_max [of mx cur h q] by simp
next
  case (Cons x p)
  obtain t d where x: "x = (t, d)" by (cases x)
  show ?case
    using Cons.IH [of "cur + d" "max mx (cur + d)"]
    by (simp add: x Let_def add.assoc)
qed

lemma sweep_attained:
  "cur \<le> mx \<Longrightarrow> \<forall>x \<in> set evs. snd x = 1 \<or> snd x = - 1 \<Longrightarrow>
     fst (sweep cur mx h evs) = mx \<or>
     (\<exists>p x q. evs = p @ x # q \<and> snd x = 1 \<and> fst (sweep cur mx h evs) = cur + sum_list (map snd (p @ [x])))"
proof (induction cur mx h evs rule: sweep.induct)
  case (2 cur mx h t d evs)
  let ?h = "if d = 1 \<and> 0 < cur + d then h @ [cur + d] else h"
  let ?r = "fst (sweep (cur + d) (max mx (cur + d)) ?h evs)"
  have "?r = max mx (cur + d) \<or> (\<exists>p x q. evs = p @ x # q \<and> snd x = 1 \<and>
      ?r = (cur + d) + sum_list (map snd (p @ [x])))"
    using "2.IH" [OF refl] "2.prems" by auto
  moreover have "fst (sweep cur mx h ((t, d) # evs)) = ?r" by (simp add: Let_def)
  moreover have "max mx (cur + d) = mx \<or> d = 1 \<and> max mx (cur + d) = cur + d"
    using "2.prems" by auto
  moreover have "?case" if "?r = cur + d" "d = 1" "fst (sweep cur mx h ((t, d) # evs)) = ?r"
    using that by (intro disjI2 exI [of _ "[]"] exI [of _ "(t, d)"] exI [of _ evs]) simp
  moreover have "?case" if "evs = p @ x # q" "snd x = 1"
    "?r = (cur + d) + sum_list (map snd (p @ [x]))" "fst (sweep cur mx h ((t, d) # evs)) = ?r" for p x q
    using that by (intro disjI2 exI [of _ "(t, d) # p"] exI [of _ x] exI [of _ q]) simp
  ultimately show ?case by metis
qed simp

lemma sum_deltas:
  "\<forall>x \<in> set L. snd x = 1 \<or> snd x = (- 1 :: int) \<Longrightarrow>
     sum_list (map snd L) = int (length (filter (\<lambda>x. snd x = 1) L)) - int (length (filter (\<lambda>x. snd x = - 1) L))"
  by (induction L) auto

lemma raw_events_deltas: "x \<in> set (raw_events ivs) \<Longrightarrow> snd x = 1 \<or> snd x = - 1"
  by (auto simp: raw_events_def split: if_splits)

lemma sum_raw_events:
  "sum_list (map snd (filter (\<lambda>x. fst x \<le> t) (raw_events ivs))) = overlap_at ivs t"
  by (induction ivs) (auto simp: raw_events_def overlap_at_def split: if_splits)

lemma sum_sweep_filter:
  "sum_list (map snd (filter P (sweep_events ivs))) = sum_list (map snd (filter P (raw_events ivs)))"
proof -
  have "mset (filter P (sweep_events ivs)) = mset (filter P (raw_events ivs))"
    by (simp only: sweep_events_def mset_filter mset_sort)
  then have "mset (map snd (filter P (sweep_events ivs))) = mset (map snd (filter P (raw_events ivs)))"
    by (metis mset_map)
  then show ?thesis by (metis sum_mset_sum_list)
qed

lemma sweep_events_props:
  shows "sorted (sweep_events ivs)" "set (sweep_events ivs) = set (raw_events ivs)"
  by (simp_all add: sweep_events_def)

lemma sorted_prefix_filter:
  "sorted L \<Longrightarrow> \<exists>q. L = filter (\<lambda>x. x \<le> b) L @ q"
proof (induction L)
  case (Cons a L)
  show ?case
  proof (cases "a \<le> b")
    case False
    then have "filter (\<lambda>x. x \<le> b) (a # L) = []"
      using Cons.prems by (auto simp: filter_empty_conv dest: order_trans)
    then show ?thesis by simp
  qed (use Cons in auto)
qed simp

lemma overlap_le_sweep: "overlap_at ivs t \<le> fst (sweep 0 0 [] (sweep_events ivs))"
proof -
  let ?E = "sweep_events ivs"
  obtain q where q: "?E = filter (\<lambda>x. x \<le> (t, 1)) ?E @ q"
    using sorted_prefix_filter [OF sweep_events_props(1)] by blast
  have "filter (\<lambda>x. x \<le> (t, 1)) ?E = filter (\<lambda>x. fst x \<le> t) ?E"
    using raw_events_deltas [of _ ivs] sweep_events_props(2) [of ivs]
    by (intro filter_cong refl) (force simp: less_eq_prod_def)
  then have "sum_list (map snd (filter (\<lambda>x. x \<le> (t, 1)) ?E)) = overlap_at ivs t"
    using sum_sweep_filter [of "\<lambda>x. fst x \<le> t" ivs] by (simp add: sum_raw_events)
  then show ?thesis
    using sweep_ge_prefix [of "filter (\<lambda>x. x \<le> (t, 1)) ?E" 0 0 "[]" q] q by simp
qed

lemma prefix_le_overlap:
  assumes "sweep_events ivs = p @ (t, 1) # q"
  shows "sum_list (map snd (p @ [(t, 1)])) \<le> overlap_at ivs t"
proof -
  let ?E = "sweep_events ivs" and ?L = "p @ [(t, 1)]"
  have s: "sorted (p @ (t, 1) # q)" using sweep_events_props(1) [of ivs] assms by simp
  have d: "\<forall>x \<in> set ?E. snd x = 1 \<or> snd x = - 1"
    using raw_events_deltas [of _ ivs] sweep_events_props(2) [of ivs] by blast
  have q1: "\<forall>x \<in> set q. snd x = 1 \<or> t < fst x"
  proof
    fix x
    assume x: "x \<in> set q"
    then have "(t, 1) \<le> x" using s by (auto simp: sorted_append)
    moreover have "snd x = 1 \<or> snd x = - 1" using d x by (simp add: assms)
    ultimately show "snd x = 1 \<or> t < fst x" by (auto simp: less_eq_prod_def)
  qed
  have p1: "\<forall>x \<in> set p. fst x \<le> t"
    using s by (auto simp: sorted_append less_eq_prod_def)
  let ?F = "filter (\<lambda>x. fst x \<le> t) q"
  have f: "filter (\<lambda>x. fst x \<le> t) ?E = ?L @ ?F" using p1 by (simp add: assms)
  have "\<forall>x \<in> set ?F. snd x = 1" using q1 by auto
  then have "0 \<le> sum_list (map snd ?F)" by (induction q) auto
  then show ?thesis
    using sum_sweep_filter [of "\<lambda>x. fst x \<le> t" ivs] by (simp add: sum_raw_events f)
qed

section \<open>Properties\<close>

text \<open>C4: the sweep line measures what it says: over any recorded intervals, the reported maximum
  depth bounds the number of intervals open at every instant (closing at an instant frees the
  slot), and some instant attains it.\<close>

lemma overlap_depth_exact:
  "(\<forall>t. overlap_at ivs t \<le> fst (snd (measure_overlap_depth ivs)))
   \<and> (\<exists>t. overlap_at ivs t = fst (snd (measure_overlap_depth ivs)))"
proof -
  let ?m = "fst (sweep 0 0 [] (sweep_events ivs))"
  have m: "fst (snd (measure_overlap_depth ivs)) = ?m"
    by (simp add: measure_overlap_depth_def sweep_events_def raw_events_def split: prod.splits)
  have "\<forall>x \<in> set (sweep_events ivs). snd x = 1 \<or> snd x = - 1"
    using raw_events_deltas [of _ ivs] sweep_events_props(2) [of ivs] by blast
  from sweep_attained [OF order_refl this, of 0 "[]"]
  consider "?m = 0" | p x q where "sweep_events ivs = p @ x # q" "snd x = 1"
    "?m = sum_list (map snd (p @ [x]))" by auto
  then have "\<exists>t. overlap_at ivs t = ?m"
  proof cases
    case 1
    have "0 \<le> overlap_at ivs 0" by (simp add: overlap_at_def)
    then show ?thesis using overlap_le_sweep [of ivs 0] 1 by (intro exI [of _ 0]) simp
  next
    case 2
    obtain t where x: "x = (t, 1)" using 2(2) by (cases x) auto
    have "?m \<le> overlap_at ivs t" using prefix_le_overlap [of ivs p t q] 2 x by simp
    then show ?thesis using overlap_le_sweep [of ivs t] by (intro exI [of _ t]) simp
  qed
  then show ?thesis using overlap_le_sweep by (simp add: m)
qed

text \<open>whatever the artifact, the confidence and the platform's exponential, a calibrated value
  is in [0, 1] and the risk multiplier derived from any calibration result is in [1/4, 1], and
  exactly 1 when the state is not CALIBRATED.\<close>

lemma confidence_only_derisks:
  assumes "calibrate exp64 cal conf = (v, st)"
  shows "(st = NOT_CALIBRATED \<or> 0 \<le> v \<and> v \<le> 1)
    \<and> Fin (1 / 4) \<le> confidence_to_risk_multiplier v st
    \<and> confidence_to_risk_multiplier v st \<le> 1
    \<and> (st \<noteq> CALIBRATED \<longrightarrow> confidence_to_risk_multiplier v st = 1)"
  using calibrate_range [OF assms] confidence_multiplier_range [of v st]
  by (auto simp: confidence_to_risk_multiplier_def)

lemma confidence_only_derisks_witness:
  "Fin (1 / 4) \<le> confidence_to_risk_multiplier (fl (9 / 10)) NOT_CALIBRATED"
proof -
  have "calibrate (\<lambda>_. 1) \<lparr>cal_params = None, cal_provenance = None, cal_ece = None\<rparr> (fl (9 / 10))
      = (fl (9 / 10), NOT_CALIBRATED)"
    by (simp add: calibrate_def calibrator_state_def)
  then show ?thesis using confidence_only_derisks by blast
qed

end
