(* ===== verification/RiskEngine.thy ===== *)
theory RiskEngine
  imports Prelude Domain Valuation CircuitBreakers SizingPolicies
begin

text \<open>
  \<^verbatim>\<open>risk/risk_engine.py\<close>: the fail-closed gate between a decision and an order. The gates and
  the sizing pipeline of \<^verbatim>\<open>evaluate_proposal\<close> are separate definitions, composed in the code's
  order. A Python exception is a left value; the market-impact loop is a partial function,
  so that a loop that never ends is the value \<open>None\<close>. The calibration artifact that the code
  reads from disk on first use is the field \<open>re_calibrator\<close>.
\<close>

datatype regime_type =
    MACRO_NEWS_FREEZE | HIGH_SPREAD_CHOP | VOLATILITY_EXPANSION | TRENDING_MOMENTUM
  | RANGING_MEAN_REVERSION

record risk_config =
  risk_per_trade_pct :: f64
  max_concurrent_positions :: int
  max_spread_points :: int

record risk_engine =
  re_config :: risk_config
  re_magic :: int
  max_margin_usage_pct :: f64
  max_allowed_lots :: f64
  eta_coefficient :: f64
  max_impact_reward_ratio :: f64
  min_risk_reward_ratio :: f64
  min_rr_high_confidence :: f64
  high_confidence_threshold :: f64
  kill_switch_active :: bool
  re_breaker_config :: cb_config
  re_breakers :: cb_state
  re_last_breaker :: "breaker_snapshot option"
  re_calibrator :: calibrator

definition enable_kill_switch :: "risk_engine \<Rightarrow> risk_engine" where
  "enable_kill_switch e = e\<lparr>kill_switch_active := True\<rparr>"

definition disable_kill_switch :: "risk_engine \<Rightarrow> risk_engine" where
  "disable_kill_switch e = e\<lparr>kill_switch_active := False\<rparr>"

section \<open>Lot sizing\<close>

text \<open>The equity tier ceilings.\<close>

definition equity_tier :: "f64 \<Rightarrow> f64 \<Rightarrow> f64" where
  "equity_tier eq top_tier =
     (if eq < Fin 100 then fl (2 / 100) else if eq < Fin 1000 then fl (1 / 10)
      else if eq < Fin 10000 then 1 else top_tier)"

definition get_clamped_position_size ::
  "f64 option \<Rightarrow> f64 option \<Rightarrow> account_info option \<Rightarrow> symbol_info option \<Rightarrow> f64" where
  "get_clamped_position_size volume raw_volume account symbol =
     (let vol = (case volume of Some v \<Rightarrow> v | None \<Rightarrow> (case raw_volume of Some v \<Rightarrow> v | None \<Rightarrow> 0));
          tier_max = (case account of Some a \<Rightarrow> equity_tier (acc_equity a) (Fin 10) | None \<Rightarrow> Fin 10);
          tier_max = (case symbol of Some s \<Rightarrow> pmin tier_max (si_volume_max s) | None \<Rightarrow> tier_max)
      in pmin vol tier_max)"

definition calculate_position_size :: "account_info \<Rightarrow> symbol_info \<Rightarrow> f64 \<Rightarrow> f64 \<Rightarrow> f64 res" where
  "calculate_position_size account si sl_distance_price risk_pct =
     (if sl_distance_price \<le> 0 \<or> \<not> isfinite sl_distance_price then ret 0
      else if acc_equity account \<le> 0 \<or> \<not> isfinite (acc_equity account) then ret 0
      else if si_trade_contract_size si \<le> 0 \<or> \<not> isfinite (si_trade_contract_size si) then ret 0
      else py_div (acc_equity account * (risk_pct / Fin 100))
             (sl_distance_price * si_trade_contract_size si))"

definition floor_to_step :: "f64 \<Rightarrow> f64 \<Rightarrow> f64 res" where
  "floor_to_step val step =
     (if step \<le> 0 \<or> \<not> isfinite step then ret 0
      else if val \<le> 0 \<or> \<not> isfinite val then ret 0
      else bindR (floor64 ((val + EPS) / step)) (\<lambda>steps. ret (round_nd 4 (float_of_int steps * step))))"

text \<open>Step 7: the margin clamp. A configured percentage can only tighten the 20% boundary.\<close>

definition margin_clamp_fraction :: "risk_engine \<Rightarrow> f64" where
  "margin_clamp_fraction e =
     (let pct = max_margin_usage_pct e in
      if isfinite pct \<and> 0 < pct \<and> pct \<le> Fin 100 then pmin (fl (1 / 5)) (pct / Fin 100)
      else fl (1 / 5))"

definition max_margin_volume :: "risk_engine \<Rightarrow> f64 \<Rightarrow> account_info \<Rightarrow> symbol_info \<Rightarrow> f64 res" where
  "max_margin_volume e entry account si =
     (let maximum_allowed_margin = acc_margin_free account * margin_clamp_fraction e;
          contract_size = si_trade_contract_size si;
          lev = float_of_int (acc_leverage account) in
      if 0 < contract_size \<and> 0 < entry \<and> 0 < acc_leverage account then
        bindR (py_div (maximum_allowed_margin * lev) (contract_size * entry)) (\<lambda>_.
          py_div maximum_allowed_margin
            (pmax (required_margin_estimate 1 contract_size entry (Some lev)) 0))
      else ret 0)"

definition invalid_inputs :: "f64 \<Rightarrow> f64 \<Rightarrow> account_info \<Rightarrow> symbol_info \<Rightarrow> string option" where
  "invalid_inputs entry stop account si =
     (if \<not> (\<forall>v \<in> set [entry, stop, acc_equity account, acc_margin_free account,
            si_trade_contract_size si, si_volume_step si]. isfinite v)
        then Some ''INVALID_INPUT_NAN_INF_NONE''
      else if entry \<le> 0 \<or> stop \<le> 0 then Some ''INVALID_PRICING''
      else if acc_equity account \<le> 0 then Some ''INVALID_EQUITY''
      else if acc_margin_free account \<le> 0 then Some ''INVALID_FREE_MARGIN''
      else if acc_leverage account \<le> 0 then Some ''INVALID_LEVERAGE''
      else if si_trade_contract_size si \<le> 0 then Some ''INVALID_CONTRACT_SIZE''
      else if si_volume_step si \<le> 0 then Some ''INVALID_VOLUME_STEP''
      else if fabs64 (entry - stop) \<le> 0 then Some ''INVALID_SL_DISTANCE''
      else None)"

definition calculate_dynamic_volume ::
  "risk_engine \<Rightarrow> f64 \<Rightarrow> f64 \<Rightarrow> account_info \<Rightarrow> symbol_info \<Rightarrow> f64 \<Rightarrow> (f64 \<times> string) res" where
  "calculate_dynamic_volume e entry stop account si risk_pct =
     (case invalid_inputs entry stop account si of
        Some reason \<Rightarrow> ret (0, reason)
      | None \<Rightarrow>
        let risk_amount_usd = acc_equity account * (risk_pct / Fin 100) in
        if risk_amount_usd < 0 \<or> \<not> isfinite risk_amount_usd then ret (0, ''INVALID_RISK_AMOUNT'')
        else bindR (py_div risk_amount_usd (fabs64 (entry - stop) * si_trade_contract_size si)) (\<lambda>raw_lots.
          if \<not> isfinite raw_lots \<or> raw_lots < 0 then ret (0, ''INVALID_RAW_LOTS'')
          else let step = si_volume_step si; vmax = si_volume_max si in
            bindR (floor_to_step raw_lots step) (\<lambda>volume.
            bindR (max_margin_volume e entry account si) (\<lambda>by_margin.
              let volume = pmin volume vmax;
                  volume = pmin volume (equity_tier (acc_equity account) (pmin (Fin 10) vmax));
                  volume = pmin volume by_margin in
              bindR (floor_to_step volume step) (\<lambda>volume.
                ret (if volume < si_volume_min si then
                       (if acc_equity account < Fin 50 then
                          (pmin (si_volume_min si) vmax, ''MICRO_ACCOUNT_MIN_LOT_EXCEPTION'')
                        else (0, ''INSUFFICIENT_EQUITY_FOR_MIN_LOT''))
                     else (volume, ''SUCCESS'')))))))"

definition calculate_volume :: "risk_engine \<Rightarrow> f64 \<Rightarrow> f64 \<Rightarrow> account_info \<Rightarrow> symbol_info \<Rightarrow> f64 res" where
  "calculate_volume e entry stop account si =
     bindR (calculate_dynamic_volume e entry stop account si (risk_per_trade_pct (re_config e)))
       (\<lambda>(volume, _). ret volume)"

section \<open>Admission gates\<close>

fun map_action_to_order_type :: "action_type \<Rightarrow> order_type" where
  "map_action_to_order_type A_BUY = BUY"
| "map_action_to_order_type BUY_MARKET = BUY"
| "map_action_to_order_type A_SELL = SELL"
| "map_action_to_order_type SELL_MARKET = SELL"
| "map_action_to_order_type A_BUY_LIMIT = BUY_LIMIT"
| "map_action_to_order_type A_SELL_LIMIT = SELL_LIMIT"
| "map_action_to_order_type A_BUY_STOP = BUY_STOP"
| "map_action_to_order_type A_SELL_STOP = SELL_STOP"
| "map_action_to_order_type a = (if str_in ''BUY'' (action_value a) then BUY else SELL)"

definition is_buy_proposal :: "trade_proposal \<Rightarrow> bool" where
  "is_buy_proposal p = str_in ''BUY'' (action_value (p_action p))"

definition is_hedge :: "trade_proposal \<Rightarrow> bool" where
  "is_hedge p \<longleftrightarrow> str_in ''HEDGE'' (p_reason_code p) \<or> str_in ''hedge'' (lower (p_reason_code p))"

definition symbol_positions :: "trade_proposal \<Rightarrow> position list \<Rightarrow> position list" where
  "symbol_positions p ps = filter (\<lambda>q. pos_symbol q = p_symbol p) ps"

definition directional_exposure :: "trade_proposal \<Rightarrow> position list \<Rightarrow> f64" where
  "directional_exposure p ps =
     foldl (+) 0 (map pos_volume (filter (\<lambda>q. is_buy_proposal p \<and> pos_type q = BUY
        \<or> \<not> is_buy_proposal p \<and> pos_type q = SELL) (symbol_positions p ps)))"

text \<open>Part 6, the portfolio gate: position count, pending orders (the configuration has no such
  field, so the default of 5 holds), opposite exposure, directional squeeze.\<close>

definition portfolio_gate ::
  "risk_engine \<Rightarrow> trade_proposal \<Rightarrow> position list \<Rightarrow> 'o list option \<Rightarrow> bool" where
  "portfolio_gate e p ps pending =
     (let sps = symbol_positions p ps;
          p_orders = (case pending of None \<Rightarrow> [] | Some os \<Rightarrow> os);
          opposite = (\<exists>q \<in> set sps. is_buy_proposal p \<and> pos_type q = SELL
                        \<or> \<not> is_buy_proposal p \<and> pos_type q = BUY)
      in \<not> max_concurrent_positions (re_config e) \<le> int (length sps)
       \<and> \<not> 5 \<le> int (length p_orders)
       \<and> (is_hedge p \<or> \<not> (opposite \<and> map_action_to_order_type (p_action p) \<in> {BUY_LIMIT, SELL_LIMIT}))
       \<and> \<not> max_allowed_lots e \<le> directional_exposure p ps)"

definition spread_gate :: "risk_engine \<Rightarrow> tick_data \<Rightarrow> symbol_info \<Rightarrow> bool res" where
  "spread_gate e t si =
     bindR (py_div (t_ask t - t_bid t) (si_point si))
       (\<lambda>pts. ret (\<not> float_of_int (max_spread_points (re_config e)) < pts))"

definition active_min_rr :: "risk_engine \<Rightarrow> trade_proposal \<Rightarrow> f64" where
  "active_min_rr e p =
     (if high_confidence_threshold e \<le> p_confidence p
      then pmin (min_risk_reward_ratio e) (min_rr_high_confidence e) else min_risk_reward_ratio e)"

definition reward_gate :: "risk_engine \<Rightarrow> trade_proposal \<Rightarrow> bool" where
  "reward_gate e p \<longleftrightarrow> is_hedge p \<or> \<not> p_risk_reward_ratio p < active_min_rr e p"

definition min_dist_price :: "symbol_info \<Rightarrow> f64" where
  "min_dist_price si = float_of_int (si_stops_level si) * si_point si"

definition MICRO :: f64 where
  "MICRO = fl (1 / 1000000)"

definition entry_market_dist :: "trade_proposal \<Rightarrow> tick_data \<Rightarrow> f64 option" where
  "entry_market_dist p t =
     (case map_action_to_order_type (p_action p) of
        BUY_LIMIT \<Rightarrow> Some (t_ask t - p_proposed_entry p)
      | SELL_LIMIT \<Rightarrow> Some (p_proposed_entry p - t_bid t)
      | BUY_STOP \<Rightarrow> Some (p_proposed_entry p - t_ask t)
      | SELL_STOP \<Rightarrow> Some (t_bid t - p_proposed_entry p)
      | _ \<Rightarrow> None)"

definition stops_gate :: "trade_proposal \<Rightarrow> tick_data \<Rightarrow> symbol_info \<Rightarrow> bool" where
  "stops_gate p t si \<longleftrightarrow>
     (case entry_market_dist p t of None \<Rightarrow> True | Some d \<Rightarrow> \<not> d < min_dist_price si - MICRO)
   \<and> \<not> fabs64 (p_proposed_entry p - p_stop_loss p) < min_dist_price si - MICRO
   \<and> \<not> fabs64 (p_proposed_entry p - p_take_profit p) < min_dist_price si - MICRO"

section \<open>Risk scaling\<close>

definition effective_peak :: "account_info \<Rightarrow> f64 option \<Rightarrow> f64" where
  "effective_peak account peak_equity =
     (case peak_equity of
        None \<Rightarrow> acc_equity account
      | Some p \<Rightarrow> if \<not> isfinite p \<or> p \<le> 0 then acc_equity account else p)"

definition apply_drawdown :: "account_info \<Rightarrow> f64 option \<Rightarrow> f64 \<Rightarrow> f64" where
  "apply_drawdown account peak_equity risk_pct =
     (let peak = effective_peak account peak_equity; eq = acc_equity account in
      if eq < peak then
        let drawdown_pct = ((peak - eq) / peak) * Fin 100 in
        if 1 < drawdown_pct
        then risk_pct * pmax (fl (1 / 5)) (1 - (drawdown_pct * fl (1 / 5)))
        else risk_pct
      else risk_pct)"

definition scaled_risk_pct ::
  "(f64 \<Rightarrow> f64) \<Rightarrow> risk_engine \<Rightarrow> trade_proposal \<Rightarrow> account_info \<Rightarrow> regime_type option \<Rightarrow> f64 option \<Rightarrow> f64" where
  "scaled_risk_pct exp64 e p account regime peak_equity =
     (let risk_pct = risk_per_trade_pct (re_config e);
          risk_pct = (if regime = Some VOLATILITY_EXPANSION then risk_pct * fl (1 / 2) else risk_pct);
          risk_pct = apply_drawdown account peak_equity risk_pct;
          (calibrated_conf, cal_state) = calibrate exp64 (re_calibrator e) (p_confidence p)
      in risk_pct * confidence_to_risk_multiplier calibrated_conf cal_state)"

section \<open>The order volume\<close>

definition contract_size_of :: "symbol_info \<Rightarrow> f64" where
  "contract_size_of si =
     (if 0 < si_trade_contract_size si then si_trade_contract_size si else Fin 100)"

definition leverage_of :: "account_info \<Rightarrow> f64" where
  "leverage_of account = float_of_int (if 0 < acc_leverage account then acc_leverage account else 100)"

text \<open>Lines 635-656: exposure clamp, minimum re-check with the micro-account exception, margin.\<close>

definition clamp_to_exposure ::
  "risk_engine \<Rightarrow> trade_proposal \<Rightarrow> account_info \<Rightarrow> symbol_info \<Rightarrow> position list \<Rightarrow> f64 \<Rightarrow> f64 res" where
  "clamp_to_exposure e p account si ps final_volume =
     (let remaining_exposure_cap = max_allowed_lots e - directional_exposure p ps in
      bindR (if remaining_exposure_cap < final_volume
             then floor_to_step remaining_exposure_cap (si_volume_step si)
             else ret final_volume) (\<lambda>v.
      let v = (if v < si_volume_min si
               then (if acc_equity account < Fin 50 then si_volume_min si else 0) else v);
          required_margin = required_margin_estimate v (contract_size_of si) (p_proposed_entry p)
                              (Some (leverage_of account))
      in ret (if acc_margin_free account < required_margin then 0 else v)))"

definition estimate_market_impact :: "f64 \<Rightarrow> f64 \<Rightarrow> symbol_info \<Rightarrow> f64 \<Rightarrow> order_type option \<Rightarrow> f64" where
  "estimate_market_impact eta volume si atr ot =
     (if ot = Some BUY_LIMIT \<or> ot = Some SELL_LIMIT then 0
      else eta * (volume / contract_size_of si) * pmax atr (fl (1 / 2)))"

record impact_ctx =
  ic_symbol :: symbol_info
  ic_eta :: f64
  ic_max_ratio :: f64
  ic_tp_dist :: f64
  ic_atr :: f64
  ic_order_type :: order_type
  ic_step :: f64

definition impact_ok :: "impact_ctx \<Rightarrow> f64 \<Rightarrow> f64 \<Rightarrow> bool" where
  "impact_ok c v slippage =
     (let expected_reward = reward_value v (contract_size_of (ic_symbol c)) (ic_tp_dist c) 1
      in 0 < expected_reward \<and> slippage / expected_reward \<le> ic_max_ratio c)"

partial_function (option) impact_loop :: "impact_ctx \<Rightarrow> f64 \<Rightarrow> f64 \<Rightarrow> (f64 \<times> f64) res option" where
  "impact_loop c final_volume slippage =
     (if si_volume_min (ic_symbol c) \<le> final_volume then
        (let slippage = estimate_market_impact (ic_eta c) final_volume (ic_symbol c) (ic_atr c)
                          (Some (ic_order_type c)) in
         if impact_ok c final_volume slippage then Some (ret (final_volume, slippage))
         else case floor_to_step (final_volume - ic_step c) (ic_step c) of
                Inl err \<Rightarrow> Some (raise err)
              | Inr v \<Rightarrow> impact_loop c v slippage)
      else Some (ret (final_volume, slippage)))"

declare impact_loop.simps [code]

definition impact_ctx_of ::
  "risk_engine \<Rightarrow> trade_proposal \<Rightarrow> symbol_info \<Rightarrow> f64 \<Rightarrow> impact_ctx" where
  "impact_ctx_of e p si atr = \<lparr>ic_symbol = si, ic_eta = eta_coefficient e,
     ic_max_ratio = max_impact_reward_ratio e,
     ic_tp_dist = fabs64 (p_proposed_entry p - p_take_profit p), ic_atr = atr,
     ic_order_type = map_action_to_order_type (p_action p),
     ic_step = (if 0 < si_volume_step si then si_volume_step si else fl (1 / 100))\<rparr>"

text \<open>Lines 687-748: the micro-account rescue and the emitted order.\<close>

definition finalize_order ::
  "risk_engine \<Rightarrow> trade_proposal \<Rightarrow> account_info \<Rightarrow> symbol_info \<Rightarrow> f64 \<Rightarrow> trade_order option res" where
  "finalize_order e p account si final_volume =
     (let emit = \<lambda>v. bindR (mk_order \<lparr>o_id = p_request_id p, o_symbol = p_symbol p,
            o_type = map_action_to_order_type (p_action p), o_volume = v,
            o_price = p_proposed_entry p, o_stop_loss = p_stop_loss p,
            o_take_profit = p_take_profit p, o_magic = re_magic e,
            o_comment = ''NSE_HFT_SIZED''\<rparr>) (\<lambda>ord. ret (Some ord)) in
      if final_volume < si_volume_min si then
        (if acc_equity account < Fin 50 \<and> 0 < final_volume then
           (let rescue_margin = contract_size_of si * p_proposed_entry p * si_volume_min si
                                  / leverage_of account in
            if acc_margin_free account < rescue_margin then ret None
            else emit (si_volume_min si))
         else ret None)
      else emit final_volume)"

section \<open>The whole evaluation\<close>

definition decide ::
  "(f64 \<Rightarrow> f64) \<Rightarrow> risk_engine \<Rightarrow> trade_proposal \<Rightarrow> account_info \<Rightarrow> symbol_info \<Rightarrow> position list
     \<Rightarrow> tick_data \<Rightarrow> regime_type option \<Rightarrow> f64 \<Rightarrow> 'o list option \<Rightarrow> f64 option
     \<Rightarrow> trade_order option res option" where
  "decide exp64 e p account si ps t regime atr pending peak_equity =
     (if p_action p = NO_TRADE \<or> p_action p = WAIT then Some (ret None)
      else if \<not> portfolio_gate e p ps pending then Some (ret None)
      else case spread_gate e t si of
        Inl err \<Rightarrow> Some (raise err)
      | Inr ok \<Rightarrow>
        if \<not> ok \<or> \<not> reward_gate e p \<or> \<not> stops_gate p t si then Some (ret None)
        else (case bindR (calculate_dynamic_volume e (p_proposed_entry p) (p_stop_loss p) account si
                            (scaled_risk_pct exp64 e p account regime peak_equity))
                     (\<lambda>(v, _). clamp_to_exposure e p account si ps v) of
            Inl err \<Rightarrow> Some (raise err)
          | Inr v \<Rightarrow> (case impact_loop (impact_ctx_of e p si atr) v 0 of
                None \<Rightarrow> None
              | Some (Inl err) \<Rightarrow> Some (raise err)
              | Some (Inr (v, _)) \<Rightarrow> Some (finalize_order e p account si v))))"

definition evaluate_proposal ::
  "(f64 \<Rightarrow> f64) \<Rightarrow> risk_engine \<Rightarrow> trade_proposal \<Rightarrow> account_info \<Rightarrow> symbol_info \<Rightarrow> position list
     \<Rightarrow> tick_data \<Rightarrow> regime_type option \<Rightarrow> f64 \<Rightarrow> 'o list option \<Rightarrow> f64 option
     \<Rightarrow> trade_order option res option \<times> risk_engine" where
  "evaluate_proposal exp64 e p account si ps t regime atr pending peak_equity =
     (if kill_switch_active e then (Some (ret None), e)
      else let (snap, brk) = cb_evaluate (re_breaker_config e) (re_breakers e) (acc_equity account)
                               (p_generated_at p);
               e = e\<lparr>re_breakers := brk, re_last_breaker := Some snap\<rparr>
        in (if \<not> bs_allowed snap then Some (ret None)
            else decide exp64 e p account si ps t regime atr pending peak_equity, e))"

section \<open>Lemmas: rounding of bounded quantities\<close>

lemma fl_err:
  assumes "\<bar>x\<bar> \<le> 2 ^ 60"
  obtains y where "fl x = Fin y" "\<bar>y - x\<bar> \<le> \<bar>x\<bar> / 2 ^ 53 + 1 / 2 ^ 60"
proof -
  have tiny: "pow2 (- 1075) \<le> pow2 (- 60)" by (rule pow2_mono) simp
  have p: "pow2 (- 53) = 1 / 2 ^ 53" "pow2 (- 60) = 1 / 2 ^ 60"
    by (simp_all add: pow2_def power_int_minus field_simps)
  have "\<bar>rnd x - x\<bar> \<le> \<bar>x\<bar> * pow2 (- 53) + pow2 (- 1075)" by (rule rnd_error)
  also have "\<dots> \<le> \<bar>x\<bar> / 2 ^ 53 + 1 / 2 ^ 60" using tiny by (simp add: p)
  finally have e: "\<bar>rnd x - x\<bar> \<le> \<bar>x\<bar> / 2 ^ 53 + 1 / 2 ^ 60" .
  also have "\<dots> \<le> 2 ^ 8" using assms by simp
  finally have "\<bar>rnd x - x\<bar> \<le> 2 ^ 8" .
  then have "\<bar>rnd x\<bar> \<le> 2 ^ 8 + 2 ^ 60" using assms by linarith
  moreover have "(2 :: rat) ^ 8 + 2 ^ 60 < pow2 61" by (simp add: pow2_nat [of 61, simplified])
  moreover have "pow2 61 \<le> pow2 1024" by (rule pow2_mono) simp
  ultimately have "\<bar>rnd x\<bar> < pow2 1024" by linarith
  then show thesis using fl_Fin e that by blast
qed

lemma fl_bounded:
  assumes "\<bar>x\<bar> \<le> 2000"
  obtains y where "fl x = Fin y" "\<bar>y - x\<bar> \<le> 1 / 1000000000000"
proof -
  have "\<bar>x\<bar> \<le> 2 ^ 60" using assms by simp
  then obtain y where y: "fl x = Fin y" "\<bar>y - x\<bar> \<le> \<bar>x\<bar> / 2 ^ 53 + 1 / 2 ^ 60" by (rule fl_err)
  have "\<bar>x\<bar> / 2 ^ 53 + 1 / 2 ^ 60 \<le> 1 / 1000000000000" using assms by simp
  then show thesis using that y by (meson order_trans)
qed

lemma EPS_val: obtains r where "EPS = Fin r" "0 \<le> r" "r \<le> 2 / 1000000000"
proof -
  have b: "EPS \<noteq> NaN" "Fin 0 \<le> EPS" "EPS \<le> Fin (2 / 1000000000)" by code_simp+
  then obtain r where r: "EPS = Fin r" by (cases EPS) auto
  show thesis using b unfolding r by (intro that [OF r]) simp_all
qed

text \<open>Flooring to a step and rounding to four decimals, for steps of at least 0.0001.\<close>

lemma floor_to_step_bound:
  assumes "0 < a" "a \<le> 1001" "9 / 100000 \<le> s" "s \<le> 1000"
  obtains w where "floor_to_step (Fin a) (Fin s) = Inr (Fin w)" "0 \<le> w" "w \<le> a + 51 / 1000000"
proof -
  obtain e where e: "EPS = Fin e" "0 \<le> e" "e \<le> 2 / 1000000000" by (rule EPS_val)
  obtain b where b: "fl (a + e) = Fin b" "\<bar>b - (a + e)\<bar> \<le> 1 / 1000000000000"
    using assms e by (elim fl_bounded [of "a + e", rotated]) auto
  have "fl 0 \<le> fl (a + e)" using assms e by (intro fl_mono) simp
  then have b0: "0 \<le> b" using b by simp
  have b1: "b \<le> a + 3 / 1000000000" "b \<le> 1002" using assms e b by linarith+
  have bs: "0 \<le> b / s" "b / s \<le> 2 ^ 24"
  proof -
    show "0 \<le> b / s" using b0 assms by simp
    have "b \<le> 2 ^ 24 * s" using b1 assms by simp
    then show "b / s \<le> 2 ^ 24" using assms by (simp add: pos_divide_le_eq)
  qed
  obtain q where q: "fl (b / s) = Fin q" "\<bar>q - b / s\<bar> \<le> \<bar>b / s\<bar> / 2 ^ 53 + 1 / 2 ^ 60"
    using bs by (elim fl_err [of "b / s", rotated]) auto
  have "fl 0 \<le> fl (b / s)" using bs by (intro fl_mono)
  then have q0: "0 \<le> q" using q by simp
  have q1: "q \<le> b / s + (b / s) / 2 ^ 53 + 1 / 2 ^ 60" using q bs by linarith
  define k where "k = \<lfloor>q\<rfloor>"
  have k: "0 \<le> k" "(of_int k :: rat) \<le> q" using q0 by (simp_all add: k_def)
  have "(of_int k :: rat) \<le> of_int (2 ^ 53)" using k q1 bs by simp
  then have k53: "\<bar>k\<bar> \<le> 2 ^ 53" using k by (simp only: of_int_le_iff)
  have ks0: "0 \<le> of_int k * s" using k assms by simp
  have "of_int k * s \<le> q * s" using k assms by (intro mult_right_mono) auto
  also have "\<dots> \<le> (b / s + (b / s) / 2 ^ 53 + 1 / 2 ^ 60) * s" using q1 assms by (intro mult_right_mono) auto
  also have "\<dots> = b + b / 2 ^ 53 + s / 2 ^ 60" using assms by (simp add: field_simps)
  also have "\<dots> \<le> b + 1 / 1000000000000" using b1 assms by simp
  finally have ks: "of_int k * s \<le> b + 1 / 1000000000000" .
  obtain m where m: "fl (of_int k * s) = Fin m" "\<bar>m - of_int k * s\<bar> \<le> 1 / 1000000000000"
    using ks ks0 b1 by (elim fl_bounded [of "of_int k * s", rotated]) auto
  have "fl 0 \<le> fl (of_int k * s)" using ks0 by (intro fl_mono)
  then have m0: "0 \<le> m" using m by simp
  have m1: "m \<le> a + 4 / 1000000000" using m ks b1 by linarith
  let ?r = "of_int (rhe (m * 10 ^ 4)) / 10 ^ 4 :: rat"
  have "(of_int (rhe (m * 10 ^ 4)) :: rat) \<le> m * 10 ^ 4 + 1 / 2"
    using rhe_error [of "m * 10 ^ 4"] by linarith
  then have r1: "?r \<le> m + 5 / 100000" by simp
  have "0 \<le> rhe (m * 10 ^ 4)" using m0 by (intro rhe_ge) simp
  then have r0: "0 \<le> ?r" by simp
  obtain w where w: "fl ?r = Fin w" "\<bar>w - ?r\<bar> \<le> 1 / 1000000000000"
    using r0 r1 m1 assms by (elim fl_bounded [of ?r, rotated]) auto
  have "fl 0 \<le> fl ?r" using r0 by (intro fl_mono)
  then have "0 \<le> w" using w by simp
  moreover have "w \<le> a + 51 / 1000000" using w r1 m1 by linarith
  moreover have "floor_to_step (Fin a) (Fin s) = Inr (Fin w)"
  proof -
    have "Fin a + EPS = Fin b" unfolding e(1) using b(1) by simp
    then have "(Fin a + EPS) / Fin s = Fin q" using q(1) by simp
    then have "floor64 ((Fin a + EPS) / Fin s) = ret k" by (simp add: k_def)
    moreover have "round_nd 4 (float_of_int k * Fin s) = Fin w"
      using m(1) w(1) k53 by (simp add: float_of_int_def fl_of_int)
    ultimately show ?thesis using assms by (simp add: floor_to_step_def zero_f64_Fin ret_def)
  qed
  ultimately show thesis by (rule that [rotated])
qed

section \<open>Lemmas: the impact loop ends\<close>

lemma impact_loop_step_down:
  assumes "Fin 0 \<le> v" "v \<le> Fin 1000" "9 / 100000 \<le> s" "s \<le> 1000"
  obtains w where "floor_to_step (v - Fin s) (Fin s) = Inr (Fin w)" "0 \<le> w" "Fin w \<le> v"
    "w = 0 \<or> (\<exists>r. v = Fin r \<and> w \<le> r - 38 / 1000000)"
proof -
  from assms obtain r where r: "v = Fin r" "0 \<le> r" "r \<le> 1000" by (cases v) auto
  obtain a where a: "fl (r + - s) = Fin a" "\<bar>a - (r + - s)\<bar> \<le> 1 / 1000000000000"
    using r assms by (elim fl_bounded [of "r + - s", rotated]) auto
  have sub: "v - Fin s = Fin a" using r a by (simp add: minus_f64_def)
  show thesis
  proof (cases "0 < a")
    case True
    have "a \<le> 1001" using a r assms by linarith
    with True obtain w where w: "floor_to_step (Fin a) (Fin s) = Inr (Fin w)" "0 \<le> w" "w \<le> a + 51 / 1000000"
      using assms by (elim floor_to_step_bound [of a s, rotated -1]) auto
    have "w \<le> r - 38 / 1000000" using w a assms by linarith
    then show thesis using w by (intro that [of w]) (auto simp: sub [unfolded r] r)
  next
    case False
    have "floor_to_step (Fin a) (Fin s) = Inr (Fin 0)"
      using False by (simp add: floor_to_step_def zero_f64_Fin ret_def)
    then show thesis using r by (intro that [of 0]) (auto simp: sub [unfolded r] r)
  qed
qed

lemma impact_loop_ends_in:
  assumes "Fin 0 < si_volume_min (ic_symbol c)" "ic_step c = Fin s" "9 / 100000 \<le> s" "s \<le> 1000"
  shows "Fin 0 \<le> v \<Longrightarrow> v \<le> Fin 1000 \<Longrightarrow> v \<le> Fin (of_nat n * (38 / 1000000)) \<Longrightarrow>
    \<exists>w slip. impact_loop c v sl = Some (Inr (w, slip)) \<and> Fin 0 \<le> w \<and> w \<le> v"
proof (induction n arbitrary: v sl)
  case 0
  then have "\<not> si_volume_min (ic_symbol c) \<le> v"
    using assms(1) by (metis f64_le_antisym f64_less_irrefl f64_less_le_trans mult_zero_left of_nat_0)
  moreover have "v \<le> v" using 0 by (cases v) auto
  ultimately show ?case using 0 by (subst impact_loop.simps) (auto simp: ret_def)
next
  case (Suc n)
  have vv: "v \<le> v" using Suc.prems by (cases v) auto
  let ?slip = "estimate_market_impact (ic_eta c) v (ic_symbol c) (ic_atr c) (Some (ic_order_type c))"
  show ?case
  proof (cases "si_volume_min (ic_symbol c) \<le> v \<and> \<not> impact_ok c v ?slip")
    case False
    then show ?thesis using Suc.prems vv
      by (subst impact_loop.simps) (auto simp: ret_def Let_def)
  next
    case True
    obtain w where w: "floor_to_step (v - ic_step c) (ic_step c) = Inr (Fin w)" "0 \<le> w" "Fin w \<le> v"
      "w = 0 \<or> (\<exists>r. v = Fin r \<and> w \<le> r - 38 / 1000000)"
      using impact_loop_step_down [OF Suc.prems(1,2) assms(3,4)] assms(2) by metis
    have "w \<le> of_nat n * (38 / 1000000)"
      using w(4) Suc.prems(3) by (auto simp: algebra_simps)
    then obtain x slip where "impact_loop c (Fin w) ?slip = Some (Inr (x, slip))" "Fin 0 \<le> x" "x \<le> Fin w"
      using Suc.IH [of "Fin w" ?slip] w(2,3) Suc.prems(2) f64_le_trans by fastforce
    moreover have "impact_loop c v sl = impact_loop c (Fin w) ?slip"
      using True w(1) by (subst impact_loop.simps) (simp add: Let_def)
    ultimately show ?thesis using w(3) f64_le_trans by metis
  qed
qed

lemma impact_loop_ends:
  assumes "Fin 0 < si_volume_min (ic_symbol c)" "ic_step c = Fin s" "9 / 100000 \<le> s" "s \<le> 1000"
    "Fin 0 \<le> v" "v \<le> Fin 1000"
  obtains w slip where "impact_loop c v sl = Some (Inr (w, slip))" "Fin 0 \<le> w" "w \<le> v"
proof -
  from assms obtain r where r: "v = Fin r" "0 \<le> r" by (cases v) auto
  let ?x = "r / (38 / 1000000)"
  have "?x \<le> of_int (int (nat \<lceil>?x\<rceil>))" by (rule order_trans [OF le_of_int_ceiling]) simp
  then obtain n :: nat where "?x \<le> of_nat n" by (metis of_int_of_nat_eq)
  then have "v \<le> Fin (of_nat n * (38 / 1000000))" using r by (simp add: field_simps)
  then show thesis using impact_loop_ends_in [OF assms] that by metis
qed

section \<open>Lemmas: the volume before the loop\<close>

definition sane_contract :: "symbol_info \<Rightarrow> rat \<Rightarrow> bool" where
  "sane_contract si s \<longleftrightarrow> si_volume_step si = Fin s \<and> 9 / 100000 \<le> s \<and> s \<le> 1000
     \<and> Fin 0 < si_volume_min si \<and> si_volume_min si \<le> Fin 900 \<and> Fin 0 < si_volume_max si"

definition volume_ok :: "f64 \<Rightarrow> bool" where
  "volume_ok v \<longleftrightarrow> Fin 0 \<le> v \<and> v \<le> Fin 1000"

lemma volume_ok_0 [simp]: "volume_ok 0" "volume_ok (Fin 0)"
  by (simp_all add: volume_ok_def zero_f64_Fin)

lemma floor_to_step_le:
  assumes "floor_to_step x (Fin s) = Inr w" "9 / 100000 \<le> s" "s \<le> 1000"
    "\<not> Fin b < x" "0 \<le> b" "b \<le> 1001"
  shows "Fin 0 \<le> w" and "w \<le> Fin (b + 51 / 1000000)"
proof -
  have "Fin 0 \<le> w \<and> w \<le> Fin (b + 51 / 1000000)"
  proof (cases "\<exists>a. x = Fin a \<and> 0 < a")
    case True
    then obtain a where a: "x = Fin a" "0 < a" "a \<le> b" using assms(4) by auto
    then have "a \<le> 1001" using assms(6) by simp
    with a obtain v where "floor_to_step (Fin a) (Fin s) = Inr (Fin v)" "0 \<le> v" "v \<le> a + 51 / 1000000"
      using assms(2,3) by (elim floor_to_step_bound [of a s, rotated -1])
    then show ?thesis using a assms(1) by auto
  next
    case False
    then have "floor_to_step x (Fin s) = ret 0"
      by (cases x) (auto simp: floor_to_step_def zero_f64_Fin)
    then show ?thesis using assms(1,5) by (auto simp: zero_f64_Fin ret_def)
  qed
  then show "Fin 0 \<le> w" "w \<le> Fin (b + 51 / 1000000)" by auto
qed

lemma equity_tier_le: "\<not> Fin 10 < equity_tier eq (pmin (Fin 10) x)"
proof -
  have "\<not> Fin 10 < fl (2 / 100)" "\<not> Fin 10 < fl (1 / 10)" by code_simp+
  moreover have "\<not> Fin 10 < pmin (Fin 10) x" by (cases x) (auto simp: pmin_def)
  ultimately show ?thesis by (auto simp: equity_tier_def one_f64_Fin)
qed

lemma pmin_not_above: "\<not> b < x \<Longrightarrow> \<not> b < pmin x y"
  by (cases b; cases x; cases y) (auto simp: pmin_def)

lemma pmin_not_above2: "\<not> b < y \<Longrightarrow> b \<noteq> NaN \<Longrightarrow> x \<noteq> NaN \<Longrightarrow> y \<noteq> NaN \<Longrightarrow> \<not> b < pmin x y"
  by (cases b; cases x; cases y) (auto simp: pmin_def)

lemma floor_to_step_not_NaN: "floor_to_step x st = Inr w \<Longrightarrow> w \<noteq> NaN"
proof (cases "st \<le> 0 \<or> \<not> isfinite st \<or> x \<le> 0 \<or> \<not> isfinite x")
  case False
  then obtain b where b: "st = Fin b" "0 < b" by (auto elim!: isfiniteE simp: zero_f64_Fin)
  have "float_of_int k * st \<noteq> NaN" for k
    unfolding float_of_int_def b(1) using b(2)
    by (cases rule: fl_cases [of "of_int k"]) (auto simp: f64_sgn_def)
  then show "floor_to_step x st = Inr w \<Longrightarrow> w \<noteq> NaN"
    using False by (auto simp: floor_to_step_def bindR_eq_Inr round_nd_finite_or)
next
  case True
  then have "floor_to_step x st = ret 0" by (auto simp: floor_to_step_def)
  then show "floor_to_step x st = Inr w \<Longrightarrow> w \<noteq> NaN" by (auto simp: zero_f64_Fin)
qed

lemma dynamic_volume_cases:
  assumes "calculate_dynamic_volume e en st account si rp = Inr (v, r)" "v \<noteq> 0"
  obtains (sized) w where "floor_to_step w (si_volume_step si) = Inr v" "\<not> Fin 10 < w"
  | (micro) "v = pmin (si_volume_min si) (si_volume_max si)" "acc_equity account < Fin 50"
proof -
  from assms obtain raw v1 bm v2 where
    v1: "floor_to_step raw (si_volume_step si) = Inr v1"
    and v2: "floor_to_step (pmin (pmin (pmin v1 (si_volume_max si))
        (equity_tier (acc_equity account) (pmin (Fin 10) (si_volume_max si)))) bm) (si_volume_step si) = Inr v2"
    and v: "v = v2 \<or> v = pmin (si_volume_min si) (si_volume_max si) \<and> acc_equity account < Fin 50"
    by (auto simp: calculate_dynamic_volume_def bindR_eq_Inr Let_def split: option.splits if_splits)
  let ?t = "equity_tier (acc_equity account) (pmin (Fin 10) (si_volume_max si))"
  have n: "v1 \<noteq> NaN" "?t \<noteq> NaN"
    using floor_to_step_not_NaN [OF v1]
    by (auto simp: equity_tier_def one_f64_Fin pmin_def)
  have "\<not> Fin 10 < pmin (pmin (pmin v1 (si_volume_max si)) ?t) bm"
    using equity_tier_le n
    by (intro pmin_not_above [OF pmin_not_above2]) (simp_all add: pmin_not_NaN)
  then show thesis using v v2 sized micro by blast
qed

lemma dynamic_volume_ok:
  assumes "sane_contract si s" "calculate_dynamic_volume e en st account si rp = Inr (v, r)"
  shows "Fin 0 \<le> v \<and> v \<le> Fin 900"
proof (cases "v = 0")
  case False
  have s: "si_volume_step si = Fin s" "9 / 100000 \<le> s" "s \<le> 1000"
    and m: "Fin 0 < si_volume_min si" "si_volume_min si \<le> Fin 900" "Fin 0 < si_volume_max si"
    using assms(1) by (auto simp: sane_contract_def)
  from assms(2) False show ?thesis
  proof (cases rule: dynamic_volume_cases)
    case (sized w)
    then have "Fin 0 \<le> v" "v \<le> Fin (10 + 51 / 1000000)"
      using floor_to_step_le [of w s v 10] s by simp_all
    then show ?thesis by (cases v) auto
  next
    case micro
    then show ?thesis using m
      by (cases "si_volume_max si"; cases "si_volume_min si") (auto simp: pmin_def)
  qed
qed (simp add: zero_f64_Fin)

lemma clamp_props:
  assumes "sane_contract si s" "clamp_to_exposure e p account si ps v = Inr w" "Fin 0 \<le> v" "v \<le> Fin 900"
    "max_allowed_lots e - directional_exposure p ps = Fin r" "0 \<le> r"
  shows "volume_ok w"
    and "w = 0 \<or> \<not> acc_margin_free account <
        required_margin_estimate w (contract_size_of si) (p_proposed_entry p) (Some (leverage_of account))"
    and "\<not> acc_equity account < Fin 50 \<Longrightarrow> w \<le> Fin (r + 51 / 1000000)"
proof -
  have s: "si_volume_step si = Fin s" "9 / 100000 \<le> s" "s \<le> 1000"
    and m: "Fin 0 < si_volume_min si" "si_volume_min si \<le> Fin 900"
    using assms(1) by (auto simp: sane_contract_def)
  let ?rm = "\<lambda>x. required_margin_estimate x (contract_size_of si) (p_proposed_entry p) (Some (leverage_of account))"
  let ?lift = "\<lambda>x. if x < si_volume_min si then (if acc_equity account < Fin 50 then si_volume_min si else 0) else x"
  obtain x where x: "(if Fin r < v then floor_to_step (Fin r) (si_volume_step si) else ret v) = Inr x"
    and w: "w = (if acc_margin_free account < ?rm (?lift x) then 0 else ?lift x)"
    using assms(2,5) by (auto simp: clamp_to_exposure_def bindR_eq_Inr Let_def)
  have x1: "Fin 0 \<le> x \<and> x \<le> Fin 1000 \<and> x \<le> Fin (r + 51 / 1000000)"
  proof (cases "Fin r < v")
    case True
    then have r: "r \<le> 900" using assms(4) by (cases v) auto
    have "floor_to_step (Fin r) (Fin s) = Inr x" using x True s(1) by simp
    then have "Fin 0 \<le> x" "x \<le> Fin (r + 51 / 1000000)"
      using floor_to_step_le [of "Fin r" s x r] s r assms(6) by simp_all
    then show ?thesis using r by (cases x) auto
  next
    case False
    then have "x = v" using x by (simp add: ret_def)
    then show ?thesis using assms(3,4) False by (cases v) auto
  qed
  have "si_volume_min si \<le> Fin 1000" using m(2) by (cases "si_volume_min si") auto
  then show "volume_ok w"
    using x1 f64_less_imp_le [OF m(1)] by (simp add: w volume_ok_def zero_f64_Fin)
  show "w = 0 \<or> \<not> acc_margin_free account < ?rm w" by (simp add: w)
  show "w \<le> Fin (r + 51 / 1000000)" if "\<not> acc_equity account < Fin 50"
    using x1 that assms(6) by (simp add: w zero_f64_Fin)
qed

section \<open>Lemmas: anatomy of an emitted order\<close>

definition order_of :: "risk_engine \<Rightarrow> trade_proposal \<Rightarrow> f64 \<Rightarrow> trade_order" where
  "order_of e p v = \<lparr>o_id = p_request_id p, o_symbol = p_symbol p,
     o_type = map_action_to_order_type (p_action p), o_volume = v,
     o_price = p_proposed_entry p, o_stop_loss = p_stop_loss p,
     o_take_profit = p_take_profit p, o_magic = re_magic e, o_comment = ''NSE_HFT_SIZED''\<rparr>"

lemma finalize_order_emits:
  assumes "finalize_order e p account si v = Inr (Some ord)"
  obtains (sized) "\<not> v < si_volume_min si" "ord = order_of e p v"
  | (rescued) "v < si_volume_min si" "acc_equity account < Fin 50" "0 < v" "ord = order_of e p (si_volume_min si)"
      "\<not> acc_margin_free account <
         contract_size_of si * p_proposed_entry p * si_volume_min si / leverage_of account"
proof -
  have emit: "bindR (mk_order x) (\<lambda>ord. ret (Some ord)) = Inr (Some ord) \<Longrightarrow> ord = x" for x
    by (simp add: bindR_eq_Inr mk_order_def split: if_splits)
  show thesis
  proof (cases "v < si_volume_min si")
    case False
    then have "ord = order_of e p v"
      using assms unfolding finalize_order_def order_of_def Let_def by (auto dest: emit)
    then show thesis using False sized by blast
  next
    case True
    then have "acc_equity account < Fin 50" "0 < v" "\<not> acc_margin_free account <
         contract_size_of si * p_proposed_entry p * si_volume_min si / leverage_of account"
      "ord = order_of e p (si_volume_min si)"
      using assms unfolding finalize_order_def order_of_def Let_def
      by (auto dest: emit split: if_splits)
    then show thesis using True rescued by blast
  qed
qed

lemma finalize_order_positive:
  "finalize_order e p account si v = Inr (Some ord) \<Longrightarrow> 0 < o_volume ord"
  unfolding finalize_order_def Let_def
  by (auto simp: bindR_eq_Inr mk_order_def split: if_splits)

text \<open>The engine with the breaker fields refreshed passes the same gates.\<close>

abbreviation with_breaker :: "risk_engine \<Rightarrow> cb_state \<Rightarrow> breaker_snapshot \<Rightarrow> risk_engine" where
  "with_breaker e b sn \<equiv> e\<lparr>re_breakers := b, re_last_breaker := Some sn\<rparr>"

lemma with_breaker_gates [gate_defs]:
  "portfolio_gate (with_breaker e b sn) p ps pending = portfolio_gate e p ps pending"
  "spread_gate (with_breaker e b sn) t si = spread_gate e t si"
  "reward_gate (with_breaker e b sn) p = reward_gate e p"
  "order_of (with_breaker e b sn) p v = order_of e p v"
  "impact_ctx_of (with_breaker e b sn) p si atr = impact_ctx_of e p si atr"
  "max_allowed_lots (with_breaker e b sn) = max_allowed_lots e"
  by (simp_all add: portfolio_gate_def spread_gate_def reward_gate_def active_min_rr_def order_of_def
      impact_ctx_of_def Let_def)

lemma decide_emits:
  assumes "decide exp64 e p account si ps t regime atr pending peak = Some (Inr (Some ord))"
  obtains v r w w' slip where "p_action p \<noteq> NO_TRADE" "p_action p \<noteq> WAIT"
    "portfolio_gate e p ps pending" "spread_gate e t si = Inr True" "reward_gate e p" "stops_gate p t si"
    "calculate_dynamic_volume e (p_proposed_entry p) (p_stop_loss p) account si
       (scaled_risk_pct exp64 e p account regime peak) = Inr (v, r)"
    "clamp_to_exposure e p account si ps v = Inr w"
    "impact_loop (impact_ctx_of e p si atr) w 0 = Some (Inr (w', slip))"
    "finalize_order e p account si w' = Inr (Some ord)"
proof -
  have g: "p_action p \<noteq> NO_TRADE" "p_action p \<noteq> WAIT" "portfolio_gate e p ps pending"
    using assms by (auto simp: decide_def split: if_splits)
  have s: "spread_gate e t si = Inr True" "reward_gate e p" "stops_gate p t si"
    using assms g by (auto simp: decide_def split: if_splits sum.splits)
  let ?sized = "bindR (calculate_dynamic_volume e (p_proposed_entry p) (p_stop_loss p) account si
       (scaled_risk_pct exp64 e p account regime peak)) (\<lambda>(v, _). clamp_to_exposure e p account si ps v)"
  have d: "(case ?sized of Inl err \<Rightarrow> Some (raise err)
      | Inr v \<Rightarrow> (case impact_loop (impact_ctx_of e p si atr) v 0 of None \<Rightarrow> None
          | Some (Inl err) \<Rightarrow> Some (raise err)
          | Some (Inr (v, _)) \<Rightarrow> Some (finalize_order e p account si v))) = Some (Inr (Some ord))"
    using assms g s by (simp add: decide_def)
  then obtain w where w: "?sized = Inr w" by (cases ?sized) auto
  obtain v r where v: "calculate_dynamic_volume e (p_proposed_entry p) (p_stop_loss p) account si
       (scaled_risk_pct exp64 e p account regime peak) = Inr (v, r)"
    "clamp_to_exposure e p account si ps v = Inr w"
    using w by (auto simp: bindR_eq_Inr)
  have d': "(case impact_loop (impact_ctx_of e p si atr) w 0 of None \<Rightarrow> None
          | Some (Inl err) \<Rightarrow> Some (raise err)
          | Some (Inr (v, _)) \<Rightarrow> Some (finalize_order e p account si v)) = Some (Inr (Some ord))"
    using d w by simp
  then obtain w' slip where l: "impact_loop (impact_ctx_of e p si atr) w 0 = Some (Inr (w', slip))"
    by (auto split: option.splits sum.splits prod.splits)
  then have "finalize_order e p account si w' = Inr (Some ord)" using d' by simp
  then show thesis using that g s v l by blast
qed

lemma evaluate_emits:
  assumes "evaluate_proposal exp64 e p account si ps t regime atr pending peak = (Some (Inr (Some ord)), e')"
  obtains snap brk where "\<not> kill_switch_active e"
    "cb_evaluate (re_breaker_config e) (re_breakers e) (acc_equity account) (p_generated_at p) = (snap, brk)"
    "bs_allowed snap" "e' = with_breaker e brk snap"
    "decide exp64 e' p account si ps t regime atr pending peak = Some (Inr (Some ord))"
  using assms by (auto simp: evaluate_proposal_def Let_def split: if_splits prod.splits)

lemma emitted_order_shape:
  assumes "finalize_order e p account si v = Inr (Some ord)"
  shows "\<exists>u. ord = order_of e p u \<and> \<not> u < si_volume_min si \<and> (u = v \<or> acc_equity account < Fin 50)"
  using assms by (cases rule: finalize_order_emits) auto

section \<open>Lemmas: margin\<close>

lemma fl_div_mono: "a \<le> b \<Longrightarrow> 0 < l \<Longrightarrow> fl (a / l) \<le> fl (b / l)"
  by (intro fl_mono divide_right_mono) auto

lemma f64_div_mono: "x \<le> y \<Longrightarrow> 0 < l \<Longrightarrow> x / Fin l \<le> y / Fin l"
proof (cases x; cases y)
  fix a b assume "x \<le> y" "0 < l" "x = Fin a" "y = Fin b"
  then show ?thesis by (simp add: fl_div_mono)
next
  fix a assume "x \<le> y" "0 < l" "x = Fin a" "y = PInf"
  then show ?thesis by (cases rule: fl_cases [of "a / l"]) auto
next
  fix b assume "x \<le> y" "0 < l" "x = NInf" "y = Fin b"
  then show ?thesis by (cases rule: fl_cases [of "b / l"]) auto
qed auto

lemma f64_mult_mono:
  assumes "Fin 0 \<le> x" "0 < w" "w \<le> v"
  shows "x * Fin w \<le> x * Fin v"
proof (cases x)
  case (Fin a)
  then show ?thesis using assms by (simp add: fl_mono mult_left_mono)
qed (use assms in \<open>auto simp: f64_sgn_def\<close>)

lemma f64_mult_pos: "Fin 0 < x \<Longrightarrow> Fin 0 < y \<Longrightarrow> Fin 0 \<le> x * y"
proof (cases x; cases y)
  fix a b assume "Fin 0 < x" "Fin 0 < y" "x = Fin a" "y = Fin b"
  then show ?thesis by (auto intro: fl_nonneg)
qed (auto simp: f64_sgn_def)

lemma required_margin_mono:
  assumes "0 < w" "w \<le> v" "Fin 0 < cs" "Fin 0 < pr" "0 < l"
  shows "required_margin_estimate (Fin w) cs pr (Some (Fin l))
    \<le> required_margin_estimate (Fin v) cs pr (Some (Fin l))"
proof -
  have "\<not> cs \<le> Fin 0" "\<not> pr \<le> Fin 0" using assms by (cases cs; simp; fail | cases pr; simp; fail)+
  moreover have "cs * pr * Fin w / Fin l \<le> cs * pr * Fin v / Fin l"
    using assms by (intro f64_div_mono f64_mult_mono f64_mult_pos)
  ultimately show ?thesis
    using assms by (simp add: required_margin_estimate_def zero_f64_Fin)
qed

lemma contract_size_pos: "Fin 0 < contract_size_of si"
  by (auto simp: contract_size_of_def zero_f64_Fin)

lemma leverage_pos:
  assumes "acc_leverage account \<le> 2 ^ 53"
  obtains l where "leverage_of account = Fin l" "0 < l"
proof -
  let ?n = "if 0 < acc_leverage account then acc_leverage account else 100"
  have "leverage_of account = Fin (of_int ?n)"
    unfolding leverage_of_def float_of_int_def using assms by (intro fl_of_int) auto
  moreover have "0 < (of_int ?n :: rat)" by simp
  ultimately show thesis by (rule that)
qed

end
