(* ===== verification/RiskProperties.thy ===== *)
theory RiskProperties
  imports RiskEngine
begin

text \<open>
  The properties of the risk engine, with a concrete contract, account, decision and quote on
  which they are evaluated.
\<close>

section \<open>A concrete session\<close>

definition gold :: symbol_info where
  "gold = \<lparr>si_symbol = ''XAUUSD'', si_digits = 2, si_point = Fin (1 / 64), si_tick_size = Fin (1 / 64),
     si_tick_value = 1, si_volume_min = Fin (1 / 8), si_volume_max = Fin 100,
     si_volume_step = Fin (1 / 8), si_stops_level = 10, si_freeze_level = 0,
     si_trade_contract_size = Fin 100\<rparr>"

definition account_with :: "f64 \<Rightarrow> account_info" where
  "account_with eq = \<lparr>acc_login = 1, acc_trade_mode = 0, acc_leverage = 1000, acc_balance = eq,
     acc_equity = eq, acc_margin = 0, acc_margin_free = eq, acc_currency = ''USD''\<rparr>"

definition buy_gold :: trade_proposal where
  "buy_gold = \<lparr>p_request_id = ''r1'', p_execution_id = None, p_symbol = ''XAUUSD'',
     p_generated_at = utc 0, p_action = A_BUY, p_confidence = Fin (7 / 8),
     p_proposed_entry = Fin 2000, p_stop_loss = Fin 1995, p_take_profit = Fin 2010,
     p_risk_reward_ratio = Fin 2, p_reason_code = ''MODEL_SIGNAL'', p_ticket = 0, p_volume = None,
     p_decision_stage = None, p_blocked_by = None, p_reversal_action = None,
     p_is_ai_reversal = False\<rparr>"

definition gold_tick :: tick_data where
  "gold_tick = \<lparr>t_symbol = ''XAUUSD'', t_timestamp = utc 0, t_bid = Fin 1999, t_ask = Fin (15994 / 8),
     t_last = 0, t_volume = 0, t_flags = 0\<rparr>"

definition fresh_engine :: risk_engine where
  "fresh_engine = \<lparr>re_config = \<lparr>risk_per_trade_pct = Fin (1 / 2), max_concurrent_positions = 3,
       max_spread_points = 60\<rparr>,
     re_magic = 999101, max_margin_usage_pct = Fin 10, max_allowed_lots = Fin 10,
     eta_coefficient = Fin 200, max_impact_reward_ratio = Fin (7 / 16),
     min_risk_reward_ratio = Fin (7 / 4), min_rr_high_confidence = Fin (5 / 4),
     high_confidence_threshold = Fin (7 / 8), kill_switch_active = False,
     re_breaker_config = default_cb_config, re_breakers = cb_init, re_last_breaker = None,
     re_calibrator = \<lparr>cal_params = None, cal_provenance = None, cal_ece = None\<rparr>\<rparr>"


definition open_gold :: position where
  "open_gold = \<lparr>pos_ticket = 7, pos_symbol = ''XAUUSD'', pos_type = BUY, pos_volume = Fin (1 / 8),
     pos_price_open = Fin 1990, pos_sl = Fin 1985, pos_tp = Fin 2010, pos_profit = Fin 9,
     pos_magic = 999101\<rparr>"

abbreviation acc50k :: account_info where
  "acc50k \<equiv> account_with (Fin 50000)"

lemma fresh_breaker_allows:
  "(let (snap, brk) = cb_evaluate default_cb_config cb_init (Fin 50000) (utc 0) in bs_allowed snap)"
  by code_simp

lemma buy_gold_gates:
  "portfolio_gate fresh_engine buy_gold [] (None :: string list option)"
  "spread_gate fresh_engine gold_tick gold = Inr True"
  "reward_gate fresh_engine buy_gold" "stops_gate buy_gold gold_tick gold"
  by code_simp+

lemma buy_gold_risk: "scaled_risk_pct (\<lambda>_. 1) fresh_engine buy_gold acc50k None None = Fin (1 / 2)"
  by code_simp

lemma buy_gold_lots:
  "calculate_dynamic_volume fresh_engine (Fin 2000) (Fin 1995) acc50k gold (Fin (1 / 2))
     = Inr (Fin (1 / 2), ''SUCCESS'')"
  by code_simp

lemma buy_gold_clamp: "clamp_to_exposure fresh_engine buy_gold acc50k gold [] (Fin (1 / 2)) = Inr (Fin (1 / 2))"
  by code_simp

lemma buy_gold_impact:
  "case impact_loop (impact_ctx_of fresh_engine buy_gold gold 1) (Fin (1 / 2)) 0 of
     Some (Inr (v, _)) \<Rightarrow> v = Fin (1 / 2) | _ \<Rightarrow> False"
  by code_simp

lemma buy_gold_final:
  "finalize_order fresh_engine buy_gold acc50k gold (Fin (1 / 2))
     = Inr (Some (order_of fresh_engine buy_gold (Fin (1 / 2))))"
  by code_simp

text \<open>The outcome of the evaluation, as a function of the stages.\<close>

lemma evaluate_emits_intro:
  assumes "\<not> kill_switch_active e"
    "cb_evaluate (re_breaker_config e) (re_breakers e) (acc_equity account) (p_generated_at p) = (snap, brk)"
    "bs_allowed snap" "p_action p \<noteq> NO_TRADE" "p_action p \<noteq> WAIT"
    "portfolio_gate e p ps pending" "spread_gate e t si = Inr True" "reward_gate e p" "stops_gate p t si"
    "calculate_dynamic_volume e (p_proposed_entry p) (p_stop_loss p) account si
       (scaled_risk_pct exp64 e p account regime peak) = Inr (v, r)"
    "clamp_to_exposure e p account si ps v = Inr w"
    "impact_loop (impact_ctx_of e p si atr) w 0 = Some (Inr (w', slip))"
    "finalize_order e p account si w' = Inr (Some ord)"
  shows "evaluate_proposal exp64 e p account si ps t regime atr pending peak
    = (Some (Inr (Some ord)), with_breaker e brk snap)"
proof -
  let ?e = "with_breaker e brk snap"
  have mm: "max_margin_volume ?e en account si = max_margin_volume e en account si" for en
    by (simp add: max_margin_volume_def margin_clamp_fraction_def)
  have cdv: "calculate_dynamic_volume ?e en st account si rp = calculate_dynamic_volume e en st account si rp" for en st rp
    by (simp only: calculate_dynamic_volume_def mm)
  have rp: "scaled_risk_pct exp64 ?e p account regime peak = scaled_risk_pct exp64 e p account regime peak"
    by (simp add: scaled_risk_pct_def)
  have cl: "clamp_to_exposure ?e p account si ps v = clamp_to_exposure e p account si ps v"
    by (simp add: clamp_to_exposure_def)
  have fin: "finalize_order ?e p account si w' = finalize_order e p account si w'"
    by (simp add: finalize_order_def)
  show ?thesis
    using assms by (simp add: evaluate_proposal_def decide_def gate_defs cdv rp cl fin)
qed

lemma buy_gold_emits:
  "\<exists>e'. evaluate_proposal (\<lambda>_. 1) fresh_engine buy_gold acc50k gold [] gold_tick None 1
      (None :: string list option) None
    = (Some (Inr (Some (order_of fresh_engine buy_gold (Fin (1 / 2))))), e')"
proof -
  have i: "p_proposed_entry buy_gold = Fin 2000" "p_stop_loss buy_gold = Fin 1995"
    "p_action buy_gold = A_BUY" "p_generated_at buy_gold = utc 0" "acc_equity acc50k = Fin 50000"
    "\<not> kill_switch_active fresh_engine" "re_breaker_config fresh_engine = default_cb_config"
    "re_breakers fresh_engine = cb_init"
    by (simp_all add: buy_gold_def account_with_def fresh_engine_def)
  obtain snap brk where cb: "cb_evaluate default_cb_config cb_init (Fin 50000) (utc 0) = (snap, brk)"
    "bs_allowed snap" using fresh_breaker_allows by (cases "cb_evaluate default_cb_config cb_init (Fin 50000) (utc 0)") simp
  obtain slip where l: "impact_loop (impact_ctx_of fresh_engine buy_gold gold 1) (Fin (1 / 2)) 0
      = Some (Inr (Fin (1 / 2), slip))"
    using buy_gold_impact by (auto split: option.splits sum.splits)
  show ?thesis
    by (rule exI, rule evaluate_emits_intro)
       (use cb l buy_gold_gates buy_gold_clamp buy_gold_final buy_gold_lots in \<open>simp_all only: i buy_gold_risk simp_thms action_type.distinct\<close>)
qed

section \<open>Properties\<close>

text \<open>C1: an order leaves \<^verbatim>\<open>evaluate_proposal\<close> only if the kill switch is off, the circuit
  breakers allow entries at the decision's time, the action is an entry, and the portfolio,
  spread, reward and stops-level gates all pass; it then carries the decision's symbol, entry,
  stop and target, the engine's magic number, and a volume that is positive and not below the
  broker minimum.\<close>

lemma emitted_order_passed_every_gate:
  assumes "evaluate_proposal exp64 e p account si ps t regime atr pending peak = (Some (Inr (Some ord)), e')"
  shows "\<not> kill_switch_active e
    \<and> bs_allowed (fst (cb_evaluate (re_breaker_config e) (re_breakers e) (acc_equity account) (p_generated_at p)))
    \<and> p_action p \<noteq> NO_TRADE \<and> p_action p \<noteq> WAIT
    \<and> portfolio_gate e p ps pending \<and> spread_gate e t si = Inr True \<and> reward_gate e p \<and> stops_gate p t si
    \<and> (\<exists>v. ord = order_of e p v \<and> 0 < v \<and> \<not> v < si_volume_min si)"
proof -
  from assms obtain snap brk where k: "\<not> kill_switch_active e"
    "cb_evaluate (re_breaker_config e) (re_breakers e) (acc_equity account) (p_generated_at p) = (snap, brk)"
    "bs_allowed snap" and e': "e' = with_breaker e brk snap"
    and d: "decide exp64 e' p account si ps t regime atr pending peak = Some (Inr (Some ord))"
    by (rule evaluate_emits)
  from d obtain w where g: "p_action p \<noteq> NO_TRADE" "p_action p \<noteq> WAIT"
    "portfolio_gate e' p ps pending" "spread_gate e' t si = Inr True" "reward_gate e' p" "stops_gate p t si"
    and f: "finalize_order e' p account si w = Inr (Some ord)"
    by (rule decide_emits)
  obtain v where v: "ord = order_of e' p v" "\<not> v < si_volume_min si"
    using emitted_order_shape [OF f] by blast
  have "0 < v" using finalize_order_positive [OF f] v by (simp add: order_of_def)
  then show ?thesis using k g v by (auto simp: e' gate_defs)
qed

lemma emitted_order_passed_every_gate_witness:
  "bs_allowed (fst (cb_evaluate (re_breaker_config fresh_engine) (re_breakers fresh_engine)
      (acc_equity acc50k) (p_generated_at buy_gold)))"
  using buy_gold_emits emitted_order_passed_every_gate by blast

lemma impact_loop_returns:
  assumes "sane_contract si s" "volume_ok v"
  shows "\<exists>w slip. impact_loop (impact_ctx_of e p si atr) v sl = Some (Inr (w, slip))
    \<and> Fin 0 \<le> w \<and> w \<le> v"
proof -
  let ?c = "impact_ctx_of e p si atr"
  have c: "Fin 0 < si_volume_min (ic_symbol ?c)" "ic_step ?c = Fin s" "9 / 100000 \<le> s" "s \<le> 1000"
    using assms(1) by (auto simp: sane_contract_def impact_ctx_of_def zero_f64_Fin)
  have "Fin 0 \<le> v" "v \<le> Fin 1000" using assms(2) by (auto simp: volume_ok_def)
  with c obtain w slip where "impact_loop ?c v sl = Some (Inr (w, slip))" "Fin 0 \<le> w" "w \<le> v"
    by (rule impact_loop_ends)
  then show ?thesis by blast
qed

lemma emitted_volume_bounds:
  assumes "evaluate_proposal exp64 e p account si ps t regime atr pending peak = (Some (Inr (Some ord)), e')"
    "sane_contract si s" "max_allowed_lots e - directional_exposure p ps = Fin r" "0 \<le> r"
  obtains v w where "Fin 0 \<le> v" "v \<le> Fin 1000"
    "v = 0 \<or> \<not> acc_margin_free account <
       required_margin_estimate v (contract_size_of si) (p_proposed_entry p) (Some (leverage_of account))"
    "acc_equity account < Fin 50 \<or> v \<le> Fin (r + 51 / 1000000)"
    "Fin 0 \<le> w" "w \<le> v" "finalize_order e' p account si w = Inr (Some ord)"
proof -
  from assms(1) obtain snap brk where e': "e' = with_breaker e brk snap"
    and d: "decide exp64 e' p account si ps t regime atr pending peak = Some (Inr (Some ord))"
    by (rule evaluate_emits)
  from d obtain v0 rs v w slip where
    v0: "calculate_dynamic_volume e' (p_proposed_entry p) (p_stop_loss p) account si
       (scaled_risk_pct exp64 e' p account regime peak) = Inr (v0, rs)"
    and v: "clamp_to_exposure e' p account si ps v0 = Inr v"
    and l: "impact_loop (impact_ctx_of e' p si atr) v 0 = Some (Inr (w, slip))"
    and f: "finalize_order e' p account si w = Inr (Some ord)"
    by (rule decide_emits)
  have v0b: "Fin 0 \<le> v0" "v0 \<le> Fin 900" using dynamic_volume_ok [OF assms(2) v0] by auto
  have cap: "max_allowed_lots e' - directional_exposure p ps = Fin r" using assms(3) by (simp add: e')
  note c = clamp_props [OF assms(2) v v0b cap assms(4)]
  have "Fin 0 \<le> v" "v \<le> Fin 1000" using c(1) by (auto simp: volume_ok_def)
  moreover have "Fin 0 \<le> w \<and> w \<le> v"
    using impact_loop_returns [OF assms(2) c(1), of e' p atr 0] l by auto
  ultimately show thesis using c(2,3) f by (intro that [of v w]) auto
qed

text \<open>C2: the two limits an emitted order keeps, under the conditions the code needs for them. The contract
  is sane (volume step between 0.00009 and 1000, minimum volume at most 900 lots), the entry price is
  positive, the leverage is at most 2 to the 53rd, and the remaining cap \<open>r\<close> (allowed lots minus the directional
  exposure) is a number that is not negative. Then the margin estimate of the order does not exceed the free
  margin; and for accounts with an equity of at least 50 the volume exceeds \<open>r\<close> by at most 0.000051 lots, the
  slack of the two roundings. Accounts below 50 are excluded from the second limit because it is false
  there: \<^verbatim>\<open>finalize\<close> raises a volume the clamp has floored to zero to the broker minimum again (lemma
  \<open>micro_account_exceeds_exposure_cap\<close>).\<close>

lemma emitted_order_affordable:
  assumes "evaluate_proposal exp64 e p account si ps t regime atr pending peak = (Some (Inr (Some ord)), e')"
    "sane_contract si s" "max_allowed_lots e - directional_exposure p ps = Fin r" "0 \<le> r"
    "acc_leverage account \<le> 2 ^ 53" "0 < p_proposed_entry p"
  shows "\<not> acc_margin_free account < required_margin_estimate (o_volume ord) (contract_size_of si)
            (p_proposed_entry p) (Some (leverage_of account))
    \<and> (\<not> acc_equity account < Fin 50 \<longrightarrow> o_volume ord \<le> Fin (r + 51 / 1000000))"
proof -
  obtain v w where v: "Fin 0 \<le> v" "v \<le> Fin 1000"
    "v = 0 \<or> \<not> acc_margin_free account <
       required_margin_estimate v (contract_size_of si) (p_proposed_entry p) (Some (leverage_of account))"
    "acc_equity account < Fin 50 \<or> v \<le> Fin (r + 51 / 1000000)"
    and w: "Fin 0 \<le> w" "w \<le> v" and f: "finalize_order e' p account si w = Inr (Some ord)"
    using assms(1-4) by (rule emitted_volume_bounds)
  obtain l where l: "leverage_of account = Fin l" "0 < l" using assms(5) by (rule leverage_pos)
  have m: "Fin 0 < si_volume_min si" "si_volume_min si \<le> Fin 900"
    using assms(2) by (auto simp: sane_contract_def)
  from f show ?thesis
  proof (cases rule: finalize_order_emits)
    case sized
    have pos: "Fin 0 < w" using finalize_order_positive [OF f] sized by (simp add: order_of_def zero_f64_Fin)
    then obtain a b where ab: "w = Fin a" "v = Fin b" "0 < a" "a \<le> b"
      using v(1,2) w by (cases w; cases v) auto
    then have "v \<noteq> 0" by (simp add: zero_f64_Fin)
    then have nb: "\<not> acc_margin_free account <
       required_margin_estimate (Fin b) (contract_size_of si) (p_proposed_entry p) (Some (Fin l))"
      using v(3) l ab by simp
    have "required_margin_estimate (Fin a) (contract_size_of si) (p_proposed_entry p) (Some (Fin l))
      \<le> required_margin_estimate (Fin b) (contract_size_of si) (p_proposed_entry p) (Some (Fin l))"
      using ab contract_size_pos assms(6) l(2) by (intro required_margin_mono) (simp_all add: zero_f64_Fin)
    then have "\<not> acc_margin_free account <
       required_margin_estimate (Fin a) (contract_size_of si) (p_proposed_entry p) (Some (Fin l))"
      using nb f64_less_le_trans by blast
    moreover have "\<not> acc_equity account < Fin 50 \<longrightarrow> w \<le> Fin (r + 51 / 1000000)"
      using v(4) w(2) f64_le_trans by blast
    ultimately show ?thesis using sized ab l by (simp add: order_of_def)
  next
    case rescued
    have "\<not> si_volume_min si \<le> Fin 0" "\<not> contract_size_of si \<le> Fin 0"
      "\<not> p_proposed_entry p \<le> Fin 0" "\<not> leverage_of account \<le> Fin 0"
      using m(1) contract_size_pos [of si] assms(6) l
      by (auto simp: zero_f64_Fin dest: f64_less_le_trans)
    then show ?thesis using rescued
      by (simp add: order_of_def required_margin_estimate_def zero_f64_Fin)
  qed
qed

lemma emitted_order_affordable_witness:
  "\<not> acc_margin_free acc50k < required_margin_estimate (Fin (1 / 2)) (contract_size_of gold)
      (p_proposed_entry buy_gold) (Some (leverage_of acc50k))"
proof -
  obtain e' where e: "evaluate_proposal (\<lambda>_. 1) fresh_engine buy_gold acc50k gold [] gold_tick None 1
      (None :: string list option) None
    = (Some (Inr (Some (order_of fresh_engine buy_gold (Fin (1 / 2))))), e')"
    using buy_gold_emits by blast
  have s: "sane_contract gold (1 / 8)"
    by (simp add: sane_contract_def gold_def)
  have r: "max_allowed_lots fresh_engine - directional_exposure buy_gold [] = Fin 10" by code_simp
  have "acc_leverage acc50k \<le> 2 ^ 53" "0 < p_proposed_entry buy_gold"
    by (simp_all add: account_with_def buy_gold_def zero_f64_Fin)
  from emitted_order_affordable [OF e s r _ this] show ?thesis by (simp add: order_of_def)
qed

text \<open>C30: the evaluation always returns: for a contract with steps between 0.00009 and 1000 and
  a minimum between 0 and 900 lots, the market-impact loop ends, whatever the decision, the
  quote and the account.\<close>

lemma evaluation_returns:
  assumes "sane_contract si s" "max_allowed_lots e - directional_exposure p ps = Fin r" "0 \<le> r"
  shows "fst (evaluate_proposal exp64 e p account si ps t regime atr pending peak) \<noteq> None"
proof -
  have "decide exp64 (with_breaker e b sn) p account si ps t regime atr pending peak \<noteq> None" for b sn
  proof
    let ?e = "with_breaker e b sn"
    assume n: "decide exp64 ?e p account si ps t regime atr pending peak = None"
    then obtain v0 rs v where
      v0: "calculate_dynamic_volume ?e (p_proposed_entry p) (p_stop_loss p) account si
         (scaled_risk_pct exp64 ?e p account regime peak) = Inr (v0, rs)"
      and v: "clamp_to_exposure ?e p account si ps v0 = Inr v"
      and l: "impact_loop (impact_ctx_of ?e p si atr) v 0 = None"
      unfolding decide_def
      by (auto simp: bindR_eq_Inr split: if_splits sum.splits option.splits prod.splits)
    have v0b: "Fin 0 \<le> v0" "v0 \<le> Fin 900" using dynamic_volume_ok [OF assms(1) v0] by auto
    have cap: "max_allowed_lots ?e - directional_exposure p ps = Fin r" using assms(2) by simp
    note c = clamp_props(1) [OF assms(1) v v0b cap assms(3)]
    have "impact_loop (impact_ctx_of ?e p si atr) v 0 \<noteq> None"
      using impact_loop_returns [OF assms(1) c, of ?e p atr 0] by auto
    then show False using l by simp
  qed
  then show ?thesis by (simp add: evaluate_proposal_def Let_def split: prod.splits)
qed

lemma evaluation_returns_witness:
  "fst (evaluate_proposal (\<lambda>_. 1) fresh_engine buy_gold acc50k gold [] gold_tick None 1
      (None :: string list option) None) \<noteq> None"
proof -
  have s: "sane_contract gold (1 / 8)"
    by (simp add: sane_contract_def gold_def)
  have r: "max_allowed_lots fresh_engine - directional_exposure buy_gold [] = Fin 10" by code_simp
  show ?thesis using evaluation_returns [OF s r] by simp
qed

definition fine_step_ctx :: impact_ctx where
  "fine_step_ctx = \<lparr>ic_symbol = gold\<lparr>si_volume_step := Fin (1 / 32768)\<rparr>, ic_eta = Fin 200,
     ic_max_ratio = Fin (7 / 16), ic_tp_dist = Fin (1 / 8), ic_atr = Fin 4, ic_order_type = BUY,
     ic_step = Fin (1 / 32768)\<rparr>"

text \<open>without that step bound the loop need not end. For a contract with a volume step of
  1/32768 the rounding of \<^verbatim>\<open>_floor_to_step\<close> to four decimals undoes the decrement: from the
  minimum of 0.125 lots, a setting in which the impact bound fails keeps the loop at 0.125 lots
  forever.\<close>

lemma impact_loop_may_hang: "impact_loop fine_step_ctx (Fin (1 / 8)) slip = None"
proof -
  have m: "si_volume_min (ic_symbol fine_step_ctx) \<le> Fin (1 / 8)" by code_simp
  have i: "\<not> impact_ok fine_step_ctx (Fin (1 / 8))
     (estimate_market_impact (ic_eta fine_step_ctx) (Fin (1 / 8)) (ic_symbol fine_step_ctx)
        (ic_atr fine_step_ctx) (Some (ic_order_type fine_step_ctx)))" by code_simp
  have f: "floor_to_step (Fin (1 / 8) - ic_step fine_step_ctx) (ic_step fine_step_ctx) = Inr (Fin (1 / 8))"
    by code_simp
  have "\<not> (c = fine_step_ctx \<and> v = Fin (1 / 8))" if "impact_loop c v sl = Some y" for c v sl y
  proof (rule impact_loop.raw_induct [OF _ that,
      where P = "\<lambda>c v sl y. \<not> (c = fine_step_ctx \<and> v = Fin (1 / 8))"])
    fix loop :: "impact_ctx \<Rightarrow> f64 \<Rightarrow> f64 \<Rightarrow> (f64 \<times> f64) res option"
      and c :: impact_ctx and v sl y
    let ?slip = "estimate_market_impact (ic_eta c) v (ic_symbol c) (ic_atr c) (Some (ic_order_type c))"
    assume IH: "\<And>c v sl y. loop c v sl = Some y \<Longrightarrow> \<not> (c = fine_step_ctx \<and> v = Fin (1 / 8))"
      and eq: "(if si_volume_min (ic_symbol c) \<le> v
        then let slippage = ?slip in
             if impact_ok c v slippage then Some (ret (v, slippage))
             else case floor_to_step (v - ic_step c) (ic_step c) of
                    Inl err \<Rightarrow> Some (raise err) | Inr w \<Rightarrow> loop c w slippage
        else Some (ret (v, sl))) = Some y"
    show "\<not> (c = fine_step_ctx \<and> v = Fin (1 / 8))"
    proof
      assume cv: "c = fine_step_ctx \<and> v = Fin (1 / 8)"
      then have "loop fine_step_ctx (Fin (1 / 8)) ?slip = Some y"
        using eq m i f by (simp add: Let_def)
      from IH [OF this] show False by simp
    qed
  qed
  then show ?thesis by (metis option.exhaust)
qed

text \<open>the exposure cap does not bind micro accounts. With 0.125 lots open in the decision's
  direction, a cap of 0.1875 lots and an equity of 40, the evaluation emits a further order of
  0.125 lots: the volume that the exposure clamp floors to zero is raised to the broker minimum
  again before the margin check.\<close>

lemma micro_account_exceeds_exposure_cap:
  "\<exists>e' ord. evaluate_proposal (\<lambda>_. 1) (fresh_engine\<lparr>max_allowed_lots := Fin (3 / 16)\<rparr>) buy_gold
        (account_with (Fin 40)) gold [open_gold] gold_tick None 1 (None :: string list option) None
      = (Some (Inr (Some ord)), e')
    \<and> Fin (3 / 16) < directional_exposure buy_gold [open_gold] + o_volume ord"
proof -
  let ?e = "fresh_engine\<lparr>max_allowed_lots := Fin (3 / 16)\<rparr>" and ?a = "account_with (Fin 40)"
  have i: "p_proposed_entry buy_gold = Fin 2000" "p_stop_loss buy_gold = Fin 1995"
    "p_action buy_gold = A_BUY" "p_generated_at buy_gold = utc 0" "acc_equity ?a = Fin 40"
    "\<not> kill_switch_active ?e" "re_breaker_config ?e = default_cb_config" "re_breakers ?e = cb_init"
    by (simp_all add: buy_gold_def account_with_def fresh_engine_def)
  have "let (snap, brk) = cb_evaluate default_cb_config cb_init (Fin 40) (utc 0) in bs_allowed snap"
    by code_simp
  then obtain snap brk where cb: "cb_evaluate default_cb_config cb_init (Fin 40) (utc 0) = (snap, brk)"
    "bs_allowed snap" by (cases "cb_evaluate default_cb_config cb_init (Fin 40) (utc 0)") simp
  have g: "portfolio_gate ?e buy_gold [open_gold] (None :: string list option)"
    "spread_gate ?e gold_tick gold = Inr True" "reward_gate ?e buy_gold" "stops_gate buy_gold gold_tick gold"
    by code_simp+
  have rp: "scaled_risk_pct (\<lambda>_. 1) ?e buy_gold ?a None None = Fin (1 / 2)" by code_simp
  have lots: "calculate_dynamic_volume ?e (Fin 2000) (Fin 1995) ?a gold (Fin (1 / 2))
      = Inr (Fin (1 / 8), ''MICRO_ACCOUNT_MIN_LOT_EXCEPTION'')" by code_simp
  have clamp: "clamp_to_exposure ?e buy_gold ?a gold [open_gold] (Fin (1 / 8)) = Inr (Fin (1 / 8))"
    by code_simp
  have "case impact_loop (impact_ctx_of ?e buy_gold gold 1) (Fin (1 / 8)) 0 of
     Some (Inr (v, _)) \<Rightarrow> v = Fin (1 / 8) | _ \<Rightarrow> False" by code_simp
  then obtain slip where l: "impact_loop (impact_ctx_of ?e buy_gold gold 1) (Fin (1 / 8)) 0
      = Some (Inr (Fin (1 / 8), slip))" by (auto split: option.splits sum.splits)
  have fin: "finalize_order ?e buy_gold ?a gold (Fin (1 / 8)) = Inr (Some (order_of ?e buy_gold (Fin (1 / 8))))"
    by code_simp
  have "evaluate_proposal (\<lambda>_. 1) ?e buy_gold ?a gold [open_gold] gold_tick None 1
      (None :: string list option) None
    = (Some (Inr (Some (order_of ?e buy_gold (Fin (1 / 8))))), with_breaker ?e brk snap)"
    by (rule evaluate_emits_intro)
       (use cb l g clamp fin lots in \<open>simp_all only: i rp simp_thms action_type.distinct\<close>)
  moreover have "Fin (3 / 16) < directional_exposure buy_gold [open_gold]
      + o_volume (order_of ?e buy_gold (Fin (1 / 8)))" by code_simp
  ultimately show ?thesis by blast
qed

lemma drawdown_not_NaN: "((Fin p - Fin e) / Fin q) * Fin 100 \<noteq> NaN" if "0 < q"
proof -
  have "Fin p - Fin e = fl (p + - e)" by (simp add: minus_f64_def)
  moreover have "x / Fin q \<noteq> NaN" if "x \<noteq> NaN" for x
    using that \<open>0 < q\<close> by (cases x) auto
  moreover have "x * Fin 100 \<noteq> NaN" if "x \<noteq> NaN" for x
    using that by (cases x) (auto simp: f64_sgn_def)
  ultimately show ?thesis by simp
qed

lemma no_drawdown: "((Fin p - Fin e) / Fin q) * Fin 100 \<le> Fin 0" if "p \<le> e" "0 < q"
proof -
  have "Fin p - Fin e \<le> Fin 0" using that by (simp add: minus_f64_def fl_nonpos)
  moreover have "x / Fin q \<le> Fin 0" if "x \<le> Fin 0" for x
    using f64_div_mono [OF that \<open>0 < q\<close>] by simp
  moreover have "x * Fin 100 \<le> Fin 0" if "x \<le> Fin 0" for x
    using that by (cases x) (auto simp: f64_sgn_def intro: fl_nonpos)
  ultimately show ?thesis by blast
qed

text \<open>the live drawdown scaling and the canonical sizing policy agree: for every finite
  non-negative equity and every peak, valid or not, the engine's inline penalty multiplies the
  risk percentage exactly as \<^verbatim>\<open>SizingPolicy.drawdown_penalty\<close> says.\<close>

lemma drawdown_scaling_is_policy:
  assumes "fl r = Fin r" "acc_equity account = Fin q" "0 \<le> q"
  shows "apply_drawdown account (Some peak) (Fin r) = Fin r * drawdown_penalty (acc_equity account) peak"
proof (cases "isfinite peak \<and> \<not> peak \<le> 0")
  case False
  then show ?thesis using assms
    by (auto simp: apply_drawdown_def effective_peak_def drawdown_penalty_def Let_def one_f64_Fin)
next
  case True
  then obtain k where k: "peak = Fin k" "0 < k" by (auto elim!: isfiniteE simp: zero_f64_Fin not_le)
  show ?thesis
  proof (cases "q < k")
    case True
    then show ?thesis using assms k drawdown_not_NaN [of k k q]
      by (simp add: apply_drawdown_def effective_peak_def drawdown_penalty_def Let_def zero_f64_Fin
          one_f64_Fin f64_not_less [symmetric])
  next
    case False
    then have "((Fin k - Fin q) / Fin k) * Fin 100 \<le> Fin 1"
      using no_drawdown [of k q k] k f64_le_trans [of _ "Fin 0" "Fin 1"] by simp
    then show ?thesis using assms k False
      by (simp add: apply_drawdown_def effective_peak_def drawdown_penalty_def Let_def zero_f64_Fin
          one_f64_Fin)
  qed
qed

lemma drawdown_scaling_is_policy_witness:
  "apply_drawdown acc50k (Some (Fin 60000)) (Fin (1 / 2))
    = Fin (1 / 2) * drawdown_penalty (acc_equity acc50k) (Fin 60000)"
proof -
  have "fl (1 / 2) = Fin (1 / 2)" by code_simp
  then show ?thesis
    by (rule drawdown_scaling_is_policy [of "1 / 2" acc50k 50000]) (simp_all add: account_with_def)
qed

end
