(* ===== verification/RuntimeSafety.thy ===== *)
theory RuntimeSafety
  imports Prelude PyNum PyTime
begin

text \<open>
  \<^verbatim>\<open>risk/runtime_safety.py\<close>: the persisted safety state with its row codec and the boot
  decision, the hot-path error circuit, account freshness, and the consecutive-loss freeze.

  A row of the single-row store has text columns (NULL or text) and numeric columns, whose
  cells are NULL, an integer, a real, or text that no number can be read from (numeric text
  in a numeric column is a number for the store). The reader of ISO timestamps is the
  argument \<open>parse_iso\<close>, \<open>None\<close> for its \<open>ValueError\<close>.
\<close>

section \<open>The persisted state\<close>

definition RUNTIME_RISK_STATE_VERSION :: int where
  "RUNTIME_RISK_STATE_VERSION = 1"

datatype runtime_risk_state = RUNNING | HALTED | KILL_SWITCH | RS_DEGRADED

fun risk_state_value :: "runtime_risk_state \<Rightarrow> string" where
  "risk_state_value RUNNING = ''RUNNING''"
| "risk_state_value HALTED = ''HALTED''"
| "risk_state_value KILL_SWITCH = ''KILL_SWITCH''"
| "risk_state_value RS_DEGRADED = ''DEGRADED''"

definition PERSISTED_STATES :: "string list" where
  "PERSISTED_STATES = [''RUNNING'', ''HALTED'', ''KILL_SWITCH'']"

record persisted_risk_state =
  prs_state :: string
  prs_reason :: string
  prs_source :: string
  prs_triggered_at :: string
  prs_balance :: f64
  prs_equity :: f64
  prs_peak_equity :: f64
  prs_release_required :: bool
  prs_released_at :: "string option"
  prs_release_actor :: "string option"
  prs_consecutive_losses :: int
  prs_version :: int

definition mk_risk_state :: "persisted_risk_state \<Rightarrow> persisted_risk_state res" where
  "mk_risk_state s = (if prs_state s \<notin> set PERSISTED_STATES then raise ValueError else ret s)"

definition is_blocking :: "persisted_risk_state \<Rightarrow> bool" where
  "is_blocking s \<longleftrightarrow> prs_state s \<in> {''HALTED'', ''KILL_SWITCH''}"

datatype cell = CNull | CInt int | CReal f64 | CText string

record risk_row =
  row_version :: cell
  row_state :: "string option"
  row_reason :: "string option"
  row_source :: "string option"
  row_triggered_at :: "string option"
  row_balance :: cell
  row_equity :: cell
  row_peak_equity :: cell
  row_release_required :: cell
  row_released_at :: "string option"
  row_release_actor :: "string option"
  row_consecutive_losses :: cell

definition to_row :: "persisted_risk_state \<Rightarrow> risk_row" where
  "to_row s = \<lparr>row_version = CInt (prs_version s), row_state = Some (prs_state s),
     row_reason = Some (prs_reason s), row_source = Some (prs_source s),
     row_triggered_at = Some (prs_triggered_at s), row_balance = CReal (prs_balance s),
     row_equity = CReal (prs_equity s), row_peak_equity = CReal (prs_peak_equity s),
     row_release_required = CInt (if prs_release_required s then 1 else 0),
     row_released_at = prs_released_at s, row_release_actor = prs_release_actor s,
     row_consecutive_losses = CInt (prs_consecutive_losses s)\<rparr>"

text \<open>\<^verbatim>\<open>str(get(k, "") or "")\<close>, \<^verbatim>\<open>float(get(k, 0.0) or 0.0)\<close> with its handler,
  \<^verbatim>\<open>int(get(k, d) or d)\<close> with its handler (an infinite real raises past it), \<^verbatim>\<open>bool(get(k, 1))\<close>.\<close>

definition text_of :: "string option \<Rightarrow> string" where
  "text_of c = (case c of None \<Rightarrow> '''' | Some s \<Rightarrow> s)"

fun float_of_cell :: "cell \<Rightarrow> f64" where
  "float_of_cell CNull = 0"
| "float_of_cell (CInt n) = float_of_int n"
| "float_of_cell (CReal x) = x"
| "float_of_cell (CText s) = 0"

fun int_of_cell :: "int \<Rightarrow> cell \<Rightarrow> int res" where
  "int_of_cell d CNull = ret d"
| "int_of_cell d (CInt n) = ret (if n = 0 then d else n)"
| "int_of_cell d (CReal x) =
     (case x of Fin r \<Rightarrow> ret (if r = 0 then d else truncq r)
      | NaN \<Rightarrow> ret d | _ \<Rightarrow> raise OverflowError)"
| "int_of_cell d (CText s) = ret d"

fun bool_of_cell :: "cell \<Rightarrow> bool" where
  "bool_of_cell CNull = False"
| "bool_of_cell (CInt n) = (n \<noteq> 0)"
| "bool_of_cell (CReal x) = (\<not> feq x 0)"
| "bool_of_cell (CText s) = (s \<noteq> [])"

definition from_row :: "risk_row option \<Rightarrow> persisted_risk_state option res" where
  "from_row row =
     (case row of None \<Rightarrow> ret None
      | Some r \<Rightarrow>
        let st = text_of (row_state r) in
        if st = [] then ret None
        else bindR (int_of_cell RUNTIME_RISK_STATE_VERSION (row_version r)) (\<lambda>version.
             bindR (int_of_cell 0 (row_consecutive_losses r)) (\<lambda>losses.
               ret (Some \<lparr>prs_state = st, prs_reason = text_of (row_reason r),
                 prs_source = text_of (row_source r),
                 prs_triggered_at = text_of (row_triggered_at r),
                 prs_balance = float_of_cell (row_balance r),
                 prs_equity = float_of_cell (row_equity r),
                 prs_peak_equity = float_of_cell (row_peak_equity r),
                 prs_release_required = bool_of_cell (row_release_required r),
                 prs_released_at = row_released_at r, prs_release_actor = row_release_actor r,
                 prs_consecutive_losses = max 0 losses, prs_version = version\<rparr>))))"

text \<open>The detail text is kept as its parts.\<close>

datatype boot_detail =
    NO_PERSISTED_STATE | NO_DETAIL | PERSISTED string string string | UNKNOWN_PERSISTED_STATE string
  | PERSISTED_STATE_READ_FAILED

record boot_decision =
  trading_allowed :: bool
  boot_state :: string
  boot_detail :: boot_detail

definition resolve_boot_decision :: "persisted_risk_state option \<Rightarrow> boot_decision" where
  "resolve_boot_decision row =
     (case row of
        None \<Rightarrow> \<lparr>trading_allowed = True, boot_state = ''RUNNING'', boot_detail = NO_PERSISTED_STATE\<rparr>
      | Some r \<Rightarrow>
          if prs_state r = ''RUNNING'' then
            \<lparr>trading_allowed = True, boot_state = ''RUNNING'', boot_detail = NO_DETAIL\<rparr>
          else if prs_state r \<in> {''HALTED'', ''KILL_SWITCH''} then
            \<lparr>trading_allowed = False, boot_state = prs_state r,
             boot_detail = PERSISTED (prs_state r)
               (if prs_reason r = [] then ''reason not recorded'' else prs_reason r)
               (if prs_triggered_at r = [] then ''NOT_RECORDED'' else prs_triggered_at r)\<rparr>
          else \<lparr>trading_allowed = False, boot_state = prs_state r,
                boot_detail = UNKNOWN_PERSISTED_STATE (prs_state r)\<rparr>)"

section \<open>The hot-path error circuit\<close>

record error_circuit =
  max_consecutive_errors :: int
  error_window_sec :: f64
  consecutive_error_count :: int
  error_window_start :: f64
  last_error_at :: f64
  last_error_type :: string
  total_errors :: int

definition mk_circuit :: "int \<Rightarrow> f64 \<Rightarrow> error_circuit res" where
  "mk_circuit n w =
     (if n < 1 then raise ValueError else if w \<le> 0 then raise ValueError
      else ret \<lparr>max_consecutive_errors = n, error_window_sec = w, consecutive_error_count = 0,
        error_window_start = 0, last_error_at = 0, last_error_type = '''', total_errors = 0\<rparr>)"

definition is_tripped :: "error_circuit \<Rightarrow> f64 \<Rightarrow> bool" where
  "is_tripped c now =
     (if consecutive_error_count c < max_consecutive_errors c then False
      else now - error_window_start c \<le> error_window_sec c)"

definition record_error :: "error_circuit \<Rightarrow> f64 \<Rightarrow> string option \<Rightarrow> bool \<times> error_circuit" where
  "record_error c now exc =
     (let c = (if consecutive_error_count c \<le> 0 \<or> error_window_sec c < now - last_error_at c
               then c\<lparr>error_window_start := now, consecutive_error_count := 0\<rparr> else c);
          c = c\<lparr>consecutive_error_count := consecutive_error_count c + 1, last_error_at := now,
                last_error_type := (case exc of None \<Rightarrow> ''UnknownError'' | Some n \<Rightarrow> n),
                total_errors := total_errors c + 1\<rparr>
      in (is_tripped c now, c))"

definition record_success :: "error_circuit \<Rightarrow> f64 \<Rightarrow> error_circuit" where
  "record_success c now =
     (if 0 < consecutive_error_count c \<and> error_window_sec c \<le> now - last_error_at c
      then c\<lparr>consecutive_error_count := 0\<rparr> else c)"

definition window_remaining_sec :: "error_circuit \<Rightarrow> f64 \<Rightarrow> f64" where
  "window_remaining_sec c now =
     (let remaining = error_window_sec c - (now - error_window_start c)
      in if 0 < consecutive_error_count c then pmax 0 remaining else 0)"

definition circuit_reset :: "error_circuit \<Rightarrow> error_circuit" where
  "circuit_reset c = c\<lparr>consecutive_error_count := 0, error_window_start := 0, last_error_at := 0,
     last_error_type := ''''\<rparr>"

datatype hot_path_event = HotError f64 "string option" | HotSuccess f64

fun circuit_step :: "error_circuit \<Rightarrow> hot_path_event \<Rightarrow> error_circuit" where
  "circuit_step c (HotError now exc) = snd (record_error c now exc)"
| "circuit_step c (HotSuccess now) = record_success c now"

section \<open>Account freshness and the loss freeze\<close>

datatype account_freshness = FRESH | STALE | MISSING

definition classify_account_freshness :: "bool \<Rightarrow> f64 \<Rightarrow> f64 \<Rightarrow> f64 \<Rightarrow> account_freshness" where
  "classify_account_freshness has_snapshot last_success_refresh now max_age_sec =
     (if \<not> has_snapshot \<or> last_success_refresh \<le> 0 then MISSING
      else if max_age_sec < now - last_success_refresh then STALE else FRESH)"

text \<open>The outcome column is \<open>None\<close> when it cannot be read as a number.\<close>

fun losses_loop :: "int \<Rightarrow> f64 option list \<Rightarrow> int" where
  "losses_loop count [] = count"
| "losses_loop count (None # rows) = count"
| "losses_loop count (Some v # rows) = (if v < 0 then losses_loop (count + 1) rows else count)"

definition evaluate_consecutive_losses :: "(string \<times> f64 option) list \<Rightarrow> int \<times> string" where
  "evaluate_consecutive_losses rows = (losses_loop 0 (map snd rows), '''')"

fun timed_losses_loop ::
  "int \<Rightarrow> string \<Rightarrow> (string \<times> f64 option \<times> string option) list \<Rightarrow> int \<times> string" where
  "timed_losses_loop count ts [] = (count, ts)"
| "timed_losses_loop count ts ((_, None, _) # rows) = (count, ts)"
| "timed_losses_loop count ts ((_, Some v, close_time) # rows) =
     (if v < 0 then timed_losses_loop (count + 1) (if ts = [] then text_of close_time else ts) rows
      else (count, ts))"

definition evaluate_consecutive_losses_with_time ::
  "(string \<times> f64 option \<times> string option) list \<Rightarrow> int \<times> string" where
  "evaluate_consecutive_losses_with_time rows = timed_losses_loop 0 '''' rows"

text \<open>A trailing \<open>Z\<close> is rewritten to \<open>+00:00\<close>.\<close>

definition normalize_zulu :: "string \<Rightarrow> string" where
  "normalize_zulu s = (let ts = strip s in
     if ts \<noteq> [] \<and> last ts = CHR ''Z'' then butlast ts @ ''+00:00'' else ts)"

definition evaluate_consecutive_loss_freeze ::
  "(string \<Rightarrow> py_datetime option) \<Rightarrow> int \<Rightarrow> string \<Rightarrow> py_datetime \<Rightarrow> int \<Rightarrow> f64 \<Rightarrow> bool" where
  "evaluate_consecutive_loss_freeze parse_iso losses last_loss_close_time now threshold freeze_hours =
     (if losses < threshold then False
      else if freeze_hours \<le> 0 then True
      else if last_loss_close_time = [] then True
      else case parse_iso (normalize_zulu last_loss_close_time) of
        None \<Rightarrow> True
      | Some t \<Rightarrow> total_seconds (instant now - instant (assume_utc t)) < freeze_hours * Fin 3600)"

section \<open>Lemmas\<close>

definition persistable :: "persisted_risk_state \<Rightarrow> bool" where
  "persistable s \<longleftrightarrow> prs_state s \<in> set PERSISTED_STATES \<and> prs_version s \<noteq> 0
     \<and> 0 \<le> prs_consecutive_losses s"

lemma from_to_row: "persistable s \<Longrightarrow> from_row (Some (to_row s)) = Inr (Some s)"
  by (auto simp: persistable_def from_row_def to_row_def text_of_def PERSISTED_STATES_def Let_def
      ret_def)

lemma boot_allowed_iff:
  "trading_allowed (resolve_boot_decision row) \<longleftrightarrow>
     row = None \<or> (\<exists>r. row = Some r \<and> prs_state r = ''RUNNING'')"
  by (cases row) (auto simp: resolve_boot_decision_def)

text \<open>
  A stretch of events without a quiet window: no event finds the last error a full window ago.
\<close>

fun no_quiet_window :: "error_circuit \<Rightarrow> hot_path_event list \<Rightarrow> bool" where
  "no_quiet_window c [] = True"
| "no_quiet_window c (HotError t exc # es) =
     (\<not> error_window_sec c < t - last_error_at c \<and> no_quiet_window (snd (record_error c t exc)) es)"
| "no_quiet_window c (HotSuccess t # es) =
     (\<not> error_window_sec c \<le> t - last_error_at c \<and> no_quiet_window c es)"

definition errors_in :: "hot_path_event list \<Rightarrow> nat" where
  "errors_in es = length (filter (\<lambda>e. case e of HotError _ _ \<Rightarrow> True | _ \<Rightarrow> False) es)"

lemma record_error_in_window:
  assumes "0 < consecutive_error_count c" "\<not> error_window_sec c < t - last_error_at c"
  shows "snd (record_error c t exc) = c\<lparr>consecutive_error_count := consecutive_error_count c + 1,
    last_error_at := t, last_error_type := (case exc of None \<Rightarrow> ''UnknownError'' | Some n \<Rightarrow> n),
    total_errors := total_errors c + 1\<rparr>"
  using assms by (simp add: record_error_def Let_def)

lemma no_quiet_window_run:
  assumes "0 < consecutive_error_count c" "no_quiet_window c es"
  shows "error_window_start (run circuit_step c es) = error_window_start c
    \<and> consecutive_error_count (run circuit_step c es) = consecutive_error_count c + int (errors_in es)
    \<and> error_window_sec (run circuit_step c es) = error_window_sec c
    \<and> max_consecutive_errors (run circuit_step c es) = max_consecutive_errors c"
  using assms
proof (induction es arbitrary: c)
  case (Cons e es)
  show ?case
  proof (cases e)
    case (HotError t exc)
    then have g: "\<not> error_window_sec c < t - last_error_at c" using Cons.prems by simp
    show ?thesis using Cons.IH [of "snd (record_error c t exc)"] Cons.prems HotError
      by (simp add: record_error_in_window [OF Cons.prems(1) g] errors_in_def)
  next
    case (HotSuccess t)
    then have "record_success c t = c" using Cons.prems by (simp add: record_success_def)
    then show ?thesis using Cons HotSuccess by (simp add: errors_in_def)
  qed
qed (simp add: errors_in_def)

lemma losses_loop_takeWhile:
  "losses_loop n rows =
     n + int (length (takeWhile (\<lambda>x. \<exists>v. x = Some v \<and> v < 0) rows))"
  by (induction n rows rule: losses_loop.induct) auto

lemma timed_losses_count:
  "fst (timed_losses_loop n ts rows) = losses_loop n (map (fst \<circ> snd) rows)"
  by (induction n ts rows rule: timed_losses_loop.induct) auto

section \<open>Properties\<close>

definition halted_state :: persisted_risk_state where
  "halted_state = \<lparr>prs_state = ''HALTED'', prs_reason = ''drawdown'', prs_source = ''engine'',
     prs_triggered_at = ''2026-01-01T00:00:00+00:00'', prs_balance = Fin 1000, prs_equity = Fin 900,
     prs_peak_equity = Fin 1100, prs_release_required = True, prs_released_at = None,
     prs_release_actor = None, prs_consecutive_losses = 3, prs_version = 1\<rparr>"

text \<open>the boot decision fails closed: trading is allowed only without a persisted row or for
  the state RUNNING, or for a row whose state column is NULL or empty, which reads as no row; no unknown state
  text can enable it.\<close>

lemma boot_fails_closed:
  assumes "from_row row = Inr st"
  shows "trading_allowed (resolve_boot_decision st) \<longleftrightarrow>
    (case row of None \<Rightarrow> True
     | Some r \<Rightarrow> row_state r \<in> {None, Some [], Some ''RUNNING''})"
  using assms unfolding boot_allowed_iff
  by (auto simp: from_row_def text_of_def bindR_eq_Inr Let_def split: option.splits if_splits)

lemma boot_fails_closed_witness:
  "\<not> trading_allowed (resolve_boot_decision (Some (halted_state\<lparr>prs_state := ''PAUSED''\<rparr>)))"
proof -
  let ?s = "halted_state\<lparr>prs_state := ''PAUSED''\<rparr>"
  have r: "from_row (Some (to_row ?s)) = Inr (Some ?s)"
    by (simp add: from_row_def to_row_def text_of_def halted_state_def ret_def)
  show ?thesis using boot_fails_closed [OF r] by (simp add: to_row_def)
qed

text \<open>from a first error on, and as long as no full window passes quietly, successes hide
  nothing: the circuit is open exactly when the errors have reached the limit and at most one
  window has passed since the first one. In particular it closes again in a continuing error
  storm that outlasts the window, and no further error of that storm, however many come, can
  open it.\<close>

lemma circuit_open_iff:
  assumes "0 < consecutive_error_count c" "no_quiet_window c es"
  shows "is_tripped (run circuit_step c es) now \<longleftrightarrow>
      max_consecutive_errors c \<le> consecutive_error_count c + int (errors_in es)
    \<and> now - error_window_start c \<le> error_window_sec c"
  using no_quiet_window_run [OF assms] by (auto simp: is_tripped_def)

definition storm_circuit :: error_circuit where
  "storm_circuit = \<lparr>max_consecutive_errors = 2, error_window_sec = Fin 600,
     consecutive_error_count = 1, error_window_start = Fin 0, last_error_at = Fin 0,
     last_error_type = ''OSError'', total_errors = 1\<rparr>"

lemma circuit_open_iff_witness:
  "is_tripped (run circuit_step storm_circuit [HotError (Fin 500) None, HotSuccess (Fin 501)]) (Fin 501)
   \<and> \<not> is_tripped (run circuit_step storm_circuit
        [HotError (Fin 500) None, HotSuccess (Fin 501), HotError (Fin 1000) None]) (Fin 1000)"
proof -
  have p: "0 < consecutive_error_count storm_circuit" by (simp add: storm_circuit_def)
  have "no_quiet_window storm_circuit [HotError (Fin 500) None, HotSuccess (Fin 501)]"
    "no_quiet_window storm_circuit
        [HotError (Fin 500) None, HotSuccess (Fin 501), HotError (Fin 1000) None]"
    by (simp_all add: storm_circuit_def record_error_def minus_f64_def Let_def)
  from this [THEN circuit_open_iff [OF p]] show ?thesis
    by (simp add: storm_circuit_def errors_in_def minus_f64_def)
qed

text \<open>the consecutive-loss chain of newest-first outcomes is the longest prefix of readable
  losses: a win, a scratch or an unreadable outcome ends it, with or without close times.\<close>

lemma loss_chain_is_prefix:
  "fst (evaluate_consecutive_losses rows)
      = int (length (takeWhile (\<lambda>r. \<exists>v. snd r = Some v \<and> v < 0) rows))
   \<and> fst (evaluate_consecutive_losses_with_time trows)
      = int (length (takeWhile (\<lambda>r. \<exists>v. fst (snd r) = Some v \<and> v < 0) trows))"
  by (simp add: evaluate_consecutive_losses_def evaluate_consecutive_losses_with_time_def
      timed_losses_count losses_loop_takeWhile takeWhile_map comp_def)

text \<open>an unknown newest loss time does not freeze. When the newest loss has no close time, the
  time of an older loss of the chain stands in for it, so a chain that reaches the threshold
  is released by the age of that older loss, for every reader of timestamps.\<close>

lemma older_loss_time_releases_freeze:
  assumes "pnl < 0" "pnl' < 0" "ct \<noteq> []" "parse_iso (normalize_zulu ct) = Some t"
    "\<not> total_seconds (instant now - instant (assume_utc t)) < freeze_hours * Fin 3600"
    "\<not> freeze_hours \<le> 0"
  shows "case evaluate_consecutive_losses_with_time
             ((st, Some pnl, None) # (st', Some pnl', Some ct) # []) of
           (n, ts) \<Rightarrow> n = 2 \<and> \<not> evaluate_consecutive_loss_freeze parse_iso n ts now 2 freeze_hours"
  using assms
  by (simp add: evaluate_consecutive_losses_with_time_def evaluate_consecutive_loss_freeze_def
      text_of_def)

lemma older_loss_time_releases_freeze_witness:
  "case evaluate_consecutive_losses_with_time
       ((''L'', Some (- Fin 1), None) # (''L'', Some (- Fin 1), Some ''2026-01-01'') # []) of
     (n, ts) \<Rightarrow> n = 2 \<and> \<not> evaluate_consecutive_loss_freeze (\<lambda>_. Some (utc 0)) n ts
        (utc 86400000000) 2 (Fin 1)"
proof -
  have "\<not> total_seconds (instant (utc 86400000000) - instant (assume_utc (utc 0))) < Fin 1 * Fin 3600"
    by code_simp
  then show ?thesis
    using older_loss_time_releases_freeze [of "- Fin 1" "- Fin 1" "''2026-01-01''" "\<lambda>_. Some (utc 0)"
        "utc 0" "utc 86400000000" "Fin 1" "''L''" "''L''"]
    by (simp add: zero_f64_Fin)
qed

end
