(* ===== verification/DecisionDedup.thy ===== *)
theory DecisionDedup
  imports Prelude Domain "HOL-Library.Mapping" "HOL-Library.List_Lexorder" "HOL-Library.Char_ord"
begin

text \<open>
  \<^verbatim>\<open>signals/decision_dedup.py\<close>: the identity of a decision and the state-aware suppression of
  replayed decisions. The SHA-256 hex digest is the argument \<open>sha256\<close>; readings of the
  monotonic clock are arguments of the operations, in the order the code takes them; the
  answer of the order manager is an argument of its own type.
\<close>

section \<open>The fingerprint\<close>

definition is_actionable :: "trade_proposal \<Rightarrow> bool" where
  "is_actionable p =
     (if action_value (p_action p) \<in> {''NO_TRADE'', ''WAIT''} then False
      else let stage = (case p_decision_stage p of None \<Rightarrow> '''' | Some s \<Rightarrow> s) in
        if stage \<in> {''DEDUP_GATE'', ''SHADOW_OBSERVATION_ONLY''} \<or> prefix_of ''BLOCKED'' stage
        then False
        else (case p_blocked_by p of None \<Rightarrow> True | Some s \<Rightarrow> s = []))"

definition DEFAULT_PRICE_EPSILON :: f64 where
  "DEFAULT_PRICE_EPSILON = fl (1 / 1000000)"

definition quantize_price :: "f64 \<Rightarrow> f64 option \<Rightarrow> f64 res" where
  "quantize_price price tick_size =
     (if \<not> isfinite price \<or> price \<le> 0 then ret price
      else let step = (case tick_size of Some ts \<Rightarrow> if 0 < ts then ts else DEFAULT_PRICE_EPSILON
                       | None \<Rightarrow> DEFAULT_PRICE_EPSILON)
        in bindR (floor64 (price / step + Fin (1 / 2))) (\<lambda>k. ret (float_of_int k * step)))"

fun join :: "string \<Rightarrow> string list \<Rightarrow> string" where
  "join sep [] = []"
| "join sep [s] = s"
| "join sep (s # t # ss) = s @ sep @ join sep (t # ss)"

definition revision_of :: "string option \<Rightarrow> string" where
  "revision_of r = (case r of None \<Rightarrow> ''UNSPECIFIED'' | Some s \<Rightarrow> if s = [] then ''UNSPECIFIED'' else s)"

definition reversal_of :: "trade_proposal \<Rightarrow> string" where
  "reversal_of p = (case p_reversal_action p of None \<Rightarrow> [] | Some a \<Rightarrow> upper (action_value a))"

text \<open>The parts of the identity, after the prices have been snapped to the tick grid.\<close>

definition identity_parts ::
  "trade_proposal \<Rightarrow> f64 \<Rightarrow> f64 \<Rightarrow> f64 \<Rightarrow> string option \<Rightarrow> string list" where
  "identity_parts p entry stop target revision =
     [''v1'', upper (p_symbol p), upper (action_value (p_action p)),
      ''E='' @ fmt_fixed 10 entry, ''S='' @ fmt_fixed 10 stop, ''T='' @ fmt_fixed 10 target,
      ''TICKET='' @ show_int (p_ticket p),
      ''V='' @ fmt_fixed 8 (case p_volume p of None \<Rightarrow> 0 | Some v \<Rightarrow> v),
      ''REV='' @ revision_of revision]
     @ (if reversal_of p = [] then [] else [''FLIP='' @ reversal_of p])"

definition identity_text :: "trade_proposal \<Rightarrow> f64 option \<Rightarrow> string option \<Rightarrow> string res" where
  "identity_text p tick_size revision =
     bindR (quantize_price (p_proposed_entry p) tick_size) (\<lambda>entry.
     bindR (quantize_price (p_stop_loss p) tick_size) (\<lambda>stop.
     bindR (quantize_price (p_take_profit p) tick_size) (\<lambda>target.
       ret (join ''|'' (identity_parts p entry stop target revision)))))"

definition decision_fingerprint ::
  "(string \<Rightarrow> string) \<Rightarrow> trade_proposal \<Rightarrow> f64 option \<Rightarrow> string option \<Rightarrow> string option res" where
  "decision_fingerprint sha256 p tick_size revision =
     (if \<not> is_actionable p then ret None
      else bindR (identity_text p tick_size revision) (\<lambda>raw. ret (Some (take 32 (sha256 raw)))))"

section \<open>The guard\<close>

record dedup_entry =
  de_fingerprint :: string
  de_first_proposal :: trade_proposal
  de_suppressed_count :: int
  de_last_suppressed_at :: f64
  de_signature :: string

record dedup_verdict =
  dv_duplicate :: bool
  dv_fingerprint :: "string option"
  dv_reason :: "string option"
  dv_suppressed_count :: int

record dedup_state =
  dd_entries :: "(string, dedup_entry) mapping"
  dd_max_idle_sec :: f64
  dd_total_suppressed :: int
  dd_replays :: int

text \<open>The only reason ever counted is \<^verbatim>\<open>DEDUP_REPLAY\<close>; \<open>dd_replays\<close> is its counter.\<close>

definition dedup_init :: "f64 option \<Rightarrow> dedup_state" where
  "dedup_init max_idle = \<lparr>dd_entries = Mapping.empty,
     dd_max_idle_sec = (case max_idle of Some m \<Rightarrow> if 0 < m then m else Fin 300 | None \<Rightarrow> Fin 300),
     dd_total_suppressed = 0, dd_replays = 0\<rparr>"

text \<open>A live ticket is its number and type, or malformed.\<close>

datatype order_manager = NoManager | FailingManager | LiveTickets "(int \<times> string) option list"

definition broker_state_signature :: "order_manager \<Rightarrow> string" where
  "broker_state_signature om =
     (case om of
        NoManager \<Rightarrow> []
      | FailingManager \<Rightarrow> []
      | LiveTickets ts \<Rightarrow>
          join '','' (sort (map (\<lambda>(t, ty). show_int t @ '':'' @ ty) (List.map_filter id ts))))"

definition new_entry :: "string \<Rightarrow> trade_proposal \<Rightarrow> f64 \<Rightarrow> string \<Rightarrow> dedup_entry" where
  "new_entry fp p clock sig = \<lparr>de_fingerprint = fp, de_first_proposal = p, de_suppressed_count = 0,
     de_last_suppressed_at = clock, de_signature = sig\<rparr>"

definition fresh_verdict :: "string option \<Rightarrow> dedup_verdict" where
  "fresh_verdict fp = \<lparr>dv_duplicate = False, dv_fingerprint = fp, dv_reason = None,
     dv_suppressed_count = 0\<rparr>"

text \<open>The locked section of \<^verbatim>\<open>check\<close>; \<open>now\<close> and \<open>later\<close> are the two clock readings.\<close>

definition check_identity ::
  "dedup_state \<Rightarrow> trade_proposal \<Rightarrow> string \<Rightarrow> string \<Rightarrow> f64 \<Rightarrow> f64 \<Rightarrow> dedup_verdict \<times> dedup_state" where
  "check_identity d p fp sig now later =
     (case Mapping.lookup (dd_entries d) fp of
        None \<Rightarrow> (fresh_verdict (Some fp),
                 d\<lparr>dd_entries := Mapping.update fp (new_entry fp p now sig) (dd_entries d)\<rparr>)
      | Some e \<Rightarrow>
          if de_signature e \<noteq> sig then
            (fresh_verdict (Some fp),
             d\<lparr>dd_entries := Mapping.update fp
                 (e\<lparr>de_signature := sig, de_first_proposal := p, de_suppressed_count := 0\<rparr>)
                 (dd_entries d)\<rparr>)
          else if dd_max_idle_sec d < now - de_last_suppressed_at e then
            (fresh_verdict (Some fp),
             d\<lparr>dd_entries := Mapping.update fp (new_entry fp p later sig) (dd_entries d)\<rparr>)
          else
            (let e = e\<lparr>de_suppressed_count := de_suppressed_count e + 1,
                       de_last_suppressed_at := later\<rparr> in
             (\<lparr>dv_duplicate = True, dv_fingerprint = Some fp, dv_reason = Some ''DEDUP_REPLAY'',
               dv_suppressed_count = de_suppressed_count e\<rparr>,
              d\<lparr>dd_entries := Mapping.update fp e (dd_entries d),
                dd_total_suppressed := dd_total_suppressed d + 1, dd_replays := dd_replays d + 1\<rparr>)))"

definition dedup_check ::
  "(string \<Rightarrow> string) \<Rightarrow> dedup_state \<Rightarrow> trade_proposal \<Rightarrow> f64 option \<Rightarrow> string option
     \<Rightarrow> order_manager \<Rightarrow> f64 \<Rightarrow> f64 \<Rightarrow> (dedup_verdict \<times> dedup_state) res" where
  "dedup_check sha256 d p tick_size revision om now later =
     bindR (decision_fingerprint sha256 p tick_size revision) (\<lambda>fp.
       ret (case fp of
          None \<Rightarrow> (fresh_verdict None, d)
        | Some fp \<Rightarrow> check_identity d p fp (broker_state_signature om) now later))"

definition dedup_forget :: "dedup_state \<Rightarrow> string option \<Rightarrow> dedup_state" where
  "dedup_forget d fp =
     (case fp of None \<Rightarrow> d
      | Some f \<Rightarrow> if f = [] then d else d\<lparr>dd_entries := Mapping.delete f (dd_entries d)\<rparr>)"

definition dedup_reset :: "dedup_state \<Rightarrow> dedup_state" where
  "dedup_reset d = d\<lparr>dd_entries := Mapping.empty, dd_total_suppressed := 0, dd_replays := 0\<rparr>"

definition dedup_snapshot :: "dedup_state \<Rightarrow> nat \<times> int \<times> int \<times> f64" where
  "dedup_snapshot d =
     (Mapping.size (dd_entries d), dd_total_suppressed d, dd_replays d, dd_max_idle_sec d)"

text \<open>What drives the guard.\<close>

datatype dedup_event = Check trade_proposal string string f64 f64 | Forget "string option" | Reset

fun dedup_step :: "dedup_state \<Rightarrow> dedup_event \<Rightarrow> dedup_state" where
  "dedup_step d (Check p fp sig now later) = snd (check_identity d p fp sig now later)"
| "dedup_step d (Forget fp) = dedup_forget d fp"
| "dedup_step d Reset = dedup_reset d"

section \<open>Lemmas: the identity text separates its parts\<close>

lemma split_at_char:
  "c \<notin> set p \<Longrightarrow> c \<notin> set q \<Longrightarrow> p @ c # r = q @ c # s \<Longrightarrow> p = q \<and> r = s"
proof (induction p arbitrary: q)
  case Nil
  then show ?case by (cases q) auto
next
  case (Cons a p)
  then show ?case by (cases q) auto
qed

lemma join_Cons: "ss \<noteq> [] \<Longrightarrow> join sep (s # ss) = s @ sep @ join sep ss"
  by (cases ss) auto

lemma join_inj:
  "xs \<noteq> [] \<Longrightarrow> ys \<noteq> [] \<Longrightarrow> \<forall>s \<in> set xs \<union> set ys. c \<notin> set s \<Longrightarrow> join [c] xs = join [c] ys \<Longrightarrow> xs = ys"
proof (induction xs arbitrary: ys)
  case (Cons x xs)
  obtain y ys' where y: "ys = y # ys'" using Cons.prems(2) by (cases ys) auto
  show ?case
  proof (cases "xs = []")
    case True
    have "ys' = []"
    proof (rule ccontr)
      assume "ys' \<noteq> []"
      then have "x = y @ c # join [c] ys'" using Cons.prems True y by (simp add: join_Cons)
      then show False using Cons.prems(3) by simp
    qed
    then show ?thesis using Cons.prems True y by simp
  next
    case False
    have "ys' \<noteq> []"
    proof
      assume "ys' = []"
      then have "y = x @ c # join [c] xs" using Cons.prems False y by (simp add: join_Cons)
      then show False using Cons.prems(3) y by simp
    qed
    then have "x @ c # join [c] xs = y @ c # join [c] ys'"
      using Cons.prems False y by (simp add: join_Cons)
    then have "x = y \<and> join [c] xs = join [c] ys'"
      using Cons.prems(3) y by (intro split_at_char) auto
    then show ?thesis using Cons.IH [of ys'] Cons.prems False \<open>ys' \<noteq> []\<close> y by simp
  qed
qed simp

lemma digit_char_plain: "0 \<le> d \<Longrightarrow> d < 10 \<Longrightarrow> digit_char d \<noteq> CHR ''|'' \<and> digit_char d \<noteq> CHR ''-''"
proof -
  assume "0 \<le> d" "d < 10"
  then have v: "digit_val (digit_char d) = Some d" by simp
  have "digit_val (CHR ''|'') = None" "digit_val (CHR ''-'') = None" by code_simp+
  then show ?thesis using v by (metis option.distinct(1))
qed

lemma show_dec_plain:
  assumes "0 \<le> n" "c \<in> set (show_dec n)"
  shows "c \<noteq> CHR ''|'' \<and> c \<noteq> CHR ''-''"
proof -
  obtain e where "0 \<le> e" "e < 10" "c = digit_char e" using show_dec_digits [OF assms(1)] assms(2) by blast
  then show ?thesis using digit_char_plain by simp
qed

lemma bar_not_in_show_int [simp]: "CHR ''|'' \<notin> set (show_int n)"
  using show_dec_plain [of n "CHR ''|''"] show_dec_plain [of "- n" "CHR ''|''"]
  by (auto simp: show_int_def)

lemma bar_not_in_fmt [simp]: "CHR ''|'' \<notin> set (fmt_fixed n x)"
proof (cases x)
  case (Fin r)
  have d: "CHR ''|'' \<notin> set (show_dec k)" if "0 \<le> k" for k
    using show_dec_plain [OF that] by blast
  then have z: "CHR ''|'' \<notin> set (zfill w (show_dec k))" if "0 \<le> k" for w k
    using that by (auto simp: zfill_def)
  have "0 \<le> rhe (\<bar>r\<bar> * 10 ^ n)" by (intro rhe_ge) simp
  then have "0 \<le> rhe (\<bar>r\<bar> * 10 ^ n) div 10 ^ n" "0 \<le> rhe (\<bar>r\<bar> * 10 ^ n) mod 10 ^ n"
    by (simp_all add: pos_imp_zdiv_nonneg_iff)
  then show ?thesis using d z unfolding Fin fmt_fixed.simps Let_def by auto
qed auto

definition all_actions :: "action_type list" where
  "all_actions = [WAIT, NO_TRADE, A_BUY, A_SELL, BUY_MARKET, SELL_MARKET, A_BUY_LIMIT, A_SELL_LIMIT,
     A_BUY_STOP, A_SELL_STOP, CLOSE_POSITION, PARTIAL_CLOSE, MODIFY_SL_TP, CANCEL_ORDER]"

lemma all_actions: "a \<in> set all_actions"
  by (cases a) (simp_all add: all_actions_def)

lemma upper_action [simp]: "upper (action_value a) = action_value a"
proof -
  have "\<forall>a \<in> set all_actions. upper (action_value a) = action_value a" by code_simp
  then show ?thesis using all_actions by blast
qed

lemma bar_not_in_action [simp]: "CHR ''|'' \<notin> set (action_value a)"
  by (cases a) simp_all

lemma action_value_inj: "action_value a = action_value b \<Longrightarrow> a = b"
proof -
  have "distinct (map action_value all_actions)" by code_simp
  then have "inj_on action_value (set all_actions)" by (simp add: distinct_map)
  then show "action_value a = action_value b \<Longrightarrow> a = b" using all_actions by (auto dest: inj_onD)
qed

lemma show_dec_inj: "0 \<le> m \<Longrightarrow> 0 \<le> n \<Longrightarrow> show_dec m = show_dec n \<Longrightarrow> m = n"
  by (metis digits_val_show_dec option.inject)

lemma show_int_inj: "show_int m = show_int n \<Longrightarrow> m = n"
proof -
  have minus: "CHR ''-'' # s \<noteq> show_dec k" if "0 \<le> k" for s k
    using show_dec_plain [OF that, of "CHR ''-''"] by (metis list.set_intros(1))
  assume eq: "show_int m = show_int n"
  consider "m < 0" "n < 0" | "0 \<le> m" "0 \<le> n" | "m < 0" "0 \<le> n" | "0 \<le> m" "n < 0" by linarith
  then show "m = n"
  proof cases
    case 1
    then have "show_dec (- m) = show_dec (- n)" using eq by (simp add: show_int_def)
    then show ?thesis using show_dec_inj [of "- m" "- n"] 1 by linarith
  next
    case 2
    then have "show_dec m = show_dec n" using eq by (simp add: show_int_def)
    then show ?thesis by (rule show_dec_inj [OF 2])
  next
    case 3
    then have "CHR ''-'' # show_dec (- m) = show_dec n" using eq by (simp add: show_int_def)
    then show ?thesis using minus 3 by blast
  next
    case 4
    then have "CHR ''-'' # show_dec (- n) = show_dec m" using eq by (simp add: show_int_def)
    then show ?thesis using minus 4 by blast
  qed
qed

lemma identity_parts_inj:
  assumes "identity_parts p a b c r = identity_parts q a' b' c' r'"
  shows "upper (p_symbol p) = upper (p_symbol q)" "p_action p = p_action q"
    "fmt_fixed 10 a = fmt_fixed 10 a'" "fmt_fixed 10 b = fmt_fixed 10 b'" "fmt_fixed 10 c = fmt_fixed 10 c'"
    "p_ticket p = p_ticket q" "revision_of r = revision_of r'" "reversal_of p = reversal_of q"
  using assms unfolding identity_parts_def
  by (auto dest: action_value_inj show_int_inj split: if_splits)

section \<open>Lemmas: the guard\<close>

lemma check_identity_duplicate_iff:
  "dv_duplicate (fst (check_identity d p fp sig now later)) \<longleftrightarrow>
     (\<exists>e. Mapping.lookup (dd_entries d) fp = Some e \<and> de_signature e = sig
        \<and> \<not> dd_max_idle_sec d < now - de_last_suppressed_at e)"
  by (simp add: check_identity_def fresh_verdict_def Let_def split: option.splits)

lemma check_identity_frame:
  "fp' \<noteq> fp \<Longrightarrow> Mapping.lookup (dd_entries (snd (check_identity d p fp sig now later))) fp'
     = Mapping.lookup (dd_entries d) fp'"
  "dd_max_idle_sec (snd (check_identity d p fp sig now later)) = dd_max_idle_sec d"
  by (simp_all add: check_identity_def Let_def lookup_update' split: option.splits)

text \<open>After a check the identity is remembered under the signature it was checked with.\<close>

lemma check_identity_entry:
  "\<exists>e. Mapping.lookup (dd_entries (snd (check_identity d p fp sig now later))) fp = Some e
     \<and> de_signature e = sig"
  by (simp add: check_identity_def new_entry_def Let_def split: option.splits)

lemma check_identity_clock:
  assumes "case Mapping.lookup (dd_entries d) fp of None \<Rightarrow> True | Some e \<Rightarrow> de_signature e = sig"
  shows "\<exists>e. Mapping.lookup (dd_entries (snd (check_identity d p fp sig now later))) fp = Some e
     \<and> de_signature e = sig \<and> de_last_suppressed_at e \<in> {now, later}"
  using assms by (simp add: check_identity_def new_entry_def Let_def split: option.splits)

lemma forget_lookup:
  "Mapping.lookup (dd_entries (dedup_forget d f)) fp = Some e \<Longrightarrow> Mapping.lookup (dd_entries d) fp = Some e"
proof -
  have del: "Mapping.lookup m fp = Some e" if "Mapping.lookup (Mapping.delete k m) fp = Some e" for k m
    using that by (cases "k = fp") (simp_all add: lookup_delete lookup_delete_neq)
  assume l: "Mapping.lookup (dd_entries (dedup_forget d f)) fp = Some e"
  show "Mapping.lookup (dd_entries d) fp = Some e"
  proof (cases "\<exists>k. f = Some k \<and> k \<noteq> []")
    case True
    then obtain k where "dd_entries (dedup_forget d f) = Mapping.delete k (dd_entries d)"
      by (auto simp: dedup_forget_def)
    then show ?thesis using l del [of k "dd_entries d"] by simp
  next
    case False
    then have "dedup_forget d f = d" by (auto simp: dedup_forget_def split: option.splits)
    then show ?thesis using l by simp
  qed
qed

interpretation dedup_guard: step_invariant dedup_step "dedup_init mi"
  "\<lambda>d. dd_total_suppressed d = dd_replays d \<and> 0 \<le> dd_replays d
     \<and> (\<forall>fp e. Mapping.lookup (dd_entries d) fp = Some e \<longrightarrow> de_fingerprint e = fp
          \<and> 0 \<le> de_suppressed_count e)"
proof
  let ?inv = "\<lambda>d. dd_total_suppressed d = dd_replays d \<and> 0 \<le> dd_replays d
     \<and> (\<forall>fp e. Mapping.lookup (dd_entries d) fp = Some e \<longrightarrow> de_fingerprint e = fp
          \<and> 0 \<le> de_suppressed_count e)"
  show "?inv (dedup_init mi)" by (simp add: dedup_init_def)
  show "?inv (dedup_step d e)" if inv: "?inv d" for d e
  proof (cases e)
    case (Check p fp sig now later)
    have "de_fingerprint x = f \<and> 0 \<le> de_suppressed_count x"
      if "Mapping.lookup (dd_entries (snd (check_identity d p fp sig now later))) f = Some x" for f x
    proof (cases "f = fp")
      case False
      then show ?thesis using that inv check_identity_frame(1) by simp
    next
      case True
      then show ?thesis using that inv
        by (cases "Mapping.lookup (dd_entries d) fp")
           (auto simp: check_identity_def new_entry_def Let_def split: if_splits)
    qed
    moreover have "dd_total_suppressed (snd (check_identity d p fp sig now later))
        = dd_replays (snd (check_identity d p fp sig now later))
      \<and> 0 \<le> dd_replays (snd (check_identity d p fp sig now later))"
      using inv by (simp add: check_identity_def Let_def split: option.splits)
    ultimately show ?thesis by (simp add: Check)
  next
    case (Forget f)
    have "dd_total_suppressed (dedup_forget d f) = dd_total_suppressed d"
      and "dd_replays (dedup_forget d f) = dd_replays d"
      by (simp_all add: dedup_forget_def split: option.splits)
    moreover have "de_fingerprint x = g \<and> 0 \<le> de_suppressed_count x"
      if "Mapping.lookup (dd_entries (dedup_forget d f)) g = Some x" for g x
      using inv forget_lookup [OF that] by blast
    ultimately show ?thesis using inv by (simp add: Forget)
  qed (simp add: dedup_reset_def)
qed

definition accepted_before :: "f64 option \<Rightarrow> dedup_event list \<Rightarrow> string \<Rightarrow> string \<Rightarrow> bool" where
  "accepted_before mi es fp sig \<longleftrightarrow>
     (\<exists>pre p now later post. es = pre @ Check p fp sig now later # post
        \<and> \<not> dv_duplicate (fst (check_identity (run dedup_step (dedup_init mi) pre) p fp sig now later)))"

lemma accepted_before_snoc: "accepted_before mi es fp sig \<Longrightarrow> accepted_before mi (es @ [e]) fp sig"
  unfolding accepted_before_def by (metis append.assoc append_Cons)

lemma remembered_was_accepted:
  "Mapping.lookup (dd_entries (run dedup_step (dedup_init mi) es)) fp = Some e
     \<Longrightarrow> accepted_before mi es fp (de_signature e)"
proof (induction es arbitrary: e rule: rev_induct)
  case Nil
  then show ?case by (simp add: dedup_init_def)
next
  case (snoc x es)
  let ?d = "run dedup_step (dedup_init mi) es"
  show ?case
  proof (cases x)
    case (Check p f sig now later)
    then have l: "Mapping.lookup (dd_entries (snd (check_identity ?d p f sig now later))) fp = Some e"
      using snoc.prems by (simp add: run_snoc)
    show ?thesis
    proof (cases "f = fp")
      case False
      then have "Mapping.lookup (dd_entries ?d) fp = Some e" using l check_identity_frame(1) by metis
      then show ?thesis using snoc.IH accepted_before_snoc by blast
    next
      case True
      then have sig: "de_signature e = sig" using l check_identity_entry [of ?d p f sig now later] by simp
      show ?thesis
      proof (cases "dv_duplicate (fst (check_identity ?d p f sig now later))")
        case False
        then show ?thesis unfolding accepted_before_def sig Check using True by blast
      next
        case True
        then obtain e' where "Mapping.lookup (dd_entries ?d) f = Some e'" "de_signature e' = sig"
          unfolding check_identity_duplicate_iff by blast
        then show ?thesis using snoc.IH [of e'] \<open>f = fp\<close> sig accepted_before_snoc by simp
      qed
    qed
  next
    case (Forget f)
    then have "Mapping.lookup (dd_entries (dedup_forget ?d f)) fp = Some e"
      using snoc.prems by (simp add: run_snoc)
    then have "Mapping.lookup (dd_entries ?d) fp = Some e" by (rule forget_lookup)
    then show ?thesis using snoc.IH accepted_before_snoc by blast
  next
    case Reset
    then show ?thesis using snoc.prems by (simp add: run_snoc dedup_reset_def)
  qed
qed

section \<open>Properties\<close>

definition same_intent :: "trade_proposal \<Rightarrow> trade_proposal \<Rightarrow> bool" where
  "same_intent p q \<longleftrightarrow> p_symbol p = p_symbol q \<and> p_action p = p_action q
     \<and> p_proposed_entry p = p_proposed_entry q \<and> p_stop_loss p = p_stop_loss q
     \<and> p_take_profit p = p_take_profit q \<and> p_ticket p = p_ticket q \<and> p_volume p = p_volume q
     \<and> p_reversal_action p = p_reversal_action q \<and> p_decision_stage p = p_decision_stage q
     \<and> p_blocked_by p = p_blocked_by q"

lemma same_intent_fingerprint:
  "same_intent p q \<Longrightarrow> decision_fingerprint sha256 p ts r = decision_fingerprint sha256 q ts r"
  by (simp add: same_intent_def decision_fingerprint_def identity_text_def identity_parts_def
      is_actionable_def reversal_of_def)

text \<open>a replay is suppressed: proposals that agree in symbol, action, prices, ticket, volume,
  reversal, stage and block are one decision, whatever their request and execution ids, times,
  confidences and explanations. Once such a decision has been checked under the broker state
  its identity is already held for (or is new), an equivalent proposal under the same broker
  state and within the idle limit of both clock readings is a duplicate.\<close>

lemma replay_is_suppressed:
  assumes "dedup_check sha256 d p ts r om now later = Inr (v, d')" "dv_fingerprint v = Some fp"
    "same_intent p q"
    "case Mapping.lookup (dd_entries d) fp of None \<Rightarrow> True
     | Some e \<Rightarrow> de_signature e = broker_state_signature om"
    "\<not> dd_max_idle_sec d < now' - now" "\<not> dd_max_idle_sec d < now' - later"
  shows "\<exists>v' d''. dedup_check sha256 d' q ts r om now' later' = Inr (v', d'') \<and> dv_duplicate v'"
proof -
  let ?sig = "broker_state_signature om"
  obtain f where f: "decision_fingerprint sha256 p ts r = Inr f"
    using assms(1) by (auto simp: dedup_check_def bindR_eq_Inr)
  obtain g where g: "f = Some g" "check_identity d p g ?sig now later = (v, d')"
    using assms(1,2) f by (cases f) (auto simp: dedup_check_def fresh_verdict_def)
  have "g = fp"
    using assms(2) g(2) by (auto simp: check_identity_def fresh_verdict_def Let_def
        split: option.splits if_splits)
  with g have c: "check_identity d p fp ?sig now later = (v, d')" by simp
  from check_identity_clock [OF assms(4), of p now later] obtain e where
    e: "Mapping.lookup (dd_entries d') fp = Some e" "de_signature e = ?sig"
      "de_last_suppressed_at e \<in> {now, later}" by (auto simp: c)
  have "dd_max_idle_sec d' = dd_max_idle_sec d"
    using check_identity_frame(2) [of d p fp ?sig now later] by (simp add: c)
  then have "dv_duplicate (fst (check_identity d' q fp ?sig now' later'))"
    unfolding check_identity_duplicate_iff using e assms(5,6) by auto
  moreover have "dedup_check sha256 d' q ts r om now' later'
      = Inr (check_identity d' q fp ?sig now' later')"
    using f g \<open>g = fp\<close> same_intent_fingerprint [OF assms(3), of sha256 ts r]
    by (simp add: dedup_check_def ret_def)
  ultimately show ?thesis by (metis prod.collapse)
qed

definition sample_buy :: trade_proposal where
  "sample_buy = \<lparr>p_request_id = ''r1'', p_execution_id = None, p_symbol = ''XAUUSD'',
     p_generated_at = utc 0, p_action = A_BUY_LIMIT, p_confidence = Fin 1,
     p_proposed_entry = Fin 0, p_stop_loss = Fin 0, p_take_profit = Fin 0,
     p_risk_reward_ratio = Fin 2, p_reason_code = '''', p_ticket = 0, p_volume = None,
     p_decision_stage = None, p_blocked_by = None, p_reversal_action = None,
     p_is_ai_reversal = False\<rparr>"

lemma sample_fingerprint: "\<exists>s. decision_fingerprint sha256 sample_buy None None = Inr (Some s)"
  by (simp add: decision_fingerprint_def is_actionable_def sample_buy_def identity_text_def
      quantize_price_def zero_f64_Fin ret_def)

lemma replay_is_suppressed_witness:
  "\<exists>d' v' d''. dedup_check id d' (sample_buy\<lparr>p_request_id := ''r2''\<rparr>) None None NoManager (Fin 10) (Fin 10)
      = Inr (v', d'') \<and> dv_duplicate v'"
proof -
  obtain s where s: "decision_fingerprint id sample_buy None None = Inr (Some s)"
    using sample_fingerprint by blast
  let ?d = "dedup_init None"
  have l: "Mapping.lookup (dd_entries ?d) s = None" by (simp add: dedup_init_def)
  obtain v d' where c: "check_identity ?d sample_buy s (broker_state_signature NoManager) (Fin 5) (Fin 5) = (v, d')"
    by (metis surj_pair)
  then have v: "dv_fingerprint v = Some s" using l by (auto simp: check_identity_def fresh_verdict_def)
  have k: "dedup_check id ?d sample_buy None None NoManager (Fin 5) (Fin 5) = Inr (v, d')"
    using s c by (simp add: dedup_check_def ret_def)
  have i: "same_intent sample_buy (sample_buy\<lparr>p_request_id := ''r2''\<rparr>)" by (simp add: same_intent_def)
  have n: "\<not> dd_max_idle_sec ?d < Fin 10 - Fin 5" by (simp add: dedup_init_def minus_f64_def)
  have c: "case Mapping.lookup (dd_entries ?d) s of None \<Rightarrow> True
     | Some e \<Rightarrow> de_signature e = broker_state_signature NoManager" using l by simp
  from replay_is_suppressed [OF k v i c n n, of "Fin 10"] show ?thesis by blast
qed

text \<open>C20: nothing is suppressed that was not let through before: in every history of checks,
  explicit re-arms and resets from a fresh guard, a suppressed check is preceded by a check of
  the same identity under the same broker state that was not suppressed.\<close>

lemma suppression_has_earlier_acceptance:
  assumes "dv_duplicate (fst (check_identity (run dedup_step (dedup_init mi) es) p fp sig now later))"
  shows "accepted_before mi es fp sig"
  using assms remembered_was_accepted unfolding check_identity_duplicate_iff by blast

lemma suppression_has_earlier_acceptance_witness:
  "accepted_before None [Check sample_buy ''id'' ''sig'' (Fin 1) (Fin 1)] ''id'' ''sig''"
proof -
  have "dv_duplicate (fst (check_identity
      (run dedup_step (dedup_init None) [Check sample_buy ''id'' ''sig'' (Fin 1) (Fin 1)])
      sample_buy ''id'' ''sig'' (Fin 2) (Fin 2)))"
    by (simp add: check_identity_def dedup_init_def new_entry_def fresh_verdict_def Let_def minus_f64_def)
  then show ?thesis by (rule suppression_has_earlier_acceptance)
qed

text \<open>different decisions have different identity texts: when two texts agree, and neither
  symbol nor revision contains the separator, the decisions agree in symbol (up to case),
  action, ticket, reversal and revision, and in each snapped price to ten decimals.\<close>

lemma identity_text_separates:
  assumes "identity_text p ts r = Inr raw" "identity_text q ts' r' = Inr raw"
    "CHR ''|'' \<notin> set (upper (p_symbol p)) \<union> set (upper (p_symbol q))
       \<union> set (revision_of r) \<union> set (revision_of r')"
  shows "upper (p_symbol p) = upper (p_symbol q) \<and> p_action p = p_action q \<and> p_ticket p = p_ticket q
    \<and> reversal_of p = reversal_of q \<and> revision_of r = revision_of r'
    \<and> (\<exists>x y. quantize_price (p_proposed_entry p) ts = Inr x
          \<and> quantize_price (p_proposed_entry q) ts' = Inr y \<and> fmt_fixed 10 x = fmt_fixed 10 y)
    \<and> (\<exists>x y. quantize_price (p_stop_loss p) ts = Inr x
          \<and> quantize_price (p_stop_loss q) ts' = Inr y \<and> fmt_fixed 10 x = fmt_fixed 10 y)
    \<and> (\<exists>x y. quantize_price (p_take_profit p) ts = Inr x
          \<and> quantize_price (p_take_profit q) ts' = Inr y \<and> fmt_fixed 10 x = fmt_fixed 10 y)"
proof -
  obtain a b c where p: "quantize_price (p_proposed_entry p) ts = Inr a"
    "quantize_price (p_stop_loss p) ts = Inr b" "quantize_price (p_take_profit p) ts = Inr c"
    "raw = join ''|'' (identity_parts p a b c r)"
    using assms(1) by (auto simp: identity_text_def bindR_eq_Inr)
  obtain a' b' c' where q: "quantize_price (p_proposed_entry q) ts' = Inr a'"
    "quantize_price (p_stop_loss q) ts' = Inr b'" "quantize_price (p_take_profit q) ts' = Inr c'"
    "raw = join ''|'' (identity_parts q a' b' c' r')"
    using assms(2) by (auto simp: identity_text_def bindR_eq_Inr)
  have "\<forall>s \<in> set (identity_parts p a b c r) \<union> set (identity_parts q a' b' c' r'). CHR ''|'' \<notin> set s"
    using assms(3) by (auto simp: identity_parts_def reversal_of_def split: option.splits)
  moreover have "identity_parts p a b c r \<noteq> []" "identity_parts q a' b' c' r' \<noteq> []"
    by (simp_all add: identity_parts_def)
  moreover have "join ''|'' (identity_parts p a b c r) = join ''|'' (identity_parts q a' b' c' r')"
    using p(4) q(4) by simp
  ultimately have "identity_parts p a b c r = identity_parts q a' b' c' r'" by (intro join_inj)
  from identity_parts_inj [OF this] show ?thesis using p q by auto
qed

lemma identity_text_separates_witness:
  "identity_text sample_buy None None \<noteq> identity_text (sample_buy\<lparr>p_action := A_SELL_LIMIT\<rparr>) None None"
proof
  let ?q = "sample_buy\<lparr>p_action := A_SELL_LIMIT\<rparr>"
  assume eq: "identity_text sample_buy None None = identity_text ?q None None"
  obtain raw where raw: "identity_text sample_buy None None = Inr raw"
    by (simp add: identity_text_def sample_buy_def quantize_price_def zero_f64_Fin ret_def)
  have b: "CHR ''|'' \<notin> set (upper (p_symbol sample_buy)) \<union> set (upper (p_symbol ?q))
       \<union> set (revision_of None) \<union> set (revision_of None)" by code_simp
  have "p_action sample_buy = p_action ?q"
    using identity_text_separates [OF raw _ b] raw eq by simp
  then show False by (simp add: sample_buy_def)
qed

text \<open>a re-arm by a broker state change does not restart the idle clock. A decision that is let
  through because the broker state changed is let through once more at its next replay when
  more than the idle limit has passed since the time recorded before the change, however soon
  after the change that replay comes.\<close>

lemma rearm_keeps_idle_clock:
  assumes "Mapping.lookup (dd_entries d) fp = Some e" "de_signature e \<noteq> sig"
    "dd_max_idle_sec d < now' - de_last_suppressed_at e"
  shows "\<not> dv_duplicate (fst (check_identity d p fp sig now later))
    \<and> \<not> dv_duplicate (fst (check_identity (snd (check_identity d p fp sig now later)) q fp sig now' later'))"
  using assms by (simp add: check_identity_def fresh_verdict_def)

lemma rearm_keeps_idle_clock_witness:
  "\<not> dv_duplicate (fst (check_identity (snd (check_identity
      ((dedup_init None)\<lparr>dd_entries := Mapping.update ''id'' (new_entry ''id'' sample_buy (Fin 0) ''old'') Mapping.empty\<rparr>)
      sample_buy ''id'' ''new'' (Fin 400) (Fin 400))) sample_buy ''id'' ''new'' (Fin 401) (Fin 401)))"
  using rearm_keeps_idle_clock [of "(dedup_init None)\<lparr>dd_entries :=
      Mapping.update ''id'' (new_entry ''id'' sample_buy (Fin 0) ''old'') Mapping.empty\<rparr>" "''id''"
      "new_entry ''id'' sample_buy (Fin 0) ''old''" "''new''" "Fin 401" sample_buy "Fin 400" "Fin 400"
      sample_buy "Fin 401"]
  by (simp add: new_entry_def dedup_init_def minus_f64_def)

end
