(* ===== verification/PositionStateMachine.thy ===== *)
theory PositionStateMachine
  imports Prelude PyNum PyTime
begin

text \<open>
  \<^verbatim>\<open>execution/position_states.py\<close> and \<^verbatim>\<open>execution/position_state_machine.py\<close>: the eleven
  lifecycle states and the per-ticket machine with its debounce. The two dictionaries are
  maps; the injected hysteresis getter is the pair of thresholds it returns.
\<close>

datatype position_state =
    PROFIT_UNPROTECTED | PROFIT_PROTECTED | PROFIT_TRAILING | PROFIT_GIVEBACK_WARNING
  | PROFIT_GIVEBACK_CRITICAL | LOSS_EARLY | LOSS_RECOVERY_CANDIDATE | LOSS_RECOVERY_CONFIRMED
  | LOSS_RECOVERY_FAILING | LOSS_EXIT_PRESSURE | LOSS_HARD_EXIT

definition BYPASS_STATES :: "position_state set" where
  "BYPASS_STATES = {PROFIT_GIVEBACK_CRITICAL, LOSS_HARD_EXIT}"

record psm =
  psm_states :: "int \<Rightarrow> position_state option"
  psm_candidates :: "int \<Rightarrow> (position_state \<times> py_datetime \<times> int) option"
  psm_min_duration :: f64
  psm_min_count :: f64

definition psm_init :: "f64 \<Rightarrow> f64 \<Rightarrow> psm" where
  "psm_init min_dur min_cnt = \<lparr>psm_states = (\<lambda>_. None), psm_candidates = (\<lambda>_. None),
     psm_min_duration = min_dur, psm_min_count = min_cnt\<rparr>"

definition psm_get :: "psm \<Rightarrow> int \<Rightarrow> position_state option" where
  "psm_get m t = psm_states m t"

definition psm_has_state :: "psm \<Rightarrow> int \<Rightarrow> bool" where
  "psm_has_state m t \<longleftrightarrow> psm_states m t \<noteq> None"

definition psm_drop_ticket :: "int \<Rightarrow> psm \<Rightarrow> psm" where
  "psm_drop_ticket t m = m\<lparr>psm_states := (psm_states m)(t := None),
     psm_candidates := (psm_candidates m)(t := None)\<rparr>"

definition safe_initial_state :: "position_state \<Rightarrow> position_state" where
  "safe_initial_state target =
     (if target \<in> {PROFIT_PROTECTED, PROFIT_TRAILING, PROFIT_UNPROTECTED}
      then PROFIT_UNPROTECTED else LOSS_RECOVERY_CANDIDATE)"

definition enter :: "psm \<Rightarrow> int \<Rightarrow> position_state \<Rightarrow> psm" where
  "enter m t s = m\<lparr>psm_states := (psm_states m)(t \<mapsto> s),
     psm_candidates := (psm_candidates m)(t := None)\<rparr>"

definition stage :: "psm \<Rightarrow> int \<Rightarrow> position_state \<times> py_datetime \<times> int \<Rightarrow> psm" where
  "stage m t c = m\<lparr>psm_candidates := (psm_candidates m)(t \<mapsto> c)\<rparr>"

definition transition_with_hysteresis ::
  "psm \<Rightarrow> int \<Rightarrow> position_state \<Rightarrow> py_datetime \<Rightarrow> position_state \<times> psm" where
  "transition_with_hysteresis m t target now =
     (case psm_states m t of
        None \<Rightarrow>
          if target \<in> BYPASS_STATES then (target, enter m t target)
          else let s = safe_initial_state target in (s, stage (enter m t s) t (target, now, 1))
      | Some current \<Rightarrow>
          if current = target then
            (current, m\<lparr>psm_candidates := (psm_candidates m)(t := None)\<rparr>)
          else if target \<in> BYPASS_STATES then (target, enter m t target)
          else case psm_candidates m t of
            None \<Rightarrow> (current, stage m t (target, now, 1))
          | Some (cand, first, count) \<Rightarrow>
              if cand \<noteq> target then (current, stage m t (target, now, 1))
              else let new_count = count + 1; m = stage m t (cand, first, new_count);
                       elapsed = total_seconds (instant now - instant first)
                in if psm_min_duration m \<le> elapsed \<and> psm_min_count m \<le> float_of_int new_count
                   then (target, enter m t target) else (current, m))"

section \<open>Lemmas\<close>

lemma BYPASS_mem [simp]: "s \<in> BYPASS_STATES \<longleftrightarrow> s = PROFIT_GIVEBACK_CRITICAL \<or> s = LOSS_HARD_EXIT"
  by (auto simp: BYPASS_STATES_def)

lemma safe_initial_not_bypass: "safe_initial_state s \<notin> BYPASS_STATES"
  by (simp add: safe_initial_state_def)

lemma enter_simps [simp]:
  "psm_states (enter m t s) = (psm_states m)(t \<mapsto> s)"
  "psm_candidates (enter m t s) = (psm_candidates m)(t := None)"
  "psm_min_duration (enter m t s) = psm_min_duration m"
  "psm_min_count (enter m t s) = psm_min_count m"
  by (simp_all add: enter_def)

lemma stage_simps [simp]:
  "psm_states (stage m t c) = psm_states m"
  "psm_candidates (stage m t c) = (psm_candidates m)(t \<mapsto> c)"
  "psm_min_duration (stage m t c) = psm_min_duration m"
  "psm_min_count (stage m t c) = psm_min_count m"
  by (simp_all add: stage_def)

definition psm_view :: "psm \<Rightarrow> int \<Rightarrow> position_state option \<times> (position_state \<times> py_datetime \<times> int) option" where
  "psm_view m t = (psm_states m t, psm_candidates m t)"

definition psm_observe :: "int \<Rightarrow> position_state \<times> py_datetime \<Rightarrow> psm \<Rightarrow> psm" where
  "psm_observe t x m = snd (transition_with_hysteresis m t (fst x) (snd x))"

lemma transition_frame:
  "t \<noteq> t' \<Longrightarrow> psm_view (snd (transition_with_hysteresis m t target now)) t' = psm_view m t'"
  by (simp add: transition_with_hysteresis_def psm_view_def Let_def split: option.splits prod.splits)

lemma transition_params [simp]:
  "psm_min_duration (snd (transition_with_hysteresis m t target now)) = psm_min_duration m"
  "psm_min_count (snd (transition_with_hysteresis m t target now)) = psm_min_count m"
  by (simp_all add: transition_with_hysteresis_def Let_def split: option.splits prod.splits)

interpretation psm_ledger: ticket_ledger psm_view "(None, None)" psm_observe psm_drop_ticket
proof
  show "psm_view (psm_observe t x s) t' = psm_view s t'" if "t \<noteq> t'" for t t' x s
    using that by (simp add: psm_observe_def transition_frame)
  show "psm_view (psm_drop_ticket t s) t = (None, None)" for t s
    by (simp add: psm_view_def psm_drop_ticket_def)
  show "psm_view (psm_drop_ticket t s) t' = psm_view s t'" if "t \<noteq> t'" for t t' s
    using that by (simp add: psm_view_def psm_drop_ticket_def)
qed

text \<open>The returned state is the stored one.\<close>

lemma transition_stores:
  "psm_states (snd (transition_with_hysteresis m t target now)) t
     = Some (fst (transition_with_hysteresis m t target now))"
  by (simp add: transition_with_hysteresis_def Let_def split: option.splits prod.splits)

section \<open>The debounce over a history of observations\<close>

type_synonym observation = "int \<times> position_state \<times> py_datetime"

definition obs_step :: "psm \<Rightarrow> observation \<Rightarrow> psm" where
  "obs_step m ob = (case ob of (t, target, now) \<Rightarrow> snd (transition_with_hysteresis m t target now))"

lemma obs_step_eq: "obs_step m (t, target, now) = snd (transition_with_hysteresis m t target now)"
  by (simp add: obs_step_def)

lemma psm_init_simps [simp]:
  "psm_min_duration (psm_init d c) = d" "psm_min_count (psm_init d c) = c"
  "psm_states (psm_init d c) t = None" "psm_candidates (psm_init d c) t = None"
  by (simp_all add: psm_init_def)

lemma obs_step_other:
  assumes "t' \<noteq> t"
  shows "psm_states (obs_step m (t', target, now)) t = psm_states m t"
    and "psm_candidates (obs_step m (t', target, now)) t = psm_candidates m t"
  using transition_frame [OF assms, of m target now] by (simp_all add: obs_step_eq psm_view_def)

definition obs_of :: "int \<Rightarrow> observation list \<Rightarrow> (position_state \<times> py_datetime) list" where
  "obs_of t os = map snd (filter (\<lambda>ob. fst ob = t) os)"

text \<open>The last \<open>n\<close> observations of a ticket are all of one target, the first of them at \<open>first\<close>.\<close>

definition sighted :: "int \<Rightarrow> observation list \<Rightarrow> position_state \<Rightarrow> py_datetime \<Rightarrow> int \<Rightarrow> bool" where
  "sighted t os target first n \<longleftrightarrow>
     (\<exists>pre rest. obs_of t os = pre @ (target, first) # rest \<and> n = 1 + int (length rest)
        \<and> (\<forall>x \<in> set rest. fst x = target))"

lemma obs_of_snoc: "obs_of t (os @ [(t', x)]) = obs_of t os @ (if t' = t then [x] else [])"
  by (simp add: obs_of_def)

lemma sighted_first: "sighted t (os @ [(t, target, now)]) target now 1"
  unfolding sighted_def obs_of_snoc by (intro exI [of _ "obs_of t os"] exI [of _ "[]"]) simp

lemma sighted_again:
  "sighted t os target first n \<Longrightarrow> sighted t (os @ [(t, target, now)]) target first (n + 1)"
  unfolding sighted_def obs_of_snoc
  by (elim exE conjE, rule_tac x = pre in exI, rule_tac x = "rest @ [(target, now)]" in exI) auto

lemma sighted_other: "t' \<noteq> t \<Longrightarrow> sighted t (os @ [(t', x)]) = sighted t os"
  by (simp add: sighted_def obs_of_snoc fun_eq_iff)

lemma candidate_sighted:
  "psm_candidates (run obs_step (psm_init d c) os) t = Some (target, first, n)
     \<Longrightarrow> sighted t os target first n"
proof (induction os arbitrary: target first n rule: rev_induct)
  case Nil
  then show ?case by (simp add: psm_init_def)
next
  case (snoc ob os)
  let ?m = "run obs_step (psm_init d c) os"
  obtain t' g now where ob: "ob = (t', g, now)" by (cases ob)
  have c: "psm_candidates (snd (transition_with_hysteresis ?m t' g now)) t = Some (target, first, n)"
    using snoc.prems by (simp add: run_snoc ob obs_step_eq)
  show ?case
  proof (cases "t' = t")
    case False
    then have "psm_candidates ?m t = Some (target, first, n)"
      using c transition_frame [OF False, of ?m g now] by (simp add: psm_view_def)
    then show ?thesis using snoc.IH False by (simp add: ob sighted_other)
  next
    case True
    have "target = g \<and> (first = now \<and> n = 1 \<or> (\<exists>k. psm_candidates ?m t = Some (g, first, k) \<and> n = k + 1))"
      using c unfolding True
      by (auto simp: transition_with_hysteresis_def Let_def split: option.splits if_splits prod.splits)
    then show ?thesis
      using sighted_first sighted_again snoc.IH by (auto simp: ob True)
  qed
qed

lemma obs_step_params [simp]:
  "psm_min_duration (run obs_step m os) = psm_min_duration m"
  "psm_min_count (run obs_step m os) = psm_min_count m"
  by (induction os arbitrary: m) (auto simp: obs_step_eq)

lemma sighted_snocE:
  assumes "sighted t (os @ [(t, g, now)]) target first n"
  obtains "g = target" "first = now" "n = 1"
  | "g = target" "sighted t os target first (n - 1)" "1 < n"
proof -
  obtain pre rest where o: "obs_of t os @ [(g, now)] = pre @ (target, first) # rest"
    and n: "n = 1 + int (length rest)" and r: "\<forall>x \<in> set rest. fst x = target"
    using assms by (auto simp: sighted_def obs_of_snoc)
  show thesis
  proof (cases rest rule: rev_cases)
    case Nil
    then show thesis using o n by (intro that(1)) auto
  next
    case (snoc rest' x)
    then have "obs_of t os = pre @ (target, first) # rest'" "x = (g, now)" using o by auto
    then have "sighted t os target first (n - 1)" "g = target" "1 < n"
      using n r snoc unfolding sighted_def by auto
    then show thesis using that(2) by blast
  qed
qed

lemma sighted_pos: "sighted t os target first n \<Longrightarrow> 1 \<le> n"
  by (auto simp: sighted_def)

text \<open>An observed ticket has a state; a state other than the target sighted last has the target as its candidate.\<close>

lemma observed_has_state: "obs_of t os \<noteq> [] \<Longrightarrow> psm_states (run obs_step (psm_init d c) os) t \<noteq> None"
proof (induction os rule: rev_induct)
  case (snoc ob os)
  obtain t' g now where ob: "ob = (t', g, now)" by (cases ob)
  show ?case
  proof (cases "t' = t")
    case True
    then show ?thesis by (simp add: run_snoc ob obs_step_eq transition_stores)
  next
    case False
    then show ?thesis
      using snoc by (simp add: run_snoc ob obs_step_other obs_of_snoc)
  qed
qed (simp add: obs_of_def)

lemma sighted_candidate:
  assumes "sighted t os target first n" "psm_states (run obs_step (psm_init d c) os) t = Some s" "s \<noteq> target"
  shows "\<exists>first' k. psm_candidates (run obs_step (psm_init d c) os) t = Some (target, first', k) \<and> n \<le> k"
  using assms
proof (induction os arbitrary: first n s rule: rev_induct)
  case Nil
  then show ?case by (simp add: psm_init_def)
next
  case (snoc ob os)
  let ?m = "run obs_step (psm_init d c) os"
  obtain t' g now where ob: "ob = (t', g, now)" by (cases ob)
  show ?case
  proof (cases "t' = t")
    case False
    then show ?thesis
      using snoc.prems snoc.IH by (simp add: run_snoc ob obs_step_other sighted_other)
  next
    case True
    have st: "psm_states (snd (transition_with_hysteresis ?m t g now)) t = Some s"
      using snoc.prems(2) by (simp add: run_snoc ob True obs_step_eq)
    from snoc.prems(1)[unfolded ob True] show ?thesis
    proof (cases rule: sighted_snocE)
      case 1
      then show ?thesis using st snoc.prems(3)
        by (auto simp: run_snoc ob True obs_step_eq transition_with_hysteresis_def Let_def
            dest!: candidate_sighted sighted_pos split: option.splits if_splits prod.splits)
    next
      case 2
      have "obs_of t os \<noteq> []" using 2(2) by (auto simp: sighted_def)
      then obtain s' where s': "psm_states ?m t = Some s'" using observed_has_state [of t os d c] by blast
      have "s' \<noteq> target"
        using st s' snoc.prems(3) 2(1) by (auto simp: transition_with_hysteresis_def)
      from snoc.IH [OF 2(2) s' this] obtain f k
        where k: "psm_candidates ?m t = Some (target, f, k)" "n - 1 \<le> k" by blast
      then show ?thesis using st s' \<open>s' \<noteq> target\<close> snoc.prems(3) 2(1)
        by (auto simp: run_snoc ob True obs_step_eq transition_with_hysteresis_def Let_def split: if_splits)
    qed
  qed
qed

lemma sighted_earlier:
  assumes "sighted t os target first n" "sighted t os target first' k" "n \<le> k"
    and "sorted (map (instant \<circ> snd) (obs_of t os))"
  shows "instant first' \<le> instant first"
proof -
  obtain pre rest pre' rest' where o: "obs_of t os = pre @ (target, first) # rest"
    "obs_of t os = pre' @ (target, first') # rest'" and len: "length rest \<le> length rest'"
    using assms by (auto simp: sighted_def)
  have l: "length pre' + length rest' = length pre + length rest"
    using arg_cong [OF o(1), of length] arg_cong [OF o(2), of length] by simp
  have "obs_of t os ! length pre = (target, first)" "obs_of t os ! length pre' = (target, first')"
    using o by (metis nth_append_length)+
  moreover have "length pre' \<le> length pre" "length pre < length (obs_of t os)"
    using l len o(1) by auto
  ultimately show ?thesis
    using sorted_nth_mono [OF assms(4), of "length pre'" "length pre"] by simp
qed

lemma total_seconds_elapsed_mono:
  "instant a \<le> instant b \<Longrightarrow> x \<le> total_seconds (instant now - instant b)
     \<Longrightarrow> x \<le> total_seconds (instant now - instant a)"
  using total_seconds_mono [of "instant now - instant b" "instant now - instant a"]
  by (auto intro: f64_le_trans)

lemma float_of_int_mono: "a \<le> b \<Longrightarrow> float_of_int a \<le> float_of_int b"
  unfolding float_of_int_def by (intro fl_mono) simp

section \<open>Properties\<close>

text \<open>A transition of a ticket that already has a state to another, non-emergency state is
  confirmed exactly when the last \<open>n \<ge> 2\<close> observations of that ticket, the current one
  included, all name that state, \<open>n\<close> reaches the required number of sightings and the first of
  them lies at least the required duration back; otherwise the ticket keeps its state. This
  holds for every interleaving of observations of all tickets, when the times of one ticket's
  observations do not decrease.\<close>

lemma debounce_exact:
  assumes "psm_states (run obs_step (psm_init d c) os) t = Some s"
    and "target \<noteq> s" "target \<notin> BYPASS_STATES"
    and "sorted (map (instant \<circ> snd) (obs_of t (os @ [(t, target, now)])))"
  shows "fst (transition_with_hysteresis (run obs_step (psm_init d c) os) t target now) =
    (if \<exists>first n. sighted t (os @ [(t, target, now)]) target first n \<and> 2 \<le> n
           \<and> c \<le> float_of_int n \<and> d \<le> total_seconds (instant now - instant first)
     then target else s)"
proof -
  let ?m = "run obs_step (psm_init d c) os"
  let ?os = "os @ [(t, target, now)]"
  have fst_eq: "fst (transition_with_hysteresis ?m t target now) =
    (case psm_candidates ?m t of
       Some (cand, first, k) \<Rightarrow> if cand = target \<and> d \<le> total_seconds (instant now - instant first)
          \<and> c \<le> float_of_int (k + 1) then target else s
     | None \<Rightarrow> s)"
    using assms(1-3) by (auto simp: transition_with_hysteresis_def Let_def split: option.splits prod.splits)
  show ?thesis
  proof (cases "\<exists>first n. sighted t ?os target first n \<and> 2 \<le> n
           \<and> c \<le> float_of_int n \<and> d \<le> total_seconds (instant now - instant first)")
    case True
    then obtain first n where n: "sighted t ?os target first n" "2 \<le> n"
      "c \<le> float_of_int n" "d \<le> total_seconds (instant now - instant first)" by blast
    from n(1,2) have prev: "sighted t os target first (n - 1)" by (cases rule: sighted_snocE) auto
    from sighted_candidate [OF prev assms(1)] assms(2) obtain f k
      where k: "psm_candidates ?m t = Some (target, f, k)" "n - 1 \<le> k" by blast
    have "sighted t ?os target f (k + 1)"
      using candidate_sighted [OF k(1)] by (rule sighted_again)
    then have "instant f \<le> instant first"
      using sighted_earlier [OF n(1)] k(2) assms(4) by simp
    then have "d \<le> total_seconds (instant now - instant f)" using n(4) by (rule total_seconds_elapsed_mono)
    moreover have "c \<le> float_of_int (k + 1)"
      using n(3) float_of_int_mono [of n "k + 1"] k(2) by (auto intro: f64_le_trans)
    ultimately show ?thesis using True by (simp add: fst_eq k(1))
  next
    case False
    have "\<not> (d \<le> total_seconds (instant now - instant f) \<and> c \<le> float_of_int (k + 1))"
      if "psm_candidates ?m t = Some (target, f, k)" for f k
      using False sighted_again [OF candidate_sighted [OF that], of now] sighted_pos [OF candidate_sighted [OF that]]
      by force
    then show ?thesis unfolding if_not_P [OF False] fst_eq by (auto split: option.splits)
  qed
qed

definition sample_observations :: "observation list" where
  "sample_observations = [(7, PROFIT_PROTECTED, utc 0), (8, LOSS_EARLY, utc 500000), (7, PROFIT_PROTECTED, utc 1000000)]"

lemma debounce_exact_witness:
  "fst (transition_with_hysteresis (run obs_step (psm_init (Fin 2) (Fin 3)) sample_observations) 7
     PROFIT_PROTECTED (utc 2000000)) = PROFIT_PROTECTED
   \<and> fst (transition_with_hysteresis (run obs_step (psm_init (Fin 4) (Fin 3)) sample_observations) 7
     PROFIT_PROTECTED (utc 2000000)) = PROFIT_UNPROTECTED"
proof -
  have s: "psm_states (run obs_step (psm_init (Fin x) (Fin 3)) sample_observations) 7 = Some PROFIT_UNPROTECTED"
    if "x = 2 \<or> x = 4" for x
    using that by (auto simp: sample_observations_def obs_step_eq transition_with_hysteresis_def
        safe_initial_state_def enter_def stage_def psm_init_def total_seconds_def float_of_int_def)
  have o: "obs_of 7 (sample_observations @ [(7, PROFIT_PROTECTED, utc 2000000)])
      = [(PROFIT_PROTECTED, utc 0), (PROFIT_PROTECTED, utc 1000000), (PROFIT_PROTECTED, utc 2000000)]"
    by (simp add: sample_observations_def obs_of_def)
  have l: "sighted 7 (sample_observations @ [(7, PROFIT_PROTECTED, utc 2000000)]) PROFIT_PROTECTED (utc 0) 3"
    unfolding sighted_def o
    by (rule exI [of _ "[]"], rule exI [of _ "[(PROFIT_PROTECTED, utc 1000000), (PROFIT_PROTECTED, utc 2000000)]"]) simp
  have f: "instant first \<in> {0, 1000000, 2000000}"
    if "sighted 7 (sample_observations @ [(7, PROFIT_PROTECTED, utc 2000000)]) PROFIT_PROTECTED first n" for first n
    using that unfolding sighted_def o by (auto simp: Cons_eq_append_conv)
  have e: "total_seconds (2000000 - instant first) \<le> Fin 2" if "instant first \<in> {0, 1000000, 2000000}" for first
    using that by (auto simp: total_seconds_def)
  have far: "\<not> Fin 4 \<le> total_seconds (2000000 - instant first)" if "instant first \<in> {0, 1000000, 2000000}" for first
    using f64_le_trans [OF _ e [OF that], of "Fin 4"] by auto
  have 1: "\<exists>first n. sighted 7 (sample_observations @ [(7, PROFIT_PROTECTED, utc 2000000)]) PROFIT_PROTECTED first n
      \<and> 2 \<le> n \<and> Fin 3 \<le> float_of_int n \<and> Fin 2 \<le> total_seconds (instant (utc 2000000) - instant first)"
    using l by (intro exI [of _ "utc 0"] exI [of _ 3]) (simp add: float_of_int_def total_seconds_def)
  have 2: "\<not> (\<exists>first n. sighted 7 (sample_observations @ [(7, PROFIT_PROTECTED, utc 2000000)]) PROFIT_PROTECTED first n
      \<and> 2 \<le> n \<and> Fin 3 \<le> float_of_int n \<and> Fin 4 \<le> total_seconds (instant (utc 2000000) - instant first))"
    using f far by auto
  show ?thesis
    using debounce_exact [OF s, of 2 PROFIT_PROTECTED "utc 2000000", unfolded o if_P [OF 1]]
      debounce_exact [OF s, of 4 PROFIT_PROTECTED "utc 2000000", unfolded o if_not_P [OF 2]] by simp
qed

text \<open>An emergency target (hard exit, critical giveback) is entered at once from every
  state of the machine, the first observation of a ticket included, and clears the candidate.\<close>

lemma emergency_enters_at_once:
  "target \<in> BYPASS_STATES \<Longrightarrow> fst (transition_with_hysteresis m t target now) = target
     \<and> psm_states (snd (transition_with_hysteresis m t target now)) t = Some target
     \<and> psm_candidates (snd (transition_with_hysteresis m t target now)) t = None"
  by (auto simp: transition_with_hysteresis_def Let_def split: option.splits)

lemma emergency_enters_at_once_witness:
  "fst (transition_with_hysteresis (psm_init (Fin 9) (Fin 9)) 5 LOSS_HARD_EXIT (utc 0)) = LOSS_HARD_EXIT"
  using emergency_enters_at_once [of LOSS_HARD_EXIT "psm_init (Fin 9) (Fin 9)" 5 "utc 0"] by simp

text \<open>A non-emergency target that differs from the ticket's previous observation leaves the
  ticket's state as it is, whatever the thresholds are and however often it was sighted before:
  every change of the target restarts the window, so a target that keeps alternating is never
  entered.\<close>

lemma flapping_never_transitions:
  assumes "psm_states (run obs_step (psm_init d c) os) t = Some s"
    and "target \<noteq> s" "target \<notin> BYPASS_STATES"
    and "obs_of t os = xs @ [(other, before)]" "other \<noteq> target"
  shows "fst (transition_with_hysteresis (run obs_step (psm_init d c) os) t target now) = s"
proof -
  let ?m = "run obs_step (psm_init d c) os"
  have "psm_candidates ?m t \<noteq> Some (target, f, n)" for f n
  proof
    assume "psm_candidates ?m t = Some (target, f, n)"
    from candidate_sighted [OF this] obtain pre rest
      where o: "obs_of t os = pre @ (target, f) # rest" and r: "\<forall>x \<in> set rest. fst x = target"
      by (auto simp: sighted_def)
    have "fst (List.last (obs_of t os)) = target" using r by (simp add: o)
    then show False using assms(4,5) by simp
  qed
  then show ?thesis
    using assms(1-3) by (auto simp: transition_with_hysteresis_def Let_def split: option.splits prod.splits if_splits)
qed

lemma flapping_never_transitions_witness:
  "fst (transition_with_hysteresis (run obs_step (psm_init (Fin 2) (Fin 2)) sample_observations) 7
     PROFIT_TRAILING (utc 9000000)) = PROFIT_UNPROTECTED"
proof (rule flapping_never_transitions)
  show "psm_states (run obs_step (psm_init (Fin 2) (Fin 2)) sample_observations) 7 = Some PROFIT_UNPROTECTED"
    by (auto simp: sample_observations_def obs_step_eq transition_with_hysteresis_def
        safe_initial_state_def enter_def stage_def psm_init_def total_seconds_def float_of_int_def)
  show "obs_of 7 sample_observations = [(PROFIT_PROTECTED, utc 0)] @ [(PROFIT_PROTECTED, utc 1000000)]"
    by (simp add: sample_observations_def obs_of_def)
qed simp_all

end
