(* ===== verification/TicketLedgers.thy ===== *)
theory TicketLedgers
  imports Prelude PyNum PyTime
begin

text \<open>
  The per-ticket ledgers of the execution layer: profit protection
  (\<^verbatim>\<open>execution/protection_ledger.py\<close>), the recovery budget of losing positions
  (\<^verbatim>\<open>execution/recovery_budget.py\<close>), holding durations (\<^verbatim>\<open>execution/hold_duration.py\<close>),
  telemetry throttling (\<^verbatim>\<open>execution/telemetry_throttle.py\<close>) and hold scores
  (\<^verbatim>\<open>execution/hold_score_ledger.py\<close>). Each dictionary is a map; a clock reading is an argument
  of the operation that takes it. Every ledger is an instance of the interface
  \<open>ticket_ledger\<close>: its operations on one ticket leave the others alone.
\<close>

section \<open>Profit protection\<close>

record protection_state =
  peak_win_usd :: f64
  was_sl_modified :: bool
  profit_giveback_triggered :: bool
  close_requested :: bool
  last_telemetry_log_time :: f64
  last_be_failure_log_time :: f64
  last_be_attempt_time :: f64
  breakeven_sl_price :: f64

definition new_protection :: protection_state where
  "new_protection = \<lparr>peak_win_usd = 0, was_sl_modified = False, profit_giveback_triggered = False,
     close_requested = False, last_telemetry_log_time = 0, last_be_failure_log_time = 0,
     last_be_attempt_time = 0, breakeven_sl_price = 0\<rparr>"

definition update_peak :: "protection_state \<Rightarrow> f64 \<Rightarrow> protection_state" where
  "update_peak s pnl =
     (if isnan pnl \<or> isinf64 pnl then s else s\<lparr>peak_win_usd := pmax (peak_win_usd s) pnl\<rparr>)"

definition retention_ratio :: "protection_state \<Rightarrow> f64 \<Rightarrow> f64 res" where
  "retention_ratio s pnl = (if peak_win_usd s \<le> 0 then ret 1 else py_div pnl (peak_win_usd s))"

type_synonym protection_ledger = "int \<Rightarrow> protection_state option"

definition protection_get :: "int \<Rightarrow> protection_ledger \<Rightarrow> protection_state \<times> protection_ledger" where
  "protection_get t L = (case L t of
     Some s \<Rightarrow> (s, L) | None \<Rightarrow> (new_protection, L(t \<mapsto> new_protection)))"

definition protection_drop :: "int \<Rightarrow> protection_ledger \<Rightarrow> protection_ledger" where
  "protection_drop t L = L(t := None)"

text \<open>The object a \<open>get\<close> returns is the stored one; a caller's update of it goes through here.\<close>

definition protection_update ::
  "int \<Rightarrow> (protection_state \<Rightarrow> protection_state) \<Rightarrow> protection_ledger \<Rightarrow> protection_ledger" where
  "protection_update t f L = (case protection_get t L of (s, L') \<Rightarrow> L'(t \<mapsto> f s))"

section \<open>The recovery budget\<close>

record recovery_ledger =
  budget_initial :: "int \<Rightarrow> f64 option"
  budget_remaining :: "int \<Rightarrow> f64 option"
  budget_consumed :: "int \<Rightarrow> f64 option"
  initial_loss :: "int \<Rightarrow> f64 option"
  entry_times :: "int \<Rightarrow> py_datetime option"
  horizons :: "int \<Rightarrow> f64 option"

record recovery_config =
  budget_pct_of_r :: f64
  default_horizon_sec :: f64
  min_horizon_sec :: f64
  max_horizon_sec :: f64

definition recovery_init :: recovery_ledger where
  "recovery_init = \<lparr>budget_initial = (\<lambda>_. None), budget_remaining = (\<lambda>_. None), budget_consumed = (\<lambda>_. None),
     initial_loss = (\<lambda>_. None), entry_times = (\<lambda>_. None), horizons = (\<lambda>_. None)\<rparr>"

definition is_allocated :: "int \<Rightarrow> recovery_ledger \<Rightarrow> bool" where
  "is_allocated t L \<longleftrightarrow> budget_initial L t \<noteq> None"

definition initial_risk_of :: "f64 \<Rightarrow> f64 \<Rightarrow> f64" where
  "initial_risk_of risk atr = (if risk \<le> 0 then atr * Fin (3 / 2) * Fin 100 * fl (1 / 10) else risk)"

definition budget_of :: "f64 \<Rightarrow> f64 \<Rightarrow> f64 \<Rightarrow> f64" where
  "budget_of risk pct loss = pmin (risk * pct) (pmax 0 (risk - loss))"

definition horizon_of :: "recovery_config \<Rightarrow> f64 \<Rightarrow> f64 \<Rightarrow> f64 \<Rightarrow> f64 res" where
  "horizon_of c confidence atr trend =
     bindR (py_div (pmax atr (Fin (1 / 2))) (Fin (3 / 2))) (\<lambda>q.
     bindR (py_div (default_horizon_sec c) q) (\<lambda>base.
       let base = base * (confidence + Fin (1 / 2));
           base = (if trend < - fl (1 / 5) then base * fl (7 / 10) else base)
       in ret (pmax (min_horizon_sec c) (pmin (max_horizon_sec c) base))))"

text \<open>The five assignments before the horizon is computed stay when computing it raises.\<close>

definition allocate ::
  "int \<Rightarrow> f64 \<Rightarrow> f64 \<Rightarrow> f64 \<Rightarrow> f64 \<Rightarrow> f64 \<Rightarrow> py_datetime \<Rightarrow> recovery_config \<Rightarrow> recovery_ledger
     \<Rightarrow> f64 res \<times> recovery_ledger" where
  "allocate t risk pnl confidence atr trend now c L =
     (case budget_initial L t of
        Some b \<Rightarrow> (ret b, L)
      | None \<Rightarrow>
          let risk = initial_risk_of risk atr; loss = fabs64 pnl;
              b = budget_of risk (budget_pct_of_r c) loss;
              L = L\<lparr>budget_initial := (budget_initial L)(t \<mapsto> b),
                    budget_remaining := (budget_remaining L)(t \<mapsto> b),
                    budget_consumed := (budget_consumed L)(t \<mapsto> 0),
                    initial_loss := (initial_loss L)(t \<mapsto> loss),
                    entry_times := (entry_times L)(t \<mapsto> now)\<rparr>
          in case horizon_of c confidence atr trend of
               Inl e \<Rightarrow> (raise e, L)
             | Inr h \<Rightarrow> (ret b, L\<lparr>horizons := (horizons L)(t \<mapsto> h)\<rparr>))"

definition consumed_of :: "f64 \<Rightarrow> f64 \<Rightarrow> f64" where
  "consumed_of loss0 pnl = pmax 0 ((if pnl < 0 then fabs64 pnl else 0) - loss0)"

definition evaluate_exhaustion ::
  "int \<Rightarrow> f64 \<Rightarrow> py_datetime \<Rightarrow> recovery_ledger \<Rightarrow> (bool \<times> string) \<times> recovery_ledger" where
  "evaluate_exhaustion t pnl now L =
     (case budget_initial L t of
        None \<Rightarrow> ((False, ''''), L)
      | Some b \<Rightarrow>
          let consumed = consumed_of (getd (initial_loss L t) 0) pnl;
              remaining = pmax 0 (b - consumed);
              L = L\<lparr>budget_consumed := (budget_consumed L)(t \<mapsto> consumed),
                    budget_remaining := (budget_remaining L)(t \<mapsto> remaining)\<rparr>
          in if remaining \<le> 0 then
               ((True, ''RECOVERY_BUDGET_EXHAUSTED (initial=$'' @ fmt_fixed 2 b @ '', consumed=$''
                   @ fmt_fixed 2 consumed @ '')''), L)
             else (case entry_times L t of
                 None \<Rightarrow> ((False, ''''), L)
               | Some entry \<Rightarrow>
                   let horizon = getd (horizons L t) (Fin 180);
                       elapsed = total_seconds (instant now - instant entry)
                   in if horizon < elapsed then
                        ((True, ''RECOVERY_TIME_EXHAUSTED ('' @ fmt_fixed 1 elapsed @ ''s > ''
                            @ fmt_fixed 1 horizon @ ''s)''), L)
                      else ((False, ''''), L)))"

definition recovery_remaining :: "int \<Rightarrow> f64 \<Rightarrow> recovery_ledger \<Rightarrow> f64" where
  "recovery_remaining t d L = getd (budget_remaining L t) d"

definition recovery_drop :: "int \<Rightarrow> recovery_ledger \<Rightarrow> recovery_ledger" where
  "recovery_drop t L = \<lparr>budget_initial = (budget_initial L)(t := None),
     budget_remaining = (budget_remaining L)(t := None), budget_consumed = (budget_consumed L)(t := None),
     initial_loss = (initial_loss L)(t := None), entry_times = (entry_times L)(t := None),
     horizons = (horizons L)(t := None)\<rparr>"

section \<open>Holding durations\<close>

record hold_clock =
  hc_max_plausible :: f64
  hc_anchors :: "int \<Rightarrow> (f64 \<times> py_datetime option \<times> py_datetime) option"

definition SANITY_ABS_TOLERANCE :: f64 where "SANITY_ABS_TOLERANCE = Fin 60"
definition SANITY_REL_TOLERANCE :: f64 where "SANITY_REL_TOLERANCE = fl (1 / 50)"
definition DEFAULT_MAX_PLAUSIBLE :: f64 where "DEFAULT_MAX_PLAUSIBLE = Fin 604800"

definition require_aware_utc :: "py_datetime \<Rightarrow> py_datetime res" where
  "require_aware_utc d = (if dt_off d = None then raise ValueError else ret (to_utc d))"

definition mk_hold_clock :: "f64 \<Rightarrow> hold_clock res" where
  "mk_hold_clock m = (if m \<le> 0 then raise ValueError
     else ret \<lparr>hc_max_plausible = m, hc_anchors = (\<lambda>_. None)\<rparr>)"

text \<open>\<open>clock\<close> and \<open>wall_now\<close> are the readings of the two clocks.\<close>

definition hold_register ::
  "int \<Rightarrow> py_datetime option \<Rightarrow> py_datetime option \<Rightarrow> f64 \<Rightarrow> py_datetime \<Rightarrow> hold_clock
     \<Rightarrow> (f64 \<times> hold_clock) res" where
  "hold_register t broker wall clock wall_now c =
     bindR (case broker of None \<Rightarrow> ret None | Some d \<Rightarrow> bindR (require_aware_utc d) (\<lambda>d. ret (Some d))) (\<lambda>b.
     bindR (case wall of Some d \<Rightarrow> require_aware_utc d | None \<Rightarrow> ret wall_now) (\<lambda>w.
       ret (0, c\<lparr>hc_anchors := (hc_anchors c)(t \<mapsto> (clock, b, w))\<rparr>)))"

definition hold_elapsed :: "int \<Rightarrow> f64 \<Rightarrow> hold_clock \<Rightarrow> f64 option" where
  "hold_elapsed t clock c = (case hc_anchors c t of
     None \<Rightarrow> None | Some (m, _, _) \<Rightarrow> let e = clock - m in Some (if e < 0 then 0 else e))"

datatype sanity_status = OK | SUSPECT | MISSING

record sanity_report =
  sr_status :: sanity_status
  sr_monotonic :: "f64 option"
  sr_wallclock :: "f64 option"
  sr_broker :: "f64 option"
  sr_divergence :: "f64 option"

definition tolerance_sec :: "f64 \<Rightarrow> f64 \<Rightarrow> f64" where
  "tolerance_sec p q = pmax SANITY_ABS_TOLERANCE (SANITY_REL_TOLERANCE * pmax p q)"

definition sanity_of :: "f64 \<Rightarrow> f64 \<Rightarrow> f64 \<Rightarrow> f64 option \<Rightarrow> sanity_report" where
  "sanity_of max_plausible ms ws bs =
     (let wd = fabs64 (ms - ws);
          div1 = pmax 0 wd; sus1 = tolerance_sec ms ws < wd;
          div2 = (case bs of None \<Rightarrow> div1 | Some b \<Rightarrow> pmax div1 (fabs64 (ms - b)));
          sus2 = (case bs of None \<Rightarrow> sus1 | Some b \<Rightarrow> sus1 \<or> tolerance_sec ms b < fabs64 (ms - b))
      in \<lparr>sr_status = (if sus2 \<or> max_plausible < ms then SUSPECT else OK),
           sr_monotonic = Some ms, sr_wallclock = Some ws, sr_broker = bs, sr_divergence = Some div2\<rparr>)"

definition broker_clock_sec :: "py_datetime option \<Rightarrow> py_datetime option \<Rightarrow> f64 option res" where
  "broker_clock_sec broker broker_now = (case (broker, broker_now) of
       (Some b, Some bn) \<Rightarrow> bindR (require_aware_utc bn) (\<lambda>bn.
          ret (Some (pmax 0 (total_seconds (instant bn - instant b)))))
     | _ \<Rightarrow> ret None)"

definition hold_sanity ::
  "int \<Rightarrow> py_datetime option \<Rightarrow> f64 \<Rightarrow> py_datetime \<Rightarrow> hold_clock \<Rightarrow> sanity_report res" where
  "hold_sanity t broker_now clock wall_now c = (case hc_anchors c t of
     None \<Rightarrow> ret \<lparr>sr_status = MISSING, sr_monotonic = None, sr_wallclock = None, sr_broker = None,
               sr_divergence = None\<rparr>
   | Some (m, broker, wall) \<Rightarrow>
       let ms = pmax 0 (clock - m);
           ws = pmax 0 (total_seconds (instant wall_now - instant wall))
       in bindR (broker_clock_sec broker broker_now) (\<lambda>bs. ret (sanity_of (hc_max_plausible c) ms ws bs)))"

definition hold_expire :: "int \<Rightarrow> hold_clock \<Rightarrow> hold_clock" where
  "hold_expire t c = c\<lparr>hc_anchors := (hc_anchors c)(t := None)\<rparr>"

section \<open>Telemetry throttling\<close>

definition DEFAULT_INTERVAL :: f64 where "DEFAULT_INTERVAL = Fin 3"

definition last_emit :: "int \<Rightarrow> (int \<Rightarrow> f64 option) \<Rightarrow> f64" where
  "last_emit t T = getd (T t) 0"

definition may_emit :: "int \<Rightarrow> f64 \<Rightarrow> f64 \<Rightarrow> (int \<Rightarrow> f64 option) \<Rightarrow> bool" where
  "may_emit t now interval T \<longleftrightarrow> interval \<le> now - getd (T t) 0"

definition record_emit :: "int \<Rightarrow> f64 \<Rightarrow> (int \<Rightarrow> f64 option) \<Rightarrow> (int \<Rightarrow> f64 option)" where
  "record_emit t now T = T(t \<mapsto> now)"

definition throttle_drop :: "int \<Rightarrow> (int \<Rightarrow> f64 option) \<Rightarrow> (int \<Rightarrow> f64 option)" where
  "throttle_drop t T = T(t := None)"

section \<open>Hold scores\<close>

record hold_scores =
  hold_score :: "int \<Rightarrow> int option"
  base_hold_score :: "int \<Rightarrow> int option"
  last_reasons :: "int \<Rightarrow> string list option"
  last_hold_eval_time :: "int \<Rightarrow> f64 option"

definition hold_scores_drop :: "int \<Rightarrow> hold_scores \<Rightarrow> hold_scores" where
  "hold_scores_drop t H = \<lparr>hold_score = (hold_score H)(t := None), base_hold_score = (base_hold_score H)(t := None),
     last_reasons = (last_reasons H)(t := None), last_hold_eval_time = (last_hold_eval_time H)(t := None)\<rparr>"

section \<open>The ledgers as instances of the interfaces\<close>

definition peak_below :: "f64 \<Rightarrow> f64 \<Rightarrow> bool" where
  "peak_below u v \<longleftrightarrow> u = v \<or> u < v"

interpretation protection_peak: monotone_step update_peak peak_win_usd peak_below
proof
  show "peak_below v v" for v by (simp add: peak_below_def)
  show "peak_below u w" if "peak_below u v" "peak_below v w" for u v w
    using that by (auto simp: peak_below_def intro: f64_less_trans)
  show "peak_below (peak_win_usd s) (peak_win_usd (update_peak s e))" for s e
    by (auto simp: peak_below_def update_peak_def pmax_def)
qed

interpretation protection: ticket_ledger "\<lambda>L t. L t" None protection_update protection_drop
  by unfold_locales (auto simp: protection_update_def protection_drop_def protection_get_def
      split: option.splits)

datatype recovery_op =
    Allocate f64 f64 f64 f64 f64 py_datetime recovery_config
  | Evaluate f64 py_datetime

fun recovery_apply :: "int \<Rightarrow> recovery_op \<Rightarrow> recovery_ledger \<Rightarrow> recovery_ledger" where
  "recovery_apply t (Allocate risk pnl conf atr trend now c) L = snd (allocate t risk pnl conf atr trend now c L)"
| "recovery_apply t (Evaluate pnl now) L = snd (evaluate_exhaustion t pnl now L)"

definition recovery_view :: "recovery_ledger \<Rightarrow> int \<Rightarrow>
    (f64 option \<times> f64 option \<times> f64 option) \<times> f64 option \<times> py_datetime option \<times> f64 option" where
  "recovery_view L t = ((budget_initial L t, budget_remaining L t, budget_consumed L t),
     initial_loss L t, entry_times L t, horizons L t)"

lemma allocate_frame: "t \<noteq> t' \<Longrightarrow> recovery_view (snd (allocate t risk pnl conf atr trend now c L)) t' = recovery_view L t'"
  by (auto simp: allocate_def recovery_view_def Let_def split: option.splits sum.splits)

lemma evaluate_frame: "t \<noteq> t' \<Longrightarrow> recovery_view (snd (evaluate_exhaustion t pnl now L)) t' = recovery_view L t'"
  by (auto simp: evaluate_exhaustion_def recovery_view_def Let_def split: option.splits)

interpretation recovery: ticket_ledger recovery_view "((None, None, None), None, None, None)"
  recovery_apply recovery_drop
proof
  show "recovery_view (recovery_apply t x s) t' = recovery_view s t'" if "t \<noteq> t'" for t t' x s
    using that by (cases x) (auto simp: allocate_frame evaluate_frame)
  show "recovery_view (recovery_drop t s) t = ((None, None, None), None, None, None)" for t s
    by (simp add: recovery_view_def recovery_drop_def)
  show "recovery_view (recovery_drop t s) t' = recovery_view s t'" if "t \<noteq> t'" for t t' s
    using that by (simp add: recovery_view_def recovery_drop_def)
qed

definition hold_apply :: "int \<Rightarrow> (py_datetime option \<times> py_datetime option) \<times> f64 \<times> py_datetime
    \<Rightarrow> hold_clock \<Rightarrow> hold_clock" where
  "hold_apply t x c = (case x of ((broker, wall), clock, wall_now) \<Rightarrow>
     (case hold_register t broker wall clock wall_now c of Inl _ \<Rightarrow> c | Inr (_, c') \<Rightarrow> c'))"

interpretation hold: ticket_ledger hc_anchors None hold_apply hold_expire
proof
  show "hc_anchors (hold_apply t x s) t' = hc_anchors s t'" if "t \<noteq> t'" for t t' x s
    using that by (auto simp: hold_apply_def hold_register_def bindR_eq_Inr split: prod.splits sum.splits)
qed (auto simp: hold_expire_def)

interpretation throttle: ticket_ledger "\<lambda>T t. T t" None record_emit throttle_drop
  by unfold_locales (auto simp: record_emit_def throttle_drop_def)

section \<open>Facts the properties share\<close>

lemma pmax_Fin [simp]: "pmax (Fin a) (Fin b) = Fin (max a b)"
  by (simp add: pmax_def max_def)

text \<open>The allocation fields of a ticket are never overwritten.\<close>

definition allocation_of :: "recovery_ledger \<Rightarrow> int \<Rightarrow> f64 option \<times> f64 option \<times> py_datetime option \<times> f64 option" where
  "allocation_of L t = (budget_initial L t, initial_loss L t, entry_times L t, horizons L t)"

lemma evaluate_keeps_allocation:
  "allocation_of (snd (evaluate_exhaustion t pnl now L)) t' = allocation_of L t'"
  by (auto simp: evaluate_exhaustion_def allocation_of_def Let_def split: option.splits)

lemma allocate_keeps_allocation:
  "is_allocated t' L \<Longrightarrow> allocation_of (snd (allocate t risk pnl conf atr trend now c L)) t' = allocation_of L t'"
  by (cases "t = t'") (auto simp: allocate_def allocation_of_def is_allocated_def Let_def split: option.splits sum.splits)

lemma allocation_immutable:
  "is_allocated t L \<Longrightarrow> allocation_of (recovery.apply_all xs L) t = allocation_of L t"
proof (induction xs arbitrary: L)
  case (Cons x xs)
  obtain t' p where x: "x = (t', p)" by (cases x)
  have step: "allocation_of (recovery_apply t' p L) t = allocation_of L t"
    using Cons.prems by (cases p) (auto simp: evaluate_keeps_allocation allocate_keeps_allocation)
  then have "is_allocated t (recovery_apply t' p L)"
    using Cons.prems by (simp add: is_allocated_def allocation_of_def)
  then show ?case using Cons.IH step by (simp add: recovery.apply_all_def x)
qed (simp add: recovery.apply_all_def)

text \<open>The verdict is a function of the allocation, the loss and the time.\<close>

definition exhausted :: "int \<Rightarrow> f64 \<Rightarrow> py_datetime \<Rightarrow> recovery_ledger \<Rightarrow> bool" where
  "exhausted t pnl now L = fst (fst (evaluate_exhaustion t pnl now L))"

lemma exhausted_eq:
  assumes "allocation_of L t = (Some b, Some loss, Some entry, Some h)"
  shows "exhausted t pnl now L \<longleftrightarrow> pmax 0 (b - consumed_of loss pnl) \<le> 0
     \<or> h < total_seconds (instant now - instant entry)"
  using assms by (auto simp: exhausted_def evaluate_exhaustion_def allocation_of_def Let_def getd_def)

lemma pmax_0_le_0: "pmax 0 x \<le> 0 \<longleftrightarrow> \<not> 0 < x"
  by (cases x) (auto simp: pmax_def zero_f64_Fin)

lemma consumed_not_NaN: "0 \<le> consumed_of loss pnl" "consumed_of loss pnl \<noteq> NaN"
  by (cases "(if pnl < 0 then fabs64 pnl else 0) - loss"; auto simp: consumed_of_def pmax_def zero_f64_Fin)+

lemma consumed_mono:
  assumes "pnl' \<le> pnl" and "loss \<noteq> PInf"
  shows "consumed_of loss pnl \<le> consumed_of loss pnl'"
proof -
  let ?l = "\<lambda>p. if p < (0::f64) then fabs64 p else 0"
  have l: "?l pnl \<le> ?l pnl'" "?l pnl \<noteq> NInf" "?l pnl \<noteq> NaN" "?l pnl' \<noteq> NaN"  "?l pnl' \<noteq> NInf"
    using assms by (cases pnl; cases pnl'; auto simp: zero_f64_Fin)+
  have m: "?l pnl + - loss \<le> ?l pnl' + - loss" if "loss \<noteq> NaN"
    using that assms l by (cases loss; cases "?l pnl"; cases "?l pnl'") (auto intro!: fl_mono f64_extremes)
  show ?thesis
  proof (cases "loss = NaN")
    case True
    then show ?thesis
      using l by (cases "?l pnl"; cases "?l pnl'") (auto simp: consumed_of_def minus_f64_def pmax_def zero_f64_Fin)
  next
    case False
    then show ?thesis using m [OF False]
      unfolding consumed_of_def minus_f64_def pmax_def
      by (auto simp: zero_f64_Fin intro: f64_less_imp_le f64_le_trans f64_less_le_trans f64_le_refl)
  qed
qed

lemma budget_left_antimono:
  assumes "c \<le> c'" and "\<not> 0 < b - c"
  shows "\<not> (0::f64) < b - c'"
proof
  assume pos: "0 < b - c'"
  have "b - c' \<le> b - c \<or> b - c = NaN"
    using assms(1) pos unfolding minus_f64_def
    by (cases b; cases c; cases c') (auto intro!: fl_mono f64_extremes simp: zero_f64_Fin)
  moreover have "b - c \<noteq> NaN"
    using assms pos unfolding minus_f64_def
    by (cases b; cases c; cases c') (auto simp: zero_f64_Fin)
  ultimately show False using pos assms(2) f64_less_le_trans by blast
qed

lemma horizon_returns: "\<exists>h. horizon_of c confidence atr trend = Inr h"
proof -
  let ?q = "pmax atr (Fin (1 / 2)) / Fin (3 / 2)"
  have "\<not> feq ?q 0"
  proof (cases "pmax atr (Fin (1 / 2))")
    case (Fin a)
    then have "1 / 2 \<le> a" by (cases atr) (auto simp: pmax_def split: if_splits)
    then have "fl (1 / 4) \<le> fl (a / (3 / 2))" by (intro fl_mono) simp
    moreover have "Fin 0 < fl (1 / 4)" by code_simp
    ultimately have "Fin 0 < ?q" using Fin by (auto intro: f64_less_le_trans)
    then show ?thesis by (auto simp: feq_def zero_f64_Fin)
  qed (auto simp: feq_def zero_f64_Fin)
  moreover have "\<not> feq (Fin (3 / 2)) 0" by (simp add: feq_def zero_f64_Fin)
  ultimately show ?thesis by (auto simp: horizon_of_def py_div_def Let_def ret_def)
qed

lemma horizon_bounds:
  assumes "horizon_of c confidence atr trend = Inr h" and "min_horizon_sec c \<le> max_horizon_sec c"
  shows "min_horizon_sec c \<le> h \<and> h \<le> max_horizon_sec c"
proof -
  obtain base where h: "h = pmax (min_horizon_sec c) (pmin (max_horizon_sec c) base)"
    using assms(1) by (auto simp: horizon_of_def bindR_eq_Inr Let_def)
  have nn: "min_horizon_sec c \<noteq> NaN" "max_horizon_sec c \<noteq> NaN" using assms(2) by (auto dest: f64_le_not_NaN)
  then show ?thesis using assms(2) pmax_ge [OF nn(1)] pmin_le [OF nn(2), of base] unfolding h
    by (auto simp: pmax_def)
qed

lemma allocate_allocation:
  assumes "budget_initial L t = None" and "horizon_of c confidence atr trend = Inr h"
  shows "fst (allocate t risk pnl confidence atr trend now c L)
      = Inr (budget_of (initial_risk_of risk atr) (budget_pct_of_r c) (fabs64 pnl))"
    and "allocation_of (snd (allocate t risk pnl confidence atr trend now c L)) t =
      (Some (budget_of (initial_risk_of risk atr) (budget_pct_of_r c) (fabs64 pnl)), Some (fabs64 pnl), Some now, Some h)"
  using assms by (simp_all add: allocate_def allocation_of_def Let_def ret_def)

lemma budget_bounds:
  assumes "0 < risk" "isfinite risk" "dbl risk" "0 \<le> pct" "isfinite pct" "isfinite pnl"
  obtains b where "budget_of risk pct (fabs64 pnl) = Fin b" "0 \<le> b" "Fin b \<le> risk" "dbl (Fin b) \<or> \<not> dbl pct \<or> \<not> dbl pnl"
proof -
  obtain r p q where r: "risk = Fin r" "pct = Fin p" "pnl = Fin q" using assms by (auto elim!: isfiniteE)
  let ?x = "pmax 0 (risk - fabs64 pnl)" and ?y = "risk * pct"
  have "risk - fabs64 pnl \<le> risk" using assms fsub_le [of risk "fabs64 pnl"] by (simp add: r minus_f64_def)
  then have x: "?x \<le> risk" "0 \<le> ?x" using assms(1) unfolding pmax_def
    by (auto simp: zero_f64_Fin r intro: f64_less_imp_le)
  have y: "0 \<le> ?y" "?y \<noteq> NaN" using assms(1,4) by (simp_all add: r zero_f64_Fin fl_nonneg)
  have b: "0 \<le> pmin ?y ?x" "pmin ?y ?x \<le> ?x" using x y pmin_le2 [of ?y ?x] f64_le_not_NaN
    by (auto simp: pmin_def)
  then obtain b where bb: "pmin ?y ?x = Fin b" using x by (cases "pmin ?y ?x") (auto simp: r zero_f64_Fin dest: f64_le_trans)
  show thesis
  proof (rule that)
    show "budget_of risk pct (fabs64 pnl) = Fin b" using bb by (simp add: budget_of_def)
    show "0 \<le> b" using b(1) unfolding bb by (simp add: zero_f64_Fin)
    show "Fin b \<le> risk" using b(2) x(1) by (auto simp: bb intro: f64_le_trans)
    show "dbl (Fin b) \<or> \<not> dbl pct \<or> \<not> dbl pnl" using assms(3) by (auto simp flip: bb)
  qed
qed

lemma consumed_finite:
  assumes "isfinite pnl" "isfinite pnl0" "dbl pnl" "dbl pnl0"
  obtains u where "consumed_of (fabs64 pnl0) pnl = Fin u" "dbl (Fin u)"
proof -
  have d: "dbl (consumed_of (fabs64 pnl0) pnl)" using assms by (simp add: consumed_of_def)
  let ?l = "if pnl < 0 then fabs64 pnl else 0"
  have f: "dbl ?l" "?l \<noteq> PInf" "?l \<noteq> NaN" using assms dbl_0(1)
    by (auto elim!: isfiniteE simp: zero_f64_Fin simp del: dbl_0)
  have "?l - fabs64 pnl0 \<le> ?l" using f assms fsub_le [of ?l "fabs64 pnl0"]
    by (auto elim!: isfiniteE simp: zero_f64_Fin minus_f64_def split: if_splits)
  then have "?l - fabs64 pnl0 \<noteq> PInf" using f by (cases ?l) auto
  then have "consumed_of (fabs64 pnl0) pnl \<noteq> PInf" by (auto simp: consumed_of_def pmax_def zero_f64_Fin)
  then show thesis using d consumed_not_NaN [of "fabs64 pnl0" pnl] that
    by (cases "consumed_of (fabs64 pnl0) pnl") (auto simp: zero_f64_Fin)
qed

lemma left_positive_iff: "dbl (Fin b) \<Longrightarrow> dbl (Fin u) \<Longrightarrow> 0 < Fin b - Fin u \<longleftrightarrow> u < b"
proof -
  assume "dbl (Fin b)" "dbl (Fin u)"
  from fsub_le_0_iff [OF this] have "\<not> fl (b - u) \<le> Fin 0 \<longleftrightarrow> u < b" by auto
  then show ?thesis by (simp add: minus_f64_def zero_f64_Fin f64_not_le)
qed

lemma remaining_after_evaluation:
  "budget_initial L t = Some b \<Longrightarrow> initial_loss L t = Some loss \<Longrightarrow>
   recovery_remaining t d (snd (evaluate_exhaustion t pnl now L)) = pmax 0 (b - consumed_of loss pnl)"
  by (auto simp: recovery_remaining_def evaluate_exhaustion_def getd_def Let_def split: option.splits)

lemma fl_half: "fl (1 / 2) = Fin (1 / 2)"
  by code_simp

section \<open>Properties\<close>

text \<open>The first allocation for a ticket returns a budget between zero and the initial risk and
  stores a horizon between the configured limits. Whatever is allocated and evaluated later, for
  any ticket, the verdict on that ticket is: exhausted exactly when the loss beyond the one at
  allocation has reached that budget, or more time than that horizon has passed since the
  allocation; and the remaining budget an evaluation stores stays between zero and the
  allocated one.\<close>

lemma recovery_budget_exact:
  assumes "budget_initial L t = None" and "0 < risk" "isfinite risk" "0 \<le> budget_pct_of_r c"
    and "isfinite (budget_pct_of_r c)" "isfinite pnl0" "dbl risk" "dbl (budget_pct_of_r c)" "dbl pnl0"
    and "min_horizon_sec c \<le> max_horizon_sec c" and "isfinite pnl" "dbl pnl"
    and "L' = recovery.apply_all xs (snd (allocate t risk pnl0 conf atr trend entry c L))"
  shows "\<exists>b u h. fst (allocate t risk pnl0 conf atr trend entry c L) = Inr (Fin b)
    \<and> 0 \<le> b \<and> Fin b \<le> risk \<and> min_horizon_sec c \<le> h \<and> h \<le> max_horizon_sec c
    \<and> consumed_of (fabs64 pnl0) pnl = Fin u
    \<and> (exhausted t pnl now L' \<longleftrightarrow> b \<le> u \<or> h < total_seconds (instant now - instant entry))
    \<and> 0 \<le> recovery_remaining t d (snd (evaluate_exhaustion t pnl now L'))
    \<and> recovery_remaining t d (snd (evaluate_exhaustion t pnl now L')) \<le> Fin b"
proof -
  obtain h where h: "horizon_of c conf atr trend = Inr h" using horizon_returns by blast
  obtain u where u: "consumed_of (fabs64 pnl0) pnl = Fin u" "dbl (Fin u)"
    by (rule consumed_finite [OF assms(11,6,12,9)])
  then have u0: "0 \<le> u" using consumed_not_NaN(1) [of "fabs64 pnl0" pnl] by (simp add: zero_f64_Fin)
  have risk: "initial_risk_of risk atr = risk"
    using assms(2) by (cases risk) (auto simp: initial_risk_of_def zero_f64_Fin)
  obtain b where b: "budget_of risk (budget_pct_of_r c) (fabs64 pnl0) = Fin b" "0 \<le> b" "Fin b \<le> risk" "dbl (Fin b)"
    using budget_bounds [OF assms(2,3,7,4,5,6)] assms(8,9) by blast
  note a = allocate_allocation [OF assms(1) h, of risk pnl0 entry, unfolded risk b(1)]
  have al: "allocation_of L' t = (Some (Fin b), Some (fabs64 pnl0), Some entry, Some h)"
    using allocation_immutable [of t "snd (allocate t risk pnl0 conf atr trend entry c L)" xs] a(2)
    by (simp add: assms(13) is_allocated_def allocation_of_def)
  have iff: "exhausted t pnl now L' \<longleftrightarrow> b \<le> u \<or> h < total_seconds (instant now - instant entry)"
    unfolding exhausted_eq [OF al] pmax_0_le_0 u(1) left_positive_iff [OF b(4) u(2)] by auto
  have rem: "recovery_remaining t d (snd (evaluate_exhaustion t pnl now L')) = pmax 0 (Fin b - Fin u)"
    using remaining_after_evaluation [of L' t "Fin b" "fabs64 pnl0" d pnl now] al
    by (simp add: allocation_of_def u(1))
  have "Fin b - Fin u \<le> Fin b" using fsub_le [OF b(4), of "Fin u"] u0 by (simp add: minus_f64_def)
  then have "0 \<le> pmax 0 (Fin b - Fin u)" "pmax 0 (Fin b - Fin u) \<le> Fin b"
    using b(2) by (auto simp: pmax_def zero_f64_Fin intro: f64_less_imp_le)
  with a(1) b u(1) iff horizon_bounds [OF h assms(10)] show ?thesis
    unfolding rem by (intro exI [of _ b] exI [of _ u] exI [of _ h]) simp
qed

definition sample_recovery_config :: recovery_config where
  "sample_recovery_config = \<lparr>budget_pct_of_r = Fin (1 / 2), default_horizon_sec = Fin 180,
     min_horizon_sec = Fin 30, max_horizon_sec = Fin 600\<rparr>"

lemma sample_recovery_simps [simp]:
  "budget_pct_of_r sample_recovery_config = Fin (1 / 2)"
  "min_horizon_sec sample_recovery_config = Fin 30" "max_horizon_sec sample_recovery_config = Fin 600"
  "budget_initial recovery_init t = None"
  by (simp_all add: sample_recovery_config_def recovery_init_def)

definition sample_recovery :: recovery_ledger where
  "sample_recovery = recovery.apply_all [(8, Evaluate (Fin 1) (utc 0))]
     (snd (allocate 7 (Fin 100) (Fin (- 10)) (Fin (1 / 2)) (Fin 2) (Fin 0) (utc 0) sample_recovery_config recovery_init))"

lemma recovery_budget_exact_witness:
  "\<exists>b u h. 0 \<le> b \<and> Fin b \<le> Fin 100 \<and> Fin 30 \<le> h \<and> h \<le> Fin 600
    \<and> consumed_of (fabs64 (Fin (- 10))) (Fin (- 70)) = Fin u
    \<and> (exhausted 7 (Fin (- 70)) (utc 5000000) sample_recovery \<longleftrightarrow> b \<le> u \<or> h < total_seconds 5000000)"
proof -
  have "dbl (Fin (- 10))" "dbl (Fin (- 70))" "dbl (Fin 100)" "dbl (Fin (1 / 2))"
    by (simp_all add: dbl_Fin fl_half)
  then show ?thesis
    using recovery_budget_exact [of recovery_init 7 "Fin 100" sample_recovery_config "Fin (- 10)" "Fin (- 70)"
        sample_recovery "[(8, Evaluate (Fin 1) (utc 0))]" "Fin (1 / 2)" "Fin 2" "Fin 0" "utc 0" "utc 5000000" 0]
    by (simp only: sample_recovery_simps isfinite_Fin simp_thms zero_f64_Fin less_f64.simps less_eq_f64.simps
        instant_utc sample_recovery_def) auto
qed

text \<open>Exhaustion is not undone by anything short of a smaller loss or dropping the ticket: a
  ticket that is exhausted at some loss and time is exhausted at every deeper loss and later
  time, whatever was allocated and evaluated in between.\<close>

lemma recovery_exhaustion_persists:
  assumes "allocation_of L t = (Some b, Some loss, Some entry, Some h)" "loss \<noteq> PInf"
    and "exhausted t pnl now L" "pnl' \<le> pnl" "instant now \<le> instant now'"
  shows "exhausted t pnl' now' (recovery.apply_all xs L)"
proof -
  have al: "allocation_of (recovery.apply_all xs L) t = (Some b, Some loss, Some entry, Some h)"
    using allocation_immutable [of t L xs] assms(1) by (simp add: is_allocated_def allocation_of_def)
  have "total_seconds (instant now - instant entry) \<le> total_seconds (instant now' - instant entry)"
    using assms(5) by (intro total_seconds_mono) simp
  then show ?thesis
    using assms(3) budget_left_antimono [OF consumed_mono [OF assms(4,2)], of b]
    unfolding exhausted_eq [OF al] exhausted_eq [OF assms(1)] pmax_0_le_0
    by (auto intro: f64_less_le_trans)
qed

lemma recovery_exhaustion_persists_witness:
  "exhausted 7 (Fin (- 90)) (utc 2000000) (recovery.apply_all [(7, Evaluate (Fin 5) (utc 1500000))] sample_recovery)"
proof -
  obtain h where h: "horizon_of sample_recovery_config (Fin (1 / 2)) (Fin 2) (Fin 0) = Inr h"
    using horizon_returns by blast
  have b: "budget_of (initial_risk_of (Fin 100) (Fin 2)) (Fin (1 / 2)) (Fin 10) = Fin 50" by code_simp
  have a: "allocation_of sample_recovery 7 = (Some (Fin 50), Some (Fin 10), Some (utc 0), Some h)"
    using allocate_allocation(2) [OF _ h, of recovery_init 7 "Fin 100" "Fin (- 10)" "utc 0"] b
    unfolding sample_recovery_def
    by (simp add: recovery.apply_all_def evaluate_keeps_allocation)
  have "exhausted 7 (Fin (- 70)) (utc 1000000) sample_recovery"
  proof -
    have "pmax 0 (Fin 50 - consumed_of (Fin 10) (Fin (- 70))) \<le> 0" by code_simp
    then show ?thesis unfolding exhausted_eq [OF a] ..
  qed
  from recovery_exhaustion_persists [OF a _ this, of "Fin (- 90)" "utc 2000000"] show ?thesis by simp
qed

definition finite_parts :: "f64 list \<Rightarrow> rat set" where
  "finite_parts xs = {r. Fin r \<in> set xs}"

lemma finite_finite_parts [simp]: "finite (finite_parts xs)"
proof -
  have "Fin ` finite_parts xs \<subseteq> set xs" by (auto simp: finite_parts_def)
  then have "finite (Fin ` finite_parts xs)" by (rule finite_subset) simp
  then show ?thesis by (rule finite_imageD) (simp add: inj_on_def)
qed

text \<open>The peak of a position is exactly the largest finite profit it was ever updated with, and
  never below zero: NaN and infinite readings leave it alone, and no later reading lowers it.\<close>

lemma protection_peak_exact:
  "peak_win_usd (run update_peak new_protection pnls) = Fin (Max (insert 0 (finite_parts pnls)))
   \<and> peak_below (peak_win_usd (run update_peak new_protection pnls))
        (peak_win_usd (run update_peak new_protection (pnls @ later)))"
proof (intro conjI protection_peak.run_below_prefix)
  show "peak_win_usd (run update_peak new_protection pnls) = Fin (Max (insert 0 (finite_parts pnls)))"
  proof (induction pnls rule: rev_induct)
    case Nil
    then show ?case by (simp add: new_protection_def finite_parts_def zero_f64_Fin)
  next
    case (snoc x xs)
    show ?case
    proof (cases x)
      case (Fin r)
      then have "finite_parts (xs @ [x]) = insert r (finite_parts xs)" by (auto simp: finite_parts_def)
      then have "Max (insert 0 (finite_parts (xs @ [x]))) = max r (Max (insert 0 (finite_parts xs)))"
        by (simp only: insert_commute [of 0 r]) (simp add: Max_insert)
      moreover have "peak_win_usd (run update_peak new_protection (xs @ [x])) = pmax (peak_win_usd (run update_peak new_protection xs)) (Fin r)"
        using Fin by (simp add: run_snoc update_peak_def isnan_def isinf64_def)
      ultimately show ?thesis unfolding snoc by (simp only: pmax_Fin max.commute)
    qed (use snoc in \<open>auto simp: run_snoc update_peak_def isnan_def isinf64_def finite_parts_def\<close>)
  qed
qed

lemma sanity_of_fields:
  "sr_monotonic (sanity_of k ms ws bs) = Some ms" "sr_wallclock (sanity_of k ms ws bs) = Some ws"
  "tolerance_sec ms ws < fabs64 (ms - ws) \<Longrightarrow> sr_status (sanity_of k ms ws bs) = SUSPECT"
  by (simp_all add: sanity_of_def Let_def split: option.splits)

lemma REL_TOLERANCE_le: "SANITY_REL_TOLERANCE * Fin 176400 < Fin 3600"
  by code_simp

lemma tolerance_below_hour:
  assumes "p \<le> Fin 176400" "q \<le> Fin 176400" "Fin 0 \<le> p" "Fin 0 \<le> q"
  shows "tolerance_sec p q < Fin 3600"
proof -
  obtain m where m: "pmax p q = Fin m" "m \<le> 176400" "0 \<le> m"
  proof (cases p; cases q)
    fix a b assume "p = Fin a" "q = Fin b"
    then show thesis using assms by (intro that [of "max a b"]) auto
  qed (use assms in auto)
  obtain k where k: "SANITY_REL_TOLERANCE = Fin k" "0 \<le> k"
  proof (cases "1 / 50 :: rat" rule: fl_cases)
    case Fin
    then show thesis using that rnd_nonneg [of "1 / 50"] by (simp add: SANITY_REL_TOLERANCE_def)
  qed (use REL_TOLERANCE_le in \<open>auto simp: SANITY_REL_TOLERANCE_def f64_sgn_def\<close>)
  have "SANITY_REL_TOLERANCE * pmax p q \<le> SANITY_REL_TOLERANCE * Fin 176400"
    unfolding k m using m(2,3) k(2) by (auto intro!: fl_mono mult_left_mono)
  then show ?thesis
    using REL_TOLERANCE_le by (auto simp: tolerance_sec_def pmax_def SANITY_ABS_TOLERANCE_def intro: f64_le_less_trans)
qed

text \<open>While a wall clock step of an hour or more separates it from the monotonic clock and
  neither clock shows more than 49 hours, a position's holding duration is reported SUSPECT.\<close>

lemma hold_sanity_flags_hour_step:
  assumes "hold_sanity t broker_now clock wall_now c = Inr r"
    and "sr_monotonic r = Some (Fin p)" "sr_wallclock r = Some (Fin q)"
    and "p \<le> 176400" "q \<le> 176400" "3600 \<le> \<bar>p - q\<bar>"
  shows "sr_status r = SUSPECT"
proof -
  obtain a where a: "hc_anchors c t = Some a"
    using assms by (cases "hc_anchors c t") (auto simp: hold_sanity_def)
  obtain m broker wall where aa: "a = (m, broker, wall)" by (cases a)
  have pq: "pmax 0 (clock - m) = Fin p" "pmax 0 (total_seconds (instant wall_now - instant wall)) = Fin q"
    and st: "sr_status r = SUSPECT \<or> \<not> tolerance_sec (Fin p) (Fin q) < fabs64 (Fin p - Fin q)"
  proof -
    obtain bs where "r = sanity_of (hc_max_plausible c) (pmax 0 (clock - m))
        (pmax 0 (total_seconds (instant wall_now - instant wall))) bs"
      using assms(1) by (auto simp: hold_sanity_def a aa bindR_eq_Inr)
    then show "pmax 0 (clock - m) = Fin p" "pmax 0 (total_seconds (instant wall_now - instant wall)) = Fin q"
      "sr_status r = SUSPECT \<or> \<not> tolerance_sec (Fin p) (Fin q) < fabs64 (Fin p - Fin q)"
      using assms(2,3) by (auto simp: sanity_of_fields)
  qed
  have nn: "0 \<le> p" "0 \<le> q" using pq by (auto simp: pmax_def zero_f64_Fin split: if_splits)
  have h: "fl 3600 = Fin 3600" "fl (- 3600) = Fin (- 3600)" by simp_all
  have "Fin 3600 \<le> fabs64 (fl (p - q))"
  proof (cases "0 \<le> p - q")
    case True
    then have "Fin 3600 \<le> fl (p - q)" using fl_mono [of 3600 "p - q"] assms(6) h by simp
    then show ?thesis by (cases "fl (p - q)") auto
  next
    case False
    then have "fl (p - q) \<le> Fin (- 3600)" using fl_mono [of "p - q" "- 3600"] assms(6) h by simp
    then show ?thesis by (cases "fl (p - q)") auto
  qed
  then have "tolerance_sec (Fin p) (Fin q) < fabs64 (Fin p - Fin q)"
    using tolerance_below_hour [of "Fin p" "Fin q"] assms(4,5) nn
    by (auto simp: minus_f64_def intro: f64_less_le_trans)
  then show ?thesis using st by simp
qed

definition sample_hold :: hold_clock where
  "sample_hold = \<lparr>hc_max_plausible = DEFAULT_MAX_PLAUSIBLE,
     hc_anchors = (\<lambda>t. if t = 7 then Some (Fin 1000, None, utc 0) else None)\<rparr>"

lemma hold_sanity_flags_hour_step_witness:
  "sr_status (projr (hold_sanity 7 None (Fin 1500) (utc 4100000000) sample_hold)) = SUSPECT"
proof -
  let ?r = "hold_sanity 7 None (Fin 1500) (utc 4100000000) sample_hold"
  have r: "?r = Inr (sanity_of DEFAULT_MAX_PLAUSIBLE (Fin 500) (Fin 4100) None)"
    by (simp add: hold_sanity_def sample_hold_def broker_clock_sec_def ret_def minus_f64_def
        total_seconds_def zero_f64_Fin)
  have "sr_status (sanity_of DEFAULT_MAX_PLAUSIBLE (Fin 500) (Fin 4100) None) = SUSPECT"
    by (rule hold_sanity_flags_hour_step [OF r sanity_of_fields(1,2)]) simp_all
  then show ?thesis unfolding r by simp
qed

text \<open>A wall clock that has stepped back past the entry time is reported OK during the first
  minute of a hold, however far it stepped: the negative wall duration is clamped to zero before
  the comparison.\<close>

lemma hold_sanity_masks_backward_step:
  assumes "hc_anchors c t = Some (m, None, wall)" and "instant wall_now \<le> instant wall"
    and "clock - m \<le> Fin 60" and "Fin 60 \<le> hc_max_plausible c"
  shows "\<exists>r. hold_sanity t broker_now clock wall_now c = Inr r \<and> sr_status r = OK \<and> sr_wallclock r = Some 0"
proof -
  have "total_seconds (instant wall_now - instant wall) \<le> total_seconds 0"
    using assms(2) by (intro total_seconds_mono) simp
  then have w: "pmax 0 (total_seconds (instant wall_now - instant wall)) = 0"
    by (auto simp: pmax_def zero_f64_Fin dest: f64_le_less_trans)
  obtain p where p: "pmax 0 (clock - m) = Fin p" "0 \<le> p" "p \<le> 60"
  proof (cases "clock - m")
    case (Fin x)
    then show thesis using assms(3) by (intro that [of "max 0 x"]) (auto simp: zero_f64_Fin)
  next
    case NInf
    then show thesis by (intro that [of 0]) (auto simp: pmax_def zero_f64_Fin)
  qed (use assms(3) in auto)
  have "fl p \<le> Fin 60" using fl_mono [of p 60] p by simp
  moreover have "Fin 0 \<le> fl p" using p by (intro fl_nonneg)
  ultimately have "fabs64 (Fin p - 0) \<le> Fin 60" by (cases "fl p") (auto simp: minus_f64_def zero_f64_Fin)
  moreover have "Fin 60 \<le> tolerance_sec (Fin p) 0"
    unfolding tolerance_sec_def SANITY_ABS_TOLERANCE_def by (rule pmax_ge) simp
  ultimately have "\<not> tolerance_sec (Fin p) 0 < fabs64 (Fin p - 0)"
    by (meson f64_le_less_trans f64_less_irrefl f64_less_le_trans)
  moreover have "\<not> hc_max_plausible c < Fin p"
    using assms(4) p(3) by (cases "hc_max_plausible c") auto
  ultimately show ?thesis
    by (simp add: hold_sanity_def broker_clock_sec_def sanity_of_def assms(1) w p(1) Let_def ret_def)
qed

lemma hold_sanity_masks_backward_step_witness:
  "sr_status (projr (hold_sanity 7 None (Fin 1010) (utc (- 10781600000)) sample_hold)) = OK"
proof -
  have "Fin 1010 - Fin 1000 \<le> Fin 60" by (simp add: minus_f64_def)
  then have "\<exists>r. hold_sanity 7 None (Fin 1010) (utc (- 10781600000)) sample_hold = Inr r \<and> sr_status r = OK \<and> sr_wallclock r = Some 0"
    by (intro hold_sanity_masks_backward_step [of sample_hold 7 "Fin 1000" "utc 0"])
      (simp_all add: sample_hold_def DEFAULT_MAX_PLAUSIBLE_def)
  then show ?thesis by auto
qed

end
