(* ===== verification/FeedEpoch.thy ===== *)
theory FeedEpoch
  imports Prelude PyNum PyTime
begin

text \<open>
  \<^verbatim>\<open>application/live/feed_epoch.py\<close>: the tracker that classifies every inbound tick and keeps a
  stale quote replayed after a broker reconnect from being taken for market data. Timestamps
  are the instants of aware datetimes; the optional monotonic reading \<^verbatim>\<open>now\<close> is an argument.
\<close>

section \<open>The tracker\<close>

datatype tick_class = FRESH | RECONNECT_REPLAY | DUPLICATE | STALE | REORDERED_FRESH

record tick_verdict =
  tv_accept :: bool
  tv_class :: tick_class
  tv_epoch :: int
  tv_detail :: string

record feed_tracker =
  ft_max_ticks :: int
  ft_max_sec :: f64
  ft_epoch :: int
  ft_reacquiring :: bool
  ft_count :: int
  ft_started :: "f64 option"
  ft_pre :: "(int option \<times> f64 \<times> f64) option"
  ft_last_ts :: "int option"
  ft_last_bid :: f64
  ft_last_ask :: f64
  ft_counts :: "tick_class \<Rightarrow> int"
  ft_reconnects :: int

definition DEFAULT_MAX_REACQUIRE_TICKS :: int where "DEFAULT_MAX_REACQUIRE_TICKS = 5"
definition DEFAULT_MAX_REACQUIRE_SEC :: f64 where "DEFAULT_MAX_REACQUIRE_SEC = Fin 5"

definition feed_init :: "int option \<Rightarrow> f64 option \<Rightarrow> feed_tracker" where
  "feed_init ticks sec = \<lparr>
     ft_max_ticks = (case ticks of Some n \<Rightarrow> if 0 < n then n else DEFAULT_MAX_REACQUIRE_TICKS
                     | None \<Rightarrow> DEFAULT_MAX_REACQUIRE_TICKS),
     ft_max_sec = (case sec of Some x \<Rightarrow> if 0 < x then x else DEFAULT_MAX_REACQUIRE_SEC
                   | None \<Rightarrow> DEFAULT_MAX_REACQUIRE_SEC),
     ft_epoch = 1, ft_reacquiring = False, ft_count = 0, ft_started = None, ft_pre = None,
     ft_last_ts = None, ft_last_bid = 0, ft_last_ask = 0, ft_counts = (\<lambda>_. 0), ft_reconnects = 0\<rparr>"

definition last_quote :: "feed_tracker \<Rightarrow> int option \<times> f64 \<times> f64" where
  "last_quote s = (ft_last_ts s, ft_last_bid s, ft_last_ask s)"

definition note_disconnect :: "feed_tracker \<Rightarrow> feed_tracker" where
  "note_disconnect s = s\<lparr>ft_pre := Some (last_quote s)\<rparr>"

definition note_reconnect :: "feed_tracker \<Rightarrow> feed_tracker" where
  "note_reconnect s = s\<lparr>ft_pre := (case ft_pre s of None \<Rightarrow> Some (last_quote s) | Some p \<Rightarrow> Some p),
     ft_epoch := ft_epoch s + 1, ft_reconnects := ft_reconnects s + 1, ft_reacquiring := True,
     ft_count := 0, ft_started := None\<rparr>"

definition note_recovered :: "feed_tracker \<Rightarrow> feed_tracker" where
  "note_recovered s = s\<lparr>ft_reacquiring := False, ft_count := 0, ft_started := None, ft_pre := None\<rparr>"

definition bump :: "tick_class \<Rightarrow> feed_tracker \<Rightarrow> feed_tracker" where
  "bump k s = s\<lparr>ft_counts := (ft_counts s)(k := ft_counts s k + 1)\<rparr>"

definition accept_tick ::
  "feed_tracker \<Rightarrow> int option \<Rightarrow> f64 \<Rightarrow> f64 \<Rightarrow> tick_class \<Rightarrow> bool \<Rightarrow> tick_verdict \<times> feed_tracker" where
  "accept_tick s ts bid ask k advance =
     (let newer = (case ts of None \<Rightarrow> False | Some x \<Rightarrow>
                     (case ft_last_ts s of None \<Rightarrow> True | Some y \<Rightarrow> y < x));
          s = (if advance \<and> newer then s\<lparr>ft_last_ts := ts\<rparr> else s);
          s = bump k (s\<lparr>ft_last_bid := bid, ft_last_ask := ask\<rparr>)
      in (\<lparr>tv_accept = True, tv_class = k, tv_epoch = ft_epoch s, tv_detail = ''''\<rparr>, s))"

definition reject_tick :: "feed_tracker \<Rightarrow> tick_class \<Rightarrow> string \<Rightarrow> tick_verdict \<times> feed_tracker" where
  "reject_tick s k detail =
     (\<lparr>tv_accept = False, tv_class = k, tv_epoch = ft_epoch s, tv_detail = detail\<rparr>, bump k s)"

definition looks_like_pre_disconnect :: "feed_tracker \<Rightarrow> int option \<Rightarrow> f64 \<Rightarrow> f64 \<Rightarrow> bool" where
  "looks_like_pre_disconnect s ts bid ask =
     (case ft_pre s of
        None \<Rightarrow> False
      | Some (pre_ts, pre_bid, pre_ask) \<Rightarrow>
          if \<not> (feq bid pre_bid \<and> feq ask pre_ask) then False
          else (case (ts, pre_ts) of (Some x, Some y) \<Rightarrow> x \<le> y | _ \<Rightarrow> True))"

definition window_tick :: "feed_tracker \<Rightarrow> f64 option \<Rightarrow> feed_tracker" where
  "window_tick s now =
     (let s = (if ft_started s = None \<and> now \<noteq> None then s\<lparr>ft_started := now\<rparr> else s)
      in s\<lparr>ft_count := ft_count s + 1\<rparr>)"

definition window_expired :: "feed_tracker \<Rightarrow> f64 option \<Rightarrow> bool" where
  "window_expired s now \<longleftrightarrow> ft_max_ticks s < ft_count s
     \<or> (case (now, ft_started s) of (Some n, Some b) \<Rightarrow> ft_max_sec s < n - b | _ \<Rightarrow> False)"

definition classify_reacquiring ::
  "feed_tracker \<Rightarrow> int option \<Rightarrow> f64 \<Rightarrow> f64 \<Rightarrow> f64 option \<Rightarrow> tick_verdict \<times> feed_tracker" where
  "classify_reacquiring s ts bid ask now =
     (let s = window_tick s now
      in if \<not> window_expired s now \<and> looks_like_pre_disconnect s ts bid ask
         then reject_tick s RECONNECT_REPLAY ''pre-disconnect quote''
         else accept_tick (note_recovered s) ts bid ask FRESH True)"

definition classify ::
  "feed_tracker \<Rightarrow> int option \<Rightarrow> f64 \<Rightarrow> f64 \<Rightarrow> f64 option \<Rightarrow> tick_verdict \<times> feed_tracker" where
  "classify s ts bid ask now =
     (if ft_reacquiring s then classify_reacquiring s ts bid ask now
      else let same_quote = (feq bid (ft_last_bid s) \<and> feq ask (ft_last_ask s));
               same_ts = (ts \<noteq> None \<and> ft_last_ts s \<noteq> None \<and> ts = ft_last_ts s)
      in if same_quote \<and> (same_ts \<or> ts = None) then
           reject_tick s DUPLICATE ''identical to last accepted tick''
         else (case (ts, ft_last_ts s) of
             (Some x, Some y) \<Rightarrow>
               if y < x then accept_tick s ts bid ask FRESH True
               else if x < y then
                 (if same_quote then reject_tick s STALE ''older timestamp, no new quote''
                  else accept_tick s ts bid ask REORDERED_FRESH False)
               else accept_tick s ts bid ask FRESH True
           | _ \<Rightarrow> accept_tick s ts bid ask FRESH True))"

section \<open>Runs of the tracker\<close>

datatype feed_event =
    Tick "int option" f64 f64 "f64 option" | Disconnect | Reconnect | Recovered

fun feed_step :: "feed_tracker \<Rightarrow> feed_event \<Rightarrow> feed_tracker" where
  "feed_step s (Tick ts bid ask now) = snd (classify s ts bid ask now)"
| "feed_step s Disconnect = note_disconnect s"
| "feed_step s Reconnect = note_reconnect s"
| "feed_step s Recovered = note_recovered s"

lemmas feed_defs = classify_def classify_reacquiring_def accept_tick_def reject_tick_def
  note_recovered_def note_reconnect_def note_disconnect_def bump_def Let_def

text \<open>The order of timestamps with the missing one lowest.\<close>

definition ts_le :: "int option \<Rightarrow> int option \<Rightarrow> bool" where
  "ts_le a b = (case (a, b) of (None, _) \<Rightarrow> True | (Some x, Some y) \<Rightarrow> x \<le> y | _ \<Rightarrow> False)"

lemma accept_last_ts:
  "ft_last_ts (snd (accept_tick s ts bid ask k adv)) =
     (if adv \<and> (case ts of None \<Rightarrow> False | Some x \<Rightarrow> (case ft_last_ts s of None \<Rightarrow> True | Some y \<Rightarrow> y < x))
      then ts else ft_last_ts s)"
  by (simp add: accept_tick_def bump_def Let_def)

lemma ts_le_accept: "ft_last_ts s' = ft_last_ts s \<Longrightarrow> ts_le (ft_last_ts s) (ft_last_ts (snd (accept_tick s' ts bid ask k adv)))"
  by (auto simp: accept_last_ts ts_le_def split: option.splits)

lemma window_tick_simps [simp]:
  "ft_last_ts (window_tick s now) = ft_last_ts s" "ft_last_bid (window_tick s now) = ft_last_bid s"
  "ft_last_ask (window_tick s now) = ft_last_ask s" "ft_pre (window_tick s now) = ft_pre s"
  "ft_reacquiring (window_tick s now) = ft_reacquiring s" "ft_epoch (window_tick s now) = ft_epoch s"
  "ft_max_ticks (window_tick s now) = ft_max_ticks s" "ft_count (window_tick s now) = ft_count s + 1"
  "ft_max_sec (window_tick s now) = ft_max_sec s"
  by (simp_all add: window_tick_def Let_def)

text \<open>Every verdict is an acceptance or a rejection in a tracker with the same anchors.\<close>

lemma classify_cases:
  obtains (accept) s' k adv where "classify s ts bid ask now = accept_tick s' ts bid ask k adv"
      "ft_last_ts s' = ft_last_ts s" "adv \<longleftrightarrow> k \<noteq> REORDERED_FRESH" "\<not> ft_reacquiring s'"
      "ft_epoch s' = ft_epoch s" "ft_max_ticks s' = ft_max_ticks s"
  | (reject) s' k d where "classify s ts bid ask now = reject_tick s' k d"
      "ft_last_ts s' = ft_last_ts s" "last_quote s' = last_quote s" "ft_pre s' = ft_pre s"
      "ft_reacquiring s' = ft_reacquiring s" "ft_epoch s' = ft_epoch s" "ft_max_ticks s' = ft_max_ticks s"
proof (cases "ft_reacquiring s")
  case True
  have eq: "classify s ts bid ask now = classify_reacquiring s ts bid ask now"
    using True by (simp add: classify_def)
  consider "classify s ts bid ask now = reject_tick (window_tick s now) RECONNECT_REPLAY ''pre-disconnect quote''"
    | "classify s ts bid ask now = accept_tick (note_recovered (window_tick s now)) ts bid ask FRESH True"
    unfolding eq classify_reacquiring_def Let_def by (cases "\<not> window_expired (window_tick s now) now
        \<and> looks_like_pre_disconnect (window_tick s now) ts bid ask") auto
  then show thesis
  proof cases
    case 1
    then show thesis by (rule reject) (simp_all add: last_quote_def)
  next
    case 2
    then show thesis by (rule accept) (simp_all add: note_recovered_def)
  qed
next
  case False
  then have "classify s ts bid ask now = reject_tick s DUPLICATE ''identical to last accepted tick''
    \<or> classify s ts bid ask now = reject_tick s STALE ''older timestamp, no new quote''
    \<or> classify s ts bid ask now = accept_tick s ts bid ask FRESH (FRESH \<noteq> REORDERED_FRESH)
    \<or> classify s ts bid ask now = accept_tick s ts bid ask REORDERED_FRESH (REORDERED_FRESH \<noteq> REORDERED_FRESH)"
    by (simp add: classify_def Let_def split: option.splits)
  then show thesis
  proof (elim disjE)
    assume "classify s ts bid ask now = accept_tick s ts bid ask FRESH (FRESH \<noteq> REORDERED_FRESH)"
    then show thesis by (rule accept) (use False in simp_all)
  next
    assume "classify s ts bid ask now = accept_tick s ts bid ask REORDERED_FRESH (REORDERED_FRESH \<noteq> REORDERED_FRESH)"
    then show thesis by (rule accept) (use False in simp_all)
  qed (erule reject; simp)+
qed

interpretation feed_anchor: monotone_step feed_step ft_last_ts ts_le
proof
  show "ts_le v v" for v by (simp add: ts_le_def split: option.splits)
  show "ts_le u w" if "ts_le u v" "ts_le v w" for u v w
    using that by (auto simp: ts_le_def split: option.splits)
  show "ts_le (ft_last_ts s) (ft_last_ts (feed_step s e))" for s e
  proof (cases e)
    case (Tick ts bid ask now)
    show ?thesis unfolding Tick feed_step.simps
    proof (cases rule: classify_cases [of s ts bid ask now])
      case accept
      then show "ts_le (ft_last_ts s) (ft_last_ts (snd (classify s ts bid ask now)))"
        using ts_le_accept by metis
    next
      case reject
      then show "ts_le (ft_last_ts s) (ft_last_ts (snd (classify s ts bid ask now)))"
        by (simp add: reject_tick_def bump_def ts_le_def split: option.splits)
    qed
  qed (auto simp: feed_defs ts_le_def split: option.splits)
qed

section \<open>Ticks after a reconnect\<close>

type_synonym tick = "int option \<times> f64 \<times> f64 \<times> f64 option"

fun verdicts :: "feed_tracker \<Rightarrow> tick list \<Rightarrow> tick_verdict list" where
  "verdicts s [] = []"
| "verdicts s ((ts, bid, ask, now) # ticks) =
     fst (classify s ts bid ask now) # verdicts (snd (classify s ts bid ask now)) ticks"

lemma accept_tick_accepts [simp]:
  "tv_accept (fst (accept_tick s ts bid ask k adv))" "tv_class (fst (accept_tick s ts bid ask k adv)) = k"
  by (simp_all add: accept_tick_def Let_def)

lemma reject_tick_simps [simp]:
  "\<not> tv_accept (fst (reject_tick s k d))" "tv_class (fst (reject_tick s k d)) = k"
  "ft_reacquiring (snd (reject_tick s k d)) = ft_reacquiring s" "ft_count (snd (reject_tick s k d)) = ft_count s"
  "ft_max_ticks (snd (reject_tick s k d)) = ft_max_ticks s" "ft_pre (snd (reject_tick s k d)) = ft_pre s"
  "ft_max_sec (snd (reject_tick s k d)) = ft_max_sec s" "ft_started (snd (reject_tick s k d)) = ft_started s"
  "last_quote (snd (reject_tick s k d)) = last_quote s"
  by (simp_all add: reject_tick_def bump_def last_quote_def)

text \<open>Inside the window a tick either closes it or is rejected and counted.\<close>

lemma window_step:
  assumes "ft_reacquiring s"
  shows "tv_accept (fst (classify s ts bid ask now)) \<or>
    (fst (classify s ts bid ask now), snd (classify s ts bid ask now))
      = reject_tick (window_tick s now) RECONNECT_REPLAY ''pre-disconnect quote''
    \<and> ft_count s < ft_max_ticks s"
  using assms by (auto simp: classify_def classify_reacquiring_def Let_def window_expired_def)

lemma window_closes:
  "ft_reacquiring s \<Longrightarrow> ft_count s \<le> ft_max_ticks s \<Longrightarrow> ft_max_ticks s - ft_count s < int (length ticks)
     \<Longrightarrow> \<exists>v \<in> set (verdicts s ticks). tv_accept v"
proof (induction ticks arbitrary: s)
  case (Cons t ticks)
  obtain ts bid ask now where t: "t = (ts, bid, ask, now)" by (cases t)
  obtain v s' where c: "classify s ts bid ask now = (v, s')" by (cases "classify s ts bid ask now")
  from window_step [OF Cons.prems(1), of ts bid ask now] show ?case
  proof
    assume "tv_accept (fst (classify s ts bid ask now))"
    then show ?thesis by (simp add: t c)
  next
    assume r: "(fst (classify s ts bid ask now), snd (classify s ts bid ask now))
      = reject_tick (window_tick s now) RECONNECT_REPLAY ''pre-disconnect quote'' \<and> ft_count s < ft_max_ticks s"
    then have s': "s' = snd (reject_tick (window_tick s now) RECONNECT_REPLAY ''pre-disconnect quote'')"
      by (metis c snd_conv)
    have "\<exists>v \<in> set (verdicts s' ticks). tv_accept v"
      using Cons.prems r by (intro Cons.IH) (simp_all add: s')
    then show ?thesis by (simp add: t c)
  qed
qed simp

text \<open>A tick that repeats the anchor and nothing else.\<close>

definition repeats :: "int option \<times> f64 \<times> f64 \<Rightarrow> tick \<Rightarrow> bool" where
  "repeats anchor t = (case (anchor, t) of ((pts, pbid, pask), (ts, bid, ask, now)) \<Rightarrow>
     feq bid pbid \<and> feq ask pask \<and> (case (ts, pts) of (Some x, Some y) \<Rightarrow> x \<le> y | _ \<Rightarrow> True))"

definition now_of :: "tick \<Rightarrow> f64 option" where
  "now_of t = snd (snd (snd t))"

lemma window_replays_rejected:
  assumes "ft_reacquiring s" "ft_pre s = Some anchor" "ft_count s + int (length ticks) \<le> ft_max_ticks s"
    and "\<forall>t \<in> set ticks. repeats anchor t"
    and "\<forall>b n. (ft_started s = Some b \<or> Some b \<in> now_of ` set ticks) \<and> Some n \<in> now_of ` set ticks
           \<longrightarrow> \<not> ft_max_sec s < n - b"
  shows "(\<forall>v \<in> set (verdicts s ticks). tv_class v = RECONNECT_REPLAY \<and> \<not> tv_accept v)
    \<and> length (verdicts s ticks) = length ticks"
  using assms
proof (induction ticks arbitrary: s)
  case (Cons t ticks)
  obtain ts bid ask now where t: "t = (ts, bid, ask, now)" by (cases t)
  let ?w = "window_tick s now"
  have st: "ft_started ?w = Some b \<Longrightarrow> ft_started s = Some b \<or> now = Some b" for b
    by (auto simp: window_tick_def Let_def split: if_splits)
  have "\<not> window_expired ?w now"
    using Cons.prems(3,5) st
    by (fastforce simp: window_expired_def t now_of_def split: option.splits)
  moreover have "looks_like_pre_disconnect ?w ts bid ask"
    using Cons.prems(2,4) by (cases anchor) (auto simp: looks_like_pre_disconnect_def repeats_def t)
  ultimately have c: "classify s ts bid ask now = reject_tick ?w RECONNECT_REPLAY ''pre-disconnect quote''"
    using Cons.prems(1) by (simp add: classify_def classify_reacquiring_def Let_def)
  let ?s = "snd (reject_tick ?w RECONNECT_REPLAY ''pre-disconnect quote'')"
  have "(\<forall>v \<in> set (verdicts ?s ticks). tv_class v = RECONNECT_REPLAY \<and> \<not> tv_accept v)
    \<and> length (verdicts ?s ticks) = length ticks"
    using Cons.prems st by (intro Cons.IH) (auto simp: t now_of_def)
  then show ?case by (simp add: t c)
qed simp

section \<open>Properties\<close>

text \<open>C21: The window a reconnect opens closes: among the first \<open>max_ticks + 1\<close> ticks after a
  reconnect at least one is accepted, whatever their quotes and times are.\<close>

lemma reconnect_window_closes:
  assumes "0 \<le> ft_max_ticks s" and "ft_max_ticks s < int (length ticks)"
  shows "\<exists>v \<in> set (verdicts (note_reconnect s) ticks). tv_accept v"
  using assms by (intro window_closes) (simp_all add: note_reconnect_def)

lemma reconnect_window_closes_witness:
  "\<exists>v \<in> set (verdicts (note_reconnect (feed_init (Some 2) None)) [(None, 0, 0, None), (None, 0, 0, None), (None, 0, 0, None)]). tv_accept v"
  by (rule reconnect_window_closes) (simp_all add: feed_init_def)

text \<open>The quote that was last accepted before an outage is not taken for market data after it:
  every tick that repeats it without a newer timestamp is rejected as a replay, up to the
  window's tick limit and within its time limit; the tracker's anchors are those of the outage.\<close>

lemma replay_after_reconnect_rejected:
  assumes "\<forall>t \<in> set ticks. repeats (last_quote s) t" and "int (length ticks) \<le> ft_max_ticks s"
    and "\<forall>b n. Some b \<in> now_of ` set ticks \<and> Some n \<in> now_of ` set ticks \<longrightarrow> \<not> ft_max_sec s < n - b"
  shows "map tv_class (verdicts (note_reconnect (note_disconnect s)) ticks) = replicate (length ticks) RECONNECT_REPLAY
    \<and> (\<forall>v \<in> set (verdicts (note_reconnect (note_disconnect s)) ticks). \<not> tv_accept v)"
proof -
  let ?s = "note_reconnect (note_disconnect s)"
  have s: "ft_reacquiring ?s" "ft_pre ?s = Some (last_quote s)" "ft_count ?s = 0" "ft_started ?s = None"
    "ft_max_ticks ?s = ft_max_ticks s" "ft_max_sec ?s = ft_max_sec s"
    by (simp_all add: note_reconnect_def note_disconnect_def)
  have "(\<forall>v \<in> set (verdicts ?s ticks). tv_class v = RECONNECT_REPLAY \<and> \<not> tv_accept v)
      \<and> length (verdicts ?s ticks) = length ticks"
    using assms s by (intro window_replays_rejected) auto
  then show ?thesis by (auto intro: replicate_eqI)
qed

definition sample_feed :: feed_tracker where
  "sample_feed = snd (classify (feed_init None None) (Some 100) (Fin 10) (Fin 11) None)"

lemma sample_feed_simps: "last_quote sample_feed = (Some 100, Fin 10, Fin 11)" "ft_max_ticks sample_feed = 5"
  "ft_max_sec sample_feed = Fin 5" "\<not> ft_reacquiring sample_feed"
  by code_simp+

lemma replay_after_reconnect_rejected_witness:
  "map tv_class (verdicts (note_reconnect (note_disconnect sample_feed))
     [(Some 100, Fin 10, Fin 11, Some (Fin 7)), (Some 90, Fin 10, Fin 11, Some (Fin 8))]) = [RECONNECT_REPLAY, RECONNECT_REPLAY]"
proof -
  have "\<not> Fin 5 < n - b" if "n = Fin 7 \<or> n = Fin 8" "b = Fin 7 \<or> b = Fin 8" for n b
    using that fl_of_int [of "- 1"] by (auto simp: minus_f64_def)
  then show ?thesis
    using replay_after_reconnect_rejected [of "[(Some 100, Fin 10, Fin 11, Some (Fin 7)), (Some 90, Fin 10, Fin 11, Some (Fin 8))]" sample_feed]
    by (auto simp: sample_feed_simps repeats_def feq_def now_of_def)
qed

text \<open>Outside a window a tick is rejected exactly when it carries no new information: the quote
  is the last accepted one, and it has no timestamp or one that is not newer than the newest
  accepted timestamp. An accepted tick becomes the last quote, and no run of ticks and
  connection events ever moves the newest accepted timestamp back.\<close>

lemma tick_rejected_iff_nothing_new:
  assumes "\<not> ft_reacquiring s"
  shows "(\<not> tv_accept (fst (classify s ts bid ask now)) \<longleftrightarrow>
      feq bid (ft_last_bid s) \<and> feq ask (ft_last_ask s)
      \<and> (ts = None \<or> (\<exists>x y. ts = Some x \<and> ft_last_ts s = Some y \<and> x \<le> y)))
    \<and> (tv_accept (fst (classify s ts bid ask now)) \<longrightarrow>
      ft_last_bid (snd (classify s ts bid ask now)) = bid \<and> ft_last_ask (snd (classify s ts bid ask now)) = ask)
    \<and> ts_le (ft_last_ts s) (ft_last_ts (run feed_step s es))"
proof (intro conjI impI feed_anchor.run_below)
  show "\<not> tv_accept (fst (classify s ts bid ask now)) \<longleftrightarrow>
      feq bid (ft_last_bid s) \<and> feq ask (ft_last_ask s)
      \<and> (ts = None \<or> (\<exists>x y. ts = Some x \<and> ft_last_ts s = Some y \<and> x \<le> y))"
    using assms by (cases ts; cases "ft_last_ts s") (auto simp: classify_def Let_def)
next
  assume acc: "tv_accept (fst (classify s ts bid ask now))"
  show "ft_last_bid (snd (classify s ts bid ask now)) = bid" "ft_last_ask (snd (classify s ts bid ask now)) = ask"
    by (cases rule: classify_cases [of s ts bid ask now]; use acc in \<open>simp add: accept_tick_def bump_def Let_def\<close>)+
qed

lemma tick_rejected_iff_nothing_new_witness:
  "\<not> tv_accept (fst (classify sample_feed (Some 100) (Fin 10) (Fin 11) None))"
  using tick_rejected_iff_nothing_new [OF sample_feed_simps(4), of "Some 100" "Fin 10" "Fin 11" None "[]"]
    sample_feed_simps(1) by (simp add: last_quote_def feq_def)

text \<open>A disconnect note that is not followed by a reconnect leaves its anchor behind: after
  further ticks were accepted, a reconnect without a note of its own takes the replay of the
  newest quote for fresh data, at once.\<close>

lemma stale_disconnect_anchor:
  assumes "\<not> ft_reacquiring s" "ft_last_ts s = Some y" "y < x" "\<not> feq bid (ft_last_bid s)"
  shows "tv_accept (fst (classify (note_reconnect (snd (classify (note_disconnect s) (Some x) bid ask None)))
       (Some x) bid ask None))"
proof -
  let ?s = "snd (classify (note_disconnect s) (Some x) bid ask None)"
  have "ft_pre ?s = Some (last_quote s)"
    using assms by (simp add: classify_def note_disconnect_def accept_tick_def bump_def last_quote_def Let_def)
  then have "\<not> looks_like_pre_disconnect (window_tick (note_reconnect ?s) None) (Some x) bid ask"
    using assms(4) by (simp add: looks_like_pre_disconnect_def note_reconnect_def last_quote_def)
  then show ?thesis by (simp add: classify_def classify_reacquiring_def note_reconnect_def Let_def)
qed

lemma stale_disconnect_anchor_witness:
  "tv_accept (fst (classify (note_reconnect (snd (classify (note_disconnect sample_feed) (Some 200) (Fin 12) (Fin 13) None)))
       (Some 200) (Fin 12) (Fin 13) None))"
  using sample_feed_simps by (intro stale_disconnect_anchor [of _ 100]) (simp_all add: last_quote_def feq_def)

end
