(* ===== verification/SignalStability.thy ===== *)
theory SignalStability
  imports Prelude PyNum
begin

text \<open>
  \<^verbatim>\<open>signals/stability_controller.py\<close>: the controller that turns raw model probabilities into a
  stable direction by confirmation and hysteresis. The timestamp text of a step (given or read
  from the clock) is an argument; the bounded deque of events is a list with the oldest first.
\<close>

section \<open>The controller\<close>

datatype direction = DNone | DBuy | DSell

datatype stability_state = STABLE | NOISY | CHANGING | REVERSING | CONFIRMED

datatype confirmation_reason = STRUCTURAL | HARD_REVERSAL | CONSECUTIVE_CONFIRMATION

record stability_event =
  ev_timestamp :: string
  ev_previous :: direction
  ev_direction :: direction
  ev_pbuy :: f64
  ev_psell :: f64
  ev_margin :: f64
  ev_candidate_age :: int
  ev_reason :: confirmation_reason

record stability_decision =
  sd_raw :: direction
  sd_stable :: direction
  sd_state :: stability_state
  sd_pbuy :: f64
  sd_psell :: f64
  sd_margin :: f64
  sd_candidate :: direction
  sd_candidate_age :: int
  sd_progress :: int
  sd_required :: int
  sd_last_confirmed :: direction
  sd_event :: "stability_event option"

record controller =
  entry_min_margin :: f64
  hard_reversal_margin :: f64
  entry_confirm_bars :: int
  exit_confirm_bars :: int
  max_candidate_age :: int
  max_events :: nat
  c_events :: "stability_event list"
  c_stable :: direction
  c_candidate :: direction
  c_age :: int
  c_streak :: int
  c_last_confirmed :: direction

definition mk_controller :: "f64 \<Rightarrow> f64 \<Rightarrow> int \<Rightarrow> int \<Rightarrow> int \<Rightarrow> int \<Rightarrow> controller res" where
  "mk_controller emm hrm ecb xcb mca mev =
     (if mev < 0 then raise ValueError
      else ret \<lparr>entry_min_margin = emm, hard_reversal_margin = hrm, entry_confirm_bars = max 1 ecb,
        exit_confirm_bars = max 1 xcb, max_candidate_age = max 1 mca, max_events = nat mev, c_events = [],
        c_stable = DNone, c_candidate = DNone, c_age = 0, c_streak = 0, c_last_confirmed = DNone\<rparr>)"

record step_input =
  in_pbuy :: f64
  in_psell :: f64
  in_timestamp :: string
  in_structural_buy :: bool
  in_structural_sell :: bool
  in_position_open :: bool

text \<open>\<^verbatim>\<open>pbuy\<close>/\<^verbatim>\<open>psell\<close> fall back to the second and third probability.\<close>

definition prob_at :: "f64 list \<Rightarrow> nat \<Rightarrow> f64 option \<Rightarrow> f64 res" where
  "prob_at ps i given = (case given of Some x \<Rightarrow> ret x
     | None \<Rightarrow> if i < length ps then ret (ps ! i) else raise IndexError)"

definition margin_of :: "step_input \<Rightarrow> f64" where
  "margin_of x = fabs64 (in_pbuy x - in_psell x)"

definition raw_direction :: "step_input \<Rightarrow> direction" where
  "raw_direction x = (if in_psell x < in_pbuy x then DBuy else if in_pbuy x < in_psell x then DSell else DNone)"

definition hard :: "controller \<Rightarrow> step_input \<Rightarrow> bool" where
  "hard c x \<longleftrightarrow> hard_reversal_margin c \<le> margin_of x"

definition candidate_progress :: "controller \<Rightarrow> step_input \<Rightarrow> controller" where
  "candidate_progress c x =
     (if raw_direction x = DNone then c\<lparr>c_streak := 0\<rparr>
      else if c_candidate c = DNone then
        (if entry_min_margin c \<le> margin_of x \<or> in_structural_buy x \<or> in_structural_sell x
         then c\<lparr>c_candidate := raw_direction x, c_age := 0, c_streak := 1\<rparr> else c)
      else if raw_direction x = c_candidate c then c\<lparr>c_streak := c_streak c + 1\<rparr>
      else if hard c x then c\<lparr>c_candidate := raw_direction x, c_age := 0, c_streak := 1\<rparr>
      else c\<lparr>c_streak := 0, c_age := c_age c + 1\<rparr>)"

definition confirm_bars :: "controller \<Rightarrow> step_input \<Rightarrow> int" where
  "confirm_bars c x = (if in_position_open x then exit_confirm_bars c else entry_confirm_bars c)"

definition struct_ok :: "controller \<Rightarrow> step_input \<Rightarrow> bool" where
  "struct_ok c x \<longleftrightarrow> in_structural_buy x \<and> c_candidate c = DBuy \<or> in_structural_sell x \<and> c_candidate c = DSell"

definition push_event :: "nat \<Rightarrow> stability_event list \<Rightarrow> stability_event \<Rightarrow> stability_event list" where
  "push_event n evs e = (let l = evs @ [e] in List.drop (length l - n) l)"

definition confirmation :: "controller \<Rightarrow> step_input \<Rightarrow> stability_event option \<times> controller" where
  "confirmation c x =
     (if c_candidate c = DNone then (None, c)
      else let c = c\<lparr>c_age := c_age c + 1\<rparr> in
        if confirm_bars c x \<le> c_streak c \<or> struct_ok c x \<or> hard c x then
          let e = \<lparr>ev_timestamp = in_timestamp x, ev_previous = c_stable c, ev_direction = c_candidate c,
                ev_pbuy = round_nd 6 (in_pbuy x), ev_psell = round_nd 6 (in_psell x),
                ev_margin = round_nd 6 (margin_of x), ev_candidate_age = c_age c,
                ev_reason = (if struct_ok c x then STRUCTURAL else if hard c x then HARD_REVERSAL
                             else CONSECUTIVE_CONFIRMATION)\<rparr>;
              (ev, c) = (if c_stable c \<noteq> c_candidate c
                 then (Some e, c\<lparr>c_stable := c_candidate c, c_last_confirmed := c_candidate c,
                                c_events := push_event (max_events c) (c_events c) e\<rparr>)
                 else (None, c))
          in (ev, c\<lparr>c_candidate := DNone, c_age := 0, c_streak := 0\<rparr>)
        else (None, c))"

definition expire_candidate :: "controller \<Rightarrow> controller" where
  "expire_candidate c = (if c_candidate c \<noteq> DNone \<and> max_candidate_age c < c_age c
     then c\<lparr>c_candidate := DNone, c_age := 0, c_streak := 0\<rparr> else c)"

definition stability_of :: "controller \<Rightarrow> step_input \<Rightarrow> stability_state" where
  "stability_of c x =
     (if c_stable c = DNone then (if c_candidate c \<noteq> DNone then NOISY else STABLE)
      else if raw_direction x \<noteq> c_stable c \<and> hard c x then REVERSING
      else if raw_direction x \<noteq> c_stable c then CHANGING else CONFIRMED)"

definition decide_step :: "controller \<Rightarrow> step_input \<Rightarrow> stability_decision \<times> controller" where
  "decide_step c x =
     (let (ev, c) = confirmation (candidate_progress c x) x; c = expire_candidate c
      in (\<lparr>sd_raw = raw_direction x, sd_stable = c_stable c, sd_state = stability_of c x,
           sd_pbuy = round_nd 6 (in_pbuy x), sd_psell = round_nd 6 (in_psell x),
           sd_margin = round_nd 6 (margin_of x), sd_candidate = c_candidate c, sd_candidate_age = c_age c,
           sd_progress = min (c_streak c) (confirm_bars c x), sd_required = confirm_bars c x,
           sd_last_confirmed = c_last_confirmed c, sd_event = ev\<rparr>, c))"

definition decide_signal ::
  "controller \<Rightarrow> f64 list \<Rightarrow> f64 option \<Rightarrow> f64 option \<Rightarrow> string \<Rightarrow> bool \<Rightarrow> bool \<Rightarrow> bool
     \<Rightarrow> (stability_decision \<times> controller) res" where
  "decide_signal c probs pbuy psell ts sbuy ssell open_pos =
     bindR (prob_at probs 1 pbuy) (\<lambda>pb. bindR (prob_at probs 2 psell) (\<lambda>ps.
       ret (decide_step c \<lparr>in_pbuy = pb, in_psell = ps, in_timestamp = ts, in_structural_buy = sbuy,
                          in_structural_sell = ssell, in_position_open = open_pos\<rparr>)))"

definition last_event :: "controller \<Rightarrow> stability_event option" where
  "last_event c = (if c_events c = [] then None else Some (List.last (c_events c)))"

definition reset_controller :: "controller \<Rightarrow> controller" where
  "reset_controller c = c\<lparr>c_stable := DNone, c_candidate := DNone, c_age := 0, c_streak := 0,
     c_last_confirmed := DNone, c_events := []\<rparr>"

section \<open>Well-formed controllers\<close>

definition step_controller :: "controller \<Rightarrow> step_input \<Rightarrow> controller" where
  "step_controller c x = snd (decide_step c x)"

text \<open>
  The bounds a controller keeps: the events fit the deque, a candidate has a sane age, its streak
  is below what would have confirmed it, and without a candidate age and streak are zero.
\<close>

definition ctl_ok :: "controller \<Rightarrow> bool" where
  "ctl_ok c \<longleftrightarrow> length (c_events c) \<le> max_events c \<and> 1 \<le> entry_confirm_bars c \<and> 1 \<le> exit_confirm_bars c
     \<and> 1 \<le> max_candidate_age c
     \<and> 0 \<le> c_age c \<and> c_age c \<le> max_candidate_age c \<and> 0 \<le> c_streak c
     \<and> c_streak c < max (entry_confirm_bars c) (exit_confirm_bars c)
     \<and> (c_candidate c = DNone \<longrightarrow> c_age c = 0 \<and> c_streak c = 0)
     \<and> c_last_confirmed c = c_stable c"

lemma push_event_length: "length (push_event n evs e) \<le> n"
  by (simp add: push_event_def Let_def)

lemma progress_simps [simp]:
  "c_stable (candidate_progress c x) = c_stable c" "c_events (candidate_progress c x) = c_events c"
  "max_events (candidate_progress c x) = max_events c" "entry_confirm_bars (candidate_progress c x) = entry_confirm_bars c"
  "exit_confirm_bars (candidate_progress c x) = exit_confirm_bars c" "max_candidate_age (candidate_progress c x) = max_candidate_age c"
  "c_last_confirmed (candidate_progress c x) = c_last_confirmed c" "hard_reversal_margin (candidate_progress c x) = hard_reversal_margin c"
  "entry_min_margin (candidate_progress c x) = entry_min_margin c"
  by (simp_all add: candidate_progress_def)

lemma expire_simps [simp]:
  "c_stable (expire_candidate c) = c_stable c" "c_events (expire_candidate c) = c_events c"
  "max_events (expire_candidate c) = max_events c" "entry_confirm_bars (expire_candidate c) = entry_confirm_bars c"
  "exit_confirm_bars (expire_candidate c) = exit_confirm_bars c" "max_candidate_age (expire_candidate c) = max_candidate_age c"
  "c_last_confirmed (expire_candidate c) = c_last_confirmed c" "hard_reversal_margin (expire_candidate c) = hard_reversal_margin c"
  "entry_min_margin (expire_candidate c) = entry_min_margin c"
  by (simp_all add: expire_candidate_def)

lemma confirmation_simps [simp]:
  "max_events (snd (confirmation c x)) = max_events c" "entry_confirm_bars (snd (confirmation c x)) = entry_confirm_bars c"
  "exit_confirm_bars (snd (confirmation c x)) = exit_confirm_bars c" "max_candidate_age (snd (confirmation c x)) = max_candidate_age c"
  "hard_reversal_margin (snd (confirmation c x)) = hard_reversal_margin c" "entry_min_margin (snd (confirmation c x)) = entry_min_margin c"
  by (simp_all add: confirmation_def Let_def)

lemma step_controller_eq: "step_controller c x = expire_candidate (snd (confirmation (candidate_progress c x) x))"
  by (simp add: step_controller_def decide_step_def Let_def split: prod.splits)

lemma confirmation_events: "length (c_events c) \<le> max_events c \<Longrightarrow> length (c_events (snd (confirmation c x))) \<le> max_events c"
  by (simp add: confirmation_def Let_def push_event_length)

lemma confirmation_candidate:
  obtains (confirmed) "c_candidate (snd (confirmation c x)) = DNone" "c_age (snd (confirmation c x)) = 0"
      "c_streak (snd (confirmation c x)) = 0" "c_candidate c \<noteq> DNone"
      "confirm_bars c x \<le> c_streak c \<or> struct_ok c x \<or> hard c x"
      "c_stable (snd (confirmation c x)) = c_candidate c"
  | (held) "c_candidate (snd (confirmation c x)) = c_candidate c" "c_streak (snd (confirmation c x)) = c_streak c"
      "c_age (snd (confirmation c x)) = (if c_candidate c = DNone then c_age c else c_age c + 1)"
      "c_stable (snd (confirmation c x)) = c_stable c" "c_candidate c = DNone \<or> c_streak c < confirm_bars c x"
proof (cases "c_candidate c \<noteq> DNone \<and> (confirm_bars c x \<le> c_streak c \<or> struct_ok c x \<or> hard c x)")
  case True
  have "confirm_bars (c\<lparr>c_age := c_age c + 1\<rparr>) x = confirm_bars c x"
    "struct_ok (c\<lparr>c_age := c_age c + 1\<rparr>) x = struct_ok c x" "hard (c\<lparr>c_age := c_age c + 1\<rparr>) x = hard c x"
    by (simp_all add: confirm_bars_def struct_ok_def hard_def)
  then show thesis using True by (intro confirmed) (simp_all add: confirmation_def Let_def)
next
  case False
  have "confirm_bars (c\<lparr>c_age := c_age c + 1\<rparr>) x = confirm_bars c x"
    "struct_ok (c\<lparr>c_age := c_age c + 1\<rparr>) x = struct_ok c x" "hard (c\<lparr>c_age := c_age c + 1\<rparr>) x = hard c x"
    by (simp_all add: confirm_bars_def struct_ok_def hard_def)
  then show thesis using False by (intro held) (auto simp: confirmation_def Let_def)
qed

lemma confirmation_last: "c_last_confirmed c = c_stable c \<Longrightarrow>
    c_last_confirmed (snd (confirmation c x)) = c_stable (snd (confirmation c x))"
  by (simp add: confirmation_def Let_def)

lemma confirm_bars_bounds:
  "1 \<le> entry_confirm_bars c \<Longrightarrow> 1 \<le> exit_confirm_bars c \<Longrightarrow>
   1 \<le> confirm_bars c x \<and> confirm_bars c x \<le> max (entry_confirm_bars c) (exit_confirm_bars c)"
  by (simp add: confirm_bars_def)

lemma progress_bounds:
  assumes "ctl_ok c"
  shows "0 \<le> c_age (candidate_progress c x)" "0 \<le> c_streak (candidate_progress c x)"
    "c_candidate (candidate_progress c x) = DNone \<longrightarrow> c_age (candidate_progress c x) = 0 \<and> c_streak (candidate_progress c x) = 0"
  using assms by (auto simp: candidate_progress_def ctl_ok_def)

lemma step_keeps_ok:
  assumes "ctl_ok c"
  shows "ctl_ok (step_controller c x)"
proof -
  let ?p = "candidate_progress c x"
  let ?q = "snd (confirmation ?p x)"
  have bars: "1 \<le> confirm_bars ?p x" "confirm_bars ?p x \<le> max (entry_confirm_bars c) (exit_confirm_bars c)"
    using confirm_bars_bounds [of ?p x] assms by (simp_all add: ctl_ok_def)
  have q: "0 \<le> c_age ?q" "0 \<le> c_streak ?q" "c_streak ?q < max (entry_confirm_bars c) (exit_confirm_bars c)"
    "c_candidate ?q = DNone \<longrightarrow> c_age ?q = 0 \<and> c_streak ?q = 0"
    using progress_bounds [OF assms, of x] bars
    by (cases rule: confirmation_candidate [of ?p x]; auto)+
  have ev: "length (c_events ?q) \<le> max_events c" "c_last_confirmed ?q = c_stable ?q"
    using confirmation_events [of ?p x] confirmation_last [of ?p x] assms by (auto simp: ctl_ok_def)
  show ?thesis
    using q ev assms unfolding step_controller_eq ctl_ok_def
    by (auto simp: expire_candidate_def)
qed

definition default_controller :: controller where
  "default_controller = \<lparr>entry_min_margin = fl (1 / 20), hard_reversal_margin = fl (1 / 5), entry_confirm_bars = 2,
     exit_confirm_bars = 1, max_candidate_age = 12, max_events = 200, c_events = [],
     c_stable = DNone, c_candidate = DNone, c_age = 0, c_streak = 0, c_last_confirmed = DNone\<rparr>"

lemma default_controller_ok: "ctl_ok default_controller"
  by (simp add: ctl_ok_def default_controller_def)

interpretation stability: step_invariant step_controller default_controller ctl_ok
  by unfold_locales (auto intro: default_controller_ok step_keeps_ok)

section \<open>Streaks over a history\<close>

definition streak_of :: "direction \<Rightarrow> int \<Rightarrow> step_input list \<Rightarrow> bool" where
  "streak_of d n xs \<longleftrightarrow> (\<exists>pre suf. xs = pre @ suf \<and> int (length suf) = n \<and> (\<forall>y \<in> set suf. raw_direction y = d))"

lemma streak_of_0: "streak_of d 0 xs"
  unfolding streak_of_def by (intro exI [of _ xs] exI [of _ "[]"]) simp

lemma streak_of_1: "raw_direction x = d \<Longrightarrow> streak_of d 1 (xs @ [x])"
  unfolding streak_of_def by (intro exI [of _ xs] exI [of _ "[x]"]) simp

lemma streak_of_Suc: "streak_of d n xs \<Longrightarrow> raw_direction x = d \<Longrightarrow> streak_of d (n + 1) (xs @ [x])"
  unfolding streak_of_def by (elim exE conjE, rule_tac x = pre in exI, rule_tac x = "suf @ [x]" in exI) auto

lemma streak_of_shorter:
  assumes "streak_of d n xs" "0 \<le> m" "m \<le> n"
  shows "streak_of d m xs"
proof -
  obtain pre suf where s: "xs = pre @ suf" "int (length suf) = n" "\<forall>y \<in> set suf. raw_direction y = d"
    using assms(1) by (auto simp: streak_of_def)
  let ?k = "nat (n - m)"
  have "xs = (pre @ take ?k suf) @ List.drop ?k suf" using s by simp
  moreover have "int (length (List.drop ?k suf)) = m" using s assms by simp
  moreover have "\<forall>y \<in> set (List.drop ?k suf). raw_direction y = d" using s(3) by (auto dest: in_set_dropD)
  ultimately show ?thesis unfolding streak_of_def by blast
qed

lemma progress_streak:
  assumes "c_candidate c \<noteq> DNone \<longrightarrow> streak_of (c_candidate c) (c_streak c) xs" "c_candidate c = DNone \<longrightarrow> c_streak c = 0"
  shows "c_candidate (candidate_progress c x) \<noteq> DNone \<longrightarrow>
     streak_of (c_candidate (candidate_progress c x)) (c_streak (candidate_progress c x)) (xs @ [x])"
  using assms streak_of_0 streak_of_1 streak_of_Suc by (auto simp: candidate_progress_def)

lemma run_streak:
  assumes "ctl_ok c0" "c_candidate c0 = DNone"
  shows "c_candidate (run step_controller c0 xs) \<noteq> DNone \<longrightarrow>
     streak_of (c_candidate (run step_controller c0 xs)) (c_streak (run step_controller c0 xs)) xs"
    and "ctl_ok (run step_controller c0 xs)"
proof (induction xs rule: rev_induct)
  case Nil
  {
    case 1
    show ?case using assms by simp
  next
    case 2
    show ?case using assms by simp
  }
next
  case (snoc x xs)
  let ?c = "run step_controller c0 xs"
  let ?q = "snd (confirmation (candidate_progress ?c x) x)"
  {
    case 1
    have p: "c_candidate (candidate_progress ?c x) \<noteq> DNone \<longrightarrow>
       streak_of (c_candidate (candidate_progress ?c x)) (c_streak (candidate_progress ?c x)) (xs @ [x])"
      using snoc by (intro progress_streak) (auto simp: ctl_ok_def)
    have "c_candidate ?q \<noteq> DNone \<longrightarrow> streak_of (c_candidate ?q) (c_streak ?q) (xs @ [x])"
      using p by (cases rule: confirmation_candidate [of "candidate_progress ?c x" x]) auto
    moreover have "run step_controller c0 (xs @ [x]) = expire_candidate ?q" by (simp only: run_snoc step_controller_eq)
    ultimately show ?case by (auto simp: expire_candidate_def)
  next
    case 2
    show ?case using snoc(2) by (simp add: run_snoc step_keeps_ok)
  }
qed

lemma step_params:
  "entry_confirm_bars (step_controller c x) = entry_confirm_bars c" "exit_confirm_bars (step_controller c x) = exit_confirm_bars c"
  "hard_reversal_margin (step_controller c x) = hard_reversal_margin c" "entry_min_margin (step_controller c x) = entry_min_margin c"
  by (simp_all only: step_controller_eq expire_simps confirmation_simps progress_simps)

lemma run_params:
  "entry_confirm_bars (run step_controller c xs) = entry_confirm_bars c"
  "exit_confirm_bars (run step_controller c xs) = exit_confirm_bars c"
  "hard_reversal_margin (run step_controller c xs) = hard_reversal_margin c"
  by (induction xs arbitrary: c) (simp_all add: step_params)

lemma margin_pos_directed: "0 < m \<Longrightarrow> m \<le> margin_of x \<Longrightarrow> raw_direction x \<noteq> DNone"
proof
  assume "0 < m" "m \<le> margin_of x" "raw_direction x = DNone"
  then have "0 < margin_of x" by (auto intro: f64_less_le_trans)
  moreover have "\<not> in_psell x < in_pbuy x" "\<not> in_pbuy x < in_psell x"
    using \<open>raw_direction x = DNone\<close> by (auto simp: raw_direction_def split: if_splits)
  ultimately show False unfolding margin_of_def minus_f64_def
    by (cases "in_pbuy x"; cases "in_psell x") (auto simp: zero_f64_Fin)
qed

lemma hard_candidate_is_raw:
  assumes "0 < hard_reversal_margin c" "hard c x" "c_candidate (candidate_progress c x) \<noteq> DNone"
  shows "c_candidate (candidate_progress c x) = raw_direction x"
  using margin_pos_directed [OF assms(1)] assms by (auto simp: candidate_progress_def hard_def split: if_splits)

section \<open>Properties\<close>

text \<open>The stable direction only ever changes on evidence for the new direction: structural
  evidence for it at the current step, a current margin of at least the hard-reversal margin in
  its favour, or as many raw decisions in a row for it, the current one the last, as the
  applicable confirmation requires. It never changes back to none.\<close>

lemma direction_change_has_evidence:
  assumes "ctl_ok c0" "c_candidate c0 = DNone" "0 < hard_reversal_margin c0"
    and "d = c_stable (run step_controller c0 (xs @ [x]))" "d \<noteq> c_stable (run step_controller c0 xs)"
  shows "d \<noteq> DNone \<and> (in_structural_buy x \<and> d = DBuy \<or> in_structural_sell x \<and> d = DSell
      \<or> hard_reversal_margin c0 \<le> margin_of x \<and> raw_direction x = d
      \<or> streak_of d (confirm_bars c0 x) (xs @ [x]))"
proof -
  let ?c = "run step_controller c0 xs"
  let ?p = "candidate_progress ?c x"
  have bars: "confirm_bars ?p x = confirm_bars c0 x" "hard ?p x = hard c0 x"
    "hard_reversal_margin ?c = hard_reversal_margin c0"
    by (simp_all add: confirm_bars_def hard_def run_params)
  have "d = c_stable (snd (confirmation ?p x))" unfolding assms(4) run_snoc step_controller_eq by simp
  then have d: "d = c_candidate ?p" "c_candidate ?p \<noteq> DNone"
    and why: "confirm_bars ?p x \<le> c_streak ?p \<or> struct_ok ?p x \<or> hard ?p x"
    using assms(5) by (cases rule: confirmation_candidate [of ?p x]; auto)+
  have "streak_of d (c_streak ?p) (xs @ [x])"
    using progress_streak [of ?c xs x] run_streak [OF assms(1,2), of xs] d by (auto simp: ctl_ok_def)
  moreover have "0 \<le> confirm_bars c0 x" using confirm_bars_bounds [of c0 x] assms(1) by (simp add: ctl_ok_def)
  ultimately have s: "confirm_bars c0 x \<le> c_streak ?p \<Longrightarrow> streak_of d (confirm_bars c0 x) (xs @ [x])"
    by (rule streak_of_shorter)
  have h: "hard c0 x \<Longrightarrow> raw_direction x = d"
    using hard_candidate_is_raw [of ?c x] assms(3) d by (simp add: bars hard_def run_params)
  show ?thesis using why s h d unfolding bars by (auto simp: struct_ok_def hard_def)
qed

definition step_at :: "f64 \<Rightarrow> f64 \<Rightarrow> step_input" where
  "step_at pb ps = \<lparr>in_pbuy = pb, in_psell = ps, in_timestamp = [], in_structural_buy = False,
     in_structural_sell = False, in_position_open = False\<rparr>"

definition dyadic_controller :: controller where
  "dyadic_controller = default_controller\<lparr>entry_min_margin := Fin (1 / 16), hard_reversal_margin := Fin (1 / 2)\<rparr>"

lemma direction_change_has_evidence_witness:
  "streak_of DBuy 2 [step_at (Fin (1 / 2)) (Fin (1 / 4)), step_at (Fin (1 / 2)) (Fin (1 / 4))]"
proof -
  let ?x = "step_at (Fin (1 / 2)) (Fin (1 / 4))"
  have s: "DBuy = c_stable (run step_controller dyadic_controller ([?x] @ [?x]))"
    "DBuy \<noteq> c_stable (run step_controller dyadic_controller [?x])" by code_simp+
  have k: "ctl_ok dyadic_controller" "c_candidate dyadic_controller = DNone" "0 < hard_reversal_margin dyadic_controller"
    "confirm_bars dyadic_controller ?x = 2"
    by (simp_all add: dyadic_controller_def default_controller_def ctl_ok_def zero_f64_Fin confirm_bars_def step_at_def)
  have "\<not> hard_reversal_margin dyadic_controller \<le> margin_of ?x" by code_simp
  then show ?thesis using direction_change_has_evidence [OF k(1-3) s] k(4) by (simp add: step_at_def)
qed

text \<open>C22: Every step keeps the controller well formed: the event deque within its maximum, the
  candidate's age within the configured maximum, its streak below the larger confirmation
  requirement, both zero without a candidate, the confirmed direction the stable one. Hence
  every reachable controller is well formed.\<close>

lemma controller_stays_well_formed:
  assumes "ctl_ok c"
  shows "ctl_ok (run step_controller c xs) \<and> ctl_ok (reset_controller (run step_controller c xs))
     \<and> ctl_ok (run step_controller default_controller xs)"
proof (intro conjI stability.inv_run stability.inv_run_from [OF assms])
  show "ctl_ok (reset_controller (run step_controller c xs))"
    using stability.inv_run_from [OF assms, of xs] by (simp add: ctl_ok_def reset_controller_def)
qed

lemma controller_stays_well_formed_witness: "ctl_ok (run step_controller default_controller [step_at 1 0])"
  using controller_stays_well_formed [OF default_controller_ok] by blast

text \<open>A confirmed direction is flipped by a weak opposite decision: once an opposite decision of
  at least the entry margin has started a candidate, a second opposite decision of any margin,
  however small, confirms it when two decisions are required.\<close>

lemma weak_opposite_flips:
  assumes "c_stable c = DBuy" "c_candidate c = DNone" "entry_confirm_bars c = 2" "1 \<le> max_candidate_age c"
    and "raw_direction x = DSell" "entry_min_margin c \<le> margin_of x" "\<not> hard_reversal_margin c \<le> margin_of x"
    and "\<not> in_structural_sell x" "\<not> in_position_open x" "raw_direction y = DSell" "\<not> in_position_open y"
  shows "c_stable (step_controller (step_controller c x) y) = DSell"
proof -
  have "step_controller c x = c\<lparr>c_candidate := DSell, c_age := 1, c_streak := 1\<rparr>"
    using assms by (simp add: step_controller_eq candidate_progress_def confirmation_def confirm_bars_def
        struct_ok_def hard_def expire_candidate_def Let_def)
  then show ?thesis
    using assms by (simp add: step_controller_eq [of _ y] candidate_progress_def confirmation_def confirm_bars_def Let_def)
qed

lemma weak_opposite_flips_witness:
  "c_stable (step_controller (step_controller (dyadic_controller\<lparr>c_stable := DBuy\<rparr>)
     (step_at (Fin (1 / 4)) (Fin (1 / 2)))) (step_at (Fin (1 / 4)) (Fin (33 / 128)))) = DSell"
proof (rule weak_opposite_flips)
  show "entry_min_margin (dyadic_controller\<lparr>c_stable := DBuy\<rparr>) \<le> margin_of (step_at (Fin (1 / 4)) (Fin (1 / 2)))"
    "\<not> hard_reversal_margin (dyadic_controller\<lparr>c_stable := DBuy\<rparr>) \<le> margin_of (step_at (Fin (1 / 4)) (Fin (1 / 2)))"
    by code_simp+
qed (simp_all add: dyadic_controller_def default_controller_def step_at_def raw_direction_def)

end
