(* ===== verification/MarketGate.thy ===== *)
theory MarketGate
  imports Prelude PyNum PyTime
begin

text \<open>
  The market calendar (\<^verbatim>\<open>accounting/market_calendar.py\<close>) and the entry gate built on it
  (\<^verbatim>\<open>execution/market_entry_gate.py\<close>). A moment in UTC is its number of microseconds; the
  offset the host's time zone gives a naive datetime is a parameter; ISO texts are kept as the
  moments they show.
\<close>

section \<open>UTC moments\<close>

abbreviation us_per_hour :: int where "us_per_hour \<equiv> 3600000000"

definition utc_weekday :: "int \<Rightarrow> int" where
  "utc_weekday us = weekday (utc us)"

definition utc_hour :: "int \<Rightarrow> int" where
  "utc_hour us = us mod us_per_day div us_per_hour"

definition at_utctime :: "int \<Rightarrow> int \<Rightarrow> int" where
  "at_utctime us hour = us div us_per_day * us_per_day + hour * us_per_hour"

datatype server_clock = NoClock | Moment py_datetime | Epoch f64

text \<open>\<^verbatim>\<open>d.astimezone(UTC)\<close>: a naive datetime is read in the host's zone.\<close>

definition astimezone_utc :: "(py_datetime \<Rightarrow> int) \<Rightarrow> py_datetime \<Rightarrow> int" where
  "astimezone_utc local d = (case dt_off d of None \<Rightarrow> dt_wall d - local d | Some z \<Rightarrow> dt_wall d - z)"

text \<open>\<^verbatim>\<open>datetime.fromtimestamp(x, UTC)\<close>, years 1 to 9999.\<close>

definition fromtimestamp :: "f64 \<Rightarrow> int res" where
  "fromtimestamp x = bindR (td_seconds x) (\<lambda>us.
     if - 62135596800000000 \<le> us \<and> us < 253402300800000000 then ret us else raise ValueError)"

section \<open>The market calendar\<close>

datatype market_status = OPEN | CLOSED | WEEKEND | PAUSED | UNKNOWN | WEEKLY_OPEN_GUARD | FRIDAY_CUTOFF

record market_report =
  mr_state :: market_status
  mr_age :: "f64 option"
  mr_next_open :: "int option"
  mr_reason :: string

definition in_weekend :: "int \<Rightarrow> bool" where
  "in_weekend us = (let wd = utc_weekday us in
     wd = 4 \<and> 22 \<le> utc_hour us \<or> wd \<in> {5, 6} \<or> wd = 6 \<and> utc_hour us < 22)"

definition calendar_next_open :: "int \<Rightarrow> int" where
  "calendar_next_open us = (let wd = utc_weekday us;
      days_ahead = (if wd < 6 then 6 - wd else 0);
      next_open = at_utctime (us + days_ahead * us_per_day) 21
    in if next_open \<le> us then next_open + 7 * us_per_day else next_open)"

definition market_state_at :: "int \<Rightarrow> f64 option \<Rightarrow> f64 \<Rightarrow> market_report" where
  "market_state_at us age stale =
     (if in_weekend us then
        \<lparr>mr_state = WEEKEND, mr_age = age, mr_next_open = Some (calendar_next_open us),
         mr_reason = ''weekend (Fri 22:00 UTC - Sun 21:00 UTC)''\<rparr>
      else case age of
        None \<Rightarrow> \<lparr>mr_state = UNKNOWN, mr_age = None, mr_next_open = None, mr_reason = ''no tick freshness''\<rparr>
      | Some a \<Rightarrow>
          if a \<le> stale then
            \<lparr>mr_state = OPEN, mr_age = Some (round_nd 1 a), mr_next_open = None, mr_reason = ''fresh tick''\<rparr>
          else
            \<lparr>mr_state = CLOSED, mr_age = Some (round_nd 1 a), mr_next_open = None,
             mr_reason = ''weekday, no fresh tick''\<rparr>)"

definition market_state :: "(py_datetime \<Rightarrow> int) \<Rightarrow> server_clock \<Rightarrow> f64 option \<Rightarrow> f64 \<Rightarrow> market_report res" where
  "market_state local clock age stale =
     (case clock of
        NoClock \<Rightarrow> ret \<lparr>mr_state = UNKNOWN, mr_age = age, mr_next_open = None, mr_reason = ''no broker time''\<rparr>
      | Moment d \<Rightarrow> ret (market_state_at (astimezone_utc local d) age stale)
      | Epoch x \<Rightarrow> bindR (fromtimestamp x) (\<lambda>us. ret (market_state_at us age stale)))"

text \<open>The day key is the date of the clock as it reads, without a change of zone.\<close>

definition current_trading_day :: "server_clock \<Rightarrow> string option res" where
  "current_trading_day clock =
     (case clock of
        NoClock \<Rightarrow> ret None
      | Moment d \<Rightarrow> ret (Some (date_isoformat (date_ord d)))
      | Epoch x \<Rightarrow> bindR (fromtimestamp x) (\<lambda>us. ret (Some (date_isoformat (date_ord (utc us))))))"

section \<open>The entry gate\<close>

record gate_config =
  opening_guard_minutes :: f64
  friday_cutoff_minutes :: f64
  tick_stale_after_sec :: f64
  allow_when_unknown :: bool

definition mk_gate_config :: "gate_config \<Rightarrow> gate_config res" where
  "mk_gate_config c = (if opening_guard_minutes c < 0 \<or> friday_cutoff_minutes c < 0 \<or> tick_stale_after_sec c < 0
     then raise ValueError else ret c)"

record gate_detail =
  gd_state :: market_status
  gd_base_state :: market_status
  gd_base_reason :: string
  gd_age :: "f64 option"
  gd_stale_after :: f64
  gd_server_now :: "int option"
  gd_now_utc :: "int option"
  gd_boundaries :: "(int \<times> int \<times> int) option"
  gd_guard :: "(f64 \<times> f64) option"
  gd_cutoff :: "(f64 \<times> f64) option"

record gate_verdict =
  gv_allowed :: bool
  gv_state :: market_status
  gv_reason :: string
  gv_detail :: gate_detail

definition normalize_instant :: "(py_datetime \<Rightarrow> int) \<Rightarrow> server_clock \<Rightarrow> int option" where
  "normalize_instant local clock =
     (case clock of
        NoClock \<Rightarrow> None
      | Moment d \<Rightarrow> Some (astimezone_utc local d)
      | Epoch x \<Rightarrow> (case fromtimestamp x of Inl _ \<Rightarrow> None | Inr us \<Rightarrow> Some us))"

definition week_sunday_open :: "int \<Rightarrow> int" where
  "week_sunday_open us =
     (if utc_weekday us = 6 then at_utctime us 21
      else at_utctime (us - (utc_weekday us + 1) * us_per_day) 21)"

definition week_friday_close :: "int \<Rightarrow> int" where
  "week_friday_close us =
     (let candidate = at_utctime (us + (4 - utc_weekday us) * us_per_day) 22
      in if candidate < week_sunday_open us then candidate + 7 * us_per_day else candidate)"

definition next_weekly_open :: "int \<Rightarrow> int" where
  "next_weekly_open us = (let w = week_sunday_open us in if w \<le> us then w + 7 * us_per_day else w)"

definition is_sunday_post_open :: "int \<Rightarrow> bool" where
  "is_sunday_post_open us \<longleftrightarrow> utc_weekday us = 6 \<and> week_sunday_open us \<le> us"

definition unknown_verdict :: "gate_config \<Rightarrow> gate_detail \<Rightarrow> gate_verdict" where
  "unknown_verdict c d =
     (let d = d\<lparr>gd_state := UNKNOWN\<rparr> in
      if allow_when_unknown c then
        \<lparr>gv_allowed = True, gv_state = UNKNOWN, gv_reason = ''UNKNOWN_ALLOWED_BY_CONFIG'', gv_detail = d\<rparr>
      else \<lparr>gv_allowed = False, gv_state = UNKNOWN,
            gv_reason = (if gd_server_now d = None then ''NO_BROKER_TIME'' else ''NO_TICK_FRESHNESS''),
            gv_detail = d\<rparr>)"

definition blocked_verdict :: "market_status \<Rightarrow> string \<Rightarrow> gate_detail \<Rightarrow> gate_verdict" where
  "blocked_verdict s reason d =
     \<lparr>gv_allowed = False, gv_state = s, gv_reason = reason, gv_detail = d\<lparr>gd_state := s\<rparr>\<rparr>"

definition in_session_verdict :: "gate_config \<Rightarrow> int \<Rightarrow> f64 option \<Rightarrow> gate_detail \<Rightarrow> gate_verdict" where
  "in_session_verdict c us age d =
     (case age of
        None \<Rightarrow> unknown_verdict c d
      | Some a \<Rightarrow>
        if tick_stale_after_sec c < a then blocked_verdict CLOSED ''MARKET_CLOSED'' d
        else
          let elapsed = total_seconds (us - week_sunday_open us);
              guard_sec = opening_guard_minutes c * Fin 60
          in if 0 \<le> elapsed \<and> elapsed < guard_sec then
               \<lparr>gv_allowed = False, gv_state = WEEKLY_OPEN_GUARD, gv_reason = ''WEEKLY_OPEN_GUARD'',
                gv_detail = d\<lparr>gd_state := WEEKLY_OPEN_GUARD, gd_guard := Some (opening_guard_minutes c, elapsed)\<rparr>\<rparr>
             else
               let to_close = total_seconds (week_friday_close us - us);
                   cutoff_sec = friday_cutoff_minutes c * Fin 60
               in if utc_weekday us = 4 \<and> 0 \<le> to_close \<and> to_close \<le> cutoff_sec then
                    \<lparr>gv_allowed = False, gv_state = FRIDAY_CUTOFF, gv_reason = ''FRIDAY_CUTOFF'',
                     gv_detail = d\<lparr>gd_state := FRIDAY_CUTOFF, gd_cutoff := Some (friday_cutoff_minutes c, to_close)\<rparr>\<rparr>
                  else \<lparr>gv_allowed = True, gv_state = OPEN, gv_reason = ''ENTRY_ALLOWED'',
                        gv_detail = d\<lparr>gd_state := OPEN\<rparr>\<rparr>)"

definition status_text :: "market_status \<Rightarrow> string" where
  "status_text s = (case s of OPEN \<Rightarrow> ''OPEN'' | CLOSED \<Rightarrow> ''CLOSED'' | WEEKEND \<Rightarrow> ''WEEKEND''
     | PAUSED \<Rightarrow> ''PAUSED'' | UNKNOWN \<Rightarrow> ''UNKNOWN'' | WEEKLY_OPEN_GUARD \<Rightarrow> ''WEEKLY_OPEN_GUARD''
     | FRIDAY_CUTOFF \<Rightarrow> ''FRIDAY_CUTOFF'')"

text \<open>\<open>market_state\<close> is called with the normalised moment, so it does not raise here.\<close>

definition base_state :: "int option \<Rightarrow> f64 option \<Rightarrow> f64 \<Rightarrow> market_report" where
  "base_state us age stale = (case us of
     None \<Rightarrow> \<lparr>mr_state = UNKNOWN, mr_age = age, mr_next_open = None, mr_reason = ''no broker time''\<rparr>
   | Some us \<Rightarrow> market_state_at us age stale)"

definition gate_evaluate ::
  "(py_datetime \<Rightarrow> int) \<Rightarrow> gate_config \<Rightarrow> server_clock \<Rightarrow> f64 option \<Rightarrow> py_datetime option \<Rightarrow> gate_verdict" where
  "gate_evaluate local c clock age now_utc =
     (let broker_now = normalize_instant local clock;
          base = base_state broker_now age (tick_stale_after_sec c);
          d = \<lparr>gd_state = mr_state base, gd_base_state = mr_state base, gd_base_reason = mr_reason base,
               gd_age = age, gd_stale_after = tick_stale_after_sec c, gd_server_now = broker_now,
               gd_now_utc = map_option (astimezone_utc local) now_utc,
               gd_boundaries = map_option (\<lambda>us. (week_sunday_open us, week_friday_close us, next_weekly_open us)) broker_now,
               gd_guard = None, gd_cutoff = None\<rparr>
      in case broker_now of
           None \<Rightarrow> unknown_verdict c d
         | Some us \<Rightarrow>
             if mr_state base = UNKNOWN then unknown_verdict c d
             else if mr_state base = WEEKEND \<and> is_sunday_post_open us then in_session_verdict c us age d
             else if mr_state base \<in> {WEEKEND, CLOSED, PAUSED} then
               blocked_verdict (mr_state base) (''MARKET_'' @ status_text (mr_state base)) d
             else if mr_state base = OPEN then in_session_verdict c us age d
             else blocked_verdict (mr_state base) ''UNRECOGNIZED_CALENDAR_STATE'' d)"

lemma base_state_is_market_state:
  "market_state local (case us of None \<Rightarrow> NoClock | Some u \<Rightarrow> Moment (utc u)) age stale = Inr (base_state us age stale)"
  by (cases us) (simp_all add: market_state_def base_state_def ret_def astimezone_utc_def utc_def)

section \<open>The trading week\<close>

text \<open>
  The specification of the session: a week begins on Sunday at 21:00 UTC and is open for 121
  hours, to Friday 22:00. \<open>week_offset\<close> is the time since the beginning of the week.
\<close>

definition us_per_week :: int where "us_per_week = 7 * us_per_day"

definition sunday_reference :: int where "sunday_reference = 3 * us_per_day + 21 * us_per_hour"

definition week_offset :: "int \<Rightarrow> int" where
  "week_offset us = (us - sunday_reference) mod us_per_week"

definition session_length :: int where "session_length = 121 * us_per_hour"

lemma week_offset_bounds: "0 \<le> week_offset us" "week_offset us < us_per_week"
  by (simp_all add: week_offset_def us_per_week_def)

lemma utc_weekday_eq: "utc_weekday us = (us div us_per_day + 3) mod 7"
proof -
  have "719163 + q + 6 = (q + 3) + 102738 * 7" for q :: int by simp
  then have "(719163 + q + 6) mod 7 = (q + 3) mod 7" for q :: int by (metis mod_mult_self1)
  then show ?thesis unfolding utc_weekday_def weekday_def weekday_ord_def date_ord_utc .
qed

lemma utc_weekday_range: "0 \<le> utc_weekday us" "utc_weekday us < 7"
  by (simp_all add: utc_weekday_eq)

text \<open>A moment is a week number, a weekday and a time of day.\<close>

lemma utc_split:
  obtains q r where "us = (7 * q + utc_weekday us - 3) * us_per_day + r" "0 \<le> r" "r < us_per_day"
    "us div us_per_day = 7 * q + utc_weekday us - 3" "us mod us_per_day = r"
proof
  let ?d = "us div us_per_day"
  have "7 * ((?d + 3) div 7) + (?d + 3) mod 7 = ?d + 3" by (rule mult_div_mod_eq)
  then show d: "?d = 7 * ((?d + 3) div 7) + utc_weekday us - 3" by (simp add: utc_weekday_eq)
  have "us = ?d * us_per_day + us mod us_per_day" by (simp add: div_mult_mod_eq)
  then show "us = (7 * ((?d + 3) div 7) + utc_weekday us - 3) * us_per_day + us mod us_per_day"
    using d by metis
qed simp_all

lemma mod_eqI: "0 \<le> y \<Longrightarrow> y < m \<Longrightarrow> x = y + m * k \<Longrightarrow> x mod m = (y::int)"
  by simp

lemma week_offset_split:
  assumes "us = (7 * q + w - 3) * us_per_day + r" "0 \<le> r" "r < us_per_day" "0 \<le> w" "w < 7"
  shows "week_offset us = (if w = 6 \<and> 21 * us_per_hour \<le> r then r - 21 * us_per_hour
     else if w = 6 then r - 21 * us_per_hour + us_per_week
     else (w + 1) * us_per_day + r - 21 * us_per_hour)"
proof -
  have e: "us - sunday_reference = (w - 6) * us_per_day + r - 21 * us_per_hour + us_per_week * q"
    by (simp add: assms(1) sunday_reference_def us_per_week_def algebra_simps)
  show ?thesis
  proof (cases "w = 6")
    case True
    show ?thesis
    proof (cases "21 * us_per_hour \<le> r")
      case late: True
      then show ?thesis unfolding week_offset_def e using True assms
        by (simp add: us_per_week_def)
    next
      case False
      then have "week_offset us = r - 21 * us_per_hour + us_per_week"
        unfolding week_offset_def e using True assms
        by (intro mod_eqI [where k = "q - 1"]) (simp_all add: us_per_week_def algebra_simps)
      then show ?thesis using True False by simp
    qed
  next
    case False
    then have "week_offset us = (w + 1) * us_per_day + r - 21 * us_per_hour"
      unfolding week_offset_def e using assms
      by (intro mod_eqI [where k = "q - 1"]) (simp_all add: us_per_week_def algebra_simps)
    then show ?thesis using False by simp
  qed
qed

lemma at_utctime_eq: "at_utctime us h = us - us mod us_per_day + h * us_per_hour"
  by (simp add: at_utctime_def minus_mod_eq_div_mult)

text \<open>The code's week boundaries in terms of the offset.\<close>

lemma sunday_open_eq:
  "week_sunday_open us = (if utc_weekday us = 6 \<and> us mod us_per_day < 21 * us_per_hour
     then us - week_offset us + us_per_week else us - week_offset us)"
proof -
  obtain q r where s: "us = (7 * q + utc_weekday us - 3) * us_per_day + r" "0 \<le> r" "r < us_per_day"
    "us div us_per_day = 7 * q + utc_weekday us - 3" "us mod us_per_day = r"
    by (rule utc_split)
  note o = week_offset_split [OF s(1-3) utc_weekday_range]
  have shift: "(us - k * us_per_day) mod us_per_day = r" for k
    using mod_mult_self1 [of us "- k" us_per_day] s(5) by simp
  show ?thesis
    unfolding week_sunday_open_def at_utctime_eq shift s(5) o
    by (simp add: us_per_week_def algebra_simps)
qed

lemma friday_close_eq:
  assumes "utc_weekday us \<noteq> 6"
  shows "week_friday_close us = us - week_offset us + session_length"
proof -
  obtain q r where s: "us = (7 * q + utc_weekday us - 3) * us_per_day + r" "0 \<le> r" "r < us_per_day"
    "us div us_per_day = 7 * q + utc_weekday us - 3" "us mod us_per_day = r"
    by (rule utc_split)
  note o = week_offset_split [OF s(1-3) utc_weekday_range]
  have shift: "(us + k * us_per_day) mod us_per_day = r" for k
    using mod_mult_self1 [of us k us_per_day] s(5) by simp
  have c: "at_utctime (us + (4 - utc_weekday us) * us_per_day) 22 = us - week_offset us + session_length"
    unfolding at_utctime_eq shift o using assms by (simp add: session_length_def algebra_simps)
  have "\<not> at_utctime (us + (4 - utc_weekday us) * us_per_day) 22 < week_sunday_open us"
    unfolding c sunday_open_eq using assms by (simp add: session_length_def)
  then show ?thesis unfolding week_friday_close_def Let_def if_not_P using c by simp
qed

lemma zle_div_iff_mult_le: "0 < (m::int) \<Longrightarrow> k \<le> r div m \<longleftrightarrow> k * m \<le> r"
proof
  assume m: "0 < m" and "k \<le> r div m"
  then have "k * m \<le> r div m * m" by (intro mult_right_mono) auto
  also have "\<dots> \<le> r" using pos_mod_sign [OF m, of r] div_mult_mod_eq [of r m] by linarith
  finally show "k * m \<le> r" .
next
  assume "0 < m" "k * m \<le> r"
  then show "k \<le> r div m" using zdiv_mono1 [of "k * m" r m] by simp
qed

lemma weekend_iff_closed: "in_weekend us \<and> \<not> is_sunday_post_open us \<longleftrightarrow> session_length \<le> week_offset us"
proof -
  obtain q r where s: "us = (7 * q + utc_weekday us - 3) * us_per_day + r" "0 \<le> r" "r < us_per_day"
    "us div us_per_day = 7 * q + utc_weekday us - 3" "us mod us_per_day = r"
    by (rule utc_split)
  define w where "w = utc_weekday us"
  have w: "0 \<le> w" "w < 7" using utc_weekday_range [of us] by (simp_all add: w_def)
  note o = week_offset_split [OF s(1-3) utc_weekday_range, folded w_def]
  have h: "22 \<le> r div us_per_hour \<longleftrightarrow> 22 * us_per_hour \<le> r"
    by (rule zle_div_iff_mult_le) simp
  have wo: "week_sunday_open us \<le> us \<longleftrightarrow> \<not> (w = 6 \<and> r < 21 * us_per_hour)"
    unfolding sunday_open_eq s(5) w_def [symmetric] using week_offset_bounds [of us] by auto
  have l: "in_weekend us \<and> \<not> is_sunday_post_open us \<longleftrightarrow>
      w = 4 \<and> 22 * us_per_hour \<le> r \<or> w = 5 \<or> w = 6 \<and> r < 21 * us_per_hour"
    unfolding in_weekend_def is_sunday_post_open_def Let_def utc_hour_def s(5) w_def [symmetric] h wo by auto
  consider "w \<le> 3" | "w = 4" | "w = 5" | "w = 6" using w by linarith
  then show ?thesis unfolding l o session_length_def us_per_week_def
  proof cases
    case 1
    then have "(w + 1) * us_per_day \<le> 4 * us_per_day" by (intro mult_right_mono) auto
    then show "(w = 4 \<and> 22 * us_per_hour \<le> r \<or> w = 5 \<or> w = 6 \<and> r < 21 * us_per_hour) =
      (121 * us_per_hour \<le> (if w = 6 \<and> 21 * us_per_hour \<le> r then r - 21 * us_per_hour
         else if w = 6 then r - 21 * us_per_hour + 7 * us_per_day
         else (w + 1) * us_per_day + r - 21 * us_per_hour))"
      using 1 s(3) by auto
  qed (use s in auto)
qed

lemma elapsed_eq:
  assumes "\<not> (utc_weekday us = 6 \<and> us mod us_per_day < 21 * us_per_hour)"
  shows "us - week_sunday_open us = week_offset us"
  unfolding sunday_open_eq if_not_P [OF assms] by simp

lemma open_not_early_sunday:
  assumes "week_offset us < session_length"
  shows "\<not> (utc_weekday us = 6 \<and> us mod us_per_day < 21 * us_per_hour)"
proof
  assume a: "utc_weekday us = 6 \<and> us mod us_per_day < 21 * us_per_hour"
  then have "in_weekend us" by (auto simp: in_weekend_def Let_def)
  moreover have "\<not> is_sunday_post_open us"
    using a week_offset_bounds [of us] by (simp add: is_sunday_post_open_def sunday_open_eq)
  ultimately show False using assms weekend_iff_closed [of us] by simp
qed

text \<open>The verdict by the calendar's state.\<close>

lemma base_unknown: "mr_state (market_state_at us age stale) = UNKNOWN \<longleftrightarrow> \<not> in_weekend us \<and> age = None"
  and base_weekend: "mr_state (market_state_at us age stale) = WEEKEND \<longleftrightarrow> in_weekend us"
  and base_open: "mr_state (market_state_at us age stale) = OPEN \<longleftrightarrow> \<not> in_weekend us \<and> (\<exists>a. age = Some a \<and> a \<le> stale)"
  by (auto simp: market_state_at_def split: option.splits)

lemma base_other: "mr_state (market_state_at us age stale) \<in> {UNKNOWN, WEEKEND, OPEN, CLOSED}"
  by (auto simp: market_state_at_def split: option.splits)

lemma unknown_allowed [simp]: "gv_allowed (unknown_verdict c d) = allow_when_unknown c"
  by (simp add: unknown_verdict_def Let_def)

lemma blocked_allowed [simp]: "\<not> gv_allowed (blocked_verdict s r d)"
  by (simp add: blocked_verdict_def)

lemma in_session_None [simp]: "in_session_verdict c us None d = unknown_verdict c d"
  by (simp add: in_session_verdict_def)

lemma in_session_allowed:
  "gv_allowed (in_session_verdict c us (Some a) d) \<longleftrightarrow>
     \<not> tick_stale_after_sec c < a
     \<and> \<not> (0 \<le> total_seconds (us - week_sunday_open us)
          \<and> total_seconds (us - week_sunday_open us) < opening_guard_minutes c * Fin 60)
     \<and> \<not> (utc_weekday us = 4 \<and> 0 \<le> total_seconds (week_friday_close us - us)
          \<and> total_seconds (week_friday_close us - us) \<le> friday_cutoff_minutes c * Fin 60)"
  by (simp add: in_session_verdict_def Let_def)

lemma gate_allowed_at:
  assumes "normalize_instant local clock = Some us"
  shows "\<exists>d. gv_allowed (gate_evaluate local c clock age now) \<longleftrightarrow>
     (if in_weekend us then is_sunday_post_open us \<and> gv_allowed (in_session_verdict c us age d)
      else age = None \<and> allow_when_unknown c
        \<or> (\<exists>a. age = Some a \<and> a \<le> tick_stale_after_sec c) \<and> gv_allowed (in_session_verdict c us age d))"
proof -
  let ?b = "market_state_at us age (tick_stale_after_sec c)"
  have b: "base_state (Some us) age (tick_stale_after_sec c) = ?b" by (simp add: base_state_def)
  show ?thesis
    using base_unknown [of us age "tick_stale_after_sec c"] base_weekend [of us age "tick_stale_after_sec c"]
      base_open [of us age "tick_stale_after_sec c"] base_other [of us age "tick_stale_after_sec c"]
    unfolding gate_evaluate_def Let_def assms option.case b
    by (auto split: if_splits)
qed

lemma late_hours: "22 * us_per_hour < x \<Longrightarrow> \<not> total_seconds x \<le> Fin 79200"
proof -
  assume "22 * us_per_hour < x"
  then have "total_seconds 79200000001 \<le> total_seconds x" by (intro total_seconds_mono) simp
  moreover have "Fin 79200 < total_seconds 79200000001" by code_simp
  ultimately have "Fin 79200 < total_seconds x" by (auto intro: f64_less_le_trans)
  then show ?thesis by (cases "total_seconds x") auto
qed

lemma total_seconds_nonneg: "0 \<le> x \<Longrightarrow> 0 \<le> total_seconds x"
  using total_seconds_mono [of 0 x] by (simp add: zero_f64_Fin)

text \<open>In session, only a Friday has less than 22 hours left.\<close>

lemma not_friday_long_left:
  assumes "week_offset us < session_length" "utc_weekday us \<noteq> 4"
  shows "22 * us_per_hour < session_length - week_offset us"
proof -
  obtain q r where s: "us = (7 * q + utc_weekday us - 3) * us_per_day + r" "0 \<le> r" "r < us_per_day"
    "us div us_per_day = 7 * q + utc_weekday us - 3" "us mod us_per_day = r"
    by (rule utc_split)
  define w where "w = utc_weekday us"
  have w: "0 \<le> w" "w < 7" using utc_weekday_range [of us] by (simp_all add: w_def)
  note o = week_offset_split [OF s(1-3) utc_weekday_range, folded w_def]
  have le: "w \<le> 3 \<Longrightarrow> (w + 1) * us_per_day \<le> 4 * us_per_day" by (intro mult_right_mono) auto
  have w5: "w = 5 \<Longrightarrow> False" using assms(1) s(2) unfolding o session_length_def by simp
  have "w \<le> 3 \<or> w = 4 \<or> w = 5 \<or> w = 6" using w by linarith
  then consider "w \<le> 3" | "w = 6" using w5 assms(2) unfolding w_def [symmetric] by auto
  then show ?thesis
    using assms(1) le s(2,3) unfolding o session_length_def us_per_week_def by cases (auto split: if_splits)
qed

lemma friday_close_eq_session: "utc_weekday us = 4 \<Longrightarrow> week_friday_close us - us = session_length - week_offset us"
  using friday_close_eq [of us] by simp

section \<open>Properties\<close>

text \<open>C23: With unknown states refused, the gate lets an entry pass exactly when the broker's clock
  and the tick age are known, the tick is fresh, and the moment lies in the session of the week
  (Sunday 21:00 to Friday 22:00 UTC) after the opening guard and before the closing cutoff. This
  is stated for every week at once, for cutoffs of at most 22 hours.\<close>

lemma entry_allowed_iff_in_session:
  assumes "\<not> allow_when_unknown c" "age \<noteq> Some NaN" "tick_stale_after_sec c \<noteq> NaN"
    and "friday_cutoff_minutes c * Fin 60 \<le> Fin 79200"
  shows "gv_allowed (gate_evaluate local c clock age now) \<longleftrightarrow>
    (\<exists>us a. normalize_instant local clock = Some us \<and> age = Some a \<and> a \<le> tick_stale_after_sec c
       \<and> week_offset us < session_length
       \<and> \<not> total_seconds (week_offset us) < opening_guard_minutes c * Fin 60
       \<and> \<not> total_seconds (session_length - week_offset us) \<le> friday_cutoff_minutes c * Fin 60)"
proof (cases "normalize_instant local clock")
  case None
  then show ?thesis using assms(1) by (simp add: gate_evaluate_def Let_def)
next
  case (Some us)
  obtain d where d: "gv_allowed (gate_evaluate local c clock age now) \<longleftrightarrow>
     (if in_weekend us then is_sunday_post_open us \<and> gv_allowed (in_session_verdict c us age d)
      else age = None \<and> allow_when_unknown c
        \<or> (\<exists>a. age = Some a \<and> a \<le> tick_stale_after_sec c) \<and> gv_allowed (in_session_verdict c us age d))"
    using gate_allowed_at [OF Some, of c age now] by blast
  show ?thesis
  proof (cases age)
    case None
    then show ?thesis using assms(1) d by simp
  next
    case (Some a)
    have fresh: "a \<le> tick_stale_after_sec c \<longleftrightarrow> \<not> tick_stale_after_sec c < a"
      using assms(2,3) Some f64_not_less [of "tick_stale_after_sec c" a] by auto
    have open_iff: "gv_allowed (gate_evaluate local c clock age now) \<longleftrightarrow>
        week_offset us < session_length \<and> gv_allowed (in_session_verdict c us (Some a) d)"
    proof -
      have stale: "gv_allowed (in_session_verdict c us (Some a) d) \<Longrightarrow> a \<le> tick_stale_after_sec c"
        unfolding fresh in_session_allowed by blast
      have len: "week_offset us < session_length \<longleftrightarrow> \<not> in_weekend us \<or> is_sunday_post_open us"
        using weekend_iff_closed [of us] by linarith
      show ?thesis using d stale unfolding len Some
        by (cases "in_weekend us"; cases "is_sunday_post_open us") (simp_all, blast+)
    qed
    show ?thesis
    proof (cases "week_offset us < session_length")
      case True
      note e = elapsed_eq [OF open_not_early_sunday [OF True]]
      have "\<not> total_seconds (session_length - week_offset us) \<le> friday_cutoff_minutes c * Fin 60"
        if "utc_weekday us \<noteq> 4"
        using late_hours [OF not_friday_long_left [OF True that]] assms(4) by (auto intro: f64_le_trans)
      moreover have "0 \<le> total_seconds (week_offset us)" "0 \<le> total_seconds (session_length - week_offset us)"
        using week_offset_bounds [of us] True by (auto intro!: total_seconds_nonneg)
      ultimately have "gv_allowed (gate_evaluate local c clock age now) \<longleftrightarrow> a \<le> tick_stale_after_sec c
          \<and> \<not> total_seconds (week_offset us) < opening_guard_minutes c * Fin 60
          \<and> \<not> total_seconds (session_length - week_offset us) \<le> friday_cutoff_minutes c * Fin 60"
        unfolding open_iff in_session_allowed e fresh using True
        by (cases "utc_weekday us = 4") (auto simp only: friday_close_eq_session simp_thms)
      then show ?thesis
        unfolding \<open>normalize_instant local clock = Some us\<close> Some using True by simp
    next
      case False
      then show ?thesis using open_iff unfolding \<open>normalize_instant local clock = Some us\<close> Some by simp
    qed
  qed
qed

definition sample_gate :: gate_config where
  "sample_gate = \<lparr>opening_guard_minutes = Fin 10, friday_cutoff_minutes = Fin 20,
     tick_stale_after_sec = Fin 120, allow_when_unknown = False\<rparr>"

lemma entry_allowed_iff_in_session_witness:
  "gv_allowed (gate_evaluate (\<lambda>_. 0) sample_gate (Moment (utc 1755774000000000)) (Some (Fin 3)) None)"
proof -
  have w: "week_offset 1755774000000000 = 309600000000"
    by (simp add: week_offset_def sunday_reference_def us_per_week_def)
  show ?thesis
    using entry_allowed_iff_in_session [of sample_gate "Some (Fin 3)" "\<lambda>_. 0" "Moment (utc 1755774000000000)" None]
    by (simp add: sample_gate_def normalize_instant_def astimezone_utc_def utc_def w session_length_def
        total_seconds_def)
qed

text \<open>The calendar's next opening and the gate's next weekly opening are the same moment: the
  first Sunday 21:00 UTC after the given one, for every moment of every week.\<close>

lemma next_open_agrees:
  "calendar_next_open us = next_weekly_open us
   \<and> next_weekly_open us = us + (us_per_week - week_offset us) \<and> week_offset (next_weekly_open us) = 0"
proof -
  obtain q r where s: "us = (7 * q + utc_weekday us - 3) * us_per_day + r" "0 \<le> r" "r < us_per_day"
    "us div us_per_day = 7 * q + utc_weekday us - 3" "us mod us_per_day = r"
    by (rule utc_split)
  define w where "w = utc_weekday us"
  have w: "0 \<le> w" "w < 7" using utc_weekday_range [of us] by (simp_all add: w_def)
  note o = week_offset_split [OF s(1-3) utc_weekday_range, folded w_def]
  have gate: "next_weekly_open us = us + (us_per_week - week_offset us)"
    using week_offset_bounds [of us] unfolding next_weekly_open_def sunday_open_eq Let_def
    by (simp add: us_per_week_def)
  have at: "at_utctime (us + k * us_per_day) 21 = us + k * us_per_day - r + 21 * us_per_hour" for k
    using mod_mult_self1 [of us k us_per_day] s(5) by (simp add: at_utctime_eq)
  have "calendar_next_open us = us + (us_per_week - week_offset us)"
  proof (cases "w = 6")
    case True
    then show ?thesis
      using s(2,3) at [of 0] unfolding calendar_next_open_def Let_def w_def [symmetric] o us_per_week_def by simp
  next
    case False
    then have lt: "w < 6" using w by simp
    have k: "(6 - w) * us_per_day = 6 * us_per_day - w * us_per_day" by (simp add: algebra_simps)
    have ge: "us_per_day \<le> (6 - w) * us_per_day" using mult_right_mono [of 1 "6 - w" us_per_day] lt by simp
    have later: "\<not> us + (6 - w) * us_per_day - r + 21 * us_per_hour \<le> us" using ge s(3) by simp
    have "calendar_next_open us = us + (6 - w) * us_per_day - r + 21 * us_per_hour"
      using lt unfolding calendar_next_open_def Let_def w_def [symmetric] if_P [OF lt] at
      by (simp only: later if_False)
    then show ?thesis using False k unfolding o us_per_week_def by (simp add: algebra_simps)
  qed
  moreover have "week_offset (us + (us_per_week - week_offset us)) = 0"
  proof -
    have "us + (us_per_week - week_offset us) - sunday_reference
        = us_per_week + ((us - sunday_reference) - (us - sunday_reference) mod us_per_week)"
      by (simp add: week_offset_def)
    also have "\<dots> = ((us - sunday_reference) div us_per_week + 1) * us_per_week"
      by (simp add: minus_mod_eq_div_mult algebra_simps)
    finally show ?thesis unfolding week_offset_def [of "us + _"] by simp
  qed
  ultimately show ?thesis using gate by simp
qed

text \<open>A tick age that is not a number is refused on every weekday of the session, yet accepted
  on a Sunday after the opening guard: the freshness test of that branch is the negated
  comparison.\<close>

lemma nan_age_allowed_on_sunday:
  assumes "is_sunday_post_open us" "\<not> total_seconds (week_offset us) < opening_guard_minutes c * Fin 60"
  shows "gv_allowed (gate_evaluate local c (Moment (utc us)) (Some NaN) now)
    \<and> (\<not> in_weekend us' \<longrightarrow> \<not> gv_allowed (gate_evaluate local c (Moment (utc us')) (Some NaN) now))"
proof (intro conjI impI)
  have n: "normalize_instant local (Moment (utc u)) = Some u" for u
    by (simp add: normalize_instant_def astimezone_utc_def utc_def)
  have wd: "utc_weekday us = 6" "in_weekend us" using assms(1)
    by (auto simp: is_sunday_post_open_def in_weekend_def Let_def)
  have "us - week_sunday_open us = week_offset us"
  proof (rule elapsed_eq)
    show "\<not> (utc_weekday us = 6 \<and> us mod us_per_day < 21 * us_per_hour)"
      using assms(1) week_offset_bounds [of us] by (auto simp: is_sunday_post_open_def sunday_open_eq)
  qed
  then have "gv_allowed (in_session_verdict c us (Some NaN) d)" for d
    using assms(2) wd unfolding in_session_allowed by simp
  then show "gv_allowed (gate_evaluate local c (Moment (utc us)) (Some NaN) now)"
    using gate_allowed_at [OF n [of us], where c = c and age = "Some NaN" and now = now] wd assms(1) by auto
  show "\<not> gv_allowed (gate_evaluate local c (Moment (utc us')) (Some NaN) now)" if "\<not> in_weekend us'"
    using gate_allowed_at [OF n [of us'], where c = c and age = "Some NaN" and now = now] that by auto
qed

lemma nan_age_allowed_on_sunday_witness:
  "gv_allowed (gate_evaluate (\<lambda>_. 0) sample_gate (Moment (utc 1756071000000000)) (Some NaN) None)"
proof -
  have "utc_weekday 1756071000000000 = 6" "at_utctime 1756071000000000 21 = 1756069200000000"
    by (simp_all add: utc_weekday_eq at_utctime_def)
  then have s: "is_sunday_post_open 1756071000000000"
    by (simp add: is_sunday_post_open_def week_sunday_open_def)
  have "week_offset 1756071000000000 = 1800000000"
    by (simp add: week_offset_def sunday_reference_def us_per_week_def)
  then have "\<not> total_seconds (week_offset 1756071000000000) < opening_guard_minutes sample_gate * Fin 60"
    by (simp add: total_seconds_def sample_gate_def)
  from nan_age_allowed_on_sunday [OF s this] show ?thesis by blast
qed

end
