(* ===== verification/BarAggregator.thy ===== *)
theory BarAggregator
  imports Prelude PyNum PyTime Domain
begin

text \<open>
  \<^verbatim>\<open>market_data/bar_aggregator.py\<close>: candles from ticks. Ticks have passed the validators of
  \<open>Domain\<close>, so their timestamps are in UTC; a bar's timestamp is its number of microseconds
  since the epoch. Every operation returns its result and the state it leaves, also when it
  raises.
\<close>

section \<open>Bars\<close>

record bar =
  bar_symbol :: string
  bar_timeframe :: string
  bar_time :: int
  bar_open :: f64
  bar_high :: f64
  bar_low :: f64
  bar_close :: f64
  bar_volume :: int
  bar_complete :: bool

definition CANONICAL_TIMEFRAMES :: "string list" where
  "CANONICAL_TIMEFRAMES = [''M1'', ''M2'', ''M3'', ''M4'', ''M5'', ''M6'', ''M10'', ''M12'', ''M15'', ''M20'',
     ''M30'', ''H1'', ''H2'', ''H3'', ''H4'', ''H6'', ''H8'', ''H12'', ''D1'', ''W1'', ''MN1'']"

definition mk_bar :: "bar \<Rightarrow> bar res" where
  "mk_bar b =
     (if bar_timeframe b \<in> set CANONICAL_TIMEFRAMES \<and> isfinite (bar_open b) \<and> isfinite (bar_high b)
         \<and> isfinite (bar_low b) \<and> isfinite (bar_close b)
      then ret b else raise ValueError)"

section \<open>The aggregator\<close>

abbreviation us_per_minute :: int where "us_per_minute \<equiv> 60000000"

definition COMPLETED_BARS_MAXLEN :: nat where "COMPLETED_BARS_MAXLEN = 20000"

record aggregator =
  ag_symbol :: string
  ag_minutes :: int
  ag_timeframe :: string
  ag_current :: "int option"
  ag_open :: f64
  ag_high :: f64
  ag_low :: f64
  ag_close :: f64
  ag_volume :: int
  ag_completed :: "bar list"
  ag_dropped :: int
  ag_last_ts :: "int option"

definition mk_aggregator :: "string \<Rightarrow> int \<Rightarrow> aggregator" where
  "mk_aggregator symbol minutes = \<lparr>ag_symbol = symbol, ag_minutes = minutes, ag_timeframe = CHR ''M'' # show_int minutes,
     ag_current = None, ag_open = 0, ag_high = 0, ag_low = 0, ag_close = 0, ag_volume = 0,
     ag_completed = [], ag_dropped = 0, ag_last_ts = None\<rparr>"

definition tick_time :: "tick_data \<Rightarrow> int" where
  "tick_time t = dt_wall (t_timestamp t)"

definition bar_start :: "int \<Rightarrow> int \<Rightarrow> int res" where
  "bar_start minutes us =
     (let hour = 60 * us_per_minute; minute = us mod hour div us_per_minute in
      if minutes = 0 then raise ZeroDivisionError
      else let m = minute div minutes * minutes in
        if m < 0 \<or> 59 < m then raise ValueError
        else ret (us div hour * hour + m * us_per_minute))"

definition mid_price :: "tick_data \<Rightarrow> f64" where
  "mid_price t = (t_bid t + t_ask t) / Fin 2"

definition forming :: "aggregator \<Rightarrow> int \<Rightarrow> bool \<Rightarrow> bar" where
  "forming a us sealed = \<lparr>bar_symbol = ag_symbol a, bar_timeframe = ag_timeframe a, bar_time = us,
     bar_open = ag_open a, bar_high = ag_high a, bar_low = ag_low a, bar_close = ag_close a,
     bar_volume = ag_volume a, bar_complete = sealed\<rparr>"

definition start_bar :: "aggregator \<Rightarrow> int \<Rightarrow> f64 \<Rightarrow> aggregator" where
  "start_bar a us price = a\<lparr>ag_current := Some us, ag_open := price, ag_high := price, ag_low := price,
     ag_close := price, ag_volume := 1\<rparr>"

definition extend_bar :: "aggregator \<Rightarrow> f64 \<Rightarrow> aggregator" where
  "extend_bar a price = a\<lparr>ag_high := pmax (ag_high a) price, ag_low := pmin (ag_low a) price,
     ag_close := price, ag_volume := ag_volume a + 1\<rparr>"

text \<open>Appending a bar trims the ring to its newest entries and counts the ones dropped.\<close>

definition append_bar :: "aggregator \<Rightarrow> bar \<Rightarrow> aggregator" where
  "append_bar a b =
     (let bars = ag_completed a @ [b]; overflow = length bars - COMPLETED_BARS_MAXLEN
      in a\<lparr>ag_completed := List.drop overflow bars, ag_dropped := ag_dropped a + int overflow\<rparr>)"

definition process_tick :: "aggregator \<Rightarrow> tick_data \<Rightarrow> bar option res \<times> aggregator" where
  "process_tick a t =
     (if t_symbol t \<noteq> ag_symbol a then (raise ValueError, a)
      else if (case ag_last_ts a of None \<Rightarrow> False | Some l \<Rightarrow> tick_time t < l) then (ret None, a)
      else
        let a = a\<lparr>ag_last_ts := Some (tick_time t)\<rparr>; price = mid_price t
        in case bar_start (ag_minutes a) (tick_time t) of
             Inl e \<Rightarrow> (raise e, a)
           | Inr start \<Rightarrow>
             (case ag_current a of
                None \<Rightarrow> (ret None, start_bar a start price)
              | Some current \<Rightarrow>
                  if current < start then
                    (case mk_bar (forming a current True) of
                       Inl e \<Rightarrow> (raise e, a)
                     | Inr b \<Rightarrow> (ret (Some b), start_bar (append_bar a b) start price))
                  else (ret None, extend_bar a price)))"

text \<open>Stable sort by time, then the first bar of every timestamp.\<close>

fun dedupe :: "int list \<Rightarrow> bar list \<Rightarrow> bar list" where
  "dedupe seen [] = []"
| "dedupe seen (b # bs) = (if bar_time b \<in> set seen then dedupe seen bs
     else b # dedupe (bar_time b # seen) bs)"

definition seed_bars :: "bar list \<Rightarrow> bar list" where
  "seed_bars bars = filter bar_complete (dedupe [] (sort_key bar_time bars))"

definition clear_series :: "aggregator \<Rightarrow> aggregator" where
  "clear_series a = a\<lparr>ag_completed := [], ag_current := None, ag_last_ts := None\<rparr>"

definition reseed :: "aggregator \<Rightarrow> bar list \<Rightarrow> int \<Rightarrow> bar option \<times> aggregator" where
  "reseed a bars now =
     (let deduped = seed_bars bars in
      if bars = [] \<or> deduped = [] then (None, clear_series a)
      else
        let overflow = length deduped - COMPLETED_BARS_MAXLEN;
            kept = List.drop overflow deduped;
            last_bar = List.last kept;
            next_minute = bar_time last_bar + ag_minutes a * us_per_minute;
            anchor = (if now < next_minute then bar_time last_bar else next_minute)
        in (Some last_bar,
            a\<lparr>ag_completed := kept, ag_dropped := ag_dropped a + int overflow, ag_current := Some next_minute,
              ag_open := bar_close last_bar, ag_high := bar_close last_bar, ag_low := bar_close last_bar,
              ag_close := bar_close last_bar, ag_volume := 0, ag_last_ts := Some anchor\<rparr>))"

definition current_forming_bar :: "aggregator \<Rightarrow> bar option res" where
  "current_forming_bar a = (case ag_current a of
     None \<Rightarrow> ret None | Some us \<Rightarrow> bindR (mk_bar (forming a us False)) (\<lambda>b. ret (Some b)))"

section \<open>The series invariant\<close>

datatype feed_op = TickOp tick_data | ReseedOp "bar list" int

fun agg_step :: "aggregator \<Rightarrow> feed_op \<Rightarrow> aggregator" where
  "agg_step a (TickOp t) = snd (process_tick a t)"
| "agg_step a (ReseedOp bars now) = snd (reseed a bars now)"

text \<open>
  Completed bars are complete, in strictly increasing order of time, at most
  \<open>COMPLETED_BARS_MAXLEN\<close>, and all before the forming bar.
\<close>

definition series_ok :: "aggregator \<Rightarrow> bool" where
  "series_ok a \<longleftrightarrow> 0 < ag_minutes a
     \<and> sorted_wrt (<) (map bar_time (ag_completed a)) \<and> (\<forall>b \<in> set (ag_completed a). bar_complete b)
     \<and> length (ag_completed a) \<le> COMPLETED_BARS_MAXLEN
     \<and> (\<forall>b \<in> set (ag_completed a). case ag_current a of None \<Rightarrow> False | Some c \<Rightarrow> bar_time b < c)"

lemma start_bar_simps [simp]:
  "ag_minutes (start_bar a us p) = ag_minutes a" "ag_completed (start_bar a us p) = ag_completed a"
  "ag_current (start_bar a us p) = Some us"
  by (simp_all add: start_bar_def)

lemma extend_bar_simps [simp]:
  "ag_minutes (extend_bar a p) = ag_minutes a" "ag_completed (extend_bar a p) = ag_completed a"
  "ag_current (extend_bar a p) = ag_current a"
  by (simp_all add: extend_bar_def)

lemma append_bar_simps [simp]: "ag_minutes (append_bar a b) = ag_minutes a"
  by (simp add: append_bar_def Let_def)

lemma sorted_wrt_drop: "sorted_wrt P xs \<Longrightarrow> sorted_wrt P (List.drop n xs)"
  by (metis append_take_drop_id sorted_wrt_append)

lemma dedupe_sorted:
  assumes "sorted (map bar_time bs)" "\<forall>b \<in> set bs. \<forall>s \<in> set seen. s \<le> bar_time b"
  shows "sorted_wrt (<) (map bar_time (dedupe seen bs))
     \<and> (\<forall>b \<in> set (dedupe seen bs). b \<in> set bs \<and> bar_time b \<notin> set seen)"
  using assms
proof (induction seen bs rule: dedupe.induct)
  case (2 seen b bs)
  show ?case
  proof (cases "bar_time b \<in> set seen")
    case True
    then show ?thesis using 2 by auto
  next
    case False
    have IH: "sorted_wrt (<) (map bar_time (dedupe (bar_time b # seen) bs))
      \<and> (\<forall>x \<in> set (dedupe (bar_time b # seen) bs). x \<in> set bs \<and> bar_time x \<notin> set (bar_time b # seen))"
    proof (rule 2(2) [OF False])
      show "sorted (map bar_time bs)" using 2(3) by simp
      show "\<forall>x \<in> set bs. \<forall>s \<in> set (bar_time b # seen). s \<le> bar_time x" using 2(3,4) by simp
    qed
    have "\<forall>x \<in> set bs. bar_time b \<le> bar_time x" using 2(3) by simp
    then have "\<forall>x \<in> set (dedupe (bar_time b # seen) bs). bar_time b < bar_time x"
      using IH by force
    then show ?thesis using IH False by auto
  qed
qed simp

lemma seed_bars_ok: "sorted_wrt (<) (map bar_time (seed_bars bars))" "\<forall>b \<in> set (seed_bars bars). bar_complete b"
proof -
  have "sorted_wrt (<) (map bar_time (dedupe [] (sort_key bar_time bars)))"
    using dedupe_sorted [of "sort_key bar_time bars" "[]"] by simp
  then show "sorted_wrt (<) (map bar_time (seed_bars bars))"
    unfolding seed_bars_def sorted_wrt_map by (rule sorted_wrt_filter)
qed (simp add: seed_bars_def)

lemma append_bar_completed:
  "ag_completed (append_bar a b) = List.drop (length (ag_completed a @ [b]) - COMPLETED_BARS_MAXLEN) (ag_completed a @ [b])"
  by (simp add: append_bar_def Let_def)

lemma append_bar_ok:
  assumes "series_ok a" "ag_current a = Some c" "bar_time b = c" "bar_complete b" "c < start"
  shows "series_ok (start_bar (append_bar a b) start p)"
proof -
  let ?l = "ag_completed a @ [b]"
  have "sorted_wrt (<) (map bar_time ?l)" "\<forall>x \<in> set ?l. bar_complete x \<and> bar_time x < start"
    using assms by (auto simp: series_ok_def sorted_wrt_append)
  note l = this
  obtain k where k: "ag_completed (append_bar a b) = List.drop k ?l" "length (List.drop k ?l) \<le> COMPLETED_BARS_MAXLEN"
    using append_bar_completed [of a b] by (metis diff_diff_cancel diff_le_self length_drop nat_le_linear diff_is_0_eq')
  have "sorted_wrt (<) (map bar_time (List.drop k ?l))" "\<forall>x \<in> set (List.drop k ?l). bar_complete x \<and> bar_time x < start"
    using l sorted_wrt_drop [of "(<)" "map bar_time ?l" k] by (auto simp only: drop_map dest: in_set_dropD)
  then show ?thesis
    using assms(1) k unfolding series_ok_def start_bar_simps append_bar_simps by simp
qed

lemma mk_bar_Inr: "mk_bar b = Inr b' \<Longrightarrow> b' = b"
  by (simp add: mk_bar_def split: if_splits)

lemma process_tick_ok:
  assumes "series_ok a"
  shows "series_ok (snd (process_tick a t))"
proof -
  let ?a = "a\<lparr>ag_last_ts := Some (tick_time t)\<rparr>"
  have a: "series_ok ?a" using assms by (simp add: series_ok_def)
  show ?thesis
  proof (cases "bar_start (ag_minutes ?a) (tick_time t)")
    case (Inl e)
    then show ?thesis using a assms by (simp add: process_tick_def Let_def)
  next
    case (Inr start)
    show ?thesis
    proof (cases "ag_current ?a")
      case None
      then have "series_ok (start_bar ?a start (mid_price t))" using a by (auto simp: series_ok_def)
      then show ?thesis using assms Inr None by (simp add: process_tick_def Let_def)
    next
      case (Some c)
      have e: "series_ok (extend_bar ?a (mid_price t))" using a by (simp add: series_ok_def)
      have "series_ok (start_bar (append_bar ?a b) start (mid_price t))"
        if "mk_bar (forming ?a c True) = Inr b" "c < start" for b
        using append_bar_ok [OF a Some _ _ that(2)] mk_bar_Inr [OF that(1)] by (simp add: forming_def)
      then show ?thesis using assms a e Inr Some by (simp add: process_tick_def Let_def split: sum.split)
    qed
  qed
qed

lemma sorted_wrt_le_last:
  "sorted_wrt (<) (map f xs) \<Longrightarrow> x \<in> set xs \<Longrightarrow> f x \<le> (f (List.last xs) :: int)"
proof (induction xs)
  case (Cons a xs)
  show ?case
  proof (cases "xs = []")
    case False
    have le: "f a \<le> f (List.last xs)"
      using Cons.prems(1) last_in_set [OF False] by (intro less_imp_le) simp
    show ?thesis using Cons False le by (cases "x = a") simp_all
  qed (use Cons in simp)
qed simp

lemma reseed_ok:
  assumes "series_ok a"
  shows "series_ok (snd (reseed a bars now))"
proof (cases "bars = [] \<or> seed_bars bars = []")
  case True
  then show ?thesis using assms by (auto simp: reseed_def Let_def clear_series_def series_ok_def)
next
  case False
  let ?kept = "List.drop (length (seed_bars bars) - COMPLETED_BARS_MAXLEN) (seed_bars bars)"
  have k: "sorted_wrt (<) (map bar_time ?kept)" "\<forall>b \<in> set ?kept. bar_complete b" "length ?kept \<le> COMPLETED_BARS_MAXLEN"
    using seed_bars_ok [of bars] by (auto simp: drop_map [symmetric] intro: sorted_wrt_drop dest: in_set_dropD)
  have "bar_time b < bar_time (List.last ?kept) + ag_minutes a * us_per_minute" if "b \<in> set ?kept" for b
    using sorted_wrt_le_last [OF k(1) that] assms by (simp add: series_ok_def)
  then show ?thesis using k assms False by (simp add: reseed_def Let_def series_ok_def)
qed

definition m1_aggregator :: "aggregator" where
  "m1_aggregator = mk_aggregator ''XAUUSD'' 1"

lemma m1_aggregator_ok: "series_ok m1_aggregator"
  by (simp add: m1_aggregator_def mk_aggregator_def series_ok_def)

lemma agg_step_ok: "series_ok a \<Longrightarrow> series_ok (agg_step a op)"
  by (cases op) (simp_all add: process_tick_ok reseed_ok)

interpretation bar_series: step_invariant agg_step m1_aggregator series_ok
  by unfold_locales (auto intro: m1_aggregator_ok agg_step_ok)

section \<open>One bar as a fold over its ticks\<close>

text \<open>
  The reference definition of a candle: first, largest, smallest and last price of the ticks of
  the period, and their number.
\<close>

definition candle :: "string \<Rightarrow> string \<Rightarrow> int \<Rightarrow> rat list \<Rightarrow> bool \<Rightarrow> bar" where
  "candle symbol tf us ps sealed = \<lparr>bar_symbol = symbol, bar_timeframe = tf, bar_time = us,
     bar_open = Fin (hd ps), bar_high = Fin (Max (set ps)), bar_low = Fin (Min (set ps)),
     bar_close = Fin (List.last ps), bar_volume = int (length ps), bar_complete = sealed\<rparr>"

text \<open>Ticks of this symbol, in order, all in the period that starts at \<open>us\<close>, with prices \<open>ps\<close>.\<close>

definition tick_of_period :: "string \<Rightarrow> int \<Rightarrow> int \<Rightarrow> tick_data \<Rightarrow> rat \<Rightarrow> bool" where
  "tick_of_period symbol minutes us t p \<longleftrightarrow> t_symbol t = symbol
     \<and> bar_start minutes (tick_time t) = Inr us \<and> mid_price t = Fin p"

text \<open>
  A bar that \<^verbatim>\<open>reseed\<close> opened starts from the close of the last seeded bar, which is not a tick: \<open>pre\<close> holds that
  price, and is empty for a bar that a tick opened.
\<close>

definition bar_of :: "string \<Rightarrow> string \<Rightarrow> int \<Rightarrow> rat list \<Rightarrow> rat list \<Rightarrow> bool \<Rightarrow> bar" where
  "bar_of symbol tf us pre ps sealed = (candle symbol tf us (pre @ ps) sealed)\<lparr>bar_volume := int (length ps)\<rparr>"

definition ready_for :: "aggregator \<Rightarrow> int \<Rightarrow> rat list \<Rightarrow> bool" where
  "ready_for a us pre \<longleftrightarrow>
     (case ag_current a of
        None \<Rightarrow> pre = []
      | Some c \<Rightarrow> (c < us \<and> pre = [] \<and> (\<exists>b. mk_bar (forming a c True) = Inr b))
          \<or> (c = us \<and> (\<exists>q. pre = [q] \<and> ag_open a = Fin q \<and> ag_high a = Fin q \<and> ag_low a = Fin q \<and> ag_close a = Fin q
                \<and> ag_volume a = 0)))"

definition holds_candle :: "aggregator \<Rightarrow> int \<Rightarrow> rat list \<Rightarrow> rat list \<Rightarrow> bool" where
  "holds_candle a us pre ps \<longleftrightarrow> pre @ ps \<noteq> [] \<and> ag_current a = Some us
     \<and> forming a us True = bar_of (ag_symbol a) (ag_timeframe a) us pre ps True"

lemma start_bar_holds: "holds_candle (start_bar a us (Fin p)) us [] [p]"
  by (simp add: holds_candle_def start_bar_def forming_def candle_def bar_of_def)

lemma pmin_Fin: "pmin (Fin a) (Fin b) = Fin (min b a)"
  by (simp add: pmin_def min_def)

lemma pmax_Fin_max: "pmax (Fin a) (Fin b) = Fin (max b a)"
  by (simp add: pmax_def max_def)

lemma snoc_extremes:
  assumes "xs \<noteq> []"
  shows "Max (set (xs @ [p])) = max p (Max (set xs)) \<and> Min (set (xs @ [p])) = min p (Min (set xs)) \<and> hd (xs @ [p]) = hd xs"
  using assms by (simp add: Max_insert Min_insert)

lemma extend_bar_holds:
  assumes "holds_candle a us pre ps"
  shows "holds_candle (extend_bar a (Fin p)) us pre (ps @ [p])"
proof -
  have ne: "pre @ ps \<noteq> []" using assms by (simp add: holds_candle_def)
  show ?thesis
    using assms snoc_extremes [OF ne, of p] unfolding holds_candle_def bar_of_def append_assoc [symmetric]
    by (simp add: extend_bar_def forming_def candle_def pmin_Fin pmax_Fin_max del: set_append append_assoc)
qed

text \<open>Times that do not decrease, none before the last accepted one.\<close>

definition in_order :: "aggregator \<Rightarrow> tick_data list \<Rightarrow> bool" where
  "in_order a ts \<longleftrightarrow> sorted (map tick_time ts)
     \<and> (\<forall>t \<in> set ts. case ag_last_ts a of None \<Rightarrow> True | Some l \<Rightarrow> l \<le> tick_time t)"

definition run_ticks :: "aggregator \<Rightarrow> tick_data list \<Rightarrow> aggregator" where
  "run_ticks a ts = run (\<lambda>a t. snd (process_tick a t)) a ts"

lemma tick_in_period:
  assumes "holds_candle a us pre ps" "tick_of_period (ag_symbol a) (ag_minutes a) us t p"
    and "case ag_last_ts a of None \<Rightarrow> True | Some l \<Rightarrow> l \<le> tick_time t"
  shows "snd (process_tick a t) = extend_bar (a\<lparr>ag_last_ts := Some (tick_time t)\<rparr>) (Fin p)"
    and "fst (process_tick a t) = Inr None"
  using assms by (auto simp: process_tick_def tick_of_period_def holds_candle_def Let_def ret_def split: option.splits)

lemma run_in_period:
  assumes "holds_candle a us pre ps" "in_order a ts" "list_all2 (tick_of_period (ag_symbol a) (ag_minutes a) us) ts qs"
  shows "holds_candle (run_ticks a ts) us pre (ps @ qs) \<and> ag_completed (run_ticks a ts) = ag_completed a
    \<and> ag_symbol (run_ticks a ts) = ag_symbol a \<and> ag_timeframe (run_ticks a ts) = ag_timeframe a
    \<and> ag_minutes (run_ticks a ts) = ag_minutes a
    \<and> ag_last_ts (run_ticks a ts) = (if ts = [] then ag_last_ts a else Some (tick_time (List.last ts)))"
  using assms
proof (induction ts arbitrary: a ps qs)
  case Nil
  then show ?case by (simp add: run_ticks_def)
next
  case (Cons t ts)
  obtain q qs' where qs: "qs = q # qs'" "tick_of_period (ag_symbol a) (ag_minutes a) us t q"
    "list_all2 (tick_of_period (ag_symbol a) (ag_minutes a) us) ts qs'"
    using Cons.prems(3) by (auto simp: list_all2_Cons1)
  let ?b = "a\<lparr>ag_last_ts := Some (tick_time t)\<rparr>"
  have step: "snd (process_tick a t) = extend_bar ?b (Fin q)"
    using Cons.prems(1,2) qs(2) by (intro tick_in_period(1)) (auto simp: in_order_def)
  have h: "holds_candle (extend_bar ?b (Fin q)) us pre (ps @ [q])"
    using Cons.prems(1) by (intro extend_bar_holds) (simp add: holds_candle_def forming_def)
  have same: "ag_symbol (extend_bar ?b (Fin q)) = ag_symbol a" "ag_minutes (extend_bar ?b (Fin q)) = ag_minutes a"
    "ag_completed (extend_bar ?b (Fin q)) = ag_completed a" "ag_timeframe (extend_bar ?b (Fin q)) = ag_timeframe a"
    "ag_last_ts (extend_bar ?b (Fin q)) = Some (tick_time t)"
    by (simp_all add: extend_bar_def)
  have "in_order (extend_bar ?b (Fin q)) ts"
    using Cons.prems(2) by (auto simp: in_order_def extend_bar_def)
  then show ?case
    using Cons.IH [OF h, of qs'] qs same step by (simp add: run_ticks_def)
qed

lemma mk_bar_of: "tf \<in> set CANONICAL_TIMEFRAMES \<Longrightarrow> mk_bar (bar_of s tf us pre ps sealed) = Inr (bar_of s tf us pre ps sealed)"
  by (simp add: mk_bar_def bar_of_def candle_def ret_def)

lemma forming_sealed: "forming a us sealed = (forming a us True)\<lparr>bar_complete := sealed\<rparr>"
  by (simp add: forming_def)

text \<open>The first tick of a period: it opens the bar, or joins the bar that \<^verbatim>\<open>reseed\<close> opened.\<close>

lemma first_tick_of_period:
  assumes "ready_for a us pre" and "tick_of_period (ag_symbol a) (ag_minutes a) us t p"
    and "case ag_last_ts a of None \<Rightarrow> True | Some l \<Rightarrow> l \<le> tick_time t"
    and "r = snd (process_tick a t)"
  shows "holds_candle r us pre [p] \<and> ag_symbol r = ag_symbol a \<and> ag_minutes r = ag_minutes a
    \<and> ag_timeframe r = ag_timeframe a \<and> ag_last_ts r = Some (tick_time t)"
proof -
  let ?a = "a\<lparr>ag_last_ts := Some (tick_time t)\<rparr>"
  consider "ag_current a = None" "pre = []"
    | c b where "ag_current a = Some c" "c < us" "pre = []" "mk_bar (forming a c True) = Inr b"
    | q where "ag_current a = Some us" "pre = [q]" "ag_open a = Fin q" "ag_high a = Fin q" "ag_low a = Fin q"
        "ag_close a = Fin q" "ag_volume a = 0"
    using assms(1) by (auto simp: ready_for_def split: option.splits)
  then show ?thesis
  proof cases
    case 1
    then have "r = start_bar ?a us (Fin p)"
      using assms(2-4) by (auto simp: process_tick_def tick_of_period_def Let_def split: option.splits)
    then show ?thesis using 1 start_bar_holds [of ?a us p] by (simp add: start_bar_def)
  next
    case 2
    have f: "forming ?a c True = forming a c True" by (simp add: forming_def)
    have "r = start_bar (append_bar ?a b) us (Fin p)"
      using assms(2-4) 2 by (auto simp: process_tick_def tick_of_period_def f Let_def split: option.splits)
    then show ?thesis using 2 start_bar_holds [of "append_bar ?a b" us p] by (simp add: start_bar_def append_bar_def Let_def)
  next
    case 3
    have "r = extend_bar ?a (Fin p)"
      using assms(2-4) 3 by (auto simp: process_tick_def tick_of_period_def Let_def split: option.splits)
    then show ?thesis using 3
      by (simp add: holds_candle_def extend_bar_def forming_def bar_of_def candle_def pmin_Fin pmax_Fin_max min.commute max.commute)
  qed
qed

text \<open>After a reseed whose last bar closes at \<open>q\<close>, the bar of the next period opens from \<open>q\<close>.\<close>

lemma reseed_ready:
  assumes "seed_bars bars \<noteq> []" and "bar_close (List.last (seed_bars bars)) = Fin q"
  shows "ready_for (snd (reseed a bars now)) (bar_time (List.last (seed_bars bars)) + ag_minutes a * us_per_minute) [q]"
proof -
  have "bars \<noteq> []" using assms(1) by (auto simp: seed_bars_def)
  moreover have "List.last (List.drop (length (seed_bars bars) - COMPLETED_BARS_MAXLEN) (seed_bars bars)) = List.last (seed_bars bars)"
    using assms(1) by (intro last_drop) (cases "seed_bars bars", simp_all add: COMPLETED_BARS_MAXLEN_def)
  ultimately show ?thesis using assms by (simp add: reseed_def ready_for_def Let_def)
qed

section \<open>Properties\<close>

text \<open>C24: a bar is the candle of its ticks, and sealing puts it into the series. Take an aggregator whose next bar
  starts at \<open>us\<close>: it has none yet, or its current bar is older (and its label and prices are valid), or
  \<^verbatim>\<open>reseed\<close> opened the bar \<open>us\<close> at the close of the last seeded bar, as after every live start; \<open>pre\<close> is empty in
  the first two cases and holds that close in the third. Let ticks of the symbol, in order, fall into the
  period. Then the forming bar opens at the first price (of \<open>pre\<close>, if there is one), has the largest and
  smallest price of \<open>pre\<close> and the ticks as high and low, the last price as close and the number of ticks as
  volume, and the series does not change after the first of these ticks. The first tick of a later period returns
  exactly that bar, marked complete, and appends it to the series, dropping only the oldest bars beyond
  20000.\<close>

theorem candle_of_its_ticks:
  assumes "ready_for a us pre"
    and "in_order a (t # ts)" "list_all2 (tick_of_period (ag_symbol a) (ag_minutes a) us) (t # ts) (p # ps)"
    and "ag_timeframe a \<in> set CANONICAL_TIMEFRAMES"
    and "t_symbol t' = ag_symbol a" "tick_time (List.last (t # ts)) \<le> tick_time t'"
    and "bar_start (ag_minutes a) (tick_time t') = Inr us'" "us < us'"
    and "r = run_ticks a (t # ts)" and "sealed = bar_of (ag_symbol a) (ag_timeframe a) us pre (p # ps) True"
  shows "current_forming_bar r = Inr (Some (sealed\<lparr>bar_complete := False\<rparr>))
    \<and> fst (process_tick r t') = Inr (Some sealed)
    \<and> ag_completed r = ag_completed (snd (process_tick a t))
    \<and> ag_completed (snd (process_tick r t'))
        = List.drop (length (ag_completed r @ [sealed]) - COMPLETED_BARS_MAXLEN) (ag_completed r @ [sealed])"
proof -
  have first: "tick_of_period (ag_symbol a) (ag_minutes a) us t p"
    and rest: "list_all2 (tick_of_period (ag_symbol a) (ag_minutes a) us) ts ps"
    and lt: "case ag_last_ts a of None \<Rightarrow> True | Some l \<Rightarrow> l \<le> tick_time t"
    using assms(2,3) by (auto simp: in_order_def)
  let ?b = "snd (process_tick a t)"
  note b = first_tick_of_period [OF assms(1) first lt refl]
  have ord: "in_order ?b ts" using assms(2) b by (auto simp: in_order_def)
  have r: "r = run_ticks ?b ts" by (simp add: assms(9) run_ticks_def)
  have "list_all2 (tick_of_period (ag_symbol ?b) (ag_minutes ?b) us) ts ps" using rest b by simp
  note run = run_in_period [OF conjunct1 [OF b] ord this]
  have h: "holds_candle r us pre (p # ps)" "ag_symbol r = ag_symbol a" "ag_minutes r = ag_minutes a"
    "ag_timeframe r = ag_timeframe a" "ag_last_ts r = Some (tick_time (List.last (t # ts)))" "ag_completed r = ag_completed ?b"
    using run b by (auto simp: r)
  have cur: "ag_current r = Some us" using h(1) by (simp add: holds_candle_def)
  have f: "forming r us True = sealed" using h(1,2,4) by (simp add: holds_candle_def assms(10))
  have g: "forming r us False = sealed\<lparr>bar_complete := False\<rparr>" using f forming_sealed [of r us False] by simp
  have "mk_bar sealed = Inr sealed" by (simp add: assms(10) mk_bar_of [OF assms(4)])
  moreover have "mk_bar (sealed\<lparr>bar_complete := False\<rparr>) = Inr (sealed\<lparr>bar_complete := False\<rparr>)"
    using calculation by (simp add: mk_bar_def ret_def split: if_splits)
  moreover have "forming (r\<lparr>ag_last_ts := l\<rparr>) us True = sealed" for l using f by (simp add: forming_def)
  ultimately show ?thesis
    using assms(5-8) h(2,3,5,6) cur
    by (simp add: current_forming_bar_def process_tick_def Let_def g append_bar_completed ret_def)
qed

definition gold_tick_at :: "int \<Rightarrow> rat \<Rightarrow> tick_data" where
  "gold_tick_at us p = \<lparr>t_symbol = ''XAUUSD'', t_timestamp = utc us, t_bid = Fin p, t_ask = Fin p,
     t_last = 0, t_volume = 0, t_flags = 0\<rparr>"

text \<open>Whatever ticks and reseeds arrive, the completed series is strictly increasing in time,
  holds complete bars only, never more than the retention bound, and all of it lies before the
  forming bar; a reseed keeps this from any list of bars, in any order and with duplicates.\<close>

lemma series_stays_ordered:
  assumes "series_ok a"
  shows "series_ok (run agg_step a ops) \<and> series_ok (snd (reseed (run agg_step a ops) bars now))
    \<and> series_ok (run agg_step m1_aggregator ops)"
  using bar_series.inv_run_from [OF assms] bar_series.inv_run by (auto intro: reseed_ok)

lemma series_stays_ordered_witness: "series_ok (run agg_step m1_aggregator [TickOp (gold_tick_at 0 4), ReseedOp [] 0])"
  using series_stays_ordered [OF m1_aggregator_ok] by blast

text \<open>After a reseed whose last bar is less than one period old, a tick from that bar's own
  period is added to the bar of the next period: its price becomes the close of the forming bar
  and may set its high or low, though it was quoted before the bar's start.\<close>

lemma reseed_mixes_periods:
  assumes "seed_bars bars \<noteq> []" "length (seed_bars bars) \<le> COMPLETED_BARS_MAXLEN"
    and "0 < ag_minutes a" "now < bar_time (List.last (seed_bars bars)) + ag_minutes a * us_per_minute"
    and "t_symbol t = ag_symbol a" "bar_time (List.last (seed_bars bars)) \<le> tick_time t"
    and "bar_start (ag_minutes a) (tick_time t) = Inr (bar_time (List.last (seed_bars bars)))"
    and "a' = snd (process_tick (snd (reseed a bars now)) t)"
  shows "ag_current a' = Some (bar_time (List.last (seed_bars bars)) + ag_minutes a * us_per_minute)
    \<and> ag_close a' = mid_price t \<and> ag_volume a' = 1"
proof -
  have ne: "bars \<noteq> []" using assms(1) by (auto simp: seed_bars_def)
  show ?thesis
    using assms ne by (simp add: reseed_def process_tick_def extend_bar_def Let_def)
qed

definition bar_at :: "int \<Rightarrow> rat \<Rightarrow> bool \<Rightarrow> bar" where
  "bar_at us p sealed = candle ''XAUUSD'' ''M1'' us [p] sealed"

lemma bar_at_time: "bar_time (bar_at us p sealed) = us"
  by (simp add: bar_at_def candle_def)

lemma gold_tick_time: "tick_time (gold_tick_at us p) = us" "t_symbol (gold_tick_at us p) = ''XAUUSD''"
  by (simp_all add: tick_time_def gold_tick_at_def utc_def)

lemma m1_fields: "ag_minutes m1_aggregator = 1" "ag_symbol m1_aggregator = ''XAUUSD''"
  by (simp_all add: m1_aggregator_def mk_aggregator_def)

lemma reseed_mixes_periods_witness:
  "ag_current (snd (process_tick (snd (reseed m1_aggregator [bar_at 60000000 4 True] 90000000)) (gold_tick_at 95000000 6)))
     = Some 120000000"
proof -
  have s: "seed_bars [bar_at 60000000 4 True] = [bar_at 60000000 4 True]"
    by (simp add: seed_bars_def bar_at_def candle_def)
  have b: "bar_start 1 (tick_time (gold_tick_at 95000000 6)) = Inr 60000000"
    by (simp add: bar_start_def tick_time_def gold_tick_at_def utc_def ret_def)
  show ?thesis
    using reseed_mixes_periods [of "[bar_at 60000000 4 True]" m1_aggregator 90000000 "gold_tick_at 95000000 6",
        OF _ _ _ _ _ _ _ refl, unfolded s] b
    by (simp add: bar_at_time COMPLETED_BARS_MAXLEN_def m1_fields gold_tick_time)
qed

lemma candle_of_its_ticks_witness:
  "\<exists>r. r = run_ticks (snd (reseed m1_aggregator [bar_at 0 5 True] 70000000)) [gold_tick_at 61000000 4, gold_tick_at 62000000 6]
     \<and> fst (process_tick r (gold_tick_at 125000000 7)) = Inr (Some (bar_of ''XAUUSD'' ''M1'' 60000000 [5] [4, 6] True))
     \<and> ag_completed (snd (process_tick r (gold_tick_at 125000000 7)))
         = [bar_at 0 5 True, bar_of ''XAUUSD'' ''M1'' 60000000 [5] [4, 6] True]"
proof -
  let ?a = "snd (reseed m1_aggregator [bar_at 0 5 True] 70000000)"
  have sd: "seed_bars [bar_at 0 5 True] = [bar_at 0 5 True]" by (simp add: seed_bars_def bar_at_def candle_def)
  have "bar_close (bar_at 0 5 True) = Fin 5" by (simp add: bar_at_def candle_def)
  then have "bar_close (List.last (seed_bars [bar_at 0 5 True])) = Fin 5" by (simp add: sd)
  from reseed_ready [OF _ this, of m1_aggregator 70000000] have op: "ready_for ?a 60000000 [5]"
    by (simp add: sd bar_at_time m1_fields)
  have fl2: "fl 8 = Fin 8" "fl 12 = Fin 12" "fl 4 = Fin 4" "fl 6 = Fin 6" by simp_all
  have per: "tick_of_period ''XAUUSD'' 1 60000000 (gold_tick_at us p) p"
    if "60000000 \<le> us" "us < 120000000" "p = 4 \<or> p = 6" for us p
  proof -
    have "us div 60000000 = 1" "us div 3600000000 = 0" "us mod 3600000000 = us" using that by (simp_all add: div_pos_pos_trivial)
    then show ?thesis using that(3)
      by (auto simp: tick_of_period_def gold_tick_at_def tick_time_def utc_def bar_start_def mid_price_def ret_def)
  qed
  have fields: "ag_timeframe ?a = ''M1''" "ag_symbol ?a = ''XAUUSD''" "ag_minutes ?a = 1" "ag_last_ts ?a = Some 60000000"
    "ag_completed ?a = [bar_at 0 5 True]"
    by (simp_all add: reseed_def sd COMPLETED_BARS_MAXLEN_def Let_def bar_at_time m1_aggregator_def mk_aggregator_def
        show_int_def show_dec.simps digit_char_def)
  have st: "bar_start 1 (tick_time (gold_tick_at 125000000 7)) = Inr 120000000"
    by (simp add: tick_time_def gold_tick_at_def utc_def bar_start_def ret_def)
  have ord: "in_order ?a [gold_tick_at 61000000 4, gold_tick_at 62000000 6]"
    by (simp add: in_order_def fields gold_tick_time)
  have pers: "list_all2 (tick_of_period (ag_symbol ?a) (ag_minutes ?a) 60000000) [gold_tick_at 61000000 4, gold_tick_at 62000000 6] [4, 6]"
    by (simp add: per fields)
  have cur: "ag_completed (snd (process_tick ?a (gold_tick_at 61000000 4))) = [bar_at 0 5 True]"
    by (simp add: reseed_def sd COMPLETED_BARS_MAXLEN_def Let_def bar_at_time m1_fields process_tick_def gold_tick_time
        bar_start_def ret_def)
  define sealed where "sealed = bar_of ''XAUUSD'' ''M1'' 60000000 [5] [4, 6] True"
  define r where "r = run_ticks ?a [gold_tick_at 61000000 4, gold_tick_at 62000000 6]"
  have tf: "ag_timeframe ?a \<in> set CANONICAL_TIMEFRAMES" by (simp add: fields CANONICAL_TIMEFRAMES_def)
  have sym: "t_symbol (gold_tick_at 125000000 7) = ag_symbol ?a" by (simp add: fields gold_tick_time)
  have le: "tick_time (List.last [gold_tick_at 61000000 4, gold_tick_at 62000000 6]) \<le> tick_time (gold_tick_at 125000000 7)"
    by (simp add: gold_tick_time)
  have st': "bar_start (ag_minutes ?a) (tick_time (gold_tick_at 125000000 7)) = Inr 120000000" using st by (simp add: fields)
  have lt: "(60000000 :: int) < 120000000" by simp
  have sl: "sealed = bar_of (ag_symbol ?a) (ag_timeframe ?a) 60000000 [5] [4, 6] True" by (simp add: sealed_def fields)
  have "fst (process_tick r (gold_tick_at 125000000 7)) = Inr (Some sealed)"
    and "ag_completed r = [bar_at 0 5 True]"
    and "ag_completed (snd (process_tick r (gold_tick_at 125000000 7)))
       = List.drop (length (ag_completed r @ [sealed]) - COMPLETED_BARS_MAXLEN) (ag_completed r @ [sealed])"
    using candle_of_its_ticks [OF op ord pers tf sym le st' lt r_def sl] unfolding cur by blast+
  then show ?thesis unfolding sealed_def [symmetric] r_def [symmetric] by (simp add: COMPLETED_BARS_MAXLEN_def)
qed

lemma reseed_hides_completed_bar:
  "fst (reseed a [bar_at 0 4 True, bar_at 60000000 5 False, bar_at 60000000 6 True] 0) = Some (bar_at 0 4 True)"
proof -
  have "seed_bars [bar_at 0 4 True, bar_at 60000000 5 False, bar_at 60000000 6 True] = [bar_at 0 4 True]"
    by (simp add: seed_bars_def bar_at_def candle_def)
  then show ?thesis by (simp add: reseed_def COMPLETED_BARS_MAXLEN_def Let_def)
qed

end
