(* ===== verification/PyText.thy ===== *)
theory PyText
  imports PyNum "HOL-Library.AList"
begin

text \<open>
  Text and untyped data as the configuration and artifact readers see them: \<^verbatim>\<open>float(s)\<close> on
  text, the values \<^verbatim>\<open>json.loads\<close> produces, and dictionaries as association lists in insertion
  order (an assignment to a present key keeps its position, a new key goes last: this is
  \<open>AList.update\<close>).
\<close>

section \<open>Reading a float from text\<close>

text \<open>
  A run of digits with single underscores between them: the value read so far, the number of
  digits read, and the rest of the text. An underscore must be followed by a digit.
\<close>

fun digit_run :: "int \<Rightarrow> nat \<Rightarrow> string \<Rightarrow> int \<times> nat \<times> string" where
  "digit_run acc n [] = (acc, n, [])"
| "digit_run acc n (c # cs) =
     (case digit_val c of
        Some d \<Rightarrow> digit_run (10 * acc + d) (Suc n) cs
      | None \<Rightarrow>
          (if c = CHR ''_'' \<and> 0 < n then
             (case cs of
                [] \<Rightarrow> (acc, n, c # cs)
              | c' # cs' \<Rightarrow> (case digit_val c' of
                    Some d \<Rightarrow> digit_run (10 * acc + d) (Suc n) cs'
                  | None \<Rightarrow> (acc, n, c # cs)))
           else (acc, n, c # cs)))"

definition ascii_lower :: "string \<Rightarrow> string" where
  "ascii_lower = map (\<lambda>c. let k = (of_char c :: int) in
     if 65 \<le> k \<and> k \<le> 90 then char_of (k + 32) else c)"

text \<open>\<open>10 ^ k\<close> for an integer exponent.\<close>

definition pow10 :: "int \<Rightarrow> rat" where
  "pow10 k = (if 0 \<le> k then 10 ^ nat k else 1 / 10 ^ nat (- k))"

text \<open>The optional exponent part; it must use up the text.\<close>

definition exponent_part :: "string \<Rightarrow> int option" where
  "exponent_part s = (case s of
       [] \<Rightarrow> Some 0
     | c # cs \<Rightarrow>
         if c = CHR ''e'' then
           (let (sg, ds) = (case cs of
                    d # ds \<Rightarrow> if d = CHR ''-'' then (- 1, ds) else if d = CHR ''+'' then (1, ds) else (1, cs)
                  | [] \<Rightarrow> (1, cs));
                (v, n, rest) = digit_run 0 0 ds
            in if 0 < n \<and> rest = [] then Some (sg * v) else None)
         else None)"

text \<open>An unsigned number in lower case: the correctly rounded value of the decimal literal.\<close>

definition unsigned_float :: "string \<Rightarrow> f64 option" where
  "unsigned_float s =
     (if s = ''inf'' \<or> s = ''infinity'' then Some PInf
      else if s = ''nan'' then Some NaN
      else
        (let (w, n, rest) = digit_run 0 0 s;
             (v, m, rest') = (case rest of
                 c # cs \<Rightarrow> if c = CHR ''.'' then
                             (case cs of
                                d # ds \<Rightarrow> if digit_val d = None then (w, 0, cs) else digit_run w 0 cs
                              | [] \<Rightarrow> (w, 0, []))
                           else (w, 0, rest)
               | [] \<Rightarrow> (w, 0, []))
         in if n + m = 0 then None
            else map_option (\<lambda>k. fl (of_int v * pow10 (k - int m))) (exponent_part rest')))"

definition py_float :: "string \<Rightarrow> f64 option" where
  "py_float s = (case ascii_lower (strip s) of
       [] \<Rightarrow> None
     | c # cs \<Rightarrow> if c = CHR ''-'' then map_option uminus (unsigned_float cs)
                else if c = CHR ''+'' then unsigned_float cs
                else unsigned_float (c # cs))"

lemma py_float_samples:
  "py_float '' 1.25 '' = Some (Fin (5 / 4))" "py_float ''-3e2'' = Some (Fin (- 300))"
  "py_float ''.5'' = Some (Fin (1 / 2))" "py_float ''1_0.'' = Some (Fin 10)"
  "py_float ''1__0'' = None" "py_float ''.'' = None" "py_float ''1e'' = None"
  "py_float ''-Infinity'' = Some NInf" "py_float ''NaN'' = Some NaN" "py_float '''' = None"
  by code_simp+

section \<open>JSON values\<close>

datatype json =
    JNull | JBool bool | JInt int | JFloat f64 | JStr string
  | JArr "json list" | JObj "(string \<times> json) list"

text \<open>\<^verbatim>\<open>float(v)\<close>\<close>

fun float_of_json :: "json \<Rightarrow> f64 res" where
  "float_of_json (JBool b) = ret (if b then 1 else 0)"
| "float_of_json (JInt n) = (if isinf64 (float_of_int n) then raise OverflowError else ret (float_of_int n))"
| "float_of_json (JFloat x) = ret x"
| "float_of_json (JStr s) = (case py_float s of Some x \<Rightarrow> ret x | None \<Rightarrow> raise ValueError)"
| "float_of_json _ = raise TypeError"

text \<open>\<^verbatim>\<open>d.get(k)\<close> on a dictionary\<close>

definition jget :: "string \<Rightarrow> (string \<times> json) list \<Rightarrow> json" where
  "jget k d = (case map_of d k of Some v \<Rightarrow> v | None \<Rightarrow> JNull)"

lemma map_of_update [simp]: "map_of (AList.update k v d) = (map_of d)(k \<mapsto> v)"
  by (rule update_conv')

lemma set_update_subset: "set (AList.update k v d) \<subseteq> insert (k, v) (set d)"
  by (induction d) auto

end
