(* ===== verification/ExitPolicy.thy ===== *)
theory ExitPolicy
  imports Domain PyText
begin

text \<open>
  The exit protection policy (\<^verbatim>\<open>execution/lifecycle/exit_policy.py\<close>): the learned trigger table,
  the R floor of a ticket, the two stop prices of the ladder, the decision \<open>plan\<close>, and the
  reader of the learned artifact. Reason texts are constructors; the evidence dictionaries are
  association lists with the keys of the source. Reading the artifact files is a parameter:
  per file name it is absent, unreadable, or a JSON value.
\<close>

section \<open>Configuration and decisions\<close>

record exit_config =
  be_min_r :: f64
  be_min_atr_multiplier :: f64
  be_max_r :: f64
  trend_regime_floor_r :: f64
  range_regime_floor_r :: f64
  default_regime_floor_r :: f64
  partial_de_risk_r :: f64
  partial_de_risk_stop_r :: f64
  lock_buffer_pips :: f64
  lock_extra_r :: f64
  round_trip_cost_usd_per_lot :: f64
  partial_atr_fraction :: f64
  min_hold_seconds :: f64
  spike_hold_allowance_r :: f64

definition default_exit_config :: exit_config where
  "default_exit_config =
     \<lparr>be_min_r = Fin 1, be_min_atr_multiplier = fl (8 / 10), be_max_r = Fin 3,
      trend_regime_floor_r = fl (12 / 10), range_regime_floor_r = fl (7 / 10),
      default_regime_floor_r = fl (9 / 10), partial_de_risk_r = fl (6 / 10),
      partial_de_risk_stop_r = fl (45 / 100), lock_buffer_pips = fl (6 / 10),
      lock_extra_r = fl (1 / 10), round_trip_cost_usd_per_lot = fl (11 / 10),
      partial_atr_fraction = Fin (3 / 4), min_hold_seconds = Fin 12,
      spike_hold_allowance_r = fl (15 / 100)\<rparr>"

datatype exit_action = HOLD | PARTIAL_DE_RISK | BREAKEVEN_LOCK

datatype exit_reason =
    NO_PROVENANCE | WITHIN_DWELL | BELOW_DE_RISK | PROFIT_COLLAPSED | PARTIAL_APPLIED
  | STOP_LIFTED | NO_VALID_LOCK | ALREADY_AT_LOCK | RISK_FREE_LOCK string

type_synonym evidence = "(string \<times> f64) list"

record exit_plan =
  xp_action :: exit_action
  xp_trigger_r :: f64
  xp_new_sl :: "f64 option"
  xp_reason :: exit_reason
  xp_evidence :: evidence

definition should_modify :: "exit_plan \<Rightarrow> bool" where
  "should_modify p \<longleftrightarrow> xp_action p = PARTIAL_DE_RISK \<or> xp_action p = BREAKEVEN_LOCK"

definition hold_plan :: "f64 \<Rightarrow> exit_reason \<Rightarrow> evidence \<Rightarrow> exit_plan" where
  "hold_plan flr r ev =
     \<lparr>xp_action = HOLD, xp_trigger_r = flr, xp_new_sl = None, xp_reason = r, xp_evidence = ev\<rparr>"

section \<open>Regimes and the learned table\<close>

definition regime_aliases :: "(string \<times> string) list" where
  "regime_aliases =
     [(''TREND'', ''trend''), (''TRENDING'', ''trend''), (''TREND_UP'', ''trend''),
      (''TREND_DOWN'', ''trend''), (''EXPANSION'', ''trend''), (''VOLATILITY_EXPANSION'', ''trend''),
      (''RANGE'', ''range''), (''RANGING'', ''range''), (''MEAN_REVERSION'', ''range''),
      (''COMPRESSION'', ''range''), (''CHOP'', ''range'')]"

definition normalize_regime :: "string option \<Rightarrow> string" where
  "normalize_regime r =
     (let key = upper (strip (case r of Some s \<Rightarrow> s | None \<Rightarrow> ''''))
      in case map_of regime_aliases key of Some b \<Rightarrow> b | None \<Rightarrow> ''default'')"

record exit_policy =
  xp_cfg :: exit_config
  xp_learned :: "string \<rightharpoonup> f64"

definition trigger_in_range :: "f64 \<Rightarrow> bool" where
  "trigger_in_range t \<longleftrightarrow> fl (4 / 10) \<le> t \<and> t \<le> Fin 5"

definition learn_entry :: "string \<times> f64 \<Rightarrow> (string \<rightharpoonup> f64) \<Rightarrow> (string \<rightharpoonup> f64)" where
  "learn_entry e m = (if trigger_in_range (snd e) then m(normalize_regime (Some (fst e)) \<mapsto> snd e) else m)"

definition apply_learned_profile :: "(string \<times> f64) list option \<Rightarrow> exit_policy \<Rightarrow> exit_policy" where
  "apply_learned_profile learned P =
     (case learned of None \<Rightarrow> P | Some es \<Rightarrow> P\<lparr>xp_learned := fold learn_entry es (xp_learned P)\<rparr>)"

definition mk_exit_policy :: "exit_config option \<Rightarrow> (string \<times> f64) list option \<Rightarrow> exit_policy" where
  "mk_exit_policy cfg learned =
     apply_learned_profile learned
       \<lparr>xp_cfg = (case cfg of Some c \<Rightarrow> c | None \<Rightarrow> default_exit_config), xp_learned = Map.empty\<rparr>"

definition learned_trigger_r :: "exit_policy \<Rightarrow> string option \<Rightarrow> f64 option" where
  "learned_trigger_r P regime = xp_learned P (normalize_regime regime)"

text \<open>The three parts of \<open>trigger_floor_r\<close>.\<close>

definition regime_floor_of :: "exit_config \<Rightarrow> string \<Rightarrow> f64" where
  "regime_floor_of c bucket =
     (if bucket = ''trend'' then trend_regime_floor_r c
      else if bucket = ''range'' then range_regime_floor_r c else default_regime_floor_r c)"

definition atr_floor_of :: "exit_config \<Rightarrow> f64 \<Rightarrow> f64 \<Rightarrow> f64 res" where
  "atr_floor_of c r_unit atr_price =
     (if 0 < atr_price \<and> 0 < r_unit then py_div (be_min_atr_multiplier c * atr_price) r_unit else ret 0)"

definition floor_of :: "exit_config \<Rightarrow> f64 option \<Rightarrow> f64 \<Rightarrow> f64 \<Rightarrow> f64" where
  "floor_of c learned regime_floor atr_floor =
     (let base = pmax (pmax (be_min_r c) regime_floor) atr_floor;
          base' = (case learned of Some l \<Rightarrow> pmax base l | None \<Rightarrow> base)
      in pmin (be_max_r c) base')"

definition trigger_floor_r :: "exit_policy \<Rightarrow> string option \<Rightarrow> f64 \<Rightarrow> f64 \<Rightarrow> (f64 \<times> evidence) res" where
  "trigger_floor_r P regime r_unit atr_price =
     (let bucket = normalize_regime regime; c = xp_cfg P; rf = regime_floor_of c bucket;
          learned = xp_learned P bucket
      in bindR (atr_floor_of c r_unit atr_price) (\<lambda>af. ret
           (floor_of c learned rf af,
            [(''regime_floor_r'', rf), (''atr_floor_r'', round_nd 4 af),
             (''r_unit_price'', round_nd 6 r_unit),
             (''learned_r'', case learned of Some l \<Rightarrow> round_nd 4 l | None \<Rightarrow> 0)])))"

section \<open>Prices\<close>

definition tiny_qty :: f64 where
  "tiny_qty = fl (1 / 10 ^ 9)"

definition notional_of :: "position \<Rightarrow> f64 \<Rightarrow> f64" where
  "notional_of p contract_size = pos_volume p * pmax contract_size tiny_qty"

definition r_unit_price :: "position \<Rightarrow> f64 \<Rightarrow> f64 \<Rightarrow> f64 res" where
  "r_unit_price p risk_usd contract_size =
     (let n = notional_of p contract_size
      in if risk_usd \<le> 0 \<or> n \<le> 0 then ret 0
         else bindR (py_div risk_usd n) (\<lambda>q. ret (fabs64 q)))"

definition is_buy :: "position \<Rightarrow> bool" where
  "is_buy p \<longleftrightarrow> pos_type p = BUY"

definition sl_is_beyond :: "position \<Rightarrow> f64 \<Rightarrow> bool" where
  "sl_is_beyond p candidate =
     (if pos_sl p \<le> 0 then True
      else if is_buy p then pos_sl p < candidate else candidate < pos_sl p)"

definition de_risk_stop_price :: "exit_config \<Rightarrow> position \<Rightarrow> f64 \<Rightarrow> f64" where
  "de_risk_stop_price c p r_unit =
     (let off = partial_de_risk_stop_r c * r_unit
      in if is_buy p then pos_price_open p - off else pos_price_open p + off)"

definition cost_price_of :: "exit_config \<Rightarrow> position \<Rightarrow> f64 \<Rightarrow> f64 \<Rightarrow> f64 \<Rightarrow> f64 res" where
  "cost_price_of c p notional spread_price commission_usd =
     (let spread_usd = pmax spread_price 0 * notional;
          cost_usd = (if 0 < commission_usd then commission_usd
                      else round_trip_cost_usd_per_lot c * pmax (pos_volume p) tiny_qty) + spread_usd
      in py_div cost_usd notional)"

text \<open>\<^verbatim>\<open>int(getattr(symbol_info, "digits", 2) or 2)\<close>: zero digits read as two.\<close>

definition lock_digits :: "symbol_info option \<Rightarrow> int" where
  "lock_digits si = (case si of None \<Rightarrow> 2 | Some s \<Rightarrow> if si_digits s = 0 then 2 else si_digits s)"

definition lock_pip :: "symbol_info option \<Rightarrow> f64" where
  "lock_pip si = (case si of
       None \<Rightarrow> fl (1 / 10)
     | Some s \<Rightarrow> if 0 < si_point s
                 then si_point s * (if lock_digits si = 3 \<or> lock_digits si = 5 then Fin 10 else 1)
                 else fl (1 / 10))"

definition lock_price ::
    "exit_config \<Rightarrow> position \<Rightarrow> f64 \<Rightarrow> f64 \<Rightarrow> f64 \<Rightarrow> symbol_info option \<Rightarrow> f64 \<Rightarrow> f64 option res" where
  "lock_price c p contract_size spread_price commission_usd si r_unit =
     (let notional = notional_of p contract_size
      in if notional \<le> 0 then ret None
         else bindR (cost_price_of c p notional spread_price commission_usd) (\<lambda>cost_price.
           let buffer_price = lock_buffer_pips c * lock_pip si + lock_extra_r c * r_unit;
               distance = cost_price + buffer_price
           in if distance \<le> 0 then ret None
              else ret (Some (round_nd (nat (lock_digits si))
                (if is_buy p then pos_price_open p + distance else pos_price_open p - distance)))))"

section \<open>The decision\<close>

record exit_input =
  in_risk_usd :: f64
  in_atr_price :: f64
  in_contract_size :: f64
  in_spread_price :: f64
  in_commission_usd :: f64
  in_hold_seconds :: f64
  in_mfe_usd :: "f64 option"
  in_peak_win_usd :: "f64 option"
  in_regime :: "string option"
  in_symbol_info :: "symbol_info option"

text \<open>A position whose planned risk was lost in a restart takes it from its own stop.\<close>

definition effective_risk_of :: "position \<Rightarrow> exit_input \<Rightarrow> f64" where
  "effective_risk_of p i =
     (if in_risk_usd i \<le> 0 \<and> 0 < pos_sl p
      then fabs64 (pos_price_open p - pos_sl p) * notional_of p (in_contract_size i)
      else in_risk_usd i)"

text \<open>\<^verbatim>\<open>x or 0.0\<close>\<close>

definition or_zero :: "f64 option \<Rightarrow> f64" where
  "or_zero v = (case v of None \<Rightarrow> 0 | Some x \<Rightarrow> if feq x 0 then 0 else x)"

definition peak_usd_of :: "exit_input \<Rightarrow> f64" where
  "peak_usd_of i = (case in_mfe_usd i of Some x \<Rightarrow> x | None \<Rightarrow> or_zero (in_peak_win_usd i))"

definition partial_usd_of :: "exit_config \<Rightarrow> evidence \<Rightarrow> f64 \<Rightarrow> f64" where
  "partial_usd_of c ev risk =
     pmax (partial_de_risk_r c) (partial_atr_fraction c * or_zero (map_of ev ''atr_floor_r'')) * risk"

text \<open>Step one of the ladder, below the full trigger.\<close>

definition partial_step :: "exit_config \<Rightarrow> position \<Rightarrow> f64 \<Rightarrow> f64 \<Rightarrow> f64 \<Rightarrow> evidence \<Rightarrow> exit_plan" where
  "partial_step c p r_unit peak flr ev =
     (let candidate = de_risk_stop_price c p r_unit
      in if \<not> sl_is_beyond p candidate then hold_plan flr PARTIAL_APPLIED ev
         else \<lparr>xp_action = PARTIAL_DE_RISK, xp_trigger_r = flr, xp_new_sl = Some candidate,
               xp_reason = STOP_LIFTED, xp_evidence = ev @ [(''mfe_usd'', peak)]\<rparr>)"

text \<open>Step two: the cost-aware lock.\<close>

definition lock_step :: "position \<Rightarrow> f64 \<Rightarrow> f64 \<Rightarrow> evidence \<Rightarrow> f64 option \<Rightarrow> exit_plan" where
  "lock_step p peak flr ev lock =
     (case lock of
        None \<Rightarrow> hold_plan flr NO_VALID_LOCK ev
      | Some l \<Rightarrow>
          if \<not> sl_is_beyond p l then hold_plan flr ALREADY_AT_LOCK ev
          else \<lparr>xp_action = BREAKEVEN_LOCK, xp_trigger_r = flr, xp_new_sl = Some l,
                xp_reason = RISK_FREE_LOCK (''cost-aware risk-free lock ('' @ fmt_fixed 2 flr @ ''R)''),
                xp_evidence = ev @ [(''mfe_usd'', peak), (''pnl_usd'', pos_profit p)]\<rparr>)"

text \<open>The decision once the R floor is known: dwell, MFE, persistence, then the two steps.\<close>

definition plan_at ::
    "exit_config \<Rightarrow> position \<Rightarrow> exit_input \<Rightarrow> f64 \<Rightarrow> f64 \<Rightarrow> f64 \<Rightarrow> evidence \<Rightarrow> exit_plan res" where
  "plan_at c p i risk r_unit flr ev =
     (let peak = peak_usd_of i; trigger_usd = flr * risk; current_usd = pos_profit p;
          partial_usd = partial_usd_of c ev risk;
          reference_usd = pmin peak trigger_usd
      in if in_hold_seconds i < min_hold_seconds c then
           ret (hold_plan flr WITHIN_DWELL (ev @ [(''hold_s'', in_hold_seconds i)]))
         else if peak < partial_usd then
           ret (hold_plan flr BELOW_DE_RISK
             (ev @ [(''mfe_usd'', peak), (''partial_usd'', round_nd 2 partial_usd),
                    (''trigger_usd'', round_nd 2 trigger_usd)]))
         else if current_usd < reference_usd - spike_hold_allowance_r c * risk then
           ret (hold_plan flr PROFIT_COLLAPSED
             (ev @ [(''pnl_usd'', current_usd), (''reference_usd'', round_nd 2 reference_usd)]))
         else if peak < trigger_usd then ret (partial_step c p r_unit peak flr ev)
         else bindR (lock_price c p (in_contract_size i) (in_spread_price i) (in_commission_usd i)
                       (in_symbol_info i) r_unit)
                (\<lambda>lock. ret (lock_step p peak flr ev lock)))"

definition exit_plan_of :: "exit_policy \<Rightarrow> position \<Rightarrow> exit_input \<Rightarrow> exit_plan res" where
  "exit_plan_of P p i =
     (let risk = effective_risk_of p i
      in bindR (r_unit_price p risk (in_contract_size i)) (\<lambda>r_unit.
         if r_unit \<le> 0 then ret (hold_plan 0 NO_PROVENANCE [(''risk_usd'', in_risk_usd i)])
         else bindR (trigger_floor_r P (in_regime i) r_unit (in_atr_price i)) (\<lambda>(flr, ev).
              plan_at (xp_cfg P) p i risk r_unit flr ev)))"

section \<open>The learned artifact\<close>

definition LEARNED_POLICY_FILES :: "string list" where
  "LEARNED_POLICY_FILES = [''exit_policy.json'', ''exit_policy_v2.json'']"

definition raw_trigger :: "json \<Rightarrow> json" where
  "raw_trigger raw = (case raw of JObj d \<Rightarrow> jget ''trigger_r'' d | _ \<Rightarrow> raw)"

definition validate_entry :: "string \<times> json \<Rightarrow> (string \<times> f64) list \<Rightarrow> (string \<times> f64) list res" where
  "validate_entry e out =
     (case raw_trigger (snd e) of
        JNull \<Rightarrow> ret out
      | JBool b \<Rightarrow> ret out
      | v \<Rightarrow> (case float_of_json v of
                 Inl OverflowError \<Rightarrow> raise OverflowError
               | Inl _ \<Rightarrow> ret out
               | Inr t \<Rightarrow> ret (if trigger_in_range t then AList.update (fst e) t out else out)))"

fun validate_entries :: "(string \<times> json) list \<Rightarrow> (string \<times> f64) list \<Rightarrow> (string \<times> f64) list res" where
  "validate_entries [] out = ret out"
| "validate_entries (e # es) out = bindR (validate_entry e out) (validate_entries es)"

definition validate_learned :: "json \<Rightarrow> (string \<times> f64) list res" where
  "validate_learned payload =
     (case payload of
        JObj d \<Rightarrow>
          (case (case map_of d ''regimes'' of Some r \<Rightarrow> r | None \<Rightarrow> payload) of
             JObj rs \<Rightarrow> validate_entries rs []
           | _ \<Rightarrow> ret [])
      | _ \<Rightarrow> ret [])"

datatype artifact = Missing | Unreadable | Parsed json

fun load_from :: "string list \<Rightarrow> (string \<Rightarrow> artifact) \<Rightarrow> (string \<times> f64) list" where
  "load_from [] read = []"
| "load_from (f # fs) read =
     (case read f of
        Parsed payload \<Rightarrow>
          (case validate_learned payload of
             Inr learned \<Rightarrow> if learned \<noteq> [] then learned else load_from fs read
           | Inl e \<Rightarrow> load_from fs read)
      | _ \<Rightarrow> load_from fs read)"

definition load_learned_profile :: "(string \<Rightarrow> artifact) \<Rightarrow> (string \<times> f64) list" where
  "load_learned_profile = load_from LEARNED_POLICY_FILES"

definition build_policy :: "(string \<Rightarrow> artifact) \<Rightarrow> exit_policy" where
  "build_policy read = mk_exit_policy None (Some (load_learned_profile read))"

section \<open>No input makes the decision fail\<close>

lemma r_unit_price_total: "\<exists>r. r_unit_price p risk cs = ret r"
  by (auto simp: r_unit_price_def Let_def py_div_total)

lemma atr_floor_total: "\<exists>af. atr_floor_of c r_unit atr = ret af"
  by (auto simp: atr_floor_of_def py_div_pos)

lemma trigger_floor_total: "\<exists>x. trigger_floor_r P regime r_unit atr = ret x"
  using atr_floor_total [of "xp_cfg P" r_unit atr] by (auto simp: trigger_floor_r_def Let_def)

lemma lock_price_total: "\<exists>l. lock_price c p cs spread comm si r_unit = ret l"
  by (auto simp: lock_price_def cost_price_of_def Let_def py_div_total)

lemma plan_at_total: "\<exists>q. plan_at c p i risk r_unit flr ev = ret q"
proof -
  obtain l where "lock_price c p (in_contract_size i) (in_spread_price i) (in_commission_usd i)
      (in_symbol_info i) r_unit = ret l"
    using lock_price_total by blast
  then show ?thesis by (auto simp: plan_at_def Let_def)
qed

text \<open>The shape of an answer that moves the stop.\<close>

definition ladder_price :: "exit_config \<Rightarrow> position \<Rightarrow> exit_input \<Rightarrow> f64 \<Rightarrow> f64 \<Rightarrow> f64 \<Rightarrow> f64 \<Rightarrow> bool" where
  "ladder_price c p i risk r_unit flr s \<longleftrightarrow>
     (if peak_usd_of i < flr * risk then s = de_risk_stop_price c p r_unit
      else lock_price c p (in_contract_size i) (in_spread_price i) (in_commission_usd i)
             (in_symbol_info i) r_unit = ret (Some s))"

lemma plan_at_modifies:
  assumes "plan_at c p i risk r_unit flr ev = ret q"
  shows "should_modify q \<longleftrightarrow> xp_new_sl q \<noteq> None"
    and "xp_new_sl q = Some s \<Longrightarrow>
      \<not> in_hold_seconds i < min_hold_seconds c \<and> \<not> peak_usd_of i < partial_usd_of c ev risk \<and>
      \<not> pos_profit p < pmin (peak_usd_of i) (flr * risk) - spike_hold_allowance_r c * risk \<and>
      sl_is_beyond p s \<and> ladder_price c p i risk r_unit flr s"
proof -
  obtain l where l: "lock_price c p (in_contract_size i) (in_spread_price i) (in_commission_usd i)
      (in_symbol_info i) r_unit = ret l"
    using lock_price_total by blast
  note defs = plan_at_def Let_def l hold_plan_def should_modify_def partial_step_def lock_step_def
  show "should_modify q \<longleftrightarrow> xp_new_sl q \<noteq> None"
    using assms by (auto simp: defs ret_def split: if_splits option.splits)
  assume s: "xp_new_sl q = Some s"
  then show "\<not> in_hold_seconds i < min_hold_seconds c \<and> \<not> peak_usd_of i < partial_usd_of c ev risk \<and>
      \<not> pos_profit p < pmin (peak_usd_of i) (flr * risk) - spike_hold_allowance_r c * risk \<and>
      sl_is_beyond p s \<and> ladder_price c p i risk r_unit flr s"
    using assms by (auto simp: defs ladder_price_def ret_def split: if_splits option.splits)
qed

text \<open>Deciding about a position never fails: whatever the position, the floats (NaN and
  infinities included), the configuration and the learned table, the decision returns, and it
  asks for a modification exactly when it names a new stop.\<close>

theorem exit_decision_returns:
  "\<exists>q. exit_plan_of P p i = ret q \<and> (should_modify q \<longleftrightarrow> xp_new_sl q \<noteq> None)"
proof -
  obtain r where r: "r_unit_price p (effective_risk_of p i) (in_contract_size i) = ret r"
    using r_unit_price_total by blast
  obtain flr ev where f: "trigger_floor_r P (in_regime i) r (in_atr_price i) = ret (flr, ev)"
    using trigger_floor_total by (metis surj_pair)
  obtain q where q: "plan_at (xp_cfg P) p i (effective_risk_of p i) r flr ev = ret q"
    using plan_at_total by blast
  show ?thesis
    using plan_at_modifies(1) [OF q]
    by (cases "r \<le> 0") (simp_all add: exit_plan_of_def Let_def r f q hold_plan_def should_modify_def)
qed

text \<open>C25: The exit policy only ever tightens. When it names a new stop, the position had no
  stop or the new one is strictly nearer to the market on the protective side; the position is
  not younger than the dwell time, its best profit has reached the de-risk threshold, its
  current profit has not collapsed below the allowance, and the price is the one of the ladder:
  the de-risk stop below the trigger, the cost-aware lock from the trigger on.\<close>

theorem exit_only_tightens:
  assumes "exit_plan_of P p i = ret q" and "xp_new_sl q = Some s"
  shows "(pos_sl p \<le> 0 \<or> (if pos_type p = BUY then pos_sl p < s else s < pos_sl p)) \<and>
    \<not> in_hold_seconds i < min_hold_seconds (xp_cfg P) \<and>
    (\<exists>r_unit flr ev. r_unit_price p (effective_risk_of p i) (in_contract_size i) = ret r_unit \<and>
      trigger_floor_r P (in_regime i) r_unit (in_atr_price i) = ret (flr, ev) \<and> \<not> r_unit \<le> 0 \<and>
      \<not> peak_usd_of i < partial_usd_of (xp_cfg P) ev (effective_risk_of p i) \<and>
      \<not> pos_profit p < pmin (peak_usd_of i) (flr * effective_risk_of p i)
            - spike_hold_allowance_r (xp_cfg P) * effective_risk_of p i \<and>
      ladder_price (xp_cfg P) p i (effective_risk_of p i) r_unit flr s)"
proof -
  obtain r where r: "r_unit_price p (effective_risk_of p i) (in_contract_size i) = ret r"
    using r_unit_price_total by blast
  obtain flr ev where f: "trigger_floor_r P (in_regime i) r (in_atr_price i) = ret (flr, ev)"
    using trigger_floor_total by (metis surj_pair)
  have pos: "\<not> r \<le> 0"
    using assms by (auto simp: exit_plan_of_def Let_def r hold_plan_def split: if_splits)
  with assms(1) have "plan_at (xp_cfg P) p i (effective_risk_of p i) r flr ev = ret q"
    by (simp add: exit_plan_of_def Let_def r f)
  note m = plan_at_modifies(2) [OF this assms(2)]
  then show ?thesis using r f pos by (auto simp: sl_is_beyond_def is_buy_def split: if_splits)
qed

definition sample_position :: position where
  "sample_position = \<lparr>pos_ticket = 7, pos_symbol = ''XAUUSD'', pos_type = BUY, pos_volume = Fin 1,
     pos_price_open = Fin 2000, pos_sl = Fin 1990, pos_tp = Fin 2050, pos_profit = Fin 400, pos_magic = 0\<rparr>"

definition sample_exit_input :: exit_input where
  "sample_exit_input = \<lparr>in_risk_usd = Fin 1024, in_atr_price = 0, in_contract_size = Fin 64,
     in_spread_price = 0, in_commission_usd = 0, in_hold_seconds = Fin 60, in_mfe_usd = Some (Fin 900),
     in_peak_win_usd = None, in_regime = None, in_symbol_info = None\<rparr>"

definition sample_exit_config :: exit_config where
  "sample_exit_config =
     \<lparr>be_min_r = Fin 1, be_min_atr_multiplier = Fin 1, be_max_r = Fin 3,
      trend_regime_floor_r = Fin (5 / 4), range_regime_floor_r = Fin (3 / 4),
      default_regime_floor_r = Fin (3 / 4), partial_de_risk_r = Fin (1 / 2),
      partial_de_risk_stop_r = Fin (1 / 2), lock_buffer_pips = Fin (1 / 2),
      lock_extra_r = Fin (1 / 8), round_trip_cost_usd_per_lot = Fin 1,
      partial_atr_fraction = Fin (3 / 4), min_hold_seconds = Fin 12,
      spike_hold_allowance_r = Fin (1 / 2)\<rparr>"

lemma sample_plan:
  "exit_plan_of (mk_exit_policy (Some sample_exit_config) None) sample_position sample_exit_input =
     ret \<lparr>xp_action = PARTIAL_DE_RISK, xp_trigger_r = Fin 1, xp_new_sl = Some (Fin 1992),
          xp_reason = STOP_LIFTED,
          xp_evidence = [(''regime_floor_r'', Fin (3 / 4)), (''atr_floor_r'', Fin 0),
            (''r_unit_price'', Fin 16), (''learned_r'', Fin 0), (''mfe_usd'', Fin 900)]\<rparr>"
  by code_simp

lemma exit_only_tightens_witness: "pos_sl sample_position < Fin 1992 \<and> \<not> Fin 60 < Fin 12"
  using exit_only_tightens [OF sample_plan, of "Fin 1992"]
  by (simp add: sample_position_def sample_exit_input_def sample_exit_config_def zero_f64_Fin
      mk_exit_policy_def apply_learned_profile_def)

section \<open>The learned table and the R floor\<close>

lemma learn_entries_range:
  assumes "\<forall>b t. m b = Some t \<longrightarrow> trigger_in_range t"
  shows "fold learn_entry es m b = Some t \<Longrightarrow> trigger_in_range t"
  using assms by (induction es arbitrary: m) (auto simp: learn_entry_def split: if_splits)

lemma learned_in_range: "xp_learned (mk_exit_policy c learned) b = Some t \<Longrightarrow> trigger_in_range t"
  using learn_entries_range [of Map.empty]
  by (auto simp: mk_exit_policy_def apply_learned_profile_def split: option.splits)

lemma exit_constants:
  "Fin 1 < fl (12 / 10)" "fl (7 / 10) < Fin 1" "fl (9 / 10) < Fin 1" "fl (12 / 10) < Fin 3"
  by code_simp+

lemma floor_of_bounds:
  assumes "be_min_r c = Fin 1" and "be_max_r c = Fin 3"
  shows "Fin 1 \<le> floor_of c l rf af \<and> floor_of c l rf af \<le> Fin 3"
proof -
  define b where "b = pmax (pmax (Fin 1) rf) af"
  define b' where "b' = (case l of Some t \<Rightarrow> pmax b t | None \<Rightarrow> b)"
  have 1: "Fin 1 \<le> pmax (Fin 1) rf" by (rule pmax_ge) simp
  have b: "Fin 1 \<le> b" unfolding b_def using 1 f64_le_not_NaN [OF 1] by (blast intro: f64_le_trans pmax_ge)
  have b': "Fin 1 \<le> b'" unfolding b'_def using b f64_le_not_NaN [OF b]
    by (auto split: option.split intro: f64_le_trans pmax_ge)
  have "floor_of c l rf af = pmin (Fin 3) b'" unfolding floor_of_def assms Let_def b'_def b_def ..
  moreover have "Fin 1 \<le> pmin (Fin 3) b'" using b' pmin_cases [of "Fin 3" b'] by (auto simp: less_eq_f64.simps)
  ultimately show ?thesis using pmin_le [of "Fin 3" b'] by simp
qed

text \<open>With the built-in configuration every ticket's trigger lies between 1R and 3R, and
  every learned trigger that is used lies between 0.4R and 5R, whatever the artifact says and
  whatever volatility is reported.\<close>

theorem exit_floor_bounded:
  assumes "trigger_floor_r (mk_exit_policy None learned) regime r_unit atr = ret (flr, ev)"
  shows "Fin 1 \<le> flr \<and> flr \<le> Fin 3 \<and>
    (\<forall>b t. xp_learned (mk_exit_policy None learned) b = Some t \<longrightarrow> fl (4 / 10) \<le> t \<and> t \<le> Fin 5)"
proof -
  have c: "xp_cfg (mk_exit_policy None learned) = default_exit_config"
    by (simp add: mk_exit_policy_def apply_learned_profile_def split: option.split)
  obtain af where "atr_floor_of (xp_cfg (mk_exit_policy None learned)) r_unit atr = ret af"
    using atr_floor_total by blast
  then obtain l rf where "flr = floor_of default_exit_config l rf af"
    using assms c by (auto simp: trigger_floor_r_def Let_def)
  moreover have "be_min_r default_exit_config = Fin 1" "be_max_r default_exit_config = Fin 3"
    by (simp_all add: default_exit_config_def)
  ultimately show ?thesis
    using floor_of_bounds [of default_exit_config] learned_in_range [of None learned]
    by (auto simp: trigger_in_range_def)
qed

lemma exit_floor_bounded_witness: "Fin 1 \<le> Fin 2 \<and> Fin 2 \<le> Fin 3"
proof -
  have f: "trigger_floor_r (mk_exit_policy None (Some [(''Trending'', Fin 2)])) (Some '' trend_up'') (Fin 4) 0 =
    ret (Fin 2, [(''regime_floor_r'', fl (12 / 10)), (''atr_floor_r'', Fin 0),
                 (''r_unit_price'', Fin 4), (''learned_r'', Fin 2)])"
    by code_simp
  show ?thesis using exit_floor_bounded [OF f] by simp
qed

lemma floor_of_weak:
  assumes c: "be_min_r c = Fin 1" "be_max_r c = Fin 3" and rf: "rf \<le> Fin 1"
    and l: "case l of Some t \<Rightarrow> t \<le> Fin 1 | None \<Rightarrow> True"
  shows "floor_of c l rf af = pmin (Fin 3) (pmax (Fin 1) af)"
proof -
  have skip: "pmax x y = x" if "Fin 1 \<le> x" "y \<le> Fin 1" for x y
    using that by (auto simp: pmax_def dest: f64_less_le_trans f64_le_less_trans f64_le_trans)
  have 1: "pmax (Fin 1) rf = Fin 1" using rf by (simp add: skip)
  have "Fin 1 \<le> pmax (Fin 1) af" by (rule pmax_ge) simp
  then have "(case l of Some t \<Rightarrow> pmax (pmax (Fin 1) af) t | None \<Rightarrow> pmax (Fin 1) af) = pmax (Fin 1) af"
    using l by (auto simp: skip split: option.splits)
  then show ?thesis unfolding floor_of_def Let_def c 1 by (rule arg_cong)
qed

text \<open>Outside trends the regime never matters: with the built-in configuration the trigger
  of a range ticket and of a ticket of any other regime is the volatility floor clamped to
  [1R, 3R], because the absolute floor of 1R hides the regime floors 0.7R and 0.9R; a learned
  trigger of at most 1R is hidden the same way.\<close>

theorem range_asks_the_same:
  assumes "xp_cfg P = default_exit_config" and "normalize_regime regime \<noteq> ''trend''"
    and "case learned_trigger_r P regime of Some t \<Rightarrow> t \<le> Fin 1 | None \<Rightarrow> True"
    and "trigger_floor_r P regime r_unit atr = ret (flr, ev)"
  shows "\<exists>af. atr_floor_of default_exit_config r_unit atr = ret af \<and> flr = pmin (Fin 3) (pmax (Fin 1) af)"
proof -
  obtain af where af: "atr_floor_of default_exit_config r_unit atr = ret af"
    using atr_floor_total by blast
  have rf: "regime_floor_of default_exit_config (normalize_regime regime) \<le> Fin 1"
    using exit_constants assms(2) by (auto simp: regime_floor_of_def default_exit_config_def intro: f64_less_imp_le)
  have "flr = floor_of default_exit_config (learned_trigger_r P regime)
      (regime_floor_of default_exit_config (normalize_regime regime)) af"
    using assms(1,4) af by (auto simp: trigger_floor_r_def Let_def learned_trigger_r_def)
  also have "\<dots> = pmin (Fin 3) (pmax (Fin 1) af)"
    by (rule floor_of_weak [OF _ _ rf assms(3)]) (simp_all add: default_exit_config_def)
  finally show ?thesis using af by blast
qed

lemma range_asks_the_same_witness:
  "\<exists>af. atr_floor_of default_exit_config (Fin 4) 0 = ret af \<and> Fin 1 = pmin (Fin 3) (pmax (Fin 1) af)"
proof -
  let ?P = "mk_exit_policy None (Some [(''chop'', Fin (1 / 2))])"
  have f: "trigger_floor_r ?P (Some '' ranging '') (Fin 4) 0 =
    ret (Fin 1, [(''regime_floor_r'', fl (7 / 10)), (''atr_floor_r'', Fin 0),
                 (''r_unit_price'', Fin 4), (''learned_r'', Fin (1 / 2))])"
    by code_simp
  have n: "normalize_regime (Some '' ranging '') \<noteq> ''trend''" by code_simp
  have l: "case learned_trigger_r ?P (Some '' ranging '') of Some t \<Rightarrow> t \<le> Fin 1 | None \<Rightarrow> True"
    by code_simp
  have c: "xp_cfg ?P = default_exit_config" by (simp add: mk_exit_policy_def apply_learned_profile_def)
  show ?thesis by (rule range_asks_the_same [OF c n l f])
qed

text \<open>The risk-free stop is on the profitable side. When the entry price lies on the price
  grid the lock is rounded to, the lock of a long position is not below its entry and the lock
  of a short position not above it.\<close>

theorem lock_covers_entry:
  assumes "lock_price c p cs spread comm si r_unit = ret (Some l)"
    and "round_nd (nat (lock_digits si)) (pos_price_open p) = pos_price_open p"
    and "isfinite (pos_price_open p)" and "dbl (pos_price_open p)" and "l \<noteq> NaN"
  shows "if pos_type p = BUY then pos_price_open p \<le> l else l \<le> pos_price_open p"
proof -
  let ?o = "pos_price_open p" and ?n = "nat (lock_digits si)"
  obtain d where d: "\<not> d \<le> 0" and
    l: "l = round_nd ?n (if is_buy p then ?o + d else ?o - d)"
    using assms(1) by (auto simp: lock_price_def Let_def cost_price_of_def py_div_total split: if_splits)
  have dn: "d \<noteq> NaN" using assms(5) l
    by (cases ?o) (auto simp: round_nd_finite_or minus_f64_def split: if_splits)
  then have d0: "Fin 0 \<le> d" using d by (auto simp: f64_not_le zero_f64_Fin intro: f64_less_imp_le)
  obtain r where r: "?o = Fin r" using assms(3) by (elim isfiniteE)
  have "?o \<le> ?o + d"
    using d0 assms(4) by (cases d) (auto simp: r dbl_Fin intro!: fl_mono [of r, unfolded assms(4) [unfolded r dbl_Fin]])
  moreover have "?o - d \<le> ?o"
    by (rule fsub_le [OF assms(4) d0]) (use l assms(5) dn r in \<open>cases d; auto simp: minus_f64_def\<close>)
  ultimately show ?thesis
    using round_nd_mono [of ?o "?o + d" ?n] round_nd_mono [of "?o - d" ?o ?n] assms(2)
    by (auto simp: l is_buy_def)
qed

lemma lock_covers_entry_witness: "Fin 2000 \<le> Fin (4009 / 2)"
proof -
  let ?si = "\<lparr>si_symbol = ''X'', si_digits = 2, si_point = Fin 1, si_tick_size = Fin 1, si_tick_value = Fin 1,
    si_volume_min = Fin 1, si_volume_max = Fin 8, si_volume_step = Fin 1, si_stops_level = 0,
    si_freeze_level = 0, si_trade_contract_size = Fin 64\<rparr>"
  have l: "lock_price sample_exit_config sample_position (Fin 64) (Fin 2) 0 (Some ?si) (Fin (127 / 8)) = ret (Some (Fin (4009 / 2)))"
    by code_simp
  have r: "round_nd (nat (lock_digits (Some ?si))) (pos_price_open sample_position) = pos_price_open sample_position"
    by code_simp
  have d: "dbl (pos_price_open sample_position)" by (simp add: sample_position_def dbl_Fin)
  show ?thesis using lock_covers_entry [OF l r _ d] by (simp add: sample_position_def)
qed

end
