(* ===== verification/ExitLearning.thy ===== *)
theory ExitLearning
  imports ExitPolicy "HOL-Library.List_Lexorder" "HOL-Library.Char_ord"
begin

text \<open>
  The learning half of the exit layer (\<^verbatim>\<open>experience/exit_optimizer.py\<close>): closed trades become
  observations, the ledger's round-trip curve chooses a trigger per regime, and the profile
  written as JSON is what \<open>ExitPolicy.validate_learned\<close> reads back. The bootstrap interval is
  numpy's random resampling and a parameter; \<^verbatim>\<open>sum\<close> of floats is the plain left-to-right
  addition of Python 3.11, the version the project targets.
\<close>

section \<open>Observations\<close>

record observation =
  ob_regime :: string
  ob_mfe_r :: f64
  ob_final_r :: f64

definition ob_valid :: "observation \<Rightarrow> bool" where
  "ob_valid ob \<longleftrightarrow> isfinite (ob_mfe_r ob) \<and> isfinite (ob_final_r ob) \<and> 0 \<le> ob_mfe_r ob"

definition trend_keys :: "string list" where
  "trend_keys = [''TREND'', ''TRENDING'', ''TREND_UP'', ''TREND_DOWN'', ''EXPANSION'', ''VOLATILITY_EXPANSION'']"

definition range_keys :: "string list" where
  "range_keys = [''RANGE'', ''RANGING'', ''MEAN_REVERSION'', ''COMPRESSION'', ''CHOP'']"

definition optimizer_regime :: "string option \<Rightarrow> string" where
  "optimizer_regime r =
     (let key = upper (strip (case r of Some s \<Rightarrow> s | None \<Rightarrow> ''''))
      in if key \<in> set trend_keys then ''TREND'' else if key \<in> set range_keys then ''RANGE'' else ''DEFAULT'')"

text \<open>An experience record: an absent context or behaviour is a missing regime or number.\<close>

record experience =
  ex_regime :: "string option"
  ex_mfe_r :: "f64 option"
  ex_final_r :: "f64 option"
  ex_closed :: bool

definition observe :: "experience \<Rightarrow> observation" where
  "observe x = \<lparr>ob_regime = optimizer_regime (ex_regime x), ob_mfe_r = or_zero (ex_mfe_r x),
                ob_final_r = or_zero (ex_final_r x)\<rparr>"

definition observations_from_records :: "experience list \<Rightarrow> observation list" where
  "observations_from_records xs = filter ob_valid (map observe (filter ex_closed xs))"

section \<open>The statistics\<close>

definition counterfactual_r :: "observation \<Rightarrow> f64 \<Rightarrow> f64 \<Rightarrow> f64 \<Rightarrow> f64" where
  "counterfactual_r ob trigger lock dip =
     (if ob_mfe_r ob < trigger then ob_final_r ob
      else if ob_final_r ob < lock then lock
      else ob_final_r ob - dip * (ob_final_r ob - lock))"

text \<open>One row of the vectorised form: the nested selections of \<open>_expected_r_arrays\<close>.\<close>

definition array_row :: "f64 \<Rightarrow> f64 \<Rightarrow> f64 \<Rightarrow> f64 \<Rightarrow> f64 \<Rightarrow> f64" where
  "array_row mfe final trigger lock dip =
     (let reached = trigger \<le> mfe;
          recovered = (if final \<le> lock then lock else final - dip * (final - lock))
      in if reached then (if final < 0 then lock else recovered) else final)"

text \<open>\<^verbatim>\<open>m / n\<close> on two counts\<close>

definition count_ratio :: "nat \<Rightarrow> nat \<Rightarrow> f64 res" where
  "count_ratio m n = (if n = 0 then raise ZeroDivisionError else ret (fl (of_nat m / of_nat n)))"

definition winners :: "observation list \<Rightarrow> observation list" where
  "winners obs = filter (\<lambda>ob. 0 < ob_final_r ob) obs"

definition estimate_dip_fraction :: "observation list \<Rightarrow> f64 \<Rightarrow> f64 res" where
  "estimate_dip_fraction obs giveback =
     (let ws = winners obs
      in if ws = [] then ret (Fin (1 / 4))
         else bindR (count_ratio (length (filter (\<lambda>ob. giveback \<le> ob_mfe_r ob - ob_final_r ob) ws)) (length ws))
                (\<lambda>q. ret (pmin (fl (6 / 10)) (pmax (fl (5 / 100)) q))))"

definition expected_r :: "observation list \<Rightarrow> f64 \<Rightarrow> f64 \<Rightarrow> f64 \<Rightarrow> f64 res" where
  "expected_r obs trigger lock dip =
     (if obs = [] then ret 0
      else py_div (fsum (map (\<lambda>ob. counterfactual_r ob trigger lock dip) obs)) (float_of_int (int (length obs))))"

definition reached_at :: "observation list \<Rightarrow> f64 \<Rightarrow> observation list" where
  "reached_at obs trigger = filter (\<lambda>ob. trigger \<le> ob_mfe_r ob) obs"

definition negative_rate_at :: "observation list \<Rightarrow> f64 \<Rightarrow> (nat \<times> f64) res" where
  "negative_rate_at obs trigger =
     (let rs = reached_at obs trigger
      in if rs = [] then ret (0, 0)
         else bindR (count_ratio (length (filter (\<lambda>ob. ob_final_r ob < 0) rs)) (length rs))
                (\<lambda>q. ret (length rs, q)))"

section \<open>Choosing a trigger\<close>

definition DEFAULT_GRID :: "f64 list" where
  "DEFAULT_GRID = map (\<lambda>n. fl (of_int n / 10)) [6, 8, 10, 12, 15, 18, 22, 26, 30]"

definition DEFAULT_LOCK_R :: f64 where
  "DEFAULT_LOCK_R = fl (5 / 100)"

definition MIN_SAMPLES :: nat where
  "MIN_SAMPLES = 30"

text \<open>\<^verbatim>\<open>sorted\<close> on numbers, by insertion\<close>

fun finsert :: "f64 \<Rightarrow> f64 list \<Rightarrow> f64 list" where
  "finsert x [] = [x]"
| "finsert x (y # ys) = (if y < x then y # finsert x ys else x # y # ys)"

definition fsorted :: "f64 list \<Rightarrow> f64 list" where
  "fsorted xs = foldr finsert xs []"

definition percent :: "f64 \<Rightarrow> string" where
  "percent x = fmt_fixed 0 (x * Fin 100) @ ''%''"

definition rate_text :: "nat \<Rightarrow> f64 \<Rightarrow> f64 \<Rightarrow> f64 \<Rightarrow> string" where
  "rate_text reached rate trigger target =
     percent rate @ '' of '' @ show_int (int reached) @ '' trades reaching '' @ fmt_fixed 1 trigger
       @ ''R closed negative (target '' @ percent target @ '')''"

definition supported :: "f64 \<Rightarrow> nat \<times> f64 \<Rightarrow> bool" where
  "supported target rr \<longleftrightarrow> 10 \<le> fst rr \<and> snd rr \<le> target"

fun first_supported :: "observation list \<Rightarrow> f64 \<Rightarrow> f64 list \<Rightarrow> (f64 \<times> string option) res" where
  "first_supported obs target [] = ret (1, None)"
| "first_supported obs target (t # ts) =
     bindR (negative_rate_at obs t) (\<lambda>rr.
       if supported target rr then ret (t, Some (rate_text (fst rr) (snd rr) t target))
       else first_supported obs target ts)"

text \<open>The reason text is \<open>None\<close> when no level met the target and the baseline is kept.\<close>

definition choose_trigger :: "observation list \<Rightarrow> f64 list \<Rightarrow> f64 \<Rightarrow> f64 \<Rightarrow> f64 \<Rightarrow> (f64 \<times> string option) res" where
  "choose_trigger obs grid target min_trigger max_trigger =
     first_supported obs target (filter (\<lambda>t. min_trigger \<le> t \<and> t \<le> max_trigger) (fsorted grid))"

section \<open>The optimisation and its artifact\<close>

datatype rec_reason = INSUFFICIENT_SAMPLE nat nat | RATE_MET string | BASELINE_KEPT

record recommendation =
  rr_regime :: string
  rr_trigger_r :: f64
  rr_baseline_r :: f64
  rr_expected_r :: f64
  rr_lift_r :: f64
  rr_lift_ci_low :: f64
  rr_samples :: nat
  rr_accepted :: bool
  rr_reason :: rec_reason

record opt_config =
  oc_grid :: "f64 list"
  oc_baseline_r :: f64
  oc_lock_r :: f64
  oc_min_samples :: nat
  oc_dip :: "f64 option"
  oc_target :: f64

definition default_opt_config :: opt_config where
  "default_opt_config = \<lparr>oc_grid = DEFAULT_GRID, oc_baseline_r = 1, oc_lock_r = DEFAULT_LOCK_R,
     oc_min_samples = MIN_SAMPLES, oc_dip = None, oc_target = Fin (1 / 4)\<rparr>"

text \<open>The lower end of the bootstrap interval: rows, chosen and baseline trigger, lock, dip.\<close>

type_synonym bootstrap = "observation list \<Rightarrow> f64 \<Rightarrow> f64 \<Rightarrow> f64 \<Rightarrow> f64 \<Rightarrow> f64"

definition bucket_add :: "observation \<Rightarrow> (string \<times> observation list) list \<Rightarrow> (string \<times> observation list) list" where
  "bucket_add ob d =
     AList.update (ob_regime ob) ((case map_of d (ob_regime ob) of Some os \<Rightarrow> os | None \<Rightarrow> []) @ [ob]) d"

definition buckets_of :: "observation list \<Rightarrow> (string \<times> observation list) list" where
  "buckets_of obs = fold bucket_add obs []"

definition insufficient :: "opt_config \<Rightarrow> string \<Rightarrow> f64 \<Rightarrow> nat \<Rightarrow> recommendation" where
  "insufficient c regime baseline n =
     \<lparr>rr_regime = regime, rr_trigger_r = oc_baseline_r c, rr_baseline_r = baseline, rr_expected_r = baseline,
      rr_lift_r = 0, rr_lift_ci_low = 0, rr_samples = n, rr_accepted = False,
      rr_reason = INSUFFICIENT_SAMPLE n (oc_min_samples c)\<rparr>"

definition recommend :: "bootstrap \<Rightarrow> opt_config \<Rightarrow> string \<Rightarrow> observation list \<Rightarrow> recommendation res" where
  "recommend ci c regime rows =
     bindR (case oc_dip c of Some d \<Rightarrow> ret d | None \<Rightarrow> estimate_dip_fraction rows (Fin (1 / 2))) (\<lambda>dip.
     bindR (expected_r rows (oc_baseline_r c) (oc_lock_r c) dip) (\<lambda>baseline.
     if length rows < oc_min_samples c then ret (insufficient c regime baseline (length rows))
     else
       bindR (choose_trigger rows (oc_grid c) (oc_target c) (fl (8 / 10)) (Fin (5 / 2))) (\<lambda>(t, why).
       bindR (expected_r rows t (oc_lock_r c) dip) (\<lambda>expd.
         let changed = fl (1 / 10 ^ 9) < fabs64 (t - oc_baseline_r c)
         in ret \<lparr>rr_regime = regime, rr_trigger_r = t, rr_baseline_r = baseline, rr_expected_r = expd,
                 rr_lift_r = expd - baseline,
                 rr_lift_ci_low = (if changed then ci rows t (oc_baseline_r c) (oc_lock_r c) dip else 0),
                 rr_samples = length rows, rr_accepted = changed,
                 rr_reason = (case why of Some w \<Rightarrow> RATE_MET w | None \<Rightarrow> BASELINE_KEPT)\<rparr>))))"

fun recommend_all :: "bootstrap \<Rightarrow> opt_config \<Rightarrow> (string \<times> observation list) list \<Rightarrow> (string \<times> recommendation) list res" where
  "recommend_all ci c [] = ret []"
| "recommend_all ci c ((regime, rows) # bs) =
     bindR (recommend ci c regime rows) (\<lambda>r. bindR (recommend_all ci c bs) (\<lambda>rs. ret ((regime, r) # rs)))"

record optimization =
  opt_recommendations :: "(string \<times> recommendation) list"
  opt_grid :: "f64 list"
  opt_lock_r :: f64
  opt_total :: nat
  opt_generated_at :: string

definition optimize :: "bootstrap \<Rightarrow> string \<Rightarrow> opt_config \<Rightarrow> observation list \<Rightarrow> optimization res" where
  "optimize ci now c obs =
     bindR (recommend_all ci c (buckets_of obs)) (\<lambda>rs.
       ret \<lparr>opt_recommendations = rs, opt_grid = oc_grid c, opt_lock_r = oc_lock_r c,
            opt_total = length obs, opt_generated_at = now\<rparr>)"

text \<open>The long dash of the last text is written as a hyphen.\<close>

definition reason_text :: "rec_reason \<Rightarrow> string" where
  "reason_text r = (case r of
       INSUFFICIENT_SAMPLE n k \<Rightarrow> ''insufficient sample ('' @ show_int (int n) @ '' < '' @ show_int (int k) @ '')''
     | RATE_MET w \<Rightarrow> w
     | BASELINE_KEPT \<Rightarrow> ''no MFE level met the round-trip target - baseline kept'')"

definition rec_as_dict :: "recommendation \<Rightarrow> json" where
  "rec_as_dict r = JObj
     [(''trigger_r'', JFloat (round_nd 4 (rr_trigger_r r))), (''baseline_r'', JFloat (round_nd 4 (rr_baseline_r r))),
      (''expected_r'', JFloat (round_nd 4 (rr_expected_r r))), (''lift_r'', JFloat (round_nd 4 (rr_lift_r r))),
      (''lift_ci_low'', JFloat (round_nd 4 (rr_lift_ci_low r))), (''samples'', JInt (int (rr_samples r))),
      (''accepted'', JBool (rr_accepted r)), (''reason'', JStr (reason_text (rr_reason r)))]"

definition profile :: "optimization \<Rightarrow> json" where
  "profile opt = JObj
     [(''version'', JInt 3), (''generated_at'', JStr (opt_generated_at opt)), (''lock_r'', JFloat (opt_lock_r opt)),
      (''grid'', JArr (map JFloat (opt_grid opt))), (''total_observations'', JInt (int (opt_total opt))),
      (''regimes'', JObj (map (\<lambda>(k, r). (k, rec_as_dict r)) (sort_key fst (opt_recommendations opt))))]"

section \<open>The chosen trigger\<close>

lemma set_finsert [simp]: "set (finsert x ys) = insert x (set ys)"
  by (induction ys) auto

lemma set_fsorted [simp]: "set (fsorted xs) = set xs"
  by (induction xs) (auto simp: fsorted_def)

lemma sorted_finsert:
  "\<lbrakk>sorted_wrt (\<le>) ys; x \<noteq> NaN; \<forall>y \<in> set ys. y \<noteq> NaN\<rbrakk> \<Longrightarrow> sorted_wrt (\<le>) (finsert x ys)"
  by (induction ys) (auto intro: f64_less_imp_le f64_le_trans simp: f64_not_less)

lemma sorted_fsorted: "\<forall>x \<in> set xs. x \<noteq> NaN \<Longrightarrow> sorted_wrt (\<le>) (fsorted xs)"
proof (induction xs)
  case (Cons x xs)
  have "\<forall>y \<in> set (fsorted xs). y \<noteq> NaN" using Cons.prems by (simp only: set_fsorted) simp
  with Cons show ?case by (simp add: fsorted_def sorted_finsert)
qed (simp add: fsorted_def)

lemma count_ratio_pos: "0 < n \<Longrightarrow> count_ratio m n = ret (fl (of_nat m / of_nat n))"
  by (simp add: count_ratio_def)

lemma negative_rate_total: "\<exists>rr. negative_rate_at obs t = ret rr"
  by (auto simp: negative_rate_at_def Let_def count_ratio_pos)

lemma first_supported_least:
  assumes "sorted_wrt (\<le>) ts"
  shows "first_supported obs target ts = ret (t, why) \<Longrightarrow>
    (case why of
       None \<Rightarrow> t = 1 \<and> (\<forall>u \<in> set ts. \<exists>rr. negative_rate_at obs u = ret rr \<and> \<not> supported target rr)
     | Some w \<Rightarrow> t \<in> set ts \<and> (\<exists>rr. negative_rate_at obs t = ret rr \<and> supported target rr) \<and>
         (\<forall>u \<in> set ts. u < t \<longrightarrow> (\<exists>rr. negative_rate_at obs u = ret rr \<and> \<not> supported target rr)))"
  using assms
proof (induction ts)
  case (Cons u us)
  obtain k q where rr: "negative_rate_at obs u = ret (k, q)"
    using negative_rate_total [of obs u] by auto
  show ?case
  proof (cases "supported target (k, q)")
    case True
    with Cons.prems rr have t: "t = u" "why \<noteq> None" by auto
    have "\<not> v < u" if "v \<in> set us" for v
      using Cons.prems(2) that f64_le_less_trans [of u v u] by auto
    with True rr t show ?thesis by auto
  next
    case False
    with Cons rr show ?thesis by (auto split: option.splits)
  qed
qed simp

text \<open>The learned trigger is the least level of the grid within the admissible band whose
  trades, at least ten of them, close negative at no more than the target rate; when no level
  qualifies the baseline 1R is kept.\<close>

theorem trigger_is_least_supported:
  assumes "choose_trigger obs grid target lo hi = ret (t, why)" and "\<forall>x \<in> set grid. x \<noteq> NaN"
  shows "case why of
       None \<Rightarrow> t = 1 \<and> (\<forall>u \<in> set grid. lo \<le> u \<and> u \<le> hi \<longrightarrow>
         (\<exists>rr. negative_rate_at obs u = ret rr \<and> \<not> supported target rr))
     | Some w \<Rightarrow> t \<in> set grid \<and> lo \<le> t \<and> t \<le> hi \<and>
         (\<exists>rr. negative_rate_at obs t = ret rr \<and> supported target rr) \<and>
         (\<forall>u \<in> set grid. lo \<le> u \<and> u < t \<longrightarrow>
           (\<exists>rr. negative_rate_at obs u = ret rr \<and> \<not> supported target rr))"
proof -
  let ?ts = "filter (\<lambda>t. lo \<le> t \<and> t \<le> hi) (fsorted grid)"
  have s: "sorted_wrt (\<le>) ?ts" by (rule sorted_wrt_filter) (rule sorted_fsorted [OF assms(2)])
  note least = first_supported_least [OF s, of obs target t why, folded choose_trigger_def, OF assms(1)]
  show ?thesis
  proof (cases why)
    case None
    with least show ?thesis by auto
  next
    case (Some w)
    with least have t: "t \<in> set ?ts" by simp
    have "u \<in> set ?ts" if "u \<in> set grid" "lo \<le> u" "u < t" for u
      using that t by (auto intro: f64_less_imp_le f64_le_trans)
    with least t Some show ?thesis by auto
  qed
qed

definition round_trip_sample :: "observation list" where
  "round_trip_sample =
     replicate 10 \<lparr>ob_regime = ''TREND'', ob_mfe_r = Fin 2, ob_final_r = Fin 1\<rparr> @
     replicate 5 \<lparr>ob_regime = ''TREND'', ob_mfe_r = Fin 1, ob_final_r = Fin (- 1)\<rparr>"

lemma trigger_is_least_supported_witness:
  "(\<exists>rr. negative_rate_at round_trip_sample (Fin 1) = ret rr \<and> \<not> supported (Fin (1 / 4)) rr) \<and>
   (\<exists>rr. negative_rate_at round_trip_sample (Fin 2) = ret rr \<and> supported (Fin (1 / 4)) rr)"
proof -
  let ?w = "rate_text 10 (Fin 0) (Fin 2) (Fin (1 / 4))"
  have g: "filter (\<lambda>t. Fin 1 \<le> t \<and> t \<le> Fin 3) (fsorted [Fin 2, Fin 1]) = [Fin 1, Fin 2]"
    by code_simp
  have n: "\<exists>q. negative_rate_at round_trip_sample (Fin 1) = ret (15, q) \<and> \<not> q \<le> Fin (1 / 4)"
    by (intro exI [of _ "fl (5 / 15)"] conjI; code_simp)
  have s: "negative_rate_at round_trip_sample (Fin 2) = ret (10, Fin 0)"
    by code_simp
  have c: "choose_trigger round_trip_sample [Fin 2, Fin 1] (Fin (1 / 4)) (Fin 1) (Fin 3) = ret (Fin 2, Some ?w)"
    using n s unfolding choose_trigger_def g by (auto simp: supported_def)
  show ?thesis using trigger_is_least_supported [OF c] by auto
qed

section \<open>The vectorised form\<close>

text \<open>The vectorised estimator selects, row by row, the value of the counterfactual rule,
  for every finite row, finite trigger and dip fraction and every finite lock that is not
  negative.\<close>

theorem array_row_is_counterfactual:
  assumes "isfinite (ob_mfe_r ob)" and "isfinite (ob_final_r ob)" and "isfinite trigger" and "isfinite dip"
    and "isfinite lock" and "dbl lock" and "0 \<le> lock"
  shows "array_row (ob_mfe_r ob) (ob_final_r ob) trigger lock dip = counterfactual_r ob trigger lock dip"
proof -
  obtain m f t d l where v: "ob_mfe_r ob = Fin m" "ob_final_r ob = Fin f" "trigger = Fin t" "dip = Fin d" "lock = Fin l"
    using assms by (auto elim!: isfiniteE)
  have "Fin l - Fin l = Fin 0" by (simp add: minus_f64_def)
  then show ?thesis
    using assms(6,7)
    by (auto simp: array_row_def counterfactual_r_def v Let_def zero_f64_Fin minus_f64_def dbl_Fin)
qed

lemma array_row_is_counterfactual_witness:
  "array_row (Fin 2) (Fin 1) (Fin (3 / 2)) (Fin (1 / 2)) (Fin (1 / 4)) = Fin (7 / 8)"
proof -
  let ?ob = "\<lparr>ob_regime = ''TREND'', ob_mfe_r = Fin 2, ob_final_r = Fin 1\<rparr>"
  have c: "counterfactual_r ?ob (Fin (3 / 2)) (Fin (1 / 2)) (Fin (1 / 4)) = Fin (7 / 8)" by code_simp
  have d: "dbl (Fin (1 / 2))" unfolding dbl_Fin by code_simp
  show ?thesis
    using array_row_is_counterfactual [of ?ob "Fin (3 / 2)" "Fin (1 / 4)" "Fin (1 / 2)"] c d
    by (simp add: zero_f64_Fin)
qed

section \<open>What is written is what is read\<close>

definition bucket_names :: "string list" where
  "bucket_names = [''TREND'', ''RANGE'', ''DEFAULT'']"

lemma optimizer_regime_bucket: "optimizer_regime r \<in> set bucket_names"
  by (simp add: optimizer_regime_def bucket_names_def Let_def)

text \<open>The two halves of the layer read a regime name alike.\<close>

lemma regime_keys_agree:
  "map_of regime_aliases key =
     (if key \<in> set trend_keys then Some ''trend'' else if key \<in> set range_keys then Some ''range'' else None)"
  by (auto simp: regime_aliases_def trend_keys_def range_keys_def)

lemma normalize_bucket:
  "normalize_regime (Some ''TREND'') = ''trend''" "normalize_regime (Some ''RANGE'') = ''range''"
  "normalize_regime (Some ''DEFAULT'') = ''default''"
  by code_simp+

lemma vocabularies_agree: "normalize_regime r = normalize_regime (Some (optimizer_regime r))"
  unfolding optimizer_regime_def Let_def
  by (simp add: normalize_bucket) (simp add: normalize_regime_def Let_def regime_keys_agree)

lemma normalize_inj: "inj_on (\<lambda>k. normalize_regime (Some k)) (set bucket_names)"
  by (auto simp: inj_on_def bucket_names_def normalize_bucket)

lemma bucket_keys:
  assumes "\<forall>ob \<in> set obs. ob_regime ob \<in> K" and "distinct (map fst d)" and "fst ` set d \<subseteq> K"
  shows "distinct (map fst (fold bucket_add obs d)) \<and> fst ` set (fold bucket_add obs d) \<subseteq> K"
  using assms
proof (induction obs arbitrary: d)
  case (Cons ob obs)
  have "fst ` set (bucket_add ob d) \<subseteq> K"
    using Cons.prems by (auto simp: bucket_add_def dom_update)
  moreover have "distinct (map fst (bucket_add ob d))"
    using Cons.prems by (simp add: bucket_add_def distinct_update)
  ultimately show ?case using Cons by simp
qed simp

lemma recommended_trigger:
  assumes "recommend ci c regime rows = ret r" and "oc_baseline_r c = 1"
  shows "rr_trigger_r r = 1 \<or> fl (8 / 10) \<le> rr_trigger_r r \<and> rr_trigger_r r \<le> Fin (5 / 2)"
proof -
  have least: "t = 1 \<or> fl (8 / 10) \<le> t \<and> t \<le> Fin (5 / 2)"
    if "first_supported rows (oc_target c) ts = ret (t, why)" "\<forall>t \<in> set ts. fl (8 / 10) \<le> t \<and> t \<le> Fin (5 / 2)"
    for t why ts
    using that
  proof (induction ts)
    case (Cons u us)
    obtain rr where "negative_rate_at rows u = ret rr" using negative_rate_total by blast
    with Cons show ?case by (auto split: if_splits)
  qed simp
  have "choose_trigger rows (oc_grid c) (oc_target c) (fl (8 / 10)) (Fin (5 / 2)) = ret (t, why) \<Longrightarrow>
      t = 1 \<or> fl (8 / 10) \<le> t \<and> t \<le> Fin (5 / 2)" for t why
    unfolding choose_trigger_def by (erule least) simp
  with assms show ?thesis
    by (auto simp: recommend_def Let_def insufficient_def bindR_eq_Inr ret_def split: if_splits prod.splits)
qed

lemma recommended_in_range:
  assumes "recommend ci c regime rows = ret r" and "oc_baseline_r c = 1"
  shows "trigger_in_range (round_nd 4 (rr_trigger_r r))"
proof -
  have c: "fl (4 / 10) \<le> round_nd 4 (fl (8 / 10))" "round_nd 4 (Fin (5 / 2)) = Fin (5 / 2)"
      "trigger_in_range (round_nd 4 1)"
    by code_simp+
  from recommended_trigger [OF assms] show ?thesis
  proof
    assume "fl (8 / 10) \<le> rr_trigger_r r \<and> rr_trigger_r r \<le> Fin (5 / 2)"
    then have "round_nd 4 (fl (8 / 10)) \<le> round_nd 4 (rr_trigger_r r)"
      "round_nd 4 (rr_trigger_r r) \<le> Fin (5 / 2)"
      using round_nd_mono [of _ "rr_trigger_r r" 4] round_nd_mono [of "rr_trigger_r r" "Fin (5 / 2)" 4] c(2)
      by auto
    moreover have "Fin (5 / 2) \<le> Fin 5" by simp
    ultimately show ?thesis using c(1) unfolding trigger_in_range_def by (blast intro: f64_le_trans)
  qed (simp add: c)
qed

lemma recommend_all_props:
  assumes "recommend_all ci c bs = ret rs" and "oc_baseline_r c = 1"
  shows "map fst rs = map fst bs \<and> (\<forall>(k, r) \<in> set rs. trigger_in_range (round_nd 4 (rr_trigger_r r)))"
  using assms
proof (induction bs arbitrary: rs)
  case (Cons b bs)
  obtain k rows where b: "b = (k, rows)" by (cases b)
  obtain r where r: "recommend ci c k rows = ret r"
    using Cons.prems(1) b by (cases "recommend ci c k rows") (auto simp: ret_def)
  obtain rs' where rs': "recommend_all ci c bs = ret rs'" "rs = (k, r) # rs'"
    using Cons.prems(1) b r by (cases "recommend_all ci c bs") (auto simp: ret_def)
  with Cons.IH Cons.prems(2) recommended_in_range [OF r Cons.prems(2)] b show ?case by auto
qed simp

lemma update_append: "k \<notin> fst ` set d \<Longrightarrow> AList.update k v d = d @ [(k, v)]"
  by (induction d) auto

definition table_of :: "(string \<times> recommendation) list \<Rightarrow> (string \<times> f64) list" where
  "table_of rs = map (\<lambda>(k, r). (k, round_nd 4 (rr_trigger_r r))) rs"

lemma validate_entries_table:
  assumes "distinct (map fst rs)" and "\<forall>(k, r) \<in> set rs. trigger_in_range (round_nd 4 (rr_trigger_r r))"
    and "fst ` set rs \<inter> fst ` set out = {}"
  shows "validate_entries (map (\<lambda>(k, r). (k, rec_as_dict r)) rs) out = ret (out @ table_of rs)"
  using assms
proof (induction rs arbitrary: out)
  case (Cons e rs)
  obtain k r where e: "e = (k, r)" by (cases e)
  have v: "validate_entry (k, rec_as_dict r) out = ret (out @ [(k, round_nd 4 (rr_trigger_r r))])"
    using Cons.prems e
    by (simp add: validate_entry_def raw_trigger_def rec_as_dict_def jget_def update_append ret_def)
  have "validate_entries (map (\<lambda>(k, r). (k, rec_as_dict r)) rs) (out @ [(k, round_nd 4 (rr_trigger_r r))]) =
      ret ((out @ [(k, round_nd 4 (rr_trigger_r r))]) @ table_of rs)"
    by (rule Cons.IH) (use Cons.prems e in \<open>auto simp: image_iff\<close>)
  with v show ?case by (simp add: e table_of_def)
qed (simp add: table_of_def)

lemma map_of_same_set:
  assumes "distinct (map fst xs)" and "distinct (map fst ys)" and "set xs = set ys"
  shows "map_of xs k = map_of ys k"
proof -
  have "map_of xs k = Some v \<longleftrightarrow> map_of ys k = Some v" for v
    using assms by (simp add: map_of_eq_Some_iff)
  then show ?thesis by (metis not_Some_eq)
qed

abbreviation bucket_of :: "string \<Rightarrow> string" where
  "bucket_of k \<equiv> normalize_regime (Some k)"

lemma fold_learn:
  "\<forall>(k, t) \<in> set es. trigger_in_range t \<Longrightarrow>
    fold learn_entry es m = m ++ map_of (rev (map (\<lambda>(k, t). (bucket_of k, t)) es))"
  by (induction es arbitrary: m) (auto simp: learn_entry_def)

lemma learned_of_table:
  assumes "distinct (map fst es)" and r: "\<forall>(k, t) \<in> set es. trigger_in_range t"
    and inj: "inj_on bucket_of (insert k (fst ` set es))"
  shows "fold learn_entry es Map.empty (bucket_of k) = map_of es k"
proof -
  let ?xs = "map (\<lambda>(k, t). (bucket_of k, t)) es"
  have f: "map fst ?xs = map bucket_of (map fst es)" by (induction es) auto
  have d: "distinct (map fst ?xs)"
    unfolding f distinct_map [of bucket_of]
    using assms(1) inj by (auto intro: inj_on_subset simp del: distinct_map)
  have "(map_of (rev ?xs) (bucket_of k) = Some t) = (map_of es k = Some t)" for t
  proof -
    have "(map_of (rev ?xs) (bucket_of k) = Some t) = ((bucket_of k, t) \<in> set ?xs)"
      using map_of_eq_Some_iff [OF d] map_of_same_set [of "rev ?xs" ?xs] d
      by (simp del: map_map add: rev_map [symmetric])
    also have "\<dots> = ((k, t) \<in> set es)" using inj by (force simp: inj_on_def)
    also have "\<dots> = (map_of es k = Some t)" using map_of_eq_Some_iff [OF assms(1)] by simp
    finally show ?thesis .
  qed
  then have "map_of (rev ?xs) (bucket_of k) = map_of es k" by (metis not_Some_eq)
  then show ?thesis using fold_learn [OF r, of Map.empty] by simp
qed

text \<open>The profile the optimizer writes is the table the exit policy uses. For any trading
  history and any bootstrap, the artifact written from it is accepted entry by entry, and the
  policy built from it answers every regime text, however it is spelled, with the trigger
  recommended for the bucket the optimizer put that text in, rounded to four decimals; and with
  none when the history has no trade of that bucket.\<close>

theorem learned_profile_read_back:
  assumes "optimize ci now c (observations_from_records xs) = ret opt" and "oc_baseline_r c = 1"
  shows "\<exists>table. validate_learned (profile opt) = ret table \<and>
    (\<forall>r. learned_trigger_r (mk_exit_policy None (Some table)) r =
         map_option (\<lambda>e. round_nd 4 (rr_trigger_r e)) (map_of (opt_recommendations opt) (optimizer_regime r)))"
proof -
  let ?obs = "observations_from_records xs" and ?rs = "opt_recommendations opt"
  let ?ss = "sort_key fst ?rs"
  have rs: "recommend_all ci c (buckets_of ?obs) = ret ?rs"
    using assms(1) by (cases "recommend_all ci c (buckets_of ?obs)") (auto simp: optimize_def ret_def)
  have "\<forall>ob \<in> set ?obs. ob_regime ob \<in> set bucket_names"
    by (auto simp: observations_from_records_def observe_def optimizer_regime_bucket)
  then have "distinct (map fst (buckets_of ?obs)) \<and> fst ` set (buckets_of ?obs) \<subseteq> set bucket_names"
    unfolding buckets_of_def by (rule bucket_keys) simp_all
  with recommend_all_props [OF rs assms(2)]
  have d: "distinct (map fst ?rs)" and k: "fst ` set ?rs \<subseteq> set bucket_names"
    and t: "\<forall>(k, r) \<in> set ?rs. trigger_in_range (round_nd 4 (rr_trigger_r r))"
    by (auto simp flip: set_map)
  have ds: "distinct (map fst ?ss)" using d by (simp add: distinct_map)
  have "validate_entries (map (\<lambda>(k, r). (k, rec_as_dict r)) ?ss) [] = ret ([] @ table_of ?ss)"
    by (rule validate_entries_table [OF ds]) (use t in auto)
  then have "validate_learned (profile opt) = ret (table_of ?ss)"
    by (simp add: validate_learned_def profile_def)
  moreover have "learned_trigger_r (mk_exit_policy None (Some (table_of ?ss))) r =
      map_option (\<lambda>e. round_nd 4 (rr_trigger_r e)) (map_of ?rs (optimizer_regime r))" for r
  proof -
    let ?k = "optimizer_regime r"
    have f: "fst ` set (table_of ?ss) = fst ` set ?rs" by (force simp: table_of_def)
    have "fold learn_entry (table_of ?ss) Map.empty (bucket_of ?k) = map_of (table_of ?ss) ?k"
    proof (rule learned_of_table)
      show "distinct (map fst (table_of ?ss))" using ds by (simp add: table_of_def split_def comp_def)
      show "\<forall>(k, t) \<in> set (table_of ?ss). trigger_in_range t" using t by (auto simp: table_of_def)
      show "inj_on bucket_of (insert ?k (fst ` set (table_of ?ss)))"
        unfolding f using k optimizer_regime_bucket [of r] by (intro inj_on_subset [OF normalize_inj]) auto
    qed
    also have "\<dots> = map_option (\<lambda>e. round_nd 4 (rr_trigger_r e)) (map_of ?ss ?k)"
      by (simp add: table_of_def map_of_map)
    also have "map_of ?ss ?k = map_of ?rs ?k"
      by (rule map_of_same_set [OF ds d]) simp
    finally show ?thesis
      by (simp add: learned_trigger_r_def mk_exit_policy_def apply_learned_profile_def vocabularies_agree [of r])
  qed
  ultimately show ?thesis by blast
qed

lemma learned_profile_read_back_witness:
  "\<exists>table. learned_trigger_r (mk_exit_policy None (Some table)) (Some '' trend_up '') = Some (Fin 1)"
proof -
  let ?xs = "[\<lparr>ex_regime = Some ''Trending'', ex_mfe_r = Some (Fin 2), ex_final_r = Some (Fin 1), ex_closed = True\<rparr>]"
  let ?r = "\<lparr>rr_regime = ''TREND'', rr_trigger_r = Fin 1, rr_baseline_r = Fin 1, rr_expected_r = Fin 1,
      rr_lift_r = Fin 0, rr_lift_ci_low = Fin 0, rr_samples = 1, rr_accepted = False,
      rr_reason = INSUFFICIENT_SAMPLE 1 30\<rparr>"
  let ?c = "default_opt_config\<lparr>oc_dip := Some (Fin 0)\<rparr>"
  have o: "optimize (\<lambda>_ _ _ _ _. Fin 0) ''now'' ?c (observations_from_records ?xs) =
      ret \<lparr>opt_recommendations = [(''TREND'', ?r)], opt_grid = DEFAULT_GRID, opt_lock_r = DEFAULT_LOCK_R,
           opt_total = 1, opt_generated_at = ''now''\<rparr>"
    by code_simp
  have k: "optimizer_regime (Some '' trend_up '') = ''TREND''" by code_simp
  have b: "oc_baseline_r ?c = 1" by (simp add: default_opt_config_def)
  have v: "round_nd 4 (Fin 1) = Fin 1" by code_simp
  from learned_profile_read_back [OF o b] obtain table where
    "\<forall>r. learned_trigger_r (mk_exit_policy None (Some table)) r =
      map_option (\<lambda>e. round_nd 4 (rr_trigger_r e)) (map_of [(''TREND'', ?r)] (optimizer_regime r))"
    by auto
  from this [THEN spec, of "Some '' trend_up ''"] show ?thesis
    by (intro exI [of _ table]) (simp add: k v del: round_nd.simps)
qed

end
