(* ===== verification/Protection.thy ===== *)
theory Protection
  imports Valuation TicketLedgers ExitPolicy
begin

text \<open>
  The protection engine (\<^verbatim>\<open>execution/lifecycle/protection.py\<close>) with the constants and the
  two helpers it takes from \<^verbatim>\<open>execution/order_manager.py\<close>, and the part of the management pass
  that runs it. The state holds the dictionaries of the order manager the engine works on and
  the requests sent to the broker, newest last. The broker's answer to a request is a parameter;
  a call that raises counts as refused, as the code treats it (the peak lock of the management
  pass has no handler: there a raising call is outside the model). Clock readings are arguments.
  Log lines and notifications are left out; audit rows keep ticket, action and stop.
\<close>

section \<open>Constants\<close>

definition BREAKEVEN_PROFIT_USD :: f64 where "BREAKEVEN_PROFIT_USD = Fin 15"
definition BREAKEVEN_TRIGGER_R :: f64 where "BREAKEVEN_TRIGGER_R = fl (15 / 100)"
definition BREAKEVEN_ATR_MULTIPLIER :: f64 where "BREAKEVEN_ATR_MULTIPLIER = Fin (3 / 2)"
definition BREAKEVEN_LOCK_PIPS :: f64 where "BREAKEVEN_LOCK_PIPS = fl (6 / 10)"
definition DEFAULT_PIP_SIZE :: f64 where "DEFAULT_PIP_SIZE = fl (1 / 10)"
definition BREAKEVEN_ATTEMPT_COOLDOWN_SEC :: f64 where "BREAKEVEN_ATTEMPT_COOLDOWN_SEC = Fin 5"
definition PROFIT_GIVEBACK_PEAK_USD :: f64 where "PROFIT_GIVEBACK_PEAK_USD = Fin 20"
definition PROFIT_GIVEBACK_MIN_RETENTION :: f64 where "PROFIT_GIVEBACK_MIN_RETENTION = fl (3 / 10)"
definition TIERED_GIVEBACK_ARM_R :: f64 where "TIERED_GIVEBACK_ARM_R = Fin (1 / 2)"
definition PROFIT_GIVEBACK_HOLD_SCORE_PENALTY :: int where "PROFIT_GIVEBACK_HOLD_SCORE_PENALTY = 50"
definition NEGATIVE_AFTER_PROFIT_HOLD_SCORE :: int where "NEGATIVE_AFTER_PROFIT_HOLD_SCORE = 10"
definition ATR_TRAILING_MULTIPLIER :: f64 where "ATR_TRAILING_MULTIPLIER = fl (115 / 100)"
definition TELEMETRY_CONSOLE_INTERVAL_SEC :: f64 where "TELEMETRY_CONSOLE_INTERVAL_SEC = Fin 10"

definition TIERED_GIVEBACK_RETENTION_FLOOR :: "(f64 \<times> f64) list" where
  "TIERED_GIVEBACK_RETENTION_FLOOR =
     [(Fin (1 / 2), fl (6 / 10)), (Fin 1, fl (7 / 10)), (Fin (3 / 2), fl (8 / 10))]"

section \<open>State\<close>

datatype broker_request = MODIFY int f64 f64 | CLOSE_POSITION int

record audit_row =
  ar_ticket :: int
  ar_action :: string
  ar_stop_loss :: f64

record prot_state =
  pr_ledger :: protection_ledger
  pr_last_sl :: "int \<Rightarrow> f64 option"
  pr_flags :: "int \<Rightarrow> bool option"
  pr_risks :: "int \<Rightarrow> f64 option"
  pr_forced :: "int \<Rightarrow> string option"
  pr_hold :: "int \<Rightarrow> int option"
  pr_live :: "int set"
  pr_plans :: "int \<Rightarrow> exit_plan option"
  pr_audit :: "audit_row list"
  pr_sent :: "broker_request list"

text \<open>The broker's answers: modify a ticket to a stop and a target, close a ticket.\<close>

record broker =
  bk_modify :: "int \<Rightarrow> f64 \<Rightarrow> f64 \<Rightarrow> bool"
  bk_close :: "int \<Rightarrow> bool"

record prot_config =
  pc_min_step :: f64
  pc_policy_enabled :: bool
  pc_policy :: exit_policy
  pc_giveback_arm_r :: "f64 option"
  pc_trail_atr_multiplier :: "f64 option"

definition pget :: "int \<Rightarrow> prot_state \<Rightarrow> protection_state" where
  "pget t S = fst (protection_get t (pr_ledger S))"

definition pput :: "int \<Rightarrow> protection_state \<Rightarrow> prot_state \<Rightarrow> prot_state" where
  "pput t s S = S\<lparr>pr_ledger := protection_update t (\<lambda>_. s) (pr_ledger S)\<rparr>"

definition set_flag :: "int \<Rightarrow> prot_state \<Rightarrow> prot_state" where
  "set_flag t S = S\<lparr>pr_flags := (pr_flags S)(t \<mapsto> True)\<rparr>"

definition set_last_sl :: "int \<Rightarrow> f64 \<Rightarrow> prot_state \<Rightarrow> prot_state" where
  "set_last_sl t sl S = S\<lparr>pr_last_sl := (pr_last_sl S)(t \<mapsto> sl)\<rparr>"

definition audit :: "int \<Rightarrow> string \<Rightarrow> f64 \<Rightarrow> prot_state \<Rightarrow> prot_state" where
  "audit t action sl S =
     S\<lparr>pr_audit := pr_audit S @ [\<lparr>ar_ticket = t, ar_action = action, ar_stop_loss = sl\<rparr>]\<rparr>"

definition send :: "broker_request \<Rightarrow> prot_state \<Rightarrow> prot_state" where
  "send r S = S\<lparr>pr_sent := pr_sent S @ [r]\<rparr>"

section \<open>Resolvers\<close>

definition resolve_pip_size :: "symbol_info option \<Rightarrow> f64" where
  "resolve_pip_size si = (case si of
       None \<Rightarrow> DEFAULT_PIP_SIZE
     | Some s \<Rightarrow> let point = si_point s in
         if 0 < point \<and> \<not> isnan point \<and> \<not> isinf64 point then point * Fin 10 else DEFAULT_PIP_SIZE)"

definition resolve_price_digits :: "symbol_info option \<Rightarrow> nat" where
  "resolve_price_digits si = (case si of
       None \<Rightarrow> 2
     | Some s \<Rightarrow> if 0 \<le> si_digits s \<and> si_digits s \<le> 10 then nat (si_digits s) else 2)"

definition resolve_contract_size :: "symbol_info option \<Rightarrow> f64" where
  "resolve_contract_size si = (case si of
       None \<Rightarrow> Fin 100
     | Some s \<Rightarrow> if 0 < si_trade_contract_size s then si_trade_contract_size s else Fin 100)"

definition price_delta_to_usd :: "f64 \<Rightarrow> f64 \<Rightarrow> symbol_info option \<Rightarrow> f64" where
  "price_delta_to_usd delta volume si = delta * volume * resolve_contract_size si"

definition atr_profit_threshold_usd :: "f64 \<Rightarrow> symbol_info option \<Rightarrow> f64 \<Rightarrow> f64" where
  "atr_profit_threshold_usd volume si atr =
     (let usd = price_delta_to_usd (pmax atr 0 * BREAKEVEN_ATR_MULTIPLIER) volume si
      in if usd \<le> 0 \<or> isnan usd \<or> isinf64 usd then PInf else usd)"

definition exit_policy_config_value :: "f64 option \<Rightarrow> f64 \<Rightarrow> f64" where
  "exit_policy_config_value raw const = (case raw of
       None \<Rightarrow> const | Some v \<Rightarrow> if \<not> isfinite v \<or> v \<le> 0 then const else v)"

definition holding_seconds :: "py_datetime option \<Rightarrow> py_datetime \<Rightarrow> f64" where
  "holding_seconds entry now = (case entry of
       None \<Rightarrow> 0
     | Some e \<Rightarrow> if aware e \<noteq> aware now then 0 else pmax 0 (total_seconds (instant now - instant e)))"

section \<open>Stops\<close>

definition should_modify_sl :: "prot_config \<Rightarrow> int \<Rightarrow> f64 \<Rightarrow> prot_state \<Rightarrow> bool" where
  "should_modify_sl c t new_sl S \<longleftrightarrow> pc_min_step c \<le> fabs64 (new_sl - getd (pr_last_sl S t) 0)"

definition calculate_breakeven_sl :: "position \<Rightarrow> symbol_info option \<Rightarrow> f64" where
  "calculate_breakeven_sl p si =
     (let off = BREAKEVEN_LOCK_PIPS * resolve_pip_size si;
          raw = (if is_buy p then pos_price_open p + off else pos_price_open p - off)
      in round_nd (resolve_price_digits si) raw)"

definition is_sl_at_or_beyond :: "position \<Rightarrow> f64 \<Rightarrow> f64 \<Rightarrow> bool" where
  "is_sl_at_or_beyond p sl ref \<longleftrightarrow>
     \<not> sl \<le> 0 \<and> (if is_buy p then ref - tiny_qty \<le> sl else sl \<le> ref + tiny_qty)"

definition refresh_protection_state :: "position \<Rightarrow> symbol_info option \<Rightarrow> prot_state \<Rightarrow> prot_state" where
  "refresh_protection_state p si S =
     (let t = pos_ticket p; be = calculate_breakeven_sl p si;
          s = (update_peak (pget t S) (pos_profit p))\<lparr>breakeven_sl_price := be\<rparr>
      in if is_sl_at_or_beyond p (pos_sl p) be then set_flag t (pput t (s\<lparr>was_sl_modified := True\<rparr>) S)
         else pput t s S)"

definition protective_sl_floor :: "int \<Rightarrow> prot_state \<Rightarrow> f64" where
  "protective_sl_floor t S = (let s = pget t S in if \<not> was_sl_modified s then 0 else breakeven_sl_price s)"

definition is_sl_improvement :: "position \<Rightarrow> f64 \<Rightarrow> prot_state \<Rightarrow> bool" where
  "is_sl_improvement p new_sl S =
     (let flr = protective_sl_floor (pos_ticket p) S in
      if new_sl \<le> 0 then False
      else if 0 < pos_sl p \<and> is_buy p \<and> new_sl \<le> pos_sl p then False
      else if 0 < pos_sl p \<and> \<not> is_buy p \<and> pos_sl p \<le> new_sl then False
      else if 0 < flr \<and> is_buy p \<and> new_sl < flr - tiny_qty then False
      else if 0 < flr \<and> \<not> is_buy p \<and> flr + tiny_qty < new_sl then False
      else True)"

section \<open>The breakeven lock\<close>

definition log_throttled_be_failure :: "position \<Rightarrow> f64 \<Rightarrow> f64 \<Rightarrow> prot_state \<Rightarrow> prot_state" where
  "log_throttled_be_failure p sl now S =
     (let s = pget (pos_ticket p) S in
      if now - last_be_failure_log_time s < TELEMETRY_CONSOLE_INTERVAL_SEC then S
      else audit (pos_ticket p) ''BREAKEVEN_FAILED'' sl
             (pput (pos_ticket p) (s\<lparr>last_be_failure_log_time := now\<rparr>) S))"

record be_input =
  bi_symbol :: "symbol_info option"
  bi_atr :: f64
  bi_min_stop_gap :: f64
  bi_tick :: "tick_data option"
  bi_regime :: string
  bi_hold_seconds :: f64
  bi_now :: f64
  bi_now_log :: f64

definition live_spread :: "tick_data option \<Rightarrow> f64" where
  "live_spread tick = (case tick of None \<Rightarrow> 0 | Some t \<Rightarrow> t_ask t - t_bid t)"

text \<open>The question put to the exit policy.\<close>

definition policy_input :: "position \<Rightarrow> be_input \<Rightarrow> prot_state \<Rightarrow> exit_input" where
  "policy_input p b S =
     \<lparr>in_risk_usd = getd (pr_risks S (pos_ticket p)) 0, in_atr_price = or_zero (Some (bi_atr b)),
      in_contract_size = resolve_contract_size (bi_symbol b), in_spread_price = live_spread (bi_tick b),
      in_commission_usd = 0, in_hold_seconds = or_zero (Some (bi_hold_seconds b)), in_mfe_usd = None,
      in_peak_win_usd = Some (or_zero (Some (peak_win_usd (pget (pos_ticket p) S)))),
      in_regime = Some (bi_regime b), in_symbol_info = bi_symbol b\<rparr>"

text \<open>The stop to aim at, if any: the plan of the policy, or the legacy trigger.\<close>

definition policy_target :: "prot_config \<Rightarrow> position \<Rightarrow> be_input \<Rightarrow> prot_state \<Rightarrow> f64 option res \<times> prot_state" where
  "policy_target c p b S =
     (let t = pos_ticket p in
      case exit_plan_of (pc_policy c) p (policy_input p b S) of
        Inl e \<Rightarrow> (raise e, S)
      | Inr plan \<Rightarrow>
          let S = S\<lparr>pr_plans := (pr_plans S)(t \<mapsto> plan)\<rparr> in
          if \<not> should_modify plan \<or> xp_new_sl plan = None then (ret None, S)
          else (ret (xp_new_sl plan),
                pput t ((pget t S)\<lparr>breakeven_sl_price := the (xp_new_sl plan)\<rparr>) S))"

definition legacy_target :: "position \<Rightarrow> be_input \<Rightarrow> prot_state \<Rightarrow> f64 option" where
  "legacy_target p b S =
     (let s = pget (pos_ticket p) S; risk = getd (pr_risks S (pos_ticket p)) 0;
          atr_usd = atr_profit_threshold_usd (pos_volume p) (bi_symbol b) (bi_atr b);
          r_usd = (if 0 < risk then BREAKEVEN_TRIGGER_R * risk else 0)
      in if pos_profit p < pmax BREAKEVEN_PROFIT_USD r_usd \<and> pos_profit p < atr_usd then None
         else Some (if feq (breakeven_sl_price s) 0 then calculate_breakeven_sl p (bi_symbol b)
                    else breakeven_sl_price s))"

definition freeze_gap :: "be_input \<Rightarrow> f64" where
  "freeze_gap b =
     (let point = (case bi_symbol b of None \<Rightarrow> 0 | Some s \<Rightarrow> or_zero (Some (si_point s)));
          gap = or_zero (Some (bi_min_stop_gap b));
          gap = (case bi_symbol b of
                   None \<Rightarrow> gap
                 | Some s \<Rightarrow> pmax gap (min_stop_distance_price (float_of_int (si_stops_level s)) point (Fin 25)))
      in gap + pmax (live_spread (bi_tick b)) (Fin (7 / 4) * point))"

text \<open>The stop to send: capped at the gap from the market, \<open>Inl\<close> when the cap falls back to the
  entry and the attempt is deferred.\<close>

definition cap_stop :: "position \<Rightarrow> be_input \<Rightarrow> f64 \<Rightarrow> f64 + f64" where
  "cap_stop p b sl =
     (case bi_tick b of
        None \<Rightarrow> Inr sl
      | Some t \<Rightarrow>
          if is_buy p \<and> t_bid t - freeze_gap b \<le> sl then
            (let sl = round_nd (resolve_price_digits (bi_symbol b)) (t_bid t - freeze_gap b)
             in if sl \<le> pos_price_open p then Inl sl else Inr sl)
          else if \<not> is_buy p \<and> sl \<le> t_ask t + freeze_gap b then
            (let sl = round_nd (resolve_price_digits (bi_symbol b)) (t_ask t + freeze_gap b)
             in if pos_price_open p \<le> sl then Inl sl else Inr sl)
          else Inr sl)"

definition confirm_be :: "position \<Rightarrow> f64 \<Rightarrow> prot_state \<Rightarrow> prot_state" where
  "confirm_be p sl S =
     (let t = pos_ticket p in
      audit t ''BREAKEVEN_LOCK'' sl
        (set_flag t (pput t ((pget t S)\<lparr>was_sl_modified := True\<rparr>) (set_last_sl t sl S))))"

definition dispatch_be :: "broker \<Rightarrow> position \<Rightarrow> be_input \<Rightarrow> f64 \<Rightarrow> prot_state \<Rightarrow> bool \<times> prot_state" where
  "dispatch_be bk p b sl S =
     (let t = pos_ticket p in
      if is_sl_at_or_beyond p (pos_sl p) sl then
        (False, set_flag t (pput t ((pget t S)\<lparr>was_sl_modified := True\<rparr>) S))
      else case cap_stop p b sl of
        Inl d \<Rightarrow> (False, log_throttled_be_failure p d (bi_now_log b) S)
      | Inr sl \<Rightarrow>
          let S = send (MODIFY t sl (pos_tp p)) S in
          if bk_modify bk t sl (pos_tp p) then (True, confirm_be p sl S)
          else (False, log_throttled_be_failure p sl (bi_now_log b) S))"

definition be_blocked :: "position \<Rightarrow> be_input \<Rightarrow> prot_state \<Rightarrow> bool" where
  "be_blocked p b S \<longleftrightarrow>
     (let s = pget (pos_ticket p) S in
      was_sl_modified s \<or> close_requested s \<or> bi_now b - last_be_attempt_time s < BREAKEVEN_ATTEMPT_COOLDOWN_SEC)"

text \<open>An attempt stamps its time first, whatever comes of it.\<close>

definition be_target :: "prot_config \<Rightarrow> position \<Rightarrow> be_input \<Rightarrow> prot_state \<Rightarrow> f64 option res \<times> prot_state" where
  "be_target c p b S =
     (let t = pos_ticket p; S = pput t ((pget t S)\<lparr>last_be_attempt_time := bi_now b\<rparr>) S
      in if pc_policy_enabled c then policy_target c p b S else (ret (legacy_target p b S), S))"

definition apply_breakeven_lock ::
    "prot_config \<Rightarrow> broker \<Rightarrow> position \<Rightarrow> be_input \<Rightarrow> prot_state \<Rightarrow> bool res \<times> prot_state" where
  "apply_breakeven_lock c bk p b S =
     (let t = pos_ticket p in
      if be_blocked p b S then (ret False, S)
      else case be_target c p b S of
        (Inl e, S) \<Rightarrow> (raise e, S)
      | (Inr None, S) \<Rightarrow> (ret False, S)
      | (Inr (Some sl), S) \<Rightarrow>
          let (ok, S) = dispatch_be bk p b sl (pput t ((pget t S)\<lparr>breakeven_sl_price := sl\<rparr>) S)
          in (ret ok, S))"

section \<open>Profit giveback\<close>

definition maybe_tighten_protective_sl ::
    "prot_config \<Rightarrow> broker \<Rightarrow> position \<Rightarrow> symbol_info option \<Rightarrow> prot_state \<Rightarrow> bool \<times> prot_state" where
  "maybe_tighten_protective_sl c bk p si S =
     (let t = pos_ticket p; s = pget t S;
          move = pos_profit p * fl (85 / 100) / pmax (pos_volume p * resolve_contract_size si) 1;
          candidate = round_nd (resolve_price_digits si)
            (if is_buy p then pos_price_open p + move else pos_price_open p - move)
      in if \<not> was_sl_modified s \<or> peak_win_usd s \<le> 0 \<or> pos_profit p \<le> 0 then (False, S)
         else if \<not> is_sl_improvement p candidate S then (False, S)
         else if \<not> should_modify_sl c t candidate S then (False, S)
         else let S = send (MODIFY t candidate (pos_tp p)) S in
              if bk_modify bk t candidate (pos_tp p) then (True, set_last_sl t candidate (set_flag t S))
              else (False, S))"

fun tier_floor :: "f64 \<Rightarrow> (f64 \<times> f64) list \<Rightarrow> f64 \<Rightarrow> f64" where
  "tier_floor peak_r [] flr = flr"
| "tier_floor peak_r ((r, f) # ts) flr = (if r \<le> peak_r then tier_floor peak_r ts f else flr)"

definition tiered_giveback_floor :: "prot_config \<Rightarrow> f64 \<Rightarrow> f64 \<Rightarrow> (f64 \<times> bool) res" where
  "tiered_giveback_floor c risk_usd peak =
     (let arm = exit_policy_config_value (pc_giveback_arm_r c) TIERED_GIVEBACK_ARM_R
      in if risk_usd \<le> 0 \<or> peak \<le> 0 then ret (PROFIT_GIVEBACK_MIN_RETENTION, True)
         else bindR (py_div peak risk_usd) (\<lambda>peak_r.
           if peak_r < arm then ret (PROFIT_GIVEBACK_MIN_RETENTION, False)
           else ret (tier_floor peak_r TIERED_GIVEBACK_RETENTION_FLOOR PROFIT_GIVEBACK_MIN_RETENTION, True)))"

datatype giveback_reason =
    NO_GIVEBACK | NEGATIVE_PNL_AFTER_PEAK f64 f64 | PROFIT_RETENTION_BREACH f64 f64 f64 f64

definition clamp_score :: "int \<Rightarrow> int" where
  "clamp_score n = max 0 (min 100 n)"

definition evaluate_profit_giveback ::
    "prot_config \<Rightarrow> int \<Rightarrow> f64 \<Rightarrow> int \<Rightarrow> prot_state \<Rightarrow> (int \<times> bool \<times> giveback_reason) res" where
  "evaluate_profit_giveback c t pnl base S =
     (let s = pget t S; peak = peak_win_usd s
      in if peak < PROFIT_GIVEBACK_PEAK_USD then ret (clamp_score base, False, NO_GIVEBACK)
         else bindR (tiered_giveback_floor c (getd (pr_risks S t) 0) peak) (\<lambda>(flr, armed).
           if \<not> armed then ret (clamp_score base, False, NO_GIVEBACK)
           else bindR (retention_ratio s pnl) (\<lambda>retention.
             if pnl < 0 then ret (NEGATIVE_AFTER_PROFIT_HOLD_SCORE, True, NEGATIVE_PNL_AFTER_PEAK peak pnl)
             else if retention < flr then
               ret (clamp_score (base - PROFIT_GIVEBACK_HOLD_SCORE_PENALTY), True,
                    PROFIT_RETENTION_BREACH peak pnl retention flr)
             else ret (clamp_score base, False, NO_GIVEBACK))))"

text \<open>The close is suppressed when a locked stop already defends the position in a volatility
  expansion and the market has not crossed it.\<close>

definition close_suppressed :: "position \<Rightarrow> string option \<Rightarrow> tick_data option \<Rightarrow> protection_state \<Rightarrow> bool" where
  "close_suppressed p regime ref s \<longleftrightarrow>
     regime = Some ''VOLATILITY_EXPANSION'' \<and> was_sl_modified s \<and>
     is_sl_at_or_beyond p (pos_sl p) (breakeven_sl_price s) \<and> \<not> close_requested s \<and>
     \<not> (case ref of None \<Rightarrow> False | Some r \<Rightarrow> if is_buy p then t_bid r \<le> pos_sl p else pos_sl p \<le> t_ask r)"

definition GIVEBACK_MECHANISM :: string where
  "GIVEBACK_MECHANISM = ''PROFIT_GIVEBACK_PROTECTION''"

definition dispatch_close :: "broker \<Rightarrow> position \<Rightarrow> int \<Rightarrow> prot_state \<Rightarrow> prot_state" where
  "dispatch_close bk p score S =
     (let t = pos_ticket p;
          S = audit t GIVEBACK_MECHANISM (pos_sl p) S;
          S = S\<lparr>pr_forced := (pr_forced S)(t \<mapsto> GIVEBACK_MECHANISM)\<rparr>;
          S = send (CLOSE_POSITION t) S
      in if bk_close bk t then
           (pput t ((pget t S)\<lparr>close_requested := True\<rparr>) S)
             \<lparr>pr_hold := (pr_hold S)(t \<mapsto> score), pr_live := pr_live S - {t}\<rparr>
         else audit t ''PROFIT_GIVEBACK_CLOSE_FAILED'' (pos_sl p) (S\<lparr>pr_forced := (pr_forced S)(t := None)\<rparr>))"

definition enforce_profit_giveback_protection ::
    "prot_config \<Rightarrow> broker \<Rightarrow> position \<Rightarrow> int \<Rightarrow> symbol_info option \<Rightarrow> string option \<Rightarrow> tick_data option
       \<Rightarrow> prot_state \<Rightarrow> (int \<times> bool) res \<times> prot_state" where
  "enforce_profit_giveback_protection c bk p hold si regime ref S =
     (let t = pos_ticket p in
      case evaluate_profit_giveback c t (pos_profit p) hold S of
        Inl e \<Rightarrow> (raise e, S)
      | Inr (score, required, reason) \<Rightarrow>
          if \<not> required then (ret (score, False), S)
          else
            let S = pput t ((pget t S)\<lparr>profit_giveback_triggered := True\<rparr>) S in
            if close_suppressed p regime ref (pget t S) then
              (ret (clamp_score score, True), snd (maybe_tighten_protective_sl c bk p si S))
            else if close_requested (pget t S) then (ret (score, True), S)
            else (ret (score, True), dispatch_close bk p score S))"

section \<open>Trailing stops\<close>

definition apply_atr_trailing_stop ::
    "prot_config \<Rightarrow> broker \<Rightarrow> position \<Rightarrow> f64 \<Rightarrow> f64 \<Rightarrow> symbol_info option \<Rightarrow> f64 \<Rightarrow> tick_data option
       \<Rightarrow> prot_state \<Rightarrow> bool \<times> prot_state" where
  "apply_atr_trailing_stop c bk p price atr si min_stop_gap tick S =
     (let t = pos_ticket p; s = pget t S;
          mult = exit_policy_config_value (pc_trail_atr_multiplier c) ATR_TRAILING_MULTIPLIER;
          distance = pmax min_stop_gap (round_nd 2 (atr * mult));
          target = round_nd (resolve_price_digits si) (if is_buy p then price - distance else price + distance);
          too_near = (case tick of
                        None \<Rightarrow> False
                      | Some k \<Rightarrow> 0 < min_stop_gap \<and>
                          (if is_buy p then t_bid k - target else target - t_ask k) < min_stop_gap)
      in if close_requested s \<or> profit_giveback_triggered s then (False, S)
         else if distance \<le> 0 then (False, S)
         else if \<not> is_sl_improvement p target S then (False, S)
         else if too_near then (False, S)
         else if \<not> should_modify_sl c t target S then (False, S)
         else let S = send (MODIFY t target (pos_tp p)) S in
              if bk_modify bk t target (pos_tp p)
              then (True, audit t ''ATR_TRAILING_STOP'' target (set_flag t (set_last_sl t target S)))
              else (False, S))"

text \<open>The lock on the peak profit in the management pass: 70% of a peak of at least 150.\<close>

definition mfe_target :: "position \<Rightarrow> symbol_info option \<Rightarrow> f64 \<Rightarrow> f64 res" where
  "mfe_target p si peak =
     (let move = peak * fl (7 / 10) / pmax (pos_volume p * resolve_contract_size si) 1
      in align_price (if is_buy p then pos_price_open p + move else pos_price_open p - move) None
           (Some (case si of Some s \<Rightarrow> si_digits s | None \<Rightarrow> 2)) ''nearest'')"

definition stop_fits :: "position \<Rightarrow> f64 \<Rightarrow> tick_data \<Rightarrow> f64 \<Rightarrow> bool" where
  "stop_fits p target tick gap \<longleftrightarrow>
     (if is_buy p then pos_sl p < target \<and> gap \<le> t_bid tick - target
      else (feq (pos_sl p) 0 \<or> target < pos_sl p) \<and> gap \<le> target - t_ask tick)"

definition mfe_lock ::
    "prot_config \<Rightarrow> broker \<Rightarrow> position \<Rightarrow> symbol_info option \<Rightarrow> f64 \<Rightarrow> tick_data \<Rightarrow> f64
       \<Rightarrow> prot_state \<Rightarrow> unit res \<times> prot_state" where
  "mfe_lock c bk p si gap tick peak S =
     (if Fin 150 \<le> peak \<and> pos_profit p < peak * fl (7 / 10) then
        (case mfe_target p si peak of
           Inl e \<Rightarrow> (raise e, S)
         | Inr target \<Rightarrow>
             let t = pos_ticket p in
             if stop_fits p target tick gap \<and> is_sl_improvement p target S \<and> should_modify_sl c t target S then
               let S = send (MODIFY t target (pos_tp p)) S in
               (ret (), if bk_modify bk t target (pos_tp p) then set_flag t (set_last_sl t target S) else S)
             else (ret (), S))
      else (ret (), S))"

text \<open>The protection part of the management pass on one position, after the refresh: giveback,
  then breakeven, then the peak lock. The result says whether the rest of the pass is skipped;
  an exception leaves the pass at once.\<close>

record pass_input =
  pi_be :: be_input
  pi_tick :: tick_data
  pi_hold_score :: int
  pi_regime :: "string option"
  pi_ref_tick :: "tick_data option"
  pi_closed :: bool
  pi_peak_profit :: f64

definition protection_chain ::
    "prot_config \<Rightarrow> broker \<Rightarrow> position \<Rightarrow> pass_input \<Rightarrow> prot_state \<Rightarrow> bool res \<times> prot_state" where
  "protection_chain c bk p i S =
     (let b = pi_be i in
      if close_requested (pget (pos_ticket p) S) \<or> pi_closed i then (ret True, S)
      else case enforce_profit_giveback_protection c bk p (pi_hold_score i) (bi_symbol b) (pi_regime i) (pi_ref_tick i) S of
        (Inl e, S) \<Rightarrow> (raise e, S)
      | (Inr (score, active), S) \<Rightarrow>
          if active then (ret True, S)
          else case apply_breakeven_lock c bk p b S of
            (Inl e, S) \<Rightarrow> (raise e, S)
          | (Inr ok, S) \<Rightarrow>
              (case mfe_lock c bk p (bi_symbol b) (bi_min_stop_gap b) (pi_tick i) (pi_peak_profit i) S of
                 (Inl e, S) \<Rightarrow> (raise e, S)
               | (Inr u, S) \<Rightarrow> (ret False, S)))"

definition protection_pass ::
    "prot_config \<Rightarrow> broker \<Rightarrow> position \<Rightarrow> pass_input \<Rightarrow> prot_state \<Rightarrow> bool res \<times> prot_state" where
  "protection_pass c bk p i S = protection_chain c bk p i (refresh_protection_state p (bi_symbol (pi_be i)) S)"

section \<open>Reading the state after an update\<close>

lemma pget_pput: "pget t (pput u s S) = (if t = u then s else pget t S)"
  by (auto simp: pget_def pput_def protection_update_def protection_get_def split: option.splits)

lemma pget_other [simp]:
  "pget t (set_flag u S) = pget t S" "pget t (set_last_sl u sl S) = pget t S"
  "pget t (audit u a sl S) = pget t S" "pget t (send r S) = pget t S"
  "pget t (S\<lparr>pr_forced := f\<rparr>) = pget t S" "pget t (S\<lparr>pr_hold := h\<rparr>) = pget t S"
  "pget t (S\<lparr>pr_live := l\<rparr>) = pget t S" "pget t (S\<lparr>pr_plans := q\<rparr>) = pget t S"
  by (simp_all add: pget_def set_flag_def set_last_sl_def audit_def send_def)

lemma pr_sent_other [simp]:
  "pr_sent (set_flag u S) = pr_sent S" "pr_sent (set_last_sl u sl S) = pr_sent S"
  "pr_sent (audit u a sl S) = pr_sent S" "pr_sent (send r S) = pr_sent S @ [r]"
  "pr_sent (pput u s S) = pr_sent S"
  by (simp_all add: pput_def set_flag_def set_last_sl_def audit_def send_def)

lemma pget_log [simp]:
  "pget t (log_throttled_be_failure p sl now S) =
     (if t = pos_ticket p \<and> \<not> now - last_be_failure_log_time (pget t S) < TELEMETRY_CONSOLE_INTERVAL_SEC
      then (pget t S)\<lparr>last_be_failure_log_time := now\<rparr> else pget t S)"
  by (auto simp: log_throttled_be_failure_def Let_def pget_pput)

lemma pr_sent_log [simp]: "pr_sent (log_throttled_be_failure p sl now S) = pr_sent S"
  by (simp add: log_throttled_be_failure_def Let_def)

section \<open>What the operations send\<close>

text \<open>A stop that tightens: strictly past the broker's stop on the protective side, and not
  behind the floor of a confirmed lock.\<close>

definition tightens :: "position \<Rightarrow> f64 \<Rightarrow> prot_state \<Rightarrow> bool" where
  "tightens p sl S \<longleftrightarrow>
     \<not> sl \<le> 0 \<and> (0 < pos_sl p \<longrightarrow> (if is_buy p then \<not> sl \<le> pos_sl p else \<not> pos_sl p \<le> sl)) \<and>
     (let flr = protective_sl_floor (pos_ticket p) S in
      0 < flr \<longrightarrow> (if is_buy p then \<not> sl < flr - tiny_qty else \<not> flr + tiny_qty < sl))"

lemma is_sl_improvement_tightens: "is_sl_improvement p sl S \<longleftrightarrow> tightens p sl S"
  by (auto simp: is_sl_improvement_def tightens_def Let_def)

definition sends_tighter :: "position \<Rightarrow> prot_state \<Rightarrow> prot_state \<Rightarrow> bool" where
  "sends_tighter p S S' \<longleftrightarrow> pr_sent S' = pr_sent S \<or>
     (\<exists>sl. pr_sent S' = pr_sent S @ [MODIFY (pos_ticket p) sl (pos_tp p)] \<and> tightens p sl S)"

lemma tighten_sends: "sends_tighter p S (snd (maybe_tighten_protective_sl c bk p si S))"
  by (simp add: maybe_tighten_protective_sl_def Let_def sends_tighter_def is_sl_improvement_tightens)

lemma trail_sends: "sends_tighter p S (snd (apply_atr_trailing_stop c bk p price atr si gap tick S))"
  by (simp add: apply_atr_trailing_stop_def Let_def sends_tighter_def is_sl_improvement_tightens split: option.split)

lemma mfe_sends: "sends_tighter p S (snd (mfe_lock c bk p si gap tick peak S))"
  by (simp add: mfe_lock_def Let_def sends_tighter_def is_sl_improvement_tightens split: sum.split)

text \<open>C26: The trailing mechanisms only ever tighten. The dynamic tightening of the giveback
  protection, the ATR trailing stop and the peak-profit lock each send at most one request, it
  is a modification of this very position that keeps its target, and its stop is strictly past
  the stop the broker holds and not behind the floor of a confirmed breakeven lock.\<close>

theorem trailing_only_tightens:
  "sends_tighter p S (snd (maybe_tighten_protective_sl c bk p si S)) \<and>
   sends_tighter p S (snd (apply_atr_trailing_stop c bk p price atr si gap tick S)) \<and>
   sends_tighter p S (snd (mfe_lock c bk p si gap ltick peak S))"
  by (simp add: tighten_sends trail_sends mfe_sends)

section \<open>Runs of the engine\<close>

text \<open>The operations in any order, with any inputs and any answers of the broker.\<close>

datatype prot_event =
    E_REFRESH position "symbol_info option"
  | E_GIVEBACK broker position int "symbol_info option" "string option" "tick_data option"
  | E_BREAKEVEN broker position be_input
  | E_TRAIL broker position f64 f64 "symbol_info option" f64 "tick_data option"
  | E_MFE broker position "symbol_info option" f64 tick_data f64

fun prot_step :: "prot_config \<Rightarrow> prot_state \<Rightarrow> prot_event \<Rightarrow> prot_state" where
  "prot_step c S (E_REFRESH p si) = refresh_protection_state p si S"
| "prot_step c S (E_GIVEBACK bk p hold si regime ref) =
     snd (enforce_profit_giveback_protection c bk p hold si regime ref S)"
| "prot_step c S (E_BREAKEVEN bk p b) = snd (apply_breakeven_lock c bk p b S)"
| "prot_step c S (E_TRAIL bk p price atr si gap tick) = snd (apply_atr_trailing_stop c bk p price atr si gap tick S)"
| "prot_step c S (E_MFE bk p si gap tick peak) = snd (mfe_lock c bk p si gap tick peak S)"

text \<open>The two facts about a ticket that are never withdrawn.\<close>

definition prot_facts :: "int \<Rightarrow> prot_state \<Rightarrow> bool \<times> bool" where
  "prot_facts t S = (was_sl_modified (pget t S), close_requested (pget t S))"

definition facts_below :: "bool \<times> bool \<Rightarrow> bool \<times> bool \<Rightarrow> bool" where
  "facts_below x y \<longleftrightarrow> (fst x \<longrightarrow> fst y) \<and> (snd x \<longrightarrow> snd y)"

lemma facts_refresh: "facts_below (prot_facts t S) (prot_facts t (refresh_protection_state p si S))"
  by (simp add: facts_below_def prot_facts_def refresh_protection_state_def Let_def pget_pput update_peak_def)

lemma facts_tighten: "prot_facts t (snd (maybe_tighten_protective_sl c bk p si S)) = prot_facts t S"
  by (simp add: prot_facts_def maybe_tighten_protective_sl_def Let_def)

lemma facts_trail: "prot_facts t (snd (apply_atr_trailing_stop c bk p price atr si gap tick S)) = prot_facts t S"
  by (simp add: prot_facts_def apply_atr_trailing_stop_def Let_def)

lemma facts_mfe: "prot_facts t (snd (mfe_lock c bk p si gap tick peak S)) = prot_facts t S"
  by (simp add: prot_facts_def mfe_lock_def Let_def split: sum.split)

lemma facts_close: "facts_below (prot_facts t S) (prot_facts t (dispatch_close bk p score S))"
  by (simp add: facts_below_def prot_facts_def dispatch_close_def Let_def pget_pput)

lemma facts_giveback:
  "facts_below (prot_facts t S) (prot_facts t (snd (enforce_profit_giveback_protection c bk p hold si regime ref S)))"
proof -
  let ?u = "pos_ticket p"
  let ?S = "pput ?u ((pget ?u S)\<lparr>profit_giveback_triggered := True\<rparr>) S"
  have "prot_facts t ?S = prot_facts t S" by (simp add: prot_facts_def pget_pput)
  then show ?thesis
    using facts_close [of t ?S bk p] facts_tighten [of t c bk p si ?S]
    by (auto simp: enforce_profit_giveback_protection_def Let_def facts_below_def split: sum.split prod.split)
qed

lemma facts_dispatch_be: "facts_below (prot_facts t S) (prot_facts t (snd (dispatch_be bk p b sl S)))"
  by (simp add: facts_below_def prot_facts_def dispatch_be_def confirm_be_def Let_def pget_pput split: sum.split)

lemma be_target_state:
  "prot_facts t (snd (be_target c p b S)) = prot_facts t S"
  "pr_sent (snd (be_target c p b S)) = pr_sent S"
  "last_be_attempt_time (pget (pos_ticket p) (snd (be_target c p b S))) = bi_now b"
  "t \<noteq> pos_ticket p \<Longrightarrow> pget t (snd (be_target c p b S)) = pget t S"
  by (auto simp: prot_facts_def be_target_def policy_target_def Let_def pget_pput split: sum.split)

text \<open>The three ways a call can go: blocked, no target, or a target dispatched.\<close>

lemma breakeven_cases [case_names blocked no_target dispatched]:
  obtains "be_blocked p b S" "apply_breakeven_lock c bk p b S = (ret False, S)"
  | "\<not> be_blocked p b S" "snd (apply_breakeven_lock c bk p b S) = snd (be_target c p b S)"
      "fst (apply_breakeven_lock c bk p b S) \<noteq> ret True"
  | sl where "\<not> be_blocked p b S" "fst (be_target c p b S) = Inr (Some sl)"
      "snd (apply_breakeven_lock c bk p b S) = snd (dispatch_be bk p b sl
         (pput (pos_ticket p) ((pget (pos_ticket p) (snd (be_target c p b S)))\<lparr>breakeven_sl_price := sl\<rparr>)
           (snd (be_target c p b S))))"
proof (cases "be_blocked p b S")
  case True
  then show ?thesis using that(1) by (simp add: apply_breakeven_lock_def Let_def)
next
  case False
  obtain target S1 where ts: "be_target c p b S = (target, S1)" by (cases "be_target c p b S")
  show ?thesis
  proof (cases "\<exists>sl. target = Inr (Some sl)")
    case True
    then show ?thesis
      using that(3) False ts by (auto simp: apply_breakeven_lock_def Let_def split: prod.split)
  next
    case n: False
    then show ?thesis
      using that(2) False ts
      by (cases target) (auto simp: apply_breakeven_lock_def Let_def ret_def raise_def split: option.splits)
  qed
qed

lemma facts_breakeven: "facts_below (prot_facts t S) (prot_facts t (snd (apply_breakeven_lock c bk p b S)))"
proof (cases rule: breakeven_cases [of p b S c bk])
  case (dispatched sl)
  have "prot_facts t (pput (pos_ticket p) ((pget (pos_ticket p) (snd (be_target c p b S)))\<lparr>breakeven_sl_price := sl\<rparr>)
      (snd (be_target c p b S))) = prot_facts t S"
    using be_target_state(1) [of t c p b S] by (auto simp: prot_facts_def pget_pput)
  then show ?thesis using dispatched(3) facts_dispatch_be by metis
qed (simp_all add: be_target_state facts_below_def)

interpretation protection_facts: monotone_step "prot_step c" "prot_facts t" facts_below for c t
proof
  show "facts_below (prot_facts t S) (prot_facts t (prot_step c S e))" for S e
    using facts_refresh facts_giveback facts_breakeven facts_trail facts_mfe
    by (cases e) (auto simp: facts_below_def)
qed (auto simp: facts_below_def)

lemma be_locked_blocked: "was_sl_modified (pget (pos_ticket p) S) \<Longrightarrow> apply_breakeven_lock c bk p b S = (ret False, S)"
  by (simp add: apply_breakeven_lock_def be_blocked_def Let_def)

lemma confirmed_be_locks:
  assumes "apply_breakeven_lock c bk p b S = (ret True, S1)"
  shows "was_sl_modified (pget (pos_ticket p) S1)"
  using assms
  by (auto simp: apply_breakeven_lock_def dispatch_be_def confirm_be_def Let_def pget_pput ret_def
      split: if_splits sum.splits option.splits prod.splits)

text \<open>A confirmed breakeven modification is the last one. After a call that the broker
  confirmed, whatever the engine does next on any ticket with whatever answers, every later
  call for the same ticket returns without sending anything and changes nothing, also when
  the confirmed stop was only the partial de-risk of the ladder.\<close>

theorem confirmed_lock_is_final:
  assumes "apply_breakeven_lock c bk p b S = (ret True, S1)" and "pos_ticket p' = pos_ticket p"
  shows "apply_breakeven_lock c' bk' p' b' (run (prot_step c') S1 es) = (ret False, run (prot_step c') S1 es)"
proof (rule be_locked_blocked)
  show "was_sl_modified (pget (pos_ticket p') (run (prot_step c') S1 es))"
    using protection_facts.run_below [of "pos_ticket p" S1 c' es] confirmed_be_locks [OF assms(1)] assms(2)
    by (simp add: facts_below_def prot_facts_def)
qed

section \<open>Closing at most once\<close>

definition closes_of :: "int \<Rightarrow> prot_state \<Rightarrow> broker_request list" where
  "closes_of t S = filter (\<lambda>r. r = CLOSE_POSITION t) (pr_sent S)"

lemma pr_sent_refresh [simp]: "pr_sent (refresh_protection_state p si S) = pr_sent S"
  by (simp add: refresh_protection_state_def Let_def)

lemma sends_tighter_closes: "sends_tighter p S S' \<Longrightarrow> closes_of t S' = closes_of t S"
  by (auto simp: sends_tighter_def closes_of_def)

lemma dispatch_be_sends:
  "pr_sent (snd (dispatch_be bk p b sl S)) = pr_sent S \<or>
   (\<exists>sl'. pr_sent (snd (dispatch_be bk p b sl S)) = pr_sent S @ [MODIFY (pos_ticket p) sl' (pos_tp p)])"
  by (simp add: dispatch_be_def confirm_be_def Let_def split: sum.split)

lemma breakeven_sends:
  "pr_sent (snd (apply_breakeven_lock c bk p b S)) = pr_sent S \<or>
   (\<exists>sl. pr_sent (snd (apply_breakeven_lock c bk p b S)) = pr_sent S @ [MODIFY (pos_ticket p) sl (pos_tp p)])"
proof (cases rule: breakeven_cases [of p b S c bk])
  case (dispatched sl)
  let ?S = "pput (pos_ticket p) ((pget (pos_ticket p) (snd (be_target c p b S)))\<lparr>breakeven_sl_price := sl\<rparr>)
      (snd (be_target c p b S))"
  have "pr_sent ?S = pr_sent S" by (simp add: be_target_state)
  then show ?thesis using dispatch_be_sends [of bk p b sl ?S] unfolding dispatched(3) by simp
qed (simp_all add: be_target_state)

lemma giveback_sends:
  "sends_tighter p S (snd (enforce_profit_giveback_protection c bk p hold si regime ref S)) \<or>
   (\<not> close_requested (pget (pos_ticket p) S) \<and>
    pr_sent (snd (enforce_profit_giveback_protection c bk p hold si regime ref S)) =
      pr_sent S @ [CLOSE_POSITION (pos_ticket p)])"
proof -
  let ?u = "pos_ticket p"
  let ?S = "pput ?u ((pget ?u S)\<lparr>profit_giveback_triggered := True\<rparr>) S"
  have "sends_tighter p ?S (snd (maybe_tighten_protective_sl c bk p si ?S))" by (rule tighten_sends)
  moreover have "tightens p sl ?S = tightens p sl S" for sl
    by (simp add: tightens_def protective_sl_floor_def pget_pput Let_def)
  ultimately have m: "sends_tighter p S (snd (maybe_tighten_protective_sl c bk p si ?S))"
    by (simp add: sends_tighter_def)
  have n: "sends_tighter p S S'" if "pr_sent S' = pr_sent S" for S'
    using that by (simp add: sends_tighter_def)
  show ?thesis
    using m by (auto simp: enforce_profit_giveback_protection_def dispatch_close_def Let_def pget_pput n
        split: sum.split prod.split)
qed

lemma closed_step:
  assumes "close_requested (pget t S)"
  shows "closes_of t (prot_step c S e) = closes_of t S"
proof (cases e)
  case (E_REFRESH p si)
  then show ?thesis by (simp add: closes_of_def)
next
  case (E_GIVEBACK bk p hold si regime ref)
  then show ?thesis
    using giveback_sends [of p S c bk hold si regime ref] assms sends_tighter_closes
    by (cases "pos_ticket p = t") (auto simp: closes_of_def)
next
  case (E_BREAKEVEN bk p b)
  then show ?thesis using breakeven_sends [of c bk p b S] by (auto simp: closes_of_def)
next
  case (E_TRAIL bk p price atr si gap tick)
  then show ?thesis using sends_tighter_closes [OF trail_sends] by simp
next
  case (E_MFE bk p si gap tick peak)
  then show ?thesis using sends_tighter_closes [OF mfe_sends] by simp
qed

lemma accepted_close_requested:
  assumes "pr_sent (snd (enforce_profit_giveback_protection c bk p hold si regime ref S)) =
      pr_sent S @ [CLOSE_POSITION (pos_ticket p)]" and "bk_close bk (pos_ticket p)"
  shows "close_requested (pget (pos_ticket p) (snd (enforce_profit_giveback_protection c bk p hold si regime ref S)))"
proof -
  let ?u = "pos_ticket p"
  let ?S = "pput ?u ((pget ?u S)\<lparr>profit_giveback_triggered := True\<rparr>) S"
  have "pr_sent (snd (maybe_tighten_protective_sl c bk p si ?S)) \<noteq> pr_sent S @ [CLOSE_POSITION ?u]"
    using tighten_sends [of p ?S c bk si] by (auto simp: sends_tighter_def)
  then show ?thesis
    using assms by (auto simp: enforce_profit_giveback_protection_def dispatch_close_def Let_def pget_pput
        split: sum.splits prod.splits if_splits)
qed

text \<open>C27: A winner is closed at most once. After the broker accepted the close request of the
  giveback protection for a ticket, no run of the engine, with any positions, inputs and
  answers, ever sends another close request for that ticket.\<close>

theorem accepted_close_is_final:
  assumes "S1 = snd (enforce_profit_giveback_protection c bk p hold si regime ref S)"
    and "pr_sent S1 = pr_sent S @ [CLOSE_POSITION (pos_ticket p)]" and "bk_close bk (pos_ticket p)"
  shows "closes_of (pos_ticket p) (run (prot_step c) S1 es) = closes_of (pos_ticket p) S1"
proof (induction es rule: rev_induct)
  case (snoc e es)
  have "close_requested (pget (pos_ticket p) S1)" using accepted_close_requested assms by simp
  then have "close_requested (pget (pos_ticket p) (run (prot_step c) S1 es))"
    using protection_facts.run_below [of "pos_ticket p" S1 c es] by (simp add: facts_below_def prot_facts_def)
  with snoc show ?case by (simp add: run_snoc closed_step)
qed simp

section \<open>Spacing of the attempts\<close>

definition not_before :: "f64 \<Rightarrow> int \<Rightarrow> prot_event \<Rightarrow> bool" where
  "not_before n t e = (case e of E_BREAKEVEN bk p b \<Rightarrow> pos_ticket p = t \<longrightarrow> n \<le> bi_now b | _ \<Rightarrow> True)"

lemma attempt_time_other [simp]:
  "last_be_attempt_time (pget t (refresh_protection_state p si S)) = last_be_attempt_time (pget t S)"
  "last_be_attempt_time (pget t (snd (maybe_tighten_protective_sl c bk p si S))) = last_be_attempt_time (pget t S)"
  "last_be_attempt_time (pget t (snd (apply_atr_trailing_stop c bk p price atr si gap tick S))) = last_be_attempt_time (pget t S)"
  "last_be_attempt_time (pget t (snd (mfe_lock c bk p si gap ltick peak S))) = last_be_attempt_time (pget t S)"
  "last_be_attempt_time (pget t (dispatch_close bk p score S)) = last_be_attempt_time (pget t S)"
  "last_be_attempt_time (pget t (snd (dispatch_be bk p b sl S))) = last_be_attempt_time (pget t S)"
  by (simp_all add: refresh_protection_state_def maybe_tighten_protective_sl_def apply_atr_trailing_stop_def
      mfe_lock_def dispatch_close_def dispatch_be_def confirm_be_def update_peak_def Let_def pget_pput
      split: sum.split option.split)

lemma attempt_time_giveback [simp]:
  "last_be_attempt_time (pget t (snd (enforce_profit_giveback_protection c bk p hold si regime ref S))) =
   last_be_attempt_time (pget t S)"
  by (simp add: enforce_profit_giveback_protection_def Let_def pget_pput split: sum.split prod.split)

lemma attempt_time_breakeven:
  "last_be_attempt_time (pget t (snd (apply_breakeven_lock c bk p b S))) =
     (if t = pos_ticket p \<and> \<not> be_blocked p b S then bi_now b else last_be_attempt_time (pget t S))"
proof (cases rule: breakeven_cases [of p b S c bk])
  case (dispatched sl)
  then show ?thesis
    by (simp add: dispatched(3) pget_pput be_target_state)
qed (auto simp: be_target_state)

lemma attempt_time_step:
  "n \<le> last_be_attempt_time (pget t S) \<Longrightarrow> not_before n t e \<Longrightarrow>
   n \<le> last_be_attempt_time (pget t (prot_step c S e))"
  by (cases e) (auto simp: attempt_time_breakeven not_before_def)

text \<open>Breakeven attempts for one ticket are at least five seconds apart. Once a call was
  attempted, every later call for the ticket whose clock reading is less than five seconds
  after it returns without sending anything, whatever the engine does in between, as long as
  the clock of the calls in between does not run backwards.\<close>

theorem breakeven_attempts_spaced:
  assumes "\<not> be_blocked p b S" and "pos_ticket p' = pos_ticket p"
    and "isfinite (bi_now b')" and "bi_now b \<noteq> NaN" and "bi_now b' - bi_now b < BREAKEVEN_ATTEMPT_COOLDOWN_SEC"
    and "\<forall>e \<in> set es. not_before (bi_now b) (pos_ticket p) e"
  shows "apply_breakeven_lock c bk' p' b' (run (prot_step c) (snd (apply_breakeven_lock c bk p b S)) es) =
    (ret False, run (prot_step c) (snd (apply_breakeven_lock c bk p b S)) es)"
proof -
  let ?S = "snd (apply_breakeven_lock c bk p b S)"
  have "bi_now b \<le> last_be_attempt_time (pget (pos_ticket p) ?S)"
    using assms(1,4) by (simp add: attempt_time_breakeven f64_le_refl)
  then have "bi_now b \<le> last_be_attempt_time (pget (pos_ticket p) (run (prot_step c) ?S es))"
    using assms(6)
  proof (induction es rule: rev_induct)
    case (snoc e es)
    then show ?case by (auto simp: run_snoc intro: attempt_time_step)
  qed simp
  then have "bi_now b' - last_be_attempt_time (pget (pos_ticket p) (run (prot_step c) ?S es))
      < BREAKEVEN_ATTEMPT_COOLDOWN_SEC"
    using fsub_antimono assms(3,5) by (blast intro: f64_le_less_trans)
  then show ?thesis
    using assms(2) by (simp add: apply_breakeven_lock_def be_blocked_def Let_def)
qed

section \<open>One pass\<close>

text \<open>At most \<open>n\<close> stop modifications of the position, keeping its target.\<close>

definition few_stops :: "nat \<Rightarrow> position \<Rightarrow> prot_state \<Rightarrow> prot_state \<Rightarrow> bool" where
  "few_stops n p S S' \<longleftrightarrow> (\<exists>rs. pr_sent S' = pr_sent S @ rs \<and> length rs \<le> n \<and>
     set rs \<subseteq> {MODIFY (pos_ticket p) sl (pos_tp p) | sl. True})"

lemma few_stops_same: "pr_sent S' = pr_sent S \<Longrightarrow> few_stops n p S S'"
  by (simp add: few_stops_def)

lemma few_stops_tight: "sends_tighter p S S' \<Longrightarrow> few_stops 1 p S S'"
  by (auto simp: few_stops_def sends_tighter_def)

lemma few_stops_be: "few_stops 1 p S (snd (apply_breakeven_lock c bk p b S))"
  using breakeven_sends [of c bk p b S] by (auto simp: few_stops_def)

lemma few_stops_add: "few_stops m p S T \<Longrightarrow> few_stops n p T U \<Longrightarrow> few_stops (m + n) p S U"
  unfolding few_stops_def by (elim exE conjE) (rule exI, auto)

lemma few_stops_up: "few_stops m p S T \<Longrightarrow> m \<le> n \<Longrightarrow> few_stops n p S T"
  unfolding few_stops_def by (elim exE conjE) (rule exI, auto)

lemma inactive_sends_nothing:
  "enforce_profit_giveback_protection c bk p hold si regime ref S = (Inr (score, False), S') \<Longrightarrow> pr_sent S' = pr_sent S"
  by (auto simp: enforce_profit_giveback_protection_def Let_def ret_def raise_def
      split: sum.splits prod.splits if_splits)

text \<open>What one management pass sends. For the position it manages it sends nothing, or
  exactly one close request, or at most two stop modifications that keep the target; a close
  is never mixed with a modification, because the mechanisms of lower priority are skipped.\<close>

theorem pass_requests:
  "\<exists>rs. pr_sent (snd (protection_pass c bk p i S)) = pr_sent S @ rs \<and>
     (rs = [CLOSE_POSITION (pos_ticket p)] \<or>
      length rs \<le> 2 \<and> set rs \<subseteq> {MODIFY (pos_ticket p) sl (pos_tp p) | sl. True})"
proof -
  let ?R = "refresh_protection_state p (bi_symbol (pi_be i)) S"
  obtain r1 S1 where g: "enforce_profit_giveback_protection c bk p (pi_hold_score i) (bi_symbol (pi_be i))
      (pi_regime i) (pi_ref_tick i) ?R = (r1, S1)" by fastforce
  obtain r2 S2 where b: "apply_breakeven_lock c bk p (pi_be i) S1 = (r2, S2)" by fastforce
  obtain r3 S3 where m: "mfe_lock c bk p (bi_symbol (pi_be i)) (bi_min_stop_gap (pi_be i)) (pi_tick i)
      (pi_peak_profit i) S2 = (r3, S3)" by fastforce
  have f1: "few_stops 2 p ?R S1 \<or> pr_sent S1 = pr_sent ?R @ [CLOSE_POSITION (pos_ticket p)]"
    using giveback_sends [of p ?R c bk "pi_hold_score i" "bi_symbol (pi_be i)" "pi_regime i" "pi_ref_tick i"] g
    by (auto intro: few_stops_up [OF few_stops_tight])
  have f2: "few_stops 1 p S1 S2" using few_stops_be [of p S1 c bk "pi_be i"] b by simp
  have f3: "few_stops 1 p S2 S3"
    using few_stops_tight [OF mfe_sends, of p S2 c bk "bi_symbol (pi_be i)" "bi_min_stop_gap (pi_be i)"
        "pi_tick i" "pi_peak_profit i"] m by simp
  have "few_stops 2 p ?R S2 \<and> few_stops 2 p ?R S3" if "r1 = Inr (score, False)" for score
    using few_stops_add [OF few_stops_same [of S1 ?R 0 p] few_stops_up [OF f2, of 2]]
      few_stops_add [OF few_stops_same [of S1 ?R 0 p] few_stops_add [OF f2 f3]] inactive_sends_nothing g that
    by (simp add: numeral_2_eq_2)
  moreover have "snd (protection_pass c bk p i S) \<in> {?R, S1} \<or>
      (\<exists>score. r1 = Inr (score, False)) \<and> snd (protection_pass c bk p i S) \<in> {S2, S3}"
    unfolding protection_pass_def protection_chain_def Let_def g
    by (auto simp: b m split: sum.splits prod.splits if_splits)
  ultimately have "few_stops 2 p ?R (snd (protection_pass c bk p i S)) \<or>
      pr_sent (snd (protection_pass c bk p i S)) = pr_sent ?R @ [CLOSE_POSITION (pos_ticket p)]"
    using f1 few_stops_same [of ?R ?R 2 p] by auto
  then show ?thesis by (auto simp: few_stops_def)
qed

section \<open>The giveback verdict\<close>

lemma clamp_score_range: "0 \<le> clamp_score n \<and> clamp_score n \<le> 100"
  by (auto simp: clamp_score_def)

lemma tiered_floor_total: "\<exists>x. tiered_giveback_floor c risk peak = ret x"
  by (auto simp: tiered_giveback_floor_def Let_def py_div_total)

text \<open>The giveback protection fires exactly on eroded winners. The evaluation never raises,
  its score stays within 0 and 100, and protection is required exactly when the peak profit is
  not below 20, the tier of the peak is armed, and the position is under water or retains less
  of its peak than the floor of the tier.\<close>

theorem giveback_required_iff:
  "\<exists>score req reason. evaluate_profit_giveback c t pnl base S = ret (score, req, reason) \<and>
     0 \<le> score \<and> score \<le> 100 \<and>
     (req \<longleftrightarrow> \<not> peak_win_usd (pget t S) < PROFIT_GIVEBACK_PEAK_USD \<and>
       (\<exists>flr. tiered_giveback_floor c (getd (pr_risks S t) 0) (peak_win_usd (pget t S)) = ret (flr, True) \<and>
              (pnl < 0 \<or> pnl / peak_win_usd (pget t S) < flr)))"
proof (cases "peak_win_usd (pget t S) < PROFIT_GIVEBACK_PEAK_USD")
  case True
  then show ?thesis
    by (intro exI [of _ "clamp_score base"] exI [of _ False] exI [of _ NO_GIVEBACK])
      (simp add: evaluate_profit_giveback_def Let_def clamp_score_range)
next
  case False
  then have "\<not> peak_win_usd (pget t S) \<le> 0"
    by (cases "peak_win_usd (pget t S)") (auto simp: PROFIT_GIVEBACK_PEAK_USD_def zero_f64_Fin)
  then have r: "retention_ratio (pget t S) pnl = ret (pnl / peak_win_usd (pget t S))"
    by (simp add: retention_ratio_def py_div_total)
  obtain flr armed where f: "tiered_giveback_floor c (getd (pr_risks S t) 0) (peak_win_usd (pget t S)) = ret (flr, armed)"
    using tiered_floor_total by (metis surj_pair)
  show ?thesis
    using False clamp_score_range
    by (simp add: evaluate_profit_giveback_def Let_def r f NEGATIVE_AFTER_PROFIT_HOLD_SCORE_def)
qed

section \<open>Where the stop is not defended\<close>

text \<open>After a confirmed partial de-risk the stop is frozen short of the entry. The flag set
  by the partial step stands for a breakeven lock from then on: at the next refresh the floor
  is the breakeven price though the broker holds no such stop, and every tighter stop of a long
  position that still lies below that price is refused by the guard all trailing mechanisms
  share.\<close>

theorem partial_lock_freezes_stop:
  assumes "apply_breakeven_lock c bk p b S = (ret True, S1)" and "pos_ticket p' = pos_ticket p"
    and "is_buy p'" and "0 < calculate_breakeven_sl p' si"
    and "sl < calculate_breakeven_sl p' si - tiny_qty"
  shows "\<not> is_sl_improvement p' sl (refresh_protection_state p' si (run (prot_step c') S1 es))"
proof -
  let ?R = "run (prot_step c') S1 es"
  have "was_sl_modified (pget (pos_ticket p') ?R)"
    using protection_facts.run_below [of "pos_ticket p" S1 c' es] confirmed_be_locks [OF assms(1)] assms(2)
    by (simp add: facts_below_def prot_facts_def)
  then have "protective_sl_floor (pos_ticket p') (refresh_protection_state p' si ?R) = calculate_breakeven_sl p' si"
    by (simp add: protective_sl_floor_def refresh_protection_state_def Let_def pget_pput update_peak_def)
  then show ?thesis using assms(3-5) by (simp add: is_sl_improvement_def Let_def)
qed

definition sample_symbol :: symbol_info where
  "sample_symbol = \<lparr>si_symbol = ''XAUUSD'', si_digits = 2, si_point = Fin (1 / 8), si_tick_size = Fin (1 / 8),
     si_tick_value = Fin 8, si_volume_min = Fin (1 / 8), si_volume_max = Fin 64, si_volume_step = Fin (1 / 8),
     si_stops_level = 0, si_freeze_level = 0, si_trade_contract_size = Fin 64\<rparr>"

definition sample_prot_config :: prot_config where
  "sample_prot_config = \<lparr>pc_min_step = Fin (1 / 8), pc_policy_enabled = True,
     pc_policy = mk_exit_policy (Some sample_exit_config) None, pc_giveback_arm_r = None,
     pc_trail_atr_multiplier = None\<rparr>"

definition sample_prot_state :: "f64 \<Rightarrow> f64 \<Rightarrow> prot_state" where
  "sample_prot_state peak risk = \<lparr>pr_ledger = (\<lambda>_. None)(7 \<mapsto> new_protection\<lparr>peak_win_usd := peak\<rparr>),
     pr_last_sl = (\<lambda>_. None), pr_flags = (\<lambda>_. None), pr_risks = (\<lambda>_. None)(7 \<mapsto> risk), pr_forced = (\<lambda>_. None),
     pr_hold = (\<lambda>_. None), pr_live = {7}, pr_plans = (\<lambda>_. None), pr_audit = [], pr_sent = []\<rparr>"

definition sample_be_input :: "f64 \<Rightarrow> be_input" where
  "sample_be_input bid = \<lparr>bi_symbol = Some sample_symbol, bi_atr = 0, bi_min_stop_gap = 0,
     bi_tick = Some \<lparr>t_symbol = ''XAUUSD'', t_timestamp = utc 0, t_bid = bid, t_ask = bid + Fin (1 / 8), t_last = bid, t_volume = 0, t_flags = 0\<rparr>,
     bi_regime = '''', bi_hold_seconds = Fin 60, bi_now = Fin 100, bi_now_log = Fin 100\<rparr>"


abbreviation yes_broker :: broker where
  "yes_broker \<equiv> \<lparr>bk_modify = (\<lambda>_ _ _. True), bk_close = (\<lambda>_. True)\<rparr>"

lemma sample_partial:
  "fst (apply_breakeven_lock sample_prot_config yes_broker sample_position (sample_be_input (Fin (8025 / 4)))
     (sample_prot_state (Fin 900) (Fin 1024))) = ret True"
  by code_simp

abbreviation partial_done :: prot_state where
  "partial_done \<equiv> snd (apply_breakeven_lock sample_prot_config yes_broker sample_position
     (sample_be_input (Fin (8025 / 4))) (sample_prot_state (Fin 900) (Fin 1024)))"

lemma sample_partial_pair:
  "apply_breakeven_lock sample_prot_config yes_broker sample_position (sample_be_input (Fin (8025 / 4)))
     (sample_prot_state (Fin 900) (Fin 1024)) = (ret True, partial_done)"
  using sample_partial by (metis prod.collapse)

lemma confirmed_lock_is_final_witness:
  "apply_breakeven_lock sample_prot_config yes_broker sample_position (sample_be_input (Fin 2040)) partial_done =
     (ret False, partial_done)"
  using confirmed_lock_is_final [OF sample_partial_pair refl, where es = "[]"] by simp

lemma partial_lock_freezes_stop_witness:
  "\<not> is_sl_improvement (sample_position\<lparr>pos_sl := Fin 1992\<rparr>) (Fin 1996)
      (refresh_protection_state (sample_position\<lparr>pos_sl := Fin 1992\<rparr>) (Some sample_symbol) partial_done)"
proof -
  let ?p = "sample_position\<lparr>pos_sl := Fin 1992\<rparr>"
  have b: "0 < calculate_breakeven_sl ?p (Some sample_symbol)"
    "Fin 1996 < calculate_breakeven_sl ?p (Some sample_symbol) - tiny_qty"
    by code_simp+
  have p: "pos_ticket ?p = pos_ticket sample_position" "is_buy ?p"
    by (simp_all add: sample_position_def is_buy_def)
  show ?thesis
    using partial_lock_freezes_stop [OF sample_partial_pair p b, of sample_prot_config "[]"] by simp
qed

lemma breakeven_attempts_spaced_witness:
  "fst (apply_breakeven_lock sample_prot_config yes_broker sample_position (sample_be_input (Fin 2040)\<lparr>bi_now := Fin 104\<rparr>)
     partial_done) = ret False"
proof -
  have b: "\<not> be_blocked sample_position (sample_be_input (Fin (8025 / 4))) (sample_prot_state (Fin 900) (Fin 1024))"
    by code_simp
  have t: "bi_now (sample_be_input (Fin 2040)\<lparr>bi_now := Fin 104\<rparr>) - bi_now (sample_be_input (Fin (8025 / 4)))
      < BREAKEVEN_ATTEMPT_COOLDOWN_SEC"
    by code_simp
  show ?thesis
    using breakeven_attempts_spaced [OF b _ _ _ t, of sample_position "[]" sample_prot_config yes_broker yes_broker]
    by (simp add: sample_be_input_def)
qed

lemma accepted_close_is_final_witness:
  "closes_of 7 (run (prot_step sample_prot_config)
     (snd (enforce_profit_giveback_protection sample_prot_config yes_broker sample_position 90 (Some sample_symbol)
        None None (sample_prot_state (Fin 2000) (Fin 1024))))
     [E_GIVEBACK yes_broker sample_position 90 (Some sample_symbol) None None]) = [CLOSE_POSITION 7]"
proof -
  let ?S = "sample_prot_state (Fin 2000) (Fin 1024)"
  let ?S1 = "snd (enforce_profit_giveback_protection sample_prot_config yes_broker sample_position 90
      (Some sample_symbol) None None ?S)"
  have s: "pr_sent ?S1 = [CLOSE_POSITION 7]" by code_simp
  then have c: "pr_sent ?S1 = pr_sent ?S @ [CLOSE_POSITION (pos_ticket sample_position)]"
    by (simp add: sample_prot_state_def sample_position_def)
  have k: "bk_close yes_broker (pos_ticket sample_position)" by simp
  have p: "pos_ticket sample_position = 7" by (simp add: sample_position_def)
  have "closes_of 7 ?S1 = [CLOSE_POSITION 7]" using s by (simp add: closes_of_def)
  then show ?thesis by (rule trans [OF accepted_close_is_final [OF refl c k, unfolded p]])
qed

text \<open>The breakeven path may loosen a stop. A target inside the freeze gap is capped at the
  gap from the market, and the capped price is compared with the entry only: in the pass below
  a long position with entry 2000 whose stop already stands at 2000.375 has its stop moved back
  to 2000.25.\<close>

theorem breakeven_may_loosen:
  "\<exists>p i S. pos_sl p = Fin (16003 / 8) \<and> is_buy p \<and> pos_price_open p = Fin 2000 \<and> pr_sent S = [] \<and>
     pr_sent (snd (protection_pass sample_prot_config yes_broker p i S)) = [MODIFY 7 (Fin (8001 / 4)) (Fin 2050)] \<and>
     Fin (8001 / 4) < pos_sl p"
proof -
  let ?p = "sample_position\<lparr>pos_sl := Fin (16003 / 8), pos_profit := Fin 230\<rparr>"
  let ?b = "sample_be_input (Fin (64115 / 32))"
  let ?i = "\<lparr>pi_be = ?b, pi_tick = the (bi_tick ?b), pi_hold_score = 90, pi_regime = None, pi_ref_tick = None,
      pi_closed = False, pi_peak_profit = Fin 256\<rparr>"
  let ?S = "sample_prot_state (Fin 256) (Fin 128)"
  have "pr_sent (snd (protection_pass sample_prot_config yes_broker ?p ?i ?S)) = [MODIFY 7 (Fin (8001 / 4)) (Fin 2050)]"
    by code_simp
  then show ?thesis
    by (intro exI [of _ ?p] exI [of _ ?i] exI [of _ ?S])
      (simp add: sample_position_def is_buy_def sample_prot_state_def)
qed

end
