(* ===== verification/PyMath.thy ===== *)
theory PyMath
  imports PyNum
begin

text \<open>
  What the modelled code uses of Python's \<^verbatim>\<open>math\<close> module. The square root is the correctly
  rounded one of IEEE-754 and is defined here. The logarithm and the hyperbolic tangent are
  those of the platform's C library, which fixes no exact result: they are fields of a record
  that the operations take as an argument, with the documented ranges as \<open>math_ok\<close>.
\<close>

section \<open>The square root\<close>

text \<open>The integer square root, two bits at a time.\<close>

function isqrt :: "int \<Rightarrow> int" where
  "isqrt n = (if n \<le> 0 then 0 else
     let s = 2 * isqrt (n div 4) in if (s + 1) * (s + 1) \<le> n then s + 1 else s)"
  by pat_completeness auto
termination
  by (relation "measure nat") auto

declare isqrt.simps [simp del]

lemma isqrt_nonneg: "0 \<le> isqrt n"
proof (induction n rule: isqrt.induct)
  case (1 n)
  then show ?case by (subst isqrt.simps) (simp add: Let_def)
qed

lemma isqrt_bounds: "0 \<le> n \<Longrightarrow> isqrt n * isqrt n \<le> n \<and> n < (isqrt n + 1) * (isqrt n + 1)"
proof (induction n rule: isqrt.induct)
  case (1 n)
  show ?case
  proof (cases "n = 0")
    case True
    then show ?thesis by (simp add: isqrt.simps)
  next
    case False
    let ?k = "isqrt (n div 4)"
    have IH: "?k * ?k \<le> n div 4" "n div 4 < (?k + 1) * (?k + 1)" using 1 False by auto
    have eq: "isqrt n = (if (2 * ?k + 1) * (2 * ?k + 1) \<le> n then 2 * ?k + 1 else 2 * ?k)"
      using 1 False by (subst isqrt.simps) (simp add: Let_def)
    have "4 * (?k * ?k) \<le> n" using IH(1) by linarith
    moreover have "n < 4 * ((?k + 1) * (?k + 1))" using IH(2) by linarith
    ultimately show ?thesis by (simp add: eq algebra_simps)
  qed
qed

text \<open>The square root of a positive number as a multiple of the spacing at the result.\<close>

definition sqrt_ulp :: "rat \<Rightarrow> int" where
  "sqrt_ulp x = expo x div 2 - 52"

definition sqrt_mant :: "rat \<Rightarrow> int" where
  "sqrt_mant x = (let y = x / pow2 (2 * sqrt_ulp x); n = isqrt \<lfloor>y\<rfloor>; h = of_int (n * n + n) + 1 / 4
     in if y < h then n else if h < y then n + 1 else if even n then n else n + 1)"

fun sqrt64 :: "f64 \<Rightarrow> f64 res" where
  "sqrt64 (Fin r) = (if r < 0 then raise ValueError else if r = 0 then ret (Fin 0)
                     else ret (Fin (of_int (sqrt_mant r) * pow2 (sqrt_ulp r))))"
| "sqrt64 PInf = ret PInf"
| "sqrt64 NaN = ret NaN"
| "sqrt64 NInf = raise ValueError"

lemma sqrt_mant_bounds:
  assumes "0 < x"
  defines "y \<equiv> x / pow2 (2 * sqrt_ulp x)" and "m \<equiv> (of_int (sqrt_mant x) :: rat)"
  shows "0 \<le> m" and "y \<le> (m + 1 / 2) * (m + 1 / 2)" and "1 \<le> m \<Longrightarrow> (m - 1 / 2) * (m - 1 / 2) \<le> y"
proof -
  let ?n = "isqrt \<lfloor>y\<rfloor>"
  have y: "0 \<le> y" using assms(1) unfolding y_def by simp
  have b: "?n * ?n \<le> \<lfloor>y\<rfloor>" "\<lfloor>y\<rfloor> + 1 \<le> (?n + 1) * (?n + 1)"
    using isqrt_bounds [of "\<lfloor>y\<rfloor>"] y by auto
  define N where "N = (of_int ?n :: rat)"
  have N: "0 \<le> N" unfolding N_def using isqrt_nonneg by simp
  have "of_int (?n * ?n) \<le> y" using b(1) by linarith
  then have lo: "N * N \<le> y" unfolding N_def by simp
  have "y < of_int ((?n + 1) * (?n + 1))" using b(2) by linarith
  then have hi: "y < (N + 1) * (N + 1)" unfolding N_def by simp
  have c: "m = N \<and> y \<le> N * N + N + 1 / 4 \<or> m = N + 1 \<and> N * N + N + 1 / 4 \<le> y"
    unfolding m_def N_def sqrt_mant_def y_def [symmetric] Let_def by auto
  then show "0 \<le> m" using N by auto
  show "y \<le> (m + 1 / 2) * (m + 1 / 2)"
    using c lo hi N by (auto simp: algebra_simps)
  show "(m - 1 / 2) * (m - 1 / 2) \<le> y" if "1 \<le> m"
    using c lo hi N that by (auto simp: algebra_simps)
qed

lemma sqrt64_total: "0 \<le> x \<or> x = NaN \<Longrightarrow> \<exists>y. sqrt64 x = ret y \<and> (0 \<le> y \<or> x = NaN \<and> y = NaN)"
proof (cases x)
  case (Fin r)
  assume "0 \<le> x \<or> x = NaN"
  then show ?thesis
    using Fin sqrt_mant_bounds(1) [of r] by (auto simp: zero_f64_Fin)
qed (auto simp: zero_f64_Fin)

lemma half_scale: "((m::rat) + 1 / 2) * (m + 1 / 2) * (u * u) = (m * u + u / 2) * (m * u + u / 2)"
  by (simp add: algebra_simps add_divide_distrib)

text \<open>The result is within half a unit in the last place of the exact root.\<close>

lemma sqrt64_error:
  assumes "0 < r" and "sqrt64 (Fin r) = ret (Fin s)"
  shows "r \<le> (s + pow2 (sqrt_ulp r) / 2) * (s + pow2 (sqrt_ulp r) / 2)"
proof -
  let ?u = "pow2 (sqrt_ulp r)" and ?m = "(of_int (sqrt_mant r) :: rat)"
  have s: "s = ?m * ?u" using assms by simp
  have "pow2 (2 * sqrt_ulp r) = ?u * ?u" unfolding mult_2 by (rule pow2_add)
  then have "r / (?u * ?u) \<le> (?m + 1 / 2) * (?m + 1 / 2)" using sqrt_mant_bounds(2) [OF assms(1)] by (simp only:)
  moreover have "0 < ?u * ?u" by simp
  ultimately have "r \<le> (?m + 1 / 2) * (?m + 1 / 2) * (?u * ?u)" by (simp only: pos_divide_le_eq)
  also have "\<dots> = (s + ?u / 2) * (s + ?u / 2)" unfolding s by (rule half_scale)
  finally show ?thesis .
qed

lemma sqrt64_samples:
  "sqrt64 (Fin 4) = ret (Fin 2)" "sqrt64 (Fin (9 / 64)) = ret (Fin (3 / 8))" "sqrt64 (Fin (- 1)) = raise ValueError"
  by code_simp+

section \<open>Logarithm and hyperbolic tangent\<close>

record math_lib =
  ml_log :: "f64 \<Rightarrow> f64"
  ml_log1p :: "f64 \<Rightarrow> f64"
  ml_tanh :: "f64 \<Rightarrow> f64"

text \<open>\<^verbatim>\<open>math.log\<close> raises on zero and below; \<^verbatim>\<open>math.log1p\<close> at minus one and below.\<close>

definition py_log :: "math_lib \<Rightarrow> f64 \<Rightarrow> f64 res" where
  "py_log L x = (if x \<le> 0 then raise ValueError else ret (ml_log L x))"

definition py_log1p :: "math_lib \<Rightarrow> f64 \<Rightarrow> f64 res" where
  "py_log1p L x = (if x \<le> Fin (- 1) then raise ValueError else ret (ml_log1p L x))"

text \<open>
  The documented ranges: the tangent of a number lies in \<open>[-1, 1]\<close> and keeps its sign, the
  logarithm of \<open>1 + x\<close> is not negative for \<open>x \<ge> 0\<close>, and a NaN stays a NaN.
\<close>

definition math_ok :: "math_lib \<Rightarrow> bool" where
  "math_ok L \<longleftrightarrow> (\<forall>x. x \<noteq> NaN \<longrightarrow> Fin (- 1) \<le> ml_tanh L x \<and> ml_tanh L x \<le> 1)
     \<and> (\<forall>x. 0 \<le> x \<longrightarrow> 0 \<le> ml_tanh L x) \<and> (\<forall>x. 0 \<le> x \<longrightarrow> 0 \<le> ml_log1p L x)
     \<and> ml_tanh L NaN = NaN \<and> ml_log L NaN = NaN \<and> ml_log1p L NaN = NaN"

lemma math_okD:
  assumes "math_ok L"
  shows "x \<noteq> NaN \<Longrightarrow> Fin (- 1) \<le> ml_tanh L x" "x \<noteq> NaN \<Longrightarrow> ml_tanh L x \<le> 1"
    "0 \<le> x \<Longrightarrow> 0 \<le> ml_tanh L x" "0 \<le> x \<Longrightarrow> 0 \<le> ml_log1p L x"
  using assms by (auto simp: math_ok_def)

text \<open>A coarse library with those ranges, for evaluation on concrete inputs.\<close>

definition step_math :: math_lib where
  "step_math = \<lparr>ml_log = (\<lambda>x. if x = NaN then NaN else x - 1), ml_log1p = (\<lambda>x. x),
     ml_tanh = (\<lambda>x. if x = NaN then NaN else pmin 1 (pmax (Fin (- 1)) x))\<rparr>"

lemma step_math_ok: "math_ok step_math"
proof -
  have "Fin (- 1) \<le> pmin 1 (pmax (Fin (- 1)) x) \<and> pmin 1 (pmax (Fin (- 1)) x) \<le> 1 \<and>
        (0 \<le> x \<longrightarrow> 0 \<le> pmin 1 (pmax (Fin (- 1)) x))" if "x \<noteq> NaN" for x
    using that by (cases x) (auto simp: pmin_def pmax_def zero_f64_Fin one_f64_Fin)
  then show ?thesis by (auto simp: math_ok_def step_math_def)
qed

end
