(* ===== verification/RegimeClassifier.thy ===== *)
theory RegimeClassifier
  imports PyMath PyTime Domain
begin

text \<open>
  \<^verbatim>\<open>features/regime_classifier.py\<close>: the market regime engine. A rolling window of ticks in
  three ring buffers with running sums gives the metrics; rules with Schmitt triggers propose a
  regime; a hysteresis gate decides whether it replaces the stable one. The buffers are
  lists, oldest first. The ISO text of a timestamp is kept as the converted instant.
\<close>

section \<open>Regimes\<close>

datatype regime_type =
    MACRO_NEWS_FREEZE | HIGH_SPREAD_CHOP | VOLATILITY_EXPANSION | TRENDING_MOMENTUM | RANGING_MEAN_REVERSION

datatype execution_type = FREEZE_ALL | LIMIT_ONLY | PASSIVE_LIMIT | IOC_MARKET | HYBRID_LIMIT_STOP

datatype regime_reason =
    R_WARMUP | R_MACRO_NEWS | R_SPREAD_SCHMITT | R_RV_SPIKE | R_TICK_DENSITY | R_OFI_TREND_ALIGN
  | R_DEFAULT_RANGE | R_HYSTERESIS_HOLD | R_HYSTERESIS_MARGIN

record market_regime_state =
  mr_symbol :: string
  mr_timestamp :: py_datetime
  mr_type :: regime_type
  mr_probability :: f64
  mr_order_flow_imbalance :: f64
  mr_realized_volatility :: f64
  mr_tick_velocity :: f64
  mr_spread_usd :: f64
  mr_news_active :: bool
  mr_execution :: execution_type
  mr_reason :: regime_reason

text \<open>The validators of the model: a probability and a signed unit imbalance.\<close>

definition mk_regime_state :: "market_regime_state \<Rightarrow> market_regime_state res" where
  "mk_regime_state m =
     (if 0 \<le> mr_probability m \<and> mr_probability m \<le> 1
         \<and> Fin (- 1) \<le> mr_order_flow_imbalance m \<and> mr_order_flow_imbalance m \<le> 1
      then ret m else raise ValueError)"

section \<open>The classifier\<close>

record classifier_config =
  cc_symbol :: string
  cc_rolling_seconds :: int
  cc_buffer :: nat
  cc_chop_enter :: f64
  cc_chop_exit :: f64
  cc_rv_enter :: f64
  cc_rv_exit :: f64
  cc_tv_enter :: f64
  cc_tv_exit :: f64
  cc_ofi_trend :: f64
  cc_price_trend :: f64
  cc_rv_floor :: f64
  cc_min_hold :: f64
  cc_margin :: f64
  cc_min_ticks :: int
  cc_top_k :: nat

definition default_classifier_config :: classifier_config where
  "default_classifier_config = \<lparr>cc_symbol = ''XAUUSD'', cc_rolling_seconds = 300, cc_buffer = 6000,
     cc_chop_enter = fl (45 / 100), cc_chop_exit = fl (30 / 100), cc_rv_enter = fl (13 / 10000),
     cc_rv_exit = fl (10 / 10000), cc_tv_enter = Fin 20, cc_tv_exit = Fin 15, cc_ofi_trend = fl (40 / 100),
     cc_price_trend = fl (10 / 10000), cc_rv_floor = fl (4 / 10000), cc_min_hold = Fin 4,
     cc_margin = fl (10 / 100), cc_min_ticks = 15, cc_top_k = 5\<rparr>"

record classifier =
  rc_cfg :: classifier_config
  rc_ts :: "f64 list"
  rc_log_ret :: "f64 list"
  rc_ofi :: "f64 list"
  rc_sum_ret :: f64
  rc_sum_sq_ret :: f64
  rc_sum_ofi :: f64
  rc_prev_bid :: f64
  rc_prev_ask :: f64
  rc_prev_mid :: f64
  rc_stable :: "regime_type option"
  rc_stable_prob :: f64
  rc_stable_since :: f64
  rc_last_logged :: "regime_type option"
  rc_last_spread :: f64
  rc_last_rv :: f64
  rc_last_vel :: f64
  rc_last_ofi :: f64

definition mk_classifier :: "classifier_config \<Rightarrow> classifier" where
  "mk_classifier c = \<lparr>rc_cfg = c, rc_ts = [], rc_log_ret = [], rc_ofi = [], rc_sum_ret = 0, rc_sum_sq_ret = 0,
     rc_sum_ofi = 0, rc_prev_bid = 0, rc_prev_ask = 0, rc_prev_mid = 0, rc_stable = None, rc_stable_prob = 0,
     rc_stable_since = 0, rc_last_logged = None, rc_last_spread = 0, rc_last_rv = 0, rc_last_vel = 0, rc_last_ofi = 0\<rparr>"

section \<open>The rolling window\<close>

text \<open>\<^verbatim>\<open>append\<close> on a \<^verbatim>\<open>deque(maxlen=m)\<close> drops from the left what does not fit.\<close>

definition ring_append :: "nat \<Rightarrow> 'a list \<Rightarrow> 'a \<Rightarrow> 'a list" where
  "ring_append m xs x = List.drop (Suc (length xs) - m) (xs @ [x])"

definition ring_push :: "classifier \<Rightarrow> f64 \<Rightarrow> f64 \<Rightarrow> f64 \<Rightarrow> classifier" where
  "ring_push s now_sec lr imb =
     (let m = cc_buffer (rc_cfg s)
      in s\<lparr>rc_ts := ring_append m (rc_ts s) now_sec, rc_log_ret := ring_append m (rc_log_ret s) lr,
           rc_ofi := ring_append m (rc_ofi s) imb, rc_sum_ret := rc_sum_ret s + lr,
           rc_sum_sq_ret := rc_sum_sq_ret s + lr * lr, rc_sum_ofi := rc_sum_ofi s + imb\<rparr>)"

text \<open>One round of the eviction loop; \<^verbatim>\<open>popleft\<close> on an empty buffer raises.\<close>

definition ring_pop :: "classifier \<Rightarrow> classifier res" where
  "ring_pop s = (case (rc_log_ret s, rc_ofi s) of
       (r # rs, v # vs) \<Rightarrow>
         ret (s\<lparr>rc_ts := tl (rc_ts s), rc_log_ret := rs, rc_ofi := vs, rc_sum_ret := rc_sum_ret s - r,
                rc_sum_sq_ret := rc_sum_sq_ret s - r * r, rc_sum_ofi := rc_sum_ofi s - v\<rparr>)
     | _ \<Rightarrow> raise IndexError)"

fun evict_loop :: "nat \<Rightarrow> f64 \<Rightarrow> classifier \<Rightarrow> classifier res" where
  "evict_loop 0 cutoff s = ret s"
| "evict_loop (Suc n) cutoff s =
     (case rc_ts s of
        [] \<Rightarrow> ret s
      | t # _ \<Rightarrow> if t < cutoff then bindR (ring_pop s) (evict_loop n cutoff) else ret s)"

text \<open>The loop runs at most once per buffered tick.\<close>

definition ring_evict :: "classifier \<Rightarrow> f64 \<Rightarrow> classifier res" where
  "ring_evict s now_sec =
     evict_loop (length (rc_ts s)) (now_sec - float_of_int (cc_rolling_seconds (rc_cfg s))) s"

section \<open>Order flow\<close>

definition sum_volumes :: "(f64 \<times> f64) list \<Rightarrow> f64" where
  "sum_volumes levels = foldl (\<lambda>acc (_, v). acc + v) 0 levels"

definition depth_levels :: "string \<Rightarrow> (string \<times> (f64 \<times> f64) list) list \<Rightarrow> (f64 \<times> f64) list" where
  "depth_levels k d = (case map_of d k of None \<Rightarrow> [] | Some xs \<Rightarrow> xs)"

definition depth_imbalance :: "nat \<Rightarrow> (string \<times> (f64 \<times> f64) list) list \<Rightarrow> f64 option" where
  "depth_imbalance k d =
     (let bids = depth_levels ''bids'' d; asks = depth_levels ''asks'' d
      in if bids = [] \<or> asks = [] then None
         else let tb = sum_volumes (take k bids); ta = sum_volumes (take k asks); tot = tb + ta
           in if 0 < tot then Some ((tb - ta) / tot) else None)"

definition compute_ofi ::
  "math_lib \<Rightarrow> classifier \<Rightarrow> f64 \<Rightarrow> f64 \<Rightarrow> f64 \<Rightarrow> (string \<times> (f64 \<times> f64) list) list option \<Rightarrow> f64 res" where
  "compute_ofi L s bid ask volume level2 =
     (case Option.bind level2 (depth_imbalance (cc_top_k (rc_cfg s))) of
        Some v \<Rightarrow> ret v
      | None \<Rightarrow>
          bindR (py_log1p L (pmax volume 1)) (\<lambda>l.
            let norm_vol = ml_tanh L (l / Fin 3); mid = (bid + ask) * Fin (1 / 2)
            in ret (if rc_prev_bid s < bid then 1 * norm_vol
                    else if ask < rc_prev_ask s then Fin (- 1) * norm_vol
                    else if rc_prev_mid s < mid then Fin (1 / 2) * norm_vol
                    else if mid < rc_prev_mid s then Fin (- (1 / 2)) * norm_vol
                    else 0)))"

section \<open>The candidate regime\<close>

definition exec_for :: "regime_type \<Rightarrow> execution_type" where
  "exec_for r = (case r of
       MACRO_NEWS_FREEZE \<Rightarrow> FREEZE_ALL
     | HIGH_SPREAD_CHOP \<Rightarrow> FREEZE_ALL
     | VOLATILITY_EXPANSION \<Rightarrow> HYBRID_LIMIT_STOP
     | TRENDING_MOMENTUM \<Rightarrow> IOC_MARKET
     | RANGING_MEAN_REVERSION \<Rightarrow> PASSIVE_LIMIT)"

type_synonym regime_call = "regime_type \<times> f64 \<times> execution_type \<times> regime_reason"

definition in_regime :: "classifier \<Rightarrow> regime_type \<Rightarrow> bool" where
  "in_regime s r \<longleftrightarrow> rc_stable s = Some r"

definition chop_fires :: "classifier \<Rightarrow> f64 \<Rightarrow> bool" where
  "chop_fires s spread \<longleftrightarrow>
     (\<not> in_regime s HIGH_SPREAD_CHOP \<and> cc_chop_enter (rc_cfg s) \<le> spread) \<or>
     (in_regime s HIGH_SPREAD_CHOP \<and> cc_chop_exit (rc_cfg s) \<le> spread)"

definition chop_prob :: "classifier_config \<Rightarrow> f64 \<Rightarrow> f64" where
  "chop_prob c spread = (let over = pmax 0 (spread - cc_chop_enter c)
     in pmin (fl (99 / 100)) (fl (80 / 100) + over * Fin (1 / 2)))"

definition rv_fires :: "classifier \<Rightarrow> f64 \<Rightarrow> bool" where
  "rv_fires s rv \<longleftrightarrow> (if \<not> in_regime s VOLATILITY_EXPANSION then cc_rv_enter (rc_cfg s) \<le> rv
                      else cc_rv_exit (rc_cfg s) \<le> rv)"

definition tv_fires :: "classifier \<Rightarrow> f64 \<Rightarrow> bool" where
  "tv_fires s tv \<longleftrightarrow> (if \<not> in_regime s VOLATILITY_EXPANSION then cc_tv_enter (rc_cfg s) \<le> tv
                      else cc_tv_exit (rc_cfg s) \<le> tv)"

definition expand_call :: "classifier_config \<Rightarrow> f64 \<Rightarrow> f64 \<Rightarrow> regime_call" where
  "expand_call c rv tv =
     (let rv_ratio = (if 0 < cc_rv_enter c then rv / cc_rv_enter c else 1);
          tv_ratio = (if 0 < cc_tv_enter c then tv / cc_tv_enter c else 1);
          score = pmax rv_ratio tv_ratio;
          prob = pmin (fl (95 / 100)) (fl (55 / 100) + (pmin score (Fin (5 / 2)) - 1) * Fin (1 / 4))
      in (VOLATILITY_EXPANSION, prob, HYBRID_LIMIT_STOP,
          if tv_ratio \<le> rv_ratio then R_RV_SPIKE else R_TICK_DENSITY))"

definition trend_fires :: "classifier \<Rightarrow> f64 \<Rightarrow> f64 \<Rightarrow> bool" where
  "trend_fires s rv imb \<longleftrightarrow>
     (cc_price_trend (rc_cfg s) \<le> fabs64 (rc_sum_ret s) \<or> cc_ofi_trend (rc_cfg s) \<le> fabs64 imb)
     \<and> cc_rv_floor (rc_cfg s) \<le> rv"

definition trend_prob :: "classifier \<Rightarrow> f64 \<Rightarrow> f64" where
  "trend_prob s imb = pmin (fl (95 / 100))
     (fl (60 / 100) + pmax (fabs64 (rc_sum_ret s) * Fin 200) (fabs64 imb * fl (35 / 100)))"

definition range_prob :: "classifier_config \<Rightarrow> f64 \<Rightarrow> f64 \<Rightarrow> f64" where
  "range_prob c rv imb =
     (let rv_norm = (if 0 < cc_rv_enter c then pmin (rv / cc_rv_enter c) 1 else 0)
      in pmax (fl (60 / 100)) (1 - fabs64 imb - rv_norm * fl (60 / 100)))"

definition candidate_regime :: "classifier \<Rightarrow> bool \<Rightarrow> f64 \<Rightarrow> f64 \<Rightarrow> f64 \<Rightarrow> f64 \<Rightarrow> regime_call" where
  "candidate_regime s news spread rv tv imb =
     (let c = rc_cfg s
      in if news then (MACRO_NEWS_FREEZE, fl (99 / 100), FREEZE_ALL, R_MACRO_NEWS)
         else if chop_fires s spread then (HIGH_SPREAD_CHOP, chop_prob c spread, FREEZE_ALL, R_SPREAD_SCHMITT)
         else if rv_fires s rv \<or> tv_fires s tv then expand_call c rv tv
         else if trend_fires s rv imb then (TRENDING_MOMENTUM, trend_prob s imb, IOC_MARKET, R_OFI_TREND_ALIGN)
         else (RANGING_MEAN_REVERSION, range_prob c rv imb, PASSIVE_LIMIT, R_DEFAULT_RANGE))"

section \<open>The hysteresis gate\<close>

definition REGIME_ACTIVITY :: "regime_type \<Rightarrow> int" where
  "REGIME_ACTIVITY r = (case r of
       RANGING_MEAN_REVERSION \<Rightarrow> 0
     | TRENDING_MOMENTUM \<Rightarrow> 1
     | VOLATILITY_EXPANSION \<Rightarrow> 2
     | HIGH_SPREAD_CHOP \<Rightarrow> 3
     | MACRO_NEWS_FREEZE \<Rightarrow> 3)"

definition unsafe_regime :: "regime_type \<Rightarrow> bool" where
  "unsafe_regime r \<longleftrightarrow> r \<in> {HIGH_SPREAD_CHOP, MACRO_NEWS_FREEZE}"

definition adopt :: "classifier \<Rightarrow> f64 \<Rightarrow> regime_call \<Rightarrow> classifier" where
  "adopt s now_sec call = s\<lparr>rc_stable := Some (fst call), rc_stable_prob := fst (snd call), rc_stable_since := now_sec\<rparr>"

definition margin_refuses :: "classifier \<Rightarrow> regime_type \<Rightarrow> regime_call \<Rightarrow> bool" where
  "margin_refuses s cur call \<longleftrightarrow> \<not> unsafe_regime cur \<and> REGIME_ACTIVITY cur < REGIME_ACTIVITY (fst call)
     \<and> fst (snd call) < rc_stable_prob s + cc_margin (rc_cfg s)"

definition apply_hysteresis :: "classifier \<Rightarrow> f64 \<Rightarrow> regime_call \<Rightarrow> regime_call \<times> classifier" where
  "apply_hysteresis s now_sec call =
     (case rc_stable s of
        None \<Rightarrow> (call, adopt s now_sec call)
      | Some cur \<Rightarrow>
          if fst call = cur then (call, s\<lparr>rc_stable_prob := fst (snd call)\<rparr>)
          else if now_sec - rc_stable_since s < cc_min_hold (rc_cfg s)
            then ((cur, rc_stable_prob s, exec_for cur, R_HYSTERESIS_HOLD), s)
          else if margin_refuses s cur call
            then ((cur, rc_stable_prob s, exec_for cur, R_HYSTERESIS_MARGIN), s)
          else (call, adopt s now_sec call))"

section \<open>One tick\<close>

definition state_of ::
  "classifier \<Rightarrow> py_datetime \<Rightarrow> bool \<Rightarrow> f64 \<Rightarrow> f64 \<Rightarrow> f64 \<Rightarrow> f64 \<Rightarrow> regime_call \<Rightarrow> market_regime_state res" where
  "state_of s now news imb rv tv spread call =
     (case call of (r, p, ex, why) \<Rightarrow>
        mk_regime_state \<lparr>mr_symbol = cc_symbol (rc_cfg s), mr_timestamp = to_utc now, mr_type = r,
          mr_probability = round_nd 2 p, mr_order_flow_imbalance = round_nd 2 imb,
          mr_realized_volatility = round_nd 6 rv, mr_tick_velocity = tv, mr_spread_usd = spread,
          mr_news_active = news, mr_execution = ex, mr_reason = why\<rparr>)"

record tick_input =
  ti_tick :: tick_data
  ti_news :: bool
  ti_depth :: "(string \<times> (f64 \<times> f64) list) list option"

definition tick_sec :: "tick_input \<Rightarrow> f64" where
  "tick_sec x = total_seconds (instant (t_timestamp (ti_tick x)))"

definition tick_spread :: "tick_input \<Rightarrow> f64" where
  "tick_spread x = t_ask (ti_tick x) - t_bid (ti_tick x)"

definition tick_mid :: "tick_input \<Rightarrow> f64" where
  "tick_mid x = (t_bid (ti_tick x) + t_ask (ti_tick x)) * Fin (1 / 2)"

definition cache_prev :: "classifier \<Rightarrow> tick_input \<Rightarrow> classifier" where
  "cache_prev s x = s\<lparr>rc_prev_bid := t_bid (ti_tick x), rc_prev_ask := t_ask (ti_tick x), rc_prev_mid := tick_mid x\<rparr>"

definition cold_start :: "classifier \<Rightarrow> tick_input \<Rightarrow> classifier" where
  "cold_start s x = (if rc_prev_mid s \<le> 0 then cache_prev s x else s)"

definition log_return :: "math_lib \<Rightarrow> classifier \<Rightarrow> f64 \<Rightarrow> f64 res" where
  "log_return L s mid = (if 0 < rc_prev_mid s \<and> 0 < mid then py_log L (mid / rc_prev_mid s) else ret 0)"

text \<open>Steps 1 and 2: the window after the tick has entered it.\<close>

definition take_in :: "math_lib \<Rightarrow> classifier \<Rightarrow> tick_input \<Rightarrow> classifier res" where
  "take_in L s x =
     bindR (log_return L s (tick_mid x)) (\<lambda>lr.
     bindR (compute_ofi L s (t_bid (ti_tick x)) (t_ask (ti_tick x)) (t_volume (ti_tick x)) (ti_depth x)) (\<lambda>imb.
     bindR (ring_evict (ring_push s (tick_sec x) lr imb) (tick_sec x)) (\<lambda>s.
     ret (cache_prev s x))))"

record tick_metrics =
  tm_velocity :: f64
  tm_rv :: f64
  tm_ofi :: f64

definition metrics :: "math_lib \<Rightarrow> classifier \<Rightarrow> tick_metrics res" where
  "metrics L s =
     (if rc_ts s = [] then raise IndexError
      else let n = int (length (rc_ts s)); elapsed = pmax (List.last (rc_ts s) - hd (rc_ts s)) 1
      in bindR (py_div (float_of_int n) elapsed) (\<lambda>v.
         bindR (sqrt64 (pmax (rc_sum_sq_ret s) 0)) (\<lambda>rv.
         bindR (py_div (rc_sum_ofi s) (float_of_int (max n 1))) (\<lambda>avg.
         ret \<lparr>tm_velocity = round_nd 2 v, tm_rv = rv, tm_ofi = ml_tanh L avg\<rparr>))))"

definition note_metrics :: "classifier \<Rightarrow> f64 \<Rightarrow> tick_metrics \<Rightarrow> regime_type \<Rightarrow> classifier" where
  "note_metrics s spread_usd m r = s\<lparr>rc_last_logged := Some r, rc_last_spread := spread_usd,
     rc_last_rv := tm_rv m, rc_last_vel := tm_velocity m, rc_last_ofi := tm_ofi m\<rparr>"

definition warm :: "classifier \<Rightarrow> bool" where
  "warm s \<longleftrightarrow> \<not> int (length (rc_ts s)) < cc_min_ticks (rc_cfg s)"

definition classify_warm :: "math_lib \<Rightarrow> classifier \<Rightarrow> tick_input \<Rightarrow> market_regime_state res \<times> classifier" where
  "classify_warm L s x =
     (case metrics L s of
        Inl e \<Rightarrow> (raise e, s)
      | Inr m \<Rightarrow>
          let call = candidate_regime s (ti_news x) (tick_spread x) (tm_rv m) (tm_velocity m) (tm_ofi m);
              (call, s) = apply_hysteresis s (tick_sec x) call;
              spread_usd = round_nd 2 (tick_spread x);
              s = note_metrics s spread_usd m (fst call)
          in (state_of s (t_timestamp (ti_tick x)) (ti_news x) (tm_ofi m) (tm_rv m) (tm_velocity m) spread_usd call, s))"

definition classify_tick :: "math_lib \<Rightarrow> classifier \<Rightarrow> tick_input \<Rightarrow> market_regime_state res \<times> classifier" where
  "classify_tick L s0 x =
     (let s1 = cold_start s0 x
      in case take_in L s1 x of
           Inl e \<Rightarrow> (raise e, s1)
         | Inr s \<Rightarrow>
             if \<not> warm s
             then (state_of s (t_timestamp (ti_tick x)) (ti_news x) 0 0 1 (round_nd 2 (tick_spread x))
                     (RANGING_MEAN_REVERSION, Fin (1 / 2), PASSIVE_LIMIT, R_WARMUP), s)
             else classify_warm L s x)"

definition regime_step :: "math_lib \<Rightarrow> classifier \<Rightarrow> tick_input \<Rightarrow> classifier" where
  "regime_step L s x = snd (classify_tick L s x)"

section \<open>Diagnostics\<close>

text \<open>The snapshot for the operator: the inputs and the conditions that fire on them.\<close>

record classifier_diagnostics =
  cd_stable :: "regime_type option"
  cd_in_chop :: bool
  cd_in_expand :: bool
  cd_sum_ret_abs :: f64
  cd_news :: bool
  cd_chop :: bool
  cd_expand_rv :: bool
  cd_expand_tv :: bool
  cd_trend_price :: bool
  cd_trend_ofi :: bool
  cd_range :: bool

definition decision_diagnostics :: "classifier \<Rightarrow> classifier_diagnostics" where
  "decision_diagnostics s =
     (let c = rc_cfg s
      in \<lparr>cd_stable = rc_stable s, cd_in_chop = in_regime s HIGH_SPREAD_CHOP,
          cd_in_expand = in_regime s VOLATILITY_EXPANSION, cd_sum_ret_abs = round_nd 6 (fabs64 (rc_sum_ret s)),
          cd_news = False, cd_chop = chop_fires s (rc_last_spread s), cd_expand_rv = rv_fires s (rc_last_rv s),
          cd_expand_tv = tv_fires s (rc_last_vel s),
          cd_trend_price = (cc_price_trend c \<le> fabs64 (rc_sum_ret s) \<and> cc_rv_floor c \<le> rc_last_rv s),
          cd_trend_ofi = (cc_ofi_trend c \<le> fabs64 (rc_last_ofi s) \<and> cc_rv_floor c \<le> rc_last_rv s),
          cd_range = True\<rparr>)"

section \<open>The window\<close>

lemma length_ring_append [simp]: "length (ring_append m xs x) = min m (Suc (length xs))"
  by (simp add: ring_append_def)

lemma set_ring_append: "set (ring_append m xs x) \<subseteq> insert x (set xs)"
  using set_drop_subset [of "Suc (length xs) - m" "xs @ [x]"] by (auto simp: ring_append_def)

definition ring_ok :: "classifier \<Rightarrow> bool" where
  "ring_ok s \<longleftrightarrow> length (rc_log_ret s) = length (rc_ts s) \<and> length (rc_ofi s) = length (rc_ts s)
     \<and> length (rc_ts s) \<le> cc_buffer (rc_cfg s)"

text \<open>The fields that only the hysteresis gate writes.\<close>

definition hyst_view :: "classifier \<Rightarrow> classifier_config \<times> regime_type option \<times> f64 \<times> f64" where
  "hyst_view s = (rc_cfg s, rc_stable s, rc_stable_prob s, rc_stable_since s)"

lemma ring_ok_init: "ring_ok (mk_classifier c)"
  by (simp add: ring_ok_def mk_classifier_def)

lemma ring_push_ok: "ring_ok s \<Longrightarrow> ring_ok (ring_push s t r v)"
  by (auto simp: ring_ok_def ring_push_def Let_def)

lemma hyst_view_ring_push [simp]: "hyst_view (ring_push s t r v) = hyst_view s"
  and hyst_view_cold_start [simp]: "hyst_view (cold_start s x) = hyst_view s"
  and hyst_view_cache_prev [simp]: "hyst_view (cache_prev s x) = hyst_view s"
  by (simp_all add: hyst_view_def ring_push_def cold_start_def cache_prev_def Let_def)

lemma ring_ok_caches [simp]: "ring_ok (cold_start s x) = ring_ok s" "ring_ok (cache_prev s x) = ring_ok s"
  by (simp_all add: ring_ok_def cold_start_def cache_prev_def)

text \<open>The eviction loop removes exactly the leading timestamps before the cutoff, and what it
  subtracts from the sums are the values it removes.\<close>

lemma evict_loop_spec:
  assumes "ring_ok s" and "length (rc_ts s) \<le> n"
  obtains s' where "evict_loop n cutoff s = ret s'" and "rc_ts s' = dropWhile (\<lambda>t. t < cutoff) (rc_ts s)"
    and "ring_ok s'" and "hyst_view s' = hyst_view s"
    and "rc_sum_ofi s' = foldl (\<lambda>a v. a - v) (rc_sum_ofi s) (take (length (rc_ts s) - length (rc_ts s')) (rc_ofi s))"
    and "rc_sum_ret s' = foldl (\<lambda>a v. a - v) (rc_sum_ret s) (take (length (rc_ts s) - length (rc_ts s')) (rc_log_ret s))"
  using assms
proof (induction n arbitrary: s thesis)
  case 0
  then show ?case by simp
next
  case (Suc n)
  show ?case
  proof (cases "rc_ts s")
    case Nil
    then show ?thesis using Suc.prems by simp
  next
    case (Cons t ts)
    obtain r rs v vs where rv: "rc_log_ret s = r # rs" "rc_ofi s = v # vs" "length rs = length ts" "length vs = length ts"
      using Suc.prems(2) Cons by (cases "rc_log_ret s"; cases "rc_ofi s") (auto simp: ring_ok_def)
    show ?thesis
    proof (cases "t < cutoff")
      case False
      then show ?thesis using Suc.prems Cons by simp
    next
      case True
      let ?p = "s\<lparr>rc_ts := ts, rc_log_ret := rs, rc_ofi := vs, rc_sum_ret := rc_sum_ret s - r,
                rc_sum_sq_ret := rc_sum_sq_ret s - r * r, rc_sum_ofi := rc_sum_ofi s - v\<rparr>"
      have p: "ring_pop s = ret ?p" by (simp add: ring_pop_def rv Cons)
      have ok: "ring_ok ?p" "length (rc_ts ?p) \<le> n"
        using Suc.prems Cons rv by (auto simp: ring_ok_def)
      obtain s' where s': "evict_loop n cutoff ?p = ret s'" "rc_ts s' = dropWhile (\<lambda>t. t < cutoff) ts"
        "ring_ok s'" "hyst_view s' = hyst_view ?p"
        "rc_sum_ofi s' = foldl (\<lambda>a v. a - v) (rc_sum_ofi s - v) (take (length ts - length (rc_ts s')) vs)"
        "rc_sum_ret s' = foldl (\<lambda>a v. a - v) (rc_sum_ret s - r) (take (length ts - length (rc_ts s')) rs)"
        by (rule Suc.IH [OF _ ok]) simp_all
      have "length (rc_ts s') \<le> length ts" unfolding s'(2) by (rule length_dropWhile_le)
      then have "Suc (length ts) - length (rc_ts s') = Suc (length ts - length (rc_ts s'))" by simp
      then show ?thesis
        using s' True Cons p rv by (intro Suc.prems(1) [of s']) (simp_all add: hyst_view_def)
    qed
  qed
qed

lemma ring_evict_spec:
  assumes "ring_ok s"
  obtains s' where "ring_evict s now = ret s'"
    and "rc_ts s' = dropWhile (\<lambda>t. t < now - float_of_int (cc_rolling_seconds (rc_cfg s))) (rc_ts s)"
    and "ring_ok s'" and "hyst_view s' = hyst_view s"
    and "rc_sum_ofi s' = foldl (\<lambda>a v. a - v) (rc_sum_ofi s) (take (length (rc_ts s) - length (rc_ts s')) (rc_ofi s))"
    and "rc_sum_ret s' = foldl (\<lambda>a v. a - v) (rc_sum_ret s) (take (length (rc_ts s) - length (rc_ts s')) (rc_log_ret s))"
  using evict_loop_spec [OF assms le_refl] unfolding ring_evict_def by metis

lemma take_in_cases:
  assumes "ring_ok s"
  obtains (fails) e where "take_in L s x = Inl e"
    | (works) s' where "take_in L s x = ret s'" and "ring_ok s'" and "hyst_view s' = hyst_view s"
        and "rc_ts s' = dropWhile (\<lambda>t. t < tick_sec x - float_of_int (cc_rolling_seconds (rc_cfg s)))
               (ring_append (cc_buffer (rc_cfg s)) (rc_ts s) (tick_sec x))"
        and "rc_prev_mid s' = tick_mid x"
proof (cases "log_return L s (tick_mid x)")
  case (Inl e)
  then show ?thesis by (intro fails [of e]) (simp add: take_in_def)
next
  case lr: (Inr lr)
  show ?thesis
  proof (cases "compute_ofi L s (t_bid (ti_tick x)) (t_ask (ti_tick x)) (t_volume (ti_tick x)) (ti_depth x)")
    case (Inl e)
    then show ?thesis using lr by (intro fails [of e]) (simp add: take_in_def)
  next
    case (Inr v)
    let ?p = "ring_push s (tick_sec x) lr v"
    obtain s' where s': "ring_evict ?p (tick_sec x) = ret s'" "ring_ok s'" "hyst_view s' = hyst_view s"
      "rc_ts s' = dropWhile (\<lambda>t. t < tick_sec x - float_of_int (cc_rolling_seconds (rc_cfg ?p))) (rc_ts ?p)"
      using ring_evict_spec [OF ring_push_ok [OF assms, of "tick_sec x" lr v], of "tick_sec x"] by auto
    have e: "take_in L s x = ret (cache_prev s' x)"
      using lr Inr s'(1) by (simp add: take_in_def)
    show ?thesis
    proof (rule works [OF e])
      show "hyst_view (cache_prev s' x) = hyst_view s" using s' by simp
    qed (use s' in \<open>simp_all add: cache_prev_def ring_push_def Let_def ring_ok_def\<close>)
  qed
qed

text \<open>What one tick does to the window and to the fields of the gate.\<close>

lemma apply_hysteresis_frame [simp]:
  "rc_ts (snd (apply_hysteresis s t k)) = rc_ts s" "rc_cfg (snd (apply_hysteresis s t k)) = rc_cfg s"
  "ring_ok (snd (apply_hysteresis s t k)) = ring_ok s"
  by (auto simp: apply_hysteresis_def adopt_def ring_ok_def split: option.splits)

lemma note_metrics_frame [simp]:
  "rc_ts (note_metrics s a m r) = rc_ts s" "rc_cfg (note_metrics s a m r) = rc_cfg s"
  "ring_ok (note_metrics s a m r) = ring_ok s" "hyst_view (note_metrics s a m r) = hyst_view s"
  by (simp_all add: note_metrics_def ring_ok_def hyst_view_def)

lemma classify_warm_cases:
  obtains (fails) e where "classify_warm L s x = (raise e, s)"
    | (works) m k s' where "metrics L s = ret m"
        and "apply_hysteresis s (tick_sec x)
               (candidate_regime s (ti_news x) (tick_spread x) (tm_rv m) (tm_velocity m) (tm_ofi m)) = (k, s')"
        and "fst (classify_warm L s x) = state_of (note_metrics s' (round_nd 2 (tick_spread x)) m (fst k))
               (t_timestamp (ti_tick x)) (ti_news x) (tm_ofi m) (tm_rv m) (tm_velocity m) (round_nd 2 (tick_spread x)) k"
        and "snd (classify_warm L s x) = note_metrics s' (round_nd 2 (tick_spread x)) m (fst k)"
proof (cases "metrics L s")
  case (Inl e)
  then show ?thesis by (intro fails [of e]) (simp add: classify_warm_def)
next
  case (Inr m)
  obtain k s' where a: "apply_hysteresis s (tick_sec x)
      (candidate_regime s (ti_news x) (tick_spread x) (tm_rv m) (tm_velocity m) (tm_ofi m)) = (k, s')"
    by fastforce
  show ?thesis
    by (rule works [OF _ a]) (use Inr a in \<open>simp_all add: classify_warm_def Let_def ret_def\<close>)
qed

lemma regime_step_ok: "ring_ok s \<Longrightarrow> ring_ok (regime_step L s x)"
proof -
  assume ok: "ring_ok s"
  then have "ring_ok (cold_start s x)" by simp
  then show ?thesis
  proof (cases rule: take_in_cases [where L = L and x = x])
    case (fails e)
    then show ?thesis using ok by (simp add: regime_step_def classify_tick_def)
  next
    case (works s')
    have "ring_ok (snd (classify_warm L s' x))"
    proof (cases rule: classify_warm_cases [where L = L and x = x and s = s'])
      case (works m k s2)
      then show ?thesis using \<open>ring_ok s'\<close> apply_hysteresis_frame(3) [of s' "tick_sec x"] by (metis note_metrics_frame(3) snd_conv)
    qed (use works in simp)
    then show ?thesis using works by (simp add: regime_step_def classify_tick_def ret_def)
  qed
qed

interpretation window: step_invariant "regime_step L" "mk_classifier c" ring_ok for L c
  by unfold_locales (auto intro: ring_ok_init regime_step_ok)

section \<open>Hysteresis\<close>

lemma rc_of_view:
  "hyst_view s' = hyst_view s \<Longrightarrow> rc_cfg s' = rc_cfg s \<and> rc_stable s' = rc_stable s \<and>
     rc_stable_prob s' = rc_stable_prob s \<and> rc_stable_since s' = rc_stable_since s"
  by (simp add: hyst_view_def)

text \<open>A tick either leaves the gate alone or sends it one candidate, formed on a state with the
  same stable regime; what is reported is what the gate answered.\<close>

lemma classify_tick_cases:
  assumes "ring_ok s"
  obtains (kept) "hyst_view (regime_step L s x) = hyst_view s"
      and "\<And>m. fst (classify_tick L s x) = ret m \<Longrightarrow> mr_reason m = R_WARMUP \<and> mr_execution m = PASSIVE_LIMIT"
    | (decided) s2 rv tv imb k s3 where "hyst_view s2 = hyst_view s" and "ring_ok s2"
        and "apply_hysteresis s2 (tick_sec x)
              (candidate_regime s2 (ti_news x) (tick_spread x) rv tv imb) = (k, s3)"
        and "hyst_view (regime_step L s x) = hyst_view s3"
        and "metrics L s2 = ret \<lparr>tm_velocity = tv, tm_rv = rv, tm_ofi = imb\<rparr>"
        and "\<And>m. fst (classify_tick L s x) = ret m \<Longrightarrow>
              mr_type m = fst k \<and> mr_execution m = fst (snd (snd k)) \<and> mr_reason m = snd (snd (snd k))
              \<and> mr_probability m = round_nd 2 (fst (snd k))"
proof -
  have ok: "ring_ok (cold_start s x)" using assms by simp
  show ?thesis
  proof (cases rule: take_in_cases [OF ok, where L = L and x = x])
    case (1 e)
    then show ?thesis by (intro kept) (simp_all add: regime_step_def classify_tick_def)
  next
    case w: (2 s')
    show ?thesis
    proof (cases "warm s'")
      case False
      then show ?thesis using w
        by (intro kept)
          (auto simp: regime_step_def classify_tick_def ret_def raise_def state_of_def mk_regime_state_def split: if_splits)
    next
      case True
      then have c: "classify_tick L s x = classify_warm L s' x"
        using w by (simp add: classify_tick_def ret_def)
      show ?thesis
      proof (cases rule: classify_warm_cases [where L = L and x = x and s = s'])
        case (fails e)
        then show ?thesis using fails c w by (intro kept) (simp_all add: regime_step_def)
      next
        case (works m k s3)
        show ?thesis
        proof (rule decided [of s' "tm_rv m" "tm_velocity m" "tm_ofi m" k s3])
          show "mr_type m' = fst k \<and> mr_execution m' = fst (snd (snd k)) \<and> mr_reason m' = snd (snd (snd k))
              \<and> mr_probability m' = round_nd 2 (fst (snd k))"
            if "fst (classify_tick L s x) = ret m'" for m'
            using that works(3) unfolding c
            by (auto simp: state_of_def mk_regime_state_def ret_def raise_def split: prod.splits if_splits)
        qed (use works w c in \<open>simp_all add: regime_step_def\<close>)
      qed
    qed
  qed
qed

text \<open>Once a regime is stable, no sequence of ticks within the hold time replaces it.\<close>

theorem no_flapping_within_hold:
  assumes "ring_ok s" and "rc_stable s = Some r"
    and "\<forall>x \<in> set xs. tick_sec x - rc_stable_since s < cc_min_hold (rc_cfg s)"
  shows "rc_stable (run (regime_step L) s xs) = Some r"
  using assms
proof (induction xs arbitrary: s)
  case Nil
  then show ?case by simp
next
  case (Cons x xs)
  have "rc_stable (regime_step L s x) = Some r \<and> rc_stable_since (regime_step L s x) = rc_stable_since s
     \<and> rc_cfg (regime_step L s x) = rc_cfg s"
  proof (cases rule: classify_tick_cases [OF Cons.prems(1), where L = L and x = x])
    case 1
    then show ?thesis using Cons.prems by (simp add: hyst_view_def)
  next
    case (2 s2 rv tv imb k s3)
    then show ?thesis
      using Cons.prems rc_of_view [OF 2(1)] rc_of_view [OF 2(4)]
      by (auto simp: apply_hysteresis_def split: option.splits if_splits)
  qed
  then show ?case
    using Cons.prems by (simp add: Cons.IH regime_step_ok)
qed

text \<open>The margin: the two freeze regimes are proposed with a probability of at most 0.99.\<close>

lemma chop_prob_le: "chop_prob c spread \<le> fl (99 / 100)"
  unfolding chop_prob_def Let_def by (rule pmin_le) simp

lemma freeze_candidate:
  assumes "ti_news x \<or> cc_chop_enter (rc_cfg s) \<le> spread" and "rc_stable s = Some r" and "\<not> unsafe_regime r"
  shows "unsafe_regime (fst (candidate_regime s (ti_news x) spread rv tv imb)) \<and>
         fst (snd (candidate_regime s (ti_news x) spread rv tv imb)) \<le> fl (99 / 100)"
  using assms chop_prob_le [of "rc_cfg s" spread]
  by (auto simp: candidate_regime_def Let_def unsafe_regime_def chop_fires_def in_regime_def intro: f64_le_refl)

lemma unsafe_activity: "unsafe_regime a \<Longrightarrow> \<not> unsafe_regime b \<Longrightarrow> REGIME_ACTIVITY b < REGIME_ACTIVITY a"
  by (cases a; cases b) (auto simp: unsafe_regime_def REGIME_ACTIVITY_def)

lemma freeze_refused_step:
  assumes "ring_ok s" and "rc_stable s = Some r" and "\<not> unsafe_regime r"
    and "fl (99 / 100) < rc_stable_prob s + cc_margin (rc_cfg s)"
    and "ti_news x \<or> cc_chop_enter (rc_cfg s) \<le> tick_spread x"
  shows "hyst_view (regime_step L s x) = hyst_view s \<and>
         (\<forall>m. fst (classify_tick L s x) = ret m \<longrightarrow> mr_execution m \<noteq> FREEZE_ALL)"
proof (cases rule: classify_tick_cases [OF assms(1), where L = L and x = x])
  case 1
  then show ?thesis by auto
next
  case (2 s2 rv tv imb k s3)
  let ?k = "candidate_regime s2 (ti_news x) (tick_spread x) rv tv imb"
  note v = rc_of_view [OF 2(1)]
  have c: "unsafe_regime (fst ?k)" "fst (snd ?k) \<le> fl (99 / 100)"
    using freeze_candidate [of x s2 "tick_spread x" r rv tv imb] assms v by auto
  have "fst (snd ?k) < rc_stable_prob s2 + cc_margin (rc_cfg s2)"
    using f64_le_less_trans [OF c(2) assms(4)] v by simp
  then have "margin_refuses s2 r ?k"
    using unsafe_activity [OF c(1) assms(3)] assms(3) by (simp add: margin_refuses_def)
  moreover have "fst ?k \<noteq> r" using c(1) assms(3) by auto
  ultimately have a: "s3 = s2 \<and> fst (snd (snd k)) = exec_for r"
    using 2(3) v assms(2) by (auto simp: apply_hysteresis_def split: if_splits)
  have "exec_for r \<noteq> FREEZE_ALL" using assms(3) by (cases r) (auto simp: exec_for_def unsafe_regime_def)
  then show ?thesis using 2(1,4,6) a by auto
qed

text \<open>When the stable regime is not a freeze and was adopted with a probability that exceeds
  0.99 together with the switching margin, no run of news-window or wide-spread ticks, however long,
  makes the classifier freeze: it keeps the regime and never recommends to freeze execution.\<close>

theorem freeze_refused_by_margin:
  assumes "ring_ok s" and "rc_stable s = Some r" and "\<not> unsafe_regime r"
    and "fl (99 / 100) < rc_stable_prob s + cc_margin (rc_cfg s)"
    and "\<forall>y \<in> set (xs @ [x]). ti_news y \<or> cc_chop_enter (rc_cfg s) \<le> tick_spread y"
  shows "case classify_tick L (run (regime_step L) s xs) x of (out, s') \<Rightarrow>
           rc_stable s' = Some r \<and> (\<forall>m. out = ret m \<longrightarrow> mr_execution m \<noteq> FREEZE_ALL)"
proof -
  have "ring_ok (run (regime_step L) s xs) \<and> hyst_view (run (regime_step L) s xs) = hyst_view s"
    using assms
  proof (induction xs arbitrary: s)
    case (Cons y ys)
    have "hyst_view (regime_step L s y) = hyst_view s"
      using freeze_refused_step [of s r y L] Cons.prems by simp
    then show ?case
      using Cons.IH [OF regime_step_ok [OF Cons.prems(1)], of L y] Cons.prems rc_of_view [of "regime_step L s y" s] by simp
  qed simp
  then have ok: "ring_ok (run (regime_step L) s xs)" and v: "hyst_view (run (regime_step L) s xs) = hyst_view s" by auto
  note f = freeze_refused_step [OF ok, of r x L]
  show ?thesis
    using f rc_of_view [OF v] assms by (auto simp: regime_step_def hyst_view_def split: prod.splits)
qed

text \<open>From a frozen spread regime the classifier relaxes as the exit threshold says: outside a
  news window and after the hold time, the reported regime stays \<open>HIGH_SPREAD_CHOP\<close> exactly when
  the spread is still at least the exit threshold, whatever the probabilities.\<close>

theorem chop_left_iff_spread_normal:
  assumes "ring_ok s" and "rc_stable s = Some HIGH_SPREAD_CHOP" and "\<not> ti_news x"
    and "\<not> tick_sec x - rc_stable_since s < cc_min_hold (rc_cfg s)"
    and "fst (classify_tick L s x) = ret m" and "mr_reason m \<noteq> R_WARMUP"
  shows "mr_type m = HIGH_SPREAD_CHOP \<longleftrightarrow> cc_chop_exit (rc_cfg s) \<le> tick_spread x"
proof (cases rule: classify_tick_cases [OF assms(1), where L = L and x = x])
  case 1
  then show ?thesis using assms(5,6) by auto
next
  case (2 s2 rv tv imb k s3)
  let ?k = "candidate_regime s2 (ti_news x) (tick_spread x) rv tv imb"
  note v = rc_of_view [OF 2(1)]
  have "k = ?k"
    using 2(3) v assms by (auto simp: apply_hysteresis_def margin_refuses_def unsafe_regime_def split: if_splits)
  moreover have "fst ?k = HIGH_SPREAD_CHOP \<longleftrightarrow> cc_chop_exit (rc_cfg s) \<le> tick_spread x"
    using v assms(2,3) by (auto simp: candidate_regime_def Let_def chop_fires_def in_regime_def expand_call_def)
  ultimately show ?thesis using 2(6) [OF assms(5)] by simp
qed

section \<open>What a full buffer does to the running sums\<close>

lemma fl_half_int: "\<bar>n\<bar> \<le> 9007199254740992 \<Longrightarrow> fl (of_int n / 2) = Fin (of_int n / 2)"
proof -
  assume n: "\<bar>n\<bar> \<le> 9007199254740992"
  have "representable (of_int n * pow2 (- 1))" using n by (intro representable_grid) simp_all
  moreover have "pow2 (- 1) = 1 / 2" by (simp add: pow2_def power_int_minus)
  ultimately have r: "rnd (of_int n / 2) = of_int n / 2" by (simp add: representable_def)
  have "\<bar>(of_int n :: rat)\<bar> \<le> 9007199254740992" using n by (simp flip: of_int_abs)
  then have "\<bar>(of_int n :: rat) / 2\<bar> < pow2 1024"
    using pow2_less [of 53 1024] by (simp add: pow2_nat)
  then show ?thesis using fl_Fin [of "of_int n / 2"] r by simp
qed

definition push_same :: "classifier \<Rightarrow> f64 \<Rightarrow> nat \<Rightarrow> classifier" where
  "push_same s t n = run (\<lambda>s t. ring_push s t (Fin (1 / 2)) (Fin 0)) s (replicate n t)"

lemma ring_append_replicate: "ring_append m (replicate k x) x = replicate (min m (Suc k)) x"
proof -
  have "ring_append m (replicate k x) x = List.drop (Suc k - m) (replicate (Suc k) x)"
    by (simp add: ring_append_def replicate_append_same)
  then show ?thesis by (simp add: min_def del: replicate_Suc)
qed

lemma push_same_Suc: "push_same s t (Suc n) = ring_push (push_same s t n) t (Fin (1 / 2)) (Fin 0)"
  unfolding push_same_def replicate_Suc [of n] replicate_append_same [symmetric] by (simp only: run_snoc)

lemma push_same_window:
  assumes "n \<le> 1000000"
  shows "rc_ts (push_same (mk_classifier c) t n) = replicate (min (cc_buffer c) n) t \<and>
         rc_log_ret (push_same (mk_classifier c) t n) = replicate (min (cc_buffer c) n) (Fin (1 / 2)) \<and>
         rc_sum_ret (push_same (mk_classifier c) t n) = Fin (of_int (int n) / 2) \<and>
         rc_cfg (push_same (mk_classifier c) t n) = c \<and> ring_ok (push_same (mk_classifier c) t n)"
  using assms
proof (induction n)
  case 0
  then show ?case by (simp add: push_same_def mk_classifier_def zero_f64_Fin ring_ok_def)
next
  case (Suc n)
  let ?s = "push_same (mk_classifier c) t n"
  have IH: "rc_ts ?s = replicate (min (cc_buffer c) n) t" "rc_log_ret ?s = replicate (min (cc_buffer c) n) (Fin (1 / 2))"
    "rc_sum_ret ?s = Fin (of_int (int n) / 2)" "rc_cfg ?s = c" "ring_ok ?s"
    using Suc by simp_all
  have "fl (of_int (int n) / 2 + 1 / 2) = Fin (of_int (int n) / 2 + 1 / 2)"
    using fl_half_int [of "int n + 1"] Suc.prems by (simp add: add_divide_distrib)
  then have "rc_sum_ret (push_same (mk_classifier c) t (Suc n)) = Fin (of_int (int (Suc n)) / 2)"
    unfolding push_same_Suc using IH(3) by (simp add: ring_push_def Let_def add_divide_distrib add.commute)
  moreover have "min (cc_buffer c) (Suc (min (cc_buffer c) n)) = min (cc_buffer c) (Suc n)" by simp
  moreover have ok: "ring_ok (ring_push ?s t (Fin (1 / 2)) (Fin 0)) = True" using ring_push_ok [OF IH(5)] by simp
  ultimately show ?case
    unfolding push_same_Suc ok
    using IH by (simp add: ring_push_def Let_def ring_append_replicate)
qed

lemma subtract_replicate:
  "\<bar>a\<bar> \<le> 1000000 \<Longrightarrow> n \<le> 1000000 \<Longrightarrow>
   foldl (\<lambda>a v. a - v) (Fin (of_int a / 2)) (replicate n (Fin (1 / 2))) = Fin (of_int (a - int n) / 2)"
proof (induction n)
  case (Suc n)
  have "fl (of_int (a - int n) / 2 - 1 / 2) = Fin (of_int (a - int (Suc n)) / 2)"
  proof -
    have e: "(of_int (a - int n) / 2 - 1 / 2 :: rat) = of_int (a - int (Suc n)) / 2" by (simp add: field_simps)
    show ?thesis unfolding e using Suc.prems by (intro fl_half_int) simp
  qed
  then show ?case
    using Suc unfolding replicate_Suc replicate_append_same [symmetric] by (simp add: minus_f64_def)
qed simp

text \<open>The bounded buffer drops its oldest entry without taking it out of the running sums:
  once one more tick than the buffer holds arrived within the window, the sum of log returns keeps
  the value of the dropped tick even after every buffered tick has been evicted.\<close>

theorem full_ring_biases_returns:
  assumes "cc_buffer c \<le> 6000"
    and "t < now_sec - float_of_int (cc_rolling_seconds c)"
  shows "\<exists>s'. ring_evict (push_same (mk_classifier c) t (Suc (cc_buffer c))) now_sec = ret s' \<and>
     rc_ts s' = [] \<and> rc_sum_ret s' = Fin (1 / 2)"
proof -
  let ?n = "cc_buffer c" and ?s = "push_same (mk_classifier c) t (Suc (cc_buffer c))"
  have w: "rc_ts ?s = replicate ?n t" "rc_log_ret ?s = replicate ?n (Fin (1 / 2))"
    "rc_sum_ret ?s = Fin (of_int (int (Suc ?n)) / 2)" "rc_cfg ?s = c" "ring_ok ?s"
    using push_same_window [of "Suc ?n" c t] assms(1) by (simp_all add: min_def)
  obtain s' where s': "ring_evict ?s now_sec = ret s'"
      "rc_ts s' = dropWhile (\<lambda>u. u < now_sec - float_of_int (cc_rolling_seconds (rc_cfg ?s))) (rc_ts ?s)"
      "rc_sum_ret s' = foldl (\<lambda>a v. a - v) (rc_sum_ret ?s) (take (length (rc_ts ?s) - length (rc_ts s')) (rc_log_ret ?s))"
    by (rule ring_evict_spec [OF w(5)]) blast
  have "rc_ts s' = []" using s'(2) w assms(2) by simp
  moreover from this have "rc_sum_ret s' = Fin (of_int (int (Suc ?n) - int ?n) / 2)"
    using s'(3) w subtract_replicate [of "int (Suc ?n)" ?n] assms(1) by simp
  ultimately show ?thesis using s'(1) by simp
qed

lemma full_ring_biases_returns_witness:
  "\<exists>s'. ring_evict (push_same (mk_classifier default_classifier_config) (Fin 1000) 6001) (Fin 2000) = ret s' \<and>
     rc_ts s' = [] \<and> rc_sum_ret s' = Fin (1 / 2)"
proof -
  have b: "cc_buffer default_classifier_config \<le> 6000" "Suc (cc_buffer default_classifier_config) = 6001"
    by (simp_all add: default_classifier_config_def)
  have t: "Fin 1000 < Fin 2000 - float_of_int (cc_rolling_seconds default_classifier_config)" by code_simp
  show ?thesis using full_ring_biases_returns [OF b(1) t] by (simp only: b(2))
qed

section \<open>Probabilities\<close>

definition unit_range :: "f64 \<Rightarrow> bool" where
  "unit_range p \<longleftrightarrow> 0 \<le> p \<and> p \<le> 1"

definition nonneg_or_nan :: "f64 \<Rightarrow> bool" where
  "nonneg_or_nan x \<longleftrightarrow> x = NaN \<or> 0 \<le> x"

lemma fl_unit: "0 \<le> q \<Longrightarrow> q \<le> 1 \<Longrightarrow> unit_range (fl q)"
  using fl_mono [of 0 q] fl_mono [of q 1] by (simp add: unit_range_def zero_f64_Fin one_f64_Fin)

lemma pmin_unit: "unit_range p \<Longrightarrow> nonneg_or_nan y \<Longrightarrow> unit_range (pmin p y)"
  by (auto simp: unit_range_def nonneg_or_nan_def pmin_def intro: f64_le_trans f64_less_imp_le)

lemma nan_right [simp]: "x + NaN = NaN" "x * NaN = NaN" for x :: f64
  by (cases x; simp)+

lemma nonneg_or_nan_arith:
  assumes "nonneg_or_nan x" and "nonneg_or_nan y"
  shows "nonneg_or_nan (x + y)" and "nonneg_or_nan (x * y)" and "nonneg_or_nan (pmax x y)" and "nonneg_or_nan (pmin x y)"
proof -
  show "nonneg_or_nan (x + y)" "nonneg_or_nan (x * y)"
    using assms fadd_nonneg [of x y] fmul_nonneg [of x y] by (auto simp: nonneg_or_nan_def zero_f64_Fin)
  show "nonneg_or_nan (pmax x y)" "nonneg_or_nan (pmin x y)"
    using assms by (simp_all add: pmax_def pmin_def)
qed

lemma nonneg_or_nan_div: "nonneg_or_nan x \<Longrightarrow> 0 < y \<Longrightarrow> nonneg_or_nan (x / y)"
  by (cases x; cases y) (auto simp: nonneg_or_nan_def zero_f64_Fin intro: fl_nonneg)

lemma nonneg_or_nan_fabs: "nonneg_or_nan (fabs64 x)"
  by (cases x) (auto simp: nonneg_or_nan_def zero_f64_Fin)

lemma nonneg_or_nan_fl: "0 \<le> q \<Longrightarrow> nonneg_or_nan (fl q)"
  using fl_nonneg [of q] by (simp add: nonneg_or_nan_def zero_f64_Fin)

lemma nonneg_or_nan_consts: "0 \<le> q \<Longrightarrow> nonneg_or_nan (Fin q)" "nonneg_or_nan 1" "nonneg_or_nan 0"
  by (simp_all add: nonneg_or_nan_def zero_f64_Fin one_f64_Fin)

lemmas prob_intros = pmin_unit fl_unit nonneg_or_nan_arith nonneg_or_nan_fl nonneg_or_nan_consts nonneg_or_nan_fabs

lemma chop_prob_unit: "unit_range (chop_prob c spread)"
proof -
  have "nonneg_or_nan (pmax 0 (spread - cc_chop_enter c))"
    by (auto simp: pmax_def nonneg_or_nan_def zero_f64_Fin intro: f64_less_imp_le)
  then show ?thesis
    unfolding chop_prob_def Let_def by (intro pmin_unit fl_unit nonneg_or_nan_arith(1,2) nonneg_or_nan_fl nonneg_or_nan_consts) simp_all
qed

lemma expand_score:
  assumes "nonneg_or_nan z"
  shows "nonneg_or_nan (fl (55 / 100) + (pmin z (Fin (5 / 2)) - 1) * Fin (1 / 4))"
proof (cases "pmin z (Fin (5 / 2))")
  case (Fin q)
  have q: "0 \<le> q" "q \<le> 5 / 2"
    using assms Fin by (cases z; auto simp: nonneg_or_nan_def pmin_def zero_f64_Fin split: if_splits)+
  have lo: "Fin (- 1) \<le> fl (q - 1)" using fl_mono [of "- 1" "q - 1"] fl_of_int [of "- 1"] q by simp
  have hi: "fl (q - 1) \<le> Fin 2" using fl_mono [of "q - 1" 2] q by simp
  obtain a where a: "fl (q - 1) = Fin a" "- 1 \<le> a"
    using lo hi by (cases "fl (q - 1)") auto
  have r: "fl (- 1 / 4) = Fin (- 1 / 4)" and h: "fl (1 / 2) = Fin (1 / 2)" by code_simp+
  obtain b where b: "fl (55 / 100) = Fin b" "1 / 2 \<le> b"
    using fl_mono [of "1 / 2" "55 / 100"] fl_mono [of "55 / 100" 1] h by (cases "fl (55 / 100)") auto
  have "Fin (- 1 / 4) \<le> fl (a * (1 / 4))" using fl_mono [of "- 1 / 4" "a * (1 / 4)"] a r by simp
  then have "nonneg_or_nan (fl (55 / 100) + fl (a * (1 / 4)))"
  proof (cases "fl (a * (1 / 4))")
    case (Fin d)
    assume "Fin (- 1 / 4) \<le> fl (a * (1 / 4))"
    then have "0 \<le> b + d" using Fin b by simp
    then show ?thesis using Fin b nonneg_or_nan_fl [of "b + d"] by simp
  qed (use b in \<open>auto simp: nonneg_or_nan_def zero_f64_Fin\<close>)
  moreover have "(pmin z (Fin (5 / 2)) - 1) * Fin (1 / 4) = fl (a * (1 / 4))"
    using a Fin by (simp add: minus_f64_def one_f64_Fin)
  ultimately show ?thesis by simp
qed (use assms in \<open>auto simp: nonneg_or_nan_def pmin_def zero_f64_Fin minus_f64_def one_f64_Fin split: if_splits\<close>)

lemma range_prob_unit:
  assumes "nonneg_or_nan rv"
  shows "unit_range (range_prob c rv imb)"
proof -
  define w where "w = (if 0 < cc_rv_enter c then pmin (rv / cc_rv_enter c) 1 else 0) * fl (60 / 100)"
  have w: "nonneg_or_nan w"
    unfolding w_def using assms nonneg_or_nan_div by (auto intro!: prob_intros)
  have "x \<le> 1 \<or> x = NaN" if "x = 1 - fabs64 imb - w" for x
  proof -
    obtain a where a: "fabs64 imb = Fin a \<and> 0 \<le> a \<or> fabs64 imb = PInf \<or> fabs64 imb = NaN"
      by (cases imb) auto
    have "1 - fabs64 imb \<le> 1 \<or> 1 - fabs64 imb = NaN"
      using a fl_mono [of "1 - a" 1] by (auto simp: minus_f64_def one_f64_Fin)
    then show ?thesis
      using that w
    proof (cases "1 - fabs64 imb"; cases w)
      fix p q
      assume pq: "1 - fabs64 imb = Fin p" "w = Fin q"
      then have "p - q \<le> 1"
        using w \<open>1 - fabs64 imb \<le> 1 \<or> 1 - fabs64 imb = NaN\<close> by (auto simp: nonneg_or_nan_def zero_f64_Fin one_f64_Fin)
      then show ?thesis using that pq fl_mono [of "p - q" 1] by (simp add: minus_f64_def one_f64_Fin)
    qed (auto simp: minus_f64_def nonneg_or_nan_def zero_f64_Fin one_f64_Fin)
  qed
  moreover have "unit_range (pmax (fl (60 / 100)) x)" if "x \<le> 1 \<or> x = NaN" for x
    using that fl_unit [of "60 / 100"]
    by (auto simp: unit_range_def pmax_def intro: f64_le_trans f64_less_imp_le)
  ultimately show ?thesis by (simp add: range_prob_def Let_def w_def)
qed

lemma candidate_prob_unit:
  assumes "nonneg_or_nan rv" and "nonneg_or_nan tv"
  shows "unit_range (fst (snd (candidate_regime s news spread rv tv imb)))"
proof -
  let ?c = "rc_cfg s"
  have e: "unit_range (fst (snd (expand_call ?c rv tv)))"
    unfolding expand_call_def Let_def snd_conv fst_conv
    by (intro pmin_unit fl_unit expand_score nonneg_or_nan_arith(3))
      (use assms in \<open>auto intro: nonneg_or_nan_div nonneg_or_nan_consts\<close>)
  have t: "unit_range (trend_prob s imb)"
    unfolding trend_prob_def by (intro prob_intros) simp_all
  show ?thesis
    using e t chop_prob_unit [of ?c spread] range_prob_unit [OF assms(1), of ?c imb] fl_unit [of "99 / 100"]
    by (simp add: candidate_regime_def Let_def)
qed

lemma metrics_ranges:
  assumes "metrics L s = ret \<lparr>tm_velocity = tv, tm_rv = rv, tm_ofi = imb\<rparr>"
  shows "nonneg_or_nan tv" and "nonneg_or_nan rv"
proof -
  let ?n = "int (length (rc_ts s))" and ?e = "pmax (List.last (rc_ts s) - hd (rc_ts s)) 1"
  have ne: "rc_ts s \<noteq> []" using assms by (auto simp: metrics_def)
  obtain v r where v: "py_div (float_of_int ?n) ?e = ret v" "tv = round_nd 2 v"
    and r: "sqrt64 (pmax (rc_sum_sq_ret s) 0) = ret r" "rv = r"
    using assms ne unfolding metrics_def Let_def
    by (auto simp: ret_def raise_def bindR_eq_Inr)
  have "0 < ?e \<or> ?e = NaN"
    by (cases "List.last (rc_ts s) - hd (rc_ts s)") (auto simp: pmax_def zero_f64_Fin one_f64_Fin)
  moreover have "nonneg_or_nan (float_of_int ?n / NaN)" by (cases "float_of_int ?n") (auto simp: nonneg_or_nan_def)
  ultimately have "nonneg_or_nan (float_of_int ?n / ?e)"
    using nonneg_or_nan_div [of "float_of_int ?n" ?e] nonneg_or_nan_fl [of "of_int ?n"] by (auto simp: float_of_int_def)
  then have "nonneg_or_nan v" using v by (auto simp: py_div_def split: if_splits)
  then show "nonneg_or_nan tv"
    using round_nd_nonneg [of v 2] v(2) by (auto simp: nonneg_or_nan_def zero_f64_Fin)
  have "0 \<le> pmax (rc_sum_sq_ret s) 0 \<or> pmax (rc_sum_sq_ret s) 0 = NaN"
    by (cases "rc_sum_sq_ret s") (auto simp: pmax_def zero_f64_Fin)
  then show "nonneg_or_nan rv"
    using sqrt64_total [of "pmax (rc_sum_sq_ret s) 0"] r by (auto simp: nonneg_or_nan_def)
qed

definition gate_ok :: "classifier \<Rightarrow> bool" where
  "gate_ok s \<longleftrightarrow> ring_ok s \<and> unit_range (rc_stable_prob s)"

lemma gate_ok_step:
  assumes "gate_ok s"
  shows "gate_ok (regime_step L s x)"
proof -
  have ok: "ring_ok s" using assms by (simp add: gate_ok_def)
  have "unit_range (rc_stable_prob (regime_step L s x))"
  proof (cases rule: classify_tick_cases [OF ok, where L = L and x = x])
    case 1
    then show ?thesis using assms by (simp add: gate_ok_def hyst_view_def)
  next
    case (2 s2 rv tv imb k s3)
    have "unit_range (fst (snd (candidate_regime s2 (ti_news x) (tick_spread x) rv tv imb)))"
      using metrics_ranges [OF 2(5)] by (rule candidate_prob_unit [rotated])
    then have "unit_range (rc_stable_prob s3)"
      using 2(3) assms rc_of_view [OF 2(1)]
      by (auto simp: apply_hysteresis_def adopt_def gate_ok_def split: option.splits if_splits)
    then show ?thesis using rc_of_view [OF 2(4)] by simp
  qed
  then show ?thesis using regime_step_ok [OF ok] by (simp add: gate_ok_def)
qed

lemma gate_ok_init: "gate_ok (mk_classifier c)"
  using ring_ok_init [of c] by (simp add: gate_ok_def unit_range_def mk_classifier_def zero_f64_Fin one_f64_Fin)

interpretation gate: step_invariant "regime_step L" "mk_classifier c" gate_ok for L c
  by unfold_locales (rule gate_ok_init, rule gate_ok_step)

text \<open>Whatever ticks arrive and whatever the thresholds are, the probability behind the stable
  regime lies between 0 and 1 and the three ring buffers stay aligned within their capacity.\<close>

theorem regime_gate_invariant:
  "0 \<le> rc_stable_prob (run (regime_step L) (mk_classifier c) xs) \<and>
   rc_stable_prob (run (regime_step L) (mk_classifier c) xs) \<le> 1 \<and>
   length (rc_log_ret (run (regime_step L) (mk_classifier c) xs)) = length (rc_ts (run (regime_step L) (mk_classifier c) xs)) \<and>
   length (rc_ofi (run (regime_step L) (mk_classifier c) xs)) = length (rc_ts (run (regime_step L) (mk_classifier c) xs)) \<and>
   length (rc_ts (run (regime_step L) (mk_classifier c) xs)) \<le> cc_buffer (rc_cfg (run (regime_step L) (mk_classifier c) xs))"
  using gate.inv_run [of L c xs] by (simp add: gate_ok_def unit_range_def ring_ok_def)

section \<open>Samples\<close>

text \<open>A small configuration with exact thresholds, warm after one tick.\<close>

definition small_config :: classifier_config where
  "small_config = \<lparr>cc_symbol = ''XAUUSD'', cc_rolling_seconds = 300, cc_buffer = 8, cc_chop_enter = Fin (1 / 2),
     cc_chop_exit = Fin (1 / 4), cc_rv_enter = Fin (1 / 512), cc_rv_exit = Fin (1 / 1024), cc_tv_enter = Fin 20,
     cc_tv_exit = Fin 15, cc_ofi_trend = Fin (1 / 2), cc_price_trend = Fin (1 / 1024), cc_rv_floor = Fin (1 / 2048),
     cc_min_hold = Fin 4, cc_margin = Fin (1 / 8), cc_min_ticks = 1, cc_top_k = 5\<rparr>"

definition stable_sample :: "regime_type \<Rightarrow> classifier" where
  "stable_sample r = (mk_classifier small_config)\<lparr>rc_stable := Some r, rc_stable_prob := Fin 1, rc_stable_since := Fin 15\<rparr>"

definition quote_input :: "int \<Rightarrow> rat \<Rightarrow> bool \<Rightarrow> tick_input" where
  "quote_input sec spread news = \<lparr>ti_tick = \<lparr>t_symbol = ''XAUUSD'', t_timestamp = utc (sec * 1000000), t_bid = Fin 2000,
     t_ask = Fin (2000 + spread), t_last = 0, t_volume = 1, t_flags = 0\<rparr>, ti_news = news, ti_depth = None\<rparr>"

lemma stable_sample_ok: "ring_ok (stable_sample r)" "rc_stable (stable_sample r) = Some r"
  "rc_stable_since (stable_sample r) = Fin 15" "rc_stable_prob (stable_sample r) = Fin 1" "rc_cfg (stable_sample r) = small_config"
  by (simp_all add: ring_ok_def stable_sample_def mk_classifier_def)

lemma no_flapping_within_hold_witness:
  "rc_stable (run (regime_step step_math) (stable_sample TRENDING_MOMENTUM)
     [quote_input 16 1 False, quote_input 17 2 True]) = Some TRENDING_MOMENTUM"
proof -
  have "\<forall>x \<in> set [quote_input 16 1 False, quote_input 17 2 True].
      tick_sec x - rc_stable_since (stable_sample TRENDING_MOMENTUM) < cc_min_hold (rc_cfg (stable_sample TRENDING_MOMENTUM))"
    unfolding stable_sample_ok by code_simp
  then show ?thesis by (rule no_flapping_within_hold [OF stable_sample_ok(1,2)])
qed

lemma freeze_refused_by_margin_witness:
  "case classify_tick step_math (run (regime_step step_math) (stable_sample RANGING_MEAN_REVERSION)
       [quote_input 30 (1 / 4) True, quote_input 60 5 False]) (quote_input 90 7 True) of
     (out, s') \<Rightarrow> rc_stable s' = Some RANGING_MEAN_REVERSION \<and> (\<forall>m. out = ret m \<longrightarrow> mr_execution m \<noteq> FREEZE_ALL)"
proof -
  let ?s = "stable_sample RANGING_MEAN_REVERSION"
  have m: "fl (99 / 100) < rc_stable_prob ?s + cc_margin (rc_cfg ?s)"
    unfolding stable_sample_ok by code_simp
  have t: "\<forall>y \<in> set ([quote_input 30 (1 / 4) True, quote_input 60 5 False] @ [quote_input 90 7 True]).
      ti_news y \<or> cc_chop_enter (rc_cfg ?s) \<le> tick_spread y"
    unfolding stable_sample_ok by code_simp
  show ?thesis
    by (rule freeze_refused_by_margin [OF stable_sample_ok(1,2) _ m t]) (simp add: unsafe_regime_def)
qed

lemma chop_left_iff_spread_normal_witness:
  "\<exists>m. fst (classify_tick step_math (stable_sample HIGH_SPREAD_CHOP) (quote_input 20 (1 / 8) False)) = ret m \<and>
     mr_type m \<noteq> HIGH_SPREAD_CHOP"
proof -
  let ?s = "stable_sample HIGH_SPREAD_CHOP" and ?x = "quote_input 20 (1 / 8) False"
  have "case fst (classify_tick step_math ?s ?x) of Inl e \<Rightarrow> False | Inr m \<Rightarrow> mr_reason m \<noteq> R_WARMUP"
    by code_simp
  then obtain m where m: "fst (classify_tick step_math ?s ?x) = ret m" "mr_reason m \<noteq> R_WARMUP"
    by (auto simp: ret_def split: sum.splits)
  have h: "\<not> tick_sec ?x - rc_stable_since ?s < cc_min_hold (rc_cfg ?s)" "\<not> ti_news ?x"
    "\<not> cc_chop_exit (rc_cfg ?s) \<le> tick_spread ?x"
    unfolding stable_sample_ok by code_simp+
  show ?thesis
    using chop_left_iff_spread_normal [OF stable_sample_ok(1,2) h(2,1) m] h(3) m(1) by auto
qed

end
