(* ===== verification/RuleMatrix.thy ===== *)
theory RuleMatrix
  imports RegimeClassifier Domain PyText
begin

text \<open>
  The rule matrix (\<^verbatim>\<open>signals/rule_matrix.py\<close>): the cached rule states, the twelve entry rules,
  the pre-trade filters, the in-trade exits and the risk safeguards. Attributes the rules read
  with a default when they are missing are options of the feature record; the local clock, the
  stamp in the request id and the rows of the database are arguments.
\<close>

section \<open>The rule cache\<close>

text \<open>The parameter text of a row, as \<^verbatim>\<open>json.loads\<close> classifies it.\<close>

datatype param_text = NoText | Text json | BadText

record rule_row =
  rw_name :: string
  rw_enabled :: bool
  rw_params :: param_text

record rule_engine =
  re_cache :: "string \<Rightarrow> (bool \<times> json) option"
  re_last_refresh :: f64

definition row_entry :: "rule_row \<Rightarrow> bool \<times> json" where
  "row_entry r = (rw_enabled r, case rw_params r of Text j \<Rightarrow> j | _ \<Rightarrow> JObj [])"

definition refresh_cache :: "f64 \<Rightarrow> bool \<Rightarrow> f64 \<Rightarrow> rule_row list option \<Rightarrow> rule_engine \<Rightarrow> rule_engine" where
  "refresh_cache now force ttl rows R =
     (if \<not> force \<and> now - re_last_refresh R < ttl then R
      else case rows of
        None \<Rightarrow> R
      | Some rs \<Rightarrow>
          if \<exists>r \<in> set rs. rw_params r = BadText then R
          else R\<lparr>re_cache := fold (\<lambda>r m. m(rw_name r \<mapsto> row_entry r)) rs Map.empty, re_last_refresh := now\<rparr>)"

definition rule_enabled :: "string \<Rightarrow> rule_engine \<Rightarrow> bool" where
  "rule_enabled n R = (case re_cache R n of None \<Rightarrow> False | Some e \<Rightarrow> fst e)"

definition rule_params :: "string \<Rightarrow> rule_engine \<Rightarrow> json" where
  "rule_params n R = (case re_cache R n of None \<Rightarrow> JObj [] | Some e \<Rightarrow> snd e)"

section \<open>Inputs\<close>

record regime_view =
  rg_type :: regime_type
  rg_tick_velocity :: f64
  rg_order_flow_imbalance :: f64

record feature_view =
  fv_fvg_bullish :: bool
  fv_fvg_bearish :: bool
  fv_broke_high :: bool
  fv_broke_low :: bool
  fv_displacement :: f64
  fv_order_block :: int
  fv_z_score :: f64
  fv_at_high :: bool
  fv_at_low :: bool
  fv_rsi_m15 :: "f64 option"
  fv_sweep :: int
  fv_h4_trend :: f64

record rule_input =
  ri_tick :: tick_data
  ri_fv :: feature_view
  ri_regime :: "regime_view option"
  ri_probs :: "f64 list"
  ri_now :: py_datetime
  ri_stamp :: string

section \<open>Entry rules\<close>

definition rule_proposal ::
    "rule_input \<Rightarrow> string \<Rightarrow> action_type \<Rightarrow> f64 \<Rightarrow> f64 \<Rightarrow> f64 \<Rightarrow> f64 \<Rightarrow> f64 \<Rightarrow> trade_proposal res" where
  "rule_proposal x name action conf entry sl tp rr =
     mk_proposal
       \<lparr>p_request_id = name @ ''_'' @ ri_stamp x, p_execution_id = None, p_symbol = t_symbol (ri_tick x),
        p_generated_at = t_timestamp (ri_tick x), p_action = action, p_confidence = conf,
        p_proposed_entry = entry, p_stop_loss = sl, p_take_profit = tp, p_risk_reward_ratio = rr,
        p_reason_code = name, p_ticket = 0, p_volume = None, p_decision_stage = None, p_blocked_by = None,
        p_reversal_action = None, p_is_ai_reversal = False\<rparr>"

text \<open>A market entry with fixed distances: confidence, stop and target distance, ratio.\<close>

definition fixed_entry ::
    "rule_input \<Rightarrow> string \<Rightarrow> bool \<Rightarrow> f64 \<Rightarrow> f64 \<Rightarrow> f64 \<Rightarrow> f64 \<Rightarrow> trade_proposal option res" where
  "fixed_entry x name buy conf sl_dist tp_dist rr =
     (let entry = (if buy then t_ask (ri_tick x) else t_bid (ri_tick x));
          sl = round_nd 2 (if buy then entry - sl_dist else entry + sl_dist);
          tp = round_nd 2 (if buy then entry + tp_dist else entry - tp_dist)
      in bindR (rule_proposal x name (if buy then BUY_MARKET else SELL_MARKET) conf entry sl tp rr)
           (\<lambda>p. ret (Some p)))"

definition prob_at :: "rule_input \<Rightarrow> nat \<Rightarrow> f64 res" where
  "prob_at x n = (if n < length (ri_probs x) then ret (ri_probs x ! n) else raise IndexError)"

text \<open>\<^verbatim>\<open>probs[1] > probs[2]\<close>\<close>

definition probs_favour_buy :: "rule_input \<Rightarrow> bool res" where
  "probs_favour_buy x = bindR (prob_at x 1) (\<lambda>b. bindR (prob_at x 2) (\<lambda>s. ret (s < b)))"

definition fvg_sniper_fill :: "rule_input \<Rightarrow> trade_proposal option res" where
  "fvg_sniper_fill x =
     (if fv_fvg_bullish (ri_fv x) then
        fixed_entry x ''RULE_FVG_SNIPER_FILL'' True (fl (90 / 100)) (Fin (3 / 2)) (Fin (5 / 2)) (fl (167 / 100))
      else if fv_fvg_bearish (ri_fv x) then
        fixed_entry x ''RULE_FVG_SNIPER_FILL'' False (fl (90 / 100)) (Fin (3 / 2)) (Fin (5 / 2)) (fl (167 / 100))
      else ret None)"

definition judas_swing_fade :: "rule_input \<Rightarrow> trade_proposal option res" where
  "judas_swing_fade x =
     (let d = fv_displacement (ri_fv x) in
      if fv_broke_high (ri_fv x) \<and> d < - fl (30 / 100) then
        fixed_entry x ''RULE_JUDAS_SWING_FADE'' False (fl (88 / 100)) (fl (18 / 10)) (fl (22 / 10)) (fl (122 / 100))
      else if fv_broke_low (ri_fv x) \<and> fl (30 / 100) < d then
        fixed_entry x ''RULE_JUDAS_SWING_FADE'' True (fl (88 / 100)) (fl (18 / 10)) (fl (22 / 10)) (fl (122 / 100))
      else ret None)"

definition orderblock_tap_reserve :: "rule_input \<Rightarrow> trade_proposal option res" where
  "orderblock_tap_reserve x =
     (if fv_order_block (ri_fv x) = 1 then
        fixed_entry x ''RULE_ORDERBLOCK_TAP_RESERVE'' True (fl (85 / 100)) (fl (12 / 10)) (Fin 2) (fl (167 / 100))
      else if fv_order_block (ri_fv x) = - 1 then
        fixed_entry x ''RULE_ORDERBLOCK_TAP_RESERVE'' False (fl (85 / 100)) (fl (12 / 10)) (Fin 2) (fl (167 / 100))
      else ret None)"

definition wick_absorption_play :: "rule_input \<Rightarrow> trade_proposal option res" where
  "wick_absorption_play x =
     (let d = fv_displacement (ri_fv x) in
      if fl (80 / 100) < d then
        fixed_entry x ''RULE_WICK_ABSORPTION_PLAY'' False (fl (80 / 100)) (Fin 1) (Fin (3 / 2)) (Fin (3 / 2))
      else if d < - fl (80 / 100) then
        fixed_entry x ''RULE_WICK_ABSORPTION_PLAY'' True (fl (80 / 100)) (Fin 1) (Fin (3 / 2)) (Fin (3 / 2))
      else ret None)"

definition flash_momentum_scrape :: "rule_input \<Rightarrow> trade_proposal option res" where
  "flash_momentum_scrape x =
     (let tv = (case ri_regime x of Some g \<Rightarrow> rg_tick_velocity g | None \<Rightarrow> 0) in
      if Fin 15 \<le> tv then
        bindR (probs_favour_buy x) (\<lambda>buy.
          fixed_entry x ''RULE_FLASH_MOMENTUM_SCRAPE'' buy (fl (95 / 100)) (Fin (3 / 2)) (Fin 3) (Fin 2))
      else ret None)"

definition tick_imbalance_reversal :: "rule_input \<Rightarrow> trade_proposal option res" where
  "tick_imbalance_reversal x =
     (let ofi = (case ri_regime x of Some g \<Rightarrow> rg_order_flow_imbalance g | None \<Rightarrow> 0) in
      if ofi \<le> - fl (80 / 100) then
        fixed_entry x ''RULE_TICK_IMBALANCE_REVERSAL'' True (fl (87 / 100)) (fl (11 / 10)) (fl (18 / 10)) (fl (163 / 100))
      else if fl (80 / 100) \<le> ofi then
        fixed_entry x ''RULE_TICK_IMBALANCE_REVERSAL'' False (fl (87 / 100)) (fl (11 / 10)) (fl (18 / 10)) (fl (163 / 100))
      else ret None)"

definition news_spike_fade :: "rule_input \<Rightarrow> trade_proposal option res" where
  "news_spike_fade x =
     (case ri_regime x of
        None \<Rightarrow> ret None
      | Some g \<Rightarrow>
          if rg_type g = MACRO_NEWS_FREEZE \<and> Fin (5 / 2) \<le> fabs64 (fv_displacement (ri_fv x)) then
            fixed_entry x ''RULE_NEWS_SPIKE_FADE'' (\<not> 0 < fv_displacement (ri_fv x)) (fl (85 / 100))
              (Fin 3) (Fin (9 / 2)) (Fin (3 / 2))
          else ret None)"

definition end_of_hour_squeeze :: "rule_input \<Rightarrow> trade_proposal option res" where
  "end_of_hour_squeeze x =
     (if minute_of (ri_now x) = 59 then
        bindR (probs_favour_buy x) (\<lambda>buy.
          fixed_entry x ''RULE_END_OF_HOUR_SQUEEZE'' buy (fl (82 / 100)) (Fin (3 / 2)) (Fin 2) (fl (133 / 100)))
      else ret None)"

definition vwap_elastic_band :: "rule_input \<Rightarrow> trade_proposal option res" where
  "vwap_elastic_band x =
     (let z = fv_z_score (ri_fv x) in
      if Fin (7 / 2) \<le> z then
        fixed_entry x ''RULE_VWAP_ELASTIC_BAND'' False (fl (91 / 100)) (Fin (3 / 2)) (Fin (5 / 2)) (fl (167 / 100))
      else if z \<le> Fin (- 7 / 2) then
        fixed_entry x ''RULE_VWAP_ELASTIC_BAND'' True (fl (91 / 100)) (Fin (3 / 2)) (Fin (5 / 2)) (fl (167 / 100))
      else ret None)"

definition bollinger_burst_fade :: "rule_input \<Rightarrow> trade_proposal option res" where
  "bollinger_burst_fade x =
     (if fv_at_high (ri_fv x) then
        fixed_entry x ''RULE_BOLLINGER_BURST_FADE'' False (fl (84 / 100)) (fl (16 / 10)) (fl (22 / 10)) (fl (138 / 100))
      else if fv_at_low (ri_fv x) then
        fixed_entry x ''RULE_BOLLINGER_BURST_FADE'' True (fl (84 / 100)) (fl (16 / 10)) (fl (22 / 10)) (fl (138 / 100))
      else ret None)"

definition gap_and_go_momentum :: "rule_input \<Rightarrow> trade_proposal option res" where
  "gap_and_go_momentum x =
     (if weekday (ri_now x) = 0 \<and> hour_of (ri_now x) = 0 \<and> minute_of (ri_now x) = 0 then
        bindR (probs_favour_buy x) (\<lambda>buy.
          fixed_entry x ''RULE_GAP_AND_GO_MOMENTUM'' buy (fl (81 / 100)) (Fin (3 / 2)) (Fin 2) (fl (133 / 100)))
      else ret None)"

definition contrarian_retail_trap :: "rule_input \<Rightarrow> trade_proposal option res" where
  "contrarian_retail_trap x =
     (let rsi = (case fv_rsi_m15 (ri_fv x) of Some r \<Rightarrow> r | None \<Rightarrow> Fin 50) in
      if Fin 85 < rsi then
        fixed_entry x ''RULE_CONTRARIAN_RETAIL_TRAP'' False (fl (89 / 100)) (fl (14 / 10)) (fl (24 / 10)) (fl (171 / 100))
      else if rsi < Fin 15 then
        fixed_entry x ''RULE_CONTRARIAN_RETAIL_TRAP'' True (fl (89 / 100)) (fl (14 / 10)) (fl (24 / 10)) (fl (171 / 100))
      else ret None)"

text \<open>The entry rules in the order the evaluation tries them, each under its name.\<close>

definition entry_rules :: "(string \<times> (rule_input \<Rightarrow> trade_proposal option res)) list" where
  "entry_rules =
     [(''RULE_FVG_SNIPER_FILL'', fvg_sniper_fill), (''RULE_JUDAS_SWING_FADE'', judas_swing_fade),
      (''RULE_ORDERBLOCK_TAP_RESERVE'', orderblock_tap_reserve),
      (''RULE_WICK_ABSORPTION_PLAY'', wick_absorption_play),
      (''RULE_FLASH_MOMENTUM_SCRAPE'', flash_momentum_scrape),
      (''RULE_TICK_IMBALANCE_REVERSAL'', tick_imbalance_reversal),
      (''RULE_NEWS_SPIKE_FADE'', news_spike_fade), (''RULE_END_OF_HOUR_SQUEEZE'', end_of_hour_squeeze),
      (''RULE_VWAP_ELASTIC_BAND'', vwap_elastic_band), (''RULE_BOLLINGER_BURST_FADE'', bollinger_burst_fade),
      (''RULE_GAP_AND_GO_MOMENTUM'', gap_and_go_momentum),
      (''RULE_CONTRARIAN_RETAIL_TRAP'', contrarian_retail_trap)]"

fun first_rule ::
    "(string \<times> (rule_input \<Rightarrow> trade_proposal option res)) list \<Rightarrow> rule_engine \<Rightarrow> rule_input \<Rightarrow> trade_proposal option res" where
  "first_rule [] R x = ret None"
| "first_rule ((name, rule) # rs) R x =
     (if rule_enabled name R then
        bindR (rule x) (\<lambda>p. case p of Some q \<Rightarrow> ret (Some q) | None \<Rightarrow> first_rule rs R x)
      else first_rule rs R x)"

definition evaluate_pre_trade_entry :: "rule_engine \<Rightarrow> rule_input \<Rightarrow> trade_proposal option res" where
  "evaluate_pre_trade_entry = first_rule entry_rules"

section \<open>Filters, exits and safeguards\<close>

definition killzone_blocks :: "py_datetime \<Rightarrow> bool" where
  "killzone_blocks now \<longleftrightarrow> hour_of now < 12 \<or> 16 < hour_of now"

definition asian_session :: "py_datetime \<Rightarrow> bool" where
  "asian_session now \<longleftrightarrow> 22 \<le> hour_of now \<or> hour_of now < 6"

definition dead_zone :: "py_datetime \<Rightarrow> bool" where
  "dead_zone now \<longleftrightarrow> hour_of now = 23 \<and> 55 \<le> minute_of now \<or> hour_of now = 0 \<and> minute_of now \<le> 5"

definition spread_blocks :: "rule_input \<Rightarrow> bool" where
  "spread_blocks x \<longleftrightarrow>
     (case ri_regime x of Some g \<Rightarrow> rg_type g = HIGH_SPREAD_CHOP | None \<Rightarrow> False)
     \<or> Fin (1 / 4) < t_ask (ri_tick x) - t_bid (ri_tick x)"

definition evaluate_pre_trade_filters :: "rule_engine \<Rightarrow> rule_input \<Rightarrow> string option" where
  "evaluate_pre_trade_filters R x =
     (if rule_enabled ''RULE_LIQUIDITY_SWEEP_CONFIRM'' R \<and> fv_sweep (ri_fv x) = 0
      then Some ''BLOCKED_BY_RULE_LIQUIDITY_SWEEP_CONFIRM''
      else if rule_enabled ''RULE_SPREAD_SQUEEZE_ONLY'' R \<and> spread_blocks x
      then Some ''BLOCKED_BY_RULE_SPREAD_SQUEEZE_ONLY''
      else if rule_enabled ''RULE_LONDON_NY_KILLZONE_ONLY'' R \<and> killzone_blocks (ri_now x)
      then Some ''BLOCKED_BY_RULE_LONDON_NY_KILLZONE_ONLY''
      else if rule_enabled ''RULE_ASIAN_RANGE_FAKEOUT'' R \<and> asian_session (ri_now x)
          \<and> (fv_broke_high (ri_fv x) \<or> fv_broke_low (ri_fv x))
      then Some ''BLOCKED_BY_RULE_ASIAN_RANGE_FAKEOUT''
      else if rule_enabled ''RULE_DEAD_ZONE_BLOCKER'' R \<and> dead_zone (ri_now x)
      then Some ''BLOCKED_BY_RULE_DEAD_ZONE_BLOCKER''
      else if rule_enabled ''RULE_AI_MACRO_ALIGNMENT'' R \<and> fv_h4_trend (ri_fv x) < Fin (- 1 / 2)
      then Some ''BLOCKED_BY_RULE_AI_MACRO_ALIGNMENT''
      else None)"

datatype rule_exit = RX_CLOSE string | RX_MODIFY_SL f64 string

definition RULE_PIP :: f64 where "RULE_PIP = fl (1 / 10)"

text \<open>A stop target is used when it moves the stop in favour of the trade.\<close>

definition favourable_sl :: "position \<Rightarrow> f64 \<Rightarrow> bool" where
  "favourable_sl p sl \<longleftrightarrow>
     pos_type p = BUY \<and> pos_sl p < sl \<or> pos_type p = SELL \<and> (feq (pos_sl p) 0 \<or> sl < pos_sl p)"

definition zero_drawdown_trail :: "position \<Rightarrow> f64 \<Rightarrow> rule_exit option res" where
  "zero_drawdown_trail p price =
     bindR (py_div (if pos_type p = BUY then price - pos_price_open p else pos_price_open p - price) RULE_PIP)
       (\<lambda>pips. if Fin 2 \<le> pips then
           (let sl = (if pos_type p = BUY then pos_price_open p + Fin 1 * RULE_PIP
                      else pos_price_open p - Fin 1 * RULE_PIP)
            in ret (if favourable_sl p sl then Some (RX_MODIFY_SL sl ''RULE_ZERO_DRAWDOWN_TRAIL'') else None))
         else ret None)"

definition atr_expansion_ratchet :: "position \<Rightarrow> f64 \<Rightarrow> f64 \<Rightarrow> rule_exit option" where
  "atr_expansion_ratchet p price atr =
     (if 0 < pos_profit p \<and> Fin 2 \<le> atr then
        (let sl = (if pos_type p = BUY then price - atr * Fin (1 / 2) else price + atr * Fin (1 / 2))
         in if favourable_sl p sl then Some (RX_MODIFY_SL sl ''RULE_ATR_EXPANSION_RATCHET'') else None)
      else None)"

definition evaluate_in_trade_exits :: "rule_engine \<Rightarrow> position \<Rightarrow> f64 \<Rightarrow> f64 \<Rightarrow> f64 \<Rightarrow> rule_exit option res" where
  "evaluate_in_trade_exits R p held price atr =
     (if rule_enabled ''RULE_HIT_AND_RUN_EXIT'' R \<and> 0 < pos_profit p \<and> Fin 240 \<le> held
      then ret (Some (RX_CLOSE ''RULE_HIT_AND_RUN_EXIT''))
      else bindR (if rule_enabled ''RULE_ZERO_DRAWDOWN_TRAIL'' R then zero_drawdown_trail p price else ret None)
        (\<lambda>z. case z of Some e \<Rightarrow> ret (Some e)
         | None \<Rightarrow>
             if rule_enabled ''RULE_TIME_DECAY_CHOP_EXIT'' R \<and> pos_profit p \<le> 0 \<and> Fin 240 \<le> held
             then ret (Some (RX_CLOSE ''RULE_TIME_DECAY_CHOP_EXIT''))
             else if rule_enabled ''RULE_ATR_EXPANSION_RATCHET'' R then ret (atr_expansion_ratchet p price atr)
             else ret None))"

definition pct_of_peak :: "f64 \<Rightarrow> f64 \<Rightarrow> f64 res" where
  "pct_of_peak diff peak = (if 0 < peak then bindR (py_div diff peak) (\<lambda>q. ret (q * Fin 100)) else ret 0)"

definition evaluate_risk_and_safeguards :: "rule_engine \<Rightarrow> f64 \<Rightarrow> f64 \<Rightarrow> int \<Rightarrow> string option res" where
  "evaluate_risk_and_safeguards R equity peak losses =
     (if rule_enabled ''RULE_CONSECUTIVE_LOSS_FREEZE'' R \<and> 3 \<le> losses then ret (Some ''FREEZE_CONSECUTIVE_LOSSES'')
      else bindR (if rule_enabled ''RULE_DAILY_TARGET_LOCK'' R then pct_of_peak (equity - peak) peak else ret 0)
        (\<lambda>growth. if rule_enabled ''RULE_DAILY_TARGET_LOCK'' R \<and> Fin 2 \<le> growth then ret (Some ''DAILY_TARGET_LOCKED'')
         else bindR (if rule_enabled ''RULE_CORRELATED_DRAWDOWN_CAP'' R then pct_of_peak (peak - equity) peak else ret 0)
           (\<lambda>dd. if rule_enabled ''RULE_CORRELATED_DRAWDOWN_CAP'' R \<and> Fin 3 \<le> dd
              then ret (Some ''BLOCKED_CORRELATED_DRAWDOWN'') else ret None)))"

section \<open>Entries on a gold-like price\<close>

lemma rnd_near:
  assumes "\<bar>x\<bar> \<le> 4194304"
  shows "\<bar>rnd x - x\<bar> \<le> 1 / 1000" and "fl x = Fin (rnd x)"
proof -
  have "\<bar>x\<bar> * pow2 (- 53) \<le> 4194304 * pow2 (- 53)" using assms by (intro mult_right_mono) auto
  also have "\<dots> = pow2 (22 + - 53)" unfolding pow2_add by (simp add: pow2_def)
  also have "\<dots> = 1 / 2 ^ 31" by (simp add: pow2_def)
  finally have 1: "\<bar>x\<bar> * pow2 (- 53) \<le> 1 / 2 ^ 31" .
  have "pow2 (- 1075) \<le> pow2 (- 31)" by (rule pow2_mono) simp
  also have "\<dots> = 1 / 2 ^ 31" by (simp add: pow2_def)
  finally have "\<bar>x\<bar> * pow2 (- 53) + pow2 (- 1075) \<le> 1 / 2 ^ 31 + 1 / 2 ^ 31" using 1 by simp
  then show e: "\<bar>rnd x - x\<bar> \<le> 1 / 1000" using rnd_error [of x] by simp
  have "(8388608::rat) = pow2 23" by (simp add: pow2_def)
  also have "\<dots> < pow2 1024" by (rule pow2_less) simp
  finally have "\<bar>rnd x\<bar> < pow2 1024" using assms e by linarith
  then show "fl x = Fin (rnd x)" by (rule fl_Fin)
qed

lemma round_2_near:
  assumes "\<bar>y\<bar> \<le> 2097152"
  shows "\<exists>z. round_nd 2 (fl y) = Fin z \<and> \<bar>z - y\<bar> \<le> 1 / 100"
proof -
  define a where "a = rnd y"
  define q where "q = of_int (rhe (a * 100)) / (100 :: rat)"
  have a: "fl y = Fin a" "\<bar>a - y\<bar> \<le> 1 / 1000" using rnd_near [of y] assms by (simp_all add: a_def)
  have "\<bar>of_int (rhe (a * 100)) - a * 100\<bar> \<le> (1 :: rat) / 2" by (rule rhe_error)
  then have q: "\<bar>q - a\<bar> \<le> 1 / 200" by (simp add: q_def abs_le_iff field_simps)
  then have "\<bar>q\<bar> \<le> 4194304" using a(2) assms by linarith
  then have r: "fl q = Fin (rnd q)" "\<bar>rnd q - q\<bar> \<le> 1 / 1000" using rnd_near [of q] by simp_all
  have "round_nd 2 (fl y) = Fin (rnd q)" by (simp add: a(1) q_def [symmetric] r(1))
  moreover have "\<bar>rnd q - y\<bar> \<le> 1 / 100" using a(2) q r(2) by linarith
  ultimately show ?thesis by blast
qed

text \<open>A distance between 1 and 5, and a tick of an instrument priced between 8 and a million.\<close>

definition fair_dist :: "f64 \<Rightarrow> bool" where
  "fair_dist d \<longleftrightarrow> Fin 1 \<le> d \<and> d \<le> Fin 5"

definition gold_tick :: "tick_data \<Rightarrow> bool" where
  "gold_tick t \<longleftrightarrow> Fin 8 \<le> t_bid t \<and> t_bid t \<le> t_ask t \<and> t_ask t \<le> Fin 1048576"

lemma entry_geometry:
  assumes "Fin 8 \<le> e" "e \<le> Fin 1048576" "fair_dist d"
  shows "0 < round_nd 2 (e - d)" "round_nd 2 (e - d) < e" "e < round_nd 2 (e + d)"
proof -
  obtain x where x: "e = Fin x" "8 \<le> x" "x \<le> 1048576" using assms(1,2) by (cases e) auto
  obtain r where r: "d = Fin r" "1 \<le> r" "r \<le> 5" using assms(3) by (cases d) (auto simp: fair_dist_def)
  obtain z where z: "round_nd 2 (fl (x - r)) = Fin z" "\<bar>z - (x - r)\<bar> \<le> 1 / 100"
    using round_2_near [of "x - r"] x r by (auto simp: abs_le_iff)
  obtain w where w: "round_nd 2 (fl (x + r)) = Fin w" "\<bar>w - (x + r)\<bar> \<le> 1 / 100"
    using round_2_near [of "x + r"] x r by (auto simp: abs_le_iff)
  have s: "e - d = fl (x - r)" "e + d = fl (x + r)" by (simp_all add: x r minus_f64_def)
  have "0 < z" "z < x" "x < w" using x(2,3) r(2,3) z(2) w(2) by linarith+
  then show "0 < round_nd 2 (e - d)" "round_nd 2 (e - d) < e" "e < round_nd 2 (e + d)"
    unfolding s z(1) w(1) unfolding x(1) zero_f64_Fin by simp_all
qed

text \<open>The geometry every entry of a rule has.\<close>

definition entry_ok :: "rule_input \<Rightarrow> trade_proposal \<Rightarrow> bool" where
  "entry_ok x p \<longleftrightarrow>
     (p_action p = BUY_MARKET \<and> p_proposed_entry p = t_ask (ri_tick x)
        \<and> p_stop_loss p < p_proposed_entry p \<and> p_proposed_entry p < p_take_profit p
      \<or> p_action p = SELL_MARKET \<and> p_proposed_entry p = t_bid (ri_tick x)
        \<and> p_proposed_entry p < p_stop_loss p \<and> p_take_profit p < p_proposed_entry p)
     \<and> 0 < p_stop_loss p \<and> 0 < p_take_profit p"

definition rule_ok :: "rule_input \<Rightarrow> string \<Rightarrow> trade_proposal option res \<Rightarrow> bool" where
  "rule_ok x name r \<longleftrightarrow> r = ret None \<or> (\<exists>p. r = ret (Some p) \<and> entry_ok x p \<and> p_reason_code p = name)"

lemma f64_less_not_le: "(a::f64) < b \<Longrightarrow> \<not> b \<le> a"
  using f64_le_less_trans [of b a b] by auto

lemma fixed_entry_ok:
  assumes g: "gold_tick (ri_tick x)" and d: "fair_dist sl_dist" "fair_dist tp_dist"
    and c: "0 \<le> conf" "conf \<le> 1" "0 < rr"
  shows "rule_ok x name (fixed_entry x name buy conf sl_dist tp_dist rr)"
proof -
  define e where "e = (if buy then t_ask (ri_tick x) else t_bid (ri_tick x))"
  have e: "Fin 8 \<le> e" "e \<le> Fin 1048576"
    using g by (auto simp: e_def gold_tick_def intro: f64_le_trans)
  note gs = entry_geometry [OF e d(1)] and gt = entry_geometry [OF e d(2)]
  have p: "0 < e" using e(1) by (cases e) (auto simp: zero_f64_Fin)
  have q: "0 < round_nd 2 (e + sl_dist)" "0 < round_nd 2 (e + tp_dist)"
    using f64_less_trans [OF p gs(3)] f64_less_trans [OF p gt(3)] by auto
  show ?thesis
    using gs gt p q c
    by (cases buy)
      (auto simp: fixed_entry_def rule_ok_def rule_proposal_def mk_proposal_def validate_action_price_invariants_def
        entry_ok_def Let_def e_def buy_actions_def sell_actions_def f64_less_not_le)
qed

lemma fair_fl: "1 \<le> q \<Longrightarrow> q \<le> 5 \<Longrightarrow> fair_dist (fl q)"
  using fl_mono [of 1 q] fl_mono [of q 5] by (simp add: fair_dist_def)

lemma fair_Fin: "fair_dist (Fin q) \<longleftrightarrow> 1 \<le> q \<and> q \<le> 5"
  by (simp add: fair_dist_def)

lemma unit_fl: "0 \<le> q \<Longrightarrow> 0 \<le> fl q" "q \<le> 1 \<Longrightarrow> fl q \<le> 1" "1 \<le> q \<Longrightarrow> 0 < fl q"
  using fl_mono [of 0 q] fl_mono [of q 1] f64_less_le_trans [of "Fin 0" "Fin 1" "fl q"] fl_mono [of 1 q]
  by (simp_all add: zero_f64_Fin one_f64_Fin)

lemma pos_Fin: "0 < Fin q \<longleftrightarrow> 0 < q"
  by (simp add: zero_f64_Fin)

lemmas fixed_ok = fixed_entry_ok fair_fl fair_Fin unit_fl pos_Fin

lemma rule_ok_None [simp]: "rule_ok x n (ret None)"
  by (simp add: rule_ok_def)

lemma probs_favour_total: "3 \<le> length (ri_probs x) \<Longrightarrow> \<exists>b. probs_favour_buy x = ret b"
  by (simp add: probs_favour_buy_def prob_at_def)

lemma entry_rules_ok:
  assumes g: "gold_tick (ri_tick x)" and "3 \<le> length (ri_probs x)" and r: "(n, rule) \<in> set entry_rules"
  shows "rule_ok x n (rule x)"
proof -
  obtain b where b: "probs_favour_buy x = ret b" using probs_favour_total assms(2) by blast
  note f = fixed_entry_ok [OF g]
  have "rule_ok x ''RULE_FVG_SNIPER_FILL'' (fvg_sniper_fill x)"
    by (auto simp: fvg_sniper_fill_def intro!: f fair_fl unit_fl simp: fair_Fin)
  moreover have "rule_ok x ''RULE_JUDAS_SWING_FADE'' (judas_swing_fade x)"
    by (auto simp: judas_swing_fade_def Let_def intro!: f fair_fl unit_fl simp: fair_Fin)
  moreover have "rule_ok x ''RULE_ORDERBLOCK_TAP_RESERVE'' (orderblock_tap_reserve x)"
    by (auto simp: orderblock_tap_reserve_def intro!: f fair_fl unit_fl simp: fair_Fin)
  moreover have "rule_ok x ''RULE_WICK_ABSORPTION_PLAY'' (wick_absorption_play x)"
    by (auto simp: wick_absorption_play_def Let_def intro!: f fair_fl unit_fl simp: fair_Fin pos_Fin)
  moreover have "rule_ok x ''RULE_FLASH_MOMENTUM_SCRAPE'' (flash_momentum_scrape x)"
    by (auto simp: flash_momentum_scrape_def Let_def b intro!: f fair_fl unit_fl simp: fair_Fin pos_Fin)
  moreover have "rule_ok x ''RULE_TICK_IMBALANCE_REVERSAL'' (tick_imbalance_reversal x)"
    by (auto simp: tick_imbalance_reversal_def Let_def intro!: f fair_fl unit_fl simp: fair_Fin)
  moreover have "rule_ok x ''RULE_NEWS_SPIKE_FADE'' (news_spike_fade x)"
    by (auto simp: news_spike_fade_def intro!: f fair_fl unit_fl simp: fair_Fin pos_Fin split: option.split)
  moreover have "rule_ok x ''RULE_END_OF_HOUR_SQUEEZE'' (end_of_hour_squeeze x)"
    by (auto simp: end_of_hour_squeeze_def b intro!: f fair_fl unit_fl simp: fair_Fin)
  moreover have "rule_ok x ''RULE_VWAP_ELASTIC_BAND'' (vwap_elastic_band x)"
    by (auto simp: vwap_elastic_band_def Let_def intro!: f fair_fl unit_fl simp: fair_Fin)
  moreover have "rule_ok x ''RULE_BOLLINGER_BURST_FADE'' (bollinger_burst_fade x)"
    by (auto simp: bollinger_burst_fade_def intro!: f fair_fl unit_fl simp: fair_Fin)
  moreover have "rule_ok x ''RULE_GAP_AND_GO_MOMENTUM'' (gap_and_go_momentum x)"
    by (auto simp: gap_and_go_momentum_def b intro!: f fair_fl unit_fl simp: fair_Fin)
  moreover have "rule_ok x ''RULE_CONTRARIAN_RETAIL_TRAP'' (contrarian_retail_trap x)"
    by (auto simp: contrarian_retail_trap_def Let_def intro!: f fair_fl unit_fl simp: fair_Fin)
  ultimately show ?thesis using r by (auto simp: entry_rules_def)
qed

lemma first_rule_ok:
  assumes "\<forall>(n, rule) \<in> set rs. rule_ok x n (rule x)"
  shows "first_rule rs R x = ret None \<or>
    (\<exists>p. first_rule rs R x = ret (Some p) \<and> entry_ok x p \<and> rule_enabled (p_reason_code p) R)"
  using assms
proof (induction rs)
  case (Cons e rs)
  obtain n rule where e: "e = (n, rule)" by (cases e)
  have "rule_ok x n (rule x)" using Cons.prems e by simp
  with Cons e show ?case by (auto simp: rule_ok_def)
qed simp

text \<open>On an instrument priced like gold the entry rules are sound. For every enabled set,
  every feature vector and regime, with three probabilities, and a tick between 8 and 1048576,
  the evaluation never raises, and a proposal it returns comes from an enabled rule, enters at
  the ask (buy) or bid (sell), and has its stop and target on the right sides of the entry.\<close>

theorem rule_entries_sound:
  assumes "gold_tick (ri_tick x)" and "3 \<le> length (ri_probs x)"
  shows "evaluate_pre_trade_entry R x = ret None \<or>
    (\<exists>p. evaluate_pre_trade_entry R x = ret (Some p) \<and> entry_ok x p \<and> rule_enabled (p_reason_code p) R)"
  unfolding evaluate_pre_trade_entry_def
  by (rule first_rule_ok) (use entry_rules_ok [OF assms] in auto)

definition sample_features :: feature_view where
  "sample_features = \<lparr>fv_fvg_bullish = True, fv_fvg_bearish = False, fv_broke_high = False, fv_broke_low = False,
     fv_displacement = 0, fv_order_block = 0, fv_z_score = 0, fv_at_high = False, fv_at_low = False,
     fv_rsi_m15 = None, fv_sweep = 0, fv_h4_trend = 0\<rparr>"

definition sample_rule_input :: "f64 \<Rightarrow> rule_input" where
  "sample_rule_input ask = \<lparr>ri_tick = \<lparr>t_symbol = ''X'', t_timestamp = utc 0, t_bid = ask - Fin (1 / 8), t_ask = ask,
       t_last = ask, t_volume = 0, t_flags = 0\<rparr>,
     ri_fv = sample_features, ri_regime = None, ri_probs = [0, 1, 0], ri_now = utc 0, ri_stamp = ''0''\<rparr>"

definition sample_rules :: rule_engine where
  "sample_rules = \<lparr>re_cache = (\<lambda>_. None)(''RULE_FVG_SNIPER_FILL'' \<mapsto> (True, JObj [])), re_last_refresh = 0\<rparr>"

lemma rule_entries_sound_witness:
  "\<exists>p. evaluate_pre_trade_entry sample_rules (sample_rule_input (Fin 2000)) = ret (Some p) \<and>
       entry_ok (sample_rule_input (Fin 2000)) p"
proof -
  let ?x = "sample_rule_input (Fin 2000)"
  have "gold_tick (ri_tick ?x)" by code_simp
  moreover have "3 \<le> length (ri_probs ?x)" by (simp add: sample_rule_input_def)
  moreover have "(case evaluate_pre_trade_entry sample_rules ?x of Inr (Some p) \<Rightarrow> True | _ \<Rightarrow> False)"
    by code_simp
  ultimately show ?thesis using rule_entries_sound [of ?x sample_rules] by (auto simp: ret_def)
qed

text \<open>The distances of the rules are absolute prices. On an instrument priced at most 1.25,
  such as a currency pair, an active bullish gap makes the first rule build a proposal with a
  stop below zero: the evaluation raises instead of answering.\<close>

theorem rule_entry_raises_on_fx:
  assumes "rule_enabled ''RULE_FVG_SNIPER_FILL'' R" and "fv_fvg_bullish (ri_fv x)"
    and "t_ask (ri_tick x) \<le> Fin (5 / 4)"
  shows "evaluate_pre_trade_entry R x = raise ValueError"
proof -
  let ?a = "t_ask (ri_tick x)"
  have "?a - Fin (3 / 2) \<le> Fin (5 / 4) - Fin (3 / 2)"
    using assms(3) by (cases ?a) (auto simp: minus_f64_def intro: fl_mono f64_extremes)
  also have "Fin (5 / 4) - Fin (3 / 2) = Fin (- 1 / 4)" by code_simp
  finally have "round_nd 2 (?a - Fin (3 / 2)) \<le> round_nd 2 (Fin (- 1 / 4))" by (rule round_nd_mono)
  also have "round_nd 2 (Fin (- 1 / 4)) = Fin (- 1 / 4)" by code_simp
  finally have "\<not> 0 < round_nd 2 (?a - Fin (3 / 2))"
    by (cases "round_nd 2 (?a - Fin (3 / 2))") (auto simp: zero_f64_Fin)
  then show ?thesis
    using assms(1,2) by (simp add: evaluate_pre_trade_entry_def entry_rules_def fvg_sniper_fill_def fixed_entry_def
        rule_proposal_def mk_proposal_def Let_def raise_def)
qed

lemma rule_entry_raises_on_fx_witness:
  "evaluate_pre_trade_entry sample_rules (sample_rule_input (Fin (9 / 8))) = raise ValueError"
  by (rule rule_entry_raises_on_fx)
    (simp_all add: rule_enabled_def sample_rules_def sample_rule_input_def sample_features_def)

text \<open>The exit rules never move a stop backwards, and never close early. A stop the rules
  propose is strictly past the current stop in the direction of the trade (or there was none,
  for a short position); a close is proposed only from the fourth minute on.\<close>

theorem rule_exits_only_tighten:
  assumes "evaluate_in_trade_exits R p held price atr = ret (Some e)"
  shows "case e of RX_MODIFY_SL sl why \<Rightarrow> favourable_sl p sl | RX_CLOSE why \<Rightarrow> Fin 240 \<le> held"
proof -
  have z: "\<exists>v. zero_drawdown_trail p price = ret v \<and> (\<forall>e. v = Some e \<longrightarrow> (\<exists>sl why. e = RX_MODIFY_SL sl why \<and> favourable_sl p sl))"
  proof -
    have "\<not> RULE_PIP \<le> 0" by code_simp
    then show ?thesis by (auto simp: zero_drawdown_trail_def Let_def py_div_def feq_def zero_f64_Fin RULE_PIP_def)
  qed
  show ?thesis
    using assms z by (auto simp: evaluate_in_trade_exits_def atr_expansion_ratchet_def Let_def split: if_splits option.splits)
qed

lemma rule_exits_only_tighten_witness:
  "favourable_sl \<lparr>pos_ticket = 1, pos_symbol = ''X'', pos_type = SELL, pos_volume = Fin 1, pos_price_open = Fin 2000,
     pos_sl = Fin 2010, pos_tp = Fin 1900, pos_profit = Fin 5, pos_magic = 0\<rparr> (Fin 1991)"
proof -
  let ?p = "\<lparr>pos_ticket = 1, pos_symbol = ''X'', pos_type = SELL, pos_volume = Fin 1, pos_price_open = Fin 2000,
     pos_sl = Fin 2010, pos_tp = Fin 1900, pos_profit = Fin 5, pos_magic = 0\<rparr>"
  let ?R = "\<lparr>re_cache = (\<lambda>_. None)(''RULE_ATR_EXPANSION_RATCHET'' \<mapsto> (True, JObj [])), re_last_refresh = 0\<rparr>"
  have "evaluate_in_trade_exits ?R ?p (Fin 10) (Fin 1990) (Fin 2) =
      ret (Some (RX_MODIFY_SL (Fin 1991) ''RULE_ATR_EXPANSION_RATCHET''))"
    by code_simp
  from rule_exits_only_tighten [OF this] show ?thesis by simp
qed

end
