(* ===== verification/TicketsCache.thy ===== *)
theory TicketsCache
  imports Prelude PyNum Domain "HOL-Library.AList"
begin

text \<open>
  \<^verbatim>\<open>execution/tickets_cache.py\<close>: the view of the broker's positions and pending orders that the
  exposure gate of \<^verbatim>\<open>order_manager.py\<close> counts. The cache is the dictionary of the code, an
  association list in insertion order. A pending order is what an adapter returns: every field may
  be missing, and its type is the number of the broker's protocol or a name.
\<close>

section \<open>Pending orders of the broker\<close>

datatype pending_type = PT_Code int | PT_Name string

record pending_order =
  pd_ticket :: "int option"
  pd_order_id :: "int option"
  pd_type :: "pending_type option"
  pd_order_type :: "pending_type option"
  pd_symbol :: "string option"
  pd_price_open :: "f64 option"
  pd_price :: "f64 option"
  pd_magic :: "int option"
  pd_magic_number :: "int option"
  pd_volume :: "f64 option"
  pd_sl :: "f64 option"
  pd_stop_loss :: "f64 option"
  pd_tp :: "f64 option"
  pd_take_profit :: "f64 option"

text \<open>\<^verbatim>\<open>pending_field\<close>: the first name that resolves to something other than \<^verbatim>\<open>None\<close>.\<close>

fun pending_field :: "'a option list \<Rightarrow> 'a option" where
  "pending_field [] = None"
| "pending_field (Some v # _) = Some v"
| "pending_field (None # vs) = pending_field vs"

definition ticket_of :: "pending_order \<Rightarrow> int option" where
  "ticket_of p = pending_field [pd_ticket p, pd_order_id p]"

definition type_of :: "pending_order \<Rightarrow> pending_type option" where
  "type_of p = pending_field [pd_type p, pd_order_type p]"

text \<open>\<^verbatim>\<open>str(getattr(t, "value", t))\<close>.\<close>

definition type_text :: "pending_type option \<Rightarrow> string" where
  "type_text t = (case t of None \<Rightarrow> ''None'' | Some (PT_Code n) \<Rightarrow> show_int n | Some (PT_Name s) \<Rightarrow> s)"

definition pending_direction :: "pending_order \<Rightarrow> string" where
  "pending_direction p = (if str_in ''BUY'' (upper (type_text (type_of p))) then ''BUY'' else ''SELL'')"

section \<open>The cache\<close>

datatype ticket_kind = TK_POSITION | TK_PENDING

record ticket_info =
  ti_ticket :: int
  ti_symbol :: string
  ti_price :: f64
  ti_magic :: int
  ti_kind :: ticket_kind
  ti_direction :: string
  ti_volume :: f64
  ti_sl :: "f64 option"
  ti_tp :: "f64 option"
  ti_profit :: "f64 option"

type_synonym cache = "(int \<times> ticket_info) list"

definition position_info :: "position \<Rightarrow> ticket_info" where
  "position_info p = \<lparr>ti_ticket = pos_ticket p, ti_symbol = pos_symbol p, ti_price = pos_price_open p,
     ti_magic = pos_magic p, ti_kind = TK_POSITION, ti_direction = order_value (pos_type p),
     ti_volume = pos_volume p, ti_sl = Some (pos_sl p), ti_tp = Some (pos_tp p), ti_profit = Some (pos_profit p)\<rparr>"

definition pending_info :: "string \<Rightarrow> int \<Rightarrow> pending_order \<Rightarrow> ticket_info" where
  "pending_info symbol t p = \<lparr>ti_ticket = t, ti_symbol = getd (pd_symbol p) symbol,
     ti_price = getd (pending_field [pd_price_open p, pd_price p]) 0,
     ti_magic = getd (pending_field [pd_magic p, pd_magic_number p]) 888101, ti_kind = TK_PENDING,
     ti_direction = pending_direction p, ti_volume = getd (pd_volume p) 0,
     ti_sl = None, ti_tp = None, ti_profit = None\<rparr>"

definition add_position :: "cache \<Rightarrow> position \<Rightarrow> cache" where
  "add_position d p = AList.update (pos_ticket p) (position_info p) d"

text \<open>A missing ticket and the ticket 0 are skipped.\<close>

definition add_pending :: "string \<Rightarrow> cache \<Rightarrow> pending_order \<Rightarrow> cache" where
  "add_pending symbol d p =
     (case ticket_of p of None \<Rightarrow> d
      | Some t \<Rightarrow> if t = 0 then d else AList.update t (pending_info symbol t p) d)"

text \<open>
  \<^verbatim>\<open>rebuild\<close>. The lookup is absent when the adapter has no such query; it may raise, and it may
  answer \<^verbatim>\<open>None\<close>: in all three cases there are no pending orders in the new cache.
\<close>

definition answered :: "pending_order list option res option \<Rightarrow> pending_order list" where
  "answered q = (case q of Some (Inr (Some ps)) \<Rightarrow> ps | _ \<Rightarrow> [])"

definition rebuild :: "position list \<Rightarrow> pending_order list option res option \<Rightarrow> string \<Rightarrow> cache" where
  "rebuild positions lookup symbol =
     foldl (add_pending symbol) (foldl add_position [] positions) (answered lookup)"

definition pop_ticket :: "int \<Rightarrow> cache \<Rightarrow> cache" where
  "pop_ticket t d = AList.delete t d"

section \<open>The exposure gate\<close>

abbreviation MAX_TOTAL_EXPOSURE :: nat where "MAX_TOTAL_EXPOSURE \<equiv> 1"

definition in_scope :: "string option \<Rightarrow> ticket_info \<Rightarrow> bool" where
  "in_scope symbol i \<longleftrightarrow> (case symbol of None \<Rightarrow> True | Some s \<Rightarrow> s = [] \<or> ti_symbol i = s)"

definition count_total_exposure :: "string option \<Rightarrow> cache \<Rightarrow> nat \<times> nat" where
  "count_total_exposure symbol d =
     (let xs = filter (in_scope symbol) (map snd d)
      in (length (filter (\<lambda>i. ti_kind i \<noteq> TK_PENDING) xs), length (filter (\<lambda>i. ti_kind i = TK_PENDING) xs)))"

definition is_exposure_available :: "cache \<Rightarrow> bool" where
  "is_exposure_available d =
     (case count_total_exposure None d of (positions, pendings) \<Rightarrow> positions + pendings < MAX_TOTAL_EXPOSURE)"

section \<open>What the cache holds\<close>

lemma length_partition: "length (filter (\<lambda>x. \<not> P x) xs) + length (filter P xs) = length xs"
  by (induction xs) auto

lemma count_total: "count_total_exposure None d = (a, b) \<Longrightarrow> a + b = length d"
  using length_partition [of "\<lambda>i. ti_kind i = TK_PENDING" "map snd d"]
  by (auto simp: count_total_exposure_def in_scope_def Let_def)

lemma exposure_available_iff: "is_exposure_available d \<longleftrightarrow> d = []"
proof -
  obtain a b where c: "count_total_exposure None d = (a, b)" by fastforce
  then show ?thesis using count_total [OF c] by (auto simp: is_exposure_available_def)
qed

lemma add_position_lookup: "map_of (add_position d p) t = (if t = pos_ticket p then Some (position_info p) else map_of d t)"
  by (simp add: add_position_def update_conv')

lemma add_pending_lookup:
  "map_of (add_pending s d p) t =
     (if t \<noteq> 0 \<and> ticket_of p = Some t then Some (pending_info s t p) else map_of d t)"
  by (auto simp: add_pending_def update_conv' split: option.splits)

definition last_position :: "int \<Rightarrow> position list \<Rightarrow> position option" where
  "last_position t ps = find (\<lambda>p. pos_ticket p = t) (rev ps)"

definition last_pending :: "int \<Rightarrow> pending_order list \<Rightarrow> pending_order option" where
  "last_pending t ps = find (\<lambda>p. ticket_of p = Some t) (rev ps)"

lemma positions_lookup:
  "map_of (foldl add_position d ps) t =
     (case last_position t ps of Some p \<Rightarrow> Some (position_info p) | None \<Rightarrow> map_of d t)"
  by (induction ps rule: rev_induct) (auto simp: last_position_def add_position_lookup)

lemma pendings_lookup:
  "map_of (foldl (add_pending s) d ps) t =
     (if t = 0 then map_of d t
      else case last_pending t ps of Some p \<Rightarrow> Some (pending_info s t p) | None \<Rightarrow> map_of d t)"
  by (induction ps rule: rev_induct) (auto simp: last_pending_def add_pending_lookup)

text \<open>the rebuilt cache is exactly the broker's answer: the entry of a ticket is the last pending order
  the broker lists under that ticket, else the last position, else nothing, and nothing survives from before.\<close>

theorem rebuild_is_broker_view:
  "map_of (rebuild positions lookup s) t =
     (case (if t = 0 then None else last_pending t (answered lookup)) of
        Some p \<Rightarrow> Some (pending_info s t p)
      | None \<Rightarrow> map_option position_info (last_position t positions))"
  by (simp add: rebuild_def pendings_lookup positions_lookup split: option.splits)

lemma distinct_rebuild: "distinct (map fst (rebuild positions lookup s))"
proof -
  have pos: "distinct (map fst (foldl add_position [] ps))" for ps
    by (induction ps rule: rev_induct) (auto simp: add_position_def distinct_update)
  have "distinct (map fst d) \<Longrightarrow> distinct (map fst (foldl (add_pending s) d ps))" for d ps
    by (induction ps rule: rev_induct) (auto simp: add_pending_def distinct_update split: option.splits)
  then show ?thesis unfolding rebuild_def using pos by blast
qed

section \<open>The direction of a numbered order type\<close>

lemma prefix_of_first: "prefix_of (c # s) t \<Longrightarrow> c \<in> set t"
  by (cases t) auto

lemma str_in_first: "str_in (c # s) t \<Longrightarrow> c \<in> set t"
  by (induction t) (auto dest: prefix_of_first)

definition numerals :: string where
  "numerals = ''-0123456789''"

lemma digit_char_numeral: "k < 10 \<Longrightarrow> digit_char k \<in> set numerals"
proof -
  assume "k < 10"
  then have "digit_char k \<in> set (List.tl numerals)"
    unfolding digit_char_def numerals_def list.sel by (intro nth_mem) simp
  then show ?thesis by (rule list.set_sel(2) [rotated]) (simp add: numerals_def)
qed

lemma show_dec_chars: "set (show_dec n) \<subseteq> set numerals"
proof (induction n rule: show_dec.induct)
  case (1 n)
  have "digit_char (n mod 10) \<in> set numerals" by (rule digit_char_numeral) simp
  then show ?case
    using 1 digit_char_numeral [of n] by (subst show_dec.simps) auto
qed

lemma show_int_chars: "set (show_int n) \<subseteq> set numerals"
proof -
  have "CHR ''-'' \<in> set numerals" by (simp add: numerals_def)
  then show ?thesis using show_dec_chars [of n] show_dec_chars [of "- n"] by (simp add: show_int_def)
qed

lemma upper_numerals: "list_all (\<lambda>c. upper_char c = c) numerals"
  by code_simp

lemma code_is_no_word:
  assumes "c \<notin> set numerals"
  shows "\<not> str_in (c # s) (upper (show_int n))"
proof
  assume "str_in (c # s) (upper (show_int n))"
  then obtain d where "d \<in> set (show_int n)" "c = upper_char d"
    using str_in_first by (fastforce simp: upper_def)
  then have "c \<in> set numerals"
    using show_int_chars [of n] upper_numerals by (auto simp: list_all_iff)
  then show False using assms by contradiction
qed

lemma buy_no_numeral: "CHR ''B'' \<notin> set numerals"
  by (simp add: numerals_def)

lemma coded_direction: "type_of p = Some (PT_Code n) \<Longrightarrow> pending_direction p = ''SELL''"
  by (simp add: pending_direction_def type_text_def code_is_no_word [OF buy_no_numeral])

end
