(* ===== verification/RuntimeMode.thy ===== *)
theory RuntimeMode
  imports Domain BarAggregator DecisionDedup FeedEpoch TicketsCache
begin

text \<open>
  The operator's execution mode: the hot switch and the invalidation of state derived from the
  old adapter (\<^verbatim>\<open>application/live/runtime_mode.py\<close>), the derived runtime badge and the alignment
  of the adapter at boot (\<^verbatim>\<open>application/live_engine.py\<close>). Broker adapters are objects shared by
  the engine and the order manager, so they live in a store under addresses; what constructing,
  connecting and disconnecting one does outside the process is an argument, each stage either
  succeeding or raising.
\<close>

section \<open>The engine state\<close>

datatype adapter_kind = SIMULATION | DIRECT_BROKER | GATEWAY_BROKER

record broker_adapter =
  ad_kind :: adapter_kind
  ad_source :: string
  ad_connected :: bool

text \<open>The prices and times the signal policy remembers from its last order.\<close>

record policy_cache =
  pc_order_price :: "f64 option"
  pc_order_time :: "int option"
  pc_direction :: "action_type option"
  pc_direction_time :: "int option"
  pc_executed_price :: f64

text \<open>
  What else the engine remembers of the adapter's quotes and tickets, and no mode switch writes: the policy's
  previous quote (\<^verbatim>\<open>_last_tick_bid\<close>, \<^verbatim>\<open>_last_tick_ask\<close>), the quote of its duplicate guard, its last real
  proposal and its replay guard; the feed epoch of the run loop; and the ticket cache of the order manager.
\<close>

record memory =
  me_prev_bid :: f64
  me_prev_ask :: f64
  me_dup_quote :: "py_datetime option \<times> f64 \<times> f64"
  me_proposal :: "trade_proposal option"
  me_replay :: dedup_state
  me_feed :: feed_tracker
  me_tickets :: cache

definition fresh_memory :: memory where
  "fresh_memory = \<lparr>me_prev_bid = 0, me_prev_ask = 0, me_dup_quote = (None, 0, 0), me_proposal = None,
     me_replay = dedup_init None, me_feed = feed_init None None, me_tickets = []\<rparr>"

text \<open>The side a liquidity sweep gets from the previous quote (\<^verbatim>\<open>_evaluate_tick_sweep\<close>).\<close>

definition sweep_side :: "int \<Rightarrow> tick_data \<Rightarrow> memory \<Rightarrow> string option" where
  "sweep_side sig tick m =
     (if me_prev_bid m \<le> 0 then None
      else if sig = 1 \<and> t_bid tick < me_prev_bid m then Some ''BUY''
      else if sig = -1 \<and> me_prev_ask m < t_ask tick then Some ''SELL''
      else None)"

text \<open>The account snapshot is kept as its \<^verbatim>\<open>trade_allowed\<close> field, the only one read here.\<close>

record engine =
  en_mode :: execution_mode
  en_override :: "execution_mode option"
  en_store :: "nat \<Rightarrow> broker_adapter option"
  en_next :: nat
  en_adapter :: nat
  en_om_adapter :: nat
  en_om_mt5 :: nat
  en_generation :: int
  en_policy :: "policy_cache option"
  en_last_tick :: "tick_data option"
  en_aggregator :: "aggregator option"
  en_warmup :: string
  en_warmup_attempt :: int
  en_tick_clock :: f64
  en_snapshot :: "bool option option"
  en_memory :: memory
  en_runtime_mode :: string

definition adapter_of :: "engine \<Rightarrow> broker_adapter option" where
  "adapter_of E = en_store E (en_adapter E)"

definition is_simulation :: "engine \<Rightarrow> bool" where
  "is_simulation E \<longleftrightarrow> (case adapter_of E of Some a \<Rightarrow> ad_kind a = SIMULATION | None \<Rightarrow> False)"

definition simulated_mode :: "execution_mode \<Rightarrow> bool" where
  "simulated_mode m \<longleftrightarrow> m \<in> {PAPER, SHADOW}"

fun mode_value :: "execution_mode \<Rightarrow> string" where
  "mode_value BACKTEST = ''BACKTEST''"
| "mode_value REPLAY = ''REPLAY''"
| "mode_value PAPER = ''PAPER''"
| "mode_value SHADOW = ''SHADOW''"
| "mode_value LIVE = ''LIVE''"

section \<open>The runtime badge\<close>

text \<open>\<^verbatim>\<open>bool(getattr(snap, "trade_allowed", True))\<close>: without a snapshot the default permits.\<close>

definition trade_allowed :: "engine \<Rightarrow> bool" where
  "trade_allowed E = (case en_snapshot E of None \<Rightarrow> True | Some None \<Rightarrow> False | Some (Some b) \<Rightarrow> b)"

definition connected :: "engine \<Rightarrow> bool" where
  "connected E = (case adapter_of E of Some a \<Rightarrow> ad_connected a | None \<Rightarrow> False)"

definition update_runtime_mode :: "engine \<Rightarrow> engine" where
  "update_runtime_mode E = E\<lparr>en_runtime_mode :=
     (if en_mode E = LIVE then
        (if connected E then (if trade_allowed E then ''LIVE'' else ''LIVE / TRADE_BLOCKED'')
         else ''LIVE_CONFIGURED / MT5_DISCONNECTED'')
      else mode_value (en_mode E))\<rparr>"

section \<open>Invalidation across the boundary\<close>

definition cleared_policy :: "policy_cache \<Rightarrow> policy_cache" where
  "cleared_policy p = \<lparr>pc_order_price = None, pc_order_time = None, pc_direction = None, pc_direction_time = None,
                       pc_executed_price = 0\<rparr>"

text \<open>Purging the aggregator resets the warm-up; \<open>now\<close> is the wall clock.\<close>

definition purge_aggregator :: "engine \<Rightarrow> engine" where
  "purge_aggregator E = (case en_aggregator E of
       None \<Rightarrow> E
     | Some a \<Rightarrow> E\<lparr>en_aggregator := Some (snd (reseed a [] 0)), en_warmup := ''WARMING_UP'', en_warmup_attempt := 0\<rparr>)"

definition invalidate_cross_mode_state :: "f64 \<Rightarrow> execution_mode \<Rightarrow> execution_mode \<Rightarrow> engine \<Rightarrow> engine" where
  "invalidate_cross_mode_state now old_mode new_mode E =
     (if simulated_mode old_mode = simulated_mode new_mode then E
      else (purge_aggregator (E\<lparr>en_generation := en_generation E + 1,
                                en_policy := map_option cleared_policy (en_policy E),
                                en_last_tick := None\<rparr>))\<lparr>en_tick_clock := now, en_snapshot := None\<rparr>)"

section \<open>The hot switch\<close>

text \<open>What happens outside: whether disconnecting the old adapter, building the new one and
  connecting it raise, and whether the connection is up when \<^verbatim>\<open>connect()\<close> returns.\<close>

record swap_world =
  sw_disconnect_raises :: bool
  sw_build_raises :: bool
  sw_connect_raises :: bool
  sw_link_up :: bool

definition drop_link :: "engine \<Rightarrow> engine" where
  "drop_link E = (case adapter_of E of
       None \<Rightarrow> E
     | Some a \<Rightarrow> E\<lparr>en_store := (en_store E)(en_adapter E \<mapsto> a\<lparr>ad_connected := False\<rparr>)\<rparr>)"

definition bind_adapter :: "adapter_kind \<Rightarrow> string \<Rightarrow> engine \<Rightarrow> engine" where
  "bind_adapter k source E =
     (let p = en_next E
      in E\<lparr>en_store := (en_store E)(p \<mapsto> \<lparr>ad_kind = k, ad_source = source, ad_connected = False\<rparr>), en_next := p + 1,
           en_adapter := p, en_om_adapter := p, en_om_mt5 := p\<rparr>)"

definition link_up :: "swap_world \<Rightarrow> engine \<Rightarrow> engine" where
  "link_up w E = (case adapter_of E of
       None \<Rightarrow> E
     | Some a \<Rightarrow> E\<lparr>en_store := (en_store E)(en_adapter E \<mapsto> a\<lparr>ad_connected := sw_link_up w\<rparr>)\<rparr>)"

text \<open>One swap: the result says whether it completed; the state is the one at the raise.\<close>

definition swap_adapter :: "swap_world \<Rightarrow> adapter_kind \<Rightarrow> string \<Rightarrow> engine \<Rightarrow> bool \<times> engine" where
  "swap_adapter w k source E =
     (if sw_disconnect_raises w then (False, E)
      else let E = drop_link E
      in if sw_build_raises w then (False, E)
      else let E = bind_adapter k source E
      in if sw_connect_raises w then (False, E) else (True, link_up w E))"

datatype switch_result =
    SWAP_FAILED execution_mode
  | SWITCHED execution_mode execution_mode bool string

definition set_execution_mode :: "swap_world \<Rightarrow> f64 \<Rightarrow> execution_mode \<Rightarrow> engine \<Rightarrow> switch_result \<times> engine" where
  "set_execution_mode w now mode E0 =
     (let old_mode = en_mode E0;
          E = E0\<lparr>en_override := Some mode, en_mode := mode\<rparr>;
          (ok, swapped, E) =
            (if simulated_mode mode \<and> \<not> is_simulation E then
               let (ok, E) = swap_adapter w SIMULATION ''PAPER'' E in (ok, ok, E)
             else if \<not> simulated_mode mode \<and> is_simulation E then
               let (ok, E) = swap_adapter w DIRECT_BROKER ''LIVE'' E in (ok, ok, E)
             else (True, False, E))
      in if \<not> ok then (SWAP_FAILED mode, E)
         else let E = (if swapped then invalidate_cross_mode_state now old_mode mode E else E);
                  E = update_runtime_mode E
           in (SWITCHED mode old_mode swapped (en_runtime_mode E), E))"

section \<open>Boot\<close>

definition mode_of_text :: "string \<Rightarrow> execution_mode option" where
  "mode_of_text s = (let k = upper (strip s) in
     find (\<lambda>m. mode_value m = k) [BACKTEST, REPLAY, PAPER, SHADOW, LIVE])"

text \<open>An explicit operator mode beats the persisted text, which beats the configured default.\<close>

definition boot_mode :: "execution_mode option \<Rightarrow> string option \<Rightarrow> execution_mode \<Rightarrow> execution_mode" where
  "boot_mode override persisted configured =
     (case override of
        Some m \<Rightarrow> m
      | None \<Rightarrow> (case Option.bind persisted mode_of_text of Some m \<Rightarrow> m | None \<Rightarrow> configured))"

text \<open>The adapter the engine boots with; \<open>native\<close> says whether the native terminal can be built.\<close>

definition align_adapter_to_boot_mode :: "bool \<Rightarrow> execution_mode \<Rightarrow> adapter_kind \<Rightarrow> adapter_kind" where
  "align_adapter_to_boot_mode native mode k =
     (if mode \<noteq> PAPER \<and> k = SIMULATION \<and> mode = LIVE then (if native then DIRECT_BROKER else GATEWAY_BROKER)
      else if mode = PAPER \<and> k \<noteq> SIMULATION then SIMULATION
      else k)"

definition default_source :: "adapter_kind \<Rightarrow> string" where
  "default_source k = (if k = SIMULATION then ''PAPER'' else ''LIVE'')"

text \<open>The engine after construction, given an adapter of kind \<open>k\<close> by the launcher: the order manager
  is built on the aligned adapter.\<close>

definition boot_engine ::
  "string \<Rightarrow> execution_mode option \<Rightarrow> string option \<Rightarrow> execution_mode \<Rightarrow> bool \<Rightarrow> adapter_kind \<Rightarrow> f64 \<Rightarrow> engine" where
  "boot_engine symbol override persisted configured native k now =
     (let mode = boot_mode override persisted configured; kind = align_adapter_to_boot_mode native mode k
      in \<lparr>en_mode = mode, en_override = override,
          en_store = [0 \<mapsto> \<lparr>ad_kind = kind, ad_source = default_source kind, ad_connected = False\<rparr>], en_next = 1,
          en_adapter = 0, en_om_adapter = 0, en_om_mt5 = 0, en_generation = 0,
          en_policy = Some \<lparr>pc_order_price = None, pc_order_time = None, pc_direction = None, pc_direction_time = None,
                            pc_executed_price = 0\<rparr>,
          en_last_tick = None, en_aggregator = Some (mk_aggregator symbol 1), en_warmup = ''WARMING_UP'',
          en_warmup_attempt = 0, en_tick_clock = now, en_snapshot = None, en_memory = fresh_memory, en_runtime_mode = ''''\<rparr>)"

section \<open>The operator's request\<close>

text \<open>The transition matrix of the web interface; asking for the current mode is allowed.\<close>

fun allowed_transitions :: "execution_mode \<Rightarrow> execution_mode list" where
  "allowed_transitions BACKTEST = [REPLAY, PAPER, SHADOW, LIVE]"
| "allowed_transitions REPLAY = [PAPER, SHADOW]"
| "allowed_transitions PAPER = [LIVE, SHADOW, REPLAY]"
| "allowed_transitions SHADOW = [LIVE, PAPER]"
| "allowed_transitions LIVE = [PAPER, SHADOW]"

definition validate_transition :: "execution_mode \<Rightarrow> execution_mode \<Rightarrow> bool" where
  "validate_transition cur proposed \<longleftrightarrow> proposed = cur \<or> proposed \<in> set (allowed_transitions cur)"

text \<open>A request without a result is refused with a client error and changes nothing.\<close>

definition request_mode :: "swap_world \<Rightarrow> f64 \<Rightarrow> string \<Rightarrow> engine \<Rightarrow> switch_result option \<times> engine" where
  "request_mode w now label E =
     (let wanted = upper (strip label); wanted = (if wanted = ''SIMULATION'' then ''PAPER'' else wanted)
      in case mode_of_text wanted of
           None \<Rightarrow> (None, E)
         | Some m \<Rightarrow>
             if \<not> validate_transition (en_mode E) m then (None, E)
             else let (r, E) = set_execution_mode w now m E in (Some r, E))"

section \<open>One adapter for the engine and its order manager\<close>

definition adapters_shared :: "engine \<Rightarrow> bool" where
  "adapters_shared E \<longleftrightarrow> en_om_adapter E = en_adapter E \<and> en_om_mt5 E = en_adapter E
     \<and> en_store E (en_adapter E) \<noteq> None \<and> (\<forall>p \<ge> en_next E. en_store E p = None)"

type_synonym switch_request = "swap_world \<times> f64 \<times> execution_mode"

definition switch_step :: "engine \<Rightarrow> switch_request \<Rightarrow> engine" where
  "switch_step E q = (case q of (w, now, m) \<Rightarrow> snd (set_execution_mode w now m E))"

text \<open>The fields that only the invalidation writes.\<close>

definition market_view ::
  "engine \<Rightarrow> policy_cache option \<times> tick_data option \<times> aggregator option \<times> int \<times> bool option option" where
  "market_view E = (en_policy E, en_last_tick E, en_aggregator E, en_generation E, en_snapshot E)"

lemma adapters_shared_below: "adapters_shared E \<Longrightarrow> en_adapter E < en_next E"
  by (metis adapters_shared_def not_le)

lemma drop_link_frame [simp]:
  "en_memory (drop_link E) = en_memory E" "market_view (drop_link E) = market_view E" "en_mode (drop_link E) = en_mode E"
  "en_adapter (drop_link E) = en_adapter E" "is_simulation (drop_link E) = is_simulation E"
  "adapters_shared E \<Longrightarrow> adapters_shared (drop_link E)"
  using adapters_shared_below [of E]
  by (auto simp: drop_link_def market_view_def is_simulation_def adapter_of_def adapters_shared_def split: option.splits)

lemma link_up_frame [simp]:
  "en_memory (link_up w E) = en_memory E" "market_view (link_up w E) = market_view E" "en_mode (link_up w E) = en_mode E"
  "is_simulation (link_up w E) = is_simulation E"
  "adapters_shared E \<Longrightarrow> adapters_shared (link_up w E)"
  "map_option ad_kind (adapter_of (link_up w E)) = map_option ad_kind (adapter_of E)"
  "map_option ad_source (adapter_of (link_up w E)) = map_option ad_source (adapter_of E)"
  using adapters_shared_below [of E]
  by (auto simp: link_up_def market_view_def is_simulation_def adapter_of_def adapters_shared_def split: option.splits)

lemma bind_adapter_frame [simp]:
  "en_memory (bind_adapter k src E) = en_memory E" "market_view (bind_adapter k src E) = market_view E" "en_mode (bind_adapter k src E) = en_mode E"
  "is_simulation (bind_adapter k src E) = (k = SIMULATION)"
  "adapter_of (bind_adapter k src E) = Some \<lparr>ad_kind = k, ad_source = src, ad_connected = False\<rparr>"
  "adapters_shared E \<Longrightarrow> adapters_shared (bind_adapter k src E)"
  by (auto simp: bind_adapter_def market_view_def is_simulation_def adapter_of_def adapters_shared_def Let_def)

text \<open>The three ways a swap ends: before the new adapter is bound, after, and completed.\<close>

lemma swap_adapter_cases:
  obtains (unbound) E' where "swap_adapter w k src E = (False, E')" "sw_disconnect_raises w \<or> sw_build_raises w"
      "en_memory E' = en_memory E" "market_view E' = market_view E" "is_simulation E' = is_simulation E" "en_mode E' = en_mode E"
      "adapters_shared E \<Longrightarrow> adapters_shared E'"
    | (bound) E' where "swap_adapter w k src E = (False, E')" "sw_connect_raises w"
      "en_memory E' = en_memory E" "market_view E' = market_view E" "is_simulation E' = (k = SIMULATION)" "en_mode E' = en_mode E"
      "adapters_shared E \<Longrightarrow> adapters_shared E'"
    | (complete) E' where "swap_adapter w k src E = (True, E')"
      "\<not> sw_disconnect_raises w" "\<not> sw_build_raises w" "\<not> sw_connect_raises w"
      "en_memory E' = en_memory E" "market_view E' = market_view E" "is_simulation E' = (k = SIMULATION)" "en_mode E' = en_mode E"
      "adapters_shared E \<Longrightarrow> adapters_shared E'"
      "map_option ad_source (adapter_of E') = Some src"
proof (cases "sw_disconnect_raises w \<or> sw_build_raises w")
  case True
  then show ?thesis
    by (intro unbound [of "if sw_disconnect_raises w then E else drop_link E"]) (auto simp: swap_adapter_def Let_def)
next
  case False
  show ?thesis
  proof (cases "sw_connect_raises w")
    case True
    show ?thesis
      by (rule bound [of "bind_adapter k src (drop_link E)"]) (use True False in \<open>auto simp: swap_adapter_def Let_def\<close>)
  next
    case up: False
    show ?thesis
      by (rule complete [of "link_up w (bind_adapter k src (drop_link E))"])
        (use up False in \<open>auto simp: swap_adapter_def Let_def\<close>)
  qed
qed

lemma invalidate_frame [simp]:
  "en_memory (invalidate_cross_mode_state now m m' E) = en_memory E"
  "adapters_shared (invalidate_cross_mode_state now m m' E) = adapters_shared E"
  "is_simulation (invalidate_cross_mode_state now m m' E) = is_simulation E"
  "en_mode (invalidate_cross_mode_state now m m' E) = en_mode E"
  "adapter_of (invalidate_cross_mode_state now m m' E) = adapter_of E"
  by (auto simp: invalidate_cross_mode_state_def purge_aggregator_def adapters_shared_def is_simulation_def
      adapter_of_def split: option.splits)

lemma update_runtime_mode_frame [simp]:
  "en_memory (update_runtime_mode E) = en_memory E" "market_view (update_runtime_mode E) = market_view E" "adapters_shared (update_runtime_mode E) = adapters_shared E"
  "is_simulation (update_runtime_mode E) = is_simulation E" "en_mode (update_runtime_mode E) = en_mode E"
  "adapter_of (update_runtime_mode E) = adapter_of E"
  by (auto simp: update_runtime_mode_def market_view_def adapters_shared_def is_simulation_def adapter_of_def)

text \<open>A switch request without the adapter it may bind.\<close>

definition requested :: "execution_mode \<Rightarrow> engine \<Rightarrow> engine" where
  "requested m E = E\<lparr>en_override := Some m, en_mode := m\<rparr>"

lemma requested_frame [simp]:
  "en_memory (requested m E) = en_memory E" "market_view (requested m E) = market_view E" "is_simulation (requested m E) = is_simulation E"
  "adapters_shared (requested m E) = adapters_shared E" "en_mode (requested m E) = m"
  by (simp_all add: requested_def market_view_def is_simulation_def adapter_of_def adapters_shared_def)

lemma set_execution_mode_cases:
  obtains (stays) "simulated_mode m = is_simulation E"
      "set_execution_mode w now m E = (SWITCHED m (en_mode E) False (en_runtime_mode (update_runtime_mode (requested m E))),
         update_runtime_mode (requested m E))"
    | (fails) E' where "simulated_mode m \<noteq> is_simulation E" "set_execution_mode w now m E = (SWAP_FAILED m, E')"
        "swap_adapter w (if simulated_mode m then SIMULATION else DIRECT_BROKER) (if simulated_mode m then ''PAPER'' else ''LIVE'')
           (requested m E) = (False, E')"
    | (swaps) E' where "simulated_mode m \<noteq> is_simulation E"
        "set_execution_mode w now m E =
           (SWITCHED m (en_mode E) True
             (en_runtime_mode (update_runtime_mode (invalidate_cross_mode_state now (en_mode E) m E'))),
            update_runtime_mode (invalidate_cross_mode_state now (en_mode E) m E'))"
        "swap_adapter w (if simulated_mode m then SIMULATION else DIRECT_BROKER) (if simulated_mode m then ''PAPER'' else ''LIVE'')
           (requested m E) = (True, E')"
proof -
  let ?k = "if simulated_mode m then SIMULATION else DIRECT_BROKER" and ?src = "if simulated_mode m then ''PAPER'' else ''LIVE''"
  have sim: "is_simulation (E\<lparr>en_override := Some m, en_mode := m\<rparr>) = is_simulation E"
    using requested_frame(3) [of m E] by (simp add: requested_def)
  show ?thesis
  proof (cases "simulated_mode m = is_simulation E")
    case True
    then show ?thesis using sim by (intro stays) (auto simp: set_execution_mode_def requested_def Let_def)
  next
    case False
    obtain ok E' where s: "swap_adapter w ?k ?src (requested m E) = (ok, E')" by fastforce
    show ?thesis
    proof (cases ok)
      case True
      then show ?thesis using False s sim
        by (intro swaps [of E']) (auto simp: set_execution_mode_def requested_def Let_def split: if_splits)
    next
      case f: False
      then show ?thesis using False s sim
        by (intro fails [of E']) (auto simp: set_execution_mode_def requested_def Let_def split: if_splits)
    qed
  qed
qed

lemma switch_keeps_shared: "adapters_shared E \<Longrightarrow> adapters_shared (switch_step E q)"
proof -
  assume ok: "adapters_shared E"
  obtain w now m where q: "q = (w, now, m)" by (cases q)
  have r: "adapters_shared (requested m E)" using ok by simp
  have s: "adapters_shared E'" if "swap_adapter w k src (requested m E) = (b, E')" for k src b E'
    by (cases rule: swap_adapter_cases [where w = w and k = k and src = src and E = "requested m E"]) (use that r in auto)
  show ?thesis
    by (cases rule: set_execution_mode_cases [where w = w and now = now and m = m and E = E])
      (use s r in \<open>auto simp: switch_step_def q\<close>)
qed

lemma boot_engine_shared: "adapters_shared (boot_engine symbol override persisted configured native k now)"
  by (simp add: boot_engine_def adapters_shared_def Let_def)

interpretation switches:
  step_invariant switch_step "boot_engine symbol override persisted configured native k now" adapters_shared
  for symbol override persisted configured native k now
  by unfold_locales (auto intro: boot_engine_shared switch_keeps_shared)

text \<open>From boot on, whatever sequence of mode switches the operator requests and wherever each of
  them fails, the order manager's two adapter references stay the engine's adapter: no order can be
  sent through an adapter the engine has left.\<close>

theorem order_manager_follows_engine:
  "case run switch_step (boot_engine symbol override persisted configured native k now) qs of
     E \<Rightarrow> en_om_adapter E = en_adapter E \<and> en_om_mt5 E = en_adapter E \<and> adapter_of E \<noteq> None"
  using switches.inv_run [of symbol override persisted configured native k now qs]
  by (auto simp: adapters_shared_def adapter_of_def)

section \<open>The boundary at boot and after a switch\<close>

text \<open>A LIVE boot never runs on the simulation adapter, a PAPER boot never on a broker, and an explicit
  operator mode is the mode that boots.\<close>

theorem boot_boundary:
  "(\<forall>m. override = Some m \<longrightarrow> en_mode (boot_engine symbol override persisted configured native k now) = m) \<and>
   (en_mode (boot_engine symbol override persisted configured native k now) = LIVE \<longrightarrow>
      \<not> is_simulation (boot_engine symbol override persisted configured native k now)) \<and>
   (en_mode (boot_engine symbol override persisted configured native k now) = PAPER \<longrightarrow>
      is_simulation (boot_engine symbol override persisted configured native k now))"
  by (auto simp: boot_engine_def Let_def is_simulation_def adapter_of_def align_adapter_to_boot_mode_def boot_mode_def)

definition coherent :: "engine \<Rightarrow> bool" where
  "coherent E \<longleftrightarrow> simulated_mode (en_mode E) = is_simulation E"

text \<open>What must not survive a change of the boundary.\<close>

definition market_state_cleared :: "engine \<Rightarrow> engine \<Rightarrow> bool" where
  "market_state_cleared E E' \<longleftrightarrow> en_last_tick E' = None \<and> en_snapshot E' = None
     \<and> en_generation E' = en_generation E + 1 \<and> en_policy E' = map_option cleared_policy (en_policy E)
     \<and> (\<forall>a. en_aggregator E' = Some a \<longrightarrow> ag_completed a = [] \<and> ag_current a = None)
     \<and> (en_aggregator E \<noteq> None \<longrightarrow> en_warmup E' = ''WARMING_UP'')"

lemma reseed_empty: "snd (reseed a [] n) = clear_series a"
  by (simp add: reseed_def)

lemma invalidate_clears:
  assumes "simulated_mode m \<noteq> simulated_mode m'" and "market_view E = market_view E0"
  shows "market_state_cleared E0 (update_runtime_mode (invalidate_cross_mode_state now m m' E))"
  using assms
  by (auto simp: market_state_cleared_def invalidate_cross_mode_state_def purge_aggregator_def update_runtime_mode_def
      market_view_def reseed_empty clear_series_def split: option.splits)

text \<open>C28: what a swap of the adapter clears and what it keeps. When the configured mode and the adapter agree, a
  switch that swaps the adapter leaves no last tick, no account snapshot, no bar, none of the policy's order prices,
  times and directions; the warm-up restarts, the session generation advances, and mode, adapter and the account
  source agree again. Everything in \<open>memory\<close> is kept although it comes from the old adapter as well: the
  policy's previous quote, the quote of its duplicate guard, its last proposal and replay guard, the feed epoch and
  the ticket cache. So the sweep rule compares the first quote of the new adapter with the last one of the
  old: any bid below the old one is a sweep to buy, any ask above it a sweep to sell.\<close>

theorem swap_clears_and_keeps:
  assumes "coherent E" and "set_execution_mode w now m E = (SWITCHED m old True badge, E')"
  shows "market_state_cleared E E' \<and> coherent E' \<and> en_mode E' = m \<and>
         map_option ad_source (adapter_of E') = Some (if is_simulation E' then ''PAPER'' else ''LIVE'') \<and>
         en_memory E' = en_memory E \<and>
         sweep_side sig tick (en_memory E') =
           (if me_prev_bid (en_memory E) \<le> 0 then None
            else if sig = 1 \<and> t_bid tick < me_prev_bid (en_memory E) then Some ''BUY''
            else if sig = -1 \<and> me_prev_ask (en_memory E) < t_ask tick then Some ''SELL'' else None)"
proof (cases rule: set_execution_mode_cases [where w = w and now = now and m = m and E = E])
  case (swaps E2)
  let ?k = "if simulated_mode m then SIMULATION else DIRECT_BROKER" and ?src = "if simulated_mode m then ''PAPER'' else ''LIVE''"
  have e: "E' = update_runtime_mode (invalidate_cross_mode_state now (en_mode E) m E2)" using swaps(2) assms(2) by simp
  have d: "simulated_mode (en_mode E) \<noteq> simulated_mode m" using swaps(1) assms(1) by (auto simp: coherent_def)
  show ?thesis
  proof (cases rule: swap_adapter_cases [where w = w and k = ?k and src = ?src and E = "requested m E"])
    case (complete E3)
    then have "E3 = E2" using swaps(3) by simp
    with complete have v: "market_view E2 = market_view E" "is_simulation E2 = simulated_mode m" "en_mode E2 = m"
      "map_option ad_source (adapter_of E2) = Some ?src" "en_memory E2 = en_memory E" by (simp_all split: if_splits)
    show ?thesis
      unfolding e using invalidate_clears [OF d v(1)] v by (simp add: coherent_def sweep_side_def)
  qed (use swaps(3) in simp_all)
qed (use assms(2) in simp_all)

text \<open>After a switch from a simulated mode to a broker mode that failed before the new adapter was
  bound, repeating the request binds the broker adapter and clears nothing: the failed attempt has
  already overwritten the configured mode, so the boundary is no longer seen to change, and the
  simulation's last tick, order prices and bars cross it.\<close>

theorem retry_keeps_stale_state:
  assumes "is_simulation E" and "\<not> simulated_mode m" and "sw_disconnect_raises w1 \<or> sw_build_raises w1"
    and "set_execution_mode w2 now2 m (snd (set_execution_mode w1 now1 m E)) = (SWITCHED m old True badge, E')"
  shows "\<not> is_simulation E' \<and> market_view E' = market_view E \<and> old = m"
proof -
  have first: "market_view E1 = market_view E \<and> is_simulation E1 \<and> en_mode E1 = m"
    if "swap_adapter w1 DIRECT_BROKER ''LIVE'' (requested m E) = (b, E1)" for b E1
    using that assms(1,3) by (auto simp: swap_adapter_def Let_def split: if_splits)
  obtain E1 where e1: "snd (set_execution_mode w1 now1 m E) = E1" "market_view E1 = market_view E" "is_simulation E1" "en_mode E1 = m"
  proof (cases rule: set_execution_mode_cases [where w = w1 and now = now1 and m = m and E = E])
    case (fails E1)
    then show ?thesis using first [of False E1] assms(2) that [of E1] by simp
  next
    case (swaps E1)
    then have False using assms(2,3) by (auto simp: swap_adapter_def Let_def split: if_splits)
    then show ?thesis ..
  qed (use assms in simp_all)
  show ?thesis
  proof (cases rule: set_execution_mode_cases [where w = w2 and now = now2 and m = m and E = E1])
    case (swaps E2)
    have i: "invalidate_cross_mode_state now2 (en_mode E1) m E2 = E2"
      using e1(4) by (simp add: invalidate_cross_mode_state_def)
    have e': "E' = update_runtime_mode E2 \<and> old = m" using swaps(2) assms(4) e1(1,4) i by auto
    show ?thesis
    proof (cases rule: swap_adapter_cases [where w = w2 and k = DIRECT_BROKER and src = "''LIVE''" and E = "requested m E1"])
      case (complete E3)
      then show ?thesis using swaps(3) assms(2) e1 e' by simp
    qed (use swaps(3) assms(2) in simp_all)
  qed (use assms(4) e1 in simp_all)
qed

section \<open>Samples\<close>

definition paper_engine :: "f64 \<Rightarrow> engine" where
  "paper_engine price = (boot_engine ''XAUUSD'' (Some PAPER) None PAPER True DIRECT_BROKER 0)
     \<lparr>en_policy := Some \<lparr>pc_order_price = Some price, pc_order_time = Some 5, pc_direction = Some A_SELL_LIMIT,
                        pc_direction_time = Some 5, pc_executed_price = price\<rparr>\<rparr>"

definition good_world :: swap_world where
  "good_world = \<lparr>sw_disconnect_raises = False, sw_build_raises = False, sw_connect_raises = False, sw_link_up = True\<rparr>"

definition bad_world :: swap_world where
  "bad_world = good_world\<lparr>sw_disconnect_raises := True\<rparr>"

lemma paper_engine_simulation: "is_simulation (paper_engine price) \<and> en_mode (paper_engine price) = PAPER"
  by (simp add: paper_engine_def boot_engine_def boot_mode_def align_adapter_to_boot_mode_def is_simulation_def adapter_of_def Let_def)

lemma paper_engine_coherent: "coherent (paper_engine price)"
  using paper_engine_simulation [of price] by (simp add: coherent_def simulated_mode_def)

text \<open>A completed switch that needs a swap reports it.\<close>

lemma good_switch:
  assumes "simulated_mode m \<noteq> is_simulation E"
  obtains badge E' where "set_execution_mode good_world now m E = (SWITCHED m (en_mode E) True badge, E')"
proof -
  have "swap_adapter good_world k src E2 = (True, link_up good_world (bind_adapter k src (drop_link E2)))" for k src E2
    by (simp add: swap_adapter_def good_world_def Let_def)
  then show ?thesis
    by (cases rule: set_execution_mode_cases [where w = good_world and now = now and m = m and E = E])
      (use assms that in auto)
qed

lemma swap_clears_and_keeps_witness:
  "\<exists>badge E'. set_execution_mode good_world 0 LIVE ((paper_engine (Fin 2000))\<lparr>en_memory := fresh_memory\<lparr>me_prev_bid := Fin 2000\<rparr>\<rparr>)
      = (SWITCHED LIVE PAPER True badge, E')
    \<and> coherent E' \<and> en_last_tick E' = None \<and> me_prev_bid (en_memory E') = Fin 2000"
proof -
  let ?E = "(paper_engine (Fin 2000))\<lparr>en_memory := fresh_memory\<lparr>me_prev_bid := Fin 2000\<rparr>\<rparr>"
  have sim: "is_simulation ?E" "en_mode ?E = PAPER" "\<not> simulated_mode LIVE"
    using paper_engine_simulation [of "Fin 2000"] by (auto simp: is_simulation_def adapter_of_def simulated_mode_def)
  then have co: "coherent ?E" by (simp add: coherent_def simulated_mode_def)
  obtain badge E' where s: "set_execution_mode good_world 0 LIVE ?E = (SWITCHED LIVE PAPER True badge, E')"
    using good_switch [of LIVE ?E 0] sim by auto
  from s swap_clears_and_keeps [OF co s] show ?thesis by (auto simp: market_state_cleared_def)
qed

lemma retry_keeps_stale_state_witness:
  "\<exists>badge E'. set_execution_mode good_world 0 LIVE (snd (set_execution_mode bad_world 0 LIVE (paper_engine (Fin 2000))))
     = (SWITCHED LIVE LIVE True badge, E') \<and> \<not> is_simulation E' \<and> en_policy E' = en_policy (paper_engine (Fin 2000))"
proof -
  let ?E = "paper_engine (Fin 2000)" and ?E1 = "snd (set_execution_mode bad_world 0 LIVE (paper_engine (Fin 2000)))"
  have sim: "is_simulation ?E" "\<not> simulated_mode LIVE" using paper_engine_simulation by (auto simp: simulated_mode_def)
  have bad: "sw_disconnect_raises bad_world \<or> sw_build_raises bad_world" by (simp add: bad_world_def)
  have "swap_adapter bad_world k src E2 = (False, E2)" for k src E2
    by (simp add: swap_adapter_def bad_world_def)
  then have e1: "is_simulation ?E1 \<and> en_mode ?E1 = LIVE"
    using sim by (simp add: set_execution_mode_def Let_def is_simulation_def adapter_of_def)
  obtain badge E' where s: "set_execution_mode good_world 0 LIVE ?E1 = (SWITCHED LIVE LIVE True badge, E')"
    using good_switch [of LIVE ?E1 0] e1 sim(2) by auto
  from s retry_keeps_stale_state [OF sim bad s] show ?thesis by (auto simp: market_view_def)
qed

section \<open>Replay from the dashboard\<close>

lemma replay_label: "mode_of_text (upper (strip ''replay'')) = Some REPLAY"
  by code_simp

text \<open>In PAPER mode the dashboard's request to switch to REPLAY is accepted, and it replaces the
  simulation adapter by the real broker's: REPLAY is documented as running on the simulation adapter,
  but the switch counts every mode other than PAPER and SHADOW as a broker mode.\<close>

theorem replay_request_binds_broker:
  assumes "is_simulation E" and "en_mode E = PAPER"
    and "\<not> sw_disconnect_raises w" and "\<not> sw_build_raises w" and "\<not> sw_connect_raises w"
  shows "\<exists>badge E'. request_mode w now ''replay'' E = (Some (SWITCHED REPLAY PAPER True badge), E') \<and>
           map_option ad_kind (adapter_of E') = Some DIRECT_BROKER \<and> map_option ad_source (adapter_of E') = Some ''LIVE''"
proof -
  have m: "\<not> simulated_mode REPLAY" by (simp add: simulated_mode_def)
  let ?E2 = "link_up w (bind_adapter DIRECT_BROKER ''LIVE'' (drop_link (requested REPLAY E)))"
  have s: "swap_adapter w DIRECT_BROKER ''LIVE'' (requested REPLAY E) = (True, ?E2)"
    using assms(3-5) by (simp add: swap_adapter_def Let_def)
  have a: "adapter_of ?E2 = Some \<lparr>ad_kind = DIRECT_BROKER, ad_source = ''LIVE'', ad_connected = sw_link_up w\<rparr>"
    by (simp add: link_up_def adapter_of_def bind_adapter_def Let_def)
  have r: "request_mode w now ''replay'' E = (let (r, E) = set_execution_mode w now REPLAY E in (Some r, E))"
    using replay_label assms(2) by (simp add: request_mode_def validate_transition_def Let_def upper_def lower_char_def
        upper_char_def strip_def is_space_def)
  show ?thesis
    by (cases rule: set_execution_mode_cases [where w = w and now = now and m = REPLAY and E = E])
      (use assms m s a in \<open>auto simp: r\<close>)
qed

lemma replay_request_binds_broker_witness:
  "\<exists>badge E'. request_mode good_world 0 ''replay'' (paper_engine (Fin 2000)) = (Some (SWITCHED REPLAY PAPER True badge), E') \<and>
     map_option ad_kind (adapter_of E') = Some DIRECT_BROKER"
proof -
  have g: "\<not> sw_disconnect_raises good_world" "\<not> sw_build_raises good_world" "\<not> sw_connect_raises good_world"
    by (simp_all add: good_world_def)
  show ?thesis
    using replay_request_binds_broker [of "paper_engine (Fin 2000)" good_world 0] g paper_engine_simulation [of "Fin 2000"]
    by blast
qed

end
