(* ===== verification/OrderWrite.thy ===== *)
theory OrderWrite
  imports PyText Domain
begin

text \<open>
  \<^verbatim>\<open>execution/order_write.py\<close>: the three-valued outcome of a broker write, the restart-stable
  fingerprint of a request and the append-only store of order intents. The store's file is its
  text. Turning a JSON value into text and back is the \<^verbatim>\<open>json\<close> module's and an argument with the
  laws it documents; the field layout of the records is defined here.
\<close>

section \<open>Outcomes\<close>

datatype write_outcome = W_SUCCESS | W_REJECTED | W_UNKNOWN

record write_result =
  wr_outcome :: write_outcome
  wr_ticket :: int
  wr_detail :: string
  wr_retcode :: "int option"

definition wr_ok :: "write_result \<Rightarrow> bool" where
  "wr_ok r \<longleftrightarrow> wr_outcome r = W_SUCCESS"

definition wr_unknown :: "write_result \<Rightarrow> bool" where
  "wr_unknown r \<longleftrightarrow> wr_outcome r = W_UNKNOWN"

definition success :: "int \<Rightarrow> string \<Rightarrow> write_result" where
  "success ticket detail = \<lparr>wr_outcome = W_SUCCESS, wr_ticket = ticket, wr_detail = detail, wr_retcode = None\<rparr>"

definition rejected :: "int option \<Rightarrow> string \<Rightarrow> write_result" where
  "rejected retcode detail = \<lparr>wr_outcome = W_REJECTED, wr_ticket = 0, wr_detail = detail, wr_retcode = retcode\<rparr>"

definition unknown :: "string \<Rightarrow> int option \<Rightarrow> write_result" where
  "unknown detail retcode = \<lparr>wr_outcome = W_UNKNOWN, wr_ticket = 0, wr_detail = detail, wr_retcode = retcode\<rparr>"

text \<open>\<open>repr\<close> is Python's shortest decimal text of a float.\<close>

definition idempotency_fingerprint :: "(f64 \<Rightarrow> string) \<Rightarrow> string \<Rightarrow> string \<Rightarrow> f64 \<Rightarrow> f64 \<Rightarrow> int \<Rightarrow> string" where
  "idempotency_fingerprint repr symbol order_type volume price magic =
     show_int magic @ ''|'' @ symbol @ ''|'' @ order_type @ ''|'' @ repr (round_nd 9 volume) @ ''|'' @ repr (round_nd 9 price)"

section \<open>Intents and their JSON form\<close>

record order_intent =
  oi_id :: string
  oi_request :: string
  oi_created :: string
  oi_symbol :: string
  oi_side :: string
  oi_kind :: string
  oi_volume :: f64
  oi_price :: f64
  oi_fingerprint :: string
  oi_status :: string
  oi_ticket :: "int option"
  oi_resolved :: "string option"
  oi_detail :: string

definition json_opt :: "('a \<Rightarrow> json) \<Rightarrow> 'a option \<Rightarrow> json" where
  "json_opt f x = (case x of None \<Rightarrow> JNull | Some v \<Rightarrow> f v)"

text \<open>\<^verbatim>\<open>asdict\<close> with the keys sorted\<close>

definition intent_json :: "order_intent \<Rightarrow> json" where
  "intent_json i = JObj
     [(''created_at_utc'', JStr (oi_created i)), (''fingerprint'', JStr (oi_fingerprint i)),
      (''intent_id'', JStr (oi_id i)), (''order_kind'', JStr (oi_kind i)), (''price'', JFloat (oi_price i)),
      (''request_id'', JStr (oi_request i)), (''requested_volume'', JFloat (oi_volume i)),
      (''resolution_detail'', JStr (oi_detail i)), (''resolved_at_utc'', json_opt JStr (oi_resolved i)),
      (''side'', JStr (oi_side i)), (''status'', JStr (oi_status i)), (''symbol'', JStr (oi_symbol i)),
      (''ticket'', json_opt JInt (oi_ticket i))]"

text \<open>\<^verbatim>\<open>OrderIntent(**json.loads(raw))\<close>: a value that is not an object, an unknown key or a missing
  required key is an error; the four last fields have defaults. A field of another JSON type than the
  writer's is not represented and counts as an error too.\<close>

definition required_keys :: "string list" where
  "required_keys = [''intent_id'', ''request_id'', ''created_at_utc'', ''symbol'', ''side'', ''order_kind'',
                    ''requested_volume'', ''price'', ''fingerprint'']"

definition default_keys :: "string list" where
  "default_keys = [''status'', ''ticket'', ''resolved_at_utc'', ''resolution_detail'']"

definition str_field :: "string \<Rightarrow> (string \<times> json) list \<Rightarrow> string option" where
  "str_field k d = (case map_of d k of Some (JStr s) \<Rightarrow> Some s | _ \<Rightarrow> None)"

definition num_field :: "string \<Rightarrow> (string \<times> json) list \<Rightarrow> f64 option" where
  "num_field k d = (case map_of d k of Some (JFloat x) \<Rightarrow> Some x | _ \<Rightarrow> None)"

definition opt_field :: "(json \<Rightarrow> 'a option) \<Rightarrow> 'a \<Rightarrow> string \<Rightarrow> (string \<times> json) list \<Rightarrow> 'a option" where
  "opt_field f dflt k d = (case map_of d k of None \<Rightarrow> Some dflt | Some v \<Rightarrow> f v)"

definition as_str :: "json \<Rightarrow> string option" where
  "as_str v = (case v of JStr s \<Rightarrow> Some s | _ \<Rightarrow> None)"

definition as_opt_str :: "json \<Rightarrow> string option option" where
  "as_opt_str v = (case v of JStr s \<Rightarrow> Some (Some s) | JNull \<Rightarrow> Some None | _ \<Rightarrow> None)"

definition as_opt_int :: "json \<Rightarrow> int option option" where
  "as_opt_int v = (case v of JInt n \<Rightarrow> Some (Some n) | JNull \<Rightarrow> Some None | _ \<Rightarrow> None)"

definition intent_of_fields :: "(string \<times> json) list \<Rightarrow> order_intent option" where
  "intent_of_fields d =
     Option.bind (str_field ''intent_id'' d) (\<lambda>i. Option.bind (str_field ''request_id'' d) (\<lambda>r.
     Option.bind (str_field ''created_at_utc'' d) (\<lambda>c. Option.bind (str_field ''symbol'' d) (\<lambda>s.
     Option.bind (str_field ''side'' d) (\<lambda>sd. Option.bind (str_field ''order_kind'' d) (\<lambda>k.
     Option.bind (num_field ''requested_volume'' d) (\<lambda>v. Option.bind (num_field ''price'' d) (\<lambda>p.
     Option.bind (str_field ''fingerprint'' d) (\<lambda>f. Option.bind (opt_field as_str ''PENDING'' ''status'' d) (\<lambda>st.
     Option.bind (opt_field as_opt_int None ''ticket'' d) (\<lambda>t.
     Option.bind (opt_field as_opt_str None ''resolved_at_utc'' d) (\<lambda>ra.
     Option.bind (opt_field as_str '''' ''resolution_detail'' d) (\<lambda>de.
       Some \<lparr>oi_id = i, oi_request = r, oi_created = c, oi_symbol = s, oi_side = sd, oi_kind = k, oi_volume = v,
             oi_price = p, oi_fingerprint = f, oi_status = st, oi_ticket = t, oi_resolved = ra, oi_detail = de\<rparr>)))))))))))))"

definition intent_of_json :: "json \<Rightarrow> order_intent option" where
  "intent_of_json j = (case j of
       JObj d \<Rightarrow> if set (map fst d) \<subseteq> set (required_keys @ default_keys) then intent_of_fields d else None
     | _ \<Rightarrow> None)"

lemma intent_json_roundtrip: "intent_of_json (intent_json i) = Some i"
  by (cases i) (simp add: intent_of_json_def intent_json_def intent_of_fields_def str_field_def num_field_def
      opt_field_def as_str_def as_opt_str_def as_opt_int_def json_opt_def required_keys_def default_keys_def
      split: option.split)

section \<open>The store\<close>

text \<open>\<^verbatim>\<open>json.dumps\<close> and \<^verbatim>\<open>json.loads\<close>, a failing parse being \<open>None\<close>.\<close>

record json_text =
  jt_dumps :: "json \<Rightarrow> string"
  jt_loads :: "string \<Rightarrow> json option"

definition to_json :: "json_text \<Rightarrow> order_intent \<Rightarrow> string" where
  "to_json J i = jt_dumps J (intent_json i)"

definition from_json :: "json_text \<Rightarrow> string \<Rightarrow> order_intent option" where
  "from_json J raw = Option.bind (jt_loads J raw) intent_of_json"

definition NL :: char where
  "NL = char_of (10 :: nat)"

text \<open>The lines of a text file, without their line ends; the last one may lack its own.\<close>

fun lines_from :: "string \<Rightarrow> string \<Rightarrow> string list" where
  "lines_from acc [] = (if acc = [] then [] else [rev acc])"
| "lines_from acc (c # cs) = (if c = NL then rev acc # lines_from [] cs else lines_from (c # acc) cs)"

definition file_lines :: "string \<Rightarrow> string list" where
  "file_lines s = lines_from [] s"

text \<open>The file, \<open>None\<close> while it does not exist. Appending creates it.\<close>

type_synonym store_file = "string option"

definition append_text :: "string \<Rightarrow> store_file \<Rightarrow> store_file" where
  "append_text s F = Some ((case F of None \<Rightarrow> '''' | Some t \<Rightarrow> t) @ s)"

definition record_intent :: "json_text \<Rightarrow> order_intent \<Rightarrow> store_file \<Rightarrow> store_file" where
  "record_intent J i F = append_text (to_json J i @ [NL]) F"

text \<open>One line of recovery: blank and corrupt lines are skipped, later records replace earlier ones.\<close>

definition read_line :: "json_text \<Rightarrow> (string \<times> order_intent) list \<Rightarrow> string \<Rightarrow> (string \<times> order_intent) list" where
  "read_line J latest raw =
     (let line = strip raw
      in if line = [] then latest
         else case from_json J line of None \<Rightarrow> latest | Some i \<Rightarrow> AList.update (oi_id i) i latest)"

definition load_latest :: "json_text \<Rightarrow> store_file \<Rightarrow> (string \<times> order_intent) list" where
  "load_latest J F = (case F of None \<Rightarrow> [] | Some t \<Rightarrow> foldl (read_line J) [] (file_lines t))"

definition load_pending :: "json_text \<Rightarrow> store_file \<Rightarrow> (string \<times> order_intent) list" where
  "load_pending J F = filter (\<lambda>(k, i). oi_status i = ''PENDING'') (load_latest J F)"

definition resolve_intent ::
  "json_text \<Rightarrow> string \<Rightarrow> string \<Rightarrow> int option \<Rightarrow> string \<Rightarrow> string \<Rightarrow> store_file \<Rightarrow> store_file" where
  "resolve_intent J key status ticket detail at_utc F =
     (case map_of (load_pending J F) key of
        None \<Rightarrow> F
      | Some i \<Rightarrow> record_intent J (i\<lparr>oi_status := status, oi_ticket := ticket, oi_resolved := Some at_utc,
                                    oi_detail := detail\<rparr>) F)"

section \<open>Recovery\<close>

text \<open>What the \<^verbatim>\<open>json\<close> module documents of one value: its text is one line without surrounding
  blanks and reads back as the value.\<close>

definition json_law :: "json_text \<Rightarrow> json \<Rightarrow> bool" where
  "json_law J j \<longleftrightarrow> jt_loads J (jt_dumps J j) = Some j \<and> NL \<notin> set (jt_dumps J j)
     \<and> strip (jt_dumps J j) = jt_dumps J j \<and> jt_dumps J j \<noteq> []"

definition record_all :: "json_text \<Rightarrow> order_intent list \<Rightarrow> store_file \<Rightarrow> store_file" where
  "record_all J xs F = foldl (\<lambda>F i. record_intent J i F) F xs"

text \<open>The abstract store: the last intent recorded under each identity, and those still open.\<close>

definition last_intent :: "order_intent list \<Rightarrow> string \<Rightarrow> order_intent option" where
  "last_intent xs = foldl (\<lambda>m i. m(oi_id i \<mapsto> i)) Map.empty xs"

definition open_intents :: "order_intent list \<Rightarrow> string \<Rightarrow> order_intent option" where
  "open_intents xs k = (case last_intent xs k of
     Some i \<Rightarrow> if oi_status i = ''PENDING'' then Some i else None | None \<Rightarrow> None)"

lemma lines_from_line: "NL \<notin> set l \<Longrightarrow> lines_from acc (l @ NL # t) = (rev acc @ l) # lines_from [] t"
  by (induction l arbitrary: acc) auto

lemma lines_from_last: "NL \<notin> set l \<Longrightarrow> lines_from acc l = (if acc = [] \<and> l = [] then [] else [rev acc @ l])"
  by (induction l arbitrary: acc) auto

definition line_text :: "json_text \<Rightarrow> order_intent list \<Rightarrow> string" where
  "line_text J xs = concat (map (\<lambda>i. to_json J i @ [NL]) xs)"

lemma file_lines_records:
  "\<forall>i \<in> set xs. json_law J (intent_json i) \<Longrightarrow>
   file_lines (line_text J xs @ t) = map (to_json J) xs @ file_lines t"
  by (induction xs) (auto simp: file_lines_def line_text_def lines_from_line json_law_def to_json_def)

lemma record_all_text: "record_all J xs (Some t) = Some (t @ line_text J xs)"
  by (induction xs arbitrary: t) (simp_all add: record_all_def line_text_def record_intent_def append_text_def)

lemma record_all_none: "record_all J xs None = (if xs = [] then None else Some (line_text J xs))"
proof (cases xs)
  case (Cons i ys)
  have "record_all J xs None = record_all J ys (Some (to_json J i @ [NL]))"
    by (simp add: record_all_def Cons record_intent_def append_text_def)
  then show ?thesis by (simp add: record_all_text Cons line_text_def)
qed (simp add: record_all_def)

lemma read_line_record:
  "json_law J (intent_json i) \<Longrightarrow> read_line J latest (to_json J i) = AList.update (oi_id i) i latest"
  by (simp add: read_line_def Let_def json_law_def to_json_def from_json_def intent_json_roundtrip)

lemma load_latest_text:
  assumes "\<forall>i \<in> set xs. json_law J (intent_json i)"
  shows "load_latest J (Some (line_text J xs @ t)) =
    foldl (read_line J) (foldl (\<lambda>d i. AList.update (oi_id i) i d) [] xs) (file_lines t)"
proof -
  have "foldl (read_line J) d (map (to_json J) xs) = foldl (\<lambda>d i. AList.update (oi_id i) i d) d xs" for d
    using assms by (induction xs arbitrary: d) (simp_all add: read_line_record)
  then show ?thesis by (simp add: load_latest_def file_lines_records [OF assms])
qed

lemma load_latest_records:
  assumes "\<forall>i \<in> set xs. json_law J (intent_json i)"
  shows "load_latest J (record_all J xs None) = foldl (\<lambda>d i. AList.update (oi_id i) i d) [] xs"
  using load_latest_text [OF assms, of "[]"]
  by (cases "xs = []") (simp_all add: record_all_none load_latest_def file_lines_def)

lemma map_of_latest: "map_of (foldl (\<lambda>d i. AList.update (oi_id i) i d) d xs) = foldl (\<lambda>m i. m(oi_id i \<mapsto> i)) (map_of d) xs"
  by (induction xs arbitrary: d) simp_all

lemma distinct_latest: "distinct (map fst d) \<Longrightarrow> distinct (map fst (foldl (\<lambda>d i. AList.update (oi_id i) i d) d xs))"
  by (induction xs arbitrary: d) (simp_all add: distinct_update)

lemma map_of_filter_value:
  "distinct (map fst d) \<Longrightarrow>
   map_of (filter (\<lambda>(k, i). P i) d) k = (case map_of d k of Some i \<Rightarrow> if P i then Some i else None | None \<Rightarrow> None)"
  by (induction d) (auto simp: map_of_eq_None_iff image_iff split: option.splits)

text \<open>C29: After any sequence of completed writes, a restart recovers exactly the intents whose last
  record is still PENDING: nothing in flight is lost, nothing resolved comes back.\<close>

theorem recovery_refines_abstract_store:
  assumes "\<forall>i \<in> set xs. json_law J (intent_json i)"
  shows "map_of (load_pending J (record_all J xs None)) = open_intents xs"
proof
  fix k
  let ?d = "foldl (\<lambda>d i. AList.update (oi_id i) i d) [] xs"
  have "map_of ?d = last_intent xs" using map_of_latest [of "[]" xs] by (simp add: last_intent_def)
  then show "map_of (load_pending J (record_all J xs None)) k = open_intents xs k"
    using map_of_filter_value [OF distinct_latest [of "[]" xs], of "\<lambda>i. oi_status i = ''PENDING''" k]
    by (simp add: load_pending_def load_latest_records [OF assms] open_intents_def)
qed

text \<open>Resolving an intent records a copy with the final status.\<close>

definition close_intent :: "string \<Rightarrow> int option \<Rightarrow> string \<Rightarrow> string \<Rightarrow> order_intent \<Rightarrow> order_intent" where
  "close_intent status ticket detail at_utc i =
     i\<lparr>oi_status := status, oi_ticket := ticket, oi_resolved := Some at_utc, oi_detail := detail\<rparr>"

lemma record_all_snoc: "record_intent J i (record_all J xs F) = record_all J (xs @ [i]) F"
  by (simp add: record_all_def)

lemma last_intent_simps [simp]:
  "last_intent [] = Map.empty" "last_intent (xs @ [i]) = (last_intent xs)(oi_id i \<mapsto> i)"
  by (simp_all add: last_intent_def)

lemma last_intent_id: "last_intent xs k = Some i \<Longrightarrow> i \<in> set xs \<and> oi_id i = k"
proof (induction xs rule: rev_induct)
  case (snoc x xs)
  then show ?case by (cases "k = oi_id x") auto
qed simp

text \<open>Resolving an open intent with a final status removes exactly it from what a restart
  recovers, and resolving it again writes nothing.\<close>

theorem resolve_is_final:
  assumes "\<forall>i \<in> set xs. json_law J (intent_json i) \<and> json_law J (intent_json (close_intent status ticket detail at_utc i))"
    and "status \<noteq> ''PENDING''"
  shows "case resolve_intent J key status ticket detail at_utc (record_all J xs None) of F \<Rightarrow>
           map_of (load_pending J F) = (map_of (load_pending J (record_all J xs None)))(key := None) \<and>
           resolve_intent J key status2 ticket2 detail2 at2 F = F"
proof -
  let ?F = "record_all J xs None"
  have law: "\<forall>i \<in> set xs. json_law J (intent_json i)" using assms by blast
  note p = recovery_refines_abstract_store [OF law]
  show ?thesis
  proof (cases "open_intents xs key")
    case None
    have r: "resolve_intent J key s t d a ?F = ?F" for s t d a
      by (simp add: resolve_intent_def p None)
    have "(open_intents xs)(key := None) = open_intents xs" using None by (simp add: fun_upd_idem)
    then show ?thesis by (simp add: r p)
  next
    case (Some i)
    let ?c = "close_intent status ticket detail at_utc i"
    have l: "last_intent xs key = Some i" using Some by (auto simp: open_intents_def split: option.splits if_splits)
    have i: "i \<in> set xs" "oi_id ?c = key" using last_intent_id [OF l] by (auto simp: close_intent_def)
    have r: "resolve_intent J key status ticket detail at_utc ?F = record_all J (xs @ [?c]) None"
      using Some p by (simp add: resolve_intent_def record_all_snoc close_intent_def)
    have law2: "\<forall>i \<in> set (xs @ [?c]). json_law J (intent_json i)" using assms(1) i by auto
    have o: "open_intents (xs @ [?c]) = (open_intents xs)(key := None)"
      using i(2) assms(2) by (auto simp: fun_eq_iff open_intents_def close_intent_def)
    note p2 = recovery_refines_abstract_store [OF law2]
    have "resolve_intent J key s t d a (record_all J (xs @ [?c]) None) = record_all J (xs @ [?c]) None" for s t d a
      by (simp add: resolve_intent_def p2 o)
    then show ?thesis unfolding r by (simp add: p p2 o)
  qed
qed

text \<open>A write cut short by a crash leaves a line without its end, and the next intent is appended
  to that line: unless the two texts happen to parse together, it is lost for every later recovery,
  although its own write completed.\<close>

theorem torn_write_loses_next_intent:
  assumes "\<forall>i \<in> set xs. json_law J (intent_json i)" and "json_law J (intent_json j)"
    and "p @ q = to_json J i" and "NL \<notin> set p"
    and "from_json J (strip (p @ to_json J j)) = None"
  shows "load_pending J (record_intent J j (append_text p (record_all J xs None))) = load_pending J (record_all J xs None)"
proof -
  have nl: "NL \<notin> set (p @ to_json J j)" using assms(2,4) by (simp add: json_law_def to_json_def)
  let ?t = "p @ to_json J j @ [NL]"
  have f: "record_intent J j (append_text p (record_all J xs None)) = Some (line_text J xs @ ?t)"
    by (auto simp: record_intent_def append_text_def record_all_none line_text_def)
  have "file_lines ?t = [p @ to_json J j]"
    using lines_from_line [OF nl, of "[]" "[]"] by (simp add: file_lines_def)
  then have "load_latest J (Some (line_text J xs @ ?t)) = foldl (\<lambda>d i. AList.update (oi_id i) i d) [] xs"
    using load_latest_text [OF assms(1), of ?t] assms(5) by (simp add: read_line_def Let_def)
  then show ?thesis
    unfolding f load_pending_def using load_latest_records [OF assms(1)] by simp
qed

section \<open>Samples\<close>

text \<open>A text format given by a table.\<close>

definition table_text :: "(json \<times> string) list \<Rightarrow> json_text" where
  "table_text tbl = \<lparr>jt_dumps = (\<lambda>j. case map_of tbl j of Some s \<Rightarrow> s | None \<Rightarrow> ''{}''),
                     jt_loads = (\<lambda>s. map_option fst (find (\<lambda>(j, u). u = s) tbl))\<rparr>"

definition sample_intent :: "string \<Rightarrow> order_intent" where
  "sample_intent key = \<lparr>oi_id = key, oi_request = ''r'', oi_created = ''t'', oi_symbol = ''XAUUSD'', oi_side = ''BUY'',
     oi_kind = ''MARKET'', oi_volume = Fin 1, oi_price = Fin 2000, oi_fingerprint = ''f'', oi_status = ''PENDING'',
     oi_ticket = None, oi_resolved = None, oi_detail = ''''\<rparr>"

definition closed_sample :: "string \<Rightarrow> order_intent" where
  "closed_sample key = close_intent ''RESOLVED_SUCCESS'' (Some 7) ''filled'' ''t2'' (sample_intent key)"

definition sample_text :: json_text where
  "sample_text = table_text [(intent_json (sample_intent ''a''), ''{1}''), (intent_json (sample_intent ''b''), ''{2}''),
     (intent_json (closed_sample ''a''), ''{3}''), (intent_json (closed_sample ''b''), ''{4}'')]"

lemma sample_laws:
  "json_law sample_text (intent_json (sample_intent ''a''))" "json_law sample_text (intent_json (sample_intent ''b''))"
  "json_law sample_text (intent_json (closed_sample ''a''))" "json_law sample_text (intent_json (closed_sample ''b''))"
  by code_simp+

lemma recovery_refines_abstract_store_witness:
  "map_of (load_pending sample_text (record_all sample_text [sample_intent ''a'', sample_intent ''b'', closed_sample ''a''] None))
     = open_intents [sample_intent ''a'', sample_intent ''b'', closed_sample ''a'']"
  by (rule recovery_refines_abstract_store) (simp add: sample_laws)

lemma resolve_is_final_witness:
  "map_of (load_pending sample_text (resolve_intent sample_text ''a'' ''RESOLVED_SUCCESS'' (Some 7) ''filled'' ''t2''
      (record_all sample_text [sample_intent ''a'', sample_intent ''b''] None))) ''a'' = None"
  using resolve_is_final [of "[sample_intent ''a'', sample_intent ''b'']" sample_text "''RESOLVED_SUCCESS''" "Some 7" "''filled''"
      "''t2''" "''a''" "''X''" None "''''" "''''"] sample_laws
  by (simp add: closed_sample_def)

lemma torn_write_loses_next_intent_witness:
  "map_of (load_pending sample_text (record_intent sample_text (sample_intent ''b'')
      (append_text ''{'' (record_all sample_text [] None)))) ''b'' = None"
proof -
  have d: "to_json sample_text (sample_intent ''a'') = ''{1}''" "NL \<notin> set ''{''"
    "from_json sample_text (strip (''{'' @ to_json sample_text (sample_intent ''b''))) = None"
    by code_simp+
  have "load_pending sample_text (record_intent sample_text (sample_intent ''b'')
      (append_text ''{'' (record_all sample_text [] None))) = load_pending sample_text (record_all sample_text [] None)"
    by (rule torn_write_loses_next_intent [where i = "sample_intent ''a''" and q = "''1}''"]) (use d sample_laws in simp_all)
  then show ?thesis by (simp add: record_all_def load_pending_def load_latest_def)
qed

text \<open>The fingerprint ignores differences of volume and price beyond nine decimals.\<close>

lemma fingerprint_rounds:
  "round_nd 9 v = round_nd 9 v' \<Longrightarrow> round_nd 9 p = round_nd 9 p' \<Longrightarrow>
   idempotency_fingerprint repr s k v p m = idempotency_fingerprint repr s k v' p' m"
  by (simp add: idempotency_fingerprint_def)

text \<open>A rejection and an unknown outcome are told apart, and neither carries a ticket.\<close>

lemma outcomes_distinct:
  "wr_ok (success t d) \<and> \<not> wr_ok (rejected r d) \<and> \<not> wr_ok (unknown d r) \<and> wr_unknown (unknown d r) \<and>
   \<not> wr_unknown (rejected r d) \<and> wr_ticket (unknown d r) = 0 \<and> wr_ticket (rejected r d) = 0"
  by (simp add: wr_ok_def wr_unknown_def success_def rejected_def unknown_def)

end
