(* ===== verification/NewsGate.thy ===== *)
theory NewsGate
  imports PyNum Domain
begin

text \<open>
  \<^verbatim>\<open>news/gate.py\<close>, the news modifier of a proposal's confidence, with the context model it reads
  (\<^verbatim>\<open>news/models.py\<close>) and the bounds it is configured with (\<^verbatim>\<open>news/config.py\<close>).
  The gate returns a verdict only; the stage that applies it to a proposal is in
  \<^verbatim>\<open>PostPolicy\<close>.
\<close>

section \<open>The news context and the bounds\<close>

datatype news_direction = ND_BULLISH | ND_BEARISH | ND_NEUTRAL | ND_MIXED | ND_CONFLICTED

datatype news_state = NS_NORMAL | NS_ELEVATED | NS_HIGH_IMPACT | NS_CONFLICTED | NS_BREAKING | NS_STALE

record news_context =
  nc_available :: bool
  nc_state :: news_state
  nc_xauusd_relevance :: f64
  nc_usd_relevance :: f64
  nc_bullish :: f64
  nc_bearish :: f64
  nc_confidence :: f64
  nc_conflict :: f64
  nc_freshness :: f64
  nc_stale :: bool

definition unit_range :: "f64 \<Rightarrow> bool" where
  "unit_range x \<longleftrightarrow> 0 \<le> x \<and> x \<le> 1"

text \<open>The scores are pydantic fields with \<^verbatim>\<open>ge=0.0, le=1.0\<close>.\<close>

definition mk_news_context :: "news_context \<Rightarrow> news_context res" where
  "mk_news_context c =
     (if list_all unit_range [nc_xauusd_relevance c, nc_usd_relevance c, nc_bullish c, nc_bearish c,
         nc_confidence c, nc_conflict c, nc_freshness c] then ret c else raise ValueError)"

record news_bounds =
  nb_boost :: f64
  nb_penalty :: f64
  nb_blocked :: "news_state list"
  nb_caution :: "news_state list"

definition mk_news_bounds :: "news_bounds \<Rightarrow> news_bounds res" where
  "mk_news_bounds b =
     (if 0 \<le> nb_boost b \<and> nb_boost b \<le> fl (20 / 100) \<and> 0 \<le> nb_penalty b \<and> nb_penalty b \<le> fl (30 / 100)
      then ret b else raise ValueError)"

definition default_news_bounds :: news_bounds where
  "default_news_bounds = \<lparr>nb_boost = fl (5 / 100), nb_penalty = fl (10 / 100),
     nb_blocked = [NS_BREAKING, NS_HIGH_IMPACT], nb_caution = [NS_CONFLICTED, NS_ELEVATED]\<rparr>"

section \<open>The verdict\<close>

datatype gate_decision = GD_CONFIRM | GD_CONFLICT | GD_IGNORE | GD_CAUTION

datatype gate_reason =
    GR_NONE | GR_UNAVAILABLE_OR_STALE | GR_NON_ENTRY | GR_LOW_RELEVANCE | GR_HIGH_IMPACT_CAUTION | GR_ELEVATED_CAUTION
  | GR_ALIGNED | GR_STRATEGY_CONFLICT | GR_NEUTRAL_OR_WEAK

record news_verdict =
  nv_decision :: gate_decision
  nv_adjustment :: f64
  nv_news_direction :: news_direction
  nv_strategy_direction :: news_direction
  nv_aligned :: bool
  nv_conflicted :: bool
  nv_cautioned :: bool
  nv_blocked :: bool
  nv_reason :: gate_reason
  nv_state :: news_state
  nv_relevance :: f64
  nv_confidence :: f64

definition ignored :: "gate_reason \<Rightarrow> news_state \<Rightarrow> news_verdict" where
  "ignored r st = \<lparr>nv_decision = GD_IGNORE, nv_adjustment = 0, nv_news_direction = ND_NEUTRAL,
     nv_strategy_direction = ND_NEUTRAL, nv_aligned = False, nv_conflicted = False, nv_cautioned = False,
     nv_blocked = False, nv_reason = r, nv_state = st, nv_relevance = 0, nv_confidence = 0\<rparr>"

definition net_direction :: "news_context \<Rightarrow> news_direction" where
  "net_direction c =
     (let net = nc_bullish c - nc_bearish c
      in if fl (8 / 100) < net then ND_BULLISH
         else if net < - fl (8 / 100) then ND_BEARISH
         else if nc_confidence c < nc_conflict c then ND_CONFLICTED
         else ND_NEUTRAL)"

definition aligned :: "news_direction \<Rightarrow> news_direction \<Rightarrow> bool" where
  "aligned news strat = (if news \<in> {ND_NEUTRAL, ND_MIXED, ND_CONFLICTED} then False else news = strat)"

definition conflicted :: "news_direction \<Rightarrow> news_direction \<Rightarrow> bool" where
  "conflicted news strat =
     (if strat \<in> {ND_NEUTRAL, ND_CONFLICTED} then False
      else if news \<in> {ND_NEUTRAL, ND_MIXED} then False
      else news \<noteq> strat)"

text \<open>The strings of the two tuples of \<^verbatim>\<open>evaluate\<close>.\<close>

definition protection_actions :: "string list" where
  "protection_actions = [''NO_TRADE'', ''CLOSE_POSITION'', ''PARTIAL_CLOSE'', ''MODIFY_SL_TP'', ''CANCEL_ORDER'']"

definition entry_strings :: "string list" where
  "entry_strings = [''BUY'', ''SELL'', ''BUY_MARKET'', ''SELL_MARKET'', ''BUY_LIMIT'', ''SELL_LIMIT'',
     ''BUY_STOP'', ''SELL_STOP'']"

text \<open>
  The last part of \<^verbatim>\<open>evaluate\<close>, on the verdict as the caution branch left it: a caution is not
  an early return, its decision and its reason are overwritten in all three branches and its
  adjustment in the first two.
\<close>

definition align_verdict :: "news_bounds \<Rightarrow> news_context \<Rightarrow> f64 \<Rightarrow> bool \<Rightarrow> news_verdict \<Rightarrow> news_verdict" where
  "align_verdict b c relevance regime_aligned v =
     (let news = nv_news_direction v; strat = nv_strategy_direction v;
          v = v\<lparr>nv_aligned := aligned news strat, nv_conflicted := conflicted news strat\<rparr>
      in if aligned news strat \<and> regime_aligned then
           v\<lparr>nv_decision := GD_CONFIRM, nv_reason := GR_ALIGNED,
             nv_adjustment := round_nd 4 (pmin (nb_boost b * nc_confidence c * relevance) (nb_boost b))\<rparr>
         else if conflicted news strat then
           v\<lparr>nv_decision := GD_CONFLICT, nv_reason := GR_STRATEGY_CONFLICT,
             nv_adjustment := round_nd 4 (- pmin (nb_penalty b * nc_confidence c) (nb_penalty b))\<rparr>
         else v\<lparr>nv_decision := GD_IGNORE, nv_reason := GR_NEUTRAL_OR_WEAK\<rparr>)"

definition relevance_of :: "news_context \<Rightarrow> f64" where
  "relevance_of c = pmax (nc_xauusd_relevance c) (nc_usd_relevance c)"

definition fresh_verdict :: "news_context \<Rightarrow> news_direction \<Rightarrow> news_verdict" where
  "fresh_verdict c strat =
     (ignored GR_NONE (nc_state c))\<lparr>nv_strategy_direction := strat, nv_news_direction := net_direction c,
       nv_relevance := relevance_of c, nv_confidence := nc_confidence c\<rparr>"

definition caution :: "news_bounds \<Rightarrow> f64 \<Rightarrow> news_verdict \<Rightarrow> news_verdict" where
  "caution b conf v = v\<lparr>nv_decision := GD_CAUTION, nv_cautioned := True, nv_reason := GR_ELEVATED_CAUTION,
     nv_adjustment := - pmin (nb_penalty b * fl (1 / 2)) (conf * fl (1 / 2))\<rparr>"

definition news_evaluate :: "news_bounds \<Rightarrow> news_context \<Rightarrow> string \<Rightarrow> news_direction \<Rightarrow> f64 \<Rightarrow> bool \<Rightarrow> news_verdict" where
  "news_evaluate b c action strat conf regime_aligned =
     (if \<not> nc_available c \<or> nc_stale c then ignored GR_UNAVAILABLE_OR_STALE (nc_state c)
      else if action \<in> set protection_actions then ignored GR_NON_ENTRY (nc_state c)
      else if action \<notin> set entry_strings then ignored GR_NON_ENTRY (nc_state c)
      else if relevance_of c < fl (1 / 4) then
        (ignored GR_LOW_RELEVANCE (nc_state c))\<lparr>nv_relevance := relevance_of c, nv_confidence := nc_confidence c\<rparr>
      else
        let v = fresh_verdict c strat
        in if nc_state c \<in> set (nb_blocked b) \<and> fl (35 / 100) \<le> nc_confidence c then
             v\<lparr>nv_decision := GD_CAUTION, nv_cautioned := True, nv_blocked := (conf < fl (6 / 10)),
               nv_reason := GR_HIGH_IMPACT_CAUTION\<rparr>
           else align_verdict b c (relevance_of c) regime_aligned
             (if nc_state c \<in> set (nb_caution b) then caution b conf v else v))"

section \<open>Bounds of the influence\<close>

text \<open>The bounds a verdict can reach: the boost above, the larger of the two penalties below.\<close>

lemma unit_rangeD: "unit_range x \<Longrightarrow> Fin 0 \<le> x" "unit_range x \<Longrightarrow> x \<le> Fin 1"
  by (simp_all add: unit_range_def zero_f64_Fin one_f64_Fin)

lemma unit_rangeE: "unit_range x \<Longrightarrow> (\<And>r. x = Fin r \<Longrightarrow> 0 \<le> r \<Longrightarrow> r \<le> 1 \<Longrightarrow> P) \<Longrightarrow> P"
  by (cases x) (auto simp: unit_range_def zero_f64_Fin one_f64_Fin)

lemma fl_uminus: "fl (- x) = - fl x"
  by (auto simp: fl_def rnd_uminus Let_def) (use pow2_pos [of 1024] in linarith)

lemma round_nd_uminus: "round_nd n (- x) = - round_nd n x"
proof (cases x)
  case (Fin r)
  have "rhe (- (r * 10 ^ n)) = - rhe (r * 10 ^ n)" by (rule rhe_uminus)
  then show ?thesis by (simp add: Fin fl_uminus)
qed simp_all

lemma uminus_f64_le: "- x \<le> - y \<longleftrightarrow> y \<le> (x::f64)"
  by (cases x; cases y) auto

lemma mk_news_contextD:
  assumes "mk_news_context c = ret c"
  shows "unit_range (nc_xauusd_relevance c)" and "unit_range (nc_usd_relevance c)"
    and "unit_range (nc_bullish c)" and "unit_range (nc_bearish c)" and "unit_range (nc_confidence c)"
    and "unit_range (nc_conflict c)"
  using assms by (auto simp: mk_news_context_def split: if_splits)

lemma unit_range_below: "0 \<le> x \<Longrightarrow> x \<le> fl a \<Longrightarrow> a \<le> 1 \<Longrightarrow> unit_range x"
  using f64_le_trans [of x "fl a" 1] fl_mono [of a 1] by (simp add: unit_range_def one_f64_Fin)

lemma unit_range_mult: "unit_range x \<Longrightarrow> unit_range y \<Longrightarrow> unit_range (x * y)"
  using fl_mono [of _ 1] by (elim unit_rangeE)
    (auto simp: unit_range_def zero_f64_Fin one_f64_Fin intro: fl_nonneg mult_le_one)

lemma unit_range_pmin: "unit_range x \<Longrightarrow> unit_range y \<Longrightarrow> unit_range (pmin x y)"
  by (simp add: pmin_def)

lemma unit_range_pmax: "unit_range x \<Longrightarrow> unit_range y \<Longrightarrow> unit_range (pmax x y)"
  by (simp add: pmax_def)

lemma mk_news_boundsD:
  assumes "mk_news_bounds b = ret b"
  shows "unit_range (nb_boost b)" and "unit_range (nb_penalty b)"
  using assms unit_range_below [of "nb_boost b" "20 / 100"] unit_range_below [of "nb_penalty b" "30 / 100"]
  by (auto simp: mk_news_bounds_def split: if_splits)

text \<open>How far a verdict can move the confidence up and down.\<close>

definition max_up :: "news_bounds \<Rightarrow> f64" where
  "max_up b = round_nd 4 (nb_boost b)"

definition max_down :: "news_bounds \<Rightarrow> f64" where
  "max_down b = pmax (round_nd 4 (nb_penalty b)) (nb_penalty b * fl (1 / 2))"

definition in_bounds :: "news_bounds \<Rightarrow> f64 \<Rightarrow> bool" where
  "in_bounds b x \<longleftrightarrow> - max_down b \<le> x \<and> x \<le> max_up b"

lemma half_exact: "fl (1 / 2) = Fin (1 / 2)"
  by code_simp

lemma bounds_nonneg:
  assumes "mk_news_bounds b = ret b"
  shows "0 \<le> max_up b" and "0 \<le> max_down b"
proof -
  note u = mk_news_boundsD [OF assms]
  show "0 \<le> max_up b"
    unfolding max_up_def zero_f64_Fin by (rule round_nd_nonneg) (rule unit_rangeD [OF u(1)])
  have r: "Fin 0 \<le> round_nd 4 (nb_penalty b)" by (rule round_nd_nonneg) (rule unit_rangeD [OF u(2)])
  then have "round_nd 4 (nb_penalty b) \<le> max_down b"
    unfolding max_down_def by (intro pmax_ge) (use f64_le_not_NaN in blast)
  then show "0 \<le> max_down b" unfolding zero_f64_Fin using r f64_le_trans by blast
qed

lemma in_bounds_0: "mk_news_bounds b = ret b \<Longrightarrow> in_bounds b 0"
  using bounds_nonneg [of b] uminus_f64_le [of "max_down b" "Fin 0"]
  by (auto simp: in_bounds_def zero_f64_Fin)

lemma in_boundsI_up:
  assumes "mk_news_bounds b = ret b" and "0 \<le> x" and "x \<le> max_up b"
  shows "in_bounds b x"
proof -
  have "- max_down b \<le> 0" using in_bounds_0 [OF assms(1)] by (simp only: in_bounds_def)
  then show ?thesis unfolding in_bounds_def using assms(2,3) by (blast intro: f64_le_trans)
qed

lemma in_boundsI_down:
  assumes "mk_news_bounds b = ret b" and "x \<le> max_down b" and "0 \<le> x"
  shows "in_bounds b (- x)"
proof -
  have "- x \<le> - 0" using assms(3) by (simp only: uminus_f64_le)
  moreover have "0 \<le> max_up b" by (rule bounds_nonneg(1) [OF assms(1)])
  ultimately have "- x \<le> max_up b" using f64_le_trans by (simp add: zero_f64_Fin)
  then show ?thesis unfolding in_bounds_def using assms(2) by (simp add: uminus_f64_le)
qed

lemma boost_in_bounds:
  assumes "mk_news_bounds b = ret b" and "unit_range x" and "unit_range y"
  shows "in_bounds b (round_nd 4 (pmin (nb_boost b * x * y) (nb_boost b)))"
proof (rule in_boundsI_up [OF assms(1)])
  note u = mk_news_boundsD(1) [OF assms(1)]
  have p: "unit_range (nb_boost b * x * y)" by (intro unit_range_mult u assms)
  show "0 \<le> round_nd 4 (pmin (nb_boost b * x * y) (nb_boost b))"
    unfolding zero_f64_Fin by (rule round_nd_nonneg) (rule unit_rangeD(1) [OF unit_range_pmin [OF p u]])
  have "pmin (nb_boost b * x * y) (nb_boost b) \<le> nb_boost b"
    by (rule pmin_le2) (use unit_rangeD(1) [OF p] unit_rangeD(1) [OF u] f64_le_not_NaN in blast)+
  then show "round_nd 4 (pmin (nb_boost b * x * y) (nb_boost b)) \<le> max_up b"
    unfolding max_up_def by (rule round_nd_mono)
qed

lemma penalty_in_bounds:
  assumes "mk_news_bounds b = ret b" and "unit_range x"
  shows "in_bounds b (round_nd 4 (- pmin (nb_penalty b * x) (nb_penalty b)))"
proof -
  note u = mk_news_boundsD(2) [OF assms(1)]
  have p: "unit_range (nb_penalty b * x)" by (intro unit_range_mult u assms)
  let ?m = "pmin (nb_penalty b * x) (nb_penalty b)"
  have "?m \<le> nb_penalty b"
    by (rule pmin_le2) (use unit_rangeD(1) [OF p] unit_rangeD(1) [OF u] f64_le_not_NaN in blast)+
  then have le: "round_nd 4 ?m \<le> round_nd 4 (nb_penalty b)" by (rule round_nd_mono)
  have nn: "0 \<le> round_nd 4 ?m"
    unfolding zero_f64_Fin by (rule round_nd_nonneg) (rule unit_rangeD(1) [OF unit_range_pmin [OF p u]])
  have "round_nd 4 (nb_penalty b) \<le> max_down b"
    unfolding max_down_def by (rule pmax_ge) (use le f64_le_not_NaN in blast)
  then have "round_nd 4 ?m \<le> max_down b" using le f64_le_trans by blast
  from in_boundsI_down [OF assms(1) this nn] show ?thesis by (simp add: round_nd_uminus)
qed

lemma caution_in_bounds:
  assumes "mk_news_bounds b = ret b" and "unit_range conf"
  shows "in_bounds b (- pmin (nb_penalty b * fl (1 / 2)) (conf * fl (1 / 2)))"
proof -
  note u = mk_news_boundsD(2) [OF assms(1)]
  have h: "unit_range (fl (1 / 2))" by (simp add: half_exact unit_range_def zero_f64_Fin one_f64_Fin)
  have p: "unit_range (nb_penalty b * fl (1 / 2))" "unit_range (conf * fl (1 / 2))"
    by (intro unit_range_mult u assms h)+
  let ?m = "pmin (nb_penalty b * fl (1 / 2)) (conf * fl (1 / 2))"
  have "?m \<le> nb_penalty b * fl (1 / 2)"
    by (rule pmin_le) (use unit_rangeD(1) [OF p(1)] f64_le_not_NaN in blast)
  moreover have "nb_penalty b * fl (1 / 2) \<le> max_down b"
    unfolding max_down_def
    by (rule pmax_ge2) (use unit_rangeD(1) [OF p(1)] unit_rangeD(1) [OF u] f64_le_not_NaN round_nd_finite_or in blast)+
  ultimately have "?m \<le> max_down b" using f64_le_trans by blast
  moreover have "0 \<le> ?m" using unit_rangeD(1) [OF unit_range_pmin [OF p]] by (simp add: zero_f64_Fin)
  ultimately show ?thesis by (rule in_boundsI_down [OF assms(1)])
qed

lemma relevance_unit: "mk_news_context c = ret c \<Longrightarrow> unit_range (relevance_of c)"
  unfolding relevance_of_def by (intro unit_range_pmax mk_news_contextD)

text \<open>The cases of the evaluation: which branch ran and what it left in the adjustment.\<close>

lemma align_verdict_adjustment:
  "nv_adjustment (align_verdict b c r a v) =
     (if aligned (nv_news_direction v) (nv_strategy_direction v) \<and> a
      then round_nd 4 (pmin (nb_boost b * nc_confidence c * r) (nb_boost b))
      else if conflicted (nv_news_direction v) (nv_strategy_direction v)
      then round_nd 4 (- pmin (nb_penalty b * nc_confidence c) (nb_penalty b))
      else nv_adjustment v)"
  by (simp add: align_verdict_def Let_def)

lemma verdict_within_bounds:
  assumes "mk_news_bounds b = ret b" and "mk_news_context c = ret c" and "unit_range conf"
  shows "in_bounds b (nv_adjustment (news_evaluate b c action strat conf reg))"
proof -
  note i = in_bounds_0 [OF assms(1)] boost_in_bounds [OF assms(1) mk_news_contextD(5) [OF assms(2)] relevance_unit [OF assms(2)]]
    penalty_in_bounds [OF assms(1) mk_news_contextD(5) [OF assms(2)]] caution_in_bounds [OF assms(1,3)]
  show ?thesis
    using i by (simp add: news_evaluate_def align_verdict_adjustment ignored_def fresh_verdict_def caution_def Let_def)
qed

section \<open>The strategy direction of a proposal\<close>

definition news_strategy_direction :: "action_type \<Rightarrow> news_direction" where
  "news_strategy_direction a =
     (let s = upper (action_value a)
      in if s \<in> {''BUY'', ''BUY_MARKET'', ''BUY_LIMIT'', ''BUY_STOP''} then ND_BULLISH
         else if s \<in> {''SELL'', ''SELL_MARKET'', ''SELL_LIMIT'', ''SELL_STOP''} then ND_BEARISH
         else ND_NEUTRAL)"

lemma news_strategy_direction_iff:
  "news_strategy_direction a =
     (if a \<in> set buy_actions then ND_BULLISH else if a \<in> set sell_actions then ND_BEARISH else ND_NEUTRAL)"
  by (cases a; hypsubst; code_simp)

lemma gated_iff_entry: "action_value a \<in> set entry_strings \<longleftrightarrow> a \<in> set (buy_actions @ sell_actions)"
  by (cases a) (simp_all add: entry_strings_def buy_actions_def sell_actions_def)

lemma aligned_iff: "aligned n s \<longleftrightarrow> n = s \<and> (s = ND_BULLISH \<or> s = ND_BEARISH)"
  by (cases n; cases s) (auto simp: aligned_def)

lemma net_direction_signs:
  "net_direction c = ND_BULLISH \<Longrightarrow> fl (8 / 100) < nc_bullish c - nc_bearish c"
  "net_direction c = ND_BEARISH \<Longrightarrow> nc_bullish c - nc_bearish c < - fl (8 / 100)"
  by (auto simp: net_direction_def Let_def split: if_splits)

lemma penalty_nonpos:
  assumes "mk_news_bounds b = ret b" and "unit_range x"
  shows "\<not> 0 < round_nd 4 (- pmin (nb_penalty b * x) (nb_penalty b))"
proof -
  note u = mk_news_boundsD(2) [OF assms(1)]
  have "Fin 0 \<le> round_nd 4 (pmin (nb_penalty b * x) (nb_penalty b))"
    by (intro round_nd_nonneg unit_rangeD(1) unit_range_pmin unit_range_mult u assms)
  then have "- round_nd 4 (pmin (nb_penalty b * x) (nb_penalty b)) \<le> - Fin 0" by (simp only: uminus_f64_le)
  then show ?thesis unfolding round_nd_uminus zero_f64_Fin
    using f64_le_less_trans f64_less_irrefl by fastforce
qed

lemma caution_nonpos:
  assumes "mk_news_bounds b = ret b" and "unit_range conf"
  shows "\<not> 0 < - pmin (nb_penalty b * fl (1 / 2)) (conf * fl (1 / 2))"
proof -
  have h: "unit_range (fl (1 / 2))" by (simp add: half_exact unit_range_def zero_f64_Fin one_f64_Fin)
  have "Fin 0 \<le> pmin (nb_penalty b * fl (1 / 2)) (conf * fl (1 / 2))"
    by (intro unit_rangeD(1) unit_range_pmin unit_range_mult mk_news_boundsD(2) [OF assms(1)] h assms)
  then have "- pmin (nb_penalty b * fl (1 / 2)) (conf * fl (1 / 2)) \<le> - Fin 0" by (simp only: uminus_f64_le)
  then show ?thesis unfolding zero_f64_Fin using f64_le_less_trans f64_less_irrefl by fastforce
qed

text \<open>A boost needs an entry, a fresh context and a net score on the side of the strategy.\<close>

lemma boost_needs_alignment:
  assumes "mk_news_bounds b = ret b" and "mk_news_context c = ret c" and "unit_range conf"
    and "0 < nv_adjustment (news_evaluate b c action strat conf reg)"
  shows "reg" and "strat = net_direction c" and "strat = ND_BULLISH \<or> strat = ND_BEARISH"
    and "action \<in> set entry_strings" and "nc_available c" and "\<not> nc_stale c"
proof -
  note p = penalty_nonpos [OF assms(1) mk_news_contextD(5) [OF assms(2)]] caution_nonpos [OF assms(1,3)]
  have z: "\<not> (0::f64) < 0" by simp
  have "reg \<and> aligned (net_direction c) strat \<and> action \<in> set entry_strings \<and> nc_available c \<and> \<not> nc_stale c"
    using assms(4) p z
    by (auto simp only: news_evaluate_def align_verdict_adjustment ignored_def fresh_verdict_def caution_def Let_def
          news_verdict.simps news_verdict.select_convs news_verdict.update_convs split: if_splits)
  then show "reg" "strat = net_direction c" "strat = ND_BULLISH \<or> strat = ND_BEARISH"
    "action \<in> set entry_strings" "nc_available c" "\<not> nc_stale c"
    by (auto simp: aligned_iff)
qed

text \<open>
  The window of a breaking or high-impact event only marks the verdict: its adjustment is zero,
  whatever the confidence of the proposal.
\<close>

lemma high_impact_has_no_adjustment:
  assumes "nc_state c \<in> set (nb_blocked b)" and "fl (35 / 100) \<le> nc_confidence c"
  shows "nv_adjustment (news_evaluate b c action strat conf reg) = 0"
  using assms by (simp add: news_evaluate_def ignored_def fresh_verdict_def Let_def)

text \<open>In a conflicted or elevated state an aligned entry is confirmed, with the boost.\<close>

lemma caution_overwritten:
  assumes "nc_available c" and "\<not> nc_stale c" and "action \<in> set entry_strings"
    and "\<not> relevance_of c < fl (1 / 4)" and "nc_state c \<in> set (nb_caution b)" "nc_state c \<notin> set (nb_blocked b)"
    and "net_direction c = strat" and "strat = ND_BULLISH \<or> strat = ND_BEARISH" and "reg"
  shows "nv_decision (news_evaluate b c action strat conf reg) = GD_CONFIRM"
    and "nv_cautioned (news_evaluate b c action strat conf reg)"
    and "nv_adjustment (news_evaluate b c action strat conf reg)
         = round_nd 4 (pmin (nb_boost b * nc_confidence c * relevance_of c) (nb_boost b))"
proof -
  have p: "action \<notin> set protection_actions"
    using assms(3) by (auto simp: protection_actions_def entry_strings_def)
  have a: "aligned (net_direction c) strat" using assms(7,8) by (simp add: aligned_iff)
  show "nv_decision (news_evaluate b c action strat conf reg) = GD_CONFIRM"
    "nv_cautioned (news_evaluate b c action strat conf reg)"
    "nv_adjustment (news_evaluate b c action strat conf reg)
         = round_nd 4 (pmin (nb_boost b * nc_confidence c * relevance_of c) (nb_boost b))"
    using assms(1-6,9) p a
    by (simp_all add: news_evaluate_def align_verdict_def fresh_verdict_def caution_def ignored_def Let_def)
qed

end
