(* ===== verification/NewsBudget.thy ===== *)
theory NewsBudget
  imports PyNum
begin

text \<open>
  \<^verbatim>\<open>news/budget.py\<close>: the daily budget of the news model calls. The lock makes every operation
  one step; the day is the UTC date text that the operation reads from the clock, an argument
  here. \<^verbatim>\<open>BudgetExhaustedError\<close> is a value of its own type: nothing but \<^verbatim>\<open>acquire\<close> raises it.
\<close>

section \<open>The ledger\<close>

record news_budget =
  b_request_limit :: int
  b_token_limit :: int
  b_day :: string
  b_requests :: int
  b_successful :: int
  b_failed :: int
  b_cache_hits :: int
  b_prompt :: int
  b_completion :: int

datatype budget_error = RequestLimitReached | TokenLimitReached

definition mk_budget :: "int \<Rightarrow> int \<Rightarrow> string \<Rightarrow> news_budget res" where
  "mk_budget rl tk today =
     (if rl < 0 \<or> tk < 0 then raise ValueError
      else ret \<lparr>b_request_limit = rl, b_token_limit = tk, b_day = today, b_requests = 0, b_successful = 0,
                b_failed = 0, b_cache_hits = 0, b_prompt = 0, b_completion = 0\<rparr>)"

definition roll_day :: "string \<Rightarrow> news_budget \<Rightarrow> news_budget" where
  "roll_day today b =
     (if today \<noteq> b_day b
      then b\<lparr>b_day := today, b_requests := 0, b_successful := 0, b_failed := 0, b_cache_hits := 0,
             b_prompt := 0, b_completion := 0\<rparr>
      else b)"

definition acquire :: "string \<Rightarrow> news_budget \<Rightarrow> (budget_error + unit) \<times> news_budget" where
  "acquire today b =
     (let b = roll_day today b
      in if b_request_limit b \<le> b_requests b then (Inl RequestLimitReached, b)
         else if b_token_limit b \<le> b_prompt b + b_completion b then (Inl TokenLimitReached, b)
         else (Inr (), b\<lparr>b_requests := b_requests b + 1\<rparr>))"

definition commit :: "string \<Rightarrow> int \<Rightarrow> int \<Rightarrow> bool \<Rightarrow> news_budget \<Rightarrow> news_budget" where
  "commit today p c ok b =
     (let b = roll_day today b;
          b = b\<lparr>b_prompt := b_prompt b + max 0 p, b_completion := b_completion b + max 0 c\<rparr>
      in if ok then b\<lparr>b_successful := b_successful b + 1\<rparr> else b\<lparr>b_failed := b_failed b + 1\<rparr>)"

definition record_cache_hit :: "string \<Rightarrow> news_budget \<Rightarrow> news_budget" where
  "record_cache_hit today b = (let b = roll_day today b in b\<lparr>b_cache_hits := b_cache_hits b + 1\<rparr>)"

definition exhausted :: "string \<Rightarrow> news_budget \<Rightarrow> bool \<times> news_budget" where
  "exhausted today b =
     (let b = roll_day today b
      in (b_request_limit b \<le> b_requests b \<or> b_token_limit b \<le> b_prompt b + b_completion b, b))"

definition cost_per_token :: f64 where
  "cost_per_token = fl (2 / 1000000)"

text \<open>The only reader that does not roll the day.\<close>

definition estimated_cost :: "news_budget \<Rightarrow> f64" where
  "estimated_cost b = float_of_int (b_prompt b + b_completion b) * cost_per_token"

record budget_snapshot =
  bs_day :: string
  bs_requests :: int
  bs_successful :: int
  bs_failed :: int
  bs_cache_hits :: int
  bs_prompt :: int
  bs_completion :: int
  bs_total :: int
  bs_cost :: f64
  bs_request_limit :: int
  bs_token_limit :: int
  bs_exhausted :: bool
  bs_remaining :: int

definition snapshot :: "string \<Rightarrow> news_budget \<Rightarrow> budget_snapshot \<times> news_budget" where
  "snapshot today b =
     (let b = roll_day today b; total = b_prompt b + b_completion b
      in (\<lparr>bs_day = b_day b, bs_requests = b_requests b, bs_successful = b_successful b, bs_failed = b_failed b,
           bs_cache_hits = b_cache_hits b, bs_prompt = b_prompt b, bs_completion = b_completion b,
           bs_total = total, bs_cost = float_of_int total * cost_per_token,
           bs_request_limit = b_request_limit b, bs_token_limit = b_token_limit b,
           bs_exhausted = (b_request_limit b \<le> b_requests b \<or> b_token_limit b \<le> total),
           bs_remaining = max 0 (b_request_limit b - b_requests b)\<rparr>, b))"

section \<open>Histories of calls\<close>

datatype budget_op = Acquire | Commit int int bool | CacheHit | Look

fun budget_step :: "news_budget \<Rightarrow> string \<times> budget_op \<Rightarrow> news_budget" where
  "budget_step b (d, Acquire) = snd (acquire d b)"
| "budget_step b (d, Commit p c ok) = commit d p c ok b"
| "budget_step b (d, CacheHit) = record_cache_hit d b"
| "budget_step b (d, Look) = snd (snapshot d b)"

lemma roll_day_day [simp]: "b_day (roll_day d b) = d"
  and roll_day_limits [simp]: "b_request_limit (roll_day d b) = b_request_limit b"
    "b_token_limit (roll_day d b) = b_token_limit b"
  and roll_day_same: "b_day b = d \<Longrightarrow> roll_day d b = b"
  by (simp_all add: roll_day_def)

lemma budget_step_limits [simp]:
  "b_request_limit (budget_step b x) = b_request_limit b" "b_token_limit (budget_step b x) = b_token_limit b"
  by (cases "(b, x)" rule: budget_step.cases; simp add: acquire_def commit_def record_cache_hit_def snapshot_def Let_def)+

lemma budget_step_day [simp]: "b_day (budget_step b x) = fst x"
  by (cases "(b, x)" rule: budget_step.cases) (simp_all add: acquire_def commit_def record_cache_hit_def snapshot_def Let_def)

lemma budget_step_roll: "budget_step (roll_day (fst x) b) x = budget_step b x"
  by (cases "(b, x)" rule: budget_step.cases)
    (simp_all add: acquire_def commit_def record_cache_hit_def snapshot_def roll_day_same)

text \<open>Counters never go negative and the requests of a day never pass the limit.\<close>

definition budget_ok :: "int \<Rightarrow> int \<Rightarrow> news_budget \<Rightarrow> bool" where
  "budget_ok rl tk b \<longleftrightarrow> b_request_limit b = rl \<and> b_token_limit b = tk \<and> 0 \<le> b_requests b
     \<and> b_requests b \<le> rl \<and> 0 \<le> b_prompt b \<and> 0 \<le> b_completion b \<and> 0 \<le> b_successful b \<and> 0 \<le> b_failed b"

lemma roll_day_ok: "budget_ok rl tk b \<Longrightarrow> budget_ok rl tk (roll_day d b)"
  by (auto simp: budget_ok_def roll_day_def)

lemma budget_step_ok: "budget_ok rl tk b \<Longrightarrow> budget_ok rl tk (budget_step b x)"
  by (cases "(b, x)" rule: budget_step.cases; frule roll_day_ok [of _ _ _ "fst x"])
    (auto simp: budget_ok_def acquire_def commit_def record_cache_hit_def snapshot_def Let_def)

text \<open>What the budget promises: the calls granted on one day, and the tokens they may use.\<close>

fun granted :: "news_budget \<Rightarrow> (string \<times> budget_op) list \<Rightarrow> int" where
  "granted b [] = 0"
| "granted b ((d, x) # es) =
     (if x = Acquire \<and> fst (acquire d b) = Inr () then 1 else 0) + granted (budget_step b (d, x)) es"

lemma granted_requests:
  "(\<And>x. x \<in> set es \<Longrightarrow> fst x = b_day b) \<Longrightarrow> b_requests (run budget_step b es) = b_requests b + granted b es"
proof (induction es arbitrary: b)
  case Nil
  then show ?case by simp
next
  case (Cons e es)
  obtain d x where e: "e = (d, x)" by (cases e)
  have d: "b_day b = d" using Cons.prems [of e] e by simp
  have IH: "b_requests (run budget_step (budget_step b e) es)
      = b_requests (budget_step b e) + granted (budget_step b e) es"
    by (rule Cons.IH) (use Cons.prems e d in auto)
  have "b_requests (budget_step b e) = b_requests b + (if x = Acquire \<and> fst (acquire d b) = Inr () then 1 else 0)"
    unfolding e using d by (cases x) (simp_all add: acquire_def commit_def record_cache_hit_def snapshot_def
      roll_day_same Let_def)
  then show ?case using IH by (simp add: e)
qed

lemma run_budget_ok: "budget_ok rl tk b \<Longrightarrow> budget_ok rl tk (run budget_step b es)"
  by (induction es arbitrary: b) (auto intro: budget_step_ok)

text \<open>A new budget satisfies the invariant, so every run keeps it.\<close>

lemma mk_budget_ok: "mk_budget rl tk d = ret b \<Longrightarrow> budget_ok rl tk b"
  by (auto simp: mk_budget_def budget_ok_def split: if_splits)

lemma granted_rolled: "fst e = d \<Longrightarrow> granted (roll_day d b) (e # es) = granted b (e # es)"
  using budget_step_roll [of e b] by (cases e) (auto simp: acquire_def roll_day_same)

lemma granted_within_limit:
  assumes "budget_ok rl tk b" and days: "\<And>x. x \<in> set es \<Longrightarrow> fst x = d"
  shows "granted b es \<le> rl"
proof -
  have "granted b es = granted (roll_day d b) es"
    using granted_rolled days by (cases es) auto
  moreover have "b_requests (run budget_step (roll_day d b) es) = b_requests (roll_day d b) + granted (roll_day d b) es"
    by (rule granted_requests) (use days in simp)
  moreover note run_budget_ok [OF roll_day_ok [OF assms(1), where d = d], where es = es] roll_day_ok [OF assms(1), of d]
  ultimately show ?thesis by (auto simp: budget_ok_def)
qed

text \<open>
  A call that is granted before midnight and committed after it is counted as successful on a
  day with no request.
\<close>

lemma commit_after_midnight:
  "d \<noteq> d' \<Longrightarrow> fst (acquire d b) = Inr () \<Longrightarrow>
   b_requests (commit d' p c True (snd (acquire d b))) = 0
   \<and> b_successful (commit d' p c True (snd (acquire d b))) = 1"
  by (auto simp: acquire_def commit_def Let_def roll_day_def split: if_splits)

text \<open>The token check looks back only: a granted call may spend any number of tokens.\<close>

lemma token_limit_overshoot:
  "0 \<le> p \<Longrightarrow> fst (acquire d b) = Inr () \<Longrightarrow>
   b_prompt (commit d p 0 ok (snd (acquire d b))) = b_prompt (roll_day d b) + p"
  by (auto simp: acquire_def commit_def Let_def roll_day_same split: if_splits)

end
