(* ===== verification/StrategyLifecycle.thy ===== *)
theory StrategyLifecycle
  imports PyMath PyTime
begin

text \<open>
  \<^verbatim>\<open>experience/evaluator.py\<close>: the statistics of a strategy family and the lifecycle that is derived
  from them. NumPy is an argument (\<open>np_lib\<close>): its reductions fix no summation order, and the
  theorems assume nothing about it. The registry table is a map with the queue of writes that
  the audit repository applies later.
\<close>

section \<open>Lifecycle states and scores\<close>

datatype lifecycle = LC_DISCOVERED | LC_EVALUATING | LC_VALIDATED | LC_ACTIVE | LC_DEGRADED | LC_RETIRED | LC_QUARANTINED

definition ineligible :: "lifecycle \<Rightarrow> bool" where
  "ineligible s \<longleftrightarrow> s \<in> {LC_RETIRED, LC_QUARANTINED}"

definition max_strategy_confidence :: f64 where
  "max_strategy_confidence = fl (95 / 100)"

record strategy_score =
  ss_id :: string
  ss_samples :: int
  ss_wins :: int
  ss_losses :: int
  ss_breakevens :: int
  ss_win_rate :: f64
  ss_expectancy_usd :: f64
  ss_expectancy_r :: f64
  ss_profit_factor :: f64
  ss_median_r :: f64
  ss_max_drawdown_r :: f64
  ss_norm_drawdown_r :: f64
  ss_tail_r :: f64
  ss_mae_r :: f64
  ss_mfe_r :: f64
  ss_variance :: f64
  ss_t_stat :: f64
  ss_recency_r :: f64
  ss_recent_r :: f64
  ss_recent_n :: int
  ss_in_sample_r :: f64
  ss_out_sample_r :: f64
  ss_replay_n :: int
  ss_replay_ok :: bool
  ss_execution_q :: f64
  ss_management_q :: f64
  ss_entry_q :: f64
  ss_strategy_q :: f64
  ss_flags :: "(string \<times> int) list"
  ss_confidence :: f64
  ss_evidence :: f64
  ss_lifecycle :: lifecycle
  ss_probation :: int

definition signed_unit :: "f64 \<Rightarrow> bool" where
  "signed_unit x \<longleftrightarrow> Fin (- 1) \<le> x \<and> x \<le> 1"

definition mk_strategy_score :: "strategy_score \<Rightarrow> strategy_score res" where
  "mk_strategy_score s =
     (if 0 \<le> ss_samples s \<and> 0 \<le> ss_wins s \<and> 0 \<le> ss_losses s \<and> 0 \<le> ss_breakevens s
         \<and> 0 \<le> ss_win_rate s \<and> ss_win_rate s \<le> 1 \<and> 0 \<le> ss_profit_factor s
         \<and> 0 \<le> ss_max_drawdown_r s \<and> 0 \<le> ss_norm_drawdown_r s \<and> 0 \<le> ss_variance s
         \<and> 0 \<le> ss_recent_n s \<and> 0 \<le> ss_replay_n s \<and> signed_unit (ss_execution_q s)
         \<and> signed_unit (ss_management_q s) \<and> signed_unit (ss_entry_q s) \<and> signed_unit (ss_strategy_q s)
         \<and> 0 \<le> ss_confidence s \<and> ss_confidence s \<le> max_strategy_confidence
         \<and> 0 \<le> ss_evidence s \<and> ss_evidence s \<le> 1 \<and> 0 \<le> ss_probation s
      then ret s else raise ValueError)"

definition empty_score :: "string \<Rightarrow> lifecycle \<Rightarrow> int \<Rightarrow> strategy_score" where
  "empty_score i l p = \<lparr>ss_id = i, ss_samples = 0, ss_wins = 0, ss_losses = 0, ss_breakevens = 0,
     ss_win_rate = 0, ss_expectancy_usd = 0, ss_expectancy_r = 0, ss_profit_factor = 1, ss_median_r = 0,
     ss_max_drawdown_r = 0, ss_norm_drawdown_r = 0, ss_tail_r = 0, ss_mae_r = 0, ss_mfe_r = 0, ss_variance = 0,
     ss_t_stat = 0, ss_recency_r = 0, ss_recent_r = 0, ss_recent_n = 0, ss_in_sample_r = 0, ss_out_sample_r = 0,
     ss_replay_n = 0, ss_replay_ok = False, ss_execution_q = 0, ss_management_q = 0, ss_entry_q = 0,
     ss_strategy_q = 0, ss_flags = [], ss_confidence = 0, ss_evidence = 0, ss_lifecycle = l, ss_probation = p\<rparr>"

section \<open>The evaluator\<close>

record evaluator_config =
  ev_min_evaluating :: int
  ev_min_validated :: int
  ev_min_retire :: int
  ev_half_life :: f64
  ev_recent_window :: int
  ev_retire_expectancy :: f64
  ev_retire_drawdown :: f64
  ev_retire_t :: f64
  ev_degrade_expectancy :: f64
  ev_recovery_expectancy :: f64
  ev_recovery_confidence :: f64

definition mk_evaluator :: "evaluator_config \<Rightarrow> evaluator_config" where
  "mk_evaluator c = c\<lparr>ev_half_life := pmax 1 (ev_half_life c), ev_recent_window := max 2 (ev_recent_window c)\<rparr>"

definition default_evaluator :: evaluator_config where
  "default_evaluator = mk_evaluator \<lparr>ev_min_evaluating = 5, ev_min_validated = 20, ev_min_retire = 12,
     ev_half_life = Fin 30, ev_recent_window = 10, ev_retire_expectancy = fl (- 20 / 100),
     ev_retire_drawdown = Fin 3, ev_retire_t = fl (- 165 / 100), ev_degrade_expectancy = 0,
     ev_recovery_expectancy = fl (20 / 100), ev_recovery_confidence = fl (60 / 100)\<rparr>"

record np_lib =
  np_mean :: "f64 list \<Rightarrow> f64"
  np_var1 :: "f64 list \<Rightarrow> f64"
  np_sum :: "f64 list \<Rightarrow> f64"
  np_cumsum :: "f64 list \<Rightarrow> f64 list"
  np_max_accumulate :: "f64 list \<Rightarrow> f64 list"
  np_max :: "f64 list \<Rightarrow> f64"
  np_min :: "f64 list \<Rightarrow> f64"
  np_percentile5 :: "f64 list \<Rightarrow> f64"
  np_median :: "f64 list \<Rightarrow> f64"
  np_exp :: "f64 \<Rightarrow> f64"

text \<open>What the evaluator reads of an experience.\<close>

record experience =
  ex_executed :: bool
  ex_closed :: bool
  ex_decided_at :: py_datetime
  ex_realized_r :: f64
  ex_realized_usd :: f64
  ex_entry :: f64
  ex_stop :: f64
  ex_mae_r :: f64
  ex_mae_points :: f64
  ex_mfe_r :: f64
  ex_mfe_points :: f64
  ex_execution_q :: f64
  ex_management_q :: f64
  ex_entry_q :: f64
  ex_strategy_q :: f64
  ex_flags :: "string list"

definition planned_risk :: "experience \<Rightarrow> f64" where
  "planned_risk e = fabs64 (ex_entry e - ex_stop e)"

definition tiny :: f64 where
  "tiny = fl (1 / 1000000000)"

definition mae_r :: "experience \<Rightarrow> f64 res" where
  "mae_r e = (if 0 < ex_mae_r e then ret (ex_mae_r e)
     else if tiny < planned_risk e then py_div (fabs64 (ex_mae_points e)) (planned_risk e) else ret 0)"

definition mfe_r :: "experience \<Rightarrow> f64 res" where
  "mfe_r e = (if 0 < ex_mfe_r e then ret (ex_mfe_r e)
     else if tiny < planned_risk e then py_div (fabs64 (ex_mfe_points e)) (planned_risk e) else ret 0)"

definition replay_split :: "np_lib \<Rightarrow> evaluator_config \<Rightarrow> f64 list \<Rightarrow> f64 \<times> f64 \<times> int \<times> bool" where
  "replay_split N c rs =
     (let n = int (length rs)
      in if n < ev_min_validated c then (0, 0, 0, False)
         else let split = nat (n div 2); a = np_mean N (take split rs); b = np_mean N (List.drop split rs)
              in (a, b, n, 0 < a \<and> 0 < b))"

definition evidence_quality :: "evaluator_config \<Rightarrow> int \<Rightarrow> f64 \<Rightarrow> f64 res" where
  "evidence_quality c n var =
     bindR (py_div (float_of_int n) (float_of_int (ev_min_validated c))) (\<lambda>sf.
     bindR (sqrt64 (pmax 0 var)) (\<lambda>sd.
     bindR (py_div 1 (1 + sd)) (\<lambda>stability.
     ret (round_nd 4 (pmax 0 (pmin 1 (fl (65 / 100) * pmin 1 sf + fl (35 / 100) * stability)))))))"

definition confidence_of :: "evaluator_config \<Rightarrow> int \<Rightarrow> f64 \<Rightarrow> f64 \<Rightarrow> f64 \<Rightarrow> f64 \<Rightarrow> f64 \<Rightarrow> bool \<Rightarrow> f64 res" where
  "confidence_of c n var recency recent dd exec_q replay_ok =
     bindR (py_div (float_of_int n) (Fin 2 * float_of_int (ev_min_validated c))) (\<lambda>sf.
     bindR (sqrt64 (pmax 0 var)) (\<lambda>sd.
     bindR (py_div 1 (1 + sd)) (\<lambda>stability.
     bindR (py_div (recency + 1) (Fin 2)) (\<lambda>con.
     bindR (py_div 1 (1 + pmax 0 dd)) (\<lambda>drawdown.
     bindR (py_div (exec_q + 1) (Fin 2)) (\<lambda>ex.
     let raw = fl (28 / 100) * pmin 1 sf + fl (22 / 100) * stability + fl (22 / 100) * pmax 0 (pmin 1 con)
               + fl (16 / 100) * drawdown + fl (12 / 100) * pmax 0 (pmin 1 ex);
         raw = (if replay_ok then raw + fl (5 / 100) else raw);
         raw = (if recent < 0 then raw - pmin (fl (30 / 100)) (fabs64 recent * fl (30 / 100)) else raw)
     in ret (round_nd 4 (pmax 0 (pmin max_strategy_confidence raw)))))))))"

section \<open>The lifecycle\<close>

text \<open>The statistics the transition reads.\<close>

record family_stats =
  st_n :: int
  st_expectancy :: f64
  st_t :: f64
  st_recency :: f64
  st_recent :: f64
  st_drawdown :: f64
  st_confidence :: f64
  st_replay_ok :: bool

definition recovered :: "evaluator_config \<Rightarrow> family_stats \<Rightarrow> bool" where
  "recovered c x \<longleftrightarrow> ev_min_validated c \<le> st_n x \<and> ev_recovery_expectancy c < st_recent x
     \<and> 0 < st_recency x \<and> ev_recovery_confidence c \<le> st_confidence x"

definition persistent_negative :: "evaluator_config \<Rightarrow> family_stats \<Rightarrow> bool" where
  "persistent_negative c x \<longleftrightarrow> st_recency x \<le> ev_retire_expectancy c \<and> st_expectancy x \<le> 0
     \<and> st_t x \<le> ev_retire_t c"

definition catastrophic_drawdown :: "evaluator_config \<Rightarrow> family_stats \<Rightarrow> bool" where
  "catastrophic_drawdown c x \<longleftrightarrow> ev_retire_drawdown c \<le> st_drawdown x \<and> st_expectancy x < 0"

definition degraded :: "evaluator_config \<Rightarrow> family_stats \<Rightarrow> bool" where
  "degraded c x \<longleftrightarrow> st_recent x < ev_degrade_expectancy c \<or> st_recency x < ev_degrade_expectancy c"

text \<open>The transition outside probation, then the whole one with the probation counter.\<close>

definition fresh_lifecycle :: "evaluator_config \<Rightarrow> family_stats \<Rightarrow> lifecycle" where
  "fresh_lifecycle c x =
     (if ev_min_retire c \<le> st_n x \<and> (persistent_negative c x \<or> catastrophic_drawdown c x) then LC_RETIRED
      else if st_n x < ev_min_evaluating c then LC_DISCOVERED
      else if degraded c x then LC_DEGRADED
      else if st_n x < ev_min_validated c then LC_EVALUATING
      else if \<not> st_replay_ok x then LC_EVALUATING
      else if 0 < st_recency x \<and> fl (50 / 100) \<le> st_confidence x then LC_ACTIVE
      else LC_VALIDATED)"

definition in_probation :: "lifecycle option \<Rightarrow> bool" where
  "in_probation cur \<longleftrightarrow> cur \<in> {Some LC_RETIRED, Some LC_QUARANTINED}"

definition determine_lifecycle :: "evaluator_config \<Rightarrow> lifecycle option \<Rightarrow> int \<Rightarrow> family_stats \<Rightarrow> lifecycle \<times> int" where
  "determine_lifecycle c cur prev_probation x =
     (if in_probation cur then
        (if recovered c x then (LC_EVALUATING, 0) else (the cur, max prev_probation (st_n x)))
      else (fresh_lifecycle c x, 0))"

text \<open>
  \<^verbatim>\<open>_should_repeat_degraded\<close>: at most one line per family and gap. The map is a list in insertion
  order; above 512 families the one with the smallest stamp leaves (the first of them, as
  \<^verbatim>\<open>min\<close> over a dictionary).
\<close>

definition put_stamp :: "string \<Rightarrow> f64 \<Rightarrow> (string \<times> f64) list \<Rightarrow> (string \<times> f64) list" where
  "put_stamp k v xs = (if k \<in> fst ` set xs then map (\<lambda>(a, b). if a = k then (a, v) else (a, b)) xs else xs @ [(k, v)])"

fun oldest_stamp :: "string \<times> f64 \<Rightarrow> (string \<times> f64) list \<Rightarrow> string \<times> f64" where
  "oldest_stamp m [] = m"
| "oldest_stamp m (x # xs) = oldest_stamp (if snd x < snd m then x else m) xs"

definition drop_oldest :: "(string \<times> f64) list \<Rightarrow> (string \<times> f64) list" where
  "drop_oldest xs = (case xs of [] \<Rightarrow> []
     | y # ys \<Rightarrow> filter (\<lambda>z. fst z \<noteq> fst (oldest_stamp y ys)) xs)"

definition should_repeat_degraded :: "f64 \<Rightarrow> f64 \<Rightarrow> string \<Rightarrow> (string \<times> f64) list \<Rightarrow> bool \<times> (string \<times> f64) list" where
  "should_repeat_degraded min_gap now k xs =
     (if (case map_of xs k of None \<Rightarrow> True | Some stamp \<Rightarrow> min_gap \<le> now - stamp) then
        (let ys = put_stamp k now xs in (True, if 512 < length ys then drop_oldest ys else ys))
      else (False, xs))"

section \<open>Evaluating a family\<close>

definition is_trade :: "experience \<Rightarrow> bool" where
  "is_trade e \<longleftrightarrow> ex_executed e \<and> ex_closed e"

definition closed_trades :: "experience list \<Rightarrow> experience list" where
  "closed_trades es = sort_key (\<lambda>e. instant (ex_decided_at e)) (filter is_trade es)"

fun map_res :: "('a \<Rightarrow> 'b res) \<Rightarrow> 'a list \<Rightarrow> 'b list res" where
  "map_res f [] = ret []"
| "map_res f (x # xs) = bindR (f x) (\<lambda>y. bindR (map_res f xs) (\<lambda>ys. ret (y # ys)))"

definition count_where :: "('a \<Rightarrow> bool) \<Rightarrow> 'a list \<Rightarrow> int" where
  "count_where P xs = int (length (filter P xs))"

fun count_flag :: "string \<Rightarrow> (string \<times> int) list \<Rightarrow> (string \<times> int) list" where
  "count_flag f [] = [(f, 1)]"
| "count_flag f ((g, n) # xs) = (if f = g then (g, n + 1) # xs else (g, n) # count_flag f xs)"

definition count_flags :: "string list \<Rightarrow> (string \<times> int) list" where
  "count_flags fs = fold count_flag fs []"

definition t_stat :: "int \<Rightarrow> f64 \<Rightarrow> f64 \<Rightarrow> f64 res" where
  "t_stat n expectancy sd =
     (if tiny < sd \<and> 1 < n then
        bindR (sqrt64 (float_of_int n)) (\<lambda>rn. bindR (py_div sd rn) (\<lambda>se. py_div expectancy se))
      else ret 0)"

definition profit_factor :: "f64 \<Rightarrow> f64 \<Rightarrow> f64 res" where
  "profit_factor gp gl =
     (if tiny < gl then py_div gp gl else if 0 < gp then ret (pmin gp (Fin 99)) else ret 1)"

text \<open>The exponential weights, newest sample first in age, normalised by their sum.\<close>

definition recency_weights :: "np_lib \<Rightarrow> f64 \<Rightarrow> f64 \<Rightarrow> nat \<Rightarrow> f64 list" where
  "recency_weights N ln2 half_life n =
     (let ws = map (\<lambda>k. np_exp N (- float_of_int (int k) * (ln2 / half_life))) (rev [0..<n]); s = np_sum N ws
      in map (\<lambda>w. w / s) ws)"

definition recency_expectancy :: "np_lib \<Rightarrow> f64 \<Rightarrow> f64 \<Rightarrow> f64 list \<Rightarrow> f64" where
  "recency_expectancy N ln2 half_life rs = np_sum N (map2 (*) (recency_weights N ln2 half_life (length rs)) rs)"

definition max_drawdown :: "np_lib \<Rightarrow> f64 list \<Rightarrow> f64" where
  "max_drawdown N rs = (let cum = np_cumsum N rs in np_max N (map2 (-) (np_max_accumulate N cum) cum))"

definition clamp_unit :: "f64 \<Rightarrow> f64" where
  "clamp_unit x = pmax (Fin (- 1)) (pmin 1 x)"

text \<open>
  The statistics of a non-empty history: the ones the transition reads, the rest of the score
  in the record that the constructor validates. \<open>prev\<close> is the registered score of the family;
  when the caller passes a state, the previous probation count is taken as zero.
\<close>

definition stats_of :: "np_lib \<Rightarrow> f64 \<Rightarrow> evaluator_config \<Rightarrow> experience list \<Rightarrow> family_stats res" where
  "stats_of N ln2 c es =
     (let n = int (length es); rs = map ex_realized_r es; expectancy = np_mean N rs;
          var = (if 1 < n then np_var1 N rs else 0);
          recency = recency_expectancy N ln2 (ev_half_life c) rs;
          recent = np_mean N (List.drop (length rs - nat (min (ev_recent_window c) n)) rs);
          replay_ok = snd (snd (snd (replay_split N c rs)))
      in bindR (sqrt64 var) (\<lambda>sd.
         bindR (t_stat n expectancy sd) (\<lambda>t.
         bindR (sqrt64 (float_of_int n)) (\<lambda>rn.
         bindR (py_div (max_drawdown N rs) rn) (\<lambda>dd.
         bindR (confidence_of c n var recency recent dd (np_mean N (map ex_execution_q es)) replay_ok) (\<lambda>conf.
         ret \<lparr>st_n = n, st_expectancy = expectancy, st_t = t, st_recency = recency, st_recent = recent,
              st_drawdown = dd, st_confidence = conf, st_replay_ok = replay_ok\<rparr>))))))"

definition quality_mean :: "np_lib \<Rightarrow> (experience \<Rightarrow> f64) \<Rightarrow> experience list \<Rightarrow> f64" where
  "quality_mean N q es = round_nd 4 (clamp_unit (np_mean N (map q es)))"

definition score_of :: "np_lib \<Rightarrow> evaluator_config \<Rightarrow> string \<Rightarrow> experience list \<Rightarrow> family_stats \<Rightarrow> lifecycle \<times> int \<Rightarrow> strategy_score res" where
  "score_of N c sid es x lc =
     (let n = st_n x; rs = map ex_realized_r es; usd = map ex_realized_usd es;
          wins = count_where (\<lambda>r. fl (5 / 100) < r) rs; losses = count_where (\<lambda>r. r < - fl (5 / 100)) rs;
          var = (if 1 < n then np_var1 N rs else 0);
          split = replay_split N c rs
      in bindR (map_res mae_r es) (\<lambda>maes.
         bindR (map_res mfe_r es) (\<lambda>mfes.
         bindR (profit_factor (np_sum N (filter (\<lambda>v. 0 < v) usd)) (fabs64 (np_sum N (filter (\<lambda>v. v < 0) usd)))) (\<lambda>pf.
         bindR (evidence_quality c n var) (\<lambda>ev.
         bindR (py_div (float_of_int wins) (float_of_int n)) (\<lambda>wr.
         mk_strategy_score \<lparr>ss_id = sid, ss_samples = n, ss_wins = wins, ss_losses = losses,
           ss_breakevens = n - wins - losses, ss_win_rate = round_nd 4 wr,
           ss_expectancy_usd = round_nd 4 (np_mean N usd), ss_expectancy_r = round_nd 4 (st_expectancy x),
           ss_profit_factor = round_nd 4 pf, ss_median_r = round_nd 4 (np_median N rs),
           ss_max_drawdown_r = round_nd 4 (max_drawdown N rs), ss_norm_drawdown_r = round_nd 4 (st_drawdown x),
           ss_tail_r = round_nd 4 (if 5 \<le> n then np_percentile5 N rs else np_min N rs),
           ss_mae_r = round_nd 4 (np_mean N maes), ss_mfe_r = round_nd 4 (np_mean N mfes),
           ss_variance = round_nd 4 var, ss_t_stat = round_nd 4 (st_t x),
           ss_recency_r = round_nd 4 (st_recency x), ss_recent_r = round_nd 4 (st_recent x),
           ss_recent_n = min (ev_recent_window c) n,
           ss_in_sample_r = round_nd 4 (fst split), ss_out_sample_r = round_nd 4 (fst (snd split)),
           ss_replay_n = fst (snd (snd split)), ss_replay_ok = st_replay_ok x,
           ss_execution_q = quality_mean N ex_execution_q es, ss_management_q = quality_mean N ex_management_q es,
           ss_entry_q = quality_mean N ex_entry_q es, ss_strategy_q = quality_mean N ex_strategy_q es,
           ss_flags = count_flags (concat (map ex_flags es)), ss_confidence = st_confidence x, ss_evidence = ev,
           ss_lifecycle = fst lc, ss_probation = snd lc\<rparr>))))))"

definition evaluate_strategy ::
  "np_lib \<Rightarrow> f64 \<Rightarrow> evaluator_config \<Rightarrow> string \<Rightarrow> experience list \<Rightarrow> lifecycle option \<Rightarrow> strategy_score option \<Rightarrow> strategy_score res" where
  "evaluate_strategy N ln2 c sid es given prev =
     (let cur = (case given of Some s \<Rightarrow> Some s | None \<Rightarrow> map_option ss_lifecycle prev);
          probation = (case given of Some s \<Rightarrow> 0 | None \<Rightarrow> (case prev of Some p \<Rightarrow> ss_probation p | None \<Rightarrow> 0));
          closed = closed_trades es
      in if closed = [] then
           mk_strategy_score (empty_score sid (case cur of Some s \<Rightarrow> s | None \<Rightarrow> LC_DISCOVERED) probation)
         else bindR (stats_of N ln2 c closed) (\<lambda>x. score_of N c sid closed x (determine_lifecycle c cur probation x)))"

section \<open>The registry\<close>

record registry =
  rg_rows :: "string \<Rightarrow> strategy_score option"
  rg_queue :: "strategy_score list"

text \<open>Writes are queued and upserted later, oldest first; a clear deletes the rows at once.\<close>

definition persist_score :: "strategy_score \<Rightarrow> registry \<Rightarrow> registry" where
  "persist_score s r = r\<lparr>rg_queue := rg_queue r @ [s]\<rparr>"

definition flush_registry :: "registry \<Rightarrow> registry" where
  "flush_registry r = \<lparr>rg_rows = fold (\<lambda>s m. m(ss_id s \<mapsto> s)) (rg_queue r) (rg_rows r), rg_queue = []\<rparr>"

definition clear_registry :: "registry \<Rightarrow> registry" where
  "clear_registry r = r\<lparr>rg_rows := Map.empty\<rparr>"

definition evaluate_registered ::
  "np_lib \<Rightarrow> f64 \<Rightarrow> evaluator_config \<Rightarrow> string \<Rightarrow> experience list \<Rightarrow> registry \<Rightarrow> strategy_score res \<times> registry" where
  "evaluate_registered N ln2 c sid es r =
     (case evaluate_strategy N ln2 c sid es None (rg_rows r sid) of
        Inl e \<Rightarrow> (Inl e, r) | Inr s \<Rightarrow> (Inr s, persist_score s r))"

text \<open>\<^verbatim>\<open>rebuild_derived_intelligence\<close>: a failing family ends the loop.\<close>

fun rebuild_loop ::
  "np_lib \<Rightarrow> f64 \<Rightarrow> evaluator_config \<Rightarrow> (string \<times> experience list) list \<Rightarrow> registry \<Rightarrow> strategy_score list \<times> registry" where
  "rebuild_loop N ln2 c [] r = ([], r)"
| "rebuild_loop N ln2 c ((sid, es) # fs) r =
     (if es = [] then rebuild_loop N ln2 c fs r
      else case evaluate_registered N ln2 c sid es r of
             (Inl e, r) \<Rightarrow> ([], r)
           | (Inr s, r) \<Rightarrow> (let (ss, r) = rebuild_loop N ln2 c fs r in (s # ss, r)))"

definition rebuild :: "np_lib \<Rightarrow> f64 \<Rightarrow> evaluator_config \<Rightarrow> (string \<times> experience list) list \<Rightarrow> registry \<Rightarrow> strategy_score list \<times> registry" where
  "rebuild N ln2 c fs r = rebuild_loop N ln2 c fs (clear_registry r)"

section \<open>What a transition needs\<close>

lemma mk_strategy_score_ret: "mk_strategy_score s = Inr t \<Longrightarrow> t = s"
  by (auto simp: mk_strategy_score_def split: if_splits)

lemma fresh_lifecycle_facts:
  shows "fresh_lifecycle c x = LC_RETIRED \<Longrightarrow>
      ev_min_retire c \<le> st_n x \<and> (persistent_negative c x \<or> catastrophic_drawdown c x)"
    and "fresh_lifecycle c x = LC_ACTIVE \<Longrightarrow> st_replay_ok x \<and> ev_min_validated c \<le> st_n x \<and> 0 < st_recency x
      \<and> \<not> st_recent x < ev_degrade_expectancy c"
    and "fresh_lifecycle c x \<noteq> LC_QUARANTINED"
  by (auto simp: fresh_lifecycle_def degraded_def split: if_splits)

lemma leaves_probation_to_evaluating:
  assumes "in_probation cur" and "fst (determine_lifecycle c cur p x) \<noteq> the cur"
  shows "fst (determine_lifecycle c cur p x) = LC_EVALUATING" and "recovered c x"
  using assms by (auto simp: determine_lifecycle_def split: if_splits)

lemma score_of_lifecycle:
  "score_of N c sid es x lc = Inr s \<Longrightarrow> ss_lifecycle s = fst lc \<and> ss_samples s = st_n x \<and> ss_probation s = snd lc \<and> ss_id s = sid"
  by (auto simp: score_of_def Let_def bindR_eq_Inr dest!: mk_strategy_score_ret)

lemma stats_of_n: "stats_of N ln2 c es = Inr x \<Longrightarrow> st_n x = int (length es)"
  by (auto simp: stats_of_def Let_def bindR_eq_Inr)

lemma evaluate_strategy_cases:
  assumes "evaluate_strategy N ln2 c sid es given prev = Inr s"
  obtains (empty) l p where "closed_trades es = []" and "s = empty_score sid l p"
      and "l = (case given of Some s \<Rightarrow> s | None \<Rightarrow> (case prev of Some q \<Rightarrow> ss_lifecycle q | None \<Rightarrow> LC_DISCOVERED))"
  | (trades) x p cur where "closed_trades es \<noteq> []" and "st_n x = int (length (closed_trades es))"
      and "cur = (case given of Some s \<Rightarrow> Some s | None \<Rightarrow> map_option ss_lifecycle prev)"
      and "ss_lifecycle s = fst (determine_lifecycle c cur p x)" and "ss_samples s = st_n x"
      and "stats_of N ln2 c (closed_trades es) = Inr x"
proof (cases "closed_trades es = []")
  case True
  show ?thesis
  proof (rule empty [OF True])
    show "s = empty_score sid (case given of Some s \<Rightarrow> s | None \<Rightarrow> (case prev of Some q \<Rightarrow> ss_lifecycle q | None \<Rightarrow> LC_DISCOVERED))
        (case given of Some s \<Rightarrow> 0 | None \<Rightarrow> (case prev of Some p \<Rightarrow> ss_probation p | None \<Rightarrow> 0))"
      using assms True by (auto simp: evaluate_strategy_def Let_def dest!: mk_strategy_score_ret split: option.splits)
  qed simp
next
  case False
  then obtain x where x: "stats_of N ln2 c (closed_trades es) = Inr x"
    and s: "\<exists>p. score_of N c sid (closed_trades es) x (determine_lifecycle c
        (case given of Some s \<Rightarrow> Some s | None \<Rightarrow> map_option ss_lifecycle prev) p x) = Inr s"
    using assms by (auto simp: evaluate_strategy_def Let_def bindR_eq_Inr split: option.splits)
  then show ?thesis using trades [OF False stats_of_n [OF x] refl _ _ x] score_of_lifecycle by blast
qed

text \<open>
  The sample floor of retirement over the whole life of the registry: if no evaluated history
  of a family ever reached the floor and the family was never given in a retired state, no row
  and no queued score of it is retired or quarantined.
\<close>

definition eligible_row :: "registry \<Rightarrow> string \<Rightarrow> bool" where
  "eligible_row r sid \<longleftrightarrow> (\<forall>s. rg_rows r sid = Some s \<longrightarrow> \<not> ineligible (ss_lifecycle s))
     \<and> (\<forall>s \<in> set (rg_queue r). ss_id s = sid \<longrightarrow> \<not> ineligible (ss_lifecycle s))"

lemma evaluate_keeps_eligible:
  assumes "evaluate_strategy N ln2 c sid es None prev = Inr s"
    and "int (length (closed_trades es)) < ev_min_retire c"
    and "\<And>p. prev = Some p \<Longrightarrow> \<not> ineligible (ss_lifecycle p)"
  shows "\<not> ineligible (ss_lifecycle s)"
  using assms(1)
proof (cases rule: evaluate_strategy_cases)
  case (empty l p)
  then show ?thesis using assms(3) by (auto simp: empty_score_def ineligible_def split: option.splits)
next
  case (trades x p cur)
  have "\<not> in_probation cur" using assms(3) trades(3) by (cases prev) (auto simp: in_probation_def ineligible_def)
  moreover have "fresh_lifecycle c x \<noteq> LC_RETIRED"
    using fresh_lifecycle_facts(1) [of c x] assms(2) trades(2) by auto
  moreover have "fresh_lifecycle c x \<noteq> LC_QUARANTINED" by (rule fresh_lifecycle_facts(3))
  ultimately show ?thesis using trades(4) by (auto simp: determine_lifecycle_def ineligible_def)
qed

lemma evaluate_strategy_id: "evaluate_strategy N ln2 c sid es given prev = Inr s \<Longrightarrow> ss_id s = sid"
  by (auto simp: evaluate_strategy_def Let_def bindR_eq_Inr empty_score_def
      dest!: mk_strategy_score_ret score_of_lifecycle split: if_splits)

datatype registry_op = RG_Evaluate string "experience list" | RG_Flush | RG_Clear

fun registry_step :: "np_lib \<Rightarrow> f64 \<Rightarrow> evaluator_config \<Rightarrow> registry \<Rightarrow> registry_op \<Rightarrow> registry" where
  "registry_step N ln2 c r (RG_Evaluate sid es) = snd (evaluate_registered N ln2 c sid es r)"
| "registry_step N ln2 c r RG_Flush = flush_registry r"
| "registry_step N ln2 c r RG_Clear = clear_registry r"

definition empty_registry :: registry where
  "empty_registry = \<lparr>rg_rows = Map.empty, rg_queue = []\<rparr>"

lemma fold_upsert:
  "fold (\<lambda>s m. m(ss_id s \<mapsto> s)) q m k = Some s \<Longrightarrow> m k = Some s \<or> (s \<in> set q \<and> ss_id s = k)"
  by (induction q arbitrary: m) (fastforce split: if_splits)+

definition small_for :: "evaluator_config \<Rightarrow> string \<Rightarrow> registry_op \<Rightarrow> bool" where
  "small_for c sid op = (case op of RG_Evaluate t es \<Rightarrow>
     t = sid \<longrightarrow> int (length (filter is_trade es)) < ev_min_retire c | _ \<Rightarrow> True)"

lemma length_closed_trades: "length (closed_trades es) = length (filter is_trade es)"
  by (simp add: closed_trades_def)

lemma registry_step_eligible:
  assumes "eligible_row r sid" and "small_for c sid op"
  shows "eligible_row (registry_step N ln2 c r op) sid"
proof (cases op)
  case (RG_Evaluate t es)
  show ?thesis
  proof (cases "evaluate_strategy N ln2 c t es None (rg_rows r t)")
    case (Inl e)
    then show ?thesis using assms(1) by (simp add: RG_Evaluate evaluate_registered_def)
  next
    case (Inr s)
    have "\<not> ineligible (ss_lifecycle s)" if "t = sid"
      by (rule evaluate_keeps_eligible [OF Inr])
        (use assms RG_Evaluate that in \<open>auto simp: small_for_def length_closed_trades eligible_row_def\<close>)
    then show ?thesis using assms(1) Inr evaluate_strategy_id [OF Inr]
      by (auto simp: RG_Evaluate evaluate_registered_def persist_score_def eligible_row_def)
  qed
next
  case RG_Flush
  then show ?thesis using assms(1) fold_upsert
    by (fastforce simp: flush_registry_def eligible_row_def)
next
  case RG_Clear
  then show ?thesis using assms(1) by (simp add: clear_registry_def eligible_row_def)
qed

lemma registry_run_eligible:
  "eligible_row r sid \<Longrightarrow> (\<And>op. op \<in> set ops \<Longrightarrow> small_for c sid op) \<Longrightarrow>
   eligible_row (run (registry_step N ln2 c) r ops) sid"
  by (induction ops arbitrary: r) (auto intro: registry_step_eligible)

section \<open>Evaluating the same evidence again\<close>

text \<open>The registry feeds each result back as the current state of the next evaluation.\<close>

fun reevaluate :: "evaluator_config \<Rightarrow> family_stats \<Rightarrow> nat \<Rightarrow> lifecycle \<times> int \<Rightarrow> lifecycle \<times> int" where
  "reevaluate c x 0 s = s"
| "reevaluate c x (Suc k) s = reevaluate c x k (determine_lifecycle c (Some (fst s)) (snd s) x)"

lemma stays_retired:
  "\<not> recovered c x \<Longrightarrow> ineligible (fst s) \<Longrightarrow> fst (reevaluate c x k s) = fst s"
  by (induction k arbitrary: s) (auto simp: determine_lifecycle_def in_probation_def ineligible_def)

lemma retired_alternates:
  assumes "ev_min_retire c \<le> st_n x" and "catastrophic_drawdown c x" and "recovered c x"
  shows "fst (reevaluate c x k (LC_RETIRED, p)) = (if even k then LC_RETIRED else LC_EVALUATING)"
    and "fst (reevaluate c x k (LC_EVALUATING, p)) = (if even k then LC_EVALUATING else LC_RETIRED)"
proof (induction k arbitrary: p)
  case 0
  { case 1 then show ?case by simp }
  { case 2 then show ?case by simp }
next
  case (Suc k)
  have f: "fresh_lifecycle c x = LC_RETIRED" using assms by (simp add: fresh_lifecycle_def)
  { case 1 show ?case using Suc(2) [of 0] assms(3) by (simp add: determine_lifecycle_def in_probation_def) }
  { case 2 show ?case using Suc(1) [of 0] f by (simp add: determine_lifecycle_def in_probation_def) }
qed

section \<open>Properties\<close>

text \<open>One bad trade cannot retire a strategy. In any history of evaluations, queue flushes and
  registry clears that starts from an empty registry, a family whose evaluated histories always
  hold fewer closed trades than the retirement floor is never registered, or queued, as retired
  or quarantined.\<close>

theorem small_family_never_retired:
  assumes "\<And>es. RG_Evaluate sid es \<in> set ops \<Longrightarrow> int (length (filter is_trade es)) < ev_min_retire c"
    and "rg_rows (run (registry_step N ln2 c) empty_registry ops) sid = Some s"
  shows "ss_lifecycle s \<notin> {LC_RETIRED, LC_QUARANTINED}"
proof -
  have "eligible_row (run (registry_step N ln2 c) empty_registry ops) sid"
  proof (rule registry_run_eligible)
    show "eligible_row empty_registry sid" by (simp add: eligible_row_def empty_registry_def)
    show "small_for c sid op" if "op \<in> set ops" for op
      by (cases op) (use that assms(1) in \<open>auto simp: small_for_def\<close>)
  qed
  then show ?thesis using assms(2) by (auto simp: eligible_row_def ineligible_def)
qed

definition sample_np :: np_lib where
  "sample_np = \<lparr>np_mean = (\<lambda>xs. 0), np_var1 = (\<lambda>xs. 1), np_sum = (\<lambda>xs. 0), np_cumsum = (\<lambda>xs. xs),
     np_max_accumulate = (\<lambda>xs. xs), np_max = (\<lambda>xs. 0), np_min = (\<lambda>xs. 0), np_percentile5 = (\<lambda>xs. 0),
     np_median = (\<lambda>xs. 0), np_exp = (\<lambda>x. 1)\<rparr>"

theorem small_family_never_retired_witness:
  "rg_rows (run (registry_step sample_np (Fin 1) default_evaluator) empty_registry [RG_Evaluate ''a'' [], RG_Flush]) ''a''
     = Some (empty_score ''a'' LC_DISCOVERED 0)
   \<and> ss_lifecycle (empty_score ''a'' LC_DISCOVERED 0) \<notin> {LC_RETIRED, LC_QUARANTINED}"
proof -
  have mk: "mk_strategy_score (empty_score ''a'' LC_DISCOVERED 0) = Inr (empty_score ''a'' LC_DISCOVERED 0)"
    by code_simp
  have r: "rg_rows (run (registry_step sample_np (Fin 1) default_evaluator) empty_registry [RG_Evaluate ''a'' [], RG_Flush]) ''a''
     = Some (empty_score ''a'' LC_DISCOVERED 0)"
    using mk by (simp add: evaluate_registered_def evaluate_strategy_def closed_trades_def empty_registry_def
        flush_registry_def persist_score_def empty_score_def)
  have m: "ev_min_retire default_evaluator = 12" by (simp add: default_evaluator_def mk_evaluator_def)
  show ?thesis
    using r small_family_never_retired [of "''a''" "[RG_Evaluate ''a'' [], RG_Flush]" default_evaluator sample_np "Fin 1", OF _ r]
    by (auto simp: m)
qed

text \<open>Recovery from retirement needs no new trade. On evidence that shows a catastrophic drawdown
  and meets the recovery conditions, evaluating the same history again and again alternates
  between retired (no entry allowed) and evaluating (entries allowed), for ever.\<close>

theorem unchanged_evidence_alternates:
  assumes "ev_min_retire c \<le> st_n x" and "catastrophic_drawdown c x" and "recovered c x"
  shows "fst (reevaluate c x k (determine_lifecycle c None 0 x)) = (if even k then LC_RETIRED else LC_EVALUATING)"
proof -
  have "determine_lifecycle c None 0 x = (LC_RETIRED, 0)"
    using assms by (simp add: determine_lifecycle_def in_probation_def fresh_lifecycle_def)
  then show ?thesis using retired_alternates(1) [OF assms] by simp
qed

definition lopsided_stats :: family_stats where
  "lopsided_stats = \<lparr>st_n = 40, st_expectancy = Fin (- 1 / 4), st_t = Fin (- 1), st_recency = Fin (1 / 16),
     st_recent = Fin (1 / 2), st_drawdown = Fin 4, st_confidence = Fin (5 / 8), st_replay_ok = False\<rparr>"

theorem unchanged_evidence_alternates_witness:
  "fst (reevaluate default_evaluator lopsided_stats 2 (determine_lifecycle default_evaluator None 0 lopsided_stats)) = LC_RETIRED
   \<and> fst (reevaluate default_evaluator lopsided_stats 3 (determine_lifecycle default_evaluator None 0 lopsided_stats)) = LC_EVALUATING"
proof -
  have "ev_min_retire default_evaluator \<le> st_n lopsided_stats" "catastrophic_drawdown default_evaluator lopsided_stats"
    "recovered default_evaluator lopsided_stats" by code_simp+
  from unchanged_evidence_alternates [OF this, of 2] unchanged_evidence_alternates [OF this, of 3]
  show ?thesis by simp
qed

end
