(* ===== verification/ExperienceGate.thy ===== *)
theory ExperienceGate
  imports StrategyLifecycle NewsGate
begin

text \<open>
  \<^verbatim>\<open>experience/intelligence.py\<close> (the pre-trade experience gate with its score cache) and
  \<^verbatim>\<open>intelligence/gate.py\<close> (the suitability tier on top of it). Retrieval from the ledger, the
  context builder and the snapshot writer are arguments of the evaluation: what they return, or
  that they raise. The evaluator and its registry are those of \<^verbatim>\<open>StrategyLifecycle\<close>.
\<close>

section \<open>Proposals with their audit fields\<close>

record gated_proposal = trade_proposal +
  g_model_action :: "string option"
  g_rejection_reason :: "string option"
  g_final_action :: "string option"
  g_override_reason :: "string option"
  g_before_filters :: "f64 option"
  g_after_filters :: "f64 option"

datatype experience_action = XA_ALLOW | XA_ALLOW_WITH_CONTEXT | XA_INSUFFICIENT | XA_PENALIZE | XA_REJECT

record experience_decision =
  xd_action :: experience_action
  xd_qualifies :: bool
  xd_adjusted :: f64
  xd_strategy :: string
  xd_lifecycle :: lifecycle
  xd_samples :: int
  xd_similarity :: f64
  xd_evidence :: f64
  xd_expectancy :: f64
  xd_recent :: f64
  xd_drawdown :: f64
  xd_reason :: string

definition mk_decision :: "experience_decision \<Rightarrow> experience_decision res" where
  "mk_decision d =
     (if unit_range (xd_adjusted d) \<and> 0 \<le> xd_samples d \<and> unit_range (xd_similarity d)
         \<and> unit_range (xd_evidence d) \<and> 0 \<le> xd_drawdown d then ret d else raise ValueError)"

definition insufficient :: "f64 \<Rightarrow> string \<Rightarrow> string \<Rightarrow> experience_decision" where
  "insufficient conf sid reason = \<lparr>xd_action = XA_INSUFFICIENT, xd_qualifies = True, xd_adjusted = conf,
     xd_strategy = sid, xd_lifecycle = LC_DISCOVERED, xd_samples = 0, xd_similarity = 0, xd_evidence = 0,
     xd_expectancy = 0, xd_recent = 0, xd_drawdown = 0, xd_reason = reason\<rparr>"

fun lifecycle_value :: "lifecycle \<Rightarrow> string" where
  "lifecycle_value LC_DISCOVERED = ''DISCOVERED''"
| "lifecycle_value LC_EVALUATING = ''EVALUATING''"
| "lifecycle_value LC_VALIDATED = ''VALIDATED''"
| "lifecycle_value LC_ACTIVE = ''ACTIVE''"
| "lifecycle_value LC_DEGRADED = ''DEGRADED''"
| "lifecycle_value LC_RETIRED = ''RETIRED''"
| "lifecycle_value LC_QUARANTINED = ''QUARANTINED''"

section \<open>The engine and what it reads\<close>

record cached_score =
  cs_score :: strategy_score
  cs_similarity :: f64
  cs_samples :: int
  cs_cached_at :: f64

record gate_config =
  gc_enabled :: bool
  gc_min_confidence :: f64
  gc_degraded_factor :: f64
  gc_boost_threshold :: f64
  gc_boost_factor :: f64
  gc_ttl :: f64
  gc_refresh_rate :: f64

definition mk_gate_config :: "gate_config \<Rightarrow> gate_config" where
  "mk_gate_config c = c\<lparr>gc_ttl := pmax 1 (gc_ttl c), gc_refresh_rate := pmax 0 (gc_refresh_rate c)\<rparr>"

definition default_gate_config :: gate_config where
  "default_gate_config = mk_gate_config \<lparr>gc_enabled = True, gc_min_confidence = fl (40 / 100),
     gc_degraded_factor = fl (70 / 100), gc_boost_threshold = fl (50 / 100), gc_boost_factor = fl (110 / 100),
     gc_ttl = Fin 30, gc_refresh_rate = Fin 4\<rparr>"

record gate_state =
  gs_cache :: "string \<Rightarrow> cached_score option"
  gs_last_refresh :: f64
  gs_registry :: registry
  gs_allow :: int
  gs_penalize :: int
  gs_reject :: int
  gs_insufficient :: int
  gs_failures :: int

definition initial_gate :: gate_state where
  "initial_gate = \<lparr>gs_cache = Map.empty, gs_last_refresh = 0, gs_registry = empty_registry,
     gs_allow = 0, gs_penalize = 0, gs_reject = 0, gs_insufficient = 0, gs_failures = 0\<rparr>"

text \<open>One evaluation's surroundings: the two readings of the monotonic clock (one at the cache
  lookup, one when a refreshed score is stored), the strategy family of the proposal, the
  experiences retrieved for a family with their similarity, and whether the snapshot could be
  recorded.\<close>

record surroundings =
  su_now :: f64
  su_stored_at :: f64
  su_family :: "gated_proposal \<Rightarrow> string res"
  su_retrieve :: "string \<Rightarrow> (experience list \<times> f64) res"
  su_record :: "unit res"

text \<open>The evaluator's library and configuration.\<close>

record evaluator =
  el_np :: np_lib
  el_ln2 :: f64
  el_cfg :: evaluator_config

definition evaluate_family :: "evaluator \<Rightarrow> string \<Rightarrow> experience list \<Rightarrow> registry \<Rightarrow> strategy_score res \<times> registry" where
  "evaluate_family E sid es r = evaluate_registered (el_np E) (el_ln2 E) (el_cfg E) sid es r"

section \<open>The score cache\<close>

definition refresh_score :: "evaluator \<Rightarrow> surroundings \<Rightarrow> string \<Rightarrow> gate_state \<Rightarrow> cached_score option res \<times> gate_state" where
  "refresh_score E u sid s =
     (case su_retrieve u sid of
        Inl e \<Rightarrow> (Inl e, s)
      | Inr (es, similarity) \<Rightarrow>
          let closed = filter is_trade es
          in if closed = [] then (ret None, s)
             else case evaluate_family E sid es (gs_registry s) of
                    (Inl e, r) \<Rightarrow> (Inl e, s\<lparr>gs_registry := r\<rparr>)
                  | (Inr sc, r) \<Rightarrow>
                      let c = \<lparr>cs_score = sc, cs_similarity = similarity, cs_samples = int (length closed),
                               cs_cached_at = su_stored_at u\<rparr>
                      in (ret (Some c), s\<lparr>gs_registry := r, gs_cache := (gs_cache s)(sid \<mapsto> c)\<rparr>))"

definition refresh_allowed :: "gate_config \<Rightarrow> f64 \<Rightarrow> f64 \<Rightarrow> bool res" where
  "refresh_allowed g now last_refresh =
     (if 0 < gc_refresh_rate g
      then bindR (py_div 1 (gc_refresh_rate g)) (\<lambda>iv. ret (iv \<le> now - last_refresh)) else ret True)"

text \<open>Without a fresh entry: refresh when the rate allows it, else the registered score, else
  what the cache still holds.\<close>

definition stale_score :: "gate_config \<Rightarrow> evaluator \<Rightarrow> surroundings \<Rightarrow> string \<Rightarrow> gate_state \<Rightarrow> cached_score option res \<times> gate_state" where
  "stale_score g E u sid s =
     (case refresh_allowed g (su_now u) (gs_last_refresh s) of
        Inl e \<Rightarrow> (Inl e, s)
      | Inr True \<Rightarrow> refresh_score E u sid (s\<lparr>gs_last_refresh := su_now u\<rparr>)
      | Inr False \<Rightarrow>
          (case rg_rows (gs_registry s) sid of
             Some sc \<Rightarrow>
               if 0 < ss_samples sc then
                 (let c = \<lparr>cs_score = sc, cs_similarity = 1, cs_samples = ss_samples sc, cs_cached_at = su_now u\<rparr>
                  in (ret (Some c), s\<lparr>gs_cache := (gs_cache s)(sid \<mapsto> c)\<rparr>))
               else (ret (gs_cache s sid), s)
           | None \<Rightarrow> (ret (gs_cache s sid), s)))"

definition get_score :: "gate_config \<Rightarrow> evaluator \<Rightarrow> surroundings \<Rightarrow> string \<Rightarrow> gate_state \<Rightarrow> cached_score option res \<times> gate_state" where
  "get_score g E u sid s =
     (case gs_cache s sid of
        Some c \<Rightarrow> if su_now u - cs_cached_at c < gc_ttl g then (ret (Some c), s) else stale_score g E u sid s
      | None \<Rightarrow> stale_score g E u sid s)"

definition invalidate :: "string option \<Rightarrow> gate_state \<Rightarrow> gate_state" where
  "invalidate k s = s\<lparr>gs_cache := (case k of None \<Rightarrow> Map.empty | Some sid \<Rightarrow> (gs_cache s)(sid := None))\<rparr>"

section \<open>The experience gate\<close>

definition gated_actions :: "action_type list" where
  "gated_actions = [A_BUY, A_SELL, BUY_MARKET, SELL_MARKET, A_BUY_LIMIT, A_SELL_LIMIT, A_BUY_STOP, A_SELL_STOP]"

text \<open>The verdict on evidence: the action, whether the trade qualifies, its confidence, the reason.\<close>

definition evidence_verdict :: "gate_config \<Rightarrow> f64 \<Rightarrow> strategy_score \<Rightarrow> experience_action \<times> bool \<times> f64 \<times> string" where
  "evidence_verdict g conf sc =
     (let l = ss_lifecycle sc
      in if ineligible l then
           (XA_REJECT, False, 0, if l = LC_RETIRED then ''PERSISTENT_NEGATIVE_EXPECTANCY'' else ''QUARANTINED_ANOMALOUS_EVIDENCE'')
         else if l = LC_DEGRADED then
           (let adj = round_nd 4 (conf * gc_degraded_factor g)
            in if adj < gc_min_confidence g
               then (XA_REJECT, False, adj, ''DEGRADED_CONFIDENCE_BELOW_THRESHOLD ('' @ fmt_fixed 2 adj @ '')'')
               else (XA_PENALIZE, True, adj, ''DEGRADED_STRATEGY_CONFIDENCE_PENALTY''))
         else if l \<in> {LC_ACTIVE, LC_VALIDATED} then
           (if gc_boost_threshold g < ss_recency_r sc \<and> ss_replay_ok sc
            then (XA_ALLOW_WITH_CONTEXT, True, pmin 1 (round_nd 4 (conf * gc_boost_factor g)), ''VALIDATED_HIGH_EXPECTANCY_BOOST'')
            else (XA_ALLOW, True, conf, []))
         else (XA_ALLOW, True, conf, ''EVIDENCE_ACCUMULATING''))"

definition reject_proposal :: "string \<Rightarrow> string \<Rightarrow> string \<Rightarrow> gated_proposal \<Rightarrow> gated_proposal" where
  "reject_proposal reason stage blocker p =
     p\<lparr>p_action := NO_TRADE, p_confidence := 0, g_rejection_reason := Some reason, g_final_action := Some ''NO_TRADE'',
       p_decision_stage := Some stage, p_blocked_by := Some blocker\<rparr>"

definition experience_stage :: string where
  "experience_stage = ''EXPERIENCE_INTELLIGENCE_GATE''"

definition adjust_proposal :: "f64 \<Rightarrow> string \<Rightarrow> gated_proposal \<Rightarrow> gated_proposal" where
  "adjust_proposal conf reason p =
     p\<lparr>p_confidence := conf, g_before_filters := Some (p_confidence p), g_after_filters := Some conf,
       g_override_reason := Some reason, p_decision_stage := Some experience_stage\<rparr>"

definition decision_on :: "gate_config \<Rightarrow> gated_proposal \<Rightarrow> string \<Rightarrow> cached_score \<Rightarrow> experience_decision" where
  "decision_on g p sid c =
     (let sc = cs_score c; (a, q, adj, reason) = evidence_verdict g (p_confidence p) sc
      in \<lparr>xd_action = a, xd_qualifies = q, xd_adjusted = adj, xd_strategy = sid, xd_lifecycle = ss_lifecycle sc,
          xd_samples = cs_samples c, xd_similarity = cs_similarity c, xd_evidence = ss_evidence sc,
          xd_expectancy = ss_expectancy_r sc, xd_recent = ss_recent_r sc, xd_drawdown = ss_norm_drawdown_r sc,
          xd_reason = reason\<rparr>)"

definition apply_verdict :: "experience_decision \<Rightarrow> gated_proposal \<Rightarrow> gate_state \<Rightarrow> gated_proposal \<times> gate_state" where
  "apply_verdict d p s =
     (if \<not> xd_qualifies d then
        (reject_proposal (xd_reason d) experience_stage (''EXPERIENCE_'' @ lifecycle_value (xd_lifecycle d)) p,
         s\<lparr>gs_reject := gs_reject s + 1\<rparr>)
      else if \<not> feq (xd_adjusted d) (p_confidence p) then
        (adjust_proposal (xd_adjusted d) (xd_reason d) p, s\<lparr>gs_penalize := gs_penalize s + 1\<rparr>)
      else (p, s\<lparr>gs_allow := gs_allow s + 1\<rparr>))"

definition pass_unchanged :: "gated_proposal \<Rightarrow> string \<Rightarrow> string \<Rightarrow> (gated_proposal \<times> experience_decision) res" where
  "pass_unchanged p sid reason = bindR (mk_decision (insufficient (p_confidence p) sid reason)) (\<lambda>d. ret (p, d))"

definition decide_on_evidence ::
  "gate_config \<Rightarrow> gated_proposal \<Rightarrow> string \<Rightarrow> cached_score option \<Rightarrow> gate_state \<Rightarrow> (gated_proposal \<times> experience_decision) res \<times> gate_state" where
  "decide_on_evidence g p sid cached s =
     (case cached of
        None \<Rightarrow> (pass_unchanged p sid ''NO_RELEVANT_EXPERIENCE'', s\<lparr>gs_insufficient := gs_insufficient s + 1\<rparr>)
      | Some c \<Rightarrow>
          (case mk_decision (decision_on g p sid c) of
             Inl e \<Rightarrow> (Inl e, s)
           | Inr d \<Rightarrow> (let (q, s) = apply_verdict d p s in (ret (q, d), s))))"

definition evaluate_internal ::
  "gate_config \<Rightarrow> evaluator \<Rightarrow> surroundings \<Rightarrow> gated_proposal \<Rightarrow> gate_state \<Rightarrow> (gated_proposal \<times> experience_decision) res \<times> gate_state" where
  "evaluate_internal g E u p s =
     (if \<not> gc_enabled g \<or> p_action p \<notin> set gated_actions then
        (pass_unchanged p ''strat_not_evaluated''
            (if \<not> gc_enabled g then ''GATE_DISABLED'' else ''NON_ENTRY_ACTION_NOT_GATED''), s)
      else case su_family u p of
        Inl e \<Rightarrow> (Inl e, s)
      | Inr sid \<Rightarrow>
          (case get_score g E u sid s of
             (Inl e, s) \<Rightarrow> (Inl e, s)
           | (Inr cached, s) \<Rightarrow>
               (case su_record u of Inl e \<Rightarrow> (Inl e, s) | Inr _ \<Rightarrow> decide_on_evidence g p sid cached s)))"

text \<open>
  \<^verbatim>\<open>evaluate_proposal\<close>: every exception is isolated and the proposal passes unchanged. The decision
  of that branch is built inside the handler, where nothing catches: it raises for a confidence
  outside the unit interval.
\<close>

definition evaluate_proposal ::
  "gate_config \<Rightarrow> evaluator \<Rightarrow> surroundings \<Rightarrow> gated_proposal \<Rightarrow> gate_state \<Rightarrow> (gated_proposal \<times> experience_decision) res \<times> gate_state" where
  "evaluate_proposal g E u p s =
     (case evaluate_internal g E u p s of
        (Inl e, s) \<Rightarrow> (pass_unchanged p ''strat_unavailable'' ''EXPERIENCE_EVALUATION_FAILED'', s\<lparr>gs_failures := gs_failures s + 1\<rparr>)
      | (Inr x, s) \<Rightarrow> (ret x, s))"

section \<open>The suitability gate\<close>

datatype suitability_tier = ST_ALLOW | ST_WARN | ST_PENALIZE | ST_REJECT | ST_INSUFFICIENT

record suitability_verdict =
  sv_tier :: suitability_tier
  sv_score :: f64
  sv_qualifies :: bool
  sv_adjusted :: f64
  sv_reason :: string
  sv_strategy :: string
  sv_lifecycle :: lifecycle

record suitability_config =
  sc_warn_expectancy :: f64
  sc_severe_drawdown :: f64
  sc_min_suitability :: f64
  sc_warn_floor :: f64
  sc_min_samples :: int

definition mk_suitability_config :: "suitability_config \<Rightarrow> suitability_config" where
  "mk_suitability_config c = c\<lparr>sc_min_samples := max 1 (sc_min_samples c)\<rparr>"

definition default_suitability :: suitability_config where
  "default_suitability = mk_suitability_config \<lparr>sc_warn_expectancy = 0, sc_severe_drawdown = fl (25 / 10),
     sc_min_suitability = fl (40 / 100), sc_warn_floor = fl (25 / 100), sc_min_samples = 5\<rparr>"

record suitability_counts =
  sk_allow :: int
  sk_warn :: int
  sk_penalize :: int
  sk_reject :: int

definition suitability_score :: "experience_decision \<Rightarrow> f64" where
  "suitability_score d =
     (let s = fl (1 / 2);
          s = s + pmax (- fl (30 / 100)) (pmin (fl (30 / 100)) (xd_expectancy d * fl (60 / 100)));
          s = s + pmax (- fl (15 / 100)) (pmin (fl (15 / 100)) (xd_recent d * fl (40 / 100)));
          s = s - pmin (fl (30 / 100)) (xd_drawdown d * fl (10 / 100));
          s = s + pmin (fl (20 / 100)) (xd_evidence d * fl (20 / 100));
          s = (if xd_lifecycle d = LC_DEGRADED then s - fl (20 / 100)
               else if xd_lifecycle d \<in> {LC_ACTIVE, LC_VALIDATED} then s + fl (10 / 100) else s);
          s = (if xd_samples d = 0 then s - fl (15 / 100) else if xd_samples d < 5 then s - fl (10 / 100) else s)
      in pmax 0 (pmin 1 s))"

text \<open>The tier before the qualification floor: a warning or none.\<close>

definition warn_tier :: "suitability_config \<Rightarrow> f64 \<Rightarrow> experience_decision \<Rightarrow> suitability_tier \<times> string" where
  "warn_tier c score d =
     (if score \<le> sc_warn_floor c \<or> sc_severe_drawdown c \<le> xd_drawdown d
      then (ST_WARN, if sc_severe_drawdown c \<le> xd_drawdown d then ''ELEVATED_DRAWDOWN_CONTEXT'' else ''LOW_SUITABILITY_SCORE'')
      else if xd_expectancy d \<le> sc_warn_expectancy c then (ST_WARN, ''NEUTRAL_OR_NEGATIVE_EXPECTANCY'')
      else (ST_ALLOW, []))"

definition suitability_stage :: string where
  "suitability_stage = ''TRADE_INTELLIGENCE_GATE''"

text \<open>Tier, qualification, confidence, reason and proposal.\<close>

definition suitability_outcome ::
  "suitability_config \<Rightarrow> f64 \<Rightarrow> gated_proposal \<Rightarrow> experience_decision \<Rightarrow> suitability_tier \<times> bool \<times> f64 \<times> string \<times> gated_proposal" where
  "suitability_outcome c score p d =
     (let (tier, reason) = warn_tier c score d
      in if score < sc_min_suitability c then
           (if xd_samples d < sc_min_samples c
            then (ST_WARN, True, xd_adjusted d,
                  ''MICRO_SAMPLE_INSUFFICIENT_EVIDENCE (n='' @ show_int (xd_samples d) @ '' < '' @ show_int (sc_min_samples c) @ '')'', p)
            else let reason = ''SUITABILITY_BELOW_THRESHOLD ('' @ fmt_fixed 2 score @ '' < '' @ fmt_fixed 2 (sc_min_suitability c) @ '')''
                 in (ST_REJECT, False, 0, reason, reject_proposal reason suitability_stage ''SUITABILITY_GATE'' p))
         else (tier, True, xd_adjusted d, reason, p))"

definition tally :: "suitability_tier \<Rightarrow> suitability_counts \<Rightarrow> suitability_counts" where
  "tally tier k = (case tier of ST_ALLOW \<Rightarrow> k\<lparr>sk_allow := sk_allow k + 1\<rparr> | ST_WARN \<Rightarrow> k\<lparr>sk_warn := sk_warn k + 1\<rparr>
     | ST_REJECT \<Rightarrow> k\<lparr>sk_reject := sk_reject k + 1\<rparr> | ST_PENALIZE \<Rightarrow> k\<lparr>sk_penalize := sk_penalize k + 1\<rparr>
     | ST_INSUFFICIENT \<Rightarrow> k)"

definition evaluate_with_evidence ::
  "suitability_config \<Rightarrow> gated_proposal \<Rightarrow> experience_decision \<Rightarrow> suitability_counts \<Rightarrow> gated_proposal \<times> suitability_verdict \<times> suitability_counts" where
  "evaluate_with_evidence c p d k =
     (let score = suitability_score d; (tier, q, adj, reason, p') = suitability_outcome c score p d
      in (p', \<lparr>sv_tier = tier, sv_score = score, sv_qualifies = q, sv_adjusted = adj,
               sv_reason = (if reason = [] then ''EVIDENCE_SUPPORTED'' else reason),
               sv_strategy = xd_strategy d, sv_lifecycle = xd_lifecycle d\<rparr>, tally tier k))"

definition verdict_from_phase08 :: "suitability_tier \<Rightarrow> string \<Rightarrow> experience_decision \<Rightarrow> suitability_verdict" where
  "verdict_from_phase08 tier name d = \<lparr>sv_tier = tier, sv_score = 0, sv_qualifies = (tier \<noteq> ST_REJECT),
     sv_adjusted = xd_adjusted d, sv_reason = (if xd_reason d = [] then name else xd_reason d),
     sv_strategy = xd_strategy d, sv_lifecycle = xd_lifecycle d\<rparr>"

text \<open>
  \<^verbatim>\<open>PreTradeIntelligenceGate.evaluate\<close>: the first thing it does is to run the experience gate
  itself on the proposal it is given.
\<close>

definition suitability_evaluate ::
  "suitability_config \<Rightarrow> gate_config \<Rightarrow> evaluator \<Rightarrow> surroundings \<Rightarrow> gated_proposal \<Rightarrow> gate_state \<Rightarrow> suitability_counts
   \<Rightarrow> (gated_proposal \<times> experience_decision \<times> suitability_verdict) res \<times> gate_state \<times> suitability_counts" where
  "suitability_evaluate c g E u p s k =
     (case evaluate_proposal g E u p s of
        (Inl e, s) \<Rightarrow> (Inl e, s, k)
      | (Inr (q, d), s) \<Rightarrow>
          (case xd_action d of
             XA_REJECT \<Rightarrow> (ret (q, d, verdict_from_phase08 ST_REJECT ''REJECT'' d), s, k\<lparr>sk_reject := sk_reject k + 1\<rparr>)
           | XA_PENALIZE \<Rightarrow> (ret (q, d, verdict_from_phase08 ST_PENALIZE ''PENALIZE'' d), s, k\<lparr>sk_penalize := sk_penalize k + 1\<rparr>)
           | XA_INSUFFICIENT \<Rightarrow>
               (ret (q, d, \<lparr>sv_tier = ST_INSUFFICIENT, sv_score = 0, sv_qualifies = True, sv_adjusted = p_confidence p,
                  sv_reason = ''NO_RELEVANT_EXPERIENCE'', sv_strategy = xd_strategy d, sv_lifecycle = xd_lifecycle d\<rparr>), s, k)
           | _ \<Rightarrow> (let (q, v, k) = evaluate_with_evidence c q d k in (ret (q, d, v), s, k))))"

section \<open>What the gates may change\<close>

text \<open>The order a proposal stands for: everything but its action, its confidence and the audit fields.\<close>

definition order_core ::
  "gated_proposal \<Rightarrow> string \<times> string option \<times> string \<times> py_datetime \<times> f64 \<times> f64 \<times> f64 \<times> f64 \<times> int \<times> f64 option \<times> action_type option \<times> bool \<times> string option" where
  "order_core p = (p_request_id p, p_execution_id p, p_symbol p, p_generated_at p, p_proposed_entry p, p_stop_loss p,
     p_take_profit p, p_risk_reward_ratio p, p_ticket p, p_volume p, p_reversal_action p, p_is_ai_reversal p, g_model_action p)"

definition derived_from :: "gated_proposal \<Rightarrow> gated_proposal \<Rightarrow> bool" where
  "derived_from p q \<longleftrightarrow> order_core q = order_core p \<and> (p_action q = p_action p \<or> p_action q = NO_TRADE)"

lemma derived_refl [simp, intro]: "derived_from p p"
  by (simp add: derived_from_def)

lemma derived_trans: "derived_from p q \<Longrightarrow> derived_from q r \<Longrightarrow> derived_from p r"
  by (auto simp: derived_from_def)

lemma derived_reject [simp]: "derived_from p (reject_proposal a b c p)"
  by (simp add: derived_from_def order_core_def reject_proposal_def)

lemma derived_adjust [simp]: "derived_from p (adjust_proposal a b p)"
  by (simp add: derived_from_def order_core_def adjust_proposal_def)

lemma mk_decision_ret: "mk_decision d = Inr e \<Longrightarrow> e = d \<and> unit_range (xd_adjusted d)"
  by (auto simp: mk_decision_def split: if_splits)

lemma pass_unchanged_Inr: "pass_unchanged p sid r = Inr (q, d) \<Longrightarrow>
    q = p \<and> d = insufficient (p_confidence p) sid r \<and> unit_range (p_confidence p)"
  by (auto simp: pass_unchanged_def bindR_eq_Inr insufficient_def dest!: mk_decision_ret)

lemma unit_0: "unit_range 0" and unit_1: "unit_range 1"
  by (simp_all add: unit_range_def zero_f64_Fin one_f64_Fin)

lemma f64_le_refl_0: "(0::f64) \<le> 0"
  by (simp add: zero_f64_Fin)

lemma pass_unchanged_total: "unit_range (p_confidence p) \<Longrightarrow>
    pass_unchanged p sid r = ret (p, insufficient (p_confidence p) sid r)"
  by (simp add: pass_unchanged_def mk_decision_def insufficient_def unit_0 f64_le_refl_0)

lemma apply_verdict_derived: "derived_from p (fst (apply_verdict d p s))"
  by (simp add: apply_verdict_def)

lemma apply_verdict_unit:
  "unit_range (xd_adjusted d) \<Longrightarrow> unit_range (p_confidence p) \<Longrightarrow> unit_range (p_confidence (fst (apply_verdict d p s)))"
  by (simp add: apply_verdict_def reject_proposal_def adjust_proposal_def unit_0)

lemma evaluate_internal_cases:
  assumes "evaluate_internal g E u p s = (Inr (q, d), s')"
  obtains (passed) sid r where "q = p" and "d = insufficient (p_confidence p) sid r" and "unit_range (p_confidence p)"
  | (judged) sid c s1 where "gc_enabled g" and "p_action p \<in> set gated_actions" and "su_family u p = Inr sid"
      and "get_score g E u sid s = (Inr (Some c), s1)" and "d = decision_on g p sid c"
      and "unit_range (xd_adjusted d)" and "q = fst (apply_verdict d p s1)" and "s' = snd (apply_verdict d p s1)"
proof (cases "\<not> gc_enabled g \<or> p_action p \<notin> set gated_actions")
  case True
  then have "\<exists>sid r. pass_unchanged p sid r = Inr (q, d)"
    using assms by (auto simp: evaluate_internal_def)
  then show ?thesis using passed pass_unchanged_Inr by blast
next
  case False
  then obtain sid cached s1 where f: "su_family u p = Inr sid" and gs: "get_score g E u sid s = (Inr cached, s1)"
    and dd: "decide_on_evidence g p sid cached s1 = (Inr (q, d), s')"
    using assms by (auto simp: evaluate_internal_def split: sum.splits prod.splits)
  show ?thesis
  proof (cases cached)
    case None
    then have "pass_unchanged p sid ''NO_RELEVANT_EXPERIENCE'' = Inr (q, d)"
      using dd by (simp add: decide_on_evidence_def)
    then show ?thesis using passed pass_unchanged_Inr by blast
  next
    case (Some c)
    then have "mk_decision (decision_on g p sid c) = Inr d \<and> (q, s') = apply_verdict d p s1"
      using dd by (auto simp: decide_on_evidence_def split: sum.splits prod.splits)
    then show ?thesis
      using judged [of sid c s1] False f gs Some mk_decision_ret by (metis fst_conv snd_conv)
  qed
qed

lemma evaluate_proposal_cases:
  assumes "evaluate_proposal g E u p s = (Inr (q, d), s')"
  obtains (failed) s1 e where "evaluate_internal g E u p s = (Inl e, s1)" and "q = p"
      and "d = insufficient (p_confidence p) ''strat_unavailable'' ''EXPERIENCE_EVALUATION_FAILED''"
      and "unit_range (p_confidence p)"
  | (judged) "evaluate_internal g E u p s = (Inr (q, d), s')"
proof (cases "evaluate_internal g E u p s")
  case (Pair m s1)
  then show ?thesis
    using assms failed judged by (cases m) (auto simp: evaluate_proposal_def dest!: pass_unchanged_Inr)
qed

lemma evaluate_proposal_derived:
  assumes "evaluate_proposal g E u p s = (Inr (q, d), s')"
  shows "derived_from p q"
  using assms
proof (cases rule: evaluate_proposal_cases)
  case judged
  then show ?thesis by (cases rule: evaluate_internal_cases) (simp_all add: apply_verdict_derived)
qed simp

lemma evaluate_proposal_unit:
  assumes "evaluate_proposal g E u p s = (Inr (q, d), s')" and "unit_range (p_confidence p)"
  shows "unit_range (p_confidence q)"
  using assms(1)
proof (cases rule: evaluate_proposal_cases)
  case judged
  then show ?thesis
    by (cases rule: evaluate_internal_cases) (use assms(2) in \<open>simp_all add: apply_verdict_unit\<close>)
qed (simp add: assms(2))

lemma evaluate_proposal_returns:
  "unit_range (p_confidence p) \<Longrightarrow> \<exists>q d. fst (evaluate_proposal g E u p s) = Inr (q, d)"
  by (auto simp: evaluate_proposal_def pass_unchanged_total ret_def split: sum.splits prod.splits)

lemma unit_clamp: "unit_range (pmax 0 (pmin 1 x))"
  by (cases x) (auto simp: unit_range_def pmax_def pmin_def zero_f64_Fin one_f64_Fin)

lemma suitability_score_unit: "unit_range (suitability_score d)"
  unfolding suitability_score_def Let_def by (rule unit_clamp)

text \<open>The suitability outcome: a refusal exactly below the floor with enough samples.\<close>

definition refuses :: "suitability_config \<Rightarrow> experience_decision \<Rightarrow> bool" where
  "refuses c d \<longleftrightarrow> suitability_score d < sc_min_suitability c \<and> \<not> xd_samples d < sc_min_samples c"

lemma evaluate_with_evidence_cases:
  obtains (refused) r v where "refuses c d" and "sv_tier v = ST_REJECT" and "sv_qualifies v = False"
      and "evaluate_with_evidence c p d k = (reject_proposal r suitability_stage ''SUITABILITY_GATE'' p, v, k\<lparr>sk_reject := sk_reject k + 1\<rparr>)"
  | (kept) v k' where "\<not> refuses c d" and "sv_tier v \<in> {ST_ALLOW, ST_WARN}" and "sv_qualifies v"
      and "sv_adjusted v = xd_adjusted d" and "evaluate_with_evidence c p d k = (p, v, k')"
proof (cases "refuses c d")
  case True
  then show ?thesis
    using refused by (auto simp: refuses_def evaluate_with_evidence_def suitability_outcome_def tally_def
        Let_def split: prod.splits)
next
  case False
  obtain tier reason where w: "warn_tier c (suitability_score d) d = (tier, reason)" by (cases "warn_tier c (suitability_score d) d")
  have tier: "tier \<in> {ST_ALLOW, ST_WARN}"
    using w by (auto simp: warn_tier_def split: if_splits)
  show ?thesis
  proof (cases "suitability_score d < sc_min_suitability c")
    case True
    then have "xd_samples d < sc_min_samples c" using False by (simp add: refuses_def)
    then show ?thesis
      using True by (intro kept [OF False]) (simp_all add: evaluate_with_evidence_def suitability_outcome_def w)
  next
    case nf: False
    then show ?thesis
      using tier by (intro kept [OF False]) (simp_all add: evaluate_with_evidence_def suitability_outcome_def w)
  qed
qed

lemma suitability_evaluate_cases:
  assumes "suitability_evaluate c g E u p s k = (Inr (r, d, v), s', k')"
  obtains q s1 where "evaluate_proposal g E u p s = (Inr (q, d), s1)" and "s' = s1"
    and "r = q \<and> xd_action d \<in> {XA_REJECT, XA_PENALIZE, XA_INSUFFICIENT}
       \<or> xd_action d \<in> {XA_ALLOW, XA_ALLOW_WITH_CONTEXT} \<and> (r, v, k') = evaluate_with_evidence c q d k"
proof -
  obtain q s1 where "evaluate_proposal g E u p s = (Inr (q, d), s1)" "s' = s1"
    using assms by (auto simp: suitability_evaluate_def split: sum.splits prod.splits experience_action.splits)
  then show ?thesis
    using assms that by (auto simp: suitability_evaluate_def split: experience_action.splits prod.splits)
qed

lemma evaluate_with_evidence_derived: "derived_from p (fst (evaluate_with_evidence c p d k))"
  by (cases rule: evaluate_with_evidence_cases [where c = c and d = d and p = p and k = k]) simp_all

lemma suitability_evaluate_derived:
  assumes "suitability_evaluate c g E u p s k = (Inr (r, d, v), s', k')"
  shows "derived_from p r"
  using assms
proof (cases rule: suitability_evaluate_cases)
  case (1 q s1)
  have "derived_from p q" by (rule evaluate_proposal_derived [OF 1(1)])
  moreover have "derived_from q r"
    using 1(3) evaluate_with_evidence_derived [of q c d k] by (metis derived_refl fst_conv)
  ultimately show ?thesis by (rule derived_trans)
qed

lemma suitability_evaluate_unit:
  assumes "suitability_evaluate c g E u p s k = (Inr (r, d, v), s', k')" and "unit_range (p_confidence p)"
  shows "unit_range (p_confidence r)"
  using assms(1)
proof (cases rule: suitability_evaluate_cases)
  case (1 q s1)
  have q: "unit_range (p_confidence q)" by (rule evaluate_proposal_unit [OF 1(1) assms(2)])
  have "unit_range (p_confidence (fst (evaluate_with_evidence c q d k)))"
    by (cases rule: evaluate_with_evidence_cases [where c = c and d = d and p = q and k = k])
      (use q in \<open>simp_all add: reject_proposal_def unit_0\<close>)
  then show ?thesis using q 1(3) by (metis fst_conv)
qed

section \<open>The two gates in sequence\<close>

text \<open>The live path runs the experience gate and then the suitability gate on its output.\<close>

definition both_gates ::
  "suitability_config \<Rightarrow> gate_config \<Rightarrow> evaluator \<Rightarrow> surroundings \<Rightarrow> surroundings \<Rightarrow> gated_proposal \<Rightarrow> gate_state \<Rightarrow> suitability_counts
   \<Rightarrow> (gated_proposal \<times> experience_decision \<times> suitability_verdict) res \<times> gate_state \<times> suitability_counts" where
  "both_gates c g E u1 u2 p s k =
     (case evaluate_proposal g E u1 p s of
        (Inl e, s) \<Rightarrow> (Inl e, s, k) | (Inr (q, d), s) \<Rightarrow> suitability_evaluate c g E u2 q s k)"

text \<open>Surroundings in which the family of every proposal is \<open>sid\<close> and nothing raises.\<close>

definition calm :: "surroundings \<Rightarrow> string \<Rightarrow> bool" where
  "calm u sid \<longleftrightarrow> (\<forall>p. su_family u p = ret sid) \<and> su_record u = ret ()"

definition fresh_entry :: "gate_config \<Rightarrow> surroundings \<Rightarrow> cached_score \<Rightarrow> bool" where
  "fresh_entry g u c \<longleftrightarrow> su_now u - cs_cached_at c < gc_ttl g"

definition evidence_ok :: "cached_score \<Rightarrow> bool" where
  "evidence_ok c \<longleftrightarrow> 0 \<le> cs_samples c \<and> unit_range (cs_similarity c) \<and> unit_range (ss_evidence (cs_score c))
     \<and> 0 \<le> ss_norm_drawdown_r (cs_score c)"

lemma get_score_hit: "gs_cache s sid = Some c \<Longrightarrow> fresh_entry g u c \<Longrightarrow> get_score g E u sid s = (ret (Some c), s)"
  by (simp add: get_score_def fresh_entry_def)

lemma decision_on_simps:
  "ss_lifecycle (cs_score c) = LC_DEGRADED \<Longrightarrow> xd_adjusted (decision_on g p sid c) = round_nd 4 (p_confidence p * gc_degraded_factor g)"
  "ss_lifecycle (cs_score c) = LC_DEGRADED \<Longrightarrow> xd_qualifies (decision_on g p sid c) = (\<not> round_nd 4 (p_confidence p * gc_degraded_factor g) < gc_min_confidence g)"
  "ss_lifecycle (cs_score c) = LC_DEGRADED \<Longrightarrow> xd_action (decision_on g p sid c) = (if round_nd 4 (p_confidence p * gc_degraded_factor g) < gc_min_confidence g then XA_REJECT else XA_PENALIZE)"
  "xd_samples (decision_on g p sid c) = cs_samples c" "xd_similarity (decision_on g p sid c) = cs_similarity c"
  "xd_evidence (decision_on g p sid c) = ss_evidence (cs_score c)" "xd_drawdown (decision_on g p sid c) = ss_norm_drawdown_r (cs_score c)"
  "xd_lifecycle (decision_on g p sid c) = ss_lifecycle (cs_score c)"
  by (auto simp: decision_on_def evidence_verdict_def ineligible_def Let_def split: prod.splits if_splits)

definition penalised :: "gate_config \<Rightarrow> f64 \<Rightarrow> f64" where
  "penalised g conf = round_nd 4 (conf * gc_degraded_factor g)"

lemma apply_verdict_cache: "gs_cache (snd (apply_verdict d p s)) = gs_cache s"
  by (simp add: apply_verdict_def)

lemma feq_unit: "unit_range x \<Longrightarrow> feq x y \<Longrightarrow> y = x"
  by (auto simp: feq_def)

lemma hit_step:
  assumes "calm u sid" and "gc_enabled g" and "p_action p \<in> set gated_actions"
    and "gs_cache s sid = Some c" and "fresh_entry g u c"
    and "mk_decision (decision_on g p sid c) = ret (decision_on g p sid c)"
  shows "evaluate_proposal g E u p s = (ret (fst (apply_verdict (decision_on g p sid c) p s), decision_on g p sid c),
           snd (apply_verdict (decision_on g p sid c) p s))"
  using assms get_score_hit [OF assms(4,5), of E]
  by (simp add: evaluate_proposal_def evaluate_internal_def decide_on_evidence_def calm_def ret_def split: prod.splits)

lemma degraded_step:
  assumes "calm u sid" and "gc_enabled g" and "p_action p \<in> set gated_actions"
    and "gs_cache s sid = Some c" and "fresh_entry g u c" and "evidence_ok c"
    and "ss_lifecycle (cs_score c) = LC_DEGRADED" and "unit_range (penalised g (p_confidence p))"
  obtains q d s' where "evaluate_proposal g E u p s = (ret (q, d), s')" and "gs_cache s' = gs_cache s"
    and "penalised g (p_confidence p) < gc_min_confidence g \<Longrightarrow>
       p_action q = NO_TRADE \<and> p_confidence q = 0 \<and> xd_action d = XA_REJECT"
    and "\<not> penalised g (p_confidence p) < gc_min_confidence g \<Longrightarrow>
       p_action q = p_action p \<and> p_confidence q = penalised g (p_confidence p) \<and> xd_action d = XA_PENALIZE"
proof -
  let ?d = "decision_on g p sid c"
  note simps = decision_on_simps [where c = c and g = g and p = p and sid = sid] penalised_def
  have mk: "mk_decision ?d = ret ?d"
    using assms(6,7,8) by (simp add: mk_decision_def simps evidence_ok_def)
  note h = hit_step [OF assms(1-5) mk, of E]
  show ?thesis
  proof (rule that [OF h])
    show "gs_cache (snd (apply_verdict ?d p s)) = gs_cache s" by (rule apply_verdict_cache)
    show "p_action (fst (apply_verdict ?d p s)) = NO_TRADE \<and> p_confidence (fst (apply_verdict ?d p s)) = 0 \<and> xd_action ?d = XA_REJECT"
      if "penalised g (p_confidence p) < gc_min_confidence g"
      using that assms(7) by (simp add: apply_verdict_def simps reject_proposal_def)
    show "p_action (fst (apply_verdict ?d p s)) = p_action p \<and> p_confidence (fst (apply_verdict ?d p s)) = penalised g (p_confidence p) \<and> xd_action ?d = XA_PENALIZE"
      if "\<not> penalised g (p_confidence p) < gc_min_confidence g"
      using that assms(7) feq_unit [OF assms(8), of "p_confidence p"]
      by (auto simp: apply_verdict_def simps adjust_proposal_def)
  qed
qed

text \<open>A degraded strategy is penalised twice. The live path runs the experience gate and then the
  suitability gate, which runs the experience gate again on its output: an entry on cached
  degraded evidence leaves with its confidence multiplied twice, or is refused when the twice
  reduced confidence is below the qualification threshold although the once reduced one is not.\<close>

theorem degraded_penalised_twice:
  assumes "calm u1 sid" and "calm u2 sid" and "gc_enabled g" and "p_action p \<in> set gated_actions"
    and "gs_cache s sid = Some c" and "fresh_entry g u1 c" and "fresh_entry g u2 c" and "evidence_ok c"
    and "ss_lifecycle (cs_score c) = LC_DEGRADED"
    and "unit_range (penalised g (p_confidence p))" and "unit_range (penalised g (penalised g (p_confidence p)))"
    and "\<not> penalised g (p_confidence p) < gc_min_confidence g"
  shows "\<exists>r d v s' k'. both_gates cfg g E u1 u2 p s k = (ret (r, d, v), s', k')
     \<and> (if penalised g (penalised g (p_confidence p)) < gc_min_confidence g
        then p_action r = NO_TRADE \<and> sv_tier v = ST_REJECT
        else p_action r = p_action p \<and> p_confidence r = penalised g (penalised g (p_confidence p)))"
proof -
  obtain q d1 s1 where 1: "evaluate_proposal g E u1 p s = (ret (q, d1), s1)" "gs_cache s1 = gs_cache s"
    and q: "p_action q = p_action p" "p_confidence q = penalised g (p_confidence p)"
    using degraded_step [OF assms(1,3,4,5,6,8,9,10), of E] assms(12) by blast
  have "p_action q \<in> set gated_actions" "gs_cache s1 sid = Some c" "unit_range (penalised g (p_confidence q))"
    using q 1(2) assms(4,5,11) by simp_all
  then obtain r d s2 where 2: "evaluate_proposal g E u2 q s1 = (ret (r, d), s2)"
    and r: "penalised g (p_confidence q) < gc_min_confidence g \<Longrightarrow> p_action r = NO_TRADE \<and> p_confidence r = 0 \<and> xd_action d = XA_REJECT"
      "\<not> penalised g (p_confidence q) < gc_min_confidence g \<Longrightarrow>
         p_action r = p_action q \<and> p_confidence r = penalised g (p_confidence q) \<and> xd_action d = XA_PENALIZE"
    using degraded_step [OF assms(2,3) _ _ assms(7,8,9), of q s1 E] by metis
  have both: "both_gates cfg g E u1 u2 p s k = suitability_evaluate cfg g E u2 q s1 k"
    using 1(1) by (simp add: both_gates_def ret_def)
  show ?thesis
  proof (cases "penalised g (p_confidence q) < gc_min_confidence g")
    case True
    then show ?thesis using r(1) 2 q unfolding both
      by (simp add: suitability_evaluate_def ret_def verdict_from_phase08_def)
  next
    case False
    then show ?thesis using r(2) 2 q unfolding both
      by (simp add: suitability_evaluate_def ret_def verdict_from_phase08_def)
  qed
qed

definition sample_gate :: gate_config where
  "sample_gate = \<lparr>gc_enabled = True, gc_min_confidence = Fin (1 / 4), gc_degraded_factor = Fin (1 / 2),
     gc_boost_threshold = Fin (1 / 2), gc_boost_factor = Fin (9 / 8), gc_ttl = Fin 30, gc_refresh_rate = Fin 4\<rparr>"

definition sample_evaluator :: evaluator where
  "sample_evaluator = \<lparr>el_np = sample_np, el_ln2 = Fin 1, el_cfg = default_evaluator\<rparr>"

definition sample_surroundings :: "f64 \<Rightarrow> (experience list \<times> f64) res \<Rightarrow> surroundings" where
  "sample_surroundings now found = \<lparr>su_now = now, su_stored_at = now, su_family = (\<lambda>p. ret ''a''),
     su_retrieve = (\<lambda>sid. found), su_record = ret ()\<rparr>"

definition sample_score :: "lifecycle \<Rightarrow> strategy_score" where
  "sample_score l = (empty_score ''a'' l 0)\<lparr>ss_samples := 20\<rparr>"

definition sample_cached :: "lifecycle \<Rightarrow> cached_score" where
  "sample_cached l = \<lparr>cs_score = sample_score l, cs_similarity = 1, cs_samples = 20, cs_cached_at = Fin 0\<rparr>"

definition sample_entry :: "action_type \<Rightarrow> f64 \<Rightarrow> gated_proposal" where
  "sample_entry a conf = \<lparr>p_request_id = ''r1'', p_execution_id = None, p_symbol = ''XAUUSD'', p_generated_at = utc 0,
     p_action = a, p_confidence = conf, p_proposed_entry = Fin 2000, p_stop_loss = Fin 1990, p_take_profit = Fin 2020,
     p_risk_reward_ratio = Fin 2, p_reason_code = ''MODEL_SIGNAL'', p_ticket = 0, p_volume = None,
     p_decision_stage = None, p_blocked_by = None, p_reversal_action = None, p_is_ai_reversal = False,
     g_model_action = Some ''BUY'', g_rejection_reason = None, g_final_action = None, g_override_reason = None,
     g_before_filters = None, g_after_filters = None\<rparr>"

definition zero_counts :: suitability_counts where
  "zero_counts = \<lparr>sk_allow = 0, sk_warn = 0, sk_penalize = 0, sk_reject = 0\<rparr>"

lemma calm_sample [simp]: "calm (sample_surroundings t f) ''a''"
  by (simp add: calm_def sample_surroundings_def)

theorem degraded_penalised_twice_witness:
  "\<exists>r d v s' k'. both_gates default_suitability sample_gate sample_evaluator (sample_surroundings (Fin 1) (ret ([], 1)))
       (sample_surroundings (Fin 2) (ret ([], 1))) (sample_entry A_BUY (Fin (3 / 4)))
       (initial_gate\<lparr>gs_cache := [''a'' \<mapsto> sample_cached LC_DEGRADED]\<rparr>) zero_counts = (ret (r, d, v), s', k')
     \<and> p_action r = NO_TRADE \<and> sv_tier v = ST_REJECT"
proof -
  let ?p = "sample_entry A_BUY (Fin (3 / 4))" and ?c = "sample_cached LC_DEGRADED"
  let ?s = "initial_gate\<lparr>gs_cache := [''a'' \<mapsto> ?c]\<rparr>"
  have f: "gc_enabled sample_gate" "p_action ?p \<in> set gated_actions" "gs_cache ?s ''a'' = Some ?c"
    "ss_lifecycle (cs_score ?c) = LC_DEGRADED"
    by (simp_all add: sample_gate_def sample_entry_def gated_actions_def sample_cached_def sample_score_def empty_score_def)
  have fr: "fresh_entry sample_gate (sample_surroundings (Fin 1) (ret ([], 1))) ?c"
    "fresh_entry sample_gate (sample_surroundings (Fin 2) (ret ([], 1))) ?c" "evidence_ok ?c"
    by code_simp+
  have u: "unit_range (penalised sample_gate (p_confidence ?p))"
    "unit_range (penalised sample_gate (penalised sample_gate (p_confidence ?p)))"
    "\<not> penalised sample_gate (p_confidence ?p) < gc_min_confidence sample_gate"
    and low: "penalised sample_gate (penalised sample_gate (p_confidence ?p)) < gc_min_confidence sample_gate"
    by code_simp+
  show ?thesis
    using degraded_penalised_twice [OF calm_sample calm_sample f(1,2,3) fr(1,2,3) f(4) u, of default_suitability sample_evaluator zero_counts] low
    by simp
qed

text \<open>A proposal that the experience gate has refused is reported as unexamined. The second run finds
  an action that is not gated: the decision and the verdict kept for the operator say that there
  is no evidence and that the proposal qualifies, and no refusal is counted by the suitability
  gate.\<close>

theorem refusal_reported_as_no_evidence:
  assumes "fst (evaluate_proposal g E u1 p s) = Inr (q, d)" and "p_action q = NO_TRADE" and "unit_range (p_confidence q)"
  shows "\<exists>d2 v s'. both_gates cfg g E u1 u2 p s k = (ret (q, d2, v), s', k) \<and> xd_action d2 = XA_INSUFFICIENT
     \<and> xd_qualifies d2 \<and> sv_tier v = ST_INSUFFICIENT \<and> sv_qualifies v"
proof -
  obtain s1 where 1: "evaluate_proposal g E u1 p s = (Inr (q, d), s1)"
    using assms(1) by (cases "evaluate_proposal g E u1 p s") simp
  have "NO_TRADE \<notin> set gated_actions" by (simp add: gated_actions_def)
  then have 2: "evaluate_proposal g E u2 q s1 = (ret (q, insufficient (p_confidence q) ''strat_not_evaluated''
      (if \<not> gc_enabled g then ''GATE_DISABLED'' else ''NON_ENTRY_ACTION_NOT_GATED'')), s1)"
    using assms(2) pass_unchanged_total [OF assms(3)]
    by (simp add: evaluate_proposal_def evaluate_internal_def ret_def)
  show ?thesis
    by (simp add: both_gates_def 1 suitability_evaluate_def 2 ret_def insufficient_def)
qed

theorem refusal_reported_as_no_evidence_witness:
  "\<exists>d2 v s'. both_gates default_suitability sample_gate sample_evaluator (sample_surroundings (Fin 1) (ret ([], 1)))
       (sample_surroundings (Fin 2) (ret ([], 1))) (sample_entry A_BUY (Fin (1 / 8)))
       (initial_gate\<lparr>gs_cache := [''a'' \<mapsto> sample_cached LC_RETIRED]\<rparr>) zero_counts
     = (ret (reject_proposal ''PERSISTENT_NEGATIVE_EXPECTANCY'' experience_stage ''EXPERIENCE_RETIRED'' (sample_entry A_BUY (Fin (1 / 8))), d2, v), s', zero_counts)
     \<and> xd_action d2 = XA_INSUFFICIENT \<and> xd_qualifies d2 \<and> sv_tier v = ST_INSUFFICIENT \<and> sv_qualifies v"
proof -
  let ?p = "sample_entry A_BUY (Fin (1 / 8))" and ?c = "sample_cached LC_RETIRED"
  let ?s = "initial_gate\<lparr>gs_cache := [''a'' \<mapsto> ?c]\<rparr>" and ?u = "sample_surroundings (Fin 1) (ret ([], 1))"
  let ?d = "decision_on sample_gate ?p ''a'' ?c"
  let ?q = "reject_proposal ''PERSISTENT_NEGATIVE_EXPECTANCY'' experience_stage ''EXPERIENCE_RETIRED'' ?p"
  have mk: "mk_decision ?d = ret ?d" "fresh_entry sample_gate ?u ?c" by code_simp+
  have v: "fst (apply_verdict ?d ?p ?s) = ?q"
    by (simp add: apply_verdict_def decision_on_def evidence_verdict_def sample_cached_def sample_score_def empty_score_def ineligible_def)
  have f: "gc_enabled sample_gate" "p_action ?p \<in> set gated_actions" "gs_cache ?s ''a'' = Some ?c"
    by (simp_all add: sample_gate_def sample_entry_def gated_actions_def)
  have "fst (evaluate_proposal sample_gate sample_evaluator ?u ?p ?s) = Inr (?q, ?d)"
    using hit_step [OF calm_sample f(1,2,3) mk(2,1), of sample_evaluator] v by (simp add: ret_def)
  moreover have "p_action ?q = NO_TRADE" "unit_range (p_confidence ?q)" by (simp_all add: reject_proposal_def unit_0)
  ultimately show ?thesis by (rule refusal_reported_as_no_evidence)
qed

lemma stale_entry_cases:
  assumes "gs_cache s sid = None" and "rg_rows (gs_registry s) sid = Some sc" and "0 < ss_samples sc"
    and "refresh_allowed g (su_now u) (gs_last_refresh s) = ret ok"
  shows "\<not> ok \<Longrightarrow> fst (get_score g E u sid s)
      = ret (Some \<lparr>cs_score = sc, cs_similarity = 1, cs_samples = ss_samples sc, cs_cached_at = su_now u\<rparr>)"
    and "ok \<Longrightarrow> su_retrieve u sid = Inl e \<Longrightarrow> fst (get_score g E u sid s) = Inl e"
    and "ok \<Longrightarrow> su_retrieve u sid = Inr (es, sim) \<Longrightarrow> filter is_trade es = [] \<Longrightarrow> fst (get_score g E u sid s) = ret None"
  using assms by (simp_all add: get_score_def stale_score_def refresh_score_def ret_def Let_def)

lemma mk_strategy_scoreD: "mk_strategy_score s = ret s \<Longrightarrow> unit_range (ss_evidence s) \<and> 0 \<le> ss_norm_drawdown_r s"
  by (simp add: mk_strategy_score_def unit_range_def split: if_splits)

text \<open>A family that is registered as retired is refused while the refresh rate is used up, as the
  registry fallback promises; when the rate allows a refresh, the registered verdict is not
  looked at, and an entry whose retrieval raises, or finds no closed trade, passes unchanged.\<close>

theorem retired_family_gate:
  assumes "calm u sid" and "gc_enabled g" and "p_action p \<in> set gated_actions" and "unit_range (p_confidence p)"
    and "gs_cache s sid = None" and "rg_rows (gs_registry s) sid = Some sc" and "ss_lifecycle sc = LC_RETIRED"
    and "0 < ss_samples sc" and "mk_strategy_score sc = ret sc"
    and "refresh_allowed g (su_now u) (gs_last_refresh s) = ret ok"
    and "su_retrieve u sid = Inl e \<or> (\<exists>es sim. su_retrieve u sid = ret (es, sim) \<and> filter is_trade es = [])"
  shows "\<exists>q d. fst (evaluate_proposal g E u p s) = ret (q, d) \<and> (if ok then q = p \<and> xd_qualifies d else p_action q = NO_TRADE \<and> \<not> xd_qualifies d)"
proof (cases ok)
  case False
  let ?c = "\<lparr>cs_score = sc, cs_similarity = 1, cs_samples = ss_samples sc, cs_cached_at = su_now u\<rparr>"
  let ?d = "decision_on g p sid ?c"
  have "fst (get_score g E u sid s) = ret (Some ?c)" by (rule stale_entry_cases(1) [OF assms(5,6,8,10) False])
  then obtain s1 where gs: "get_score g E u sid s = (ret (Some ?c), s1)" by (metis prod.collapse)
  have d: "\<not> xd_qualifies ?d" "xd_adjusted ?d = 0"
    using assms(7) by (simp_all add: decision_on_def evidence_verdict_def ineligible_def)
  have "mk_decision ?d = ret ?d"
    using d(2) assms(8) mk_strategy_scoreD [OF assms(9)] by (simp add: mk_decision_def decision_on_simps unit_0 unit_1)
  then have "fst (evaluate_proposal g E u p s) = ret (fst (apply_verdict ?d p s1), ?d)"
    using gs assms(1-3) by (simp add: evaluate_proposal_def evaluate_internal_def decide_on_evidence_def calm_def ret_def split: prod.splits)
  then show ?thesis using d(1) False by (simp add: apply_verdict_def reject_proposal_def)
next
  case True
  note st = stale_entry_cases [OF assms(5,6,8,10), where E = E]
  have "fst (get_score g E u sid s) = Inl e \<or> fst (get_score g E u sid s) = ret None"
    using assms(11) st(2) [OF True] st(3) [OF True] by (auto simp: ret_def)
  then have "\<exists>d. fst (evaluate_proposal g E u p s) = ret (p, d) \<and> xd_qualifies d"
    using assms(1-3) pass_unchanged_total [OF assms(4)]
    by (auto simp: evaluate_proposal_def evaluate_internal_def decide_on_evidence_def calm_def ret_def insufficient_def split: prod.splits)
  then show ?thesis using True by auto
qed

theorem retired_family_gate_witness:
  "\<exists>q d. fst (evaluate_proposal sample_gate sample_evaluator (sample_surroundings (Fin 1) (Inl ValueError)) (sample_entry A_BUY (Fin (3 / 4)))
       (initial_gate\<lparr>gs_registry := \<lparr>rg_rows = [''a'' \<mapsto> sample_score LC_RETIRED], rg_queue = []\<rparr>\<rparr>)) = ret (q, d)
     \<and> q = sample_entry A_BUY (Fin (3 / 4)) \<and> xd_qualifies d"
proof -
  let ?s = "initial_gate\<lparr>gs_registry := \<lparr>rg_rows = [''a'' \<mapsto> sample_score LC_RETIRED], rg_queue = []\<rparr>\<rparr>"
  let ?u = "sample_surroundings (Fin 1) (Inl ValueError)" and ?p = "sample_entry A_BUY (Fin (3 / 4))"
  have f: "gc_enabled sample_gate" "p_action ?p \<in> set gated_actions" "gs_cache ?s ''a'' = None"
    "rg_rows (gs_registry ?s) ''a'' = Some (sample_score LC_RETIRED)" "ss_lifecycle (sample_score LC_RETIRED) = LC_RETIRED"
    "0 < ss_samples (sample_score LC_RETIRED)"
    by (simp_all add: sample_gate_def sample_entry_def gated_actions_def sample_score_def empty_score_def initial_gate_def)
  have c: "unit_range (p_confidence ?p)" "mk_strategy_score (sample_score LC_RETIRED) = ret (sample_score LC_RETIRED)"
    "refresh_allowed sample_gate (su_now ?u) (gs_last_refresh ?s) = ret True"
    by code_simp+
  have e: "su_retrieve ?u ''a'' = Inl ValueError \<or> (\<exists>es sim. su_retrieve ?u ''a'' = ret (es, sim) \<and> filter is_trade es = [])"
    by (simp add: sample_surroundings_def)
  show ?thesis
    using retired_family_gate [OF calm_sample f(1,2) c(1) f(3,4,5,6) c(2,3) e, of sample_evaluator] by simp
qed

text \<open>
  Fewer samples than the suitability floor never refuse; at or above it the refusal is exactly a
  low score.
\<close>

lemma suitability_refuses_iff:
  "p_action p \<noteq> NO_TRADE \<Longrightarrow>
   p_action (fst (evaluate_with_evidence c p d k)) = NO_TRADE \<longleftrightarrow> refuses c d"
  by (cases rule: evaluate_with_evidence_cases [where c = c and d = d and p = p and k = k])
    (simp_all add: reject_proposal_def)

text \<open>The warning of a low score cannot be seen: below its floor the verdict is replaced.\<close>

lemma low_score_warning_replaced:
  assumes "sc_warn_floor c < sc_min_suitability c" and "suitability_score d \<le> sc_warn_floor c"
  shows "suitability_score d < sc_min_suitability c"
  using assms(2,1) by (rule f64_le_less_trans)

end
