(* ===== verification/OutcomeLedger.thy ===== *)
theory OutcomeLedger
  imports PyTime Domain
begin

text \<open>
  The lifecycle of a decision and its outcome: the classification of \<^verbatim>\<open>experience/lifecycle.py\<close>,
  the terminal emission of \<^verbatim>\<open>execution/terminal_outcome.py\<close>, and the writes of
  \<^verbatim>\<open>experience/ledger.py\<close> that they use. The audit database is two tables and the bounded
  queue of statements that a background thread applies in order.
\<close>

section \<open>Lifecycle states\<close>

datatype decision_lifecycle =
    DL_CREATED | DL_DISPATCH_PENDING | DL_DISPATCHED | DL_PARTIALLY_FILLED | DL_FILLED | DL_POSITION_OPEN
  | DL_POSITION_CLOSED | DL_CANCELED_UNFILLED | DL_EXPIRED_UNFILLED | DL_REJECTED_UNFILLED | DL_REPLACED_UNFILLED
  | DL_EXECUTION_FAILED | DL_NOT_DISPATCHED | DL_FILLED_OUTCOME_MISSING | DL_FILLED_CLOSED | DL_REPAIRED

definition all_states :: "decision_lifecycle list" where
  "all_states = [DL_CREATED, DL_DISPATCH_PENDING, DL_DISPATCHED, DL_PARTIALLY_FILLED, DL_FILLED, DL_POSITION_OPEN,
     DL_POSITION_CLOSED, DL_CANCELED_UNFILLED, DL_EXPIRED_UNFILLED, DL_REJECTED_UNFILLED, DL_REPLACED_UNFILLED,
     DL_EXECUTION_FAILED, DL_NOT_DISPATCHED, DL_FILLED_OUTCOME_MISSING, DL_FILLED_CLOSED, DL_REPAIRED]"

fun state_value :: "decision_lifecycle \<Rightarrow> string" where
  "state_value DL_CREATED = ''DECISION_CREATED''"
| "state_value DL_DISPATCH_PENDING = ''DISPATCH_PENDING''"
| "state_value DL_DISPATCHED = ''DISPATCHED''"
| "state_value DL_PARTIALLY_FILLED = ''PARTIALLY_FILLED''"
| "state_value DL_FILLED = ''FILLED''"
| "state_value DL_POSITION_OPEN = ''POSITION_OPEN''"
| "state_value DL_POSITION_CLOSED = ''POSITION_CLOSED''"
| "state_value DL_CANCELED_UNFILLED = ''CANCELED_UNFILLED''"
| "state_value DL_EXPIRED_UNFILLED = ''EXPIRED_UNFILLED''"
| "state_value DL_REJECTED_UNFILLED = ''REJECTED_UNFILLED''"
| "state_value DL_REPLACED_UNFILLED = ''REPLACED_UNFILLED''"
| "state_value DL_EXECUTION_FAILED = ''EXECUTION_FAILED''"
| "state_value DL_NOT_DISPATCHED = ''NOT_DISPATCHED''"
| "state_value DL_FILLED_OUTCOME_MISSING = ''FILLED_OUTCOME_MISSING''"
| "state_value DL_FILLED_CLOSED = ''FILLED_CLOSED''"
| "state_value DL_REPAIRED = ''REPAIRED''"

definition trade_terminal :: "decision_lifecycle list" where
  "trade_terminal = [DL_FILLED_CLOSED, DL_REPAIRED]"

definition non_trade_terminal :: "decision_lifecycle list" where
  "non_trade_terminal = [DL_CANCELED_UNFILLED, DL_EXPIRED_UNFILLED, DL_REJECTED_UNFILLED, DL_REPLACED_UNFILLED,
     DL_EXECUTION_FAILED, DL_NOT_DISPATCHED]"

definition degraded_terminal :: "decision_lifecycle list" where
  "degraded_terminal = [DL_FILLED_OUTCOME_MISSING]"

definition terminal_states :: "decision_lifecycle list" where
  "terminal_states = trade_terminal @ non_trade_terminal @ degraded_terminal"

text \<open>\<^verbatim>\<open>DecisionLifecycle(text)\<close>, and the table from persisted exit reasons.\<close>

definition parse_state :: "string \<Rightarrow> decision_lifecycle option" where
  "parse_state t = find (\<lambda>s. state_value s = t) all_states"

definition exit_reasons :: "(decision_lifecycle \<times> string) list" where
  "exit_reasons = map (\<lambda>s. (s, state_value s)) (non_trade_terminal @ degraded_terminal)"

definition exit_reason_state :: "string \<Rightarrow> decision_lifecycle option" where
  "exit_reason_state t = map_of (map (\<lambda>(s, r). (r, s)) exit_reasons) t"

definition lifecycle_from_outcome :: "bool \<Rightarrow> bool \<Rightarrow> string \<Rightarrow> string \<Rightarrow> decision_lifecycle" where
  "lifecycle_from_outcome executed ended reason marker =
     (case (if marker = [] then None else parse_state marker) of
        Some s \<Rightarrow> if s \<in> set terminal_states then s else
          (case exit_reason_state (upper reason) of Some s \<Rightarrow> s
           | None \<Rightarrow> if executed \<and> ended then DL_FILLED_CLOSED else if ended then DL_NOT_DISPATCHED else DL_CREATED)
      | None \<Rightarrow>
          (case exit_reason_state (upper reason) of Some s \<Rightarrow> s
           | None \<Rightarrow> if executed \<and> ended then DL_FILLED_CLOSED else if ended then DL_NOT_DISPATCHED else DL_CREATED))"

section \<open>Outcomes\<close>

record outcome =
  oc_key :: string
  oc_execution_id :: string
  oc_timestamp :: py_datetime
  oc_executed :: bool
  oc_closed :: bool
  oc_exit_reason :: string
  oc_pnl :: f64
  oc_r_multiple :: f64
  oc_volume :: f64
  oc_lifecycle :: string
  oc_detail :: string

definition build_terminal :: "string \<Rightarrow> decision_lifecycle \<Rightarrow> py_datetime option \<Rightarrow> py_datetime \<Rightarrow> string \<Rightarrow> string \<Rightarrow> outcome res" where
  "build_terminal key s ts now exec detail =
     (if s \<notin> set non_trade_terminal \<and> s \<notin> set degraded_terminal then raise ValueError
      else case map_of exit_reasons s of
             None \<Rightarrow> raise KeyError
           | Some reason \<Rightarrow>
               ret \<lparr>oc_key = key, oc_execution_id = exec, oc_timestamp = (case ts of Some t \<Rightarrow> t | None \<Rightarrow> now),
                    oc_executed = False, oc_closed = True, oc_exit_reason = reason, oc_pnl = 0, oc_r_multiple = 0,
                    oc_volume = 0, oc_lifecycle = state_value s, oc_detail = detail\<rparr>)"

definition lifecycle_for_dispatch_failure :: "bool \<Rightarrow> bool \<Rightarrow> decision_lifecycle" where
  "lifecycle_for_dispatch_failure dispatched broker_rejected =
     (if broker_rejected then DL_REJECTED_UNFILLED else if dispatched then DL_EXECUTION_FAILED else DL_NOT_DISPATCHED)"

section \<open>The ledger\<close>

datatype statement = InsertDecision string py_datetime | InsertOutcome outcome | UpdateOutcome outcome

record ledger =
  ld_decisions :: "string \<Rightarrow> py_datetime option"
  ld_outcomes :: "string \<Rightarrow> outcome option"
  ld_queue :: "statement list"
  ld_capacity :: nat
  ld_duplicates :: int
  ld_outcome_count :: int

text \<open>\<^verbatim>\<open>put_nowait\<close> on the bounded queue refuses when it is full.\<close>

definition enqueue :: "statement \<Rightarrow> ledger \<Rightarrow> bool \<times> ledger" where
  "enqueue x l = (if length (ld_queue l) < ld_capacity l then (True, l\<lparr>ld_queue := ld_queue l @ [x]\<rparr>) else (False, l))"

text \<open>The key is unique in both tables: a second insert does nothing; an update needs a row.\<close>

fun apply_statement :: "ledger \<Rightarrow> statement \<Rightarrow> ledger" where
  "apply_statement l (InsertDecision k t) =
     (if ld_decisions l k = None then l\<lparr>ld_decisions := (ld_decisions l)(k \<mapsto> t)\<rparr> else l)"
| "apply_statement l (InsertOutcome x) =
     (if ld_outcomes l (oc_key x) = None then l\<lparr>ld_outcomes := (ld_outcomes l)(oc_key x \<mapsto> x)\<rparr> else l)"
| "apply_statement l (UpdateOutcome x) =
     (if ld_outcomes l (oc_key x) = None then l else l\<lparr>ld_outcomes := (ld_outcomes l)(oc_key x \<mapsto> x)\<rparr>)"

definition drain :: "nat \<Rightarrow> ledger \<Rightarrow> ledger" where
  "drain n l = (foldl apply_statement l (take n (ld_queue l)))\<lparr>ld_queue := List.drop n (ld_queue l)\<rparr>"

definition record_decision :: "string \<Rightarrow> py_datetime \<Rightarrow> ledger \<Rightarrow> bool \<times> ledger" where
  "record_decision k t l = enqueue (InsertDecision k t) l"

definition record_outcome :: "outcome \<Rightarrow> ledger \<Rightarrow> bool \<times> ledger" where
  "record_outcome x l =
     (let (ok, l) = enqueue (InsertOutcome x) l
      in if ok then (True, l\<lparr>ld_outcome_count := ld_outcome_count l + 1\<rparr>) else (False, l))"

definition repair_outcome :: "outcome \<Rightarrow> ledger \<Rightarrow> bool \<times> ledger" where
  "repair_outcome x l = enqueue (UpdateOutcome x) l"

text \<open>\<open>n\<close> is the number of statements the worker applies during the bounded flush.\<close>

definition record_terminal :: "nat \<Rightarrow> outcome \<Rightarrow> ledger \<Rightarrow> bool \<times> ledger" where
  "record_terminal n x l =
     (if oc_key x = [] then (False, l)
      else
        let l = (if ld_decisions l (oc_key x) = None then drain n l else l)
        in case ld_decisions l (oc_key x) of
             None \<Rightarrow> (False, l)
           | Some t \<Rightarrow>
               if instant (oc_timestamp x) < instant t then (False, l)
               else if ld_outcomes l (oc_key x) \<noteq> None then (False, l\<lparr>ld_duplicates := ld_duplicates l + 1\<rparr>)
               else record_outcome x l)"

definition idempotency_key :: "string \<Rightarrow> string" where
  "idempotency_key request = ''exp_'' @ request"

definition later :: "py_datetime \<Rightarrow> py_datetime \<Rightarrow> py_datetime" where
  "later a b = (if instant a < instant b then b else a)"

definition emit_terminal ::
  "nat \<Rightarrow> bool \<Rightarrow> string \<Rightarrow> decision_lifecycle \<Rightarrow> string \<Rightarrow> py_datetime option \<Rightarrow> py_datetime \<Rightarrow> string \<Rightarrow> ledger \<Rightarrow> bool \<times> ledger" where
  "emit_terminal n has_engine request s detail ts now broker_id l =
     (if \<not> has_engine \<or> request = [] then (False, l)
      else if s \<notin> set terminal_states \<or> s \<in> {DL_FILLED_CLOSED, DL_REPAIRED} then (False, l)
      else
        let key = idempotency_key request;
            ts = (case ts of Some t \<Rightarrow> Some t
                  | None \<Rightarrow> (case ld_decisions l key of Some d \<Rightarrow> Some (later now d) | None \<Rightarrow> Some now))
        in case build_terminal key s ts now broker_id detail of
             Inl e \<Rightarrow> (False, l) | Inr x \<Rightarrow> record_terminal n x l)"

section \<open>What the database will hold\<close>

text \<open>
  The abstract view: the outcome table once the queue has been applied. The flush and the worker
  do not change it, and an accepted outcome enters it only where there is none: the first
  outcome that is queued for a decision is the one that stays.
\<close>

definition settled :: "ledger \<Rightarrow> string \<Rightarrow> outcome option" where
  "settled l = ld_outcomes (foldl apply_statement l (ld_queue l))"

definition settled_decisions :: "ledger \<Rightarrow> string \<Rightarrow> py_datetime option" where
  "settled_decisions l = ld_decisions (foldl apply_statement l (ld_queue l))"

lemma apply_queue_update:
  "apply_statement (l\<lparr>ld_queue := q\<rparr>) x = (apply_statement l x)\<lparr>ld_queue := q\<rparr>"
  by (cases x) auto

lemma foldl_queue_update:
  "foldl apply_statement (l\<lparr>ld_queue := q\<rparr>) xs = (foldl apply_statement l xs)\<lparr>ld_queue := q\<rparr>"
  by (induction xs arbitrary: l) (simp_all add: apply_queue_update)

lemma apply_count_update:
  "apply_statement (l\<lparr>ld_outcome_count := c\<rparr>) x = (apply_statement l x)\<lparr>ld_outcome_count := c\<rparr>"
  "apply_statement (l\<lparr>ld_duplicates := c\<rparr>) x = (apply_statement l x)\<lparr>ld_duplicates := c\<rparr>"
  by (cases x; auto)+

lemma foldl_count_update:
  "foldl apply_statement (l\<lparr>ld_outcome_count := c\<rparr>) xs = (foldl apply_statement l xs)\<lparr>ld_outcome_count := c\<rparr>"
  "foldl apply_statement (l\<lparr>ld_duplicates := c\<rparr>) xs = (foldl apply_statement l xs)\<lparr>ld_duplicates := c\<rparr>"
  by (induction xs arbitrary: l) (simp_all add: apply_count_update)

lemma settled_drain [simp]: "settled (drain n l) = settled l"
proof -
  have "foldl apply_statement (drain n l) (ld_queue (drain n l))
      = (foldl apply_statement (foldl apply_statement l (take n (ld_queue l))) (List.drop n (ld_queue l)))\<lparr>ld_queue := List.drop n (ld_queue l)\<rparr>"
    by (simp add: drain_def foldl_queue_update)
  also have "foldl apply_statement (foldl apply_statement l (take n (ld_queue l))) (List.drop n (ld_queue l))
      = foldl apply_statement l (ld_queue l)"
    by (simp flip: foldl_append)
  finally show ?thesis by (simp add: settled_def)
qed

lemma settled_count [simp]:
  "settled (l\<lparr>ld_outcome_count := c\<rparr>) = settled l" "settled (l\<lparr>ld_duplicates := c\<rparr>) = settled l"
  by (simp_all add: settled_def foldl_count_update)

lemma settled_snoc:
  "settled (l\<lparr>ld_queue := ld_queue l @ [x]\<rparr>) = ld_outcomes (apply_statement (foldl apply_statement l (ld_queue l)) x)"
  by (simp add: settled_def foldl_queue_update apply_queue_update)

lemma settled_record_decision: "settled (snd (record_decision k t l)) = settled l"
  by (simp add: record_decision_def enqueue_def settled_snoc) (simp add: settled_def)

lemma settled_record_outcome:
  "settled (snd (record_outcome x l)) =
     (if fst (record_outcome x l) \<and> settled l (oc_key x) = None then (settled l)(oc_key x \<mapsto> x) else settled l)"
  by (cases "settled l (oc_key x)")
    (simp_all add: record_outcome_def enqueue_def settled_snoc Let_def, simp_all add: settled_def)

lemma settled_repair_outcome:
  "settled (snd (repair_outcome x l)) =
     (if fst (repair_outcome x l) \<and> settled l (oc_key x) \<noteq> None then (settled l)(oc_key x \<mapsto> x) else settled l)"
  by (cases "settled l (oc_key x)")
    (simp_all add: repair_outcome_def enqueue_def settled_snoc, simp_all add: settled_def)

lemma record_terminal_cases:
  obtains (refused) "fst (record_terminal n x l) = False" and "settled (snd (record_terminal n x l)) = settled l"
  | (recorded) l1 t where "settled l1 = settled l" and "ld_decisions l1 (oc_key x) = Some t"
      and "\<not> instant (oc_timestamp x) < instant t" and "ld_outcomes l1 (oc_key x) = None"
      and "record_terminal n x l = record_outcome x l1"
proof -
  define l1 where "l1 = (if ld_decisions l (oc_key x) = None then drain n l else l)"
  have s: "settled l1 = settled l" by (simp add: l1_def)
  have eq: "record_terminal n x l = (if oc_key x = [] then (False, l)
      else case ld_decisions l1 (oc_key x) of
             None \<Rightarrow> (False, l1)
           | Some t \<Rightarrow> if instant (oc_timestamp x) < instant t then (False, l1)
               else if ld_outcomes l1 (oc_key x) \<noteq> None then (False, l1\<lparr>ld_duplicates := ld_duplicates l1 + 1\<rparr>)
               else record_outcome x l1)"
    unfolding record_terminal_def l1_def Let_def by (rule refl)
  show ?thesis
  proof (cases "oc_key x = []")
    case True
    then show ?thesis using refused eq by simp
  next
    case ne: False
    show ?thesis
    proof (cases "ld_decisions l1 (oc_key x)")
      case None
      then show ?thesis using refused eq ne s by simp
    next
      case (Some t)
      then show ?thesis using refused recorded [OF s Some] eq ne s
        by (cases "instant (oc_timestamp x) < instant t"; cases "ld_outcomes l1 (oc_key x)") auto
    qed
  qed
qed

lemma settled_record_terminal:
  "settled (snd (record_terminal n x l)) =
     (if fst (record_terminal n x l) \<and> settled l (oc_key x) = None then (settled l)(oc_key x \<mapsto> x) else settled l)"
proof (cases rule: record_terminal_cases [where n = n and x = x and l = l])
  case refused
  then show ?thesis by simp
next
  case (recorded l1 t)
  then show ?thesis using settled_record_outcome [of x l1] by simp
qed

section \<open>Histories\<close>

datatype ledger_op =
    LO_Decision string py_datetime | LO_Outcome outcome | LO_Terminal nat outcome | LO_Repair outcome | LO_Drain nat

fun ledger_step :: "ledger \<Rightarrow> ledger_op \<Rightarrow> ledger" where
  "ledger_step l (LO_Decision k t) = snd (record_decision k t l)"
| "ledger_step l (LO_Outcome x) = snd (record_outcome x l)"
| "ledger_step l (LO_Terminal n x) = snd (record_terminal n x l)"
| "ledger_step l (LO_Repair x) = snd (repair_outcome x l)"
| "ledger_step l (LO_Drain n) = drain n l"

text \<open>Outcomes are never deleted: the decisions that have one only grow.\<close>

interpretation outcome_store: monotone_step ledger_step "\<lambda>l. dom (settled l)" "(\<subseteq>)"
proof
  show "dom (settled l) \<subseteq> dom (settled (ledger_step l op))" for l op
    by (cases op) (auto simp: settled_record_decision settled_record_outcome settled_record_terminal settled_repair_outcome
        split: if_splits)
qed auto

text \<open>The repairs of a decision that the queue accepts during a history.\<close>

fun repairs_of :: "ledger \<Rightarrow> string \<Rightarrow> ledger_op list \<Rightarrow> outcome list" where
  "repairs_of l k [] = []"
| "repairs_of l k (LO_Repair x # ops) =
     (if oc_key x = k \<and> fst (repair_outcome x l) then [x] else []) @ repairs_of (ledger_step l (LO_Repair x)) k ops"
| "repairs_of l k (op # ops) = repairs_of (ledger_step l op) k ops"

lemma repairs_of_other:
  "\<nexists>x. op = LO_Repair x \<Longrightarrow> repairs_of l k (op # ops) = repairs_of (ledger_step l op) k ops"
  by (cases op) simp_all

lemma settled_other:
  "\<nexists>x. op = LO_Repair x \<Longrightarrow> settled l k = Some x \<Longrightarrow> settled (ledger_step l op) k = Some x"
  by (cases op) (auto simp: settled_record_decision settled_record_outcome settled_record_terminal)

definition empty_ledger :: ledger where
  "empty_ledger = \<lparr>ld_decisions = Map.empty, ld_outcomes = Map.empty, ld_queue = [], ld_capacity = 10000,
     ld_duplicates = 0, ld_outcome_count = 0\<rparr>"

text \<open>A cancel that is recorded before the late fill: the outcome of the fill is accepted and lost.\<close>

lemma late_fill_dropped:
  assumes "settled l (oc_key x) = Some y" and "length (ld_queue l) < ld_capacity l"
  shows "fst (record_outcome x l)" and "settled (snd (record_outcome x l)) (oc_key x) = Some y"
  using assms by (simp_all add: settled_record_outcome) (simp add: record_outcome_def enqueue_def)

text \<open>Two emissions before the worker runs are both reported as new.\<close>

lemma queued_outcome_reported_twice:
  assumes "oc_key x \<noteq> []" and "ld_decisions l (oc_key x) = Some t" and "\<not> instant (oc_timestamp x) < instant t"
    and "ld_outcomes l (oc_key x) = None" and "Suc (length (ld_queue l)) < ld_capacity l"
  shows "fst (record_terminal n x l)" and "fst (record_terminal n x (snd (record_terminal n x l)))"
  using assms by (simp_all add: record_terminal_def record_outcome_def enqueue_def)

section \<open>Properties\<close>

text \<open>C31: the outcome of a decision is the first one, until it is repaired. From any state in which a row or a
  queued statement gives a decision an outcome, and after any history of decisions, outcomes, terminal
  emissions, flushes and repairs, the table will hold that same outcome, or, if repairs of that decision were
  accepted by the queue on the way, the last of those: nothing but a repair replaces an outcome, and nothing
  deletes one.\<close>

theorem first_outcome_stays:
  assumes "settled l k = Some x"
  shows "settled (run ledger_step l ops) k = Some (List.last (x # repairs_of l k ops))"
  using assms
proof (induction ops arbitrary: l x)
  case (Cons op ops)
  show ?case
  proof (cases "\<exists>y. op = LO_Repair y")
    case True
    then obtain y where y: "op = LO_Repair y" by blast
    then have "settled (ledger_step l op) k = Some (if oc_key y = k \<and> fst (repair_outcome y l) then y else x)"
      using Cons.prems by (auto simp: settled_repair_outcome)
    from Cons.IH [OF this] show ?thesis using y by simp
  next
    case False
    then show ?thesis using Cons.IH [OF settled_other [OF False Cons.prems]] repairs_of_other [OF False] by simp
  qed
qed simp

definition sample_outcome :: "f64 \<Rightarrow> outcome" where
  "sample_outcome pnl = \<lparr>oc_key = ''exp_r1'', oc_execution_id = ''7'', oc_timestamp = utc 20, oc_executed = True, oc_closed = True,
     oc_exit_reason = ''TAKE_PROFIT'', oc_pnl = pnl, oc_r_multiple = 1, oc_volume = 1, oc_lifecycle = [], oc_detail = []\<rparr>"

definition queued_ledger :: ledger where
  "queued_ledger = run ledger_step empty_ledger [LO_Decision ''exp_r1'' (utc 10), LO_Drain 1, LO_Outcome (sample_outcome (Fin 5))]"

theorem first_outcome_stays_witness:
  "settled (run ledger_step queued_ledger [LO_Terminal 3 (sample_outcome 0), LO_Drain 2]) ''exp_r1'' = Some (sample_outcome (Fin 5))
   \<and> settled (run ledger_step queued_ledger [LO_Drain 1, LO_Repair (sample_outcome (Fin 7)), LO_Outcome (sample_outcome 0)]) ''exp_r1''
     = Some (sample_outcome (Fin 7))"
proof -
  have q: "settled queued_ledger ''exp_r1'' = Some (sample_outcome (Fin 5))"
    by (simp add: queued_ledger_def empty_ledger_def record_decision_def record_outcome_def enqueue_def drain_def settled_def
        sample_outcome_def Let_def)
  have "fst (repair_outcome (sample_outcome (Fin 7)) (ledger_step queued_ledger (LO_Drain 1)))"
    by (simp add: queued_ledger_def empty_ledger_def record_decision_def record_outcome_def enqueue_def drain_def
        repair_outcome_def sample_outcome_def Let_def)
  then show ?thesis
    using first_outcome_stays [OF q, of "[LO_Terminal 3 (sample_outcome 0), LO_Drain 2]"]
      first_outcome_stays [OF q, of "[LO_Drain 1, LO_Repair (sample_outcome (Fin 7)), LO_Outcome (sample_outcome 0)]"]
    by (simp add: sample_outcome_def)
qed

lemma upper_reasons: "s \<in> set (non_trade_terminal @ degraded_terminal) \<Longrightarrow>
    exit_reason_state (upper (state_value s)) = Some s \<and> parse_state (state_value s) = Some s \<and> state_value s \<noteq> []"
  unfolding non_trade_terminal_def degraded_terminal_def by (auto; code_simp)

lemma exit_reasons_of: "map_of exit_reasons s = (if s \<in> set (non_trade_terminal @ degraded_terminal) then Some (state_value s) else None)"
  by (cases s) (simp_all add: exit_reasons_def non_trade_terminal_def degraded_terminal_def)

text \<open>The classification reads back what a terminal emission wrote, from the explicit marker or, for
  rows without one, from the exit reason alone; and an emission is built for exactly the
  terminal states that are not a realised trade.\<close>

theorem terminal_classification_roundtrip:
  "(case build_terminal key s ts now exec detail of
      Inl e \<Rightarrow> (s \<in> set terminal_states) = (s \<in> set trade_terminal)
    | Inr x \<Rightarrow> lifecycle_from_outcome (oc_executed x) (oc_closed x) (oc_exit_reason x) (oc_lifecycle x) = s
        \<and> lifecycle_from_outcome (oc_executed x) (oc_closed x) (oc_exit_reason x) [] = s)"
proof (cases "s \<in> set (non_trade_terminal @ degraded_terminal)")
  case True
  then show ?thesis
    using upper_reasons [OF True] by (auto simp: build_terminal_def exit_reasons_of lifecycle_from_outcome_def ret_def)
next
  case False
  then show ?thesis by (auto simp: build_terminal_def raise_def terminal_states_def)
qed

lemma settled_decisions_drain:
  "length (ld_queue l) \<le> n \<Longrightarrow> ld_decisions (drain n l) = settled_decisions l"
  by (simp add: drain_def settled_decisions_def)

lemma build_terminal_ok:
  "s \<in> set (non_trade_terminal @ degraded_terminal) \<Longrightarrow>
   \<exists>x. build_terminal key s (Some t) now exec detail = Inr x \<and> oc_key x = key \<and> oc_timestamp x = t"
  by (auto simp: build_terminal_def exit_reasons_of ret_def)

text \<open>The clamp of a tick-less emission reads the table before the flush. When the decision is still
  queued and the host clock is behind the decision's own timestamp, the emission finds no row,
  stamps the host clock, and is then refused by the causality check on the row that its own
  flush has just written: nothing is recorded, while the same call on the flushed table records.\<close>

theorem unflushed_decision_refuses_terminal:
  assumes "s \<in> set (non_trade_terminal @ degraded_terminal)" and "request \<noteq> []"
    and "ld_decisions l (idempotency_key request) = None" and "settled_decisions l (idempotency_key request) = Some d"
    and "length (ld_queue l) \<le> n" and "instant now < instant d"
    and "ld_outcomes (drain n l) (idempotency_key request) = None" and "0 < ld_capacity l"
  shows "fst (emit_terminal n True request s detail None now b l) = False
     \<and> settled (snd (emit_terminal n True request s detail None now b l)) = settled l
     \<and> fst (emit_terminal n True request s detail None now b (drain n l)) = True"
proof -
  let ?k = "idempotency_key request"
  have k: "?k \<noteq> []" by (simp add: idempotency_key_def)
  have st: "s \<in> set terminal_states" "s \<notin> {DL_FILLED_CLOSED, DL_REPAIRED}"
    using assms(1) by (auto simp: terminal_states_def non_trade_terminal_def degraded_terminal_def)
  have dr: "ld_decisions (drain n l) ?k = Some d" using settled_decisions_drain [OF assms(5)] assms(4) by simp
  obtain x where x: "build_terminal ?k s (Some now) now b detail = Inr x" "oc_key x = ?k" "oc_timestamp x = now"
    using build_terminal_ok [OF assms(1)] by blast
  have e1: "emit_terminal n True request s detail None now b l = (False, drain n l)"
    using st assms(2,3,6) x k dr by (simp add: emit_terminal_def record_terminal_def Let_def)
  obtain y where y: "build_terminal ?k s (Some (later now d)) now b detail = Inr y" "oc_key y = ?k" "oc_timestamp y = later now d"
    using build_terminal_ok [OF assms(1)] by blast
  have q: "ld_queue (drain n l) = []" "ld_capacity (drain n l) = ld_capacity (foldl apply_statement l (take n (ld_queue l)))"
    using assms(5) by (simp_all add: drain_def)
  have cap: "ld_capacity (apply_statement a z) = ld_capacity a" for a z by (cases z) auto
  have "ld_capacity (foldl apply_statement a xs) = ld_capacity a" for a xs
    by (induction xs arbitrary: a) (simp_all add: cap)
  then have "0 < ld_capacity (drain n l)" using q assms(8) by simp
  then have e2: "fst (emit_terminal n True request s detail None now b (drain n l))"
    using st assms(2,6,7) y k dr q(1)
    by (simp add: emit_terminal_def record_terminal_def record_outcome_def enqueue_def later_def Let_def)
  show ?thesis using e1 e2 by simp
qed

theorem unflushed_decision_refuses_terminal_witness:
  "fst (emit_terminal 5 True ''r1'' DL_NOT_DISPATCHED [] None (utc 10) []
          (snd (record_decision ''exp_r1'' (utc 20) empty_ledger))) = False
   \<and> fst (emit_terminal 5 True ''r1'' DL_NOT_DISPATCHED [] None (utc 10) []
          (drain 5 (snd (record_decision ''exp_r1'' (utc 20) empty_ledger)))) = True"
proof -
  let ?l = "snd (record_decision ''exp_r1'' (utc 20) empty_ledger)"
  have h: "DL_NOT_DISPATCHED \<in> set (non_trade_terminal @ degraded_terminal)" "''r1'' \<noteq> []"
    "ld_decisions ?l (idempotency_key ''r1'') = None" "settled_decisions ?l (idempotency_key ''r1'') = Some (utc 20)"
    "length (ld_queue ?l) \<le> 5" "instant (utc 10) < instant (utc 20)"
    "ld_outcomes (drain 5 ?l) (idempotency_key ''r1'') = None" "0 < ld_capacity ?l"
    by (simp_all add: non_trade_terminal_def record_decision_def enqueue_def empty_ledger_def idempotency_key_def
        settled_decisions_def drain_def utc_def instant_def)
  show ?thesis
    using unflushed_decision_refuses_terminal [OF h, where detail = "[]" and b = "[]"] by simp
qed

end
