(* ===== verification/PostPolicy.thy ===== *)
theory PostPolicy
  imports ExperienceGate OutcomeLedger
begin

text \<open>
  The stages between the signal policy and the dispatch of an order: \<^verbatim>\<open>application/live/tick_pipeline.py\<close>
  (the two evidence gates, the news gate, the terminal outcome of a refused entry, the freshness
  gate and the freshness stamps) with \<^verbatim>\<open>application/live_freshness.py\<close>. Hashes of the tick, of the
  features and of the model tensors are inputs; the shadow recorder and the chart overlays that
  follow do not change the proposal and are left out.
\<close>

section \<open>Freshness\<close>

datatype freshness = FRESH | STALE | UNKNOWN

record live_stamps =
  lv_max_age :: f64
  lv_last_tick :: "py_datetime option"
  lv_last_feature :: "py_datetime option"
  lv_last_inference :: "py_datetime option"
  lv_last_decision :: "py_datetime option"
  lv_monotonic_ms :: int
  lv_tick_seq :: int
  lv_feature_seq :: int
  lv_inference_seq :: int
  lv_decision_seq :: int
  lv_market_updates :: int
  lv_feature_builds :: int
  lv_inference_runs :: int
  lv_inference_failures :: int
  lv_decision_updates :: int
  lv_stale_detected :: int
  lv_raw_hash :: string
  lv_feature_hash :: string
  lv_input_hash :: string
  lv_output_hash :: string

definition stage_freshness :: "py_datetime option \<Rightarrow> f64 \<Rightarrow> py_datetime \<Rightarrow> freshness \<times> f64 option" where
  "stage_freshness stamp max_age now =
     (case stamp of
        None \<Rightarrow> (UNKNOWN, None)
      | Some t \<Rightarrow>
          let age = total_seconds (instant now - instant t); ms = Some (round_nd 1 (age * Fin 1000))
          in if age < 0 then (STALE, ms) else if max_age < age then (STALE, ms) else (FRESH, ms))"

text \<open>Each stage reads the clock for itself: \<open>clock i\<close> is the reading of stage \<open>i\<close>.\<close>

record freshness_report =
  fr_market :: "freshness \<times> f64 option"
  fr_features :: "freshness \<times> f64 option"
  fr_inference :: "freshness \<times> f64 option"
  fr_decision :: "freshness \<times> f64 option"
  fr_overall :: freshness
  fr_snapshot :: live_stamps

definition overall_of :: "freshness list \<Rightarrow> freshness" where
  "overall_of fs = (if STALE \<in> set fs then STALE else if UNKNOWN \<in> set fs then UNKNOWN else FRESH)"

definition compute_freshness :: "(nat \<Rightarrow> py_datetime) \<Rightarrow> live_stamps \<Rightarrow> freshness_report" where
  "compute_freshness clock v =
     (let m = lv_max_age v; a = stage_freshness (lv_last_tick v) m (clock 0); b = stage_freshness (lv_last_feature v) m (clock 1);
          c = stage_freshness (lv_last_inference v) m (clock 2); d = stage_freshness (lv_last_decision v) m (clock 3)
      in \<lparr>fr_market = a, fr_features = b, fr_inference = c, fr_decision = d,
          fr_overall = overall_of [fst a, fst b, fst c, fst d], fr_snapshot = v\<rparr>)"

definition build_snapshot :: "py_datetime option \<Rightarrow> live_stamps \<Rightarrow> live_stamps" where
  "build_snapshot decision_ts v = (case decision_ts of Some t \<Rightarrow> v\<lparr>lv_last_decision := Some t\<rparr> | None \<Rightarrow> v)"

definition bump_stale :: "live_stamps \<Rightarrow> live_stamps" where
  "bump_stale v = v\<lparr>lv_stale_detected := lv_stale_detected v + 1\<rparr>"

definition compute_live_freshness :: "py_datetime option \<Rightarrow> (nat \<Rightarrow> py_datetime) \<Rightarrow> live_stamps \<Rightarrow> freshness_report \<times> live_stamps" where
  "compute_live_freshness decision_ts clock v =
     (let r = compute_freshness clock (build_snapshot decision_ts v)
      in if fr_overall r = STALE then
           (r\<lparr>fr_snapshot := (fr_snapshot r)\<lparr>lv_stale_detected := lv_stale_detected v + 1\<rparr>\<rparr>, bump_stale v)
         else (r, v))"

definition gate_proposal :: "freshness_report \<Rightarrow> gated_proposal \<Rightarrow> gated_proposal \<times> bool" where
  "gate_proposal r p =
     (if fr_overall r \<noteq> STALE then (p, False)
      else (p\<lparr>p_action := NO_TRADE, p_confidence := 0, p_reason_code := ''BLOCKED_BY_STALE''\<rparr>, True))"

definition live_freshness_gate :: "py_datetime option \<Rightarrow> (nat \<Rightarrow> py_datetime) \<Rightarrow> gated_proposal \<Rightarrow> live_stamps \<Rightarrow> gated_proposal \<times> bool \<times> live_stamps" where
  "live_freshness_gate decision_ts clock p v =
     (let (r, v) = compute_live_freshness decision_ts clock v
      in if fr_overall r \<noteq> STALE then (p, False, v)
         else let (q, blocked) = gate_proposal r p in (q, blocked, bump_stale v))"

section \<open>The stamps of a tick\<close>

record tick_input =
  ti_tick_time :: py_datetime
  ti_now :: py_datetime
  ti_raw_hash :: string
  ti_feature_hash :: string
  ti_input_hash :: string
  ti_output_hash :: string

definition tick_ms :: "py_datetime \<Rightarrow> int res" where
  "tick_ms t = trunc64 (total_seconds (instant t) * Fin 1000)"

definition stamp_market :: "int \<Rightarrow> tick_input \<Rightarrow> live_stamps \<Rightarrow> live_stamps" where
  "stamp_market ms i v =
     (if lv_monotonic_ms v < ms
      then v\<lparr>lv_monotonic_ms := ms, lv_last_tick := Some (ti_tick_time i), lv_tick_seq := lv_tick_seq v + 1,
             lv_market_updates := lv_market_updates v + 1\<rparr>
      else v)"

definition stamp_features :: "tick_input \<Rightarrow> live_stamps \<Rightarrow> live_stamps" where
  "stamp_features i v =
     (let v = v\<lparr>lv_last_feature := Some (ti_now i), lv_feature_builds := lv_feature_builds v + 1\<rparr>
      in if ti_feature_hash i \<noteq> lv_feature_hash v
         then v\<lparr>lv_feature_seq := lv_feature_seq v + 1, lv_feature_hash := ti_feature_hash i\<rparr> else v)"

definition stamp_inference :: "tick_input \<Rightarrow> live_stamps \<Rightarrow> live_stamps" where
  "stamp_inference i v =
     (let v = v\<lparr>lv_last_inference := Some (ti_now i), lv_inference_runs := lv_inference_runs v + 1\<rparr>;
          v = (if ti_input_hash i \<noteq> [] \<and> ti_input_hash i \<noteq> lv_input_hash v
               then v\<lparr>lv_inference_seq := lv_inference_seq v + 1, lv_input_hash := ti_input_hash i\<rparr> else v);
          v = (if ti_output_hash i \<noteq> lv_output_hash v then v\<lparr>lv_output_hash := ti_output_hash i\<rparr> else v)
      in v\<lparr>lv_raw_hash := ti_raw_hash i\<rparr>)"

definition stamp_decision :: "tick_input \<Rightarrow> live_stamps \<Rightarrow> live_stamps" where
  "stamp_decision i v = v\<lparr>lv_last_decision := Some (ti_now i), lv_decision_updates := lv_decision_updates v + 1,
     lv_decision_seq := lv_decision_seq v + 1\<rparr>"

definition instrument :: "tick_input \<Rightarrow> live_stamps \<Rightarrow> live_stamps res" where
  "instrument i v = bindR (tick_ms (ti_tick_time i)) (\<lambda>ms.
     ret (stamp_decision i (stamp_inference i (stamp_features i (stamp_market ms i v)))))"

section \<open>The pipeline\<close>

record pipeline =
  pe_gate :: gate_state
  pe_counts :: suitability_counts
  pe_live :: live_stamps
  pe_ledger :: ledger
  pe_decision :: "experience_decision option"
  pe_suitability :: "suitability_verdict option"
  pe_news :: "news_verdict option"
  pe_signals :: "gated_proposal list"

record pipeline_config =
  pc_gate :: gate_config
  pc_suitability :: suitability_config
  pc_evaluator :: evaluator
  pc_news_enabled :: bool
  pc_news_bounds :: news_bounds

text \<open>What one tick brings: the surroundings of the two evidence evaluations, the news context (or
  the exception its reader raises), the clock of the freshness gate, the decision stamp that is
  passed to it, the number of statements the audit worker applies in a flush, and the tick.\<close>

record tick_world =
  tw_first :: surroundings
  tw_second :: surroundings
  tw_news :: "news_context res"
  tw_clock :: "nat \<Rightarrow> py_datetime"
  tw_decision_ts :: py_datetime
  tw_flush :: nat
  tw_tick :: tick_input

definition evidence_stage :: "pipeline_config \<Rightarrow> tick_world \<Rightarrow> gated_proposal \<Rightarrow> pipeline \<Rightarrow> gated_proposal res \<times> pipeline" where
  "evidence_stage c w p e =
     (case evaluate_proposal (pc_gate c) (pc_evaluator c) (tw_first w) p (pe_gate e) of
        (Inl x, g) \<Rightarrow> (Inl x, e\<lparr>pe_gate := g\<rparr>)
      | (Inr (q, d), g) \<Rightarrow>
          (case suitability_evaluate (pc_suitability c) (pc_gate c) (pc_evaluator c) (tw_second w) q g (pe_counts e) of
             (Inl x, g, k) \<Rightarrow> (Inl x, e\<lparr>pe_gate := g, pe_counts := k, pe_decision := Some d\<rparr>)
           | (Inr (r, d2, v), g, k) \<Rightarrow>
               (ret r, e\<lparr>pe_gate := g, pe_counts := k, pe_decision := Some d2, pe_suitability := Some v\<rparr>)))"

definition apply_adjustment :: "f64 \<Rightarrow> gated_proposal \<Rightarrow> gated_proposal" where
  "apply_adjustment adj p =
     (if \<not> feq adj 0 then p\<lparr>p_confidence := round_nd 4 (pmax 0 (pmin 1 (p_confidence p + adj)))\<rparr> else p)"

definition news_stage :: "pipeline_config \<Rightarrow> tick_world \<Rightarrow> gated_proposal \<Rightarrow> pipeline \<Rightarrow> gated_proposal \<times> pipeline" where
  "news_stage c w p e =
     (if \<not> pc_news_enabled c then (p, e)
      else case tw_news w of
             Inl x \<Rightarrow> (p, e\<lparr>pe_news := None\<rparr>)
           | Inr ctx \<Rightarrow>
               let v = news_evaluate (pc_news_bounds c) ctx (action_value (p_action p)) (news_strategy_direction (p_action p)) (p_confidence p) True
               in (apply_adjustment (nv_adjustment v) p, e\<lparr>pe_news := Some v\<rparr>))"

definition log_signal :: "gated_proposal \<Rightarrow> pipeline \<Rightarrow> pipeline" where
  "log_signal p e = e\<lparr>pe_signals := pe_signals e @ [p]\<rparr>"

definition refused_by_gates :: "gated_proposal \<Rightarrow> bool" where
  "refused_by_gates p \<longleftrightarrow> p_action p = NO_TRADE \<and> g_model_action p \<noteq> Some ''NO_TRADE''
     \<and> p_decision_stage p \<in> {Some experience_stage, Some suitability_stage}"

definition terminal_stage :: "tick_world \<Rightarrow> gated_proposal \<Rightarrow> pipeline \<Rightarrow> pipeline" where
  "terminal_stage w p e =
     (if refused_by_gates p then
        e\<lparr>pe_ledger := snd (emit_terminal (tw_flush w) True (p_request_id p) DL_NOT_DISPATCHED
            (''pre-dispatch gate rejection: '' @ (case g_rejection_reason p of Some r \<Rightarrow> if r = [] then p_reason_code p else r
                | None \<Rightarrow> p_reason_code p)) (Some (ti_tick_time (tw_tick w))) (ti_now (tw_tick w)) [] (pe_ledger e))\<rparr>
      else e)"

definition freshness_stage :: "tick_world \<Rightarrow> gated_proposal \<Rightarrow> pipeline \<Rightarrow> gated_proposal \<times> pipeline" where
  "freshness_stage w p e =
     (let (q, blocked, v) = live_freshness_gate (Some (tw_decision_ts w)) (tw_clock w) p (pe_live e)
      in (q, e\<lparr>pe_live := v\<rparr>))"

definition post_policy :: "pipeline_config \<Rightarrow> tick_world \<Rightarrow> gated_proposal \<Rightarrow> pipeline \<Rightarrow> gated_proposal res \<times> pipeline" where
  "post_policy c w p e =
     (case evidence_stage c w p e of
        (Inl x, e) \<Rightarrow> (Inl x, e)
      | (Inr q, e) \<Rightarrow>
          let (q, e) = news_stage c w q e; e = terminal_stage w q (log_signal q e); (q, e) = freshness_stage w q e
          in case instrument (tw_tick w) (pe_live e) of
               Inl x \<Rightarrow> (Inl x, e) | Inr v \<Rightarrow> (ret q, e\<lparr>pe_live := v\<rparr>))"

section \<open>What each stage may change\<close>

lemma unit_round: "unit_range x \<Longrightarrow> unit_range (round_nd 4 x)"
proof -
  assume x: "unit_range x"
  have "round_nd 4 (Fin 0) = Fin 0" "round_nd 4 (Fin 1) = Fin 1" by code_simp+
  then show ?thesis
    using round_nd_mono [OF unit_rangeD(1) [OF x], of 4] round_nd_mono [OF unit_rangeD(2) [OF x], of 4]
    by (simp add: unit_range_def zero_f64_Fin one_f64_Fin)
qed

lemma apply_adjustment_derived: "derived_from p (apply_adjustment adj p) \<and> p_action (apply_adjustment adj p) = p_action p"
  by (simp add: apply_adjustment_def derived_from_def order_core_def)

lemma apply_adjustment_unit: "unit_range (p_confidence p) \<Longrightarrow> unit_range (p_confidence (apply_adjustment adj p))"
  by (simp add: apply_adjustment_def unit_round unit_clamp)

lemma apply_adjustment_0 [simp]: "apply_adjustment 0 p = p"
  by (simp add: apply_adjustment_def feq_def zero_f64_Fin)

lemma news_stage_cases:
  obtains (off) "fst (news_stage c w p e) = p"
  | (on) ctx where "pc_news_enabled c" and "tw_news w = Inr ctx" and "fst (news_stage c w p e) = apply_adjustment
      (nv_adjustment (news_evaluate (pc_news_bounds c) ctx (action_value (p_action p)) (news_strategy_direction (p_action p)) (p_confidence p) True)) p"
  by (cases "pc_news_enabled c"; cases "tw_news w") (auto simp: news_stage_def Let_def)

lemma news_stage_frame [simp]:
  "pe_live (snd (news_stage c w p e)) = pe_live e" "pe_ledger (snd (news_stage c w p e)) = pe_ledger e"
  "pe_signals (snd (news_stage c w p e)) = pe_signals e"
  by (simp_all add: news_stage_def Let_def split: sum.splits)

lemma news_stage_derived: "derived_from p (fst (news_stage c w p e)) \<and> p_action (fst (news_stage c w p e)) = p_action p"
  by (cases rule: news_stage_cases [where c = c and w = w and p = p and e = e]) (simp_all add: apply_adjustment_derived)

lemma news_stage_unit: "unit_range (p_confidence p) \<Longrightarrow> unit_range (p_confidence (fst (news_stage c w p e)))"
  by (cases rule: news_stage_cases [where c = c and w = w and p = p and e = e]) (simp_all add: apply_adjustment_unit)

lemma evidence_stage_cases:
  assumes "evidence_stage c w p e = (Inr r, e')"
  obtains q d g d2 v g2 k where "evaluate_proposal (pc_gate c) (pc_evaluator c) (tw_first w) p (pe_gate e) = (Inr (q, d), g)"
    and "suitability_evaluate (pc_suitability c) (pc_gate c) (pc_evaluator c) (tw_second w) q g (pe_counts e) = (Inr (r, d2, v), g2, k)"
    and "e' = e\<lparr>pe_gate := g2, pe_counts := k, pe_decision := Some d2, pe_suitability := Some v\<rparr>"
  using assms by (auto simp: evidence_stage_def split: prod.splits sum.splits)

lemma evidence_stage_derived: "evidence_stage c w p e = (Inr r, e') \<Longrightarrow> derived_from p r"
  by (erule evidence_stage_cases) (blast intro: derived_trans evaluate_proposal_derived suitability_evaluate_derived)

lemma evidence_stage_unit: "evidence_stage c w p e = (Inr r, e') \<Longrightarrow> unit_range (p_confidence p) \<Longrightarrow> unit_range (p_confidence r)"
  by (erule evidence_stage_cases) (blast intro: evaluate_proposal_unit suitability_evaluate_unit)

lemma evidence_stage_frame:
  "evidence_stage c w p e = (Inr r, e') \<Longrightarrow> pe_live e' = pe_live e \<and> pe_ledger e' = pe_ledger e \<and> pe_signals e' = pe_signals e"
  by (erule evidence_stage_cases) simp

lemma terminal_stage_frame [simp]:
  "pe_live (terminal_stage w p e) = pe_live e" "pe_signals (terminal_stage w p e) = pe_signals e"
  "\<not> refused_by_gates p \<Longrightarrow> terminal_stage w p e = e"
  by (simp_all add: terminal_stage_def)

text \<open>The freshness gate sees the stamps as they were before this tick, with its own decision stamp.\<close>

definition stale_at :: "tick_world \<Rightarrow> live_stamps \<Rightarrow> bool" where
  "stale_at w v \<longleftrightarrow> fr_overall (compute_freshness (tw_clock w) (build_snapshot (Some (tw_decision_ts w)) v)) = STALE"

definition blocked_by_stale :: "gated_proposal \<Rightarrow> gated_proposal" where
  "blocked_by_stale p = p\<lparr>p_action := NO_TRADE, p_confidence := 0, p_reason_code := ''BLOCKED_BY_STALE''\<rparr>"

lemma freshness_stage_eq:
  "freshness_stage w p e =
     (if stale_at w (pe_live e) then (blocked_by_stale p, e\<lparr>pe_live := bump_stale (bump_stale (pe_live e))\<rparr>) else (p, e))"
  by (simp add: freshness_stage_def live_freshness_gate_def compute_live_freshness_def stale_at_def gate_proposal_def
      blocked_by_stale_def Let_def)

lemma blocked_derived [simp]: "derived_from p (blocked_by_stale p)"
  by (simp add: blocked_by_stale_def derived_from_def order_core_def)

text \<open>The pipeline taken apart: what the evidence gates and the news made of the proposal, then the end.\<close>

lemma post_policy_cases:
  assumes "post_policy c w p e = (Inr r, e')"
  obtains q e1 v where "evidence_stage c w p e = (Inr q, e1)"
    and "pe_signals e' = pe_signals e @ [fst (news_stage c w q e1)]"
    and "r = (if stale_at w (pe_live e) then blocked_by_stale (fst (news_stage c w q e1)) else fst (news_stage c w q e1))"
    and "instrument (tw_tick w) (if stale_at w (pe_live e) then bump_stale (bump_stale (pe_live e)) else pe_live e) = Inr v"
    and "pe_live e' = v"
    and "\<not> refused_by_gates (fst (news_stage c w q e1)) \<Longrightarrow> pe_ledger e' = pe_ledger e"
proof -
  obtain q e1 where ev: "evidence_stage c w p e = (Inr q, e1)"
    using assms by (auto simp: post_policy_def split: prod.splits sum.splits)
  obtain n e2 where n: "news_stage c w q e1 = (n, e2)" by (cases "news_stage c w q e1")
  have f: "pe_live e2 = pe_live e" "pe_ledger e2 = pe_ledger e" "pe_signals e2 = pe_signals e"
    using n evidence_stage_frame [OF ev] news_stage_frame [of c w q e1] by simp_all
  have fn: "fst (news_stage c w q e1) = n" by (simp add: n)
  show ?thesis
  proof (rule that [OF ev, unfolded fn])
    show "pe_signals e' = pe_signals e @ [n]"
      and "r = (if stale_at w (pe_live e) then blocked_by_stale n else n)"
      and "instrument (tw_tick w) (if stale_at w (pe_live e) then bump_stale (bump_stale (pe_live e)) else pe_live e) = Inr (pe_live e')"
      and "\<not> refused_by_gates n \<Longrightarrow> pe_ledger e' = pe_ledger e"
      using assms f by (auto simp: post_policy_def ev n log_signal_def freshness_stage_eq ret_def Let_def split: sum.splits if_splits)
  qed simp
qed

lemma instrument_Inr:
  assumes "instrument i v = Inr v'"
  obtains ms where "tick_ms (ti_tick_time i) = Inr ms"
    and "lv_last_tick v' = (if lv_monotonic_ms v < ms then Some (ti_tick_time i) else lv_last_tick v)"
    and "lv_max_age v' = lv_max_age v" and "lv_stale_detected v' = lv_stale_detected v"
  using assms by (auto simp: instrument_def bindR_eq_Inr stamp_decision_def stamp_inference_def stamp_features_def
      stamp_market_def Let_def)

lemma build_snapshot_simps [simp]:
  "lv_last_tick (build_snapshot d v) = lv_last_tick v" "lv_max_age (build_snapshot d v) = lv_max_age v"
  by (simp_all add: build_snapshot_def split: option.splits)

lemma total_seconds_neg: "us < 0 \<Longrightarrow> total_seconds us < 0"
proof -
  assume "us < 0"
  then have "total_seconds us \<le> total_seconds (- 1)" by (intro total_seconds_mono) simp
  moreover have "total_seconds (- 1) < 0" by code_simp
  ultimately show ?thesis by (rule f64_le_less_trans)
qed

lemma stale_marketI:
  assumes "lv_last_tick v = Some t"
    and "instant (tw_clock w 0) < instant t \<or> lv_max_age v < total_seconds (instant (tw_clock w 0) - instant t)"
  shows "stale_at w v"
proof -
  have "fst (stage_freshness (Some t) (lv_max_age v) (tw_clock w 0)) = STALE"
    using assms(2) total_seconds_neg [of "instant (tw_clock w 0) - instant t"]
    by (auto simp: stage_freshness_def Let_def)
  then show ?thesis
    using assms(1) by (simp add: stale_at_def compute_freshness_def overall_of_def Let_def)
qed

text \<open>The pipeline returns a proposal for every confidence in the unit interval.\<close>

lemma suitability_evaluate_returns:
  assumes "unit_range (p_confidence p)"
  shows "\<exists>r d v s' k'. suitability_evaluate c g E u p s k = (Inr (r, d, v), s', k')"
proof -
  obtain q d s1 where "evaluate_proposal g E u p s = (Inr (q, d), s1)"
    using evaluate_proposal_returns [OF assms, of g E u s] by (metis prod.collapse)
  then show ?thesis
    by (cases "xd_action d") (simp_all add: suitability_evaluate_def ret_def split: prod.splits)
qed

lemma post_policy_returns:
  assumes "unit_range (p_confidence p)" and "tick_ms (ti_tick_time (tw_tick w)) = Inr ms"
  shows "\<exists>r e'. post_policy c w p e = (Inr r, e')"
proof -
  obtain q d g where 1: "evaluate_proposal (pc_gate c) (pc_evaluator c) (tw_first w) p (pe_gate e) = (Inr (q, d), g)"
    using evaluate_proposal_returns [OF assms(1)] by (metis prod.collapse)
  obtain r d2 v g2 k where 2: "suitability_evaluate (pc_suitability c) (pc_gate c) (pc_evaluator c) (tw_second w) q g (pe_counts e) = (Inr (r, d2, v), g2, k)"
    using suitability_evaluate_returns [OF evaluate_proposal_unit [OF 1 assms(1)]] by blast
  have "instrument (tw_tick w) v \<noteq> Inl x" for v x
    using assms(2) by (simp add: instrument_def ret_def)
  then show ?thesis
    using 1 2 by (auto simp: post_policy_def evidence_stage_def ret_def Let_def split: prod.splits sum.splits)
qed

section \<open>Properties\<close>

text \<open>C32: Between the policy and the dispatch a proposal can only lose: whatever the evidence, the news
  and the stamps say, the action that leaves is the one that came in or NO_TRADE, every price,
  volume, ticket and identity is unchanged, and the confidence stays in the unit interval.\<close>

theorem post_policy_only_downgrades:
  assumes "fst (post_policy c w p e) = Inr r" and "unit_range (p_confidence p)"
  shows "order_core r = order_core p \<and> p_action r \<in> {p_action p, NO_TRADE} \<and> unit_range (p_confidence r)"
proof -
  obtain e' where "post_policy c w p e = (Inr r, e')" using assms(1) by (cases "post_policy c w p e") simp
  then show ?thesis
  proof (cases rule: post_policy_cases)
    case (1 q e1 v)
    have "derived_from p r"
      using evidence_stage_derived [OF 1(1)] news_stage_derived [of q c w e1] 1(3) derived_trans blocked_derived by metis
    moreover have "unit_range (p_confidence r)"
      using news_stage_unit [OF evidence_stage_unit [OF 1(1) assms(2)], of c w e1] 1(3)
      by (simp add: blocked_by_stale_def unit_0)
    ultimately show ?thesis by (auto simp: derived_from_def)
  qed
qed

text \<open>C33: The market stamp of the freshness gate is the broker time of the previous tick. After a tick that
  advanced it, the next proposal is blocked whenever the host clock is behind that broker time
  by any amount, or the pause between the ticks exceeds the maximum age, however fresh the new
  tick, its features and its inference are.\<close>

theorem previous_tick_stamp_decides:
  assumes "post_policy c w1 p1 e = (Inr r1, e1)" and "tick_ms (ti_tick_time (tw_tick w1)) = Inr ms"
    and "lv_monotonic_ms (pe_live e) < ms"
    and "instant (tw_clock w2 0) < instant (ti_tick_time (tw_tick w1))
         \<or> lv_max_age (pe_live e) < total_seconds (instant (tw_clock w2 0) - instant (ti_tick_time (tw_tick w1)))"
    and "fst (post_policy c w2 p2 e1) = Inr r2"
  shows "p_action r2 = NO_TRADE \<and> p_confidence r2 = 0"
proof -
  have "lv_last_tick (pe_live e1) = Some (ti_tick_time (tw_tick w1)) \<and> lv_max_age (pe_live e1) = lv_max_age (pe_live e)"
    using assms(1)
  proof (cases rule: post_policy_cases)
    case (1 q e' v)
    obtain ms' where "tick_ms (ti_tick_time (tw_tick w1)) = Inr ms'"
      and "lv_last_tick v = (if lv_monotonic_ms (if stale_at w1 (pe_live e) then bump_stale (bump_stale (pe_live e)) else pe_live e) < ms'
         then Some (ti_tick_time (tw_tick w1)) else lv_last_tick (if stale_at w1 (pe_live e) then bump_stale (bump_stale (pe_live e)) else pe_live e))"
      and "lv_max_age v = lv_max_age (if stale_at w1 (pe_live e) then bump_stale (bump_stale (pe_live e)) else pe_live e)"
      using 1(4) by (rule instrument_Inr)
    then show ?thesis using assms(2,3) 1(5) by (simp add: bump_stale_def)
  qed
  then have st: "stale_at w2 (pe_live e1)" using assms(4) by (intro stale_marketI) auto
  obtain e2 where "post_policy c w2 p2 e1 = (Inr r2, e2)" using assms(5) by (cases "post_policy c w2 p2 e1") simp
  then show ?thesis
    by (cases rule: post_policy_cases) (use st in \<open>simp add: blocked_by_stale_def\<close>)
qed

text \<open>An entry that the freshness gate blocks leaves no outcome. The signal has been logged with its
  original action, the terminal stage has already run and saw an admitted entry, so the ledger
  is unchanged, and the stale counter is incremented twice.\<close>

theorem stale_entry_leaves_no_outcome:
  assumes "post_policy c w p e = (Inr r, e')" and "stale_at w (pe_live e)"
    and "pe_signals e' = pe_signals e @ [s]" and "p_action s \<noteq> NO_TRADE"
  shows "p_action r = NO_TRADE \<and> p_action s = p_action p \<and> pe_ledger e' = pe_ledger e
     \<and> lv_stale_detected (pe_live e') = lv_stale_detected (pe_live e) + 2"
  using assms(1)
proof (cases rule: post_policy_cases)
  case (1 q e1 v)
  have s: "fst (news_stage c w q e1) = s" using 1(2) assms(3) by simp
  then have "\<not> refused_by_gates (fst (news_stage c w q e1))" using assms(4) by (simp add: refused_by_gates_def)
  then have led: "pe_ledger e' = pe_ledger e" by (rule 1(6))
  have "derived_from p s"
    using evidence_stage_derived [OF 1(1)] news_stage_derived [of q c w e1] s derived_trans by metis
  then have act: "p_action s = p_action p" using assms(4) by (simp add: derived_from_def)
  have "lv_stale_detected v = lv_stale_detected (bump_stale (bump_stale (pe_live e)))"
    using 1(4) assms(2) by (auto elim: instrument_Inr)
  then have "lv_stale_detected (pe_live e') = lv_stale_detected (pe_live e) + 2"
    using 1(5) by (simp add: bump_stale_def)
  moreover have "p_action r = NO_TRADE" using 1(3) assms(2) by (simp add: blocked_by_stale_def)
  ultimately show ?thesis using led act by simp
qed

section \<open>Concrete runs\<close>

definition sample_stamps :: live_stamps where
  "sample_stamps = \<lparr>lv_max_age = Fin 30, lv_last_tick = None, lv_last_feature = None, lv_last_inference = None,
     lv_last_decision = None, lv_monotonic_ms = 0, lv_tick_seq = 0, lv_feature_seq = 0, lv_inference_seq = 0,
     lv_decision_seq = 0, lv_market_updates = 0, lv_feature_builds = 0, lv_inference_runs = 0,
     lv_inference_failures = 0, lv_decision_updates = 0, lv_stale_detected = 0, lv_raw_hash = [],
     lv_feature_hash = [], lv_input_hash = [], lv_output_hash = []\<rparr>"

definition sample_pipeline :: pipeline where
  "sample_pipeline = \<lparr>pe_gate = initial_gate, pe_counts = zero_counts, pe_live = sample_stamps,
     pe_ledger = empty_ledger, pe_decision = None, pe_suitability = None, pe_news = None, pe_signals = []\<rparr>"

definition sample_pipeline_config :: pipeline_config where
  "sample_pipeline_config = \<lparr>pc_gate = sample_gate, pc_suitability = default_suitability,
     pc_evaluator = sample_evaluator, pc_news_enabled = False, pc_news_bounds = default_news_bounds\<rparr>"

text \<open>A tick at a broker time, handled at a host time, with no experience of the family.\<close>

definition sample_world :: "int \<Rightarrow> int \<Rightarrow> tick_world" where
  "sample_world broker host = \<lparr>tw_first = sample_surroundings (Fin 1) (Inl ValueError),
     tw_second = sample_surroundings (Fin 1) (Inl ValueError), tw_news = Inl ValueError, tw_clock = (\<lambda>i. utc host),
     tw_decision_ts = utc host, tw_flush = 0,
     tw_tick = \<lparr>ti_tick_time = utc broker, ti_now = utc host, ti_raw_hash = ''r'', ti_feature_hash = ''f'',
       ti_input_hash = ''i'', ti_output_hash = ''o''\<rparr>\<rparr>"

lemma sample_refresh:
  "refresh_allowed sample_gate (Fin 1) 0 = ret True" "refresh_allowed sample_gate (Fin 1) (Fin 1) = ret False"
  by code_simp+

definition sample_pipeline_after :: "gated_proposal \<Rightarrow> pipeline" where
  "sample_pipeline_after p = sample_pipeline\<lparr>
     pe_gate := initial_gate\<lparr>gs_last_refresh := Fin 1, gs_failures := 1, gs_insufficient := 1\<rparr>,
     pe_decision := Some (insufficient (p_confidence p) ''a'' ''NO_RELEVANT_EXPERIENCE''),
     pe_suitability := Some \<lparr>sv_tier = ST_INSUFFICIENT, sv_score = 0, sv_qualifies = True, sv_adjusted = p_confidence p,
       sv_reason = ''NO_RELEVANT_EXPERIENCE'', sv_strategy = ''a'', sv_lifecycle = LC_DISCOVERED\<rparr>\<rparr>"

text \<open>The sample pipeline with other stamps, on a gated entry: the retrieval fails, so it passes.\<close>

definition sample_with :: "live_stamps \<Rightarrow> pipeline" where
  "sample_with v = sample_pipeline\<lparr>pe_live := v\<rparr>"

lemma sample_evidence:
  assumes "unit_range (p_confidence p)" and "p_action p \<in> set gated_actions"
  shows "evidence_stage sample_pipeline_config (sample_world b h) p (sample_with v) = (ret p, (sample_pipeline_after p)\<lparr>pe_live := v\<rparr>)"
proof -
  let ?u = "sample_surroundings (Fin 1) (Inl ValueError)"
  have en: "gc_enabled sample_gate" by (simp add: sample_gate_def)
  have su: "su_family ?u q = Inr ''a''" "su_now ?u = Fin 1" "su_retrieve ?u ''a'' = Inl ValueError" "su_record ?u = Inr ()" for q
    by (simp_all add: sample_surroundings_def ret_def)
  have 1: "evaluate_proposal sample_gate sample_evaluator ?u p initial_gate
      = (ret (p, insufficient (p_confidence p) ''strat_unavailable'' ''EXPERIENCE_EVALUATION_FAILED''),
         initial_gate\<lparr>gs_last_refresh := Fin 1, gs_failures := 1\<rparr>)"
    using pass_unchanged_total [OF assms(1)] assms(2) en su sample_refresh(1)
    by (simp add: evaluate_proposal_def evaluate_internal_def get_score_def stale_score_def refresh_score_def initial_gate_def ret_def)
  have 2: "evaluate_proposal sample_gate sample_evaluator ?u p (initial_gate\<lparr>gs_last_refresh := Fin 1, gs_failures := 1\<rparr>)
      = (ret (p, insufficient (p_confidence p) ''a'' ''NO_RELEVANT_EXPERIENCE''),
         initial_gate\<lparr>gs_last_refresh := Fin 1, gs_failures := 1, gs_insufficient := 1\<rparr>)"
    using pass_unchanged_total [OF assms(1)] assms(2) en su sample_refresh(2)
    by (simp add: evaluate_proposal_def evaluate_internal_def get_score_def stale_score_def initial_gate_def
        empty_registry_def decide_on_evidence_def ret_def)
  show ?thesis
    using 1 2 by (simp add: evidence_stage_def suitability_evaluate_def sample_pipeline_config_def sample_world_def
        sample_with_def sample_pipeline_def sample_pipeline_after_def ret_def insufficient_def)
qed

lemma stage_of_now: "Fin 0 \<le> m \<Longrightarrow> fst (stage_freshness (Some t) m t) = FRESH"
  by (cases m) (simp_all add: stage_freshness_def zero_f64_Fin)

lemma fresh_startup:
  assumes "lv_last_tick v = None" and "lv_last_feature v = None" and "lv_last_inference v = None"
    and "tw_clock w 3 = tw_decision_ts w" and "Fin 0 \<le> lv_max_age v"
  shows "\<not> stale_at w v"
proof -
  have "fst (stage_freshness None m x) = UNKNOWN" for m x by (simp add: stage_freshness_def)
  then show ?thesis
    using assms stage_of_now [OF assms(5)]
    by (simp add: stale_at_def compute_freshness_def build_snapshot_def overall_of_def Let_def)
qed

lemma sample_stage_fresh:
  "tick_ms (utc 1000000) = ret 1000" "tick_ms (utc 2000000) = ret 2000" "tick_ms (utc 3000000) = ret 3000"
  by code_simp+

lemma sample_tick_ms: "tick_ms (utc b) = ret ms \<Longrightarrow> tick_ms (ti_tick_time (tw_tick (sample_world b h))) = Inr ms"
  by (simp add: sample_world_def ret_def)

lemma sample_post_policy:
  assumes "unit_range (p_confidence p)" and "p_action p \<in> set gated_actions" and "tick_ms (utc b) = ret ms"
  obtains e' where "post_policy sample_pipeline_config (sample_world b h) p (sample_with v)
      = (Inr (if stale_at (sample_world b h) v then blocked_by_stale p else p), e')"
    and "pe_signals e' = [p]"
proof -
  obtain r e' where pp: "post_policy sample_pipeline_config (sample_world b h) p (sample_with v) = (Inr r, e')"
    using post_policy_returns [OF assms(1) sample_tick_ms [OF assms(3)]] by blast
  have ns: "news_stage sample_pipeline_config (sample_world b h) q e = (q, e)" for q e
    by (simp add: news_stage_def sample_pipeline_config_def)
  have s: "pe_live (sample_with v) = v" "pe_signals (sample_with v) = []"
    by (simp_all add: sample_with_def sample_pipeline_def)
  show ?thesis
    using pp
  proof (cases rule: post_policy_cases)
    case (1 q e1 v')
    have "q = p" using 1(1) sample_evidence [OF assms(1,2), of b h v] by (simp add: ret_def)
    then show ?thesis using that pp 1(2,3) ns s by simp
  qed
qed

lemma sample_entry_simps [simp]:
  "p_action (sample_entry a x) = a" "p_confidence (sample_entry a x) = x"
  by (simp_all add: sample_entry_def)

lemma half_unit: "unit_range (Fin (1 / 2))"
  by (simp add: unit_range_def zero_f64_Fin one_f64_Fin)

lemma buy_gated: "A_BUY \<in> set gated_actions"
  by (simp add: gated_actions_def)

theorem post_policy_only_downgrades_witness:
  "order_core (sample_entry A_BUY (Fin (1 / 2))) = order_core (sample_entry A_BUY (Fin (1 / 2)))
   \<and> p_action (sample_entry A_BUY (Fin (1 / 2))) \<in> {A_BUY, NO_TRADE} \<and> unit_range (Fin (1 / 2))"
proof -
  have ns: "\<not> stale_at (sample_world 1000000 1000000) sample_stamps"
    by (rule fresh_startup) (simp_all add: sample_world_def sample_stamps_def)
  have u: "unit_range (p_confidence (sample_entry A_BUY (Fin (1 / 2))))" by (simp add: half_unit)
  have b: "p_action (sample_entry A_BUY (Fin (1 / 2))) \<in> set gated_actions" by (simp add: buy_gated)
  obtain e' where "post_policy sample_pipeline_config (sample_world 1000000 1000000) (sample_entry A_BUY (Fin (1 / 2))) (sample_with sample_stamps)
      = (Inr (if stale_at (sample_world 1000000 1000000) sample_stamps then blocked_by_stale (sample_entry A_BUY (Fin (1 / 2)))
              else sample_entry A_BUY (Fin (1 / 2))), e')"
    by (rule sample_post_policy [OF u b sample_stage_fresh(1), where h = 1000000 and v = sample_stamps])
  with ns have "fst (post_policy sample_pipeline_config (sample_world 1000000 1000000) (sample_entry A_BUY (Fin (1 / 2))) (sample_with sample_stamps))
      = Inr (sample_entry A_BUY (Fin (1 / 2)))" by simp
  from post_policy_only_downgrades [OF this u] show ?thesis by simp
qed

theorem previous_tick_stamp_decides_witness:
  "\<exists>r1 e1 r2. post_policy sample_pipeline_config (sample_world 2000000 1000000) (sample_entry A_BUY (Fin (1 / 2))) (sample_with sample_stamps) = (Inr r1, e1)
     \<and> fst (post_policy sample_pipeline_config (sample_world 3000000 1500000) (sample_entry A_BUY (Fin (1 / 2))) e1) = Inr r2
     \<and> p_action r2 = NO_TRADE \<and> p_confidence r2 = 0"
proof -
  let ?p = "sample_entry A_BUY (Fin (1 / 2))" and ?w1 = "sample_world 2000000 1000000" and ?w2 = "sample_world 3000000 1500000"
  have u: "unit_range (p_confidence ?p)" by (simp add: half_unit)
  obtain r1 e1 where 1: "post_policy sample_pipeline_config ?w1 ?p (sample_with sample_stamps) = (Inr r1, e1)"
    using post_policy_returns [OF u sample_tick_ms [OF sample_stage_fresh(2)]] by blast
  obtain r2 e2 where 2: "post_policy sample_pipeline_config ?w2 ?p e1 = (Inr r2, e2)"
    using post_policy_returns [OF u sample_tick_ms [OF sample_stage_fresh(3)]] by blast
  have ms: "tick_ms (ti_tick_time (tw_tick ?w1)) = Inr 2000" by (rule sample_tick_ms [OF sample_stage_fresh(2)])
  have lt: "lv_monotonic_ms (pe_live (sample_with sample_stamps)) < 2000" by (simp add: sample_with_def sample_stamps_def)
  have behind: "instant (tw_clock ?w2 0) < instant (ti_tick_time (tw_tick ?w1))
      \<or> lv_max_age (pe_live (sample_with sample_stamps)) < total_seconds (instant (tw_clock ?w2 0) - instant (ti_tick_time (tw_tick ?w1)))"
    by (simp add: sample_world_def)
  have f: "fst (post_policy sample_pipeline_config ?w2 ?p e1) = Inr r2" using 2 by simp
  show ?thesis using 1 f previous_tick_stamp_decides [OF 1 ms lt behind f] by blast
qed

theorem stale_entry_leaves_no_outcome_witness:
  "\<exists>r e'. post_policy sample_pipeline_config (sample_world 1000000 1000000) (sample_entry A_BUY (Fin (1 / 2)))
        (sample_with (sample_stamps\<lparr>lv_last_tick := Some (utc 5000000)\<rparr>)) = (Inr r, e')
     \<and> p_action r = NO_TRADE \<and> pe_ledger e' = empty_ledger \<and> lv_stale_detected (pe_live e') = 2"
proof -
  let ?v = "sample_stamps\<lparr>lv_last_tick := Some (utc 5000000)\<rparr>" and ?p = "sample_entry A_BUY (Fin (1 / 2))"
  have u: "unit_range (p_confidence ?p)" by (simp add: half_unit)
  have b: "p_action ?p \<in> set gated_actions" by (simp add: buy_gated)
  have st: "stale_at (sample_world 1000000 1000000) (pe_live (sample_with ?v))"
    by (rule stale_marketI [of _ "utc 5000000"]) (simp_all add: sample_with_def sample_world_def)
  obtain e' where pp: "post_policy sample_pipeline_config (sample_world 1000000 1000000) ?p (sample_with ?v)
      = (Inr (if stale_at (sample_world 1000000 1000000) ?v then blocked_by_stale ?p else ?p), e')"
    and sg: "pe_signals e' = [?p]"
    by (rule sample_post_policy [OF u b sample_stage_fresh(1), where h = 1000000 and v = ?v])
  have s: "pe_signals e' = pe_signals (sample_with ?v) @ [?p]" "p_action ?p \<noteq> NO_TRADE"
    using sg by (simp_all add: sample_with_def sample_pipeline_def)
  from stale_entry_leaves_no_outcome [OF pp st s] pp show ?thesis
    by (auto simp: sample_with_def sample_pipeline_def sample_stamps_def)
qed

section \<open>The news\<close>

text \<open>News never decides a trade. For valid bounds and a valid context the news stage keeps the action
  and every order field, moves the confidence by an adjustment within the configured boost and
  penalty, and moves it up only for an entry whose side is the net direction of the news.\<close>

theorem news_influence_bounded:
  assumes "mk_news_bounds (pc_news_bounds c) = ret (pc_news_bounds c)" and "unit_range (p_confidence p)"
    and "\<And>ctx. tw_news w = Inr ctx \<Longrightarrow> mk_news_context ctx = ret ctx"
  shows "\<exists>adj. order_core (fst (news_stage c w p e)) = order_core p \<and> p_action (fst (news_stage c w p e)) = p_action p
     \<and> fst (news_stage c w p e) = apply_adjustment adj p \<and> in_bounds (pc_news_bounds c) adj
     \<and> (0 < adj \<longrightarrow> (\<exists>ctx. tw_news w = Inr ctx \<and> nc_available ctx \<and> \<not> nc_stale ctx \<and> net_direction ctx = news_strategy_direction (p_action p)
           \<and> p_action p \<in> set (buy_actions @ sell_actions)))"
proof -
  have core: "order_core (apply_adjustment adj p) = order_core p \<and> p_action (apply_adjustment adj p) = p_action p" for adj
    using apply_adjustment_derived [of p adj] by (simp add: derived_from_def)
  show ?thesis
  proof (cases rule: news_stage_cases [where c = c and w = w and p = p and e = e])
    case off
    then show ?thesis
      using in_bounds_0 [OF assms(1)] by (intro exI [of _ 0]) simp
  next
    case (on ctx)
    let ?adj = "nv_adjustment (news_evaluate (pc_news_bounds c) ctx (action_value (p_action p)) (news_strategy_direction (p_action p)) (p_confidence p) True)"
    have m: "mk_news_context ctx = ret ctx" by (rule assms(3) [OF on(2)])
    have b: "in_bounds (pc_news_bounds c) ?adj" by (rule verdict_within_bounds [OF assms(1) m assms(2)])
    have up: "net_direction ctx = news_strategy_direction (p_action p) \<and> nc_available ctx \<and> \<not> nc_stale ctx
        \<and> p_action p \<in> set (buy_actions @ sell_actions)" if "0 < ?adj"
      using boost_needs_alignment [OF assms(1) m assms(2) that] gated_iff_entry [of "p_action p"] by simp
    show ?thesis
      by (rule exI [of _ ?adj]) (use core b up on in auto)
  qed
qed

definition breaking_news :: news_context where
  "breaking_news = \<lparr>nc_available = True, nc_state = NS_BREAKING, nc_xauusd_relevance = 1, nc_usd_relevance = 1,
     nc_bullish = 0, nc_bearish = 1, nc_confidence = 1, nc_conflict = 0, nc_freshness = 1, nc_stale = False\<rparr>"

definition news_pipeline_config :: pipeline_config where
  "news_pipeline_config = sample_pipeline_config\<lparr>pc_news_enabled := True\<rparr>"

definition news_world :: "news_context \<Rightarrow> tick_world" where
  "news_world ctx = (sample_world 1000000 1000000)\<lparr>tw_news := Inr ctx\<rparr>"

lemma default_news_bounds_ok: "mk_news_bounds default_news_bounds = ret default_news_bounds"
  by code_simp

lemma breaking_news_ok: "mk_news_context breaking_news = ret breaking_news"
  by code_simp

theorem news_influence_bounded_witness:
  "\<exists>adj. in_bounds default_news_bounds adj \<and> fst (news_stage news_pipeline_config (news_world breaking_news)
      (sample_entry A_BUY (Fin (1 / 2))) sample_pipeline) = apply_adjustment adj (sample_entry A_BUY (Fin (1 / 2)))"
proof -
  have b: "mk_news_bounds (pc_news_bounds news_pipeline_config) = ret (pc_news_bounds news_pipeline_config)"
    using default_news_bounds_ok by (simp add: news_pipeline_config_def sample_pipeline_config_def)
  have u: "unit_range (p_confidence (sample_entry A_BUY (Fin (1 / 2))))" by (simp add: half_unit)
  have m: "mk_news_context ctx = ret ctx" if "tw_news (news_world breaking_news) = Inr ctx" for ctx
    using that breaking_news_ok by (simp add: news_world_def)
  from news_influence_bounded [where w = "news_world breaking_news" and e = sample_pipeline, OF b u m] show ?thesis
    by (auto simp: news_pipeline_config_def sample_pipeline_config_def)
qed

text \<open>A blocked verdict blocks nothing. For an entry in the window of a breaking or high-impact event
  with confident news, the gate marks a weak entry as blocked and the stage keeps the proposal,
  its action and its confidence exactly as they were.\<close>

theorem breaking_news_leaves_entry:
  assumes "pc_news_enabled c" and "tw_news w = Inr ctx" and "nc_available ctx" and "\<not> nc_stale ctx"
    and "nc_state ctx \<in> set (nb_blocked (pc_news_bounds c))" and "fl (35 / 100) \<le> nc_confidence ctx"
    and "p_action p \<in> set (buy_actions @ sell_actions)" and "\<not> relevance_of ctx < fl (1 / 4)"
    and "p_confidence p < fl (6 / 10)"
  shows "\<exists>v. pe_news (snd (news_stage c w p e)) = Some v \<and> nv_blocked v \<and> nv_decision v = GD_CAUTION
     \<and> fst (news_stage c w p e) = p"
proof -
  have a: "action_value (p_action p) \<in> set entry_strings" using assms(7) by (simp only: gated_iff_entry)
  then have "action_value (p_action p) \<notin> set protection_actions"
    by (auto simp: protection_actions_def entry_strings_def)
  then show ?thesis
    using assms a by (simp add: news_stage_def news_evaluate_def fresh_verdict_def ignored_def Let_def)
qed

theorem breaking_news_leaves_entry_witness:
  "\<exists>v. pe_news (snd (news_stage news_pipeline_config (news_world breaking_news) (sample_entry A_BUY (Fin (1 / 2))) sample_pipeline)) = Some v
     \<and> nv_blocked v \<and> nv_decision v = GD_CAUTION
     \<and> fst (news_stage news_pipeline_config (news_world breaking_news) (sample_entry A_BUY (Fin (1 / 2))) sample_pipeline) = sample_entry A_BUY (Fin (1 / 2))"
proof (rule breaking_news_leaves_entry)
  show "fl (35 / 100) \<le> nc_confidence breaking_news" "\<not> relevance_of breaking_news < fl (1 / 4)"
    "p_confidence (sample_entry A_BUY (Fin (1 / 2))) < fl (6 / 10)"
    by code_simp+
qed (simp_all add: news_pipeline_config_def sample_pipeline_config_def news_world_def breaking_news_def default_news_bounds_def buy_actions_def)

end
