(* ===== verification/PositionTracker.thy ===== *)
theory PositionTracker
  imports PyTime Domain
begin

text \<open>
  \<^verbatim>\<open>execution/position_tracker.py\<close>: what is observed of an open position from tick to tick. The
  nineteen dictionaries of the code are one function from the ticket to a record of optional
  entries: an entry is None where its dictionary has no key. The order in which the position
  loop of \<^verbatim>\<open>order_manager.py\<close> calls the operations is \<open>track_position\<close>.
\<close>

section \<open>The entries of a ticket\<close>

record lsf_state =
  lsf_seen_ticks :: f64
  lsf_desync :: f64
  lsf_last_price :: f64
  lsf_last_profit :: f64
  lsf_last_net :: f64
  lsf_last_sl :: f64
  lsf_last_tp :: f64
  lsf_modify_intent :: f64
  lsf_be_applied :: f64
  lsf_trail_applied :: f64
  lsf_shocks :: f64

record entry_probs =
  ep_buy :: f64
  ep_sell :: f64
  ep_no_trade :: f64

datatype reversal_event =
    ModelReversal py_datetime f64 f64 f64 f64 f64
  | RegimeReversal py_datetime string string

record ticket_track =
  tt_last_tick_time :: "py_datetime option"
  tt_in_profit :: "f64 option"
  tt_in_drawdown :: "f64 option"
  tt_peak_profit :: "f64 option"
  tt_peak_drawdown :: "f64 option"
  tt_last_tick :: "tick_data option"
  tt_mfe :: "f64 option"
  tt_mae :: "f64 option"
  tt_time_to_mfe :: "f64 option"
  tt_time_to_mae :: "f64 option"
  tt_lsf :: "lsf_state option"
  tt_last_seen :: "py_datetime option"
  tt_stagnation :: "int option"
  tt_adverse :: "int option"
  tt_favorable :: "int option"
  tt_last_price :: "f64 option"
  tt_reversals :: "reversal_event list option"
  tt_entry_probs :: "entry_probs option option"
  tt_entry_regime :: "string option"

definition no_track :: ticket_track where
  "no_track = \<lparr>tt_last_tick_time = None, tt_in_profit = None, tt_in_drawdown = None, tt_peak_profit = None,
     tt_peak_drawdown = None, tt_last_tick = None, tt_mfe = None, tt_mae = None, tt_time_to_mfe = None,
     tt_time_to_mae = None, tt_lsf = None, tt_last_seen = None, tt_stagnation = None, tt_adverse = None,
     tt_favorable = None, tt_last_price = None, tt_reversals = None, tt_entry_probs = None, tt_entry_regime = None\<rparr>"

type_synonym tracker = "int \<Rightarrow> ticket_track"

section \<open>Durations and bootstrap\<close>

text \<open>The block of the position loop for a ticket seen for the first time.\<close>

definition first_sight :: "py_datetime \<Rightarrow> ticket_track \<Rightarrow> ticket_track" where
  "first_sight now t = t\<lparr>tt_last_tick_time := Some now, tt_in_profit := Some 0, tt_in_drawdown := Some 0,
     tt_peak_profit := Some 0, tt_peak_drawdown := Some 0\<rparr>"

definition setdefault0 :: "f64 option \<Rightarrow> f64 option" where
  "setdefault0 x = (case x of None \<Rightarrow> Some 0 | Some v \<Rightarrow> Some v)"

definition elapsed_since :: "py_datetime \<Rightarrow> py_datetime \<Rightarrow> f64" where
  "elapsed_since now last_t = (let d = total_seconds (instant now - instant last_t) in if d < 0 then 0 else d)"

definition record_tick_durations :: "py_datetime \<Rightarrow> tick_data \<Rightarrow> f64 \<Rightarrow> f64 \<Rightarrow> ticket_track \<Rightarrow> ticket_track" where
  "record_tick_durations now tick profit peak_win t =
     (let t = t\<lparr>tt_last_tick := Some tick, tt_in_profit := setdefault0 (tt_in_profit t),
                tt_in_drawdown := setdefault0 (tt_in_drawdown t), tt_peak_drawdown := setdefault0 (tt_peak_drawdown t)\<rparr>;
          d = elapsed_since now (getd (tt_last_tick_time t) now);
          t = t\<lparr>tt_last_tick_time := Some now\<rparr>;
          t = (if 0 < profit then t\<lparr>tt_in_profit := map_option (\<lambda>x. x + d) (tt_in_profit t)\<rparr>
               else if profit < 0 then
                 t\<lparr>tt_in_drawdown := map_option (\<lambda>x. x + d) (tt_in_drawdown t),
                   tt_peak_drawdown := Some (pmin (getd (tt_peak_drawdown t) 0) profit)\<rparr>
               else t)
      in t\<lparr>tt_peak_profit := Some peak_win\<rparr>)"

definition new_lsf :: "f64 \<Rightarrow> f64 \<Rightarrow> f64 \<Rightarrow> lsf_state" where
  "new_lsf price profit net = \<lparr>lsf_seen_ticks = 0, lsf_desync = 0, lsf_last_price = price, lsf_last_profit = profit,
     lsf_last_net = net, lsf_last_sl = 0, lsf_last_tp = 0, lsf_modify_intent = 0, lsf_be_applied = 0,
     lsf_trail_applied = 0, lsf_shocks = 0\<rparr>"

definition ensure_bootstrap :: "py_datetime \<Rightarrow> f64 \<Rightarrow> f64 \<Rightarrow> f64 \<Rightarrow> ticket_track \<Rightarrow> ticket_track" where
  "ensure_bootstrap now price profit net t =
     (let t = t\<lparr>tt_lsf := Some (getd (tt_lsf t) (new_lsf price profit net)), tt_last_seen := Some now,
                tt_mfe := Some (getd (tt_mfe t) 0), tt_mae := Some (getd (tt_mae t) 0)\<rparr>;
          t = (if tt_in_profit t = None
               then t\<lparr>tt_in_profit := Some 0, tt_in_drawdown := Some 0, tt_peak_profit := Some 0,
                      tt_peak_drawdown := Some 0, tt_last_tick_time := Some now\<rparr> else t)
      in t\<lparr>tt_lsf := map_option (\<lambda>l. l\<lparr>lsf_seen_ticks := lsf_seen_ticks l + 1\<rparr>) (tt_lsf t)\<rparr>)"

section \<open>Desync, excursions and tick states\<close>

definition jump_charge :: "f64 \<Rightarrow> f64 \<Rightarrow> f64 \<Rightarrow> f64" where
  "jump_charge z cap factor = (if fl (80 / 100) < z then pmin cap ((z - fl (80 / 100)) * factor) else 0)"

definition gap_charge :: "f64 \<Rightarrow> f64" where
  "gap_charge d = pmin (Fin 10) ((d - 1) * Fin 2)"

text \<open>The conditional \<^verbatim>\<open>+=\<close> of the code: a charge that is not due leaves the score as it is.\<close>

definition update_lsf :: "py_datetime \<Rightarrow> f64 \<Rightarrow> f64 \<Rightarrow> f64 \<Rightarrow> f64 \<Rightarrow> ticket_track \<Rightarrow> ticket_track" where
  "update_lsf now price profit net atr t =
     (case tt_lsf t of
        None \<Rightarrow> t
      | Some l \<Rightarrow>
          let d = total_seconds (instant now - instant (getd (tt_last_seen t) now));
              a = pmax atr (fl (1 / 2));
              jz = fabs64 (price - lsf_last_price l) / a; pz = fabs64 (profit - lsf_last_profit l) / a;
              nz = fabs64 (net - lsf_last_net l) / a;
              s = lsf_desync l;
              s = (if 1 < d then s + gap_charge d else s);
              s = (if fl (80 / 100) < jz then s + jump_charge jz (Fin 12) (Fin 10) else s);
              s = (if fl (80 / 100) < pz then s + jump_charge pz (Fin 10) (Fin 8) else s);
              s = (if fl (80 / 100) < nz then s + jump_charge nz (Fin 10) (Fin 8) else s);
              k = (if fl (80 / 100) < jz then lsf_shocks l + 1 else lsf_shocks l)
          in t\<lparr>tt_lsf := Some (l\<lparr>lsf_desync := pmax 0 (s - fl (1 / 2)), lsf_shocks := k, lsf_last_price := price,
                                 lsf_last_profit := profit, lsf_last_net := net\<rparr>), tt_last_seen := Some now\<rparr>)"

definition update_mfe_mae :: "f64 \<Rightarrow> py_datetime option \<Rightarrow> py_datetime \<Rightarrow> ticket_track \<Rightarrow> ticket_track" where
  "update_mfe_mae profit entry_time now t =
     (let pf = getd (tt_mfe t) 0; pa = getd (tt_mae t) 0; nf = pmax pf profit; na = pmin pa profit;
          t = (case entry_time of
                 None \<Rightarrow> t
               | Some e \<Rightarrow>
                   let el = pmax 0 (total_seconds (instant now - instant e));
                       t = (if pf < nf \<or> tt_time_to_mfe t = None then t\<lparr>tt_time_to_mfe := Some el\<rparr> else t)
                   in if na < pa \<or> tt_time_to_mae t = None then t\<lparr>tt_time_to_mae := Some el\<rparr> else t)
      in t\<lparr>tt_mfe := Some nf, tt_mae := Some na\<rparr>)"

definition update_tick_state :: "order_type \<Rightarrow> f64 \<Rightarrow> ticket_track \<Rightarrow> ticket_track" where
  "update_tick_state side price t =
     (let p = getd (tt_last_price t) price;
          t = t\<lparr>tt_last_price := Some price\<rparr>;
          t = (if feq price p then t\<lparr>tt_stagnation := Some (getd (tt_stagnation t) 0 + 1)\<rparr>
               else t\<lparr>tt_stagnation := Some (max 0 (getd (tt_stagnation t) 0 - 1))\<rparr>);
          adverse = (if side = BUY then price < p else p < price);
          favorable = (if side = BUY then p < price else price < p)
      in if adverse then t\<lparr>tt_adverse := Some (getd (tt_adverse t) 0 + 1)\<rparr>
         else if favorable then t\<lparr>tt_favorable := Some (getd (tt_favorable t) 0 + 1)\<rparr> else t)"

section \<open>Reversal evidence\<close>

text \<open>
  What \<^verbatim>\<open>probs.squeeze().tolist()\<close> with the conversions gives: it raises (also when an entry is
  itself a list), it is one number, or it is a list of numbers.
\<close>

datatype probs_view = ProbsRaise | ProbsScalar f64 | ProbsList "f64 list"

definition nth_or_0 :: "f64 list \<Rightarrow> nat \<Rightarrow> f64" where
  "nth_or_0 xs i = (if i < length xs then xs ! i else 0)"

definition read_probs :: "probs_view \<Rightarrow> (f64 \<times> f64 \<times> f64) option" where
  "read_probs p = (case p of
       ProbsRaise \<Rightarrow> None
     | ProbsScalar x \<Rightarrow> Some (x, 0, 0)
     | ProbsList xs \<Rightarrow> Some (nth_or_0 xs 0, nth_or_0 xs 1, nth_or_0 xs 2))"

text \<open>\<open>Some None\<close> is the empty dictionary the code stores when the reading raised.\<close>

definition bind_entry_probs :: "probs_view option \<Rightarrow> ticket_track \<Rightarrow> ticket_track" where
  "bind_entry_probs probs t =
     (case (tt_entry_probs t, probs) of
        (None, Some p) \<Rightarrow>
          t\<lparr>tt_entry_probs := Some (case read_probs p of
              None \<Rightarrow> None
            | Some (nt, b, s) \<Rightarrow> Some \<lparr>ep_buy = round_nd 6 b, ep_sell = round_nd 6 s, ep_no_trade = round_nd 6 nt\<rparr>)\<rparr>
      | _ \<Rightarrow> t)"

definition bind_entry_regime :: "string option \<Rightarrow> ticket_track \<Rightarrow> ticket_track" where
  "bind_entry_regime regime t =
     (case (tt_entry_regime t, regime) of (None, Some r) \<Rightarrow> t\<lparr>tt_entry_regime := Some r\<rparr> | _ \<Rightarrow> t)"

text \<open>\<^verbatim>\<open>"BUY" in str(pos.type).upper()\<close>: the stop and limit types count as their side.\<close>

definition is_buy_side :: "order_type \<Rightarrow> bool" where
  "is_buy_side side = (side \<in> {BUY, BUY_LIMIT, BUY_STOP})"

definition model_flipped :: "order_type \<Rightarrow> f64 \<Rightarrow> f64 \<Rightarrow> bool" where
  "model_flipped side b s =
     (if is_buy_side side then b + fl (10 / 100) < s \<and> fl (1 / 2) \<le> s
      else s + fl (10 / 100) < b \<and> fl (1 / 2) \<le> b)"

definition model_events :: "order_type \<Rightarrow> probs_view option \<Rightarrow> py_datetime \<Rightarrow> ticket_track \<Rightarrow> reversal_event list" where
  "model_events side probs now t =
     (case (probs, tt_entry_probs t) of
        (Some p, Some (Some e)) \<Rightarrow>
          (case read_probs p of
             None \<Rightarrow> []
           | Some (nt, b, s) \<Rightarrow>
               if model_flipped side b s
               then [ModelReversal now (round_nd 6 b) (round_nd 6 s) (round_nd 6 nt) (ep_buy e) (ep_sell e)] else [])
      | _ \<Rightarrow> [])"

definition regime_changed :: "string option \<Rightarrow> ticket_track \<Rightarrow> (string \<times> string) option" where
  "regime_changed regime t =
     (case (regime, tt_entry_regime t) of
        (Some cur, Some old) \<Rightarrow> if old \<noteq> '''' \<and> cur \<noteq> '''' \<and> cur \<noteq> old then Some (old, cur) else None
      | _ \<Rightarrow> None)"

definition capture_reversal_state ::
  "order_type \<Rightarrow> probs_view option \<Rightarrow> string option \<Rightarrow> py_datetime \<Rightarrow> ticket_track \<Rightarrow> ticket_track" where
  "capture_reversal_state side probs regime now t =
     (let t = bind_entry_regime regime (bind_entry_probs probs t);
          evs = getd (tt_reversals t) [];
          t = t\<lparr>tt_reversals := Some evs\<rparr>
      in if 12 < length evs then t
         else
           (let t = t\<lparr>tt_reversals := Some (evs @ model_events side probs now t)\<rparr>
            in case regime_changed regime t of
                 None \<Rightarrow> t
               | Some (old, cur) \<Rightarrow>
                   t\<lparr>tt_reversals := Some (getd (tt_reversals t) [] @ [RegimeReversal now old cur]),
                     tt_entry_regime := Some cur\<rparr>))"

section \<open>The ledger and the position loop\<close>

definition drop_ticket :: "int \<Rightarrow> tracker \<Rightarrow> tracker" where
  "drop_ticket k T = T(k := no_track\<lparr>tt_last_tick := tt_last_tick (T k)\<rparr>)"

record track_input =
  ti_now :: py_datetime
  ti_tick :: tick_data
  ti_new :: bool
  ti_side :: order_type
  ti_open :: f64
  ti_profit :: f64
  ti_peak :: f64
  ti_impact :: f64
  ti_atr :: f64
  ti_entry_time :: "py_datetime option"
  ti_probs :: "probs_view option"
  ti_regime :: "string option"

definition price_current :: "track_input \<Rightarrow> f64" where
  "price_current x = (if ti_side x = BUY then t_bid (ti_tick x) else t_ask (ti_tick x))"

definition profit_price_delta :: "track_input \<Rightarrow> f64" where
  "profit_price_delta x = (if ti_side x = BUY then price_current x - ti_open x else ti_open x - price_current x)"

definition net_price_delta :: "track_input \<Rightarrow> f64" where
  "net_price_delta x = profit_price_delta x - ti_impact x"

definition loop_head :: "track_input \<Rightarrow> ticket_track \<Rightarrow> ticket_track" where
  "loop_head x t =
     record_tick_durations (ti_now x) (ti_tick x) (ti_profit x) (ti_peak x)
       (if ti_new x then first_sight (ti_now x) t else t)"

definition loop_lsf :: "track_input \<Rightarrow> ticket_track \<Rightarrow> ticket_track" where
  "loop_lsf x t =
     update_lsf (ti_now x) (price_current x) (profit_price_delta x) (net_price_delta x) (ti_atr x)
       (ensure_bootstrap (ti_now x) (price_current x) (profit_price_delta x) (net_price_delta x) t)"

definition loop_tail :: "track_input \<Rightarrow> ticket_track \<Rightarrow> ticket_track" where
  "loop_tail x t =
     capture_reversal_state (ti_side x) (ti_probs x) (ti_regime x) (ti_now x)
       (update_tick_state (ti_side x) (price_current x)
          (update_mfe_mae (profit_price_delta x) (ti_entry_time x) (ti_now x) t))"

definition track_step :: "ticket_track \<Rightarrow> track_input \<Rightarrow> ticket_track" where
  "track_step t x = loop_tail x (loop_lsf x (loop_head x t))"

definition track_position :: "int \<Rightarrow> track_input \<Rightarrow> tracker \<Rightarrow> tracker" where
  "track_position k x T = T(k := track_step (T k) x)"

section \<open>What each operation leaves alone\<close>

named_theorems track_frame

lemma first_sight_frame [track_frame]:
  "tt_mfe (first_sight now t) = tt_mfe t" "tt_mae (first_sight now t) = tt_mae t"
  "tt_lsf (first_sight now t) = tt_lsf t" "tt_reversals (first_sight now t) = tt_reversals t"
  "tt_entry_regime (first_sight now t) = tt_entry_regime t"
  by (simp_all add: first_sight_def)

lemma durations_frame [track_frame]:
  "tt_mfe (record_tick_durations now k p w t) = tt_mfe t" "tt_mae (record_tick_durations now k p w t) = tt_mae t"
  "tt_lsf (record_tick_durations now k p w t) = tt_lsf t"
  "tt_reversals (record_tick_durations now k p w t) = tt_reversals t"
  "tt_entry_regime (record_tick_durations now k p w t) = tt_entry_regime t"
  by (simp_all add: record_tick_durations_def Let_def)

lemma bootstrap_frame [track_frame]:
  "tt_mfe (ensure_bootstrap now a b c t) = Some (getd (tt_mfe t) 0)"
  "tt_mae (ensure_bootstrap now a b c t) = Some (getd (tt_mae t) 0)"
  "tt_last_seen (ensure_bootstrap now a b c t) = Some now"
  "tt_reversals (ensure_bootstrap now a b c t) = tt_reversals t"
  "tt_entry_regime (ensure_bootstrap now a b c t) = tt_entry_regime t"
  by (simp_all add: ensure_bootstrap_def Let_def)

lemma update_lsf_frame [track_frame]:
  "tt_mfe (update_lsf now a b c d t) = tt_mfe t" "tt_mae (update_lsf now a b c d t) = tt_mae t"
  "tt_reversals (update_lsf now a b c d t) = tt_reversals t"
  "tt_entry_regime (update_lsf now a b c d t) = tt_entry_regime t"
  by (simp_all add: update_lsf_def Let_def split: option.splits)

lemma excursion_frame [track_frame]:
  "tt_mfe (update_mfe_mae p e now t) = Some (pmax (getd (tt_mfe t) 0) p)"
  "tt_mae (update_mfe_mae p e now t) = Some (pmin (getd (tt_mae t) 0) p)"
  "tt_lsf (update_mfe_mae p e now t) = tt_lsf t" "tt_reversals (update_mfe_mae p e now t) = tt_reversals t"
  "tt_entry_regime (update_mfe_mae p e now t) = tt_entry_regime t"
  by (simp_all add: update_mfe_mae_def Let_def split: option.splits)

lemma tick_state_frame [track_frame]:
  "tt_mfe (update_tick_state s p t) = tt_mfe t" "tt_mae (update_tick_state s p t) = tt_mae t"
  "tt_lsf (update_tick_state s p t) = tt_lsf t" "tt_reversals (update_tick_state s p t) = tt_reversals t"
  "tt_entry_regime (update_tick_state s p t) = tt_entry_regime t"
  by (simp_all add: update_tick_state_def Let_def)

lemma bind_frame [track_frame]:
  "tt_mfe (bind_entry_regime r t) = tt_mfe t" "tt_mae (bind_entry_regime r t) = tt_mae t"
  "tt_lsf (bind_entry_regime r t) = tt_lsf t" "tt_reversals (bind_entry_regime r t) = tt_reversals t"
  "tt_mfe (bind_entry_probs p t) = tt_mfe t" "tt_mae (bind_entry_probs p t) = tt_mae t"
  "tt_lsf (bind_entry_probs p t) = tt_lsf t" "tt_reversals (bind_entry_probs p t) = tt_reversals t"
  "tt_entry_regime (bind_entry_probs p t) = tt_entry_regime t"
  by (simp_all add: bind_entry_regime_def bind_entry_probs_def split: option.splits)

lemma capture_frame [track_frame]:
  "tt_mfe (capture_reversal_state s p r now t) = tt_mfe t"
  "tt_mae (capture_reversal_state s p r now t) = tt_mae t"
  "tt_lsf (capture_reversal_state s p r now t) = tt_lsf t"
  by (simp_all add: capture_reversal_state_def Let_def track_frame split: option.splits)

lemma track_step_excursion:
  "tt_mfe (track_step t x) = Some (pmax (getd (tt_mfe t) 0) (profit_price_delta x))"
  "tt_mae (track_step t x) = Some (pmin (getd (tt_mae t) 0) (profit_price_delta x))"
  by (simp_all add: track_step_def loop_tail_def loop_lsf_def loop_head_def track_frame)

section \<open>Excursions\<close>

definition max_fav :: "ticket_track \<Rightarrow> f64" where
  "max_fav t = getd (tt_mfe t) 0"

definition max_adv :: "ticket_track \<Rightarrow> f64" where
  "max_adv t = getd (tt_mae t) 0"

lemma max_fav_step [simp]: "max_fav (track_step t x) = pmax (max_fav t) (profit_price_delta x)"
  and max_adv_step [simp]: "max_adv (track_step t x) = pmin (max_adv t) (profit_price_delta x)"
  by (simp_all add: max_fav_def max_adv_def track_step_excursion)

definition num_le :: "f64 \<Rightarrow> f64 \<Rightarrow> bool" where
  "num_le u v \<longleftrightarrow> u = v \<or> u \<le> v"

lemma num_le_refl: "num_le u u"
  and num_le_trans: "num_le u v \<Longrightarrow> num_le v w \<Longrightarrow> num_le u w"
  by (auto simp: num_le_def intro: f64_le_trans)

lemma num_le_pmax: "num_le u (pmax u v)"
  by (cases u; cases v) (auto simp: num_le_def pmax_def)

lemma num_le_pmin: "num_le (pmin u v) u"
  by (cases u; cases v) (auto simp: num_le_def pmin_def)

interpretation best_excursion: monotone_step track_step max_fav num_le
  by unfold_locales (auto intro: num_le_refl num_le_trans num_le_pmax)

interpretation worst_excursion: monotone_step track_step max_adv "\<lambda>u v. num_le v u"
  by unfold_locales (auto intro: num_le_refl num_le_trans num_le_pmin)

lemma run_excursion:
  "max_fav (run track_step t xs) = foldl pmax (max_fav t) (map profit_price_delta xs)"
  "max_adv (run track_step t xs) = foldl pmin (max_adv t) (map profit_price_delta xs)"
  by (induction xs arbitrary: t) simp_all

lemma foldl_pmax_spec:
  assumes "z \<noteq> NaN"
  shows "(foldl pmax z ds = z \<or> foldl pmax z ds \<in> set ds) \<and> z \<le> foldl pmax z ds
      \<and> (\<forall>d \<in> set ds. \<not> foldl pmax z ds < d)"
  using assms
proof (induction ds arbitrary: z)
  case Nil
  then show ?case by (cases z) auto
next
  case (Cons d ds)
  have n: "pmax z d \<noteq> NaN" by (rule pmax_not_NaN [OF Cons.prems])
  note ih = Cons.IH [OF n]
  have "\<not> foldl pmax (pmax z d) ds < d"
  proof (cases "d = NaN")
    case False
    then have "d \<le> foldl pmax (pmax z d) ds"
      using pmax_ge2 [OF Cons.prems] f64_le_trans ih by blast
    then show ?thesis using f64_not_less by (metis f64_less_irrefl f64_less_le_trans)
  qed simp
  moreover have "z \<le> foldl pmax (pmax z d) ds"
    using pmax_ge [OF Cons.prems] ih f64_le_trans by blast
  ultimately show ?case using ih pmax_cases [of z d] by auto
qed

lemma foldl_pmin_spec:
  assumes "z \<noteq> NaN"
  shows "(foldl pmin z ds = z \<or> foldl pmin z ds \<in> set ds) \<and> foldl pmin z ds \<le> z
      \<and> (\<forall>d \<in> set ds. \<not> d < foldl pmin z ds)"
  using assms
proof (induction ds arbitrary: z)
  case Nil
  then show ?case by (cases z) auto
next
  case (Cons d ds)
  have n: "pmin z d \<noteq> NaN" by (rule pmin_not_NaN [OF Cons.prems])
  note ih = Cons.IH [OF n]
  have "\<not> d < foldl pmin (pmin z d) ds"
  proof (cases "d = NaN")
    case False
    then have "foldl pmin (pmin z d) ds \<le> d"
      using pmin_le2 [OF Cons.prems] f64_le_trans ih by blast
    then show ?thesis by (metis f64_less_irrefl f64_less_le_trans)
  qed simp
  moreover have "foldl pmin (pmin z d) ds \<le> z"
    using pmin_le [OF Cons.prems] ih f64_le_trans by blast
  ultimately show ?case using ih pmin_cases [of z d] by auto
qed

section \<open>Evidence is bounded\<close>

lemma capture_length:
  "length (getd (tt_reversals (capture_reversal_state s p r now t)) [])
     \<le> (if 12 < length (getd (tt_reversals t) []) then length (getd (tt_reversals t) [])
        else length (getd (tt_reversals t) []) + 2)"
  by (auto simp: capture_reversal_state_def Let_def track_frame model_events_def split: option.splits)

definition evidence_bounded :: "ticket_track \<Rightarrow> bool" where
  "evidence_bounded t \<longleftrightarrow> length (getd (tt_reversals t) []) \<le> 14"

lemma track_step_reversals:
  "length (getd (tt_reversals (track_step t x)) [])
     \<le> (if 12 < length (getd (tt_reversals t) []) then length (getd (tt_reversals t) [])
        else length (getd (tt_reversals t) []) + 2)"
proof -
  have e: "tt_reversals (update_tick_state (ti_side x) (price_current x) (update_mfe_mae (profit_price_delta x)
           (ti_entry_time x) (ti_now x) (loop_lsf x (loop_head x t)))) = tt_reversals t"
    by (simp add: loop_lsf_def loop_head_def track_frame)
  show ?thesis
    using capture_length [of "ti_side x" "ti_probs x" "ti_regime x" "ti_now x"
        "update_tick_state (ti_side x) (price_current x) (update_mfe_mae (profit_price_delta x)
           (ti_entry_time x) (ti_now x) (loop_lsf x (loop_head x t)))"]
    by (simp only: track_step_def loop_tail_def e)
qed

interpretation evidence: step_invariant track_step no_track evidence_bounded
proof unfold_locales
  show "evidence_bounded no_track" by (simp add: evidence_bounded_def no_track_def)
next
  fix t x
  assume "evidence_bounded t"
  then show "evidence_bounded (track_step t x)"
    using track_step_reversals [of t x] by (simp add: evidence_bounded_def split: if_splits)
qed

text \<open>An entry regime recorded as the empty text is never replaced: no change of regime is noticed.\<close>

lemma blank_entry_regime:
  assumes "tt_entry_regime t = Some ''''"
  shows "tt_entry_regime (run track_step t xs) = Some '''' \<and> regime_changed r (run track_step t xs) = None"
proof -
  have step: "tt_entry_regime (track_step u x) = Some ''''" if "tt_entry_regime u = Some ''''" for u x
  proof -
    have "tt_entry_regime (bind_entry_regime r v) = Some ''''" if "tt_entry_regime v = Some ''''" for r v
      using that by (simp add: bind_entry_regime_def)
    then show ?thesis using that
      by (simp add: track_step_def loop_tail_def loop_lsf_def loop_head_def capture_reversal_state_def Let_def
            track_frame regime_changed_def split: option.splits)
  qed
  have "tt_entry_regime (run track_step t xs) = Some ''''"
    using assms step by (induction xs arbitrary: t) simp_all
  then show ?thesis by (simp add: regime_changed_def split: option.splits)
qed

section \<open>The desync score in the loop\<close>

text \<open>
  The loop seeds and stamps the ticket (\<open>ensure_bootstrap\<close>) right before it measures the gap
  to the stamp (\<open>update_lsf\<close>): the gap it measures is zero.
\<close>

lemma lsf_no_gap:
  assumes "tt_last_seen t = Some now"
  shows "tt_lsf (update_lsf now price profit net atr t) =
    map_option (\<lambda>l.
      let a = pmax atr (fl (1 / 2));
          jz = fabs64 (price - lsf_last_price l) / a; pz = fabs64 (profit - lsf_last_profit l) / a;
          nz = fabs64 (net - lsf_last_net l) / a;
          s = lsf_desync l;
          s = (if fl (80 / 100) < jz then s + jump_charge jz (Fin 12) (Fin 10) else s);
          s = (if fl (80 / 100) < pz then s + jump_charge pz (Fin 10) (Fin 8) else s);
          s = (if fl (80 / 100) < nz then s + jump_charge nz (Fin 10) (Fin 8) else s)
      in l\<lparr>lsf_desync := pmax 0 (s - fl (1 / 2)),
           lsf_shocks := if fl (80 / 100) < jz then lsf_shocks l + 1 else lsf_shocks l,
           lsf_last_price := price, lsf_last_profit := profit, lsf_last_net := net\<rparr>) (tt_lsf t)"
proof -
  have "\<not> (1 :: f64) < Fin 0" by (simp add: one_f64_Fin)
  then show ?thesis using assms by (simp add: update_lsf_def Let_def split: option.splits)
qed

lemma loop_lsf_time:
  "tt_lsf u = tt_lsf t \<Longrightarrow> tt_lsf (loop_lsf (x\<lparr>ti_now := n\<rparr>) u) = tt_lsf (loop_lsf x t)"
  by (simp add: loop_lsf_def lsf_no_gap track_frame price_current_def profit_price_delta_def net_price_delta_def)
     (simp add: ensure_bootstrap_def Let_def)

lemma track_step_lsf: "tt_lsf (track_step t x) = tt_lsf (loop_lsf x (loop_head x t))"
  by (simp add: track_step_def loop_tail_def track_frame)

lemma loop_head_lsf [simp]: "tt_lsf (loop_head x t) = tt_lsf t"
  by (simp add: loop_head_def track_frame)

section \<open>Tickets do not disturb each other\<close>

text \<open>A dropped ticket has no entry but the last tick, which the code keeps.\<close>

definition tracked :: "tracker \<Rightarrow> int \<Rightarrow> ticket_track" where
  "tracked T k = (T k)\<lparr>tt_last_tick := None\<rparr>"

interpretation tracking: ticket_ledger tracked no_track track_position drop_ticket
  by unfold_locales (auto simp: tracked_def track_position_def drop_ticket_def no_track_def)

lemma drop_keeps_last_tick: "tt_last_tick (drop_ticket k T k) = tt_last_tick (T k)"
  by (simp add: drop_ticket_def)

text \<open>The gap rule itself works: called with an older stamp it charges two points per second.\<close>

lemma gap_rule_alone:
  assumes "tt_lsf t = Some (new_lsf p f n)" "tt_last_seen t = Some last_t" "instant now - instant last_t = 3000000"
    and "isfinite p" "isfinite f" "isfinite n"
  shows "map_option lsf_desync (tt_lsf (update_lsf now p f n (Fin 1) t)) = Some (Fin (7 / 2))"
proof -
  have half: "fl (1 / 2) = Fin (1 / 2)" by code_simp
  have f: "fl (7 / 2) = Fin (7 / 2)" by code_simp
  have d: "total_seconds 3000000 = Fin 3"
    by (simp add: total_seconds_def)
  have z: "fabs64 (x - x) / Fin 1 = Fin 0" if "isfinite x" for x
    using that by (cases x) (auto simp: minus_f64_def)
  have s: "(Fin 0 + gap_charge (Fin 3)) - Fin (1 / 2) = Fin (7 / 2)"
    by (simp add: gap_charge_def one_f64_Fin pmin_def minus_f64_def f)
  have j: "\<not> fl (4 / 5) < Fin 0" by code_simp
  show ?thesis using assms s
    by (simp add: update_lsf_def Let_def new_lsf_def d z [OF assms(4)] z [OF assms(5)] z [OF assms(6)] j half
        zero_f64_Fin one_f64_Fin pmax_def)
qed

lemma max_adv_nonpos: "max_adv (run track_step no_track xs) \<le> 0"
proof -
  have "max_adv no_track = 0" "(0 :: f64) \<noteq> NaN"
    by (simp_all add: max_adv_def no_track_def zero_f64_Fin)
  then show ?thesis using foldl_pmin_spec [of 0 "map profit_price_delta xs"] by (simp add: run_excursion)
qed

section \<open>Properties\<close>

text \<open>C34: what an open position is recorded to have gained and lost at best and at worst is
  exact: after any ticks of the position loop the favourable excursion is zero or one of the
  observed price differences, and none of them exceeds it; the adverse one likewise downwards. In
  particular the first is never negative and the second never positive, whatever the ticks.\<close>

theorem excursions_are_extremes:
  fixes xs :: "track_input list"
  defines "t \<equiv> run track_step no_track xs" and "ds \<equiv> set (map profit_price_delta xs)"
  shows "(max_fav t = 0 \<or> max_fav t \<in> ds) \<and> 0 \<le> max_fav t \<and> (\<forall>d \<in> ds. \<not> max_fav t < d)
       \<and> (max_adv t = 0 \<or> max_adv t \<in> ds) \<and> max_adv t \<le> 0 \<and> (\<forall>d \<in> ds. \<not> d < max_adv t)"
proof -
  have z: "max_fav no_track = 0" "max_adv no_track = 0" "(0 :: f64) \<noteq> NaN"
    by (simp_all add: max_fav_def max_adv_def no_track_def zero_f64_Fin)
  show ?thesis
    using foldl_pmax_spec [OF z(3), of "map profit_price_delta xs"]
      foldl_pmin_spec [OF z(3), of "map profit_price_delta xs"]
    unfolding t_def ds_def by (simp add: run_excursion z)
qed

text \<open>the score that is to detect missed management of a position does not depend on time:
  however far apart the ticks of the position loop are, the scores are the same. The rule that
  charges a gap of more than a second is dead, because the loop stamps the ticket as seen just
  before it measures the time since the stamp.\<close>

theorem gap_between_ticks_never_charged:
  "tt_lsf (run track_step t (map (\<lambda>x. x\<lparr>ti_now := clock x\<rparr>) xs)) = tt_lsf (run track_step t xs)"
proof -
  have "tt_lsf u = tt_lsf v \<Longrightarrow> tt_lsf (run track_step u (map (\<lambda>x. x\<lparr>ti_now := clock x\<rparr>) xs))
      = tt_lsf (run track_step v xs)" for u v
  proof (induction xs arbitrary: u v)
    case (Cons x xs)
    have "tt_lsf (track_step u (x\<lparr>ti_now := clock x\<rparr>)) = tt_lsf (track_step v x)"
      unfolding track_step_lsf by (rule loop_lsf_time) (simp add: Cons.prems)
    then show ?case by (simp add: Cons.IH)
  qed simp
  then show ?thesis by simp
qed

text \<open>Evidence and witnesses on a sample position.\<close>

definition sample_input :: "f64 \<Rightarrow> track_input" where
  "sample_input bid = \<lparr>ti_now = \<lparr>dt_wall = 0, dt_off = Some 0\<rparr>,
     ti_tick = \<lparr>t_symbol = ''XAUUSD'', t_timestamp = \<lparr>dt_wall = 0, dt_off = Some 0\<rparr>, t_bid = bid, t_ask = bid, t_last = bid,
       t_volume = 1, t_flags = 0\<rparr>,
     ti_new = False, ti_side = BUY, ti_open = Fin 2000, ti_profit = 0, ti_peak = 0, ti_impact = 0, ti_atr = Fin 1,
     ti_entry_time = None, ti_probs = None, ti_regime = None\<rparr>"

lemma excursions_are_extremes_witness:
  "max_fav (run track_step no_track [sample_input (Fin 1999), sample_input (Fin 2002)]) = Fin 2
   \<and> max_adv (run track_step no_track [sample_input (Fin 1999), sample_input (Fin 2002)]) = Fin (- 1)
   \<and> \<not> Fin 2 < profit_price_delta (sample_input (Fin 1999))"
proof -
  have d: "profit_price_delta (sample_input (Fin 1999)) = Fin (- 1)" "profit_price_delta (sample_input (Fin 2002)) = Fin 2"
    by (simp_all add: sample_input_def profit_price_delta_def price_current_def minus_f64_def fl_of_int [of "- 1", simplified])
  have z: "max_fav no_track = Fin 0" "max_adv no_track = Fin 0"
    by (simp_all add: max_fav_def max_adv_def no_track_def zero_f64_Fin)
  show ?thesis
    using excursions_are_extremes [of "[sample_input (Fin 1999), sample_input (Fin 2002)]"]
    by (simp add: z d pmax_def pmin_def)
qed

end
