(* ===== verification/TicketState.thy ===== *)
theory TicketState
  imports PyNum PyTime Domain "HOL-Library.AList"
begin

text \<open>
  \<^verbatim>\<open>execution/lifecycle/ticket_state.py\<close> and the class \<open>_TicketStateDictView\<close> of
  \<^verbatim>\<open>execution/order_manager.py\<close>: one record per open position, and the thirty dictionaries of the
  order manager as views on one field of the records. The store is the dictionary of the code, an
  association list in insertion order. The second half holds the operations of the position loop
  on the stop fields: opening, the comparison with the broker's stop, a confirmed modification,
  the stops of the closing row, and the cleanup.
\<close>

section \<open>The record\<close>

record ticket_state =
  ts_last_tick :: f64
  ts_peak_profit :: f64
  ts_peak_drawdown :: f64
  ts_mfe :: f64
  ts_mae :: f64
  ts_adverse_ticks :: int
  ts_favorable_ticks :: int
  ts_stagnation_ticks :: int
  ts_time_in_profit :: f64
  ts_time_in_drawdown :: f64
  ts_last_seen :: "py_datetime option"
  ts_last_price :: f64
  entry_price :: f64
  entry_sl :: f64
  entry_tp :: f64
  entry_direction :: string
  entry_confidence :: f64
  entry_signal_age :: f64
  entry_regime :: string
  entry_reason :: string
  entry_timestamp :: "py_datetime option"
  entry_order_id :: string
  last_known_volume :: f64
  initial_risk :: f64
  entry_expected_price :: f64
  entry_atr :: f64
  entry_spread :: f64
  entry_fill_latency :: f64
  ts_time_to_mfe :: f64
  ts_time_to_mae :: f64
  forced_exit :: "string option"
  is_closed :: bool
  exit_pending :: "(string \<times> string) list"
  last_modify_sl :: f64
  sl_modified :: bool
  partial_closed :: bool
  rescue_registered :: bool
  last_mod_price :: f64
  last_mod_time :: "py_datetime option"
  net_pnl :: "f64 option"
  exit_mechanism :: "string option"
  setup_snapshot :: "(string \<times> string) list"

definition fresh_state :: ticket_state where
  "fresh_state = \<lparr>ts_last_tick = 0, ts_peak_profit = 0, ts_peak_drawdown = 0, ts_mfe = 0, ts_mae = 0,
     ts_adverse_ticks = 0, ts_favorable_ticks = 0, ts_stagnation_ticks = 0, ts_time_in_profit = 0,
     ts_time_in_drawdown = 0, ts_last_seen = None, ts_last_price = 0, entry_price = 0, entry_sl = 0, entry_tp = 0,
     entry_direction = '''', entry_confidence = 0, entry_signal_age = 0, entry_regime = '''', entry_reason = '''',
     entry_timestamp = None, entry_order_id = '''', last_known_volume = 0, initial_risk = 0, entry_expected_price = 0,
     entry_atr = 0, entry_spread = 0, entry_fill_latency = 0, ts_time_to_mfe = 0, ts_time_to_mae = 0,
     forced_exit = None, is_closed = False, exit_pending = [], last_modify_sl = 0, sl_modified = False,
     partial_closed = False, rescue_registered = False, last_mod_price = 0, last_mod_time = None, net_pnl = None,
     exit_mechanism = None, setup_snapshot = []\<rparr>"

definition record_sl_modification :: "f64 \<Rightarrow> ticket_state \<Rightarrow> ticket_state" where
  "record_sl_modification sl s = s\<lparr>last_modify_sl := sl, sl_modified := True\<rparr>"

section \<open>The store\<close>

type_synonym store = "(int \<times> ticket_state) list"

definition st_peek :: "int \<Rightarrow> store \<Rightarrow> ticket_state option" where
  "st_peek t S = map_of S t"

text \<open>\<^verbatim>\<open>get\<close> creates the record on the first touch: its value and the store after it.\<close>

definition st_get :: "int \<Rightarrow> store \<Rightarrow> ticket_state \<times> store" where
  "st_get t S = (case st_peek t S of None \<Rightarrow> (fresh_state, AList.update t fresh_state S) | Some s \<Rightarrow> (s, S))"

definition st_remove :: "int \<Rightarrow> store \<Rightarrow> store" where
  "st_remove t S = AList.delete t S"

definition st_contains :: "int \<Rightarrow> store \<Rightarrow> bool" where
  "st_contains t S = (t \<in> fst ` set S)"

definition st_keys :: "store \<Rightarrow> int list" where
  "st_keys S = map fst S"

section \<open>The dictionary view of one field\<close>

text \<open>A field: how it is read and set, its default, and Python's \<^verbatim>\<open>!=\<close> on its values.\<close>

record 'v field =
  fd_get :: "ticket_state \<Rightarrow> 'v"
  fd_set :: "'v \<Rightarrow> ticket_state \<Rightarrow> ticket_state"
  fd_default :: 'v
  fd_ne :: "'v \<Rightarrow> 'v \<Rightarrow> bool"

definition dv_present :: "'v field \<Rightarrow> ticket_state \<Rightarrow> bool" where
  "dv_present F s = fd_ne F (fd_get F s) (fd_default F)"

definition dv_lookup :: "'v field \<Rightarrow> int \<Rightarrow> store \<Rightarrow> 'v option" where
  "dv_lookup F t S = (case st_peek t S of
       None \<Rightarrow> None | Some s \<Rightarrow> if dv_present F s then Some (fd_get F s) else None)"

text \<open>\<^verbatim>\<open>get(ticket, default)\<close>: a caller's default of \<^verbatim>\<open>None\<close> is replaced by the field's default.\<close>

definition dv_get :: "'v field \<Rightarrow> int \<Rightarrow> 'v option \<Rightarrow> store \<Rightarrow> 'v" where
  "dv_get F t d S = (case dv_lookup F t S of
       Some v \<Rightarrow> v
     | None \<Rightarrow> (case d of None \<Rightarrow> fd_default F | Some v \<Rightarrow> v))"

definition dv_getitem :: "'v field \<Rightarrow> int \<Rightarrow> store \<Rightarrow> 'v res" where
  "dv_getitem F t S = (case dv_lookup F t S of None \<Rightarrow> raise KeyError | Some v \<Rightarrow> ret v)"

definition dv_contains :: "'v field \<Rightarrow> int \<Rightarrow> store \<Rightarrow> bool" where
  "dv_contains F t S = (dv_lookup F t S \<noteq> None)"

definition dv_keys :: "'v field \<Rightarrow> store \<Rightarrow> int list" where
  "dv_keys F S = filter (\<lambda>t. dv_contains F t S) (st_keys S)"

definition dv_items :: "'v field \<Rightarrow> store \<Rightarrow> (int \<times> 'v) list" where
  "dv_items F S = List.map_filter (\<lambda>t. map_option (Pair t) (dv_lookup F t S)) (dv_keys F S)"

definition dv_set :: "'v field \<Rightarrow> int \<Rightarrow> 'v \<Rightarrow> store \<Rightarrow> store" where
  "dv_set F t v S = (case st_get t S of (s, S') \<Rightarrow> AList.update t (fd_set F v s) S')"

definition dv_setdefault :: "'v field \<Rightarrow> int \<Rightarrow> 'v \<Rightarrow> store \<Rightarrow> 'v \<times> store" where
  "dv_setdefault F t v S = (case dv_lookup F t S of Some w \<Rightarrow> (w, S) | None \<Rightarrow> (v, dv_set F t v S))"

definition dv_pop :: "'v field \<Rightarrow> int \<Rightarrow> store \<Rightarrow> 'v option \<times> store" where
  "dv_pop F t S = (case dv_lookup F t S of
       None \<Rightarrow> (None, S) | Some v \<Rightarrow> (Some v, dv_set F t (fd_default F) S))"

section \<open>Reading and writing\<close>

lemma st_peek_update [simp]: "st_peek t' (AList.update t s S) = (if t' = t then Some s else st_peek t' S)"
  by (simp add: st_peek_def update_conv')

lemma st_peek_remove [simp]: "st_peek t' (st_remove t S) = (if t' = t then None else st_peek t' S)"
  by (simp add: st_peek_def st_remove_def delete_conv')

lemma st_contains_iff: "st_contains t S \<longleftrightarrow> st_peek t S \<noteq> None"
  by (simp add: st_contains_def st_peek_def map_of_eq_None_iff)

lemma st_keys_iff: "t \<in> set (st_keys S) \<longleftrightarrow> st_peek t S \<noteq> None"
  by (simp add: st_keys_def st_peek_def map_of_eq_None_iff)

definition state_or_fresh :: "int \<Rightarrow> store \<Rightarrow> ticket_state" where
  "state_or_fresh t S = (case st_peek t S of None \<Rightarrow> fresh_state | Some s \<Rightarrow> s)"

lemma st_peek_set: "st_peek t' (dv_set F t v S) = (if t' = t then Some (fd_set F v (state_or_fresh t S)) else st_peek t' S)"
  by (simp add: dv_set_def st_get_def state_or_fresh_def split: option.splits)

section \<open>Views as dictionaries\<close>

text \<open>
  What a field must give for its view to be a dictionary: setting is read back, a fresh record
  holds the default, and the default differs from nothing but other values.
\<close>

locale state_field =
  fixes F :: "'v field"
  assumes get_set: "fd_get F (fd_set F v s) = v"
    and fresh_default: "fd_get F fresh_state = fd_default F"
    and default_absent: "\<not> fd_ne F (fd_default F) (fd_default F)"
begin

lemma fresh_absent: "\<not> dv_present F fresh_state"
  by (simp add: dv_present_def fresh_default default_absent)

lemma lookup_set:
  "dv_lookup F t' (dv_set F t v S)
     = (if t' = t then if fd_ne F v (fd_default F) then Some v else None else dv_lookup F t' S)"
  by (simp add: dv_lookup_def st_peek_set dv_present_def get_set)

lemma lookup_pop: "dv_lookup F t' (snd (dv_pop F t S)) = (if t' = t then None else dv_lookup F t' S)"
  by (auto simp: dv_pop_def lookup_set default_absent split: option.splits)

lemma lookup_remove: "dv_lookup F t' (st_remove t S) = (if t' = t then None else dv_lookup F t' S)"
  by (simp add: dv_lookup_def)

lemma set_refines: "fd_ne F v (fd_default F) \<Longrightarrow> (\<lambda>k. dv_lookup F k (dv_set F t v S)) = (\<lambda>k. dv_lookup F k S)(t \<mapsto> v)"
  by (rule ext) (simp add: lookup_set)

lemma pop_refines: "(\<lambda>k. dv_lookup F k (snd (dv_pop F t S))) = (\<lambda>k. dv_lookup F k S)(t := None)"
  by (rule ext) (simp add: lookup_pop)

lemma setting_default_deletes: "(\<lambda>k. dv_lookup F k (dv_set F t (fd_default F) S)) = (\<lambda>k. dv_lookup F k S)(t := None)"
  by (rule ext) (simp add: lookup_set default_absent)

lemma keys_are_present: "set (dv_keys F S) = dom (\<lambda>k. dv_lookup F k S)"
  by (auto simp: dv_keys_def dv_contains_def dv_lookup_def st_keys_iff split: option.splits)

lemma items_are_entries: "set (dv_items F S) = {(k, v). dv_lookup F k S = Some v}"
proof -
  have "set (dv_items F S) = {(k, v). k \<in> set (dv_keys F S) \<and> dv_lookup F k S = Some v}"
    unfolding dv_items_def by (induction "dv_keys F S" rule: list.induct) (force simp: List.map_filter_def)+
  then show ?thesis by (auto simp: keys_are_present)
qed

end

text \<open>Two views on different fields: writing one leaves the other.\<close>

locale field_pair = state_field G for G :: "'w field" +
  fixes F :: "'v field"
  assumes frame: "fd_get G (fd_set F v s) = fd_get G s"
begin

lemma other_lookup: "dv_lookup G t' (dv_set F t v S) = dv_lookup G t' S"
  using fresh_absent
  by (auto simp: dv_lookup_def st_peek_set dv_present_def frame state_or_fresh_def split: option.splits)

end

section \<open>The views of the order manager\<close>

definition price_field :: "(ticket_state \<Rightarrow> f64) \<Rightarrow> (f64 \<Rightarrow> ticket_state \<Rightarrow> ticket_state) \<Rightarrow> f64 field" where
  "price_field g p = \<lparr>fd_get = g, fd_set = p, fd_default = 0, fd_ne = (\<lambda>a b. \<not> feq a b)\<rparr>"

definition plain_field :: "(ticket_state \<Rightarrow> 'v) \<Rightarrow> ('v \<Rightarrow> ticket_state \<Rightarrow> ticket_state) \<Rightarrow> 'v \<Rightarrow> 'v field" where
  "plain_field g p d = \<lparr>fd_get = g, fd_set = p, fd_default = d, fd_ne = (\<noteq>)\<rparr>"

definition entry_prices :: "f64 field" where
  "entry_prices = price_field entry_price (\<lambda>v s. s\<lparr>entry_price := v\<rparr>)"
definition entry_sls :: "f64 field" where
  "entry_sls = price_field entry_sl (\<lambda>v s. s\<lparr>entry_sl := v\<rparr>)"
definition entry_tps :: "f64 field" where
  "entry_tps = price_field entry_tp (\<lambda>v s. s\<lparr>entry_tp := v\<rparr>)"
definition known_volumes :: "f64 field" where
  "known_volumes = price_field last_known_volume (\<lambda>v s. s\<lparr>last_known_volume := v\<rparr>)"
definition initial_risks :: "f64 field" where
  "initial_risks = price_field initial_risk (\<lambda>v s. s\<lparr>initial_risk := v\<rparr>)"
definition expected_prices :: "f64 field" where
  "expected_prices = price_field entry_expected_price (\<lambda>v s. s\<lparr>entry_expected_price := v\<rparr>)"
definition entry_atrs :: "f64 field" where
  "entry_atrs = price_field entry_atr (\<lambda>v s. s\<lparr>entry_atr := v\<rparr>)"
definition entry_spreads :: "f64 field" where
  "entry_spreads = price_field entry_spread (\<lambda>v s. s\<lparr>entry_spread := v\<rparr>)"
definition fill_latencies :: "f64 field" where
  "fill_latencies = price_field entry_fill_latency (\<lambda>v s. s\<lparr>entry_fill_latency := v\<rparr>)"
definition modify_sls :: "f64 field" where
  "modify_sls = price_field last_modify_sl (\<lambda>v s. s\<lparr>last_modify_sl := v\<rparr>)"
definition entry_confidences :: "f64 field" where
  "entry_confidences = price_field entry_confidence (\<lambda>v s. s\<lparr>entry_confidence := v\<rparr>)"
definition signal_ages :: "f64 field" where
  "signal_ages = price_field entry_signal_age (\<lambda>v s. s\<lparr>entry_signal_age := v\<rparr>)"
definition entry_reasons :: "string field" where
  "entry_reasons = plain_field entry_reason (\<lambda>v s. s\<lparr>entry_reason := v\<rparr>) ''''"
definition entry_regimes :: "string field" where
  "entry_regimes = plain_field entry_regime (\<lambda>v s. s\<lparr>entry_regime := v\<rparr>) ''''"
definition entry_directions :: "string field" where
  "entry_directions = plain_field entry_direction (\<lambda>v s. s\<lparr>entry_direction := v\<rparr>) ''''"
definition entry_order_ids :: "string field" where
  "entry_order_ids = plain_field entry_order_id (\<lambda>v s. s\<lparr>entry_order_id := v\<rparr>) ''''"
definition sl_flags :: "bool field" where
  "sl_flags = plain_field sl_modified (\<lambda>v s. s\<lparr>sl_modified := v\<rparr>) False"
definition partial_flags :: "bool field" where
  "partial_flags = plain_field partial_closed (\<lambda>v s. s\<lparr>partial_closed := v\<rparr>) False"
definition rescue_flags :: "bool field" where
  "rescue_flags = plain_field rescue_registered (\<lambda>v s. s\<lparr>rescue_registered := v\<rparr>) False"
definition closed_flags :: "bool field" where
  "closed_flags = plain_field is_closed (\<lambda>v s. s\<lparr>is_closed := v\<rparr>) False"
definition entry_timestamps :: "py_datetime option field" where
  "entry_timestamps = plain_field entry_timestamp (\<lambda>v s. s\<lparr>entry_timestamp := v\<rparr>) None"
definition forced_exits :: "string option field" where
  "forced_exits = plain_field forced_exit (\<lambda>v s. s\<lparr>forced_exit := v\<rparr>) None"
definition net_pnls :: "f64 option field" where
  "net_pnls = plain_field net_pnl (\<lambda>v s. s\<lparr>net_pnl := v\<rparr>) None"
definition exit_mechanisms :: "string option field" where
  "exit_mechanisms = plain_field exit_mechanism (\<lambda>v s. s\<lparr>exit_mechanism := v\<rparr>) None"
definition exit_pendings :: "(string \<times> string) list field" where
  "exit_pendings = plain_field exit_pending (\<lambda>v s. s\<lparr>exit_pending := v\<rparr>) []"

lemmas field_defs = price_field_def plain_field_def entry_prices_def entry_sls_def entry_tps_def known_volumes_def
  initial_risks_def expected_prices_def entry_atrs_def entry_spreads_def fill_latencies_def modify_sls_def
  entry_confidences_def signal_ages_def entry_reasons_def entry_regimes_def entry_directions_def
  entry_order_ids_def sl_flags_def partial_flags_def rescue_flags_def closed_flags_def entry_timestamps_def
  forced_exits_def net_pnls_def exit_mechanisms_def exit_pendings_def

lemma feq_zero [simp]: "feq 0 0"
  by (simp add: feq_def zero_f64_Fin)

interpretation price_view: state_field entry_prices
  by unfold_locales (simp_all add: field_defs fresh_state_def)
interpretation sl_view: state_field entry_sls
  by unfold_locales (simp_all add: field_defs fresh_state_def)
interpretation modify_view: state_field modify_sls
  by unfold_locales (simp_all add: field_defs fresh_state_def)
interpretation flag_view: state_field sl_flags
  by unfold_locales (simp_all add: field_defs fresh_state_def)
interpretation stamp_view: state_field entry_timestamps
  by unfold_locales (simp_all add: field_defs fresh_state_def)

interpretation stop_pair: field_pair entry_sls modify_sls
  by unfold_locales (simp_all add: field_defs)
interpretation final_pair: field_pair modify_sls entry_sls
  by unfold_locales (simp_all add: field_defs)

section \<open>The stops of a position\<close>

text \<open>
  The block of \<^verbatim>\<open>manage_active_positions\<close> for a position seen for the first time; the entry context
  bound in the middle of it belongs to the pending-order lifecycle and is not written here.
\<close>

definition position_contract_size :: "symbol_info option \<Rightarrow> f64" where
  "position_contract_size si = (case si of
       Some i \<Rightarrow> if 0 < si_trade_contract_size i then si_trade_contract_size i else Fin 100 | None \<Rightarrow> Fin 100)"

definition opening_risk :: "position \<Rightarrow> f64 \<Rightarrow> symbol_info option \<Rightarrow> f64" where
  "opening_risk p atr si =
     (let d = (if 0 < pos_sl p then fabs64 (pos_price_open p - pos_sl p) else atr * fl (15 / 10))
      in pos_volume p * position_contract_size si * d)"

definition direction_value :: "order_type \<Rightarrow> string" where
  "direction_value d = (case d of BUY \<Rightarrow> ''BUY'' | SELL \<Rightarrow> ''SELL'' | BUY_LIMIT \<Rightarrow> ''BUY_LIMIT''
     | SELL_LIMIT \<Rightarrow> ''SELL_LIMIT'' | BUY_STOP \<Rightarrow> ''BUY_STOP'' | SELL_STOP \<Rightarrow> ''SELL_STOP'')"

definition open_ticket ::
  "py_datetime \<Rightarrow> position \<Rightarrow> f64 \<Rightarrow> symbol_info option \<Rightarrow> tick_data \<Rightarrow> store \<Rightarrow> store" where
  "open_ticket pos_time p atr si tick S =
     (let t = pos_ticket p;
          S = dv_set entry_timestamps t (Some pos_time) S;
          S = dv_set entry_prices t (pos_price_open p) S;
          S = dv_set entry_sls t (pos_sl p) S;
          S = dv_set entry_tps t (pos_tp p) S;
          S = dv_set known_volumes t (pos_volume p) S;
          S = dv_set entry_directions t (direction_value (pos_type p)) S;
          S = dv_set initial_risks t (opening_risk p atr si) S;
          S = dv_set sl_flags t False S;
          S = dv_set entry_atrs t atr S
      in dv_set entry_spreads t (pmax 0 (t_ask tick - t_bid tick)) S)"

datatype modification_note = StopNote f64 f64 | TargetNote f64 f64 | PartialNote f64 f64 | VolumeNote f64 f64

definition truthy64 :: "f64 \<Rightarrow> bool" where
  "truthy64 x \<longleftrightarrow> \<not> feq x 0"

definition sync_stop :: "position \<Rightarrow> f64 \<Rightarrow> store \<Rightarrow> modification_note list \<times> store" where
  "sync_stop p old S =
     (let t = pos_ticket p in
      if feq (pos_sl p) old then ([], S)
      else
        let S = dv_set modify_sls t (pos_sl p) S;
            S = dv_set sl_flags t True S;
            e = dv_get entry_sls t (Some (pos_sl p)) S
        in ([StopNote old (pos_sl p)], dv_set entry_sls t (if truthy64 e then e else pos_sl p) S))"

definition sync_target :: "position \<Rightarrow> f64 \<Rightarrow> store \<Rightarrow> modification_note list \<times> store" where
  "sync_target p old S =
     (if feq (pos_tp p) old then ([], S)
      else ([TargetNote old (pos_tp p)], dv_set entry_tps (pos_ticket p) (pos_tp p) S))"

definition sync_volume :: "position \<Rightarrow> f64 \<Rightarrow> symbol_info option \<Rightarrow> f64 \<Rightarrow> store \<Rightarrow> modification_note list \<times> store" where
  "sync_volume p price si old S =
     (if feq (pos_volume p) old then ([], S)
      else
        (if pos_volume p < old
         then let lots = round_nd 2 (old - pos_volume p);
                  delta = (if pos_type p = BUY then price - pos_price_open p else pos_price_open p - price)
              in [PartialNote lots (lots * position_contract_size si * delta)]
         else [VolumeNote old (pos_volume p)],
         dv_set known_volumes (pos_ticket p) (pos_volume p) S))"

text \<open>
  \<open>_sync_external_modifications\<close>, with the calls of the notifier as a list; the three old values
  are read before the first write.
\<close>

definition sync_external :: "position \<Rightarrow> f64 \<Rightarrow> symbol_info option \<Rightarrow> store \<Rightarrow> modification_note list \<times> store" where
  "sync_external p price si S =
     (let t = pos_ticket p in
      if \<not> dv_contains entry_prices t S then ([], S)
      else
        (let old_sl = dv_get entry_sls t (Some 0) S;
             old_tp = dv_get entry_tps t (Some 0) S;
             old_vol = dv_get known_volumes t (Some (pos_volume p)) S;
             (n1, S) = sync_stop p old_sl S;
             (n2, S) = sync_target p old_tp S;
             (n3, S) = sync_volume p price si old_vol S
         in (n1 @ n2 @ n3, S)))"

text \<open>The two writes after every stop modification the broker accepted.\<close>

definition confirm_stop :: "int \<Rightarrow> f64 \<Rightarrow> store \<Rightarrow> store" where
  "confirm_stop t sl S = dv_set sl_flags t True (dv_set modify_sls t sl S)"

text \<open>The stops of the closing row: at entry, at the end, and whether the stop was moved.\<close>

definition autopsy_stops :: "int \<Rightarrow> store \<Rightarrow> f64 \<times> f64 \<times> bool" where
  "autopsy_stops t S =
     (let initial = dv_get entry_sls t (Some 0) S;
          final = dv_get modify_sls t (Some initial) S
      in (initial, final, dv_get sl_flags t (Some False) S \<or> fl (1 / 1000000000) < fabs64 (final - initial)))"

definition dv_drop :: "'v field \<Rightarrow> int \<Rightarrow> store \<Rightarrow> store" where
  "dv_drop F t S = snd (dv_pop F t S)"

text \<open>\<open>_cleanup_ticket_state\<close>, as far as it concerns the store: every view is popped, then the record dropped.\<close>

definition cleanup_ticket :: "int \<Rightarrow> store \<Rightarrow> store" where
  "cleanup_ticket t S =
     (let S = dv_drop partial_flags t S; S = dv_drop expected_prices t S; S = dv_drop entry_atrs t S;
          S = dv_drop entry_spreads t S; S = dv_drop fill_latencies t S; S = dv_drop entry_timestamps t S;
          S = dv_drop rescue_flags t S; S = dv_drop modify_sls t S; S = dv_drop entry_prices t S;
          S = dv_drop entry_sls t S; S = dv_drop entry_tps t S; S = dv_drop known_volumes t S;
          S = dv_drop initial_risks t S; S = dv_drop entry_directions t S; S = dv_drop entry_reasons t S;
          S = dv_drop entry_confidences t S; S = dv_drop entry_regimes t S; S = dv_drop entry_order_ids t S;
          S = dv_drop sl_flags t S; S = dv_drop forced_exits t S; S = dv_drop net_pnls t S;
          S = dv_drop exit_mechanisms t S; S = dv_drop closed_flags t S; S = dv_drop exit_pendings t S
      in st_remove t S)"

section \<open>Frames\<close>

lemma stop_frames:
  "dv_lookup entry_prices k (dv_set modify_sls t x S) = dv_lookup entry_prices k S"
  "dv_lookup entry_prices k (dv_set sl_flags t b S) = dv_lookup entry_prices k S"
  "dv_lookup entry_prices k (dv_set entry_sls t x S) = dv_lookup entry_prices k S"
  "dv_lookup entry_prices k (dv_set entry_tps t x S) = dv_lookup entry_prices k S"
  "dv_lookup entry_prices k (dv_set known_volumes t x S) = dv_lookup entry_prices k S"
  "dv_lookup entry_sls k (dv_set modify_sls t x S) = dv_lookup entry_sls k S"
  "dv_lookup entry_sls k (dv_set sl_flags t b S) = dv_lookup entry_sls k S"
  "dv_lookup entry_sls k (dv_set entry_tps t x S) = dv_lookup entry_sls k S"
  "dv_lookup entry_sls k (dv_set known_volumes t x S) = dv_lookup entry_sls k S"
  "dv_lookup modify_sls k (dv_set sl_flags t b S) = dv_lookup modify_sls k S"
  "dv_lookup modify_sls k (dv_set entry_sls t x S) = dv_lookup modify_sls k S"
  "dv_lookup modify_sls k (dv_set entry_tps t x S) = dv_lookup modify_sls k S"
  "dv_lookup modify_sls k (dv_set known_volumes t x S) = dv_lookup modify_sls k S"
  "dv_lookup entry_timestamps k (dv_set modify_sls t x S) = dv_lookup entry_timestamps k S"
  "dv_lookup entry_timestamps k (dv_set sl_flags t b S) = dv_lookup entry_timestamps k S"
  "dv_lookup entry_timestamps k (dv_set entry_sls t x S) = dv_lookup entry_timestamps k S"
  "dv_lookup entry_timestamps k (dv_set entry_tps t x S) = dv_lookup entry_timestamps k S"
  "dv_lookup entry_timestamps k (dv_set known_volumes t x S) = dv_lookup entry_timestamps k S"
  by ((rule field_pair.other_lookup, unfold_locales; simp add: field_defs fresh_state_def)+)

lemma opening_frames:
  "dv_lookup entry_prices k (dv_set entry_directions t d S) = dv_lookup entry_prices k S"
  "dv_lookup entry_prices k (dv_set initial_risks t x S) = dv_lookup entry_prices k S"
  "dv_lookup entry_prices k (dv_set entry_atrs t x S) = dv_lookup entry_prices k S"
  "dv_lookup entry_prices k (dv_set entry_spreads t x S) = dv_lookup entry_prices k S"
  "dv_lookup entry_sls k (dv_set entry_directions t d S) = dv_lookup entry_sls k S"
  "dv_lookup entry_sls k (dv_set initial_risks t x S) = dv_lookup entry_sls k S"
  "dv_lookup entry_sls k (dv_set entry_atrs t x S) = dv_lookup entry_sls k S"
  "dv_lookup entry_sls k (dv_set entry_spreads t x S) = dv_lookup entry_sls k S"
  "dv_lookup modify_sls k (dv_set entry_directions t d S) = dv_lookup modify_sls k S"
  "dv_lookup modify_sls k (dv_set initial_risks t x S) = dv_lookup modify_sls k S"
  "dv_lookup modify_sls k (dv_set entry_atrs t x S) = dv_lookup modify_sls k S"
  "dv_lookup modify_sls k (dv_set entry_spreads t x S) = dv_lookup modify_sls k S"
  "dv_lookup modify_sls k (dv_set entry_timestamps t y S) = dv_lookup modify_sls k S"
  "dv_lookup modify_sls k (dv_set entry_prices t x S) = dv_lookup modify_sls k S"
  "dv_lookup entry_timestamps k (dv_set entry_directions t d S) = dv_lookup entry_timestamps k S"
  "dv_lookup entry_timestamps k (dv_set initial_risks t x S) = dv_lookup entry_timestamps k S"
  "dv_lookup entry_timestamps k (dv_set entry_atrs t x S) = dv_lookup entry_timestamps k S"
  "dv_lookup entry_timestamps k (dv_set entry_spreads t x S) = dv_lookup entry_timestamps k S"
  "dv_lookup entry_timestamps k (dv_set entry_prices t x S) = dv_lookup entry_timestamps k S"
  by ((rule field_pair.other_lookup, unfold_locales; simp add: field_defs fresh_state_def)+)

lemma price_field_simps:
  "fd_default entry_prices = 0" "fd_default entry_sls = 0" "fd_default modify_sls = 0"
  "fd_ne entry_prices x y \<longleftrightarrow> \<not> feq x y" "fd_ne entry_sls x y \<longleftrightarrow> \<not> feq x y" "fd_ne modify_sls x y \<longleftrightarrow> \<not> feq x y"
  by (simp_all add: field_defs)

lemma stamp_field_simps: "fd_default entry_timestamps = None" "fd_ne entry_timestamps x y \<longleftrightarrow> x \<noteq> y"
  by (simp_all add: field_defs)

section \<open>The stops over a life\<close>

text \<open>
  What a pass of the loop does to the two stop entries of a ticket; \<open>old\<close> is the stop the
  entry view gives.
\<close>

definition sync_store :: "position \<Rightarrow> f64 \<Rightarrow> symbol_info option \<Rightarrow> store \<Rightarrow> store" where
  "sync_store p price si S = snd (sync_external p price si S)"

lemma sync_target_frame:
  "dv_lookup entry_sls k (snd (sync_target p old S)) = dv_lookup entry_sls k S"
  "dv_lookup modify_sls k (snd (sync_target p old S)) = dv_lookup modify_sls k S"
  "dv_lookup entry_prices k (snd (sync_target p old S)) = dv_lookup entry_prices k S"
  by (simp_all add: sync_target_def stop_frames)

lemma sync_volume_frame:
  "dv_lookup entry_sls k (snd (sync_volume p price si old S)) = dv_lookup entry_sls k S"
  "dv_lookup modify_sls k (snd (sync_volume p price si old S)) = dv_lookup modify_sls k S"
  "dv_lookup entry_prices k (snd (sync_volume p price si old S)) = dv_lookup entry_prices k S"
  by (simp_all add: sync_volume_def stop_frames)

lemma sync_stop_lookup:
  "dv_lookup entry_prices k (snd (sync_stop p old S)) = dv_lookup entry_prices k S"
  "dv_lookup modify_sls k (snd (sync_stop p old S)) =
     (if \<not> feq (pos_sl p) old \<and> k = pos_ticket p then if feq (pos_sl p) 0 then None else Some (pos_sl p)
      else dv_lookup modify_sls k S)"
  by (auto simp: sync_stop_def Let_def stop_frames modify_view.lookup_set price_field_simps)

lemma sync_stop_entry:
  assumes "dv_lookup entry_sls (pos_ticket p) S = Some e"
  shows "dv_lookup entry_sls k (snd (sync_stop p old S)) = dv_lookup entry_sls k S"
proof -
  have "\<not> feq e 0" using assms
    by (auto simp: dv_lookup_def dv_present_def price_field_simps split: option.splits if_splits)
  then show ?thesis using assms
    by (auto simp: sync_stop_def Let_def stop_frames sl_view.lookup_set price_field_simps dv_get_def truthy64_def)
qed

lemma sync_store_lookup:
  "dv_lookup entry_prices k (sync_store p price si S) = dv_lookup entry_prices k S"
  "dv_lookup modify_sls k (sync_store p price si S) =
     (if dv_contains entry_prices (pos_ticket p) S \<and> k = pos_ticket p \<and> \<not> feq (pos_sl p) (dv_get entry_sls k (Some 0) S)
      then if feq (pos_sl p) 0 then None else Some (pos_sl p) else dv_lookup modify_sls k S)"
  by (simp_all add: sync_store_def sync_external_def Let_def split_beta sync_target_frame sync_volume_frame
      sync_stop_lookup) auto

lemma sync_store_entry:
  assumes "dv_lookup entry_sls k S = Some e"
  shows "dv_lookup entry_sls k (sync_store p price si S) = Some e"
proof (cases "k = pos_ticket p")
  case True
  then show ?thesis using assms
    by (simp add: sync_store_def sync_external_def Let_def split_beta sync_target_frame sync_volume_frame
        sync_stop_entry)
next
  case False
  then have "dv_lookup entry_sls k (snd (sync_stop p old U)) = dv_lookup entry_sls k U" for old U
    by (simp add: sync_stop_def Let_def stop_frames sl_view.lookup_set)
  then show ?thesis using assms
    by (simp add: sync_store_def sync_external_def Let_def split_beta sync_target_frame sync_volume_frame)
qed

lemma lookup_other: "k \<noteq> t \<Longrightarrow> dv_lookup F k (dv_set G t v S) = dv_lookup F k S"
  by (simp add: dv_lookup_def st_peek_set)

lemma sync_store_other: "k \<noteq> pos_ticket p \<Longrightarrow> dv_lookup F k (sync_store p price si S) = dv_lookup F k S"
  by (simp add: sync_store_def sync_external_def sync_stop_def sync_target_def sync_volume_def Let_def lookup_other split_beta)

lemma open_ticket_other: "k \<noteq> pos_ticket p \<Longrightarrow> dv_lookup F k (open_ticket pt p atr si tick S) = dv_lookup F k S"
  by (simp add: open_ticket_def Let_def lookup_other)

lemma sync_store_stamp: "dv_lookup entry_timestamps k (sync_store p price si S) = dv_lookup entry_timestamps k S"
  by (simp add: sync_store_def sync_external_def sync_stop_def sync_target_def sync_volume_def Let_def stop_frames split_beta)

text \<open>
  What writes the stops of a ticket: the part of a pass that opens an unknown position and then syncs it, a
  stop modification the broker confirmed (the dispatch, the two locks and the trailing engine all end in the same
  two writes), and the cleanup after the close.
\<close>

datatype stop_event =
    SE_Pass py_datetime position f64 f64 "symbol_info option" tick_data
  | SE_Confirm int f64
  | SE_Clean int

fun stop_step :: "store \<Rightarrow> stop_event \<Rightarrow> store" where
  "stop_step S (SE_Pass pt p price atr si tick) =
     sync_store p price si (if dv_contains entry_timestamps (pos_ticket p) S then S else open_ticket pt p atr si tick S)"
| "stop_step S (SE_Confirm t sl) = confirm_stop t sl S"
| "stop_step S (SE_Clean t) = cleanup_ticket t S"

text \<open>The stops recorded for a ticket: confirmed ones, and seen ones that differ from the entry stop \<open>e\<close>.\<close>

fun recorded_stop :: "int \<Rightarrow> f64 \<Rightarrow> stop_event \<Rightarrow> f64 list" where
  "recorded_stop t e (SE_Pass pt p price atr si tick) = (if pos_ticket p = t \<and> \<not> feq (pos_sl p) e then [pos_sl p] else [])"
| "recorded_stop t e (SE_Confirm u sl) = (if u = t then [sl] else [])"
| "recorded_stop t e (SE_Clean u) = []"

definition recorded_stops :: "int \<Rightarrow> f64 \<Rightarrow> stop_event list \<Rightarrow> f64 list" where
  "recorded_stops t e xs = concat (map (recorded_stop t e) xs)"

lemma dv_get_lookup: "dv_lookup F t S = Some v \<Longrightarrow> dv_get F t d S = v"
  by (simp add: dv_get_def)

lemma open_ticket_lookup:
  assumes "0 < pos_price_open p" "\<not> feq (pos_sl p) 0"
  shows "dv_lookup entry_prices (pos_ticket p) (open_ticket pt p atr si tick S) = Some (pos_price_open p)"
    and "dv_lookup entry_sls (pos_ticket p) (open_ticket pt p atr si tick S) = Some (pos_sl p)"
    and "dv_lookup modify_sls k (open_ticket pt p atr si tick S) = dv_lookup modify_sls k S"
proof -
  have "\<not> feq (pos_price_open p) 0" using assms(1) by (cases "pos_price_open p") (auto simp: feq_def zero_f64_Fin)
  then show "dv_lookup entry_prices (pos_ticket p) (open_ticket pt p atr si tick S) = Some (pos_price_open p)"
    by (simp add: open_ticket_def Let_def stop_frames opening_frames price_view.lookup_set price_field_simps)
  show "dv_lookup entry_sls (pos_ticket p) (open_ticket pt p atr si tick S) = Some (pos_sl p)"
    using assms(2) by (simp add: open_ticket_def Let_def stop_frames opening_frames sl_view.lookup_set price_field_simps)
  show "dv_lookup modify_sls k (open_ticket pt p atr si tick S) = dv_lookup modify_sls k S"
    by (simp add: open_ticket_def Let_def stop_frames opening_frames)
qed

section \<open>Cleanup\<close>

lemma st_peek_drop: "st_peek k (dv_drop F t S) = (if k = t \<and> dv_contains F t S then Some (fd_set F (fd_default F) (state_or_fresh t S)) else st_peek k S)"
  by (auto simp: dv_drop_def dv_pop_def dv_contains_def st_peek_set split: option.splits)

lemma cleanup_is_remove: "st_peek k (cleanup_ticket t S) = st_peek k (st_remove t S)"
proof -
  have d: "k \<noteq> t \<Longrightarrow> st_peek k (dv_drop F t U) = st_peek k U" for F :: "'v field" and U
    by (simp add: st_peek_drop)
  show ?thesis
    by (cases "k = t") (simp_all add: cleanup_ticket_def Let_def st_peek_drop)
qed

text \<open>After the cleanup a reused ticket number starts clean in every view.\<close>

lemma cleanup_clears: "dv_lookup F t (cleanup_ticket t S) = None"
  by (simp add: dv_lookup_def cleanup_is_remove)

section \<open>The stops of a ticket over a history\<close>

definition stops_known :: "int \<Rightarrow> f64 \<Rightarrow> f64 list \<Rightarrow> store \<Rightarrow> bool" where
  "stops_known t e ms S \<longleftrightarrow> dv_lookup entry_prices t S \<noteq> None \<and> dv_lookup entry_sls t S = Some e
     \<and> dv_lookup entry_timestamps t S \<noteq> None
     \<and> dv_lookup modify_sls t S = (if ms = [] \<or> feq (last ms) 0 then None else Some (last ms))"

lemma confirm_stop_lookup:
  "dv_lookup modify_sls k (confirm_stop t sl S) =
     (if k = t then if feq sl 0 then None else Some sl else dv_lookup modify_sls k S)"
  "dv_lookup entry_prices k (confirm_stop t sl S) = dv_lookup entry_prices k S"
  "dv_lookup entry_sls k (confirm_stop t sl S) = dv_lookup entry_sls k S"
  "dv_lookup entry_timestamps k (confirm_stop t sl S) = dv_lookup entry_timestamps k S"
  by (simp_all add: confirm_stop_def stop_frames modify_view.lookup_set price_field_simps)

lemma cleanup_other: "k \<noteq> t \<Longrightarrow> dv_lookup F k (cleanup_ticket t S) = dv_lookup F k S"
  by (simp add: dv_lookup_def cleanup_is_remove)

lemma stop_step_known:
  assumes "stops_known t e ms S" and "x \<noteq> SE_Clean t"
  shows "stops_known t e (ms @ recorded_stop t e x) (stop_step S x)"
proof (cases x)
  case (SE_Pass pt p price atr si tick)
  show ?thesis
  proof (cases "pos_ticket p = t")
    case True
    then have "dv_contains entry_timestamps (pos_ticket p) S" "dv_contains entry_prices (pos_ticket p) S"
      "dv_get entry_sls t d S = e" for d
      using assms(1) by (simp_all add: stops_known_def dv_contains_def dv_get_lookup)
    then show ?thesis using assms(1) True SE_Pass sync_store_entry [of t S e p price si]
      by (auto simp: stops_known_def sync_store_lookup sync_store_stamp)
  next
    case False
    then show ?thesis using assms(1) SE_Pass
      by (simp add: stops_known_def sync_store_other open_ticket_other)
  qed
next
  case (SE_Confirm u sl)
  then show ?thesis using assms(1) by (simp add: stops_known_def confirm_stop_lookup)
next
  case (SE_Clean u)
  then show ?thesis using assms by (simp add: stops_known_def cleanup_other)
qed

lemma stop_run_known:
  "stops_known t e ms S \<Longrightarrow> SE_Clean t \<notin> set xs \<Longrightarrow> stops_known t e (ms @ recorded_stops t e xs) (run stop_step S xs)"
proof (induction xs arbitrary: ms S)
  case (Cons x xs)
  then have "stops_known t e (ms @ recorded_stop t e x) (stop_step S x)" by (intro stop_step_known) auto
  then show ?case using Cons.IH [of "ms @ recorded_stop t e x" "stop_step S x"] Cons.prems(2)
    by (simp add: recorded_stops_def)
qed (simp add: recorded_stops_def)

lemma opened_known:
  assumes "0 < pos_price_open p" "pos_sl p = Fin e" "e \<noteq> 0" "st_peek (pos_ticket p) S = None"
  shows "stops_known (pos_ticket p) (Fin e) [] (stop_step S (SE_Pass pt p price atr si tick))"
proof -
  let ?t = "pos_ticket p" and ?U = "open_ticket pt p atr si tick S"
  have n: "\<not> feq (pos_sl p) 0" using assms(2,3) by (simp add: feq_def zero_f64_Fin)
  have no: "\<not> dv_contains entry_timestamps ?t S" "dv_lookup modify_sls ?t S = None"
    by (simp_all add: dv_contains_def dv_lookup_def assms(4))
  have st: "dv_lookup entry_timestamps ?t ?U = Some (Some pt)"
    by (simp add: open_ticket_def Let_def stop_frames opening_frames stamp_view.lookup_set stamp_field_simps)
  note u = open_ticket_lookup [OF assms(1) n, where pt = pt and atr = atr and si = si and tick = tick and S = S]
  have "dv_get entry_sls ?t (Some 0) ?U = Fin e" using u(2) assms(2) by (simp add: dv_get_lookup)
  then have "dv_lookup modify_sls ?t (sync_store p price si ?U) = None"
    using u(3) no(2) assms(2) by (simp add: sync_store_lookup feq_def)
  then show ?thesis using no(1) u sync_store_entry [OF u(2)] st assms(2)
    by (simp add: stops_known_def sync_store_lookup(1) sync_store_stamp)
qed

section \<open>Properties\<close>

text \<open>C35: the stops of the closing row, exactly. A position is opened with a stop \<open>e\<close> (not 0, a number) by the
  first pass that sees its ticket; any history follows of passes over this and other positions, of stop
  modifications the broker confirmed between or inside the passes, and of cleanups of other tickets. Then the row has
  \<open>e\<close> as the stop at entry, and as the final one the last stop recorded: a confirmed stop, or one a
  pass has seen that differs from \<open>e\<close>; \<open>e\<close> itself when there is none or when the last one is 0. So a stop
  that somebody else moves back to the entry value is reported at the place it was moved away to, and a stop
  removed at the broker as never moved.\<close>

theorem final_stop_recorded:
  assumes "0 < pos_price_open p" and "pos_sl p = Fin e" and "e \<noteq> 0" and "st_peek (pos_ticket p) S = None"
    and "SE_Clean (pos_ticket p) \<notin> set xs" and "ms = recorded_stops (pos_ticket p) (Fin e) xs"
    and "autopsy_stops (pos_ticket p) (run stop_step S (SE_Pass pt p price atr si tick # xs)) = (initial, final, moved)"
  shows "initial = Fin e \<and> final = (if ms = [] \<or> feq (last ms) 0 then Fin e else last ms)"
proof -
  define U where "U = run stop_step S (SE_Pass pt p price atr si tick # xs)"
  have "stops_known (pos_ticket p) (Fin e) ms U"
    using stop_run_known [OF opened_known [OF assms(1-4)] assms(5), of pt price atr si tick] by (simp add: U_def assms(6))
  then show ?thesis using assms(7) unfolding U_def [symmetric]
    by (auto simp: stops_known_def autopsy_stops_def Let_def dv_get_def)
qed

text \<open>every pass over a position whose stop is not the one it was opened with asks for a
  notification of a modification from the entry stop, however often the same stop has been seen
  before, and whoever moved it.\<close>

theorem moved_stop_notified_every_pass:
  assumes "stops_known (pos_ticket q) e ms S" and "SE_Clean (pos_ticket q) \<notin> set xs" and "\<not> feq (pos_sl q) e"
  shows "StopNote e (pos_sl q) \<in> set (fst (sync_external q price si (run stop_step S xs)))"
proof -
  define U where "U = run stop_step S xs"
  have "stops_known (pos_ticket q) e (ms @ recorded_stops (pos_ticket q) e xs) U"
    unfolding U_def by (rule stop_run_known [OF assms(1,2)])
  then have "dv_contains entry_prices (pos_ticket q) U" "dv_get entry_sls (pos_ticket q) d U = e" for d
    by (simp_all add: stops_known_def dv_contains_def dv_get_lookup)
  then show ?thesis unfolding U_def [symmetric] using assms(3)
    by (simp add: sync_external_def Let_def split_beta sync_stop_def)
qed

text \<open>A position opened without a stop takes the first stop seen later as its stop at entry.\<close>

lemma late_stop_becomes_entry_stop:
  assumes "0 < pos_price_open p" "feq (pos_sl p) 0" "pos_ticket q = pos_ticket p" "\<not> feq (pos_sl q) 0"
  shows "\<exists>b. autopsy_stops (pos_ticket p) (sync_store q price si (open_ticket pt p atr si' tick S)) = (pos_sl q, pos_sl q, b)"
proof -
  define U where "U = open_ticket pt p atr si' tick S"
  have "\<not> feq (pos_price_open p) 0" using assms(1) by (cases "pos_price_open p") (auto simp: feq_def zero_f64_Fin)
  then have c: "dv_contains entry_prices (pos_ticket q) U"
    by (simp add: U_def assms(3) dv_contains_def open_ticket_def Let_def stop_frames opening_frames
        price_view.lookup_set price_field_simps)
  have n: "dv_lookup entry_sls (pos_ticket p) U = None"
    using assms(2) by (simp add: U_def open_ticket_def Let_def stop_frames opening_frames sl_view.lookup_set price_field_simps)
  have e: "dv_lookup entry_sls (pos_ticket p) (sync_store q price si U) = Some (pos_sl q)"
    using c n assms(3,4)
    by (simp add: sync_store_def sync_external_def Let_def split_beta sync_target_frame sync_volume_frame sync_stop_def
        dv_get_def stop_frames sl_view.lookup_set price_field_simps truthy64_def)
  have f: "dv_lookup modify_sls (pos_ticket p) (sync_store q price si U) = Some (pos_sl q)"
    using c n assms(3,4) by (simp add: sync_store_lookup dv_get_def)
  show ?thesis unfolding U_def [symmetric]
    by (simp add: autopsy_stops_def Let_def dv_get_lookup [OF e] dv_get_lookup [OF f])
qed

definition sample_position :: "f64 \<Rightarrow> position" where
  "sample_position sl = \<lparr>pos_ticket = 7, pos_symbol = ''XAUUSD'', pos_type = BUY, pos_volume = 1, pos_price_open = Fin 2000,
     pos_sl = sl, pos_tp = Fin 2010, pos_profit = 0, pos_magic = 1\<rparr>"

definition sample_track_tick :: tick_data where
  "sample_track_tick = \<lparr>t_symbol = ''XAUUSD'', t_timestamp = \<lparr>dt_wall = 0, dt_off = Some 0\<rparr>, t_bid = Fin 2000, t_ask = Fin 2000,
     t_last = Fin 2000, t_volume = 1, t_flags = 0\<rparr>"

definition sample_pass :: "f64 \<Rightarrow> stop_event" where
  "sample_pass sl = SE_Pass \<lparr>dt_wall = 0, dt_off = Some 0\<rparr> (sample_position sl) (Fin 2000) 1 None sample_track_tick"

definition sample_store :: "f64 \<Rightarrow> stop_event list \<Rightarrow> store" where
  "sample_store sl xs = run stop_step [] (sample_pass sl # xs)"

lemma sample_position_simps [simp]:
  "pos_ticket (sample_position s) = 7" "pos_sl (sample_position s) = s" "pos_price_open (sample_position s) = Fin 2000"
  by (simp_all add: sample_position_def)

lemma final_stop_recorded_witness:
  "fst (snd (autopsy_stops 7 (sample_store (Fin 1990) [sample_pass (Fin 1995), sample_pass (Fin 1990)]))) = Fin 1995
   \<and> fst (snd (autopsy_stops 7 (sample_store (Fin 1990) [SE_Confirm 7 (Fin 1997)]))) = Fin 1997
   \<and> fst (snd (autopsy_stops 7 (sample_store (Fin 1990) [sample_pass (Fin 1995), SE_Clean 8, sample_pass (Fin 0)]))) = Fin 1990"
proof -
  have o: "0 < pos_price_open (sample_position (Fin 1990))" "pos_sl (sample_position (Fin 1990)) = Fin 1990"
    "(1990 :: rat) \<noteq> 0" "st_peek (pos_ticket (sample_position (Fin 1990))) [] = None"
    by (simp_all add: zero_f64_Fin st_peek_def)
  have row: "fst (snd (autopsy_stops 7 (sample_store (Fin 1990) xs)))
      = (if recorded_stops 7 (Fin 1990) xs = [] \<or> feq (last (recorded_stops 7 (Fin 1990) xs)) 0 then Fin 1990
         else last (recorded_stops 7 (Fin 1990) xs))" if "SE_Clean 7 \<notin> set xs" for xs
  proof -
    obtain i f m where r: "autopsy_stops 7 (sample_store (Fin 1990) xs) = (i, f, m)" by (cases "autopsy_stops 7 (sample_store (Fin 1990) xs)")
    note r' = r [unfolded sample_store_def sample_pass_def]
    have c: "SE_Clean (pos_ticket (sample_position (Fin 1990))) \<notin> set xs" using that by simp
    show ?thesis
      using final_stop_recorded [OF o c refl, unfolded sample_position_simps, OF r'] r by simp
  qed
  show ?thesis by (simp add: row sample_pass_def recorded_stops_def feq_def zero_f64_Fin)
qed

lemma moved_stop_notified_every_pass_witness:
  "StopNote (Fin 1990) (Fin 1995)
     \<in> set (fst (sync_external (sample_position (Fin 1995)) (Fin 2000) None (sample_store (Fin 1990) [SE_Confirm 7 (Fin 1995)])))"
proof -
  have k: "stops_known (pos_ticket (sample_position (Fin 1995))) (Fin 1990) [] (stop_step [] (sample_pass (Fin 1990)))"
    using opened_known [of "sample_position (Fin 1990)" 1990 "[]"] by (simp add: sample_pass_def zero_f64_Fin st_peek_def)
  show ?thesis
    using moved_stop_notified_every_pass [OF k, of "[SE_Confirm 7 (Fin 1995)]"]
    by (simp add: sample_store_def feq_def)
qed

end
