(* ===== verification/PositionMetrics.thy ===== *)
theory PositionMetrics
  imports PyNum Domain
begin

text \<open>
  \<^verbatim>\<open>execution/position_intelligence.py\<close>: the metrics of an open position that the scenario router
  and the hold score read, and the estimate of the cost of a liquidation. The inputs are the
  fields of \<open>SmartMetricsInputs\<close>; of the feature vector only the fields the kernel reads are kept.
\<close>

section \<open>Inputs\<close>

record pos_features =
  px_above_kumo :: bool
  px_below_kumo :: bool
  px_choch_bullish :: bool
  px_choch_bearish :: bool
  px_sweep_signal :: int
  px_tenkan :: f64
  px_kijun :: f64
  px_extreme_high :: bool
  px_extreme_low :: bool
  px_rapid_reversal :: bool

record metric_inputs =
  mi_pos :: position
  mi_price :: f64
  mi_mid :: f64
  mi_spread :: f64
  mi_atr :: f64
  mi_net :: f64
  mi_gross :: f64
  mi_impact :: f64
  mi_total_impact :: f64
  mi_holding :: f64
  mi_features :: "pos_features option"
  mi_symbol :: "symbol_info option"
  mi_be_trigger :: f64
  mi_trailing :: f64
  mi_max_holding :: f64
  mi_sl_buffer :: f64
  mi_rescue :: bool
  mi_desync :: f64
  mi_mfe :: f64
  mi_mae :: f64
  mi_adverse :: int
  mi_favorable :: int
  mi_stagnation :: int

text \<open>\<open>_safe_feature_float\<close>: the value as a float where the conversion succeeds, None where it raises.\<close>

definition safe_feature_float :: "f64 option option \<Rightarrow> f64 \<Rightarrow> f64" where
  "safe_feature_float v d = (case v of
       None \<Rightarrow> d | Some None \<Rightarrow> d | Some (Some x) \<Rightarrow> if isfinite x then x else d)"

definition estimate_liquidation_impact :: "f64 \<Rightarrow> symbol_info option \<Rightarrow> f64 \<Rightarrow> f64 \<Rightarrow> f64 \<times> f64" where
  "estimate_liquidation_impact volume si atr eta =
     (let cs = (case si of Some i \<Rightarrow> if 0 < si_trade_contract_size i then si_trade_contract_size i else Fin 100
                         | None \<Rightarrow> Fin 100);
          total = eta * (volume / cs) * pmax atr (fl (1 / 2))
      in (total, total / pmax (volume * cs) 1))"

section \<open>The conflict scores and the danger tier\<close>

definition flag :: "bool \<Rightarrow> f64" where
  "flag b = (if b then 1 else 0)"

definition kumo_conflict :: "order_type \<Rightarrow> pos_features \<Rightarrow> bool" where
  "kumo_conflict d f \<longleftrightarrow> (d = BUY \<and> px_below_kumo f) \<or> (d = SELL \<and> px_above_kumo f)"

definition choch_conflict :: "order_type \<Rightarrow> pos_features \<Rightarrow> bool" where
  "choch_conflict d f \<longleftrightarrow> (d = BUY \<and> px_choch_bearish f) \<or> (d = SELL \<and> px_choch_bullish f)"

definition sweep_conflict :: "order_type \<Rightarrow> pos_features \<Rightarrow> bool" where
  "sweep_conflict d f \<longleftrightarrow> (d = BUY \<and> px_sweep_signal f = - 1) \<or> (d = SELL \<and> px_sweep_signal f = 1)"

definition tenkan_conflict :: "order_type \<Rightarrow> pos_features \<Rightarrow> bool" where
  "tenkan_conflict d f \<longleftrightarrow> (d = BUY \<and> px_tenkan f < px_kijun f) \<or> (d = SELL \<and> px_kijun f < px_tenkan f)"

definition extreme_conflict :: "order_type \<Rightarrow> pos_features \<Rightarrow> bool" where
  "extreme_conflict d f \<longleftrightarrow> (d = BUY \<and> px_extreme_high f) \<or> (d = SELL \<and> px_extreme_low f)"

definition conflict_of :: "(order_type \<Rightarrow> pos_features \<Rightarrow> bool) \<Rightarrow> metric_inputs \<Rightarrow> f64" where
  "conflict_of c i = (case mi_features i of None \<Rightarrow> 0 | Some f \<Rightarrow> flag (c (pos_type (mi_pos i)) f))"

definition directional_conflict :: "metric_inputs \<Rightarrow> f64" where
  "directional_conflict i =
     conflict_of kumo_conflict i * fl (25 / 100) + conflict_of choch_conflict i * fl (25 / 100)
       + conflict_of sweep_conflict i * fl (20 / 100) + conflict_of tenkan_conflict i * fl (15 / 100)
       + conflict_of extreme_conflict i * fl (15 / 100)"

datatype danger_tier = NORMAL | CRITICAL_KILL | HIGH_DANGER | ELEVATED_RISK | MODERATE_WARN

definition eps_metric :: f64 where
  "eps_metric = fl (1 / 1000000000)"

definition over_atr :: "f64 \<Rightarrow> metric_inputs \<Rightarrow> f64" where
  "over_atr x i = x / pmax (mi_atr i) eps_metric"

definition mae_to_atr :: "metric_inputs \<Rightarrow> f64" where
  "mae_to_atr i = fabs64 (pmin (mi_mae i) 0) / pmax (mi_atr i) eps_metric"

definition mfe_to_atr :: "metric_inputs \<Rightarrow> f64" where
  "mfe_to_atr i = pmax (mi_mfe i) 0 / pmax (mi_atr i) eps_metric"

definition total_ticks :: "metric_inputs \<Rightarrow> int" where
  "total_ticks i = max (mi_adverse i + mi_favorable i + mi_stagnation i) 1"

definition tick_share :: "int \<Rightarrow> metric_inputs \<Rightarrow> f64" where
  "tick_share n i = fl (of_int n / of_int (total_ticks i))"

definition desync_flag :: "metric_inputs \<Rightarrow> bool" where
  "desync_flag i \<longleftrightarrow> Fin 15 < mi_desync i"

definition critical_kill :: "metric_inputs \<Rightarrow> bool" where
  "critical_kill i \<longleftrightarrow>
     (fl (70 / 100) \<le> directional_conflict i \<and> mi_net i < - (mi_atr i * fl (40 / 100))) \<or> Fin 30 < mi_desync i"

definition danger_of :: "metric_inputs \<Rightarrow> danger_tier" where
  "danger_of i =
     (if critical_kill i then CRITICAL_KILL
      else if fl (50 / 100) \<le> directional_conflict i \<or> fl (120 / 100) < mae_to_atr i \<or> desync_flag i then HIGH_DANGER
      else if fl (30 / 100) \<le> directional_conflict i \<or> fl (60 / 100) < tick_share (mi_stagnation i) i then ELEVATED_RISK
      else if fl (20 / 100) < over_atr (mi_spread i) i then MODERATE_WARN else NORMAL)"

section \<open>The metrics\<close>

text \<open>Python's \<^verbatim>\<open>%\<close> on floats, the sign following the divisor.\<close>

fun fmod64 :: "f64 \<Rightarrow> f64 \<Rightarrow> f64 res" where
  "fmod64 (Fin a) (Fin b) = (if b = 0 then raise ZeroDivisionError else ret (fl (a - b * of_int \<lfloor>a / b\<rfloor>)))"
| "fmod64 (Fin a) PInf = ret (if 0 \<le> a then Fin a else PInf)"
| "fmod64 (Fin a) NInf = ret (if a \<le> 0 then Fin a else NInf)"
| "fmod64 x y = (if feq y 0 then raise ZeroDivisionError else ret NaN)"

record metrics =
  sm_spread_to_atr :: f64
  sm_impact_to_atr :: f64
  sm_net_to_atr :: f64
  sm_gross_to_atr :: f64
  sm_mae_to_atr :: f64
  sm_mfe_to_atr :: f64
  sm_mfe_mae_efficiency :: f64
  sm_mfe_giveback_ratio :: f64
  sm_adverse_pressure :: f64
  sm_favorable_pressure :: f64
  sm_stagnation_pressure :: f64
  sm_time_decay_ratio :: f64
  sm_age_bucket :: int
  sm_size_pressure :: f64
  sm_volume_step_pressure :: f64
  sm_contract_pressure :: f64
  sm_liquidity_depletion :: f64
  sm_impact_to_net :: f64
  sm_impact_to_gross :: f64
  sm_spread_impact :: f64
  sm_breakeven_quality :: f64
  sm_trailing_quality :: f64
  sm_risk_reward_decay :: f64
  sm_recovery_ratio :: f64
  sm_adverse_velocity :: f64
  sm_favorable_velocity :: f64
  sm_stagnation_ticks :: int
  sm_adverse_ticks :: int
  sm_favorable_ticks :: int
  sm_missed_rescue :: bool
  sm_no_sl_risk :: bool
  sm_sl_to_atr :: f64
  sm_tp_to_atr :: f64
  sm_sl_tp_asymmetry :: f64
  sm_stop_gap_pressure :: f64
  sm_wick_tolerance :: f64
  sm_volatility_score :: f64
  sm_trend_conflict :: f64
  sm_kumo_conflict :: f64
  sm_choch_conflict :: f64
  sm_sweep_conflict :: f64
  sm_tenkan_conflict :: f64
  sm_extreme_conflict :: f64
  sm_rapid_conflict :: f64
  sm_directional_conflict :: f64
  sm_desync :: f64
  sm_desync_flag :: bool
  sm_danger :: danger_tier
  sm_kill_switch :: bool
  sm_time_decay_exit :: bool
  sm_soft_rescue_exit :: bool
  sm_defer_stops :: bool
  sm_defer_scale :: bool
  sm_be_trigger :: f64
  sm_trailing :: f64
  sm_tp1_multiplier :: f64
  sm_rescue_quality :: f64

definition volume_step_of :: "metric_inputs \<Rightarrow> f64" where
  "volume_step_of i = (case mi_symbol i of
       Some s \<Rightarrow> if 0 < si_volume_step s then si_volume_step s else fl (1 / 100) | None \<Rightarrow> fl (1 / 100))"

definition metric_contract_size :: "metric_inputs \<Rightarrow> f64" where
  "metric_contract_size i = (case mi_symbol i of
       Some s \<Rightarrow> if 0 < si_trade_contract_size s then si_trade_contract_size s else Fin 100 | None \<Rightarrow> Fin 100)"

definition metric_stop_gap :: "metric_inputs \<Rightarrow> f64" where
  "metric_stop_gap i = (case mi_symbol i of
       Some s \<Rightarrow> if 0 < si_stops_level s then float_of_int (si_stops_level s) * si_point s else 0 | None \<Rightarrow> 0)"

definition impact_ratio :: "f64 \<Rightarrow> metric_inputs \<Rightarrow> f64" where
  "impact_ratio d i =
     pmin (Fin 5) (mi_impact i / pmax (pmax (fabs64 d) (mi_atr i * fl (1 / 2))) (fl (10 / 100)))"

definition sl_to_atr :: "metric_inputs \<Rightarrow> f64" where
  "sl_to_atr i =
     (let p = mi_pos i
      in over_atr (if 0 < pos_sl p then fabs64 (pos_price_open p - pos_sl p) else mi_atr i * fl (15 / 10)) i)"

definition tp_to_atr :: "metric_inputs \<Rightarrow> f64" where
  "tp_to_atr i =
     (let p = mi_pos i
      in over_atr (if 0 < pos_tp p then fabs64 (pos_tp p - pos_price_open p) else mi_atr i * fl (25 / 10)) i)"

definition calculate_smart_metrics :: "metric_inputs \<Rightarrow> metrics res" where
  "calculate_smart_metrics i =
    bindR (floor64 (mi_holding i / Fin 60)) (\<lambda>bucket.
    bindR (fmod64 (pos_volume (mi_pos i)) (volume_step_of i)) (\<lambda>rest.
    let p = mi_pos i; gross = mi_gross i; net = mi_net i; mae = mi_mae i; mfe = mi_mfe i; atr = mi_atr i;
        hold = mi_holding i; impact_atr = over_atr (mi_impact i) i; spread_atr = over_atr (mi_spread i) i;
        dir = directional_conflict i; toxicity = impact_ratio net i; size = pos_volume p / 1
    in ret \<lparr>
      sm_spread_to_atr = spread_atr, sm_impact_to_atr = impact_atr, sm_net_to_atr = over_atr net i,
      sm_gross_to_atr = over_atr gross i, sm_mae_to_atr = mae_to_atr i, sm_mfe_to_atr = mfe_to_atr i,
      sm_mfe_mae_efficiency = pmax mfe 0 / pmax (fabs64 mae) (fl (10 / 100)),
      sm_mfe_giveback_ratio = pmax (mfe - gross) 0 / pmax (fabs64 mfe) (fl (10 / 100)),
      sm_adverse_pressure = tick_share (mi_adverse i) i, sm_favorable_pressure = tick_share (mi_favorable i) i,
      sm_stagnation_pressure = tick_share (mi_stagnation i) i,
      sm_time_decay_ratio = hold / pmax (mi_max_holding i) 1, sm_age_bucket = bucket, sm_size_pressure = size,
      sm_volume_step_pressure = rest / volume_step_of i,
      sm_contract_pressure = pos_volume p * metric_contract_size i / Fin 100,
      sm_liquidity_depletion = impact_atr * size, sm_impact_to_net = toxicity,
      sm_impact_to_gross = impact_ratio gross i, sm_spread_impact = spread_atr + impact_atr,
      sm_breakeven_quality = pmax 0 (net - mi_be_trigger i),
      sm_trailing_quality = pmax 0 (net - (mi_be_trigger i + mi_trailing i)),
      sm_risk_reward_decay = mae_to_atr i / pmax (mfe_to_atr i) (fl (10 / 100)),
      sm_recovery_ratio = (gross - mae) / pmax (mfe - mae) eps_metric,
      sm_adverse_velocity = fabs64 (pmin mae 0) / pmax hold 1, sm_favorable_velocity = pmax mfe 0 / pmax hold 1,
      sm_stagnation_ticks = mi_stagnation i, sm_adverse_ticks = mi_adverse i, sm_favorable_ticks = mi_favorable i,
      sm_missed_rescue = (Fin 120 < hold \<and> \<not> mi_rescue i), sm_no_sl_risk = (pos_sl p \<le> 0),
      sm_sl_to_atr = sl_to_atr i, sm_tp_to_atr = tp_to_atr i,
      sm_sl_tp_asymmetry = tp_to_atr i / pmax (sl_to_atr i) eps_metric,
      sm_stop_gap_pressure = over_atr (metric_stop_gap i) i, sm_wick_tolerance = over_atr (atr * fl (50 / 100)) i,
      sm_volatility_score = atr / fl (150 / 100), sm_trend_conflict = 0,
      sm_kumo_conflict = conflict_of kumo_conflict i, sm_choch_conflict = conflict_of choch_conflict i,
      sm_sweep_conflict = conflict_of sweep_conflict i, sm_tenkan_conflict = conflict_of tenkan_conflict i,
      sm_extreme_conflict = conflict_of extreme_conflict i,
      sm_rapid_conflict = conflict_of (\<lambda>_ f. px_rapid_reversal f) i, sm_directional_conflict = dir,
      sm_desync = mi_desync i, sm_desync_flag = desync_flag i, sm_danger = danger_of i,
      sm_kill_switch = critical_kill i,
      sm_time_decay_exit = (mi_max_holding i < hold \<and> net < fl (10 / 100)),
      sm_soft_rescue_exit = (mae < - (atr * fl (80 / 100)) \<and> mfe < atr * fl (20 / 100) \<and> net < 0),
      sm_defer_stops = (fl (60 / 100) < toxicity \<or> desync_flag i),
      sm_defer_scale = (fl (25 / 100) < spread_atr \<or> desync_flag i),
      sm_be_trigger = pmax (mi_be_trigger i)
        (round_nd 2 (atr * fl (30 / 100) * mi_sl_buffer i + mi_impact i)),
      sm_trailing = pmax (mi_trailing i) (round_nd 2 (atr * fl (80 / 100) * mi_sl_buffer i + mi_impact i)),
      sm_tp1_multiplier = fl (150 / 100) + impact_atr,
      sm_rescue_quality = pmax 0 (Fin 100 - mi_desync i * Fin 2 - dir * Fin 40)\<rparr>))"

section \<open>The router reads a kill switch only in the critical tier\<close>

lemma metrics_fields:
  assumes "calculate_smart_metrics i = ret m"
  shows "sm_kill_switch m \<longleftrightarrow> critical_kill i" "sm_danger m = danger_of i" "sm_desync m = mi_desync i"
    "sm_impact_to_net m = impact_ratio (mi_net i) i" "sm_no_sl_risk m \<longleftrightarrow> pos_sl (mi_pos i) \<le> 0"
    "sm_time_decay_exit m \<longleftrightarrow> mi_max_holding i < mi_holding i \<and> mi_net i < fl (10 / 100)"
  using assms by (auto simp: calculate_smart_metrics_def Let_def ret_def bindR_eq_Inr)

lemma kill_switch_is_critical:
  "calculate_smart_metrics i = ret m \<Longrightarrow> sm_kill_switch m \<longleftrightarrow> sm_danger m = CRITICAL_KILL"
  by (auto simp: metrics_fields danger_of_def)

text \<open>The kernel returns whenever the holding time is finite and the volume and its step are positive.\<close>

lemma floor64_total: "isfinite x \<Longrightarrow> \<exists>n. floor64 x = ret n"
  by (cases x) auto

lemma fmod64_total:
  assumes "\<not> feq y 0"
  shows "\<exists>z. fmod64 x y = ret z"
  using assms by (cases x; cases y) (auto simp: feq_def zero_f64_Fin)

lemma smart_metrics_total:
  assumes "isfinite (mi_holding i / Fin 60)"
  shows "\<exists>m. calculate_smart_metrics i = ret m"
proof -
  have "\<not> feq (volume_step_of i) 0"
  proof -
    have "\<not> feq (fl (1 / 100)) 0" by code_simp
    moreover have "\<not> feq x 0" if "0 < x" for x :: f64
      using that by (cases x) (auto simp: feq_def zero_f64_Fin)
    ultimately show ?thesis by (auto simp: volume_step_of_def split: option.splits)
  qed
  then obtain n r where "floor64 (mi_holding i / Fin 60) = ret n"
    "fmod64 (pos_volume (mi_pos i)) (volume_step_of i) = ret r"
    using floor64_total [OF assms] fmod64_total by blast
  then show ?thesis by (simp add: calculate_smart_metrics_def Let_def)
qed

end
