(* ===== verification/Scoring.thy ===== *)
theory Scoring
  imports Protection PositionTracker PositionMetrics
begin

text \<open>
  \<^verbatim>\<open>execution/lifecycle/scoring.py\<close>: the trajectory of an open position, the features and evidence
  computed from it, the protection score, the hold-value score and the test for an exit at the
  smallest loss. The views of the order manager a score reads (the stop at entry, the entry time,
  the time in drawdown, the rolling spreads) are arguments. The power with exponent 3/2 is the C
  library's and is an argument too. The texts of the reasons are values of a datatype.
\<close>

section \<open>The trajectory\<close>

record eval_step =
  es_time :: py_datetime
  es_pnl :: f64
  es_price :: f64
  es_hold :: int
  es_drawdown :: f64
  es_retention :: f64
  es_atr :: f64
  es_volatility :: f64

text \<open>A deque of at most one hundred steps per ticket; the oldest step falls out.\<close>

type_synonym trajectory = "int \<Rightarrow> eval_step list"

definition keep_last :: "nat \<Rightarrow> 'a list \<Rightarrow> 'a list" where
  "keep_last n xs = List.drop (length xs - n) xs"

definition add_trajectory_step :: "int \<Rightarrow> eval_step \<Rightarrow> trajectory \<Rightarrow> trajectory" where
  "add_trajectory_step t s H = H(t := keep_last 100 (H t @ [s]))"

definition drop_trajectory :: "int \<Rightarrow> trajectory \<Rightarrow> trajectory" where
  "drop_trajectory t H = H(t := [])"

record pnl_features =
  pf_slope :: f64
  pf_price_slope :: f64
  pf_dd_velocity :: f64
  pf_dd_acceleration :: f64
  pf_recovery_velocity :: f64
  pf_since_peak :: f64
  pf_below_entry :: f64
  pf_below_breakeven :: f64
  pf_be_velocity :: f64

definition no_features :: pnl_features where
  "no_features = \<lparr>pf_slope = 0, pf_price_slope = 0, pf_dd_velocity = 0, pf_dd_acceleration = 0,
     pf_recovery_velocity = 0, pf_since_peak = 0, pf_below_entry = 0, pf_below_breakeven = 0, pf_be_velocity = 0\<rparr>"

definition step_gap :: "eval_step \<Rightarrow> eval_step \<Rightarrow> f64" where
  "step_gap a b = total_seconds (instant (es_time b) - instant (es_time a))"

definition positive_gap :: "eval_step \<Rightarrow> eval_step \<Rightarrow> f64" where
  "positive_gap a b = (let d = step_gap a b in if d \<le> 0 then fl (1 / 10) else d)"

definition peak_step :: "eval_step \<Rightarrow> eval_step list \<Rightarrow> eval_step" where
  "peak_step s ss = foldl (\<lambda>best x. if es_pnl best < es_pnl x then x else best) s ss"

fun time_below :: "f64 \<Rightarrow> f64 \<Rightarrow> eval_step \<Rightarrow> eval_step list \<Rightarrow> f64" where
  "time_below level acc prev [] = acc"
| "time_below level acc prev (s # ss) =
     time_below level (if es_pnl s < level then acc + step_gap prev s else acc) s ss"

definition trajectory_features :: "eval_step list \<Rightarrow> pnl_features" where
  "trajectory_features h =
     (if length h < 2 then no_features
      else
        (let w = keep_last 10 h; first = hd w; final = last w; dt = positive_gap first final;
             slope = (es_pnl final - es_pnl first) / dt;
             prev = w ! (length w - 2); dt_last = positive_gap prev final;
             dd = (es_drawdown final - es_drawdown prev) / dt_last;
             acc = (if 3 \<le> length w
                    then let pp = w ! (length w - 3)
                         in (dd - (es_drawdown prev - es_drawdown pp) / positive_gap pp prev) / dt_last
                    else 0)
         in \<lparr>pf_slope = slope, pf_price_slope = (es_price final - es_price first) / dt, pf_dd_velocity = dd,
              pf_dd_acceleration = acc, pf_recovery_velocity = (if 0 < slope then slope else 0),
              pf_since_peak = pmax 0 (step_gap (peak_step (hd h) (List.tl h)) final),
              pf_below_entry = pmax 0 (time_below 0 0 (hd h) (List.tl h)),
              pf_below_breakeven = pmax 0 (time_below (fl (20 / 100)) 0 (hd h) (List.tl h)),
              pf_be_velocity = (if es_pnl final < 0 \<and> es_pnl prev < 0
                                then (fabs64 (es_pnl final) - fabs64 (es_pnl prev)) / dt_last else 0)\<rparr>))"

section \<open>Evidence\<close>

record evidence =
  ev_continuation :: f64
  ev_adverse :: f64
  ev_recovery :: f64

definition unit_clip :: "f64 \<Rightarrow> f64" where
  "unit_clip x = pmax 0 (pmin 1 x)"

definition nth_or :: "f64 \<Rightarrow> f64 list \<Rightarrow> nat \<Rightarrow> f64" where
  "nth_or d xs i = (if i < length xs then xs ! i else d)"

text \<open>The model's own and opposite probability, normalised; None where the block raises.\<close>

definition model_evidence :: "bool \<Rightarrow> probs_view \<Rightarrow> (f64 \<times> f64) option" where
  "model_evidence long p =
     (case (case p of ProbsRaise \<Rightarrow> None | ProbsScalar x \<Rightarrow> Some [x] | ProbsList xs \<Rightarrow> Some xs) of
        None \<Rightarrow> None
      | Some xs \<Rightarrow>
          let nt = nth_or (fl (4 / 10)) xs 0; b = nth_or (fl (3 / 10)) xs 1; s = nth_or (fl (3 / 10)) xs 2;
              total = nt + b + s + fl (1 / 1000000000)
          in if feq total 0 then None
             else Some (if long then (b / total, s / total) else (s / total, b / total)))"

definition kumo_step :: "bool \<Rightarrow> pos_features \<Rightarrow> f64 \<times> f64 \<Rightarrow> f64 \<times> f64" where
  "kumo_step long f = (\<lambda>(c, a).
     if long \<and> px_above_kumo f then (c + fl (15 / 100), a)
     else if long \<and> px_below_kumo f then (c, a + fl (15 / 100))
     else if \<not> long \<and> px_below_kumo f then (c + fl (15 / 100), a)
     else if \<not> long \<and> px_above_kumo f then (c, a + fl (15 / 100)) else (c, a))"

definition choch_step :: "bool \<Rightarrow> pos_features \<Rightarrow> f64 \<times> f64 \<Rightarrow> f64 \<times> f64" where
  "choch_step long f = (\<lambda>(c, a).
     if long \<and> px_choch_bullish f then (c + fl (10 / 100), a)
     else if long \<and> px_choch_bearish f then (c, a + fl (10 / 100))
     else if \<not> long \<and> px_choch_bearish f then (c + fl (10 / 100), a)
     else if \<not> long \<and> px_choch_bullish f then (c, a + fl (10 / 100)) else (c, a))"

definition slope_step :: "f64 \<Rightarrow> f64 \<times> f64 \<Rightarrow> f64 \<times> f64" where
  "slope_step slope = (\<lambda>(c, a).
     if 0 < slope then (c + fl (10 / 100), a - fl (5 / 100))
     else if slope < 0 then (c - fl (5 / 100), a + fl (10 / 100)) else (c, a))"

definition fallback_evidence :: "bool \<Rightarrow> pos_features option \<Rightarrow> f64 \<Rightarrow> f64 \<times> f64" where
  "fallback_evidence long fs slope =
     (let base = (fl (40 / 100), fl (40 / 100));
          ca = slope_step slope (case fs of None \<Rightarrow> base | Some f \<Rightarrow> choch_step long f (kumo_step long f base));
          total = fst ca + snd ca + fl (20 / 100)
      in (fst ca / total, snd ca / total))"

definition adaptive_evidence :: "position \<Rightarrow> probs_view option \<Rightarrow> pos_features option \<Rightarrow> pnl_features \<Rightarrow> evidence" where
  "adaptive_evidence p probs fs pf =
     (let long = (pos_type p = BUY);
          (c, a) = (case (case probs of None \<Rightarrow> None | Some v \<Rightarrow> model_evidence long v) of
                      Some ca \<Rightarrow> ca | None \<Rightarrow> fallback_evidence long fs (pf_slope pf));
          vel = pmin 1 (pmax 0 (pf_recovery_velocity pf * Fin 5));
          r = fl (70 / 100) * c + fl (30 / 100) * vel
      in \<lparr>ev_continuation = unit_clip c, ev_adverse = unit_clip a, ev_recovery = unit_clip r\<rparr>)"

section \<open>The protection score\<close>

record score_weights =
  sw_profit :: f64
  sw_pnl :: f64
  sw_dd :: f64
  sw_reversal :: f64
  sw_recovery :: f64
  sw_hold :: f64

definition default_weights :: score_weights where
  "default_weights = \<lparr>sw_profit = fl (30 / 100), sw_pnl = fl (15 / 100), sw_dd = fl (15 / 100),
     sw_reversal = fl (20 / 100), sw_recovery = fl (10 / 100), sw_hold = fl (10 / 100)\<rparr>"

definition giveback_severity :: "f64 \<Rightarrow> f64 \<Rightarrow> f64" where
  "giveback_severity peak pnl =
     (if peak < PROFIT_GIVEBACK_PEAK_USD then 0
      else let range = peak - peak * PROFIT_GIVEBACK_MIN_RETENTION
           in if range \<le> 0 then 0 else pmax 0 (pmin 1 ((peak - pnl) / range)))"

definition shift_weights :: "bool \<Rightarrow> score_weights \<Rightarrow> score_weights" where
  "shift_weights profitable w =
     (if profitable then w\<lparr>sw_profit := sw_profit w * fl (15 / 10), sw_recovery := sw_recovery w * fl (2 / 10)\<rparr>
      else w\<lparr>sw_dd := sw_dd w * fl (15 / 10), sw_reversal := sw_reversal w * fl (13 / 10),
             sw_recovery := sw_recovery w * fl (12 / 10), sw_profit := sw_profit w * fl (1 / 10)\<rparr>)"

definition total_weight :: "score_weights \<Rightarrow> f64" where
  "total_weight w = sw_profit w + sw_pnl w + sw_dd w + sw_reversal w + sw_recovery w + sw_hold w"

definition normalize_weights :: "score_weights \<Rightarrow> score_weights" where
  "normalize_weights w =
     (let t = total_weight w
      in if 0 < t then \<lparr>sw_profit = sw_profit w / t, sw_pnl = sw_pnl w / t, sw_dd = sw_dd w / t,
           sw_reversal = sw_reversal w / t, sw_recovery = sw_recovery w / t, sw_hold = sw_hold w / t\<rparr>
         else w)"

definition protection_score ::
  "score_weights \<Rightarrow> f64 \<Rightarrow> f64 \<Rightarrow> position \<Rightarrow> int \<Rightarrow> pnl_features \<Rightarrow> evidence \<Rightarrow> f64 \<Rightarrow> f64 res" where
  "protection_score cfg max_holding peak p base pf ev confidence =
     (let profitable = (0 \<le> pos_profit p);
          w = normalize_weights (shift_weights profitable cfg);
          slope = pf_slope pf;
          severity = giveback_severity peak (pos_profit p);
          deterioration = unit_clip (- slope * Fin 2);
          velocity = unit_clip (pf_dd_velocity pf * Fin 3);
          reversal = ev_adverse ev * confidence;
          pressure = (1 - ev_recovery ev) * confidence;
          decay = unit_clip ((Fin 100 - float_of_int base) / Fin 100)
      in bindR (py_div (pf_below_breakeven pf) max_holding) (\<lambda>q.
         let time_risk = unit_clip q;
             score = sw_profit w * severity + sw_pnl w * deterioration + sw_dd w * velocity + sw_reversal w * reversal
                       + sw_recovery w * pressure + sw_hold w * decay;
             factor = (if profitable then 1
                       else let f = 1 + fl (1 / 2) * time_risk
                            in if slope < 0 then f + fl (3 / 10) * pmin 1 (fabs64 slope) else f)
         in ret (pmax 0 (pmin (Fin 100) (score * factor * Fin 100)))))"

section \<open>The hold-value score\<close>

datatype score_reason =
    DRAWDOWN_PENALTY int f64
  | TIME_IN_LOSS_DECAY_PENALTY
  | SPREAD_EXPANSION_PENALTY
  | TREND_ALIGNMENT_BONUS
  | TREND_BONUS_SUPPRESSED_UNDERWATER
  | PROFIT_SHIELD_SCORE_FLOOR_ACTIVE
  | CRITICAL_LSF_DESYNC_PENALTY f64
  | UNPROTECTED_NO_STOP_LOSS_RISK
  | HEALTHY

record hold_inputs =
  hi_pos :: position
  hi_price :: f64
  hi_features :: "pos_features option"
  hi_atr :: f64
  hi_entry_sl :: f64
  hi_entry_time :: "py_datetime option"
  hi_now :: "py_datetime option"
  hi_time_loss :: f64
  hi_spreads :: "f64 list"

definition current_loss :: "hold_inputs \<Rightarrow> f64" where
  "current_loss i = pmax 0 (if pos_type (hi_pos i) = BUY then pos_price_open (hi_pos i) - hi_price i
                            else hi_price i - pos_price_open (hi_pos i))"

definition planned_risk :: "hold_inputs \<Rightarrow> f64" where
  "planned_risk i =
     (if 0 < hi_entry_sl i
      then if pos_type (hi_pos i) = BUY then pos_price_open (hi_pos i) - hi_entry_sl i
           else hi_entry_sl i - pos_price_open (hi_pos i)
      else hi_atr i * fl (15 / 10))"

definition loss_ratio :: "hold_inputs \<Rightarrow> f64" where
  "loss_ratio i = current_loss i / pmax (fl (1 / 100)) (planned_risk i)"

definition drawdown_penalty_of :: "(f64 \<Rightarrow> f64) \<Rightarrow> hold_inputs \<Rightarrow> int res" where
  "drawdown_penalty_of pow15 i =
     (if 0 < current_loss i then trunc64 (pmin (Fin 80) (Fin 80 * pow15 (pmin (loss_ratio i) 1))) else ret 0)"

text \<open>The holding time, zero where a stamp is missing or only one of them has an offset.\<close>

definition holding_time :: "py_datetime option \<Rightarrow> py_datetime option \<Rightarrow> f64" where
  "holding_time entry now = (case (entry, now) of
       (Some e, Some n) \<Rightarrow> if aware e = aware n then total_seconds (instant n - instant e) else 0
     | _ \<Rightarrow> 0)"

definition time_decayed :: "hold_inputs \<Rightarrow> bool" where
  "time_decayed i = (let h = holding_time (hi_entry_time i) (hi_now i) in 0 < h \<and> fl (70 / 100) < hi_time_loss i / h)"

definition spread_expanded :: "f64 list \<Rightarrow> bool" where
  "spread_expanded xs =
     (xs \<noteq> [] \<and> (let avg = fsum xs / float_of_int (int (length xs)) in 0 < avg \<and> fl (15 / 10) * avg < last xs))"

definition underwater :: "hold_inputs \<Rightarrow> bool" where
  "underwater i = (fl (30 / 100) \<le> (if 0 < current_loss i then loss_ratio i else 0))"

definition trend_aligned :: "hold_inputs \<Rightarrow> bool" where
  "trend_aligned i = (case hi_features i of
       None \<Rightarrow> False
     | Some f \<Rightarrow> if pos_type (hi_pos i) = BUY then px_above_kumo f else px_below_kumo f)"

definition hold_value_score :: "(f64 \<Rightarrow> f64) \<Rightarrow> hold_inputs \<Rightarrow> (int \<times> score_reason list) res" where
  "hold_value_score pow15 i =
     bindR (drawdown_penalty_of pow15 i) (\<lambda>pen.
     let (s, r) = (100 :: int, []);
         (s, r) = (if 0 < pen then (s - pen, r @ [DRAWDOWN_PENALTY pen (loss_ratio i)]) else (s, r));
         (s, r) = (if time_decayed i then (s - 30, r @ [TIME_IN_LOSS_DECAY_PENALTY]) else (s, r));
         (s, r) = (if spread_expanded (hi_spreads i) then (s - 20, r @ [SPREAD_EXPANSION_PENALTY]) else (s, r));
         (s, r) = (if trend_aligned i then
                     if underwater i then (s, r @ [TREND_BONUS_SUPPRESSED_UNDERWATER])
                     else (s + 10, r @ [TREND_ALIGNMENT_BONUS])
                   else (s, r));
         (s, r) = (if 0 \<le> pos_profit (hi_pos i) \<and> \<not> underwater i
                   then (max 85 s, r @ [PROFIT_SHIELD_SCORE_FLOOR_ACTIVE]) else (s, r))
     in ret (clamp_score s, r))"

text \<open>\<open>_recalculate_hold_score_with_position_state\<close> of the order manager.\<close>

definition recalculate_hold_score :: "metrics \<Rightarrow> int \<times> score_reason list \<Rightarrow> int \<times> score_reason list" where
  "recalculate_hold_score m x =
     (let (s, r) = x;
          (s, r) = (if Fin 25 < sm_desync m then (s - 20, r @ [CRITICAL_LSF_DESYNC_PENALTY (sm_desync m)]) else (s, r));
          (s, r) = (if sm_no_sl_risk m then (s - 15, r @ [UNPROTECTED_NO_STOP_LOSS_RISK]) else (s, r))
      in (clamp_score s, r))"

section \<open>The exit at the smallest loss\<close>

datatype min_loss_reason = EV_BREACH f64 f64 f64 | DEEP_DRAWDOWN f64 f64 | WEAK_RECOVERY f64 f64

text \<open>\<^verbatim>\<open>float(x or 1.8)\<close> of the configured ratio.\<close>

definition planned_rr :: "f64 \<Rightarrow> f64" where
  "planned_rr x = (if feq x 0 then fl (18 / 10) else x)"

definition ev_hold :: "f64 \<Rightarrow> f64 \<Rightarrow> f64 \<Rightarrow> evidence \<Rightarrow> f64" where
  "ev_hold rr risk pnl ev =
     ev_recovery ev * pmax (Fin 15) (risk * planned_rr rr) - ev_adverse ev * pmax 1 (risk - fabs64 pnl)"

definition minimum_loss_exit ::
  "f64 \<Rightarrow> py_datetime option \<Rightarrow> py_datetime option \<Rightarrow> f64 \<Rightarrow> f64 \<Rightarrow> evidence \<Rightarrow> min_loss_reason option" where
  "minimum_loss_exit rr entry now pnl risk ev =
     (if 0 \<le> pnl then None
      else if holding_time entry now < Fin 60 then None
      else
        let e = ev_hold rr risk pnl ev; dd = fabs64 pnl / pmax risk 1
        in if e < - fl (15 / 100) * risk then Some (EV_BREACH e (ev_recovery ev) (ev_adverse ev))
           else if fl (60 / 100) < dd \<and> ev_recovery ev < fl (30 / 100) then Some (DEEP_DRAWDOWN (ev_recovery ev) dd)
           else if ev_recovery ev < fl (25 / 100) \<and> fl (60 / 100) < ev_adverse ev
                then Some (WEAK_RECOVERY (ev_recovery ev) (ev_adverse ev))
           else None)"

section \<open>Ranges\<close>

lemma clip_range:
  assumes "isfinite lo" "isfinite hi" "lo \<le> hi"
  shows "lo \<le> pmax lo (pmin hi x)" and "pmax lo (pmin hi x) \<le> hi"
  using assms by (cases lo; cases hi; cases x; auto simp: pmax_def pmin_def)+

lemma unit_clip_range [simp]: "0 \<le> unit_clip x" "unit_clip x \<le> 1"
  unfolding unit_clip_def by (rule clip_range; simp add: zero_f64_Fin one_f64_Fin)+

text \<open>A value that is not a number is clipped to the upper end.\<close>

lemma unit_clip_NaN [simp]: "unit_clip NaN = 1"
  by (simp add: unit_clip_def pmin_def pmax_def zero_f64_Fin one_f64_Fin)

lemma evidence_range:
  "0 \<le> ev_adverse (adaptive_evidence p pr fs pf)" "ev_adverse (adaptive_evidence p pr fs pf) \<le> 1"
  "0 \<le> ev_continuation (adaptive_evidence p pr fs pf)" "ev_continuation (adaptive_evidence p pr fs pf) \<le> 1"
  "0 \<le> ev_recovery (adaptive_evidence p pr fs pf)" "ev_recovery (adaptive_evidence p pr fs pf) \<le> 1"
  by (simp_all add: adaptive_evidence_def Let_def split_beta)

lemma protection_score_range:
  assumes "protection_score cfg mh peak p base pf ev conf = ret s"
  shows "0 \<le> s \<and> s \<le> Fin 100"
proof -
  obtain x where s: "s = pmax 0 (pmin (Fin 100) x)"
    using assms by (auto simp: protection_score_def Let_def ret_def bindR_eq_Inr)
  show ?thesis unfolding s by (intro conjI clip_range) (simp_all add: zero_f64_Fin)
qed

lemma clamp_score_bounds [simp]: "0 \<le> clamp_score n" "clamp_score n \<le> 100"
  by (simp_all add: clamp_score_def)

lemma hold_score_range:
  assumes "hold_value_score pw i = ret (s, r)"
  shows "0 \<le> s \<and> s \<le> 100"
  using assms by (auto simp: hold_value_score_def Let_def ret_def bindR_eq_Inr split: if_splits prod.splits)

text \<open>The profit shield of the base score.\<close>

lemma profit_shield:
  assumes "hold_value_score pw i = ret (s, r)" "0 \<le> pos_profit (hi_pos i)" "\<not> underwater i"
  shows "85 \<le> s"
  using assms by (auto simp: hold_value_score_def Let_def ret_def bindR_eq_Inr clamp_score_def split: if_splits prod.splits)

text \<open>It does not survive the penalties applied afterwards.\<close>

lemma recalculated_shield:
  assumes "85 \<le> s" "s \<le> 100"
  shows "50 \<le> fst (recalculate_hold_score m (s, r))"
    and "\<lbrakk>s = 85; Fin 25 < sm_desync m; sm_no_sl_risk m\<rbrakk> \<Longrightarrow> fst (recalculate_hold_score m (s, r)) = 50"
  using assms by (auto simp: recalculate_hold_score_def Let_def clamp_score_def)

lemma drawdown_penalty_range:
  assumes pw: "\<And>x. 0 \<le> x \<Longrightarrow> x \<le> 1 \<Longrightarrow> 0 \<le> pw x \<and> pw x \<le> 1" and x: "0 \<le> x" "x \<le> 1"
  shows "\<exists>n. trunc64 (pmin (Fin 80) (Fin 80 * pw x)) = ret n \<and> 0 \<le> n \<and> n \<le> 80"
proof -
  obtain q where q: "pw x = Fin q" "0 \<le> q" "q \<le> 1"
    using pw [OF x] by (cases "pw x") (auto simp: zero_f64_Fin one_f64_Fin)
  have m: "Fin 80 * Fin q = fl (80 * q)" by simp
  have "Fin 0 \<le> fl (80 * q)" "fl (80 * q) \<le> fl 80"
    using q fl_nonneg [of "80 * q"] fl_mono [of "80 * q" 80] by auto
  then obtain y where y: "fl (80 * q) = Fin y" "0 \<le> y" "y \<le> 80"
    by (cases "fl (80 * q)") auto
  have "pmin (Fin 80) (Fin 80 * pw x) = Fin y" using y by (auto simp: q(1) m pmin_def)
  moreover have "0 \<le> truncq y" "truncq y \<le> 80"
    using y by (simp_all add: truncq_def)
  ultimately show ?thesis by (simp add: trunc64_def)
qed

section \<open>The trajectory is a window\<close>

lemma length_keep_last [simp]: "length (keep_last n xs) = min n (length xs)"
  by (simp add: keep_last_def)

definition window_ok :: "trajectory \<Rightarrow> bool" where
  "window_ok H \<longleftrightarrow> (\<forall>t. length (H t) \<le> 100)"

interpretation trajectory_window: step_invariant "\<lambda>H (t, s). add_trajectory_step t s H" "\<lambda>_. []" window_ok
  by unfold_locales (auto simp: window_ok_def add_trajectory_step_def)

interpretation trajectories: ticket_ledger "\<lambda>H t. H t" "[]" add_trajectory_step drop_trajectory
  by unfold_locales (auto simp: add_trajectory_step_def drop_trajectory_def)

lemma keep_last_snoc: "0 < n \<Longrightarrow> keep_last n (keep_last n xs @ [x]) = keep_last n (xs @ [x])"
  by (cases "length xs < n") (auto simp: keep_last_def Suc_diff_le less_Suc_eq_le not_less)

text \<open>The window of a ticket holds its last hundred steps.\<close>

lemma window_contents:
  "run (\<lambda>H (t, s). add_trajectory_step t s H) (\<lambda>_. []) es t
     = keep_last 100 (map snd (filter (\<lambda>(u, _). u = t) es))"
proof (induction es rule: rev_induct)
  case Nil
  then show ?case by (simp add: keep_last_def)
next
  case (snoc e es)
  obtain u s where e: "e = (u, s)" by (cases e) auto
  have "run (\<lambda>H (t, s). add_trajectory_step t s H) (\<lambda>_. []) (es @ [e]) t
      = (if t = u then keep_last 100 (run (\<lambda>H (t, s). add_trajectory_step t s H) (\<lambda>_. []) es t @ [s])
         else run (\<lambda>H (t, s). add_trajectory_step t s H) (\<lambda>_. []) es t)"
    by (simp only: run_snoc) (simp add: e add_trajectory_step_def)
  then show ?case unfolding snoc by (simp add: e keep_last_snoc)
qed

end
