(* ===== verification/ExitDecision.thy ===== *)
theory ExitDecision
  imports Scoring RuleMatrix PositionStateMachine "HOL-Library.Sublist"
begin

text \<open>
  The decision of the position loop of \<^verbatim>\<open>execution/order_manager.py\<close>: the scenario router
  (\<open>_resolve_position_management_scenario\<close>), the candidate state (\<open>_evaluate_candidate_state\<close>), the
  arbitration (\<open>_arbitrate_decision\<close>), and the stages that put them together with the trajectory,
  the recovery budget, the state machine, the hold score and the rule matrix. Scenarios and
  reasons are the texts of the code where the code tests their contents.
\<close>

section \<open>The scenario router\<close>

datatype pos_action = Close | Hold | ModifySl | PartialClose | BreakEven | NormalTrail | DeferStops | Monitor

record router_inputs =
  ro_hold_score :: int
  ro_metrics :: metrics
  ro_net :: f64
  ro_gross :: f64
  ro_atr :: f64
  ro_spread :: f64
  ro_holding :: f64
  ro_mae :: f64
  ro_be_trigger :: f64
  ro_max_holding :: f64

definition atr_floor :: "router_inputs \<Rightarrow> f64" where
  "atr_floor i = pmax (ro_atr i) (fl (1 / 2))"

definition net_atr :: "router_inputs \<Rightarrow> f64" where
  "net_atr i = ro_net i / atr_floor i"

definition mae_atr :: "router_inputs \<Rightarrow> f64" where
  "mae_atr i = ro_mae i / atr_floor i"

definition spread_ratio :: "router_inputs \<Rightarrow> f64" where
  "spread_ratio i = ro_spread i / atr_floor i"

definition winning :: "router_inputs \<Rightarrow> bool" where
  "winning i \<longleftrightarrow> 0 < ro_net i \<or> 0 < ro_gross i"

text \<open>The emergency scenarios in their order: the condition besides the profit shield, and the text.\<close>

definition emergency_table :: "router_inputs \<Rightarrow> (bool \<times> string) list" where
  "emergency_table i =
     (let m = ro_metrics i; h = ro_hold_score i; n = net_atr i; tox = sm_impact_to_net m in
      [(sm_kill_switch m \<and> sm_danger m = CRITICAL_KILL, ''S01_CRITICAL_COMPOUND_KILL_SWITCH''),
       (sm_kill_switch m \<and> fl (45 / 10) \<le> tox, ''S02_TOXIC_FLOW_KILL_SWITCH''),
       (h < 30, ''S09_CRITICAL_HOLD_SCORE_BREACH_BAILOUT''),
       (fl (120 / 100) \<le> mae_atr i \<and> n \<le> fl (- (40 / 100)), ''S08_EXCESSIVE_MAE_DRAWDOWN_CUT''),
       (h \<le> 20 \<and> n \<le> fl (- (35 / 100)), ''S04_STRUCTURE_FAILURE_WITH_ACTIVE_LOSS''),
       (fl (48 / 10) \<le> tox \<and> n < fl (- (20 / 100)), ''S05_EXTREME_TOXICITY_NEGATIVE_POSITION''),
       (Fin 30 \<le> sm_desync m \<and> n \<le> fl (- (50 / 100)), ''S06_SEVERE_DESYNC_WITH_UNCONTROLLED_LOSS''),
       (fl (40 / 100) \<le> spread_ratio i \<and> n \<le> fl (- (50 / 100)), ''S07_CATASTROPHIC_SPREAD_EXPANSION''),
       (h \<le> 10 \<and> n \<le> fl (- (25 / 100)), ''S10_TERMINAL_HOLD_SCORE_FAILURE''),
       (h < 25 \<and> n \<le> fl (- (50 / 100)), ''S11_DEEP_LOW_SCORE_BAILOUT''),
       (h < 35 \<and> n \<le> fl (- (65 / 100)), ''S12_CONFIRMED_LOW_SCORE_BAILOUT''),
       (h < 50 \<and> ro_net i < 0 \<and> n \<le> fl (- (40 / 100)), ''S13_STANDARD_EARLY_EMERGENCY_BAILOUT''),
       (sm_time_decay_exit m \<and> ro_net i < fl (10 / 100), ''S21_HARD_STAGNATION_TIMEOUT''),
       (ro_max_holding i * fl (150 / 100) < ro_holding i \<and> n < 0, ''S22_EXTENDED_CAPITAL_LOCK_TIMEOUT'')])"

text \<open>The scenarios that do not close.\<close>

definition calm_scenario :: "router_inputs \<Rightarrow> pos_action \<times> string" where
  "calm_scenario i =
     (let m = ro_metrics i; n = net_atr i in
      if fl (150 / 100) \<le> n \<and> \<not> sm_defer_scale m then (PartialClose, ''S32_HIGH_PROFIT_SCALE_OUT'')
      else if fl (90 / 100) \<le> n \<and> 65 \<le> ro_hold_score i then (NormalTrail, ''S44_HEALTHY_WINNER_NORMAL_TRAIL'')
      else if ro_be_trigger i * fl (4 / 10) \<le> ro_net i \<and> 40 \<le> ro_hold_score i
        then (BreakEven, ''S47_STANDARD_BREAK_EVEN_LOCK'')
      else if fl (45 / 100) \<le> n then (BreakEven, ''S48_LOW_IMPACT_FAST_BREAK_EVEN'')
      else if sm_defer_stops m \<and> fl (25 / 100) < spread_ratio i then (DeferStops, ''S52_SPREAD_SPIKE_STOP_DEFER'')
      else if sm_missed_rescue m \<and> n \<le> 0 then (Monitor, ''S56_MISSED_POSITION_STATE_RECONSTRUCTION'')
      else (Hold, ''S60_DEFAULT_CONTROLLED_HOLD''))"

definition resolve_scenario :: "router_inputs \<Rightarrow> pos_action \<times> string" where
  "resolve_scenario i =
     (case List.find (\<lambda>(b, _). b \<and> \<not> winning i) (emergency_table i) of
        Some (_, s) \<Rightarrow> (Close, s) | None \<Rightarrow> calm_scenario i)"

section \<open>The candidate state\<close>

record candidate_inputs =
  ci_pnl :: f64
  ci_peak :: f64
  ci_risk :: f64
  ci_sl_modified :: bool
  ci_evidence :: evidence
  ci_slope :: f64
  ci_budget :: f64

definition effective_recovery :: "f64 \<Rightarrow> f64 \<Rightarrow> f64" where
  "effective_recovery recovery slope =
     (let s = pmin 1 (pmax 0 (slope * Fin 5))
      in pmin 1 (pmax 0 (fl (55 / 100) * recovery + fl (45 / 100) * s)))"

definition loss_state :: "candidate_inputs \<Rightarrow> position_state" where
  "loss_state i =
     (let e = effective_recovery (ev_recovery (ci_evidence i)) (ci_slope i); a = ev_adverse (ci_evidence i)
      in if ci_budget i \<le> 0 \<or> fl (80 / 100) < a then LOSS_HARD_EXIT
         else if fl (70 / 100) \<le> e \<and> a < fl (20 / 100) then LOSS_RECOVERY_CONFIRMED
         else if fl (45 / 100) \<le> e then LOSS_RECOVERY_CANDIDATE
         else if e < fl (30 / 100) then LOSS_EXIT_PRESSURE else LOSS_RECOVERY_FAILING)"

definition profit_state :: "candidate_inputs \<Rightarrow> position_state" where
  "profit_state i =
     (if ci_sl_modified i then PROFIT_TRAILING
      else if BREAKEVEN_PROFIT_USD \<le> ci_pnl i then PROFIT_PROTECTED else PROFIT_UNPROTECTED)"

definition candidate_state :: "prot_config \<Rightarrow> candidate_inputs \<Rightarrow> position_state res" where
  "candidate_state c i =
     (let rest = (if 0 \<le> ci_pnl i then profit_state i else loss_state i) in
      bindR (if ci_peak i \<le> 0 then ret 1 else py_div (ci_pnl i) (ci_peak i)) (\<lambda>retention.
      if \<not> PROFIT_GIVEBACK_PEAK_USD \<le> ci_peak i then ret rest
      else bindR (tiered_giveback_floor c (ci_risk i) (ci_peak i)) (\<lambda>(flr, armed).
        if ci_pnl i < 0 \<or> (armed \<and> retention \<le> flr) then ret PROFIT_GIVEBACK_CRITICAL
        else if armed \<and> retention < fl (70 / 100) then ret PROFIT_GIVEBACK_WARNING
        else ret rest)))"

section \<open>The arbitration\<close>

definition EMERGENCY_CODES :: "string list" where
  "EMERGENCY_CODES = [''S01'', ''S02'', ''S04'', ''S05'', ''S06'', ''S07'', ''S08'', ''S09'', ''S10'', ''S11'', ''S12'',
     ''S13'', ''S21'', ''S22'']"

definition emergency_cut :: "pos_action \<Rightarrow> string \<Rightarrow> bool" where
  "emergency_cut act scenario \<longleftrightarrow>
     act = Close \<and> ((\<exists>c \<in> set EMERGENCY_CODES. sublist c scenario) \<or> prefix ''RULE_'' scenario)"

definition min_loss_text :: "min_loss_reason \<Rightarrow> string" where
  "min_loss_text r = (case r of
       EV_BREACH _ _ _ \<Rightarrow> ''MIN_LOSS_OPTIMIZATION_EV_BREACH''
     | DEEP_DRAWDOWN _ _ \<Rightarrow> ''MIN_LOSS_OPTIMIZATION_DEEP_DRAWDOWN''
     | WEAK_RECOVERY _ _ \<Rightarrow> ''MIN_LOSS_OPTIMIZATION_WEAK_RECOVERY'')"

record arbiter_inputs =
  ar_action_in :: pos_action
  ar_scenario :: string
  ar_state :: position_state
  ar_pnl :: f64
  ar_evidence :: evidence
  ar_entry :: "py_datetime option"
  ar_now :: "py_datetime option"
  ar_risk :: f64
  ar_rr :: f64

text \<open>The age of the trade. Here the offsets of the two stamps are not compared: the subtraction of
  a naive and an aware one raises.\<close>

definition trade_age :: "arbiter_inputs \<Rightarrow> f64 res" where
  "trade_age i = (case (ar_entry i, ar_now i) of
       (Some e, Some n) \<Rightarrow>
         if aware e = aware n then ret (total_seconds (instant n - instant e)) else raise TypeError
     | _ \<Rightarrow> ret 0)"

definition graced_state :: "f64 \<Rightarrow> position_state \<Rightarrow> position_state" where
  "graced_state age s =
     (if age < Fin 60 \<and> s \<in> {LOSS_HARD_EXIT, LOSS_EXIT_PRESSURE} then LOSS_RECOVERY_CANDIDATE else s)"

definition suppressed_cut :: "f64 \<Rightarrow> pos_action \<Rightarrow> string \<Rightarrow> bool" where
  "suppressed_cut age act scenario \<longleftrightarrow> age < Fin 60 \<and> emergency_cut act scenario
     \<and> \<not> sublist ''S01_CRITICAL_COMPOUND_KILL_SWITCH'' scenario"

definition min_loss_check :: "arbiter_inputs \<Rightarrow> min_loss_reason option" where
  "min_loss_check i =
     (if ar_pnl i < 0 \<and> 0 < ar_risk i
      then minimum_loss_exit (ar_rr i) (ar_entry i) (ar_now i) (ar_pnl i) (ar_risk i) (ar_evidence i) else None)"

definition arbitrate_at :: "f64 \<Rightarrow> arbiter_inputs \<Rightarrow> pos_action \<times> string" where
  "arbitrate_at age i =
     (let supp = suppressed_cut age (ar_action_in i) (ar_scenario i);
          act = (if supp then Hold else ar_action_in i);
          st = graced_state age (ar_state i)
      in if emergency_cut (ar_action_in i) (ar_scenario i) \<and> \<not> supp then (Close, ar_scenario i)
         else if st = LOSS_HARD_EXIT
           then (Close, ''LOSS_HARD_EXIT: recovery budget exhausted or adverse pressure too high'')
         else (case min_loss_check i of
             Some r \<Rightarrow> (Close, min_loss_text r)
           | None \<Rightarrow>
               if st = PROFIT_GIVEBACK_CRITICAL
                 then (Close, ''PROFIT_GIVEBACK_CRITICAL: profit eroded below floor retention'')
               else if st = LOSS_EXIT_PRESSURE then (Close, ''LOSS_EXIT_PRESSURE: low recovery score'')
               else if act \<in> {BreakEven, NormalTrail, PartialClose, ModifySl} then (act, ar_scenario i)
               else if st = PROFIT_GIVEBACK_WARNING
                 then (ModifySl, ''PROFIT_GIVEBACK_WARNING: tightening profit protection'')
               else (Hold, ''S60_DEFAULT_CONTROLLED_HOLD'')))"

definition arbitrate :: "arbiter_inputs \<Rightarrow> (pos_action \<times> string) res" where
  "arbitrate i = bindR (trade_age i) (\<lambda>age. ret (arbitrate_at age i))"

section \<open>The decision stage\<close>

record decide_inputs =
  de_rules :: "rule_engine option"
  de_pos :: position
  de_holding :: f64
  de_price :: f64
  de_rule_atr :: f64
  de_router :: router_inputs
  de_state :: position_state
  de_evidence :: evidence
  de_entry :: "py_datetime option"
  de_now :: py_datetime
  de_risk :: f64
  de_rr :: f64
  de_symbol :: "symbol_info option"
  de_peak_usd :: f64

datatype exit_tag = HOLD_SCORE_DECAY | PROFIT_GIVEBACK_TAG

record decision =
  dc_action :: pos_action
  dc_scenario :: string
  dc_target_sl :: f64
  dc_forced :: "exit_tag option"

definition legacy_verdict :: "decide_inputs \<Rightarrow> rule_exit option \<Rightarrow> pos_action \<times> string \<times> f64" where
  "legacy_verdict i rx = (case rx of
       Some (RX_CLOSE r) \<Rightarrow> (Close, r, 0)
     | Some (RX_MODIFY_SL sl r) \<Rightarrow> (ModifySl, r, sl)
     | None \<Rightarrow> (case resolve_scenario (de_router i) of (a, s) \<Rightarrow> (a, s, 0)))"

definition exit_tag_of :: "pos_action \<Rightarrow> string \<Rightarrow> exit_tag option" where
  "exit_tag_of act s =
     (if act \<noteq> Close then None
      else if sublist ''RECOVERY'' s \<or> sublist ''LOSS'' s then Some HOLD_SCORE_DECAY
      else if sublist ''GIVEBACK'' s then Some PROFIT_GIVEBACK_TAG else None)"

text \<open>The stop that locks seven tenths of the peak profit.\<close>

definition giveback_target :: "decide_inputs \<Rightarrow> f64" where
  "giveback_target i =
     (let p = de_pos i; d = de_peak_usd i * fl (70 / 100) / pmax (pos_volume p * resolve_contract_size (de_symbol i)) 1
      in round_nd (resolve_price_digits (de_symbol i))
           (if pos_type p = BUY then pos_price_open p + d else pos_price_open p - d))"

definition arbiter_of :: "decide_inputs \<Rightarrow> pos_action \<Rightarrow> string \<Rightarrow> arbiter_inputs" where
  "arbiter_of i act scenario = \<lparr>ar_action_in = act, ar_scenario = scenario, ar_state = de_state i,
     ar_pnl = pos_profit (de_pos i), ar_evidence = de_evidence i, ar_entry = de_entry i,
     ar_now = Some (de_now i), ar_risk = de_risk i, ar_rr = de_rr i\<rparr>"

definition decision_of :: "decide_inputs \<Rightarrow> f64 \<Rightarrow> pos_action \<times> string \<Rightarrow> decision" where
  "decision_of i sl x = \<lparr>dc_action = fst x, dc_scenario = snd x,
     dc_target_sl = (if fst x = ModifySl \<and> sublist ''GIVEBACK'' (snd x) then giveback_target i else sl),
     dc_forced = exit_tag_of (fst x) (snd x)\<rparr>"

definition decide_action :: "decide_inputs \<Rightarrow> decision res" where
  "decide_action i =
     bindR (case de_rules i of
              None \<Rightarrow> ret None
            | Some R \<Rightarrow> evaluate_in_trade_exits R (de_pos i) (de_holding i) (de_price i) (de_rule_atr i)) (\<lambda>rx.
     case legacy_verdict i rx of (act, scenario, sl) \<Rightarrow>
     bindR (arbitrate (arbiter_of i act scenario)) (\<lambda>x. ret (decision_of i sl x)))"

section \<open>The state stage\<close>

record stage_state =
  sg_trajectory :: trajectory
  sg_recovery :: recovery_ledger
  sg_psm :: psm

record stage_inputs =
  sn_pos :: position
  sn_now :: py_datetime
  sn_protection :: protection_state
  sn_price :: f64
  sn_hold_score :: int
  sn_atr :: f64
  sn_spread :: f64
  sn_probs :: "probs_view option"
  sn_features :: "pos_features option"
  sn_h4_trend :: f64
  sn_confidence :: f64
  sn_risk :: f64
  sn_sl_modified :: bool

definition stage_step :: "stage_inputs \<Rightarrow> f64 \<Rightarrow> eval_step" where
  "stage_step i retention = \<lparr>es_time = sn_now i, es_pnl = pos_profit (sn_pos i), es_price = sn_price i,
     es_hold = sn_hold_score i, es_drawdown = fabs64 (pmin 0 (pos_profit (sn_pos i))), es_retention = retention,
     es_atr = sn_atr i, es_volatility = sn_spread i\<rparr>"

definition recovery_stage ::
  "recovery_config \<Rightarrow> stage_inputs \<Rightarrow> recovery_ledger \<Rightarrow> (bool \<times> recovery_ledger) res" where
  "recovery_stage rc i L =
     (let t = pos_ticket (sn_pos i); pnl = pos_profit (sn_pos i) in
      if pnl < 0 then
        (case (if is_allocated t L then (ret 0, L)
               else allocate t (sn_risk i) pnl (sn_confidence i) (sn_atr i) (sn_h4_trend i) (sn_now i) rc L) of
           (Inl e, _) \<Rightarrow> raise e
         | (Inr _, L) \<Rightarrow> (case evaluate_exhaustion t pnl (sn_now i) L of ((b, _), L) \<Rightarrow> ret (b, L)))
      else ret (False, L))"

text \<open>\<open>_update_trajectory_and_state\<close>.\<close>

definition update_trajectory_and_state ::
  "prot_config \<Rightarrow> recovery_config \<Rightarrow> stage_inputs \<Rightarrow> stage_state
     \<Rightarrow> (pnl_features \<times> evidence \<times> position_state \<times> bool \<times> stage_state) res" where
  "update_trajectory_and_state c rc i S =
     (let p = sn_pos i; t = pos_ticket p; pnl = pos_profit p in
      bindR (retention_ratio (sn_protection i) pnl) (\<lambda>retention.
      let H = add_trajectory_step t (stage_step i retention) (sg_trajectory S);
          pf = trajectory_features (H t);
          ev = adaptive_evidence p (sn_probs i) (sn_features i) pf
      in bindR (recovery_stage rc i (sg_recovery S)) (\<lambda>(exhausted, L).
      bindR (candidate_state c \<lparr>ci_pnl = pnl, ci_peak = peak_win_usd (sn_protection i), ci_risk = sn_risk i,
               ci_sl_modified = sn_sl_modified i, ci_evidence = ev, ci_slope = pf_slope pf,
               ci_budget = recovery_remaining t 1 L\<rparr>) (\<lambda>cand.
      case transition_with_hysteresis (sg_psm S) t (if exhausted then LOSS_HARD_EXIT else cand) (sn_now i) of
        (st, m) \<Rightarrow> ret (pf, ev, st, exhausted, \<lparr>sg_trajectory = H, sg_recovery = L, sg_psm = m\<rparr>)))))"

section \<open>The router\<close>

lemma calm_never_closes: "fst (calm_scenario i) \<noteq> Close"
  by (simp add: calm_scenario_def Let_def)

lemma resolve_cases:
  obtains (emergency) b s where "resolve_scenario i = (Close, s)" "(b, s) \<in> set (emergency_table i)" "b" "\<not> winning i"
  | (calm) "resolve_scenario i = calm_scenario i" "\<not> winning i \<longrightarrow> (\<forall>(b, s) \<in> set (emergency_table i). \<not> b)"
proof (cases "List.find (\<lambda>(b, _). b \<and> \<not> winning i) (emergency_table i)")
  case None
  have "resolve_scenario i = calm_scenario i" by (simp only: resolve_scenario_def None option.case)
  moreover have "\<not> winning i \<longrightarrow> (\<forall>(b, s) \<in> set (emergency_table i). \<not> b)"
    using None by (auto simp: find_None_iff)
  ultimately show ?thesis by (rule calm)
next
  case (Some x)
  obtain b s where x: "x = (b, s)" by (cases x)
  have "resolve_scenario i = (Close, s)" by (simp only: resolve_scenario_def Some x option.case prod.case)
  moreover have "(b, s) \<in> set (emergency_table i)" "b" "\<not> winning i"
    using Some by (auto simp: find_Some_iff x in_set_conv_nth)
  ultimately show ?thesis by (rule emergency)
qed

lemma close_needs_loss: "fst (resolve_scenario i) = Close \<Longrightarrow> \<not> winning i"
  by (cases rule: resolve_cases [of i]) (auto simp: calm_never_closes)

text \<open>Every text the router closes with is one the arbitration takes for an emergency.\<close>

lemma emergency_texts_known: "\<forall>(b, s) \<in> set (emergency_table i). emergency_cut Close s"
  by (simp add: emergency_table_def Let_def emergency_cut_def EMERGENCY_CODES_def sublist_code)

lemma router_close_is_emergency:
  assumes "resolve_scenario i = (Close, s)"
  shows "emergency_cut Close s"
  using assms emergency_texts_known [of i] calm_never_closes [of i]
  by (cases rule: resolve_cases [of i]) auto

text \<open>The maximal adverse excursion is never positive, and the kernel raises the kill switch only
  together with the critical tier.\<close>

lemma mae_gate_closed: "ro_mae i \<le> 0 \<Longrightarrow> \<not> fl (120 / 100) \<le> mae_atr i"
proof -
  assume m: "ro_mae i \<le> 0"
  have h: "fl (1 / 2) = Fin (1 / 2)" by code_simp
  have n: "x / NaN = NaN" for x :: f64 by (cases x) auto
  have "mae_atr i \<le> 0 \<or> mae_atr i = NaN"
  proof (cases "atr_floor i = NaN \<or> ro_mae i / atr_floor i = NaN")
    case False
    moreover have "fl (1 / 2) \<le> atr_floor i"
      using False unfolding atr_floor_def
      by (cases "ro_atr i") (auto simp: pmax_def h)
    ultimately show ?thesis using m
      by (cases "ro_mae i"; cases "atr_floor i") (auto simp: mae_atr_def zero_f64_Fin fl_nonpos divide_nonpos_pos h)
  qed (auto simp: mae_atr_def n)
  moreover have "\<not> fl (120 / 100) \<le> 0" by code_simp
  ultimately show ?thesis by (auto dest: f64_le_trans)
qed

definition DEAD_SCENARIOS :: "string set" where
  "DEAD_SCENARIOS = {''S02_TOXIC_FLOW_KILL_SWITCH'', ''S08_EXCESSIVE_MAE_DRAWDOWN_CUT'',
     ''S04_STRUCTURE_FAILURE_WITH_ACTIVE_LOSS'', ''S10_TERMINAL_HOLD_SCORE_FAILURE'', ''S11_DEEP_LOW_SCORE_BAILOUT''}"

lemma dead_scenarios:
  assumes "calculate_smart_metrics mi = ret (ro_metrics i)" "ro_mae i \<le> 0"
  shows "snd (resolve_scenario i) \<notin> DEAD_SCENARIOS"
  using kill_switch_is_critical [OF assms(1)] mae_gate_closed [OF assms(2)]
  by (simp add: resolve_scenario_def emergency_table_def Let_def calm_scenario_def DEAD_SCENARIOS_def)

section \<open>The arbitration\<close>

lemma Close_noteq [simp]:
  "emergency_cut act s \<Longrightarrow> act = Close"
  by (simp add: emergency_cut_def)

lemma arbitrate_at_actions: "fst (arbitrate_at age i) \<notin> {DeferStops, Monitor}"
  by (auto simp: arbitrate_at_def Let_def split: option.splits)

lemma arbitrate_at_close_iff:
  "fst (arbitrate_at age i) = Close \<longleftrightarrow>
     (emergency_cut (ar_action_in i) (ar_scenario i) \<and> \<not> suppressed_cut age (ar_action_in i) (ar_scenario i))
     \<or> min_loss_check i \<noteq> None
     \<or> graced_state age (ar_state i) \<in> {LOSS_HARD_EXIT, PROFIT_GIVEBACK_CRITICAL, LOSS_EXIT_PRESSURE}"
  by (auto simp: arbitrate_at_def Let_def split: option.splits)

lemma after_grace [simp]: "\<not> age < Fin 60 \<Longrightarrow> \<not> suppressed_cut age act s" "\<not> age < Fin 60 \<Longrightarrow> graced_state age st = st"
  by (simp_all add: suppressed_cut_def graced_state_def)

text \<open>The test for the smallest loss and the arbitration measure the same age.\<close>

lemma min_loss_needs_age: "trade_age i = ret age \<Longrightarrow> age < Fin 60 \<Longrightarrow> min_loss_check i = None"
  by (auto simp: min_loss_check_def minimum_loss_exit_def trade_age_def holding_time_def split: option.splits if_splits)

text \<open>In the first minute only the compound kill switch and a critical giveback close.\<close>

lemma grace_closes_iff:
  assumes "trade_age i = ret age" "age < Fin 60"
  shows "fst (arbitrate_at age i) = Close \<longleftrightarrow>
     (emergency_cut (ar_action_in i) (ar_scenario i)
        \<and> sublist ''S01_CRITICAL_COMPOUND_KILL_SWITCH'' (ar_scenario i))
     \<or> ar_state i = PROFIT_GIVEBACK_CRITICAL"
  unfolding arbitrate_at_close_iff using assms min_loss_needs_age [OF assms]
  by (auto simp: suppressed_cut_def graced_state_def split: if_splits)

lemma arbitrate_eq: "trade_age i = ret age \<Longrightarrow> arbitrate i = ret (arbitrate_at age i)"
  by (simp add: arbitrate_def)

section \<open>The candidate of a losing position\<close>

lemma no_trajectory_no_velocity:
  "\<not> 0 < pf_slope pf \<Longrightarrow> pf = trajectory_features h \<Longrightarrow> pf_recovery_velocity pf = 0"
  by (simp add: trajectory_features_def no_features_def Let_def split: if_splits)

lemma unit_clip_le: "x \<le> y \<Longrightarrow> unit_clip x \<le> unit_clip y"
  by (cases x; cases y) (auto simp: unit_clip_def pmax_def pmin_def zero_f64_Fin one_f64_Fin)

lemma weighted_le:
  assumes "0 < a" "x \<le> Fin q"
  shows "Fin a * x + Fin 0 \<le> Fin a * Fin q + Fin 0"
proof (cases x)
  case (Fin r)
  then have le: "fl (a * r) \<le> fl (a * q)" using assms by (intro fl_mono mult_left_mono) auto
  have "fl s + Fin 0 \<noteq> NaN" for s by (cases "fl s") auto
  then show ?thesis using fadd_mono [OF le, of "Fin 0"] by (simp add: Fin)
next
  case NInf
  have "fl s + Fin 0 \<noteq> NaN" for s by (cases "fl s") auto
  then show ?thesis using assms NInf by (cases "fl (a * q) + Fin 0") (auto simp: f64_sgn_def)
qed (use assms in auto)

text \<open>Without a rising result the recovery score is seven tenths of the own probability, and the
  effective recovery a little more than half of that.\<close>

lemma no_rise_recovery:
  fixes p :: position and pr :: "probs_view option" and fs :: "pos_features option" and h :: "eval_step list" and q :: rat
  assumes "\<not> 0 < pf_slope (trajectory_features h)"
  defines "ev \<equiv> adaptive_evidence p pr fs (trajectory_features h)"
  assumes "ev_continuation ev \<le> Fin q" "q < 1"
  shows "ev_recovery ev \<le> unit_clip (fl (70 / 100) * Fin q + Fin 0)"
proof -
  let ?pf = "trajectory_features h"
  obtain c a where e: "ev_continuation ev = unit_clip c"
    "ev_recovery ev = unit_clip (fl (70 / 100) * c + fl (30 / 100) * pmin 1 (pmax 0 (pf_recovery_velocity ?pf * Fin 5)))"
    by (auto simp: ev_def adaptive_evidence_def Let_def split_beta)
  have v: "pf_recovery_velocity ?pf = Fin 0"
    using no_trajectory_no_velocity [OF assms(1) refl] by (simp add: zero_f64_Fin)
  have z: "fl (30 / 100) * pmin 1 (pmax 0 (pf_recovery_velocity ?pf * Fin 5)) = Fin 0"
    unfolding v by (simp add: pmin_def pmax_def zero_f64_Fin one_f64_Fin) code_simp
  have c: "c \<le> Fin q"
    using assms(3,4) unfolding e
    by (cases c) (auto simp: unit_clip_def pmin_def pmax_def zero_f64_Fin one_f64_Fin split: if_splits)
  obtain s where s: "fl (70 / 100) = Fin s" "0 < s"
  proof -
    have "isfinite (fl (70 / 100)) \<and> 0 < fl (70 / 100)" by code_simp
    then show ?thesis using that by (cases "fl (70 / 100)") (auto simp: zero_f64_Fin)
  qed
  show ?thesis unfolding e z s(1) by (rule unit_clip_le [OF weighted_le [OF s(2) c]])
qed

lemma effective_no_rise:
  assumes "\<not> 0 < slope" "r \<le> Fin q"
  shows "effective_recovery r slope \<le> unit_clip (fl (55 / 100) * Fin q + Fin 0)"
proof -
  have p: "pmax 0 (slope * Fin 5) = Fin 0"
  proof (cases slope)
    case (Fin v)
    then have "fl (v * 5) \<le> Fin 0" using assms(1) by (intro fl_nonpos) (simp add: zero_f64_Fin)
    then show ?thesis using Fin by (cases "fl (v * 5)") (auto simp: pmax_def zero_f64_Fin)
  qed (use assms(1) in \<open>auto simp: pmax_def zero_f64_Fin f64_sgn_def\<close>)
  have z: "fl (45 / 100) * pmin 1 (Fin 0) = Fin 0" by (simp add: pmin_def one_f64_Fin) code_simp
  obtain s where s: "fl (55 / 100) = Fin s" "0 < s"
  proof -
    have "isfinite (fl (55 / 100)) \<and> 0 < fl (55 / 100)" by code_simp
    then show ?thesis using that by (cases "fl (55 / 100)") (auto simp: zero_f64_Fin)
  qed
  have swap: "pmin 1 (pmax 0 x) = unit_clip x" if "x \<noteq> NaN" for x
    using that by (cases x) (auto simp: unit_clip_def pmin_def pmax_def zero_f64_Fin one_f64_Fin)
  have le: "Fin s * r + Fin 0 \<le> Fin s * Fin q + Fin 0" by (rule weighted_le [OF s(2) assms(2)])
  then have n: "Fin s * r + Fin 0 \<noteq> NaN" by auto
  show ?thesis unfolding effective_recovery_def Let_def p z s(1) swap [OF n] by (rule unit_clip_le [OF le])
qed

text \<open>With an own probability of at most three quarters the position is under exit pressure; with
  any probability it is no candidate for a recovery.\<close>

lemma flat_loss_state:
  assumes "\<not> 0 < ci_slope i" "ev_recovery (ci_evidence i) \<le> unit_clip (fl (70 / 100) * Fin (3 / 4) + Fin 0)"
  shows "loss_state i \<in> {LOSS_HARD_EXIT, LOSS_EXIT_PRESSURE}"
proof -
  obtain q where q: "unit_clip (fl (70 / 100) * Fin (3 / 4) + Fin 0) = Fin q" "unit_clip (fl (55 / 100) * Fin q + Fin 0) < fl (30 / 100)"
  proof -
    have "(case unit_clip (fl (70 / 100) * Fin (3 / 4) + Fin 0) of Fin q \<Rightarrow> unit_clip (fl (55 / 100) * Fin q + Fin 0) < fl (30 / 100)
      | _ \<Rightarrow> False)" by code_simp
    then show ?thesis using that by (auto split: f64.splits)
  qed
  have "effective_recovery (ev_recovery (ci_evidence i)) (ci_slope i) \<le> unit_clip (fl (55 / 100) * Fin q + Fin 0)"
    using effective_no_rise [OF assms(1)] assms(2) q(1) by simp
  then have e: "effective_recovery (ev_recovery (ci_evidence i)) (ci_slope i) < fl (30 / 100)"
    using q(2) by (rule f64_le_less_trans)
  have "fl (30 / 100) < fl (70 / 100)" "fl (30 / 100) < fl (45 / 100)" by code_simp+
  then have "\<not> fl (70 / 100) \<le> effective_recovery (ev_recovery (ci_evidence i)) (ci_slope i)"
    "\<not> fl (45 / 100) \<le> effective_recovery (ev_recovery (ci_evidence i)) (ci_slope i)"
    using e f64_less_trans f64_less_le_trans f64_less_irrefl by blast+
  then show ?thesis using e by (auto simp: loss_state_def Let_def)
qed

section \<open>The stages together\<close>

lemma negative_after_peak:
  assumes "ci_pnl i < 0" "PROFIT_GIVEBACK_PEAK_USD \<le> ci_peak i"
  shows "candidate_state c i = ret PROFIT_GIVEBACK_CRITICAL"
proof -
  obtain x y where f: "tiered_giveback_floor c (ci_risk i) (ci_peak i) = ret (x, y)"
    using tiered_floor_total by (metis surj_pair)
  have p: "\<not> ci_peak i \<le> 0"
    using assms(2) by (cases "ci_peak i") (auto simp: PROFIT_GIVEBACK_PEAK_USD_def zero_f64_Fin)
  show ?thesis using assms by (simp add: candidate_state_def Let_def f p py_div_total)
qed

lemma bypass_is_taken: "s \<in> BYPASS_STATES \<Longrightarrow> fst (transition_with_hysteresis m t s now) = s"
  by (simp add: transition_with_hysteresis_def split: option.splits)

lemma stage_state_of:
  assumes "update_trajectory_and_state c rc i S = ret (pf, ev, st, ex, S')"
  obtains cand k where "candidate_state c k = ret cand" "ci_pnl k = pos_profit (sn_pos i)"
    "ci_peak k = peak_win_usd (sn_protection i)" "ci_evidence k = ev" "ci_slope k = pf_slope pf"
    "ev = adaptive_evidence (sn_pos i) (sn_probs i) (sn_features i) pf"
    "st = fst (transition_with_hysteresis (sg_psm S) (pos_ticket (sn_pos i)) (if ex then LOSS_HARD_EXIT else cand) (sn_now i))"
proof -
  obtain r where r: "retention_ratio (sn_protection i) (pos_profit (sn_pos i)) = ret r"
    using assms by (auto simp: update_trajectory_and_state_def Let_def ret_def bindR_eq_Inr)
  define pf' where "pf' = trajectory_features (add_trajectory_step (pos_ticket (sn_pos i)) (stage_step i r) (sg_trajectory S) (pos_ticket (sn_pos i)))"
  obtain x L where L: "recovery_stage rc i (sg_recovery S) = ret (x, L)"
    using assms by (auto simp: update_trajectory_and_state_def Let_def r ret_def bindR_eq_Inr)
  define k where "k = \<lparr>ci_pnl = pos_profit (sn_pos i), ci_peak = peak_win_usd (sn_protection i), ci_risk = sn_risk i,
     ci_sl_modified = sn_sl_modified i, ci_evidence = adaptive_evidence (sn_pos i) (sn_probs i) (sn_features i) pf',
     ci_slope = pf_slope pf', ci_budget = recovery_remaining (pos_ticket (sn_pos i)) 1 L\<rparr>"
  have "candidate_state c k \<noteq> raise e" for e
    using assms by (auto simp: update_trajectory_and_state_def Let_def r L k_def pf'_def raise_def ret_def)
  then obtain cand where c: "candidate_state c k = ret cand"
    by (cases "candidate_state c k") (auto simp: raise_def ret_def)
  have "update_trajectory_and_state c rc i S = (case transition_with_hysteresis (sg_psm S) (pos_ticket (sn_pos i))
      (if x then LOSS_HARD_EXIT else cand) (sn_now i) of
        (s, m) \<Rightarrow> ret (pf', ci_evidence k, s, x, \<lparr>sg_trajectory = add_trajectory_step (pos_ticket (sn_pos i)) (stage_step i r) (sg_trajectory S),
           sg_recovery = L, sg_psm = m\<rparr>))"
    using c by (simp add: update_trajectory_and_state_def Let_def r L k_def pf'_def)
  then have "pf = pf'" "ev = ci_evidence k" "ex = x"
    "st = fst (transition_with_hysteresis (sg_psm S) (pos_ticket (sn_pos i)) (if ex then LOSS_HARD_EXIT else cand) (sn_now i))"
    using assms by (auto split: prod.splits)
  then show ?thesis using that [OF c] by (simp add: k_def)
qed

lemma stage_negative_after_peak:
  assumes "update_trajectory_and_state c rc i S = ret (pf, ev, st, False, S')"
    and "pos_profit (sn_pos i) < 0" "PROFIT_GIVEBACK_PEAK_USD \<le> peak_win_usd (sn_protection i)"
  shows "st = PROFIT_GIVEBACK_CRITICAL"
proof -
  obtain cand k where "candidate_state c k = ret cand" "ci_pnl k = pos_profit (sn_pos i)"
    "ci_peak k = peak_win_usd (sn_protection i)"
    "st = fst (transition_with_hysteresis (sg_psm S) (pos_ticket (sn_pos i)) cand (sn_now i))"
    using assms(1) by (rule stage_state_of) simp
  then show ?thesis using negative_after_peak [of k c] bypass_is_taken assms(2,3) by simp
qed

lemma decide_cases:
  assumes "decide_action i = ret dc"
  obtains act scenario sl age where "trade_age (arbiter_of i act scenario) = ret age"
    "dc = decision_of i sl (arbitrate_at age (arbiter_of i act scenario))"
proof -
  obtain rx where "(case legacy_verdict i rx of (act, scenario, sl) \<Rightarrow>
      bindR (arbitrate (arbiter_of i act scenario)) (\<lambda>x. ret (decision_of i sl x))) = ret dc"
    using assms by (auto simp: decide_action_def ret_def bindR_eq_Inr)
  moreover obtain act scenario sl where "legacy_verdict i rx = (act, scenario, sl)"
    by (cases "legacy_verdict i rx")
  ultimately show ?thesis using that by (auto simp: arbitrate_def ret_def bindR_eq_Inr)
qed

lemma decide_closes:
  assumes "decide_action d = ret dc" "de_state d = PROFIT_GIVEBACK_CRITICAL"
  shows "dc_action dc = Close"
  using assms(1)
proof (rule decide_cases)
  fix act scenario sl age
  assume "dc = decision_of d sl (arbitrate_at age (arbiter_of d act scenario))"
  moreover have "graced_state age (ar_state (arbiter_of d act scenario)) = PROFIT_GIVEBACK_CRITICAL"
    by (simp add: graced_state_def arbiter_of_def assms(2))
  ultimately show ?thesis by (simp add: decision_of_def arbitrate_at_close_iff)
qed

lemma nan_model_evidence:
  assumes "NaN \<in> {x, y, z}"
  shows "model_evidence own (ProbsList [x, y, z]) = Some (NaN, NaN)"
proof -
  have s: "x + y + z + e = NaN" for e
  proof -
    have "u + NaN = NaN" "NaN + u = NaN" for u by (cases u; simp)+
    then show ?thesis using assms by auto
  qed
  have d: "u / NaN = NaN" for u by (cases u) auto
  show ?thesis by (simp add: model_evidence_def Let_def nth_or_def s d feq_def)
qed

text \<open>The stage raises only where the recovery budget is allocated.\<close>

lemma candidate_total: "\<exists>st. candidate_state c i = ret st"
proof -
  obtain x y where f: "tiered_giveback_floor c (ci_risk i) (ci_peak i) = ret (x, y)"
    using tiered_floor_total by (metis surj_pair)
  have "\<exists>r. (if ci_peak i \<le> 0 then ret 1 else py_div (ci_pnl i) (ci_peak i)) = ret r"
    by (simp add: py_div_total)
  then show ?thesis by (auto simp: candidate_state_def Let_def f)
qed

lemma stage_total:
  assumes "recovery_stage rc i (sg_recovery S) = ret (x, L)"
  shows "\<exists>pf ev st S'. update_trajectory_and_state c rc i S = ret (pf, ev, st, x, S')"
proof -
  have r: "\<exists>r. retention_ratio (sn_protection i) (pos_profit (sn_pos i)) = ret r"
    by (simp add: retention_ratio_def py_div_total)
  obtain cnd where "\<forall>k. candidate_state c k = ret (cnd k)" using candidate_total by metis
  then show ?thesis using r by (auto simp: update_trajectory_and_state_def Let_def assms split: prod.splits)
qed

section \<open>Properties\<close>

text \<open>C36: a hold never overrides a protective exit. Whatever the router suggests and whatever the
  evidence, the arbitration closes exactly in these cases: in the first minute of a trade for the
  compound kill switch and for a critical giveback; later for every emergency scenario or rule
  verdict, for the test of the smallest loss, and for the three states that ask for an exit. The
  suggestions to defer the stops or to monitor never survive it.\<close>

theorem arbitration_closes_iff:
  assumes "arbitrate i = ret (act, scenario)" and "trade_age i = ret age"
  shows "(act = Close \<longleftrightarrow>
     (if age < Fin 60
      then (emergency_cut (ar_action_in i) (ar_scenario i)
              \<and> sublist ''S01_CRITICAL_COMPOUND_KILL_SWITCH'' (ar_scenario i))
           \<or> ar_state i = PROFIT_GIVEBACK_CRITICAL
      else emergency_cut (ar_action_in i) (ar_scenario i) \<or> min_loss_check i \<noteq> None
           \<or> ar_state i \<in> {LOSS_HARD_EXIT, PROFIT_GIVEBACK_CRITICAL, LOSS_EXIT_PRESSURE}))
    \<and> act \<notin> {DeferStops, Monitor}"
proof -
  have e: "arbitrate_at age i = (act, scenario)" using assms by (simp add: arbitrate_eq)
  show ?thesis
    using arbitrate_at_actions [of age i] grace_closes_iff [OF assms(2)] arbitrate_at_close_iff [of age i]
    by (simp add: e)
qed

text \<open>C37: five of the fourteen emergency scenarios of the router can never be taken, among them the
  cut for an excessive adverse excursion: the excursion the position tracker keeps is never
  positive and is compared with a positive bound, the kill switch is raised only together with
  the critical tier, and a low hold score is caught by an earlier scenario. And the router never
  closes a position whose net or gross result is positive.\<close>

theorem dead_scenarios_unreachable:
  assumes "calculate_smart_metrics mi = ret (ro_metrics i)"
    and "ro_mae i = max_adv (run track_step no_track xs)"
  shows "snd (resolve_scenario i) \<notin> DEAD_SCENARIOS \<and> (winning i \<longrightarrow> fst (resolve_scenario i) \<noteq> Close)"
  using dead_scenarios [OF assms(1)] max_adv_nonpos [of xs] close_needs_loss [of i] by (auto simp: assms(2))

text \<open>a losing position whose result does not rise over the window is put under exit pressure
  whenever the model gives its own side at most three quarters, however good that is: the
  effective recovery score stays below the threshold of 0.30.\<close>

theorem flat_loser_under_pressure:
  fixes p :: position and pr :: "probs_view option" and fs :: "pos_features option" and h :: "eval_step list"
  defines "ev \<equiv> adaptive_evidence p pr fs (trajectory_features h)"
  assumes "candidate_state c i = ret st"
    and "ci_evidence i = ev" "ci_slope i = pf_slope (trajectory_features h)"
    and "ci_pnl i < 0" "ci_peak i < PROFIT_GIVEBACK_PEAK_USD"
    and "\<not> 0 < pf_slope (trajectory_features h)" "ev_continuation ev \<le> Fin (3 / 4)"
  shows "st \<in> {LOSS_HARD_EXIT, LOSS_EXIT_PRESSURE}"
proof -
  have "ev_recovery (ci_evidence i) \<le> unit_clip (fl (70 / 100) * Fin (3 / 4) + Fin 0)"
    using no_rise_recovery [OF assms(7), of p pr fs "3 / 4"] assms(3,8) by (simp add: ev_def)
  then have l: "loss_state i \<in> {LOSS_HARD_EXIT, LOSS_EXIT_PRESSURE}"
    using flat_loss_state [of i] assms(4,7) by simp
  have "\<not> PROFIT_GIVEBACK_PEAK_USD \<le> ci_peak i" "\<not> 0 \<le> ci_pnl i"
    using assms(5,6) f64_less_le_trans f64_less_irrefl by blast+
  then show ?thesis using assms(2) l by (auto simp: candidate_state_def Let_def ret_def bindR_eq_Inr split: if_splits)
qed

text \<open>the protection is disarmed and closes all the same. For a position whose peak profit has
  passed twenty dollars and that is under water, the giveback evaluation may find the tier of the
  peak disarmed and ask for nothing; the state stage makes it a critical giveback without looking
  at the tier, that state is taken without debouncing, and the decision is to close, also in the
  first minute.\<close>

theorem disarmed_giveback_still_closes:
  assumes stage: "update_trajectory_and_state c rc i S = ret (pf, ev, st, False, S')"
    and loss: "pos_profit (sn_pos i) < 0" "PROFIT_GIVEBACK_PEAK_USD \<le> peak_win_usd (sn_protection i)"
    and same: "pget t P = sn_protection i" "getd (pr_risks P t) 0 = sn_risk i"
    and disarmed: "tiered_giveback_floor c (sn_risk i) (peak_win_usd (sn_protection i)) = ret (flr, False)"
    and decide: "de_state d = st" "decide_action d = ret dc"
  shows "dc_action dc = Close
    \<and> evaluate_profit_giveback c t (pos_profit (sn_pos i)) base P = ret (clamp_score base, False, NO_GIVEBACK)"
proof
  show "dc_action dc = Close"
    using decide_closes decide stage_negative_after_peak [OF stage loss] by simp
  show "evaluate_profit_giveback c t (pos_profit (sn_pos i)) base P = ret (clamp_score base, False, NO_GIVEBACK)"
    by (simp add: evaluate_profit_giveback_def Let_def same disarmed)
qed

text \<open>an output of the model that is not a number closes losing positions: the clipping turns
  it into an adverse score of one, the candidate is the hard exit, and that state is taken at
  once.\<close>

theorem nan_output_forces_hard_exit:
  assumes "update_trajectory_and_state c rc i S = ret (pf, ev, st, ex, S')"
    and "sn_probs i = Some (ProbsList [x, y, z])" "NaN \<in> {x, y, z}"
    and "pos_profit (sn_pos i) < 0" "peak_win_usd (sn_protection i) < PROFIT_GIVEBACK_PEAK_USD"
  shows "st = LOSS_HARD_EXIT"
proof -
  obtain cand k where k: "candidate_state c k = ret cand" "ci_pnl k = pos_profit (sn_pos i)"
    "ci_peak k = peak_win_usd (sn_protection i)" "ci_evidence k = ev"
    "ev = adaptive_evidence (sn_pos i) (sn_probs i) (sn_features i) pf"
    "st = fst (transition_with_hysteresis (sg_psm S) (pos_ticket (sn_pos i)) (if ex then LOSS_HARD_EXIT else cand) (sn_now i))"
    using assms(1) by (rule stage_state_of)
  have "fl (80 / 100) < ev_adverse (ci_evidence k)"
  proof -
    have "ev_adverse ev = 1" using assms(2,3) by (auto simp: k(5) adaptive_evidence_def nan_model_evidence)
    moreover have "fl (80 / 100) < 1" by code_simp
    ultimately show ?thesis by (simp add: k(4))
  qed
  then have l: "loss_state k = LOSS_HARD_EXIT" by (simp add: loss_state_def Let_def)
  have "\<not> PROFIT_GIVEBACK_PEAK_USD \<le> ci_peak k" "\<not> 0 \<le> ci_pnl k"
    using assms(4,5) k(2,3) f64_less_le_trans f64_less_irrefl by metis+
  then have "cand = LOSS_HARD_EXIT"
    using k(1) l by (auto simp: candidate_state_def Let_def ret_def bindR_eq_Inr split: if_splits)
  then show ?thesis using k(6) bypass_is_taken by simp
qed

section \<open>Samples\<close>

definition utc_at :: "int \<Rightarrow> py_datetime" where
  "utc_at s = \<lparr>dt_wall = s * 1000000, dt_off = Some 0\<rparr>"

lemma utc_at_simps [simp]: "aware (utc_at s)" "instant (utc_at s) = s * 1000000"
  by (simp_all add: utc_at_def aware_def instant_def)

definition losing_buy :: position where
  "losing_buy = \<lparr>pos_ticket = 7, pos_symbol = ''XAUUSD'', pos_type = BUY, pos_volume = 1, pos_price_open = Fin 2000,
     pos_sl = Fin 1990, pos_tp = Fin 2010, pos_profit = Fin (- 1), pos_magic = 1\<rparr>"

definition sample_metric_inputs :: metric_inputs where
  "sample_metric_inputs = \<lparr>mi_pos = losing_buy, mi_price = Fin 1999, mi_mid = Fin 1999, mi_spread = 0, mi_atr = Fin 1,
     mi_net = Fin (- 1), mi_gross = Fin (- 1), mi_impact = 0, mi_total_impact = 0, mi_holding = Fin 60,
     mi_features = None, mi_symbol = None, mi_be_trigger = Fin 1, mi_trailing = Fin 1, mi_max_holding = Fin 1800,
     mi_sl_buffer = Fin 1, mi_rescue = False, mi_desync = 0, mi_mfe = 0, mi_mae = Fin (- 1), mi_adverse = 1,
     mi_favorable = 0, mi_stagnation = 0\<rparr>"

lemma sample_metrics_return: "\<exists>m. calculate_smart_metrics sample_metric_inputs = ret m"
  by (rule smart_metrics_total) (simp add: sample_metric_inputs_def)

definition sample_router :: "metrics \<Rightarrow> f64 \<Rightarrow> router_inputs" where
  "sample_router m mae = \<lparr>ro_hold_score = 10, ro_metrics = m, ro_net = Fin (- 1), ro_gross = Fin (- 1), ro_atr = Fin 1,
     ro_spread = 0, ro_holding = Fin 60, ro_mae = mae, ro_be_trigger = Fin 1, ro_max_holding = Fin 1800\<rparr>"

lemma dead_scenarios_unreachable_witness:
  "\<exists>m. calculate_smart_metrics sample_metric_inputs = ret m
     \<and> snd (resolve_scenario (sample_router m (max_adv (run track_step no_track [])))) \<notin> DEAD_SCENARIOS"
proof -
  obtain m where m: "calculate_smart_metrics sample_metric_inputs = ret m" using sample_metrics_return ..
  have "calculate_smart_metrics sample_metric_inputs = ret (ro_metrics (sample_router m (max_adv (run track_step no_track []))))"
    "ro_mae (sample_router m (max_adv (run track_step no_track []))) = max_adv (run track_step no_track [])"
    by (simp_all add: sample_router_def m)
  then show ?thesis using dead_scenarios_unreachable m by blast
qed

definition sample_arbiter :: arbiter_inputs where
  "sample_arbiter = \<lparr>ar_action_in = Close, ar_scenario = ''S09_CRITICAL_HOLD_SCORE_BREACH_BAILOUT'',
     ar_state = PROFIT_UNPROTECTED, ar_pnl = Fin 1, ar_evidence = \<lparr>ev_continuation = 0, ev_adverse = 0, ev_recovery = 0\<rparr>,
     ar_entry = Some (utc_at 0), ar_now = Some (utc_at 120), ar_risk = 0, ar_rr = 0\<rparr>"

lemma arbitration_closes_iff_witness:
  "fst (projr (arbitrate sample_arbiter)) = Close \<and> emergency_cut (ar_action_in sample_arbiter) (ar_scenario sample_arbiter)"
proof -
  have e: "emergency_cut (ar_action_in sample_arbiter) (ar_scenario sample_arbiter)"
    by (simp add: sample_arbiter_def emergency_cut_def EMERGENCY_CODES_def sublist_code)
  have t: "trade_age sample_arbiter = ret (Fin 120)"
    by (simp add: trade_age_def sample_arbiter_def total_seconds_def)
  obtain act s where a: "arbitrate sample_arbiter = ret (act, s)"
    using arbitrate_eq [OF t] by (metis surj_pair)
  have "act = Close" using arbitration_closes_iff [OF a t] e by simp
  then show ?thesis using a e by (simp add: ret_def)
qed

definition sample_candidate :: "probs_view \<Rightarrow> candidate_inputs" where
  "sample_candidate v = \<lparr>ci_pnl = Fin (- 1), ci_peak = 0, ci_risk = Fin 100, ci_sl_modified = False,
     ci_evidence = adaptive_evidence losing_buy (Some v) None (trajectory_features []), ci_slope = 0, ci_budget = Fin 1\<rparr>"

lemma flat_loser_under_pressure_witness:
  "projr (candidate_state sample_prot_config (sample_candidate (ProbsList [0, Fin (1 / 2), Fin (1 / 2)]))) \<in> {LOSS_HARD_EXIT, LOSS_EXIT_PRESSURE}"
proof -
  let ?v = "ProbsList [0, Fin (1 / 2), Fin (1 / 2)]"
  let ?i = "sample_candidate ?v"
  have z: "pf_slope (trajectory_features []) = 0" by (simp add: trajectory_features_def no_features_def)
  obtain st where st: "candidate_state sample_prot_config ?i = ret st" using candidate_total ..
  have q: "ev_continuation (adaptive_evidence losing_buy (Some ?v) None (trajectory_features [])) \<le> Fin (3 / 4)"
  proof -
    have "unit_clip (Fin (1 / 2) / (0 + Fin (1 / 2) + Fin (1 / 2) + fl (1 / 1000000000))) \<le> Fin (3 / 4)"
      "\<not> feq (0 + Fin (1 / 2) + Fin (1 / 2) + fl (1 / 1000000000)) 0" by code_simp+
    then show ?thesis
      by (simp add: adaptive_evidence_def Let_def model_evidence_def nth_or_def losing_buy_def numeral_2_eq_2)
  qed
  have "st \<in> {LOSS_HARD_EXIT, LOSS_EXIT_PRESSURE}"
    by (rule flat_loser_under_pressure [OF st, where p = losing_buy and pr = "Some ?v" and fs = None and h = "[]"])
      (simp_all add: q z, simp_all add: sample_candidate_def PROFIT_GIVEBACK_PEAK_USD_def zero_f64_Fin)
  then show ?thesis by (simp add: st ret_def)
qed

definition sample_stage :: "probs_view option \<Rightarrow> f64 \<Rightarrow> stage_inputs" where
  "sample_stage v peak = \<lparr>sn_pos = losing_buy, sn_now = utc_at 120, sn_protection = new_protection\<lparr>peak_win_usd := peak\<rparr>,
     sn_price = Fin 1999, sn_hold_score = 60, sn_atr = Fin 1, sn_spread = 0, sn_probs = v, sn_features = None,
     sn_h4_trend = 0, sn_confidence = Fin (1 / 2), sn_risk = Fin 1024, sn_sl_modified = False\<rparr>"

definition sample_stage_state :: stage_state where
  "sample_stage_state = \<lparr>sg_trajectory = (\<lambda>_. []), sg_recovery = recovery_init
       \<lparr>budget_initial := (\<lambda>_. None)(7 \<mapsto> Fin 64)\<rparr>, sg_psm = psm_init 0 0\<rparr>"

lemma sample_stage_returns:
  "\<exists>pf ev st S'. update_trajectory_and_state c rc (sample_stage v peak) sample_stage_state = ret (pf, ev, st, False, S')"
proof -
  have "\<not> pmax 0 (Fin 64 - consumed_of 0 (Fin (- 1))) \<le> 0" by code_simp
  then have "\<exists>L. recovery_stage rc (sample_stage v peak) (sg_recovery sample_stage_state) = ret (False, L)"
    by (simp add: recovery_stage_def sample_stage_def sample_stage_state_def losing_buy_def is_allocated_def
        evaluate_exhaustion_def recovery_init_def Let_def zero_f64_Fin ret_def)
  then show ?thesis using stage_total by blast
qed

lemma nan_output_forces_hard_exit_witness:
  "\<exists>pf ev S'. update_trajectory_and_state sample_prot_config sample_recovery_config
       (sample_stage (Some (ProbsList [NaN, 0, 1])) 0) sample_stage_state = ret (pf, ev, LOSS_HARD_EXIT, False, S')"
proof -
  obtain pf ev st S' where u: "update_trajectory_and_state sample_prot_config sample_recovery_config
       (sample_stage (Some (ProbsList [NaN, 0, 1])) 0) sample_stage_state = ret (pf, ev, st, False, S')"
    using sample_stage_returns by blast
  have "st = LOSS_HARD_EXIT"
    by (rule nan_output_forces_hard_exit [OF u, where x = NaN and y = 0 and z = 1])
      (simp_all add: sample_stage_def losing_buy_def new_protection_def PROFIT_GIVEBACK_PEAK_USD_def zero_f64_Fin)
  then show ?thesis using u by blast
qed

definition sample_decide :: "metrics \<Rightarrow> position_state \<Rightarrow> evidence \<Rightarrow> decide_inputs" where
  "sample_decide m st ev = \<lparr>de_rules = None, de_pos = losing_buy, de_holding = Fin 30, de_price = Fin 1999,
     de_rule_atr = Fin 1, de_router = sample_router m 0, de_state = st, de_evidence = ev, de_entry = Some (utc_at 90),
     de_now = utc_at 120, de_risk = Fin 1024, de_rr = 0, de_symbol = None, de_peak_usd = Fin 32\<rparr>"

lemma disarmed_giveback_still_closes_witness:
  "\<exists>pf ev st S' m dc. update_trajectory_and_state sample_prot_config sample_recovery_config (sample_stage None (Fin 32))
       sample_stage_state = ret (pf, ev, st, False, S')
     \<and> decide_action (sample_decide m st ev) = ret dc \<and> dc_action dc = Close
     \<and> evaluate_profit_giveback sample_prot_config 7 (Fin (- 1)) 60 (sample_prot_state (Fin 32) (Fin 1024))
         = ret (60, False, NO_GIVEBACK)"
proof -
  let ?i = "sample_stage None (Fin 32)"
  obtain pf ev st S' where u: "update_trajectory_and_state sample_prot_config sample_recovery_config ?i sample_stage_state
       = ret (pf, ev, st, False, S')"
    using sample_stage_returns by blast
  obtain m where "calculate_smart_metrics sample_metric_inputs = ret m" using sample_metrics_return ..
  let ?d = "sample_decide m st ev"
  obtain act s where r: "resolve_scenario (sample_router m 0) = (act, s)" by fastforce
  obtain dc where d: "decide_action ?d = ret dc"
    by (simp add: decide_action_def legacy_verdict_def sample_decide_def arbitrate_def trade_age_def arbiter_of_def r)
  obtain flr where f: "tiered_giveback_floor sample_prot_config (Fin 1024) (Fin 32) = ret (flr, False)"
  proof -
    have "py_div (Fin 32) (Fin 1024) = ret (Fin (1 / 32))" "Fin (1 / 32) < TIERED_GIVEBACK_ARM_R" by code_simp+
    then show ?thesis using that
      by (simp add: tiered_giveback_floor_def sample_prot_config_def exit_policy_config_value_def zero_f64_Fin)
  qed
  have "dc_action dc = Close
    \<and> evaluate_profit_giveback sample_prot_config 7 (pos_profit (sn_pos ?i)) 60 (sample_prot_state (Fin 32) (Fin 1024))
         = ret (clamp_score 60, False, NO_GIVEBACK)"
    by (rule disarmed_giveback_still_closes [OF u _ _ _ _ _ _ d])
      (use f in \<open>simp_all add: sample_stage_def sample_decide_def losing_buy_def new_protection_def sample_prot_state_def pget_def
        protection_get_def PROFIT_GIVEBACK_PEAK_USD_def zero_f64_Fin\<close>)
  then show ?thesis using u d by (auto simp: clamp_score_def sample_stage_def losing_buy_def)
qed

end
