(* ===== verification/ExitDispatch.thy ===== *)
theory ExitDispatch
  imports ExitDecision
begin

text \<open>
  The dispatch stage of the position loop of \<^verbatim>\<open>execution/order_manager.py\<close>
  (\<open>_execute_position_action\<close>): what is sent to the broker for a decision, the verification of a
  close, and the closing of the sibling tickets of a split order. A call of the adapter answers
  or raises; the branches that do not catch the exception pass it on.
\<close>

section \<open>State, inputs and the broker\<close>

record exec_broker =
  xb_modify :: "int \<Rightarrow> f64 \<Rightarrow> f64 \<Rightarrow> bool res"
  xb_close :: "int \<Rightarrow> bool res"
  xb_close_part :: "int \<Rightarrow> f64 \<Rightarrow> bool res"
  xb_positions :: "int \<Rightarrow> int list res"

text \<open>The protection state holds the requests, the confirmed stops, the exit tags and the live
  tickets; \<open>xs_orders\<close> lists the entries of \<open>_entry_order_ids\<close>, \<open>xs_parts\<close> the volumes of the
  partial closes requested.\<close>

record exec_state =
  xs_prot :: prot_state
  xs_closed :: "int \<Rightarrow> bool option"
  xs_partial :: "int \<Rightarrow> bool option"
  xs_orders :: "(int \<times> string) list"
  xs_parts :: "(int \<times> f64) list"

record exec_input =
  xi_symbol :: "symbol_info option"
  xi_atr :: f64
  xi_spread :: f64
  xi_gap :: f64
  xi_price :: f64
  xi_tick :: tick_data
  xi_be_lock :: f64
  xi_partial_on :: bool
  xi_partial_ratio :: f64

definition on_prot :: "(prot_state \<Rightarrow> prot_state) \<Rightarrow> exec_state \<Rightarrow> exec_state" where
  "on_prot f X = X\<lparr>xs_prot := f (xs_prot X)\<rparr>"

definition exec_digits :: "symbol_info option \<Rightarrow> int" where
  "exec_digits si = (case si of None \<Rightarrow> 2 | Some s \<Rightarrow> si_digits s)"

section \<open>Moving a stop\<close>

text \<open>Only a confirmed modification advances the tracked stop.\<close>

definition try_modify :: "exec_broker \<Rightarrow> position \<Rightarrow> f64 \<Rightarrow> exec_state \<Rightarrow> bool res \<times> exec_state" where
  "try_modify b p sl X =
     (let t = pos_ticket p; X = on_prot (send (MODIFY t sl (pos_tp p))) X
      in case xb_modify b t sl (pos_tp p) of
           Inl e \<Rightarrow> (raise e, X)
         | Inr ok \<Rightarrow> (ret ok, if ok then on_prot (\<lambda>S. set_flag t (set_last_sl t sl S)) X else X))"

definition modify_branch ::
    "prot_config \<Rightarrow> exec_broker \<Rightarrow> position \<Rightarrow> f64 \<Rightarrow> exec_state \<Rightarrow> unit res \<times> exec_state" where
  "modify_branch c b p target X =
     (let sl = (if 0 < target \<and> \<not> is_sl_improvement p target (xs_prot X) then 0 else target)
      in if 0 < sl \<and> should_modify_sl c (pos_ticket p) sl (xs_prot X)
         then (case try_modify b p sl X of (r, X) \<Rightarrow> (bindR r (\<lambda>_. ret ()), X)) else (ret (), X))"

definition breakeven_stop :: "position \<Rightarrow> exec_input \<Rightarrow> f64 res" where
  "breakeven_stop p i =
     (let d = pmax (xi_be_lock i) (xi_spread i)
      in align_price (if is_buy p then pos_price_open p + d else pos_price_open p - d) None
           (Some (exec_digits (xi_symbol i))) ''nearest'')"

definition breakeven_branch ::
    "prot_config \<Rightarrow> exec_broker \<Rightarrow> exec_input \<Rightarrow> position \<Rightarrow> exec_state \<Rightarrow> unit res \<times> exec_state" where
  "breakeven_branch c b i p X =
     (let t = pos_ticket p in
      case breakeven_stop p i of
        Inl e \<Rightarrow> (raise e, X)
      | Inr sl \<Rightarrow>
          if stop_fits p sl (xi_tick i) (xi_gap i) \<and> \<not> was_sl_modified (pget t (xs_prot X))
             \<and> should_modify_sl c t sl (xs_prot X)
          then (case try_modify b p sl X of
                  (Inl e, X) \<Rightarrow> (raise e, X)
                | (Inr ok, X) \<Rightarrow> (ret (), on_prot (audit t (if ok then ''BREAKEVEN_LOCK'' else ''BREAKEVEN_FAILED'') sl) X))
          else (ret (), X))"

definition trail_stop :: "position \<Rightarrow> exec_input \<Rightarrow> f64 res" where
  "trail_stop p i =
     (let digits = Some (exec_digits (xi_symbol i)) in
      bindR (align_price (xi_atr i * fl (115 / 100)) None digits ''nearest'') (\<lambda>d.
      let d = pmax (xi_gap i) d
      in align_price (if is_buy p then xi_price i - d else xi_price i + d) None digits ''nearest''))"

definition trail_branch ::
    "prot_config \<Rightarrow> exec_broker \<Rightarrow> exec_input \<Rightarrow> position \<Rightarrow> exec_state \<Rightarrow> unit res \<times> exec_state" where
  "trail_branch c b i p X =
     (case trail_stop p i of
        Inl e \<Rightarrow> (raise e, X)
      | Inr sl \<Rightarrow>
          if stop_fits p sl (xi_tick i) (xi_gap i) \<and> is_sl_improvement p sl (xs_prot X)
             \<and> should_modify_sl c (pos_ticket p) sl (xs_prot X)
          then (case try_modify b p sl X of (r, X) \<Rightarrow> (bindR r (\<lambda>_. ret ()), X)) else (ret (), X))"

section \<open>Scaling out\<close>

definition partial_step :: "exec_input \<Rightarrow> f64" where
  "partial_step i = (case xi_symbol i of
       None \<Rightarrow> fl (1 / 100)
     | Some s \<Rightarrow> if 0 < si_volume_step s then si_volume_step s else fl (1 / 100))"

definition partial_volume :: "exec_input \<Rightarrow> position \<Rightarrow> f64 res" where
  "partial_volume i p =
     bindR (py_div (pos_volume p * xi_partial_ratio i) (partial_step i)) (\<lambda>q.
     bindR (round_int q) (\<lambda>n. ret (round_nd 2 (float_of_int n * partial_step i))))"

definition partial_branch ::
    "exec_broker \<Rightarrow> exec_input \<Rightarrow> position \<Rightarrow> exec_state \<Rightarrow> unit res \<times> exec_state" where
  "partial_branch b i p X =
     (let t = pos_ticket p in
      if \<not> xi_partial_on i \<or> getd (xs_partial X t) False then (ret (), X)
      else case partial_volume i p of
        Inl e \<Rightarrow> (raise e, X)
      | Inr v \<Rightarrow>
          if \<not> v < pos_volume p then (ret (), X)
          else
            let X = X\<lparr>xs_parts := xs_parts X @ [(t, v)]\<rparr>
            in case xb_close_part b t v of
                 Inl e \<Rightarrow> (raise e, X)
               | Inr ok \<Rightarrow> (ret (), if ok then X\<lparr>xs_partial := (xs_partial X)(t \<mapsto> True)\<rparr> else X))"

section \<open>Closing\<close>

definition HOLD_SCORE_TAG :: string where "HOLD_SCORE_TAG = ''HOLD_SCORE_DECAY''"

definition tag_default :: "int \<Rightarrow> prot_state \<Rightarrow> prot_state" where
  "tag_default t S = (if pr_forced S t = None then S\<lparr>pr_forced := (pr_forced S)(t \<mapsto> HOLD_SCORE_TAG)\<rparr> else S)"

definition accepts :: "bool res \<Rightarrow> bool" where
  "accepts r = (case r of Inr True \<Rightarrow> True | _ \<Rightarrow> False)"

text \<open>The ticket is gone from the broker's list, or the list cannot be read.\<close>

definition broker_close_verified :: "exec_broker \<Rightarrow> int \<Rightarrow> bool" where
  "broker_close_verified b t = (case xb_positions b t of Inl e \<Rightarrow> True | Inr ts \<Rightarrow> t \<notin> set ts)"

definition siblings :: "int \<Rightarrow> exec_state \<Rightarrow> int list" where
  "siblings t X =
     (let oid = getd (map_of (xs_orders X) t) ''''
      in if oid = '''' then [] else map fst (filter (\<lambda>(u, k). k = oid \<and> u \<noteq> t) (xs_orders X)))"

definition close_sibling :: "exec_broker \<Rightarrow> exec_state \<Rightarrow> int \<Rightarrow> exec_state" where
  "close_sibling b X s =
     (let X = on_prot (send (CLOSE_POSITION s)) X
      in if accepts (xb_close b s)
         then on_prot (\<lambda>S. (tag_default s S)\<lparr>pr_live := pr_live S - {s}\<rparr>) X else X)"

definition close_sibling_legs :: "exec_broker \<Rightarrow> int \<Rightarrow> exec_state \<Rightarrow> exec_state" where
  "close_sibling_legs b t X = foldl (close_sibling b) X (siblings t X)"

definition close_branch :: "exec_broker \<Rightarrow> position \<Rightarrow> exec_state \<Rightarrow> exec_state" where
  "close_branch b p X =
     (let t = pos_ticket p; X = on_prot (\<lambda>S. send (CLOSE_POSITION t) (tag_default t S)) X
      in if \<not> accepts (xb_close b t) then on_prot (\<lambda>S. S\<lparr>pr_forced := (pr_forced S)(t := None)\<rparr>) X
         else if broker_close_verified b t
           then close_sibling_legs b t (on_prot (\<lambda>S. S\<lparr>pr_live := pr_live S - {t}\<rparr>) (X\<lparr>xs_closed := (xs_closed X)(t \<mapsto> True)\<rparr>))
         else X)"

section \<open>The stage\<close>

text \<open>A plan for a ticket that is not positive raises before anything is sent.\<close>

definition execute_position_action ::
    "prot_config \<Rightarrow> exec_broker \<Rightarrow> exec_input \<Rightarrow> position \<Rightarrow> pos_action \<Rightarrow> f64 \<Rightarrow> exec_state
       \<Rightarrow> unit res \<times> exec_state" where
  "execute_position_action c b i p act target X =
     (if pos_ticket p \<le> 0 then (raise ValueError, X)
      else case act of
          Close \<Rightarrow> (ret (), close_branch b p X)
        | ModifySl \<Rightarrow> modify_branch c b p target X
        | PartialClose \<Rightarrow> partial_branch b i p X
        | BreakEven \<Rightarrow> breakeven_branch c b i p X
        | NormalTrail \<Rightarrow> trail_branch c b i p X
        | _ \<Rightarrow> (ret (), X))"

definition tag_text :: "exit_tag \<Rightarrow> string" where
  "tag_text g = (case g of HOLD_SCORE_DECAY \<Rightarrow> HOLD_SCORE_TAG | PROFIT_GIVEBACK_TAG \<Rightarrow> GIVEBACK_MECHANISM)"

text \<open>A decision and its dispatch: the exit tag is set first.\<close>

definition dispatch_decision ::
    "prot_config \<Rightarrow> exec_broker \<Rightarrow> exec_input \<Rightarrow> position \<Rightarrow> decision \<Rightarrow> exec_state \<Rightarrow> unit res \<times> exec_state" where
  "dispatch_decision c b i p d X =
     execute_position_action c b i p (dc_action d) (dc_target_sl d)
       (case dc_forced d of None \<Rightarrow> X
        | Some g \<Rightarrow> on_prot (\<lambda>S. S\<lparr>pr_forced := (pr_forced S)(pos_ticket p \<mapsto> tag_text g)\<rparr>) X)"

section \<open>What the stage sends\<close>

text \<open>A stop no looser than the broker's and not behind the floor of a confirmed lock.\<close>

definition not_looser :: "position \<Rightarrow> f64 \<Rightarrow> prot_state \<Rightarrow> bool" where
  "not_looser p sl S \<longleftrightarrow>
     (0 < pos_sl p \<longrightarrow> (if is_buy p then \<not> sl \<le> pos_sl p else \<not> pos_sl p \<le> sl)) \<and>
     (let flr = protective_sl_floor (pos_ticket p) S in
      0 < flr \<longrightarrow> (if is_buy p then \<not> sl < flr - tiny_qty else \<not> flr + tiny_qty < sl))"

lemma tightens_not_looser: "tightens p sl S \<Longrightarrow> not_looser p sl S"
  by (simp add: tightens_def not_looser_def)

lemma fitting_not_looser:
  assumes "stop_fits p sl tick gap" "\<not> was_sl_modified (pget (pos_ticket p) S)"
  shows "not_looser p sl S"
proof -
  have "\<not> sl \<le> pos_sl p" if "is_buy p"
    using assms(1) that f64_less_le_trans [of "pos_sl p" sl "pos_sl p"] f64_less_irrefl by (auto simp: stop_fits_def)
  moreover have "\<not> pos_sl p \<le> sl" if "\<not> is_buy p" "0 < pos_sl p"
  proof -
    have "\<not> feq (pos_sl p) 0" using that(2) by (cases "pos_sl p") (auto simp: feq_def zero_f64_Fin)
    then show ?thesis using assms(1) that f64_less_le_trans [of sl "pos_sl p" sl] f64_less_irrefl by (auto simp: stop_fits_def)
  qed
  ultimately show ?thesis using assms(2) by (simp add: not_looser_def protective_sl_floor_def Let_def)
qed

lemma pr_sent_exec [simp]:
  "pr_sent (tag_default t S) = pr_sent S" "pget u (tag_default t S) = pget u S"
  "pr_live (tag_default t S) = pr_live S" "pr_live (send r S) = pr_live S" "pr_forced (send r S) = pr_forced S"
  by (simp_all add: tag_default_def pget_def send_def)

lemma on_prot_simps [simp]:
  "xs_prot (on_prot f X) = f (xs_prot X)" "xs_closed (on_prot f X) = xs_closed X" "xs_partial (on_prot f X) = xs_partial X"
  "xs_orders (on_prot f X) = xs_orders X" "xs_parts (on_prot f X) = xs_parts X"
  by (simp_all add: on_prot_def)

lemma try_modify_sends:
  "try_modify b p sl X = (r, X') \<Longrightarrow> pr_sent (xs_prot X') = pr_sent (xs_prot X) @ [MODIFY (pos_ticket p) sl (pos_tp p)]"
  by (auto simp: try_modify_def Let_def split: sum.splits if_splits)

text \<open>Every branch that moves a stop sends nothing or one modification that is not looser.\<close>

definition sends_one_stop :: "position \<Rightarrow> exec_state \<Rightarrow> exec_state \<Rightarrow> bool" where
  "sends_one_stop p X X' \<longleftrightarrow> pr_sent (xs_prot X') = pr_sent (xs_prot X) \<or>
     (\<exists>sl. pr_sent (xs_prot X') = pr_sent (xs_prot X) @ [MODIFY (pos_ticket p) sl (pos_tp p)] \<and> not_looser p sl (xs_prot X))"

lemma modify_sends: "sends_one_stop p X (snd (modify_branch c b p target X))"
proof -
  obtain r X' where m: "try_modify b p target X = (r, X')" by fastforce
  show ?thesis
    using try_modify_sends [OF m]
    by (simp add: modify_branch_def Let_def sends_one_stop_def m is_sl_improvement_tightens tightens_not_looser)
qed

lemma trail_branch_sends: "sends_one_stop p X (snd (trail_branch c b i p X))"
proof (cases "trail_stop p i")
  case (Inr sl)
  obtain r X' where m: "try_modify b p sl X = (r, X')" by fastforce
  show ?thesis
    using try_modify_sends [OF m]
    by (simp add: trail_branch_def Inr sends_one_stop_def m is_sl_improvement_tightens tightens_not_looser)
qed (simp add: trail_branch_def sends_one_stop_def)

lemma breakeven_branch_sends: "sends_one_stop p X (snd (breakeven_branch c b i p X))"
proof (cases "breakeven_stop p i")
  case (Inr sl)
  obtain r X' where m: "try_modify b p sl X = (r, X')" by fastforce
  show ?thesis
    using try_modify_sends [OF m] fitting_not_looser [of p sl "xi_tick i" "xi_gap i" "xs_prot X"]
    by (auto simp: breakeven_branch_def Inr sends_one_stop_def m Let_def split: sum.split)
qed (simp add: breakeven_branch_def sends_one_stop_def)

lemma partial_sends: "pr_sent (xs_prot (snd (partial_branch b i p X))) = pr_sent (xs_prot X)"
  by (simp add: partial_branch_def Let_def split: sum.split)

section \<open>Closing\<close>

lemma close_sibling_state [simp]:
  "pr_sent (xs_prot (close_sibling b X s)) = pr_sent (xs_prot X) @ [CLOSE_POSITION s]"
  "xs_closed (close_sibling b X s) = xs_closed X"
  "pr_live (xs_prot (close_sibling b X s)) = pr_live (xs_prot X) - (if accepts (xb_close b s) then {s} else {})"
  by (auto simp: close_sibling_def Let_def)

lemma close_siblings_state:
  "pr_sent (xs_prot (foldl (close_sibling b) X ss)) = pr_sent (xs_prot X) @ map CLOSE_POSITION ss
   \<and> xs_closed (foldl (close_sibling b) X ss) = xs_closed X
   \<and> pr_live (xs_prot (foldl (close_sibling b) X ss)) = pr_live (xs_prot X) - {s \<in> set ss. accepts (xb_close b s)}"
  by (induction ss arbitrary: X) auto

lemma siblings_cong: "xs_orders X = xs_orders X' \<Longrightarrow> siblings t X = siblings t X'"
  by (simp add: siblings_def Let_def)

lemma sibling_not_self: "t \<notin> set (siblings t X)"
  by (auto simp: siblings_def Let_def)

lemma close_branch_state:
  defines "done_ok b t \<equiv> accepts (xb_close b t) \<and> broker_close_verified b t"
  shows "pr_sent (xs_prot (close_branch b p X)) = pr_sent (xs_prot X) @ CLOSE_POSITION (pos_ticket p) #
      (if done_ok b (pos_ticket p) then map CLOSE_POSITION (siblings (pos_ticket p) X) else [])"
    "xs_closed (close_branch b p X) =
      (if done_ok b (pos_ticket p) then (xs_closed X)(pos_ticket p \<mapsto> True) else xs_closed X)"
    "pr_live (xs_prot (close_branch b p X)) = pr_live (xs_prot X) -
      (if done_ok b (pos_ticket p)
       then insert (pos_ticket p) {s \<in> set (siblings (pos_ticket p) X). accepts (xb_close b s)} else {})"
  using close_siblings_state [of b]
  by (auto simp: close_branch_def Let_def close_sibling_legs_def done_ok_def siblings_def)

section \<open>The stop at seven tenths of the peak\<close>

text \<open>The quote at which the position has the result the broker reports, to the digits of the
  contract.\<close>

definition result_quote :: "position \<Rightarrow> symbol_info \<Rightarrow> f64" where
  "result_quote p s =
     (let d = pos_profit p / pmax (pos_volume p * resolve_contract_size (Some s)) 1
      in round_nd (nat (si_digits s)) (if is_buy p then pos_price_open p + d else pos_price_open p - d))"

definition peak_stop :: "position \<Rightarrow> symbol_info \<Rightarrow> f64 \<Rightarrow> f64" where
  "peak_stop p s peak =
     (let d = peak * fl (7 / 10) / pmax (pos_volume p * resolve_contract_size (Some s)) 1
      in if is_buy p then pos_price_open p + d else pos_price_open p - d)"

lemma f64_div_le:
  assumes "x \<le> y" "isfinite x" "isfinite y" "1 \<le> v"
  shows "x / v \<le> y / v"
proof (cases v)
  case (Fin l)
  then have "0 < l" using assms(4) by (simp add: one_f64_Fin)
  then show ?thesis
    using assms(1-3) Fin by (cases x; cases y) (auto simp: isfinite_def intro!: fl_mono divide_right_mono)
next
  case PInf
  then show ?thesis using assms(2,3) by (auto simp: isfinite_def split: f64.splits)
qed (use assms(4) in \<open>auto simp: one_f64_Fin\<close>)

text \<open>While the result is below seven tenths of the peak, that stop is on the wrong side of the
  market.\<close>

lemma peak_stop_wrong_side:
  fixes p :: position and s :: symbol_info and peak :: f64
  assumes "pos_profit p \<le> peak * fl (7 / 10)" "isfinite (pos_profit p)" "isfinite (peak * fl (7 / 10))"
    and "isfinite (pos_price_open p)" "1 \<le> pmax (pos_volume p * resolve_contract_size (Some s)) 1"
  defines "st \<equiv> round_nd (nat (si_digits s)) (peak_stop p s peak)"
  shows "if is_buy p then result_quote p s \<le> st else st \<le> result_quote p s"
proof -
  let ?v = "pmax (pos_volume p * resolve_contract_size (Some s)) 1"
  have d: "pos_profit p / ?v \<le> peak * fl (7 / 10) / ?v" using assms(1-3,5) by (rule f64_div_le)
  have n: "pos_profit p / ?v \<noteq> NaN" "peak * fl (7 / 10) / ?v \<noteq> NaN" using d f64_le_not_NaN by blast+
  have u: "pos_price_open p + x \<noteq> NaN" "x + pos_price_open p = pos_price_open p + x" if "x \<noteq> NaN" for x
    using that assms(4) by (cases x; auto simp: isfinite_def add.commute split: f64.splits)+
  have "pos_price_open p + pos_profit p / ?v \<le> pos_price_open p + peak * fl (7 / 10) / ?v"
    using fadd_mono [OF d, of "pos_price_open p"] u n by simp
  moreover have "pos_price_open p - peak * fl (7 / 10) / ?v \<le> pos_price_open p - pos_profit p / ?v"
    using assms(4) d by (rule fsub_antimono)
  ultimately show ?thesis
    unfolding st_def result_quote_def peak_stop_def Let_def by (auto intro: round_nd_mono)
qed

lemma pmax_ge_one: "isfinite x \<Longrightarrow> 1 \<le> pmax x 1"
  by (cases x) (auto simp: isfinite_def pmax_def one_f64_Fin)

lemma behind_market: "(x::f64) \<le> y \<Longrightarrow> 0 < gap \<Longrightarrow> \<not> gap \<le> x - y"
proof
  assume xy: "x \<le> y" and g: "0 < gap" "gap \<le> x - y"
  have "x - y \<le> 0 \<or> x - y = NaN"
    using xy by (cases x; cases y) (auto simp: minus_f64_def zero_f64_Fin intro!: fl_nonpos)
  then show False using g f64_less_le_trans [OF g(1) g(2)] f64_less_le_trans [of 0 "x - y" 0] f64_less_irrefl by auto
qed

lemma mfe_target_eq: "0 \<le> si_digits s \<Longrightarrow> mfe_target p (Some s) peak = ret (round_nd (nat (si_digits s)) (peak_stop p s peak))"
  by (cases "peak_stop p s peak") (auto simp: mfe_target_def peak_stop_def align_price_def Let_def isfinite_def)

lemma giveback_target_eq:
  "0 \<le> si_digits s \<Longrightarrow> si_digits s \<le> 10 \<Longrightarrow> de_symbol d = Some s \<Longrightarrow>
   giveback_target d = round_nd (nat (si_digits s)) (peak_stop (de_pos d) s (de_peak_usd d))"
  by (simp add: giveback_target_def peak_stop_def Let_def resolve_price_digits_def is_buy_def)

section \<open>Properties\<close>

text \<open>C38: A dispatch never loosens a stop. Whatever is decided and whatever the broker answers or raises, the
  stage either sends closes, of the position itself and then of tickets of the same order, or it
  sends at most one modification of this position, which keeps its target, is strictly tighter
  than a stop the broker holds and is not behind the floor of a confirmed lock.\<close>

theorem dispatch_only_tightens:
  assumes "execute_position_action c b i p act target X = (r, X')"
  shows "(act = Close \<and> (\<exists>ss. set ss \<subseteq> set (siblings (pos_ticket p) X) \<and>
            pr_sent (xs_prot X') = pr_sent (xs_prot X) @ map CLOSE_POSITION (pos_ticket p # ss)))
         \<or> sends_one_stop p X X'"
proof (cases "act = Close \<and> 0 < pos_ticket p")
  case True
  then have "X' = close_branch b p X" using assms by (simp add: execute_position_action_def)
  moreover have "set [] \<subseteq> set (siblings (pos_ticket p) X)" by simp
  ultimately show ?thesis using True close_branch_state(1) [of b p X] by (auto split: if_splits)
next
  case False
  have p: "sends_one_stop p X (snd (partial_branch b i p X))" "sends_one_stop p X X"
    using partial_sends by (simp_all add: sends_one_stop_def)
  have "X' = snd (execute_position_action c b i p act target X)" using assms by simp
  then show ?thesis
    using False p modify_sends trail_branch_sends breakeven_branch_sends
    by (cases act) (auto simp: execute_position_action_def)
qed

text \<open>C39: What a close frees, exactly. The ticket is marked closed and leaves the live set if and
  only if the broker accepted the close and no longer lists the ticket, or its list cannot be
  read; an accepted close that is still listed leaves everything as it was. A sibling ticket of
  the same order leaves the live set as soon as its own close is accepted, without a look at the
  broker's list, and is not marked closed.\<close>

theorem close_frees_exactly:
  assumes "execute_position_action c b i p Close target X = (r, X')" "0 < pos_ticket p"
  shows "pr_live (xs_prot X') = pr_live (xs_prot X) -
      (if accepts (xb_close b (pos_ticket p)) \<and> broker_close_verified b (pos_ticket p)
       then insert (pos_ticket p) {s \<in> set (siblings (pos_ticket p) X). accepts (xb_close b s)} else {})
    \<and> xs_closed X' = (if accepts (xb_close b (pos_ticket p)) \<and> broker_close_verified b (pos_ticket p)
       then (xs_closed X)(pos_ticket p \<mapsto> True) else xs_closed X)"
  using assms close_branch_state(2,3) [of b p X] by (auto simp: execute_position_action_def)

text \<open>Scaling out of the smallest lot does nothing, and is noted as done. When the share of
  the position is at most half a volume step, the volume to close rounds to zero: a broker that
  accepts the empty request makes the position count as partially closed, and a broker that
  refuses it gets the same request on every later pass.\<close>

theorem empty_partial_close:
  assumes "pos_volume p * xi_partial_ratio i / partial_step i = Fin q" "0 \<le> q" "q \<le> 1 / 2"
    and "partial_step i = Fin s" "s \<noteq> 0" "0 < pos_volume p" "0 < pos_ticket p"
    and "xi_partial_on i" "\<not> getd (xs_partial X (pos_ticket p)) False"
    and "execute_position_action c b i p PartialClose target X = (r, X')"
  shows "xs_parts X' = xs_parts X @ [(pos_ticket p, 0)] \<and>
    getd (xs_partial X' (pos_ticket p)) False = accepts (xb_close_part b (pos_ticket p) 0) \<and>
    xs_prot X' = xs_prot X"
proof -
  have d: "py_div (pos_volume p * xi_partial_ratio i) (Fin s) = ret (Fin q)"
    using assms(1,4,5) by (simp add: py_div_def feq_def zero_f64_Fin)
  have "rhe (1 / 2) = 0" by code_simp
  then have n: "rhe q = 0" using rhe_mono [of 0 q] rhe_mono [of q "1 / 2"] assms(2,3) by simp
  have v: "partial_volume i p = ret 0"
    using d n by (simp add: partial_volume_def assms(4) float_of_int_def zero_f64_Fin)
  show ?thesis
    using assms(6-10) v
    by (cases "xb_close_part b (pos_ticket p) 0")
      (auto simp: execute_position_action_def partial_branch_def Let_def accepts_def ret_def split: if_splits bool.splits)
qed

lemma modify_branch_sent:
  "pr_sent (xs_prot (snd (modify_branch c b p target X))) = pr_sent (xs_prot X) @
     (if 0 < target \<and> is_sl_improvement p target (xs_prot X) \<and> should_modify_sl c (pos_ticket p) target (xs_prot X)
      then [MODIFY (pos_ticket p) target (pos_tp p)] else [])"
proof -
  obtain r X' where m: "try_modify b p target X = (r, X')" by fastforce
  show ?thesis using try_modify_sends [OF m] by (simp add: modify_branch_def Let_def m)
qed

text \<open>C40: the stop at seven tenths of the peak, while the result is below seven tenths of the peak. Assume that
  the profit the broker reports is the one at the current quote (the bid for a buy, the ask for a sell, both
  rounded to the digits of the contract), that the ticket is positive, that profit, peak, entry price and position size are numbers, that
  prices have at most 10 digits and that the minimum distance of a stop is positive. Then the stop lies at or
  beyond the quote; the peak lock of the protection chain, which tests the distance, sends nothing and changes
  nothing; and a \<^verbatim>\<open>MODIFY_SL\<close> decision of a giveback scenario has this stop as its target, and its dispatch,
  which does not test the distance, sends it whenever it tightens the stop and passes the step filter.
  Nothing is claimed for a warning that its debounce still holds while the result is above seven tenths of the
  peak again, nor for a profit that does not follow the quote.\<close>

theorem peak_stop_beyond_market:
  assumes "pos_profit p < peak * fl (7 / 10)" "isfinite (pos_profit p)" "isfinite (peak * fl (7 / 10))"
    and "isfinite (pos_price_open p)" "isfinite (pos_volume p * resolve_contract_size (Some s))"
    and "0 \<le> si_digits s" "si_digits s \<le> 10" "0 < gap"
    and quote: "result_quote p s = (if is_buy p then t_bid tick else t_ask tick)"
    and d: "de_pos d = p" "de_symbol d = Some s" "de_peak_usd d = peak"
    and ticket: "0 < pos_ticket p"
    and target: "sublist ''GIVEBACK'' scenario" "target = dc_target_sl (decision_of d sl (ModifySl, scenario))"
  shows "mfe_lock c bk p (Some s) gap tick peak S = (ret (), S)
    \<and> (if is_buy p then t_bid tick \<le> target else target \<le> t_ask tick)
    \<and> pr_sent (xs_prot (snd (execute_position_action c b i p ModifySl target X))) = pr_sent (xs_prot X) @
        (if 0 < target \<and> is_sl_improvement p target (xs_prot X) \<and> should_modify_sl c (pos_ticket p) target (xs_prot X)
         then [MODIFY (pos_ticket p) target (pos_tp p)] else [])"
proof (intro conjI)
  have w: "if is_buy p then t_bid tick \<le> round_nd (nat (si_digits s)) (peak_stop p s peak)
    else round_nd (nat (si_digits s)) (peak_stop p s peak) \<le> t_ask tick"
    using peak_stop_wrong_side [OF f64_less_imp_le [OF assms(1)] assms(2-4) pmax_ge_one [OF assms(5)]] quote
    by (auto split: if_splits)
  have t: "target = giveback_target d" using target by (simp add: decision_of_def)
  show "if is_buy p then t_bid tick \<le> target else target \<le> t_ask tick"
    using w giveback_target_eq [OF assms(6,7) d(2)] d t by simp
  show "mfe_lock c bk p (Some s) gap tick peak S = (ret (), S)"
    using w behind_market [OF _ assms(8)] by (auto simp: mfe_lock_def mfe_target_eq [OF assms(6)] Let_def stop_fits_def ret_def)
qed (use ticket in \<open>simp add: execute_position_action_def modify_branch_sent\<close>)

section \<open>Samples\<close>

definition sample_exec_broker :: exec_broker where
  "sample_exec_broker = \<lparr>xb_modify = (\<lambda>_ _ _. ret True), xb_close = (\<lambda>_. ret True),
     xb_close_part = (\<lambda>_ _. ret True), xb_positions = (\<lambda>_. ret [8])\<rparr>"

definition sample_exec_state :: exec_state where
  "sample_exec_state = \<lparr>xs_prot = (sample_prot_state 0 (Fin 100))\<lparr>pr_live := {7, 8}\<rparr>, xs_closed = (\<lambda>_. None),
     xs_partial = (\<lambda>_. None), xs_orders = [(7, ''order''), (8, ''order'')], xs_parts = []\<rparr>"

definition sample_exec_input :: exec_input where
  "sample_exec_input = \<lparr>xi_symbol = Some sample_symbol, xi_atr = Fin 1, xi_spread = 0, xi_gap = Fin (1 / 8), xi_price = Fin 2100,
     xi_tick = \<lparr>t_symbol = ''XAUUSD'', t_timestamp = utc_at 0, t_bid = Fin 2100, t_ask = Fin 2100, t_last = Fin 2100,
       t_volume = 0, t_flags = 0\<rparr>, xi_be_lock = 0, xi_partial_on = True, xi_partial_ratio = Fin (1 / 2)\<rparr>"

lemma dispatch_only_tightens_witness:
  "sends_one_stop losing_buy sample_exec_state (snd (execute_position_action sample_prot_config sample_exec_broker
     sample_exec_input losing_buy ModifySl (Fin 1995) sample_exec_state))"
proof -
  obtain r X' where x: "execute_position_action sample_prot_config sample_exec_broker sample_exec_input losing_buy ModifySl
      (Fin 1995) sample_exec_state = (r, X')"
    by fastforce
  show ?thesis using dispatch_only_tightens [OF x] x by simp
qed

lemma close_frees_exactly_witness:
  "let X' = snd (execute_position_action sample_prot_config sample_exec_broker sample_exec_input losing_buy Close 0 sample_exec_state)
   in pr_live (xs_prot X') = {} \<and> xs_closed X' 7 = Some True \<and> xs_closed X' 8 = None"
proof -
  have a: "accepts (xb_close sample_exec_broker t)" "broker_close_verified sample_exec_broker 7" for t
    by (simp_all add: sample_exec_broker_def accepts_def broker_close_verified_def ret_def)
  have s: "siblings 7 sample_exec_state = [8]" by (simp add: siblings_def sample_exec_state_def)
  have t: "pos_ticket losing_buy = 7" by (simp add: losing_buy_def)
  show ?thesis
    using close_frees_exactly [OF surjective_pairing, of losing_buy sample_prot_config sample_exec_broker sample_exec_input 0
        sample_exec_state] by (simp add: t a s Let_def) (auto simp: sample_exec_state_def)
qed

definition smallest_lot :: position where
  "smallest_lot = losing_buy\<lparr>pos_volume := Fin (1 / 8)\<rparr>"

lemma empty_partial_close_witness:
  "let X' = snd (execute_position_action sample_prot_config sample_exec_broker sample_exec_input smallest_lot PartialClose 0 sample_exec_state)
   in xs_parts X' = [(7, 0)] \<and> getd (xs_partial X' 7) False"
proof -
  have s: "partial_step sample_exec_input = Fin (1 / 8)"
    by (simp add: partial_step_def sample_exec_input_def sample_symbol_def zero_f64_Fin)
  have q: "pos_volume smallest_lot * xi_partial_ratio sample_exec_input / Fin (1 / 8) = Fin (1 / 2)" by code_simp
  have p: "0 < pos_volume smallest_lot" "pos_ticket smallest_lot = 7"
    by (simp_all add: smallest_lot_def losing_buy_def zero_f64_Fin)
  have i: "xi_partial_on sample_exec_input" "\<not> getd (xs_partial sample_exec_state (pos_ticket smallest_lot)) False"
    by (simp_all add: sample_exec_input_def sample_exec_state_def)
  have a: "accepts (xb_close_part sample_exec_broker 7 0)" by (simp add: sample_exec_broker_def accepts_def ret_def)
  show ?thesis
    using empty_partial_close [OF q [folded s] _ _ s _ p(1) _ i surjective_pairing, of sample_prot_config sample_exec_broker 0] p(2) a
    by (auto simp: Let_def sample_exec_state_def)
qed

definition winning_buy :: position where
  "winning_buy = losing_buy\<lparr>pos_profit := Fin 6400\<rparr>"

definition overshot_stop :: f64 where
  "overshot_stop = round_nd (resolve_price_digits (Some sample_symbol))
     (pos_price_open winning_buy
      + Fin 16384 * fl (70 / 100) / pmax (pos_volume winning_buy * resolve_contract_size (Some sample_symbol)) 1)"

lemma overshot_stop_sent:
  "0 < overshot_stop \<and> is_sl_improvement winning_buy overshot_stop (xs_prot sample_exec_state)
   \<and> should_modify_sl sample_prot_config (pos_ticket winning_buy) overshot_stop (xs_prot sample_exec_state)"
  by (intro conjI) code_simp+

lemma peak_stop_beyond_market_witness:
  "mfe_lock sample_prot_config yes_broker winning_buy (Some sample_symbol) (Fin (1 / 8)) (xi_tick sample_exec_input) (Fin 16384)
      (sample_prot_state 0 (Fin 100)) = (ret (), sample_prot_state 0 (Fin 100))
   \<and> t_bid (xi_tick sample_exec_input) \<le> overshot_stop
   \<and> pr_sent (xs_prot (snd (execute_position_action sample_prot_config sample_exec_broker sample_exec_input winning_buy ModifySl
        overshot_stop sample_exec_state)))
     = pr_sent (xs_prot sample_exec_state) @ [MODIFY (pos_ticket winning_buy) overshot_stop (pos_tp winning_buy)]"
proof -
  have d: "pos_profit winning_buy < Fin 16384 * fl (7 / 10)" "isfinite (Fin 16384 * fl (7 / 10))"
    "isfinite (pos_volume winning_buy * resolve_contract_size (Some sample_symbol))"
    "result_quote winning_buy sample_symbol = (if is_buy winning_buy then t_bid (xi_tick sample_exec_input) else t_ask (xi_tick sample_exec_input))"
    by code_simp+
  obtain m where "calculate_smart_metrics sample_metric_inputs = ret m" using sample_metrics_return ..
  define w where "w = (sample_decide m PROFIT_GIVEBACK_WARNING \<lparr>ev_continuation = 0, ev_adverse = 0, ev_recovery = 0\<rparr>)
    \<lparr>de_pos := winning_buy, de_symbol := Some sample_symbol, de_peak_usd := Fin 16384\<rparr>"
  let ?sc = "''PROFIT_GIVEBACK_WARNING: tightening profit protection''"
  have f: "isfinite (pos_profit winning_buy)" "isfinite (pos_price_open winning_buy)" "0 \<le> si_digits sample_symbol"
    "si_digits sample_symbol \<le> 10" "0 < Fin (1 / 8)"
    by (simp_all add: winning_buy_def losing_buy_def isfinite_def sample_symbol_def zero_f64_Fin)
  have w: "de_pos w = winning_buy" "de_symbol w = Some sample_symbol" "de_peak_usd w = Fin 16384" by (simp_all add: w_def)
  have g: "sublist ''GIVEBACK'' ?sc" by code_simp
  have tk: "0 < pos_ticket winning_buy" by (simp add: winning_buy_def losing_buy_def)
  have b: "is_buy winning_buy" "pos_type winning_buy = BUY" by (simp_all add: winning_buy_def losing_buy_def is_buy_def)
  have t: "overshot_stop = dc_target_sl (decision_of w 0 (ModifySl, ?sc))"
    using g b by (simp add: decision_of_def giveback_target_def w overshot_stop_def Let_def)
  show ?thesis
    using peak_stop_beyond_market [OF d(1) f(1) d(2) f(2) d(3) f(3-5) d(4) w tk g t] overshot_stop_sent b by simp
qed

end
