(* ===== verification/BoundedMap.thy ===== *)
theory BoundedMap
  imports Prelude
begin

text \<open>
  \<^verbatim>\<open>bounded_map.py\<close>: the bounded map behind the duplicate-dispatch guard and the warning stamps.
  The ordered dictionary is a list of entries, the least recently used first. Reading an entry
  moves it to the end, a membership test does not.
\<close>

section \<open>The map\<close>

record ('k, 'v) lru =
  lr_data :: "('k \<times> 'v) list"
  lr_max :: nat
  lr_evictions :: nat

definition mk_lru :: "int \<Rightarrow> ('k, 'v) lru res" where
  "mk_lru n = (if n < 1 then raise ValueError else ret \<lparr>lr_data = [], lr_max = nat n, lr_evictions = 0\<rparr>)"

definition lru_contains :: "('k, 'v) lru \<Rightarrow> 'k \<Rightarrow> bool" where
  "lru_contains m k \<longleftrightarrow> k \<in> set (map fst (lr_data m))"

definition without :: "'k \<Rightarrow> ('k \<times> 'v) list \<Rightarrow> ('k \<times> 'v) list" where
  "without k xs = filter (\<lambda>x. fst x \<noteq> k) xs"

definition lru_getitem :: "'k \<Rightarrow> ('k, 'v) lru \<Rightarrow> 'v res \<times> ('k, 'v) lru" where
  "lru_getitem k m = (case map_of (lr_data m) k of
       None \<Rightarrow> (raise KeyError, m)
     | Some v \<Rightarrow> (ret v, m\<lparr>lr_data := without k (lr_data m) @ [(k, v)]\<rparr>))"

text \<open>The loop of evictions.\<close>

fun evict :: "('k \<times> 'v) list \<Rightarrow> ('k, 'v) lru \<Rightarrow> ('k, 'v) lru" where
  "evict [] m = m\<lparr>lr_data := []\<rparr>"
| "evict (x # xs) m =
     (if lr_max m < length (x # xs) then evict xs (m\<lparr>lr_evictions := lr_evictions m + 1\<rparr>)
      else m\<lparr>lr_data := x # xs\<rparr>)"

definition lru_setitem :: "'k \<Rightarrow> 'v \<Rightarrow> ('k, 'v) lru \<Rightarrow> ('k, 'v) lru" where
  "lru_setitem k v m = evict (without k (lr_data m) @ [(k, v)]) m"

definition lru_delitem :: "'k \<Rightarrow> ('k, 'v) lru \<Rightarrow> unit res \<times> ('k, 'v) lru" where
  "lru_delitem k m =
     (if lru_contains m k then (ret (), m\<lparr>lr_data := without k (lr_data m)\<rparr>) else (raise KeyError, m))"

text \<open>\<^verbatim>\<open>get\<close> and \<^verbatim>\<open>pop\<close> of \<^verbatim>\<open>MutableMapping\<close>: they read through the item, \<^verbatim>\<open>pop\<close> deletes it then.\<close>

definition lru_get :: "'k \<Rightarrow> 'v \<Rightarrow> ('k, 'v) lru \<Rightarrow> 'v \<times> ('k, 'v) lru" where
  "lru_get k d m = (case lru_getitem k m of (Inr v, m) \<Rightarrow> (v, m) | (Inl e, m) \<Rightarrow> (d, m))"

definition lru_pop :: "'k \<Rightarrow> 'v \<Rightarrow> ('k, 'v) lru \<Rightarrow> 'v \<times> ('k, 'v) lru" where
  "lru_pop k d m = (case lru_getitem k m of
       (Inr v, m) \<Rightarrow> (v, snd (lru_delitem k m)) | (Inl e, m) \<Rightarrow> (d, m))"

definition lru_clear :: "('k, 'v) lru \<Rightarrow> ('k, 'v) lru" where
  "lru_clear m = m\<lparr>lr_data := []\<rparr>"

definition lru_keys :: "('k, 'v) lru \<Rightarrow> 'k list" where
  "lru_keys m = map fst (lr_data m)"

definition lru_lookup :: "('k, 'v) lru \<Rightarrow> 'k \<Rightarrow> 'v option" where
  "lru_lookup m k = map_of (lr_data m) k"

datatype ('k, 'v) lru_op = L_GET 'k | L_SET 'k 'v | L_DEL 'k | L_POP 'k 'v | L_CLEAR

fun lru_step :: "('k, 'v) lru \<Rightarrow> ('k, 'v) lru_op \<Rightarrow> ('k, 'v) lru" where
  "lru_step m (L_GET k) = snd (lru_getitem k m)"
| "lru_step m (L_SET k v) = lru_setitem k v m"
| "lru_step m (L_DEL k) = snd (lru_delitem k m)"
| "lru_step m (L_POP k d) = snd (lru_pop k d m)"
| "lru_step m L_CLEAR = lru_clear m"

section \<open>The invariant\<close>

definition lru_ok :: "nat \<Rightarrow> ('k, 'v) lru \<Rightarrow> bool" where
  "lru_ok n m \<longleftrightarrow> lr_max m = n \<and> distinct (map fst (lr_data m)) \<and> length (lr_data m) \<le> n"

lemma evict_spec: "lr_data (evict xs m) = drop (length xs - lr_max m) xs \<and> lr_max (evict xs m) = lr_max m"
proof (induction xs arbitrary: m)
  case (Cons x xs)
  then show ?case
    by (cases "lr_max m < length (x # xs)") (auto simp: Suc_diff_le less_Suc_eq_le)
qed simp

lemma evict_count: "lr_evictions (evict xs m) = lr_evictions m + (length xs - lr_max m)"
  by (induction xs arbitrary: m) auto

lemma without_simps [simp]:
  "without k [] = []" "map fst (without k xs) = filter (\<lambda>u. u \<noteq> k) (map fst xs)"
  "length (without k xs) \<le> length xs"
  by (simp_all add: without_def filter_map o_def)

lemma map_of_without: "map_of (without k xs) u = (if u = k then None else map_of xs u)"
  by (induction xs) (auto simp: without_def)

lemma without_absent: "k \<notin> fst ` set xs \<Longrightarrow> without k xs = xs"
  by (induction xs) (auto simp: without_def)

lemma without_length: "distinct (map fst xs) \<Longrightarrow> k \<in> fst ` set xs \<Longrightarrow> Suc (length (without k xs)) = length xs"
proof (induction xs)
  case (Cons x xs)
  show ?case
  proof (cases "fst x = k")
    case True
    then have "k \<notin> fst ` set xs" using Cons.prems by auto
    then show ?thesis using True without_absent [of k xs] by (simp add: without_def)
  next
    case False
    then show ?thesis using Cons by (simp add: without_def)
  qed
qed simp

lemma drop_keys: "distinct (map fst xs) \<Longrightarrow> distinct (map fst (drop i xs))"
  by (simp add: drop_map [symmetric])

lemma setitem_data:
  "lr_data (lru_setitem k v m) =
     drop (length (without k (lr_data m) @ [(k, v)]) - lr_max m) (without k (lr_data m) @ [(k, v)])"
  "lr_max (lru_setitem k v m) = lr_max m"
  by (simp_all add: lru_setitem_def evict_spec)

lemma getitem_data:
  "lr_data (snd (lru_getitem k m)) =
     (case map_of (lr_data m) k of None \<Rightarrow> lr_data m | Some v \<Rightarrow> without k (lr_data m) @ [(k, v)])"
  "lr_max (snd (lru_getitem k m)) = lr_max m"
  by (simp_all add: lru_getitem_def split: option.splits)

lemma delitem_data:
  "lr_data (snd (lru_delitem k m)) = without k (lr_data m)" "lr_max (snd (lru_delitem k m)) = lr_max m"
  by (auto simp: lru_delitem_def lru_contains_def without_absent)

lemma without_last: "without k (without k xs @ [(k, v)]) = without k xs"
  by (simp add: without_def)

lemma pop_data:
  "lr_data (snd (lru_pop k d m)) = without k (lr_data m)" "lr_max (snd (lru_pop k d m)) = lr_max m"
proof -
  have "map_of (lr_data m) k = None \<Longrightarrow> without k (lr_data m) = lr_data m"
    by (rule without_absent) (simp add: map_of_eq_None_iff)
  then show "lr_data (snd (lru_pop k d m)) = without k (lr_data m)" "lr_max (snd (lru_pop k d m)) = lr_max m"
    by (auto simp: lru_pop_def lru_getitem_def raise_def ret_def delitem_data without_last split: option.splits)
qed

lemma lru_ok_getitem: "lru_ok n m \<Longrightarrow> lru_ok n (snd (lru_getitem k m))"
proof -
  assume ok: "lru_ok n m"
  have "map_of (lr_data m) k \<noteq> None \<Longrightarrow> Suc (length (without k (lr_data m))) = length (lr_data m)"
    using ok by (intro without_length) (auto simp: lru_ok_def map_of_eq_None_iff)
  then show ?thesis
    using ok by (auto simp: lru_ok_def getitem_data split: option.splits)
qed

lemma lru_ok_setitem:
  assumes "lru_ok n m"
  shows "lru_ok n (lru_setitem k v m)"
proof -
  have "distinct (map fst (without k (lr_data m) @ [(k, v)]))" using assms by (auto simp: lru_ok_def)
  from drop_keys [OF this] show ?thesis
    using assms by (simp add: lru_ok_def setitem_data del: append_assoc drop_append map_append)
qed

lemma lru_ok_without: "lru_ok n m \<Longrightarrow> lr_max m' = lr_max m \<Longrightarrow> lr_data m' = without k (lr_data m) \<Longrightarrow> lru_ok n m'"
  by (auto simp: lru_ok_def intro: order_trans [OF without_simps(3)])

lemma lru_ok_step: "lru_ok n m \<Longrightarrow> lru_ok n (lru_step m e)"
proof (cases e)
  case (L_DEL k)
  then show "lru_ok n m \<Longrightarrow> ?thesis" by (simp add: lru_ok_without delitem_data)
next
  case (L_POP k d)
  then show "lru_ok n m \<Longrightarrow> ?thesis" by (simp add: lru_ok_without pop_data)
next
  case L_CLEAR
  then show "lru_ok n m \<Longrightarrow> ?thesis" by (simp add: lru_clear_def lru_ok_def)
qed (simp_all add: lru_ok_getitem lru_ok_setitem)

interpretation lru: step_invariant lru_step "\<lparr>lr_data = [], lr_max = n, lr_evictions = 0\<rparr>" "lru_ok n" for n
  by unfold_locales (simp add: lru_ok_def, rule lru_ok_step)

section \<open>What the map remembers\<close>

text \<open>The keys behind the entry of a key are all in a given set.\<close>

definition recent :: "'k \<Rightarrow> 'k set \<Rightarrow> ('k \<times> 'v) list \<Rightarrow> bool" where
  "recent k U d \<longleftrightarrow> (\<exists>xs v ys. d = xs @ (k, v) # ys \<and> fst ` set ys \<subseteq> U)"

fun touches :: "('k, 'v) lru_op \<Rightarrow> 'k list" where
  "touches (L_GET k) = [k]"
| "touches (L_SET k v) = [k]"
| "touches _ = []"

fun spares :: "'k \<Rightarrow> ('k, 'v) lru_op \<Rightarrow> bool" where
  "spares k (L_DEL u) \<longleftrightarrow> u \<noteq> k"
| "spares k (L_POP u d) \<longleftrightarrow> u \<noteq> k"
| "spares k L_CLEAR \<longleftrightarrow> False"
| "spares k _ \<longleftrightarrow> True"

lemma recentI_last: "recent k U (d @ [(k, v)])"
  unfolding recent_def by (rule exI [of _ d]) auto

lemma recent_mono: "recent k U d \<Longrightarrow> U \<subseteq> V \<Longrightarrow> recent k V d"
  unfolding recent_def by blast

lemma recent_snoc: "recent k U d \<Longrightarrow> recent k (insert u U) (d @ [(u, w)])"
proof -
  assume "recent k U d"
  then obtain xs v ys where d: "d = xs @ (k, v) # ys" "fst ` set ys \<subseteq> U" by (auto simp: recent_def)
  show ?thesis
    unfolding recent_def by (rule exI [of _ xs], rule exI [of _ v], rule exI [of _ "ys @ [(u, w)]"]) (use d in auto)
qed

lemma recent_without: "recent k U d \<Longrightarrow> u \<noteq> k \<Longrightarrow> recent k U (without u d)"
proof -
  assume "recent k U d" "u \<noteq> k"
  then obtain xs v ys where d: "d = xs @ (k, v) # ys" "fst ` set ys \<subseteq> U" by (auto simp: recent_def)
  have "without u d = without u xs @ (k, v) # without u ys" "fst ` set (without u ys) \<subseteq> U"
    using d \<open>u \<noteq> k\<close> by (auto simp: without_def)
  then show ?thesis unfolding recent_def by blast
qed

lemma recent_drop:
  assumes "recent k U d" and "distinct (map fst d)" and "finite U" and "card U < n"
  shows "recent k U (drop (length d - n) d)"
proof -
  obtain xs v ys where d: "d = xs @ (k, v) # ys" "fst ` set ys \<subseteq> U" using assms(1) by (auto simp: recent_def)
  have "length ys = card (fst ` set ys)"
    using assms(2) d(1) distinct_card [of "map fst ys"] by simp
  also have "\<dots> \<le> card U" by (rule card_mono [OF assms(3) d(2)])
  finally have "length d - n \<le> length xs" using assms(4) d(1) by simp
  then have "drop (length d - n) d = drop (length d - n) xs @ (k, v) # ys" by (simp add: d(1))
  then show ?thesis using d(2) unfolding recent_def by blast
qed

lemma recent_contains: "recent k U (lr_data m) \<Longrightarrow> lru_contains m k"
  by (force simp: recent_def lru_contains_def)

lemma recent_step:
  assumes ok: "lru_ok n m" and r: "recent k U (lr_data m)" and "spares k e"
    and fin: "finite U" and room: "card (U \<union> (set (touches e) - {k})) < n"
  shows "recent k (U \<union> (set (touches e) - {k})) (lr_data (lru_step m e))"
proof (cases e)
  case (L_GET u)
  show ?thesis
  proof (cases "u = k")
    case True
    then show ?thesis using r L_GET by (auto simp: getitem_data recentI_last split: option.splits)
  next
    case False
    have "recent k (insert u U) (without u (lr_data m) @ [(u, w)])" for w
      by (rule recent_snoc [OF recent_without [OF r False]])
    moreover have "recent k (insert u U) (lr_data m)" by (rule recent_mono [OF r]) blast
    ultimately show ?thesis
      using L_GET False by (auto simp: getitem_data split: option.splits)
  qed
next
  case (L_SET u v)
  let ?d = "without u (lr_data m) @ [(u, v)]" and ?V = "U \<union> (set (touches e) - {k})"
  have "recent k ?V ?d"
  proof (cases "u = k")
    case True
    then show ?thesis by (simp add: recentI_last)
  next
    case False
    then show ?thesis using recent_snoc [OF recent_without [OF r False]] L_SET by simp
  qed
  moreover have "distinct (map fst ?d)" using ok by (auto simp: lru_ok_def)
  ultimately have "recent k ?V (drop (length ?d - n) ?d)"
    using fin room by (intro recent_drop) auto
  then show ?thesis using L_SET ok by (simp add: setitem_data lru_ok_def)
qed (use assms in \<open>auto simp: delitem_data pop_data intro: recent_without\<close>)

lemma recent_run:
  assumes "lru_ok n m" and "recent k U (lr_data m)" and "\<forall>e \<in> set es. spares k e"
    and "finite U" and "card (U \<union> (set (concat (map touches es)) - {k})) < n"
  shows "lru_contains (run lru_step m es) k"
  using assms
proof (induction es arbitrary: m U)
  case Nil
  then show ?case by (auto intro: recent_contains)
next
  case (Cons e es)
  let ?V = "U \<union> (set (touches e) - {k})"
  have fin: "finite (?V \<union> (set (concat (map touches es)) - {k}))" using Cons.prems(4) by simp
  have eq: "?V \<union> (set (concat (map touches es)) - {k}) = U \<union> (set (concat (map touches (e # es))) - {k})"
    by auto
  have "card ?V \<le> card (?V \<union> (set (concat (map touches es)) - {k}))"
    by (rule card_mono [OF fin]) auto
  then have "card ?V < n" using Cons.prems(5) eq by simp
  then have "recent k ?V (lr_data (lru_step m e))"
    using Cons.prems by (intro recent_step) auto
  then show ?case
    using Cons.prems Cons.IH [of "lru_step m e" ?V] eq by (simp add: lru_ok_step)
qed

text \<open>an entry of the bounded map cannot be lost to eviction early: after a key is stored, it is still
  there after any run of operations that neither deletes it nor clears the map, as long as fewer than
  \<^verbatim>\<open>maxsize\<close> different other keys are read or written in the run.\<close>

lemma stored_key_survives:
  assumes "mk_lru n = ret m0" and "m = run lru_step m0 es" and "\<forall>e \<in> set fs. spares k e"
    and "card (set (concat (map touches fs)) - {k}) < nat n"
  shows "lru_contains (run lru_step (lru_setitem k v m) fs) k"
proof -
  have m0: "m0 = \<lparr>lr_data = [], lr_max = nat n, lr_evictions = 0\<rparr>"
    using assms(1) by (auto simp: mk_lru_def split: if_splits)
  have ok: "lru_ok (nat n) m" unfolding assms(2) m0 by (rule lru.inv_run)
  have "recent k {} (without k (lr_data m) @ [(k, v)])" by (rule recentI_last)
  moreover have "distinct (map fst (without k (lr_data m) @ [(k, v)]))" using ok by (auto simp: lru_ok_def)
  ultimately have "recent k {} (lr_data (lru_setitem k v m))"
    using ok recent_drop [of k "{}" "without k (lr_data m) @ [(k, v)]" "nat n"] assms(4)
    by (simp add: setitem_data lru_ok_def)
  then show ?thesis
    using assms(3,4) ok by (intro recent_run [where U = "{}" and n = "nat n"]) (auto simp: lru_ok_setitem)
qed

lemma stored_key_survives_witness:
  "lru_contains (run lru_step (lru_setitem (1::nat) True \<lparr>lr_data = [], lr_max = 2, lr_evictions = 0\<rparr>)
     [L_SET 2 False, L_SET 2 True, L_DEL 3, L_SET 2 True]) 1"
  by (rule stored_key_survives [where n = 2 and es = "[]"]) (simp_all add: mk_lru_def)

end
