(* ===== verification/ServerClock.thy ===== *)
theory ServerClock
  imports PyNum PyTime Domain
begin

text \<open>
  The broker's clock: the offset of its server from UTC and its detection from the tick stream
  (\<^verbatim>\<open>adapters/mt5/providers.py\<close>), and the instants that depend on server time, the nightly
  maintenance window and the daily rollover (\<^verbatim>\<open>research/economics.py\<close>). The environment variable and
  the readings of the wall clock are arguments.
\<close>

section \<open>The offset\<close>

abbreviation BROKER_SERVER_UTC_OFFSET_MINUTES :: int where "BROKER_SERVER_UTC_OFFSET_MINUTES \<equiv> 180"

text \<open>
  The pattern \<^verbatim>\<open>^[+-]?\d+$\<close> on ASCII text, whose \<^verbatim>\<open>$\<close> also matches before a final line feed, and
  \<^verbatim>\<open>int\<close> of what it matched.
\<close>

definition unsigned_digits :: "string \<Rightarrow> int option" where
  "unsigned_digits s = (if s = [] then None else digits_val 0 s)"

definition env_offset :: "string \<Rightarrow> int option" where
  "env_offset raw =
     (let s = (if raw \<noteq> [] \<and> last raw = CHR 0x0A then butlast raw else raw)
      in case s of
           [] \<Rightarrow> None
         | c # cs \<Rightarrow> if c = CHR ''-'' then map_option uminus (unsigned_digits cs)
                     else if c = CHR ''+'' then unsigned_digits cs else unsigned_digits s)"

record detector =
  ad_adopted :: "int option"
  ad_last_epoch :: "f64 option"
  ad_candidate :: "int option"
  ad_agreeing :: int

definition mk_detector :: detector where
  "mk_detector = \<lparr>ad_adopted = None, ad_last_epoch = None, ad_candidate = None, ad_agreeing = 0\<rparr>"

definition broker_offset_minutes :: "string option \<Rightarrow> detector \<Rightarrow> int" where
  "broker_offset_minutes env d =
     (let detected = (case ad_adopted d of Some m \<Rightarrow> m | None \<Rightarrow> BROKER_SERVER_UTC_OFFSET_MINUTES)
      in case env of None \<Rightarrow> detected
         | Some raw \<Rightarrow> (case env_offset raw of None \<Rightarrow> detected
             | Some v \<Rightarrow> if 0 \<le> v \<and> v \<le> 1440 then v else detected))"

section \<open>Detection\<close>

definition forget_candidate :: "detector \<Rightarrow> detector" where
  "forget_candidate d = d\<lparr>ad_candidate := None, ad_agreeing := 0\<rparr>"

definition active_offset :: "detector \<Rightarrow> int" where
  "active_offset d = (case ad_adopted d of Some m \<Rightarrow> m | None \<Rightarrow> BROKER_SERVER_UTC_OFFSET_MINUTES)"

definition agree :: "int \<Rightarrow> detector \<Rightarrow> detector" where
  "agree c d =
     (let d = (if ad_candidate d = Some c then d\<lparr>ad_agreeing := ad_agreeing d + 1\<rparr>
               else d\<lparr>ad_candidate := Some c, ad_agreeing := 1\<rparr>)
      in if 3 \<le> ad_agreeing d then d\<lparr>ad_adopted := Some c, ad_candidate := None, ad_agreeing := 0\<rparr> else d)"

definition candidate_of :: "f64 \<Rightarrow> f64 \<Rightarrow> int res" where
  "candidate_of epoch now = round_int ((epoch - now) / Fin 60)"

definition alive :: "f64 \<Rightarrow> int \<Rightarrow> f64 \<Rightarrow> bool" where
  "alive epoch c now \<longleftrightarrow> \<not> Fin 90 < fabs64 (epoch - float_of_int (c * 60) - now)"

text \<open>
  One observation. The wall clock is read twice, for the candidate and for the liveness check. An
  exception (a candidate that cannot be rounded) leaves the new epoch behind; the caller swallows it.
\<close>

definition note_broker_epoch :: "f64 option \<Rightarrow> f64 \<Rightarrow> f64 \<Rightarrow> detector \<Rightarrow> detector" where
  "note_broker_epoch e now1 now2 d =
     (case e of None \<Rightarrow> d
      | Some epoch \<Rightarrow>
          if \<not> isfinite epoch \<or> epoch \<le> 0 then d
          else
            let previous = ad_last_epoch d;
                d = d\<lparr>ad_last_epoch := Some epoch\<rparr>
            in case previous of None \<Rightarrow> forget_candidate d
               | Some p \<Rightarrow>
                   if epoch \<le> p then forget_candidate d
                   else if Fin 120 < epoch - p then forget_candidate d
                   else case candidate_of epoch now1 of Inl _ \<Rightarrow> d
                        | Inr c \<Rightarrow>
                            if \<not> (0 \<le> c \<and> c \<le> 1440) then forget_candidate d
                            else if \<not> alive epoch c now2 then forget_candidate d
                            else if \<bar>c - active_offset d\<bar> < 30 then forget_candidate d
                            else agree c d)"

definition reset_detector :: "detector \<Rightarrow> detector" where
  "reset_detector d = mk_detector"

text \<open>\<^verbatim>\<open>datetime.fromtimestamp(x, tz=UTC)\<close> with the range of the years 1 to 9999.\<close>

definition from_timestamp :: "f64 \<Rightarrow> py_datetime option" where
  "from_timestamp x = (case td_seconds x of Inl _ \<Rightarrow> None
     | Inr us \<Rightarrow> if -62135596800000000 \<le> us \<and> us \<le> 253402300799999999 then Some (utc us) else None)"

definition broker_epoch_to_utc ::
  "string option \<Rightarrow> f64 option \<Rightarrow> f64 \<Rightarrow> f64 \<Rightarrow> detector \<Rightarrow> py_datetime option \<times> detector" where
  "broker_epoch_to_utc env e now1 now2 d =
     (case e of None \<Rightarrow> (None, d)
      | Some epoch \<Rightarrow>
          if \<not> isfinite epoch then (None, d)
          else let d = note_broker_epoch (Some epoch) now1 now2 d
               in (from_timestamp (epoch - float_of_int (broker_offset_minutes env d * 60)), d))"

text \<open>The two helpers without state.\<close>

definition detect_server_utc_offset_minutes :: "py_datetime \<Rightarrow> f64 \<Rightarrow> int res" where
  "detect_server_utc_offset_minutes terminal_now server_epoch =
     bindR (round_int ((server_epoch - total_seconds (instant terminal_now)) / Fin 60))
       (\<lambda>m. ret (max 0 (min 1440 m)))"

definition classify_offset_mismatch :: "int \<Rightarrow> int \<Rightarrow> int \<Rightarrow> string" where
  "classify_offset_mismatch expected detected tolerance =
     (if \<bar>expected - detected\<bar> \<le> tolerance then ''OK'' else ''MISMATCH'')"

section \<open>Server time\<close>

text \<open>\<^verbatim>\<open>timedelta(hours=x)\<close> for a float, as for the seconds.\<close>

definition td_hours :: "f64 \<Rightarrow> int res" where
  "td_hours x = (case x of
       Fin r \<Rightarrow> (let w = truncq r in case fl ((r - of_int w) * 3600000000) of
          Fin u \<Rightarrow> ret (w * 3600000000 + rhe u) | _ \<Rightarrow> raise OverflowError)
     | NaN \<Rightarrow> raise ValueError
     | _ \<Rightarrow> raise OverflowError)"

text \<open>The wall clock of the server, as the microseconds of a naive datetime.\<close>

definition server_naive :: "py_datetime \<Rightarrow> f64 option \<Rightarrow> int res" where
  "server_naive ts offset =
     (let w = (case dt_off ts of None \<Rightarrow> dt_wall ts | Some _ \<Rightarrow> instant ts)
      in case offset of None \<Rightarrow> ret w | Some h \<Rightarrow> bindR (td_hours h) (\<lambda>us. ret (w + us)))"

text \<open>\<^verbatim>\<open>hh, mm = s.split(":")\<close>\<close>

definition parse_hhmm :: "string \<Rightarrow> (int \<times> int) res" where
  "parse_hhmm s =
     (let h = takeWhile (\<lambda>c. c \<noteq> CHR '':'') s; m = List.tl (dropWhile (\<lambda>c. c \<noteq> CHR '':'') s)
      in if CHR '':'' \<notin> set s \<or> CHR '':'' \<in> set m then raise ValueError
         else case (py_int h, py_int m) of (Some a, Some b) \<Rightarrow> ret (a, b) | _ \<Rightarrow> raise ValueError)"

definition minute_of_day :: "int \<Rightarrow> int" where
  "minute_of_day us = (us mod us_per_day) div 60000000"

definition in_maintenance_window :: "py_datetime \<Rightarrow> string \<Rightarrow> string \<Rightarrow> int \<Rightarrow> f64 option \<Rightarrow> bool res" where
  "in_maintenance_window ts start_server end_server buffer offset =
     bindR (server_naive ts offset) (\<lambda>srv.
     bindR (parse_hhmm start_server) (\<lambda>(h1, m1).
     bindR (parse_hhmm end_server) (\<lambda>(h2, m2).
       let minutes = minute_of_day srv;
           start = h1 * 60 + m1 - buffer;
           stop = h2 * 60 + m2 + buffer
       in ret (if start \<le> stop then start \<le> minutes \<and> minutes \<le> stop
               else start \<le> minutes \<or> minutes \<le> stop))))"

text \<open>The entry gate's call: the default window and the offset in hours.\<close>

definition entry_window :: "py_datetime \<Rightarrow> int \<Rightarrow> bool res" where
  "entry_window ts offset_minutes =
     in_maintenance_window ts ''23:00'' ''01:00'' 30 (Some (float_of_int offset_minutes / Fin 60))"

section \<open>Rollover\<close>

text \<open>\<^verbatim>\<open>exit_ts <= entry_ts\<close>: a naive and an aware datetime cannot be compared.\<close>

definition dt_le :: "py_datetime \<Rightarrow> py_datetime \<Rightarrow> bool res" where
  "dt_le a b = (if aware a \<noteq> aware b then raise TypeError else ret (instant a \<le> instant b))"

function count_days :: "int \<Rightarrow> int \<Rightarrow> int" where
  "count_days cur x = (if cur \<le> x then 1 + count_days (cur + us_per_day) x else 0)"
  by pat_completeness auto
termination
  by (relation "measure (\<lambda>(cur, x). nat (x - cur + 1))") auto

declare count_days.simps [simp del]

definition rollover_crossings :: "py_datetime \<Rightarrow> py_datetime \<Rightarrow> string \<Rightarrow> f64 option \<Rightarrow> int res" where
  "rollover_crossings entry_ts exit_ts hhmm offset =
     bindR (dt_le exit_ts entry_ts) (\<lambda>empty.
       if empty then ret 0
       else
         bindR (server_naive entry_ts offset) (\<lambda>e.
         bindR (server_naive exit_ts offset) (\<lambda>x.
         bindR (parse_hhmm hhmm) (\<lambda>(hh, mm).
           if \<not> (0 \<le> hh \<and> hh < 24 \<and> 0 \<le> mm \<and> mm < 60) then raise ValueError
           else
             let day0 = e - e mod us_per_day + hh * 3600000000 + mm * 60000000;
                 day0 = (if day0 \<le> e then day0 + us_per_day else day0)
             in ret (count_days day0 x)))))"

record swap_profile =
  sp_long :: "f64 option"
  sp_short :: "f64 option"
  sp_offset :: "f64 option"
  sp_rollover :: string

definition swap_complete :: "swap_profile \<Rightarrow> bool" where
  "swap_complete p \<longleftrightarrow> sp_long p \<noteq> None \<and> sp_short p \<noteq> None"

definition swap_usd :: "swap_profile \<Rightarrow> string \<Rightarrow> f64 \<Rightarrow> py_datetime \<Rightarrow> py_datetime \<Rightarrow> f64 res" where
  "swap_usd p direction volume entry_ts exit_ts =
     (case (sp_long p, sp_short p) of
        (Some long, Some short) \<Rightarrow>
          let d = upper direction
          in if \<not> str_in ''BUY'' d \<and> \<not> str_in ''SELL'' d then ret 0
             else if volume \<le> 0 \<or> \<not> isfinite volume then ret 0
             else bindR (rollover_crossings entry_ts exit_ts (sp_rollover p) None) (\<lambda>n.
                    ret ((if str_in ''BUY'' d then long else short) * volume * float_of_int n))
      | _ \<Rightarrow> raise ValueError)"

section \<open>Rounding of a stamp\<close>

lemma fl_between:
  assumes "of_int a \<le> x" and "x \<le> of_int b" and "\<bar>a\<bar> \<le> 2 ^ 53" and "\<bar>b\<bar> \<le> 2 ^ 53"
  obtains r where "fl x = Fin r" and "of_int a \<le> r" and "r \<le> of_int b"
proof -
  have "Fin (of_int a) \<le> fl x" "fl x \<le> Fin (of_int b)"
    using fl_mono [OF assms(1)] fl_mono [OF assms(2)] fl_of_int assms(3,4) by simp_all
  then show thesis using that by (cases "fl x") auto
qed

lemma fl_quarter: "\<bar>n\<bar> \<le> 2 ^ 50 \<Longrightarrow> fl (of_int n + 1 / 4) = Fin (of_int n + 1 / 4) \<and> fl (of_int n - 1 / 4) = Fin (of_int n - 1 / 4)"
proof -
  assume n: "\<bar>n\<bar> \<le> 2 ^ 50"
  have p: "pow2 (- 2) = 1 / 4" by (simp add: pow2_def power_int_def power2_eq_square)
  have eq: "of_int n + 1 / 4 = of_int (4 * n + 1) * pow2 (- 2)" "of_int n - 1 / 4 = of_int (4 * n - 1) * pow2 (- 2)"
    by (simp_all add: p field_simps)
  have rep: "representable (of_int n + 1 / 4)" "representable (of_int n - 1 / 4)"
    unfolding eq using n by (intro representable_grid; simp)+
  have "\<bar>of_int n\<bar> \<le> (2 :: rat) ^ 50" using n by (metis of_int_abs of_int_le_iff of_int_numeral of_int_power)
  moreover have "(2 :: rat) ^ 50 + 1 < pow2 1024"
  proof -
    have "(2 :: rat) ^ 50 + 1 \<le> 2 ^ 51" by simp
    also have "\<dots> = pow2 51" by (simp add: pow2_nat)
    also have "\<dots> < pow2 1024" by (rule pow2_less) simp
    finally show ?thesis .
  qed
  ultimately have "\<bar>of_int n + 1 / 4\<bar> < pow2 1024" "\<bar>of_int n - 1 / 4\<bar> < pow2 1024" by linarith+
  then show ?thesis using rep by (simp add: fl_representable)
qed

lemma rhe_near: "\<bar>x - of_int n\<bar> \<le> 1 / 4 \<Longrightarrow> \<bar>n\<bar> \<le> 2 ^ 50 \<Longrightarrow> (case fl x of Fin u \<Rightarrow> rhe u = n | _ \<Rightarrow> False)"
proof -
  assume x: "\<bar>x - of_int n\<bar> \<le> 1 / 4" and n: "\<bar>n\<bar> \<le> 2 ^ 50"
  have "fl (of_int n - 1 / 4) \<le> fl x" "fl x \<le> fl (of_int n + 1 / 4)" using x by (intro fl_mono; linarith)+
  then have b: "Fin (of_int n - 1 / 4) \<le> fl x" "fl x \<le> Fin (of_int n + 1 / 4)" using fl_quarter [OF n] by simp_all
  then obtain u where u: "fl x = Fin u" "of_int n - 1 / 4 \<le> u" "u \<le> of_int n + 1 / 4" by (cases "fl x") auto
  have "\<bar>of_int (rhe u) - u\<bar> \<le> 1 / 2" by (rule rhe_error)
  then have "\<bar>of_int (rhe u) - of_int n :: rat\<bar> < 1" using u(2,3) by linarith
  then have "\<bar>of_int (rhe u - n) :: rat\<bar> < 1" by simp
  then have "\<bar>rhe u - n\<bar> < 1" by (metis of_int_abs of_int_less_1_iff)
  then show ?thesis using u(1) by simp
qed

lemma truncq_floor: "0 \<le> r \<Longrightarrow> truncq r = \<lfloor>r\<rfloor>"
  by (simp add: truncq_def)

lemma td_hours_minutes:
  assumes "0 \<le> m" and "m \<le> 1440"
  shows "bindR (ret (float_of_int m / Fin 60)) td_hours = ret (m * 60000000)"
proof -
  have fm: "float_of_int m = Fin (of_int m)" using assms by (simp add: float_of_int_def fl_of_int)
  let ?q = "of_int m / 60 :: rat" and ?w = "m div 60"
  have div_mod: "m = 60 * ?w + m mod 60" by simp
  have "60 * ?w \<le> m" "m \<le> 60 * (?w + 1)" by presburger+
  then have "(of_int (60 * ?w) :: rat) \<le> of_int m" "(of_int m :: rat) \<le> of_int (60 * (?w + 1))"
    by (simp_all only: of_int_le_iff)
  then have w: "of_int ?w \<le> ?q" "?q \<le> of_int (?w + 1)" by simp_all
  obtain r where r: "fl ?q = Fin r" "of_int ?w \<le> r" "r \<le> of_int (?w + 1)"
    by (rule fl_between [OF w]) (use assms in auto)
  have rr: "r = rnd ?q" using r(1) by (cases ?q rule: fl_cases) auto
  have err: "\<bar>r - ?q\<bar> \<le> 25 * pow2 (- 53)"
  proof -
    have "\<bar>?q\<bar> \<le> 24" using assms by (simp add: divide_le_eq)
    then have "\<bar>?q\<bar> * pow2 (- 53) \<le> 24 * pow2 (- 53)" by (rule mult_right_mono) simp
    moreover have "pow2 (- 1075) \<le> pow2 (- 53)" by (rule pow2_mono) simp
    ultimately show ?thesis using rnd_error [of ?q] unfolding rr by linarith
  qed
  show ?thesis
  proof (cases "m mod 60 = 0")
    case True
    then have "?q = of_int ?w" using div_mod by (metis add.right_neutral mult.commute nonzero_mult_div_cancel_right of_int_mult of_int_numeral zero_neq_numeral)
    moreover have "fl (of_int ?w) = Fin (of_int ?w)" using assms by (intro fl_of_int) auto
    ultimately have "r = of_int ?w" using r(1) by simp
    then show ?thesis
      using True assms r(1) div_mod by (simp add: fm td_hours_def truncq_def ret_def)
  next
    case False
    let ?k = "m mod 60"
    have k: "1 \<le> ?k" "?k \<le> 59" using False by (auto simp: int_one_le_iff_zero_less order_less_le)
    have small: "25 * pow2 (- 53) * 3600000000 \<le> 1 / 4" "25 * pow2 (- 53) < 1 / 60"
      by (simp_all add: pow2_def power_int_def field_simps)
    have "(of_int m :: rat) = 60 * of_int ?w + of_int ?k"
      by (metis div_mod of_int_add of_int_mult of_int_numeral)
    then have q: "?q = of_int ?w + of_int ?k / 60" by (simp add: field_simps)
    have kb: "1 / 60 \<le> (of_int ?k / 60 :: rat)" "of_int ?k / 60 \<le> (59 / 60 :: rat)"
      using k by (auto simp: divide_le_cancel)
    have lt: "r < of_int ?w + 1" using err small(2) q kb by linarith
    have tr: "truncq r = ?w"
      using r(2) lt assms by (subst truncq_floor) (auto intro: floor_unique order_trans [of 0 "of_int ?w"])
    have "\<bar>(r - of_int ?w) * 3600000000 - of_int (?k * 60000000)\<bar> \<le> 1 / 4"
    proof -
      have "(r - of_int ?w) * 3600000000 - of_int (?k * 60000000) = (r - ?q) * 3600000000"
        unfolding q by (simp add: field_simps)
      moreover have "\<bar>(r - ?q) * 3600000000\<bar> \<le> 25 * pow2 (- 53) * 3600000000"
        using err by (simp add: abs_mult)
      ultimately show ?thesis using small(1) by linarith
    qed
    then have "case fl ((r - of_int ?w) * 3600000000) of Fin u \<Rightarrow> rhe u = ?k * 60000000 | _ \<Rightarrow> False"
      using k by (intro rhe_near) simp_all
    moreover have "?w * 3600000000 + ?k * 60000000 = m * 60000000" using div_mod by linarith
    ultimately show ?thesis
      using r(1) tr by (simp add: fm td_hours_def Let_def split: f64.splits)
  qed
qed

section \<open>The entry window and the rollover\<close>

lemma parse_window: "parse_hhmm ''23:00'' = ret (23, 0)" "parse_hhmm ''01:00'' = ret (1, 0)" "parse_hhmm ''00:00'' = ret (0, 0)"
  by code_simp+

text \<open>with a whole number of minutes as offset, the float conversion is exact and the gate blocks the server
  times from 22:30 to the end of the minute 01:30, and no other.\<close>

theorem entry_window_exact:
  assumes "0 \<le> m" and "m \<le> 1440"
  shows "entry_window ts m =
     ret (let k = minute_of_day (instant ts + m * 60000000) in 22 * 60 + 30 \<le> k \<or> k \<le> 60 + 30)"
proof -
  have wall: "(case dt_off ts of None \<Rightarrow> dt_wall ts | Some _ \<Rightarrow> instant ts) = instant ts"
    by (simp add: instant_def split: option.split)
  have "td_hours (float_of_int m / Fin 60) = ret (m * 60000000)"
    using td_hours_minutes [OF assms] by (simp add: ret_def)
  then show ?thesis
    by (simp add: entry_window_def in_maintenance_window_def server_naive_def Let_def wall parse_window)
qed

lemma entry_window_exact_witness:
  "entry_window (utc 73800000000) 180 = ret True"
  using entry_window_exact [of 180 "utc 73800000000"] by (simp add: Let_def minute_of_day_def)

lemma div_shift: "0 < D \<Longrightarrow> k * D \<le> y \<Longrightarrow> y < (k + 1) * D \<Longrightarrow> y div D = k" for D :: int
  by (rule int_div_pos_eq [where r = "y - k * D"]) (auto simp: algebra_simps)

lemma count_days_eq: "cur \<le> x + us_per_day \<Longrightarrow> count_days cur x = (x - cur) div us_per_day + 1"
proof (induction cur x rule: count_days.induct)
  case (1 cur x)
  show ?case
  proof (cases "cur \<le> x")
    case True
    have "(x - (cur + us_per_day)) div us_per_day = (x - cur) div us_per_day - 1"
      using div_add_self2 [of us_per_day "x - cur - us_per_day"] by (simp add: algebra_simps)
    then show ?thesis using 1 True by (subst count_days.simps) simp
  next
    case False
    then have "(x - cur) div us_per_day = - 1" using "1.prems" by (intro div_shift) auto
    then show ?thesis using False by (subst count_days.simps) simp
  qed
qed

text \<open>The number of the day, counted from its rollover instant.\<close>

definition trading_day :: "int \<Rightarrow> int \<Rightarrow> int" where
  "trading_day start w = (w - start) div us_per_day"

lemma next_instant:
  assumes "0 \<le> start" and "start < us_per_day"
  obtains k where "(let d = e - e mod us_per_day + start in if d \<le> e then d + us_per_day else d) = k * us_per_day + start"
    and "trading_day start e = k - 1" and "k * us_per_day + start \<le> e + us_per_day"
proof -
  define q r where "q = e div us_per_day" and "r = e mod us_per_day"
  have e: "e = q * us_per_day + r" "0 \<le> r" "r < us_per_day" by (simp_all add: q_def r_def)
  define k where "k = (if start \<le> r then q + 1 else q)"
  have "(let d = e - r + start in if d \<le> e then d + us_per_day else d) = k * us_per_day + start"
    using e(1) by (simp add: k_def Let_def algebra_simps)
  moreover have "trading_day start e = k - 1"
    unfolding trading_day_def using e assms by (intro div_shift) (auto simp: k_def algebra_simps)
  moreover have "k * us_per_day + start \<le> e + us_per_day"
    using e assms by (auto simp: k_def algebra_simps)
  ultimately show thesis using that unfolding r_def by blast
qed

lemma crossings_closed:
  assumes "0 \<le> start" and "start < us_per_day" and "e \<le> x"
  shows "count_days (let d = e - e mod us_per_day + start in if d \<le> e then d + us_per_day else d) x
           = trading_day start x - trading_day start e"
proof -
  obtain k where k: "(let d = e - e mod us_per_day + start in if d \<le> e then d + us_per_day else d) = k * us_per_day + start"
    "trading_day start e = k - 1" "k * us_per_day + start \<le> e + us_per_day"
    by (rule next_instant [OF assms(1,2)])
  have "(x - (k * us_per_day + start)) div us_per_day = trading_day start x - k"
    unfolding trading_day_def using div_mult_self1 [of us_per_day "x - start" "- k"] by (simp add: algebra_simps)
  moreover have "k * us_per_day + start \<le> x + us_per_day" using k(3) assms(3) by simp
  ultimately show ?thesis
    unfolding k(1) by (simp add: count_days_eq k(2))
qed

text \<open>The rollover instant of a valid text, in microseconds after midnight.\<close>

definition instant_of_day :: "string \<Rightarrow> int option" where
  "instant_of_day s = (case parse_hhmm s of Inl _ \<Rightarrow> None
     | Inr (h, m) \<Rightarrow> if 0 \<le> h \<and> h < 24 \<and> 0 \<le> m \<and> m < 60 then Some (h * 3600000000 + m * 60000000) else None)"

text \<open>C17: the counting loop has a closed form: on times of one kind, the number of rollovers in a holding period
  is the difference of the trading-day numbers of its ends in server time, and none when it is empty.\<close>

theorem rollovers_are_day_changes:
  assumes "instant_of_day s = Some i" and "aware a = aware b"
    and "server_naive a off = ret wa" and "server_naive b off = ret wb"
  shows "rollover_crossings a b s off =
     ret (if instant b \<le> instant a then 0 else trading_day i wb - trading_day i wa)"
proof -
  obtain h m where hm: "parse_hhmm s = ret (h, m)" "0 \<le> h" "h < 24" "0 \<le> m" "m < 60" "i = h * 3600000000 + m * 60000000"
    using assms(1) by (auto simp: instant_of_day_def ret_def split: sum.splits if_splits)
  have base: "(case dt_off d of None \<Rightarrow> dt_wall d | Some _ \<Rightarrow> instant d) = instant d" for d
    by (simp add: instant_def split: option.split)
  have mono: "wa \<le> wb" if "instant a < instant b"
    using assms(3,4) that
    by (auto simp: server_naive_def Let_def base ret_def bindR_eq_Inr split: option.splits)
  have "0 \<le> i" "i < us_per_day" using hm by auto
  then show ?thesis
    using crossings_closed [of i wa wb] mono hm assms(2-4)
    by (simp add: rollover_crossings_def dt_le_def Let_def add.assoc not_le)
qed

lemma rollovers_are_day_changes_witness:
  "rollover_crossings (utc 0) (utc 200000000000) ''00:00'' None = ret 2"
  using rollovers_are_day_changes [of "''00:00''" 0 "utc 0" "utc 200000000000" None 0 200000000000]
  by (simp add: instant_of_day_def parse_window aware_def utc_def instant_def server_naive_def Let_def trading_day_def ret_def)

text \<open>the server offset of a swap profile is never used: the rollovers are always counted on the times as they
  are given, so a profile for a broker at UTC+3 charges a position held from 20:30 to 21:30 UTC nothing,
  although its server's midnight is at 21:00 UTC.\<close>

theorem swap_ignores_offset:
  "swap_usd (p\<lparr>sp_offset := Some h\<rparr>) d v a b = swap_usd p d v a b
   \<and> swap_usd \<lparr>sp_long = Some (Fin (- 5)), sp_short = Some 0, sp_offset = Some (Fin 3), sp_rollover = ''00:00''\<rparr>
       ''BUY'' 1 (utc 73800000000) (utc 77400000000) = ret 0
   \<and> rollover_crossings (utc 73800000000) (utc 77400000000) ''00:00'' (Some (Fin 3)) = ret 1"
proof (intro conjI)
  show "swap_usd (p\<lparr>sp_offset := Some h\<rparr>) d v a b = swap_usd p d v a b"
  proof -
    have "sp_long (p\<lparr>sp_offset := Some h\<rparr>) = sp_long p" "sp_short (p\<lparr>sp_offset := Some h\<rparr>) = sp_short p"
      "sp_rollover (p\<lparr>sp_offset := Some h\<rparr>) = sp_rollover p" by simp_all
    then show ?thesis unfolding swap_usd_def by (simp only:)
  qed
qed code_simp+

section \<open>What the detector accepts\<close>

lemma fl_diff_near:
  assumes "\<bar>a\<bar> \<le> 3000000000000" and "\<bar>b\<bar> \<le> 3000000000000"
  obtains r where "Fin a - Fin b = Fin r" and "\<bar>r - (a - b)\<bar> < 1"
proof -
  have "\<bar>a - b\<bar> \<le> 6000000000000" using assms by linarith
  then have x: "- 6000000000000 \<le> a - b" "a - b \<le> 6000000000000" by (simp_all add: abs_le_iff)
  have "- 6000000000000 \<le> \<lfloor>a - b\<rfloor>" using x(1) by (simp add: le_floor_iff)
  moreover have "\<lceil>a - b\<rceil> \<le> 6000000000000" using x(2) by (simp add: ceiling_le_iff)
  moreover have "\<lfloor>a - b\<rfloor> \<le> \<lceil>a - b\<rceil>" "\<lceil>a - b\<rceil> \<le> \<lfloor>a - b\<rfloor> + 1" using floor_correct [of "a - b"] by (simp_all add: floor_le_ceiling ceiling_le_iff less_imp_le)
  ultimately have big: "\<bar>\<lfloor>a - b\<rfloor>\<bar> \<le> 9007199254740992" "\<bar>\<lceil>a - b\<rceil>\<bar> \<le> 9007199254740992" by linarith+
  obtain r where r: "fl (a - b) = Fin r" "of_int \<lfloor>a - b\<rfloor> \<le> r" "r \<le> of_int \<lceil>a - b\<rceil>"
    by (rule fl_between [of "\<lfloor>a - b\<rfloor>" "a - b" "\<lceil>a - b\<rceil>"]) (use big in simp_all)
  have "\<bar>r - (a - b)\<bar> < 1"
    using r(2,3) floor_correct [of "a - b"] ceiling_correct [of "a - b"] by linarith
  then show thesis using that r(1) by (simp add: minus_f64_def)
qed

lemma candidate_near:
  assumes "\<bar>a\<bar> \<le> 1000000000000" and "\<bar>b\<bar> \<le> 1000000000000"
  obtains c where "candidate_of (Fin a) (Fin b) = ret c" and "\<bar>a - b - 60 * of_int c\<bar> < 61" and "\<bar>c\<bar> \<le> 1000000000000"
proof -
  obtain r where r: "Fin a - Fin b = Fin r" "\<bar>r - (a - b)\<bar> < 1"
  proof (rule fl_diff_near [of a b])
    show "\<bar>a\<bar> \<le> 3000000000000" "\<bar>b\<bar> \<le> 3000000000000" using assms by linarith+
  qed
  have rb: "\<bar>r\<bar> \<le> 6000000000000" using r(2) assms by linarith
  let ?q = "r / 60"
  have "- 100000000000 \<le> ?q" "?q \<le> 100000000000" using rb by (auto simp: abs_le_iff field_simps)
  then obtain q where q: "fl ?q = Fin q" "of_int (- 100000000000) \<le> q" "q \<le> of_int 100000000000"
    by (rule_tac fl_between [of "- 100000000000" ?q "100000000000"]) simp_all
  define c where "c = rhe q"
  have c: "\<bar>of_int c - q\<bar> \<le> 1 / 2" unfolding c_def by (rule rhe_error)
  have "- 100000000000 \<le> c" "c \<le> 100000000000" unfolding c_def using q(2,3) by (auto intro: rhe_ge rhe_le)
  then have cb: "\<bar>c\<bar> \<le> 100000000000" by simp
  have up: "?q < of_int (c + 1)"
  proof (rule ccontr)
    assume "\<not> ?q < of_int (c + 1)"
    then have "fl (of_int (c + 1)) \<le> fl ?q" by (intro fl_mono) simp
    moreover have "fl (of_int (c + 1)) = Fin (of_int (c + 1))" using cb by (intro fl_of_int) simp
    ultimately show False using c q(1) by simp
  qed
  have lo: "of_int (c - 1) < ?q"
  proof (rule ccontr)
    assume "\<not> of_int (c - 1) < ?q"
    then have "fl ?q \<le> fl (of_int (c - 1))" by (intro fl_mono) simp
    moreover have "fl (of_int (c - 1)) = Fin (of_int (c - 1))" using cb by (intro fl_of_int) simp
    ultimately show False using c q(1) by simp
  qed
  have "\<bar>r - 60 * of_int c\<bar> < 60" using up lo by (simp add: abs_less_iff field_simps)
  then have "\<bar>a - b - 60 * of_int c\<bar> < 61" using r(2) by linarith
  moreover have "candidate_of (Fin a) (Fin b) = ret c"
    using q(1) by (simp add: candidate_of_def r(1) c_def)
  ultimately show thesis using that cb by simp
qed

text \<open>The liveness check of the offset detector can never fail: the candidate is computed from the same epoch
  and clock that the check compares, so for any epoch, live or hours old, the rounded candidate leaves a
  residue below 61 seconds, and the limit is 90; only a clock that moves 20 seconds between its two readings
  could tell the difference.\<close>

lemma candidate_alive:
  assumes "\<bar>a\<bar> \<le> 1000000000000" and "\<bar>b\<bar> \<le> 1000000000000" and "\<bar>b' - b\<bar> \<le> 20"
  shows "\<exists>c. candidate_of (Fin a) (Fin b) = ret c \<and> alive (Fin a) c (Fin b')"
proof -
  obtain c where c: "candidate_of (Fin a) (Fin b) = ret c" "\<bar>a - b - 60 * of_int c\<bar> < 61" "\<bar>c\<bar> \<le> 1000000000000"
    by (rule candidate_near [OF assms(1,2)])
  have k: "60 * of_int c < a - b + 61" "a - b - 61 < 60 * of_int c" using c(2) by linarith+
  have "\<bar>c * 60\<bar> \<le> 2 ^ 53" using c(3) by simp
  then have f: "float_of_int (c * 60) = Fin (60 * of_int c)" using fl_of_int [of "c * 60"] by (simp add: float_of_int_def mult.commute)
  have "\<bar>60 * of_int c\<bar> \<le> (3000000000000 :: rat)" "\<bar>a\<bar> \<le> 3000000000000" using k assms by linarith+
  obtain s where s: "Fin a - Fin (60 * of_int c) = Fin s" "\<bar>s - (a - 60 * of_int c)\<bar> < 1"
  proof (rule fl_diff_near [of a "60 * of_int c"])
    show "\<bar>60 * of_int c\<bar> \<le> (3000000000000 :: rat)" using k assms by linarith
  qed (use assms in linarith)
  have "\<bar>s\<bar> \<le> 3000000000000" "\<bar>b'\<bar> \<le> 3000000000000" using s(2) k assms by linarith+
  then obtain u where u: "Fin s - Fin b' = Fin u" "\<bar>u - (s - b')\<bar> < 1" by (rule fl_diff_near)
  have "\<bar>u\<bar> \<le> 90" using u(2) s(2) k assms(3) by linarith
  then have "alive (Fin a) c (Fin b')" by (simp add: alive_def f s(1) u(1))
  then show ?thesis using c(1) by blast
qed

lemma candidate_unique:
  assumes "candidate_of (Fin a) (Fin b) = ret c" and "\<bar>a\<bar> \<le> 1000000000000" and "\<bar>b\<bar> \<le> 1000000000000"
    and "\<bar>a - b - 60 * of_int k\<bar> \<le> 29" and "- 10080 \<le> k" and "k \<le> 1440"
  shows "c = k"
proof -
  have x: "of_int (60 * k - 29) \<le> a - b" "a - b \<le> of_int (60 * k + 29)" using assms(4) by (simp_all add: abs_le_iff)
  obtain r where r: "fl (a - b) = Fin r" "of_int (60 * k - 29) \<le> r" "r \<le> of_int (60 * k + 29)"
    by (rule fl_between [OF x]) (use assms(5,6) in simp_all)
  have p: "pow2 (- 6) = 1 / 64" by code_simp
  have anchor: "fl (of_int n / 64) = Fin (of_int n / 64)" if "\<bar>n\<bar> \<le> 2 ^ 20" for n
  proof (rule fl_representable)
    have "of_int n / 64 = of_int n * pow2 (- 6)" by (simp add: p)
    moreover have "representable (of_int n * pow2 (- 6))" using that by (intro representable_grid) simp_all
    ultimately show "representable (of_int n / 64)" by metis
    have "\<bar>of_int n\<bar> \<le> (2 :: rat) ^ 20" using that by (metis of_int_abs of_int_le_iff of_int_numeral of_int_power)
    then have "\<bar>of_int n / 64\<bar> \<le> (2 :: rat) ^ 20" by (simp add: abs_divide)
    also have "\<dots> = pow2 20" by (simp add: pow2_nat)
    also have "\<dots> < pow2 1024" by (rule pow2_less) simp
    finally show "\<bar>of_int n / 64\<bar> < pow2 1024" .
  qed
  have "of_int (64 * k - 31) / 64 \<le> r / 60" "r / 60 \<le> of_int (64 * k + 31) / 64" using r(2,3) by (auto simp: field_simps)
  then have "fl (of_int (64 * k - 31) / 64) \<le> fl (r / 60)" "fl (r / 60) \<le> fl (of_int (64 * k + 31) / 64)"
    by (simp_all only: fl_mono)
  then have "Fin (of_int (64 * k - 31) / 64) \<le> fl (r / 60)" "fl (r / 60) \<le> Fin (of_int (64 * k + 31) / 64)"
    using anchor [of "64 * k - 31"] anchor [of "64 * k + 31"] assms(5,6) by simp_all
  then obtain q where q: "fl (r / 60) = Fin q" "of_int (64 * k - 31) / 64 \<le> q" "q \<le> of_int (64 * k + 31) / 64"
    by (cases "fl (r / 60)") auto
  have c: "c = rhe q"
    using assms(1) q(1) r(1) by (simp add: candidate_of_def minus_f64_def ret_def)
  have "\<bar>of_int c - q\<bar> \<le> 1 / 2" unfolding c by (rule rhe_error)
  moreover have "of_int k - 31 / 64 \<le> q" "q \<le> of_int k + 31 / 64" using q(2,3) by (simp_all add: field_simps)
  ultimately have "\<bar>of_int c - of_int k :: rat\<bar> < 1" by linarith
  then have "\<bar>of_int (c - k) :: rat\<bar> < 1" by simp
  then have "\<bar>c - k\<bar> < 1" by (metis of_int_abs of_int_less_1_iff)
  then show ?thesis by simp
qed

text \<open>One observation of an advancing stream, with one reading of the clock.\<close>

definition heard :: "int \<Rightarrow> rat \<Rightarrow> rat \<Rightarrow> bool" where
  "heard k a b \<longleftrightarrow> 0 < a \<and> a \<le> 1000000000000 \<and> \<bar>b\<bar> \<le> 1000000000000 \<and> \<bar>a - b - 60 * of_int k\<bar> \<le> 29"

lemma note_heard:
  assumes "heard k a b" and "ad_last_epoch d = Some (Fin p)" and "p < a" and "a - p \<le> 120"
    and "- 10080 \<le> k" and "k \<le> 1440"
  shows "note_broker_epoch (Some (Fin a)) (Fin b) (Fin b) d =
    (if 0 \<le> k \<and> 30 \<le> \<bar>k - active_offset d\<bar> then agree k (d\<lparr>ad_last_epoch := Some (Fin a)\<rparr>)
     else forget_candidate (d\<lparr>ad_last_epoch := Some (Fin a)\<rparr>))"
proof -
  have h: "0 < a" "\<bar>a\<bar> \<le> 1000000000000" "\<bar>b\<bar> \<le> 1000000000000" "\<bar>a - b - 60 * of_int k\<bar> \<le> 29"
    using assms(1) by (auto simp: heard_def)
  obtain c where c: "candidate_of (Fin a) (Fin b) = ret c" "alive (Fin a) c (Fin b)"
    using candidate_alive [OF h(2,3), of b] by auto
  have "c = k" by (rule candidate_unique [OF c(1) h(2-4) assms(5,6)])
  moreover have "\<not> Fin 120 < Fin a - Fin p"
    using fl_mono [OF assms(4)] by (cases "fl (a - p)") (auto simp: minus_f64_def)
  ultimately show ?thesis
    using h assms c by (simp add: note_broker_epoch_def Let_def zero_f64_Fin active_offset_def ret_def not_less)
qed

lemma stale_stream_run:
  assumes "- 10080 \<le> k" and "k \<le> 1440"
    and "heard k a0 b0" "heard k a1 b1" "heard k a2 b2" "heard k a3 b3"
    and "a0 < a1" "a1 < a2" "a2 < a3" and "a3 - a0 \<le> 120"
  shows "ad_adopted (foldl (\<lambda>d (a, b). note_broker_epoch (Some (Fin a)) (Fin b) (Fin b) d) mk_detector
           [(a0, b0), (a1, b1), (a2, b2), (a3, b3)]) = (if 0 \<le> k \<and> 30 \<le> \<bar>k - 180\<bar> then Some k else None)"
proof -
  let ?N = "\<lambda>a b d. note_broker_epoch (Some (Fin a)) (Fin b) (Fin b) d"
  have d0: "?N a0 b0 mk_detector = mk_detector\<lparr>ad_last_epoch := Some (Fin a0)\<rparr>"
    using assms(3) by (simp add: note_broker_epoch_def Let_def mk_detector_def forget_candidate_def heard_def zero_f64_Fin)
  have gaps: "a1 - a0 \<le> 120" "a2 - a1 \<le> 120" "a3 - a2 \<le> 120" using assms(7-10) by linarith+
  note steps = note_heard [OF assms(4) _ assms(7) gaps(1) assms(1,2)]
    note_heard [OF assms(5) _ assms(8) gaps(2) assms(1,2)]
    note_heard [OF assms(6) _ assms(9) gaps(3) assms(1,2)]
  have fresh: "ad_adopted mk_detector = None" "ad_candidate mk_detector = None" "ad_agreeing mk_detector = 0"
    by (simp_all add: mk_detector_def)
  show ?thesis
  proof (cases "0 \<le> k \<and> 30 \<le> \<bar>k - 180\<bar>")
    case True
    then show ?thesis by (simp add: d0 steps agree_def fresh active_offset_def)
  next
    case False
    then have off: "(0 \<le> k \<and> 30 \<le> \<bar>k - 180\<bar>) = False" by simp
    show ?thesis by (simp add: d0 steps forget_candidate_def fresh active_offset_def off)
  qed
qed

text \<open>C18: when a stale stream moves the broker clock, and when it does not. A fresh detector (no offset
  adopted yet, no override in the environment) hears four rising epochs within the advance limit from a
  server whose true offset is \<open>server\<close> minutes, each \<open>age\<close> minutes old up to 29 seconds (at most a week).
  It adopts \<open>server - age\<close> when that number is not negative and differs from the default of 180 minutes by
  at least 30, and then every conversion uses it; otherwise it adopts nothing and the default stays. So a
  stream of a UTC+2 server that is an hour old sets the offset to 60 minutes, and one that is three hours
  old, whose apparent offset is negative, is refused.\<close>

theorem stale_stream_adopted:
  assumes "0 \<le> server" and "server \<le> 1440" and "0 \<le> age" and "age \<le> 10080"
    and "heard (server - age) a0 b0" "heard (server - age) a1 b1" "heard (server - age) a2 b2" "heard (server - age) a3 b3"
    and "a0 < a1" "a1 < a2" "a2 < a3" and "a3 - a0 \<le> 120"
    and "d = foldl (\<lambda>d (a, b). note_broker_epoch (Some (Fin a)) (Fin b) (Fin b) d) mk_detector
           [(a0, b0), (a1, b1), (a2, b2), (a3, b3)]"
  shows "ad_adopted d = (if age \<le> server \<and> 30 \<le> \<bar>server - age - 180\<bar> then Some (server - age) else None)
    \<and> broker_offset_minutes None d = (if age \<le> server \<and> 30 \<le> \<bar>server - age - 180\<bar> then server - age else 180)"
proof -
  have k: "- 10080 \<le> server - age" "server - age \<le> 1440" using assms(1-4) by simp_all
  have "ad_adopted d = (if 0 \<le> server - age \<and> 30 \<le> \<bar>server - age - 180\<bar> then Some (server - age) else None)"
    unfolding assms(13) by (rule stale_stream_run [OF k assms(5-12)])
  then have a: "ad_adopted d = (if age \<le> server \<and> 30 \<le> \<bar>server - age - 180\<bar> then Some (server - age) else None)"
    by simp
  then show ?thesis by (simp add: broker_offset_minutes_def)
qed

lemma stale_stream_adopted_witness:
  "ad_adopted (foldl (\<lambda>d (a, b). note_broker_epoch (Some (Fin a)) (Fin b) (Fin b) d) mk_detector
     [(1700003600, 1700000000), (1700003601, 1700000000), (1700003602, 1700000000), (1700003603, 1700000000)]) = Some 60
   \<and> ad_adopted (foldl (\<lambda>d (a, b). note_broker_epoch (Some (Fin a)) (Fin b) (Fin b) d) mk_detector
     [(1699996400, 1700000000), (1699996401, 1700000000), (1699996402, 1700000000), (1699996403, 1700000000)]) = None"
proof
  show "ad_adopted (foldl (\<lambda>d (a, b). note_broker_epoch (Some (Fin a)) (Fin b) (Fin b) d) mk_detector
     [(1700003600, 1700000000), (1700003601, 1700000000), (1700003602, 1700000000), (1700003603, 1700000000)]) = Some 60"
    using stale_stream_adopted [of 120 60 1700003600 1700000000 1700003601 1700000000 1700003602 1700000000 1700003603 1700000000, OF _ _ _ _ _ _ _ _ _ _ _ _ refl]
    by (simp add: heard_def)
  show "ad_adopted (foldl (\<lambda>d (a, b). note_broker_epoch (Some (Fin a)) (Fin b) (Fin b) d) mk_detector
     [(1699996400, 1700000000), (1699996401, 1700000000), (1699996402, 1700000000), (1699996403, 1700000000)]) = None"
    using stale_stream_adopted [of 120 180 1699996400 1700000000 1699996401 1700000000 1699996402 1700000000 1699996403 1700000000, OF _ _ _ _ _ _ _ _ _ _ _ _ refl]
    by (simp add: heard_def)
qed

end
