(* ===== verification/PendingOrders.thy ===== *)
theory PendingOrders
  imports PyNum PyTime Domain OutcomeLedger TicketState TicketsCache
begin

text \<open>
  \<^verbatim>\<open>execution/lifecycle/pending_orders.py\<close> and \<^verbatim>\<open>refresh_live_tickets_cache\<close> of
  \<^verbatim>\<open>execution/order_manager.py\<close>: the entry contexts staged at dispatch, the re-quote lock, the
  cancellation that asks the broker, and the reconciliation of the cache. The dictionaries that the
  code iterates are association lists; a clock reading is an argument; the answers of the broker are
  arguments too, one for each moment at which the code asks.
\<close>

section \<open>State\<close>

record staged_context =
  sc_order_id :: string
  sc_reason :: string
  sc_confidence :: f64
  sc_regime :: string
  sc_expected :: f64
  sc_dispatched :: f64
  sc_setup :: "(string \<times> string) list"

record pending_life =
  pl_mod_price :: "int \<Rightarrow> f64 option"
  pl_mod_time :: "int \<Rightarrow> py_datetime option"
  pl_setup_time :: "int \<Rightarrow> py_datetime option"
  pl_cancel_reasons :: "int \<Rightarrow> string option"
  pl_registry :: "(string \<times> staged_context) list"
  pl_context_ts :: "(string \<times> f64) list"
  pl_families :: "string \<Rightarrow> int list option"
  pl_unbound :: "int \<Rightarrow> string option"

definition mk_pending_life :: pending_life where
  "mk_pending_life = \<lparr>pl_mod_price = (\<lambda>_. None), pl_mod_time = (\<lambda>_. None), pl_setup_time = (\<lambda>_. None),
     pl_cancel_reasons = (\<lambda>_. None), pl_registry = [], pl_context_ts = [], pl_families = (\<lambda>_. None),
     pl_unbound = (\<lambda>_. None)\<rparr>"

abbreviation PENDING_ORDER_LOCK_SECONDS :: f64 where "PENDING_ORDER_LOCK_SECONDS \<equiv> Fin 30"
abbreviation CONTEXT_TTL_SEC :: f64 where "CONTEXT_TTL_SEC \<equiv> Fin 3600"
abbreviation CONTEXT_MAX_ENTRIES :: nat where "CONTEXT_MAX_ENTRIES \<equiv> 64"

section \<open>Staged entry contexts\<close>

text \<open>The order of the clock readings, which are finite.\<close>

definition reading :: "f64 \<Rightarrow> rat" where
  "reading x = (case x of Fin r \<Rightarrow> r | _ \<Rightarrow> 0)"

definition drop_contexts :: "string list \<Rightarrow> pending_life \<Rightarrow> pending_life" where
  "drop_contexts ks pl = pl\<lparr>pl_registry := filter (\<lambda>(k, _). k \<notin> set ks) (pl_registry pl),
     pl_context_ts := filter (\<lambda>(k, _). k \<notin> set ks) (pl_context_ts pl),
     pl_families := (\<lambda>k. if k \<in> set ks then None else pl_families pl k)\<rparr>"

definition sweep_stale :: "f64 \<Rightarrow> pending_life \<Rightarrow> pending_life" where
  "sweep_stale now pl =
     (let stale = map fst (filter (\<lambda>(k, ts). CONTEXT_TTL_SEC < now - ts) (pl_context_ts pl));
          pl = drop_contexts stale pl
      in if CONTEXT_MAX_ENTRIES < length (pl_registry pl)
         then drop_contexts (map fst (take (length (pl_registry pl) - CONTEXT_MAX_ENTRIES)
                (sort_key (\<lambda>(k, ts). reading ts) (pl_context_ts pl)))) pl
         else pl)"

definition register_entry_context :: "staged_context \<Rightarrow> f64 \<Rightarrow> f64 \<Rightarrow> pending_life \<Rightarrow> pending_life" where
  "register_entry_context ctx stamp now pl =
     sweep_stale now (pl\<lparr>pl_registry := AList.update (sc_order_id ctx) ctx (pl_registry pl),
                         pl_context_ts := AList.update (sc_order_id ctx) stamp (pl_context_ts pl)\<rparr>)"

text \<open>\<^verbatim>\<open>sorted(..., reverse=True)\<close> keeps the order of equal readings.\<close>

definition newest_first :: "(string \<times> f64) list \<Rightarrow> string list" where
  "newest_first ts = map fst (rev (sort_key (\<lambda>(k, t). reading t) (rev ts)))"

definition family_of :: "string \<Rightarrow> pending_life \<Rightarrow> int list" where
  "family_of oid pl = getd (pl_families pl oid) []"

definition family_live :: "cache \<Rightarrow> pending_life \<Rightarrow> string \<Rightarrow> bool" where
  "family_live live pl oid = list_ex (\<lambda>t. t \<in> fst ` set live) (family_of oid pl)"

text \<open>The context of a ticket that appears: by its order id, by the empty id, by a live family, the newest.\<close>

definition open_family :: "cache \<Rightarrow> pending_life \<Rightarrow> staged_context option" where
  "open_family live pl =
     (case filter (\<lambda>oid. family_live live pl oid \<and> map_of (pl_registry pl) oid \<noteq> None) (newest_first (pl_context_ts pl)) of
        [] \<Rightarrow> None | oid # _ \<Rightarrow> map_of (pl_registry pl) oid)"

definition resolve_context :: "string \<Rightarrow> cache \<Rightarrow> pending_life \<Rightarrow> staged_context option" where
  "resolve_context oid live pl =
     (case (if oid \<noteq> [] then map_of (pl_registry pl) oid else None) of
        Some c \<Rightarrow> Some c
      | None \<Rightarrow> (case map_of (pl_registry pl) [] of
          Some c \<Rightarrow> Some c
        | None \<Rightarrow> (case open_family live pl of
            Some c \<Rightarrow> Some c
          | None \<Rightarrow> (case newest_first (pl_context_ts pl) of
              [] \<Rightarrow> None | k # _ \<Rightarrow> map_of (pl_registry pl) k))))"

definition setup_snapshots :: "(string \<times> string) list field" where
  "setup_snapshots = plain_field setup_snapshot (\<lambda>v s. s\<lparr>setup_snapshot := v\<rparr>) []"

text \<open>\<^verbatim>\<open>a or b\<close> on strings.\<close>

definition str_or :: "string \<Rightarrow> string \<Rightarrow> string" where
  "str_or a b = (if a = [] then b else a)"

definition bind_fields :: "int \<Rightarrow> string \<Rightarrow> staged_context \<Rightarrow> f64 \<Rightarrow> store \<Rightarrow> store" where
  "bind_fields t oid c now S =
     (let S = dv_set entry_reasons t (str_or (sc_reason c) ''PURE_AI'') S;
          S = dv_set entry_confidences t (sc_confidence c) S;
          S = dv_set entry_regimes t (sc_regime c) S;
          S = dv_set entry_order_ids t (str_or (sc_order_id c) oid) S;
          S = dv_set expected_prices t (sc_expected c) S;
          S = dv_set setup_snapshots t (sc_setup c) S
      in if 0 < sc_dispatched c then dv_set fill_latencies t (pmax 0 ((now - sc_dispatched c) * Fin 1000)) S else S)"

definition bind_pending_entry_context ::
  "int \<Rightarrow> string \<Rightarrow> cache \<Rightarrow> f64 \<Rightarrow> pending_life \<Rightarrow> store \<Rightarrow> pending_life \<times> store" where
  "bind_pending_entry_context t oid live now pl S =
     (case resolve_context oid live pl of
        Some c \<Rightarrow>
          let S = bind_fields t oid c now S;
              key = str_or (dv_get entry_order_ids t None S) oid
          in (pl\<lparr>pl_families := (pl_families pl)(key \<mapsto> List.insert t (family_of key pl))\<rparr>, S)
      | None \<Rightarrow>
          let (_, S) = dv_setdefault entry_reasons t ''PURE_AI'' S;
              (_, S) = dv_setdefault entry_order_ids t oid S
          in (pl\<lparr>pl_unbound := (pl_unbound pl)(t \<mapsto> ''NO_STAGED_CONTEXT'')\<rparr>, S))"

definition prune_bound_context :: "string \<Rightarrow> cache \<Rightarrow> pending_life \<Rightarrow> pending_life" where
  "prune_bound_context oid live pl =
     (if oid = [] \<or> family_of oid pl = [] \<or> family_live live pl oid then pl else drop_contexts [oid] pl)"

section \<open>The re-quote lock\<close>

definition should_modify_pending_order ::
  "int \<Rightarrow> f64 \<Rightarrow> f64 \<Rightarrow> py_datetime \<Rightarrow> pending_life \<Rightarrow> bool \<times> pending_life" where
  "should_modify_pending_order t price atr now pl =
     (let accept = (True, pl\<lparr>pl_mod_price := (pl_mod_price pl)(t \<mapsto> price), pl_mod_time := (pl_mod_time pl)(t \<mapsto> now)\<rparr>)
      in case (pl_mod_price pl t, pl_mod_time pl t) of
           (Some last_price, Some last_time) \<Rightarrow>
             if total_seconds (instant now - instant last_time) \<le> PENDING_ORDER_LOCK_SECONDS then (False, pl)
             else if fabs64 (price - last_price) < 1 * atr then (False, pl)
             else accept
         | _ \<Rightarrow> accept)"

section \<open>What the broker says\<close>

record listing =
  ls_positions :: "position list option res"
  ls_pendings :: "pending_order list option res option"

record cancel_answers =
  ca_cancel :: "bool res option"
  ca_pendings :: "pending_order list option res option"
  ca_history :: "(int \<times> int) list res option"
  ca_refresh :: listing

datatype broker_state = BS_ACTIVE | BS_GONE | BS_UNKNOWN

text \<open>The active list: whether it was answered, and whether it holds the ticket.\<close>

definition active_answer :: "int \<Rightarrow> pending_order list option res option \<Rightarrow> bool option" where
  "active_answer t q = (case q of
       Some (Inr (Some ps)) \<Rightarrow> Some (list_ex (\<lambda>p. getd (ticket_of p) 0 = t) ps) | _ \<Rightarrow> None)"

text \<open>The history: whether the first order with the ticket is in a terminal state.\<close>

definition history_terminal :: "int \<Rightarrow> (int \<times> int) list res option \<Rightarrow> bool option" where
  "history_terminal t q = (case q of
       Some (Inr hs) \<Rightarrow> map_option (\<lambda>(_, st). st \<notin> set [0, 1, 7, 8, 9]) (find (\<lambda>(h, _). h = t) hs) | _ \<Rightarrow> None)"

definition broker_state :: "int \<Rightarrow> cancel_answers \<Rightarrow> broker_state" where
  "broker_state t A =
     (case active_answer t (ca_pendings A) of
        Some True \<Rightarrow> BS_ACTIVE
      | active \<Rightarrow>
          let hist = history_terminal t (ca_history A)
          in if hist = Some False then BS_ACTIVE
             else if active = Some False \<or> hist = Some True then BS_GONE else BS_UNKNOWN)"

section \<open>The order manager's part\<close>

record manager =
  om_life :: pending_life
  om_store :: store
  om_cache :: cache
  om_ledger :: ledger
  om_orders :: "(int \<times> string \<times> string) list"

text \<open>
  Whether there is an experience engine, how many queued statements its flush applies, and the wall clock.
\<close>

record surroundings =
  sr_engine :: bool
  sr_flush :: nat
  sr_wall :: py_datetime

definition emit_terminal_for_pending ::
  "surroundings \<Rightarrow> int \<Rightarrow> decision_lifecycle \<Rightarrow> string \<Rightarrow> py_datetime option \<Rightarrow> manager \<Rightarrow> manager" where
  "emit_terminal_for_pending E t s detail tm m =
     (let request = dv_get entry_order_ids t (Some []) (om_store m)
      in if request = [] then m
         else case emit_terminal (sr_flush E) (sr_engine E) request s
                     (str_or detail (''broker ticket '' @ show_int t @ '' terminal'')) tm (sr_wall E) (show_int t) (om_ledger m) of
                (written, l) \<Rightarrow>
                  let m = m\<lparr>om_ledger := l\<rparr>
                  in if written then m\<lparr>om_life := (om_life m)\<lparr>pl_cancel_reasons := (pl_cancel_reasons (om_life m))(t := None)\<rparr>\<rparr>
                     else m)"

definition cancel_reason :: "int \<Rightarrow> pending_life \<Rightarrow> string" where
  "cancel_reason t pl = getd (pl_cancel_reasons pl t) []"

definition note_cancel_reason :: "int \<Rightarrow> string \<Rightarrow> pending_life \<Rightarrow> pending_life" where
  "note_cancel_reason t r pl = pl\<lparr>pl_cancel_reasons := (pl_cancel_reasons pl)(t \<mapsto> r)\<rparr>"

definition drop_ticket :: "int \<Rightarrow> pending_life \<Rightarrow> pending_life" where
  "drop_ticket t pl = pl\<lparr>pl_setup_time := (pl_setup_time pl)(t := None)\<rparr>"

section \<open>The refresh of the cache\<close>

definition listed_positions :: "listing \<Rightarrow> position list" where
  "listed_positions B = (case ls_positions B of Inr (Some ps) \<Rightarrow> ps | _ \<Rightarrow> [])"

definition refreshed_cache :: "string option \<Rightarrow> listing \<Rightarrow> cache" where
  "refreshed_cache symbol B = rebuild (listed_positions B) (ls_pendings B) (getd symbol [])"

definition vanished :: "cache \<Rightarrow> cache \<Rightarrow> int list" where
  "vanished old new = sort (filter (\<lambda>t. t \<notin> fst ` set new)
     (map fst (filter (\<lambda>(_, i). ti_kind i = TK_PENDING) old)))"

definition gone_state :: "string \<Rightarrow> decision_lifecycle" where
  "gone_state reason =
     (if str_in ''AGE'' reason then DL_EXPIRED_UNFILLED
      else if reason \<noteq> [] then DL_CANCELED_UNFILLED else DL_EXPIRED_UNFILLED)"

definition sweep_vanished :: "surroundings \<Rightarrow> int \<Rightarrow> manager \<Rightarrow> manager" where
  "sweep_vanished E t m =
     (let reason = cancel_reason t (om_life m)
      in emit_terminal_for_pending E t (gone_state reason)
           (''reconcile sweep: pending vanished from broker view (last_reason='' @ str_or reason ''none'' @ '')'') None m)"

definition refresh_live_tickets_cache :: "surroundings \<Rightarrow> string option \<Rightarrow> listing \<Rightarrow> manager \<Rightarrow> manager" where
  "refresh_live_tickets_cache E symbol B m =
     (let new = refreshed_cache symbol B
      in (fold (sweep_vanished E) (vanished (om_cache m) new) m)\<lparr>om_cache := new\<rparr>)"

section \<open>Cancellation\<close>

definition forget_and_refresh :: "surroundings \<Rightarrow> int \<Rightarrow> string option \<Rightarrow> listing \<Rightarrow> manager \<Rightarrow> manager" where
  "forget_and_refresh E t symbol B m =
     refresh_live_tickets_cache E symbol B (m\<lparr>om_life := drop_ticket t (om_life m)\<rparr>)"

definition cancel_pending_order_verified ::
  "surroundings \<Rightarrow> int \<Rightarrow> string option \<Rightarrow> py_datetime option \<Rightarrow> cancel_answers \<Rightarrow> manager \<Rightarrow> bool \<times> manager" where
  "cancel_pending_order_verified E t symbol tm A m =
     (case ca_cancel A of None \<Rightarrow> (False, m)
      | Some answer \<Rightarrow>
          let sent = (case answer of Inr b \<Rightarrow> b | Inl _ \<Rightarrow> False)
          in case broker_state t A of
               BS_ACTIVE \<Rightarrow> (False, m)
             | BS_GONE \<Rightarrow>
                 let s = (if str_in ''AGE'' (cancel_reason t (om_life m)) then DL_EXPIRED_UNFILLED else DL_CANCELED_UNFILLED)
                 in (True, forget_and_refresh E t symbol (ca_refresh A) (emit_terminal_for_pending E t s [] tm m))
             | BS_UNKNOWN \<Rightarrow>
                 if sent then (True, forget_and_refresh E t symbol (ca_refresh A) m) else (False, m))"

text \<open>The retry: \<open>answers k\<close> is what the broker says to the attempt \<open>k\<close>; the result counts the attempts.\<close>

fun retry_loop ::
  "nat \<Rightarrow> nat \<Rightarrow> surroundings \<Rightarrow> int \<Rightarrow> string option \<Rightarrow> py_datetime option \<Rightarrow> (nat \<Rightarrow> cancel_answers) \<Rightarrow> manager
     \<Rightarrow> nat \<times> manager" where
  "retry_loop 0 k E t symbol tm answers m = (k, m)"
| "retry_loop (Suc n) k E t symbol tm answers m =
     (case cancel_pending_order_verified E t symbol tm (answers k) m of
        (True, m) \<Rightarrow> (Suc k, m)
      | (False, m) \<Rightarrow> retry_loop n (Suc k) E t symbol tm answers m)"

definition cancel_pending_order_with_retry ::
  "surroundings \<Rightarrow> int \<Rightarrow> string option \<Rightarrow> int \<Rightarrow> py_datetime option \<Rightarrow> (nat \<Rightarrow> cancel_answers) \<Rightarrow> manager \<Rightarrow> nat \<times> manager" where
  "cancel_pending_order_with_retry E t symbol max_attempts tm answers m =
     retry_loop (nat (max 1 max_attempts)) 0 E t symbol tm answers m"

section \<open>Reconciliation\<close>

record reconcile_report =
  rr_internal :: nat
  rr_broker :: nat
  rr_mismatch :: bool
  rr_repaired :: bool
  rr_broker_error :: bool

definition internal_pendings :: "cache \<Rightarrow> nat" where
  "internal_pendings d = length (filter (\<lambda>(_, i). ti_kind i = TK_PENDING) d)"

text \<open>An adapter without the query counts as a broker without pending orders.\<close>

definition broker_pendings :: "pending_order list option res option \<Rightarrow> nat option" where
  "broker_pendings q = (case q of None \<Rightarrow> Some 0 | Some (Inr (Some ps)) \<Rightarrow> Some (length ps) | _ \<Rightarrow> None)"

definition reconcile_pending_state ::
  "surroundings \<Rightarrow> string option \<Rightarrow> pending_order list option res option \<Rightarrow> listing \<Rightarrow> manager
     \<Rightarrow> reconcile_report \<times> manager" where
  "reconcile_pending_state E symbol q B m =
     (let n = internal_pendings (om_cache m);
          k = broker_pendings q;
          mismatch = (k \<noteq> None \<and> k \<noteq> Some n)
      in (\<lparr>rr_internal = n, rr_broker = getd k 0, rr_mismatch = mismatch, rr_repaired = mismatch,
           rr_broker_error = (k = None)\<rparr>,
          if mismatch then refresh_live_tickets_cache E symbol B m else m))"

section \<open>The pass over the pending orders\<close>

text \<open>\<^verbatim>\<open>str(getattr(t, "value", t) or "")\<close>: no type and the number 0 are the empty text.\<close>

definition type_text_or_empty :: "pending_type option \<Rightarrow> string" where
  "type_text_or_empty t = (case t of None \<Rightarrow> [] | Some (PT_Code n) \<Rightarrow> (if n = 0 then [] else show_int n) | Some (PT_Name s) \<Rightarrow> s)"

definition open_price_of :: "pending_order \<Rightarrow> f64" where
  "open_price_of p = getd (pending_field [pd_price_open p, pd_price p]) 0"

definition market_distance :: "tick_data \<Rightarrow> pending_order \<Rightarrow> f64" where
  "market_distance tick p =
     (if str_in ''BUY'' (upper (type_text_or_empty (type_of p)))
      then fabs64 (t_ask tick - open_price_of p) else fabs64 (t_bid tick - open_price_of p))"

definition stale_reason :: "f64 \<Rightarrow> f64 \<Rightarrow> f64 \<Rightarrow> string option" where
  "stale_reason gap max_dist age =
     (if max_dist < gap
      then Some (''DISTANCE_BREACH ($'' @ fmt_fixed 2 gap @ '' > $'' @ fmt_fixed 2 max_dist @ '')'')
      else if Fin 120 < age then Some (''AGE_EXPIRATION ('' @ fmt_fixed 1 age @ ''s > 120.0s)'')
      else None)"

definition manage_one ::
  "surroundings \<Rightarrow> string \<Rightarrow> tick_data \<Rightarrow> f64 \<Rightarrow> f64 \<Rightarrow> cancel_answers \<Rightarrow> pending_order \<Rightarrow> manager \<Rightarrow> manager" where
  "manage_one E symbol tick required_drift max_dist A p m =
     (case ticket_of p of None \<Rightarrow> m
      | Some t \<Rightarrow>
          if t = 0 \<or> open_price_of p \<le> 0 then m
          else
            let now = t_timestamp tick;
                life = om_life m;
                life = (if pl_setup_time life t = None then life\<lparr>pl_setup_time := (pl_setup_time life)(t \<mapsto> now)\<rparr> else life);
                m = m\<lparr>om_life := life\<rparr>;
                gap = market_distance tick p;
                age = (case pl_setup_time life t of Some t0 \<Rightarrow> total_seconds (instant now - instant t0) | None \<Rightarrow> 0)
            in if age \<le> PENDING_ORDER_LOCK_SECONDS then m
               else if gap < required_drift then m
               else case stale_reason gap max_dist age of None \<Rightarrow> m
                    | Some reason \<Rightarrow>
                        (case cancel_pending_order_verified E t (Some symbol) (Some now) A
                                (m\<lparr>om_life := note_cancel_reason t reason life\<rparr>) of
                           (True, m) \<Rightarrow> m\<lparr>om_orders := om_orders m @
                             [(t, if str_in ''AGE'' reason then ''Expired pending order'' else ''Cancelled order'', reason)]\<rparr>
                         | (False, m) \<Rightarrow> m))"

text \<open>\<open>answers k\<close> is what the broker says while the order \<open>k\<close> of the list is cancelled.\<close>

definition manage_pending_orders ::
  "surroundings \<Rightarrow> string \<Rightarrow> tick_data \<Rightarrow> f64 \<Rightarrow> f64 \<Rightarrow> pending_order list option res option
     \<Rightarrow> (nat \<Rightarrow> cancel_answers) \<Rightarrow> manager \<Rightarrow> manager" where
  "manage_pending_orders E symbol tick atr mult q answers m =
     fold (\<lambda>(k, p). manage_one E symbol tick (round_nd 2 (atr * 1)) (round_nd 2 (atr * mult)) (answers k) p)
       (enumerate 0 (answered q)) m"

section \<open>Falling-knife protection\<close>

definition opposing_limit :: "position \<Rightarrow> pending_order \<Rightarrow> bool" where
  "opposing_limit pos p \<longleftrightarrow>
     (let s = upper (type_text_or_empty (type_of p))
      in (pos_type pos = SELL \<and> str_in ''BUY_LIMIT'' s) \<or> (pos_type pos = BUY \<and> str_in ''SELL_LIMIT'' s))"

definition knife_one ::
  "surroundings \<Rightarrow> string \<Rightarrow> position \<Rightarrow> cancel_answers \<Rightarrow> pending_order \<Rightarrow> manager \<Rightarrow> manager" where
  "knife_one E symbol pos A p m =
     (case ticket_of p of None \<Rightarrow> m
      | Some t \<Rightarrow>
          if opposing_limit pos p \<and> t \<noteq> 0 then
            (case cancel_pending_order_verified E t (Some symbol) None A
                    (m\<lparr>om_life := note_cancel_reason t ''FALLING_KNIFE_PROTECTION'' (om_life m)\<rparr>) of
               (True, m) \<Rightarrow> m\<lparr>om_life := drop_ticket t (om_life m), om_orders := om_orders m @
                 [(t, ''Cancelled order'', ''FALLING_KNIFE_PROTECTION'')]\<rparr>
             | (False, m) \<Rightarrow> m)
          else m)"

text \<open>The pairs of a profitable position and a pending order, in the order of the two loops.\<close>

definition knife_pairs :: "position list \<Rightarrow> f64 \<Rightarrow> pending_order list \<Rightarrow> (position \<times> pending_order) list" where
  "knife_pairs positions atr ps =
     concat (map (\<lambda>pos. map (Pair pos) ps) (filter (\<lambda>pos. atr * Fin 20 < pos_profit pos) positions))"

definition evaluate_falling_knife_protection ::
  "surroundings \<Rightarrow> string \<Rightarrow> position list \<Rightarrow> f64 \<Rightarrow> bool \<Rightarrow> pending_order list option res option
     \<Rightarrow> (nat \<Rightarrow> cancel_answers) \<Rightarrow> manager \<Rightarrow> manager" where
  "evaluate_falling_knife_protection E symbol positions atr can_cancel q answers m =
     (if \<not> can_cancel then m
      else fold (\<lambda>(k, pos, p). knife_one E symbol pos (answers k) p)
             (enumerate 0 (knife_pairs positions atr (answered q))) m)"

section \<open>Frames\<close>

lemma emit_frame [simp]:
  "om_store (emit_terminal_for_pending E t s d tm m) = om_store m"
  "om_cache (emit_terminal_for_pending E t s d tm m) = om_cache m"
  "om_orders (emit_terminal_for_pending E t s d tm m) = om_orders m"
  "pl_setup_time (om_life (emit_terminal_for_pending E t s d tm m)) = pl_setup_time (om_life m)"
  by (simp_all add: emit_terminal_for_pending_def Let_def split: prod.splits)

lemma sweep_frame [simp]:
  "om_store (fold (sweep_vanished E) ts m) = om_store m"
  "om_orders (fold (sweep_vanished E) ts m) = om_orders m"
  "pl_setup_time (om_life (fold (sweep_vanished E) ts m)) = pl_setup_time (om_life m)"
  by (induction ts arbitrary: m) (simp_all add: sweep_vanished_def Let_def)

lemma refresh_frame [simp]:
  "om_store (refresh_live_tickets_cache E symbol B m) = om_store m"
  "om_orders (refresh_live_tickets_cache E symbol B m) = om_orders m"
  "om_cache (refresh_live_tickets_cache E symbol B m) = refreshed_cache symbol B"
  "pl_setup_time (om_life (refresh_live_tickets_cache E symbol B m)) = pl_setup_time (om_life m)"
  by (simp_all add: refresh_live_tickets_cache_def Let_def)

lemma forget_frame [simp]:
  "om_store (forget_and_refresh E t symbol B m) = om_store m"
  "om_orders (forget_and_refresh E t symbol B m) = om_orders m"
  "om_cache (forget_and_refresh E t symbol B m) = refreshed_cache symbol B"
  "pl_setup_time (om_life (forget_and_refresh E t symbol B m)) = (pl_setup_time (om_life m))(t := None)"
  by (simp_all add: forget_and_refresh_def drop_ticket_def)

lemma cancel_store [simp]: "om_store (snd (cancel_pending_order_verified E t symbol tm A m)) = om_store m"
  by (simp add: cancel_pending_order_verified_def Let_def split: option.splits broker_state.splits sum.splits)

lemma retry_store: "om_store (snd (retry_loop n k E t symbol tm answers m)) = om_store m"
proof (induction n arbitrary: k m)
  case (Suc n)
  obtain b m' where x: "cancel_pending_order_verified E t symbol tm (answers k) m = (b, m')" by fastforce
  then have "om_store m' = om_store m" using cancel_store [of E t symbol tm "answers k" m] by simp
  then show ?case using Suc x by (cases b) simp_all
qed simp

section \<open>Runs\<close>

datatype pending_op =
    PO_Stage staged_context f64 f64
  | PO_Requote int f64 f64 py_datetime
  | PO_Prune string
  | PO_Cancel int "string option" "py_datetime option" cancel_answers
  | PO_Retry int "string option" int "py_datetime option" "nat \<Rightarrow> cancel_answers"
  | PO_Reconcile "string option" "pending_order list option res option" listing
  | PO_Manage string tick_data f64 f64 "pending_order list option res option" "nat \<Rightarrow> cancel_answers"
  | PO_Knife string "position list" f64 bool "pending_order list option res option" "nat \<Rightarrow> cancel_answers"
  | PO_Refresh "string option" listing

fun pending_step :: "surroundings \<Rightarrow> manager \<Rightarrow> pending_op \<Rightarrow> manager" where
  "pending_step E m (PO_Stage c stamp now) = m\<lparr>om_life := register_entry_context c stamp now (om_life m)\<rparr>"
| "pending_step E m (PO_Requote t price atr now) =
     m\<lparr>om_life := snd (should_modify_pending_order t price atr now (om_life m))\<rparr>"
| "pending_step E m (PO_Prune oid) = m\<lparr>om_life := prune_bound_context oid (om_cache m) (om_life m)\<rparr>"
| "pending_step E m (PO_Cancel t symbol tm A) = snd (cancel_pending_order_verified E t symbol tm A m)"
| "pending_step E m (PO_Retry t symbol n tm answers) = snd (cancel_pending_order_with_retry E t symbol n tm answers m)"
| "pending_step E m (PO_Reconcile symbol q B) = snd (reconcile_pending_state E symbol q B m)"
| "pending_step E m (PO_Manage symbol tick atr mult q answers) = manage_pending_orders E symbol tick atr mult q answers m"
| "pending_step E m (PO_Knife symbol positions atr can q answers) =
     evaluate_falling_knife_protection E symbol positions atr can q answers m"
| "pending_step E m (PO_Refresh symbol B) = refresh_live_tickets_cache E symbol B m"

lemma fold_preserves: "(\<And>x s. P s \<Longrightarrow> P (f x s)) \<Longrightarrow> P s \<Longrightarrow> P (fold f xs s)"
  by (induction xs arbitrary: s) auto

text \<open>
  What survives every operation: a property of the manager that survives a terminal outcome, the
  bookkeeping of the placement stamps, of the cancel reasons and of the re-quote lock, a new cache,
  an audit row, and the two operations on the staged contexts.
\<close>

locale pending_frame =
  fixes P :: "manager \<Rightarrow> bool"
  assumes p_emit: "P m \<Longrightarrow> P (emit_terminal_for_pending E t s d tm m)"
    and p_setup: "P (m\<lparr>om_life := l\<rparr>) \<Longrightarrow> P (m\<lparr>om_life := l\<lparr>pl_setup_time := x\<rparr>\<rparr>)"
    and p_reasons: "P (m\<lparr>om_life := l\<rparr>) \<Longrightarrow> P (m\<lparr>om_life := l\<lparr>pl_cancel_reasons := r\<rparr>\<rparr>)"
    and p_requote: "P m \<Longrightarrow> P (m\<lparr>om_life := (om_life m)\<lparr>pl_mod_price := y, pl_mod_time := z\<rparr>\<rparr>)"
    and p_cache: "P m \<Longrightarrow> P (m\<lparr>om_cache := c\<rparr>)"
    and p_orders: "P m \<Longrightarrow> P (m\<lparr>om_orders := xs\<rparr>)"
    and p_stage: "P m \<Longrightarrow> P (m\<lparr>om_life := register_entry_context ctx stamp now (om_life m)\<rparr>)"
    and p_prune: "P m \<Longrightarrow> P (m\<lparr>om_life := prune_bound_context oid live (om_life m)\<rparr>)"
begin

lemma drop: "P m \<Longrightarrow> P (m\<lparr>om_life := drop_ticket t (om_life m)\<rparr>)"
  using p_setup [where m = m and l = "om_life m"] by (simp add: drop_ticket_def)

lemma noted: "P (m\<lparr>om_life := l\<rparr>) \<Longrightarrow> P (m\<lparr>om_life := note_cancel_reason t r l\<rparr>)"
  using p_reasons by (simp add: note_cancel_reason_def)

lemma note_own: "P m \<Longrightarrow> P (m\<lparr>om_life := note_cancel_reason t r (om_life m)\<rparr>)"
  by (rule noted) simp

lemma refresh: "P m \<Longrightarrow> P (refresh_live_tickets_cache E symbol B m)"
  unfolding refresh_live_tickets_cache_def Let_def
  by (intro p_cache fold_preserves [where P = P]) (simp_all add: sweep_vanished_def Let_def p_emit)

lemma forget: "P m \<Longrightarrow> P (forget_and_refresh E t symbol B m)"
  unfolding forget_and_refresh_def by (intro refresh drop)

lemma cancel: "P m \<Longrightarrow> cancel_pending_order_verified E t symbol tm A m = (b, m') \<Longrightarrow> P m'"
  by (auto simp: cancel_pending_order_verified_def Let_def intro: forget p_emit
           split: option.splits broker_state.splits if_splits)

lemma retry: "P m \<Longrightarrow> P (snd (retry_loop n k E t symbol tm answers m))"
  by (induction n arbitrary: k m) (auto split: prod.splits bool.splits dest: cancel)

lemma manage_one: "P m \<Longrightarrow> P (manage_one E symbol tick rd md A p m)"
proof -
  assume "P m"
  then have life: "P (m\<lparr>om_life := (if c then (om_life m)\<lparr>pl_setup_time := x\<rparr> else om_life m)\<rparr>)" for c x
    using p_setup [where m = m and l = "om_life m"] by simp
  then show ?thesis
    using \<open>P m\<close>
    by (auto simp: manage_one_def Let_def simp del: if_split intro!: p_orders noted dest!: cancel [rotated]
             split: option.split prod.split bool.split)
qed

lemma knife_one: "P m \<Longrightarrow> P (knife_one E symbol pos A p m)"
  by (auto simp: knife_one_def intro!: p_orders drop dest!: cancel [rotated] intro: note_own
           split: option.split prod.split bool.split)

lemma step: "P m \<Longrightarrow> P (pending_step E m e)"
proof (cases e)
  case (PO_Requote t price atr now)
  then show "P m \<Longrightarrow> ?thesis"
    by (auto simp: should_modify_pending_order_def Let_def intro: p_requote split: option.split)
next
  case (PO_Cancel t symbol tm A)
  then show "P m \<Longrightarrow> ?thesis"
    using cancel [of m E t symbol tm A] by (cases "cancel_pending_order_verified E t symbol tm A m") simp
next
  case (PO_Retry t symbol n tm answers)
  then show "P m \<Longrightarrow> ?thesis" by (simp add: cancel_pending_order_with_retry_def retry)
next
  case (PO_Reconcile symbol q B)
  then show "P m \<Longrightarrow> ?thesis" by (simp add: reconcile_pending_state_def Let_def refresh)
next
  case (PO_Manage symbol tick atr mult q answers)
  show "P m \<Longrightarrow> ?thesis"
    unfolding PO_Manage pending_step.simps manage_pending_orders_def
    by (rule fold_preserves [where P = P]) (auto simp: manage_one)
next
  case (PO_Knife symbol positions atr can q answers)
  show "P m \<Longrightarrow> ?thesis"
    unfolding PO_Knife pending_step.simps evaluate_falling_knife_protection_def
    by (auto simp: knife_one intro: fold_preserves [where P = P])
qed (simp_all add: p_stage p_prune refresh)

lemma run: "P m \<Longrightarrow> P (run (pending_step E) m ops)"
  by (induction ops arbitrary: m) (auto intro: step)

end

section \<open>A ticket without an order id\<close>

text \<open>
  The order id of a ticket is written when a position is seen for the first time (or rescued after a restart); a pending order
  has none. The operations of this component never write one.
\<close>

definition unattributed :: "store \<Rightarrow> bool" where
  "unattributed S \<longleftrightarrow> (\<forall>t. dv_lookup entry_order_ids t S = None)"

definition silent :: "store \<Rightarrow> ledger \<Rightarrow> manager \<Rightarrow> bool" where
  "silent S L m \<longleftrightarrow> unattributed S \<and> om_store m = S \<and> om_ledger m = L"

lemma silent_emit: "silent S L m \<Longrightarrow> emit_terminal_for_pending E t s d tm m = m"
  by (auto simp: silent_def unattributed_def emit_terminal_for_pending_def dv_get_def)

interpretation quiet: pending_frame "silent S L" for S L
  by unfold_locales (simp_all add: silent_emit, simp_all add: silent_def)

text \<open>C10: a decision whose pending order dies unfilled gets no outcome: the order id of a ticket is written only
  when a position is first seen, so while no ticket has one, no run of staging, re-quoting, cancelling,
  retrying, reconciling, expiring and refreshing adds anything to the experience ledger.\<close>

theorem unfilled_pendings_stay_silent:
  assumes "unattributed (om_store m)"
  shows "om_ledger (run (pending_step E) m ops) = om_ledger m"
proof -
  have "silent (om_store m) (om_ledger m) (run (pending_step E) m ops)"
    using assms by (intro quiet.run) (simp add: silent_def)
  then show ?thesis by (simp add: silent_def)
qed

definition sample_manager :: manager where
  "sample_manager = \<lparr>om_life = mk_pending_life, om_store = [], om_cache = [], om_ledger = empty_ledger, om_orders = []\<rparr>"

lemma unfilled_pendings_stay_silent_witness:
  "om_ledger (run (pending_step \<lparr>sr_engine = True, sr_flush = 0, sr_wall = utc 0\<rparr>) sample_manager
     [PO_Cancel 7 None None \<lparr>ca_cancel = Some (ret True), ca_pendings = Some (ret (Some [])), ca_history = None,
        ca_refresh = \<lparr>ls_positions = ret None, ls_pendings = None\<rparr>\<rparr>]) = empty_ledger"
proof -
  have "unattributed (om_store sample_manager)"
    by (simp add: sample_manager_def unattributed_def dv_lookup_def st_peek_def)
  moreover have "om_ledger sample_manager = empty_ledger" by (simp add: sample_manager_def)
  ultimately show ?thesis by (metis unfilled_pendings_stay_silent)
qed

lemma verified_cancel_frame:
  "case cancel_pending_order_verified E t symbol tm A m of (True, m') \<Rightarrow> True | (False, m') \<Rightarrow> m' = m"
  by (auto simp: cancel_pending_order_verified_def Let_def split: option.splits broker_state.splits sum.splits bool.splits)

text \<open>an answer of True from the verified cancellation means that the active list, if it was answered, does
  not hold the ticket, that the history does not show it alive, and that the broker either showed it gone or
  accepted the request; the cache is then the broker's new listing. An answer of False changes nothing.\<close>

theorem verified_cancel_sound:
  "case cancel_pending_order_verified E t symbol tm A m of
     (True, m') \<Rightarrow> active_answer t (ca_pendings A) \<noteq> Some True \<and> history_terminal t (ca_history A) \<noteq> Some False
       \<and> (broker_state t A = BS_GONE \<or> ca_cancel A = Some (ret True))
       \<and> om_cache m' = refreshed_cache symbol (ca_refresh A) \<and> pl_setup_time (om_life m') t = None
   | (False, m') \<Rightarrow> m' = m"
proof -
  have alive: "broker_state t A = BS_ACTIVE" if "active_answer t (ca_pendings A) = Some True \<or> history_terminal t (ca_history A) = Some False"
    using that by (auto simp: broker_state_def Let_def split: option.splits bool.splits)
  show ?thesis
    using alive
    by (auto simp: cancel_pending_order_verified_def Let_def ret_def split: option.splits broker_state.splits sum.splits bool.splits)
qed

text \<open>C13: a cancellation whose every check failed frees the slot: when the request was accepted and then all the
  broker's queries raise, the ticket counts as cancelled, the refresh publishes an empty cache, and the
  exposure gate lets the next entry through, whatever positions were open.\<close>

theorem failed_checks_open_the_gate:
  "case cancel_pending_order_verified E t symbol tm
      \<lparr>ca_cancel = Some (ret True), ca_pendings = Some (raise e), ca_history = Some (raise e),
       ca_refresh = \<lparr>ls_positions = raise e, ls_pendings = Some (raise e)\<rparr>\<rparr> m of
     (b, m') \<Rightarrow> b \<and> is_exposure_available (om_cache m')"
proof -
  let ?A = "\<lparr>ca_cancel = Some (ret True), ca_pendings = Some (raise e), ca_history = Some (raise e),
       ca_refresh = \<lparr>ls_positions = raise e, ls_pendings = Some (raise e)\<rparr>\<rparr>"
  have "broker_state t ?A = BS_UNKNOWN"
    by (simp add: broker_state_def active_answer_def history_terminal_def raise_def)
  then show ?thesis
    by (simp add: cancel_pending_order_verified_def ret_def refreshed_cache_def listed_positions_def answered_def
                  rebuild_def raise_def exposure_available_iff)
qed

section \<open>The native adapter's listing\<close>

text \<open>
  \<^verbatim>\<open>get_pending_orders\<close> of \<^verbatim>\<open>mt5_adapter.py\<close>: the terminal's rows, filtered by magic number and
  symbol. The rows are the terminal's: \<^verbatim>\<open>orders_get\<close> answers \<^verbatim>\<open>None\<close> on a failed query.
\<close>

record raw_order =
  ro_ticket :: int
  ro_symbol :: string
  ro_type :: int
  ro_volume :: f64
  ro_price :: f64
  ro_sl :: f64
  ro_tp :: f64
  ro_magic :: int

definition strip_suffix :: "char \<Rightarrow> string \<Rightarrow> string" where
  "strip_suffix sep s =
     (if sep \<in> set s \<and> List.tl (dropWhile (\<lambda>c. c \<noteq> sep) s) \<noteq> [] then takeWhile (\<lambda>c. c \<noteq> sep) s else s)"

definition normalize_symbol_key :: "string \<Rightarrow> string" where
  "normalize_symbol_key s = (if s = [] then [] else fold strip_suffix ''.-_'' (upper (strip s)))"

definition is_bot_symbol :: "string \<Rightarrow> string \<Rightarrow> bool" where
  "is_bot_symbol own s \<longleftrightarrow>
     (let sym = strip s
      in s \<noteq> [] \<and> sym \<noteq> [] \<and>
         (sym = own \<or> (normalize_symbol_key sym \<noteq> [] \<and> normalize_symbol_key sym = normalize_symbol_key own)))"

definition owns_order :: "int \<Rightarrow> string \<Rightarrow> raw_order \<Rightarrow> bool" where
  "owns_order magic own r \<longleftrightarrow> ro_magic r = magic \<and> is_bot_symbol own (ro_symbol r)"

definition pending_of_raw :: "raw_order \<Rightarrow> pending_order" where
  "pending_of_raw r = \<lparr>pd_ticket = Some (ro_ticket r), pd_order_id = None, pd_type = Some (PT_Code (ro_type r)),
     pd_order_type = None, pd_symbol = Some (ro_symbol r), pd_price_open = Some (ro_price r), pd_price = None,
     pd_magic = Some (ro_magic r), pd_magic_number = None, pd_volume = Some (ro_volume r),
     pd_sl = Some (ro_sl r), pd_stop_loss = None, pd_tp = Some (ro_tp r), pd_take_profit = None\<rparr>"

definition native_pending_orders :: "int \<Rightarrow> string \<Rightarrow> raw_order list option \<Rightarrow> pending_order list option" where
  "native_pending_orders magic own rows = map_option (\<lambda>rs. map pending_of_raw (filter (owns_order magic own) rs)) rows"

lemma type_of_raw [simp]: "type_of (pending_of_raw r) = Some (PT_Code (ro_type r))"
  by (simp add: type_of_def pending_of_raw_def)

lemma coded_word:
  assumes "c \<notin> set numerals"
  shows "\<not> str_in (c # s) (upper (type_text_or_empty (Some (PT_Code n))))"
  using code_is_no_word [OF assms] by (simp add: type_text_or_empty_def upper_def)

lemma sell_no_numeral: "CHR ''S'' \<notin> set numerals"
  by (simp add: numerals_def)

lemma coded_opposes_nothing: "type_of p = Some (PT_Code n) \<Longrightarrow> \<not> opposing_limit pos p"
  by (simp add: opposing_limit_def Let_def coded_word [OF buy_no_numeral] coded_word [OF sell_no_numeral])

lemma coded_distance: "type_of p = Some (PT_Code n) \<Longrightarrow> market_distance tick p = fabs64 (t_bid tick - open_price_of p)"
  by (simp add: market_distance_def coded_word [OF buy_no_numeral])

lemma knife_one_coded: "type_of p = Some (PT_Code n) \<Longrightarrow> knife_one E symbol pos A p m = m"
  by (simp add: knife_one_def coded_opposes_nothing split: option.splits)

lemma fold_idle: "(\<And>x. x \<in> set xs \<Longrightarrow> f x s = s) \<Longrightarrow> fold f xs s = s"
  by (induction xs) auto

lemma answered_native:
  "p \<in> set (answered (Some (ret (native_pending_orders magic own rows)))) \<Longrightarrow> \<exists>r. p = pending_of_raw r"
  by (auto simp: answered_def native_pending_orders_def ret_def split: option.splits)

lemma knife_pairs_snd: "(pos, p) \<in> set (knife_pairs positions atr ps) \<Longrightarrow> p \<in> set ps"
  by (auto simp: knife_pairs_def)

text \<open>C12: with the native adapter, whose pending orders carry the numeric order type of the terminal, the
  falling-knife protection never cancels anything, whatever is pending and however large the profit; the
  distance of every pending order, buys included, is measured from the bid; and every pending order is
  published as a sell.\<close>

theorem numeric_types_disarm_protection:
  "evaluate_falling_knife_protection E symbol positions atr can
     (Some (ret (native_pending_orders magic own rows))) answers m = m
   \<and> list_all (\<lambda>p. market_distance tick p = fabs64 (t_bid tick - open_price_of p) \<and> pending_direction p = ''SELL'')
        (answered (Some (ret (native_pending_orders magic own rows))))"
proof (intro conjI)
  let ?q = "Some (ret (native_pending_orders magic own rows))"
  show "evaluate_falling_knife_protection E symbol positions atr can ?q answers m = m"
    unfolding evaluate_falling_knife_protection_def
    by (auto intro!: fold_idle
             dest!: in_set_enumerate_eq [THEN iffD1] nth_mem knife_pairs_snd answered_native
             simp: knife_one_coded split: prod.splits)
  show "list_all (\<lambda>p. market_distance tick p = fabs64 (t_bid tick - open_price_of p) \<and> pending_direction p = ''SELL'')
      (answered ?q)"
    unfolding list_all_iff using answered_native coded_distance coded_direction by fastforce
qed

section \<open>The locks\<close>

text \<open>What the pass may cancel, with the thresholds that \<^verbatim>\<open>manage_pending_orders\<close> derives from the ATR and the
  placement stamps \<open>placed\<close> from before the pass.\<close>

definition cancellable :: "tick_data \<Rightarrow> f64 \<Rightarrow> f64 \<Rightarrow> (int \<Rightarrow> py_datetime option) \<Rightarrow> pending_order \<Rightarrow> bool" where
  "cancellable tick atr mult placed p \<longleftrightarrow>
     (\<exists>t t0. ticket_of p = Some t \<and> placed t = Some t0
        \<and> Fin 30 < total_seconds (instant (t_timestamp tick) - instant t0)
        \<and> \<not> market_distance tick p < round_nd 2 (atr * 1)
        \<and> (round_nd 2 (atr * mult) < market_distance tick p
             \<or> Fin 120 < total_seconds (instant (t_timestamp tick) - instant t0)))"

definition touched :: "manager \<Rightarrow> cache \<times> (int \<times> string \<times> string) list \<times> ledger \<times> (int \<Rightarrow> string option)" where
  "touched m = (om_cache m, om_orders m, om_ledger m, pl_cancel_reasons (om_life m))"

definition stamps_from :: "py_datetime \<Rightarrow> (int \<Rightarrow> py_datetime option) \<Rightarrow> manager \<Rightarrow> bool" where
  "stamps_from now placed m \<longleftrightarrow> (\<forall>t. pl_setup_time (om_life m) t \<in> {placed t, None, Some now})"

lemma age_of_now: "total_seconds (instant now - instant now) \<le> Fin 30"
  by simp

lemma manage_one_locked:
  assumes "stamps_from (t_timestamp tick) placed m"
    and "\<not> cancellable tick atr mult placed p"
  shows "touched (manage_one E symbol tick (round_nd 2 (atr * 1)) (round_nd 2 (atr * mult)) A p m) = touched m"
proof (rule ccontr)
  let ?now = "t_timestamp tick" and ?gap = "market_distance tick p"
  assume t': "touched (manage_one E symbol tick (round_nd 2 (atr * 1)) (round_nd 2 (atr * mult)) A p m) \<noteq> touched m"
  then obtain t where t: "ticket_of p = Some t" by (auto simp: manage_one_def split: option.splits)
  define t0 where "t0 = getd (pl_setup_time (om_life m) t) ?now"
  let ?age = "total_seconds (instant ?now - instant t0)"
  have age: "\<not> ?age \<le> Fin 30" "\<not> ?gap < round_nd 2 (atr * 1)" "stale_reason ?gap (round_nd 2 (atr * mult)) ?age \<noteq> None"
    using t' by (auto simp: manage_one_def t t0_def Let_def getd_def touched_def split: option.splits if_splits)
  have "t0 \<noteq> ?now" using age(1) age_of_now [of ?now] by auto
  then have "placed t = Some t0"
    using assms(1) by (cases "pl_setup_time (om_life m) t") (auto simp: t0_def stamps_from_def dest: spec [of _ t])
  moreover have "Fin 30 < ?age" using age(1) total_seconds_not_NaN by (cases ?age) (auto simp: not_le)
  ultimately have "cancellable tick atr mult placed p"
    using t age by (auto simp: cancellable_def stale_reason_def split: if_splits)
  then show False using assms(2) by simp
qed

lemma cancel_stamps:
  "cancel_pending_order_verified E t symbol tm A m = (b, m') \<Longrightarrow>
   om_orders m' = om_orders m \<and> pl_setup_time (om_life m') \<in> {pl_setup_time (om_life m), (pl_setup_time (om_life m))(t := None)}"
  by (auto simp: cancel_pending_order_verified_def Let_def split: option.splits broker_state.splits if_splits)

lemma stamps_step:
  assumes "stamps_from now placed m"
    and "pl_setup_time (om_life m') \<in> {f, f(t := None)}"
    and "f \<in> {pl_setup_time (om_life m), (pl_setup_time (om_life m))(t \<mapsto> now)}"
  shows "stamps_from now placed m'"
  unfolding stamps_from_def
proof
  fix u
  have "pl_setup_time (om_life m') u \<in> {pl_setup_time (om_life m) u, None, Some now}"
    using assms(2,3) by auto
  moreover have "pl_setup_time (om_life m) u \<in> {placed u, None, Some now}"
    using assms(1) by (simp add: stamps_from_def)
  ultimately show "pl_setup_time (om_life m') u \<in> {placed u, None, Some now}" by auto
qed

lemma manage_one_row:
  assumes "stamps_from (t_timestamp tick) placed m"
  shows "stamps_from (t_timestamp tick) placed (manage_one E symbol tick rd md A p m) \<and>
    (\<exists>rows. om_orders (manage_one E symbol tick rd md A p m) = om_orders m @ rows
       \<and> list_all (\<lambda>(t, _). ticket_of p = Some t) rows)"
proof (cases "ticket_of p")
  case None
  then show ?thesis using assms by (simp add: manage_one_def)
next
  case (Some t)
  define life where "life = (if pl_setup_time (om_life m) t = None
      then (om_life m)\<lparr>pl_setup_time := (pl_setup_time (om_life m))(t \<mapsto> t_timestamp tick)\<rparr> else om_life m)"
  define n where "n = m\<lparr>om_life := life\<rparr>"
  have life: "pl_setup_time life \<in> {pl_setup_time (om_life m), (pl_setup_time (om_life m))(t \<mapsto> t_timestamp tick)}"
    by (simp add: life_def)
  have keep: ?thesis if "manage_one E symbol tick rd md A p m = r" "om_orders r = om_orders m @ rows"
    "list_all (\<lambda>(t', _). t' = t) rows" "pl_setup_time (om_life r) \<in> {pl_setup_time life, (pl_setup_time life)(t := None)}" for r rows
  proof -
    have "stamps_from (t_timestamp tick) placed r" by (rule stamps_step [OF assms that(4) life])
    moreover have "list_all (\<lambda>(t, _). ticket_of p = Some t) rows" using that(3) Some by (auto simp: list_all_iff)
    ultimately show ?thesis using that(1,2) by blast
  qed
  define age where "age = (case pl_setup_time life t of Some t0 \<Rightarrow> total_seconds (instant (t_timestamp tick) - instant t0) | None \<Rightarrow> 0)"
  note one = manage_one_def Some option.case Let_def life_def [symmetric] age_def [symmetric] n_def [symmetric]
  show ?thesis
  proof (cases "t = 0 \<or> open_price_of p \<le> 0")
    case True
    then show ?thesis using assms by (simp add: manage_one_def Some)
  next
    case open_order: False
    show ?thesis
    proof (cases "age \<le> PENDING_ORDER_LOCK_SECONDS \<or> market_distance tick p < rd
        \<or> stale_reason (market_distance tick p) md age = None")
      case True
      have "manage_one E symbol tick rd md A p m = n"
        unfolding one using True open_order by (auto simp del: One_nat_def)
      then show ?thesis by (rule keep [where rows = "[]"]) (simp_all add: n_def)
    next
      case False
      then obtain reason where r: "stale_reason (market_distance tick p) md age = Some reason" by blast
      obtain b k where c: "cancel_pending_order_verified E t (Some symbol) (Some (t_timestamp tick)) A
          (n\<lparr>om_life := note_cancel_reason t reason life\<rparr>) = (b, k)" by fastforce
      have f: "om_orders k = om_orders m" "pl_setup_time (om_life k) \<in> {pl_setup_time life, (pl_setup_time life)(t := None)}"
        using cancel_stamps [OF c] by (auto simp: n_def note_cancel_reason_def)
      define new where "new = (if b then [(t, if str_in ''AGE'' reason then ''Expired pending order'' else ''Cancelled order'', reason)] else [])"
      have "manage_one E symbol tick rd md A p m = (if b then k\<lparr>om_orders := om_orders k @ new\<rparr> else k)"
        unfolding one using False open_order r c by (cases b) (simp_all add: new_def)
      then show ?thesis by (rule keep [where rows = new]) (use f in \<open>auto simp: new_def\<close>)
    qed
  qed
qed

text \<open>C11: the churn lock of a whole pass. Whatever the broker lists and answers, the pass sends no request,
  writes no audit row and changes neither the cache, the recorded reasons nor the ledger (the reason of a
  cancellation is recorded before its request) unless some listed order was known before the pass for
  more than 30 seconds, lies at least the rounded ATR away from the market, and lies beyond the rounded
  multiple of the ATR or is older than 120 seconds. And the audit rows it appends all belong to such orders.\<close>

theorem pass_respects_lock:
  assumes "m' = manage_pending_orders E symbol tick atr mult q answers m"
    and "placed = pl_setup_time (om_life m)"
  shows "(touched m' = touched m \<or> list_ex (cancellable tick atr mult placed) (answered q))
    \<and> (\<exists>rows. om_orders m' = om_orders m @ rows
          \<and> list_all (\<lambda>(t, _). list_ex (\<lambda>p. ticket_of p = Some t \<and> cancellable tick atr mult placed p) (answered q)) rows)"
proof -
  let ?one = "\<lambda>k. manage_one E symbol tick (round_nd 2 (atr * 1)) (round_nd 2 (atr * mult)) (answers k)"
  let ?C = "cancellable tick atr mult placed" and ?ps = "answered q"
  let ?I = "\<lambda>m'. stamps_from (t_timestamp tick) placed m' \<and> (touched m' = touched m \<or> list_ex ?C ?ps)
    \<and> (\<exists>rows. om_orders m' = om_orders m @ rows \<and> list_all (\<lambda>(t, _). list_ex (\<lambda>p. ticket_of p = Some t \<and> ?C p) ?ps) rows)"
  have step: "?I (?one k p n)" if n: "?I n" and p: "p \<in> set ?ps" for k p n
  proof -
    obtain rows where rows: "om_orders n = om_orders m @ rows"
      "list_all (\<lambda>(t, _). list_ex (\<lambda>p. ticket_of p = Some t \<and> ?C p) ?ps) rows" using n by blast
    note one = manage_one_row [OF conjunct1 [OF n], of E symbol _ _ "answers k" p]
    show ?thesis
    proof (cases "?C p")
      case True
      then have "list_ex ?C ?ps" using p by (auto simp: list_ex_iff)
      obtain new where new: "om_orders (?one k p n) = om_orders n @ new" "list_all (\<lambda>(t, _). ticket_of p = Some t) new"
        using one by blast
      have "list_all (\<lambda>(t, _). list_ex (\<lambda>p. ticket_of p = Some t \<and> ?C p) ?ps) new"
        using new(2) True p by (auto simp: list_all_iff list_ex_iff)
      then show ?thesis using one rows new(1) \<open>list_ex ?C ?ps\<close> by auto
    next
      case False
      note same = manage_one_locked [OF conjunct1 [OF n] False, of E symbol "answers k"]
      then have "om_orders (?one k p n) = om_orders n" by (simp add: touched_def)
      then show ?thesis using one rows same n by auto
    qed
  qed
  have "?I (fold (\<lambda>(k, p). ?one k p) xs n)" if "snd ` set xs \<subseteq> set ?ps" "?I n" for xs n
    using that
  proof (induction xs arbitrary: n)
    case (Cons x xs)
    obtain k p where x: "x = (k, p)" by fastforce
    have "?I (?one k p n)" by (rule step) (use Cons.prems x in auto)
    then show ?case using Cons.IH [of "?one k p n"] Cons.prems(1) x by simp
  qed simp
  moreover have "snd ` set (enumerate 0 ?ps) \<subseteq> set ?ps" using in_set_enumerate_eq nth_mem by (force simp: in_set_enumerate_eq)
  moreover have "?I m" by (simp add: stamps_from_def assms(2))
  ultimately show ?thesis unfolding assms(1) manage_pending_orders_def by blast
qed

section \<open>The registry of contexts\<close>

definition paired :: "pending_life \<Rightarrow> bool" where
  "paired pl \<longleftrightarrow> distinct (map fst (pl_registry pl)) \<and> distinct (map fst (pl_context_ts pl))
     \<and> set (map fst (pl_registry pl)) = set (map fst (pl_context_ts pl))"

definition contexts_ok :: "pending_life \<Rightarrow> bool" where
  "contexts_ok pl \<longleftrightarrow> paired pl \<and> length (pl_registry pl) \<le> CONTEXT_MAX_ENTRIES"

lemma map_fst_filter: "map fst (filter (\<lambda>(k, _). P k) xs) = filter P (map fst xs)"
  by (induction xs) auto

lemma drop_contexts_keys:
  "map fst (pl_registry (drop_contexts ks pl)) = filter (\<lambda>k. k \<notin> set ks) (map fst (pl_registry pl))"
  "map fst (pl_context_ts (drop_contexts ks pl)) = filter (\<lambda>k. k \<notin> set ks) (map fst (pl_context_ts pl))"
  by (simp_all add: drop_contexts_def map_fst_filter)

lemma paired_drop: "paired pl \<Longrightarrow> paired (drop_contexts ks pl)"
  unfolding paired_def drop_contexts_keys by (simp add: distinct_filter del: set_map)

lemma length_drop:
  assumes "distinct xs" and "distinct ks" and "set ks \<subseteq> set xs"
  shows "length (filter (\<lambda>k. k \<notin> set ks) xs) = length xs - length ks"
proof -
  have "length (filter (\<lambda>k. k \<notin> set ks) xs) = card (set (filter (\<lambda>k. k \<notin> set ks) xs))"
    by (rule distinct_card [OF distinct_filter [OF assms(1)], symmetric])
  also have "set (filter (\<lambda>k. k \<notin> set ks) xs) = set xs - set ks" by auto
  also have "card \<dots> = length xs - length ks"
    using assms by (simp add: card_Diff_subset distinct_card)
  finally show ?thesis .
qed

lemma length_drop_contexts:
  assumes "paired pl" and "distinct ks" and "set ks \<subseteq> set (map fst (pl_registry pl))"
  shows "length (pl_registry (drop_contexts ks pl)) = length (pl_registry pl) - length ks"
proof -
  have "length (pl_registry (drop_contexts ks pl)) = length (map fst (pl_registry (drop_contexts ks pl)))" by simp
  also have "\<dots> = length (map fst (pl_registry pl)) - length ks"
    unfolding drop_contexts_keys using assms by (intro length_drop) (simp_all add: paired_def)
  finally show ?thesis by simp
qed

lemma paired_length: "paired pl \<Longrightarrow> length (pl_registry pl) = length (pl_context_ts pl)"
  by (metis distinct_card length_map paired_def)

lemma distinct_oldest: "distinct (map fst xs) \<Longrightarrow> distinct (map fst (take i (sort_key f xs)))"
  by (metis distinct_map distinct_sort distinct_take set_sort take_map)

lemma oldest_subset: "set (map fst (take i (sort_key f xs))) \<subseteq> set (map fst xs)"
  by (metis image_mono set_map set_sort set_take_subset)

lemma sweep_ok:
  assumes "paired pl"
  shows "contexts_ok (sweep_stale now pl)"
proof -
  define p where "p = drop_contexts (map fst (filter (\<lambda>(k, ts). CONTEXT_TTL_SEC < now - ts) (pl_context_ts pl))) pl"
  define n where "n = length (pl_registry p) - CONTEXT_MAX_ENTRIES"
  define ks where "ks = map fst (take n (sort_key (\<lambda>(k, ts). reading ts) (pl_context_ts p)))"
  have p: "paired p" unfolding p_def by (rule paired_drop [OF assms])
  have sweep: "sweep_stale now pl = (if CONTEXT_MAX_ENTRIES < length (pl_registry p) then drop_contexts ks p else p)"
    by (simp add: sweep_stale_def Let_def p_def ks_def n_def)
  have "distinct ks" unfolding ks_def using p by (intro distinct_oldest) (simp add: paired_def)
  moreover have "set ks \<subseteq> set (map fst (pl_registry p))"
    unfolding ks_def using p oldest_subset by (metis paired_def)
  moreover have "length ks = n" using paired_length [OF p] by (simp add: ks_def n_def)
  ultimately have "length (pl_registry (drop_contexts ks p)) = length (pl_registry p) - n"
    using length_drop_contexts [OF p] by simp
  then show ?thesis
    using p paired_drop [OF p, of ks] unfolding sweep contexts_ok_def n_def by auto
qed

lemma paired_register:
  "paired pl \<Longrightarrow> paired (pl\<lparr>pl_registry := AList.update k c (pl_registry pl), pl_context_ts := AList.update k x (pl_context_ts pl)\<rparr>)"
  by (simp add: paired_def distinct_update dom_update)

lemma register_ok: "contexts_ok pl \<Longrightarrow> contexts_ok (register_entry_context c stamp now pl)"
  unfolding register_entry_context_def by (intro sweep_ok paired_register) (simp add: contexts_ok_def)

lemma drop_ok: "contexts_ok pl \<Longrightarrow> contexts_ok (drop_contexts ks pl)"
proof -
  assume "contexts_ok pl"
  moreover have "length (pl_registry (drop_contexts ks pl)) \<le> length (pl_registry pl)"
    by (simp add: drop_contexts_def)
  ultimately show ?thesis using paired_drop [of pl ks] by (simp add: contexts_ok_def)
qed

lemma prune_ok: "contexts_ok pl \<Longrightarrow> contexts_ok (prune_bound_context oid live pl)"
  by (simp add: prune_bound_context_def drop_ok)

lemma contexts_ok_edit [simp]:
  "contexts_ok (pl\<lparr>pl_setup_time := x\<rparr>) = contexts_ok pl"
  "contexts_ok (pl\<lparr>pl_cancel_reasons := r\<rparr>) = contexts_ok pl"
  "contexts_ok (pl\<lparr>pl_mod_price := y, pl_mod_time := z\<rparr>) = contexts_ok pl"
  by (simp_all add: contexts_ok_def paired_def)

interpretation bounded_contexts: pending_frame "\<lambda>m. contexts_ok (om_life m)"
  by unfold_locales (auto simp: register_ok prune_ok emit_terminal_for_pending_def Let_def split: prod.splits)

text \<open>the registry of entry contexts is bounded: from a new order manager, after any run of the operations,
  at most 64 contexts are staged, no order id twice, and every context has its clock reading.\<close>

theorem staged_contexts_bounded:
  "let pl = om_life (run (pending_step E) (m\<lparr>om_life := mk_pending_life\<rparr>) ops)
   in length (pl_registry pl) \<le> 64 \<and> distinct (map fst (pl_registry pl))
      \<and> fst ` set (pl_registry pl) = fst ` set (pl_context_ts pl)"
proof -
  have "contexts_ok (om_life (run (pending_step E) (m\<lparr>om_life := mk_pending_life\<rparr>) ops))"
    by (rule bounded_contexts.run) (simp add: contexts_ok_def paired_def mk_pending_life_def)
  then show ?thesis by (simp add: contexts_ok_def paired_def Let_def)
qed

section \<open>Re-quotes\<close>

text \<open>The accepted re-quotes of a run of requests, each a ticket, a price, an ATR and a time.\<close>

type_synonym quote = "int \<times> f64 \<times> f64 \<times> py_datetime"

fun quote_step :: "pending_life \<times> quote list \<Rightarrow> quote \<Rightarrow> pending_life \<times> quote list" where
  "quote_step (pl, xs) (t, price, atr, now) =
     (case should_modify_pending_order t price atr now pl of (ok, pl) \<Rightarrow> (pl, if ok then xs @ [(t, price, atr, now)] else xs))"

definition apart :: "quote \<Rightarrow> quote \<Rightarrow> bool" where
  "apart q r = (case (q, r) of ((_, p1, _, n1), (_, p2, a2, n2)) \<Rightarrow>
     Fin 30 < total_seconds (instant n2 - instant n1) \<and> \<not> fabs64 (p2 - p1) < 1 * a2)"

definition quotes_of :: "int \<Rightarrow> quote list \<Rightarrow> quote list" where
  "quotes_of t xs = filter (\<lambda>(u, _). u = t) xs"

definition quotes_ok :: "pending_life \<times> quote list \<Rightarrow> bool" where
  "quotes_ok s = (case s of (pl, xs) \<Rightarrow> \<forall>t.
     successively apart (quotes_of t xs) \<and>
     (quotes_of t xs \<noteq> [] \<longrightarrow>
        pl_mod_price pl t = Some (fst (snd (last (quotes_of t xs)))) \<and>
        pl_mod_time pl t = Some (snd (snd (snd (last (quotes_of t xs)))))))"

lemma quotes_of_snoc: "quotes_of t (xs @ [(u, r)]) = quotes_of t xs @ (if u = t then [(u, r)] else [])"
  by (simp add: quotes_of_def)

lemma lock_seconds: "\<not> total_seconds d \<le> Fin 30 \<Longrightarrow> Fin 30 < total_seconds d"
  using f64_not_le [of "total_seconds d" "Fin 30"] by simp

lemma accepted_apart:
  assumes "should_modify_pending_order t price atr now pl = (True, pl')"
    and "pl_mod_price pl t = Some p0" and "pl_mod_time pl t = Some n0"
  shows "apart (u, p0, a0, n0) (t, price, atr, now)"
  using assms by (auto simp: should_modify_pending_order_def apart_def Let_def lock_seconds split: if_splits)

lemma accepted_stored:
  "should_modify_pending_order t price atr now pl = (True, pl') \<Longrightarrow>
     pl' = pl\<lparr>pl_mod_price := (pl_mod_price pl)(t \<mapsto> price), pl_mod_time := (pl_mod_time pl)(t \<mapsto> now)\<rparr>"
  "should_modify_pending_order t price atr now pl = (False, pl') \<Longrightarrow> pl' = pl"
  by (auto simp: should_modify_pending_order_def Let_def split: option.splits if_splits)

lemma quotes_step: "quotes_ok s \<Longrightarrow> quotes_ok (quote_step s q)"
proof -
  assume ok: "quotes_ok s"
  obtain pl xs where s: "s = (pl, xs)" by fastforce
  obtain t price atr now where q: "q = (t, price, atr, now)" by (metis prod_cases4)
  obtain b pl' where x: "should_modify_pending_order t price atr now pl = (b, pl')" by fastforce
  show ?thesis
  proof (cases b)
    case False
    then have "pl' = pl" using x accepted_stored(2) by simp
    then show ?thesis using ok x False by (simp add: s q)
  next
    case True
    let ?new = "(t, price, atr, now)"
    have pl': "pl' = pl\<lparr>pl_mod_price := (pl_mod_price pl)(t \<mapsto> price), pl_mod_time := (pl_mod_time pl)(t \<mapsto> now)\<rparr>"
      using x True accepted_stored(1) by simp
    have "successively apart (quotes_of t xs @ [?new])"
    proof (cases "quotes_of t xs = []")
      case False
      obtain u p0 a0 n0 where l: "last (quotes_of t xs) = (u, p0, a0, n0)" by (metis prod_cases4)
      then have "pl_mod_price pl t = Some p0" "pl_mod_time pl t = Some n0"
        using ok False by (auto simp: s quotes_ok_def)
      then have "apart (last (quotes_of t xs)) ?new"
        using accepted_apart x True l by metis
      then show ?thesis using ok by (auto simp: successively_append_iff s quotes_ok_def)
    qed simp
    then show ?thesis
      using ok x True by (auto simp: s q quotes_ok_def quotes_of_snoc pl')
  qed
qed

interpretation quotes: step_invariant quote_step "(mk_pending_life, [])" quotes_ok
  by unfold_locales (simp add: quotes_ok_def quotes_of_def, rule quotes_step)

text \<open>no churn: of the re-quotes that are accepted for one ticket in any run of requests, each is more than
  30 seconds after the one before and not less than one ATR away from its price, whatever was asked in
  between and for whichever tickets.\<close>

theorem accepted_requotes_spaced:
  "successively apart (quotes_of t (snd (run quote_step (mk_pending_life, []) qs)))"
  using quotes.inv_run [of qs] by (auto simp: quotes_ok_def split: prod.splits)

section \<open>Binding\<close>

lemma bind_order_id:
  assumes "resolve_context oid live pl = Some c" and "sc_order_id c \<noteq> []"
  shows "dv_get entry_order_ids t d (snd (bind_pending_entry_context t oid live now pl S)) = sc_order_id c"
  using assms
  by (auto simp: bind_pending_entry_context_def bind_fields_def Let_def str_or_def dv_get_def dv_lookup_def
      st_peek_set dv_present_def state_or_fresh_def field_defs setup_snapshots_def)

lemma fresh_stamp: "Fin s - Fin s = Fin 0" for s :: rat
  by (simp add: minus_f64_def)

lemma register_first:
  "register_entry_context c (Fin s) (Fin s) mk_pending_life =
     mk_pending_life\<lparr>pl_registry := [(sc_order_id c, c)], pl_context_ts := [(sc_order_id c, Fin s)]\<rparr>"
  by (simp add: register_entry_context_def sweep_stale_def drop_contexts_def mk_pending_life_def fresh_stamp)

text \<open>a staged context never expires by itself: the limit of 3600 seconds is applied only when another
  context is staged, so a ticket that appears at any later time, such as a hedge that was sent without a
  context, takes the order id of the last staged order.\<close>

theorem late_ticket_takes_old_context:
  assumes "sc_order_id c \<noteq> []"
  shows "dv_get entry_order_ids t None
     (snd (bind_pending_entry_context t [] live now (register_entry_context c (Fin s) (Fin s) mk_pending_life) S)) = sc_order_id c"
proof -
  let ?pl = "register_entry_context c (Fin s) (Fin s) mk_pending_life"
  have "pl_families ?pl = (\<lambda>_. None)"
    by (simp add: register_first) (simp add: mk_pending_life_def)
  then have "open_family live ?pl = None"
    by (simp add: open_family_def family_live_def family_of_def)
  moreover have "newest_first (pl_context_ts ?pl) = [sc_order_id c]"
    by (simp add: register_first newest_first_def)
  ultimately have "resolve_context [] live ?pl = Some c"
    using assms by (simp add: resolve_context_def register_first)
  then show ?thesis by (rule bind_order_id [OF _ assms])
qed

definition sample_context :: staged_context where
  "sample_context = \<lparr>sc_order_id = ''req-1'', sc_reason = ''PURE_AI'', sc_confidence = 1, sc_regime = [],
     sc_expected = 1, sc_dispatched = 1, sc_setup = []\<rparr>"

lemma late_ticket_takes_old_context_witness:
  "dv_get entry_order_ids 42 None
     (snd (bind_pending_entry_context 42 [] [] (Fin 999999)
        (register_entry_context sample_context (Fin 1) (Fin 1) mk_pending_life) [])) = ''req-1''"
  using late_ticket_takes_old_context [of sample_context 42 "[]" "Fin 999999" 1 "[]"] by (simp add: sample_context_def)

section \<open>Reconciliation by count\<close>

text \<open>reconciliation compares two numbers: when the broker lists as many pending orders as the cache holds,
  nothing is repaired, even if not one ticket is the same.\<close>

theorem equal_counts_hide_mismatch:
  assumes "length ps = internal_pendings (om_cache m)"
  shows "reconcile_pending_state E symbol (Some (ret (Some ps))) B m =
     (\<lparr>rr_internal = length ps, rr_broker = length ps, rr_mismatch = False, rr_repaired = False,
       rr_broker_error = False\<rparr>, m)"
  using assms by (simp add: reconcile_pending_state_def broker_pendings_def ret_def Let_def)

lemma equal_counts_hide_mismatch_witness:
  "snd (reconcile_pending_state \<lparr>sr_engine = True, sr_flush = 0, sr_wall = utc 0\<rparr> None (Some (ret (Some [])))
     \<lparr>ls_positions = ret None, ls_pendings = None\<rparr> sample_manager) = sample_manager"
  using equal_counts_hide_mismatch [of "[]" sample_manager]
  by (simp add: sample_manager_def internal_pendings_def)

definition sample_raw :: raw_order where
  "sample_raw = \<lparr>ro_ticket = 7, ro_symbol = ''X'', ro_type = 2, ro_volume = 1, ro_price = Fin 90,
     ro_sl = 0, ro_tp = 0, ro_magic = 1\<rparr>"

definition later_tick :: tick_data where
  "later_tick = \<lparr>t_symbol = ''X'', t_timestamp = utc 200000000, t_bid = Fin 100, t_ask = Fin 101, t_last = Fin 100,
     t_volume = 1, t_flags = 0\<rparr>"

definition waiting_manager :: manager where
  "waiting_manager = sample_manager\<lparr>om_life := mk_pending_life\<lparr>pl_setup_time := [7 \<mapsto> utc 0]\<rparr>\<rparr>"

definition gone_answers :: cancel_answers where
  "gone_answers = \<lparr>ca_cancel = Some (ret True), ca_pendings = Some (ret (Some [])), ca_history = None,
     ca_refresh = \<lparr>ls_positions = ret None, ls_pendings = None\<rparr>\<rparr>"

lemma pass_respects_lock_witness:
  "\<exists>rows. om_orders (manage_pending_orders \<lparr>sr_engine = False, sr_flush = 0, sr_wall = utc 0\<rparr> ''X'' later_tick (Fin 1) (Fin 2)
        (Some (ret (Some [pending_of_raw sample_raw]))) (\<lambda>_. gone_answers) waiting_manager) = rows
     \<and> rows \<noteq> [] \<and> list_all (\<lambda>(t, _). t = 7) rows"
proof -
  let ?m = "manage_pending_orders \<lparr>sr_engine = False, sr_flush = 0, sr_wall = utc 0\<rparr> ''X'' later_tick (Fin 1) (Fin 2)
        (Some (ret (Some [pending_of_raw sample_raw]))) (\<lambda>_. gone_answers) waiting_manager"
  have "om_orders waiting_manager = []" "om_orders ?m \<noteq> []" "ticket_of (pending_of_raw sample_raw) = Some 7"
    by code_simp+
  then show ?thesis
    using pass_respects_lock [OF refl refl, of "\<lparr>sr_engine = False, sr_flush = 0, sr_wall = utc 0\<rparr>" "''X''" later_tick "Fin 1" "Fin 2"
        "Some (ret (Some [pending_of_raw sample_raw]))" "\<lambda>_. gone_answers" waiting_manager]
    by (auto simp: answered_def ret_def list_all_iff)
qed

end
