(* ===== verification/DispatchEngine.thy ===== *)
theory DispatchEngine
  imports RiskEngine BoundedMap ServerClock PendingOrders
begin

text \<open>
  \<^verbatim>\<open>execution/lifecycle/dispatch.py\<close>: the last code before the broker. The two ways an order is sent,
  with every gate in the code's order, the volume clamp, the duplicate guard, the breaker that sets
  the safe mode, and the bookkeeping after the broker's answer. The state is that of the order
  manager the engine writes through; every order the broker receives is appended to a list.
\<close>

section \<open>State\<close>

record broker_call =
  bc_request :: string
  bc_pending :: bool
  bc_type :: order_type
  bc_symbol :: string
  bc_volume :: f64
  bc_price :: f64
  bc_stop_loss :: f64
  bc_take_profit :: f64

record dispatch_state =
  ds_manager :: manager
  ds_processed :: "(string, bool) lru"
  ds_failures :: int
  ds_safe_mode :: bool
  ds_sent :: "broker_call list"
  ds_executions :: "(string \<times> string) list"

text \<open>
  What the engine reads: the risk engine, the verdict of the safety-state provider, the broker's
  symbol and account, its answer to the order, the broker clock's offset and the clocks.
\<close>

record gates =
  dg_risk :: "risk_engine option"
  dg_provider :: "bool res option"
  dg_symbol :: "symbol_info option res"
  dg_account :: "account_info option res"
  dg_answer :: "int res"
  dg_offset :: int
  dg_clock :: f64
  dg_world :: surroundings

abbreviation HARD_MAX_LOTS :: f64 where "HARD_MAX_LOTS \<equiv> Fin 10"
abbreviation PROCESSED_ORDERS_GUARD_MAX :: int where "PROCESSED_ORDERS_GUARD_MAX \<equiv> 50000"

definition mk_dispatch :: "manager \<Rightarrow> dispatch_state" where
  "mk_dispatch m = \<lparr>ds_manager = m,
     ds_processed = \<lparr>lr_data = [], lr_max = nat PROCESSED_ORDERS_GUARD_MAX, lr_evictions = 0\<rparr>,
     ds_failures = 0, ds_safe_mode = False, ds_sent = [], ds_executions = []\<rparr>"

section \<open>Gates\<close>

definition killed :: "gates \<Rightarrow> bool" where
  "killed G \<longleftrightarrow> (case dg_risk G of None \<Rightarrow> False | Some e \<Rightarrow> kill_switch_active e)"

text \<open>\<^verbatim>\<open>_trading_blocked_by_safety_state\<close>: a provider that raises blocks.\<close>

definition trading_blocked :: "gates \<Rightarrow> bool" where
  "trading_blocked G \<longleftrightarrow> (case dg_provider G of None \<Rightarrow> False | Some (Inr b) \<Rightarrow> b | Some (Inl _) \<Rightarrow> True)"

definition is_directional_entry :: "action_type \<Rightarrow> bool" where
  "is_directional_entry a \<longleftrightarrow> prefix_of ''BUY'' (upper (action_value a)) \<or> prefix_of ''SELL'' (upper (action_value a))"

definition clamp_dispatch_volume :: "gates \<Rightarrow> f64 \<Rightarrow> string \<Rightarrow> f64" where
  "clamp_dispatch_volume G volume symbol =
     (if \<not> isfinite volume \<or> volume \<le> 0 then 0
      else
        let si = (if symbol = [] then None else case dg_symbol G of Inr s \<Rightarrow> s | Inl _ \<Rightarrow> None);
            account = (case dg_account G of Inr a \<Rightarrow> a | Inl _ \<Rightarrow> None);
            vol = (case dg_risk G of None \<Rightarrow> volume | Some _ \<Rightarrow> get_clamped_position_size (Some volume) None account si)
        in if \<not> isfinite vol \<or> vol \<le> 0 then 0
           else
             let broker_max = (case si of None \<Rightarrow> 0 | Some s \<Rightarrow> si_volume_max s);
                 ceiling = (if 0 < broker_max then pmin HARD_MAX_LOTS broker_max else HARD_MAX_LOTS)
             in round_nd 2 (pmin vol ceiling))"

section \<open>Entry reasons and outcomes\<close>

text \<open>The decision, with the two text fields of the proposal that only the dispatch reads.\<close>

record decision =
  dc_proposal :: trade_proposal
  dc_mode :: string
  dc_regime :: string

definition resolve_entry_reason :: "decision \<Rightarrow> string" where
  "resolve_entry_reason d =
     (let reason = p_reason_code (dc_proposal d)
      in if str_in ''SMC_GOD_MODE'' (dc_mode d) \<or> str_in ''SMC_GOD_MODE'' reason then ''SMC_GOD_MODE''
         else if str_in ''SWEEP'' (upper reason) \<or> str_in ''TICK_SWEEP'' (dc_mode d) then ''FAST_LIQUIDITY_SWEEP''
         else ''PURE_AI'')"

definition note_terminal :: "gates \<Rightarrow> decision \<Rightarrow> decision_lifecycle \<Rightarrow> string \<Rightarrow> dispatch_state \<Rightarrow> dispatch_state" where
  "note_terminal G d s detail st =
     (let m = ds_manager st; E = dg_world G;
          l = snd (emit_terminal (sr_flush E) (sr_engine E) (p_request_id (dc_proposal d)) s detail
                     (Some (p_generated_at (dc_proposal d))) (sr_wall E) [] (om_ledger m))
      in st\<lparr>ds_manager := m\<lparr>om_ledger := l\<rparr>\<rparr>)"

definition stage_context :: "gates \<Rightarrow> decision \<Rightarrow> (string \<times> string) list \<Rightarrow> dispatch_state \<Rightarrow> dispatch_state" where
  "stage_context G d setup st =
     (let p = dc_proposal d; m = ds_manager st;
          c = \<lparr>sc_order_id = p_request_id p, sc_reason = resolve_entry_reason d, sc_confidence = p_confidence p,
               sc_regime = dc_regime d, sc_expected = p_proposed_entry p, sc_dispatched = dg_clock G, sc_setup = setup\<rparr>
      in st\<lparr>ds_manager := m\<lparr>om_life := register_entry_context c (dg_clock G) (dg_clock G) (om_life m)\<rparr>\<rparr>)"

definition log_order :: "int \<Rightarrow> string \<Rightarrow> string \<Rightarrow> dispatch_state \<Rightarrow> dispatch_state" where
  "log_order t action reason st =
     st\<lparr>ds_manager := (ds_manager st)\<lparr>om_orders := om_orders (ds_manager st) @ [(t, action, reason)]\<rparr>\<rparr>"

definition log_execution :: "trade_order \<Rightarrow> bool \<Rightarrow> dispatch_state \<Rightarrow> dispatch_state" where
  "log_execution ord ok st =
     st\<lparr>ds_executions := ds_executions st @ [(o_id ord, if ok then ''FILLED'' else ''REJECTED'')]\<rparr>"

text \<open>The breaker: a success resets the count, the third refusal in a row sets the safe mode.\<close>

definition count_answer :: "bool \<Rightarrow> dispatch_state \<Rightarrow> dispatch_state" where
  "count_answer ok st =
     (if ok then st\<lparr>ds_failures := 0\<rparr>
      else let n = ds_failures st + 1 in st\<lparr>ds_failures := n, ds_safe_mode := ds_safe_mode st \<or> 3 \<le> n\<rparr>)"

definition mark_processed :: "string \<Rightarrow> bool \<Rightarrow> dispatch_state \<Rightarrow> dispatch_state" where
  "mark_processed k ok st = st\<lparr>ds_processed := lru_setitem k ok (ds_processed st)\<rparr>"

section \<open>The entry router\<close>

definition market_actions :: "action_type list" where
  "market_actions = [A_BUY, BUY_MARKET, A_SELL, SELL_MARKET]"

definition pending_actions :: "action_type list" where
  "pending_actions = [A_BUY_LIMIT, A_SELL_LIMIT, A_BUY_STOP, A_SELL_STOP]"

definition order_type_of :: "action_type \<Rightarrow> order_type" where
  "order_type_of a =
     (if a \<in> set market_actions then (if str_in ''BUY'' (action_value a) then BUY else SELL)
      else if a = A_BUY_LIMIT then BUY_LIMIT else if a = A_SELL_LIMIT then SELL_LIMIT
      else if a = A_BUY_STOP then BUY_STOP else SELL_STOP)"

definition entry_call :: "decision \<Rightarrow> f64 \<Rightarrow> broker_call" where
  "entry_call d v =
     (let p = dc_proposal d
      in \<lparr>bc_request = p_request_id p, bc_pending = (p_action p \<in> set pending_actions),
          bc_type = order_type_of (p_action p), bc_symbol = p_symbol p, bc_volume = v,
          bc_price = p_proposed_entry p, bc_stop_loss = p_stop_loss p, bc_take_profit = p_take_profit p\<rparr>)"

text \<open>
  Sending an entry. The broker has the order when its answer raises: the exception then leaves the
  engine before any of the bookkeeping.
\<close>

definition send_entry :: "gates \<Rightarrow> decision \<Rightarrow> f64 \<Rightarrow> dispatch_state \<Rightarrow> bool res \<times> dispatch_state" where
  "send_entry G d v st =
     (let p = dc_proposal d; pend = (p_action p \<in> set pending_actions);
          st = st\<lparr>ds_sent := ds_sent st @ [entry_call d v]\<rparr>
      in case dg_answer G of Inl e \<Rightarrow> (Inl e, st)
         | Inr t \<Rightarrow>
             let ok = (0 < t);
                 st = (if ok then log_order t (if pend then ''Generated candidate'' else ''Executed order'')
                            (''dispatch_order '' @ (if pend then ''pending '' else []) @ action_value (p_action p)
                              @ '' | exec='' @ getd (p_execution_id p) []) st
                       else note_terminal G d DL_REJECTED_UNFILLED
                            (if pend then ''broker rejected pending order at dispatch (ticket=0)''
                             else ''broker refused market order at dispatch (ticket=0)'') st);
                 st = count_answer ok st;
                 st = (if p_request_id p = [] then st else mark_processed (p_request_id p) ok st)
             in (ret ok, st))"

definition maintenance_blocked :: "gates \<Rightarrow> decision \<Rightarrow> bool res" where
  "maintenance_blocked G d =
     (if is_directional_entry (p_action (dc_proposal d)) then entry_window (p_generated_at (dc_proposal d)) (dg_offset G)
      else ret False)"

definition dispatch_order ::
  "gates \<Rightarrow> decision \<Rightarrow> f64 \<Rightarrow> (string \<times> string) list \<Rightarrow> dispatch_state \<Rightarrow> bool res \<times> dispatch_state" where
  "dispatch_order G d volume setup st =
     (let p = dc_proposal d; k = p_request_id p; refuse = (\<lambda>detail. (ret False, note_terminal G d DL_NOT_DISPATCHED detail st))
      in if killed G \<or> trading_blocked G then refuse ''KILL_SWITCH / persisted safety halt at dispatch''
         else if ds_safe_mode st then refuse ''SAFE_MODE circuit open at dispatch''
         else case maintenance_blocked G d of Inl e \<Rightarrow> (Inl e, st)
         | Inr True \<Rightarrow> refuse ''NIGHTLY_MAINTENANCE_BREAK entry guard''
         | Inr False \<Rightarrow>
             if k \<noteq> [] \<and> lru_contains (ds_processed st) k
             then (ret False, st\<lparr>ds_processed := snd (lru_getitem k (ds_processed st))\<rparr>)
             else if \<not> is_exposure_available (om_cache (ds_manager st)) then refuse ''MAX_EXPOSURE_REACHED at dispatch''
             else
               let v = clamp_dispatch_volume G volume (p_symbol p)
               in if v \<le> 0 then refuse ''LOT_SIZE_REJECTED (zero volume after clamp)''
                  else
                    let st = stage_context G d setup st
                    in if p_action p \<in> set market_actions \<or> p_action p \<in> set pending_actions then send_entry G d v st
                       else (ret False, st))"

section \<open>The hedge path\<close>

definition order_call :: "trade_order \<Rightarrow> broker_call" where
  "order_call ord = \<lparr>bc_request = o_id ord, bc_pending = False, bc_type = o_type ord, bc_symbol = o_symbol ord,
     bc_volume = o_volume ord, bc_price = o_price ord, bc_stop_loss = o_stop_loss ord, bc_take_profit = o_take_profit ord\<rparr>"

text \<open>Here the broker's answer is true when the order was accepted; it is a number for the entry router.\<close>

definition execute_order :: "gates \<Rightarrow> trade_order \<Rightarrow> dispatch_state \<Rightarrow> bool res \<times> dispatch_state" where
  "execute_order G ord st =
     (if killed G \<or> trading_blocked G then (ret False, st)
      else if ds_safe_mode st then (ret False, st)
      else if lru_contains (ds_processed st) (o_id ord) then (ret False, st)
      else
        let v = clamp_dispatch_volume G (o_volume ord) (o_symbol ord)
        in if v \<le> 0 then (ret False, st)
           else
             let ord = (if fl (1 / 1000000000) < fabs64 (v - o_volume ord) then ord\<lparr>o_volume := v\<rparr> else ord);
                 st = st\<lparr>ds_sent := ds_sent st @ [order_call ord]\<rparr>
             in case dg_answer G of Inl e \<Rightarrow> (Inl e, st)
                | Inr t \<Rightarrow>
                    let ok = (t \<noteq> 0)
                    in (ret ok, log_order 0 ''Executed order'' ''execute_order executed''
                                  (log_execution ord ok (mark_processed (o_id ord) ok (count_answer ok st)))))"

section \<open>Frames\<close>

lemma note_terminal_frame [simp]:
  "ds_processed (note_terminal G d s x st) = ds_processed st"
  "ds_failures (note_terminal G d s x st) = ds_failures st"
  "ds_safe_mode (note_terminal G d s x st) = ds_safe_mode st"
  "ds_sent (note_terminal G d s x st) = ds_sent st"
  "om_cache (ds_manager (note_terminal G d s x st)) = om_cache (ds_manager st)"
  by (simp_all add: note_terminal_def Let_def)

lemma stage_context_frame [simp]:
  "ds_processed (stage_context G d x st) = ds_processed st"
  "ds_failures (stage_context G d x st) = ds_failures st"
  "ds_safe_mode (stage_context G d x st) = ds_safe_mode st"
  "ds_sent (stage_context G d x st) = ds_sent st"
  "om_cache (ds_manager (stage_context G d x st)) = om_cache (ds_manager st)"
  by (simp_all add: stage_context_def Let_def)

lemma log_order_frame [simp]:
  "ds_processed (log_order t a x st) = ds_processed st"
  "ds_failures (log_order t a x st) = ds_failures st"
  "ds_safe_mode (log_order t a x st) = ds_safe_mode st"
  "ds_sent (log_order t a x st) = ds_sent st"
  "om_cache (ds_manager (log_order t a x st)) = om_cache (ds_manager st)"
  by (simp_all add: log_order_def)

lemma log_execution_frame [simp]:
  "ds_processed (log_execution ord ok st) = ds_processed st"
  "ds_failures (log_execution ord ok st) = ds_failures st"
  "ds_safe_mode (log_execution ord ok st) = ds_safe_mode st"
  "ds_sent (log_execution ord ok st) = ds_sent st"
  "ds_manager (log_execution ord ok st) = ds_manager st"
  by (simp_all add: log_execution_def)

lemma mark_processed_frame [simp]:
  "ds_processed (mark_processed k ok st) = lru_setitem k ok (ds_processed st)"
  "ds_failures (mark_processed k ok st) = ds_failures st"
  "ds_safe_mode (mark_processed k ok st) = ds_safe_mode st"
  "ds_sent (mark_processed k ok st) = ds_sent st"
  "ds_manager (mark_processed k ok st) = ds_manager st"
  by (simp_all add: mark_processed_def)

lemma count_answer_frame [simp]:
  "ds_processed (count_answer ok st) = ds_processed st"
  "ds_sent (count_answer ok st) = ds_sent st"
  "ds_manager (count_answer ok st) = ds_manager st"
  "ds_safe_mode (count_answer True st) = ds_safe_mode st"
  "ds_failures (count_answer True st) = 0"
  by (simp_all add: count_answer_def Let_def)

text \<open>One entry that reaches the broker.\<close>

lemma send_entry_effect:
  assumes "send_entry G d v st = (r, st')"
  shows "ds_sent st' = ds_sent st @ [entry_call d v]"
    and "om_cache (ds_manager st') = om_cache (ds_manager st)"
    and "ds_safe_mode st \<Longrightarrow> ds_safe_mode st'"
    and "dg_answer G = Inr t \<Longrightarrow> r = ret (0 < t) \<and> ds_processed st' =
           (if p_request_id (dc_proposal d) = [] then ds_processed st
            else lru_setitem (p_request_id (dc_proposal d)) (0 < t) (ds_processed st))"
    and "dg_answer G = Inr t \<Longrightarrow> \<not> 0 < t \<Longrightarrow> 2 \<le> ds_failures st \<Longrightarrow> ds_safe_mode st'"
    and "dg_answer G = Inl e \<Longrightarrow> r = Inl e \<and> st' = st\<lparr>ds_sent := ds_sent st @ [entry_call d v]\<rparr>"
  using assms by (auto simp: send_entry_def Let_def count_answer_def split: sum.splits if_splits)

section \<open>What passed the gates\<close>

definition gates_open :: "gates \<Rightarrow> decision \<Rightarrow> dispatch_state \<Rightarrow> bool" where
  "gates_open G d st \<longleftrightarrow>
     (let k = p_request_id (dc_proposal d)
      in \<not> killed G \<and> \<not> trading_blocked G \<and> \<not> ds_safe_mode st \<and> maintenance_blocked G d = ret False
         \<and> \<not> (k \<noteq> [] \<and> lru_contains (ds_processed st) k) \<and> om_cache (ds_manager st) = []
         \<and> p_action (dc_proposal d) \<in> set market_actions \<union> set pending_actions)"

lemma dispatch_open:
  assumes "gates_open G d st" and "\<not> clamp_dispatch_volume G v (p_symbol (dc_proposal d)) \<le> 0"
  shows "dispatch_order G d v setup st =
     send_entry G d (clamp_dispatch_volume G v (p_symbol (dc_proposal d))) (stage_context G d setup st)"
  using assms by (auto simp: gates_open_def dispatch_order_def Let_def exposure_available_iff ret_def)

lemma dispatch_sent_open:
  assumes "dispatch_order G d v setup st = (r, st')" and "ds_sent st' \<noteq> ds_sent st"
  shows "gates_open G d st \<and> \<not> clamp_dispatch_volume G v (p_symbol (dc_proposal d)) \<le> 0"
  using assms
  by (auto simp: dispatch_order_def gates_open_def Let_def exposure_available_iff ret_def
           split: if_splits sum.splits bool.splits)

section \<open>The clamp\<close>

lemma round_ten: "round_nd 2 (Fin 10) = Fin 10" and round_zero: "round_nd 2 (Fin 0) = Fin 0"
  by code_simp+

text \<open>The clamped volume is a number between 0 and 10 lots whatever the risk engine, the account and the
  broker's specification are, the specification being unavailable or holding a NaN included.\<close>

lemma clamp_range:
  "0 \<le> clamp_dispatch_volume G v s \<and> clamp_dispatch_volume G v s \<le> Fin 10"
proof -
  have core: "0 \<le> round_nd 2 (pmin w c) \<and> round_nd 2 (pmin w c) \<le> Fin 10"
    if "isfinite w" "\<not> w \<le> 0" "0 < c" "c \<le> Fin 10" for w c :: f64
  proof -
    have "Fin 0 \<le> pmin w c" "pmin w c \<le> Fin 10"
      using that by (cases w; cases c; auto simp: pmin_def zero_f64_Fin)+
    then show ?thesis
      using round_nd_mono [of "pmin w c" "Fin 10" 2] round_nd_mono [of "Fin 0" "pmin w c" 2]
      by (simp add: round_ten round_zero zero_f64_Fin del: round_nd.simps)
  qed
  have ceil: "0 < (if 0 < b then pmin (Fin 10) b else Fin 10) \<and> (if 0 < b then pmin (Fin 10) b else Fin 10) \<le> Fin 10" for b :: f64
    by (cases b) (auto simp: pmin_def zero_f64_Fin)
  show ?thesis
    using core ceil by (simp add: clamp_dispatch_volume_def Let_def zero_f64_Fin)
qed

text \<open>C5: nothing reaches the broker past a closed gate: when the entry router has sent an order, no halt and no
  safe mode was active, the server was outside the maintenance window, the request was not in the duplicate
  guard, the cache showed no position and no pending order, and exactly one order went out, for the
  decision's own type and prices, with a clamped volume above zero and at most 10 lots.\<close>

theorem sent_entry_passed_gates:
  assumes "dispatch_order G d v setup st = (r, st')" and "ds_sent st' \<noteq> ds_sent st"
  shows "gates_open G d st \<and> (\<exists>w. ds_sent st' = ds_sent st @ [entry_call d w] \<and> 0 < w \<and> w \<le> Fin 10)"
proof -
  let ?w = "clamp_dispatch_volume G v (p_symbol (dc_proposal d))"
  have g: "gates_open G d st" "\<not> ?w \<le> 0" using dispatch_sent_open [OF assms] by simp_all
  have "0 \<le> ?w" "?w \<le> Fin 10" using clamp_range [of G v "p_symbol (dc_proposal d)"] by simp_all
  then have "0 < ?w" using g(2) by (cases ?w) (auto simp: zero_f64_Fin)
  moreover have "ds_sent st' = ds_sent st @ [entry_call d ?w]"
    using send_entry_effect(1) assms(1) dispatch_open [OF g] by fastforce
  ultimately show ?thesis using g(1) \<open>?w \<le> Fin 10\<close> by blast
qed

section \<open>Runs\<close>

datatype dispatch_op =
    DO_Entry gates decision f64 "(string \<times> string) list"
  | DO_Hedge gates trade_order
  | DO_Pending surroundings pending_op

fun dispatch_step :: "dispatch_state \<Rightarrow> dispatch_op \<Rightarrow> dispatch_state" where
  "dispatch_step st (DO_Entry G d v setup) = snd (dispatch_order G d v setup st)"
| "dispatch_step st (DO_Hedge G ord) = snd (execute_order G ord st)"
| "dispatch_step st (DO_Pending E e) = st\<lparr>ds_manager := pending_step E (ds_manager st) e\<rparr>"

fun requests_of :: "dispatch_op \<Rightarrow> string list" where
  "requests_of (DO_Entry G d v setup) = [p_request_id (dc_proposal d)]"
| "requests_of (DO_Hedge G ord) = [o_id ord]"
| "requests_of (DO_Pending E e) = []"

lemma safe_step:
  assumes "ds_safe_mode st"
  shows "ds_safe_mode (dispatch_step st e) \<and> ds_sent (dispatch_step st e) = ds_sent st"
  using assms by (cases e) (auto simp: dispatch_order_def execute_order_def Let_def)

interpretation safe: step_invariant dispatch_step "st\<lparr>ds_safe_mode := True\<rparr>" "\<lambda>s. ds_safe_mode s \<and> ds_sent s = ds_sent st" for st
  by unfold_locales (simp_all add: safe_step)

text \<open>C7: the third refusal in a row is final: once two orders in a row have been refused and the broker refuses
  one more entry, no order of either path is ever sent again in the life of the process, whatever the
  market, the operator or the pending orders do; nothing sets the state back.\<close>

theorem third_refusal_is_final:
  assumes "2 \<le> ds_failures st" and "dispatch_order G d v setup st = (ret False, st')" and "ds_sent st' \<noteq> ds_sent st"
  shows "ds_safe_mode (run dispatch_step st' es) \<and> ds_sent (run dispatch_step st' es) = ds_sent st'"
proof -
  have g: "gates_open G d st" "\<not> clamp_dispatch_volume G v (p_symbol (dc_proposal d)) \<le> 0"
    using dispatch_sent_open [OF assms(2,3)] by simp_all
  have s: "send_entry G d (clamp_dispatch_volume G v (p_symbol (dc_proposal d))) (stage_context G d setup st) = (ret False, st')"
    using assms(2) dispatch_open [OF g] by simp
  have "ds_safe_mode st'"
  proof (cases "dg_answer G")
    case (Inl e)
    then show ?thesis using send_entry_effect(6) [OF s Inl] by (simp add: ret_def)
  next
    case (Inr t)
    then have "\<not> 0 < t" using send_entry_effect(4) [OF s Inr] by (simp add: ret_def)
    then show ?thesis using send_entry_effect(5) [OF s Inr] assms(1) by simp
  qed
  then show ?thesis using safe.inv_run_from [of st' st' es] by simp
qed

text \<open>C9: an exception of the broker call leaves no trace: the order is out, but neither the duplicate guard nor the
  refusal count has seen it, so the same decision dispatched again sends the same order again.\<close>

theorem raising_broker_repeats_order:
  assumes "dispatch_order G d v setup st = (Inl e, st')" and "ds_sent st' \<noteq> ds_sent st"
  shows "ds_failures st' = ds_failures st \<and> ds_processed st' = ds_processed st
    \<and> (\<exists>c. ds_sent (snd (dispatch_order G d v setup st')) = ds_sent st @ [c, c])"
proof -
  let ?w = "clamp_dispatch_volume G v (p_symbol (dc_proposal d))"
  have g: "gates_open G d st" "\<not> ?w \<le> 0" using dispatch_sent_open [OF assms] by simp_all
  have s: "send_entry G d ?w (stage_context G d setup st) = (Inl e, st')"
    using assms(1) dispatch_open [OF g] by simp
  obtain e' where a: "dg_answer G = Inl e'"
  proof (cases "dg_answer G")
    case (Inr t)
    then show thesis using send_entry_effect(4) [OF s Inr] by (simp add: ret_def)
  qed (use that in blast)
  have st': "st' = (stage_context G d setup st)\<lparr>ds_sent := ds_sent st @ [entry_call d ?w]\<rparr>"
    using send_entry_effect(6) [OF s a] by simp
  have g': "gates_open G d st'" using g(1) by (simp add: gates_open_def Let_def st')
  obtain r'' st'' where s': "send_entry G d ?w (stage_context G d setup st') = (r'', st'')" by fastforce
  have "ds_sent st'' = ds_sent st' @ [entry_call d ?w]" using send_entry_effect(1) [OF s'] by simp
  then have "ds_sent (snd (dispatch_order G d v setup st')) = ds_sent st @ [entry_call d ?w, entry_call d ?w]"
    using s' dispatch_open [OF g' g(2)] by (simp add: st')
  then show ?thesis by (auto simp: st')
qed

section \<open>One order at a time\<close>

definition with_request :: "string \<Rightarrow> decision \<Rightarrow> decision" where
  "with_request k d = d\<lparr>dc_proposal := (dc_proposal d)\<lparr>p_request_id := k\<rparr>\<rparr>"

lemma with_request_simps [simp]:
  "p_request_id (dc_proposal (with_request k d)) = k" "p_action (dc_proposal (with_request k d)) = p_action (dc_proposal d)"
  "p_symbol (dc_proposal (with_request k d)) = p_symbol (dc_proposal d)"
  "p_generated_at (dc_proposal (with_request k d)) = p_generated_at (dc_proposal d)"
  by (simp_all add: with_request_def)

lemma maintenance_with_request [simp]: "maintenance_blocked G (with_request k d) = maintenance_blocked G d"
  by (simp add: maintenance_blocked_def)

lemma contains_setitem: "u \<noteq> k \<Longrightarrow> lru_contains (lru_setitem k v m) u \<Longrightarrow> lru_contains m u"
  by (auto simp: lru_contains_def setitem_data without_def dest!: in_set_dropD)

text \<open>C8: the exposure gate does not see the engine's own order: it counts the cache, and a successful dispatch does
  not write the cache, so a second decision with a fresh request id, dispatched before the next refresh,
  passes the gate of one position or one pending order and is sent as well.\<close>

theorem second_entry_passes_exposure_gate:
  assumes "dispatch_order G d v setup st = (ret True, st')" and "ds_sent st' \<noteq> ds_sent st"
    and "k \<noteq> p_request_id (dc_proposal d)" and "\<not> lru_contains (ds_processed st) k"
  shows "\<exists>c c'. ds_sent (snd (dispatch_order G (with_request k d) v setup st')) = ds_sent st @ [c, c']
           \<and> bc_request c = p_request_id (dc_proposal d) \<and> bc_request c' = k"
proof -
  let ?w = "clamp_dispatch_volume G v (p_symbol (dc_proposal d))" and ?d = "with_request k d"
  have g: "gates_open G d st" "\<not> ?w \<le> 0" using dispatch_sent_open [OF assms(1,2)] by simp_all
  have s: "send_entry G d ?w (stage_context G d setup st) = (ret True, st')"
    using assms(1) dispatch_open [OF g] by simp
  obtain t where t: "dg_answer G = Inr t" "0 < t"
  proof (cases "dg_answer G")
    case (Inl e)
    then show thesis using send_entry_effect(6) [OF s Inl] by (simp add: ret_def)
  next
    case (Inr t)
    then show thesis using that send_entry_effect(4) [OF s Inr] by (simp add: ret_def)
  qed
  have "ds_safe_mode st' = ds_safe_mode st"
    using s t by (auto simp: send_entry_def Let_def split: if_splits)
  moreover have "\<not> lru_contains (ds_processed st') k"
    using send_entry_effect(4) [OF s t(1)] assms(4) by (auto dest: contains_setitem [OF assms(3)] split: if_splits)
  ultimately have g': "gates_open G ?d st'"
    using g(1) send_entry_effect(2) [OF s] by (simp add: gates_open_def Let_def)
  obtain r'' st'' where s': "send_entry G ?d ?w (stage_context G ?d setup st') = (r'', st'')" by fastforce
  have "ds_sent (snd (dispatch_order G ?d v setup st')) = ds_sent st @ [entry_call d ?w, entry_call ?d ?w]"
    using s' dispatch_open [OF g'] g(2) send_entry_effect(1) [OF s] send_entry_effect(1) [OF s'] by simp
  then show ?thesis by (force simp: entry_call_def Let_def)
qed

section \<open>Once per request\<close>

text \<open>What a step does to the duplicate guard: nothing, or one read or write of the step's own request.\<close>

lemma hedge_effect:
  assumes "execute_order G ord st = (r, st')"
  shows "st' = st \<or> (\<not> lru_contains (ds_processed st) (o_id ord)
     \<and> (\<exists>c. ds_sent st' = ds_sent st @ [c] \<and> bc_request c = o_id ord)
     \<and> (ds_processed st' = ds_processed st \<or> (\<exists>b. ds_processed st' = lru_setitem (o_id ord) b (ds_processed st))))"
  using assms
  by (auto simp: execute_order_def Let_def order_call_def split: if_splits sum.splits)

lemma closed_entry_guard:
  assumes "\<not> (gates_open G d st \<and> \<not> clamp_dispatch_volume G v (p_symbol (dc_proposal d)) \<le> 0)"
  shows "ds_processed (snd (dispatch_order G d v snap st)) = ds_processed st
     \<or> ds_processed (snd (dispatch_order G d v snap st)) = snd (lru_getitem (p_request_id (dc_proposal d)) (ds_processed st))"
  using assms
  by (auto simp: dispatch_order_def gates_open_def Let_def exposure_available_iff ret_def split: if_splits sum.splits bool.splits)

lemma guard_step:
  "ds_processed (dispatch_step st e) = ds_processed st
   \<or> (\<exists>x. ds_processed (dispatch_step st e) = lru_step (ds_processed st) x \<and> touches x = requests_of e \<and> (\<forall>k. spares k x))"
proof (cases e)
  case (DO_Entry G d v snap)
  let ?k = "p_request_id (dc_proposal d)"
  have set: "\<exists>x. lru_setitem ?k b m = lru_step m x \<and> touches x = [?k] \<and> (\<forall>k. spares k x)" for b and m :: "(string, bool) lru"
    by (rule exI [of _ "L_SET ?k b"]) simp
  have get: "\<exists>x. snd (lru_getitem ?k m) = lru_step m x \<and> touches x = [?k] \<and> (\<forall>k. spares k x)" for m :: "(string, bool) lru"
    by (rule exI [of _ "L_GET ?k"]) simp
  have send: "ds_processed (snd (send_entry G d w s)) = ds_processed s \<or> (\<exists>b. ds_processed (snd (send_entry G d w s)) = lru_setitem ?k b (ds_processed s))" for w s
    by (auto simp: send_entry_def Let_def split: sum.splits)
  show ?thesis
  proof (cases "gates_open G d st \<and> \<not> clamp_dispatch_volume G v (p_symbol (dc_proposal d)) \<le> 0")
    case True
    then have x: "dispatch_order G d v snap st =
        send_entry G d (clamp_dispatch_volume G v (p_symbol (dc_proposal d))) (stage_context G d snap st)"
      by (simp add: dispatch_open)
    show ?thesis
      using send [of "clamp_dispatch_volume G v (p_symbol (dc_proposal d))" "stage_context G d snap st"] set
      by (auto simp: DO_Entry x)
  next
    case False
    then show ?thesis
      unfolding DO_Entry dispatch_step.simps requests_of.simps
      using closed_entry_guard [OF False, of snap] get [of "ds_processed st"] by metis
  qed
next
  case (DO_Hedge G ord)
  obtain r st' where x: "execute_order G ord st = (r, st')" by fastforce
  have set: "\<exists>x. lru_setitem (o_id ord) b m = lru_step m x \<and> touches x = [o_id ord] \<and> (\<forall>k. spares k x)" for b and m :: "(string, bool) lru"
    by (rule exI [of _ "L_SET (o_id ord) b"]) simp
  show ?thesis using hedge_effect [OF x] set by (auto simp: DO_Hedge x)
qed simp

lemma guarded_not_sent:
  assumes "lru_contains (ds_processed st) k" and "k \<noteq> []"
  shows "filter (\<lambda>c. bc_request c = k) (ds_sent (dispatch_step st e)) = filter (\<lambda>c. bc_request c = k) (ds_sent st)"
proof (cases e)
  case (DO_Entry G d v snap)
  obtain r st' where x: "dispatch_order G d v snap st = (r, st')" by fastforce
  show ?thesis
  proof (cases "ds_sent st' = ds_sent st")
    case False
    have g: "gates_open G d st" "\<not> clamp_dispatch_volume G v (p_symbol (dc_proposal d)) \<le> 0"
      using dispatch_sent_open [OF x False] by simp_all
    then have "p_request_id (dc_proposal d) \<noteq> k" using assms by (auto simp: gates_open_def Let_def)
    moreover have "ds_sent st' = ds_sent st @ [entry_call d (clamp_dispatch_volume G v (p_symbol (dc_proposal d)))]"
      using send_entry_effect(1) x dispatch_open [OF g] by fastforce
    ultimately show ?thesis by (simp add: DO_Entry x entry_call_def Let_def)
  qed (simp add: DO_Entry x)
next
  case (DO_Hedge G ord)
  obtain r st' where x: "execute_order G ord st = (r, st')" by fastforce
  show ?thesis using hedge_effect [OF x] assms by (auto simp: DO_Hedge x)
qed simp

lemma guard_ok_step: "lru_ok n (ds_processed st) \<Longrightarrow> lru_ok n (ds_processed (dispatch_step st e))"
  using guard_step [of st e] lru_ok_step by metis

lemma guarded_run:
  assumes "lru_ok n (ds_processed st)" and "recent k U (lr_data (ds_processed st))" and "k \<noteq> []"
    and "finite U" and "card (U \<union> (set (concat (map requests_of es)) - {k})) < n"
  shows "filter (\<lambda>c. bc_request c = k) (ds_sent (run dispatch_step st es)) = filter (\<lambda>c. bc_request c = k) (ds_sent st)"
  using assms
proof (induction es arbitrary: st U)
  case (Cons e es)
  let ?V = "U \<union> (set (requests_of e) - {k})"
  have eq: "?V \<union> (set (concat (map requests_of es)) - {k}) = U \<union> (set (concat (map requests_of (e # es))) - {k})" by auto
  have "card ?V \<le> card (?V \<union> (set (concat (map requests_of es)) - {k}))"
    using Cons.prems(4) by (intro card_mono) auto
  then have room: "card ?V < n" using Cons.prems(5) eq by simp
  have "recent k ?V (lr_data (ds_processed (dispatch_step st e)))"
    using guard_step [of st e]
  proof (elim disjE exE conjE)
    assume "ds_processed (dispatch_step st e) = ds_processed st"
    then show ?thesis using recent_mono [OF Cons.prems(2), of ?V] by simp
  next
    fix x assume x: "ds_processed (dispatch_step st e) = lru_step (ds_processed st) x" "touches x = requests_of e" "\<forall>k. spares k x"
    show ?thesis
      using recent_step [OF Cons.prems(1,2), of x] x Cons.prems(4) room by simp
  qed
  then have "filter (\<lambda>c. bc_request c = k) (ds_sent (run dispatch_step (dispatch_step st e) es))
      = filter (\<lambda>c. bc_request c = k) (ds_sent (dispatch_step st e))"
    using Cons.prems eq by (intro Cons.IH [of _ ?V]) (simp_all add: guard_ok_step)
  then show ?case
    using guarded_not_sent [OF recent_contains [OF Cons.prems(2)] Cons.prems(3)] by simp
qed simp

interpretation guard: step_invariant dispatch_step "mk_dispatch m" "\<lambda>st. lru_ok 50000 (ds_processed st)" for m
  by unfold_locales (simp add: mk_dispatch_def lru_ok_def, rule guard_ok_step)

text \<open>C6: an answered request is not sent twice: once the broker has answered an entry, filled or refused, no call
  with its request id follows in any run of entries, hedges and pending-order operations, as long as fewer
  than 50000 other request ids are dispatched in it.\<close>

theorem answered_request_sent_once:
  assumes "st = run dispatch_step (mk_dispatch m) es" and "dispatch_order G d v setup st = (Inr b, st')"
    and "ds_sent st' \<noteq> ds_sent st" and "k = p_request_id (dc_proposal d)" and "k \<noteq> []"
    and "card (set (concat (map requests_of fs)) - {k}) < 50000"
  shows "filter (\<lambda>c. bc_request c = k) (ds_sent (run dispatch_step st' fs)) = filter (\<lambda>c. bc_request c = k) (ds_sent st')"
proof -
  let ?w = "clamp_dispatch_volume G v (p_symbol (dc_proposal d))"
  have g: "gates_open G d st" "\<not> ?w \<le> 0" using dispatch_sent_open [OF assms(2,3)] by simp_all
  have s: "send_entry G d ?w (stage_context G d setup st) = (Inr b, st')"
    using assms(2) dispatch_open [OF g] by simp
  obtain t where "dg_answer G = Inr t"
    using send_entry_effect(6) [OF s] by (cases "dg_answer G") auto
  then have p: "ds_processed st' = lru_setitem k (0 < t) (ds_processed st)"
    using send_entry_effect(4) [OF s] assms(4,5) by simp
  have ok: "lru_ok 50000 (ds_processed st)" unfolding assms(1) by (rule guard.inv_run)
  have "recent k {} (without k (lr_data (ds_processed st)) @ [(k, 0 < t)])" by (rule recentI_last)
  moreover have "distinct (map fst (without k (lr_data (ds_processed st)) @ [(k, 0 < t)]))"
    using ok by (auto simp: lru_ok_def)
  ultimately have "recent k {} (lr_data (ds_processed st'))"
    using ok recent_drop [of k "{}" "without k (lr_data (ds_processed st)) @ [(k, 0 < t)]" 50000]
    by (simp add: p setitem_data lru_ok_def)
  then show ?thesis
    using assms(5,6) ok by (intro guarded_run [where U = "{}" and n = 50000]) (simp_all add: p lru_ok_setitem)
qed

section \<open>Samples\<close>

definition sample_gates :: "int res \<Rightarrow> gates" where
  "sample_gates a = \<lparr>dg_risk = None, dg_provider = None, dg_symbol = ret None, dg_account = ret None, dg_answer = a,
     dg_offset = 180, dg_clock = Fin 1, dg_world = \<lparr>sr_engine = False, sr_flush = 0, sr_wall = utc 0\<rparr>\<rparr>"

definition sample_decision :: decision where
  "sample_decision = \<lparr>dc_proposal = \<lparr>p_request_id = ''r1'', p_execution_id = None, p_symbol = ''X'',
     p_generated_at = utc 43200000000, p_action = A_BUY, p_confidence = 1, p_proposed_entry = Fin 100,
     p_stop_loss = Fin 99, p_take_profit = Fin 102, p_risk_reward_ratio = Fin 2, p_reason_code = ''MODEL_SIGNAL'',
     p_ticket = 0, p_volume = None, p_decision_stage = None, p_blocked_by = None, p_reversal_action = None,
     p_is_ai_reversal = False\<rparr>, dc_mode = ''STANDARD'', dc_regime = []\<rparr>"

definition sample_state :: dispatch_state where
  "sample_state = mk_dispatch sample_manager"

lemma sample_quiet_hours: "entry_window (utc 43200000000) 180 = ret False"
  by code_simp

lemma sample_clamp: "clamp_dispatch_volume (sample_gates a) 1 s = 1"
proof -
  have "round_nd 2 (pmin 1 HARD_MAX_LOTS) = 1" by code_simp
  then show ?thesis
    by (simp add: clamp_dispatch_volume_def sample_gates_def Let_def ret_def one_f64_Fin zero_f64_Fin del: round_nd.simps)
qed

lemma sample_open:
  assumes "ds_safe_mode st = False" and "ds_processed st = ds_processed sample_state" and "ds_manager st = sample_manager"
  shows "gates_open (sample_gates a) sample_decision st"
  using assms
  by (simp add: gates_open_def Let_def killed_def trading_blocked_def sample_gates_def sample_decision_def
      maintenance_blocked_def sample_quiet_hours sample_state_def mk_dispatch_def lru_contains_def sample_manager_def
      market_actions_def)

lemma sample_dispatch:
  assumes "ds_safe_mode st = False" and "ds_processed st = ds_processed sample_state" and "ds_manager st = sample_manager"
  shows "dispatch_order (sample_gates a) sample_decision 1 [] st =
     send_entry (sample_gates a) sample_decision 1 (stage_context (sample_gates a) sample_decision [] st)"
proof -
  have "\<not> (1 :: f64) \<le> 0" by (simp add: one_f64_Fin zero_f64_Fin)
  then show ?thesis
    using dispatch_open [OF sample_open [OF assms], of a 1 "[]"] by (simp add: sample_clamp)
qed

lemma sample_state_simps: "ds_safe_mode sample_state = False" "ds_manager sample_state = sample_manager" "ds_sent sample_state = []"
  by (simp_all add: sample_state_def mk_dispatch_def)

lemma sample_answer:
  "fst (dispatch_order (sample_gates a) sample_decision 1 [] sample_state) = (case a of Inl e \<Rightarrow> Inl e | Inr t \<Rightarrow> ret (0 < t))"
  "ds_sent (snd (dispatch_order (sample_gates a) sample_decision 1 [] sample_state)) = [entry_call sample_decision 1]"
proof -
  obtain r st' where s: "send_entry (sample_gates a) sample_decision 1 (stage_context (sample_gates a) sample_decision [] sample_state) = (r, st')"
    by fastforce
  have d: "dispatch_order (sample_gates a) sample_decision 1 [] sample_state = (r, st')"
    using sample_dispatch [of sample_state a] s by (simp add: sample_state_simps)
  have g: "dg_answer (sample_gates a) = a" by (simp add: sample_gates_def)
  show "ds_sent (snd (dispatch_order (sample_gates a) sample_decision 1 [] sample_state)) = [entry_call sample_decision 1]"
    using send_entry_effect(1) [OF s] by (simp add: d sample_state_simps)
  show "fst (dispatch_order (sample_gates a) sample_decision 1 [] sample_state) = (case a of Inl e \<Rightarrow> Inl e | Inr t \<Rightarrow> ret (0 < t))"
  proof -
    have "r = (case a of Inl e \<Rightarrow> Inl e | Inr t \<Rightarrow> ret (0 < t))"
    proof (cases a)
      case (Inl e)
      then show ?thesis using send_entry_effect(6) [OF s, of e] g by simp
    next
      case (Inr t)
      then show ?thesis using send_entry_effect(4) [OF s, of t] g by simp
    qed
    then show ?thesis by (simp only: d fst_conv)
  qed
qed

lemma sample_answer_pair:
  "dispatch_order (sample_gates a) sample_decision 1 [] sample_state =
     (case a of Inl e \<Rightarrow> Inl e | Inr t \<Rightarrow> ret (0 < t), snd (dispatch_order (sample_gates a) sample_decision 1 [] sample_state))"
  using sample_answer(1) [of a] by (metis prod.collapse)

lemma sent_entry_passed_gates_witness:
  "gates_open (sample_gates (ret 7)) sample_decision sample_state"
  using sent_entry_passed_gates [OF sample_answer_pair [of "ret 7"]] by (simp add: sample_answer sample_state_simps)

lemma raising_broker_repeats_order_witness:
  "\<exists>c. ds_sent (snd (dispatch_order (sample_gates (raise ValueError)) sample_decision 1 []
      (snd (dispatch_order (sample_gates (raise ValueError)) sample_decision 1 [] sample_state)))) = [c, c]"
  using raising_broker_repeats_order [of "sample_gates (raise ValueError)" sample_decision 1 "[]" sample_state ValueError]
    sample_answer_pair [of "raise ValueError"]
  by (simp add: sample_answer sample_state_simps raise_def)

lemma second_entry_passes_exposure_gate_witness:
  "\<exists>c c'. ds_sent (snd (dispatch_order (sample_gates (ret 7)) (with_request ''r2'' sample_decision) 1 []
      (snd (dispatch_order (sample_gates (ret 7)) sample_decision 1 [] sample_state)))) = [c, c']
      \<and> bc_request c = ''r1'' \<and> bc_request c' = ''r2''"
proof -
  have x: "dispatch_order (sample_gates (ret 7)) sample_decision 1 [] sample_state =
      (ret True, snd (dispatch_order (sample_gates (ret 7)) sample_decision 1 [] sample_state))"
    using sample_answer_pair [of "ret 7"] by (simp add: ret_def)
  have "p_request_id (dc_proposal sample_decision) = ''r1''" by (simp add: sample_decision_def)
  then show ?thesis
    using second_entry_passes_exposure_gate [OF x, of "''r2''"]
    by (simp add: sample_answer sample_state_simps) (simp add: sample_state_def mk_dispatch_def lru_contains_def)
qed

lemma answered_request_sent_once_witness:
  "filter (\<lambda>c. bc_request c = ''r1'') (ds_sent (run dispatch_step (snd (dispatch_order (sample_gates (ret 7)) sample_decision 1 [] sample_state))
     [DO_Entry (sample_gates (ret 8)) sample_decision 1 []])) = [entry_call sample_decision 1]"
proof -
  have x: "dispatch_order (sample_gates (ret 7)) sample_decision 1 [] sample_state =
      (Inr True, snd (dispatch_order (sample_gates (ret 7)) sample_decision 1 [] sample_state))"
    using sample_answer_pair [of "ret 7"] by (simp add: ret_def)
  have id: "p_request_id (dc_proposal sample_decision) = ''r1''" by (simp add: sample_decision_def)
  have "filter (\<lambda>c. bc_request c = ''r1'') (ds_sent (run dispatch_step (snd (dispatch_order (sample_gates (ret 7)) sample_decision 1 [] sample_state))
     [DO_Entry (sample_gates (ret 8)) sample_decision 1 []])) =
    filter (\<lambda>c. bc_request c = ''r1'') (ds_sent (snd (dispatch_order (sample_gates (ret 7)) sample_decision 1 [] sample_state)))"
    by (rule answered_request_sent_once [where es = "[]" and m = sample_manager, OF _ x])
       (simp_all add: sample_answer sample_state_simps id sample_state_def [symmetric])
  then show ?thesis by (simp add: sample_answer entry_call_def Let_def id)
qed

lemma third_refusal_is_final_witness:
  "ds_safe_mode (run dispatch_step (snd (dispatch_order (sample_gates (ret 0)) sample_decision 1 []
      (sample_state\<lparr>ds_failures := 2\<rparr>))) [])"
proof -
  let ?st = "sample_state\<lparr>ds_failures := 2\<rparr>"
  obtain r st' where s: "send_entry (sample_gates (ret 0)) sample_decision 1 (stage_context (sample_gates (ret 0)) sample_decision [] ?st) = (r, st')"
    by fastforce
  have d: "dispatch_order (sample_gates (ret 0)) sample_decision 1 [] ?st = (r, st')"
    using sample_dispatch [of ?st "ret 0"] s by (simp add: sample_state_simps)
  have "r = ret False" using send_entry_effect(4) [OF s, of 0] by (simp add: sample_gates_def ret_def)
  then have x: "dispatch_order (sample_gates (ret 0)) sample_decision 1 [] ?st = (ret False, st')" using d by simp
  have "ds_sent st' \<noteq> ds_sent ?st" using send_entry_effect(1) [OF s] by simp
  then show ?thesis using third_refusal_is_final [OF _ x] by (simp add: x del: run_Nil)
qed

end
