(* ===== verification/PaperBroker.thy ===== *)
theory PaperBroker
  imports Domain Valuation PyText
begin

text \<open>
  \<^verbatim>\<open>adapters/paper/paper_adapter.py\<close>: the simulated broker behind every paper session. Quotes (a
  random walk or a replayed record), fills with slippage, stops and targets executed on every
  quote, margin, balance and equity, and the state file that survives a restart.
\<close>

unbundle bit_operations_syntax

section \<open>State\<close>

text \<open>One row of the execution ledger. \<open>er_rejection\<close> is \<open>None\<close> for a fill.\<close>

record execution_row =
  er_symbol :: string
  er_type :: order_type
  er_volume :: f64
  er_requested :: f64
  er_bid :: f64
  er_ask :: f64
  er_spread :: f64
  er_fill :: "f64 option"
  er_slippage :: "f64 option"
  er_latency :: int
  er_rejection :: "string option"
  er_ticket :: int

text \<open>The state file. Numbers are the JSON values that were read; \<open>None\<close> is a missing key.\<close>

record saved_state =
  sv_balance :: "json option"
  sv_equity :: "json option"
  sv_counter :: "json option"
  sv_closed :: "json option"
  sv_positions :: "position list"
  sv_symbol :: string

text \<open>
  The adapter. \<open>pa_drawn\<close> and \<open>pa_slipped\<close> count the draws taken from the random generator, \<open>pa_cursor\<close>
  the records taken from the replay source. \<open>pa_credits\<close> is a ghost: what was added to the balance,
  for which ticket, and whether the ticket was closed with it.
\<close>

record paper =
  pa_symbol :: string
  pa_balance :: f64
  pa_equity :: f64
  pa_connected :: bool
  pa_band :: "f64 \<times> f64"
  pa_price :: f64
  pa_positions :: "position list"
  pa_counter :: int
  pa_stress :: "f64 option"
  pa_replay :: bool
  pa_last_tick :: "tick_data option"
  pa_seen :: "string list"
  pa_prev_step :: f64
  pa_vol_block :: f64
  pa_block_left :: int
  pa_closed :: "int set"
  pa_ledger :: "execution_row list"
  pa_dropped :: nat
  pa_file :: "saved_state option"
  pa_drawn :: nat
  pa_slipped :: nat
  pa_cursor :: nat
  pa_credits :: "(int \<times> bool \<times> f64) list"

text \<open>
  One quote's draws: the clock, the unit variates of the volatility block and of the spread, its
  length, the standard normal of the step, and the volume.
\<close>

record tick_draws =
  td_now :: py_datetime
  td_block :: f64
  td_block_len :: int
  td_normal :: f64
  td_unit :: f64
  td_volume :: int

text \<open>
  What the adapter reads: the environment variables, the random generator, the unit variate of a
  generator seeded with a number, the replayed record and the wall clock.
\<close>

record paper_world =
  pw_env :: "string \<Rightarrow> string option"
  pw_ticks :: "nat \<Rightarrow> tick_draws"
  pw_units :: "nat \<Rightarrow> f64"
  pw_seeded :: "int \<Rightarrow> f64"
  pw_records :: "nat \<Rightarrow> (py_datetime \<times> f64 \<times> f64 \<times> f64) option"
  pw_now :: py_datetime

datatype paper_error = Invalid_Tick | Replay_Unavailable | Recursion_Limit | Invalid_Position | Not_In_List

section \<open>Instrument conventions and the environment\<close>

definition symbol_is_metal :: "string \<Rightarrow> bool" where
  "symbol_is_metal s \<longleftrightarrow> (\<exists>p\<in>set [''XAU'', ''XAG'', ''GOLD'', ''SILVER'']. prefix_of p (upper s))"

definition quote_digits :: "string \<Rightarrow> nat" where
  "quote_digits s = (if symbol_is_metal s then 2 else 5)"

definition contract_size :: "string \<Rightarrow> f64" where
  "contract_size s = (if symbol_is_metal s then Fin 100 else Fin 100000)"

definition env_text :: "paper_world \<Rightarrow> string \<Rightarrow> string" where
  "env_text W k = strip (getd (pw_env W k) [])"

definition seed_baselines :: "(string \<times> f64) list" where
  "seed_baselines = [(''XAUUSD'', Fin 4400), (''XAGUSD'', Fin 28), (''EURUSD'', fl (1085 / 1000)),
     (''GBPUSD'', fl (127 / 100)), (''USDJPY'', Fin 150)]"

definition seed_price :: "paper_world \<Rightarrow> string \<Rightarrow> f64" where
  "seed_price W symbol =
     (let s = upper symbol; raw = env_text W (''NEXUS_PAPER_SEED_'' @ s)
      in case (if raw = [] then None else py_float raw) of Some x \<Rightarrow> x
         | None \<Rightarrow> getd (map_of seed_baselines s) (Fin 2000))"

text \<open>The spread band of the canonical costs; anything unusable falls back to 8 to 18 cents.\<close>

definition metal_spread_range :: "(f64 \<times> f64) option \<Rightarrow> f64 \<times> f64" where
  "metal_spread_range band =
     (case band of Some (lo, hi) \<Rightarrow> if 0 < lo \<and> lo < hi then (lo, hi) else (fl (8 / 100), fl (18 / 100))
      | None \<Rightarrow> (fl (8 / 100), fl (18 / 100)))"

definition effective_spread_scale :: "paper_world \<Rightarrow> paper \<Rightarrow> f64" where
  "effective_spread_scale W S =
     (case pa_stress S of Some s \<Rightarrow> s
      | None \<Rightarrow>
          let raw = env_text W ''NEXUS_PAPER_SPREAD_SCALE''
          in case (if raw = [] then None else py_float raw) of
               Some s \<Rightarrow> pmax (fl (1 / 10)) (pmin s (Fin 10)) | None \<Rightarrow> 1)"

definition persist_enabled :: "paper_world \<Rightarrow> bool" where
  "persist_enabled W \<longleftrightarrow>
     lower (strip (getd (pw_env W ''NEXUS_PAPER_PERSIST'') ''1'')) \<notin> set [''0'', ''false'', ''no'', ''off'']"

definition mk_paper :: "paper_world \<Rightarrow> (f64 \<times> f64) option \<Rightarrow> f64 \<Rightarrow> string \<Rightarrow> bool \<Rightarrow> saved_state option \<Rightarrow> paper" where
  "mk_paper W band balance symbol replay file =
     \<lparr>pa_symbol = symbol, pa_balance = balance, pa_equity = balance, pa_connected = False,
      pa_band = metal_spread_range band, pa_price = seed_price W symbol, pa_positions = [],
      pa_counter = 100001, pa_stress = None, pa_replay = replay, pa_last_tick = None, pa_seen = [],
      pa_prev_step = 0, pa_vol_block = 1, pa_block_left = 0, pa_closed = {}, pa_ledger = [], pa_dropped = 0,
      pa_file = file, pa_drawn = 0, pa_slipped = 0, pa_cursor = 0, pa_credits = []\<rparr>"

section \<open>Accounting\<close>

definition realized_pnl :: "position \<Rightarrow> f64 \<Rightarrow> f64 \<Rightarrow> f64" where
  "realized_pnl p close volume =
     round_nd 2 (price_delta_value volume (contract_size (pos_symbol p))
       ((if pos_type p = BUY then 1 else - 1) * (close - pos_price_open p)) 1)"

definition cached_tick :: "string \<Rightarrow> paper \<Rightarrow> tick_data option" where
  "cached_tick symbol S =
     (case pa_last_tick S of Some t \<Rightarrow> if t_symbol t = symbol then Some t else None | None \<Rightarrow> None)"

definition close_side :: "position \<Rightarrow> tick_data \<Rightarrow> f64" where
  "close_side p t = (if pos_type p = BUY then t_bid t else t_ask t)"

text \<open>
  A function that produces the next quote of a symbol; the operations below call it when the last
  quote is of another symbol.
\<close>

type_synonym feed = "string \<Rightarrow> paper \<Rightarrow> (paper_error + tick_data) \<times> paper"

definition quote_of :: "feed \<Rightarrow> string \<Rightarrow> paper \<Rightarrow> (paper_error + tick_data) \<times> paper" where
  "quote_of get symbol S = (case cached_tick symbol S of Some t \<Rightarrow> (Inr t, S) | None \<Rightarrow> get symbol S)"

definition current_price_for_pnl :: "feed \<Rightarrow> position \<Rightarrow> paper \<Rightarrow> f64 option \<times> paper" where
  "current_price_for_pnl get p S =
     (case quote_of get (pos_symbol p) S of
        (Inr t, S) \<Rightarrow> (Some (close_side p t), S) | (Inl _, S) \<Rightarrow> (None, S))"

text \<open>The loop runs over the positions it found at its start, whatever a new quote does to the book.\<close>

fun floating_sum :: "feed \<Rightarrow> position list \<Rightarrow> f64 \<Rightarrow> paper \<Rightarrow> f64 \<times> paper" where
  "floating_sum get [] tot S = (tot, S)"
| "floating_sum get (p # ps) tot S =
     (case current_price_for_pnl get p S of
        (Some c, S) \<Rightarrow> floating_sum get ps (tot + realized_pnl p c (pos_volume p)) S
      | (None, S) \<Rightarrow> floating_sum get ps (tot + pos_profit p) S)"

definition floating_pnl :: "feed \<Rightarrow> paper \<Rightarrow> f64 \<times> paper" where
  "floating_pnl get S = (case floating_sum get (pa_positions S) 0 S of (x, S) \<Rightarrow> (round_nd 2 x, S))"

definition refresh_account :: "feed \<Rightarrow> paper \<Rightarrow> paper" where
  "refresh_account get S =
     (case floating_pnl get S of (x, S) \<Rightarrow> S\<lparr>pa_equity := round_nd 2 (pa_balance S + x)\<rparr>)"

fun refreshed_positions :: "feed \<Rightarrow> position list \<Rightarrow> paper \<Rightarrow> position list \<times> paper" where
  "refreshed_positions get [] S = ([], S)"
| "refreshed_positions get (p # ps) S =
     (case current_price_for_pnl get p S of
        (Some c, S) \<Rightarrow>
          (let x = realized_pnl p c (pos_volume p);
               q = (if fl (5 / 1000) < fabs64 (pos_profit p - x) then p\<lparr>pos_profit := x\<rparr> else p)
           in case refreshed_positions get ps S of (qs, S) \<Rightarrow> (q # qs, S))
      | (None, S) \<Rightarrow> (case refreshed_positions get ps S of (qs, S) \<Rightarrow> (p # qs, S)))"

text \<open>The new list replaces the book when the loop is over.\<close>

definition refresh_position_profits :: "feed \<Rightarrow> paper \<Rightarrow> paper" where
  "refresh_position_profits get S =
     (case refreshed_positions get (pa_positions S) S of (qs, S) \<Rightarrow> S\<lparr>pa_positions := qs\<rparr>)"

definition PAPER_LEVERAGE :: int where
  "PAPER_LEVERAGE = 100"

definition margin_required :: "string \<Rightarrow> f64 \<Rightarrow> f64 \<Rightarrow> f64" where
  "margin_required symbol price volume =
     required_margin_estimate volume (contract_size symbol) price (Some (float_of_int PAPER_LEVERAGE))"

definition simulated_margin :: "paper \<Rightarrow> f64" where
  "simulated_margin S =
     foldl (\<lambda>tot p. tot + margin_required (pos_symbol p) (pos_price_open p) (pos_volume p)) 0 (pa_positions S)"

section \<open>The state file\<close>

definition saved_of :: "paper \<Rightarrow> saved_state" where
  "saved_of S = \<lparr>sv_balance = Some (JFloat (pa_balance S)), sv_equity = Some (JFloat (pa_equity S)),
     sv_counter = Some (JInt (pa_counter S)),
     sv_closed = Some (JArr (map JInt (sorted_list_of_set (pa_closed S)))),
     sv_positions = pa_positions S, sv_symbol = pa_symbol S\<rparr>"

definition persist_state :: "paper_world \<Rightarrow> paper \<Rightarrow> paper" where
  "persist_state W S = (if persist_enabled W then S\<lparr>pa_file := Some (saved_of S)\<rparr> else S)"

text \<open>\<^verbatim>\<open>int(v)\<close> of a JSON value; \<open>None\<close> where it raises.\<close>

fun int_of_json :: "json \<Rightarrow> int option" where
  "int_of_json (JBool b) = Some (if b then 1 else 0)"
| "int_of_json (JInt n) = Some n"
| "int_of_json (JFloat x) = (case trunc64 x of Inr n \<Rightarrow> Some n | Inl _ \<Rightarrow> None)"
| "int_of_json (JStr s) = py_int s"
| "int_of_json _ = None"

definition validated_float :: "json option \<Rightarrow> f64 \<Rightarrow> f64 option" where
  "validated_float v fallback =
     (case (case v of None \<Rightarrow> ret fallback | Some j \<Rightarrow> float_of_json j) of
        Inl _ \<Rightarrow> None | Inr x \<Rightarrow> if isfinite x \<and> \<not> x < 0 then Some x else None)"

fun all_some :: "'a option list \<Rightarrow> 'a list option" where
  "all_some [] = Some []"
| "all_some (None # xs) = None"
| "all_some (Some x # xs) = map_option (Cons x) (all_some xs)"

definition closed_candidate :: "json option \<Rightarrow> int set option" where
  "closed_candidate v =
     (case v of None \<Rightarrow> Some {}
      | Some (JArr xs) \<Rightarrow>
          (case all_some (map int_of_json xs) of None \<Rightarrow> None
           | Some ns \<Rightarrow> if \<exists>n\<in>set ns. n < 0 then None else Some (set ns))
      | _ \<Rightarrow> None)"

text \<open>The whole payload is validated before any field of the adapter is written.\<close>

definition build_state_candidate :: "saved_state \<Rightarrow> paper \<Rightarrow> paper option" where
  "build_state_candidate f S =
     (case (validated_float (sv_balance f) (pa_balance S), validated_float (sv_equity f) (pa_equity S),
            int_of_json (getd (sv_counter f) (JInt (pa_counter S))), closed_candidate (sv_closed f)) of
        (Some b, Some e, Some n, Some c) \<Rightarrow>
          if n < 0 \<or> \<not> (\<forall>p\<in>set (sv_positions f). mk_position p = ret p) then None
          else Some (S\<lparr>pa_balance := b, pa_equity := e, pa_counter := n, pa_closed := c,
                       pa_positions := sv_positions f\<rparr>)
      | _ \<Rightarrow> None)"

definition load_state :: "feed \<Rightarrow> paper_world \<Rightarrow> paper \<Rightarrow> bool \<times> paper" where
  "load_state get W S =
     (if \<not> persist_enabled W then (False, S)
      else case pa_file S of None \<Rightarrow> (False, S)
      | Some f \<Rightarrow>
          if sv_symbol f \<noteq> [] \<and> sv_symbol f \<noteq> pa_symbol S then (False, S)
          else case build_state_candidate f S of None \<Rightarrow> (False, S)
          | Some S \<Rightarrow> (True, refresh_account get (refresh_position_profits get S)))"

section \<open>Stops and targets\<close>

text \<open>\<^verbatim>\<open>Random.uniform(a, b)\<close>\<close>

definition uniform :: "f64 \<Rightarrow> f64 \<Rightarrow> f64 \<Rightarrow> f64" where
  "uniform a b u = a + (b - a) * u"

definition slip_range :: "string \<Rightarrow> f64 \<times> f64" where
  "slip_range s = (if symbol_is_metal s then (fl (1 / 100), fl (4 / 100)) else (fl (2 / 100000), fl (6 / 100000)))"

definition slippage_for_close :: "paper_world \<Rightarrow> string \<Rightarrow> paper \<Rightarrow> f64 \<times> paper" where
  "slippage_for_close W s S =
     (uniform (fst (slip_range s)) (snd (slip_range s)) (pw_units W (pa_slipped S)), S\<lparr>pa_slipped := Suc (pa_slipped S)\<rparr>)"

datatype paper_event = SL_HIT | TP_HIT

definition stop_event :: "paper_world \<Rightarrow> tick_data \<Rightarrow> position \<Rightarrow> paper \<Rightarrow> (paper_event \<times> f64) option \<times> paper" where
  "stop_event W t p S =
     (let sl = pos_sl p; tp = pos_tp p; d = quote_digits (pos_symbol p)
      in if pos_type p = BUY then
           (if 0 < sl \<and> t_bid t \<le> sl then
              (case slippage_for_close W (pos_symbol p) S of (slip, S) \<Rightarrow>
                 let c = round_nd d (pmin (t_bid t) sl - slip)
                 in (Some (SL_HIT, if c \<le> 0 then pmin (t_bid t) sl else c), S))
            else if 0 < tp \<and> tp \<le> t_bid t then (Some (TP_HIT, round_nd d tp), S)
            else (None, S))
         else if 0 < sl \<and> sl \<le> t_ask t then
           (case slippage_for_close W (pos_symbol p) S of (slip, S) \<Rightarrow>
              (Some (SL_HIT, round_nd d (pmax (t_ask t) sl + slip)), S))
         else if 0 < tp \<and> t_ask t \<le> tp then (Some (TP_HIT, round_nd d tp), S)
         else (None, S))"

definition credit :: "int \<Rightarrow> bool \<Rightarrow> f64 \<Rightarrow> paper \<Rightarrow> paper" where
  "credit t full x S = S\<lparr>pa_balance := round_nd 2 (pa_balance S + x), pa_credits := pa_credits S @ [(t, full, x)]\<rparr>"

definition remove_ticket :: "int \<Rightarrow> paper \<Rightarrow> paper" where
  "remove_ticket t S = S\<lparr>pa_positions := filter (\<lambda>p. pos_ticket p \<noteq> t) (pa_positions S)\<rparr>"

definition find_ticket :: "int \<Rightarrow> paper \<Rightarrow> position option" where
  "find_ticket t S = List.find (\<lambda>p. pos_ticket p = t) (pa_positions S)"

text \<open>One position of the snapshot: skipped when it is of another symbol or has left the book.\<close>

definition execute_stop ::
  "feed \<Rightarrow> paper_world \<Rightarrow> tick_data \<Rightarrow> (int \<times> paper_event \<times> f64) list \<times> paper \<Rightarrow> position
     \<Rightarrow> (int \<times> paper_event \<times> f64) list \<times> paper" where
  "execute_stop get W t = (\<lambda>(evs, S) p.
     if pos_symbol p \<noteq> t_symbol t \<or> find_ticket (pos_ticket p) S = None then (evs, S)
     else case stop_event W t p S of
       (None, S) \<Rightarrow> (evs, S)
     | (Some (e, c), S) \<Rightarrow>
         (evs @ [(pos_ticket p, e, c)],
          refresh_account get (credit (pos_ticket p) True (realized_pnl p c (pos_volume p))
            (remove_ticket (pos_ticket p) S))))"

definition process_tick_execution ::
  "feed \<Rightarrow> paper_world \<Rightarrow> tick_data \<Rightarrow> paper \<Rightarrow> (int \<times> paper_event \<times> f64) list \<times> paper" where
  "process_tick_execution get W t S =
     (case foldl (execute_stop get W t) ([], S) (pa_positions S) of (evs, S) \<Rightarrow>
        (evs, if evs = [] then S
              else persist_state W (S\<lparr>pa_closed := pa_closed S \<union> fst ` set evs\<rparr>)))"

section \<open>Quotes\<close>

definition after_tick :: "feed \<Rightarrow> paper_world \<Rightarrow> tick_data \<Rightarrow> paper \<Rightarrow> (paper_error + tick_data) \<times> paper" where
  "after_tick get W t S = (Inr t, persist_state W (snd (process_tick_execution get W t (S\<lparr>pa_last_tick := Some t\<rparr>))))"

text \<open>The replay: an exhausted record freezes the market at its last quote.\<close>

definition get_last_tick_replay :: "feed \<Rightarrow> paper_world \<Rightarrow> string \<Rightarrow> paper \<Rightarrow> (paper_error + tick_data) \<times> paper" where
  "get_last_tick_replay get W symbol S =
     (let r = pw_records W (pa_cursor S); S = S\<lparr>pa_cursor := Suc (pa_cursor S)\<rparr>; d = quote_digits symbol
      in case r of
           Some (ts, bid, ask, volume) \<Rightarrow>
             (case mk_tick \<lparr>t_symbol = symbol, t_timestamp = ts, t_bid = round_nd d bid, t_ask = round_nd d ask,
                            t_last = round_nd d bid, t_volume = volume, t_flags = 6\<rparr> of
                Inl _ \<Rightarrow> (Inl Invalid_Tick, S)
              | Inr t \<Rightarrow> after_tick get W t (S\<lparr>pa_price := t_bid t\<rparr>))
         | None \<Rightarrow> (case pa_last_tick S of Some t \<Rightarrow> (Inr t, S) | None \<Rightarrow> (Inl Replay_Unavailable, S)))"

text \<open>\<^verbatim>\<open>max(-b, min(b, x))\<close>\<close>

definition bounded_step :: "f64 \<Rightarrow> f64 \<Rightarrow> f64" where
  "bounded_step b x = pmax (- b) (pmin b x)"

definition walk_step :: "paper_world \<Rightarrow> string \<Rightarrow> tick_draws \<Rightarrow> paper \<Rightarrow> f64 \<times> f64" where
  "walk_step W symbol r S =
     (let scale = effective_spread_scale W S;
          step = (\<lambda>sigma. fl (6 / 10) * pa_prev_step S + (0 + td_normal r * sigma) * pa_vol_block S)
      in if quote_digits symbol = 2 then
           (let lo = pmax (fl (2 / 100)) (pmin (fst (pa_band S) * scale) (Fin 2));
                hi = pmax (lo + fl (2 / 100)) (pmin (snd (pa_band S) * scale) (Fin 3))
            in (bounded_step (fl (55 / 100)) (step (fl (9 / 100))), round_nd 2 (uniform lo hi (td_unit r))))
         else (bounded_step (fl (45 / 100000)) (step (fl (9 / 100000))), round_nd 5 (fl (12 / 100000) * scale)))"

text \<open>The walk reverts half-way to the seed price when it is more than two per cent away.\<close>

definition walked_price :: "f64 \<Rightarrow> f64 \<Rightarrow> f64 \<Rightarrow> f64" where
  "walked_price baseline price step =
     (let c = price + step
      in if 0 < baseline \<and> baseline * fl (2 / 100) < fabs64 (c - baseline) then baseline + (c - baseline) * fl (5 / 10)
         else c)"

definition next_block :: "tick_draws \<Rightarrow> paper \<Rightarrow> paper" where
  "next_block r S =
     (let S = (if pa_block_left S \<le> 0
               then S\<lparr>pa_vol_block := uniform (fl (65 / 100)) (fl (165 / 100)) (td_block r), pa_block_left := td_block_len r\<rparr>
               else S)
      in S\<lparr>pa_block_left := pa_block_left S - 1\<rparr>)"

definition get_last_tick_synthetic :: "feed \<Rightarrow> paper_world \<Rightarrow> string \<Rightarrow> paper \<Rightarrow> (paper_error + tick_data) \<times> paper" where
  "get_last_tick_synthetic get W symbol S =
     (let r = pw_ticks W (pa_drawn S); d = quote_digits symbol;
          S = next_block r (S\<lparr>pa_drawn := Suc (pa_drawn S)\<rparr>);
          (step, spread) = walk_step W symbol r S;
          price = round_nd d (walked_price (seed_price W (upper symbol)) (pa_price S) step);
          S = S\<lparr>pa_prev_step := step, pa_price := price\<rparr>;
          bid = round_nd d price
      in case mk_tick \<lparr>t_symbol = symbol, t_timestamp = td_now r, t_bid = bid, t_ask = round_nd d (bid + spread),
                       t_last = bid, t_volume = float_of_int (td_volume r), t_flags = 6\<rparr> of
           Inl _ \<Rightarrow> (Inl Invalid_Tick, S)
         | Inr t \<Rightarrow> after_tick get W t S)"

text \<open>
  A quote may execute stops, which refresh the account, which asks for quotes of the other symbols
  in the book, and so on: the first argument is the interpreter's recursion limit. Within one
  symbol no second quote is asked for.
\<close>

fun get_last_tick :: "nat \<Rightarrow> paper_world \<Rightarrow> feed" where
  "get_last_tick 0 W symbol S = (Inl Recursion_Limit, S)"
| "get_last_tick (Suc n) W symbol S =
     (if pa_replay S then get_last_tick_replay (get_last_tick n W) W symbol S
      else get_last_tick_synthetic (get_last_tick n W) W symbol S)"

section \<open>Orders\<close>

definition is_stale_tick :: "paper_world \<Rightarrow> paper \<Rightarrow> bool" where
  "is_stale_tick W S \<longleftrightarrow>
     (case pa_last_tick S of None \<Rightarrow> False
      | Some t \<Rightarrow> \<not> pa_replay S \<and> Fin 30 < total_seconds (instant (pw_now W) - instant (t_timestamp t)))"

definition get_symbol_info :: "string \<Rightarrow> symbol_info" where
  "get_symbol_info s =
     (let unit = (if symbol_is_metal s then fl (1 / 100) else fl (1 / 100000))
      in \<lparr>si_symbol = s, si_digits = int (quote_digits s), si_point = unit, si_tick_size = unit, si_tick_value = 1,
          si_volume_min = fl (1 / 100), si_volume_max = Fin 100, si_volume_step = fl (1 / 100), si_stops_level = 10,
          si_freeze_level = 0, si_trade_contract_size = contract_size s\<rparr>)"

definition legal_volume :: "string \<Rightarrow> f64 \<Rightarrow> f64" where
  "legal_volume symbol v =
     (let s = get_symbol_info symbol
      in case normalize_volume v (si_volume_min s) (si_volume_max s) (si_volume_step s) ''floor'' of
           Inr x \<Rightarrow> x | Inl _ \<Rightarrow> v)"

definition ledger_quote :: "string \<Rightarrow> paper \<Rightarrow> f64 \<times> f64 \<times> f64" where
  "ledger_quote symbol S =
     (case cached_tick symbol S of None \<Rightarrow> (0, 0, 0)
      | Some t \<Rightarrow> (t_bid t, t_ask t, round_nd 6 (t_ask t - t_bid t)))"

abbreviation LEDGER_MAXLEN :: nat where "LEDGER_MAXLEN \<equiv> 2000"

text \<open>A ring: a full ledger drops its oldest row and counts it.\<close>

definition ledger_append :: "execution_row \<Rightarrow> paper \<Rightarrow> paper" where
  "ledger_append e S =
     (if LEDGER_MAXLEN \<le> length (pa_ledger S)
      then S\<lparr>pa_ledger := List.tl (pa_ledger S) @ [e], pa_dropped := Suc (pa_dropped S)\<rparr>
      else S\<lparr>pa_ledger := pa_ledger S @ [e]\<rparr>)"

record paper_order =
  po_symbol :: string
  po_type :: order_type
  po_volume :: f64
  po_price :: f64
  po_stop_loss :: f64
  po_take_profit :: f64
  po_magic :: int

definition rejected :: "paper_world \<Rightarrow> paper_order \<Rightarrow> f64 \<times> f64 \<times> f64 \<Rightarrow> string \<Rightarrow> paper \<Rightarrow> paper" where
  "rejected W q quote reason S =
     persist_state W (ledger_append
       \<lparr>er_symbol = po_symbol q, er_type = po_type q, er_volume = po_volume q, er_requested = po_price q,
        er_bid = fst quote, er_ask = fst (snd quote), er_spread = snd (snd quote), er_fill = None, er_slippage = None,
        er_latency = 0, er_rejection = Some reason, er_ticket = 0\<rparr> S)"

text \<open>The slippage comes from a generator seeded with the ticket counter and the price; \<open>None\<close> where \<^verbatim>\<open>int\<close> raises.\<close>

definition fill_price :: "paper_world \<Rightarrow> paper_order \<Rightarrow> tick_data \<Rightarrow> int \<Rightarrow> f64 option" where
  "fill_price W q t n =
     (let raw = (if po_type q = BUY then t_ask t else t_bid t); d = quote_digits (po_symbol q);
          (a, b) = slip_range (po_symbol q)
      in case trunc64 (fabs64 (raw * Fin 100)) of Inl _ \<Rightarrow> None
         | Inr k \<Rightarrow>
             let slip = round_nd d (uniform a b (pw_seeded W (((n * 1009) XOR k) mod 997)))
             in Some (if po_type q = BUY then round_nd d (raw + slip)
                      else let f = round_nd d (raw - slip) in if f \<le> 0 then t_bid t else f))"

definition fill_quote :: "feed \<Rightarrow> paper_order \<Rightarrow> paper \<Rightarrow> tick_data option \<times> int \<times> paper" where
  "fill_quote get q S =
     (case cached_tick (po_symbol q) S of Some t \<Rightarrow> (Some t, 0, S)
      | None \<Rightarrow> (case get (po_symbol q) S of (Inr t, S) \<Rightarrow> (Some t, 1, S) | (Inl _, S) \<Rightarrow> (None, 0, S)))"

definition fill_row :: "paper_order \<Rightarrow> (tick_data \<times> f64) option \<Rightarrow> int \<Rightarrow> int \<Rightarrow> execution_row" where
  "fill_row q f latency ticket =
     (let base = \<lparr>er_symbol = po_symbol q, er_type = po_type q, er_volume = po_volume q, er_requested = po_price q,
            er_bid = 0, er_ask = 0, er_spread = 0, er_fill = Some (po_price q),
            er_slippage = Some (round_nd 6 (po_price q - po_price q)), er_latency = latency, er_rejection = None,
            er_ticket = ticket\<rparr>
      in case f of None \<Rightarrow> base
         | Some (t, x) \<Rightarrow> base\<lparr>er_bid := t_bid t, er_ask := t_ask t, er_spread := round_nd 6 (t_ask t - t_bid t),
             er_fill := Some x, er_slippage := Some (round_nd 6 (x - (if po_type q = BUY then t_ask t else t_bid t)))\<rparr>)"

text \<open>An invalid position raises after the ticket counter has moved.\<close>

definition open_filled ::
  "feed \<Rightarrow> paper_world \<Rightarrow> paper_order \<Rightarrow> (tick_data \<times> f64) option \<Rightarrow> int \<Rightarrow> paper \<Rightarrow> (paper_error + int) \<times> paper" where
  "open_filled get W q f latency S =
     (let n = pa_counter S + 1; S = S\<lparr>pa_counter := n\<rparr>
      in case mk_position \<lparr>pos_ticket = n, pos_symbol = po_symbol q, pos_type = po_type q, pos_volume = po_volume q,
            pos_price_open = (case f of Some (_, x) \<Rightarrow> x | None \<Rightarrow> po_price q), pos_sl = po_stop_loss q,
            pos_tp = po_take_profit q, pos_profit = 0, pos_magic = po_magic q\<rparr> of
           Inl _ \<Rightarrow> (Inl Invalid_Position, S)
         | Inr p \<Rightarrow>
             (Inr n, persist_state W (ledger_append (fill_row q f latency n)
               (refresh_account get (refresh_position_profits get (S\<lparr>pa_positions := pa_positions S @ [p]\<rparr>))))))"

definition free_margin :: "paper \<Rightarrow> f64" where
  "free_margin S = round_nd 2 (pa_equity S - simulated_margin S)"

definition open_simulated_position :: "feed \<Rightarrow> paper_world \<Rightarrow> paper_order \<Rightarrow> paper \<Rightarrow> (paper_error + int) \<times> paper" where
  "open_simulated_position get W q S =
     (let v = po_volume q; legal = legal_volume (po_symbol q) v
      in if v \<le> 0 \<or> po_price q \<le> 0 then (Inr 0, rejected W q (0, 0, 0) ''invalid_size_or_price'' S)
         else if legal \<le> 0 \<or> fl (1 / 1000000000) < fabs64 (legal - v)
         then (Inr 0, rejected W q (ledger_quote (po_symbol q) S) ''invalid_volume'' S)
         else if is_stale_tick W S then (Inr 0, rejected W q (ledger_quote (po_symbol q) S) ''stale_tick_gt_30s'' S)
         else
           let S = refresh_account get (refresh_position_profits get S)
           in if free_margin S < margin_required (po_symbol q) (po_price q) v
              then (Inr 0, rejected W q (ledger_quote (po_symbol q) S) ''insufficient_margin'' S)
              else
                case fill_quote get q S of (quote, latency, S) \<Rightarrow>
                  let f = (case quote of None \<Rightarrow> None
                           | Some t \<Rightarrow> map_option (Pair t) (fill_price W q t (pa_counter S)))
                  in open_filled get W q f latency S)"

definition execute_market_order :: "feed \<Rightarrow> paper_world \<Rightarrow> paper_order \<Rightarrow> paper \<Rightarrow> (paper_error + int) \<times> paper" where
  "execute_market_order get W q S = open_simulated_position get W (q\<lparr>po_magic := 0\<rparr>) S"

text \<open>A pending order is filled at once, with its own type.\<close>

definition place_pending_order :: "feed \<Rightarrow> paper_world \<Rightarrow> paper_order \<Rightarrow> paper \<Rightarrow> (paper_error + int) \<times> paper" where
  "place_pending_order get W q S = open_simulated_position get W (q\<lparr>po_magic := 0\<rparr>) S"

definition send_order :: "feed \<Rightarrow> paper_world \<Rightarrow> trade_order \<Rightarrow> paper \<Rightarrow> (paper_error + bool) \<times> paper" where
  "send_order get W ord S =
     (let k = o_id ord;
          q = \<lparr>po_symbol = o_symbol ord, po_type = o_type ord, po_volume = o_volume ord, po_price = o_price ord,
               po_stop_loss = o_stop_loss ord, po_take_profit = o_take_profit ord, po_magic = o_magic ord\<rparr>;
          (bid, ask, spread) = ledger_quote (o_symbol ord) S
      in if k \<noteq> [] \<and> k \<in> set (pa_seen S) then
           (Inr False, ledger_append
              \<lparr>er_symbol = o_symbol ord, er_type = o_type ord, er_volume = o_volume ord, er_requested = o_price ord,
               er_bid = bid, er_ask = ask, er_spread = spread, er_fill = None, er_slippage = None, er_latency = 0,
               er_rejection = Some ''duplicate_order_id'', er_ticket = 0\<rparr> S)
         else
           case open_simulated_position get W q (if k = [] then S else S\<lparr>pa_seen := k # pa_seen S\<rparr>) of
             (Inl e, S) \<Rightarrow> (Inl e, S)
           | (Inr t, S) \<Rightarrow> (Inr (0 < t), if 0 < t \<or> k = [] then S else S\<lparr>pa_seen := removeAll k (pa_seen S)\<rparr>))"

fun modified :: "int \<Rightarrow> f64 \<Rightarrow> f64 \<Rightarrow> position list \<Rightarrow> position list option" where
  "modified t sl tp [] = None"
| "modified t sl tp (p # ps) =
     (if pos_ticket p = t then Some (p\<lparr>pos_sl := sl, pos_tp := tp\<rparr> # ps) else map_option (Cons p) (modified t sl tp ps))"

definition modify_position :: "int \<Rightarrow> f64 \<Rightarrow> f64 \<Rightarrow> paper \<Rightarrow> bool \<times> paper" where
  "modify_position t sl tp S =
     (case modified t sl tp (pa_positions S) of Some ps \<Rightarrow> (True, S\<lparr>pa_positions := ps\<rparr>) | None \<Rightarrow> (False, S))"

text \<open>A partial close credits its part and books the rest anew; the list removal raises when the quote that priced
  the close has taken the position out of the book.\<close>

definition close_part :: "feed \<Rightarrow> paper_world \<Rightarrow> position \<Rightarrow> f64 \<Rightarrow> f64 \<Rightarrow> paper \<Rightarrow> (paper_error + bool) \<times> paper" where
  "close_part get W p c v S =
     (let S = credit (pos_ticket p) False (realized_pnl p c v) S;
          rest = round_nd 2 (pos_volume p - v);
          q = p\<lparr>pos_volume := rest, pos_profit := realized_pnl p c rest\<rparr>
      in if p \<notin> set (pa_positions S) then (Inl Not_In_List, S)
         else (Inr True, persist_state W (refresh_account get (S\<lparr>pa_positions := remove1 p (pa_positions S) @ [q]\<rparr>))))"

definition close_whole :: "feed \<Rightarrow> paper_world \<Rightarrow> position \<Rightarrow> f64 \<Rightarrow> paper \<Rightarrow> (paper_error + bool) \<times> paper" where
  "close_whole get W p c S =
     (let t = pos_ticket p;
          S = refresh_account get (remove_ticket t (credit t True (realized_pnl p c (pos_volume p)) S))
      in (Inr True, persist_state W (S\<lparr>pa_closed := insert t (pa_closed S)\<rparr>)))"

definition close_position :: "feed \<Rightarrow> paper_world \<Rightarrow> int \<Rightarrow> f64 option \<Rightarrow> paper \<Rightarrow> (paper_error + bool) \<times> paper" where
  "close_position get W t volume S =
     (if t \<in> pa_closed S then (Inr False, S)
      else case find_ticket t S of None \<Rightarrow> (Inr False, S)
      | Some p \<Rightarrow>
          (case quote_of get (pos_symbol p) S of (r, S) \<Rightarrow>
             let c = (case r of Inr tick \<Rightarrow> close_side p tick | Inl _ \<Rightarrow> pos_price_open p)
             in case volume of
                  Some v \<Rightarrow> if v < pos_volume p - fl (1 / 1000000000) then close_part get W p c v S
                            else close_whole get W p c S
                | None \<Rightarrow> close_whole get W p c S))"

section \<open>Account reads and the life of the adapter\<close>

definition refreshed :: "feed \<Rightarrow> paper \<Rightarrow> paper" where
  "refreshed get S = refresh_account get (refresh_position_profits get S)"

definition get_account_info :: "feed \<Rightarrow> paper \<Rightarrow> account_info res \<times> paper" where
  "get_account_info get S =
     (let S = refreshed get S; m = simulated_margin S
      in (mk_account \<lparr>acc_login = 9990001, acc_trade_mode = 0, acc_leverage = PAPER_LEVERAGE, acc_balance = pa_balance S,
            acc_equity = pa_equity S, acc_margin = round_nd 2 m, acc_margin_free = round_nd 2 (pa_equity S - m),
            acc_currency = ''USD''\<rparr>, S))"

fun profits_fresh :: "feed \<Rightarrow> position list \<Rightarrow> paper \<Rightarrow> bool \<times> paper" where
  "profits_fresh get [] S = (True, S)"
| "profits_fresh get (p # ps) S =
     (case current_price_for_pnl get p S of
        (Some c, S) \<Rightarrow> if fabs64 (pos_profit p - realized_pnl p c (pos_volume p)) < fl (3 / 100)
                       then profits_fresh get ps S else (False, S)
      | (None, S) \<Rightarrow> profits_fresh get ps S)"

text \<open>The accounting self-check: \<open>False\<close> where an assertion fails.\<close>

definition reconcile_accounting :: "feed \<Rightarrow> paper \<Rightarrow> bool \<times> paper" where
  "reconcile_accounting get S =
     (case floating_pnl get S of (x, S) \<Rightarrow>
        if fabs64 (pa_equity S - round_nd 2 (pa_balance S + x)) < fl (15 / 1000)
        then profits_fresh get (pa_positions S) S else (False, S))"

definition connect :: "feed \<Rightarrow> paper_world \<Rightarrow> paper \<Rightarrow> paper" where
  "connect get W S = snd (load_state get W (S\<lparr>pa_connected := True\<rparr>))"

definition disconnect :: "paper \<Rightarrow> paper" where
  "disconnect S = S\<lparr>pa_connected := False\<rparr>"

definition clear_execution_ledger :: "paper \<Rightarrow> paper" where
  "clear_execution_ledger S = S\<lparr>pa_ledger := [], pa_dropped := 0\<rparr>"

definition get_positions :: "string option \<Rightarrow> paper \<Rightarrow> position list" where
  "get_positions symbol S =
     (case symbol of None \<Rightarrow> pa_positions S
      | Some s \<Rightarrow> if s = [] then pa_positions S else filter (\<lambda>p. pos_symbol p = s) (pa_positions S))"

section \<open>One symbol: no second quote\<close>

lemma quote_cached: "cached_tick s S = Some t \<Longrightarrow> quote_of get s S = (Inr t, S)"
  by (simp add: quote_of_def)

lemma price_cached:
  "cached_tick (pos_symbol p) S = Some t \<Longrightarrow> current_price_for_pnl get p S = (Some (close_side p t), S)"
  by (simp add: current_price_for_pnl_def quote_cached)

lemma cached_symbol: "cached_tick s S = Some t \<Longrightarrow> t_symbol t = s"
  by (auto simp: cached_tick_def split: option.splits if_splits)

lemma cached_frame [simp]:
  "cached_tick s (S\<lparr>pa_equity := x\<rparr>) = cached_tick s S" "cached_tick s (S\<lparr>pa_positions := ps\<rparr>) = cached_tick s S"
  "cached_tick s (S\<lparr>pa_counter := n\<rparr>) = cached_tick s S" "cached_tick s (S\<lparr>pa_slipped := m\<rparr>) = cached_tick s S"
  "cached_tick s (S\<lparr>pa_closed := c\<rparr>) = cached_tick s S" "cached_tick s (S\<lparr>pa_file := f\<rparr>) = cached_tick s S"
  "cached_tick s (S\<lparr>pa_ledger := l\<rparr>) = cached_tick s S" "cached_tick s (S\<lparr>pa_ledger := l, pa_dropped := m\<rparr>) = cached_tick s S"
  "cached_tick s (S\<lparr>pa_balance := x, pa_credits := cs\<rparr>) = cached_tick s S"
  "cached_tick s (S\<lparr>pa_seen := ks\<rparr>) = cached_tick s S" "cached_tick s (S\<lparr>pa_cursor := m\<rparr>) = cached_tick s S"
  "cached_tick s (S\<lparr>pa_drawn := m\<rparr>) = cached_tick s S" "cached_tick s (S\<lparr>pa_price := x\<rparr>) = cached_tick s S"
  by (simp_all add: cached_tick_def)

definition of_symbol :: "string \<Rightarrow> position list \<Rightarrow> bool" where
  "of_symbol s ps \<longleftrightarrow> (\<forall>p\<in>set ps. pos_symbol p = s)"

lemma of_symbol_simps [simp]:
  "of_symbol s []" "of_symbol s (p # ps) \<longleftrightarrow> pos_symbol p = s \<and> of_symbol s ps"
  "of_symbol s (ps @ qs) \<longleftrightarrow> of_symbol s ps \<and> of_symbol s qs"
  by (auto simp: of_symbol_def)

lemma of_symbol_filter: "of_symbol s ps \<Longrightarrow> of_symbol s (filter P ps)"
  by (auto simp: of_symbol_def)

lemma floating_sum_cached:
  assumes "cached_tick s S = Some t"
  shows "of_symbol s ps \<Longrightarrow> floating_sum get ps tot S =
    (foldl (\<lambda>a p. a + realized_pnl p (close_side p t) (pos_volume p)) tot ps, S)"
  using assms by (induction ps arbitrary: tot) (auto simp: price_cached)

definition floating_at :: "tick_data \<Rightarrow> position list \<Rightarrow> f64" where
  "floating_at t ps = round_nd 2 (foldl (\<lambda>a p. a + realized_pnl p (close_side p t) (pos_volume p)) 0 ps)"

lemma floating_pnl_cached:
  assumes "cached_tick s S = Some t" and "of_symbol s (pa_positions S)"
  shows "floating_pnl get S = (floating_at t (pa_positions S), S)"
  using floating_sum_cached [OF assms] by (simp add: floating_pnl_def floating_at_def)

lemma refresh_account_cached:
  assumes "cached_tick s S = Some t" and "of_symbol s (pa_positions S)"
  shows "refresh_account get S = S\<lparr>pa_equity := round_nd 2 (pa_balance S + floating_at t (pa_positions S))\<rparr>"
  by (simp add: refresh_account_def floating_pnl_cached [OF assms])

text \<open>The book with the stored results brought up to a quote.\<close>

definition repriced :: "tick_data \<Rightarrow> position \<Rightarrow> position" where
  "repriced t p =
     (let x = realized_pnl p (close_side p t) (pos_volume p)
      in if fl (5 / 1000) < fabs64 (pos_profit p - x) then p\<lparr>pos_profit := x\<rparr> else p)"

lemma repriced_frame [simp]:
  "pos_ticket (repriced t p) = pos_ticket p" "pos_symbol (repriced t p) = pos_symbol p"
  "pos_type (repriced t p) = pos_type p" "pos_volume (repriced t p) = pos_volume p"
  "pos_price_open (repriced t p) = pos_price_open p" "pos_sl (repriced t p) = pos_sl p" "pos_tp (repriced t p) = pos_tp p"
  by (simp_all add: repriced_def Let_def)

lemma refreshed_positions_cached:
  assumes "cached_tick s S = Some t"
  shows "of_symbol s ps \<Longrightarrow> refreshed_positions get ps S = (map (repriced t) ps, S)"
  using assms by (induction ps) (auto simp: price_cached repriced_def Let_def)

lemma refresh_profits_cached:
  assumes "cached_tick s S = Some t" and "of_symbol s (pa_positions S)"
  shows "refresh_position_profits get S = S\<lparr>pa_positions := map (repriced t) (pa_positions S)\<rparr>"
  by (simp add: refresh_position_profits_def refreshed_positions_cached [OF assms])

lemma of_symbol_repriced [simp]: "of_symbol s (map (repriced t) ps) = of_symbol s ps"
  by (simp add: of_symbol_def)

lemma refreshed_cached:
  assumes "cached_tick s S = Some t" and "of_symbol s (pa_positions S)"
  shows "refreshed get S = S\<lparr>pa_positions := map (repriced t) (pa_positions S),
    pa_equity := round_nd 2 (pa_balance S + floating_at t (map (repriced t) (pa_positions S)))\<rparr>"
proof -
  have "of_symbol s (pa_positions (S\<lparr>pa_positions := map (repriced t) (pa_positions S)\<rparr>))" using assms(2) by simp
  moreover have "cached_tick s (S\<lparr>pa_positions := map (repriced t) (pa_positions S)\<rparr>) = Some t" using assms(1) by simp
  ultimately show ?thesis
    unfolding refreshed_def refresh_profits_cached [OF assms] using refresh_account_cached by fastforce
qed

section \<open>The book\<close>

definition full_credits :: "paper \<Rightarrow> int list" where
  "full_credits S = map fst (filter (\<lambda>(_, full, _). full) (pa_credits S))"

definition credited :: "f64 \<Rightarrow> (int \<times> bool \<times> f64) list \<Rightarrow> f64" where
  "credited = foldl (\<lambda>b (_, _, x). round_nd 2 (b + x))"

text \<open>
  The invariant of a book on one symbol; \<open>C\<close> are the tickets that count as closed, \<open>b\<close> is the balance
  at the start.
\<close>

definition book_inv :: "f64 \<Rightarrow> string \<Rightarrow> int set \<Rightarrow> paper \<Rightarrow> bool" where
  "book_inv b s C S \<longleftrightarrow> cached_tick s S \<noteq> None \<and> of_symbol s (pa_positions S)
     \<and> distinct (map pos_ticket (pa_positions S)) \<and> (\<forall>t\<in>pos_ticket ` set (pa_positions S). t \<le> pa_counter S \<and> t \<notin> C)
     \<and> (\<forall>t\<in>C. t \<le> pa_counter S) \<and> distinct (full_credits S) \<and> set (full_credits S) \<subseteq> C
     \<and> pa_balance S = credited b (pa_credits S)"

lemma book_inv_frame [simp]:
  "book_inv b s C (S\<lparr>pa_equity := x\<rparr>) = book_inv b s C S" "book_inv b s C (S\<lparr>pa_slipped := m\<rparr>) = book_inv b s C S"
  "book_inv b s C (S\<lparr>pa_file := f\<rparr>) = book_inv b s C S" "book_inv b s C (S\<lparr>pa_closed := c\<rparr>) = book_inv b s C S"
  "book_inv b s C (S\<lparr>pa_ledger := l\<rparr>) = book_inv b s C S"
  "book_inv b s C (S\<lparr>pa_ledger := l, pa_dropped := m\<rparr>) = book_inv b s C S"
  "book_inv b s C (S\<lparr>pa_seen := ks\<rparr>) = book_inv b s C S" "book_inv b s C (S\<lparr>pa_cursor := m\<rparr>) = book_inv b s C S"
  "book_inv b s C (S\<lparr>pa_drawn := m\<rparr>) = book_inv b s C S" "book_inv b s C (S\<lparr>pa_price := x\<rparr>) = book_inv b s C S"
  "book_inv b s C (S\<lparr>pa_prev_step := x\<rparr>) = book_inv b s C S" "book_inv b s C (S\<lparr>pa_connected := y\<rparr>) = book_inv b s C S"
  "book_inv b s C (S\<lparr>pa_block_left := k\<rparr>) = book_inv b s C S" "book_inv b s C (S\<lparr>pa_vol_block := x\<rparr>) = book_inv b s C S"
  by (simp_all add: book_inv_def full_credits_def cached_tick_def)

lemma book_inv_persist [simp]: "book_inv b s C (persist_state W S) = book_inv b s C S"
  and book_inv_ledger [simp]: "book_inv b s C (ledger_append e S) = book_inv b s C S"
  and book_inv_rejected [simp]: "book_inv b s C (rejected W q qt r S) = book_inv b s C S"
  by (simp_all add: persist_state_def ledger_append_def rejected_def)

lemma book_inv_quote: "book_inv b s C S \<Longrightarrow> \<exists>t. cached_tick s S = Some t"
  and book_inv_symbol: "book_inv b s C S \<Longrightarrow> of_symbol s (pa_positions S)"
  by (auto simp: book_inv_def)

lemma book_inv_positions:
  assumes "book_inv b s C S" and "of_symbol s ps" and "distinct (map pos_ticket ps)"
    and "pos_ticket ` set ps = pos_ticket ` set (pa_positions S)"
  shows "book_inv b s C (S\<lparr>pa_positions := ps\<rparr>)"
  using assms by (simp add: book_inv_def full_credits_def)

lemma book_inv_same_tickets:
  assumes "book_inv b s C S" and "of_symbol s ps" and "map pos_ticket ps = map pos_ticket (pa_positions S)"
  shows "book_inv b s C (S\<lparr>pa_positions := ps\<rparr>)"
proof (rule book_inv_positions [OF assms(1,2)])
  show "distinct (map pos_ticket ps)" using assms(1,3) by (simp add: book_inv_def)
  show "pos_ticket ` set ps = pos_ticket ` set (pa_positions S)" using assms(3) by (metis set_map)
qed

lemma book_inv_refresh_account:
  assumes "book_inv b s C S"
  shows "book_inv b s C (refresh_account get S)"
  using book_inv_quote [OF assms] refresh_account_cached [OF _ book_inv_symbol [OF assms]] assms by auto

lemma book_inv_refreshed:
  assumes "book_inv b s C S"
  shows "book_inv b s C (refreshed get S)"
proof -
  obtain t where t: "cached_tick s S = Some t" using book_inv_quote [OF assms] by blast
  have "book_inv b s C (S\<lparr>pa_positions := map (repriced t) (pa_positions S)\<rparr>)"
    by (rule book_inv_same_tickets [OF assms]) (use book_inv_symbol [OF assms] in simp_all)
  then show ?thesis unfolding refreshed_cached [OF t book_inv_symbol [OF assms]] by simp
qed

lemma credited_snoc [simp]: "credited b (cs @ [(t, f, x)]) = round_nd 2 (credited b cs + x)"
  by (simp add: credited_def)

lemma find_ticket_Some: "find_ticket t S = Some p \<Longrightarrow> p \<in> set (pa_positions S) \<and> pos_ticket p = t"
  and find_ticket_None: "find_ticket t S = None \<longleftrightarrow> t \<notin> pos_ticket ` set (pa_positions S)"
  by (auto simp: find_ticket_def find_Some_iff find_None_iff)

lemma book_inv_close:
  assumes "book_inv b s C S" and "t \<in> pos_ticket ` set (pa_positions S)"
  shows "book_inv b s (insert t C) (credit t True x (remove_ticket t S))"
proof -
  have "t \<notin> C" "t \<le> pa_counter S" using assms by (auto simp: book_inv_def)
  moreover have "distinct (map pos_ticket (filter P (pa_positions S)))" for P
    using assms(1) by (auto simp: book_inv_def distinct_map inj_on_def)
  ultimately show ?thesis
    using assms(1) by (auto simp: book_inv_def credit_def remove_ticket_def full_credits_def of_symbol_filter)
qed

lemma book_inv_credit_part:
  assumes "book_inv b s C S"
  shows "book_inv b s C (credit t False x S)"
  using assms by (simp add: book_inv_def credit_def full_credits_def)

lemma stop_event_state: "\<exists>m. snd (stop_event W t p S) = S\<lparr>pa_slipped := m\<rparr>"
proof -
  have "\<exists>m. S = S\<lparr>pa_slipped := m\<rparr>" by (rule exI [of _ "pa_slipped S"]) simp
  then show ?thesis by (auto simp: stop_event_def Let_def slippage_for_close_def)
qed

lemma execute_stop_book:
  assumes "book_inv b s (C \<union> fst ` set evs) S" and "execute_stop get W t (evs, S) p = (evs', S')"
  shows "book_inv b s (C \<union> fst ` set evs') S' \<and> pa_closed S' = pa_closed S"
proof (cases "pos_symbol p \<noteq> t_symbol t \<or> find_ticket (pos_ticket p) S = None")
  case True
  then show ?thesis using assms by (auto simp: execute_stop_def)
next
  case False
  obtain m where m: "snd (stop_event W t p S) = S\<lparr>pa_slipped := m\<rparr>" using stop_event_state by blast
  show ?thesis
  proof (cases "fst (stop_event W t p S)")
    case None
    then have "(evs', S') = (evs, S\<lparr>pa_slipped := m\<rparr>)"
      using assms(2) False m by (auto simp: execute_stop_def split: prod.splits)
    then show ?thesis using assms(1) by simp
  next
    case (Some ec)
    let ?T = "S\<lparr>pa_slipped := m\<rparr>" and ?k = "pos_ticket p"
    let ?x = "realized_pnl p (snd ec) (pos_volume p)"
    have e: "evs' = evs @ [(?k, ec)]" "S' = refresh_account get (credit ?k True ?x (remove_ticket ?k ?T))"
      using assms(2) False m Some by (auto simp: execute_stop_def split: prod.splits)
    have "?k \<in> pos_ticket ` set (pa_positions ?T)" using False find_ticket_None [of ?k S] by auto
    moreover have "book_inv b s (C \<union> fst ` set evs) ?T" using assms(1) by simp
    ultimately have i: "book_inv b s (insert ?k (C \<union> fst ` set evs)) (credit ?k True ?x (remove_ticket ?k ?T))"
      by (intro book_inv_close)
    obtain u where "cached_tick s (credit ?k True ?x (remove_ticket ?k ?T)) = Some u" using book_inv_quote [OF i] by blast
    then have "pa_closed S' = pa_closed S"
      using refresh_account_cached [OF _ book_inv_symbol [OF i], of u get]
      by (simp add: e credit_def remove_ticket_def)
    then show ?thesis using book_inv_refresh_account [OF i, of get] by (simp add: e)
  qed
qed

lemma process_book:
  assumes "book_inv b s (pa_closed S) S"
  shows "book_inv b s (pa_closed (snd (process_tick_execution get W t S))) (snd (process_tick_execution get W t S))"
proof -
  have loop: "book_inv b s (C \<union> fst ` set evs) S0 \<Longrightarrow> foldl (execute_stop get W t) (evs, S0) ps = (evs', S') \<Longrightarrow>
    book_inv b s (C \<union> fst ` set evs') S' \<and> pa_closed S' = pa_closed S0" for C evs S0 ps evs' S'
  proof (induction ps arbitrary: evs S0)
    case (Cons p ps)
    obtain evs1 S1 where one: "execute_stop get W t (evs, S0) p = (evs1, S1)" by (metis surj_pair)
    have "book_inv b s (C \<union> fst ` set evs1) S1 \<and> pa_closed S1 = pa_closed S0"
      by (rule execute_stop_book [OF Cons.prems(1) one])
    moreover have "foldl (execute_stop get W t) (evs1, S1) ps = (evs', S')" using Cons.prems(2) one by simp
    ultimately show ?case using Cons.IH [of evs1 S1] by simp
  qed simp
  obtain evs S' where f: "foldl (execute_stop get W t) ([], S) (pa_positions S) = (evs, S')" by (metis surj_pair)
  have "book_inv b s (pa_closed S \<union> fst ` set evs) S'" "pa_closed S' = pa_closed S"
    using loop [OF _ f, of "pa_closed S"] assms by simp_all
  then show ?thesis
    by (auto simp: process_tick_execution_def f persist_state_def)
qed

text \<open>A quote of the book's own symbol.\<close>

lemma after_tick_book:
  assumes "book_inv b s (pa_closed S) S" and "t_symbol t = s" and "after_tick get W t S = (r, S')"
  shows "book_inv b s (pa_closed S') S'"
proof -
  have "book_inv b s (pa_closed (S\<lparr>pa_last_tick := Some t\<rparr>)) (S\<lparr>pa_last_tick := Some t\<rparr>)"
    using assms(1,2) by (simp add: book_inv_def cached_tick_def full_credits_def)
  then show ?thesis
    using process_book [where get = get and W = W and t = t] assms(3)
    by (auto simp: after_tick_def persist_state_def)
qed

lemma mk_tick_symbol: "mk_tick t = Inr u \<Longrightarrow> t_symbol u = t_symbol t"
  by (auto simp: mk_tick_def Let_def ret_def raise_def split: if_splits)

lemma next_block_frame:
  "\<exists>x k. next_block r S = S\<lparr>pa_vol_block := x, pa_block_left := k\<rparr>"
  by (rule exI [of _ "pa_vol_block (next_block r S)"], rule exI [of _ "pa_block_left (next_block r S)"])
     (simp add: next_block_def Let_def)

lemma get_last_tick_book:
  assumes "book_inv b s (pa_closed S) S" and "get_last_tick (Suc n) W s S = (r, S')"
  shows "book_inv b s (pa_closed S') S'"
proof (cases "pa_replay S")
  case True
  then show ?thesis using assms
    by (auto simp: get_last_tick_replay_def Let_def split: option.splits sum.splits prod.splits
        dest!: mk_tick_symbol) (erule after_tick_book [rotated 2]; simp)
next
  case False
  obtain x k where nb: "next_block (pw_ticks W (pa_drawn S)) (S\<lparr>pa_drawn := Suc (pa_drawn S)\<rparr>) =
      S\<lparr>pa_drawn := Suc (pa_drawn S), pa_vol_block := x, pa_block_left := k\<rparr>"
    using next_block_frame by fastforce
  show ?thesis using assms False
    by (auto simp: get_last_tick_synthetic_def Let_def nb split: sum.splits prod.splits
        dest!: mk_tick_symbol) (erule after_tick_book [rotated 2]; simp)
qed

section \<open>Sessions\<close>

datatype paper_op =
    PQ_Tick paper_world
  | PQ_Market paper_world paper_order
  | PQ_Pending paper_world paper_order
  | PQ_Order paper_world trade_order
  | PQ_Modify int f64 f64
  | PQ_Close paper_world int "f64 option"
  | PQ_Account paper_world
  | PQ_Stops paper_world tick_data

text \<open>The operations of a session that trades one symbol; the recursion limit is any positive number.\<close>

fun paper_step :: "nat \<Rightarrow> string \<Rightarrow> paper \<Rightarrow> paper_op \<Rightarrow> paper" where
  "paper_step n s S (PQ_Tick W) = snd (get_last_tick (Suc n) W s S)"
| "paper_step n s S (PQ_Market W q) = snd (execute_market_order (get_last_tick (Suc n) W) W (q\<lparr>po_symbol := s\<rparr>) S)"
| "paper_step n s S (PQ_Pending W q) = snd (place_pending_order (get_last_tick (Suc n) W) W (q\<lparr>po_symbol := s\<rparr>) S)"
| "paper_step n s S (PQ_Order W ord) = snd (send_order (get_last_tick (Suc n) W) W (ord\<lparr>o_symbol := s\<rparr>) S)"
| "paper_step n s S (PQ_Modify t sl tp) = snd (modify_position t sl tp S)"
| "paper_step n s S (PQ_Close W t v) = snd (close_position (get_last_tick (Suc n) W) W t v S)"
| "paper_step n s S (PQ_Account W) = snd (get_account_info (get_last_tick (Suc n) W) S)"
| "paper_step n s S (PQ_Stops W t) = snd (process_tick_execution (get_last_tick (Suc n) W) W t S)"

definition book_ok :: "f64 \<Rightarrow> string \<Rightarrow> paper \<Rightarrow> bool" where
  "book_ok b s S \<longleftrightarrow> book_inv b s (pa_closed S) S"

lemma closed_frame [simp]:
  "pa_closed (rejected W q qt r S) = pa_closed S" "pa_closed (persist_state W S) = pa_closed S"
  "pa_closed (ledger_append e S) = pa_closed S" "pa_closed (credit t f x S) = pa_closed S"
  "pa_closed (remove_ticket t S) = pa_closed S"
  by (simp_all add: rejected_def persist_state_def ledger_append_def credit_def remove_ticket_def)

lemma refreshed_closed:
  assumes "book_inv b s C S"
  shows "pa_closed (refreshed get S) = pa_closed S" "pa_closed (refresh_account get S) = pa_closed S"
proof -
  obtain t where t: "cached_tick s S = Some t" using book_inv_quote [OF assms] by blast
  show "pa_closed (refreshed get S) = pa_closed S" "pa_closed (refresh_account get S) = pa_closed S"
    using refreshed_cached [OF t book_inv_symbol [OF assms], of get]
      refresh_account_cached [OF t book_inv_symbol [OF assms], of get] by simp_all
qed

lemma mk_position_ret: "mk_position p = Inr q \<Longrightarrow> q = p"
  by (auto simp: mk_position_def ret_def raise_def split: if_splits)

lemma open_filled_Inr:
  assumes "open_filled get W q f l S = (Inr n, S')"
  obtains p where "n = pa_counter S + 1" "pos_ticket p = n" "pos_symbol p = po_symbol q" "pos_type p = po_type q"
    "pos_sl p = po_stop_loss q" "S' = persist_state W (ledger_append (fill_row q f l n)
        (refreshed get (S\<lparr>pa_counter := n, pa_positions := pa_positions S @ [p]\<rparr>)))"
proof -
  let ?p = "\<lparr>pos_ticket = pa_counter S + 1, pos_symbol = po_symbol q, pos_type = po_type q, pos_volume = po_volume q,
            pos_price_open = (case f of Some (_, x) \<Rightarrow> x | None \<Rightarrow> po_price q), pos_sl = po_stop_loss q,
            pos_tp = po_take_profit q, pos_profit = 0, pos_magic = po_magic q\<rparr>"
  show ?thesis
    by (rule that [of ?p])
       (use assms in \<open>auto simp: open_filled_def Let_def refreshed_def dest!: mk_position_ret split: sum.splits\<close>)
qed

lemma open_filled_book:
  assumes "book_ok b s S" and "po_symbol q = s" and "open_filled get W q f l S = (r, S')"
  shows "book_ok b s S'"
proof -
  let ?n = "pa_counter S + 1"
  let ?S = "S\<lparr>pa_counter := ?n\<rparr>"
  let ?p = "\<lparr>pos_ticket = ?n, pos_symbol = po_symbol q, pos_type = po_type q, pos_volume = po_volume q,
            pos_price_open = (case f of Some (_, x) \<Rightarrow> x | None \<Rightarrow> po_price q), pos_sl = po_stop_loss q,
            pos_tp = po_take_profit q, pos_profit = 0, pos_magic = po_magic q\<rparr>"
  have i: "book_inv b s (pa_closed ?S) ?S" using assms(1) by (auto simp: book_ok_def book_inv_def full_credits_def)
  have "\<forall>t\<in>pa_closed S. t \<noteq> ?n" "\<forall>t\<in>pos_ticket ` set (pa_positions S). t \<noteq> ?n"
    using assms(1) by (fastforce simp: book_ok_def book_inv_def)+
  then have j: "book_inv b s (pa_closed S) (?S\<lparr>pa_positions := pa_positions S @ [?p]\<rparr>)"
    using i assms(2) by (auto simp: book_inv_def full_credits_def)
  show ?thesis
    using assms(3) i book_inv_refreshed [OF j, of get] refreshed_closed [OF j, of get]
    by (auto simp: open_filled_def Let_def book_ok_def refreshed_def dest!: mk_position_ret split: sum.splits)
qed

lemma open_book:
  assumes "book_ok b s S" and "po_symbol q = s" and "open_simulated_position (get_last_tick (Suc n) W) W q S = (r, S')"
  shows "book_ok b s S'"
proof -
  let ?get = "get_last_tick (Suc n) W"
  have i: "book_inv b s (pa_closed S) S" using assms(1) by (simp add: book_ok_def)
  have R: "book_ok b s (refreshed ?get S)" using book_inv_refreshed [OF i] refreshed_closed [OF i] by (simp add: book_ok_def)
  obtain t where "cached_tick s (refreshed ?get S) = Some t" using R book_inv_quote unfolding book_ok_def by blast
  then have q: "fill_quote ?get q (refreshed ?get S) = (Some t, 0, refreshed ?get S)"
    by (simp add: fill_quote_def assms(2))
  have rej: "book_ok b s (rejected W q qt x T) = book_ok b s T" for qt x T by (simp add: book_ok_def)
  show ?thesis
    using assms(3) assms(1) R open_filled_book [OF R assms(2)]
    by (auto simp: open_simulated_position_def Let_def refreshed_def [symmetric] q rej simp del: get_last_tick.simps
        split: if_splits)
qed

lemma modified_frame:
  "modified t sl tp ps = Some qs \<Longrightarrow> map pos_ticket qs = map pos_ticket ps \<and> (of_symbol s ps \<longrightarrow> of_symbol s qs)"
  by (induction ps arbitrary: qs) (auto split: if_splits)

lemma modify_book:
  assumes "book_ok b s S"
  shows "book_ok b s (snd (modify_position t sl tp S))"
proof (cases "modified t sl tp (pa_positions S)")
  case None
  then show ?thesis using assms by (simp add: modify_position_def)
next
  case (Some ps)
  have i: "book_inv b s (pa_closed S) S" using assms by (simp add: book_ok_def)
  have "book_inv b s (pa_closed S) (S\<lparr>pa_positions := ps\<rparr>)"
    by (rule book_inv_same_tickets [OF i]) (use modified_frame [OF Some] book_inv_symbol [OF i] in auto)
  then show ?thesis by (simp add: modify_position_def Some book_ok_def)
qed

lemma close_whole_book:
  assumes "book_ok b s S" and "p \<in> set (pa_positions S)"
  shows "book_ok b s (snd (close_whole get W p c S))"
proof -
  let ?t = "pos_ticket p" and ?x = "realized_pnl p c (pos_volume p)"
  have e: "remove_ticket ?t (credit ?t True ?x S) = credit ?t True ?x (remove_ticket ?t S)"
    by (simp add: remove_ticket_def credit_def)
  have i: "book_inv b s (insert ?t (pa_closed S)) (credit ?t True ?x (remove_ticket ?t S))"
    by (rule book_inv_close) (use assms in \<open>auto simp: book_ok_def\<close>)
  show ?thesis
    using book_inv_refresh_account [OF i, of get] refreshed_closed(2) [OF i, of get]
    by (simp add: close_whole_def Let_def e book_ok_def)
qed

lemma close_part_book:
  assumes "book_ok b s S" and "p \<in> set (pa_positions S)"
  shows "book_ok b s (snd (close_part get W p c v S))"
proof -
  let ?S = "credit (pos_ticket p) False (realized_pnl p c v) S" and ?ps = "pa_positions S"
  let ?r = "round_nd 2 (pos_volume p - v)"
  let ?q = "p\<lparr>pos_volume := ?r, pos_profit := realized_pnl p c ?r\<rparr>"
  have i: "book_inv b s (pa_closed S) ?S"
    using assms(1) by (simp add: book_ok_def book_inv_credit_part)
  have ps: "pa_positions ?S = ?ps" by (simp add: credit_def)
  have d: "distinct (map pos_ticket ?ps)" using assms(1) by (simp add: book_ok_def book_inv_def)
  then have set: "set (remove1 p ?ps) = set ?ps - {p}" and inj: "inj_on pos_ticket (set ?ps)"
    by (auto simp: distinct_map)
  have "distinct (remove1 p ?ps)" using d by (simp add: distinct_map)
  then have "distinct (map pos_ticket (remove1 p ?ps @ [?q]))"
    using inj assms(2) by (auto simp: distinct_map set inj_on_def)
  moreover have "pos_ticket ` set (remove1 p ?ps @ [?q]) = pos_ticket ` set ?ps"
    using assms(2) by (auto simp: set)
  moreover have "of_symbol s (remove1 p ?ps @ [?q])"
    using assms(2) book_inv_symbol [OF i] by (auto simp: ps of_symbol_def set)
  ultimately have j: "book_inv b s (pa_closed S) (?S\<lparr>pa_positions := remove1 p ?ps @ [?q]\<rparr>)"
    using book_inv_positions [OF i] by (simp add: ps)
  have "pa_closed (?S\<lparr>pa_positions := remove1 p ?ps @ [?q]\<rparr>) = pa_closed S" by (simp add: credit_def)
  then show ?thesis
    using book_inv_refresh_account [OF j, of get] refreshed_closed(2) [OF j, of get] assms(2)
    by (simp add: close_part_def Let_def ps book_ok_def)
qed

lemma close_book:
  assumes "book_ok b s S"
  shows "book_ok b s (snd (close_position get W t v S))"
proof (cases "t \<in> pa_closed S \<or> find_ticket t S = None")
  case True
  then show ?thesis using assms by (auto simp: close_position_def)
next
  case False
  then obtain p where f: "find_ticket t S = Some p" by auto
  then have p: "p \<in> set (pa_positions S)" using find_ticket_Some by blast
  have i: "book_inv b s (pa_closed S) S" using assms by (simp add: book_ok_def)
  obtain u where u: "cached_tick (pos_symbol p) S = Some u"
    using book_inv_quote [OF i] book_inv_symbol [OF i] p by (auto simp: of_symbol_def)
  show ?thesis
    using False close_whole_book [OF assms p] close_part_book [OF assms p]
    by (auto simp: close_position_def f quote_cached [OF u] Let_def split: option.splits)
qed

lemma send_book:
  assumes "book_ok b s S" and "o_symbol ord = s"
  shows "book_ok b s (snd (send_order (get_last_tick (Suc n) W) W ord S))"
proof -
  have seen: "book_ok b s (S\<lparr>pa_seen := ks\<rparr>) = book_ok b s S" for ks S by (simp add: book_ok_def)
  have led: "book_ok b s (ledger_append e S) = book_ok b s S" for e S by (simp add: book_ok_def)
  define get where "get = get_last_tick (Suc n) W"
  have op: "book_ok b s S' \<Longrightarrow> po_symbol q = s \<Longrightarrow> book_ok b s (snd (open_simulated_position get W q S'))" for S' q
    using open_book [where n = n and W = W] unfolding get_def by (metis prod.collapse)
  let ?q = "\<lparr>po_symbol = o_symbol ord, po_type = o_type ord, po_volume = o_volume ord, po_price = o_price ord,
               po_stop_loss = o_stop_loss ord, po_take_profit = o_take_profit ord, po_magic = o_magic ord\<rparr>"
  let ?S = "if o_id ord = [] then S else S\<lparr>pa_seen := o_id ord # pa_seen S\<rparr>"
  obtain r T where o: "open_simulated_position get W ?q ?S = (r, T)" by (metis surj_pair)
  have "book_ok b s ?S" "po_symbol ?q = s" using assms by (simp_all add: seen)
  then have "book_ok b s (snd (open_simulated_position get W ?q ?S))" by (rule op)
  then have "book_ok b s T" by (simp only: o snd_conv)
  then show ?thesis
    using assms(1) o unfolding get_def [symmetric]
    by (cases r; cases "o_id ord = []"; cases "ledger_quote (o_symbol ord) S")
       (simp_all add: send_order_def seen led Let_def)
qed

lemma step_book:
  assumes "book_ok b s S"
  shows "book_ok b s (paper_step n s S e)"
proof -
  have i: "book_inv b s (pa_closed S) S" using assms by (simp add: book_ok_def)
  show ?thesis
  proof (cases e)
    case (PQ_Tick W)
    then show ?thesis using get_last_tick_book [OF i, of n W] unfolding book_ok_def
      by (metis paper_step.simps(1) prod.collapse)
  next
    case (PQ_Market W q)
    then show ?thesis
      using open_book [OF assms, of "q\<lparr>po_symbol := s, po_magic := 0\<rparr>" n W]
      by (simp add: execute_market_order_def del: get_last_tick.simps) (metis prod.collapse)
  next
    case (PQ_Pending W q)
    then show ?thesis
      using open_book [OF assms, of "q\<lparr>po_symbol := s, po_magic := 0\<rparr>" n W]
      by (simp add: place_pending_order_def del: get_last_tick.simps) (metis prod.collapse)
  next
    case (PQ_Order W ord)
    then show ?thesis using send_book [OF assms, of "ord\<lparr>o_symbol := s\<rparr>" n W] by (simp del: get_last_tick.simps)
  next
    case (PQ_Modify t sl tp)
    then show ?thesis using modify_book [OF assms] by simp
  next
    case (PQ_Close W t v)
    then show ?thesis using close_book [OF assms] by (simp del: get_last_tick.simps)
  next
    case (PQ_Account W)
    then show ?thesis using book_inv_refreshed [OF i] refreshed_closed [OF i]
      by (simp add: get_account_info_def Let_def book_ok_def del: get_last_tick.simps)
  next
    case (PQ_Stops W t)
    then show ?thesis using process_book [OF i] by (simp add: book_ok_def del: get_last_tick.simps)
  qed
qed

text \<open>A new adapter after its first quote.\<close>

definition first_quote :: "tick_data \<Rightarrow> paper \<Rightarrow> paper" where
  "first_quote t S = S\<lparr>pa_positions := [], pa_closed := {}, pa_credits := [], pa_last_tick := Some t\<rparr>"

interpretation book: step_invariant "paper_step n (t_symbol t)" "first_quote t S" "book_ok (pa_balance S) (t_symbol t)" for n t S
proof
  show "book_ok (pa_balance S) (t_symbol t) (first_quote t S)"
    by (simp add: book_ok_def book_inv_def first_quote_def cached_tick_def full_credits_def credited_def)
qed (rule step_book)

text \<open>C14: in a session on one symbol that begins with a quote and an empty book every ticket is closed for money at
  most once, whatever ticks, stops, manual closes, partial closes and orders come in whatever order, a
  closed ticket never stands in the book, and the balance is the initial one with the credited results
  added and rounded to cents one after the other.\<close>

theorem tickets_credited_once:
  "let S' = run (paper_step n (t_symbol t)) (first_quote t S) es
   in distinct (full_credits S') \<and> set (full_credits S') \<inter> pos_ticket ` set (pa_positions S') = {}
      \<and> pa_balance S' = credited (pa_balance S) (pa_credits S')"
  using book.inv_run [of S t n es] by (auto simp: book_ok_def book_inv_def Let_def)

section \<open>Stops that fire\<close>

lemma stop_fires:
  assumes "0 < pos_sl p" and "if pos_type p = BUY then t_bid t \<le> pos_sl p else pos_sl p \<le> t_ask t"
  shows "\<exists>c m. stop_event W t p S = (Some (SL_HIT, c), S\<lparr>pa_slipped := m\<rparr>)"
  using assms by (auto simp: stop_event_def Let_def slippage_for_close_def)

lemma process_single:
  assumes "pa_positions S = [p]" and "t_symbol t = pos_symbol p" and "0 < pos_sl p"
    and "if pos_type p = BUY then t_bid t \<le> pos_sl p else pos_sl p \<le> t_ask t"
  shows "\<exists>c x S'. process_tick_execution get W t S = ([(pos_ticket p, SL_HIT, c)], S') \<and> pa_positions S' = []
    \<and> pa_credits S' = pa_credits S @ [(pos_ticket p, True, x)] \<and> pa_closed S' = insert (pos_ticket p) (pa_closed S)
    \<and> pa_last_tick S' = pa_last_tick S"
proof -
  obtain c m where "stop_event W t p S = (Some (SL_HIT, c), S\<lparr>pa_slipped := m\<rparr>)" using stop_fires [OF assms(3,4)] by blast
  then show ?thesis
    by (simp add: process_tick_execution_def assms(1,2) execute_stop_def find_ticket_def refresh_account_def
        floating_pnl_def credit_def remove_ticket_def persist_state_def)
qed

text \<open>A first quote: the operation ends with the execution of the stops on it.\<close>

lemma get_last_tick_first:
  assumes "get_last_tick (Suc n) W s S = (Inr t, U)" and "pa_last_tick S = None"
  shows "t_symbol t = s \<and> (\<exists>S0 get. (Inr t, U) = after_tick get W t S0 \<and> pa_positions S0 = pa_positions S
    \<and> pa_credits S0 = pa_credits S \<and> pa_closed S0 = pa_closed S)"
proof (cases "pa_replay S")
  case True
  then show ?thesis using assms
    by (fastforce simp: get_last_tick_replay_def after_tick_def Let_def split: option.splits sum.splits prod.splits
        dest!: mk_tick_symbol)
next
  case False
  obtain x k where nb: "next_block (pw_ticks W (pa_drawn S)) (S\<lparr>pa_drawn := Suc (pa_drawn S)\<rparr>) =
      S\<lparr>pa_drawn := Suc (pa_drawn S), pa_vol_block := x, pa_block_left := k\<rparr>"
    using next_block_frame by fastforce
  show ?thesis using assms False
    by (fastforce simp: get_last_tick_synthetic_def after_tick_def Let_def nb split: sum.splits prod.splits
        dest!: mk_tick_symbol)
qed

text \<open>C15: a restart with an open position whose stop is already behind the first quote books the loss twice. The
  quote is drawn while the stored results are being refreshed; it closes the position and credits the
  result, and then the refresh writes the list it began with back over the book. The ticket is now
  closed and open at once: no close request can remove it, and the next quote beyond the stop credits
  it again.\<close>

theorem restart_credits_twice:
  assumes "persist_enabled W" and "pa_file S = Some f" and "sv_symbol f = pa_symbol S" and "pa_last_tick S = None"
    and "build_state_candidate f S = Some T" and "pa_positions T = [p]" and "pos_type p = BUY" and "0 < pos_sl p"
    and "get_last_tick (Suc n) W (pos_symbol p) T = (Inr t, U)" and "t_bid t \<le> pos_sl p"
    and "t_symbol t' = pos_symbol p" and "t_bid t' \<le> pos_sl p"
    and "S' = snd (load_state (get_last_tick (Suc n) W) W S)"
  shows "pos_ticket p \<in> pa_closed S' \<and> map pos_ticket (pa_positions S') = [pos_ticket p]
    \<and> close_position get W' (pos_ticket p) v S' = (Inr False, S')
    \<and> (\<exists>x y. pa_credits (snd (process_tick_execution get W' t' S'))
          = pa_credits S @ [(pos_ticket p, True, x), (pos_ticket p, True, y)])"
proof -
  let ?get = "get_last_tick (Suc n) W" and ?k = "pos_ticket p"
  have T: "pa_last_tick T = None" "pa_credits T = pa_credits S"
    using assms(4,5) by (auto simp: build_state_candidate_def split: option.splits if_splits)
  obtain S0 get0 where t: "t_symbol t = pos_symbol p" and U: "(Inr t, U) = after_tick get0 W t S0"
    "pa_positions S0 = [p]" "pa_credits S0 = pa_credits S"
    using get_last_tick_first [OF assms(9) T(1)] assms(6) T(2) by metis
  obtain x where P: "pa_positions U = []" "pa_credits U = pa_credits S @ [(?k, True, x)]" "?k \<in> pa_closed U"
    "cached_tick (pos_symbol p) U = Some t"
    using process_single [of "S0\<lparr>pa_last_tick := Some t\<rparr>" p t get0 W] U assms(7,8,10) t
    by (auto simp: after_tick_def persist_state_def cached_tick_def split: if_splits)
  have r: "refresh_position_profits ?get T = U\<lparr>pa_positions := [repriced t p]\<rparr>"
    using assms(9) T(1)
    by (simp add: refresh_position_profits_def assms(6) current_price_for_pnl_def quote_of_def cached_tick_def
        repriced_def Let_def del: get_last_tick.simps)
  have S': "S' = (refresh_account ?get (U\<lparr>pa_positions := [repriced t p]\<rparr>))"
    unfolding assms(13) using assms(1,2,3,5) by (simp add: load_state_def r del: get_last_tick.simps)
  have acc: "refresh_account ?get (U\<lparr>pa_positions := [repriced t p]\<rparr>) =
      U\<lparr>pa_positions := [repriced t p], pa_equity := round_nd 2 (pa_balance U + floating_at t [repriced t p])\<rparr>"
    using refresh_account_cached [of "pos_symbol p" "U\<lparr>pa_positions := [repriced t p]\<rparr>" t ?get] P(4) by simp
  obtain y where "pa_credits (snd (process_tick_execution get W' t' S')) = pa_credits S' @ [(?k, True, y)]"
    using process_single [of S' "repriced t p" t' get W'] assms(7,8,11,12) by (auto simp: S' acc)
  then show ?thesis using P by (simp add: S' acc close_position_def)
qed

text \<open>C16: a pending buy is booked as a short: the paper broker fills it at once with its own type, and everything
  that is not a plain buy is priced and stopped as a sell. The first quote whose ask is above the stop,
  which for a buy order is any quote near the market, closes it as stopped out.\<close>

theorem pending_buy_booked_short:
  assumes "place_pending_order get W q S = (Inr n, S')" and "0 < n" and "po_type q = BUY_LIMIT \<or> po_type q = BUY_STOP"
    and "0 < po_stop_loss q" and "pa_positions S = []" and "cached_tick (po_symbol q) S = Some u"
    and "t_symbol t = po_symbol q" and "po_stop_loss q \<le> t_ask t"
  shows "\<exists>p c. pa_positions S' = [p] \<and> pos_ticket p = n
    \<and> realized_pnl p x v = round_nd 2 (price_delta_value v (contract_size (po_symbol q)) (- 1 * (x - pos_price_open p)) 1)
    \<and> fst (process_tick_execution get' W' t S') = [(n, SL_HIT, c)]"
proof -
  let ?q = "q\<lparr>po_magic := 0\<rparr>"
  have R: "refreshed get S = S\<lparr>pa_positions := [], pa_equity := round_nd 2 (pa_balance S + floating_at u [])\<rparr>"
    using refreshed_cached [OF assms(6)] assms(5) by simp
  have q: "fill_quote get ?q (refreshed get S) = (Some u, 0, refreshed get S)"
    using assms(6) by (simp add: fill_quote_def R)
  obtain f l where o: "open_filled get W ?q f l (refreshed get S) = (Inr n, S')"
    using assms(1,2) by (auto simp: place_pending_order_def open_simulated_position_def Let_def q
        refreshed_def [symmetric] split: if_splits)
  obtain p where p: "pos_ticket p = n" "pos_symbol p = po_symbol q" "pos_type p = po_type q" "pos_sl p = po_stop_loss q"
    and S': "S' = persist_state W (ledger_append (fill_row ?q f l n)
        (refreshed get (refreshed get S\<lparr>pa_counter := n, pa_positions := [p]\<rparr>)))"
    using open_filled_Inr [OF o] by (simp add: R) metis
  have c: "cached_tick (pos_symbol p) (refreshed get S\<lparr>pa_counter := n, pa_positions := [p]\<rparr>) = Some u"
    using assms(6) p(2) by (simp add: R cached_tick_def)
  have ps: "pa_positions S' = [repriced u p]"
    using refreshed_cached [OF c, of get] by (simp add: S' persist_state_def ledger_append_def)
  have b: "pos_type p \<noteq> BUY" using p(3) assms(3) by auto
  obtain k where "fst (process_tick_execution get' W' t S') = [(n, SL_HIT, k)]"
    using process_single [OF ps, of t get' W'] assms(4,7,8) b p by auto
  then show ?thesis using ps p b by (auto simp: realized_pnl_def)
qed

text \<open>An accepted order had a positive volume on the broker's grid, a quote not older than 30 seconds, and its
  margin fits the free margin of the refreshed account.\<close>

theorem accepted_order_passed_checks:
  assumes "open_simulated_position get W q S = (Inr n, S')" and "0 < n"
  shows "0 < po_volume q \<and> \<not> legal_volume (po_symbol q) (po_volume q) \<le> 0
    \<and> \<not> fl (1 / 1000000000) < fabs64 (legal_volume (po_symbol q) (po_volume q) - po_volume q)
    \<and> \<not> is_stale_tick W S
    \<and> \<not> free_margin (refreshed get S) < margin_required (po_symbol q) (po_price q) (po_volume q)"
proof -
  have c: "\<not> po_volume q \<le> 0" "\<not> legal_volume (po_symbol q) (po_volume q) \<le> 0"
    "\<not> fl (1 / 1000000000) < fabs64 (legal_volume (po_symbol q) (po_volume q) - po_volume q)" "\<not> is_stale_tick W S"
    "\<not> free_margin (refreshed get S) < margin_required (po_symbol q) (po_price q) (po_volume q)"
    using assms by (auto simp: open_simulated_position_def Let_def refreshed_def split: if_splits)
  have "legal_volume s NaN = 0" for s
    by (simp add: legal_volume_def get_symbol_info_def normalize_volume_def ret_def)
  then have "po_volume q \<noteq> NaN" using c(2) by (auto simp: zero_f64_Fin)
  then have "0 < po_volume q" using c(1) by (cases "po_volume q") (auto simp: zero_f64_Fin)
  then show ?thesis using c by simp
qed

text \<open>A saved state is read back exactly.\<close>

theorem saved_state_read_back:
  assumes "isfinite (pa_balance S)" "0 \<le> pa_balance S" "isfinite (pa_equity S)" "0 \<le> pa_equity S" "0 \<le> pa_counter S"
    and "finite (pa_closed S)" and "\<forall>t\<in>pa_closed S. 0 \<le> t" and "\<forall>p\<in>set (pa_positions S). mk_position p = ret p"
  shows "build_state_candidate (saved_of S) R = Some (R\<lparr>pa_balance := pa_balance S, pa_equity := pa_equity S,
    pa_counter := pa_counter S, pa_closed := pa_closed S, pa_positions := pa_positions S\<rparr>)"
proof -
  have nn: "\<not> x < 0" if "0 \<le> x" for x :: f64 using that by (cases x) (auto simp: zero_f64_Fin)
  have ints: "all_some (map int_of_json (map JInt xs)) = Some xs" for xs by (induction xs) simp_all
  have closed: "closed_candidate (sv_closed (saved_of S)) = Some (pa_closed S)"
    using assms(6,7) ints [of "sorted_list_of_set (pa_closed S)"] by (auto simp: closed_candidate_def saved_of_def not_less)
  show ?thesis
    unfolding build_state_candidate_def closed
    using assms(1-5,8) by (simp add: saved_of_def validated_float_def nn ret_def)
qed

section \<open>Samples\<close>

definition sample_draws :: tick_draws where
  "sample_draws = \<lparr>td_now = utc 1000000, td_block = Fin (1 / 2), td_block_len = 20, td_normal = 0, td_unit = Fin (1 / 2), td_volume = 3\<rparr>"

definition sample_world :: paper_world where
  "sample_world = \<lparr>pw_env = (\<lambda>_. None), pw_ticks = (\<lambda>_. sample_draws), pw_units = (\<lambda>_. Fin (1 / 2)),
     pw_seeded = (\<lambda>_. Fin (1 / 2)), pw_records = (\<lambda>_. None), pw_now = utc 2000000\<rparr>"

definition sample_long :: position where
  "sample_long = \<lparr>pos_ticket = 100002, pos_symbol = ''XAUUSD'', pos_type = BUY, pos_volume = fl (1 / 100),
     pos_price_open = Fin 4430, pos_sl = Fin 4410, pos_tp = 0, pos_profit = 0, pos_magic = 0\<rparr>"

definition sample_file :: saved_state where
  "sample_file = \<lparr>sv_balance = Some (JFloat (Fin 10000)), sv_equity = Some (JFloat (Fin 10000)),
     sv_counter = Some (JInt 100002), sv_closed = Some (JArr []), sv_positions = [sample_long], sv_symbol = ''XAUUSD''\<rparr>"

definition sample_paper :: paper where
  "sample_paper = mk_paper sample_world None (Fin 10000) ''XAUUSD'' False (Some sample_file)"

definition sample_loaded :: paper where
  "sample_loaded = sample_paper\<lparr>pa_balance := Fin 10000, pa_equity := Fin 10000, pa_counter := 100002,
     pa_closed := {}, pa_positions := [sample_long]\<rparr>"

lemma sample_candidate: "build_state_candidate sample_file sample_paper = Some sample_loaded"
proof -
  have "mk_position sample_long = ret sample_long" by code_simp
  then show ?thesis
    by (simp add: build_state_candidate_def sample_file_def sample_loaded_def validated_float_def closed_candidate_def
        ret_def zero_f64_Fin)
qed

definition sample_tick :: tick_data where
  "sample_tick = \<lparr>t_symbol = ''XAUUSD'', t_timestamp = utc 1000000, t_bid = Fin 4400, t_ask = fl (440013 / 100),
     t_last = Fin 4400, t_volume = Fin 3, t_flags = 6\<rparr>"

lemma tick_ignores_book:
  "\<not> pa_replay S \<Longrightarrow> fst (get_last_tick (Suc n) W s (S\<lparr>pa_balance := b, pa_equity := e, pa_counter := c,
     pa_closed := cl, pa_positions := ps\<rparr>)) = fst (get_last_tick (Suc n) W s S)"
  by (auto simp: get_last_tick_synthetic_def Let_def next_block_def walk_step_def effective_spread_scale_def after_tick_def
      split: sum.splits prod.splits)

lemma sample_first_tick: "fst (get_last_tick (Suc 0) sample_world ''XAUUSD'' sample_loaded) = Inr sample_tick"
proof -
  have "fst (get_last_tick (Suc 0) sample_world ''XAUUSD'' sample_paper) = Inr sample_tick" by code_simp
  moreover have "\<not> pa_replay sample_paper" by (simp add: sample_paper_def mk_paper_def)
  ultimately show ?thesis unfolding sample_loaded_def using tick_ignores_book by metis
qed

lemma sample_paper_fields:
  "pa_file sample_paper = Some sample_file" "pa_symbol sample_paper = ''XAUUSD''" "pa_last_tick sample_paper = None"
  "pa_credits sample_paper = []" "pa_positions sample_paper = []" "pa_positions sample_loaded = [sample_long]"
  by (simp_all add: sample_paper_def mk_paper_def sample_loaded_def)

lemma restart_credits_twice_witness:
  "let S' = snd (load_state (get_last_tick (Suc 0) sample_world) sample_world sample_paper)
   in 100002 \<in> pa_closed S' \<and> map pos_ticket (pa_positions S') = [100002]
      \<and> (\<exists>x y. pa_credits (snd (process_tick_execution (get_last_tick 0 sample_world) sample_world sample_tick S'))
            = [(100002, True, x), (100002, True, y)])"
proof -
  obtain U where "get_last_tick (Suc 0) sample_world (pos_symbol sample_long) sample_loaded = (Inr sample_tick, U)"
    using sample_first_tick by (metis prod.collapse sample_long_def position.select_convs(2))
  moreover have "persist_enabled sample_world" by code_simp
  moreover have "t_bid sample_tick \<le> pos_sl sample_long" "0 < pos_sl sample_long" "pos_type sample_long = BUY"
    "t_symbol sample_tick = pos_symbol sample_long" "sv_symbol sample_file = pa_symbol sample_paper"
    "pos_ticket sample_long = 100002"
    by (simp_all add: sample_tick_def sample_long_def sample_file_def sample_paper_fields zero_f64_Fin)
  ultimately show ?thesis
    using restart_credits_twice [OF _ sample_paper_fields(1) _ sample_paper_fields(3) sample_candidate
        sample_paper_fields(6), where n = 0 and W = sample_world and t' = sample_tick and W' = sample_world
        and get = "get_last_tick 0 sample_world"]
    by (simp add: Let_def sample_paper_fields)
qed

definition sample_quoted :: paper where
  "sample_quoted = sample_paper\<lparr>pa_last_tick := Some sample_tick\<rparr>"

definition sample_buy_limit :: paper_order where
  "sample_buy_limit = \<lparr>po_symbol = ''XAUUSD'', po_type = BUY_LIMIT, po_volume = fl (1 / 100), po_price = Fin 4390,
     po_stop_loss = Fin 4380, po_take_profit = Fin 4410, po_magic = 7\<rparr>"

lemma sample_placed:
  "fst (place_pending_order (get_last_tick 0 sample_world) sample_world sample_buy_limit sample_quoted) = Inr 100002"
proof -
  let ?q = "sample_buy_limit\<lparr>po_magic := 0\<rparr>" and ?S = "sample_quoted\<lparr>pa_positions := [], pa_equity := Fin 10000\<rparr>"
  have "\<not> po_volume ?q \<le> 0 \<and> \<not> po_price ?q \<le> 0" by code_simp
  moreover have "\<not> legal_volume (po_symbol ?q) (po_volume ?q) \<le> 0
      \<and> \<not> fl (1 / 1000000000) < fabs64 (legal_volume (po_symbol ?q) (po_volume ?q) - po_volume ?q)" by code_simp
  moreover have "\<not> is_stale_tick sample_world sample_quoted" by code_simp
  moreover have r: "refreshed (get_last_tick 0 sample_world) sample_quoted = ?S"
  proof -
    have c: "cached_tick ''XAUUSD'' sample_quoted = Some sample_tick" "pa_positions sample_quoted = []"
      by (simp_all add: sample_quoted_def cached_tick_def sample_tick_def sample_paper_fields)
    have "round_nd 2 (pa_balance sample_quoted + floating_at sample_tick []) = Fin 10000" by code_simp
    then show ?thesis using refreshed_cached [OF c(1), of "get_last_tick 0 sample_world"] by (simp add: c(2))
  qed
  moreover have "\<not> free_margin ?S < margin_required (po_symbol ?q) (po_price ?q) (po_volume ?q)" by code_simp
  moreover have "fill_quote (get_last_tick 0 sample_world) ?q ?S = (Some sample_tick, 0, ?S)"
    by (simp add: fill_quote_def sample_quoted_def cached_tick_def sample_tick_def sample_buy_limit_def)
  moreover obtain x where "fill_price sample_world ?q sample_tick 100001 = Some x" "0 < x"
  proof -
    have "case fill_price sample_world ?q sample_tick 100001 of None \<Rightarrow> False | Some x \<Rightarrow> 0 < x" by code_simp
    then show ?thesis using that by (auto split: option.splits)
  qed
  moreover have "0 < fl (1 / 100) \<and> 0 \<le> Fin 4380 \<and> 0 \<le> Fin 4410" by code_simp
  moreover have "pa_counter sample_quoted = 100001" by (simp add: sample_quoted_def sample_paper_def mk_paper_def)
  ultimately show ?thesis
    by (simp add: place_pending_order_def open_simulated_position_def refreshed_def [symmetric] open_filled_def
        mk_position_def sample_buy_limit_def ret_def Let_def)
qed

lemma pending_buy_booked_short_witness:
  "\<exists>S' p c. place_pending_order (get_last_tick 0 sample_world) sample_world sample_buy_limit sample_quoted = (Inr 100002, S')
     \<and> pa_positions S' = [p]
     \<and> fst (process_tick_execution (get_last_tick 0 sample_world) sample_world sample_tick S') = [(100002, SL_HIT, c)]"
proof -
  obtain S' where p: "place_pending_order (get_last_tick 0 sample_world) sample_world sample_buy_limit sample_quoted = (Inr 100002, S')"
    using sample_placed by (metis prod.collapse)
  have q: "po_type sample_buy_limit = BUY_LIMIT" "po_stop_loss sample_buy_limit = Fin 4380"
    "po_symbol sample_buy_limit = ''XAUUSD''" "pa_positions sample_quoted = []"
    "cached_tick ''XAUUSD'' sample_quoted = Some sample_tick" "t_symbol sample_tick = ''XAUUSD''"
    by (simp_all add: sample_buy_limit_def sample_quoted_def sample_paper_fields cached_tick_def sample_tick_def)
  have "Fin 4380 \<le> t_ask sample_tick" by code_simp
  then show ?thesis
    using pending_buy_booked_short [OF p, where u = sample_tick and t = sample_tick and get' = "get_last_tick 0 sample_world"
        and W' = sample_world] p by (auto simp: q zero_f64_Fin)
qed

lemma accepted_order_passed_checks_witness:
  "\<not> is_stale_tick sample_world sample_quoted \<and> 0 < po_volume sample_buy_limit"
proof -
  obtain S' where "open_simulated_position (get_last_tick 0 sample_world) sample_world (sample_buy_limit\<lparr>po_magic := 0\<rparr>)
      sample_quoted = (Inr 100002, S')"
    using sample_placed unfolding place_pending_order_def by (metis prod.collapse)
  from accepted_order_passed_checks [OF this] show ?thesis by simp
qed

lemma saved_state_read_back_witness:
  "build_state_candidate (saved_of sample_loaded) sample_paper = Some (sample_paper\<lparr>pa_balance := Fin 10000,
     pa_equity := Fin 10000, pa_counter := 100002, pa_closed := {}, pa_positions := [sample_long]\<rparr>)"
proof -
  have p: "mk_position sample_long = ret sample_long" by code_simp
  have f: "pa_balance sample_loaded = Fin 10000" "pa_equity sample_loaded = Fin 10000"
    "pa_counter sample_loaded = 100002" "pa_closed sample_loaded = {}" by (simp_all add: sample_loaded_def)
  show ?thesis
    using saved_state_read_back [of sample_loaded sample_paper] p by (simp add: f sample_paper_fields zero_f64_Fin)
qed

end
