(* ===== verification/SafetyStore.thy ===== *)
theory SafetyStore
  imports RuntimeSafety CircuitBreakers Domain
begin

text \<open>
  How a safety halt is written, survives and is released: the single row of \<^verbatim>\<open>runtime_risk_state\<close> with its
  operations (\<^verbatim>\<open>adapters/database/audit_repository.py\<close>: the upsert, the read, the release, the breaker
  anchors), and the part of the engine that uses it (\<^verbatim>\<open>application/live_engine.py\<close>: persisting, the boot, the
  halt, the release, the drawdown guard).

  The store is the SQLite provider. Whether a connection, a statement and its commit succeed is a boolean
  argument of every operation; \<^verbatim>\<open>datetime.now(UTC).isoformat()\<close> is a text argument. The text of a decision is
  kept as its parts, as in \<open>RuntimeSafety\<close>. Notifications, telemetry and log lines are left out.
\<close>

section \<open>The row\<close>

record anchors =
  an_day :: cell
  an_day_utc :: "string option"
  an_week :: cell
  an_week_iso :: "string option"

definition no_anchors :: anchors where
  "no_anchors = \<lparr>an_day = CNull, an_day_utc = None, an_week = CNull, an_week_iso = None\<rparr>"

type_synonym safety_db = "(risk_row \<times> anchors) option"

text \<open>A NaN is bound as NULL; integers outside 64 bits cannot be bound.\<close>

definition real_cell :: "f64 \<Rightarrow> cell" where
  "real_cell x = (if isnan x then CNull else CReal x)"

definition fits_int64 :: "int \<Rightarrow> bool" where
  "fits_int64 n \<longleftrightarrow> - (2 ^ 63) \<le> n \<and> n < 2 ^ 63"

record risk_write =
  rw_state :: string
  rw_reason :: string
  rw_source :: string
  rw_triggered_at :: string
  rw_balance :: f64
  rw_equity :: f64
  rw_peak_equity :: f64
  rw_release_required :: bool
  rw_consecutive_losses :: int
  rw_version :: int

definition written_row :: "string \<Rightarrow> risk_write \<Rightarrow> risk_row" where
  "written_row now w =
     \<lparr>row_version = CInt (rw_version w), row_state = Some (upper (rw_state w)),
      row_reason = Some (rw_reason w), row_source = Some (rw_source w),
      row_triggered_at = Some (if rw_triggered_at w = [] then now else rw_triggered_at w),
      row_balance = real_cell (rw_balance w), row_equity = real_cell (rw_equity w),
      row_peak_equity = real_cell (rw_peak_equity w),
      row_release_required = CInt (if rw_release_required w then 1 else 0),
      row_released_at = None, row_release_actor = None,
      row_consecutive_losses = CInt (rw_consecutive_losses w)\<rparr>"

text \<open>The constraints of the table: the three amounts are NOT NULL.\<close>

definition storable :: "risk_write \<Rightarrow> bool" where
  "storable w \<longleftrightarrow> \<not> isnan (rw_balance w) \<and> \<not> isnan (rw_equity w) \<and> \<not> isnan (rw_peak_equity w)
     \<and> fits_int64 (rw_version w) \<and> fits_int64 (rw_consecutive_losses w)"

definition set_runtime_risk_state :: "bool \<Rightarrow> string \<Rightarrow> risk_write \<Rightarrow> safety_db \<Rightarrow> bool \<times> safety_db" where
  "set_runtime_risk_state ok now w db =
     (if upper (rw_state w) \<notin> set PERSISTED_STATES then (False, db)
      else if \<not> ok \<or> \<not> storable w then (False, db)
      else (True, Some (written_row now w, case db of None \<Rightarrow> no_anchors | Some (_, a) \<Rightarrow> a)))"

text \<open>The read: \<open>None\<close> stands for \<^verbatim>\<open>RuntimeRiskStateReadError\<close>, which also reports a missing table.\<close>

definition get_runtime_risk_state :: "bool \<Rightarrow> safety_db \<Rightarrow> risk_row option option" where
  "get_runtime_risk_state ok db = (if ok then Some (map_option fst db) else None)"

definition release_row :: "string \<Rightarrow> string \<Rightarrow> string \<Rightarrow> risk_row \<Rightarrow> risk_row" where
  "release_row now actor note_text r =
     r\<lparr>row_state := Some ''RUNNING'', row_release_required := CInt 0, row_released_at := Some now,
       row_release_actor := Some actor,
       row_reason := (if note_text = [] then row_reason r
                      else map_option (\<lambda>s. s @ '' | RELEASED: '' @ note_text) (row_reason r))\<rparr>"

definition release_runtime_risk_state ::
  "bool \<Rightarrow> bool \<Rightarrow> string \<Rightarrow> string \<Rightarrow> string \<Rightarrow> string option \<Rightarrow> safety_db \<Rightarrow> bool option \<times> safety_db" where
  "release_runtime_risk_state read_ok write_ok now actor note_text expected db =
     (case get_runtime_risk_state read_ok db of
        None \<Rightarrow> (None, db)
      | Some None \<Rightarrow> (Some False, db)
      | Some (Some r) \<Rightarrow>
          let actual = (case row_state r of None \<Rightarrow> ''NONE'' | Some s \<Rightarrow> upper s)
          in if expected \<noteq> None \<and> Some actual \<noteq> map_option upper expected then (Some False, db)
             else if \<not> write_ok then (Some False, db)
             else (Some True, map_option (\<lambda>(r, a). (release_row now actor note_text r, a)) db))"

section \<open>The breaker anchors\<close>

text \<open>The row that \<^verbatim>\<open>INSERT OR IGNORE\<close> creates from the column defaults.\<close>

definition default_row :: risk_row where
  "default_row = \<lparr>row_version = CInt 1, row_state = Some ''RUNNING'', row_reason = Some [], row_source = Some [],
     row_triggered_at = Some [], row_balance = CReal 0, row_equity = CReal 0, row_peak_equity = CReal 0,
     row_release_required = CInt 1, row_released_at = None, row_release_actor = None,
     row_consecutive_losses = CInt 0\<rparr>"

definition save_breaker_anchors :: "bool \<Rightarrow> f64 \<Rightarrow> string \<Rightarrow> f64 \<Rightarrow> string \<Rightarrow> safety_db \<Rightarrow> bool \<times> safety_db" where
  "save_breaker_anchors ok day day_utc week week_iso db =
     (if \<not> (isfinite day \<and> 0 < day) \<or> \<not> (isfinite week \<and> 0 < week) then (False, db)
      else if \<not> ok then (False, db)
      else (True, Some (case db of None \<Rightarrow> default_row | Some (r, _) \<Rightarrow> r,
                        \<lparr>an_day = CReal day, an_day_utc = Some day_utc, an_week = CReal week, an_week_iso = Some week_iso\<rparr>)))"

definition float_cell :: "cell \<Rightarrow> f64 option" where
  "float_cell c = (case c of CNull \<Rightarrow> None | CInt n \<Rightarrow> Some (float_of_int n) | CReal x \<Rightarrow> Some x | CText s \<Rightarrow> None)"

definition validate_breaker_anchors :: "anchors option \<Rightarrow> (f64 \<times> string \<times> f64 \<times> string) option" where
  "validate_breaker_anchors row =
     (case row of None \<Rightarrow> None
      | Some a \<Rightarrow>
          (case (float_cell (an_day a), float_cell (an_week a)) of
             (Some d, Some w) \<Rightarrow>
               if \<not> (isfinite d \<and> 0 < d) then None
               else if \<not> (isfinite w \<and> 0 < w) then None
               else if text_of (an_day_utc a) = [] \<or> text_of (an_week_iso a) = [] then None
               else Some (d, text_of (an_day_utc a), w, text_of (an_week_iso a))
           | _ \<Rightarrow> None))"

definition get_breaker_anchors :: "bool \<Rightarrow> safety_db \<Rightarrow> (f64 \<times> string \<times> f64 \<times> string) option" where
  "get_breaker_anchors ok db = (if ok then validate_breaker_anchors (map_option snd db) else None)"

section \<open>The engine\<close>

datatype halt_text = HT_Boot boot_detail | HT_Text string | HT_Drawdown f64 f64

record engine_safety =
  es_state :: string
  es_detail :: halt_text
  es_halt_reason :: halt_text
  es_running :: bool
  es_circuit :: error_circuit
  es_loss_freeze :: bool
  es_freshness :: account_freshness
  es_feed_stall :: bool
  es_peak_equity :: f64
  es_losses :: int
  es_last_balance :: f64
  es_last_positions :: int
  es_survival :: bool
  es_breakers :: cb_state

definition fresh_engine_safety :: engine_safety where
  "fresh_engine_safety = \<lparr>es_state = ''RUNNING'', es_detail = HT_Text [], es_halt_reason = HT_Text [], es_running = False,
     es_circuit = \<lparr>max_consecutive_errors = 10, error_window_sec = Fin 600, consecutive_error_count = 0,
       error_window_start = 0, last_error_at = 0, last_error_type = [], total_errors = 0\<rparr>,
     es_loss_freeze = False, es_freshness = MISSING, es_feed_stall = False, es_peak_equity = 0, es_losses = 0,
     es_last_balance = 0, es_last_positions = 0, es_survival = False, es_breakers = cb_init\<rparr>"

text \<open>The reason of the drawdown guard, as the code formats it.\<close>

fun halt_reason_text :: "halt_text \<Rightarrow> string" where
  "halt_reason_text (HT_Text s) = s"
| "halt_reason_text (HT_Drawdown pct limit) =
     ''Max drawdown exceeded: '' @ fmt_fixed 2 pct @ ''% > limit '' @ fmt_fixed 2 limit @ ''%''"
| "halt_reason_text (HT_Boot d) = []"

definition safety_write :: "string \<Rightarrow> string \<Rightarrow> string \<Rightarrow> account_info option \<Rightarrow> bool \<Rightarrow> engine_safety \<Rightarrow> risk_write" where
  "safety_write st reason source acc required e =
     \<lparr>rw_state = st, rw_reason = reason, rw_source = source, rw_triggered_at = [],
      rw_balance = (case acc of None \<Rightarrow> 0 | Some a \<Rightarrow> acc_balance a),
      rw_equity = (case acc of None \<Rightarrow> 0 | Some a \<Rightarrow> acc_equity a),
      rw_peak_equity = es_peak_equity e, rw_release_required = required,
      rw_consecutive_losses = es_losses e, rw_version = RUNTIME_RISK_STATE_VERSION\<rparr>"

definition persist_runtime_risk_state ::
  "bool \<Rightarrow> string \<Rightarrow> string \<Rightarrow> string \<Rightarrow> string \<Rightarrow> account_info option \<Rightarrow> bool \<Rightarrow> engine_safety \<Rightarrow> safety_db
     \<Rightarrow> bool \<times> safety_db" where
  "persist_runtime_risk_state ok now st reason source acc required e db =
     set_runtime_risk_state ok now (safety_write st reason source acc required e) db"

definition apply_persisted_halt :: "boot_decision \<Rightarrow> engine_safety \<Rightarrow> engine_safety" where
  "apply_persisted_halt d e =
     (let e = e\<lparr>es_state := boot_state d, es_detail := HT_Boot (boot_detail d)\<rparr>
      in if boot_state d \<noteq> ''RUNNING'' then e\<lparr>es_running := False, es_halt_reason := HT_Boot (boot_detail d)\<rparr> else e)"

text \<open>What the environment answers during a boot.\<close>

record boot_env =
  be_read :: bool
  be_write :: bool
  be_anchors :: bool
  be_now_text :: string
  be_now :: py_datetime

definition boot_decide :: "bool \<Rightarrow> safety_db \<Rightarrow> boot_decision res" where
  "boot_decide read_ok db =
     (case get_runtime_risk_state read_ok db of
        None \<Rightarrow> ret \<lparr>trading_allowed = False, boot_state = ''DB_READ_UNCERTAIN'', boot_detail = PERSISTED_STATE_READ_FAILED\<rparr>
      | Some row \<Rightarrow> bindR (from_row row) (\<lambda>st. ret (resolve_boot_decision st)))"

definition restore_runtime_risk_state ::
  "boot_env \<Rightarrow> engine_safety \<Rightarrow> safety_db \<Rightarrow> (boot_decision \<times> engine_safety \<times> safety_db) res" where
  "restore_runtime_risk_state E e db =
     bindR (boot_decide (be_read E) db) (\<lambda>d.
       let e = apply_persisted_halt d e;
           db = (if boot_state d = ''RUNNING''
                 then snd (persist_runtime_risk_state (be_write E) (be_now_text E) ''RUNNING'' [] ''BOOT'' None False e db)
                 else db);
           e = (case get_breaker_anchors (be_anchors E) db of
                  None \<Rightarrow> e
                | Some (day, day_utc, week, week_iso) \<Rightarrow>
                    e\<lparr>es_breakers := snd (restore_anchors (es_breakers e) day day_utc week week_iso (be_now E))\<rparr>)
       in ret (d, e, db))"

text \<open>The start of the loop: it is armed only when the decision allows trading; an exception of the decoder
  ends the start with the engine as it was. A new process starts it on a fresh engine; the dashboard starts it
  again on the engine it has, when that is not running.\<close>

definition boot :: "boot_env \<Rightarrow> engine_safety \<Rightarrow> safety_db \<Rightarrow> engine_safety \<times> safety_db" where
  "boot E e db =
     (case restore_runtime_risk_state E e db of
        Inl _ \<Rightarrow> (e, db)
      | Inr (d, e, db) \<Rightarrow> (if trading_allowed d then e\<lparr>es_running := True\<rparr> else e, db))"

definition toggle_start :: "boot_env \<Rightarrow> engine_safety \<Rightarrow> safety_db \<Rightarrow> engine_safety \<times> safety_db" where
  "toggle_start E e db = (if es_running e then (e, db) else boot E e db)"

definition trigger_runtime_halt ::
  "bool \<Rightarrow> string \<Rightarrow> string \<Rightarrow> halt_text \<Rightarrow> string \<Rightarrow> account_info option \<Rightarrow> engine_safety \<Rightarrow> safety_db
     \<Rightarrow> engine_safety \<times> safety_db" where
  "trigger_runtime_halt ok now st reason source acc e db =
     (let (_, db) = persist_runtime_risk_state ok now st (halt_reason_text reason) source acc True e db
      in (e\<lparr>es_state := st, es_halt_reason := reason, es_detail := reason, es_running := False\<rparr>, db))"

definition runtime_risk_state_of :: "f64 \<Rightarrow> engine_safety \<Rightarrow> string" where
  "runtime_risk_state_of now e =
     (if es_state e \<in> {''HALTED'', ''KILL_SWITCH''} then es_state e
      else if es_loss_freeze e \<or> is_tripped (es_circuit e) now \<or> es_freshness e = STALE \<or> es_feed_stall e then ''DEGRADED''
      else es_state e)"

definition trading_blocked_by_safety_state :: "engine_safety \<Rightarrow> bool" where
  "trading_blocked_by_safety_state e \<longleftrightarrow>
     es_state e \<in> {''HALTED'', ''KILL_SWITCH'', ''DB_READ_UNCERTAIN''} \<or> es_feed_stall e"

definition release_persisted_safety_state ::
  "bool \<Rightarrow> bool \<Rightarrow> string \<Rightarrow> string \<Rightarrow> string \<Rightarrow> engine_safety \<Rightarrow> safety_db \<Rightarrow> bool option \<times> engine_safety \<times> safety_db" where
  "release_persisted_safety_state read_ok write_ok now actor note_text e db =
     (case release_runtime_risk_state read_ok write_ok now actor note_text None db of
        (Some True, db) \<Rightarrow>
          (Some True, e\<lparr>es_state := ''RUNNING'', es_halt_reason := HT_Text [], es_detail := HT_Text [],
             es_circuit := circuit_reset (es_circuit e), es_loss_freeze := False\<rparr>, db)
      | (r, db) \<Rightarrow> (r, e, db))"

text \<open>The drawdown guard. \<open>limit\<close> is the drawdown limit of the runtime configuration, in percent.\<close>

definition withdrawal_adjusted :: "account_info \<Rightarrow> int \<Rightarrow> engine_safety \<Rightarrow> engine_safety" where
  "withdrawal_adjusted acc positions e =
     (let delta = acc_balance acc - es_last_balance e
      in if 0 < es_last_balance e \<and> delta < 0 \<and> es_last_positions e \<le> positions
            \<and> acc_equity acc * fl (2 / 100) < fabs64 delta
         then e\<lparr>es_peak_equity := es_peak_equity e + delta\<rparr> else e)"

definition update_survival_state ::
  "bool \<Rightarrow> string \<Rightarrow> f64 \<Rightarrow> account_info \<Rightarrow> int \<Rightarrow> engine_safety \<Rightarrow> safety_db \<Rightarrow> engine_safety \<times> safety_db" where
  "update_survival_state ok now limit acc positions e db =
     (let e = (withdrawal_adjusted acc positions e)\<lparr>es_last_balance := acc_balance acc, es_last_positions := positions\<rparr>;
          equity = acc_equity acc; peak = es_peak_equity e
      in if peak < equity then (e\<lparr>es_peak_equity := equity, es_losses := 0, es_survival := False\<rparr>, db)
         else if equity < peak \<and> 0 < peak then
           let drawdown = (peak - equity) / peak * Fin 100;
               e = (if limit * fl (1 / 2) < drawdown then e\<lparr>es_survival := True\<rparr> else e)
           in if limit < drawdown
              then trigger_runtime_halt ok now ''HALTED'' (HT_Drawdown drawdown limit) ''SURVIVAL_DRAWDOWN_GUARD'' (Some acc) e db
              else (e, db)
         else (e, db))"

section \<open>Histories\<close>

text \<open>
  What happens to the store and the engine: a restart of the process, the start button of the dashboard, an
  account update, an anchor write, a release from the command line (another process) and a release inside the engine.
\<close>

datatype safety_op =
    SO_Restart boot_env
  | SO_Start boot_env
  | SO_Account bool string f64 account_info int
  | SO_Anchors bool f64 string f64 string
  | SO_CliRelease bool bool string string string
  | SO_Release bool bool string string string

fun safety_step :: "engine_safety \<times> safety_db \<Rightarrow> safety_op \<Rightarrow> engine_safety \<times> safety_db" where
  "safety_step (e, db) (SO_Restart E) = boot E fresh_engine_safety db"
| "safety_step (e, db) (SO_Start E) = toggle_start E e db"
| "safety_step (e, db) (SO_Account ok now limit acc n) = update_survival_state ok now limit acc n e db"
| "safety_step (e, db) (SO_Anchors ok d du w wi) = (e, snd (save_breaker_anchors ok d du w wi db))"
| "safety_step (e, db) (SO_CliRelease r w now actor txt) = (e, snd (release_runtime_risk_state r w now actor txt None db))"
| "safety_step (e, db) (SO_Release r w now actor txt) = snd (release_persisted_safety_state r w now actor txt e db)"

fun is_release :: "safety_op \<Rightarrow> bool" where
  "is_release (SO_CliRelease r w now actor txt) = True"
| "is_release (SO_Release r w now actor txt) = True"
| "is_release op = False"

section \<open>A halt on the disk\<close>

definition halt_on_disk :: "safety_db \<Rightarrow> bool" where
  "halt_on_disk db \<longleftrightarrow> (\<exists>r a v n. db = Some (r, a) \<and> row_state r \<in> {Some ''HALTED'', Some ''KILL_SWITCH''}
     \<and> row_version r = CInt v \<and> row_consecutive_losses r = CInt n)"

definition refusing :: "string \<Rightarrow> bool" where
  "refusing s \<longleftrightarrow> s \<in> {''HALTED'', ''KILL_SWITCH'', ''DB_READ_UNCERTAIN''}"

definition engine_refuses :: "engine_safety \<Rightarrow> bool" where
  "engine_refuses e \<longleftrightarrow> refusing (es_state e) \<and> \<not> es_running e"

lemma upper_states [simp]: "upper ''HALTED'' = ''HALTED''" "upper ''KILL_SWITCH'' = ''KILL_SWITCH''"
  by code_simp+

lemma halt_written:
  assumes "rw_state w \<in> {''HALTED'', ''KILL_SWITCH''}"
  shows "set_runtime_risk_state ok now w db =
    (if ok \<and> storable w then (True, Some (written_row now w, case db of None \<Rightarrow> no_anchors | Some (_, a) \<Rightarrow> a)) else (False, db))"
  using assms by (auto simp: set_runtime_risk_state_def PERSISTED_STATES_def)

lemma written_halt_on_disk:
  "rw_state w \<in> {''HALTED'', ''KILL_SWITCH''} \<Longrightarrow> halt_on_disk (Some (written_row now w, a))"
  by (auto simp: halt_on_disk_def written_row_def)

lemma halt_row_decodes:
  assumes "rw_state w \<in> {''HALTED'', ''KILL_SWITCH''}" and "storable w" and "rw_version w \<noteq> 0"
  shows "from_row (Some (written_row now w)) = ret (Some \<lparr>prs_state = rw_state w, prs_reason = rw_reason w,
     prs_source = rw_source w, prs_triggered_at = (if rw_triggered_at w = [] then now else rw_triggered_at w),
     prs_balance = rw_balance w, prs_equity = rw_equity w, prs_peak_equity = rw_peak_equity w,
     prs_release_required = rw_release_required w, prs_released_at = None, prs_release_actor = None,
     prs_consecutive_losses = max 0 (rw_consecutive_losses w), prs_version = rw_version w\<rparr>)"
proof -
  have "upper (rw_state w) = rw_state w" "rw_state w \<noteq> []" using assms(1) by auto
  then show ?thesis using assms(2,3)
    by (simp add: from_row_def written_row_def text_of_def real_cell_def storable_def ret_def)
qed

lemma refusing_not_running: "refusing s \<Longrightarrow> s \<noteq> ''RUNNING''"
  by (auto simp: refusing_def)

lemma halted_decision:
  assumes "halt_on_disk db"
  shows "\<exists>d. boot_decide read_ok db = Inr d \<and> \<not> trading_allowed d \<and> refusing (boot_state d)"
proof (cases read_ok)
  case False
  then show ?thesis by (simp add: boot_decide_def get_runtime_risk_state_def ret_def refusing_def)
next
  case True
  from assms obtain r a v n where r: "db = Some (r, a)" "row_version r = CInt v" "row_consecutive_losses r = CInt n"
    "row_state r = Some ''HALTED'' \<or> row_state r = Some ''KILL_SWITCH''"
    by (auto simp: halt_on_disk_def)
  from r(4) show ?thesis
    by (elim disjE) (simp_all add: True r(1-3) boot_decide_def get_runtime_risk_state_def from_row_def text_of_def ret_def
        resolve_boot_decision_def refusing_def)
qed

lemma halted_boot:
  assumes "halt_on_disk db" and "\<not> es_running e"
  shows "engine_refuses (fst (boot E e db)) \<and> snd (boot E e db) = db"
proof -
  obtain d where d: "boot_decide (be_read E) db = Inr d" "\<not> trading_allowed d" "refusing (boot_state d)"
    using halted_decision [OF assms(1)] by blast
  then show ?thesis
    by (simp add: boot_def restore_runtime_risk_state_def apply_persisted_halt_def engine_refuses_def
          refusing_not_running ret_def Let_def split: option.split prod.split)
qed

lemma trigger_refuses:
  assumes "st \<in> {''HALTED'', ''KILL_SWITCH''}"
  shows "engine_refuses (fst (trigger_runtime_halt ok now st reason source acc e db))"
    and "halt_on_disk db \<Longrightarrow> halt_on_disk (snd (trigger_runtime_halt ok now st reason source acc e db))"
proof -
  have "refusing st" using assms by (auto simp: refusing_def)
  then show "engine_refuses (fst (trigger_runtime_halt ok now st reason source acc e db))"
    by (simp add: trigger_runtime_halt_def engine_refuses_def split: prod.split)
  have w: "rw_state (safety_write st (halt_reason_text reason) source acc True e) \<in> {''HALTED'', ''KILL_SWITCH''}"
    using assms by (simp add: safety_write_def)
  assume "halt_on_disk db"
  then show "halt_on_disk (snd (trigger_runtime_halt ok now st reason source acc e db))"
    using written_halt_on_disk [OF w]
    by (simp add: trigger_runtime_halt_def persist_runtime_risk_state_def halt_written [OF w])
qed

lemma survival_keeps:
  assumes "engine_refuses e" and "halt_on_disk db"
  shows "engine_refuses (fst (update_survival_state ok now limit acc n e db))
    \<and> halt_on_disk (snd (update_survival_state ok now limit acc n e db))"
proof -
  have "es_state (withdrawal_adjusted acc n e) = es_state e" "es_running (withdrawal_adjusted acc n e) = es_running e"
    by (simp_all add: withdrawal_adjusted_def Let_def)
  then show ?thesis
    using assms trigger_refuses [of "''HALTED''"]
    by (simp add: update_survival_state_def Let_def engine_refuses_def)
qed

lemma anchors_keep_halt: "halt_on_disk db \<Longrightarrow> halt_on_disk (snd (save_breaker_anchors ok d du w wi db))"
  by (auto simp: halt_on_disk_def save_breaker_anchors_def)

lemma halt_step:
  assumes "engine_refuses e" and "halt_on_disk db" and "\<not> is_release op"
  shows "engine_refuses (fst (safety_step (e, db) op)) \<and> halt_on_disk (snd (safety_step (e, db) op))"
proof (cases op)
  case (SO_Restart E)
  have "\<not> es_running fresh_engine_safety" by (simp add: fresh_engine_safety_def)
  then show ?thesis using SO_Restart halted_boot [OF assms(2), of fresh_engine_safety E] assms(2) by simp
next
  case (SO_Start E)
  then show ?thesis using assms(1,2) halted_boot [OF assms(2), of e E] by (simp add: toggle_start_def engine_refuses_def)
next
  case (SO_Account ok now limit acc n)
  then show ?thesis using assms survival_keeps by simp
next
  case (SO_Anchors ok d du w wi)
  then show ?thesis using assms anchors_keep_halt by simp
qed (use assms in simp_all)

lemma halt_run:
  "engine_refuses (fst x) \<Longrightarrow> halt_on_disk (snd x) \<Longrightarrow> list_all (\<lambda>op. \<not> is_release op) ops \<Longrightarrow>
   engine_refuses (fst (run safety_step x ops)) \<and> halt_on_disk (snd (run safety_step x ops))"
proof (induction ops arbitrary: x)
  case (Cons op ops)
  then show ?case using halt_step [of "fst x" "snd x" op] Cons.IH [of "safety_step x op"] by simp
qed simp

text \<open>C19: a halt outlives the process. When the engine halts and the row can be stored (the write succeeds,
  no amount is NaN, the loss count fits 64 bits), then
  the row that is read back decodes to exactly what was written: the state, the reason, the source, the stamp, the
  three amounts, the release mark and the losses (a negative count reads as 0), with no release recorded. And
  after any history of restarts and dashboard starts (with reads and writes that fail or succeed), account updates, further halts of
  the drawdown guard and anchor writes, in which nobody calls a release, the engine refuses trading, its loop
  is not armed, and every further boot refuses trading as well, also when the row cannot be read.\<close>

theorem safety_state_survives_restart:
  assumes "st \<in> {''HALTED'', ''KILL_SWITCH''}"
    and "storable (safety_write st (halt_reason_text reason) source acc True e)"
    and "trigger_runtime_halt True now st reason source acc e db = (e1, db1)"
    and "list_all (\<lambda>op. \<not> is_release op) ops"
    and "run safety_step (e1, db1) ops = (e2, db2)"
  shows "(\<exists>row. get_runtime_risk_state True db1 = Some row
       \<and> from_row row = ret (Some \<lparr>prs_state = st, prs_reason = halt_reason_text reason, prs_source = source,
            prs_triggered_at = now, prs_balance = (case acc of None \<Rightarrow> 0 | Some a \<Rightarrow> acc_balance a),
            prs_equity = (case acc of None \<Rightarrow> 0 | Some a \<Rightarrow> acc_equity a), prs_peak_equity = es_peak_equity e,
            prs_release_required = True, prs_released_at = None, prs_release_actor = None,
            prs_consecutive_losses = max 0 (es_losses e), prs_version = 1\<rparr>))
    \<and> trading_blocked_by_safety_state e2 \<and> \<not> es_running e2
    \<and> (\<exists>d. boot_decide read_ok db2 = Inr d \<and> \<not> trading_allowed d)"
proof -
  let ?w = "safety_write st (halt_reason_text reason) source acc True e"
  have st: "rw_state ?w \<in> {''HALTED'', ''KILL_SWITCH''}" using assms(1) by (simp add: safety_write_def)
  obtain a where db1: "db1 = Some (written_row now ?w, a)"
    using assms(2,3) by (auto simp: trigger_runtime_halt_def persist_runtime_risk_state_def halt_written [OF st])
  have "engine_refuses (fst (e1, db1))" using trigger_refuses(1) [OF assms(1)] assms(3) by (metis fst_conv)
  moreover have "halt_on_disk (snd (e1, db1))" using written_halt_on_disk [OF st] by (simp add: db1)
  ultimately have "engine_refuses (fst (run safety_step (e1, db1) ops)) \<and> halt_on_disk (snd (run safety_step (e1, db1) ops))"
    using assms(4) by (rule halt_run)
  then have e2: "engine_refuses e2" and db2: "halt_on_disk db2" using assms(5) by simp_all
  have "from_row (Some (written_row now ?w)) = ret (Some \<lparr>prs_state = st, prs_reason = halt_reason_text reason, prs_source = source,
            prs_triggered_at = now, prs_balance = (case acc of None \<Rightarrow> 0 | Some a \<Rightarrow> acc_balance a),
            prs_equity = (case acc of None \<Rightarrow> 0 | Some a \<Rightarrow> acc_equity a), prs_peak_equity = es_peak_equity e,
            prs_release_required = True, prs_released_at = None, prs_release_actor = None,
            prs_consecutive_losses = max 0 (es_losses e), prs_version = 1\<rparr>)"
    using assms(2) halt_row_decodes [OF st, of now] by (simp add: safety_write_def storable_def RUNTIME_RISK_STATE_VERSION_def)
  moreover have "trading_blocked_by_safety_state e2 \<and> \<not> es_running e2"
    using e2 by (simp add: engine_refuses_def trading_blocked_by_safety_state_def refusing_def)
  moreover have "\<exists>d. boot_decide read_ok db2 = Inr d \<and> \<not> trading_allowed d" using halted_decision [OF db2] by blast
  ultimately show ?thesis by (simp add: db1 get_runtime_risk_state_def)
qed

definition down_account :: account_info where
  "down_account = \<lparr>acc_login = 1, acc_trade_mode = 2, acc_leverage = 100, acc_balance = Fin 1000, acc_equity = Fin 900,
     acc_margin = 0, acc_margin_free = Fin 900, acc_currency = ''USD''\<rparr>"

definition later_boot :: boot_env where
  "later_boot = \<lparr>be_read = False, be_write = True, be_anchors = True, be_now_text = ''later'', be_now = utc 0\<rparr>"

lemma safety_state_survives_restart_witness:
  "\<exists>e1 db1 e2 db2. trigger_runtime_halt True ''t0'' ''HALTED'' (HT_Text ''drawdown'') ''GUARD'' (Some down_account) fresh_engine_safety None
       = (e1, db1)
     \<and> run safety_step (e1, db1) [SO_Restart later_boot, SO_Anchors True 1 ''d'' 1 ''w'', SO_Restart (later_boot\<lparr>be_read := True\<rparr>)]
       = (e2, db2)
     \<and> \<not> es_running e2 \<and> (\<exists>d. boot_decide True db2 = Inr d \<and> \<not> trading_allowed d)"
proof -
  let ?ops = "[SO_Restart later_boot, SO_Anchors True 1 ''d'' 1 ''w'', SO_Restart (later_boot\<lparr>be_read := True\<rparr>)]"
  obtain e1 db1 where h: "trigger_runtime_halt True ''t0'' ''HALTED'' (HT_Text ''drawdown'') ''GUARD'' (Some down_account)
      fresh_engine_safety None = (e1, db1)" by fastforce
  obtain e2 db2 where r: "run safety_step (e1, db1) ?ops = (e2, db2)" by fastforce
  have s: "storable (safety_write ''HALTED'' (halt_reason_text (HT_Text ''drawdown'')) ''GUARD'' (Some down_account) True fresh_engine_safety)"
    by code_simp
  have o: "list_all (\<lambda>op. \<not> is_release op) ?ops" by simp
  show ?thesis using h r safety_state_survives_restart [OF _ s h o r, of True] by auto
qed

section \<open>Release and anchors\<close>

text \<open>A successful release turns the row to RUNNING, records who and when, and the next boot may trade.\<close>

lemma release_lifts_halt:
  assumes "halt_on_disk db" and "release_runtime_risk_state True True now actor txt None db = (b, db')"
  shows "b = Some True \<and> (\<exists>d. boot_decide True db' = Inr d \<and> trading_allowed d)"
proof -
  obtain r a v n where "db = Some (r, a)" "row_version r = CInt v" "row_consecutive_losses r = CInt n"
    using assms(1) by (auto simp: halt_on_disk_def)
  then show ?thesis using assms(2)
    by (auto simp: release_runtime_risk_state_def get_runtime_risk_state_def Let_def release_row_def boot_decide_def
        from_row_def text_of_def ret_def resolve_boot_decision_def)
qed

text \<open>An anchor that was accepted is read back as it was, and saving one never changes an existing row.\<close>

lemma anchors_round_trip:
  assumes "save_breaker_anchors ok d du w wi db = (True, db')" and "du \<noteq> []" and "wi \<noteq> []"
  shows "get_breaker_anchors True db' = Some (d, du, w, wi) \<and> (db \<noteq> None \<longrightarrow> map_option fst db' = map_option fst db)"
  using assms
  by (auto simp: save_breaker_anchors_def get_breaker_anchors_def validate_breaker_anchors_def float_cell_def text_of_def
      split: if_splits option.splits)

text \<open>A halt whose amounts are not all numbers is refused by the table: it stops the running engine and leaves the
  store as it was.\<close>

lemma undefined_amount_forgets_halt:
  assumes "isnan (acc_equity acc)"
  shows "snd (trigger_runtime_halt ok now st reason source (Some acc) e db) = db"
  using assms
  by (simp add: trigger_runtime_halt_def persist_runtime_risk_state_def set_runtime_risk_state_def storable_def safety_write_def)

text \<open>A halt that could not be stored lives in memory only, and the start button of the dashboard forgets it: the
  start reads the store, finds no halt, and arms the engine.\<close>

lemma start_forgets_unstored_halt:
  assumes "trigger_runtime_halt False now st reason source acc e None = (e1, db1)"
    and "be_read E"
  shows "es_running (fst (toggle_start E e1 db1)) \<and> es_state (fst (toggle_start E e1 db1)) = ''RUNNING''"
proof -
  have "db1 = None" "\<not> es_running e1"
    using assms(1)
    by (auto simp: trigger_runtime_halt_def persist_runtime_risk_state_def set_runtime_risk_state_def split: if_splits)
  then show ?thesis using assms(2)
    by (simp add: toggle_start_def boot_def restore_runtime_risk_state_def boot_decide_def get_runtime_risk_state_def
        from_row_def resolve_boot_decision_def apply_persisted_halt_def ret_def Let_def split: option.split prod.split)
qed

end
