(* ===== verification/Spec2Isabelle.thy ===== *)
theory Spec2Isabelle
  imports Prelude PyFloat PyNum PyTime Domain Valuation CircuitBreakers SizingPolicies
    RiskEngine RiskProperties RuntimeSafety DecisionDedup PositionStateMachine TicketLedgers
    FeedEpoch SignalStability MarketGate BarAggregator PyText ExitPolicy ExitLearning Protection RuleMatrix
    PyMath RegimeClassifier RuntimeMode OrderWrite
    NewsGate NewsBudget StrategyLifecycle ExperienceGate OutcomeLedger PostPolicy
    PositionTracker TicketState PositionMetrics Scoring ExitDecision ExitDispatch
    BoundedMap TicketsCache ServerClock PendingOrders DispatchEngine PaperBroker SafetyStore
begin

text \<open>
  \<^bold>\<open>A verification library for the NexusTradingForexBot engine.\<close> The program under
  \<^verbatim>\<open>src/src/nexus_scalp\<close> trades gold and foreign exchange contracts through a broker terminal or a
  paper adapter. This development models the code that decides about money: from the tick to the
  proposal's gates, from the proposal to the order, and from the open position to its exit. Every
  definition is a translation of one function, class or statement group of the Python sources; the
  manifest gives its lines.

  \<^bold>\<open>The path of a tick.\<close>
  \<^enum> \<open>FeedEpoch\<close> (\<^verbatim>\<open>application/live/feed_epoch.py\<close>) accepts or rejects the tick, \<open>BarAggregator\<close>
    (\<^verbatim>\<open>market_data/bar_aggregator.py\<close>) folds it into a candle, \<open>RegimeClassifier\<close>
    (\<^verbatim>\<open>features/regime_classifier.py\<close>) updates the market regime, \<open>MarketGate\<close>
    (\<^verbatim>\<open>execution/market_entry_gate.py\<close>, \<^verbatim>\<open>accounting/market_calendar.py\<close>) says whether entries are open.
  \<^enum> \<open>SignalStability\<close> (\<^verbatim>\<open>signals/stability_controller.py\<close>) debounces the direction of the model,
    \<open>RuleMatrix\<close> (\<^verbatim>\<open>signals/rule_matrix.py\<close>) makes rule entries, \<open>DecisionDedup\<close>
    (\<^verbatim>\<open>signals/decision_dedup.py\<close>) suppresses replays of a decision.
  \<^enum> \<open>PostPolicy\<close> (\<^verbatim>\<open>application/live/tick_pipeline.py\<close>, \<^verbatim>\<open>application/live_freshness.py\<close>) runs the
    stages between policy and dispatch: the experience and suitability gates of \<open>ExperienceGate\<close>
    (\<^verbatim>\<open>experience/intelligence.py\<close>, \<^verbatim>\<open>intelligence/gate.py\<close>), which read the strategy scores of
    \<open>StrategyLifecycle\<close> (\<^verbatim>\<open>experience/evaluator.py\<close>), the news modifier of \<open>NewsGate\<close> (\<^verbatim>\<open>news/gate.py\<close>;
    its model calls are budgeted by \<open>NewsBudget\<close>, \<^verbatim>\<open>news/budget.py\<close>), and the freshness gate. Refused
    decisions leave an outcome in \<open>OutcomeLedger\<close> (\<^verbatim>\<open>experience/ledger.py\<close>,
    \<^verbatim>\<open>experience/lifecycle.py\<close>, \<^verbatim>\<open>execution/terminal_outcome.py\<close>).
  \<^enum> \<open>RiskEngine\<close> (\<^verbatim>\<open>risk/risk_engine.py\<close>) turns a proposal into an order or refuses it, over
    \<open>Valuation\<close> (\<^verbatim>\<open>domain/valuation.py\<close>), \<open>CircuitBreakers\<close> (\<^verbatim>\<open>risk/circuit_breakers.py\<close>) and
    \<open>SizingPolicies\<close> (\<^verbatim>\<open>risk/sizing_policy.py\<close>, \<^verbatim>\<open>risk/concurrency_policy.py\<close>,
    \<^verbatim>\<open>model_lifecycle/confidence_calibration.py\<close>); \<open>RuntimeSafety\<close> (\<^verbatim>\<open>risk/runtime_safety.py\<close>) decodes
    the safety state, \<open>SafetyStore\<close> (the row of \<^verbatim>\<open>adapters/database/audit_repository.py\<close> and the boot, halt,
    release and drawdown guard of \<^verbatim>\<open>application/live_engine.py\<close>) writes and obeys it, \<open>OrderWrite\<close> (\<^verbatim>\<open>execution/order_write.py\<close>) the intents that survive
    a restart, \<open>RuntimeMode\<close> (\<^verbatim>\<open>application/live/runtime_mode.py\<close>) the switch between paper and broker.
  \<^enum> \<open>DispatchEngine\<close> (\<^verbatim>\<open>execution/lifecycle/dispatch.py\<close>) is the last code before the broker: the entry
    router and the hedge path, their gates, the volume clamp, the breaker of refusals and the
    duplicate guard, which is the bounded map of \<open>BoundedMap\<close> (\<^verbatim>\<open>bounded_map.py\<close>). Its exposure gate
    counts the cache of \<open>TicketsCache\<close> (\<^verbatim>\<open>execution/tickets_cache.py\<close>); its maintenance window reads the
    broker clock of \<open>ServerClock\<close> (\<^verbatim>\<open>adapters/mt5/providers.py\<close> and the calendar functions of
    \<^verbatim>\<open>research/economics.py\<close>).
  \<^enum> \<open>PendingOrders\<close> (\<^verbatim>\<open>execution/lifecycle/pending_orders.py\<close>, with the cache refresh and the
    falling-knife pass of the order manager) keeps a resting order until it fills or dies: the
    staged entry contexts, the re-quote lock, the verified cancellation, the reconciliation and the
    pass over the broker's list.
  \<^enum> \<open>PaperBroker\<close> (\<^verbatim>\<open>adapters/paper/paper_adapter.py\<close>) is the broker of a paper session: quotes, fills,
    stops executed on every quote, margin, balance and the state file.

  \<^bold>\<open>The path of an open position\<close> (the loop of \<^verbatim>\<open>execution/order_manager.py\<close>).
  \<^enum> \<open>TicketState\<close> (\<^verbatim>\<open>execution/lifecycle/ticket_state.py\<close> and the dictionary views of the order
    manager) holds what is known of a ticket; \<open>TicketLedgers\<close> (\<^verbatim>\<open>execution/protection_ledger.py\<close>,
    \<^verbatim>\<open>execution/recovery_budget.py\<close>, \<^verbatim>\<open>execution/hold_duration.py\<close>,
    \<^verbatim>\<open>execution/telemetry_throttle.py\<close>, \<^verbatim>\<open>execution/hold_score_ledger.py\<close>) and \<open>PositionStateMachine\<close>
    (\<^verbatim>\<open>execution/position_states.py\<close>, \<^verbatim>\<open>execution/position_state_machine.py\<close>) hold the rest.
  \<^enum> \<open>PositionTracker\<close> (\<^verbatim>\<open>execution/position_tracker.py\<close>) observes the excursions,
    \<open>PositionMetrics\<close> (\<^verbatim>\<open>execution/position_intelligence.py\<close>) and \<open>Scoring\<close>
    (\<^verbatim>\<open>execution/lifecycle/scoring.py\<close>) compute the metrics and scores, \<open>ExitDecision\<close> decides
    (scenario router, candidate state, arbitration) and \<open>ExitDispatch\<close> sends the decision to the broker.
  \<^enum> \<open>Protection\<close> (\<^verbatim>\<open>execution/lifecycle/protection.py\<close>) moves stops and closes, with the triggers
    of \<open>ExitPolicy\<close> (\<^verbatim>\<open>execution/lifecycle/exit_policy.py\<close>), which \<open>ExitLearning\<close>
    (\<^verbatim>\<open>experience/exit_optimizer.py\<close>) learns from closed trades.

  \<^bold>\<open>The vocabulary.\<close> \<open>Prelude\<close> has exceptions as left values of a sum (\<open>res\<close>, \<open>bindR\<close>), runs of a
  step function and three interfaces. \<open>PyFloat\<close> is binary64 with round-to-nearest: a finite value is a
  rational, \<open>fl\<close> rounds, and the comparisons are those of IEEE 754, so \<open>NaN\<close> is below nothing;
  \<open>feq\<close> is \<^verbatim>\<open>==\<close>. The sign of zero is not kept; no modelled code observes it. \<open>PyNum\<close> has the
  conversions, \<^verbatim>\<open>round\<close>, \<^verbatim>\<open>min\<close> and \<^verbatim>\<open>max\<close> in Python's order of arguments, decimal text and integer
  parsing; \<open>PyTime\<close> dates, offsets and the ISO week; \<open>PyMath\<close> the correctly rounded square root;
  \<open>PyText\<close> untyped configuration data. \<open>Domain\<close> has the enumerations and validated models. Python's
  integers are \<open>int\<close>, its strings \<open>string\<close>, dictionaries are maps, and lists where their order is
  observable; mutable objects are records that the operations return updated, and adapters that two
  owners share live in a store with addresses (\<open>RuntimeMode\<close>).

  \<^bold>\<open>The interfaces and their providers.\<close>
  \<^item> \<open>step_invariant\<close> (an initial state, a step and an invariant it keeps): \<open>bar_series\<close>,
    \<open>breaker_anchors\<close>, \<open>dedup_guard\<close>, \<open>stability\<close>, \<open>window\<close> and \<open>gate\<close> of the regime classifier,
    \<open>evidence\<close> of the tracker, \<open>trajectory_window\<close>, \<open>switches\<close>, \<open>lru\<close> of the bounded map, \<open>quotes\<close> of
    the re-quote lock, \<open>safe\<close> and \<open>guard\<close> of the dispatch engine, \<open>book\<close> of the paper broker.
  \<^item> \<open>monotone_step\<close> (an observation that a step only raises): \<open>feed_anchor\<close>, \<open>protection_peak\<close>,
    \<open>protection_facts\<close>, \<open>best_excursion\<close>, \<open>worst_excursion\<close>, \<open>outcome_store\<close>.
  \<^item> \<open>ticket_ledger\<close> (facts of one ticket, untouched by operations on another): \<open>psm_ledger\<close>,
    \<open>protection\<close>, \<open>recovery\<close>, \<open>hold\<close>, \<open>throttle\<close>, \<open>tracking\<close>, \<open>trajectories\<close>.
  \<^item> \<open>state_field\<close> and its extension \<open>field_pair\<close> (a record field as a dictionary, and two that do not
    disturb each other): the price, stop, flag and stamp views of \<open>TicketState\<close>.
  \<^item> \<open>pending_frame\<close> (a property of the order manager that its elementary writes keep, from which every
    run of the pending-order operations keeps it): \<open>quiet\<close>, \<open>bounded_contexts\<close>.

  \<^bold>\<open>What the lemmas show.\<close> For an emitted order: every gate was passed, the margin and, from an equity of 50 on, the
  exposure hold up to rounding, and the evaluation returns. For the stores: recovery from the intent file refines the
  abstract store, the outcome of a decision stays until it is repaired, a stored halt survives every restart until
  it is released, a view of the ticket store refines a map, and the row of a closed position has the last
  recorded stop. For the machines: exact characterisations of the
  debounce, of the breaker's verdict, of the recovery budget, of the reconnect window, of the
  excursions and of the arbitration. For the position loop: stops only tighten, an accepted close
  is final, and the conditions under which the loop closes. For the dispatch: an order goes out only
  through open gates, once per request, and never after the third refusal. For the paper broker: one
  credit per ticket in a session on one symbol, and the restart that breaks it. The error properties state what the
  code does where it departs from its own comments; the manifest lists each as a finding.

  \<^bold>\<open>Loops and fuel.\<close> Loops over lists are structural recursion. The eviction loop of the regime
  classifier has as fuel the number of buffered ticks, of which every round removes one. The
  market-impact loop of the risk engine is a \<open>partial_function\<close> in the option monad, because it can
  run forever on a contract with a tiny step (\<open>impact_loop_may_hang\<close>); \<open>evaluation_returns\<close> proves
  that it ends for every contract with sane steps. The quotes of the paper broker ask for one another
  down to the interpreter's recursion limit, which is the fuel of \<open>get_last_tick\<close>; within one symbol
  no second quote is asked for (lemma \<open>quote_cached\<close>), so any positive limit is enough. Retry loops of the live engine are not modelled.

  \<^bold>\<open>Parameters.\<close> What the sources only call is an argument: logarithms, exponential and powers of
  the C library (\<open>math_lib\<close>, the function of the drawdown penalty, the exponential of the sizing),
  NumPy's reductions (\<open>np_lib\<close>), the JSON text format (\<open>json_text\<close>), SHA-256 and \<^verbatim>\<open>repr\<close> of a float,
  the variates of the random generator (\<open>paper_world\<close>), clock readings, database rows, the success of a write
  (\<open>boot_env\<close>), the broker's answers (\<open>broker\<close>, \<open>swap_world\<close>, \<open>cancel_answers\<close>,
  \<open>listing\<close>, \<open>gates\<close>), the retrieved
  experiences of a tick (\<open>surroundings\<close>, \<open>tick_world\<close>), and the list of model probabilities
  (\<open>probs_view\<close>: a list of floats, or a read that raises).

  \<^bold>\<open>Not modelled.\<close> Logging, notifications and telemetry text everywhere. The adapters to the
  terminal (\<^verbatim>\<open>adapters/mt5\<close> beyond the broker clock and the pending orders: I/O) and the snapshots, bar
  history and replay reader of the paper broker,
  the databases (\<^verbatim>\<open>adapters/database\<close> beyond the safety row, \<^verbatim>\<open>database\<close>, \<^verbatim>\<open>storage\<close>: SQL text), the web server and its routes
  (\<^verbatim>\<open>web\<close>, \<^verbatim>\<open>gateway\<close>, \<^verbatim>\<open>platform_link\<close>, \<^verbatim>\<open>marketplace\<close>), training, labelling, research, shadow and model
  administration (\<^verbatim>\<open>training\<close>, \<^verbatim>\<open>labeling\<close>, \<^verbatim>\<open>research\<close>, \<^verbatim>\<open>shadow\<close>, \<^verbatim>\<open>model_generation\<close>, \<^verbatim>\<open>model_lab\<close>,
  \<^verbatim>\<open>model_lifecycle\<close> beyond the calibration: PyTorch and NumPy programs), the news ingestion and its
  language-model providers, reporting, forensics, release tooling and the command line. Of the
  engine itself, the signal policy (\<^verbatim>\<open>signals/policy.py\<close>), the reconciliation of closed deals beyond
  the stops of the closing row, the snapshot types of \<^verbatim>\<open>adapters/mt5/providers.py\<close>, the boot
  of \<^verbatim>\<open>application/live_engine.py\<close> beyond mode and safety state, its reconnect code and the notification half of the order manager remain.
\<close>

end
